(* ===== verification/SP_Prelude.thy ===== *)
theory SP_Prelude
  imports Complex_Main "HOL-Library.Word" "HOL-Library.Sublist" "HOL-Library.AList"
    "HOL-Library.Product_Lexorder"
begin

text \<open>
  Shared vocabulary of the development: the Rust standard library as the gateway uses it.
  A Rust \<open>&str\<close> is a UTF-8 byte sequence that is indexed by byte offset; it is modelled as
  \<^typ>\<open>string\<close>, one \<^typ>\<open>char\<close> per byte. The group below models \<open>str::find\<close>,
  \<open>str::replace\<close>, \<open>str::split\<close>, \<open>str::trim\<close>, \<open>is_char_boundary\<close>, case conversion and the
  \<open>HashMap\<close> operations. White space is Unicode's; case conversion follows the ASCII rules:
  the class names, roles, levels and flags the gateway folds are ASCII literals, and bytes of
  multi-byte characters (128 and above) are left alone by it.
  JSON values (\<open>serde_json::Value\<close>) are a datatype; numbers are exact rationals, since every
  finite binary float is one.
\<close>

named_theorems str_simps \<open>evaluation rules for the byte-string operations\<close>

section \<open>Bytes and characters\<close>

definition byte_of :: "char \<Rightarrow> nat" where
  "byte_of c = of_char c"

definition is_cont :: "char \<Rightarrow> bool" where
  "is_cont c = (128 \<le> byte_of c \<and> byte_of c < 192)"

text \<open>\<open>str::is_char_boundary\<close>: offset 0, the length, or a byte that starts a character.\<close>

definition is_char_boundary :: "string \<Rightarrow> nat \<Rightarrow> bool" where
  "is_char_boundary s i = (i = 0 \<or> i = length s \<or> (i < length s \<and> \<not> is_cont (s ! i)))"

lemma ascii_boundary: "\<forall>c \<in> set s. \<not> is_cont c \<Longrightarrow> is_char_boundary s i = (i \<le> length s)"
  by (auto simp: is_char_boundary_def)

text \<open>\<open>s.chars().count()\<close>: the bytes that start a character.\<close>

definition char_count :: "string \<Rightarrow> nat" where
  "char_count s = length (filter (\<lambda>c. \<not> is_cont c) s)"

definition is_ascii_uppercase :: "char \<Rightarrow> bool" where
  "is_ascii_uppercase c = (65 \<le> byte_of c \<and> byte_of c \<le> 90)"

definition is_ascii_lowercase :: "char \<Rightarrow> bool" where
  "is_ascii_lowercase c = (97 \<le> byte_of c \<and> byte_of c \<le> 122)"

text \<open>
  Whether the first character of UTF-8 bytes is white space in the sense of
  \<open>char::is_whitespace\<close>: the ASCII ones, U+0085, U+00A0, U+1680, U+2000 to U+200A, U+2028,
  U+2029, U+202F, U+205F and U+3000.
\<close>

definition starts_ws :: "string \<Rightarrow> bool" where
  "starts_ws s = (case map byte_of (take 3 s) of
     [] \<Rightarrow> False
   | b # bs \<Rightarrow> (9 \<le> b \<and> b \<le> 13) \<or> b = 32 \<or>
       (b = 194 \<and> (take 1 bs = [133] \<or> take 1 bs = [160])) \<or>
       (b = 225 \<and> bs = [154, 128]) \<or>
       (b = 226 \<and> (case bs of [c, d] \<Rightarrow>
           (c = 128 \<and> ((128 \<le> d \<and> d \<le> 138) \<or> d = 168 \<or> d = 169 \<or> d = 175)) \<or> (c = 129 \<and> d = 159)
         | _ \<Rightarrow> False)) \<or>
       (b = 227 \<and> bs = [128, 128]))"

definition char_upper :: "char \<Rightarrow> char" where
  "char_upper c = (if is_ascii_lowercase c then char_of (byte_of c - 32) else c)"

definition char_lower :: "char \<Rightarrow> char" where
  "char_lower c = (if is_ascii_uppercase c then char_of (byte_of c + 32) else c)"

definition to_uppercase :: "string \<Rightarrow> string" where
  "to_uppercase s = map char_upper s"

definition to_lowercase :: "string \<Rightarrow> string" where
  "to_lowercase s = map char_lower s"

definition eq_ignore_ascii_case :: "string \<Rightarrow> string \<Rightarrow> bool" where
  "eq_ignore_ascii_case a b = (to_lowercase a = to_lowercase b)"

text \<open>\<open>str::chars\<close> on UTF-8 bytes, each character as its bytes; \<open>trim\<close> and \<open>split_whitespace\<close> on them.\<close>

function utf8_chars :: "string \<Rightarrow> string list" where
  "utf8_chars [] = []"
| "utf8_chars (c # s) = (c # takeWhile is_cont s) # utf8_chars (dropWhile is_cont s)"
  by pat_completeness auto
termination
  by (relation "measure length") (auto simp: less_Suc_eq_le length_dropWhile_le)

definition trim :: "string \<Rightarrow> string" where
  "trim s = concat (rev (dropWhile starts_ws (rev (dropWhile starts_ws (utf8_chars s)))))"

text \<open>\<open>String::from_utf8\<close> accepts exactly the well-formed byte sequences.\<close>

fun valid_utf8 :: "string \<Rightarrow> bool" where
  "valid_utf8 [] = True"
| "valid_utf8 (c # s) =
     (let b = byte_of c in
      if b < 128 then valid_utf8 s
      else if 194 \<le> b \<and> b \<le> 223 then (case s of c1 # s' \<Rightarrow> is_cont c1 \<and> valid_utf8 s' | _ \<Rightarrow> False)
      else if 224 \<le> b \<and> b \<le> 239 then
        (case s of c1 # c2 # s' \<Rightarrow> is_cont c1 \<and> is_cont c2 \<and> (b = 224 \<longrightarrow> 160 \<le> byte_of c1) \<and>
            (b = 237 \<longrightarrow> byte_of c1 \<le> 159) \<and> valid_utf8 s' | _ \<Rightarrow> False)
      else if 240 \<le> b \<and> b \<le> 244 then
        (case s of c1 # c2 # c3 # s' \<Rightarrow> is_cont c1 \<and> is_cont c2 \<and> is_cont c3 \<and>
            (b = 240 \<longrightarrow> 144 \<le> byte_of c1) \<and> (b = 244 \<longrightarrow> byte_of c1 \<le> 143) \<and> valid_utf8 s' | _ \<Rightarrow> False)
      else False)"

text \<open>The number of maximal runs of characters that are not white space.\<close>

fun count_words :: "bool \<Rightarrow> string list \<Rightarrow> nat" where
  "count_words inside [] = 0"
| "count_words inside (c # cs) =
     (if starts_ws c then count_words False cs
      else if inside then count_words True cs else Suc (count_words True cs))"

definition word_count :: "string \<Rightarrow> nat" where
  "word_count s = count_words False (utf8_chars s)"

text \<open>The byte range \<open>s[i..j]\<close>; the callers check \<open>i \<le> j\<close> and the bounds first.\<close>

definition substr :: "string \<Rightarrow> nat \<Rightarrow> nat \<Rightarrow> string" where
  "substr s i j = take (j - i) (drop i s)"

section \<open>Searching and replacing\<close>

text \<open>\<open>str::find\<close> with a string pattern: the offset of the first occurrence.\<close>

fun str_find :: "string \<Rightarrow> string \<Rightarrow> nat option" where
  "str_find p [] = (if p = [] then Some 0 else None)"
| "str_find p (c # s) = (if prefix p (c # s) then Some 0 else map_option Suc (str_find p s))"

definition str_contains :: "string \<Rightarrow> string \<Rightarrow> bool" where
  "str_contains s p = (str_find p s \<noteq> None)"

text \<open>
  \<open>str::replace\<close>: every non-overlapping occurrence, left to right. The empty pattern matches
  at every character boundary, as in Rust.
\<close>

function replace_ne :: "string \<Rightarrow> string \<Rightarrow> string \<Rightarrow> string" where
  "replace_ne p r s =
     (if p = [] then s
      else if s = [] then []
      else if prefix p s then r @ replace_ne p r (drop (length p) s)
      else hd s # replace_ne p r (tl s))"
  by pat_completeness auto
termination
  by (relation "measure (\<lambda>(p, r, s). length s)") auto

declare replace_ne.simps [simp del]

fun intersperse_boundaries :: "string \<Rightarrow> string \<Rightarrow> string" where
  "intersperse_boundaries r [] = r"
| "intersperse_boundaries r (c # s) =
     (if is_cont c then c # intersperse_boundaries r s else r @ c # intersperse_boundaries r s)"

definition str_replace :: "string \<Rightarrow> string \<Rightarrow> string \<Rightarrow> string" where
  "str_replace p r s = (if p = [] then intersperse_boundaries r s else replace_ne p r s)"

text \<open>\<open>str::split(c)\<close> and joining the pieces with a separator.\<close>

fun split_on :: "char \<Rightarrow> string \<Rightarrow> string list" where
  "split_on c [] = [[]]"
| "split_on c (x # xs) =
     (if x = c then [] # split_on c xs
      else (case split_on c xs of [] \<Rightarrow> [[x]] | w # ws \<Rightarrow> (x # w) # ws))"

fun join_with :: "string \<Rightarrow> string list \<Rightarrow> string" where
  "join_with sep [] = []"
| "join_with sep [w] = w"
| "join_with sep (w # v # ws) = w @ sep @ join_with sep (v # ws)"

text \<open>Decimal rendering of an unsigned integer (\<open>format!("{}", n)\<close>).\<close>

fun show_nat :: "nat \<Rightarrow> string" where
  "show_nat n = (if n < 10 then [char_of (48 + n)] else show_nat (n div 10) @ [char_of (48 + n mod 10)])"

declare show_nat.simps [simp del]

section \<open>Lemmas on characters, joining and decimals\<close>

lemma byte_of_char_of [simp]: "byte_of (char_of (n::nat)) = n mod 256"
  by (simp add: byte_of_def of_char_of)

lemma byte_of_inj: "byte_of a = byte_of b \<longleftrightarrow> a = b"
  by (simp add: byte_of_def)

lemma byte_char_upper: "byte_of (char_upper c) = (if is_ascii_lowercase c then byte_of c - 32 else byte_of c)"
  by (auto simp: char_upper_def is_ascii_lowercase_def)

lemma byte_char_lower: "byte_of (char_lower c) = (if is_ascii_uppercase c then byte_of c + 32 else byte_of c)"
  by (auto simp: char_lower_def is_ascii_uppercase_def)

lemma char_upper_idem [simp]: "char_upper (char_upper c) = char_upper c"
  by (auto simp: byte_of_inj [symmetric] byte_char_upper is_ascii_lowercase_def)

lemma char_upper_lower [simp]: "char_upper (char_lower c) = char_upper c"
  by (auto simp: byte_of_inj [symmetric] byte_char_upper byte_char_lower is_ascii_lowercase_def is_ascii_uppercase_def)

lemma char_upper_sym: "\<not> (65 \<le> byte_of d \<and> byte_of d \<le> 90) \<Longrightarrow> char_upper c = d \<Longrightarrow> c = d"
  by (auto simp: byte_char_upper is_ascii_lowercase_def char_upper_def split: if_splits)

lemma char_lower_sym: "\<not> (97 \<le> byte_of d \<and> byte_of d \<le> 122) \<Longrightarrow> char_lower c = d \<Longrightarrow> c = d"
  by (auto simp: byte_char_lower is_ascii_uppercase_def char_lower_def split: if_splits)

lemma to_uppercase_idem [simp]: "to_uppercase (to_uppercase s) = to_uppercase s"
  by (simp add: to_uppercase_def)

lemma split_on_ne [simp]: "split_on c s \<noteq> []"
  by (induction s) (auto split: list.split)

lemma join_with_Cons: "ws \<noteq> [] \<Longrightarrow> join_with sep (w # ws) = w @ sep @ join_with sep ws"
  by (cases ws) auto

lemma join_split [simp]: "join_with [c] (split_on c s) = s"
proof (induction s)
  case Nil
  then show ?case by simp
next
  case (Cons x s)
  show ?case
  proof (cases "split_on c s")
    case Nil
    then show ?thesis by simp
  next
    case (Cons w ws)
    then show ?thesis using \<open>join_with [c] (split_on c s) = s\<close>
      by (cases ws) (auto simp: join_with_Cons)
  qed
qed

lemma join_with_map:
  "map f sep = sep \<Longrightarrow> join_with sep (map (map f) ws) = map f (join_with sep ws)"
  by (induction sep ws rule: join_with.induct) auto

definition is_digit :: "char \<Rightarrow> bool" where
  "is_digit c = (48 \<le> byte_of c \<and> byte_of c \<le> 57)"

lemma show_nat_digits: "c \<in> set (show_nat n) \<Longrightarrow> is_digit c"
proof (induction n rule: show_nat.induct)
  case (1 n)
  then show ?case
    by (subst (asm) (2) show_nat.simps) (auto simp: is_digit_def split: if_splits)
qed

definition digits_val :: "string \<Rightarrow> nat" where
  "digits_val s = fold (\<lambda>c acc. 10 * acc + (byte_of c - 48)) s 0"

lemma digits_val_show [simp]: "digits_val (show_nat n) = n"
proof (induction n rule: show_nat.induct)
  case (1 n)
  then show ?case
    by (subst show_nat.simps) (auto simp: digits_val_def)
qed

lemma show_nat_inj [simp]: "show_nat m = show_nat n \<longleftrightarrow> m = n"
  by (metis digits_val_show)

lemma append_last_sep:
  assumes "sep \<notin> set b" "sep \<notin> set d" "a @ sep # b = c @ sep # d"
  shows "a = c \<and> b = d"
  using assms by (induction a arbitrary: c) (auto simp: Cons_eq_append_conv append_eq_Cons_conv)

section \<open>JSON values\<close>

datatype json =
    JNull
  | JBool bool
  | JNum rat
  | JStr string
  | JArr "json list"
  | JObj "(string \<times> json) list"

fun json_get :: "json \<Rightarrow> string \<Rightarrow> json option" where
  "json_get (JObj kvs) k = map_of kvs k"
| "json_get _ k = None"

fun as_str :: "json \<Rightarrow> string option" where
  "as_str (JStr s) = Some s"
| "as_str _ = None"

fun as_array :: "json \<Rightarrow> json list option" where
  "as_array (JArr xs) = Some xs"
| "as_array _ = None"

fun as_f64 :: "json \<Rightarrow> rat option" where
  "as_f64 (JNum q) = Some q"
| "as_f64 _ = None"

fun is_object :: "json \<Rightarrow> bool" where
  "is_object (JObj _) = True"
| "is_object _ = False"

definition get_str :: "json \<Rightarrow> string \<Rightarrow> string option" where
  "get_str v k = Option.bind (json_get v k) as_str"

section \<open>Hash maps\<close>

text \<open>
  A \<open>HashMap\<close> whose iteration order the code observes is an association list with distinct
  keys in that order; \<open>insert\<close> is \<^const>\<open>AList.update\<close>, \<open>get\<close> is \<^const>\<open>map_of\<close>.
\<close>

type_synonym ('k, 'v) hashmap = "('k \<times> 'v) list"

abbreviation hm_insert :: "'k \<Rightarrow> 'v \<Rightarrow> ('k, 'v) hashmap \<Rightarrow> ('k, 'v) hashmap" where
  "hm_insert \<equiv> AList.update"

text \<open>Results: \<open>Inl\<close> is \<open>Err\<close>, \<open>Inr\<close> is \<open>Ok\<close>.\<close>

type_synonym ('e, 'a) result = "'e + 'a"

text \<open>The \<open>?\<close> operator: go on with the value, or return the error.\<close>

definition rbind :: "('e, 'a) result \<Rightarrow> ('a \<Rightarrow> ('e, 'b) result) \<Rightarrow> ('e, 'b) result" where
  "rbind x f = (case x of Inl e \<Rightarrow> Inl e | Inr a \<Rightarrow> f a)"

lemma rbind_simps [simp]:
  "rbind (Inl e) f = Inl e"
  "rbind (Inr a) f = f a"
  by (simp_all add: rbind_def)

lemma rbind_Inr: "rbind x f = Inr b \<longleftrightarrow> (\<exists>a. x = Inr a \<and> f a = Inr b)"
  by (cases x) simp_all

lemma rbind_Inl: "rbind x f = Inl e \<longleftrightarrow> x = Inl e \<or> (\<exists>a. x = Inr a \<and> f a = Inl e)"
  by (cases x) auto

text \<open>\<open>if cond { return Err(e) }\<close>.\<close>

definition guard_err :: "bool \<Rightarrow> 'e \<Rightarrow> ('e, unit) result" where
  "guard_err bad e = (if bad then Inl e else Inr ())"

lemma guard_err_Inr [simp]: "guard_err b e = Inr u \<longleftrightarrow> \<not> b"
  by (simp add: guard_err_def)

lemma guard_err_Inl [simp]: "guard_err b e = Inl e' \<longleftrightarrow> b \<and> e' = e"
  by (auto simp: guard_err_def)

text \<open>\<open>Option::ok_or\<close> and \<open>Result::map_err\<close>.\<close>

definition ok_or :: "'a option \<Rightarrow> 'e \<Rightarrow> ('e, 'a) result" where
  "ok_or x e = (case x of None \<Rightarrow> Inl e | Some a \<Rightarrow> Inr a)"

lemma ok_or_Inr [simp]: "ok_or x e = Inr a \<longleftrightarrow> x = Some a"
  by (cases x) (simp_all add: ok_or_def)

definition map_err :: "('e \<Rightarrow> 'f) \<Rightarrow> ('e, 'a) result \<Rightarrow> ('f, 'a) result" where
  "map_err f x = (case x of Inl e \<Rightarrow> Inl (f e) | Inr a \<Rightarrow> Inr a)"

lemma map_err_Inr [simp]: "map_err f x = Inr a \<longleftrightarrow> x = Inr a"
  by (cases x) (simp_all add: map_err_def)

definition unwrap_or :: "'a \<Rightarrow> 'a option \<Rightarrow> 'a" where
  "unwrap_or d x = (case x of None \<Rightarrow> d | Some a \<Rightarrow> a)"

lemma unwrap_or_simps [simp]: "unwrap_or d None = d" "unwrap_or d (Some a) = a"
  by (simp_all add: unwrap_or_def)

text \<open>\<open>s.chars().take(n).collect()\<close> on the bytes of a UTF-8 string.\<close>

fun take_chars :: "nat \<Rightarrow> string \<Rightarrow> string" where
  "take_chars n [] = []"
| "take_chars n (c # s) =
     (if is_cont c then c # take_chars n s
      else case n of 0 \<Rightarrow> [] | Suc k \<Rightarrow> c # take_chars k s)"

lemma char_count_take_chars: "char_count (take_chars n s) = min n (char_count s)"
  by (induction n s rule: take_chars.induct) (auto simp: char_count_def split: nat.split)

lemma prefix_take_chars: "prefix (take_chars n s) s"
  by (induction n s rule: take_chars.induct) (auto split: nat.split)

lemma concat_utf8_chars [simp]: "concat (utf8_chars s) = s"
proof (induction s rule: utf8_chars.induct)
  case (2 c s)
  then show ?case by simp
qed simp

lemma trim_infix: "\<exists>a b. s = a @ trim s @ b"
proof -
  let ?cs = "utf8_chars s"
  let ?d = "dropWhile starts_ws ?cs"
  let ?r = "rev ?d"
  have "?r = takeWhile starts_ws ?r @ dropWhile starts_ws ?r" by simp
  then have "?d = rev (dropWhile starts_ws ?r) @ rev (takeWhile starts_ws ?r)"
    by (metis rev_append rev_rev_ident)
  then have "concat ?d = trim s @ concat (rev (takeWhile starts_ws ?r))"
    by (metis concat_append trim_def)
  moreover have "s = concat (takeWhile starts_ws ?cs) @ concat ?d"
    by (metis concat_append concat_utf8_chars takeWhile_dropWhile_id)
  ultimately show ?thesis by metis
qed

text \<open>The first element of a list that a property singles out.\<close>

lemma split_first_Cons:
  "(\<exists>pre post. x # xs = pre @ t # post \<and> (\<forall>y \<in> set pre. P y) \<and> Q) \<longleftrightarrow>
   (x = t \<and> Q) \<or> (P x \<and> (\<exists>pre post. xs = pre @ t # post \<and> (\<forall>y \<in> set pre. P y) \<and> Q))"
  (is "?L \<longleftrightarrow> ?R")
proof
  assume ?L
  then obtain pre post where e: "x # xs = pre @ t # post" "\<forall>y \<in> set pre. P y" "Q" by blast
  then show ?R by (cases pre) auto
next
  assume ?R
  then show ?L
  proof (elim disjE conjE exE)
    assume "x = t" "Q"
    then show ?thesis by (intro exI [of _ "[]"] exI [of _ xs]) auto
  next
    fix pre post assume "P x" "xs = pre @ t # post" "\<forall>y \<in> set pre. P y" "Q"
    then show ?thesis by (intro exI [of _ "x # pre"] exI [of _ post]) auto
  qed
qed

end
