(* ===== verification/SP_Types.thy ===== *)
theory SP_Types
  imports SP_Prelude
begin

text \<open>
  The shared data types of \<open>secureprompt-common\<close>: errors (\<open>errors.rs\<close>), detections, messages,
  policy results, token usage and the token vault (\<open>types.rs\<close>), and the state a request
  carries through the pipeline (\<open>pipeline.rs\<close>). The vault's \<open>HashMap\<close> is an association list
  whose order is the iteration order \<open>restore\<close> observes; the lemmas here and in the streaming
  theory say when that order does not matter.
\<close>

section \<open>Errors\<close>

datatype api_error =
    NotFound string
  | Unauthorized string
  | Forbidden string
  | BadRequest string
  | NotImplemented string
  | Internal string
  | Database string
  | BudgetExceeded string
  | ServiceUnavailable string
  | Conflict string
  | TooManyRequests string

datatype app_error = PipelineErr string | PolicyErr string | DetectionErr string

fun app_error_to_string :: "app_error \<Rightarrow> string" where
  "app_error_to_string (PipelineErr e) = ''pipeline error: '' @ e"
| "app_error_to_string (PolicyErr e) = ''policy evaluation error: '' @ e"
| "app_error_to_string (DetectionErr e) = ''detection error: '' @ e"

definition api_error_from :: "app_error \<Rightarrow> api_error" where
  "api_error_from e = Internal (app_error_to_string e)"

text \<open>How a call that does not return a value ends: a panic, or an error value.\<close>

datatype fault = Panicked | Failed api_error

type_synonym 'a outcome = "(fault, 'a) result"

fun lift_err :: "(api_error, 'a) result \<Rightarrow> 'a outcome" where
  "lift_err (Inl e) = Inl (Failed e)"
| "lift_err (Inr a) = Inr a"

section \<open>Data\<close>

text \<open>UUIDs are 128-bit values; \<open>Uuid::nil()\<close> is 0.\<close>

type_synonym uuid = "128 word"

definition uuid_nil :: uuid where
  "uuid_nil = 0"

record detection =
  det_class :: string
  confidence :: rat
  det_span :: "(nat \<times> nat) option"
  det_value :: string

record policy_event =
  ev_rule_id :: uuid
  ev_rule_name :: string
  ev_action :: string
  ev_dry_run :: bool

record policy_result =
  final_action :: string
  events :: "policy_event list"

record token_usage =
  input_tokens :: "32 word option"
  output_tokens :: "32 word option"
  reasoning_tokens :: "32 word option"
  cache_read_tokens :: "32 word option"
  cache_write_tokens :: "32 word option"

definition token_usage_default :: token_usage where
  "token_usage_default = \<lparr>input_tokens = None, output_tokens = None, reasoning_tokens = None,
     cache_read_tokens = None, cache_write_tokens = None\<rparr>"

record message =
  role :: string
  msg_content :: string

section \<open>The token vault\<close>

type_synonym token_vault = "(string, string) hashmap"

definition vault_empty :: token_vault where
  "vault_empty = []"

definition vault_insert :: "string \<Rightarrow> string \<Rightarrow> token_vault \<Rightarrow> token_vault" where
  "vault_insert placeholder original v = hm_insert placeholder original v"

definition vault_resolve :: "token_vault \<Rightarrow> string \<Rightarrow> string option" where
  "vault_resolve v placeholder = map_of v placeholder"

definition original_values :: "token_vault \<Rightarrow> string set" where
  "original_values v = set (map snd v)"

text \<open>\<open>TokenVault::restore\<close>: one \<open>str::replace\<close> per entry, in iteration order.\<close>

definition vault_restore :: "token_vault \<Rightarrow> string \<Rightarrow> string" where
  "vault_restore v content = fold (\<lambda>(p, orig) s. str_replace p orig s) v content"

definition vault_is_empty :: "token_vault \<Rightarrow> bool" where
  "vault_is_empty v = (v = [])"

definition vault_len :: "token_vault \<Rightarrow> nat" where
  "vault_len v = length v"

text \<open>The invariant of a hash map: no key twice.\<close>

definition vault_inv :: "token_vault \<Rightarrow> bool" where
  "vault_inv v = distinct (map fst v)"

text \<open>
  What a keyed store promises its clients: a lookup after an insert sees the inserted value,
  other keys are untouched, and the invariant is kept.
\<close>

locale keyed_store =
  fixes empty :: "'m"
    and insert :: "'k \<Rightarrow> 'v \<Rightarrow> 'm \<Rightarrow> 'm"
    and lookup :: "'m \<Rightarrow> 'k \<Rightarrow> 'v option"
    and invar :: "'m \<Rightarrow> bool"
  assumes lookup_empty: "lookup empty k = None"
    and lookup_insert: "invar m \<Longrightarrow> lookup (insert k v m) k' = (if k' = k then Some v else lookup m k')"
    and invar_empty: "invar empty"
    and invar_insert: "invar m \<Longrightarrow> invar (insert k v m)"
begin

definition insert_all :: "('k \<times> 'v) list \<Rightarrow> 'm \<Rightarrow> 'm" where
  "insert_all kvs m = fold (\<lambda>(k, v). insert k v) kvs m"

lemma invar_insert_all: "invar m \<Longrightarrow> invar (insert_all kvs m)"
  unfolding insert_all_def
  by (induction kvs arbitrary: m) (auto simp: invar_insert)

lemma lookup_insert_all:
  "invar m \<Longrightarrow> lookup (insert_all kvs m) k =
     (case map_of (rev kvs) k of Some v \<Rightarrow> Some v | None \<Rightarrow> lookup m k)"
  unfolding insert_all_def
proof (induction kvs arbitrary: m)
  case Nil
  then show ?case by simp
next
  case (Cons kv kvs)
  then show ?case
    by (cases kv) (auto simp: invar_insert lookup_insert map_add_def split: option.splits)
qed

end

lemma vault_inv_insert: "vault_inv v \<Longrightarrow> vault_inv (vault_insert p orig v)"
  by (simp add: vault_inv_def vault_insert_def distinct_update)

interpretation vs: keyed_store vault_empty vault_insert vault_resolve vault_inv
  by unfold_locales
    (auto simp: vault_empty_def vault_resolve_def vault_insert_def update_conv' vault_inv_def
      distinct_update)

lemma vault_len_insert:
  "vault_inv v \<Longrightarrow> vault_len (vault_insert p orig v) =
     (if vault_resolve v p = None then Suc (vault_len v) else vault_len v)"
  unfolding vault_insert_def vault_len_def vault_resolve_def
  by (induction v) (auto simp: vault_inv_def)

lemma original_values_insert:
  "original_values (vault_insert p orig v) \<subseteq> insert orig (original_values v)"
  unfolding original_values_def vault_insert_def
  by (induction v) auto

section \<open>Pipeline state\<close>

record pipeline_state =
  vault :: token_vault
  detections :: "detection list"
  ps_policy_events :: "policy_event list"
  redaction_map :: "(string, string) hashmap"

definition pipeline_state_default :: pipeline_state where
  "pipeline_state_default = \<lparr>vault = vault_empty, detections = [], ps_policy_events = [],
     redaction_map = []\<rparr>"

record pipeline_input =
  pi_request_id :: uuid
  pi_workspace_id :: uuid
  pi_provider_id :: uuid
  pi_messages :: "message list"
  pi_stream :: bool
  pi_model :: string
  pi_extra_params :: json

record provider_response =
  pr_content :: string
  pr_model :: string
  pr_finish_reason :: "string option"
  pr_embedding :: "rat list option"

record pipeline_output =
  po_response :: provider_response
  po_usage :: token_usage
  po_redaction_map :: "(string, string) hashmap"
  po_policy_result :: policy_result

end
