(* ===== verification/Placeholder_Text.thy ===== *)
theory Placeholder_Text
  imports SP_Types
begin

text \<open>
  Texts that carry placeholders of the form \<open>{{Class_N}}\<close>: a token view of such a text, and
  what \<open>TokenVault::restore\<close> (a sequence of \<open>str::replace\<close> calls) does to it. The main fact is
  that on well-formed vaults the sequential replacement equals the simultaneous substitution
  of every placeholder by the value the vault resolves it to; so it does not depend on the
  iteration order of the hash map, and it distributes over any cut between two tokens.
\<close>

section \<open>Occurrences and replacement\<close>

abbreviation lbrace :: char where "lbrace \<equiv> CHR ''{''"
abbreviation rbrace :: char where "rbrace \<equiv> CHR ''}''"

lemma replace_ne_Nil [simp]: "replace_ne p r [] = []"
  by (simp add: replace_ne.simps)

lemma replace_ne_skip:
  "p \<noteq> [] \<Longrightarrow> \<not> prefix p (c # s) \<Longrightarrow> replace_ne p r (c # s) = c # replace_ne p r s"
  by (subst replace_ne.simps) simp

lemma replace_ne_hit: "p \<noteq> [] \<Longrightarrow> replace_ne p r (p @ s) = r @ replace_ne p r s"
  by (subst replace_ne.simps) simp

lemma replace_ne_skip_list:
  assumes "p = c # p'" and "c \<notin> set l"
  shows "replace_ne p r (l @ t) = l @ replace_ne p r t"
  using assms(2)
proof (induction l)
  case Nil
  then show ?case by simp
next
  case (Cons x l)
  then have "\<not> prefix p (x # l @ t)" using assms(1) by auto
  then show ?case using Cons assms(1) by (simp add: replace_ne_skip)
qed

section \<open>Tokens\<close>

definition brace_free :: "string \<Rightarrow> bool" where
  "brace_free s = (lbrace \<notin> set s \<and> rbrace \<notin> set s)"

lemma brace_free_append [simp]: "brace_free (a @ b) = (brace_free a \<and> brace_free b)"
  by (auto simp: brace_free_def)

lemma brace_free_Cons [simp]: "brace_free (c # s) = (c \<noteq> lbrace \<and> c \<noteq> rbrace \<and> brace_free s)"
  by (auto simp: brace_free_def)

lemma brace_free_Nil [simp]: "brace_free []"
  by (simp add: brace_free_def)

definition ph_text :: "string \<Rightarrow> string" where
  "ph_text b = ''{{'' @ b @ ''}}''"

lemma ph_text_inj [simp]: "ph_text a = ph_text b \<longleftrightarrow> a = b"
  by (simp add: ph_text_def)

lemma ph_text_ne [simp]: "ph_text b \<noteq> []"
  by (simp add: ph_text_def)

datatype tok = Lit char | Ph string

fun tok_text :: "tok \<Rightarrow> string" where
  "tok_text (Lit c) = [c]"
| "tok_text (Ph b) = ph_text b"

definition flat :: "tok list \<Rightarrow> string" where
  "flat ts = concat (map tok_text ts)"

lemma flat_simps [simp]:
  "flat [] = []"
  "flat (Lit c # ts) = c # flat ts"
  "flat (Ph b # ts) = ph_text b @ flat ts"
  "flat (ts @ us) = flat ts @ flat us"
  "flat (map Lit s @ ts) = s @ flat ts"
  by (induction s) (simp_all add: flat_def)

lemma flat_map_Lit [simp]: "flat (map Lit s) = s"
  using flat_simps(5) [of s "[]"] by simp

text \<open>
  A token list reads back uniquely when placeholder bodies hold no brace and the literal text
  never has two opening braces in a row. Single braces (JSON, code) are allowed.
\<close>

fun ok_toks :: "tok list \<Rightarrow> bool" where
  "ok_toks [] = True"
| "ok_toks [Lit c] = True"
| "ok_toks (Lit c # Lit d # ts) = (\<not> (c = lbrace \<and> d = lbrace) \<and> ok_toks (Lit d # ts))"
| "ok_toks (Lit c # Ph b # ts) = ok_toks (Ph b # ts)"
| "ok_toks (Ph b # ts) = (brace_free b \<and> ok_toks ts)"

lemma ok_toks_Lit_tail: "ok_toks (Lit c # ts) \<Longrightarrow> ok_toks ts"
  by (cases "Lit c # ts" rule: ok_toks.cases) auto

lemma ok_toks_tail: "ok_toks (t # ts) \<Longrightarrow> ok_toks ts"
  by (cases t) (auto dest: ok_toks_Lit_tail)

lemma ok_toks_appendD2: "ok_toks (ts @ us) \<Longrightarrow> ok_toks us"
  by (induction ts) (auto dest: ok_toks_tail)

lemma ok_toks_appendD1: "ok_toks (ts @ us) \<Longrightarrow> ok_toks ts"
proof (induction ts rule: ok_toks.induct)
  case (2 c)
  then show ?case by simp
qed auto

lemma brace_split:
  assumes "rbrace \<notin> set a" "rbrace \<notin> set b" "a @ rbrace # x = b @ rbrace # y"
  shows "a = b \<and> x = y"
  using assms by (induction a arbitrary: b) (auto simp: Cons_eq_append_conv append_eq_Cons_conv)

lemma prefix_ph_eq:
  assumes "brace_free a" "brace_free b" "prefix (ph_text a) (ph_text b @ t)"
  shows "a = b"
proof -
  from assms(3) obtain z where "a @ rbrace # rbrace # z = b @ rbrace # rbrace # t"
    by (auto simp: prefix_def ph_text_def)
  then show ?thesis using assms(1,2) by (auto simp: brace_free_def dest: brace_split)
qed

lemma no_prefix_single_brace:
  assumes "brace_free a" "brace_free b"
  shows "\<not> prefix (ph_text a) (lbrace # b @ rbrace # t)"
  using assms by (cases b) (auto simp: ph_text_def brace_free_def)

lemma no_prefix_Lit:
  assumes "brace_free a" "ok_toks (Lit c # ts)"
  shows "\<not> prefix (ph_text a) (c # flat ts)"
proof (cases ts)
  case Nil
  then show ?thesis by (simp add: ph_text_def)
next
  case (Cons t ts')
  then show ?thesis
    using assms by (cases t; cases a) (auto simp: ph_text_def brace_free_def)
qed

lemma replace_other_ph:
  assumes "brace_free a" "brace_free b" "a \<noteq> b"
  shows "replace_ne (ph_text a) r (ph_text b @ t) = ph_text b @ replace_ne (ph_text a) r t"
proof -
  let ?p = "ph_text a"
  have hd: "?p = lbrace # (lbrace # a @ ''}}'')" by (simp add: ph_text_def)
  have nb: "lbrace \<notin> set (b @ ''}}'')" using assms(2) by (simp add: brace_free_def)
  have 0: "\<not> prefix ?p (lbrace # lbrace # (b @ ''}}'') @ t)"
    using prefix_ph_eq [OF assms(1,2), of t] assms(3) by (auto simp: ph_text_def)
  have 1: "\<not> prefix ?p (lbrace # (b @ ''}}'') @ t)"
    using no_prefix_single_brace [OF assms(1,2), of "rbrace # t"] by simp
  have "replace_ne ?p r (lbrace # lbrace # (b @ ''}}'') @ t)
        = lbrace # lbrace # replace_ne ?p r ((b @ ''}}'') @ t)"
    using 0 1 by (simp only: replace_ne_skip ph_text_ne not_False_eq_True)
  also have "\<dots> = lbrace # lbrace # (b @ ''}}'') @ replace_ne ?p r t"
    using replace_ne_skip_list [OF hd nb] by simp
  finally show ?thesis by (simp add: ph_text_def)
qed

section \<open>Replacement and restoration on tokens\<close>

fun subst_tok :: "string \<Rightarrow> string \<Rightarrow> tok \<Rightarrow> tok list" where
  "subst_tok b r (Lit c) = [Lit c]"
| "subst_tok b r (Ph a) = (if a = b then map Lit r else [Ph a])"

lemma replace_flat:
  assumes "brace_free b" "ok_toks ts"
  shows "replace_ne (ph_text b) r (flat ts) = flat (concat (map (subst_tok b r) ts))"
  using assms(2)
proof (induction ts)
  case Nil
  then show ?case by simp
next
  case (Cons t ts)
  then have IH: "replace_ne (ph_text b) r (flat ts) = flat (concat (map (subst_tok b r) ts))"
    using ok_toks_tail by blast
  show ?case
  proof (cases t)
    case (Lit c)
    then show ?thesis
      using Cons.prems assms(1) IH no_prefix_Lit
      by (simp add: replace_ne_skip)
  next
    case (Ph a)
    then show ?thesis
      using Cons.prems assms(1) IH
      by (auto simp: replace_ne_hit replace_other_ph)
  qed
qed

text \<open>Replacing a placeholder by a brace-free value keeps the text readable.\<close>

lemma ok_toks_map_Lit: "lbrace \<notin> set r \<Longrightarrow> r \<noteq> [] \<Longrightarrow> ok_toks (map Lit r @ ts) = ok_toks ts"
proof (induction r)
  case Nil
  then show ?case by simp
next
  case (Cons c r)
  show ?case
  proof (cases r)
    case Nil
    with Cons.prems show ?thesis by (cases "Lit c # ts" rule: ok_toks.cases) auto
  next
    case (Cons d r')
    with Cons.prems Cons.IH show ?thesis by auto
  qed
qed

lemma ok_toks_Cons_Lit:
  "ok_toks (Lit c # ts) \<longleftrightarrow> ok_toks ts \<and> (c = lbrace \<longrightarrow> (case ts of Lit d # _ \<Rightarrow> d \<noteq> lbrace | _ \<Rightarrow> True))"
  by (cases "Lit c # ts" rule: ok_toks.cases) auto

lemma subst_tok_starts:
  assumes "r \<noteq> []" "lbrace \<notin> set r"
    and "case ts of Lit d # _ \<Rightarrow> d \<noteq> lbrace | _ \<Rightarrow> True"
  shows "case concat (map (subst_tok b r) ts) of Lit d # _ \<Rightarrow> d \<noteq> lbrace | _ \<Rightarrow> True"
  using assms by (cases ts; cases r) (auto split: tok.splits)

lemma ok_toks_subst:
  assumes "r \<noteq> []" "lbrace \<notin> set r" "ok_toks ts"
  shows "ok_toks (concat (map (subst_tok b r) ts))"
  using assms(3)
proof (induction ts)
  case Nil
  then show ?case by simp
next
  case (Cons t ts)
  then have IH: "ok_toks (concat (map (subst_tok b r) ts))" using ok_toks_tail by blast
  show ?case
  proof (cases t)
    case (Lit c)
    with Cons.prems IH assms(1,2) show ?thesis
      by (simp add: ok_toks_Cons_Lit subst_tok_starts)
  next
    case (Ph a)
    with Cons.prems IH assms(1,2) show ?thesis
      by (auto simp: ok_toks_map_Lit)
  qed
qed

text \<open>
  A well-formed vault: every key is a placeholder with a brace-free body, every original is a
  non-empty brace-free string. (\<open>Drop\<close>-zeroing of the secrets has no observable result.)
\<close>

definition wf_vault :: "token_vault \<Rightarrow> bool" where
  "wf_vault v = (\<forall>(p, orig) \<in> set v. (\<exists>b. p = ph_text b \<and> brace_free b) \<and> orig \<noteq> [] \<and> brace_free orig)"

lemma wf_vault_Cons:
  "wf_vault ((p, orig) # v) \<longleftrightarrow>
     (\<exists>b. p = ph_text b \<and> brace_free b) \<and> orig \<noteq> [] \<and> brace_free orig \<and> wf_vault v"
  by (auto simp: wf_vault_def)

fun resolve_tok :: "token_vault \<Rightarrow> tok \<Rightarrow> tok list" where
  "resolve_tok v (Lit c) = [Lit c]"
| "resolve_tok v (Ph b) = (case map_of v (ph_text b) of Some r \<Rightarrow> map Lit r | None \<Rightarrow> [Ph b])"

lemma resolve_tok_map_Lit [simp]:
  "concat (map (resolve_tok v \<circ> Lit) s) = map Lit s"
  "concat (map (resolve_tok v) (map Lit s)) = map Lit s"
  by (induction s) simp_all

lemma resolve_tok_empty [simp]: "resolve_tok [] t = [t]"
  by (cases t) simp_all

lemma resolve_after_subst:
  "concat (map (resolve_tok v) (concat (map (subst_tok b r) ts)))
     = concat (map (resolve_tok ((ph_text b, r) # v)) ts)"
proof (induction ts)
  case Nil
  then show ?case by simp
next
  case (Cons t ts)
  then show ?case
    by (cases t) (auto split: option.splits)
qed

theorem restore_flat:
  "wf_vault v \<Longrightarrow> ok_toks ts \<Longrightarrow> vault_restore v (flat ts) = flat (concat (map (resolve_tok v) ts))"
proof (induction v arbitrary: ts)
  case Nil
  have "concat (map (resolve_tok []) ts) = ts"
    by (induction ts) simp_all
  then show ?case by (simp add: vault_restore_def)
next
  case (Cons e v)
  obtain p r where e: "e = (p, r)" by (cases e)
  with Cons.prems obtain b where b: "p = ph_text b" "brace_free b" and r: "r \<noteq> []" "brace_free r"
    and v: "wf_vault v" by (auto simp: wf_vault_Cons)
  let ?ts = "concat (map (subst_tok b r) ts)"
  have "vault_restore (e # v) (flat ts) = vault_restore v (flat ?ts)"
    using replace_flat [OF b(2) Cons.prems(2)] by (simp add: vault_restore_def e b str_replace_def)
  also have "\<dots> = flat (concat (map (resolve_tok v) ?ts))"
    using r Cons.prems(2) by (intro Cons.IH [OF v] ok_toks_subst) (auto simp: brace_free_def)
  finally show ?case by (simp add: resolve_after_subst e b)
qed

lemma restore_append:
  assumes "wf_vault v" "ok_toks (ts @ us)"
  shows "vault_restore v (flat (ts @ us)) = vault_restore v (flat ts) @ vault_restore v (flat us)"
  using assms restore_flat [OF assms] restore_flat [OF assms(1) ok_toks_appendD1 [OF assms(2)]]
    restore_flat [OF assms(1) ok_toks_appendD2 [OF assms(2)]]
  by simp

end
