(* ===== verification/Vault_Redaction.thy ===== *)
theory Vault_Redaction
  imports Placeholder_Text
begin

text \<open>
  \<open>secureprompt-api/src/vault/redaction.rs\<close>: \<open>title_case\<close>, \<open>apply_redaction\<close>,
  \<open>apply_transform\<close>, \<open>render_template\<close> and \<open>restore_content\<close>. The loop over the sorted
  detections is a fold over a record of its local variables. The lemmas show which bytes the
  loop covers, that placeholders identify (class, value) pairs, and what the vault holds
  afterwards.
\<close>

section \<open>Definitions\<close>

text \<open>The legacy stateless placeholder; \<open>sha256_hex\<close> stands for \<open>hex::encode(Sha256::digest(_))\<close>.\<close>

definition placeholder_for :: "(string \<Rightarrow> string) \<Rightarrow> string \<Rightarrow> string \<Rightarrow> string" where
  "placeholder_for sha256_hex cls v =
     ''[REDACTED:'' @ to_uppercase cls @ '':'' @ take 16 (sha256_hex v) @ '']''"

definition usize_max :: nat where
  "usize_max = 2 ^ 64 - 1"

fun cap_word :: "string \<Rightarrow> string" where
  "cap_word [] = []"
| "cap_word (c # cs) = char_upper c # to_lowercase cs"

definition title_case :: "string \<Rightarrow> string" where
  "title_case cls = join_with ''_'' (map cap_word (split_on CHR ''_'' cls))"

text \<open>
  The sort key of \<open>sort_by\<close>: the start ascending, then the length descending; a missing span
  counts as \<open>(usize::MAX, usize::MAX)\<close>. Subtraction on \<^typ>\<open>nat\<close> is \<open>saturating_sub\<close>.
\<close>

definition span_key :: "detection \<Rightarrow> nat \<times> int" where
  "span_key d = (let sp = (case det_span d of None \<Rightarrow> (usize_max, usize_max) | Some sp \<Rightarrow> sp)
     in (fst sp, - int (snd sp - fst sp)))"

definition ordered :: "detection list \<Rightarrow> detection list" where
  "ordered ds = sort_key span_key ds"

text \<open>The token \<open>{{Title_Case_Class_N}}\<close>, by its class and counter.\<close>

definition token_body :: "string \<Rightarrow> nat \<Rightarrow> string" where
  "token_body class_upper n = title_case class_upper @ ''_'' @ show_nat n"

definition token_for :: "string \<Rightarrow> nat \<Rightarrow> string" where
  "token_for class_upper n = ph_text (token_body class_upper n)"

text \<open>
  The local variables of \<open>apply_redaction\<close>. The per-class counters are \<open>u32\<close> in the code; they
  count distinct values of one request and are unbounded here.
\<close>

record redact_st =
  cursor :: nat
  redacted :: string
  assigned :: "string \<times> string \<Rightarrow> string option"
  counters :: "string \<Rightarrow> nat option"
  r_vault :: token_vault
  r_map :: "(string, string) hashmap"

definition span_usable :: "string \<Rightarrow> nat \<Rightarrow> nat \<times> nat \<Rightarrow> bool" where
  "span_usable content cur sp =
     (\<not> (fst sp < cur \<or> snd sp > length content) \<and>
      is_char_boundary content (fst sp) \<and> is_char_boundary content (snd sp))"

text \<open>\<open>counters.entry(class).or_insert(0)\<close>.\<close>

definition counter_of :: "redact_st \<Rightarrow> string \<Rightarrow> nat" where
  "counter_of st cls = (case counters st cls of None \<Rightarrow> 0 | Some k \<Rightarrow> k)"

definition assign_placeholder :: "detection \<Rightarrow> redact_st \<Rightarrow> string \<times> redact_st" where
  "assign_placeholder d st =
     (let class_upper = to_uppercase (det_class d); key = (class_upper, det_value d) in
      case assigned st key of
        Some existing \<Rightarrow> (existing, st)
      | None \<Rightarrow>
          (let n = counter_of st class_upper + 1;
               token = token_for class_upper n
           in (token, st\<lparr>counters := (counters st)(class_upper \<mapsto> n),
                         assigned := (assigned st)(key \<mapsto> token)\<rparr>)))"

definition redact_step :: "string \<Rightarrow> detection \<Rightarrow> redact_st \<Rightarrow> redact_st" where
  "redact_step content d st =
     (case det_span d of
        None \<Rightarrow> st
      | Some (start, end) \<Rightarrow>
          if \<not> span_usable content (cursor st) (start, end) then st
          else let gap = substr content (cursor st) start;
                   (placeholder, st1) = assign_placeholder d st
               in st1\<lparr>r_vault := vault_insert placeholder (det_value d) (r_vault st1),
                      r_map := hm_insert placeholder (det_value d) (r_map st1),
                      redacted := redacted st1 @ gap @ placeholder,
                      cursor := end\<rparr>)"

definition redact_init :: "token_vault \<Rightarrow> (string, string) hashmap \<Rightarrow> redact_st" where
  "redact_init v m = \<lparr>cursor = 0, redacted = [], assigned = Map.empty, counters = Map.empty,
     r_vault = v, r_map = m\<rparr>"

definition redact_loop :: "string \<Rightarrow> detection list \<Rightarrow> redact_st \<Rightarrow> redact_st" where
  "redact_loop content ds st = fold (redact_step content) ds st"

definition apply_redaction ::
  "string \<Rightarrow> detection list \<Rightarrow> token_vault \<Rightarrow> (string, string) hashmap
     \<Rightarrow> string \<times> token_vault \<times> (string, string) hashmap" where
  "apply_redaction content ds v m =
     (let st = redact_loop content (ordered ds) (redact_init v m)
      in (redacted st @ drop (cursor st) content, r_vault st, r_map st))"

text \<open>
  \<open>render_template\<close>: the last four bytes of the value. The substr panics when that offset is
  inside a character; the panic is \<open>None\<close>.
\<close>

definition render_template :: "string \<Rightarrow> string \<Rightarrow> string option" where
  "render_template template v =
     (let k = length v - 4 in
      if length v > 4 \<and> \<not> is_char_boundary v k then None
      else let tail = (if length v > 4 then drop k v else v)
           in Some (str_replace ''{value}'' v (str_replace ''{value[-4:]}'' tail template)))"

fun transform_step ::
  "string \<Rightarrow> string \<Rightarrow> detection \<Rightarrow> (nat \<times> string) option \<Rightarrow> (nat \<times> string) option" where
  "transform_step content template d None = None"
| "transform_step content template d (Some (cur, out)) =
     (case det_span d of
        None \<Rightarrow> Some (cur, out)
      | Some (start, end) \<Rightarrow>
          if \<not> span_usable content cur (start, end) then Some (cur, out)
          else (case render_template template (det_value d) of
                  None \<Rightarrow> None
                | Some t \<Rightarrow> Some (end, out @ substr content cur start @ t)))"

definition apply_transform :: "string \<Rightarrow> detection list \<Rightarrow> string \<Rightarrow> string option" where
  "apply_transform content ds template =
     (case fold (transform_step content template) (ordered ds) (Some (0, [])) of
        None \<Rightarrow> None
      | Some (cur, out) \<Rightarrow> Some (out @ drop cur content))"

definition restore_content :: "string \<Rightarrow> token_vault \<Rightarrow> string" where
  "restore_content content v = vault_restore v content"

section \<open>Which bytes the loop covers\<close>

text \<open>
  A detection whose span lies in the content on character boundaries; the bytes such a
  detection spans; and detection sets in which two spans are disjoint or nested.
\<close>

definition span_valid :: "string \<Rightarrow> detection \<Rightarrow> bool" where
  "span_valid content d = (case det_span d of None \<Rightarrow> False
     | Some (s, e) \<Rightarrow> s \<le> e \<and> e \<le> length content \<and> is_char_boundary content s \<and> is_char_boundary content e)"

definition span_ordered :: "detection \<Rightarrow> bool" where
  "span_ordered d = (case det_span d of None \<Rightarrow> True | Some (s, e) \<Rightarrow> s \<le> e)"

definition in_span :: "nat \<Rightarrow> detection \<Rightarrow> bool" where
  "in_span i d = (case det_span d of None \<Rightarrow> False | Some (s, e) \<Rightarrow> s \<le> i \<and> i < e)"

definition covered :: "string \<Rightarrow> detection list \<Rightarrow> nat \<Rightarrow> bool" where
  "covered content ds i = (\<exists>d \<in> set ds. span_valid content d \<and> in_span i d)"

definition compatible :: "detection \<Rightarrow> detection \<Rightarrow> bool" where
  "compatible a b = (case (det_span a, det_span b) of
     (Some (s, e), Some (s', e')) \<Rightarrow>
        e \<le> s' \<or> e' \<le> s \<or> (s' \<le> s \<and> e \<le> e') \<or> (s \<le> s' \<and> e' \<le> e)
   | _ \<Rightarrow> True)"

definition laminar :: "detection list \<Rightarrow> bool" where
  "laminar ds = (\<forall>a \<in> set ds. \<forall>b \<in> set ds. compatible a b)"

lemmas span_defs = span_valid_def span_ordered_def in_span_def span_usable_def

lemma set_ordered [simp]: "set (ordered ds) = set ds"
  by (simp add: ordered_def)

lemma sorted_ordered: "sorted (map span_key (ordered ds))"
  by (simp add: ordered_def)

lemma redact_loop_simps [simp]:
  "redact_loop c [] st = st"
  "redact_loop c (ds @ [d]) st = redact_step c d (redact_loop c ds st)"
  by (simp_all add: redact_loop_def)

lemma assign_placeholder_frame [simp]:
  "cursor (snd (assign_placeholder d st)) = cursor st"
  "redacted (snd (assign_placeholder d st)) = redacted st"
  "r_vault (snd (assign_placeholder d st)) = r_vault st"
  "r_map (snd (assign_placeholder d st)) = r_map st"
  by (simp_all add: assign_placeholder_def Let_def split: option.split)

lemma cursor_redact_step:
  "cursor (redact_step c d st) =
     (case det_span d of None \<Rightarrow> cursor st
      | Some sp \<Rightarrow> if span_usable c (cursor st) sp then snd sp else cursor st)"
  by (auto simp: redact_step_def Let_def split: option.split prod.split)

lemma span_key_Some: "det_span d = Some (s, e) \<Longrightarrow> span_key d = (s, - int (e - s))"
  by (simp add: span_key_def)

text \<open>After the loop, every valid detection it saw ends at or before the cursor.\<close>

lemma loop_cursor:
  assumes "sorted (map span_key ds)" "laminar ds" "\<forall>d \<in> set ds. span_ordered d" "cursor st = 0"
  shows "(\<forall>d \<in> set ds. span_valid c d \<longrightarrow> snd (the (det_span d)) \<le> cursor (redact_loop c ds st)) \<and>
     (cursor (redact_loop c ds st) = 0 \<or>
      (\<exists>d \<in> set ds. span_valid c d \<and> snd (the (det_span d)) = cursor (redact_loop c ds st)))"
  using assms
proof (induction ds rule: rev_induct)
  case Nil
  then show ?case by simp
next
  case (snoc d ds)
  let ?cur = "cursor (redact_loop c ds st)"
  have srt: "\<forall>x \<in> set ds. span_key x \<le> span_key d" and srt': "sorted (map span_key ds)"
    using snoc.prems(1) by (auto simp: sorted_append)
  have lam: "laminar ds" using snoc.prems(2) by (auto simp: laminar_def)
  have IH1: "\<And>x. x \<in> set ds \<Longrightarrow> span_valid c x \<Longrightarrow> snd (the (det_span x)) \<le> ?cur"
    and IH2: "?cur = 0 \<or> (\<exists>x \<in> set ds. span_valid c x \<and> snd (the (det_span x)) = ?cur)"
    using snoc.IH [OF srt' lam _ snoc.prems(4)] snoc.prems(3) by auto
  show ?case
  proof (cases "det_span d")
    case None
    then show ?thesis
      using IH1 IH2 by (auto simp: cursor_redact_step span_valid_def)
  next
    case (Some sp)
    obtain s e where sp: "det_span d = Some (s, e)" using Some by (cases sp) auto
    have se: "s \<le> e" using snoc.prems(3) sp by (auto simp: span_ordered_def)
    show ?thesis
    proof (cases "span_usable c ?cur (s, e)")
      case True
      then have "?cur \<le> e" "span_valid c d" using se sp by (auto simp: span_defs)
      then show ?thesis
        using True sp IH1 by (fastforce simp: cursor_redact_step)
    next
      case False
      have "e \<le> ?cur" if v: "span_valid c d"
      proof -
        have lt: "s < ?cur" using False v sp by (auto simp: span_defs)
        then obtain x where x: "x \<in> set ds" "span_valid c x" "snd (the (det_span x)) = ?cur"
          using IH2 by auto
        then obtain s' where sx: "det_span x = Some (s', ?cur)"
          by (cases "det_span x") (auto simp: span_valid_def)
        have key: "s' \<le> s \<and> (s' = s \<longrightarrow> e - s \<le> ?cur - s)"
          using srt x(1) sx sp by (auto simp: span_key_Some less_eq_prod_def)
        have "compatible x d" using snoc.prems(2) x(1) by (auto simp: laminar_def)
        then show ?thesis using key lt se sx sp by (auto simp: compatible_def)
      qed
      then show ?thesis
        using False sp IH1 IH2 by (auto simp: cursor_redact_step)
    qed
  qed
qed

text \<open>The gaps the loop copies to the output hold no byte of a valid detection.\<close>

lemma gap_uncovered:
  assumes srt: "sorted (map span_key (xs @ d # ys))" and lam: "laminar (xs @ d # ys)"
    and ord: "\<forall>x \<in> set (xs @ d # ys). span_ordered x" and st: "cursor st = 0"
    and sp: "det_span d = Some (s, e)" and i: "cursor (redact_loop c xs st) \<le> i" "i < s"
  shows "\<not> covered c (xs @ d # ys) i"
proof
  assume "covered c (xs @ d # ys) i"
  then obtain x where x: "x \<in> set (xs @ d # ys)" "span_valid c x" "in_span i x"
    by (auto simp: covered_def)
  have "snd (the (det_span x)) \<le> cursor (redact_loop c xs st)" if "x \<in> set xs"
    using loop_cursor [of xs st c] srt lam ord st that x(2) by (auto simp: sorted_append laminar_def)
  moreover have "s \<le> fst (the (det_span x))" if "x \<notin> set xs"
  proof -
    have "span_key d \<le> span_key x" using srt x(1) that by (auto simp: sorted_append)
    then show ?thesis
      using x(3) sp by (cases "det_span x") (auto simp: in_span_def span_key_Some less_eq_prod_def)
  qed
  ultimately show False
    using x(3) i by (cases "det_span x") (fastforce simp: in_span_def)+
qed

lemma tail_uncovered:
  assumes "sorted (map span_key xs)" "laminar xs" "\<forall>x \<in> set xs. span_ordered x" "cursor st = 0"
    and "cursor (redact_loop c xs st) \<le> i"
  shows "\<not> covered c xs i"
  using loop_cursor [OF assms(1-4), of c] assms(5)
  by (fastforce simp: covered_def in_span_def split: option.splits)

text \<open>Two contents that agree on everything but the bytes under valid detections.\<close>

definition same_outside :: "detection list \<Rightarrow> string \<Rightarrow> string \<Rightarrow> bool" where
  "same_outside ds c c' = (length c' = length c \<and>
     (\<forall>i. is_char_boundary c' i = is_char_boundary c i) \<and>
     (\<forall>i < length c. \<not> covered c ds i \<longrightarrow> c' ! i = c ! i))"

lemma same_outside_substr:
  assumes "same_outside ds c c'" "\<And>i. a \<le> i \<Longrightarrow> i < b \<Longrightarrow> \<not> covered c ds i"
  shows "substr c' a b = substr c a b"
  using assms unfolding same_outside_def substr_def by (intro nth_equalityI) auto

lemma same_outside_drop:
  assumes "same_outside ds c c'" "\<And>i. a \<le> i \<Longrightarrow> \<not> covered c ds i"
  shows "drop a c' = drop a c"
  using assms unfolding same_outside_def by (intro nth_equalityI) auto

lemma redact_step_cong:
  assumes "\<And>sp. span_usable c' (cursor st) sp = span_usable c (cursor st) sp"
    and "\<And>s e. det_span d = Some (s, e) \<Longrightarrow> substr c' (cursor st) s = substr c (cursor st) s"
  shows "redact_step c' d st = redact_step c d st"
  using assms by (cases "det_span d") (auto simp: redact_step_def)

lemma redact_loop_same:
  assumes "same_outside (xs @ ys) c c'" "sorted (map span_key (xs @ ys))" "laminar (xs @ ys)"
    and "\<forall>x \<in> set (xs @ ys). span_ordered x" "cursor st = 0"
  shows "redact_loop c' xs st = redact_loop c xs st"
  using assms
proof (induction xs arbitrary: ys rule: rev_induct)
  case Nil
  then show ?case by simp
next
  case (snoc d xs)
  have IH: "redact_loop c' xs st = redact_loop c xs st"
    using snoc.IH [of "d # ys"] snoc.prems by simp
  have "redact_step c' d (redact_loop c xs st) = redact_step c d (redact_loop c xs st)"
  proof (rule redact_step_cong)
    fix sp
    show "span_usable c' (cursor (redact_loop c xs st)) sp = span_usable c (cursor (redact_loop c xs st)) sp"
      using snoc.prems(1) by (simp add: span_usable_def same_outside_def)
  next
    fix s e assume "det_span d = Some (s, e)"
    then show "substr c' (cursor (redact_loop c xs st)) s = substr c (cursor (redact_loop c xs st)) s"
      using gap_uncovered [of xs d ys st s e c] snoc.prems
      by (intro same_outside_substr [OF snoc.prems(1)]) auto
  qed
  with IH show ?case by simp
qed

lemma covered_ordered [simp]: "covered c (ordered ds) = covered c ds"
  by (simp add: covered_def fun_eq_iff)

lemma laminar_ordered [simp]: "laminar (ordered ds) = laminar ds"
  by (simp add: laminar_def)

lemma same_outside_ordered [simp]: "same_outside (ordered ds) = same_outside ds"
  by (simp add: same_outside_def fun_eq_iff)

lemma redact_init_cursor [simp]: "cursor (redact_init v m) = 0"
  by (simp add: redact_init_def)

text \<open>
  C1. Redaction hides what it covers. When the detections' spans are ordered and pairwise
  disjoint or nested, the redacted text, the vault and the redaction map are the same for any
  two contents that differ only in bytes under valid detections: no such byte reaches the
  output, whatever it is.
\<close>

theorem redaction_hides_covered_bytes:
  assumes "laminar ds" "\<forall>d \<in> set ds. span_ordered d" "same_outside ds c c'"
  shows "apply_redaction c' ds v m = apply_redaction c ds v m"
proof -
  let ?st = "redact_loop c (ordered ds) (redact_init v m)"
  have loop: "redact_loop c' (ordered ds) (redact_init v m) = ?st"
    using redact_loop_same [of "ordered ds" "[]" c c' "redact_init v m"] assms sorted_ordered by simp
  have "drop (cursor ?st) c' = drop (cursor ?st) c"
    using tail_uncovered [of "ordered ds" "redact_init v m" c] assms sorted_ordered
    by (intro same_outside_drop [OF assms(3)]) auto
  with loop show ?thesis by (simp add: apply_redaction_def)
qed

theorem redaction_hides_covered_bytes_witness:
  "let d = \<lparr>det_class = ''PERSON'', confidence = 1, det_span = Some (3, 6), det_value = ''Bob''\<rparr>
   in apply_redaction ''hi Eve!'' [d] [] [] = apply_redaction ''hi Bob!'' [d] [] []"
proof -
  let ?d = "\<lparr>det_class = ''PERSON'', confidence = 1, det_span = Some (3, 6), det_value = ''Bob''\<rparr>"
  have 1: "laminar [?d]" "\<forall>d \<in> set [?d]. span_ordered d"
    by (simp_all add: laminar_def compatible_def span_ordered_def)
  have b: "is_char_boundary ''hi Eve!'' i = is_char_boundary ''hi Bob!'' i" for i
    by (simp add: ascii_boundary is_cont_def byte_of_def)
  have "span_valid ''hi Bob!'' ?d"
    by (simp add: span_valid_def ascii_boundary is_cont_def byte_of_def)
  then have o: "\<forall>i < length ''hi Bob!''. \<not> covered ''hi Bob!'' [?d] i \<longrightarrow> ''hi Eve!'' ! i = ''hi Bob!'' ! i"
    by (auto simp: covered_def in_span_def nth_Cons')
  have 2: "same_outside [?d] ''hi Bob!'' ''hi Eve!''"
    unfolding same_outside_def using b o by simp
  show ?thesis using redaction_hides_covered_bytes [OF 1 2, of "[]" "[]"] by simp
qed

section \<open>Placeholders identify a class and a value\<close>

lemma to_uppercase_cap_word [simp]: "to_uppercase (cap_word w) = to_uppercase w"
  by (cases w) (simp_all add: to_uppercase_def to_lowercase_def)

lemma to_uppercase_join: "to_uppercase (join_with ''_'' ws) = join_with ''_'' (map to_uppercase ws)"
proof -
  have "char_upper CHR ''_'' = CHR ''_''" by code_simp
  then show ?thesis
    using join_with_map [of char_upper "''_''" ws] by (simp add: to_uppercase_def [abs_def])
qed

lemma to_uppercase_title_case: "to_uppercase (title_case c) = to_uppercase c"
  using to_uppercase_join [of "split_on CHR ''_'' c"]
  by (simp add: title_case_def to_uppercase_join o_def)

lemma title_case_inj:
  "to_uppercase a = a \<Longrightarrow> to_uppercase b = b \<Longrightarrow> title_case a = title_case b \<longleftrightarrow> a = b"
  by (metis to_uppercase_title_case)

lemma show_nat_no_sep: "CHR ''_'' \<notin> set (show_nat n)"
proof
  assume "CHR ''_'' \<in> set (show_nat n)"
  then have "is_digit CHR ''_''" by (rule show_nat_digits)
  then show False by (simp add: is_digit_def byte_of_def)
qed

lemma token_for_inj:
  assumes "to_uppercase a = a" "to_uppercase b = b"
  shows "token_for a m = token_for b n \<longleftrightarrow> a = b \<and> m = n"
  using append_last_sep [of "CHR ''_''" "show_nat m" "show_nat n" "title_case a" "title_case b"]
    assms show_nat_no_sep
  by (auto simp: token_for_def token_body_def title_case_inj)

text \<open>
  The bookkeeping invariant of the loop: every assigned placeholder is the token of its class
  with a counter in range, no two keys share one, and the vault and the redaction map resolve
  each of them to its value.
\<close>

definition redact_inv :: "redact_st \<Rightarrow> bool" where
  "redact_inv st = (vault_inv (r_vault st) \<and>
     (\<forall>cls v p. assigned st (cls, v) = Some p \<longrightarrow>
        to_uppercase cls = cls \<and> (\<exists>n. p = token_for cls n \<and> n \<le> counter_of st cls) \<and>
        vault_resolve (r_vault st) p = Some v \<and> map_of (r_map st) p = Some v))"

lemma redact_inv_init: "vault_inv v \<Longrightarrow> redact_inv (redact_init v m)"
  by (simp add: redact_inv_def redact_init_def)

lemma redact_invD:
  assumes "redact_inv st" "assigned st (cls, v) = Some p"
  shows "to_uppercase cls = cls" "\<exists>n. p = token_for cls n \<and> n \<le> counter_of st cls"
    "vault_resolve (r_vault st) p = Some v" "map_of (r_map st) p = Some v"
  using assms unfolding redact_inv_def by blast+

lemma redact_inv_unique:
  assumes "redact_inv st" "assigned st (a, v) = Some p" "assigned st (b, w) = Some p"
  shows "a = b" "v = w"
  using redact_invD [OF assms(1,2)] redact_invD [OF assms(1,3)] by (auto simp: token_for_inj)

lemma token_fresh:
  assumes "redact_inv st" "to_uppercase cls = cls"
  shows "assigned st (b, v) \<noteq> Some (token_for cls (Suc (counter_of st cls)))"
  using redact_invD(1,2) [OF assms(1), of b v "token_for cls (Suc (counter_of st cls))"] assms(2)
  by (auto simp: token_for_inj)

lemma counter_of_frame [simp]:
  "counter_of (st\<lparr>r_vault := v, r_map := m\<rparr>) = counter_of st"
  "counter_of (st\<lparr>redacted := r\<rparr>) = counter_of st" "counter_of (st\<lparr>cursor := k\<rparr>) = counter_of st"
  by (simp_all add: counter_of_def fun_eq_iff)

lemma counter_of_upd:
  "counter_of (st\<lparr>counters := (counters st)(k \<mapsto> n), assigned := a\<rparr>) cls = (if cls = k then n else counter_of st cls)"
  by (simp add: counter_of_def)

lemma vault_resolve_insert:
  "vault_resolve (vault_insert p v vlt) q = (if q = p then Some v else vault_resolve vlt q)"
  by (simp add: vault_resolve_def vault_insert_def update_conv')

lemma map_of_hm_insert: "map_of (hm_insert p v m) q = (if q = p then Some v else map_of m q)"
  by (simp add: update_conv')

text \<open>What one accepted detection does to the bookkeeping.\<close>

lemma assign_placeholder_inv:
  assumes "redact_inv st" "assign_placeholder d st = (p, st1)"
  shows "redact_inv (st1\<lparr>r_vault := vault_insert p (det_value d) (r_vault st1),
      r_map := hm_insert p (det_value d) (r_map st1)\<rparr>)"
    and "assigned st1 (to_uppercase (det_class d), det_value d) = Some p"
proof -
  let ?cu = "to_uppercase (det_class d)" and ?key = "(to_uppercase (det_class d), det_value d)"
  let ?vlt = "vault_insert p (det_value d) (r_vault st1)" and ?map = "hm_insert p (det_value d) (r_map st1)"
  have "redact_inv (st1\<lparr>r_vault := ?vlt, r_map := ?map\<rparr>) \<and> assigned st1 ?key = Some p"
  proof (cases "assigned st ?key")
    case None
    let ?n = "Suc (counter_of st ?cu)"
    have p: "p = token_for ?cu ?n"
      and st1: "st1 = st\<lparr>counters := (counters st)(?cu \<mapsto> ?n), assigned := (assigned st)(?key \<mapsto> p)\<rparr>"
      using None assms(2) by (auto simp: assign_placeholder_def Let_def)
    have fresh: "assigned st (b, w) \<noteq> Some p" for b w
      unfolding p by (rule token_fresh [OF assms(1)]) simp
    have ctr: "counter_of st b \<le> counter_of st1 b" for b
      unfolding st1 counter_of_upd by simp
    have old: "assigned st (b, w) = Some q \<Longrightarrow> q \<noteq> p \<and> to_uppercase b = b \<and>
        (\<exists>n. q = token_for b n \<and> n \<le> counter_of st1 b) \<and>
        vault_resolve (r_vault st) q = Some w \<and> map_of (r_map st) q = Some w" for b w q
      using redact_invD [OF assms(1), of b w q] fresh [of b w] ctr [of b] le_trans by blast
    have new: "counter_of st1 ?cu = ?n" by (simp add: st1 counter_of_upd)
    have vlts: "r_vault st1 = r_vault st" "r_map st1 = r_map st" by (simp_all add: st1)
    have ass: "assigned st1 (b, w) = (if (b, w) = ?key then Some p else assigned st (b, w))" for b w
      by (simp add: st1)
    have "to_uppercase b = b \<and> (\<exists>n. q = token_for b n \<and> n \<le> counter_of st1 b) \<and>
        vault_resolve ?vlt q = Some w \<and> map_of ?map q = Some w"
      if "assigned st1 (b, w) = Some q" for b w q
    proof (cases "(b, w) = ?key")
      case True
      then have "q = p" "b = ?cu" "w = det_value d" using that by (simp_all add: ass)
      with p new show ?thesis by (auto simp: vault_resolve_insert map_of_hm_insert)
    next
      case False
      then have "assigned st (b, w) = Some q" using that ass [of b w] by metis
      from old [OF this] show ?thesis
        by (simp add: vlts vault_resolve_insert map_of_hm_insert)
    qed
    moreover have "vault_inv ?vlt" using assms(1) by (simp add: vlts redact_inv_def vault_inv_insert)
    ultimately have "redact_inv (st1\<lparr>r_vault := ?vlt, r_map := ?map\<rparr>)"
      unfolding redact_inv_def by simp
    then show ?thesis using ass [of ?cu "det_value d"] by simp
  next
    case (Some q)
    then have "p = q" "st1 = st" using assms(2) by (auto simp: assign_placeholder_def Let_def)
    then have key: "assigned st ?key = Some p" and st1: "st1 = st" using Some by simp_all
    have "to_uppercase b = b \<and> (\<exists>n. q = token_for b n \<and> n \<le> counter_of st b) \<and>
        vault_resolve ?vlt q = Some w \<and> map_of ?map q = Some w"
      if "assigned st (b, w) = Some q" for b w q
      using redact_invD [OF assms(1) that] redact_inv_unique(2) [OF assms(1) key, of b w] that
      by (simp add: st1 vault_resolve_insert map_of_hm_insert)
    moreover have "vault_inv ?vlt" using assms(1) by (simp add: st1 redact_inv_def vault_inv_insert)
    ultimately have "redact_inv (st1\<lparr>r_vault := ?vlt, r_map := ?map\<rparr>)"
      unfolding redact_inv_def by (simp add: st1)
    with key st1 show ?thesis by simp
  qed
  then show "redact_inv (st1\<lparr>r_vault := ?vlt, r_map := ?map\<rparr>)" and "assigned st1 ?key = Some p"
    by simp_all
qed

lemma redact_inv_frame [simp]:
  "redact_inv (st\<lparr>redacted := r\<rparr>) = redact_inv st" "redact_inv (st\<lparr>cursor := k\<rparr>) = redact_inv st"
  by (simp_all add: redact_inv_def)

lemma redact_step_inv: "redact_inv st \<Longrightarrow> redact_inv (redact_step c d st)"
  using assign_placeholder_inv(1)
  by (auto simp: redact_step_def Let_def split: option.split prod.split)

lemma redact_loop_inv: "redact_inv st \<Longrightarrow> redact_inv (redact_loop c ds st)"
  by (induction ds rule: rev_induct) (simp_all add: redact_step_inv)

text \<open>A redaction that records nothing changes nothing.\<close>

lemma redact_step_map:
  "redact_step c d st = st \<or> r_map (redact_step c d st) \<noteq> []"
proof -
  have "AList.update k v xs \<noteq> []" for k v :: string and xs by (cases xs) auto
  then show ?thesis
    by (auto simp: redact_step_def Let_def split: option.split prod.split)
qed

lemma redact_step_map_mono: "r_map st \<noteq> [] \<Longrightarrow> r_map (redact_step c d st) \<noteq> []"
  using redact_step_map [of c d st] by auto

lemma redact_loop_map: "redact_loop c ds st = st \<or> r_map (redact_loop c ds st) \<noteq> []"
proof (induction ds rule: rev_induct)
  case (snoc d ds)
  then show ?case
    using redact_step_map [of c d "redact_loop c ds st"] redact_step_map_mono [of "redact_loop c ds st" c d]
    by auto
qed simp

lemma apply_redaction_idle: "apply_redaction c ds v m = (t, v', []) \<Longrightarrow> t = c \<and> v' = v \<and> m = []"
  using redact_loop_map [of c "ordered ds" "redact_init v m"]
  by (auto simp: apply_redaction_def Let_def redact_init_def)

lemma apply_redaction_Nil [simp]: "apply_redaction c [] v m = (c, v, m)"
  by (simp add: apply_redaction_def ordered_def redact_init_def)

section \<open>Redaction followed by restoration\<close>

lemma brace_free_iff: "brace_free s \<longleftrightarrow> (\<forall>c \<in> set s. c \<noteq> lbrace \<and> c \<noteq> rbrace)"
  by (auto simp: brace_free_def)

lemma brace_free_show_nat: "brace_free (show_nat n)"
  using show_nat_digits by (fastforce simp: brace_free_iff is_digit_def byte_of_def)

lemma brace_free_case [simp]:
  "brace_free (to_uppercase s) = brace_free s" "brace_free (to_lowercase s) = brace_free s"
proof -
  have fix_up: "char_upper lbrace = lbrace" "char_upper rbrace = rbrace"
      "char_lower lbrace = lbrace" "char_lower rbrace = rbrace" by code_simp+
  have "char_upper c = lbrace \<longleftrightarrow> c = lbrace" "char_upper c = rbrace \<longleftrightarrow> c = rbrace"
      "char_lower c = lbrace \<longleftrightarrow> c = lbrace" "char_lower c = rbrace \<longleftrightarrow> c = rbrace" for c
    using char_upper_sym [of _ c] char_lower_sym [of _ c] fix_up by (fastforce simp: byte_of_def)+
  then show "brace_free (to_uppercase s) = brace_free s" "brace_free (to_lowercase s) = brace_free s"
    by (auto simp: brace_free_iff to_uppercase_def to_lowercase_def)
qed

lemma brace_free_title_case: "brace_free s \<Longrightarrow> brace_free (title_case s)"
  using to_uppercase_title_case [of s] by (metis brace_free_case(1))

lemma brace_free_token_body: "brace_free cls \<Longrightarrow> brace_free (token_body cls n)"
  by (simp add: token_body_def brace_free_title_case brace_free_show_nat)

lemma ok_toks_snoc_Ph: "ok_toks ts \<Longrightarrow> brace_free b \<Longrightarrow> ok_toks (ts @ [Ph b])"
  by (induction ts rule: ok_toks.induct) auto

lemma ok_toks_append_Ph:
  "ok_toks ts \<Longrightarrow> ok_toks us \<Longrightarrow> ts = [] \<or> (\<exists>b. last ts = Ph b) \<Longrightarrow> ok_toks (ts @ us)"
  by (induction ts rule: ok_toks.induct) (auto split: if_splits)

lemma ok_toks_plain: "\<not> str_contains s ''{{'' \<Longrightarrow> ok_toks (map Lit s)"
proof (induction s)
  case (Cons c s)
  then have "\<not> prefix ''{{'' (c # s)" and "ok_toks (map Lit s)"
    by (auto simp: str_contains_def split: if_splits)
  then show ?case by (cases s) auto
qed simp

lemma ok_toks_substr: "ok_toks (map Lit s) \<Longrightarrow> ok_toks (map Lit (substr s i j))"
  using ok_toks_appendD1 ok_toks_appendD2 append_take_drop_id map_append
  unfolding substr_def by metis

lemma ok_toks_drop: "ok_toks (map Lit s) \<Longrightarrow> ok_toks (map Lit (drop i s))"
  using ok_toks_appendD2 append_take_drop_id map_append by metis

text \<open>Detections that report the bytes they span, with brace-free names and values.\<close>

definition faithful :: "string \<Rightarrow> detection list \<Rightarrow> bool" where
  "faithful c ds = (\<forall>d \<in> set ds. span_ordered d \<and> (span_valid c d \<longrightarrow>
     det_value d = substr c (fst (the (det_span d))) (snd (the (det_span d))) \<and>
     det_value d \<noteq> [] \<and> brace_free (det_value d) \<and> brace_free (det_class d)))"

definition restores_to :: "string \<Rightarrow> redact_st \<Rightarrow> tok list \<Rightarrow> bool" where
  "restores_to c st ts = (redacted st = flat ts \<and> ok_toks ts \<and> (ts = [] \<or> (\<exists>b. last ts = Ph b)) \<and>
     (\<forall>b. Ph b \<in> set ts \<longrightarrow> (\<exists>cls w. assigned st (cls, w) = Some (ph_text b))) \<and>
     flat (concat (map (resolve_tok (r_vault st)) ts)) = take (cursor st) c \<and>
     cursor st \<le> length c \<and> redact_inv st \<and> wf_vault (r_vault st))"

lemma wf_vault_insert:
  assumes "wf_vault v" "p = ph_text b" "brace_free b" "orig \<noteq> []" "brace_free orig"
  shows "wf_vault (vault_insert p orig v)"
proof -
  have "set (vault_insert p orig v) \<subseteq> insert (p, orig) (set v)"
    unfolding vault_insert_def by (induction v) auto
  then show ?thesis using assms by (auto simp: wf_vault_def)
qed

lemma assign_placeholder_mono:
  "assign_placeholder d st = (p, st1) \<Longrightarrow> assigned st k = Some q \<Longrightarrow> assigned st1 k = Some q"
  by (auto simp: assign_placeholder_def Let_def split: option.splits)

lemma substr_glue:
  assumes "cur \<le> s" "s \<le> e" "e \<le> length c"
  shows "take cur c @ substr c cur s @ substr c s e = take e c"
proof -
  have "take cur c @ substr c cur s = take s c"
    using take_add [of cur "s - cur" c] assms(1) by (simp add: substr_def)
  moreover have "take s c @ substr c s e = take e c"
    using take_add [of s "e - s" c] assms(2) by (simp add: substr_def)
  ultimately show ?thesis by (metis append_assoc)
qed

lemma resolve_tok_cong:
  assumes "\<And>b. Ph b \<in> set ts \<Longrightarrow> map_of v (ph_text b) = map_of v' (ph_text b)"
  shows "map (resolve_tok v) ts = map (resolve_tok v') ts"
proof (rule map_cong [OF refl])
  fix t assume "t \<in> set ts"
  with assms show "resolve_tok v t = resolve_tok v' t" by (auto intro: tok.exhaust [of t])
qed

lemma assigned_ph_text:
  assumes "redact_inv st" "assigned st (cls, w) = Some p" "brace_free cls"
  shows "\<exists>b. p = ph_text b \<and> brace_free b"
  using redact_invD(2) [OF assms(1,2)] assms(3) by (auto simp: token_for_def brace_free_token_body)

lemma restores_to_accept:
  assumes R: "restores_to c st ts" and plain: "ok_toks (map Lit c)" and faith: "faithful c [d]"
    and sp: "det_span d = Some (s, e)" and us: "span_usable c (cursor st) (s, e)"
  shows "\<exists>ts'. restores_to c (redact_step c d st) ts'"
proof -
  obtain p st1 where ap: "assign_placeholder d st = (p, st1)" by (cases "assign_placeholder d st")
  let ?st2 = "st1\<lparr>r_vault := vault_insert p (det_value d) (r_vault st1),
      r_map := hm_insert p (det_value d) (r_map st1)\<rparr>"
  let ?gap = "substr c (cursor st) s"
  have inv: "redact_inv st" and inv2: "redact_inv ?st2"
    and key: "assigned st1 (to_uppercase (det_class d), det_value d) = Some p"
    using R assign_placeholder_inv [OF _ ap] by (auto simp: restores_to_def)
  have frame: "r_vault st1 = r_vault st" "redacted st1 = redacted st" "r_map st1 = r_map st"
    using ap assign_placeholder_frame [of d st] by simp_all
  have se: "s \<le> e" "cursor st \<le> s" "e \<le> length c" and valid: "span_valid c d"
    using us faith sp by (auto simp: span_defs faithful_def)
  have val: "det_value d = substr c s e" "det_value d \<noteq> []" "brace_free (det_value d)" "brace_free (det_class d)"
    using faith valid sp by (auto simp: faithful_def)
  obtain b where pb: "p = ph_text b" "brace_free b"
    using assigned_ph_text [OF inv2, of "to_uppercase (det_class d)" "det_value d" p] key val(4) by auto
  have step: "redact_step c d st = ?st2\<lparr>redacted := redacted st1 @ ?gap @ p, cursor := e\<rparr>"
    using sp us ap by (simp add: redact_step_def)
  have same: "map (resolve_tok (r_vault ?st2)) ts = map (resolve_tok (r_vault st)) ts"
  proof (rule resolve_tok_cong)
    fix b' assume "Ph b' \<in> set ts"
    then obtain cls w where "assigned st (cls, w) = Some (ph_text b')" using R by (auto simp: restores_to_def)
    with redact_invD(3) [OF inv this] redact_invD(3) [OF inv2, of cls w "ph_text b'"]
    show "map_of (r_vault ?st2) (ph_text b') = map_of (r_vault st) (ph_text b')"
      using assign_placeholder_mono [OF ap] by (simp add: vault_resolve_def)
  qed
  have res: "resolve_tok (r_vault ?st2) (Ph b) = map Lit (det_value d)"
    using redact_invD(3) [OF inv2, of "to_uppercase (det_class d)" "det_value d" p] key
    by (simp add: vault_resolve_def pb)
  let ?ts = "ts @ map Lit ?gap @ [Ph b]"
  have ok: "ok_toks ?ts"
    using R plain pb by (intro ok_toks_append_Ph ok_toks_snoc_Ph ok_toks_substr) (auto simp: restores_to_def)
  have "flat (concat (map (resolve_tok (r_vault ?st2)) ts)) = take (cursor st) c"
    using R unfolding same restores_to_def by simp
  then have "flat (concat (map (resolve_tok (r_vault ?st2)) ?ts)) = take e c"
    using res val(1) substr_glue [OF se(2,1,3)] by (simp del: resolve_tok.simps(2))
  moreover have "\<exists>cls w. assigned st1 (cls, w) = Some (ph_text b')" if "Ph b' \<in> set ?ts" for b'
    using that R key pb(1) assign_placeholder_mono [OF ap] by (auto simp: restores_to_def) blast
  ultimately have "restores_to c (redact_step c d st) ?ts"
    using R ok se inv2 pb val frame by (simp add: restores_to_def step wf_vault_insert)
  then show ?thesis ..
qed

lemma faithful_append [simp]: "faithful c (xs @ ys) = (faithful c xs \<and> faithful c ys)"
  by (auto simp: faithful_def)

lemma restores_to_loop:
  assumes "ok_toks (map Lit c)" "faithful c ds" "restores_to c st ts"
  shows "\<exists>ts'. restores_to c (redact_loop c ds st) ts'"
  using assms(2)
proof (induction ds rule: rev_induct)
  case Nil
  then show ?case using assms(3) by auto
next
  case (snoc d ds)
  then obtain ts' where IH: "restores_to c (redact_loop c ds st) ts'" by auto
  have fd: "faithful c [d]" using snoc.prems by simp
  show ?case
  proof (cases "\<exists>s e. det_span d = Some (s, e) \<and> span_usable c (cursor (redact_loop c ds st)) (s, e)")
    case True
    then show ?thesis using restores_to_accept [OF IH assms(1) fd] by auto
  next
    case False
    then have "redact_step c d (redact_loop c ds st) = redact_loop c ds st"
      by (cases "det_span d") (auto simp: redact_step_def)
    with IH show ?thesis by auto
  qed
qed

lemma faithful_ordered [simp]: "faithful c (ordered ds) = faithful c ds"
  by (simp add: faithful_def)

text \<open>The redacted text as tokens that the new vault resolves to the content.\<close>

lemma redaction_toks:
  assumes "\<not> str_contains c ''{{''" "faithful c ds" "wf_vault v" "vault_inv v"
    and "apply_redaction c ds v m = (t, v', m')"
  obtains ts where "t = flat ts" "ok_toks ts" "flat (concat (map (resolve_tok v') ts)) = c"
    and "wf_vault v'" "vault_inv v'"
proof -
  let ?st = "redact_loop c (ordered ds) (redact_init v m)"
  have plain: "ok_toks (map Lit c)" using assms(1) by (rule ok_toks_plain)
  have "restores_to c (redact_init v m) []"
    using assms(3,4) redact_inv_init [OF assms(4), of m] by (simp add: restores_to_def redact_init_def)
  then obtain ts where R: "restores_to c ?st ts"
    using restores_to_loop [OF plain, of "ordered ds"] assms(2) by auto
  let ?rest = "map Lit (drop (cursor ?st) c)"
  have out: "t = flat (ts @ ?rest)" "v' = r_vault ?st"
    using assms(5) R by (auto simp: apply_redaction_def Let_def restores_to_def)
  have "ok_toks (ts @ ?rest)"
    using R ok_toks_drop [OF plain] by (intro ok_toks_append_Ph) (auto simp: restores_to_def)
  moreover have "flat (concat (map (resolve_tok v') (ts @ ?rest))) = c"
    using R by (simp add: restores_to_def out(2))
  moreover have "wf_vault v'" "vault_inv v'"
    using R by (auto simp: restores_to_def out(2) redact_inv_def)
  ultimately show ?thesis using that out(1) by blast
qed

text \<open>Any well-formed vault with the same entries restores the content, whatever their order.\<close>

lemma restore_with_same_entries:
  assumes "\<not> str_contains c ''{{''" "faithful c ds" "wf_vault v" "vault_inv v"
    and "apply_redaction c ds v m = (t, v', m')" "wf_vault w" "map_of w = map_of v'"
  shows "restore_content t w = c"
proof (rule redaction_toks [OF assms(1-5)])
  fix ts assume ts: "t = flat ts" "ok_toks ts" "flat (concat (map (resolve_tok v') ts)) = c"
  have "resolve_tok w x = resolve_tok v' x" for x
    using assms(7) by (cases x) simp_all
  then have "resolve_tok w = resolve_tok v'" by (rule ext)
  then show ?thesis
    using restore_flat [OF assms(6) ts(2)] ts by (simp add: restore_content_def)
qed

lemma restore_after_redaction:
  assumes "\<not> str_contains c ''{{''" "faithful c ds" "wf_vault v" "vault_inv v"
    and "apply_redaction c ds v m = (t, v', m')"
  shows "restore_content t v' = c"
  using redaction_toks [OF assms] restore_with_same_entries [OF assms, of v'] by blast

text \<open>Vault and redaction map start equal and get the same entries.\<close>

lemma redact_loop_map_vault: "r_map st = r_vault st \<Longrightarrow> r_map (redact_loop c ds st) = r_vault (redact_loop c ds st)"
proof (induction ds rule: rev_induct)
  case Nil
  then show ?case by simp
next
  case (snoc d ds)
  then show ?case
    by (simp add: redact_step_def vault_insert_def Let_def split_beta split: option.splits)
qed

lemma apply_redaction_map_vault: "apply_redaction c ds v v = (t, v', m') \<Longrightarrow> m' = v'"
  using redact_loop_map_vault [of "redact_init v v" c "ordered ds"]
  by (auto simp: apply_redaction_def Let_def redact_init_def)

text \<open>
  C2. Redact, then restore, is the identity. For a content without a double opening brace and
  detections that report the bytes they span, restoring the redacted text with the vault the
  redaction produced gives the content back, whatever well-formed entries the vault already
  held.
\<close>

theorem redact_restore_roundtrip:
  assumes "\<not> str_contains c ''{{''" "faithful c ds" "wf_vault v" "vault_inv v"
    and "apply_redaction c ds v m = (t, v', m')"
  shows "restore_content t v' = c"
  using assms by (rule restore_after_redaction)

theorem redact_restore_roundtrip_witness:
  "restore_content ''hi {{Person_1}} cc {{Person_2}}''
     [(''{{Person_1}}'', ''Bob''), (''{{Person_2}}'', ''Ann'')] = ''hi Bob cc Ann''"
proof -
  let ?c = "''hi Bob cc Ann''"
  let ?ds = "[\<lparr>det_class = ''PERSON'', confidence = 1, det_span = Some (10, 13), det_value = ''Ann''\<rparr>,
     \<lparr>det_class = ''PERSON'', confidence = 1, det_span = Some (3, 6), det_value = ''Bob''\<rparr>]"
  let ?v = "[(''{{Person_1}}'', ''Bob''), (''{{Person_2}}'', ''Ann'')]"
  have 1: "\<not> str_contains ?c ''{{''" by code_simp
  have 2: "faithful ?c ?ds"
    by (simp add: faithful_def span_ordered_def substr_def brace_free_def)
  have 3: "wf_vault []" "vault_inv []" by (simp_all add: wf_vault_def vault_inv_def)
  have 4: "apply_redaction ?c ?ds [] [] = (''hi {{Person_1}} cc {{Person_2}}'', ?v, ?v)"
    by code_simp
  show ?thesis by (rule redact_restore_roundtrip [OF 1 2 3 4])
qed

end
