(* ===== verification/Policy_Engine.thy ===== *)
theory Policy_Engine
  imports Vault_Redaction
begin

text \<open>
  \<open>secureprompt-api/src/policy/engine.rs\<close> and \<open>events.rs\<close>: which rules of a workspace match a
  request, which detections a matching rule selects, and what the first deciding rule does to
  the content. The rules come from \<open>list_enabled_rules\<close> (theory \<open>Policy_Store\<close>), already in
  priority order; the \<open>regex\<close> crate is the parameter \<open>rx\<close>, \<open>None\<close> for a pattern that does not
  compile. Confidences and JSON numbers are finite floats, so their comparison is exact on
  rationals.
\<close>

section \<open>Definitions\<close>

record policy_rule =
  rule_id :: uuid
  rule_ws :: uuid
  rule_name :: string
  priority :: int
  conditions :: json
  rule_action :: string
  action_params :: json
  enabled :: bool
  dry_run :: bool
  created_at :: int
  updated_at :: int

record policy_input =
  pe_provider_name :: string
  pe_model :: string
  pe_content :: string
  pe_detections :: "detection list"
  fail_closed :: bool

record policy_outcome =
  oc_content :: string
  oc_result :: policy_result
  oc_denied :: bool
  oc_rules_evaluated :: nat
  oc_unprotected :: bool

type_synonym regex_crate = "string \<Rightarrow> (string \<Rightarrow> bool) option"

definition from_rule :: "policy_rule \<Rightarrow> policy_event" where
  "from_rule r = \<lparr>ev_rule_id = rule_id r, ev_rule_name = rule_name r, ev_action = rule_action r,
     ev_dry_run = dry_run r\<rparr>"

definition generic_class_for :: "(string \<times> string) list" where
  "generic_class_for = [(''UZCARD'', ''CREDIT_CARD''), (''HUMO'', ''CREDIT_CARD'')]"

definition class_filter_matches :: "string \<Rightarrow> string \<Rightarrow> bool" where
  "class_filter_matches flt cls = (flt = cls \<or>
     list_ex (\<lambda>(specific, generic). specific = cls \<and> generic = flt) generic_class_for)"

definition is_detection_scoped :: "json \<Rightarrow> bool" where
  "is_detection_scoped cond = (get_str cond ''field'' \<in> {Some ''detection_class'', Some ''confidence_gte''})"

text \<open>\<open>values.iter().filter_map(Value::as_str).any(p)\<close>, false when the value is no array.\<close>

definition any_str :: "(string \<Rightarrow> bool) \<Rightarrow> json \<Rightarrow> bool" where
  "any_str p v = (case as_array v of None \<Rightarrow> False | Some xs \<Rightarrow> list_ex p (List.map_filter as_str xs))"

definition is_some_and :: "'a option \<Rightarrow> ('a \<Rightarrow> bool) \<Rightarrow> bool" where
  "is_some_and x p = (case x of None \<Rightarrow> False | Some a \<Rightarrow> p a)"

definition matches_detection_condition :: "json \<Rightarrow> detection \<Rightarrow> bool" where
  "matches_detection_condition cond d =
     (case (get_str cond ''field'', get_str cond ''op'', json_get cond ''value'') of
        (Some field, Some op, Some v) \<Rightarrow>
          if field = ''detection_class'' \<and> op = ''eq''
            then is_some_and (as_str v) (\<lambda>f. class_filter_matches f (det_class d))
          else if field = ''detection_class'' \<and> op = ''in''
            then any_str (\<lambda>f. class_filter_matches f (det_class d)) v
          else if field = ''confidence_gte'' \<and> op = ''gte''
            then is_some_and (as_f64 v) (\<lambda>t. t \<le> confidence d)
          else if field = ''confidence_gte'' \<and> op = ''lte''
            then is_some_and (as_f64 v) (\<lambda>t. confidence d \<le> t)
          else False
      | _ \<Rightarrow> False)"

definition matches_condition :: "regex_crate \<Rightarrow> json \<Rightarrow> policy_input \<Rightarrow> bool" where
  "matches_condition rx cond inp =
     (case (get_str cond ''field'', get_str cond ''op'', json_get cond ''value'') of
        (Some field, Some op, Some v) \<Rightarrow>
          if field = ''provider'' \<and> op = ''eq'' then as_str v = Some (pe_provider_name inp)
          else if field = ''provider'' \<and> op = ''in'' then any_str (\<lambda>x. x = pe_provider_name inp) v
          else if field = ''model'' \<and> op = ''eq'' then as_str v = Some (pe_model inp)
          else if field = ''model'' \<and> op = ''in'' then any_str (\<lambda>x. x = pe_model inp) v
          else if field = ''content_regex'' \<and> op = ''matches''
            then is_some_and (as_str v) (\<lambda>pat. is_some_and (rx pat) (\<lambda>re. re (pe_content inp)))
          else False
      | _ \<Rightarrow> False)"

text \<open>The loop of \<open>rule_matches\<close>: \<open>None\<close> is its early \<open>return false\<close>.\<close>

fun detection_conditions ::
  "regex_crate \<Rightarrow> policy_input \<Rightarrow> json list \<Rightarrow> json list option" where
  "detection_conditions rx inp [] = Some []"
| "detection_conditions rx inp (c # cs) =
     (if is_detection_scoped c then map_option (\<lambda>ds. c # ds) (detection_conditions rx inp cs)
      else if \<not> matches_condition rx c inp then None
      else detection_conditions rx inp cs)"

definition rule_matches :: "regex_crate \<Rightarrow> policy_rule \<Rightarrow> policy_input \<Rightarrow> bool" where
  "rule_matches rx r inp =
     (case as_array (conditions r) of
        None \<Rightarrow> True
      | Some conds \<Rightarrow>
          (case detection_conditions rx inp conds of
             None \<Rightarrow> False
           | Some dcs \<Rightarrow> dcs = [] \<or>
               list_ex (\<lambda>d. list_all (\<lambda>c. matches_detection_condition c d) dcs) (pe_detections inp)))"

text \<open>The three accumulators of \<open>matching_detections\<close>.\<close>

record class_filters =
  cf_classes :: "string list"
  cf_gte :: "rat option"
  cf_lte :: "rat option"

definition collect_filter :: "json \<Rightarrow> class_filters \<Rightarrow> class_filters" where
  "collect_filter cond f =
     (case (get_str cond ''field'', get_str cond ''op'', json_get cond ''value'') of
        (Some field, Some op, Some v) \<Rightarrow>
          if field = ''detection_class'' \<and> op = ''eq''
            then (case as_str v of None \<Rightarrow> f | Some c \<Rightarrow> f\<lparr>cf_classes := cf_classes f @ [c]\<rparr>)
          else if field = ''detection_class'' \<and> op = ''in''
            then (case as_array v of None \<Rightarrow> f
                  | Some xs \<Rightarrow> f\<lparr>cf_classes := cf_classes f @ List.map_filter as_str xs\<rparr>)
          else if field = ''confidence_gte'' \<and> op = ''gte'' then f\<lparr>cf_gte := as_f64 v\<rparr>
          else if field = ''confidence_gte'' \<and> op = ''lte'' then f\<lparr>cf_lte := as_f64 v\<rparr>
          else f
      | _ \<Rightarrow> f)"

definition filter_selects :: "class_filters \<Rightarrow> detection \<Rightarrow> bool" where
  "filter_selects f d =
     ((cf_classes f = [] \<or> list_ex (\<lambda>c. class_filter_matches c (det_class d)) (cf_classes f)) \<and>
      (case cf_gte f of None \<Rightarrow> True | Some t \<Rightarrow> t \<le> confidence d) \<and>
      (case cf_lte f of None \<Rightarrow> True | Some t \<Rightarrow> confidence d \<le> t))"

definition no_filters :: class_filters where
  "no_filters = \<lparr>cf_classes = [], cf_gte = None, cf_lte = None\<rparr>"

definition matching_detections :: "policy_rule \<Rightarrow> detection list \<Rightarrow> detection list" where
  "matching_detections r ds =
     (let f = fold collect_filter (case as_array (conditions r) of None \<Rightarrow> [] | Some cs \<Rightarrow> cs) no_filters;
          filtered = filter (filter_selects f) ds
      in if filtered = [] then ds else filtered)"

text \<open>The local variables of \<open>evaluate\<close>, with the vault and the map it borrows mutably.\<close>

record eval_st =
  es_content :: string
  es_events :: "policy_event list"
  es_final_action :: string
  es_denied :: bool
  es_applied :: bool
  es_vault :: token_vault
  es_map :: "(string, string) hashmap"

definition transform_template :: "policy_rule \<Rightarrow> string" where
  "transform_template r = (case get_str (action_params r) ''template'' of None \<Rightarrow> ''{value}'' | Some t \<Rightarrow> t)"

text \<open>
  One arm of \<open>match rule.action.as_str()\<close>: the new state, and whether the arm ends with
  \<open>break\<close>.
\<close>

definition apply_rule ::
  "policy_input \<Rightarrow> policy_rule \<Rightarrow> eval_st \<Rightarrow> (eval_st \<times> bool) outcome" where
  "apply_rule inp r st =
     (let st = st\<lparr>es_final_action := rule_action r\<rparr>;
          matching = matching_detections r (pe_detections inp)
      in if rule_action r = ''deny'' then Inr (st\<lparr>es_applied := True, es_denied := True\<rparr>, True)
         else if rule_action r = ''allow'' then Inr (st\<lparr>es_applied := True\<rparr>, True)
         else if rule_action r = ''redact'' then
           (let to_redact = (if fail_closed inp then pe_detections inp else matching);
                (t, v, m) = apply_redaction (es_content st) to_redact (es_vault st) (es_map st)
            in Inr (st\<lparr>es_applied := True, es_content := t, es_vault := v, es_map := m\<rparr>, True))
         else if rule_action r = ''transform'' then
           (case apply_transform (es_content st) matching (transform_template r) of
              None \<Rightarrow> Inl Panicked
            | Some t \<Rightarrow> Inr (st\<lparr>es_applied := True, es_content := t\<rparr>, True))
         else if rule_action r = ''flag'' then Inr (st\<lparr>es_applied := True\<rparr>, True)
         else Inr (st, False))"

fun eval_loop ::
  "regex_crate \<Rightarrow> policy_input \<Rightarrow> policy_rule list \<Rightarrow> eval_st \<Rightarrow> eval_st outcome" where
  "eval_loop rx inp [] st = Inr st"
| "eval_loop rx inp (r # rs) st =
     (if \<not> rule_matches rx r inp then eval_loop rx inp rs st
      else let st1 = st\<lparr>es_events := es_events st @ [from_rule r]\<rparr> in
        if dry_run r then eval_loop rx inp rs st1
        else rbind (apply_rule inp r st1) (\<lambda>(st2, stop).
          if stop then Inr st2 else eval_loop rx inp rs st2))"

definition eval_init :: "policy_input \<Rightarrow> token_vault \<Rightarrow> (string, string) hashmap \<Rightarrow> eval_st" where
  "eval_init inp v m = \<lparr>es_content = pe_content inp, es_events = [], es_final_action = ''allow'',
     es_denied = False, es_applied = False, es_vault = v, es_map = m\<rparr>"

definition eval_outcome :: "nat \<Rightarrow> eval_st \<Rightarrow> policy_outcome \<times> token_vault \<times> (string, string) hashmap" where
  "eval_outcome n st = (\<lparr>oc_content = es_content st,
       oc_result = \<lparr>final_action = es_final_action st, events = es_events st\<rparr>,
       oc_denied = es_denied st, oc_rules_evaluated = n, oc_unprotected = \<not> es_applied st\<rparr>,
     es_vault st, es_map st)"

text \<open>\<open>evaluate\<close>; \<open>rules\<close> is what \<open>list_enabled_rules\<close> returned.\<close>

definition evaluate ::
  "regex_crate \<Rightarrow> (api_error, policy_rule list) result \<Rightarrow> policy_input \<Rightarrow> token_vault
     \<Rightarrow> (string, string) hashmap \<Rightarrow> (policy_outcome \<times> token_vault \<times> (string, string) hashmap) outcome" where
  "evaluate rx rules inp v m =
     rbind (lift_err rules) (\<lambda>rs.
       rbind (eval_loop rx inp rs (eval_init inp v m)) (\<lambda>st. Inr (eval_outcome (length rs) st)))"

section \<open>The first deciding rule decides\<close>

text \<open>
  The specification: a rule decides a request when it matches, is not a dry run and names an
  action the engine knows. The outcome is that of the first deciding rule alone; the rules
  before it only leave their events, and without a deciding rule nothing is touched.
\<close>

definition known_actions :: "string list" where
  "known_actions = [''deny'', ''allow'', ''redact'', ''transform'', ''flag'']"

definition decides :: "regex_crate \<Rightarrow> policy_input \<Rightarrow> policy_rule \<Rightarrow> bool" where
  "decides rx inp r = (rule_matches rx r inp \<and> \<not> dry_run r \<and> rule_action r \<in> set known_actions)"

definition decided_content ::
  "policy_input \<Rightarrow> policy_rule \<Rightarrow> token_vault \<Rightarrow> (string, string) hashmap
     \<Rightarrow> (string \<times> token_vault \<times> (string, string) hashmap) outcome" where
  "decided_content inp r v m =
     (if rule_action r = ''redact'' then
        Inr (apply_redaction (pe_content inp)
          (if fail_closed inp then pe_detections inp else matching_detections r (pe_detections inp)) v m)
      else if rule_action r = ''transform'' then
        (case apply_transform (pe_content inp) (matching_detections r (pe_detections inp)) (transform_template r) of
           None \<Rightarrow> Inl Panicked | Some t \<Rightarrow> Inr (t, v, m))
      else Inr (pe_content inp, v, m))"

definition policy_spec ::
  "regex_crate \<Rightarrow> policy_rule list \<Rightarrow> policy_input \<Rightarrow> token_vault \<Rightarrow> (string, string) hashmap
     \<Rightarrow> (policy_outcome \<times> token_vault \<times> (string, string) hashmap) outcome" where
  "policy_spec rx rs inp v m =
     (let before = filter (\<lambda>r. rule_matches rx r inp) (takeWhile (\<lambda>r. \<not> decides rx inp r) rs);
          evs = map from_rule before
      in case dropWhile (\<lambda>r. \<not> decides rx inp r) rs of
           [] \<Rightarrow> Inr (\<lparr>oc_content = pe_content inp,
               oc_result = \<lparr>final_action = last (''allow'' # map rule_action (filter (\<lambda>r. \<not> dry_run r) before)),
                            events = evs\<rparr>,
               oc_denied = False, oc_rules_evaluated = length rs, oc_unprotected = True\<rparr>, v, m)
         | r # _ \<Rightarrow> rbind (decided_content inp r v m) (\<lambda>(t, v', m').
             Inr (\<lparr>oc_content = t,
               oc_result = \<lparr>final_action = rule_action r, events = evs @ [from_rule r]\<rparr>,
               oc_denied = (rule_action r = ''deny''), oc_rules_evaluated = length rs,
               oc_unprotected = False\<rparr>, v', m')))"

lemma apply_rule_unknown:
  "rule_action r \<notin> set known_actions \<Longrightarrow> apply_rule inp r st = Inr (st\<lparr>es_final_action := rule_action r\<rparr>, False)"
  by (simp add: apply_rule_def known_actions_def)

lemma apply_rule_known:
  assumes "rule_action r \<in> set known_actions" "es_content st = pe_content inp" "\<not> es_denied st"
  shows "apply_rule inp r st = rbind (decided_content inp r (es_vault st) (es_map st)) (\<lambda>(t, v, m).
     Inr (st\<lparr>es_final_action := rule_action r, es_applied := True, es_denied := (rule_action r = ''deny''),
             es_content := t, es_vault := v, es_map := m\<rparr>, True))"
  using assms
  by (auto simp: apply_rule_def known_actions_def decided_content_def Let_def split: prod.splits option.splits)

lemma eval_loop_decision:
  assumes "es_content st = pe_content inp" "\<not> es_denied st" "\<not> es_applied st"
  shows "eval_loop rx inp rs st =
    (let before = filter (\<lambda>r. rule_matches rx r inp) (takeWhile (\<lambda>r. \<not> decides rx inp r) rs);
         evs = es_events st @ map from_rule before
     in case dropWhile (\<lambda>r. \<not> decides rx inp r) rs of
          [] \<Rightarrow> Inr (st\<lparr>es_events := evs,
                  es_final_action := last (es_final_action st # map rule_action (filter (\<lambda>r. \<not> dry_run r) before))\<rparr>)
        | r # _ \<Rightarrow> rbind (decided_content inp r (es_vault st) (es_map st)) (\<lambda>(t, v, m).
            Inr (st\<lparr>es_events := evs @ [from_rule r], es_final_action := rule_action r, es_applied := True,
                    es_denied := (rule_action r = ''deny''), es_content := t, es_vault := v, es_map := m\<rparr>)))"
  using assms
proof (induction rs arbitrary: st)
  case Nil
  then show ?case by simp
next
  case (Cons r rs)
  let ?st1 = "st\<lparr>es_events := es_events st @ [from_rule r]\<rparr>"
  obtain rest where rest: "dropWhile (\<lambda>r. \<not> decides rx inp r) rs = rest" by blast
  consider (skip) "\<not> rule_matches rx r inp" | (dry) "rule_matches rx r inp" "dry_run r"
    | (unknown) "rule_matches rx r inp" "\<not> dry_run r" "rule_action r \<notin> set known_actions"
    | (dec) "decides rx inp r"
    by (auto simp: decides_def)
  then show ?case
  proof cases
    case skip
    then show ?thesis using Cons.IH [OF Cons.prems] by (simp add: decides_def)
  next
    case dry
    then have "\<not> decides rx inp r" by (simp add: decides_def)
    then show ?thesis
      using dry Cons.IH [of ?st1] Cons.prems by (cases rest) (simp_all add: rest Let_def)
  next
    case unknown
    then have "\<not> decides rx inp r" by (simp add: decides_def)
    then show ?thesis
      using unknown Cons.IH [of "?st1\<lparr>es_final_action := rule_action r\<rparr>"] Cons.prems
      by (cases rest) (simp_all add: apply_rule_unknown rest Let_def)
  next
    case dec
    then have "rule_matches rx r inp" "\<not> dry_run r" "rule_action r \<in> set known_actions"
      by (simp_all add: decides_def)
    then show ?thesis
      using dec Cons.prems apply_rule_known [of r ?st1 inp]
      by (cases "decided_content inp r (es_vault st) (es_map st)") auto
  qed
qed

lemma evaluate_policy_spec: "evaluate rx (Inr rs) inp v m = policy_spec rx rs inp v m"
proof -
  let ?st = "eval_init inp v m"
  have st: "es_content ?st = pe_content inp" "\<not> es_denied ?st" "\<not> es_applied ?st"
    "es_events ?st = []" "es_final_action ?st = ''allow''" "es_vault ?st = v" "es_map ?st = m"
    by (simp_all add: eval_init_def)
  obtain rest where rest: "dropWhile (\<lambda>r. \<not> decides rx inp r) rs = rest" by blast
  show ?thesis
    unfolding evaluate_def policy_spec_def eval_loop_decision [OF st(1-3)] st lift_err.simps rbind_simps rest
    by (cases rest) (auto simp: Let_def st rbind_def eval_outcome_def split: sum.split)
qed

text \<open>
  C6. \<open>evaluate\<close> implements the specification: the first matching rule that is not a dry run
  and names a known action decides, alone, the content, the vault, the redaction map, the final
  action and whether the request is denied; when no rule decides, the content and the vault are
  untouched and the outcome says \<open>unprotected\<close>.
\<close>

theorem evaluate_first_deciding_rule:
  "evaluate rx (Inr rs) inp v m = policy_spec rx rs inp v m"
  by (rule evaluate_policy_spec)

text \<open>The part of an outcome that changes what happens to the request.\<close>

definition effect ::
  "(policy_outcome \<times> token_vault \<times> (string, string) hashmap) outcome
     \<Rightarrow> (string \<times> string \<times> bool \<times> bool \<times> token_vault \<times> (string, string) hashmap) outcome" where
  "effect x = rbind x (\<lambda>(oc, v, m).
     Inr (oc_content oc, final_action (oc_result oc), oc_denied oc, oc_unprotected oc, v, m))"

lemma dropWhile_filter_decides:
  "dropWhile (\<lambda>r. \<not> decides rx inp r) (filter (\<lambda>r. \<not> dry_run r) rs) =
   filter (\<lambda>r. \<not> dry_run r) (dropWhile (\<lambda>r. \<not> decides rx inp r) rs)"
  by (induction rs) (auto simp: decides_def)

lemma takeWhile_filter_decides:
  "takeWhile (\<lambda>r. \<not> decides rx inp r) (filter (\<lambda>r. \<not> dry_run r) rs) =
   filter (\<lambda>r. \<not> dry_run r) (takeWhile (\<lambda>r. \<not> decides rx inp r) rs)"
  by (induction rs) (auto simp: decides_def)

lemma filter_filter_swap: "filter P (filter Q xs) = filter Q (filter P xs)"
  by (simp add: conj_commute)

lemma policy_spec_dry_run:
  "effect (policy_spec rx rs inp v m) = effect (policy_spec rx (filter (\<lambda>r. \<not> dry_run r) rs) inp v m)"
proof -
  obtain rest where rest: "dropWhile (\<lambda>r. \<not> decides rx inp r) rs = rest" by blast
  have "rest = [] \<or> \<not> dry_run (hd rest)"
    using rest hd_dropWhile [of "\<lambda>r. \<not> decides rx inp r" rs] by (auto simp: decides_def)
  then show ?thesis
    unfolding effect_def policy_spec_def dropWhile_filter_decides takeWhile_filter_decides rest
    by (cases rest) (auto simp: Let_def rbind_def conj_commute split: sum.split)
qed

text \<open>
  Dry-run rules are inert: removing them all changes neither the content sent on, nor the
  final action, nor the denial, nor the \<open>unprotected\<close> flag, nor the vault and the map.
\<close>

theorem dry_run_rules_inert:
  "effect (evaluate rx (Inr rs) inp v m) =
   effect (evaluate rx (Inr (filter (\<lambda>r. \<not> dry_run r) rs)) inp v m)"
  unfolding evaluate_policy_spec by (rule policy_spec_dry_run)

section \<open>When a rule matches\<close>

lemma detection_conditions_spec:
  "detection_conditions rx inp cs =
     (if \<forall>c \<in> set cs. \<not> is_detection_scoped c \<longrightarrow> matches_condition rx c inp
      then Some (filter is_detection_scoped cs) else None)"
  by (induction cs) auto

text \<open>
  A rule with an array of conditions matches exactly when every request-scoped condition
  holds of the request and, if there are detection-scoped ones, one single detection satisfies
  all of them together.
\<close>

theorem rule_matches_single_detection:
  "conditions r = JArr cs \<Longrightarrow>
   rule_matches rx r inp \<longleftrightarrow>
     (\<forall>c \<in> set cs. \<not> is_detection_scoped c \<longrightarrow> matches_condition rx c inp) \<and>
     ((\<forall>c \<in> set cs. \<not> is_detection_scoped c) \<or>
      (\<exists>d \<in> set (pe_detections inp). \<forall>c \<in> set cs. is_detection_scoped c \<longrightarrow> matches_detection_condition c d))"
  by (auto simp: rule_matches_def detection_conditions_spec list_ex_iff list_all_iff filter_empty_conv)

theorem rule_matches_single_detection_witness:
  "\<not> rule_matches (\<lambda>_. None)
     \<lparr>rule_id = 1, rule_ws = 2, rule_name = ''r'', priority = 1,
      conditions = JArr [JObj [(''field'', JStr ''detection_class''), (''op'', JStr ''eq''), (''value'', JStr ''EMAIL'')],
                         JObj [(''field'', JStr ''confidence_gte''), (''op'', JStr ''gte''), (''value'', JNum (9/10))]],
      rule_action = ''redact'', action_params = JObj [], enabled = True, dry_run = False,
      created_at = 0, updated_at = 0\<rparr>
     \<lparr>pe_provider_name = ''p'', pe_model = ''m'', pe_content = ''c'',
      pe_detections = [\<lparr>det_class = ''EMAIL'', confidence = 1/2, det_span = None, det_value = ''x''\<rparr>,
                       \<lparr>det_class = ''PERSON'', confidence = 1, det_span = None, det_value = ''y''\<rparr>],
      fail_closed = True\<rparr>"
  by (subst rule_matches_single_detection [OF policy_rule.select_convs(5)])
    (simp add: is_detection_scoped_def matches_detection_condition_def get_str_def is_some_and_def
      class_filter_matches_def generic_class_for_def)

end
