(* ===== verification/Admin_Db.thy ===== *)
theory Admin_Db
  imports SP_Types
begin

text \<open>
  What the administrative repositories share: the role ladder
  (\<open>http/middleware/jwt_auth.rs\<close>, \<open>http/routes/dashboard/role.rs\<close>), the scoped transaction
  (\<open>db/scope.rs\<close>) and the audit trail every change writes in its own transaction
  (\<open>db/admin_audit_repo.rs\<close>). PostgreSQL and the clock are parameters, gathered in a
  \<open>db_env\<close>: which statement of the operation fails and with which message, what a setting
  reads back as, the time, the fresh UUIDs, and how a UUID is printed.
\<close>

section \<open>Roles\<close>

datatype user_role = Owner | Admin | Developer | Employee | Viewer

fun as_db_str :: "user_role \<Rightarrow> string" where
  "as_db_str Owner = ''owner''"
| "as_db_str Admin = ''admin''"
| "as_db_str Developer = ''developer''"
| "as_db_str Employee = ''employee''"
| "as_db_str Viewer = ''viewer''"

definition from_db_str :: "string \<Rightarrow> (api_error, user_role) result" where
  "from_db_str s =
     (if s = ''owner'' then Inr Owner
      else if s = ''admin'' then Inr Admin
      else if s = ''developer'' then Inr Developer
      else if s = ''employee'' then Inr Employee
      else if s = ''member'' then Inr Developer
      else if s = ''viewer'' then Inr Viewer
      else Inl (Internal (''unknown role: '' @ s)))"

definition can_write :: "user_role \<Rightarrow> bool" where
  "can_write r = (r \<in> {Owner, Admin})"

definition can_read_all_audit :: "user_role \<Rightarrow> bool" where
  "can_read_all_audit r = (r \<in> {Owner, Admin, Developer})"

fun privilege_level :: "user_role \<Rightarrow> nat" where
  "privilege_level Owner = 4"
| "privilege_level Admin = 3"
| "privilege_level Developer = 2"
| "privilege_level Employee = 1"
| "privilege_level Viewer = 1"

record jwt_ctx =
  ctx_user_id :: uuid
  ctx_workspace_id :: uuid
  ctx_role :: user_role
  ctx_jti :: string
  ctx_exp :: int

definition require_role :: "jwt_ctx \<Rightarrow> user_role \<Rightarrow> (api_error, unit) result" where
  "require_role ctx minimum =
     (if privilege_level minimum \<le> privilege_level (ctx_role ctx) then Inr ()
      else Inl (Forbidden ''insufficient role''))"

section \<open>Scoped transactions\<close>

record db_env =
  stmt_err :: "nat \<Rightarrow> string option"
  readback :: "string \<Rightarrow> string option"
  dup_err :: string
  show_uuid :: "uuid \<Rightarrow> string"
  now_ts :: int
  fresh_uuid :: "nat \<Rightarrow> uuid"

text \<open>The \<open>k\<close>-th statement of an operation, \<open>BEGIN\<close> being the 0th: it runs, or its error is mapped.\<close>

definition stmt :: "db_env \<Rightarrow> nat \<Rightarrow> (api_error, unit) result" where
  "stmt env k = (case stmt_err env k of None \<Rightarrow> Inr () | Some e \<Rightarrow> Inl (Database e))"

definition scope_not_armed :: string where
  "scope_not_armed = ''app.current_workspace_id was not armed for this transaction; refusing to '' @
     ''run a row-level-security-protected query that would silently return no rows''"

definition scope_is_armed :: "db_env \<Rightarrow> uuid \<Rightarrow> (api_error, unit) result" where
  "scope_is_armed env ws = rbind (stmt env 2) (\<lambda>_.
     if readback env (show_uuid env ws) = Some (show_uuid env ws) then Inr ()
     else Inl (Internal scope_not_armed))"

definition arm_scope :: "db_env \<Rightarrow> uuid \<Rightarrow> (api_error, unit) result" where
  "arm_scope env ws = rbind (stmt env 1) (\<lambda>_. scope_is_armed env ws)"

definition begin_scoped :: "db_env \<Rightarrow> uuid \<Rightarrow> (api_error, unit) result" where
  "begin_scoped env ws = rbind (stmt env 0) (\<lambda>_. arm_scope env ws)"

section \<open>The audit trail\<close>

datatype audit_action =
    ApiKeyCreated | ApiKeyRevoked | ApiKeyRotated
  | ProviderCredentialCreated | ProviderCredentialUpdated | ProviderCredentialDeleted
  | PolicyRuleCreated | PolicyRuleUpdated | PolicyRuleDeleted | PolicyRuleEnabledChanged
  | PolicyRuleDryRunChanged
  | UserCreated | TwoFactorEnrollmentStarted | TwoFactorEnabled | TwoFactorDisabled
  | LicenseActivated | LicenseCleared | BudgetUpdated | SecureModeUpdated | SidecarPolicyUpdated
  | LoginSucceeded | SecondFactorVerified | FileScanRequested

fun audit_action_str :: "audit_action \<Rightarrow> string" where
  "audit_action_str ApiKeyCreated = ''api_key.created''"
| "audit_action_str ApiKeyRevoked = ''api_key.revoked''"
| "audit_action_str ApiKeyRotated = ''api_key.rotated''"
| "audit_action_str ProviderCredentialCreated = ''provider_credential.created''"
| "audit_action_str ProviderCredentialUpdated = ''provider_credential.updated''"
| "audit_action_str ProviderCredentialDeleted = ''provider_credential.deleted''"
| "audit_action_str PolicyRuleCreated = ''policy_rule.created''"
| "audit_action_str PolicyRuleUpdated = ''policy_rule.updated''"
| "audit_action_str PolicyRuleDeleted = ''policy_rule.deleted''"
| "audit_action_str PolicyRuleEnabledChanged = ''policy_rule.enabled_changed''"
| "audit_action_str PolicyRuleDryRunChanged = ''policy_rule.dry_run_changed''"
| "audit_action_str UserCreated = ''user.created''"
| "audit_action_str TwoFactorEnrollmentStarted = ''two_factor.enrollment_started''"
| "audit_action_str TwoFactorEnabled = ''two_factor.enabled''"
| "audit_action_str TwoFactorDisabled = ''two_factor.disabled''"
| "audit_action_str LicenseActivated = ''license.activated''"
| "audit_action_str LicenseCleared = ''license.cleared''"
| "audit_action_str BudgetUpdated = ''budget.updated''"
| "audit_action_str SecureModeUpdated = ''secure_mode.updated''"
| "audit_action_str SidecarPolicyUpdated = ''sidecar_policy.updated''"
| "audit_action_str LoginSucceeded = ''auth.login_succeeded''"
| "audit_action_str SecondFactorVerified = ''auth.second_factor_verified''"
| "audit_action_str FileScanRequested = ''file_scan.requested''"

definition target_type :: "audit_action \<Rightarrow> string" where
  "target_type a =
     (if a \<in> {ApiKeyCreated, ApiKeyRevoked, ApiKeyRotated} then ''api_key''
      else if a \<in> {ProviderCredentialCreated, ProviderCredentialUpdated, ProviderCredentialDeleted}
        then ''provider''
      else if a \<in> {PolicyRuleCreated, PolicyRuleUpdated, PolicyRuleDeleted, PolicyRuleEnabledChanged,
                   PolicyRuleDryRunChanged} then ''policy_rule''
      else if a \<in> {UserCreated, TwoFactorEnrollmentStarted, TwoFactorEnabled, TwoFactorDisabled,
                   LoginSucceeded, SecondFactorVerified} then ''user''
      else if a \<in> {LicenseActivated, LicenseCleared} then ''license''
      else if a \<in> {BudgetUpdated, SecureModeUpdated, SidecarPolicyUpdated} then ''workspace''
      else ''file_scan'')"

record admin_actor =
  actor_ws :: uuid
  actor_user_id :: "uuid option"
  actor_email :: "string option"
  actor_role :: "string option"

text \<open>\<open>AdminActor::resolve\<close>; \<open>email\<close> is what the lookup in \<open>users\<close> gave, \<open>None\<close> when it failed.\<close>

definition actor_resolve :: "string option \<Rightarrow> uuid \<Rightarrow> uuid \<Rightarrow> string \<Rightarrow> admin_actor" where
  "actor_resolve email ws user r = \<lparr>actor_ws = ws, actor_user_id = Some user, actor_email = email,
     actor_role = Some r\<rparr>"

record audit_entry =
  ae_action :: audit_action
  ae_target_id :: "uuid option"
  ae_target_label :: "string option"
  ae_target_user_id :: "uuid option"
  ae_target_email :: "string option"
  ae_target_role :: "string option"
  ae_detail :: json

definition on_object :: "audit_action \<Rightarrow> uuid \<Rightarrow> string option \<Rightarrow> audit_entry" where
  "on_object a tid label = \<lparr>ae_action = a, ae_target_id = Some tid, ae_target_label = label,
     ae_target_user_id = None, ae_target_email = None, ae_target_role = None, ae_detail = JObj []\<rparr>"

definition on_named_object :: "audit_action \<Rightarrow> string option \<Rightarrow> audit_entry" where
  "on_named_object a label = \<lparr>ae_action = a, ae_target_id = None, ae_target_label = label,
     ae_target_user_id = None, ae_target_email = None, ae_target_role = None, ae_detail = JObj []\<rparr>"

definition with_detail :: "json \<Rightarrow> audit_entry \<Rightarrow> audit_entry" where
  "with_detail d e = e\<lparr>ae_detail := d\<rparr>"

definition targeting_user :: "uuid \<Rightarrow> string \<Rightarrow> string \<Rightarrow> audit_entry \<Rightarrow> audit_entry" where
  "targeting_user u email r e = e\<lparr>ae_target_user_id := Some u, ae_target_email := Some email,
     ae_target_role := Some r\<rparr>"

definition on_own_account :: "audit_action \<Rightarrow> uuid \<Rightarrow> string \<Rightarrow> string \<Rightarrow> audit_entry" where
  "on_own_account a u email r = targeting_user u email r (on_object a u None)"

definition target_label_max :: nat where
  "target_label_max = 200"

definition bounded_label :: "string option \<Rightarrow> string option" where
  "bounded_label label = map_option (take_chars target_label_max) label"

text \<open>A row of \<open>admin_audit\<close>.\<close>

record audit_row =
  ar_id :: uuid
  ar_ws :: uuid
  ar_action :: string
  ar_actor_user_id :: "uuid option"
  ar_actor_email :: "string option"
  ar_actor_role :: "string option"
  ar_target_type :: string
  ar_target_id :: "uuid option"
  ar_target_label :: "string option"
  ar_target_user_id :: "uuid option"
  ar_target_email :: "string option"
  ar_target_role :: "string option"
  ar_detail :: json
  ar_created_at :: int

text \<open>\<open>admin_audit_repo::write\<close>: the row it inserts as the \<open>k\<close>-th statement of the transaction.\<close>

definition audit_write ::
  "db_env \<Rightarrow> nat \<Rightarrow> admin_actor \<Rightarrow> audit_entry \<Rightarrow> audit_row list \<Rightarrow> (api_error, audit_row list) result" where
  "audit_write env k actor entry tbl = rbind (stmt env k) (\<lambda>_. Inr (tbl @
     [\<lparr>ar_id = fresh_uuid env k, ar_ws = actor_ws actor, ar_action = audit_action_str (ae_action entry),
       ar_actor_user_id = actor_user_id actor, ar_actor_email = actor_email actor,
       ar_actor_role = actor_role actor, ar_target_type = target_type (ae_action entry),
       ar_target_id = ae_target_id entry, ar_target_label = bounded_label (ae_target_label entry),
       ar_target_user_id = ae_target_user_id entry, ar_target_email = ae_target_email entry,
       ar_target_role = ae_target_role entry, ar_detail = ae_detail entry,
       ar_created_at = now_ts env\<rparr>]))"

definition changed_field :: "string \<Rightarrow> json \<Rightarrow> json \<Rightarrow> (string \<times> json) list \<Rightarrow> (string \<times> json) list" where
  "changed_field name before after m =
     (if before \<noteq> after then hm_insert name (JObj [(''before'', before), (''after'', after)]) m else m)"

section \<open>Lemmas\<close>

lemma audit_write_Inr:
  "audit_write env k actor entry tbl = Inr tbl' \<Longrightarrow>
   \<exists>row. tbl' = tbl @ [row] \<and> ar_ws row = actor_ws actor \<and> ar_action row = audit_action_str (ae_action entry)
     \<and> ar_target_id row = ae_target_id entry \<and> ar_actor_user_id row = actor_user_id actor"
  by (auto simp: audit_write_def rbind_Inr)

lemma audit_action_str_inj: "audit_action_str a = audit_action_str b \<longleftrightarrow> a = b"
  by (cases a; cases b) simp_all

lemma from_as_db_str: "from_db_str (as_db_str r) = Inr r"
  by (cases r) (simp_all add: from_db_str_def)

lemma require_admin_iff: "require_role ctx Admin = Inr () \<longleftrightarrow> can_write (ctx_role ctx)"
  by (cases "ctx_role ctx") (simp_all add: require_role_def can_write_def)

lemma begin_scoped_Inr:
  "begin_scoped env ws = Inr u \<Longrightarrow> readback env (show_uuid env ws) = Some (show_uuid env ws)"
  by (auto simp: begin_scoped_def arm_scope_def scope_is_armed_def rbind_Inr split: if_splits)

end
