(* ===== verification/Policy_Store.thy ===== *)
theory Policy_Store
  imports Policy_Engine Admin_Db
begin

text \<open>
  The policy rules of the workspaces: \<open>db/policy_repo.rs\<close> and the handlers of
  \<open>http/routes/dashboard/policy_rules.rs\<close>. The tables \<open>policy_rules\<close> and \<open>admin_audit\<close> are lists
  of rows and each SQL statement is its function on them; a transaction that does not commit
  leaves them as they were. Statement numbers: 0 to 2 open the scoped transaction, the
  operation's own statements follow, the commit is last.
\<close>

section \<open>The repository\<close>

record policy_db =
  rules_tbl :: "policy_rule list"
  audit_tbl :: "audit_row list"
  index_queue :: "(uuid \<times> string \<times> uuid) list"

text \<open>\<open>WHERE id = $1 AND workspace_id = $2\<close>, and \<open>ORDER BY priority ASC, id ASC\<close>.\<close>

definition is_rule :: "uuid \<Rightarrow> uuid \<Rightarrow> policy_rule \<Rightarrow> bool" where
  "is_rule ws rid r = (rule_id r = rid \<and> rule_ws r = ws)"

definition rule_order :: "policy_rule \<Rightarrow> int \<times> int" where
  "rule_order r = (priority r, uint (rule_id r))"

definition not_found :: "db_env \<Rightarrow> uuid \<Rightarrow> api_error" where
  "not_found env rid = NotFound (''policy rule '' @ show_uuid env rid @ '' not found'')"

definition list_rules :: "db_env \<Rightarrow> policy_db \<Rightarrow> uuid \<Rightarrow> (api_error, policy_rule list) result" where
  "list_rules env db ws =
     rbind (begin_scoped env ws) (\<lambda>_. rbind (stmt env 3) (\<lambda>_. rbind (stmt env 4) (\<lambda>_.
       Inr (sort_key rule_order (filter (\<lambda>r. rule_ws r = ws) (rules_tbl db))))))"

definition list_enabled_rules :: "db_env \<Rightarrow> policy_db \<Rightarrow> uuid \<Rightarrow> (api_error, policy_rule list) result" where
  "list_enabled_rules env db ws = rbind (list_rules env db ws) (\<lambda>rs. Inr (filter enabled rs))"

definition get_rule :: "db_env \<Rightarrow> policy_db \<Rightarrow> uuid \<Rightarrow> uuid \<Rightarrow> (api_error, policy_rule) result" where
  "get_rule env db ws rid =
     rbind (begin_scoped env ws) (\<lambda>_. rbind (stmt env 3) (\<lambda>_.
       rbind (ok_or (List.find (is_rule ws rid) (rules_tbl db)) (not_found env rid)) (\<lambda>r.
         rbind (stmt env 4) (\<lambda>_. Inr r))))"

definition create_rule ::
  "db_env \<Rightarrow> policy_db \<Rightarrow> uuid \<Rightarrow> string \<Rightarrow> int \<Rightarrow> json \<Rightarrow> string \<Rightarrow> json \<Rightarrow> bool \<Rightarrow> bool \<Rightarrow> admin_actor
     \<Rightarrow> (api_error, policy_rule \<times> policy_db) result" where
  "create_rule env db ws name prio conds act params en dry actor =
     rbind (begin_scoped env ws) (\<lambda>_.
       let row = \<lparr>rule_id = fresh_uuid env 3, rule_ws = ws, rule_name = name, priority = prio,
                  conditions = conds, rule_action = act, action_params = params, enabled = en,
                  dry_run = dry, created_at = now_ts env, updated_at = now_ts env\<rparr> in
       rbind (stmt env 3) (\<lambda>_.
       rbind (guard_err (rule_id row \<in> rule_id ` set (rules_tbl db)) (Database (dup_err env))) (\<lambda>_.
       rbind (audit_write env 4 actor
           (with_detail (JObj [(''priority'', JNum (of_int prio)), (''rule_action'', JStr act),
              (''enabled'', JBool en), (''dry_run'', JBool dry),
              (''conditions_present'', JBool (conds \<noteq> JArr []))])
             (on_object PolicyRuleCreated (rule_id row) (Some name))) (audit_tbl db)) (\<lambda>aud.
       rbind (stmt env 5) (\<lambda>_. Inr (row, db\<lparr>rules_tbl := rules_tbl db @ [row], audit_tbl := aud\<rparr>))))))"

text \<open>
  \<open>UPDATE policy_rules SET ... WHERE id = $1 AND workspace_id = $2 RETURNING ...\<close>: the row the
  statement returns, and the table.
\<close>

definition update_where ::
  "uuid \<Rightarrow> uuid \<Rightarrow> (policy_rule \<Rightarrow> policy_rule) \<Rightarrow> policy_rule list \<Rightarrow> policy_rule list" where
  "update_where ws rid f tbl = map (\<lambda>r. if is_rule ws rid r then f r else r) tbl"

definition update_rule ::
  "db_env \<Rightarrow> policy_db \<Rightarrow> uuid \<Rightarrow> uuid \<Rightarrow> string \<Rightarrow> int \<Rightarrow> json \<Rightarrow> string \<Rightarrow> json \<Rightarrow> bool \<Rightarrow> bool \<Rightarrow> admin_actor
     \<Rightarrow> (api_error, policy_rule \<times> policy_db) result" where
  "update_rule env db ws rid name prio conds act params en dry actor =
     rbind (begin_scoped env ws) (\<lambda>_. rbind (stmt env 3) (\<lambda>_.
     rbind (ok_or (List.find (is_rule ws rid) (rules_tbl db)) (not_found env rid)) (\<lambda>before.
     rbind (stmt env 4) (\<lambda>_.
       let upd = (\<lambda>r. r\<lparr>rule_name := name, priority := prio, conditions := conds, rule_action := act,
                        action_params := params, enabled := en, dry_run := dry, updated_at := now_ts env\<rparr>);
           tbl = update_where ws rid upd (rules_tbl db) in
       rbind (ok_or (List.find (is_rule ws rid) tbl) (not_found env rid)) (\<lambda>row.
       let changed = changed_field ''dry_run'' (JBool (dry_run before)) (JBool dry)
            (changed_field ''enabled'' (JBool (enabled before)) (JBool en)
            (changed_field ''rule_action'' (JStr (rule_action before)) (JStr act)
            (changed_field ''priority'' (JNum (of_int (priority before))) (JNum (of_int prio))
            (changed_field ''name'' (JStr (rule_name before)) (JStr name) [])))) in
       rbind (audit_write env 5 actor
           (with_detail (JObj [(''changed'', JObj changed),
              (''conditions_changed'', JBool (conditions before \<noteq> conds)),
              (''action_params_changed'', JBool (action_params before \<noteq> params))])
             (on_object PolicyRuleUpdated rid (Some name))) (audit_tbl db)) (\<lambda>aud.
       rbind (stmt env 6) (\<lambda>_. Inr (row, db\<lparr>rules_tbl := tbl, audit_tbl := aud\<rparr>))))))))"

definition delete_rule ::
  "db_env \<Rightarrow> policy_db \<Rightarrow> uuid \<Rightarrow> uuid \<Rightarrow> admin_actor \<Rightarrow> (api_error, unit \<times> policy_db) result" where
  "delete_rule env db ws rid actor =
     rbind (begin_scoped env ws) (\<lambda>_. rbind (stmt env 3) (\<lambda>_.
     rbind (ok_or (List.find (is_rule ws rid) (rules_tbl db)) (not_found env rid)) (\<lambda>gone.
     rbind (audit_write env 4 actor
         (with_detail (JObj [(''priority'', JNum (of_int (priority gone))),
            (''rule_action'', JStr (rule_action gone)), (''enabled'', JBool (enabled gone)),
            (''dry_run'', JBool (dry_run gone))])
           (on_object PolicyRuleDeleted rid (Some (rule_name gone)))) (audit_tbl db)) (\<lambda>aud.
     rbind (stmt env 5) (\<lambda>_.
       Inr ((), db\<lparr>rules_tbl := filter (\<lambda>r. \<not> is_rule ws rid r) (rules_tbl db), audit_tbl := aud\<rparr>))))))"

definition set_enabled ::
  "db_env \<Rightarrow> policy_db \<Rightarrow> uuid \<Rightarrow> uuid \<Rightarrow> bool \<Rightarrow> admin_actor \<Rightarrow> (api_error, policy_rule \<times> policy_db) result" where
  "set_enabled env db ws rid en actor =
     rbind (begin_scoped env ws) (\<lambda>_. rbind (stmt env 3) (\<lambda>_.
     rbind (ok_or (List.find (is_rule ws rid) (rules_tbl db)) (not_found env rid)) (\<lambda>before.
     rbind (stmt env 4) (\<lambda>_.
       let tbl = update_where ws rid (\<lambda>r. r\<lparr>enabled := en, updated_at := now_ts env\<rparr>) (rules_tbl db) in
       rbind (ok_or (List.find (is_rule ws rid) tbl) (not_found env rid)) (\<lambda>row.
       rbind (audit_write env 5 actor
           (with_detail (JObj [(''before'', JBool (enabled before)), (''after'', JBool en)])
             (on_object PolicyRuleEnabledChanged rid (Some (rule_name row)))) (audit_tbl db)) (\<lambda>aud.
       rbind (stmt env 6) (\<lambda>_. Inr (row, db\<lparr>rules_tbl := tbl, audit_tbl := aud\<rparr>))))))))"

definition set_dry_run ::
  "db_env \<Rightarrow> policy_db \<Rightarrow> uuid \<Rightarrow> uuid \<Rightarrow> bool \<Rightarrow> admin_actor \<Rightarrow> (api_error, policy_rule \<times> policy_db) result" where
  "set_dry_run env db ws rid dry actor =
     rbind (begin_scoped env ws) (\<lambda>_. rbind (stmt env 3) (\<lambda>_.
     rbind (ok_or (List.find (is_rule ws rid) (rules_tbl db)) (not_found env rid)) (\<lambda>before.
     rbind (stmt env 4) (\<lambda>_.
       let tbl = update_where ws rid (\<lambda>r. r\<lparr>dry_run := dry, updated_at := now_ts env\<rparr>) (rules_tbl db) in
       rbind (ok_or (List.find (is_rule ws rid) tbl) (not_found env rid)) (\<lambda>row.
       rbind (audit_write env 5 actor
           (with_detail (JObj [(''before'', JBool (dry_run before)), (''after'', JBool dry)])
             (on_object PolicyRuleDryRunChanged rid (Some (rule_name row)))) (audit_tbl db)) (\<lambda>aud.
       rbind (stmt env 6) (\<lambda>_. Inr (row, db\<lparr>rules_tbl := tbl, audit_tbl := aud\<rparr>))))))))"

definition priority_in_use ::
  "db_env \<Rightarrow> policy_db \<Rightarrow> uuid \<Rightarrow> int \<Rightarrow> uuid option \<Rightarrow> (api_error, bool) result" where
  "priority_in_use env db ws prio excl =
     rbind (begin_scoped env ws) (\<lambda>_. rbind (stmt env 3) (\<lambda>_. rbind (stmt env 4) (\<lambda>_.
       Inr (list_ex (\<lambda>r. rule_ws r = ws \<and> priority r = prio \<and>
              (case excl of None \<Rightarrow> True | Some x \<Rightarrow> rule_id r \<noteq> x)) (rules_tbl db)))))"

section \<open>The handlers\<close>

definition valid_actions :: "string list" where
  "valid_actions = [''deny'', ''allow'', ''redact'', ''transform'', ''flag'']"

definition validate_action :: "string \<Rightarrow> (api_error, unit) result" where
  "validate_action a = (if List.member valid_actions a then Inr ()
     else Inl (BadRequest (''action must be one of: '' @ join_with '', '' valid_actions)))"

text \<open>
  \<open>validate_conditions\<close>; \<open>rx_err\<close> is the message of \<open>Regex::new\<close> on a pattern that does not
  compile, \<open>None\<close> when it does.
\<close>

fun validate_loop :: "(string \<Rightarrow> string option) \<Rightarrow> json list \<Rightarrow> nat \<Rightarrow> (api_error, nat) result" where
  "validate_loop rx_err [] n = Inr n"
| "validate_loop rx_err (c # cs) n =
     (let field = get_str c ''field'';
          n' = (if field = Some ''detection_class'' then n + 1 else n)
      in case (if field = Some ''content_regex'' then Option.bind (get_str c ''value'') rx_err else None) of
           Some e \<Rightarrow> Inl (BadRequest
             (''condition field `content_regex` is not a valid regular expression: '' @
              str_replace [CHR 0x0A] '' '' e))
         | None \<Rightarrow> validate_loop rx_err cs n')"

definition validate_conditions :: "(string \<Rightarrow> string option) \<Rightarrow> json \<Rightarrow> (api_error, unit) result" where
  "validate_conditions rx_err conds =
     (case as_array conds of
        None \<Rightarrow> Inr ()
      | Some cs \<Rightarrow> rbind (validate_loop rx_err cs 0) (\<lambda>n.
          guard_err (n > 1) (BadRequest
            (''a rule may have at most one `detection_class` condition, found '' @ show_nat n @
             ''. A detection has exactly one class, so a rule requiring two of them can never match anything. Combine the classes into a single condition: {\"field\": \"detection_class\", \"op\": \"in\", \"value\": [...]}''))))"

record rule_body =
  b_name :: string
  b_priority :: int
  b_conditions :: "json option"
  b_action :: string
  b_action_params :: "json option"
  b_enabled :: "bool option"
  b_dry_run :: "bool option"

datatype http_err = ApiErr api_error | PriorityConflict

text \<open>The index task; \<open>queue_ok\<close> says whether Redis took it, a failure is only logged.\<close>

definition enqueue_index_task :: "bool \<Rightarrow> policy_rule \<Rightarrow> uuid \<Rightarrow> policy_db \<Rightarrow> policy_db" where
  "enqueue_index_task queue_ok r ws db =
     (if queue_ok then db\<lparr>index_queue := index_queue db @ [(rule_id r, rule_name r, ws)]\<rparr> else db)"

text \<open>
  What a handler sees of the outside: one environment per repository call, the e-mail the actor
  lookup found, the regex crate and the task queue.
\<close>

record handler_env =
  he_check :: db_env
  he_write :: db_env
  he_email :: "string option"
  he_rx_err :: "string \<Rightarrow> string option"
  he_queue_ok :: bool

definition handler_actor :: "handler_env \<Rightarrow> jwt_ctx \<Rightarrow> admin_actor" where
  "handler_actor he ctx =
     actor_resolve (he_email he) (ctx_workspace_id ctx) (ctx_user_id ctx) (as_db_str (ctx_role ctx))"

text \<open>The checks \<open>create_rule\<close> and \<open>update_rule\<close> share: role, action, priority, conditions.\<close>

definition checked_conditions ::
  "handler_env \<Rightarrow> jwt_ctx \<Rightarrow> rule_body \<Rightarrow> uuid option \<Rightarrow> policy_db \<Rightarrow> (http_err, json) result" where
  "checked_conditions he ctx body excl db =
     rbind (map_err ApiErr (require_role ctx Admin)) (\<lambda>_.
     rbind (map_err ApiErr (validate_action (b_action body))) (\<lambda>_.
     rbind (map_err ApiErr (priority_in_use (he_check he) db (ctx_workspace_id ctx) (b_priority body) excl)) (\<lambda>taken.
     rbind (guard_err taken PriorityConflict) (\<lambda>_.
       let conds = unwrap_or (JArr []) (b_conditions body) in
       rbind (map_err ApiErr (validate_conditions (he_rx_err he) conds)) (\<lambda>_. Inr conds)))))"

definition create_rule_handler ::
  "handler_env \<Rightarrow> jwt_ctx \<Rightarrow> rule_body \<Rightarrow> policy_db \<Rightarrow> (http_err, policy_rule \<times> policy_db) result" where
  "create_rule_handler he ctx body db =
     rbind (checked_conditions he ctx body None db) (\<lambda>conds.
     rbind (map_err ApiErr (create_rule (he_write he) db (ctx_workspace_id ctx) (b_name body) (b_priority body)
         conds (b_action body) (unwrap_or (JObj []) (b_action_params body)) (unwrap_or True (b_enabled body))
         (unwrap_or False (b_dry_run body)) (handler_actor he ctx))) (\<lambda>(row, db').
       Inr (row, enqueue_index_task (he_queue_ok he) row (ctx_workspace_id ctx) db')))"

definition update_rule_handler ::
  "handler_env \<Rightarrow> jwt_ctx \<Rightarrow> uuid \<Rightarrow> rule_body \<Rightarrow> policy_db \<Rightarrow> (http_err, policy_rule \<times> policy_db) result" where
  "update_rule_handler he ctx rid body db =
     rbind (checked_conditions he ctx body (Some rid) db) (\<lambda>conds.
     rbind (map_err ApiErr (update_rule (he_write he) db (ctx_workspace_id ctx) rid (b_name body) (b_priority body)
         conds (b_action body) (unwrap_or (JObj []) (b_action_params body)) (unwrap_or True (b_enabled body))
         (unwrap_or False (b_dry_run body)) (handler_actor he ctx))) (\<lambda>(row, db').
       Inr (row, enqueue_index_task (he_queue_ok he) row (ctx_workspace_id ctx) db')))"

definition delete_rule_handler ::
  "handler_env \<Rightarrow> jwt_ctx \<Rightarrow> uuid \<Rightarrow> policy_db \<Rightarrow> (http_err, unit \<times> policy_db) result" where
  "delete_rule_handler he ctx rid db =
     rbind (map_err ApiErr (require_role ctx Admin)) (\<lambda>_.
       map_err ApiErr (delete_rule (he_write he) db (ctx_workspace_id ctx) rid (handler_actor he ctx)))"

definition toggle_enabled ::
  "handler_env \<Rightarrow> jwt_ctx \<Rightarrow> uuid \<Rightarrow> bool \<Rightarrow> policy_db \<Rightarrow> (http_err, policy_rule \<times> policy_db) result" where
  "toggle_enabled he ctx rid en db =
     rbind (map_err ApiErr (require_role ctx Admin)) (\<lambda>_.
       map_err ApiErr (set_enabled (he_write he) db (ctx_workspace_id ctx) rid en (handler_actor he ctx)))"

definition toggle_dry_run ::
  "handler_env \<Rightarrow> jwt_ctx \<Rightarrow> uuid \<Rightarrow> bool \<Rightarrow> policy_db \<Rightarrow> (http_err, policy_rule \<times> policy_db) result" where
  "toggle_dry_run he ctx rid dry db =
     rbind (map_err ApiErr (require_role ctx Admin)) (\<lambda>_.
       map_err ApiErr (set_dry_run (he_write he) db (ctx_workspace_id ctx) rid dry (handler_actor he ctx)))"

section \<open>The administrative API as a state machine\<close>

datatype rule_request =
    Create rule_body
  | Update uuid rule_body
  | Delete uuid
  | SetEnabled uuid bool
  | SetDryRun uuid bool

text \<open>One request: the new database, unchanged when the handler returns an error.\<close>

definition handle :: "handler_env \<Rightarrow> jwt_ctx \<Rightarrow> rule_request \<Rightarrow> policy_db \<Rightarrow> (http_err, policy_db) result" where
  "handle he ctx req db =
     (case req of
        Create body \<Rightarrow> rbind (create_rule_handler he ctx body db) (\<lambda>(_, db'). Inr db')
      | Update rid body \<Rightarrow> rbind (update_rule_handler he ctx rid body db) (\<lambda>(_, db'). Inr db')
      | Delete rid \<Rightarrow> rbind (delete_rule_handler he ctx rid db) (\<lambda>(_, db'). Inr db')
      | SetEnabled rid b \<Rightarrow> rbind (toggle_enabled he ctx rid b db) (\<lambda>(_, db'). Inr db')
      | SetDryRun rid b \<Rightarrow> rbind (toggle_dry_run he ctx rid b db) (\<lambda>(_, db'). Inr db'))"

inductive reachable :: "policy_db \<Rightarrow> policy_db \<Rightarrow> bool" for db0 where
  start: "reachable db0 db0"
| step: "reachable db0 db \<Longrightarrow> handle he ctx req db = Inr db' \<Longrightarrow> reachable db0 db'"

text \<open>A server that answers requests one after the other; an error leaves the tables alone.\<close>

definition serve :: "handler_env \<times> jwt_ctx \<times> rule_request \<Rightarrow> policy_db \<Rightarrow> policy_db" where
  "serve q db = (case q of (he, ctx, req) \<Rightarrow> (case handle he ctx req db of Inl _ \<Rightarrow> db | Inr db' \<Rightarrow> db'))"

definition serve_all :: "(handler_env \<times> jwt_ctx \<times> rule_request) list \<Rightarrow> policy_db \<Rightarrow> policy_db" where
  "serve_all qs db = fold serve qs db"

section \<open>What each operation does to the tables\<close>

lemmas tx_simps = rbind_Inr Let_def

text \<open>A change of the rules table in one workspace, audited by one row.\<close>

definition audited_by :: "admin_actor \<Rightarrow> audit_action \<Rightarrow> policy_db \<Rightarrow> policy_db \<Rightarrow> bool" where
  "audited_by actor a db db' = (\<exists>row. audit_tbl db' = audit_tbl db @ [row] \<and> ar_ws row = actor_ws actor \<and>
     ar_action row = audit_action_str a \<and> ar_actor_user_id row = actor_user_id actor)"

lemma audited_byI:
  "audit_write env k actor entry (audit_tbl db) = Inr aud \<Longrightarrow>
   audited_by actor (ae_action entry) db (db\<lparr>rules_tbl := t, audit_tbl := aud\<rparr>)"
  using audit_write_Inr by (fastforce simp: audited_by_def)

lemma ae_action_simps [simp]:
  "ae_action (with_detail d e) = ae_action e" "ae_action (on_object a t l) = a"
  by (simp_all add: with_detail_def on_object_def)

lemma create_rule_Inr:
  assumes "create_rule env db ws name prio conds act params en dry actor = Inr (row, db')"
  shows "rules_tbl db' = rules_tbl db @ [row]" "audited_by actor PolicyRuleCreated db db'"
    "rule_ws row = ws" "priority row = prio" "conditions row = conds" "rule_action row = act"
    "rule_name row = name" "enabled row = en" "rule_id row \<notin> rule_id ` set (rules_tbl db)"
proof -
  obtain aud where aud: "audit_write env 4 actor
      (with_detail (JObj [(''priority'', JNum (of_int prio)), (''rule_action'', JStr act),
         (''enabled'', JBool en), (''dry_run'', JBool dry), (''conditions_present'', JBool (conds \<noteq> JArr []))])
         (on_object PolicyRuleCreated (fresh_uuid env 3) (Some name))) (audit_tbl db) = Inr aud"
    and db': "db' = db\<lparr>rules_tbl := rules_tbl db @ [row], audit_tbl := aud\<rparr>"
    using assms by (auto simp: create_rule_def tx_simps)
  show "audited_by actor PolicyRuleCreated db db'" unfolding db' using audited_byI [OF aud] by simp
qed (use assms in \<open>auto simp: create_rule_def tx_simps\<close>)

lemma update_rule_Inr:
  assumes "update_rule env db ws rid name prio conds act params en dry actor = Inr (row, db')"
  shows "rules_tbl db' = update_where ws rid (\<lambda>r. r\<lparr>rule_name := name, priority := prio, conditions := conds,
      rule_action := act, action_params := params, enabled := en, dry_run := dry, updated_at := now_ts env\<rparr>) (rules_tbl db)"
    "audited_by actor PolicyRuleUpdated db db'"
  using assms by (auto simp: update_rule_def tx_simps dest!: audited_byI)

lemma delete_rule_Inr:
  assumes "delete_rule env db ws rid actor = Inr (u, db')"
  shows "rules_tbl db' = filter (\<lambda>r. \<not> is_rule ws rid r) (rules_tbl db)" "audited_by actor PolicyRuleDeleted db db'"
  using assms by (auto simp: delete_rule_def tx_simps dest!: audited_byI)

lemma set_enabled_Inr:
  assumes "set_enabled env db ws rid en actor = Inr (row, db')"
  shows "rules_tbl db' = update_where ws rid (\<lambda>r. r\<lparr>enabled := en, updated_at := now_ts env\<rparr>) (rules_tbl db)"
    "audited_by actor PolicyRuleEnabledChanged db db'"
  using assms by (auto simp: set_enabled_def tx_simps dest!: audited_byI)

lemma set_dry_run_Inr:
  assumes "set_dry_run env db ws rid dry actor = Inr (row, db')"
  shows "rules_tbl db' = update_where ws rid (\<lambda>r. r\<lparr>dry_run := dry, updated_at := now_ts env\<rparr>) (rules_tbl db)"
    "audited_by actor PolicyRuleDryRunChanged db db'"
  using assms by (auto simp: set_dry_run_def tx_simps dest!: audited_byI)

lemma checked_conditions_Inr:
  assumes "checked_conditions he ctx body excl db = Inr conds"
  shows "can_write (ctx_role ctx)" "b_action body \<in> set valid_actions"
    "validate_conditions (he_rx_err he) conds = Inr ()"
    "\<forall>r \<in> set (rules_tbl db). rule_ws r = ctx_workspace_id ctx \<longrightarrow> priority r = b_priority body \<longrightarrow> excl = Some (rule_id r)"
  using assms
  by (auto simp: checked_conditions_def tx_simps require_admin_iff validate_action_def priority_in_use_def
      list_ex_iff split: if_splits option.splits)

lemma enqueue_index_task_frame [simp]:
  "rules_tbl (enqueue_index_task ok r ws db) = rules_tbl db"
  "audit_tbl (enqueue_index_task ok r ws db) = audit_tbl db"
  by (simp_all add: enqueue_index_task_def)

lemma audited_by_frame [simp]:
  "audited_by actor a db (enqueue_index_task ok r ws db') = audited_by actor a db db'"
  by (simp add: audited_by_def)

fun request_audit :: "rule_request \<Rightarrow> audit_action" where
  "request_audit (Create _) = PolicyRuleCreated"
| "request_audit (Update _ _) = PolicyRuleUpdated"
| "request_audit (Delete _) = PolicyRuleDeleted"
| "request_audit (SetEnabled _ _) = PolicyRuleEnabledChanged"
| "request_audit (SetDryRun _ _) = PolicyRuleDryRunChanged"

text \<open>How a request of a workspace may change the rules table.\<close>

definition table_change :: "uuid \<Rightarrow> policy_rule list \<Rightarrow> policy_rule list \<Rightarrow> bool" where
  "table_change ws t t' =
     ((\<exists>row. t' = t @ [row] \<and> rule_ws row = ws) \<or>
      (\<exists>rid f. t' = update_where ws rid f t \<and> (\<forall>r. rule_id (f r) = rule_id r \<and> rule_ws (f r) = rule_ws r)) \<or>
      (\<exists>rid. t' = filter (\<lambda>r. \<not> is_rule ws rid r) t))"

lemma table_changeI:
  "rule_ws row = ws \<Longrightarrow> table_change ws t (t @ [row])"
  "(\<And>r. rule_id (f r) = rule_id r) \<Longrightarrow> (\<And>r. rule_ws (f r) = rule_ws r) \<Longrightarrow> table_change ws t (update_where ws rid f t)"
  "table_change ws t (filter (\<lambda>r. \<not> is_rule ws rid r) t)"
  by (auto simp: table_change_def)

lemma update_where_frame:
  assumes "\<And>r. rule_ws (f r) = rule_ws r" "w \<noteq> ws"
  shows "filter (\<lambda>r. rule_ws r = w) (update_where ws rid f t) = filter (\<lambda>r. rule_ws r = w) t"
  unfolding update_where_def using assms by (induction t) (auto simp: is_rule_def)

lemma table_change_frame:
  assumes "table_change ws t t'" "w \<noteq> ws"
  shows "filter (\<lambda>r. rule_ws r = w) t' = filter (\<lambda>r. rule_ws r = w) t"
proof -
  have "filter (\<lambda>r. rule_ws r = w) (filter (\<lambda>r. \<not> is_rule ws rid r) t) = filter (\<lambda>r. rule_ws r = w) t" for rid
    using assms(2) by (induction t) (auto simp: is_rule_def)
  then show ?thesis
    using assms update_where_frame [of _ w ws] by (auto simp: table_change_def)
qed

lemma handle_Inr:
  assumes "handle he ctx req db = Inr db'"
  shows "can_write (ctx_role ctx)" "audited_by (handler_actor he ctx) (request_audit req) db db'"
    "table_change (ctx_workspace_id ctx) (rules_tbl db) (rules_tbl db')"
proof -
  have "can_write (ctx_role ctx) \<and> audited_by (handler_actor he ctx) (request_audit req) db db' \<and>
      table_change (ctx_workspace_id ctx) (rules_tbl db) (rules_tbl db')"
  proof (cases req)
    case (Create body)
    with assms show ?thesis
      by (auto simp: handle_def create_rule_handler_def rbind_Inr create_rule_Inr(1,2)
          dest!: checked_conditions_Inr(1) intro!: table_changeI(1) dest: create_rule_Inr(3))
  next
    case (Update rid body)
    with assms show ?thesis
      by (auto simp: handle_def update_rule_handler_def rbind_Inr update_rule_Inr table_changeI
          dest!: checked_conditions_Inr(1))
  next
    case (Delete rid)
    with assms show ?thesis
      by (auto simp: handle_def delete_rule_handler_def rbind_Inr delete_rule_Inr table_changeI require_admin_iff)
  next
    case (SetEnabled rid b)
    with assms show ?thesis
      by (auto simp: handle_def toggle_enabled_def rbind_Inr set_enabled_Inr table_changeI require_admin_iff)
  next
    case (SetDryRun rid b)
    with assms show ?thesis
      by (auto simp: handle_def toggle_dry_run_def rbind_Inr set_dry_run_Inr table_changeI require_admin_iff)
  qed
  then show "can_write (ctx_role ctx)" "audited_by (handler_actor he ctx) (request_audit req) db db'"
    "table_change (ctx_workspace_id ctx) (rules_tbl db) (rules_tbl db')" by blast+
qed

text \<open>
  C9. Every change of the policy rules is made by an administrator or owner, touches the rules
  of the caller's workspace only, and leaves exactly one audit row, of that workspace and under
  the caller's identity, in the same transaction.
\<close>

theorem rule_change_scoped_and_audited:
  assumes "handle he ctx req db = Inr db'"
  shows "ctx_role ctx \<in> {Owner, Admin} \<and>
    (\<forall>w. w \<noteq> ctx_workspace_id ctx \<longrightarrow>
       filter (\<lambda>r. rule_ws r = w) (rules_tbl db') = filter (\<lambda>r. rule_ws r = w) (rules_tbl db)) \<and>
    (\<exists>row. audit_tbl db' = audit_tbl db @ [row] \<and> ar_ws row = ctx_workspace_id ctx \<and>
       ar_action row = audit_action_str (request_audit req) \<and> ar_actor_user_id row = Some (ctx_user_id ctx))"
proof -
  have "actor_ws (handler_actor he ctx) = ctx_workspace_id ctx"
    "actor_user_id (handler_actor he ctx) = Some (ctx_user_id ctx)"
    by (simp_all add: handler_actor_def actor_resolve_def)
  with handle_Inr(1,2) [OF assms] table_change_frame [OF handle_Inr(3) [OF assms]]
  show ?thesis unfolding can_write_def audited_by_def by metis
qed

section \<open>Isolation of workspaces\<close>

text \<open>
  A server whose every step leaves the other tenants' view alone: then no sequence of other
  tenants' requests changes what a tenant sees.
\<close>

locale tenant_server =
  fixes step :: "'q \<Rightarrow> 'd \<Rightarrow> 'd"
    and tenant :: "'q \<Rightarrow> 'w"
    and view :: "'w \<Rightarrow> 'd \<Rightarrow> 'v"
  assumes step_frame: "tenant q \<noteq> w \<Longrightarrow> view w (step q d) = view w d"
begin

lemma run_frame: "\<forall>q \<in> set qs. tenant q \<noteq> w \<Longrightarrow> view w (fold step qs d) = view w d"
  by (induction qs arbitrary: d) (auto simp: step_frame)

end

definition rules_view :: "uuid \<Rightarrow> policy_db \<Rightarrow> policy_rule list" where
  "rules_view ws db = filter (\<lambda>r. rule_ws r = ws) (rules_tbl db)"

definition request_tenant :: "handler_env \<times> jwt_ctx \<times> rule_request \<Rightarrow> uuid" where
  "request_tenant q = (case q of (he, ctx, req) \<Rightarrow> ctx_workspace_id ctx)"

interpretation ps: tenant_server serve request_tenant rules_view
proof
  fix q w d
  assume other: "request_tenant q \<noteq> w"
  obtain he ctx req where q: "q = (he, ctx, req)" by (cases q)
  show "rules_view w (serve q d) = rules_view w d"
  proof (cases "handle he ctx req d")
    case (Inr db')
    then show ?thesis
      using table_change_frame [OF handle_Inr(3) [OF Inr], of w] other
      by (simp add: q request_tenant_def serve_def rules_view_def)
  qed (simp add: q serve_def)
qed

text \<open>
  Workspaces are isolated: whatever requests other workspaces send, and whatever their
  outcome, the rules in force for a workspace stay the same.
\<close>

theorem other_tenants_cannot_change_rules:
  "\<forall>q \<in> set qs. request_tenant q \<noteq> ws \<Longrightarrow>
   list_enabled_rules env (serve_all qs db) ws = list_enabled_rules env db ws"
  using ps.run_frame [of qs ws db]
  by (simp add: list_enabled_rules_def list_rules_def rules_view_def serve_all_def)

section \<open>The invariant of the rules table\<close>

definition is_class_condition :: "json \<Rightarrow> bool" where
  "is_class_condition c = (get_str c ''field'' = Some ''detection_class'')"

definition one_class_condition :: "json \<Rightarrow> bool" where
  "one_class_condition conds = (case as_array conds of None \<Rightarrow> True
     | Some cs \<Rightarrow> length (filter is_class_condition cs) \<le> 1)"

text \<open>Identifiers are unique, a priority is used once per workspace, and every rule was validated.\<close>

definition rules_inv :: "policy_db \<Rightarrow> bool" where
  "rules_inv db = (distinct (map rule_id (rules_tbl db)) \<and>
     (\<forall>r \<in> set (rules_tbl db). \<forall>r' \<in> set (rules_tbl db).
        rule_ws r = rule_ws r' \<longrightarrow> priority r = priority r' \<longrightarrow> rule_id r = rule_id r') \<and>
     (\<forall>r \<in> set (rules_tbl db). rule_action r \<in> set valid_actions \<and> one_class_condition (conditions r)))"

lemma validate_loop_count:
  "validate_loop rx cs n = Inr k \<Longrightarrow> k = n + length (filter is_class_condition cs)"
proof (induction cs arbitrary: n)
  case (Cons c cs)
  have "validate_loop rx cs (if is_class_condition c then n + 1 else n) = Inr k"
    using Cons.prems by (auto simp: Let_def is_class_condition_def split: option.splits if_splits)
  from Cons.IH [OF this] show ?case by simp
qed simp

lemma validate_conditions_one_class:
  "validate_conditions rx conds = Inr u \<Longrightarrow> one_class_condition conds"
  by (auto simp: validate_conditions_def one_class_condition_def rbind_Inr dest!: validate_loop_count
      split: option.splits)

text \<open>The invariant by its three parts, and what a map over the rows has to show for them.\<close>

lemma rules_invD:
  assumes "rules_inv db"
  shows "distinct (map rule_id (rules_tbl db))"
    "r \<in> set (rules_tbl db) \<Longrightarrow> r' \<in> set (rules_tbl db) \<Longrightarrow> rule_ws r = rule_ws r' \<Longrightarrow>
       priority r = priority r' \<Longrightarrow> rule_id r = rule_id r'"
    "r \<in> set (rules_tbl db) \<Longrightarrow> rule_action r \<in> set valid_actions"
    "r \<in> set (rules_tbl db) \<Longrightarrow> one_class_condition (conditions r)"
  using assms unfolding rules_inv_def by blast+

lemma rules_inv_filter:
  assumes "rules_inv db" "rules_tbl db' = filter P (rules_tbl db)"
  shows "rules_inv db'"
proof -
  have "distinct (map rule_id (rules_tbl db'))"
    using rules_invD(1) [OF assms(1)] assms(2) by (simp add: distinct_map_filter)
  moreover have "set (rules_tbl db') \<subseteq> set (rules_tbl db)" using assms(2) by auto
  ultimately show ?thesis using assms(1) unfolding rules_inv_def by blast
qed

lemma rules_inv_map:
  assumes inv: "rules_inv db" and tbl: "rules_tbl db' = map g (rules_tbl db)"
    and same: "\<And>r. rule_id (g r) = rule_id r" "\<And>r. rule_ws (g r) = rule_ws r"
    and prio: "\<And>a b. a \<in> set (rules_tbl db) \<Longrightarrow> b \<in> set (rules_tbl db) \<Longrightarrow> rule_ws a = rule_ws b \<Longrightarrow>
      priority (g a) = priority (g b) \<Longrightarrow> rule_id a = rule_id b"
    and ok: "\<And>r. r \<in> set (rules_tbl db) \<Longrightarrow> rule_action (g r) \<in> set valid_actions"
      "\<And>r. r \<in> set (rules_tbl db) \<Longrightarrow> one_class_condition (conditions (g r))"
  shows "rules_inv db'"
proof -
  have "map rule_id (rules_tbl db') = map rule_id (rules_tbl db)" using same(1) tbl by simp
  then have "distinct (map rule_id (rules_tbl db'))" using rules_invD(1) [OF inv] by metis
  moreover have "rule_id r = rule_id r'"
    if r: "r \<in> set (rules_tbl db')" "r' \<in> set (rules_tbl db')" "rule_ws r = rule_ws r'" "priority r = priority r'" for r r'
  proof -
    obtain a b where "a \<in> set (rules_tbl db)" "b \<in> set (rules_tbl db)" "r = g a" "r' = g b"
      using r(1,2) tbl by auto
    with prio [of a b] r(3,4) same show ?thesis by simp
  qed
  moreover have "\<forall>r \<in> set (rules_tbl db'). rule_action r \<in> set valid_actions \<and> one_class_condition (conditions r)"
    using ok tbl by auto
  ultimately show ?thesis unfolding rules_inv_def by blast
qed

lemma rules_inv_flags:
  assumes inv: "rules_inv db" and tbl: "rules_tbl db' = update_where ws rid f (rules_tbl db)"
    and same: "\<And>r. rule_id (f r) = rule_id r \<and> rule_ws (f r) = rule_ws r \<and> priority (f r) = priority r \<and>
      rule_action (f r) = rule_action r \<and> conditions (f r) = conditions r"
  shows "rules_inv db'"
proof (rule rules_inv_map [OF inv tbl [unfolded update_where_def]])
  fix a b
  assume ab: "a \<in> set (rules_tbl db)" "b \<in> set (rules_tbl db)" "rule_ws a = rule_ws b"
    and "priority (if is_rule ws rid a then f a else a) = priority (if is_rule ws rid b then f b else b)"
  then have "priority a = priority b" using same by (simp split: if_splits)
  with ab show "rule_id a = rule_id b" by (rule rules_invD(2) [OF inv])
qed (use rules_invD(3,4) [OF inv] same in simp_all)

lemma rules_inv_create:
  assumes inv: "rules_inv db" and "checked_conditions he ctx body None db = Inr conds"
    and "create_rule env db (ctx_workspace_id ctx) name (b_priority body) conds (b_action body) params en dry actor
      = Inr (row, db')"
  shows "rules_inv db'"
proof -
  note row = create_rule_Inr [OF assms(3)] and chk = checked_conditions_Inr [OF assms(2)]
  have set': "set (rules_tbl db') = insert row (set (rules_tbl db))" unfolding row(1) by simp
  have "one_class_condition (conditions row)" "rule_action row \<in> set valid_actions"
    using validate_conditions_one_class [OF chk(3)] chk(2) row(5,6) by simp_all
  moreover have "rule_ws r = rule_ws row \<Longrightarrow> priority r \<noteq> priority row" if "r \<in> set (rules_tbl db)" for r
    using chk(4) row(3,4) that by auto
  moreover have "distinct (map rule_id (rules_tbl db'))"
    using rules_invD(1) [OF inv] row(9) unfolding row(1) by simp
  ultimately show ?thesis
    using rules_invD(2-4) [OF inv] unfolding rules_inv_def set' by (metis insert_iff)
qed

lemma rules_inv_update:
  assumes inv: "rules_inv db" and "checked_conditions he ctx body (Some rid) db = Inr conds"
    and "update_rule env db (ctx_workspace_id ctx) rid name (b_priority body) conds (b_action body) params en dry actor
      = Inr (row, db')"
  shows "rules_inv db'"
proof (rule rules_inv_map [OF inv update_rule_Inr(1) [OF assms(3), unfolded update_where_def]])
  note chk = checked_conditions_Inr [OF assms(2)]
  let ?ws = "ctx_workspace_id ctx"
  have new: "rule_id a = rid" if "a \<in> set (rules_tbl db)" "rule_ws a = ?ws" "priority a = b_priority body" for a
    using chk(4) that by auto
  fix a b
  assume ab: "a \<in> set (rules_tbl db)" "b \<in> set (rules_tbl db)" "rule_ws a = rule_ws b"
  let ?upd = "\<lambda>r. r\<lparr>rule_name := name, priority := b_priority body, conditions := conds, rule_action := b_action body,
      action_params := params, enabled := en, dry_run := dry, updated_at := now_ts env\<rparr>"
  assume p: "priority (if is_rule ?ws rid a then ?upd a else a) = priority (if is_rule ?ws rid b then ?upd b else b)"
  consider "is_rule ?ws rid a" "is_rule ?ws rid b" | "is_rule ?ws rid a" "\<not> is_rule ?ws rid b"
    | "\<not> is_rule ?ws rid a" "is_rule ?ws rid b" | "\<not> is_rule ?ws rid a" "\<not> is_rule ?ws rid b" by blast
  then show "rule_id a = rule_id b"
  proof cases
    case 2
    then show ?thesis using p new [OF ab(2)] ab(3) by (simp add: is_rule_def)
  next
    case 3
    then show ?thesis using p new [OF ab(1)] ab(3) by (simp add: is_rule_def)
  next
    case 4
    then show ?thesis using p rules_invD(2) [OF inv ab] by simp
  qed (simp add: is_rule_def)
qed (use checked_conditions_Inr(2) [OF assms(2)] rules_invD(3,4) [OF inv]
      validate_conditions_one_class [OF checked_conditions_Inr(3) [OF assms(2)]] in simp_all)

lemma rules_inv_queue [simp]: "rules_inv (enqueue_index_task ok r ws db) = rules_inv db"
  by (simp add: rules_inv_def)

lemma rules_inv_handle: "rules_inv db \<Longrightarrow> handle he ctx req db = Inr db' \<Longrightarrow> rules_inv db'"
proof (cases req)
  case (Create body)
  then show "rules_inv db \<Longrightarrow> handle he ctx req db = Inr db' \<Longrightarrow> rules_inv db'"
    by (auto simp: handle_def create_rule_handler_def rbind_Inr intro: rules_inv_create)
next
  case (Update rid body)
  then show "rules_inv db \<Longrightarrow> handle he ctx req db = Inr db' \<Longrightarrow> rules_inv db'"
    by (auto simp: handle_def update_rule_handler_def rbind_Inr intro: rules_inv_update)
next
  case (Delete rid)
  then show "rules_inv db \<Longrightarrow> handle he ctx req db = Inr db' \<Longrightarrow> rules_inv db'"
    by (auto simp: handle_def delete_rule_handler_def rbind_Inr dest!: delete_rule_Inr(1) intro: rules_inv_filter)
next
  case (SetEnabled rid b)
  then show "rules_inv db \<Longrightarrow> handle he ctx req db = Inr db' \<Longrightarrow> rules_inv db'"
    by (auto simp: handle_def toggle_enabled_def rbind_Inr dest!: set_enabled_Inr(1) elim!: rules_inv_flags)
next
  case (SetDryRun rid b)
  then show "rules_inv db \<Longrightarrow> handle he ctx req db = Inr db' \<Longrightarrow> rules_inv db'"
    by (auto simp: handle_def toggle_dry_run_def rbind_Inr dest!: set_dry_run_Inr(1) elim!: rules_inv_flags)
qed

lemma reachable_inv: "reachable db0 db \<Longrightarrow> rules_inv db0 \<Longrightarrow> rules_inv db"
  by (induction rule: reachable.induct) (auto intro: rules_inv_handle)

lemma list_enabled_rules_Inr:
  assumes "list_enabled_rules env db ws = Inr rs"
  shows "rs = filter enabled (sort_key rule_order (filter (\<lambda>r. rule_ws r = ws) (rules_tbl db)))"
  using assms by (auto simp: list_enabled_rules_def list_rules_def rbind_Inr)

lemma sorted_distinct_strict: "sorted xs \<Longrightarrow> distinct xs \<Longrightarrow> sorted_wrt (<) (xs :: int list)"
  by (simp add: strict_sorted_iff)

lemma distinct_priorities:
  assumes "rules_inv db"
  shows "distinct (map priority (sort_key rule_order (filter (\<lambda>r. rule_ws r = ws) (rules_tbl db))))"
proof -
  let ?t = "filter (\<lambda>r. rule_ws r = ws) (rules_tbl db)"
  have d: "distinct (map rule_id ?t)" using rules_invD(1) [OF assms] by (simp add: distinct_map_filter)
  have "inj_on priority (set ?t)"
  proof (rule inj_onI)
    fix a b assume ab: "a \<in> set ?t" "b \<in> set ?t" "priority a = priority b"
    then have "rule_id a = rule_id b" using rules_invD(2) [OF assms, of a b] by simp
    with d ab(1,2) show "a = b" by (meson distinct_map inj_on_eq_iff)
  qed
  then show ?thesis using d by (simp add: distinct_map)
qed

text \<open>
  C11. The order in which the engine sees the rules is determined: from any database reached by
  serving requests one at a time, starting from one that satisfies the invariant, the enabled
  rules of a workspace come out with strictly increasing priorities, are exactly the enabled
  rows of that workspace, name known actions, and carry at most one class condition each.
\<close>

theorem enabled_rules_strictly_ordered:
  assumes "rules_inv db0" "reachable db0 db" "list_enabled_rules env db ws = Inr rs"
  shows "sorted_wrt (<) (map priority rs) \<and>
    set rs = {r \<in> set (rules_tbl db). rule_ws r = ws \<and> enabled r} \<and>
    (\<forall>r \<in> set rs. rule_action r \<in> set known_actions \<and> one_class_condition (conditions r))"
proof -
  have inv: "rules_inv db" using assms(2,1) by (rule reachable_inv)
  let ?t = "sort_key rule_order (filter (\<lambda>r. rule_ws r = ws) (rules_tbl db))"
  have rs: "rs = filter enabled ?t" using assms(3) by (rule list_enabled_rules_Inr)
  have "sorted (map rule_order ?t)" by simp
  then have "sorted_wrt (\<lambda>a b. rule_order a \<le> rule_order b) ?t" by (simp add: sorted_map)
  then have "sorted_wrt (\<lambda>a b. priority a \<le> priority b) ?t"
    by (rule sorted_wrt_mono_rel [rotated]) (auto simp: rule_order_def less_eq_prod_def)
  then have "sorted (map priority ?t)" by (simp add: sorted_map)
  then have "sorted_wrt (<) (map priority ?t)"
    using distinct_priorities [OF inv] by (rule sorted_distinct_strict)
  then have "sorted_wrt (<) (map priority rs)" unfolding rs by (simp add: sorted_wrt_map sorted_wrt_filter)
  moreover have mem: "set rs = {r \<in> set (rules_tbl db). rule_ws r = ws \<and> enabled r}" unfolding rs by auto
  ultimately show ?thesis
    using rules_invD(3,4) [OF inv] by (auto simp: valid_actions_def known_actions_def)
qed

text \<open>
  Disabling a rule takes effect: after the toggle succeeded, no evaluation of the workspace
  sees the rule any more.
\<close>

theorem disabled_rule_not_evaluated:
  assumes "handle he ctx (SetEnabled rid False) db = Inr db'"
    and "list_enabled_rules env db' (ctx_workspace_id ctx) = Inr rs"
  shows "rid \<notin> rule_id ` set rs"
proof -
  have "\<exists>row. set_enabled (he_write he) db (ctx_workspace_id ctx) rid False (handler_actor he ctx) = Inr (row, db')"
    using assms(1) by (auto simp: handle_def toggle_enabled_def rbind_Inr)
  then obtain row where "set_enabled (he_write he) db (ctx_workspace_id ctx) rid False (handler_actor he ctx) = Inr (row, db')" ..
  note tbl = set_enabled_Inr(1) [OF this]
  have mem: "set rs = {r \<in> set (rules_tbl db'). rule_ws r = ctx_workspace_id ctx \<and> enabled r}"
    unfolding list_enabled_rules_Inr [OF assms(2)] by auto
  have "rule_id r \<noteq> rid" if r: "r \<in> set (rules_tbl db')" "rule_ws r = ctx_workspace_id ctx" "enabled r" for r
  proof -
    obtain r0 where r0: "r = (if is_rule (ctx_workspace_id ctx) rid r0
        then r0\<lparr>enabled := False, updated_at := now_ts (he_write he)\<rparr> else r0)"
      using r(1) unfolding tbl update_where_def set_map by blast
    show ?thesis using r(2,3) by (cases "is_rule (ctx_workspace_id ctx) rid r0") (simp_all add: r0, simp add: is_rule_def)
  qed
  with mem show ?thesis by blast
qed

section \<open>What a validated rule selects\<close>

definition is_bound :: "string \<Rightarrow> json \<Rightarrow> bool" where
  "is_bound op c = (get_str c ''field'' = Some ''confidence_gte'' \<and> get_str c ''op'' = Some op)"

lemma collect_unscoped: "\<not> is_detection_scoped c \<Longrightarrow> collect_filter c f = f"
  by (auto simp: collect_filter_def is_detection_scoped_def split: option.split)

lemma scoped_kinds:
  "is_detection_scoped c \<Longrightarrow> matches_detection_condition c d \<Longrightarrow>
   is_class_condition c \<or> is_bound ''gte'' c \<or> is_bound ''lte'' c"
  by (auto simp: is_detection_scoped_def matches_detection_condition_def is_class_condition_def is_bound_def
      split: option.splits if_splits)

lemma kinds_scoped: "is_class_condition c \<or> is_bound op c \<Longrightarrow> is_detection_scoped c"
  by (auto simp: is_detection_scoped_def is_class_condition_def is_bound_def)

lemma kinds_disjoint:
  "is_class_condition c \<Longrightarrow> \<not> is_bound op c" "is_bound ''gte'' c \<Longrightarrow> \<not> is_bound ''lte'' c"
  by (auto simp: is_class_condition_def is_bound_def)

lemma list_ex_ne: "list_ex P xs \<Longrightarrow> xs \<noteq> []"
  by (cases xs) simp_all

text \<open>What one satisfiable detection-scoped condition adds to the filters.\<close>

lemma collect_class:
  assumes "is_class_condition c" "matches_detection_condition c d0"
  shows "\<exists>xs. xs \<noteq> [] \<and> collect_filter c f = f\<lparr>cf_classes := cf_classes f @ xs\<rparr> \<and>
    (\<forall>d. matches_detection_condition c d = list_ex (\<lambda>x. class_filter_matches x (det_class d)) xs)"
proof -
  consider v x where "get_str c ''op'' = Some ''eq''" "json_get c ''value'' = Some v" "as_str v = Some x"
    | v ys where "get_str c ''op'' = Some ''in''" "json_get c ''value'' = Some v" "as_array v = Some ys"
        "List.map_filter as_str ys \<noteq> []"
    using assms by (auto simp: is_class_condition_def matches_detection_condition_def is_some_and_def any_str_def
        dest!: list_ex_ne split: option.splits if_splits)
  then show ?thesis
  proof cases
    case (1 v x)
    then show ?thesis using assms(1)
      by (intro exI [of _ "[x]"]) (simp add: is_class_condition_def collect_filter_def matches_detection_condition_def is_some_and_def)
  next
    case (2 v ys)
    then show ?thesis using assms(1)
      by (intro exI [of _ "List.map_filter as_str ys"])
        (simp add: is_class_condition_def collect_filter_def matches_detection_condition_def any_str_def)
  qed
qed

lemma collect_bound:
  assumes "is_bound op c" "matches_detection_condition c d0"
  shows "\<exists>t. (op = ''gte'' \<and> collect_filter c f = f\<lparr>cf_gte := Some t\<rparr> \<and>
        (\<forall>d. matches_detection_condition c d = (t \<le> confidence d))) \<or>
     (op = ''lte'' \<and> collect_filter c f = f\<lparr>cf_lte := Some t\<rparr> \<and>
        (\<forall>d. matches_detection_condition c d = (confidence d \<le> t)))"
  using assms
  by (auto simp: is_bound_def matches_detection_condition_def collect_filter_def is_some_and_def
      split: option.splits if_splits)

text \<open>The kinds still to come are empty in the accumulator, and come at most once.\<close>

definition filters_fit :: "json list \<Rightarrow> class_filters \<Rightarrow> bool" where
  "filters_fit cs f =
     (length (filter is_class_condition cs) + (if cf_classes f = [] then 0 else 1) \<le> 1 \<and>
      length (filter (is_bound ''gte'') cs) + (if cf_gte f = None then 0 else 1) \<le> 1 \<and>
      length (filter (is_bound ''lte'') cs) + (if cf_lte f = None then 0 else 1) \<le> 1)"

lemma collect_step:
  assumes fit: "filters_fit (c # cs) f" and sat: "is_detection_scoped c \<Longrightarrow> matches_detection_condition c d0"
  shows "filters_fit cs (collect_filter c f) \<and>
    filter_selects (collect_filter c f) d =
      (filter_selects f d \<and> (is_detection_scoped c \<longrightarrow> matches_detection_condition c d))"
proof (cases "is_detection_scoped c")
  case False
  then have "\<not> is_class_condition c" "\<not> is_bound ''gte'' c" "\<not> is_bound ''lte'' c"
    using kinds_scoped by blast+
  then show ?thesis using False fit by (simp add: collect_unscoped filters_fit_def)
next
  case True
  then consider "is_class_condition c" | "is_bound ''gte'' c" | "is_bound ''lte'' c"
    using scoped_kinds sat by blast
  then show ?thesis
  proof cases
    case 1
    then obtain xs where "xs \<noteq> []" "collect_filter c f = f\<lparr>cf_classes := cf_classes f @ xs\<rparr>"
      "\<And>d. matches_detection_condition c d = list_ex (\<lambda>x. class_filter_matches x (det_class d)) xs"
      using collect_class sat [OF True] by blast
    then show ?thesis using 1 True fit kinds_disjoint(1) [OF 1]
      by (auto simp: filters_fit_def filter_selects_def split: if_splits)
  next
    case 2
    then obtain t where "collect_filter c f = f\<lparr>cf_gte := Some t\<rparr>"
      "\<And>d. matches_detection_condition c d = (t \<le> confidence d)"
      using collect_bound [OF 2 sat [OF True]] by auto
    then show ?thesis using 2 True fit kinds_disjoint(1) [of c "''gte''"] kinds_disjoint(2) [OF 2]
      by (auto simp: filters_fit_def filter_selects_def split: if_splits)
  next
    case 3
    then obtain t where "collect_filter c f = f\<lparr>cf_lte := Some t\<rparr>"
      "\<And>d. matches_detection_condition c d = (confidence d \<le> t)"
      using collect_bound [OF 3 sat [OF True]] by auto
    then show ?thesis using 3 True fit kinds_disjoint(1) [of c "''lte''"] kinds_disjoint(2) [of c]
      by (auto simp: filters_fit_def filter_selects_def split: if_splits)
  qed
qed

lemma collect_all:
  assumes "filters_fit cs f" "\<forall>c \<in> set cs. is_detection_scoped c \<longrightarrow> matches_detection_condition c d0"
  shows "filter_selects (fold collect_filter cs f) d =
    (filter_selects f d \<and> (\<forall>c \<in> set cs. is_detection_scoped c \<longrightarrow> matches_detection_condition c d))"
  using assms
proof (induction cs arbitrary: f)
  case (Cons c cs)
  have "is_detection_scoped c \<Longrightarrow> matches_detection_condition c d0" using Cons.prems(2) by simp
  note step = collect_step [OF Cons.prems(1) this, of d]
  have "filters_fit cs (collect_filter c f)" using step by blast
  from Cons.IH [OF this] Cons.prems(2) step show ?case by auto
qed simp

text \<open>
  A firing rule acts on what it names: for a rule accepted by \<open>validate_conditions\<close>, with at
  most one lower and one upper confidence bound, that matches through its detection-scoped
  conditions, the detections it selects for redaction or transformation are exactly those that
  satisfy all its detection-scoped conditions, so the fallback to all detections is not taken.
\<close>

theorem validated_rule_selects_what_it_names:
  assumes "validate_conditions rx_err (JArr cs) = Inr ()" "conditions r = JArr cs"
    and "rule_matches rx r inp" "\<exists>c \<in> set cs. is_detection_scoped c"
    and "length (filter (is_bound ''gte'') cs) \<le> 1" "length (filter (is_bound ''lte'') cs) \<le> 1"
  shows "matching_detections r (pe_detections inp) =
    filter (\<lambda>d. \<forall>c \<in> set cs. is_detection_scoped c \<longrightarrow> matches_detection_condition c d) (pe_detections inp)"
proof -
  have "length (filter is_class_condition cs) \<le> 1"
    using validate_conditions_one_class [OF assms(1)] by (simp add: one_class_condition_def)
  then have fit: "filters_fit cs no_filters" using assms(5,6) by (simp add: filters_fit_def no_filters_def)
  obtain d0 where d0: "d0 \<in> set (pe_detections inp)"
    "\<forall>c \<in> set cs. is_detection_scoped c \<longrightarrow> matches_detection_condition c d0"
    using assms(2-4)
    by (auto simp: rule_matches_def detection_conditions_spec list_ex_iff list_all_iff filter_empty_conv
        split: if_splits)
  have sel: "filter_selects (fold collect_filter cs no_filters) =
      (\<lambda>d. \<forall>c \<in> set cs. is_detection_scoped c \<longrightarrow> matches_detection_condition c d)"
    using collect_all [OF fit d0(2)] by (simp add: fun_eq_iff no_filters_def filter_selects_def)
  have "filter (\<lambda>d. \<forall>c \<in> set cs. is_detection_scoped c \<longrightarrow> matches_detection_condition c d) (pe_detections inp) \<noteq> []"
    using d0 by (auto simp: filter_empty_conv)
  then show ?thesis by (simp add: matching_detections_def assms(2) sel)
qed

section \<open>Witnesses\<close>

text \<open>A database that answers every statement, an administrator, and one stored rule.\<close>

definition demo_env :: db_env where
  "demo_env = \<lparr>stmt_err = (\<lambda>_. None), readback = Some, dup_err = ''duplicate key'',
     show_uuid = (\<lambda>u. show_nat (unat u)), now_ts = 0, fresh_uuid = (\<lambda>k. of_nat (k + 100))\<rparr>"

definition demo_he :: handler_env where
  "demo_he = \<lparr>he_check = demo_env, he_write = demo_env, he_email = None, he_rx_err = (\<lambda>_. None), he_queue_ok = True\<rparr>"

definition demo_ctx :: jwt_ctx where
  "demo_ctx = \<lparr>ctx_user_id = 5, ctx_workspace_id = 7, ctx_role = Admin, ctx_jti = ''j'', ctx_exp = 0\<rparr>"

definition demo_rule :: policy_rule where
  "demo_rule = \<lparr>rule_id = 1, rule_ws = 7, rule_name = ''emails'', priority = 10,
     conditions = JArr [JObj [(''field'', JStr ''detection_class''), (''op'', JStr ''eq''), (''value'', JStr ''EMAIL'')]],
     rule_action = ''redact'', action_params = JObj [], enabled = True, dry_run = False,
     created_at = 0, updated_at = 0\<rparr>"

definition demo_db :: policy_db where
  "demo_db = \<lparr>rules_tbl = [demo_rule], audit_tbl = [], index_queue = []\<rparr>"

lemma demo_scope [simp]: "begin_scoped demo_env ws = Inr ()" "stmt demo_env k = Inr ()"
  by (simp_all add: begin_scoped_def arm_scope_def scope_is_armed_def stmt_def demo_env_def)

lemma demo_disable: "\<exists>db'. handle demo_he demo_ctx (SetEnabled 1 False) demo_db = Inr db'"
  by (simp add: handle_def toggle_enabled_def set_enabled_def require_role_def is_rule_def update_where_def
      audit_write_def Let_def ok_or_def map_err_def demo_he_def demo_ctx_def demo_rule_def demo_db_def)

lemma demo_list: "\<exists>rs. list_enabled_rules demo_env db ws = Inr rs"
  by (simp add: list_enabled_rules_def list_rules_def)

theorem rule_change_scoped_and_audited_witness:
  "\<exists>db' row. handle demo_he demo_ctx (SetEnabled 1 False) demo_db = Inr db' \<and>
     audit_tbl db' = [row] \<and> ar_ws row = 7 \<and> ar_action row = ''policy_rule.enabled_changed''"
proof -
  obtain db' where "handle demo_he demo_ctx (SetEnabled 1 False) demo_db = Inr db'"
    using demo_disable by blast
  with rule_change_scoped_and_audited [OF this] show ?thesis by (auto simp: demo_db_def demo_ctx_def)
qed

theorem other_tenants_cannot_change_rules_witness:
  "list_enabled_rules demo_env (serve_all [(demo_he, demo_ctx, Delete 1)] demo_db) 8 =
   list_enabled_rules demo_env demo_db 8"
  using other_tenants_cannot_change_rules [of "[(demo_he, demo_ctx, Delete 1)]" 8 demo_env demo_db]
  by (simp add: request_tenant_def demo_ctx_def)

theorem enabled_rules_strictly_ordered_witness:
  "\<exists>rs. list_enabled_rules demo_env demo_db 7 = Inr rs \<and> sorted_wrt (<) (map priority rs) \<and> set rs = {demo_rule}"
proof -
  have 1: "rules_inv demo_db"
    by (simp add: rules_inv_def one_class_condition_def demo_db_def demo_rule_def valid_actions_def)
  have 2: "reachable demo_db demo_db" by (rule reachable.start)
  obtain rs where rs: "list_enabled_rules demo_env demo_db 7 = Inr rs" using demo_list by blast
  have "{r \<in> set (rules_tbl demo_db). rule_ws r = 7 \<and> enabled r} = {demo_rule}"
    by (auto simp: demo_db_def demo_rule_def)
  with rs enabled_rules_strictly_ordered [OF 1 2 rs] show ?thesis by blast
qed

theorem disabled_rule_not_evaluated_witness:
  "\<exists>db' rs. handle demo_he demo_ctx (SetEnabled 1 False) demo_db = Inr db' \<and>
     list_enabled_rules demo_env db' (ctx_workspace_id demo_ctx) = Inr rs \<and> 1 \<notin> rule_id ` set rs"
proof -
  obtain db' where 1: "handle demo_he demo_ctx (SetEnabled 1 False) demo_db = Inr db'"
    using demo_disable by blast
  obtain rs where 2: "list_enabled_rules demo_env db' (ctx_workspace_id demo_ctx) = Inr rs"
    using demo_list by blast
  from 1 2 disabled_rule_not_evaluated [OF 1 2] show ?thesis by blast
qed

theorem validated_rule_selects_what_it_names_witness:
  "matching_detections demo_rule
     [\<lparr>det_class = ''EMAIL'', confidence = 1, det_span = None, det_value = ''a''\<rparr>,
      \<lparr>det_class = ''PERSON'', confidence = 1, det_span = None, det_value = ''b''\<rparr>]
   = [\<lparr>det_class = ''EMAIL'', confidence = 1, det_span = None, det_value = ''a''\<rparr>]"
proof -
  let ?cs = "[JObj [(''field'', JStr ''detection_class''), (''op'', JStr ''eq''), (''value'', JStr ''EMAIL'')]]"
  let ?e = "\<lparr>det_class = ''EMAIL'', confidence = 1, det_span = None, det_value = ''a''\<rparr>"
  let ?p = "\<lparr>det_class = ''PERSON'', confidence = 1, det_span = None, det_value = ''b''\<rparr>"
  let ?inp = "\<lparr>pe_provider_name = ''p'', pe_model = ''m'', pe_content = ''ab'', pe_detections = [?e, ?p], fail_closed = False\<rparr>"
  have sc: "is_detection_scoped (hd ?cs)" by (simp add: is_detection_scoped_def get_str_def)
  have m: "matches_detection_condition (hd ?cs) d = class_filter_matches ''EMAIL'' (det_class d)" for d
    by (simp add: matches_detection_condition_def get_str_def is_some_and_def)
  have 1: "validate_conditions (\<lambda>_. None) (JArr ?cs) = Inr ()"
    by (simp add: validate_conditions_def get_str_def)
  have 2: "conditions demo_rule = JArr ?cs" by (simp add: demo_rule_def)
  have 3: "rule_matches (\<lambda>_. None) demo_rule ?inp"
    using sc m by (simp add: rule_matches_def 2 class_filter_matches_def)
  have 4: "\<exists>c \<in> set ?cs. is_detection_scoped c" using sc by simp
  have 5: "length (filter (is_bound ''gte'') ?cs) \<le> 1" "length (filter (is_bound ''lte'') ?cs) \<le> 1"
    by (simp_all add: is_bound_def)
  show ?thesis
    using validated_rule_selects_what_it_names [OF 1 2 3 4 5] sc m
    by (simp add: class_filter_matches_def generic_class_for_def)
qed

end
