(* ===== verification/Streaming.thy ===== *)
theory Streaming
  imports Vault_Redaction
begin

text \<open>
  \<open>secureprompt-api/src/http/streaming.rs\<close>: the buffer that reassembles placeholders split
  over stream chunks (\<open>placeholder_safe_chunks\<close> for a list of chunks, \<open>PlaceholderStreamer\<close>
  for one delta at a time), \<open>find_placeholder_start\<close>, \<open>settled_prefix_len\<close> and
  \<open>force_include_usage\<close>. The main result is that however the text is cut into chunks, the
  emitted text is the restoration of the whole text.
\<close>

section \<open>Definitions\<close>

text \<open>\<open>force_include_usage\<close>; \<open>Value::Object\<close> insertion replaces an existing key.\<close>

definition obj_entries :: "json \<Rightarrow> (string \<times> json) list" where
  "obj_entries v = (case v of JObj kvs \<Rightarrow> kvs | _ \<Rightarrow> [])"

definition force_include_usage :: "json \<Rightarrow> json" where
  "force_include_usage extra_params =
     (let params = obj_entries extra_params;
          stream_options = (case map_of params ''stream_options'' of Some v \<Rightarrow> v | None \<Rightarrow> JObj []);
          opts = hm_insert ''include_usage'' (JBool True) (obj_entries stream_options)
      in JObj (hm_insert ''stream_options'' (JObj opts) params))"

text \<open>The byte offset of the first \<open>{{\<close> that an ASCII upper-case letter follows.\<close>

fun find_placeholder_start :: "string \<Rightarrow> nat option" where
  "find_placeholder_start (a # b # c # s) =
     (if a = lbrace \<and> b = lbrace \<and> is_ascii_uppercase c then Some 0
      else map_option Suc (find_placeholder_start (b # c # s)))"
| "find_placeholder_start s = None"

text \<open>How much of a buffer without a candidate is held back: a trailing \<open>{{\<close> or \<open>{\<close>.\<close>

definition hold_back :: "string \<Rightarrow> nat" where
  "hold_back pending = (if suffix ''{{'' pending then 2 else if suffix ''{'' pending then 1 else 0)"

lemma find_start_length: "find_placeholder_start s = Some i \<Longrightarrow> i + 3 \<le> length s"
  by (induction s arbitrary: i rule: find_placeholder_start.induct) (auto split: if_splits)

text \<open>
  The inner \<open>loop\<close> of \<open>placeholder_safe_chunks\<close> on the buffer, for the restorer \<open>R\<close>
  (\<open>vault.restore\<close>): the chunks it pushes and the buffer it leaves.
\<close>

function drain :: "(string \<Rightarrow> string) \<Rightarrow> string \<Rightarrow> string list \<times> string" where
  "drain R pending =
     (case find_placeholder_start pending of
        Some start \<Rightarrow>
          (case str_find ''}}'' (drop start pending) of
             Some end_offset \<Rightarrow>
               (let emit_end = start + end_offset + 2; safe = take emit_end pending;
                    (outs, pending') = drain R (drop emit_end pending)
                in ((if safe \<noteq> [] then [R safe] else []) @ outs, pending'))
           | None \<Rightarrow>
               if start > 0
               then (let safe = take start pending
                     in (if safe \<noteq> [] then [R safe] else [], drop start pending))
               else ([], pending))
      | None \<Rightarrow>
          (let emit_len = length pending - hold_back pending
           in if emit_len > 0 then ([R (take emit_len pending)], drop emit_len pending)
              else ([], pending)))"
  by pat_completeness auto
termination
  by (relation "measure (\<lambda>(R, p). length p)") (auto dest: find_start_length)

declare drain.simps [simp del]

fun safe_chunks_loop ::
  "(string \<Rightarrow> string) \<Rightarrow> string list \<Rightarrow> string \<Rightarrow> string list" where
  "safe_chunks_loop R [] pending = (if pending \<noteq> [] then [R pending] else [])"
| "safe_chunks_loop R (chunk # chunks) pending =
     (let (outs, pending') = drain R (pending @ chunk)
      in outs @ safe_chunks_loop R chunks pending')"

definition placeholder_safe_chunks :: "string list \<Rightarrow> token_vault \<Rightarrow> string list" where
  "placeholder_safe_chunks chunks v = safe_chunks_loop (vault_restore v) chunks []"

definition fallback_allowed :: "nat \<Rightarrow> bool" where
  "fallback_allowed emitted_chunks = (emitted_chunks = 0)"

record placeholder_streamer =
  pending :: string

definition streamer_new :: placeholder_streamer where
  "streamer_new = \<lparr>pending = []\<rparr>"

text \<open>The loop of \<open>PlaceholderStreamer::push\<close>: the buffer and the text emitted so far.\<close>

function push_loop :: "(string \<Rightarrow> string) \<Rightarrow> string \<Rightarrow> string \<Rightarrow> string \<times> string" where
  "push_loop R pnd out =
     (case find_placeholder_start pnd of
        Some start \<Rightarrow>
          (case str_find ''}}'' (drop start pnd) of
             Some end_offset \<Rightarrow>
               (let emit_end = start + end_offset + 2; safe = take emit_end pnd
                in push_loop R (drop emit_end pnd) (if safe \<noteq> [] then out @ R safe else out))
           | None \<Rightarrow>
               if start > 0
               then (let safe = take start pnd
                     in (if safe \<noteq> [] then out @ R safe else out, drop start pnd))
               else (out, pnd))
      | None \<Rightarrow>
          (let emit_len = length pnd - hold_back pnd
           in if emit_len > 0 then (out @ R (take emit_len pnd), drop emit_len pnd)
              else (out, pnd)))"
  by pat_completeness auto
termination
  by (relation "measure (\<lambda>(R, p, out). length p)") (auto dest: find_start_length)

declare push_loop.simps [simp del]

definition streamer_push ::
  "placeholder_streamer \<Rightarrow> string \<Rightarrow> token_vault \<Rightarrow> string \<times> placeholder_streamer" where
  "streamer_push s delta v =
     (let (out, p) = push_loop (vault_restore v) (pending s @ delta) [] in (out, s\<lparr>pending := p\<rparr>))"

definition streamer_flush :: "placeholder_streamer \<Rightarrow> token_vault \<Rightarrow> string" where
  "streamer_flush s v = (if pending s = [] then [] else vault_restore v (pending s))"

text \<open>Feeding a list of deltas and flushing at the end, as the streaming path does.\<close>

fun streamer_run :: "placeholder_streamer \<Rightarrow> string list \<Rightarrow> token_vault \<Rightarrow> string" where
  "streamer_run s [] v = streamer_flush s v"
| "streamer_run s (d # ds) v = (let (out, s') = streamer_push s d v in out @ streamer_run s' ds v)"

text \<open>
  \<open>settled_prefix_len\<close>: the end of the last newline, or of the last sentence terminator that
  white space follows. The terminators are ASCII, so the scan over bytes stops where the scan
  over characters does.
\<close>

fun settled_scan :: "nat \<Rightarrow> nat \<Rightarrow> string \<Rightarrow> nat" where
  "settled_scan bi last_end [] = last_end"
| "settled_scan bi last_end (c # s) =
     (let flush_to =
            (if c = CHR 0x0A then Some (bi + 1)
             else if c = CHR ''.'' \<or> c = CHR ''!'' \<or> c = CHR ''?''
             then (if starts_ws s then Some (bi + 1) else None)
             else None)
      in settled_scan (bi + 1) (case flush_to of Some e \<Rightarrow> e | None \<Rightarrow> last_end) s)"

definition settled_prefix_len :: "string \<Rightarrow> nat" where
  "settled_prefix_len buf = settled_scan 0 0 buf"

section \<open>Where the buffer is cut\<close>

lemma find_start_Cons:
  "find_placeholder_start (a # s) =
     (if a = lbrace \<and> (\<exists>c s'. s = lbrace # c # s' \<and> is_ascii_uppercase c) then Some 0
      else map_option Suc (find_placeholder_start s))"
  by (cases "a # s" rule: find_placeholder_start.cases) auto

lemma str_find_Some:
  "str_find p s = Some k \<Longrightarrow> prefix p (drop k s) \<and> (\<forall>j < k. \<not> prefix p (drop j s))"
proof (induction s arbitrary: k)
  case Nil
  then show ?case by (auto split: if_splits)
next
  case (Cons c s)
  show ?case
  proof (cases "prefix p (c # s)")
    case True
    then show ?thesis using Cons.prems by simp
  next
    case False
    then obtain j where j: "k = Suc j" "str_find p s = Some j" using Cons.prems by auto
    with Cons.IH False show ?thesis by (auto simp: less_Suc_eq_0_disj)
  qed
qed

text \<open>Texts whose placeholders all open with an upper-case letter, as the gateway's own do.\<close>

definition up_toks :: "tok list \<Rightarrow> bool" where
  "up_toks ts = (ok_toks ts \<and> (\<forall>b. Ph b \<in> set ts \<longrightarrow> b \<noteq> [] \<and> is_ascii_uppercase (hd b)))"

lemma up_toks_append: "up_toks (ts @ us) \<Longrightarrow> up_toks ts \<and> up_toks us"
  by (auto simp: up_toks_def dest: ok_toks_appendD1 ok_toks_appendD2)

lemma up_toks_tail: "up_toks (t # ts) \<Longrightarrow> up_toks ts"
  using up_toks_append [of "[t]" ts] by simp

lemma uppercase_not_brace: "is_ascii_uppercase lbrace = False"
  by (simp add: is_ascii_uppercase_def byte_of_def)

lemma up_toks_head:
  assumes "up_toks (Lit lbrace # ts)" "flat ts = lbrace # c # s"
  shows "\<not> is_ascii_uppercase c"
  using assms by (cases ts; cases "hd ts")
    (auto simp: up_toks_def ph_text_def uppercase_not_brace)

lemma opener_at_token:
  assumes "find_placeholder_start pnd = Some i" "pnd @ rest = flat ts" "up_toks ts"
  shows "\<exists>ts1 b ts2. ts = ts1 @ Ph b # ts2 \<and> length (flat ts1) = i"
  using assms
proof (induction ts arbitrary: pnd i)
  case Nil
  then show ?case by simp
next
  case (Cons t ts)
  obtain a p where pnd: "pnd = a # p" using Cons.prems(1) by (cases pnd) auto
  show ?case
  proof (cases t)
    case (Lit c)
    have eq: "a = c" "p @ rest = flat ts" using Cons.prems(2) pnd Lit by auto
    have "\<not> (a = lbrace \<and> (\<exists>c s'. p = lbrace # c # s' \<and> is_ascii_uppercase c))"
      using up_toks_head [of ts] Cons.prems(3) Lit eq by (metis append_Cons)
    then obtain j where j: "i = Suc j" "find_placeholder_start p = Some j"
      using Cons.prems(1) pnd by (auto simp: find_start_Cons split: if_splits)
    from Cons.IH [OF j(2) eq(2) up_toks_tail [OF Cons.prems(3)]]
    obtain ts1 b ts2 where "ts = ts1 @ Ph b # ts2" "length (flat ts1) = j" by blast
    then have "t # ts = (t # ts1) @ Ph b # ts2 \<and> length (flat (t # ts1)) = i" using j Lit by simp
    then show ?thesis by blast
  next
    case (Ph b)
    have b: "b \<noteq> []" "is_ascii_uppercase (hd b)" using Cons.prems(3) Ph by (auto simp: up_toks_def)
    have "i = 0"
    proof -
      obtain x y z where "pnd = x # y # z" "z \<noteq> []"
        using find_start_length [OF Cons.prems(1)] by (cases pnd; cases "tl pnd") fastforce+
      then show ?thesis
        using Cons.prems(1,2) Ph b by (cases z; cases b) (auto simp: ph_text_def find_start_Cons)
    qed
    then have "t # ts = [] @ Ph b # ts \<and> length (flat []) = i" using Ph by simp
    then show ?thesis by blast
  qed
qed

text \<open>The first \<open>}}\<close> after an opener closes that placeholder.\<close>

lemma str_find_skip:
  assumes "rbrace \<notin> set l"
  shows "str_find ''}}'' (l @ s) = map_option ((+) (length l)) (str_find ''}}'' s)"
  using assms
proof (induction l)
  case Nil
  then show ?case by (cases "str_find ''}}'' s") auto
next
  case (Cons c l)
  then show ?case by (auto simp: option.map_comp o_def)
qed

lemma str_find_none: "rbrace \<notin> set l \<Longrightarrow> str_find ''}}'' (l @ take k ''}'') = None"
  using str_find_skip [of l "[]"] str_find_skip [of l "''}''"] by (cases k) simp_all

lemma close_at_token_end:
  assumes "str_find ''}}'' pnd = Some off" "pnd @ rest = flat (Ph b # ts)" "brace_free b"
  shows "off + 2 = length (ph_text b)" "\<exists>p'. pnd = ph_text b @ p' \<and> p' @ rest = flat ts"
proof -
  have nb: "rbrace \<notin> set (''{{'' @ b)" using assms(3) by (simp add: brace_free_def)
  have eq: "pnd @ rest = (''{{'' @ b) @ ''}}'' @ flat ts" using assms(2) by (simp add: ph_text_def)
  have long: "length (''{{'' @ b) + 2 \<le> length pnd"
  proof (rule ccontr)
    assume "\<not> length (''{{'' @ b) + 2 \<le> length pnd"
    then have short: "length pnd \<le> length (''{{'' @ b) + 1" by simp
    have "pnd = take (length pnd) (pnd @ rest)" by simp
    also have "\<dots> = take (length pnd) (''{{'' @ b) @ take (length pnd - length (''{{'' @ b)) ''}''"
      using short unfolding eq by (simp add: take_Cons' del: append_Cons)
    finally have "str_find ''}}'' pnd = None"
      using str_find_none [of "take (length pnd) (''{{'' @ b)"] nb by (metis in_set_takeD)
    with assms(1) show False by simp
  qed
  then obtain p' where p': "pnd = (''{{'' @ b) @ ''}}'' @ p'" "p' @ rest = flat ts"
    using eq by (auto simp: append_eq_append_conv2 Cons_eq_append_conv dest!: sym [of "_ @ _" "_ # _"])
  then show "off + 2 = length (ph_text b)" "\<exists>p'. pnd = ph_text b @ p' \<and> p' @ rest = flat ts"
    using assms(1) str_find_skip [OF nb, of "''}}'' @ p'"] by (auto simp: ph_text_def)
qed

text \<open>Without an opener in the buffer, the part that is emitted ends at a token.\<close>

lemma hold_back_Cons:
  "hold_back (c # s) =
     (if s = [] then (if c = lbrace then 1 else 0)
      else if s = ''{'' then (if c = lbrace then 2 else 1) else hold_back s)"
proof (cases s rule: rev_cases)
  case Nil
  then show ?thesis by (simp add: hold_back_def suffix_Cons)
next
  case (snoc s' x)
  then show ?thesis
    by (cases s' rule: rev_cases) (auto simp: hold_back_def suffix_def append_eq_Cons_conv Cons_eq_append_conv)
qed

lemma hold_back_le: "hold_back s \<le> length s"
  by (auto simp: hold_back_def dest: suffix_length_le)

lemma hold_back_tail: "hold_back (a # p) \<noteq> length (a # p) \<Longrightarrow> hold_back (a # p) = hold_back p"
proof -
  have "hold_back [] = 0" "hold_back ''{'' = 1" by (simp_all add: hold_back_def suffix_Cons)
  then show "hold_back (a # p) \<noteq> length (a # p) \<Longrightarrow> hold_back (a # p) = hold_back p"
    by (auto simp: hold_back_Cons split: if_splits)
qed

lemma cut_before_hold:
  assumes "find_placeholder_start pnd = None" "pnd @ rest = flat ts" "up_toks ts"
  shows "\<exists>ts1 ts2. ts = ts1 @ ts2 \<and> flat ts1 = take (length pnd - hold_back pnd) pnd"
  using assms
proof (induction ts arbitrary: pnd)
  case Nil
  then show ?case by simp
next
  case (Cons t ts)
  show ?case
  proof (cases pnd)
    case Nil
    then show ?thesis by (intro exI [of _ "[]"] exI [of _ "t # ts"]) simp
  next
    case pc: (Cons a p)
    show ?thesis
    proof (cases t)
      case (Lit c)
      have eq: "a = c" "p @ rest = flat ts" using Cons.prems(2) pc Lit by auto
      have none: "find_placeholder_start p = None"
        using Cons.prems(1) pc by (auto simp: find_start_Cons split: if_splits)
      obtain ts1 ts2 where IH: "ts = ts1 @ ts2" "flat ts1 = take (length p - hold_back p) p"
        using Cons.IH [OF none eq(2) up_toks_tail [OF Cons.prems(3)]] by blast
      show ?thesis
      proof (cases "hold_back (a # p) = length (a # p)")
        case True
        then show ?thesis by (intro exI [of _ "[]"] exI [of _ "t # ts"]) (simp add: pc)
      next
        case False
        then have "take (length pnd - hold_back pnd) pnd = a # take (length p - hold_back p) p"
          using hold_back_tail [OF False] hold_back_le [of p] by (simp add: pc Suc_diff_le)
        then show ?thesis using IH Lit eq by (intro exI [of _ "t # ts1"] exI [of _ ts2]) simp
      qed
    next
      case (Ph b)
      then have b: "b \<noteq> []" "is_ascii_uppercase (hd b)" using Cons.prems(3) by (auto simp: up_toks_def)
      have "hold_back pnd = length pnd"
        using Cons.prems(1,2) Ph b pc
        by (cases p; cases "tl p"; cases b)
          (auto simp: ph_text_def find_start_Cons hold_back_Cons split: if_splits)
      then show ?thesis by (intro exI [of _ "[]"] exI [of _ "t # ts"]) simp
    qed
  qed
qed

section \<open>Streaming restores the whole text\<close>

text \<open>
  What the chunk buffer relies on: a restorer that distributes over a cut between two tokens.
\<close>

locale chunk_restorer =
  fixes R :: "'v \<Rightarrow> string \<Rightarrow> string"
    and wf :: "'v \<Rightarrow> bool"
  assumes R_append: "wf v \<Longrightarrow> ok_toks (ts @ us) \<Longrightarrow>
    R v (flat (ts @ us)) = R v (flat ts) @ R v (flat us)"
begin

lemma R_Nil: "wf v \<Longrightarrow> R v [] = []"
  using R_append [of v "[]" "[]"] by simp

lemma R_up: "wf v \<Longrightarrow> up_toks (ts @ us) \<Longrightarrow> R v (flat ts @ flat us) = R v (flat ts) @ R v (flat us)"
  using R_append [of v ts us] by (simp add: up_toks_def)

text \<open>One run of the inner loop emits the restoration of whole tokens and keeps the rest.\<close>

lemma drain_tokens:
  assumes "wf v" "up_toks ts" "pnd @ rest = flat ts" "drain (R v) pnd = (outs, pnd')"
  shows "\<exists>ts1 ts2. ts = ts1 @ ts2 \<and> concat outs = R v (flat ts1) \<and> pnd' @ rest = flat ts2"
  using assms(2-4)
proof (induction "length pnd" arbitrary: pnd ts outs pnd' rule: less_induct)
  case less
  note up = less.prems(1) and tx = less.prems(2) and run = less.prems(3)
  show ?case
  proof (cases "find_placeholder_start pnd")
    case None
    let ?n = "length pnd - hold_back pnd"
    obtain ts1 ts2 where cut: "ts = ts1 @ ts2" "flat ts1 = take ?n pnd"
      using cut_before_hold [OF None tx up] by blast
    have "concat outs = R v (flat ts1) \<and> pnd' = drop ?n pnd"
      using run None cut(2) assms(1) by (subst (asm) drain.simps) (auto simp: Let_def R_Nil split: if_splits)
    moreover have "drop ?n pnd @ rest = flat ts2"
    proof -
      have "length (flat ts1) = ?n" by (simp add: cut(2))
      then show ?thesis using arg_cong [OF tx, of "drop ?n"] cut(1) by simp
    qed
    ultimately show ?thesis using cut(1) by blast
  next
    case (Some i)
    obtain ts1 b ts2 where op: "ts = ts1 @ Ph b # ts2" "length (flat ts1) = i"
      using opener_at_token [OF Some tx up] by blast
    have ile: "i \<le> length pnd" using find_start_length [OF Some] by simp
    then have pre: "take i pnd = flat ts1" "drop i pnd @ rest = flat (Ph b # ts2)"
      using arg_cong [OF tx, of "take i"] arg_cong [OF tx, of "drop i"] op by simp_all
    have bf: "brace_free b" using up op(1) by (auto simp: up_toks_def dest: ok_toks_appendD2)
    show ?thesis
    proof (cases "str_find ''}}'' (drop i pnd)")
      case None
      then have "concat outs = R v (flat ts1) \<and> pnd' = drop i pnd"
        using run Some pre(1) assms(1)
        by (subst (asm) drain.simps) (auto simp: Let_def R_Nil split: if_splits)
      then show ?thesis using op(1) pre(2) by blast
    next
      case close: (Some off)
      let ?e = "i + off + 2" and ?done = "ts1 @ [Ph b]"
      obtain p' where p': "drop i pnd = ph_text b @ p'" "p' @ rest = flat ts2" "off + 2 = length (ph_text b)"
        using close_at_token_end [OF close pre(2) bf] by blast
      have "pnd = take i pnd @ ph_text b @ p'" by (metis append_take_drop_id p'(1))
      then have pnd: "pnd = flat ts1 @ ph_text b @ p'" using pre(1) by simp
      have ee: "?e = length (flat ts1 @ ph_text b)" using op(2) p'(3) by simp
      obtain outs2 where rec: "drain (R v) p' = (outs2, pnd')" "outs = R v (flat ?done) # outs2"
        using run Some close ee by (subst (asm) drain.simps) (auto simp: pnd Let_def split: prod.splits)
      have "length p' < length pnd" by (simp add: pnd ph_text_def)
      moreover have "up_toks ts2" using up_toks_append [of ?done ts2] up op(1) by simp
      ultimately obtain us1 us2 where IH: "ts2 = us1 @ us2"
          "concat outs2 = R v (flat us1)" "pnd' @ rest = flat us2"
        using less.hyps [OF _ _ p'(2) rec(1)] by blast
      have "R v (flat ?done @ flat us1) = R v (flat ?done) @ R v (flat us1)"
        using up op(1) IH(1) up_toks_append [of "?done @ us1" us2] by (intro R_up [OF assms(1)]) simp
      then show ?thesis
        using op(1) IH rec(2) by (intro exI [of _ "?done @ us1"] exI [of _ us2]) simp
    qed
  qed
qed

lemma safe_chunks_tokens:
  assumes "wf v"
  shows "up_toks ts \<Longrightarrow> pnd @ concat chunks = flat ts \<Longrightarrow>
    concat (safe_chunks_loop (R v) chunks pnd) = R v (flat ts)"
proof (induction chunks arbitrary: pnd ts)
  case Nil
  then show ?case using R_Nil [OF assms] by (cases "pnd = []") auto
next
  case (Cons chunk chunks)
  obtain outs pnd' where dr: "drain (R v) (pnd @ chunk) = (outs, pnd')"
    by (cases "drain (R v) (pnd @ chunk)")
  have "(pnd @ chunk) @ concat chunks = flat ts" using Cons.prems(2) by simp
  from drain_tokens [OF assms Cons.prems(1) this dr]
  obtain ts1 ts2 where cut: "ts = ts1 @ ts2" "concat outs = R v (flat ts1)"
      "pnd' @ concat chunks = flat ts2" by blast
  then have "concat (safe_chunks_loop (R v) chunks pnd') = R v (flat ts2)"
    using Cons.IH up_toks_append Cons.prems(1) by blast
  then show ?case using dr cut R_up [OF assms] Cons.prems(1) by simp
qed

end

interpretation cr: chunk_restorer vault_restore wf_vault
  by unfold_locales (rule restore_append)

lemma restore_content_eq: "restore_content t v = vault_restore v t"
  by (simp add: restore_content_def)

text \<open>
  C3. Chunk boundaries do not matter. Whatever way a text of literals and complete placeholders (opening
  with an ASCII capital) is cut into stream chunks, with a well-formed vault the concatenation of the chunks
  the gateway emits is the restoration of the whole text: no placeholder is missed because it straddled a
  chunk boundary.
\<close>

theorem safe_chunks_restore_whole_text:
  assumes "wf_vault v" "up_toks ts" "concat chunks = flat ts"
  shows "concat (placeholder_safe_chunks chunks v) = restore_content (concat chunks) v"
  using cr.safe_chunks_tokens [OF assms(1,2), of "[]" chunks] assms(3)
  by (simp add: placeholder_safe_chunks_def restore_content_eq)

theorem safe_chunks_restore_whole_text_witness:
  "concat (placeholder_safe_chunks [''{ Hi {{Per'', ''son_1}'', ''}!''] [(''{{Person_1}}'', ''Bob'')])
     = restore_content ''{ Hi {{Person_1}}!'' [(''{{Person_1}}'', ''Bob'')]"
proof -
  have 1: "wf_vault [(''{{Person_1}}'', ''Bob'')]"
    by (auto simp: wf_vault_def ph_text_def intro!: exI [of _ "''Person_1''"])
  have 2: "up_toks (map Lit ''{ Hi '' @ [Ph ''Person_1'', Lit CHR ''!''])"
    by (auto simp: up_toks_def is_ascii_uppercase_def byte_of_def)
  have 3: "concat [''{ Hi {{Per'', ''son_1}'', ''}!''] = flat (map Lit ''{ Hi '' @ [Ph ''Person_1'', Lit CHR ''!''])"
    by (simp add: ph_text_def)
  show ?thesis using safe_chunks_restore_whole_text [OF 1 2 3] by simp
qed

section \<open>The incremental streamer\<close>

lemma push_loop_drain:
  "push_loop R pnd out = (out @ concat (fst (drain R pnd)), snd (drain R pnd))"
proof (induction "length pnd" arbitrary: pnd out rule: less_induct)
  case less
  have IH: "push_loop R (drop (i + k + 2) pnd) out'
      = (out' @ concat (fst (drain R (drop (i + k + 2) pnd))), snd (drain R (drop (i + k + 2) pnd)))"
    if "find_placeholder_start pnd = Some i" for i k out'
    using find_start_length [OF that] by (intro less) simp
  show ?case
  proof (cases "find_placeholder_start pnd")
    case None
    then show ?thesis by (simp add: push_loop.simps [of R pnd out] drain.simps [of R pnd] Let_def)
  next
    case (Some i)
    then show ?thesis
      using IH [OF Some]
      by (cases "str_find ''}}'' (drop i pnd)")
        (auto simp: push_loop.simps [of R pnd out] drain.simps [of R pnd] Let_def split: prod.split)
  qed
qed

lemma streamer_run_loop:
  "streamer_run s ds v = concat (safe_chunks_loop (vault_restore v) ds (pending s))"
  by (induction ds arbitrary: s)
    (auto simp: streamer_flush_def streamer_push_def push_loop_drain Let_def split: prod.splits)

text \<open>
  C4. The incremental \<open>PlaceholderStreamer\<close> and the list version \<open>placeholder_safe_chunks\<close>
  are the same transformation: feeding the deltas one by one and flushing emits exactly the
  concatenation of the safe chunks, for every vault and every way of cutting the stream.
\<close>

theorem streamer_equals_safe_chunks:
  "streamer_run streamer_new deltas v = concat (placeholder_safe_chunks deltas v)"
  by (simp add: streamer_run_loop streamer_new_def placeholder_safe_chunks_def)

section \<open>Sentence boundaries\<close>

definition is_break :: "string \<Rightarrow> nat \<Rightarrow> bool" where
  "is_break buf i = (i < length buf \<and>
     (buf ! i = CHR 0x0A \<or>
      (buf ! i \<in> {CHR ''.'', CHR ''!'', CHR ''?''} \<and> starts_ws (drop (Suc i) buf))))"

definition break_here :: "char \<Rightarrow> string \<Rightarrow> bool" where
  "break_here c s = (c = CHR 0x0A \<or>
     (c \<in> {CHR ''.'', CHR ''!'', CHR ''?''} \<and> starts_ws s))"

lemma settled_scan_Cons:
  "settled_scan bi l (c # s) = settled_scan (Suc bi) (if break_here c s then Suc bi else l) s"
proof -
  have "(case (if c = CHR 0x0A then Some (bi + 1)
             else if c = CHR ''.'' \<or> c = CHR ''!'' \<or> c = CHR ''?''
             then (if starts_ws s then Some (bi + 1) else None)
             else None) of Some e \<Rightarrow> e | None \<Rightarrow> l) = (if break_here c s then Suc bi else l)"
    by (auto simp: break_here_def)
  then show ?thesis by (simp only: settled_scan.simps Let_def) simp
qed

declare settled_scan.simps(2) [simp del]

lemma is_break_here: "is_break (pre @ c # s) (length pre) = break_here c s"
  by (auto simp: is_break_def break_here_def)

lemma is_break_length: "is_break buf i \<Longrightarrow> i < length buf"
  by (simp add: is_break_def)

lemma settled_scan_spec:
  assumes "buf = pre @ s" "bi = length pre"
    and "last_end = 0 \<or> (last_end \<le> bi \<and> is_break buf (last_end - 1))"
    and "\<And>i. last_end \<le> i \<Longrightarrow> i < bi \<Longrightarrow> \<not> is_break buf i"
  shows "let n = settled_scan bi last_end s in
    n \<le> length buf \<and> (n = 0 \<or> is_break buf (n - 1)) \<and> (\<forall>i. n \<le> i \<longrightarrow> \<not> is_break buf i)"
  using assms
proof (induction s arbitrary: pre bi last_end)
  case Nil
  then show ?case using is_break_length by (auto simp: Let_def)
next
  case (Cons c s)
  have brk: "is_break buf bi = break_here c s" using Cons.prems(1,2) by (simp add: is_break_here)
  show ?case
  proof (cases "break_here c s")
    case True
    then show ?thesis
      using Cons.IH [of "pre @ [c]" "Suc bi" "Suc bi"] Cons.prems(1,2) brk by (simp add: settled_scan_Cons)
  next
    case False
    have "\<And>i. last_end \<le> i \<Longrightarrow> i < Suc bi \<Longrightarrow> \<not> is_break buf i"
      using Cons.prems(4) False brk by (auto simp: less_Suc_eq)
    moreover have "last_end = 0 \<or> (last_end \<le> Suc bi \<and> is_break buf (last_end - 1))"
      using Cons.prems(3) by auto
    ultimately show ?thesis
      using Cons.IH [of "pre @ [c]" "Suc bi" last_end] Cons.prems(1,2) False
      by (simp add: settled_scan_Cons)
  qed
qed

text \<open>
  \<open>settled_prefix_len\<close> is the end of the last settled segment: it lies in the buffer, the
  byte before it is a newline or a sentence terminator followed by white space, and no such
  break comes later, so what stays buffered is one unfinished segment.
\<close>

theorem settled_prefix_is_last_break:
  "settled_prefix_len buf \<le> length buf \<and>
   (settled_prefix_len buf = 0 \<or> is_break buf (settled_prefix_len buf - 1)) \<and>
   (\<forall>i. settled_prefix_len buf \<le> i \<longrightarrow> \<not> is_break buf i)"
  using settled_scan_spec [of buf "[]" buf 0 0] by (simp add: settled_prefix_len_def Let_def)

theorem settled_prefix_is_last_break_witness:
  "settled_prefix_len ''Hi. Mr Bob'' = 3 \<and> \<not> is_break ''Hi. Mr Bob'' 6"
proof
  show n: "settled_prefix_len ''Hi. Mr Bob'' = 3" by code_simp
  show "\<not> is_break ''Hi. Mr Bob'' 6" using settled_prefix_is_last_break [of "''Hi. Mr Bob''"] unfolding n by simp
qed

end
