(* ===== verification/Sidecar.thy ===== *)
theory Sidecar
  imports Admin_Db
begin

text \<open>
  The detection coverage the ML sidecar reports (\<open>ml_sidecar/types.rs\<close>), what a request does
  when coverage is lost (\<open>sidecar_gate\<close> of \<open>pipeline/service.rs\<close>), the engines recorded for a
  request (\<open>analytics/engines.rs\<close>), and the two workspace settings a request reads:
  \<open>db/sidecar_policy_repo.rs\<close> and \<open>db/secure_mode_repo.rs\<close>.
\<close>

section \<open>Coverage\<close>

datatype sidecar_outage = Unconfigured | Disabled | CircuitOpen | AllCallsFailed

fun outage_str :: "sidecar_outage \<Rightarrow> string" where
  "outage_str Unconfigured = ''unconfigured''"
| "outage_str Disabled = ''disabled''"
| "outage_str CircuitOpen = ''circuit_open''"
| "outage_str AllCallsFailed = ''all_calls_failed''"

text \<open>\<open>PartialCov covered total\<close> is \<open>SidecarCoverage::Partial\<close>.\<close>

datatype sidecar_coverage = Complete | PartialCov nat nat | Absent sidecar_outage

datatype coverage_loss = Outage sidecar_outage | PartialLoss

fun from_coverage :: "sidecar_coverage \<Rightarrow> coverage_loss option" where
  "from_coverage Complete = None"
| "from_coverage (PartialCov _ _) = Some PartialLoss"
| "from_coverage (Absent reason) = Some (Outage reason)"

fun loss_str :: "coverage_loss \<Rightarrow> string" where
  "loss_str (Outage reason) = outage_str reason"
| "loss_str PartialLoss = ''partial_coverage''"

text \<open>What one call of the sidecar gives: the entities (of a type the merge step knows) and the coverage.\<close>

record 'm ml_outcome =
  ml_detections :: "'m list"
  ml_coverage :: sidecar_coverage

definition ml_complete :: "'m list \<Rightarrow> 'm ml_outcome" where
  "ml_complete ds = \<lparr>ml_detections = ds, ml_coverage = Complete\<rparr>"

definition ml_absent :: "sidecar_outage \<Rightarrow> 'm ml_outcome" where
  "ml_absent reason = \<lparr>ml_detections = [], ml_coverage = Absent reason\<rparr>"

definition ml_partial :: "'m list \<Rightarrow> nat \<Rightarrow> nat \<Rightarrow> 'm ml_outcome" where
  "ml_partial ds c t = \<lparr>ml_detections = ds, ml_coverage = PartialCov c t\<rparr>"

record injection_outcome =
  is_injection :: bool
  inj_score :: rat
  inj_coverage :: sidecar_coverage

definition injection_complete :: "bool \<Rightarrow> rat \<Rightarrow> injection_outcome" where
  "injection_complete i sc = \<lparr>is_injection = i, inj_score = sc, inj_coverage = Complete\<rparr>"

definition injection_absent :: "sidecar_outage \<Rightarrow> injection_outcome" where
  "injection_absent reason = \<lparr>is_injection = False, inj_score = 0, inj_coverage = Absent reason\<rparr>"

datatype detection_engines = FloorOnly | FloorAndMl | FloorAndPartialMl

fun engines_from_coverage :: "sidecar_coverage \<Rightarrow> detection_engines" where
  "engines_from_coverage Complete = FloorAndMl"
| "engines_from_coverage (PartialCov _ _) = FloorAndPartialMl"
| "engines_from_coverage (Absent _) = FloorOnly"

fun engine_names :: "detection_engines \<Rightarrow> string list" where
  "engine_names FloorOnly = [''floor'']"
| "engine_names FloorAndMl = [''floor'', ''ml'']"
| "engine_names FloorAndPartialMl = [''floor'', ''ml_partial'']"

fun engines_header :: "detection_engines \<Rightarrow> string" where
  "engines_header FloorOnly = ''floor''"
| "engines_header FloorAndMl = ''floor,ml''"
| "engines_header FloorAndPartialMl = ''floor,ml_partial''"

section \<open>What to do when coverage is lost\<close>

datatype sidecar_policy = Block | DegradeWithAlert

definition policy_from_db :: "string \<Rightarrow> sidecar_policy" where
  "policy_from_db v = (if v = ''degrade_with_alert'' then DegradeWithAlert else Block)"

fun policy_str :: "sidecar_policy \<Rightarrow> string" where
  "policy_str Block = ''block''"
| "policy_str DegradeWithAlert = ''degrade_with_alert''"

datatype sidecar_gate_result = Proceed | GateBlock coverage_loss | Degrade coverage_loss

definition sidecar_gate :: "sidecar_coverage \<Rightarrow> sidecar_policy \<Rightarrow> sidecar_gate_result" where
  "sidecar_gate cov pol =
     (case from_coverage cov of
        None \<Rightarrow> Proceed
      | Some loss \<Rightarrow> (case pol of Block \<Rightarrow> GateBlock loss | DegradeWithAlert \<Rightarrow> Degrade loss))"

section \<open>The workspace settings\<close>

record secure_mode_row =
  sm_ws :: uuid
  sm_enabled :: bool
  sm_level :: string
  sm_block_pii :: bool
  sm_block_injection :: bool
  sm_redact_responses :: bool
  sm_updated_at :: int

text \<open>The two settings tables have the workspace as primary key; the policy is stored as its text.\<close>

record settings_db =
  sidecar_tbl :: "uuid \<Rightarrow> string option"
  secure_tbl :: "uuid \<Rightarrow> secure_mode_row option"
  set_audit :: "audit_row list"

definition sidecar_policy_get :: "db_env \<Rightarrow> settings_db \<Rightarrow> uuid \<Rightarrow> (api_error, sidecar_policy option) result" where
  "sidecar_policy_get env db ws =
     rbind (begin_scoped env ws) (\<lambda>_. rbind (stmt env 3) (\<lambda>_. rbind (stmt env 4) (\<lambda>_.
       Inr (map_option policy_from_db (sidecar_tbl db ws)))))"

definition sidecar_policy_get_effective ::
  "db_env \<Rightarrow> settings_db \<Rightarrow> uuid \<Rightarrow> sidecar_policy \<Rightarrow> (api_error, sidecar_policy) result" where
  "sidecar_policy_get_effective env db ws deployment_default =
     rbind (sidecar_policy_get env db ws) (\<lambda>p. Inr (case p of None \<Rightarrow> deployment_default | Some q \<Rightarrow> q))"

definition sidecar_policy_upsert ::
  "db_env \<Rightarrow> settings_db \<Rightarrow> uuid \<Rightarrow> sidecar_policy \<Rightarrow> sidecar_policy \<Rightarrow> admin_actor
     \<Rightarrow> (api_error, sidecar_policy \<times> settings_db) result" where
  "sidecar_policy_upsert env db ws pol deployment_default actor =
     rbind (begin_scoped env ws) (\<lambda>_. rbind (stmt env 3) (\<lambda>_.
       let before = (case sidecar_tbl db ws of None \<Rightarrow> deployment_default | Some s \<Rightarrow> policy_from_db s) in
       rbind (stmt env 4) (\<lambda>_.
         let after = policy_from_db (policy_str pol);
             tbl = (sidecar_tbl db)(ws \<mapsto> policy_str pol) in
         rbind (if before \<noteq> after
                then audit_write env 5 actor
                  (with_detail (JObj [(''before'', JStr (policy_str before)), (''after'', JStr (policy_str after))])
                    (on_object SidecarPolicyUpdated ws None)) (set_audit db)
                else Inr (set_audit db)) (\<lambda>aud.
         rbind (stmt env 6) (\<lambda>_. Inr (after, db\<lparr>sidecar_tbl := tbl, set_audit := aud\<rparr>))))))"

definition secure_mode_default :: "db_env \<Rightarrow> secure_mode_row" where
  "secure_mode_default env = \<lparr>sm_ws = uuid_nil, sm_enabled = False, sm_level = ''standard'',
     sm_block_pii = False, sm_block_injection = False, sm_redact_responses = False,
     sm_updated_at = now_ts env\<rparr>"

definition secure_mode_get :: "db_env \<Rightarrow> settings_db \<Rightarrow> uuid \<Rightarrow> (api_error, secure_mode_row) result" where
  "secure_mode_get env db ws =
     rbind (begin_scoped env ws) (\<lambda>_. rbind (stmt env 3) (\<lambda>_. rbind (stmt env 4) (\<lambda>_.
       Inr (case secure_tbl db ws of None \<Rightarrow> (secure_mode_default env)\<lparr>sm_ws := ws\<rparr> | Some r \<Rightarrow> r))))"

text \<open>The row \<open>upsert\<close> starts from, and the fields it reports as changed.\<close>

definition secure_mode_current :: "db_env \<Rightarrow> settings_db \<Rightarrow> uuid \<Rightarrow> secure_mode_row" where
  "secure_mode_current env db ws =
     (case secure_tbl db ws of
        None \<Rightarrow> (secure_mode_default env)\<lparr>sm_ws := ws\<rparr>
      | Some r \<Rightarrow> r\<lparr>sm_ws := ws, sm_updated_at := now_ts env\<rparr>)"

definition secure_mode_changes :: "secure_mode_row \<Rightarrow> secure_mode_row \<Rightarrow> (string \<times> json) list" where
  "secure_mode_changes cur row =
     changed_field ''redact_pii_in_responses'' (JBool (sm_redact_responses cur)) (JBool (sm_redact_responses row))
     (changed_field ''block_on_injection_detection'' (JBool (sm_block_injection cur)) (JBool (sm_block_injection row))
     (changed_field ''block_on_pii_detection'' (JBool (sm_block_pii cur)) (JBool (sm_block_pii row))
     (changed_field ''level'' (JStr (sm_level cur)) (JStr (sm_level row))
     (changed_field ''enabled'' (JBool (sm_enabled cur)) (JBool (sm_enabled row)) []))))"

definition secure_mode_upsert ::
  "db_env \<Rightarrow> settings_db \<Rightarrow> uuid \<Rightarrow> bool option \<Rightarrow> string option \<Rightarrow> bool option \<Rightarrow> bool option \<Rightarrow> bool option
     \<Rightarrow> admin_actor \<Rightarrow> (api_error, secure_mode_row \<times> settings_db) result" where
  "secure_mode_upsert env db ws en lvl bpii binj red actor =
     rbind (begin_scoped env ws) (\<lambda>_. rbind (stmt env 3) (\<lambda>_.
       let current = secure_mode_current env db ws;
           row = \<lparr>sm_ws = ws, sm_enabled = unwrap_or (sm_enabled current) en,
                  sm_level = unwrap_or (sm_level current) lvl,
                  sm_block_pii = unwrap_or (sm_block_pii current) bpii,
                  sm_block_injection = unwrap_or (sm_block_injection current) binj,
                  sm_redact_responses = unwrap_or (sm_redact_responses current) red,
                  sm_updated_at = now_ts env\<rparr> in
       rbind (stmt env 4) (\<lambda>_.
         let changed = secure_mode_changes current row in
         rbind (if changed \<noteq> []
                then audit_write env 5 actor
                  (with_detail (JObj [(''changed'', JObj changed)]) (on_object SecureModeUpdated ws None)) (set_audit db)
                else Inr (set_audit db)) (\<lambda>aud.
         rbind (stmt env 6) (\<lambda>_.
           Inr (row, db\<lparr>secure_tbl := (secure_tbl db)(ws \<mapsto> row), set_audit := aud\<rparr>))))))"

section \<open>Lemmas\<close>

lemma policy_from_db_str [simp]: "policy_from_db (policy_str p) = p"
  by (cases p) (simp_all add: policy_from_db_def)

lemma engines_header_join: "engines_header e = join_with '','' (engine_names e)"
  by (cases e) simp_all

lemma sidecar_gate_Proceed [simp]: "sidecar_gate cov pol = Proceed \<longleftrightarrow> cov = Complete"
  by (cases cov; cases pol) (simp_all add: sidecar_gate_def)

lemma sidecar_gate_Degrade: "sidecar_gate cov pol = Degrade l \<Longrightarrow> pol = DegradeWithAlert \<and> from_coverage cov = Some l"
  by (cases cov; cases pol) (simp_all add: sidecar_gate_def)

lemma sidecar_gate_Block: "cov \<noteq> Complete \<Longrightarrow> \<exists>l. sidecar_gate cov Block = GateBlock l"
  by (cases cov) (simp_all add: sidecar_gate_def)

lemma changed_field_Nil: "changed_field n a b m = [] \<longleftrightarrow> a = b \<and> m = []"
proof -
  have "AList.update k v xs \<noteq> []" for k :: string and v :: json and xs by (cases xs) auto
  then show ?thesis by (simp add: changed_field_def)
qed

lemma secure_mode_changes_Nil:
  "secure_mode_changes cur row = [] \<longleftrightarrow>
     sm_enabled row = sm_enabled cur \<and> sm_level row = sm_level cur \<and> sm_block_pii row = sm_block_pii cur \<and>
     sm_block_injection row = sm_block_injection cur \<and> sm_redact_responses row = sm_redact_responses cur"
  unfolding secure_mode_changes_def changed_field_Nil by auto

lemma secure_mode_upsert_Inr:
  assumes "secure_mode_upsert env db ws en lvl bpii binj red actor = Inr (row, db')"
  defines "cur \<equiv> secure_mode_current env db ws"
  shows "row = \<lparr>sm_ws = ws, sm_enabled = unwrap_or (sm_enabled cur) en, sm_level = unwrap_or (sm_level cur) lvl,
      sm_block_pii = unwrap_or (sm_block_pii cur) bpii, sm_block_injection = unwrap_or (sm_block_injection cur) binj,
      sm_redact_responses = unwrap_or (sm_redact_responses cur) red, sm_updated_at = now_ts env\<rparr>"
    and "secure_tbl db' = (secure_tbl db)(ws \<mapsto> row)"
    and "set_audit db' = set_audit db \<longleftrightarrow> secure_mode_changes cur row = []"
proof -
  obtain aud where aud: "(if secure_mode_changes cur row \<noteq> []
      then audit_write env 5 actor (with_detail (JObj [(''changed'', JObj (secure_mode_changes cur row))])
             (on_object SecureModeUpdated ws None)) (set_audit db)
      else Inr (set_audit db)) = Inr aud"
    and db': "db' = db\<lparr>secure_tbl := (secure_tbl db)(ws \<mapsto> row), set_audit := aud\<rparr>"
    and row: "row = \<lparr>sm_ws = ws, sm_enabled = unwrap_or (sm_enabled cur) en, sm_level = unwrap_or (sm_level cur) lvl,
      sm_block_pii = unwrap_or (sm_block_pii cur) bpii, sm_block_injection = unwrap_or (sm_block_injection cur) binj,
      sm_redact_responses = unwrap_or (sm_redact_responses cur) red, sm_updated_at = now_ts env\<rparr>"
    using assms(1) unfolding secure_mode_upsert_def Let_def rbind_Inr cur_def [symmetric] by blast
  show "row = \<lparr>sm_ws = ws, sm_enabled = unwrap_or (sm_enabled cur) en, sm_level = unwrap_or (sm_level cur) lvl,
      sm_block_pii = unwrap_or (sm_block_pii cur) bpii, sm_block_injection = unwrap_or (sm_block_injection cur) binj,
      sm_redact_responses = unwrap_or (sm_redact_responses cur) red, sm_updated_at = now_ts env\<rparr>" by (rule row)
  show "secure_tbl db' = (secure_tbl db)(ws \<mapsto> row)" by (simp add: db')
  show "set_audit db' = set_audit db \<longleftrightarrow> secure_mode_changes cur row = []"
    using aud audit_write_Inr by (cases "secure_mode_changes cur row = []") (fastforce simp: db')+
qed

text \<open>
  A settings change reads back: after \<open>secure_mode_upsert\<close> succeeded, every read of the
  workspace returns the row it returned, with the given fields replaced and the others as they
  were, other workspaces read what they read before, and an audit row was written exactly when
  a field changed.
\<close>

theorem secure_mode_upsert_reads_back:
  assumes "secure_mode_upsert env db ws en lvl bpii binj red actor = Inr (row, db')"
    and "secure_mode_get env' db ws = Inr old" "secure_mode_get env' db' ws = Inr new"
  shows "new = row \<and> sm_enabled row = unwrap_or (sm_enabled old) en \<and> sm_level row = unwrap_or (sm_level old) lvl \<and>
    sm_block_pii row = unwrap_or (sm_block_pii old) bpii \<and> sm_block_injection row = unwrap_or (sm_block_injection old) binj \<and>
    sm_redact_responses row = unwrap_or (sm_redact_responses old) red \<and>
    (\<forall>w. w \<noteq> ws \<longrightarrow> secure_tbl db' w = secure_tbl db w) \<and>
    (set_audit db' = set_audit db \<longleftrightarrow>
       sm_enabled row = sm_enabled old \<and> sm_level row = sm_level old \<and> sm_block_pii row = sm_block_pii old \<and>
       sm_block_injection row = sm_block_injection old \<and> sm_redact_responses row = sm_redact_responses old)"
proof -
  let ?cur = "secure_mode_current env db ws"
  have old: "sm_enabled ?cur = sm_enabled old" "sm_level ?cur = sm_level old" "sm_block_pii ?cur = sm_block_pii old"
    "sm_block_injection ?cur = sm_block_injection old" "sm_redact_responses ?cur = sm_redact_responses old"
    using assms(2)
    by (auto simp: secure_mode_get_def secure_mode_current_def rbind_Inr secure_mode_default_def split: option.splits)
  note up = secure_mode_upsert_Inr [OF assms(1)]
  have "new = row" using assms(3) up(2) by (auto simp: secure_mode_get_def rbind_Inr)
  with up old show ?thesis by (simp add: secure_mode_changes_Nil)
qed

lemma secure_mode_upsert_total:
  assumes "begin_scoped env ws = Inr ()" "\<And>k. stmt env k = Inr ()"
  shows "\<exists>row db'. secure_mode_upsert env db ws en lvl bpii binj red actor = Inr (row, db')"
  by (simp add: secure_mode_upsert_def assms audit_write_def Let_def)

theorem secure_mode_upsert_reads_back_witness:
  "\<exists>env db row db'. secure_mode_upsert env db 3 (Some True) (Some ''strict'') None None None
      (actor_resolve None 3 4 ''admin'') = Inr (row, db') \<and>
    secure_mode_get env db' 3 = Inr row \<and> sm_enabled row \<and> sm_level row = ''strict'' \<and> set_audit db' \<noteq> []"
proof -
  let ?env = "\<lparr>stmt_err = (\<lambda>_. None), readback = Some, dup_err = [], show_uuid = (\<lambda>_. ''u''), now_ts = 9,
     fresh_uuid = of_nat\<rparr>"
  let ?db = "\<lparr>sidecar_tbl = Map.empty, secure_tbl = Map.empty, set_audit = []\<rparr>"
  have env: "begin_scoped ?env 3 = Inr ()" "stmt ?env k = Inr ()" for k
    by (simp_all add: begin_scoped_def arm_scope_def scope_is_armed_def stmt_def)
  obtain row db' where 1: "secure_mode_upsert ?env ?db 3 (Some True) (Some ''strict'') None None None
      (actor_resolve None 3 4 ''admin'') = Inr (row, db')"
    using secure_mode_upsert_total [OF env] by blast
  obtain old where 2: "secure_mode_get ?env ?db 3 = Inr old" by (simp add: secure_mode_get_def env)
  then have off: "\<not> sm_enabled old" by (auto simp: secure_mode_get_def env secure_mode_default_def)
  obtain new where 3: "secure_mode_get ?env db' 3 = Inr new" by (simp add: secure_mode_get_def env)
  have "set_audit ?db = []" by simp
  with secure_mode_upsert_reads_back [OF 1 2 3] off have "new = row \<and> sm_enabled row \<and> sm_level row = ''strict'' \<and> set_audit db' \<noteq> []"
    by auto
  with 1 3 show ?thesis by blast
qed

end
