(* ===== verification/Request_Event.thy ===== *)
theory Request_Event
  imports Sidecar
begin

text \<open>
  What the gateway records of a request: the per-class detection counts
  (\<open>analytics/detection_counts.rs\<close>), the sealed raw content of a workspace that opted in
  (\<open>analytics/capture.rs\<close>), and the event with the ClickHouse rows made from it
  (\<open>analytics/events.rs\<close>). The KMS is the parameter \<open>encrypt\<close>, \<open>None\<close> when the call fails.
  Costs are exact rationals; times are seconds.
\<close>

section \<open>Detection counts\<close>

definition other_class :: string where
  "other_class = ''other''"

definition canonical_classes :: "string list" where
  "canonical_classes =
     [
      ''ANTHROPIC_API_KEY'', ''API_TOKEN_GENERIC'', ''AWS_ACCESS_KEY'',
      ''AZURE_STORAGE_CONNECTION_STRING'', ''BASIC_AUTH_HEADER'', ''BEARER_TOKEN'',
      ''GCP_SERVICE_ACCOUNT_EMAIL'', ''GITHUB_FINE_GRAINED_PAT'', ''GITHUB_OAUTH_TOKEN'',
      ''GITHUB_PAT'', ''GITHUB_REFRESH_TOKEN'', ''GOOGLE_API_KEY'', ''JWT'', ''MONGODB_URI'',
      ''OAUTH_CLIENT_SECRET'', ''OPENAI_API_KEY'', ''OPENSSH_PRIVATE_KEY'',
      ''PASSWORD_ASSIGNMENT'', ''POSTGRESQL_URI'', ''PRIVATE_KEY_PEM'', ''RSA_PRIVATE_KEY'',
      ''SLACK_APP_TOKEN'', ''SLACK_BOT_TOKEN'', ''SLACK_USER_TOKEN'', ''STRIPE_PUBLISHABLE_KEY'',
      ''STRIPE_SECRET_KEY'', ''WEBHOOK_URL'', ''CREDIT_CARD'', ''EMAIL_ADDRESS'', ''HUMO'',
      ''IBAN'', ''MFO'', ''PASSPORT_NUMBER'', ''PHONE_NUMBER'', ''PINFL'', ''SSN'', ''STIR'',
      ''UZCARD'', ''ADDRESS'', ''BANK_ACCOUNT_NUMBER'', ''BIRTH_CERTIFICATE_NUMBER'',
      ''BLOOD_TYPE'', ''CNPJ'', ''CPF'', ''CREDIT_AGREEMENT_ID'', ''CREDIT_CARD_BRAND'',
      ''CREDIT_CARD_EXPIRATION_DATE'', ''CREDIT_CARD_NUMBER'', ''CVV'', ''DATE_OF_BIRTH'',
      ''DRIVERS_LICENSE_NUMBER'', ''FLIGHT_NUMBER'', ''HEALTH_INSURANCE_NUMBER'',
      ''IDENTITY_CARD_NUMBER'', ''INSURANCE_COMPANY'', ''INSURANCE_NUMBER'', ''IP_ADDRESS'',
      ''LICENSE_PLATE_NUMBER'', ''LOAN_AMOUNT'', ''MEDICAL_CONDITION'', ''MEDICATION'',
      ''NATIONAL_HEALTH_INSURANCE_NUMBER'', ''ORGANIZATION'', ''PASSPORT_EXPIRATION_DATE'',
      ''PERSON'', ''POSTAL_CODE'', ''REGISTRATION_NUMBER'', ''RESERVATION_NUMBER'', ''SALARY'',
      ''SERIAL_NUMBER'', ''SOCIAL_SECURITY_NUMBER'', ''STUDENT_ID_NUMBER'',
      ''TAX_IDENTIFICATION_NUMBER'', ''TRAIN_TICKET_NUMBER'', ''TRANSACTION_NUMBER'',
      ''USERNAME'', ''VEHICLE_REGISTRATION_NUMBER'', ''VISA_NUMBER'', ''DATE_TIME'',
      ''IBAN_CODE'', ''US_DRIVER_LICENSE'', ''US_SSN'', ''AZURE_KEY'', ''GCP_KEY'', ''GPE'',
      ''LOCATION'', ''MEDICAL_LICENSE'']"

definition canonicalize :: "string \<Rightarrow> string" where
  "canonicalize cls =
     (case List.find (\<lambda>known. known = to_uppercase cls) canonical_classes of
        Some known \<Rightarrow> known | None \<Rightarrow> other_class)"

text \<open>The loop of \<open>per_class\<close>: the pairs seen and the counts.\<close>

fun per_class_loop ::
  "detection list \<Rightarrow> (string \<times> string) list \<Rightarrow> (string, nat) hashmap \<Rightarrow> (string, nat) hashmap" where
  "per_class_loop [] seen counts = counts"
| "per_class_loop (d # ds) seen counts =
     (let cls = canonicalize (det_class d) in
      if (cls, det_value d) \<in> set seen then per_class_loop ds seen counts
      else per_class_loop ds ((cls, det_value d) # seen)
             (hm_insert cls (unwrap_or 0 (map_of counts cls) + 1) counts))"

definition per_class :: "detection list \<Rightarrow> (string, nat) hashmap" where
  "per_class ds = per_class_loop ds [] []"

definition is_ascii_graphic :: "char \<Rightarrow> bool" where
  "is_ascii_graphic c = (33 \<le> byte_of c \<and> byte_of c \<le> 126)"

definition canonicalize_model :: "string \<Rightarrow> bool \<Rightarrow> string" where
  "canonicalize_model model registered =
     (let bounded = (model \<noteq> [] \<and> length model \<le> 128 \<and> list_all is_ascii_graphic model)
      in if registered \<and> bounded then model else ''unregistered'')"

section \<open>Sealed content\<close>

type_synonym kms_encrypt = "string \<Rightarrow> string option"

record capture_decision =
  cap_enabled :: bool
  cap_retention_days :: int

definition capture_default :: capture_decision where
  "capture_default = \<lparr>cap_enabled = False, cap_retention_days = 30\<rparr>"

record captured_content =
  cc_raw_prompt :: "string option"
  cc_raw_response :: "string option"
  cc_restored_response :: "string option"
  cc_encrypted :: bool
  cc_retention_days :: int

text \<open>\<open>seal_field\<close>: \<open>None\<close> is its \<open>Err(())\<close>.\<close>

definition seal_field :: "kms_encrypt \<Rightarrow> string option \<Rightarrow> string option option" where
  "seal_field encrypt v =
     (case v of
        None \<Rightarrow> Some None
      | Some t \<Rightarrow> if t = [] then Some None
          else (case encrypt t of
                  None \<Rightarrow> None
                | Some bytes \<Rightarrow> if valid_utf8 bytes then Some (Some bytes) else None))"

definition seal ::
  "capture_decision \<Rightarrow> kms_encrypt \<Rightarrow> string option \<Rightarrow> string option \<Rightarrow> string option \<Rightarrow> captured_content option" where
  "seal dec encrypt raw_prompt raw_response restored =
     (if \<not> cap_enabled dec then None
      else if raw_prompt = None \<and> raw_response = None \<and> restored = None then None
      else (case seal_field encrypt raw_prompt of None \<Rightarrow> None | Some rp \<Rightarrow>
           (case seal_field encrypt raw_response of None \<Rightarrow> None | Some rr \<Rightarrow>
           (case seal_field encrypt restored of None \<Rightarrow> None | Some rs \<Rightarrow>
              if rp = None \<and> rr = None \<and> rs = None then None
              else Some \<lparr>cc_raw_prompt = rp, cc_raw_response = rr, cc_restored_response = rs,
                         cc_encrypted = True, cc_retention_days = cap_retention_days dec\<rparr>))))"

section \<open>The event\<close>

datatype redacted_prompt = Redacted string | CoverageLost

record request_event =
  re_request_id :: uuid
  re_workspace_id :: uuid
  re_provider :: string
  re_model :: string
  re_final_action :: string
  re_usage :: token_usage
  re_estimated_usage :: bool
  re_cost_usd :: rat
  re_policy_events :: "policy_event list"
  re_latency_ms :: "nat option"
  re_ttft_ms :: "nat option"
  re_user_id :: "uuid option"
  re_api_key_id :: "uuid option"
  re_api_key_name :: "string option"
  re_ip_address :: "string option"
  re_user_agent :: "string option"
  re_redacted_prompt :: "string option"
  re_redacted_response :: "string option"
  re_captured :: "captured_content option"
  re_floor_only :: bool
  re_engines :: detection_engines
  re_model_registered :: bool
  re_detection_counts :: "(string, nat) hashmap"

definition event_new ::
  "uuid \<Rightarrow> uuid \<Rightarrow> string \<Rightarrow> string \<Rightarrow> string \<Rightarrow> token_usage \<Rightarrow> bool \<Rightarrow> rat \<Rightarrow> policy_event list \<Rightarrow> request_event" where
  "event_new rid ws provider model act u est cost evs =
     \<lparr>re_request_id = rid, re_workspace_id = ws, re_provider = provider, re_model = model,
      re_final_action = act, re_usage = u, re_estimated_usage = est, re_cost_usd = cost,
      re_policy_events = evs, re_latency_ms = None, re_ttft_ms = None, re_user_id = None,
      re_api_key_id = None, re_api_key_name = None, re_ip_address = None, re_user_agent = None,
      re_redacted_prompt = None, re_redacted_response = None, re_captured = None,
      re_floor_only = False, re_engines = FloorOnly, re_model_registered = False,
      re_detection_counts = []\<rparr>"

definition record_detections :: "detection list \<Rightarrow> request_event \<Rightarrow> request_event" where
  "record_detections ds e = e\<lparr>re_detection_counts := per_class ds\<rparr>"

definition capture_content ::
  "capture_decision \<Rightarrow> kms_encrypt \<Rightarrow> string option \<Rightarrow> string option \<Rightarrow> string option \<Rightarrow> request_event \<Rightarrow> request_event" where
  "capture_content dec encrypt rp rr rs e = e\<lparr>re_captured := seal dec encrypt rp rr rs\<rparr>"

definition record_prompt :: "redacted_prompt \<Rightarrow> request_event \<Rightarrow> request_event" where
  "record_prompt p e = e\<lparr>re_redacted_prompt := (case p of Redacted t \<Rightarrow> Some t | CoverageLost \<Rightarrow> None)\<rparr>"

definition record_response :: "redacted_prompt \<Rightarrow> request_event \<Rightarrow> request_event" where
  "record_response p e = e\<lparr>re_redacted_response :=
     (case p of Redacted t \<Rightarrow> if t \<noteq> [] then Some t else None | CoverageLost \<Rightarrow> None)\<rparr>"

section \<open>The rows\<close>

record request_event_row =
  rr_event :: request_event
  rr_created_at :: int
  rr_engines :: "string list"
  rr_restored_response :: "string option"
  rr_raw_prompt :: "string option"
  rr_raw_response :: "string option"

text \<open>
  The columns \<open>RequestEventRow::from_event\<close> copies are kept as the event they come from; the
  event's sealed content and counts are not columns of this row.
\<close>

definition request_row_from_event :: "request_event \<Rightarrow> int \<Rightarrow> request_event_row" where
  "request_row_from_event e t =
     \<lparr>rr_event = e\<lparr>re_captured := None, re_detection_counts := [], re_policy_events := [],
                   re_latency_ms := None, re_ttft_ms := None\<rparr>,
      rr_created_at = t, rr_engines = engine_names (re_engines e),
      rr_restored_response = None, rr_raw_prompt = None, rr_raw_response = None\<rparr>"

record capture_row =
  cr_request_id :: uuid
  cr_workspace_id :: uuid
  cr_created_at :: int
  cr_expires_at :: int
  cr_encrypted :: bool
  cr_raw_prompt :: "string option"
  cr_raw_response :: "string option"
  cr_restored_response :: "string option"

text \<open>\<open>Duration::try_days\<close> succeeds for every \<open>i32\<close>, so the 30-day fallback is not taken.\<close>

definition capture_row_from_event :: "request_event \<Rightarrow> int \<Rightarrow> capture_row option" where
  "capture_row_from_event e t = map_option (\<lambda>c.
     \<lparr>cr_request_id = re_request_id e, cr_workspace_id = re_workspace_id e, cr_created_at = t,
      cr_expires_at = t + cc_retention_days c * 86400, cr_encrypted = cc_encrypted c,
      cr_raw_prompt = cc_raw_prompt c, cr_raw_response = cc_raw_response c,
      cr_restored_response = cc_restored_response c\<rparr>) (re_captured e)"

record class_count_row =
  ccr_request_id :: uuid
  ccr_workspace_id :: uuid
  ccr_created_at :: int
  ccr_model :: string
  ccr_user_id :: "uuid option"
  ccr_api_key_name :: "string option"
  ccr_entity_class :: string
  ccr_entity_count :: nat

definition class_count_rows_from_event :: "request_event \<Rightarrow> int \<Rightarrow> class_count_row list" where
  "class_count_rows_from_event e t = map (\<lambda>(cls, n).
     \<lparr>ccr_request_id = re_request_id e, ccr_workspace_id = re_workspace_id e, ccr_created_at = t,
      ccr_model = canonicalize_model (re_model e) (re_model_registered e), ccr_user_id = re_user_id e,
      ccr_api_key_name = re_api_key_name e, ccr_entity_class = cls, ccr_entity_count = n\<rparr>) (re_detection_counts e)"

record token_usage_row =
  tu_workspace_id :: uuid
  tu_model :: string
  tu_date :: int
  tu_input_tokens :: "64 word"
  tu_output_tokens :: "64 word"
  tu_cost_usd :: rat

definition token_usage_row_from_event :: "request_event \<Rightarrow> int \<Rightarrow> token_usage_row" where
  "token_usage_row_from_event e date =
     \<lparr>tu_workspace_id = re_workspace_id e, tu_model = re_model e, tu_date = date,
      tu_input_tokens = ucast (unwrap_or 0 (input_tokens (re_usage e))),
      tu_output_tokens = ucast (unwrap_or 0 (output_tokens (re_usage e))),
      tu_cost_usd = re_cost_usd e\<rparr>"

section \<open>Lemmas\<close>

text \<open>The values of a class a list of detections holds.\<close>

definition class_values :: "string \<Rightarrow> detection list \<Rightarrow> string set" where
  "class_values cls ds = {v. \<exists>d \<in> set ds. canonicalize (det_class d) = cls \<and> det_value d = v}"

lemma class_values_Cons:
  "class_values cls (d # ds) =
     (if canonicalize (det_class d) = cls then insert (det_value d) (class_values cls ds) else class_values cls ds)"
  by (auto simp: class_values_def)

lemma finite_class_values [simp]: "finite (class_values cls ds)"
  by (induction ds) (auto simp: class_values_Cons, simp add: class_values_def)

lemma per_class_loop_count:
  "unwrap_or 0 (map_of (per_class_loop ds seen counts) cls) =
   unwrap_or 0 (map_of counts cls) + card (class_values cls ds - {v. (cls, v) \<in> set seen})"
proof (induction ds arbitrary: seen counts)
  case Nil
  then show ?case by (simp add: class_values_def)
next
  case (Cons d ds)
  let ?c = "canonicalize (det_class d)" and ?v = "det_value d"
  show ?case
  proof (cases "(?c, ?v) \<in> set seen")
    case True
    then have "class_values cls (d # ds) - {v. (cls, v) \<in> set seen} = class_values cls ds - {v. (cls, v) \<in> set seen}"
      by (auto simp: class_values_Cons)
    with True Cons.IH [of seen counts] show ?thesis by simp
  next
    case False
    note IH = Cons.IH [of "(?c, ?v) # seen" "hm_insert ?c (unwrap_or 0 (map_of counts ?c) + 1) counts"]
    show ?thesis
    proof (cases "?c = cls")
      case True
      have "class_values cls (d # ds) - {v. (cls, v) \<in> set seen} =
          insert ?v (class_values cls ds - {v. (cls, v) \<in> set ((?c, ?v) # seen)})"
        using True False by (auto simp: class_values_Cons)
      then have "card (class_values cls (d # ds) - {v. (cls, v) \<in> set seen}) =
          Suc (card (class_values cls ds - {v. (cls, v) \<in> set ((?c, ?v) # seen)}))"
        using True by simp
      with IH True False show ?thesis by (simp add: update_conv' Let_def)
    next
      case other: False
      then have "class_values cls (d # ds) - {v. (cls, v) \<in> set seen} =
          class_values cls ds - {v. (cls, v) \<in> set ((?c, ?v) # seen)}"
        by (auto simp: class_values_Cons)
      with IH other False show ?thesis by (simp add: update_conv' Let_def)
    qed
  qed
qed

lemma canonicalize_range: "canonicalize cls \<in> insert other_class (set canonical_classes)"
  by (auto simp: canonicalize_def find_Some_iff split: option.split dest: nth_mem)

lemma keys_hm_insert: "fst ` set (hm_insert k v m) = insert k (fst ` set m)"
  by (induction m) auto

lemma per_class_loop_dom:
  "fst ` set (per_class_loop ds seen counts) \<subseteq> fst ` set counts \<union> insert other_class (set canonical_classes)"
proof (induction ds arbitrary: seen counts)
  case (Cons d ds)
  let ?c = "canonicalize (det_class d)"
  let ?counts = "hm_insert ?c (unwrap_or 0 (map_of counts ?c) + 1) counts"
  have "fst ` set (per_class_loop ds ((?c, det_value d) # seen) ?counts)
      \<subseteq> fst ` set ?counts \<union> insert other_class (set canonical_classes)" by (rule Cons.IH)
  also have "\<dots> \<subseteq> fst ` set counts \<union> insert other_class (set canonical_classes)"
    using canonicalize_range [of "det_class d"] unfolding keys_hm_insert by blast
  finally show ?case using Cons.IH [of seen counts] by (simp only: per_class_loop.simps Let_def split: if_split) simp
qed auto

text \<open>
  The recorded counts are the numbers of distinct values per class, and a class label is
  always one of the fixed vocabulary, so no text of the prompt or of a detector can reach the
  counts table through it.
\<close>

theorem per_class_counts_distinct_values:
  "unwrap_or 0 (map_of (per_class ds) cls) = card (class_values cls ds) \<and>
   fst ` set (per_class ds) \<subseteq> insert other_class (set canonical_classes)"
  using per_class_loop_count [of ds "[]" "[]" cls] per_class_loop_dom [of ds "[]" "[]"]
  by (simp add: per_class_def)

text \<open>
  Raw content leaves the process sealed or not at all: what \<open>seal\<close> returns exists only for
  a workspace that opted in, is marked encrypted, carries that workspace's retention, and every
  field present in it is what the KMS returned for the field's text; a failed encryption of any
  field drops them all.
\<close>

theorem captured_content_is_sealed:
  assumes "seal dec encrypt rp rr rs = Some c"
  shows "cap_enabled dec \<and> cc_encrypted c \<and> cc_retention_days c = cap_retention_days dec \<and>
    (\<forall>ct. cc_raw_prompt c = Some ct \<longrightarrow> (\<exists>t. rp = Some t \<and> encrypt t = Some ct)) \<and>
    (\<forall>ct. cc_raw_response c = Some ct \<longrightarrow> (\<exists>t. rr = Some t \<and> encrypt t = Some ct)) \<and>
    (\<forall>ct. cc_restored_response c = Some ct \<longrightarrow> (\<exists>t. rs = Some t \<and> encrypt t = Some ct)) \<and>
    (\<forall>t. rp = Some t \<longrightarrow> t \<noteq> [] \<longrightarrow> encrypt t \<noteq> None)"
  using assms
  by (auto simp: seal_def seal_field_def split: if_splits option.splits)

theorem captured_content_is_sealed_witness:
  "seal \<lparr>cap_enabled = True, cap_retention_days = 7\<rparr> (\<lambda>t. Some (rev t)) (Some ''abc'') None None =
     Some \<lparr>cc_raw_prompt = Some ''cba'', cc_raw_response = None, cc_restored_response = None,
       cc_encrypted = True, cc_retention_days = 7\<rparr> \<and>
   (\<exists>t. Some ''abc'' = Some t \<and> Some (rev t) = Some ''cba'')"
proof -
  let ?dec = "\<lparr>cap_enabled = True, cap_retention_days = 7\<rparr>"
  let ?c = "\<lparr>cc_raw_prompt = Some ''cba'', cc_raw_response = None, cc_restored_response = None,
     cc_encrypted = True, cc_retention_days = 7\<rparr>"
  have 1: "seal ?dec (\<lambda>t. Some (rev t)) (Some ''abc'') None None = Some ?c"
    by (simp add: seal_def seal_field_def byte_of_def)
  with captured_content_is_sealed [OF 1] show ?thesis by simp
qed

end
