(* ===== verification/Token_Usage.thy ===== *)
theory Token_Usage
  imports SP_Types
begin

text \<open>
  \<open>token_usage/dispatch.rs\<close> and \<open>token_usage/pricing.rs\<close>: the usage a request is billed for,
  reported by the provider or estimated from the text, and its cost. Counts are \<open>u32\<close>, and the
  \<open>as u32\<close> casts wrap. Prices are the decimal numbers the source writes; the rounding of \<open>f64\<close>
  arithmetic is not modelled, so a cost is the exact value the code approximates.
\<close>

section \<open>Estimation\<close>

definition estimate_tokens :: "string \<Rightarrow> string \<Rightarrow> 32 word" where
  "estimate_tokens provider_type content =
     (let trimmed = trim content in
      if trimmed = [] then 0
      else let words = (of_nat (word_count trimmed) :: 32 word);
               chars = (of_nat (char_count trimmed) :: 32 word)
           in if provider_type = ''anthropic'' then max (chars div 3) words
              else if provider_type = ''ollama'' \<or> provider_type = ''vllm'' then max words (chars div 5)
              else max (chars div 4) words)"

record usage_computation =
  uc_usage :: token_usage
  uc_estimated :: bool

definition derive_usage :: "string \<Rightarrow> token_usage option \<Rightarrow> string \<Rightarrow> string \<Rightarrow> usage_computation" where
  "derive_usage provider_type reported prompt response =
     (case reported of
        Some u \<Rightarrow> \<lparr>uc_usage = u, uc_estimated = False\<rparr>
      | None \<Rightarrow> \<lparr>uc_usage = \<lparr>input_tokens = Some (estimate_tokens provider_type prompt),
                  output_tokens = Some (estimate_tokens provider_type response),
                  reasoning_tokens = Some 0, cache_read_tokens = Some 0, cache_write_tokens = Some 0\<rparr>,
                uc_estimated = True\<rparr>)"

section \<open>Prices\<close>

record model_pricing =
  input_per_1k_usd :: rat
  output_per_1k_usd :: rat

type_synonym pricing_table = "(string, model_pricing) hashmap"

definition pricing_with_defaults :: pricing_table where
  "pricing_with_defaults =
     [(''gpt-4o-mini'', \<lparr>input_per_1k_usd = 15 / 100000, output_per_1k_usd = 6 / 10000\<rparr>),
      (''claude-3-5-haiku'', \<lparr>input_per_1k_usd = 8 / 10000, output_per_1k_usd = 4 / 1000\<rparr>),
      (''llama3.1'', \<lparr>input_per_1k_usd = 0, output_per_1k_usd = 0\<rparr>)]"

definition tokens_of :: "32 word option \<Rightarrow> rat" where
  "tokens_of t = of_nat (unat (unwrap_or 0 t))"

definition compute_cost :: "pricing_table \<Rightarrow> string \<Rightarrow> token_usage \<Rightarrow> rat" where
  "compute_cost tbl model u =
     (let pricing = unwrap_or \<lparr>input_per_1k_usd = 2 / 10000, output_per_1k_usd = 8 / 10000\<rparr> (map_of tbl model);
          inp = tokens_of (input_tokens u) / 1000;
          out = tokens_of (output_tokens u) / 1000
      in inp * input_per_1k_usd pricing + out * output_per_1k_usd pricing)"

section \<open>Bounds\<close>

lemma unat_max_word: "unat (max a b) = max (unat a) (unat (b :: 'a::len word))"
  by (simp add: max_def word_le_nat_alt)

lemma length_utf8_chars: "s = [] \<or> \<not> is_cont (hd s) \<Longrightarrow> length (utf8_chars s) = char_count s"
proof (induction s rule: utf8_chars.induct)
  case (2 c s)
  have "filter (\<lambda>c. \<not> is_cont c) (dropWhile is_cont s) = filter (\<lambda>c. \<not> is_cont c) s"
    by (induction s) auto
  moreover have "dropWhile is_cont s = [] \<or> \<not> is_cont (hd (dropWhile is_cont s))"
    using hd_dropWhile by blast
  ultimately show ?case using 2 by (simp add: char_count_def)
qed (simp add: char_count_def)

lemma count_words_le: "count_words b cs \<le> length cs"
  by (induction b cs rule: count_words.induct) auto

lemma length_utf8_chars_le: "length (utf8_chars s) \<le> length s"
proof (induction s rule: utf8_chars.induct)
  case (2 c s)
  then show ?case using length_dropWhile_le [of is_cont s] by simp
qed simp

lemma char_count_le: "char_count s \<le> length s"
  by (simp add: char_count_def)

lemma length_trim: "length (trim s) \<le> length s"
  using trim_infix [of s] by (metis length_append le_add1 le_add2 le_trans)

text \<open>
  The estimate never exceeds the text: for a text shorter than 4 GiB, the estimated token
  count is at most the number of bytes of the text, whatever the provider.
\<close>

theorem estimate_tokens_at_most_length:
  assumes "length content < 2 ^ 32"
  shows "unat (estimate_tokens provider_type content) \<le> length content"
proof -
  let ?t = "trim content"
  let ?w = "of_nat (word_count ?t) :: 32 word" and ?c = "of_nat (char_count ?t) :: 32 word"
  have w: "word_count ?t \<le> length content"
    using count_words_le [of False "utf8_chars ?t"] length_utf8_chars_le [of ?t] length_trim [of content]
    by (simp add: word_count_def)
  have c: "char_count ?t \<le> length content"
    using char_count_le [of ?t] length_trim [of content] by linarith
  have uw: "unat ?w = word_count ?t" using w assms by (simp add: unat_of_nat)
  have uc: "unat ?c = char_count ?t" using c assms by (simp add: unat_of_nat)
  have div: "unat (?c div n) \<le> length content" for n :: "32 word"
    using uc c by (simp add: unat_div_distrib le_trans [OF div_le_dividend])
  show ?thesis
    using uw w div by (simp add: estimate_tokens_def Let_def unat_max_word)
qed

theorem estimate_tokens_at_most_length_witness:
  "length ''hello world'' < 2 ^ 32 \<and> unat (estimate_tokens ''openai'' ''hello world'') \<le> length ''hello world''"
  using estimate_tokens_at_most_length [of "''hello world''" "''openai''"] by simp

end
