(* ===== verification/Model_Router.thy ===== *)
theory Model_Router
  imports SP_Types
begin

text \<open>
  \<open>http/model_router.rs\<close>: the configuration cache (API keys and resolved models, valid for
  sixty seconds) and \<open>resolve_model\<close>. Instants are milliseconds; the provider repository's
  answers are parameters.
\<close>

section \<open>The cache\<close>

definition cache_ttl :: nat where
  "cache_ttl = 60000"

record cached_api_key =
  ck_api_key_id :: uuid
  ck_workspace_id :: uuid
  ck_name :: string
  ck_assigned_user_id :: "uuid option"
  ck_cached_at :: nat

record model_target =
  mt_model_id :: uuid
  mt_workspace_id :: uuid
  mt_provider_id :: uuid
  mt_provider_name :: string
  mt_provider_type :: string
  mt_model_name :: string
  mt_encrypted_credential :: "string option"
  mt_config :: json

record resolved_model =
  rm_public_model :: string
  rm_targets :: "model_target list"

definition is_registered :: "resolved_model \<Rightarrow> bool" where
  "is_registered rm = (case rm_targets rm of [] \<Rightarrow> False | t # _ \<Rightarrow> mt_model_id t \<noteq> uuid_nil)"

record config_cache =
  api_keys :: "string \<Rightarrow> cached_api_key option"
  models :: "string \<Rightarrow> (resolved_model \<times> nat) option"

definition cache_default :: config_cache where
  "cache_default = \<lparr>api_keys = Map.empty, models = Map.empty\<rparr>"

text \<open>\<open>elapsed\<close> saturates at zero.\<close>

definition get_api_key :: "config_cache \<Rightarrow> nat \<Rightarrow> string \<Rightarrow> cached_api_key option" where
  "get_api_key cache now token =
     (case api_keys cache token of
        None \<Rightarrow> None
      | Some e \<Rightarrow> if now - ck_cached_at e > cache_ttl then None else Some e)"

definition set_api_key :: "string \<Rightarrow> cached_api_key \<Rightarrow> config_cache \<Rightarrow> config_cache" where
  "set_api_key token e cache = cache\<lparr>api_keys := (api_keys cache)(token \<mapsto> e)\<rparr>"

definition get_model :: "config_cache \<Rightarrow> nat \<Rightarrow> string \<Rightarrow> resolved_model option" where
  "get_model cache now key =
     (case models cache key of
        None \<Rightarrow> None
      | Some (m, cached_at) \<Rightarrow> if now - cached_at > cache_ttl then None else Some m)"

definition set_model :: "nat \<Rightarrow> string \<Rightarrow> resolved_model \<Rightarrow> config_cache \<Rightarrow> config_cache" where
  "set_model now key m cache = cache\<lparr>models := (models cache)(key \<mapsto> (m, now))\<rparr>"

section \<open>Resolution\<close>

text \<open>A row of \<open>list_providers\<close>, as far as the fallback reads it.\<close>

record provider_row =
  pv_id :: uuid
  pv_name :: string
  pv_provider_type :: string
  pv_encrypted_credential :: "string option"
  pv_config :: json

text \<open>
  \<open>resolve_model\<close>. \<open>ModelTarget\<close> and \<open>ResolvedModelTarget\<close> have the same fields, so the
  conversion between them is the identity.
\<close>

definition resolve_model ::
  "(uuid \<Rightarrow> string) \<Rightarrow> (api_error, model_target list) result \<Rightarrow> (api_error, provider_row list) result \<Rightarrow> nat
     \<Rightarrow> uuid \<Rightarrow> string \<Rightarrow> config_cache \<Rightarrow> (api_error, resolved_model) result \<times> config_cache" where
  "resolve_model show_uuid repo_targets repo_providers now ws public_model cache =
     (let cache_key = show_uuid ws @ '':'' @ public_model in
      case get_model cache now cache_key of
        Some cached \<Rightarrow> (Inr cached, cache)
      | None \<Rightarrow>
          (case repo_targets of
             Inl e \<Rightarrow> (Inl e, cache)
           | Inr [] \<Rightarrow>
               (case repo_providers of
                  Inl e \<Rightarrow> (Inl e, cache)
                | Inr (p # _) \<Rightarrow>
                    (Inr \<lparr>rm_public_model = public_model,
                       rm_targets = [\<lparr>mt_model_id = uuid_nil, mt_workspace_id = ws, mt_provider_id = pv_id p,
                          mt_provider_name = pv_name p, mt_provider_type = pv_provider_type p,
                          mt_model_name = public_model, mt_encrypted_credential = pv_encrypted_credential p,
                          mt_config = pv_config p\<rparr>]\<rparr>, cache)
                | Inr [] \<Rightarrow> (Inl (NotFound (''no provider configured for model '' @ public_model)), cache))
           | Inr targets \<Rightarrow>
               (let resolved = \<lparr>rm_public_model = public_model, rm_targets = targets\<rparr>
                in (Inr resolved, set_model now cache_key resolved cache))))"

section \<open>The cache invariant\<close>

text \<open>Every cached model has a target, and was stored no later than the present.\<close>

definition cache_inv :: "nat \<Rightarrow> config_cache \<Rightarrow> bool" where
  "cache_inv now cache = (\<forall>key m t. models cache key = Some (m, t) \<longrightarrow> rm_targets m \<noteq> [] \<and> t \<le> now)"

lemma cache_inv_mono: "cache_inv now cache \<Longrightarrow> now \<le> later \<Longrightarrow> cache_inv later cache"
  unfolding cache_inv_def by (meson le_trans)

lemma cache_inv_set_model:
  "cache_inv now cache \<Longrightarrow> rm_targets m \<noteq> [] \<Longrightarrow> cache_inv now (set_model now key m cache)"
  by (auto simp: cache_inv_def set_model_def split: if_splits)

text \<open>
  A resolved model always has a target, so the request path may index the first one: from
  a cache that satisfies its invariant, a successful resolution returns at least one target, a
  model taken from the cache was stored at most sixty seconds earlier, and the invariant holds
  of the new cache at any later time.
\<close>

theorem resolve_model_has_target:
  assumes "cache_inv now cache" "now \<le> later"
    and "resolve_model show_uuid repo_targets repo_providers now ws public_model cache = (r, cache')"
  shows "cache_inv later cache' \<and> (\<forall>rm. r = Inr rm \<longrightarrow> rm_targets rm \<noteq> []) \<and>
    (\<forall>rm. get_model cache now (show_uuid ws @ '':'' @ public_model) = Some rm \<longrightarrow>
       r = Inr rm \<and> (\<exists>t. models cache (show_uuid ws @ '':'' @ public_model) = Some (rm, t) \<and> t \<le> now \<and> now \<le> t + 60000))"
proof -
  let ?key = "show_uuid ws @ '':'' @ public_model"
  have hit: "rm_targets rm \<noteq> [] \<and> (\<exists>t. models cache ?key = Some (rm, t) \<and> t \<le> now \<and> now \<le> t + 60000)"
    if "get_model cache now ?key = Some rm" for rm
    using that assms(1) by (auto simp: get_model_def cache_inv_def cache_ttl_def split: option.splits if_splits)
  have "cache_inv now cache' \<and> (\<forall>rm. r = Inr rm \<longrightarrow> rm_targets rm \<noteq> [])"
  proof (cases "get_model cache now ?key")
    case (Some rm)
    then show ?thesis using assms(1,3) hit [OF Some] by (auto simp: resolve_model_def Let_def)
  next
    case None
    then show ?thesis
      using assms(1,3)
      by (auto simp: resolve_model_def Let_def cache_inv_set_model split: sum.splits list.splits)
  qed
  moreover have "r = Inr rm" if "get_model cache now ?key = Some rm" for rm
    using that assms(3) by (auto simp: resolve_model_def)
  ultimately show ?thesis using hit cache_inv_mono [OF _ assms(2)] by blast
qed

theorem resolve_model_has_target_witness:
  "\<exists>r cache'. resolve_model (\<lambda>_. ''w'') (Inr []) (Inr [\<lparr>pv_id = 1, pv_name = ''p'', pv_provider_type = ''openai'',
       pv_encrypted_credential = None, pv_config = JNull\<rparr>]) 5 2 ''gpt'' cache_default = (Inr r, cache') \<and>
     rm_targets r \<noteq> [] \<and> cache_inv 9 cache'"
proof -
  let ?call = "resolve_model (\<lambda>_. ''w'') (Inr []) (Inr [\<lparr>pv_id = 1, pv_name = ''p'', pv_provider_type = ''openai'',
       pv_encrypted_credential = None, pv_config = JNull\<rparr>]) 5 2 ''gpt'' cache_default"
  have inv: "cache_inv 5 cache_default" by (simp add: cache_inv_def cache_default_def)
  obtain r cache' where call: "?call = (Inr r, cache')"
    by (simp add: resolve_model_def get_model_def cache_default_def Let_def)
  with resolve_model_has_target [OF inv _ call, of 9] show ?thesis by auto
qed

end
