(* ===== verification/Pipeline.thy ===== *)
theory Pipeline
  imports Policy_Engine Streaming Request_Event Token_Usage Model_Router
    "HOL-Library.Char_ord" "HOL-Library.List_Lexorder"
begin

text \<open>
  The request path of \<open>pipeline/service.rs\<close>: \<open>prepare\<close> (detection, coverage gate, policy, secure
  mode, fallback redaction, denial), the provider chain and \<open>execute\<close>. What the path reads from
  outside is a \<open>gateway_env\<close>: the detectors (\<open>detect_content\<close>, \<open>merge_detections\<close> and the ML
  sidecar), the workspace settings as the repositories returned them, the KMS, the provider
  adapters, the clock. What it does to the outside is a list of effects, in order: alerts and
  metrics, provider calls, and the audit event.
\<close>

section \<open>Data\<close>

datatype request_kind = Chat | Completion | Embedding

record gateway_request =
  gr_public_model :: string
  gr_messages :: "message list"
  gr_stream :: bool
  gr_kind :: request_kind
  gr_extra_params :: json
  gr_client_ip :: "string option"
  gr_user_agent :: "string option"
  gr_request_id :: "uuid option"

record auth_context =
  au_workspace_id :: uuid
  au_user_id :: "uuid option"
  au_api_key_id :: uuid
  au_api_key_name :: string

record provider_invocation =
  iv_request_id :: uuid
  iv_model :: string
  iv_prompt :: string
  iv_messages :: "message list"
  iv_extra_params :: json
  iv_stream :: bool
  iv_kind :: request_kind
  iv_credential :: "string option"

record provider_output =
  out_content :: string
  out_model :: string
  out_usage :: "token_usage option"
  out_embedding :: "rat list option"
  out_stream_chunks :: "string list"
  out_finish_reason :: "string option"
  out_ttft_ms :: "nat option"

record provider_failure =
  pf_message :: string
  pf_retryable :: bool

datatype provider_event =
    Token string
  | StreamDone "token_usage option" "string option" "string option" "nat option"

text \<open>
  The environment. \<open>ml_detect\<close> takes the number of the call within the request, so that two
  calls on one text may answer differently; \<open>load_file_vault\<close> is the decrypted and parsed map of
  a file-vault reference, if it is found.
\<close>

record 'm gateway_env =
  detect_content :: "string \<Rightarrow> detection list"
  merge_detections :: "detection list \<Rightarrow> 'm list \<Rightarrow> detection list"
  ml_detect :: "nat \<Rightarrow> string \<Rightarrow> 'm ml_outcome"
  injection_check :: "string \<Rightarrow> injection_outcome"
  regex_new :: regex_crate
  enabled_rules :: "(api_error, policy_rule list) result"
  secure_mode_read :: "(api_error, secure_mode_row) result"
  sidecar_policy_read :: "sidecar_policy \<Rightarrow> (api_error, sidecar_policy) result"
  capture_read :: "(api_error, capture_decision) result"
  load_file_vault :: "string \<Rightarrow> (string \<times> string) list option"
  kms_enc :: kms_encrypt
  kms_dec :: "string \<Rightarrow> (string, string) result"
  b64_decode :: "string \<Rightarrow> (string, string) result"
  utf8_err :: "string \<Rightarrow> string"
  adapter_known :: "string \<Rightarrow> bool"
  adapter_complete :: "model_target \<Rightarrow> provider_invocation \<Rightarrow> (provider_failure, provider_output) result"
  adapter_stream :: "model_target \<Rightarrow> provider_invocation \<Rightarrow> (provider_failure, provider_output) result"
  adapter_events :: "model_target \<Rightarrow> provider_invocation
     \<Rightarrow> (provider_failure, (provider_failure, provider_event) result list) result"
  pricing :: pricing_table
  chat_debug_mode :: bool
  redact_when_no_rules :: bool
  sidecar_unavailable_default :: string
  json_pretty :: "json \<Rightarrow> string"
  show_score :: "rat \<Rightarrow> string"
  new_request_id :: uuid
  latency_ms :: nat
  first_token_ms :: nat

datatype gw_effect =
    AlertSidecar coverage_loss string
  | PolicyViolation string
  | EnqueueEvent request_event
  | ObserveDuration string
  | RecordRequest bool
  | CallProvider model_target provider_invocation
  | AdjustTokens uuid int

section \<open>Messages\<close>

definition prompt_from_messages :: "message list \<Rightarrow> string" where
  "prompt_from_messages ms = join_with [CHR 0x0A] (map msg_content ms)"

definition model_label :: "model_target \<Rightarrow> string" where
  "model_label t = (if mt_model_id t = uuid_nil then ''unknown'' else mt_model_name t)"

definition policy_violation_label :: "string \<Rightarrow> string option" where
  "policy_violation_label act =
     (if act = ''deny'' then Some ''block''
      else if act = ''redact'' \<or> act = ''transform'' then Some ''redact''
      else if act = ''flag'' then Some ''flag''
      else None)"

definition marker_open :: string where
  "marker_open = ''[[sp:v=''"

definition marker_close :: string where
  "marker_close = '']]''"

text \<open>The loop of \<open>strip_file_vault_markers\<close> on the rest of the text: what it cleans and the refs.\<close>

lemma str_find_length: "str_find p s = Some i \<Longrightarrow> i + length p \<le> length s"
proof (induction s arbitrary: i)
  case Nil
  then show ?case by (auto split: if_splits)
next
  case (Cons c s)
  then show ?case by (cases i) (auto split: if_splits dest: prefix_length_le)
qed

function strip_markers :: "string \<Rightarrow> string \<times> string list" where
  "strip_markers rest =
     (case str_find marker_open rest of
        None \<Rightarrow> (rest, [])
      | Some idx \<Rightarrow>
          (let after = drop (idx + length marker_open) rest in
           case str_find marker_close after of
             Some end \<Rightarrow>
               (let vref = take end after;
                    (cleaned, refs) = strip_markers (drop (end + length marker_close) after)
                in (take idx rest @ cleaned, if vref \<noteq> [] then vref # refs else refs))
           | None \<Rightarrow> (take idx rest @ drop idx rest, [])))"
  by pat_completeness auto
termination
  by (relation "measure length") (auto dest!: str_find_length simp: marker_open_def marker_close_def)

declare strip_markers.simps [simp del]

definition strip_file_vault_markers :: "string \<Rightarrow> string \<times> string list" where
  "strip_file_vault_markers t = strip_markers t"

definition load_refs :: "'m gateway_env \<Rightarrow> string list \<Rightarrow> token_vault \<Rightarrow> token_vault" where
  "load_refs env refs v = fold (\<lambda>vref v. case load_file_vault env vref of
       None \<Rightarrow> v
     | Some m \<Rightarrow> fold (\<lambda>(token, val). vault_insert token val) m v) refs v"

definition preload_file_vault :: "'m gateway_env \<Rightarrow> string \<Rightarrow> token_vault \<Rightarrow> string \<times> token_vault" where
  "preload_file_vault env prompt v =
     (if \<not> str_contains prompt marker_open then (prompt, v)
      else let (cleaned, refs) = strip_file_vault_markers prompt
           in (cleaned, load_refs env refs v))"

text \<open>The message the audit trail shows: the last one of the user, else the last one.\<close>

definition last_user_message :: "message list \<Rightarrow> message option" where
  "last_user_message ms =
     (case List.find (\<lambda>m. eq_ignore_ascii_case (role m) ''user'') (rev ms) of
        Some m \<Rightarrow> Some m
      | None \<Rightarrow> if ms = [] then None else Some (last ms))"

definition last_user_message_raw :: "message list \<Rightarrow> string option" where
  "last_user_message_raw ms =
     (case map_option msg_content (last_user_message ms) of
        Some s \<Rightarrow> if s = [] then None else Some s
      | None \<Rightarrow> None)"

definition redact_last_user_message :: "'m gateway_env \<Rightarrow> nat \<Rightarrow> message list \<Rightarrow> string" where
  "redact_last_user_message env k ms =
     (case last_user_message ms of
        None \<Rightarrow> []
      | Some m \<Rightarrow>
          (let content = msg_content m in
           if content = [] then []
           else let ds = merge_detections env (detect_content env content) (ml_detections (ml_detect env k content))
                in if ds = [] then content else fst (apply_redaction content ds vault_empty [])))"

text \<open>\<open>rposition\<close>: the index of the last user message, else of the last message.\<close>

definition last_user_index :: "message list \<Rightarrow> nat option" where
  "last_user_index ms =
     (case filter (\<lambda>i. eq_ignore_ascii_case (role (ms ! i)) ''user'') (rev [0..<length ms]) of
        i # _ \<Rightarrow> Some i
      | [] \<Rightarrow> if ms = [] then None else Some (length ms - 1))"

fun message_span :: "message list \<Rightarrow> nat \<Rightarrow> nat \<Rightarrow> (nat \<times> nat \<times> string) option" where
  "message_span [] i offset = None"
| "message_span (m # ms) i offset =
     (let cleaned = fst (strip_file_vault_markers (msg_content m)) in
      case i of
        0 \<Rightarrow> Some (offset, offset + length cleaned, cleaned)
      | Suc j \<Rightarrow> message_span ms j (offset + length cleaned + 1))"

definition last_user_message_span :: "message list \<Rightarrow> (nat \<times> nat \<times> string) option" where
  "last_user_message_span ms =
     (case last_user_index ms of None \<Rightarrow> None | Some i \<Rightarrow> message_span ms i 0)"

text \<open>\<open>content.get(a..b)\<close>.\<close>

definition str_get :: "string \<Rightarrow> nat \<Rightarrow> nat \<Rightarrow> string option" where
  "str_get s a b = (if a \<le> b \<and> b \<le> length s \<and> is_char_boundary s a \<and> is_char_boundary s b
     then Some (substr s a b) else None)"

text \<open>
  A detection of the joined prompt, rebased to the message. For a malformed span whose end lies
  before the message the subtraction wraps in a release build, and \<open>get\<close> then finds nothing.
\<close>

definition rebase_detection :: "nat \<Rightarrow> nat \<Rightarrow> string \<Rightarrow> detection \<Rightarrow> detection option" where
  "rebase_detection start end content d =
     (case det_span d of
        None \<Rightarrow> None
      | Some (s, e) \<Rightarrow>
          if s < start \<or> e > end then None
          else if start \<le> e \<and> (case str_get content (s - start) (e - start) of
                      None \<Rightarrow> False | Some actual \<Rightarrow> actual \<noteq> [] \<and> actual = det_value d)
          then Some (d\<lparr>det_span := Some (s - start, e - start)\<rparr>) else None)"

definition redact_last_user_message_with :: "message list \<Rightarrow> detection list \<Rightarrow> string" where
  "redact_last_user_message_with ms ds =
     (case last_user_message_span ms of
        None \<Rightarrow> []
      | Some (start, end, content) \<Rightarrow>
          if content = [] then []
          else let scoped = List.map_filter (rebase_detection start end content) ds
               in if scoped = [] then content else fst (apply_redaction content scoped vault_empty []))"

definition audit_prompt :: "'m gateway_env \<Rightarrow> nat \<Rightarrow> message list \<Rightarrow> coverage_loss option \<Rightarrow> redacted_prompt" where
  "audit_prompt env k ms degraded =
     (if degraded \<noteq> None then CoverageLost else Redacted (redact_last_user_message env k ms))"

definition audit_prompt_with :: "message list \<Rightarrow> detection list \<Rightarrow> coverage_loss option \<Rightarrow> redacted_prompt" where
  "audit_prompt_with ms ds degraded =
     (if degraded \<noteq> None then CoverageLost else Redacted (redact_last_user_message_with ms ds))"

section \<open>Secure mode\<close>

text \<open>\<open>INJECTION_BLOCK_THRESHOLD\<close> is the \<open>f32\<close> nearest to 0.99.\<close>

definition injection_block_threshold :: rat where
  "injection_block_threshold = 4152361 / 4194304"

definition secure_mode_rule_id :: uuid where
  "secure_mode_rule_id = uuid_nil"

definition record_secure_mode_event :: "string \<Rightarrow> string \<Rightarrow> policy_outcome \<Rightarrow> policy_outcome" where
  "record_secure_mode_event name act oc =
     oc\<lparr>oc_result := (oc_result oc)\<lparr>events := events (oc_result oc) @
       [\<lparr>ev_rule_id = secure_mode_rule_id, ev_rule_name = name, ev_action = act, ev_dry_run = False\<rparr>]\<rparr>\<rparr>"

definition set_action :: "string \<Rightarrow> policy_outcome \<Rightarrow> policy_outcome" where
  "set_action act oc = oc\<lparr>oc_result := (oc_result oc)\<lparr>final_action := act\<rparr>\<rparr>"

text \<open>The redaction both safety nets perform, on the outcome and the state.\<close>

definition net_redact :: "detection list \<Rightarrow> policy_outcome \<Rightarrow> pipeline_state \<Rightarrow> policy_outcome \<times> pipeline_state" where
  "net_redact ds oc st =
     (let (t, v, m) = apply_redaction (oc_content oc) ds (vault st) (redaction_map st);
          oc = oc\<lparr>oc_content := t\<rparr>
      in (if final_action (oc_result oc) = ''allow'' then set_action ''redact'' oc else oc,
          st\<lparr>vault := v, redaction_map := m\<rparr>))"

definition apply_fallback_redaction ::
  "bool \<Rightarrow> bool \<Rightarrow> policy_outcome \<Rightarrow> pipeline_state \<Rightarrow> policy_outcome \<times> pipeline_state" where
  "apply_fallback_redaction debug no_rules oc st =
     (if (debug \<or> (no_rules \<and> oc_unprotected oc)) \<and> redaction_map st = [] \<and> detections st \<noteq> []
      then net_redact (detections st) oc st else (oc, st))"

definition apply_secure_mode_override ::
  "(rat \<Rightarrow> string) \<Rightarrow> secure_mode_row \<Rightarrow> detection list \<Rightarrow> injection_outcome \<Rightarrow> policy_outcome
     \<Rightarrow> pipeline_state \<Rightarrow> policy_outcome \<times> pipeline_state" where
  "apply_secure_mode_override score_str cfg ds ij oc st =
     (let any_detection = (ds \<noteq> []);
          injection_blocking = (is_injection ij \<and> inj_score ij \<ge> injection_block_threshold);
          deny = (\<lambda>why oc. record_secure_mode_event why ''deny'' (set_action ''deny'' (oc\<lparr>oc_denied := True\<rparr>)))
      in if sm_level cfg = ''permissive'' then
           (if oc_denied oc
            then let act = (if any_detection then ''redact'' else ''allow'')
                 in (record_secure_mode_event ''Secure mode (permissive): downgraded policy deny'' act
                       (set_action act (oc\<lparr>oc_denied := False\<rparr>)), st)
            else (oc, st))
         else if sm_level cfg = ''strict'' then
           (if any_detection \<or> injection_blocking
            then (deny (if injection_blocking
                        then ''Secure mode (strict): blocked on prompt injection (score '' @ score_str (inj_score ij) @ '')''
                        else ''Secure mode (strict): blocked on PII/secret detection'') oc, st)
            else (oc, st))
         else
           (let (oc, st) = (if ds \<noteq> [] \<and> redaction_map st = [] then net_redact ds oc st else (oc, st))
            in if sm_block_pii cfg \<and> any_detection
               then (deny ''Secure mode: block on PII detection'' oc, st)
               else if sm_block_injection cfg \<and> injection_blocking
               then (deny (''Secure mode: block on prompt injection (score '' @ score_str (inj_score ij) @ '')'') oc, st)
               else (oc, st)))"

section \<open>Preparation\<close>

record prepared =
  pp_request_id :: uuid
  pp_state :: pipeline_state
  pp_outcome :: policy_outcome
  pp_secure_mode :: secure_mode_row
  pp_input :: pipeline_input
  pp_degraded :: "coverage_loss option"
  pp_engines :: detection_engines
  pp_capture :: capture_decision

definition request_id_of :: "'m gateway_env \<Rightarrow> gateway_request \<Rightarrow> uuid" where
  "request_id_of env req = unwrap_or (new_request_id env) (gr_request_id req)"

definition stamp_event :: "auth_context \<Rightarrow> gateway_request \<Rightarrow> request_event \<Rightarrow> request_event" where
  "stamp_event auth req e = e\<lparr>re_user_id := au_user_id auth, re_api_key_id := Some (au_api_key_id auth),
     re_api_key_name := Some (au_api_key_name auth), re_ip_address := gr_client_ip req,
     re_user_agent := gr_user_agent req\<rparr>"

definition primary_provider_name :: "resolved_model \<Rightarrow> string" where
  "primary_provider_name rm = (case rm_targets rm of [] \<Rightarrow> ''unconfigured'' | t # _ \<Rightarrow> mt_provider_name t)"

text \<open>
  The event and the metrics of a request that ends before the provider is called, as both
  \<open>fail_closed_on_coverage_loss\<close> and the denial branch of \<open>prepare\<close> write them.
\<close>

definition refused_effects ::
  "'m gateway_env \<Rightarrow> auth_context \<Rightarrow> gateway_request \<Rightarrow> resolved_model \<Rightarrow> uuid \<Rightarrow> string \<Rightarrow> policy_event list
     \<Rightarrow> redacted_prompt \<Rightarrow> detection list \<Rightarrow> detection_engines \<Rightarrow> capture_decision \<Rightarrow> gw_effect list" where
  "refused_effects env auth req rm rid act evs prompt ds eng capture =
     (let u = token_usage_default;
          e0 = event_new rid (au_workspace_id auth) (primary_provider_name rm) (gr_public_model req) act u False
                 (compute_cost (pricing env) (gr_public_model req) u) evs;
          e1 = capture_content capture (kms_enc env) (last_user_message_raw (gr_messages req)) None None
                 (stamp_event auth req e0);
          e2 = record_detections ds (record_prompt prompt e1)
      in [EnqueueEvent (e2\<lparr>re_model_registered := is_registered rm, re_engines := eng\<rparr>),
          ObserveDuration ''unknown'', RecordRequest False])"

definition fail_closed_on_coverage_loss ::
  "'m gateway_env \<Rightarrow> auth_context \<Rightarrow> gateway_request \<Rightarrow> resolved_model \<Rightarrow> uuid \<Rightarrow> coverage_loss
     \<Rightarrow> redacted_prompt \<Rightarrow> detection list \<Rightarrow> detection_engines \<Rightarrow> capture_decision \<Rightarrow> gw_effect list \<times> api_error" where
  "fail_closed_on_coverage_loss env auth req rm rid reason prompt ds eng capture =
     (AlertSidecar reason (policy_str Block) #
        refused_effects env auth req rm rid ''block_sidecar_unavailable'' [] prompt ds eng capture,
      ServiceUnavailable (''PII detection coverage is unavailable for this request and the workspace is '' @
        ''configured to fail closed''))"

text \<open>
  The steps of \<open>prepare\<close> up to the policy evaluation: the cleaned prompt, the state, and the
  coverage gate. A blocked request is the \<open>Inl\<close> side.
\<close>

definition sidecar_policy_of :: "'m gateway_env \<Rightarrow> sidecar_policy" where
  "sidecar_policy_of env =
     (case sidecar_policy_read env (policy_from_db (sidecar_unavailable_default env)) of
        Inl _ \<Rightarrow> Block | Inr p \<Rightarrow> p)"

definition capture_of :: "'m gateway_env \<Rightarrow> capture_decision" where
  "capture_of env = (case capture_read env of Inl _ \<Rightarrow> capture_default | Inr c \<Rightarrow> c)"

definition injection_enforced :: "secure_mode_row \<Rightarrow> bool" where
  "injection_enforced cfg = (sm_level cfg = ''strict'' \<or> (sm_level cfg \<noteq> ''permissive'' \<and> sm_block_injection cfg))"

text \<open>
  The secure-mode block of \<open>prepare\<close>: the injection gate, then the override. \<open>Inl\<close> carries the
  effects and the error of a request blocked because the injection check had no coverage.
\<close>

definition secure_mode_step ::
  "'m gateway_env \<Rightarrow> auth_context \<Rightarrow> gateway_request \<Rightarrow> resolved_model \<Rightarrow> uuid \<Rightarrow> string \<Rightarrow> secure_mode_row
     \<Rightarrow> detection_engines \<Rightarrow> capture_decision \<Rightarrow> coverage_loss option \<Rightarrow> policy_outcome \<Rightarrow> pipeline_state
     \<Rightarrow> (gw_effect list \<times> api_error, gw_effect list \<times> coverage_loss option \<times> policy_outcome \<times> pipeline_state) result" where
  "secure_mode_step env auth req rm rid prompt cfg eng capture degraded oc st =
     (if \<not> sm_enabled cfg then Inr ([], degraded, oc, st)
      else
        let ij = injection_check env prompt;
            gate = (if injection_enforced cfg then sidecar_gate (inj_coverage ij) (sidecar_policy_of env) else Proceed);
            override = apply_secure_mode_override (show_score env) cfg (detections st) ij oc st
        in case gate of
             Proceed \<Rightarrow> Inr ([], degraded, override)
           | GateBlock reason \<Rightarrow>
               Inl (fail_closed_on_coverage_loss env auth req rm rid reason
                      (audit_prompt_with (gr_messages req) (detections st) degraded) (detections st) eng capture)
           | Degrade reason \<Rightarrow>
               Inr ([AlertSidecar reason (policy_str DegradeWithAlert)],
                    (case degraded of None \<Rightarrow> Some reason | Some r \<Rightarrow> Some r), override))"

definition secure_mode_unavailable :: api_error where
  "secure_mode_unavailable = ServiceUnavailable ''secure mode configuration unavailable; request refused''"

text \<open>The last part of \<open>prepare\<close>: the fallback net, the violation metric, the denial, the input.\<close>

definition finish_prepare ::
  "'m gateway_env \<Rightarrow> auth_context \<Rightarrow> gateway_request \<Rightarrow> resolved_model \<Rightarrow> uuid \<Rightarrow> secure_mode_row
     \<Rightarrow> detection_engines \<Rightarrow> capture_decision \<Rightarrow> coverage_loss option \<Rightarrow> policy_outcome \<Rightarrow> pipeline_state
     \<Rightarrow> gw_effect list \<times> prepared outcome" where
  "finish_prepare env auth req rm rid cfg eng capture degraded oc st =
     (let (oc, st) = apply_fallback_redaction (chat_debug_mode env) (redact_when_no_rules env) oc st;
          vio = (case policy_violation_label (final_action (oc_result oc)) of
                   None \<Rightarrow> [] | Some a \<Rightarrow> [PolicyViolation a])
      in if oc_denied oc
         then (vio @ refused_effects env auth req rm rid (final_action (oc_result oc)) (events (oc_result oc))
                 (audit_prompt env 1 (gr_messages req) degraded) (detections st) eng capture,
               Inl (Failed (Forbidden ''request denied by policy'')))
         else (vio, case rm_targets rm of
             [] \<Rightarrow> Inl Panicked
           | t # _ \<Rightarrow> Inr \<lparr>pp_request_id = rid, pp_state = st, pp_outcome = oc, pp_secure_mode = cfg,
               pp_input = \<lparr>pi_request_id = rid, pi_workspace_id = au_workspace_id auth,
                 pi_provider_id = mt_provider_id t,
                 pi_messages = [\<lparr>role = ''user'', msg_content = oc_content oc\<rparr>],
                 pi_stream = gr_stream req, pi_model = gr_public_model req,
                 pi_extra_params = gr_extra_params req\<rparr>,
               pp_degraded = degraded, pp_engines = eng, pp_capture = capture\<rparr>))"

definition policy_input_of ::
  "'m gateway_env \<Rightarrow> gateway_request \<Rightarrow> resolved_model \<Rightarrow> string \<Rightarrow> detection list \<Rightarrow> policy_input" where
  "policy_input_of env req rm prompt ds =
     \<lparr>pe_provider_name = primary_provider_name rm, pe_model = gr_public_model req, pe_content = prompt,
      pe_detections = ds, fail_closed = redact_when_no_rules env\<rparr>"

text \<open>
  \<open>prepare\<close>. The RAG check and the log lines change nothing and are left out.
\<close>

definition prepare ::
  "'m gateway_env \<Rightarrow> auth_context \<Rightarrow> resolved_model \<Rightarrow> gateway_request \<Rightarrow> gw_effect list \<times> prepared outcome" where
  "prepare env auth rm req =
     (let rid = request_id_of env req; capture = capture_of env;
          (prompt, v0) = preload_file_vault env (prompt_from_messages (gr_messages req)) vault_empty;
          ml = ml_detect env 0 prompt;
          eng = engines_from_coverage (ml_coverage ml);
          merged = merge_detections env (detect_content env prompt) (ml_detections ml)
      in case sidecar_gate (ml_coverage ml) (sidecar_policy_of env) of
           GateBlock reason \<Rightarrow>
             (let (effs, err) = fail_closed_on_coverage_loss env auth req rm rid reason CoverageLost merged eng capture
              in (effs, Inl (Failed err)))
         | gate \<Rightarrow>
             (let (effs0, degraded) = (case gate of
                      Degrade reason \<Rightarrow> ([AlertSidecar reason (policy_str DegradeWithAlert)], Some reason)
                    | _ \<Rightarrow> ([], None))
              in case evaluate (regex_new env) (enabled_rules env) (policy_input_of env req rm prompt merged) v0 [] of
                   Inl f \<Rightarrow> (effs0, Inl f)
                 | Inr (oc, v, m) \<Rightarrow>
                     (let st = pipeline_state_default\<lparr>vault := v, redaction_map := m, detections := merged\<rparr>
                      in case secure_mode_read env of
                           Inl _ \<Rightarrow> (effs0, Inl (Failed secure_mode_unavailable))
                         | Inr cfg \<Rightarrow>
                             (case secure_mode_step env auth req rm rid prompt cfg eng capture degraded oc st of
                                Inl (effs, err) \<Rightarrow> (effs0 @ effs, Inl (Failed err))
                              | Inr (effs, degraded, oc, st) \<Rightarrow>
                                  (let (effs', r) = finish_prepare env auth req rm rid cfg eng capture degraded oc st
                                   in (effs0 @ effs @ effs', r))))))"

section \<open>The provider chain\<close>

definition decrypt_credential :: "'m gateway_env \<Rightarrow> string \<Rightarrow> (string, string) result" where
  "decrypt_credential env stored =
     rbind (map_err (\<lambda>e. ''base64 decode: '' @ e) (b64_decode env stored)) (\<lambda>raw.
     rbind (map_err (\<lambda>e. ''kms decrypt: '' @ e) (kms_dec env raw)) (\<lambda>bytes.
       if valid_utf8 bytes then Inr bytes else Inl (''not valid UTF-8: '' @ utf8_err env bytes)))"

text \<open>\<open>sanitize_extra_params\<close> as the release build compiles it.\<close>

fun sanitize_extra_params :: "json \<Rightarrow> json" where
  "sanitize_extra_params (JObj kvs) =
     JObj (filter (\<lambda>(k, _). k \<noteq> ''omit_usage'' \<and> k \<noteq> ''force_provider_failure'') kvs)"
| "sanitize_extra_params v = v"

definition invocation_template :: "pipeline_input \<Rightarrow> request_kind \<Rightarrow> bool \<Rightarrow> provider_invocation" where
  "invocation_template inp kind streaming =
     \<lparr>iv_request_id = pi_request_id inp, iv_model = pi_model inp,
      iv_prompt = prompt_from_messages (pi_messages inp), iv_messages = pi_messages inp,
      iv_extra_params = sanitize_extra_params (pi_extra_params inp), iv_stream = streaming,
      iv_kind = kind, iv_credential = None\<rparr>"

text \<open>The credential of a target; \<open>None\<close> when it is stored but cannot be decrypted.\<close>

definition credential_of :: "'m gateway_env \<Rightarrow> model_target \<Rightarrow> string option option" where
  "credential_of env t = (case mt_encrypted_credential t of
       None \<Rightarrow> Some None
     | Some stored \<Rightarrow> (case decrypt_credential env stored of Inl _ \<Rightarrow> None | Inr plain \<Rightarrow> Some (Some plain)))"

text \<open>
  The loop over the targets, for the call \<open>call\<close> of the adapter: unknown adapters and
  undecryptable credentials are skipped, a retryable failure goes on with the next target, any
  other ends the chain.
\<close>

fun provider_chain ::
  "'m gateway_env \<Rightarrow> (model_target \<Rightarrow> provider_invocation \<Rightarrow> (provider_failure, 'o) result)
     \<Rightarrow> provider_invocation \<Rightarrow> model_target list \<Rightarrow> string option
     \<Rightarrow> gw_effect list \<times> (api_error, model_target \<times> 'o) result" where
  "provider_chain env call tmpl [] last_err =
     ([], Inl (Internal (unwrap_or ''all providers failed'' last_err)))"
| "provider_chain env call tmpl (t # ts) last_err =
     (if \<not> adapter_known env (mt_provider_type t) then provider_chain env call tmpl ts last_err
      else case credential_of env t of
        None \<Rightarrow> provider_chain env call tmpl ts last_err
      | Some cred \<Rightarrow>
          (let iv = tmpl\<lparr>iv_credential := cred\<rparr> in
           case call t iv of
             Inr out \<Rightarrow> ([CallProvider t iv], Inr (t, out))
           | Inl err \<Rightarrow>
               if pf_retryable err
               then let (effs, r) = provider_chain env call tmpl ts (Some (pf_message err))
                    in (CallProvider t iv # effs, r)
               else ([CallProvider t iv], Inl (Internal (pf_message err)))))"

definition invoke_provider_chain ::
  "'m gateway_env \<Rightarrow> model_target list \<Rightarrow> gateway_request \<Rightarrow> pipeline_input
     \<Rightarrow> gw_effect list \<times> (api_error, model_target \<times> provider_output) result" where
  "invoke_provider_chain env targets req inp =
     provider_chain env (if gr_stream req then adapter_stream env else adapter_complete env)
       (invocation_template inp (gr_kind req) (pi_stream inp)) targets None"

definition open_provider_stream ::
  "'m gateway_env \<Rightarrow> model_target list \<Rightarrow> pipeline_input \<Rightarrow> request_kind
     \<Rightarrow> gw_effect list \<times> (api_error, model_target \<times> (provider_failure, provider_event) result list) result" where
  "open_provider_stream env targets inp kind =
     provider_chain env (adapter_events env) (invocation_template inp kind True) targets None"

text \<open>
  The default \<open>stream_events\<close> of the \<open>ProviderAdapter\<close> trait, which adapters without a native
  token stream inherit: the buffered output as a list of events.
\<close>

definition default_stream_events ::
  "(model_target \<Rightarrow> provider_invocation \<Rightarrow> (provider_failure, provider_output) result)
     \<Rightarrow> model_target \<Rightarrow> provider_invocation \<Rightarrow> (provider_failure, (provider_failure, provider_event) result list) result" where
  "default_stream_events stream t iv =
     rbind (stream t iv) (\<lambda>out.
       let toks = (if out_stream_chunks out = []
                   then (if out_content out \<noteq> [] then [Inr (Token (out_content out))] else [])
                   else map (\<lambda>c. Inr (Token c)) (out_stream_chunks out))
       in Inr (toks @ [Inr (StreamDone (out_usage out) (out_finish_reason out) (Some (out_model out)) (out_ttft_ms out))]))"

section \<open>Execution\<close>

definition min_ner_len :: nat where
  "min_ner_len = 3"

text \<open>The \<open>f32\<close> nearest to 0.85.\<close>

definition min_ner_confidence :: rat where
  "min_ner_confidence = 7130317 / 8388608"

definition pronoun_blocklist :: "string list" where
  "pronoun_blocklist = [''i'', ''me'', ''my'', ''you'', ''your'', ''we'', ''us'', ''he'', ''she'', ''him'',
     ''her'', ''his'', ''hers'', ''it'', ''its'', ''they'', ''them'', ''their'']"

definition keep_response_detection :: "string set \<Rightarrow> detection \<Rightarrow> bool" where
  "keep_response_detection client_originals d =
     (if det_value d \<in> client_originals \<or> trim (det_value d) \<in> client_originals then False
      else if to_uppercase (det_class d) \<notin> {''PERSON'', ''ORGANIZATION'', ''LOCATION'', ''ADDRESS'', ''GPE''} then True
      else let trimmed = trim (det_value d) in
        \<not> (char_count trimmed < min_ner_len) \<and> \<not> (confidence d < min_ner_confidence) \<and>
        to_lowercase trimmed \<notin> set pronoun_blocklist)"

definition filter_response_side_detections :: "detection list \<Rightarrow> string set \<Rightarrow> detection list" where
  "filter_response_side_detections ds client_originals = filter (keep_response_detection client_originals) ds"

text \<open>
  Response-side redaction of one text: \<open>scrub_segment!\<close> and the block of \<open>execute\<close>. The effects
  are the alert of lost coverage; the state holds the vault and the map.
\<close>

definition scrub_text ::
  "'m gateway_env \<Rightarrow> nat \<Rightarrow> string set \<Rightarrow> string \<Rightarrow> token_vault \<Rightarrow> (string, string) hashmap \<Rightarrow> coverage_loss option
     \<Rightarrow> gw_effect list \<times> string \<times> token_vault \<times> (string, string) hashmap \<times> coverage_loss option" where
  "scrub_text env k client_originals t v m degraded =
     (let ml = ml_detect env k t;
          (effs, degraded) = (case from_coverage (ml_coverage ml) of
              None \<Rightarrow> ([], degraded)
            | Some reason \<Rightarrow> ([AlertSidecar reason ''degrade_response_side''],
                 (case degraded of None \<Rightarrow> Some reason | Some r \<Rightarrow> Some r)));
          merged = merge_detections env (detect_content env t) (ml_detections ml);
          ds = filter_response_side_detections merged client_originals
      in if ds = [] then (effs, t, v, m, degraded)
         else let (t', v', m') = apply_redaction t ds v m in (effs, t', v', m', degraded))"

definition debug_map_section :: "(string, string) hashmap \<Rightarrow> string" where
  "debug_map_section m =
     (if m = [] then ''_No PII detected '' @ [CHR 0xE2, CHR 0x80, CHR 0x94] @ '' prompt sent as-is._''
      else let body = join_with [CHR 0x0A] (map (\<lambda>(k, v). k @ ''  '' @ [CHR 0xE2, CHR 0x86, CHR 0x90] @ ''  \"'' @ v @ ''\"'')
                        (sort_key fst m))
           in ''```'' @ [CHR 0x0A] @ body @ [CHR 0x0A] @ ''```'')"

definition render_debug_payload ::
  "(json \<Rightarrow> string) \<Rightarrow> model_target \<Rightarrow> gateway_request \<Rightarrow> string \<Rightarrow> (string, string) hashmap \<Rightarrow> string" where
  "render_debug_payload pretty t req redacted_prompt m =
     (let nl = [CHR 0x0A]; nl2 = nl @ nl;
          body = JObj [(''extra_params'', gr_extra_params req),
             (''messages'', JArr [JObj [(''content'', JStr redacted_prompt), (''role'', JStr ''user'')]]),
             (''model'', JStr (mt_model_name t)), (''stream'', JBool (gr_stream req))]
      in ''**SecurePrompt '' @ [CHR 0xE2, CHR 0x80, CHR 0x94] @ '' Debug Mode (request not sent to cloud)**'' @ nl2 @
         ''**Tokenized prompt that would be sent to provider '' @ mt_provider_name t @ '' (model: '' @ mt_model_name t @
         ''):**'' @ nl2 @ ''```'' @ nl @ redacted_prompt @ nl @ ''```'' @ nl2 @
         ''**Redacted PII:**'' @ nl2 @ debug_map_section m @ nl2 @
         ''**Provider invocation body:**'' @ nl2 @ ''```json'' @ nl @ pretty body @ nl @ ''```'' @ nl2 @
         ''_Disable: unset SECUREPROMPT_CHAT_DEBUG_MODE (or set to false) to enable real cloud dispatch._'')"

record pipeline_execution =
  px_request_id :: uuid
  px_provider_name :: string
  px_model :: string
  px_content :: "string option"
  px_embedding :: "rat list option"
  px_usage :: token_usage
  px_estimated_usage :: bool
  px_stream_chunks :: "string list"
  px_finish_reason :: "string option"
  px_output :: pipeline_output
  px_degraded :: "coverage_loss option"
  px_engines :: detection_engines

text \<open>The target and the output of the request: the debug payload, or the provider chain.\<close>

definition obtain_output ::
  "'m gateway_env \<Rightarrow> resolved_model \<Rightarrow> gateway_request \<Rightarrow> prepared
     \<Rightarrow> gw_effect list \<times> (api_error, model_target \<times> provider_output) result" where
  "obtain_output env rm req p =
     (if chat_debug_mode env
      then (case rm_targets rm of
              [] \<Rightarrow> ([], Inl (Internal ''debug mode: no resolved target available''))
            | t # _ \<Rightarrow> ([], Inr (t, \<lparr>out_content = render_debug_payload (json_pretty env) t req
                  (oc_content (pp_outcome p)) (redaction_map (pp_state p)),
                out_model = mt_model_name t, out_usage = None, out_embedding = None, out_stream_chunks = [],
                out_finish_reason = Some ''debug_stop'', out_ttft_ms = None\<rparr>)))
      else invoke_provider_chain env (rm_targets rm) req (pp_input p))"

text \<open>What the client gets of the output, with the vault, the map and the degradation after it.\<close>

definition client_view ::
  "'m gateway_env \<Rightarrow> prepared \<Rightarrow> provider_output
     \<Rightarrow> gw_effect list \<times> string option \<times> string option \<times> token_vault \<times> (string, string) hashmap \<times> coverage_loss option" where
  "client_view env p out =
     (let v = vault (pp_state p); m = redaction_map (pp_state p); cfg = pp_secure_mode p;
          restored = (if chat_debug_mode env then Some (out_content out)
                      else if out_embedding out \<noteq> None \<and> out_content out = [] then None
                      else Some (restore_content (out_content out) v))
      in if sm_enabled cfg \<and> sm_redact_responses cfg \<and> \<not> chat_debug_mode env
         then (case restored of
                 None \<Rightarrow> ([], restored, None, v, m, pp_degraded p)
               | Some t \<Rightarrow> (let (effs, t', v', m', degraded) = scrub_text env 1 (original_values v) t v m (pp_degraded p)
                            in (effs, restored, Some t', v', m', degraded)))
         else ([], restored, restored, v, m, pp_degraded p))"

definition execute ::
  "'m gateway_env \<Rightarrow> auth_context \<Rightarrow> resolved_model \<Rightarrow> gateway_request \<Rightarrow> gw_effect list \<times> pipeline_execution outcome" where
  "execute env auth rm req =
     (case prepare env auth rm req of
        (effs0, Inl f) \<Rightarrow> (effs0, Inl f)
      | (effs0, Inr p) \<Rightarrow>
          (case obtain_output env rm req p of
             (effs1, Inl e) \<Rightarrow> (effs0 @ effs1, Inl (Failed e))
           | (effs1, Inr (t, out)) \<Rightarrow>
               (let (effs2, restored, client, v, m, degraded) = client_view env p out;
                    oc = pp_outcome p;
                    uc = derive_usage (mt_provider_type t) (out_usage out) (oc_content oc) (unwrap_or [] client);
                    cost = compute_cost (pricing env) (gr_public_model req) (uc_usage uc);
                    raw_chunks = (if out_stream_chunks out = [] then (case client of None \<Rightarrow> [] | Some c \<Rightarrow> [c])
                                  else out_stream_chunks out);
                    chunks = (if \<not> gr_stream req then []
                              else if chat_debug_mode env then raw_chunks
                              else placeholder_safe_chunks raw_chunks v);
                    resp = \<lparr>pr_content = unwrap_or [] client, pr_model = mt_model_name t,
                            pr_finish_reason = out_finish_reason out, pr_embedding = out_embedding out\<rparr>;
                    e0 = stamp_event auth req (event_new (pp_request_id p) (au_workspace_id auth) (mt_provider_name t)
                           (gr_public_model req) (final_action (oc_result oc)) (uc_usage uc) (uc_estimated uc) cost
                           (events (oc_result oc)));
                    e1 = record_prompt (audit_prompt env 2 (gr_messages req) degraded)
                           (e0\<lparr>re_latency_ms := Some (latency_ms env mod 2 ^ 32), re_ttft_ms := out_ttft_ms out\<rparr>);
                    e2 = capture_content (pp_capture p) (kms_enc env) (last_user_message_raw (gr_messages req))
                           (if out_content out = [] then None else Some (out_content out)) restored e1;
                    e3 = record_response (if degraded \<noteq> None then CoverageLost else Redacted (out_content out)) e2;
                    e4 = record_detections (detections (pp_state p))
                           (e3\<lparr>re_floor_only := (degraded \<noteq> None), re_engines := pp_engines p\<rparr>)
                in (effs0 @ effs1 @ effs2 @
                      [EnqueueEvent (e4\<lparr>re_model_registered := is_registered rm\<rparr>),
                       ObserveDuration (model_label t), RecordRequest True],
                    Inr \<lparr>px_request_id = pp_request_id p, px_provider_name = mt_provider_name t,
                      px_model = mt_model_name t, px_content = client, px_embedding = out_embedding out,
                      px_usage = uc_usage uc, px_estimated_usage = uc_estimated uc, px_stream_chunks = chunks,
                      px_finish_reason = out_finish_reason out,
                      px_output = \<lparr>po_response = resp, po_usage = uc_usage uc, po_redaction_map = m,
                        po_policy_result = oc_result oc\<rparr>,
                      px_degraded = degraded, px_engines = pp_engines p\<rparr>))))"

end
