(* ===== verification/Pipeline_Props.thy ===== *)
theory Pipeline_Props
  imports Pipeline
begin

text \<open>
  Properties of the request path of theory \<open>Pipeline\<close>: what is forwarded to a provider, when a
  request is refused, what is recorded, and the round trip of a request through redaction, a
  provider and restoration.
\<close>

section \<open>What is forwarded\<close>

text \<open>The content, the vault and the map, which the safety nets change together.\<close>

definition redaction_triple ::
  "policy_outcome \<Rightarrow> pipeline_state \<Rightarrow> string \<times> token_vault \<times> (string, string) hashmap" where
  "redaction_triple oc st = (oc_content oc, vault st, redaction_map st)"

lemma set_action_frame [simp]:
  "oc_content (set_action a oc) = oc_content oc" "oc_denied (set_action a oc) = oc_denied oc"
  "oc_unprotected (set_action a oc) = oc_unprotected oc"
  "final_action (oc_result (set_action a oc)) = a"
  by (simp_all add: set_action_def)

lemma record_event_frame [simp]:
  "oc_content (record_secure_mode_event n a oc) = oc_content oc"
  "oc_denied (record_secure_mode_event n a oc) = oc_denied oc"
  "oc_unprotected (record_secure_mode_event n a oc) = oc_unprotected oc"
  "final_action (oc_result (record_secure_mode_event n a oc)) = final_action (oc_result oc)"
  by (simp_all add: record_secure_mode_event_def)

lemma net_redact_spec:
  assumes "net_redact ds oc st = (oc', st')"
  shows "redaction_triple oc' st' = apply_redaction (oc_content oc) ds (vault st) (redaction_map st)"
    "oc_denied oc' = oc_denied oc" "oc_unprotected oc' = oc_unprotected oc" "detections st' = detections st"
  using assms by (auto simp: net_redact_def redaction_triple_def Let_def split: prod.splits if_splits)

text \<open>
  The states a request passes through when no rule, or a redacting rule, decided: nothing done
  yet, or everything redacted. A net that fires keeps or reaches the second.
\<close>

definition on_track :: "string \<Rightarrow> detection list \<Rightarrow> token_vault \<Rightarrow> policy_outcome \<Rightarrow> pipeline_state \<Rightarrow> bool" where
  "on_track prompt ds v0 oc st = (detections st = ds \<and>
     (redaction_triple oc st = apply_redaction prompt ds v0 [] \<or>
      (redaction_triple oc st = (prompt, v0, []) \<and> oc_unprotected oc)))"

lemma on_track_net:
  assumes "on_track prompt ds v0 oc st" "redaction_map st = []" "net_redact ds oc st = (oc', st')"
  shows "on_track prompt ds v0 oc' st'" "redaction_triple oc' st' = apply_redaction prompt ds v0 []"
proof -
  note net = net_redact_spec [OF assms(3)]
  have raw: "oc_content oc = prompt \<and> vault st = v0"
  proof (cases "redaction_triple oc st = apply_redaction prompt ds v0 []")
    case True
    then have "apply_redaction prompt ds v0 [] = (oc_content oc, vault st, [])"
      using assms(2) by (simp add: redaction_triple_def)
    from apply_redaction_idle [OF this] show ?thesis by simp
  next
    case False
    then show ?thesis using assms(1) by (simp add: on_track_def redaction_triple_def)
  qed
  show "redaction_triple oc' st' = apply_redaction prompt ds v0 []" using net(1) raw assms(2) by simp
  then show "on_track prompt ds v0 oc' st'" using assms(1) net(4) by (simp add: on_track_def)
qed

lemma override_on_track:
  assumes "on_track prompt ds v0 oc st" "apply_secure_mode_override f cfg ds ij oc st = (oc', st')"
    and "\<not> oc_denied oc" "\<not> oc_denied oc'"
  shows "on_track prompt ds v0 oc' st'"
proof -
  consider "(oc', st') = (oc, st)" | "ds \<noteq> []" "redaction_map st = []" "net_redact ds oc st = (oc', st')"
    using assms(2-4)
    by (auto simp: apply_secure_mode_override_def Let_def split: if_splits prod.splits)
  then show ?thesis using assms(1) on_track_net(1) by cases auto
qed

lemma fallback_redacts:
  assumes "on_track prompt ds v0 oc st" "apply_fallback_redaction dbg True oc st = (oc', st')"
  shows "redaction_triple oc' st' = apply_redaction prompt ds v0 []"
proof (cases "(dbg \<or> oc_unprotected oc) \<and> redaction_map st = [] \<and> ds \<noteq> []")
  case True
  then show ?thesis
    using assms on_track_net(2) [OF assms(1)] by (auto simp: apply_fallback_redaction_def on_track_def)
next
  case False
  then show ?thesis
    using assms by (auto simp: apply_fallback_redaction_def on_track_def redaction_triple_def split: if_splits)
qed

text \<open>The prompt detection runs over, the vault it starts with, and what detection found.\<close>

definition scanned_prompt :: "'m gateway_env \<Rightarrow> gateway_request \<Rightarrow> string \<times> token_vault" where
  "scanned_prompt env req = preload_file_vault env (prompt_from_messages (gr_messages req)) vault_empty"

definition scanned_detections :: "'m gateway_env \<Rightarrow> string \<Rightarrow> detection list" where
  "scanned_detections env prompt =
     merge_detections env (detect_content env prompt) (ml_detections (ml_detect env 0 prompt))"

lemma prepare_Inr:
  assumes "prepare env auth rm req = (effs, Inr p)" "scanned_prompt env req = (prompt, v0)"
    and "ds = scanned_detections env prompt"
  obtains oc v m cfg effs1 degr0 degr oc2 st2 effs2 eng cap where
    "evaluate (regex_new env) (enabled_rules env) (policy_input_of env req rm prompt ds) v0 [] = Inr (oc, v, m)"
    "secure_mode_read env = Inr cfg"
    "secure_mode_step env auth req rm (request_id_of env req) prompt cfg eng cap degr0 oc
       (pipeline_state_default\<lparr>vault := v, redaction_map := m, detections := ds\<rparr>) = Inr (effs1, degr, oc2, st2)"
    "finish_prepare env auth req rm (request_id_of env req) cfg eng cap degr oc2 st2 = (effs2, Inr p)"
  using assms
  by (auto simp: prepare_def scanned_prompt_def scanned_detections_def Let_def
      split: sidecar_gate_result.splits sum.splits prod.splits)

lemma secure_mode_step_Inr:
  assumes "secure_mode_step env auth req rm rid prompt cfg eng cap degr0 oc st = Inr (effs, degr, oc', st')"
  shows "if sm_enabled cfg then apply_secure_mode_override (show_score env) cfg (detections st) (injection_check env prompt) oc st = (oc', st')
    else oc' = oc \<and> st' = st"
  using assms by (auto simp: secure_mode_step_def Let_def split: if_splits sidecar_gate_result.splits)

lemma finish_prepare_Inr:
  assumes "finish_prepare env auth req rm rid cfg eng cap degr oc st = (effs, Inr p)"
  shows "apply_fallback_redaction (chat_debug_mode env) (redact_when_no_rules env) oc st = (pp_outcome p, pp_state p)"
    "\<not> oc_denied (pp_outcome p)" "pp_secure_mode p = cfg" "pp_request_id p = rid"
    "pi_messages (pp_input p) = [\<lparr>role = ''user'', msg_content = oc_content (pp_outcome p)\<rparr>]"
    "pi_stream (pp_input p) = gr_stream req" "rm_targets rm \<noteq> []"
  using assms by (auto simp: finish_prepare_def Let_def split: if_splits prod.splits list.splits)

lemma fallback_denied:
  "apply_fallback_redaction dbg nr oc st = (oc', st') \<Longrightarrow> oc_denied oc' = oc_denied oc"
  using net_redact_spec(2) by (auto simp: apply_fallback_redaction_def split: if_splits)

text \<open>The rule that decides a request, if any.\<close>

definition deciding_rule :: "'m gateway_env \<Rightarrow> gateway_request \<Rightarrow> resolved_model \<Rightarrow> string \<Rightarrow> detection list \<Rightarrow> policy_rule list \<Rightarrow> policy_rule option" where
  "deciding_rule env req rm prompt ds rs = List.find (decides (regex_new env) (policy_input_of env req rm prompt ds)) rs"

lemma dropWhile_find: "dropWhile (\<lambda>x. \<not> P x) xs = [] \<longleftrightarrow> List.find P xs = None"
  "dropWhile (\<lambda>x. \<not> P x) xs = r # rest \<Longrightarrow> List.find P xs = Some r"
  by (induction xs) (auto split: if_splits)

lemma evaluate_decided:
  assumes "evaluate rx (Inr rs) inp v0 [] = Inr (oc, v, m)"
  shows "case List.find (decides rx inp) rs of
      None \<Rightarrow> oc_content oc = pe_content inp \<and> v = v0 \<and> m = [] \<and> oc_unprotected oc \<and> \<not> oc_denied oc
    | Some r \<Rightarrow> decided_content inp r v0 [] = Inr (oc_content oc, v, m) \<and> \<not> oc_unprotected oc \<and>
        oc_denied oc = (rule_action r = ''deny'') \<and> final_action (oc_result oc) = rule_action r"
proof -
  obtain rest where rest: "dropWhile (\<lambda>r. \<not> decides rx inp r) rs = rest" by blast
  have eval: "policy_spec rx rs inp v0 [] = Inr (oc, v, m)" using assms by (simp add: evaluate_policy_spec)
  show ?thesis
  proof (cases rest)
    case Nil
    then have "List.find (decides rx inp) rs = None" using rest dropWhile_find(1) by metis
    then show ?thesis using eval unfolding policy_spec_def rest Nil Let_def by auto
  next
    case (Cons r rest')
    then have "List.find (decides rx inp) rs = Some r" using rest dropWhile_find(2) by metis
    then show ?thesis using eval unfolding policy_spec_def rest Cons Let_def by (auto simp: rbind_Inr)
  qed
qed

lemma evaluate_on_track:
  assumes "evaluate (regex_new env) (Inr rs) (policy_input_of env req rm prompt ds) v0 [] = Inr (oc, v, m)"
    and "\<forall>r. deciding_rule env req rm prompt ds rs = Some r \<longrightarrow> rule_action r = ''redact''"
    and "redact_when_no_rules env"
  shows "on_track prompt ds v0 oc (pipeline_state_default\<lparr>vault := v, redaction_map := m, detections := ds\<rparr>)"
    "\<not> oc_denied oc"
  using evaluate_decided [OF assms(1)] assms(2,3)
  by (auto simp: deciding_rule_def on_track_def redaction_triple_def decided_content_def policy_input_of_def
      split: option.splits)

lemma override_keeps_denied:
  "apply_secure_mode_override f cfg ds ij oc st = (oc', st') \<Longrightarrow> sm_level cfg \<noteq> ''permissive'' \<Longrightarrow> oc_denied oc \<Longrightarrow> oc_denied oc'"
  using net_redact_spec(2) by (auto simp: apply_secure_mode_override_def Let_def split: if_splits prod.splits)

lemma prepared_redacted:
  assumes "prepare env auth rm req = (effs, Inr p)" "scanned_prompt env req = (prompt, v0)"
    and "enabled_rules env = Inr rs" "redact_when_no_rules env"
    and "\<forall>r. deciding_rule env req rm prompt (scanned_detections env prompt) rs = Some r \<longrightarrow> rule_action r = ''redact''"
  shows "redaction_triple (pp_outcome p) (pp_state p) = apply_redaction prompt (scanned_detections env prompt) v0 []"
proof -
  let ?ds = "scanned_detections env prompt"
  obtain oc v m cfg effs1 degr0 degr oc2 st2 effs2 eng cap where
    ev: "evaluate (regex_new env) (enabled_rules env) (policy_input_of env req rm prompt ?ds) v0 [] = Inr (oc, v, m)"
    and sm: "secure_mode_step env auth req rm (request_id_of env req) prompt cfg eng cap degr0 oc
       (pipeline_state_default\<lparr>vault := v, redaction_map := m, detections := ?ds\<rparr>) = Inr (effs1, degr, oc2, st2)"
    and fin: "finish_prepare env auth req rm (request_id_of env req) cfg eng cap degr oc2 st2 = (effs2, Inr p)"
    using prepare_Inr [OF assms(1,2) refl] by metis
  let ?st = "pipeline_state_default\<lparr>vault := v, redaction_map := m, detections := ?ds\<rparr>"
  note f = finish_prepare_Inr [OF fin]
  have t0: "on_track prompt ?ds v0 oc ?st" "\<not> oc_denied oc"
    using evaluate_on_track [OF ev [unfolded assms(3)] assms(5,4)] by auto
  have nd: "\<not> oc_denied oc2" using f(2) fallback_denied [OF f(1)] by simp
  have t1: "on_track prompt ?ds v0 oc2 st2"
  proof (cases "sm_enabled cfg")
    case True
    then have "apply_secure_mode_override (show_score env) cfg ?ds (injection_check env prompt) oc ?st = (oc2, st2)"
      using secure_mode_step_Inr [OF sm] by simp
    then show ?thesis using override_on_track [OF t0(1) _ t0(2) nd] by simp
  next
    case False
    then show ?thesis using secure_mode_step_Inr [OF sm] t0(1) by simp
  qed
  show ?thesis using fallback_redacts [OF t1] f(1) assms(4) by metis
qed

section \<open>What the provider is called with\<close>

definition calls_provider :: "gw_effect \<Rightarrow> bool" where
  "calls_provider e = (case e of CallProvider _ _ \<Rightarrow> True | _ \<Rightarrow> False)"

definition is_event :: "gw_effect \<Rightarrow> bool" where
  "is_event e = (case e of EnqueueEvent _ \<Rightarrow> True | _ \<Rightarrow> False)"

lemmas effect_kinds = calls_provider_def is_event_def

lemma refused_effects_kinds:
  "filter calls_provider (refused_effects env auth req rm rid act evs prompt ds eng cap) = []"
  "length (filter is_event (refused_effects env auth req rm rid act evs prompt ds eng cap)) = 1"
  by (simp_all add: refused_effects_def Let_def effect_kinds)

lemma fail_closed_kinds:
  assumes "fail_closed_on_coverage_loss env auth req rm rid reason prompt ds eng cap = (effs, err)"
  shows "filter calls_provider effs = [] \<and> length (filter is_event effs) = 1"
  using assms refused_effects_kinds
  by (auto simp: fail_closed_on_coverage_loss_def effect_kinds)

lemma secure_mode_step_kinds:
  "secure_mode_step env auth req rm rid prompt cfg eng cap degr0 oc st = Inr (effs, x) \<Longrightarrow>
     filter calls_provider effs = [] \<and> filter is_event effs = []"
  "secure_mode_step env auth req rm rid prompt cfg eng cap degr0 oc st = Inl (effs, err) \<Longrightarrow>
     filter calls_provider effs = [] \<and> length (filter is_event effs) = 1"
  using fail_closed_kinds
  by (fastforce simp: secure_mode_step_def Let_def effect_kinds split: if_splits sidecar_gate_result.splits)+

lemma finish_prepare_kinds:
  assumes "finish_prepare env auth req rm rid cfg eng cap degr oc st = (effs, r)"
  shows "filter calls_provider effs = [] \<and> ((\<exists>p. r = Inr p) \<longrightarrow> filter is_event effs = [])"
  using assms refused_effects_kinds
  by (auto simp: finish_prepare_def Let_def effect_kinds split: if_splits prod.splits option.splits list.splits)

lemma prepare_kinds:
  assumes "prepare env auth rm req = (effs, r)"
  shows "filter calls_provider effs = [] \<and> ((\<exists>p. r = Inr p) \<longrightarrow> filter is_event effs = [])"
proof -
  have alert: "\<not> calls_provider (AlertSidecar x a)" "\<not> is_event (AlertSidecar x a)" for x a
    by (simp_all add: effect_kinds)
  show ?thesis
    using assms alert
    by (auto simp: prepare_def Let_def split: sidecar_gate_result.splits sum.splits prod.splits
        dest!: secure_mode_step_kinds finish_prepare_kinds fail_closed_kinds)
qed

text \<open>A target is passed over when it has no adapter, no readable credential, or fails retryably.\<close>

definition passed_over ::
  "'m gateway_env \<Rightarrow> (model_target \<Rightarrow> provider_invocation \<Rightarrow> (provider_failure, 'o) result)
     \<Rightarrow> provider_invocation \<Rightarrow> model_target \<Rightarrow> bool" where
  "passed_over env call tmpl t = (\<not> adapter_known env (mt_provider_type t) \<or>
     (case credential_of env t of
        None \<Rightarrow> True
      | Some cred \<Rightarrow> (case call t (tmpl\<lparr>iv_credential := cred\<rparr>) of Inl e \<Rightarrow> pf_retryable e | Inr _ \<Rightarrow> False)))"

lemma provider_chain_Cons:
  "provider_chain env call tmpl (t # ts) le =
     (if \<not> adapter_known env (mt_provider_type t) then provider_chain env call tmpl ts le
      else case credential_of env t of
        None \<Rightarrow> provider_chain env call tmpl ts le
      | Some cred \<Rightarrow>
          (case call t (tmpl\<lparr>iv_credential := cred\<rparr>) of
             Inr out \<Rightarrow> ([CallProvider t (tmpl\<lparr>iv_credential := cred\<rparr>)], Inr (t, out))
           | Inl err \<Rightarrow>
               if pf_retryable err
               then (CallProvider t (tmpl\<lparr>iv_credential := cred\<rparr>) # fst (provider_chain env call tmpl ts (Some (pf_message err))),
                     snd (provider_chain env call tmpl ts (Some (pf_message err))))
               else ([CallProvider t (tmpl\<lparr>iv_credential := cred\<rparr>)], Inl (Internal (pf_message err)))))"
  by (auto simp: Let_def split: option.split sum.split prod.split)

declare provider_chain.simps(2) [simp del]

text \<open>The calls a chain makes: to its own targets, with the template's messages.\<close>

lemma provider_chain_calls:
  "CallProvider t iv \<in> set (fst (provider_chain env call tmpl ts le)) \<Longrightarrow>
     t \<in> set ts \<and> (\<exists>cred. iv = tmpl\<lparr>iv_credential := cred\<rparr>)"
  by (induction ts arbitrary: le) (auto simp: provider_chain_Cons split: if_splits option.splits sum.splits)

lemma provider_chain_events: "filter is_event (fst (provider_chain env call tmpl ts le)) = []"
  by (induction ts arbitrary: le) (auto simp: provider_chain_Cons effect_kinds split: option.splits sum.splits)

definition answers ::
  "'m gateway_env \<Rightarrow> (model_target \<Rightarrow> provider_invocation \<Rightarrow> (provider_failure, 'o) result)
     \<Rightarrow> provider_invocation \<Rightarrow> model_target \<Rightarrow> 'o \<Rightarrow> bool" where
  "answers env call tmpl t out = (adapter_known env (mt_provider_type t) \<and>
     (\<exists>cred. credential_of env t = Some cred \<and> call t (tmpl\<lparr>iv_credential := cred\<rparr>) = Inr out))"

lemma chain_pass:
  "passed_over env call tmpl x \<Longrightarrow> \<exists>le'. snd (provider_chain env call tmpl (x # ts) le) = snd (provider_chain env call tmpl ts le')"
  by (auto simp: provider_chain_Cons passed_over_def split: option.splits sum.splits)

lemma chain_stop:
  assumes "\<not> passed_over env call tmpl x"
  shows "snd (provider_chain env call tmpl (x # ts) le) = Inr (t, out) \<longleftrightarrow> x = t \<and> answers env call tmpl x out"
  using assms by (auto simp: provider_chain_Cons passed_over_def answers_def split: option.splits sum.splits)

lemma passed_not_answers: "passed_over env call tmpl x \<Longrightarrow> \<not> answers env call tmpl x out"
  by (auto simp: passed_over_def answers_def)

text \<open>
  Failover is ordered: the chain answers with target \<open>t\<close> exactly when \<open>t\<close> is the first
  target that is not passed over and its adapter answers; every earlier target had no adapter,
  no readable credential, or failed with a retryable error.
\<close>

theorem provider_chain_first_answer:
  "snd (provider_chain env call tmpl ts le) = Inr (t, out) \<longleftrightarrow>
   (\<exists>pre post. ts = pre @ t # post \<and> (\<forall>x \<in> set pre. passed_over env call tmpl x) \<and> answers env call tmpl t out)"
proof (induction ts arbitrary: le)
  case Nil
  then show ?case by simp
next
  case (Cons x ts)
  show ?case
  proof (cases "passed_over env call tmpl x")
    case True
    obtain le' where "snd (provider_chain env call tmpl (x # ts) le) = snd (provider_chain env call tmpl ts le')"
      using chain_pass [OF True] by blast
    then show ?thesis using Cons.IH [of le'] True passed_not_answers [OF True, of out]
      unfolding split_first_Cons by auto
  next
    case False
    then show ?thesis using chain_stop [OF False] unfolding split_first_Cons by auto
  qed
qed

section \<open>Properties of a request\<close>

lemma obtain_output_calls:
  assumes "obtain_output env rm req p = (effs, r)" "CallProvider t iv \<in> set effs"
  shows "t \<in> set (rm_targets rm)" "iv_messages iv = pi_messages (pp_input p)"
    "iv_prompt iv = prompt_from_messages (pi_messages (pp_input p))"
proof -
  have "CallProvider t iv \<in> set (fst (provider_chain env (if gr_stream req then adapter_stream env else adapter_complete env)
      (invocation_template (pp_input p) (gr_kind req) (pi_stream (pp_input p))) (rm_targets rm) None))"
    using assms by (auto simp: obtain_output_def invoke_provider_chain_def split: if_splits list.splits)
  from provider_chain_calls [OF this] show "t \<in> set (rm_targets rm)" "iv_messages iv = pi_messages (pp_input p)"
    "iv_prompt iv = prompt_from_messages (pi_messages (pp_input p))"
    by (auto simp: invocation_template_def)
qed

lemma obtain_output_events: "filter is_event (fst (obtain_output env rm req p)) = []"
  using provider_chain_events
  by (auto simp: obtain_output_def invoke_provider_chain_def split: list.split)

lemma client_view_kinds:
  "client_view env p out = (effs, x) \<Longrightarrow> filter calls_provider effs = [] \<and> filter is_event effs = []"
  by (auto simp: client_view_def scrub_text_def Let_def effect_kinds split: if_splits option.splits prod.splits)

lemma execute_cases:
  assumes "execute env auth rm req = (effs, r)"
  obtains f where "prepare env auth rm req = (effs, Inl f)" "r = Inl f"
  | effs0 effs1 p e where "prepare env auth rm req = (effs0, Inr p)" "obtain_output env rm req p = (effs1, Inl e)"
      "effs = effs0 @ effs1" "r = Inl (Failed e)"
  | effs0 effs1 effs2 p t out ev restored client v m degr x where "prepare env auth rm req = (effs0, Inr p)"
      "obtain_output env rm req p = (effs1, Inr (t, out))"
      "client_view env p out = (effs2, restored, client, v, m, degr)"
      "effs = effs0 @ effs1 @ effs2 @ [EnqueueEvent ev, ObserveDuration (model_label t), RecordRequest True]"
      "r = Inr x" "px_content x = client" "px_provider_name x = mt_provider_name t"
  using assms
  by (auto simp: execute_def Let_def split: sum.splits prod.splits)

lemma execute_call_origin:
  assumes "execute env auth rm req = (effs, r)" "CallProvider t iv \<in> set effs"
  obtains effs0 p effs1 r1 where "prepare env auth rm req = (effs0, Inr p)" "obtain_output env rm req p = (effs1, r1)"
    "CallProvider t iv \<in> set effs1"
proof -
  have call: "calls_provider (CallProvider t iv)" by (simp add: calls_provider_def)
  have no: "CallProvider t iv \<notin> set es" if "filter calls_provider es = []" for es
    using that call by (auto simp: filter_empty_conv)
  from assms(1) show ?thesis
  proof (cases rule: execute_cases)
    case (1 f)
    then show ?thesis using no prepare_kinds [OF 1(1)] assms(2) by blast
  next
    case (2 effs0 effs1 p e)
    then show ?thesis using no prepare_kinds [OF 2(1)] assms(2) that [OF 2(1,2)] by auto
  next
    case (3 effs0 effs1 effs2 p t' out ev restored client v m degr x)
    then show ?thesis
      using no prepare_kinds [OF 3(1)] client_view_kinds [OF 3(3)] assms(2) that [OF 3(1,2)] by auto
  qed
qed

lemma prepared_input:
  assumes "prepare env auth rm req = (effs, Inr p)"
  shows "pi_messages (pp_input p) = [\<lparr>role = ''user'', msg_content = oc_content (pp_outcome p)\<rparr>]"
    "\<not> oc_denied (pp_outcome p)" "pi_stream (pp_input p) = gr_stream req" "secure_mode_read env = Inr (pp_secure_mode p)"
proof -
  obtain prompt v0 where sp: "scanned_prompt env req = (prompt, v0)" by (cases "scanned_prompt env req")
  show "pi_messages (pp_input p) = [\<lparr>role = ''user'', msg_content = oc_content (pp_outcome p)\<rparr>]"
    "\<not> oc_denied (pp_outcome p)" "pi_stream (pp_input p) = gr_stream req" "secure_mode_read env = Inr (pp_secure_mode p)"
    using prepare_Inr [OF assms sp refl] finish_prepare_Inr by metis+
qed

text \<open>
  C20. Only prepared content is sent: whatever a request does, each provider call it makes goes
  to one of the resolved targets, after a preparation that did not deny the request, and carries
  as its prompt and its only message the content the preparation produced.
\<close>

theorem provider_sees_only_prepared_content:
  assumes "execute env auth rm req = (effs, r)" "CallProvider t iv \<in> set effs"
  shows "\<exists>effs0 p. prepare env auth rm req = (effs0, Inr p) \<and> \<not> oc_denied (pp_outcome p) \<and> t \<in> set (rm_targets rm) \<and>
    iv_messages iv = [\<lparr>role = ''user'', msg_content = oc_content (pp_outcome p)\<rparr>] \<and>
    iv_prompt iv = oc_content (pp_outcome p)"
proof -
  obtain effs0 p effs1 r1 where p: "prepare env auth rm req = (effs0, Inr p)"
    and o: "obtain_output env rm req p = (effs1, r1)" "CallProvider t iv \<in> set effs1"
    using execute_call_origin [OF assms] by blast
  show ?thesis
    using p obtain_output_calls [OF o] prepared_input [OF p] by (auto simp: prompt_from_messages_def)
qed

text \<open>
  C21. A fail-closed deployment redacts: with \<open>redact_when_no_rules\<close> on, unless a rule with
  another action than \<open>redact\<close> decided the request, every provider call carries the scanned
  prompt with all its detections redacted, whatever the secure-mode settings are.
\<close>

theorem fail_closed_forwards_redacted:
  assumes "execute env auth rm req = (effs, r)" "CallProvider t iv \<in> set effs"
    and "scanned_prompt env req = (prompt, v0)" "enabled_rules env = Inr rs" "redact_when_no_rules env"
    and "\<forall>d. deciding_rule env req rm prompt (scanned_detections env prompt) rs = Some d \<longrightarrow> rule_action d = ''redact''"
  shows "iv_prompt iv = fst (apply_redaction prompt (scanned_detections env prompt) v0 [])"
proof -
  obtain effs0 p effs1 r1 where p: "prepare env auth rm req = (effs0, Inr p)"
    and o: "obtain_output env rm req p = (effs1, r1)" "CallProvider t iv \<in> set effs1"
    using execute_call_origin [OF assms(1,2)] by blast
  have "iv_prompt iv = oc_content (pp_outcome p)"
    using obtain_output_calls(3) [OF o] prepared_input(1) [OF p] by (simp add: prompt_from_messages_def)
  then show ?thesis using prepared_redacted [OF p assms(3-6)] by (metis fst_conv redaction_triple_def)
qed

lemma execute_of_failed_prepare:
  assumes "prepare env auth rm req = (effs, Inl f)"
  shows "execute env auth rm req = (effs, Inl f)"
  using assms by (simp add: execute_def)

text \<open>
  C22. Lost coverage blocks: when the sidecar did not cover the whole prompt and the workspace's
  policy is \<open>block\<close> (stored, defaulted, unknown or unreadable), the request ends with a
  service-unavailable error before any provider is called, and leaves exactly one event, which
  holds no prompt text.
\<close>

theorem coverage_loss_blocks:
  assumes "scanned_prompt env req = (prompt, v0)" "ml_coverage (ml_detect env 0 prompt) \<noteq> Complete"
    and "sidecar_policy_of env = Block"
  shows "\<exists>effs msg ev. execute env auth rm req = (effs, Inl (Failed (ServiceUnavailable msg))) \<and>
    filter calls_provider effs = [] \<and> filter is_event effs = [EnqueueEvent ev] \<and>
    re_final_action ev = ''block_sidecar_unavailable'' \<and> re_redacted_prompt ev = None \<and> re_redacted_response ev = None"
proof -
  obtain reason where gate: "sidecar_gate (ml_coverage (ml_detect env 0 prompt)) Block = GateBlock reason"
    using sidecar_gate_Block [OF assms(2)] by blast
  have "\<exists>effs msg ev. prepare env auth rm req = (effs, Inl (Failed (ServiceUnavailable msg))) \<and>
    filter calls_provider effs = [] \<and> filter is_event effs = [EnqueueEvent ev] \<and>
    re_final_action ev = ''block_sidecar_unavailable'' \<and> re_redacted_prompt ev = None \<and> re_redacted_response ev = None"
    using assms(1,3) gate
    by (simp add: prepare_def scanned_prompt_def fail_closed_on_coverage_loss_def refused_effects_def Let_def effect_kinds
        record_prompt_def record_detections_def capture_content_def stamp_event_def event_new_def)
  then show ?thesis using execute_of_failed_prepare by metis
qed

text \<open>
  The secure-mode row is authoritative: when it cannot be read, or when it is enabled at
  level \<open>strict\<close> and the prompt has a detection, the request fails and no provider is called.
\<close>

theorem strict_or_unreadable_mode_refuses:
  assumes "scanned_prompt env req = (prompt, v0)"
    and "case secure_mode_read env of Inl _ \<Rightarrow> True
         | Inr cfg \<Rightarrow> sm_enabled cfg \<and> sm_level cfg = ''strict'' \<and> scanned_detections env prompt \<noteq> []"
  shows "\<exists>effs f. execute env auth rm req = (effs, Inl f) \<and> filter calls_provider effs = []"
proof -
  obtain effs r where p: "prepare env auth rm req = (effs, r)" by (cases "prepare env auth rm req")
  have "\<nexists>q. r = Inr q"
  proof
    assume "\<exists>q. r = Inr q"
    then obtain q where q: "prepare env auth rm req = (effs, Inr q)" using p by blast
    obtain oc v m cfg effs1 degr0 degr oc2 st2 effs2 eng cap where
      cfg: "secure_mode_read env = Inr cfg"
      and sm: "secure_mode_step env auth req rm (request_id_of env req) prompt cfg eng cap degr0 oc
        (pipeline_state_default\<lparr>vault := v, redaction_map := m, detections := scanned_detections env prompt\<rparr>)
          = Inr (effs1, degr, oc2, st2)"
      and fin: "finish_prepare env auth req rm (request_id_of env req) cfg eng cap degr oc2 st2 = (effs2, Inr q)"
      using prepare_Inr [OF q assms(1) refl] by metis
    have strict: "sm_enabled cfg" "sm_level cfg = ''strict''" "scanned_detections env prompt \<noteq> []"
      using assms(2) cfg by auto
    then have "oc_denied oc2"
      using secure_mode_step_Inr [OF sm] by (auto simp: apply_secure_mode_override_def Let_def split: if_splits)
    then show False using finish_prepare_Inr(1,2) [OF fin] fallback_denied by blast
  qed
  then obtain f where "r = Inl f" by (cases r) auto
  then show ?thesis using p prepare_kinds [OF p] execute_of_failed_prepare by blast
qed

text \<open>
  Every answered request is on record: a request that returns a response enqueued exactly
  one event, counted itself as one successful request, and its provider calls, if any, were made
  before the event.
\<close>

theorem answered_request_has_one_event:
  assumes "execute env auth rm req = (effs, Inr x)"
  shows "length (filter is_event effs) = 1 \<and> (\<exists>pre ev label.
    effs = pre @ [EnqueueEvent ev, ObserveDuration label, RecordRequest True] \<and> filter is_event pre = [])"
  using assms
proof (cases rule: execute_cases)
  case (3 effs0 effs1 effs2 p t out ev restored client v m degr x')
  have "filter is_event (effs0 @ effs1 @ effs2) = []"
    using prepare_kinds [OF 3(1)] client_view_kinds [OF 3(3)] obtain_output_events [of env rm req p] 3(2) by auto
  moreover have "filter is_event [EnqueueEvent ev, ObserveDuration (model_label t), RecordRequest True] = [EnqueueEvent ev]"
    by (simp add: is_event_def)
  ultimately show ?thesis using 3(4) by (metis append_assoc append_Nil filter_append length_Cons list.size(3) One_nat_def)
qed simp_all





section \<open>The round trip of a request\<close>

lemma provider_chain_answer:
  "snd (provider_chain env call tmpl ts le) = Inr (t, out) \<Longrightarrow> \<exists>cred. call t (tmpl\<lparr>iv_credential := cred\<rparr>) = Inr out"
  by (induction ts arbitrary: le) (auto simp: provider_chain_Cons split: if_splits option.splits sum.splits)

text \<open>
  C26. The client gets its own text back: in a fail-closed deployment outside debug mode whose provider
  echoes its prompt, where no rule or a rule with action \<open>redact\<close> decides and responses are not redacted, a
  request that is not streamed, has no file vault and no double brace in its prompt, and whose detections report
  the bytes they span, is answered with exactly the client's prompt, although the provider only saw it with
  every detection replaced by a placeholder.
\<close>

theorem echoed_request_round_trip:
  assumes "execute env auth rm req = (effs, Inr x)"
    and "scanned_prompt env req = (prompt, [])" "enabled_rules env = Inr rs" "redact_when_no_rules env"
    and "\<forall>d. deciding_rule env req rm prompt (scanned_detections env prompt) rs = Some d \<longrightarrow> rule_action d = ''redact''"
    and "\<not> chat_debug_mode env" "secure_mode_read env = Inr cfg" "\<not> (sm_enabled cfg \<and> sm_redact_responses cfg)"
    and "\<not> gr_stream req"
    and "\<forall>t iv out. adapter_complete env t iv = Inr out \<longrightarrow> out_content out = iv_prompt iv \<and> out_embedding out = None"
    and "\<not> str_contains prompt ''{{''" "faithful prompt (scanned_detections env prompt)"
  shows "px_content x = Some prompt \<and>
    (\<forall>t iv. CallProvider t iv \<in> set effs \<longrightarrow> iv_prompt iv = fst (apply_redaction prompt (scanned_detections env prompt) [] []))"
proof -
  let ?ds = "scanned_detections env prompt"
  have "px_content x = Some prompt"
    using assms(1)
  proof (cases rule: execute_cases)
    case (3 effs0 effs1 effs2 p t out ev restored client v m degr x')
    note inp = prepared_input [OF 3(1)]
    obtain tx vlt mp where red: "apply_redaction prompt ?ds [] [] = (tx, vlt, mp)" by (cases "apply_redaction prompt ?ds [] []")
    have tr: "oc_content (pp_outcome p) = tx" "vault (pp_state p) = vlt"
      using prepared_redacted [OF 3(1) assms(2-5)] red by (simp_all add: redaction_triple_def)
    have "snd (provider_chain env (adapter_complete env) (invocation_template (pp_input p) (gr_kind req) (pi_stream (pp_input p)))
        (rm_targets rm) None) = Inr (t, out)"
      using 3(2) assms(6,9) by (simp add: obtain_output_def invoke_provider_chain_def)
    from provider_chain_answer [OF this] obtain cred where "adapter_complete env t
        ((invocation_template (pp_input p) (gr_kind req) (pi_stream (pp_input p)))\<lparr>iv_credential := cred\<rparr>) = Inr out" ..
    then have out: "out_content out = tx" "out_embedding out = None"
      using assms(10) inp(1) tr(1) by (auto simp: invocation_template_def prompt_from_messages_def)
    have "pp_secure_mode p = cfg" using inp(4) assms(7) by simp
    then have "client = Some (restore_content tx vlt)"
      using 3(3) assms(6,8) out tr(2) by (auto simp: client_view_def Let_def split: if_splits)
    moreover have "restore_content tx vlt = prompt"
      by (rule restore_after_redaction [OF assms(11,12) _ _ red]) (simp_all add: wf_vault_def vault_inv_def)
    ultimately show ?thesis using 3(5,6) by simp
  qed simp_all
  moreover have "iv_prompt iv = fst (apply_redaction prompt ?ds [] [])" if call: "CallProvider t iv \<in> set effs" for t iv
  proof -
    obtain effs0 p effs1 r1 where p: "prepare env auth rm req = (effs0, Inr p)"
      and o: "obtain_output env rm req p = (effs1, r1)" "CallProvider t iv \<in> set effs1"
      using execute_call_origin [OF assms(1) call] by blast
    show ?thesis
      using obtain_output_calls(3) [OF o] prepared_input(1) [OF p] prepared_redacted [OF p assms(2-5)]
      by (simp add: prompt_from_messages_def redaction_triple_def prod_eq_iff)
  qed
  ultimately show ?thesis by blast
qed

section \<open>Witnesses\<close>

text \<open>A gateway with one detector, no rules and an echoing provider; secure mode as given.\<close>

definition demo_detect :: "string \<Rightarrow> detection list" where
  "demo_detect s = (case str_find ''Bob'' s of
     None \<Rightarrow> [] | Some i \<Rightarrow> [\<lparr>det_class = ''PERSON'', confidence = 1, det_span = Some (i, i + 3), det_value = ''Bob''\<rparr>])"

definition demo_mode :: "bool \<Rightarrow> string \<Rightarrow> secure_mode_row" where
  "demo_mode en lvl = \<lparr>sm_ws = 1, sm_enabled = en, sm_level = lvl, sm_block_pii = False, sm_block_injection = False,
     sm_redact_responses = False, sm_updated_at = 0\<rparr>"

definition demo_gw :: "sidecar_coverage \<Rightarrow> secure_mode_row \<Rightarrow> policy_rule list \<Rightarrow> detection gateway_env" where
  "demo_gw cov mode rs = \<lparr>detect_content = demo_detect, merge_detections = (\<lambda>a b. a @ b),
     ml_detect = (\<lambda>_ _. \<lparr>ml_detections = [], ml_coverage = cov\<rparr>),
     injection_check = (\<lambda>_. injection_complete False 0), regex_new = (\<lambda>_. None), enabled_rules = Inr rs,
     secure_mode_read = Inr mode, sidecar_policy_read = (\<lambda>d. Inr d), capture_read = Inr capture_default,
     load_file_vault = (\<lambda>_. None), kms_enc = (\<lambda>t. Some (rev t)), kms_dec = (\<lambda>t. Inr (rev t)), b64_decode = Inr,
     utf8_err = (\<lambda>_. []), adapter_known = (\<lambda>_. True),
     adapter_complete = (\<lambda>t iv. Inr \<lparr>out_content = iv_prompt iv, out_model = iv_model iv, out_usage = None,
        out_embedding = None, out_stream_chunks = [], out_finish_reason = Some ''stop'', out_ttft_ms = None\<rparr>),
     adapter_stream = (\<lambda>t iv. Inl \<lparr>pf_message = ''no stream'', pf_retryable = False\<rparr>),
     adapter_events = (\<lambda>t iv. Inr [Inr (Token (take 5 (iv_prompt iv))), Inr (Token (drop 5 (iv_prompt iv)))]),
     pricing = [], chat_debug_mode = False, redact_when_no_rules = True, sidecar_unavailable_default = ''block'',
     json_pretty = (\<lambda>_. []), show_score = (\<lambda>_. []), new_request_id = 11, latency_ms = 0, first_token_ms = 0\<rparr>"

definition demo_auth :: auth_context where
  "demo_auth = \<lparr>au_workspace_id = 1, au_user_id = None, au_api_key_id = 2, au_api_key_name = ''key''\<rparr>"

definition demo_rm :: resolved_model where
  "demo_rm = \<lparr>rm_public_model = ''gpt'', rm_targets = [\<lparr>mt_model_id = 3, mt_workspace_id = 1, mt_provider_id = 4,
     mt_provider_name = ''p'', mt_provider_type = ''openai'', mt_model_name = ''gpt'', mt_encrypted_credential = None,
     mt_config = JNull\<rparr>]\<rparr>"

definition demo_req :: gateway_request where
  "demo_req = \<lparr>gr_public_model = ''gpt'', gr_messages = [\<lparr>role = ''user'', msg_content = ''hi Bob''\<rparr>], gr_stream = False,
     gr_kind = Chat, gr_extra_params = JNull, gr_client_ip = None, gr_user_agent = None, gr_request_id = None\<rparr>"

lemma demo_scanned: "scanned_prompt (demo_gw cov mode rs) demo_req = (''hi Bob'', [])"
  by (simp add: scanned_prompt_def preload_file_vault_def prompt_from_messages_def demo_req_def marker_open_def
      str_contains_def vault_empty_def)

lemma demo_detections:
  "scanned_detections (demo_gw cov mode rs) ''hi Bob'' =
     [\<lparr>det_class = ''PERSON'', confidence = 1, det_span = Some (3, 6), det_value = ''Bob''\<rparr>]"
  by (simp add: scanned_detections_def demo_gw_def demo_detect_def)

lemma demo_redaction:
  "apply_redaction ''hi Bob'' [\<lparr>det_class = ''PERSON'', confidence = 1, det_span = Some (3, 6), det_value = ''Bob''\<rparr>] [] [] =
     (''hi {{Person_1}}'', [(''{{Person_1}}'', ''Bob'')], [(''{{Person_1}}'', ''Bob'')])"
  by code_simp

text \<open>Preparation with secure mode off, and with a deny rule under the permissive level.\<close>

lemma demo_prepare:
  "\<exists>effs p. prepare (demo_gw Complete (demo_mode False ''standard'') []) demo_auth demo_rm demo_req = (effs, Inr p)"
  using demo_scanned [of Complete "demo_mode False ''standard''" "[]"] demo_detections [of Complete "demo_mode False ''standard''" "[]"]
  unfolding scanned_prompt_def scanned_detections_def
  by (simp add: prepare_def)
    (simp add: demo_gw_def demo_mode_def evaluate_policy_spec policy_spec_def sidecar_gate_def secure_mode_step_def
      finish_prepare_def apply_fallback_redaction_def net_redact_def demo_redaction demo_rm_def Let_def
      pipeline_state_default_def policy_input_of_def)

lemma execute_answered:
  assumes "prepare env auth rm req = (effs0, Inr p)" "obtain_output env rm req p = (effs1, Inr (t, out))"
  shows "\<exists>effs2 x. execute env auth rm req = (effs0 @ effs1 @ effs2, Inr x)"
  using assms by (simp add: execute_def Let_def split: prod.split)

lemma demo_execute:
  obtains effs x t iv where
    "execute (demo_gw Complete (demo_mode False ''standard'') []) demo_auth demo_rm demo_req = (effs, Inr x)"
    "CallProvider t iv \<in> set effs"
proof -
  let ?env = "demo_gw Complete (demo_mode False ''standard'') []"
  obtain effs0 p where p: "prepare ?env demo_auth demo_rm demo_req = (effs0, Inr p)" using demo_prepare by blast
  have "\<exists>effs1 t iv out. obtain_output ?env demo_rm demo_req p = (effs1, Inr (t, out)) \<and> CallProvider t iv \<in> set effs1"
    by (simp add: obtain_output_def invoke_provider_chain_def provider_chain_Cons credential_of_def demo_gw_def demo_rm_def demo_req_def)
  then obtain effs1 t iv out where o: "obtain_output ?env demo_rm demo_req p = (effs1, Inr (t, out))" "CallProvider t iv \<in> set effs1"
    by blast
  obtain effs2 x where "execute ?env demo_auth demo_rm demo_req = (effs0 @ effs1 @ effs2, Inr x)"
    using execute_answered [OF p o(1)] by blast
  then show ?thesis using o(2) that [of _ _ t iv] by simp
qed

theorem provider_sees_only_prepared_content_witness:
  "\<exists>effs x t iv effs0 p. execute (demo_gw Complete (demo_mode False ''standard'') []) demo_auth demo_rm demo_req = (effs, Inr x) \<and>
     CallProvider t iv \<in> set effs \<and>
     prepare (demo_gw Complete (demo_mode False ''standard'') []) demo_auth demo_rm demo_req = (effs0, Inr p) \<and>
     t \<in> set (rm_targets demo_rm) \<and> iv_prompt iv = oc_content (pp_outcome p)"
proof -
  let ?env = "demo_gw Complete (demo_mode False ''standard'') []"
  obtain effs x t iv where ex: "execute ?env demo_auth demo_rm demo_req = (effs, Inr x)" "CallProvider t iv \<in> set effs"
    by (rule demo_execute)
  from provider_sees_only_prepared_content [OF ex] ex show ?thesis by blast
qed

theorem fail_closed_forwards_redacted_witness:
  "\<exists>effs x t iv. execute (demo_gw Complete (demo_mode False ''standard'') []) demo_auth demo_rm demo_req = (effs, Inr x) \<and>
     CallProvider t iv \<in> set effs \<and> iv_prompt iv = ''hi {{Person_1}}''"
proof -
  let ?env = "demo_gw Complete (demo_mode False ''standard'') []"
  obtain effs x t iv where ex: "execute ?env demo_auth demo_rm demo_req = (effs, Inr x)" "CallProvider t iv \<in> set effs"
    by (rule demo_execute)
  have rs: "enabled_rules ?env = Inr []" "redact_when_no_rules ?env" by (simp_all add: demo_gw_def)
  have none: "\<forall>d. deciding_rule ?env demo_req demo_rm ''hi Bob'' (scanned_detections ?env ''hi Bob'') [] = Some d \<longrightarrow> rule_action d = ''redact''"
    by (simp add: deciding_rule_def)
  have "iv_prompt iv = ''hi {{Person_1}}''"
    using fail_closed_forwards_redacted [OF ex demo_scanned rs none] by (simp add: demo_detections demo_redaction)
  with ex show ?thesis by blast
qed

theorem coverage_loss_blocks_witness:
  "\<exists>effs msg. execute (demo_gw (Absent CircuitOpen) (demo_mode False ''standard'') []) demo_auth demo_rm demo_req =
     (effs, Inl (Failed (ServiceUnavailable msg))) \<and> filter calls_provider effs = []"
proof -
  let ?env = "demo_gw (Absent CircuitOpen) (demo_mode False ''standard'') []"
  have "ml_coverage (ml_detect ?env 0 ''hi Bob'') \<noteq> Complete" by (simp add: demo_gw_def)
  moreover have "sidecar_policy_of ?env = Block" by (simp add: sidecar_policy_of_def demo_gw_def policy_from_db_def)
  ultimately show ?thesis using coverage_loss_blocks [OF demo_scanned] by blast
qed

theorem strict_or_unreadable_mode_refuses_witness:
  "\<exists>effs f. execute (demo_gw Complete (demo_mode True ''strict'') []) demo_auth demo_rm demo_req = (effs, Inl f) \<and>
     filter calls_provider effs = []"
proof -
  let ?env = "demo_gw Complete (demo_mode True ''strict'') []"
  have "secure_mode_read ?env = Inr (demo_mode True ''strict'')" by (simp add: demo_gw_def)
  then have "case secure_mode_read ?env of Inl _ \<Rightarrow> True
      | Inr cfg \<Rightarrow> sm_enabled cfg \<and> sm_level cfg = ''strict'' \<and> scanned_detections ?env ''hi Bob'' \<noteq> []"
    by (simp add: demo_detections demo_mode_def)
  then show ?thesis by (rule strict_or_unreadable_mode_refuses [OF demo_scanned])
qed

theorem answered_request_has_one_event_witness:
  "\<exists>effs x. execute (demo_gw Complete (demo_mode False ''standard'') []) demo_auth demo_rm demo_req = (effs, Inr x) \<and>
     length (filter is_event effs) = 1"
proof -
  let ?env = "demo_gw Complete (demo_mode False ''standard'') []"
  obtain effs x t iv where ex: "execute ?env demo_auth demo_rm demo_req = (effs, Inr x)" "CallProvider t iv \<in> set effs"
    by (rule demo_execute)
  from answered_request_has_one_event [OF ex(1)] ex(1) show ?thesis by blast
qed





theorem echoed_request_round_trip_witness:
  "\<exists>effs x. execute (demo_gw Complete (demo_mode False ''standard'') []) demo_auth demo_rm demo_req = (effs, Inr x) \<and>
     px_content x = Some ''hi Bob''"
proof -
  let ?env = "demo_gw Complete (demo_mode False ''standard'') []"
  obtain effs x t iv where ex: "execute ?env demo_auth demo_rm demo_req = (effs, Inr x)" "CallProvider t iv \<in> set effs"
    by (rule demo_execute)
  have rs: "enabled_rules ?env = Inr []" "redact_when_no_rules ?env" by (simp_all add: demo_gw_def)
  have none: "\<forall>d. deciding_rule ?env demo_req demo_rm ''hi Bob'' (scanned_detections ?env ''hi Bob'') [] = Some d \<longrightarrow> rule_action d = ''redact''"
    by (simp add: deciding_rule_def)
  have c: "\<not> chat_debug_mode ?env" "secure_mode_read ?env = Inr (demo_mode False ''standard'')"
    "\<not> (sm_enabled (demo_mode False ''standard'') \<and> sm_redact_responses (demo_mode False ''standard''))" "\<not> gr_stream demo_req"
    "\<forall>t iv out. adapter_complete ?env t iv = Inr out \<longrightarrow> out_content out = iv_prompt iv \<and> out_embedding out = None"
    by (auto simp: demo_gw_def demo_mode_def demo_req_def)
  have f: "\<not> str_contains ''hi Bob'' ''{{''" "faithful ''hi Bob'' (scanned_detections ?env ''hi Bob'')"
    by (code_simp, simp add: demo_detections faithful_def span_ordered_def substr_def brace_free_def)
  from echoed_request_round_trip [OF ex(1) demo_scanned rs none c f] ex(1) show ?thesis by blast
qed

text \<open>A first target whose adapter fails retryably, and a second that answers.\<close>

theorem provider_chain_first_answer_witness:
  "\<exists>effs. provider_chain (demo_gw Complete (demo_mode False ''standard'') [])
     (\<lambda>t iv. if mt_provider_name t = ''p'' then Inr ''pong'' else Inl \<lparr>pf_message = ''503'', pf_retryable = True\<rparr>)
     (invocation_template \<lparr>pi_request_id = 11, pi_workspace_id = 1, pi_provider_id = 4, pi_messages = [], pi_stream = False,
        pi_model = ''gpt'', pi_extra_params = JNull\<rparr> Chat False)
     [(hd (rm_targets demo_rm))\<lparr>mt_provider_name := ''q''\<rparr>, hd (rm_targets demo_rm)] None =
     (effs, Inr (hd (rm_targets demo_rm), ''pong''))"
  (is "\<exists>effs. provider_chain ?env ?call ?tmpl [?a, ?b] None = _")
proof -
  have "passed_over ?env ?call ?tmpl ?a" "answers ?env ?call ?tmpl ?b ''pong''"
    by (simp_all add: passed_over_def answers_def credential_of_def demo_gw_def demo_rm_def)
  then have "snd (provider_chain ?env ?call ?tmpl [?a, ?b] None) = Inr (?b, ''pong'')"
    unfolding provider_chain_first_answer by (intro exI [of _ "[?a]"] exI [of _ "[]"]) simp
  then show ?thesis by (cases "provider_chain ?env ?call ?tmpl [?a, ?b] None") simp
qed

end
