(* ===== verification/Pipeline_Stream.thy ===== *)
theory Pipeline_Stream
  imports Pipeline_Props
begin

text \<open>
  The streaming path: \<open>execute_stream\<close> of \<open>pipeline/service.rs\<close>. The provider's stream is the
  list of its events; the items the client gets and the effects of the stream's finalisation are
  what a consumer sees that reads to the end.
\<close>

section \<open>Definitions\<close>

datatype chat_stream_item =
    Delta string
  | StreamEnd token_usage bool string uuid

text \<open>The variables of the stream's task.\<close>

record stream_st =
  ss_raw_full :: string
  ss_restored_full :: string
  ss_placeholder :: placeholder_streamer
  ss_pending :: string
  ss_usage :: "token_usage option"
  ss_ttft :: "nat option"
  ss_ok :: bool
  ss_degraded :: "coverage_loss option"
  ss_vault :: token_vault
  ss_map :: "(string, string) hashmap"
  ss_calls :: nat
  ss_items :: "chat_stream_item list"
  ss_effects :: "gw_effect list"

definition to_u32 :: "nat \<Rightarrow> nat" where
  "to_u32 n = min n (2 ^ 32 - 1)"

definition emit :: "string \<Rightarrow> stream_st \<Rightarrow> stream_st" where
  "emit t st = (if t \<noteq> [] then st\<lparr>ss_items := ss_items st @ [Delta t]\<rparr> else st)"

text \<open>\<open>scrub_segment!\<close>, and the delta of what it returns.\<close>

definition scrub_segment :: "'m gateway_env \<Rightarrow> string set \<Rightarrow> string \<Rightarrow> stream_st \<Rightarrow> stream_st" where
  "scrub_segment env originals segment st =
     (let restored = restore_content segment (ss_vault st);
          (effs, t, v, m, degraded) =
            scrub_text env (ss_calls st) originals restored (ss_vault st) (ss_map st) (ss_degraded st)
      in emit t (st\<lparr>ss_restored_full := ss_restored_full st @ restored, ss_vault := v, ss_map := m,
                    ss_degraded := degraded, ss_calls := ss_calls st + 1,
                    ss_effects := ss_effects st @ effs\<rparr>))"

definition stream_token :: "'m gateway_env \<Rightarrow> bool \<Rightarrow> string set \<Rightarrow> string \<Rightarrow> stream_st \<Rightarrow> stream_st" where
  "stream_token env redact originals tok st =
     (let st = st\<lparr>ss_raw_full := ss_raw_full st @ tok,
                  ss_ttft := (case ss_ttft st of None \<Rightarrow> Some (to_u32 (first_token_ms env)) | Some t \<Rightarrow> Some t)\<rparr>
      in if redact then
           (let pnd = ss_pending st @ tok; n = settled_prefix_len pnd
            in if n > 0 then scrub_segment env originals (take n pnd) (st\<lparr>ss_pending := drop n pnd\<rparr>)
               else st\<lparr>ss_pending := pnd\<rparr>)
         else
           (let (t, ph) = streamer_push (ss_placeholder st) tok (ss_vault st)
            in emit t (st\<lparr>ss_placeholder := ph, ss_restored_full := ss_restored_full st @ t\<rparr>)))"

fun stream_loop ::
  "'m gateway_env \<Rightarrow> bool \<Rightarrow> string set \<Rightarrow> (provider_failure, provider_event) result list \<Rightarrow> stream_st \<Rightarrow> stream_st" where
  "stream_loop env redact originals [] st = st"
| "stream_loop env redact originals (Inr (Token tok) # evs) st =
     stream_loop env redact originals evs (stream_token env redact originals tok st)"
| "stream_loop env redact originals (Inr (StreamDone u fr mdl t) # evs) st =
     stream_loop env redact originals evs
       (st\<lparr>ss_usage := u, ss_ttft := (case t of None \<Rightarrow> ss_ttft st | Some x \<Rightarrow> Some x)\<rparr>)"
| "stream_loop env redact originals (Inl failure # evs) st = st\<lparr>ss_ok := False\<rparr>"

definition stream_flush :: "'m gateway_env \<Rightarrow> bool \<Rightarrow> string set \<Rightarrow> stream_st \<Rightarrow> stream_st" where
  "stream_flush env redact originals st =
     (if redact then
        (if ss_pending st \<noteq> [] then scrub_segment env originals (ss_pending st) st else st)
      else
        (let t = streamer_flush (ss_placeholder st) (ss_vault st)
         in emit t (st\<lparr>ss_restored_full := ss_restored_full st @ t\<rparr>)))"

definition stream_init :: "coverage_loss option \<Rightarrow> pipeline_state \<Rightarrow> stream_st" where
  "stream_init degraded st = \<lparr>ss_raw_full = [], ss_restored_full = [], ss_placeholder = streamer_new,
     ss_pending = [], ss_usage = None, ss_ttft = None, ss_ok = True, ss_degraded = degraded,
     ss_vault = vault st, ss_map = redaction_map st, ss_calls = 3, ss_items = [], ss_effects = []\<rparr>"

definition non_empty :: "string \<Rightarrow> string option" where
  "non_empty s = (if s = [] then None else Some s)"

definition token_delta :: "token_usage \<Rightarrow> nat \<Rightarrow> int" where
  "token_delta u estimated_input =
     (let actual = unat (unwrap_or 0 (input_tokens u)) + unat (unwrap_or 0 (output_tokens u));
          i64 = (\<lambda>n. min (int n) (2 ^ 63 - 1))
      in i64 actual - i64 estimated_input)"

text \<open>Finalisation: the usage, the event, the metrics, the budget adjustment and the last item.\<close>

definition stream_finish ::
  "'m gateway_env \<Rightarrow> auth_context \<Rightarrow> resolved_model \<Rightarrow> gateway_request \<Rightarrow> prepared \<Rightarrow> model_target \<Rightarrow> nat \<Rightarrow> stream_st
     \<Rightarrow> chat_stream_item list \<times> gw_effect list" where
  "stream_finish env auth rm req p t estimated_input st =
     (let oc = pp_outcome p;
          prompt_text = (case pi_messages (pp_input p) of [] \<Rightarrow> [] | msg # _ \<Rightarrow> msg_content msg);
          uc = derive_usage (mt_provider_type t) (ss_usage st) prompt_text (ss_restored_full st);
          cost = compute_cost (pricing env) (gr_public_model req) (uc_usage uc);
          e0 = stamp_event auth req (event_new (pp_request_id p) (au_workspace_id auth) (mt_provider_name t)
                 (gr_public_model req) (final_action (oc_result oc)) (uc_usage uc) (uc_estimated uc) cost
                 (events (oc_result oc)));
          e1 = record_prompt (audit_prompt env 2 (gr_messages req) (ss_degraded st))
                 (e0\<lparr>re_latency_ms := Some (to_u32 (latency_ms env)), re_ttft_ms := ss_ttft st\<rparr>);
          e2 = capture_content (pp_capture p) (kms_enc env) (last_user_message_raw (gr_messages req))
                 (non_empty (ss_raw_full st)) (non_empty (ss_restored_full st)) e1;
          e3 = record_response (if ss_degraded st \<noteq> None then CoverageLost else Redacted (ss_raw_full st)) e2;
          e4 = record_detections (detections (pp_state p))
                 (e3\<lparr>re_floor_only := (ss_degraded st \<noteq> None), re_engines := pp_engines p\<rparr>)
      in (ss_items st @ [StreamEnd (uc_usage uc) (uc_estimated uc) (mt_model_name t) (pp_request_id p)],
          ss_effects st @ [EnqueueEvent (e4\<lparr>re_model_registered := is_registered rm\<rparr>),
            ObserveDuration (model_label t), RecordRequest (ss_ok st),
            AdjustTokens (au_workspace_id auth) (token_delta (uc_usage uc) estimated_input)]))"

definition run_stream ::
  "'m gateway_env \<Rightarrow> bool \<Rightarrow> string set \<Rightarrow> (provider_failure, provider_event) result list \<Rightarrow> stream_st \<Rightarrow> stream_st" where
  "run_stream env redact originals evs st = stream_flush env redact originals (stream_loop env redact originals evs st)"

record stream_execution =
  sx_items :: "chat_stream_item list"
  sx_effects :: "gw_effect list"
  sx_degraded :: "coverage_loss option"
  sx_engines :: detection_engines

definition redact_responses :: "'m gateway_env \<Rightarrow> prepared \<Rightarrow> bool" where
  "redact_responses env p = (sm_enabled (pp_secure_mode p) \<and> sm_redact_responses (pp_secure_mode p) \<and> \<not> chat_debug_mode env)"

definition execute_stream ::
  "'m gateway_env \<Rightarrow> auth_context \<Rightarrow> resolved_model \<Rightarrow> gateway_request \<Rightarrow> nat
     \<Rightarrow> gw_effect list \<times> stream_execution outcome" where
  "execute_stream env auth rm req estimated_input =
     (case prepare env auth rm req of
        (effs0, Inl f) \<Rightarrow> (effs0, Inl f)
      | (effs0, Inr p) \<Rightarrow>
          (case open_provider_stream env (rm_targets rm) (pp_input p) (gr_kind req) of
             (effs1, Inl e) \<Rightarrow> (effs0 @ effs1, Inl (Failed e))
           | (effs1, Inr (t, evs)) \<Rightarrow>
               (let originals = original_values (vault (pp_state p));
                    st = run_stream env (redact_responses env p) originals evs (stream_init (pp_degraded p) (pp_state p));
                    (items, effs2) = stream_finish env auth rm req p t estimated_input st
                in (effs0 @ effs1, Inr \<lparr>sx_items = items, sx_effects = effs2, sx_degraded = pp_degraded p,
                      sx_engines = pp_engines p\<rparr>))))"

section \<open>What the client reads\<close>

text \<open>The tokens the provider sent before its stream ended or failed, and the text of the deltas.\<close>

fun sent_tokens :: "(provider_failure, provider_event) result list \<Rightarrow> string list" where
  "sent_tokens [] = []"
| "sent_tokens (Inr (Token tok) # evs) = tok # sent_tokens evs"
| "sent_tokens (Inr (StreamDone _ _ _ _) # evs) = sent_tokens evs"
| "sent_tokens (Inl _ # evs) = []"

definition delta_text :: "chat_stream_item list \<Rightarrow> string" where
  "delta_text items = concat (map (\<lambda>i. case i of Delta t \<Rightarrow> t | _ \<Rightarrow> []) items)"

lemma delta_text_simps [simp]:
  "delta_text [] = []" "delta_text (xs @ ys) = delta_text xs @ delta_text ys"
  "delta_text [Delta t] = t" "delta_text [StreamEnd u b m r] = []"
  by (simp_all add: delta_text_def)

lemma emit_frame [simp]:
  "delta_text (ss_items (emit t st)) = delta_text (ss_items st) @ t" "ss_vault (emit t st) = ss_vault st"
  "ss_placeholder (emit t st) = ss_placeholder st" "ss_restored_full (emit t st) = ss_restored_full st"
  "ss_raw_full (emit t st) = ss_raw_full st" "ss_effects (emit t st) = ss_effects st"
  by (simp_all add: emit_def)

lemma stream_loop_plain:
  "delta_text (ss_items (stream_flush env False originals (stream_loop env False originals evs st))) =
   delta_text (ss_items st) @ streamer_run (ss_placeholder st) (sent_tokens evs) (ss_vault st)"
proof (induction env False originals evs st rule: stream_loop.induct)
  case (1 env originals st)
  then show ?case by (simp add: stream_flush_def Let_def)
next
  case (2 env originals tok evs st)
  obtain t ph where push: "streamer_push (ss_placeholder st) tok (ss_vault st) = (t, ph)"
    by (cases "streamer_push (ss_placeholder st) tok (ss_vault st)")
  then show ?case using 2 by (simp add: stream_token_def Let_def)
next
  case (3 env originals u fr mdl t evs st)
  then show ?case by simp
next
  case (4 env originals failure evs st)
  then show ?case by (simp add: stream_flush_def Let_def)
qed

lemma stream_finish_items:
  "stream_finish env auth rm req p t n st = (items, effs) \<Longrightarrow> delta_text items = delta_text (ss_items st)"
  by (auto simp: stream_finish_def Let_def)

text \<open>
  C27. Streaming restores like buffering: with response redaction off, however the provider cuts its answer
  into tokens, the text of the deltas the client reads is the restoration of the text received, also when
  the stream fails after that text, provided the vault of the request is well-formed (its keys are
  placeholders, its values not empty and without braces) and the text received consists of literals and
  complete placeholders whose first letter is an ASCII capital. A stream that fails inside a placeholder,
  and placeholders that open with another character, are not covered.
\<close>

theorem streamed_text_is_restored:
  assumes "execute_stream env auth rm req n = (effs, Inr x)"
    and "prepare env auth rm req = (effs0, Inr p)" "\<not> redact_responses env p"
    and "open_provider_stream env (rm_targets rm) (pp_input p) (gr_kind req) = (effs1, Inr (t, evs))"
    and "wf_vault (vault (pp_state p))" "up_toks ts" "concat (sent_tokens evs) = flat ts"
  shows "delta_text (sx_items x) = restore_content (concat (sent_tokens evs)) (vault (pp_state p))"
proof -
  let ?st = "run_stream env False (original_values (vault (pp_state p))) evs (stream_init (pp_degraded p) (pp_state p))"
  obtain items effs2 where fin: "stream_finish env auth rm req p t n ?st = (items, effs2)" by (cases "stream_finish env auth rm req p t n ?st")
  have "sx_items x = items"
    using assms(1-4) fin by (auto simp: execute_stream_def Let_def)
  then have "delta_text (sx_items x) = delta_text (ss_items ?st)" using stream_finish_items [OF fin] by simp
  also have "\<dots> = streamer_run streamer_new (sent_tokens evs) (vault (pp_state p))"
    unfolding run_stream_def stream_loop_plain by (simp add: stream_init_def)
  also have "\<dots> = vault_restore (vault (pp_state p)) (flat ts)"
    using cr.safe_chunks_tokens [OF assms(5,6), of "[]" "sent_tokens evs"] assms(7)
    by (simp add: streamer_run_loop streamer_new_def)
  finally show ?thesis using assms(7) by (simp add: restore_content_def)
qed

theorem streamed_text_is_restored_witness:
  "\<exists>effs x. execute_stream (demo_gw Complete (demo_mode False ''standard'') []) demo_auth demo_rm demo_req 0 = (effs, Inr x) \<and>
     delta_text (sx_items x) = ''hi Bob''"
proof -
  let ?env = "demo_gw Complete (demo_mode False ''standard'') []"
  let ?v = "[(''{{Person_1}}'', ''Bob'')]" and ?evs = "[Inr (Token ''hi {{''), Inr (Token ''Person_1}}'')]"
  obtain effs0 p where p: "prepare ?env demo_auth demo_rm demo_req = (effs0, Inr p)" using demo_prepare by blast
  have tr: "oc_content (pp_outcome p) = ''hi {{Person_1}}''" "vault (pp_state p) = ?v"
    using prepared_redacted [OF p demo_scanned, of "[]"]
    by (simp_all add: demo_gw_def deciding_rule_def redaction_triple_def demo_redaction demo_detections [unfolded demo_gw_def])
  have mode: "\<not> redact_responses ?env p"
  proof -
    have "pp_secure_mode p = demo_mode False ''standard''" using prepared_input(4) [OF p] by (simp add: demo_gw_def)
    then show ?thesis by (simp add: demo_mode_def redact_responses_def)
  qed
  obtain t effs1 where o: "open_provider_stream ?env (rm_targets demo_rm) (pp_input p) (gr_kind demo_req) = (effs1, Inr (t, ?evs))"
    using prepared_input(1) [OF p] tr(1)
    by (simp add: open_provider_stream_def provider_chain_Cons credential_of_def demo_gw_def demo_rm_def
        invocation_template_def prompt_from_messages_def)
  have "\<exists>effs x. execute_stream ?env demo_auth demo_rm demo_req 0 = (effs, Inr x)"
    using p o by (simp add: execute_stream_def Let_def split: prod.split)
  then obtain effs x where x: "execute_stream ?env demo_auth demo_rm demo_req 0 = (effs, Inr x)" by blast
  have wf: "wf_vault (vault (pp_state p))"
    unfolding tr(2) by (auto simp: wf_vault_def ph_text_def intro!: exI [of _ "''Person_1''"])
  have up: "up_toks (map Lit ''hi '' @ [Ph ''Person_1''])"
    by (auto simp: up_toks_def is_ascii_uppercase_def byte_of_def)
  have toks: "concat (sent_tokens ?evs) = flat (map Lit ''hi '' @ [Ph ''Person_1''])" by (simp add: ph_text_def)
  have "delta_text (sx_items x) = restore_content ''hi {{Person_1}}'' ?v"
    using streamed_text_is_restored [OF x p mode o wf up toks] tr(2) by simp
  also have "\<dots> = ''hi Bob''" by code_simp
  finally show ?thesis using x by blast
qed

end
