(* ===== verification/Url_Guard.thy ===== *)
theory Url_Guard
  imports SP_Types "HOL-Library.Char_ord" "HOL-Library.List_Lexorder"
begin

text \<open>
  \<open>security/url_guard.rs\<close> and \<open>providers/credential_test.rs\<close>: the egress guard and the outbound
  calls of the credential tester. An IPv4 address is a 32-bit word and an IPv6 address a 128-bit
  word, read through \<open>octets\<close> and \<open>segments\<close> as the standard library reads them. The URL parser
  (the \<open>url\<close> crate), DNS, the HTTP client, the rendering of an address and Google's token minting
  are fields of an \<open>egress_env\<close>. Every operation that sends requests also returns them in order,
  with the client each one was sent through.
\<close>

section \<open>Addresses\<close>

type_synonym ipv4 = "32 word"
type_synonym ipv6 = "128 word"

datatype ip_addr = V4 ipv4 | V6 ipv6

definition octet :: "ipv4 \<Rightarrow> nat \<Rightarrow> 8 word" where
  "octet a i = ucast (drop_bit (24 - 8 * i) a)"

definition ipv4_of :: "8 word \<Rightarrow> 8 word \<Rightarrow> 8 word \<Rightarrow> 8 word \<Rightarrow> ipv4" where
  "ipv4_of a b c d = push_bit 24 (ucast a) + push_bit 16 (ucast b) + push_bit 8 (ucast c) + ucast d"

definition segment :: "ipv6 \<Rightarrow> nat \<Rightarrow> 16 word" where
  "segment a i = ucast (drop_bit (112 - 16 * i) a)"

text \<open>The predicates of \<open>std::net::Ipv4Addr\<close> and \<open>Ipv6Addr\<close> that the guard calls.\<close>

definition v4_is_loopback :: "ipv4 \<Rightarrow> bool" where
  "v4_is_loopback a = (octet a 0 = 127)"

definition v4_is_link_local :: "ipv4 \<Rightarrow> bool" where
  "v4_is_link_local a = (octet a 0 = 169 \<and> octet a 1 = 254)"

definition v4_is_broadcast :: "ipv4 \<Rightarrow> bool" where
  "v4_is_broadcast a = (a = ipv4_of 255 255 255 255)"

definition v4_is_multicast :: "ipv4 \<Rightarrow> bool" where
  "v4_is_multicast a = (224 \<le> octet a 0 \<and> octet a 0 \<le> 239)"

definition v4_is_unspecified :: "ipv4 \<Rightarrow> bool" where
  "v4_is_unspecified a = (a = 0)"

definition v4_is_private :: "ipv4 \<Rightarrow> bool" where
  "v4_is_private a = (octet a 0 = 10 \<or> (octet a 0 = 172 \<and> 16 \<le> octet a 1 \<and> octet a 1 \<le> 31) \<or>
     (octet a 0 = 192 \<and> octet a 1 = 168))"

definition v6_to_ipv4_mapped :: "ipv6 \<Rightarrow> ipv4 option" where
  "v6_to_ipv4_mapped a =
     (if map (segment a) [0..<5] = [0, 0, 0, 0, 0] \<and> segment a 5 = 0xffff
      then Some (push_bit 16 (ucast (segment a 6)) + ucast (segment a 7)) else None)"

definition v6_is_multicast :: "ipv6 \<Rightarrow> bool" where
  "v6_is_multicast a = (and (segment a 0) 0xff00 = 0xff00)"

section \<open>The egress policy and its errors\<close>

record egress_policy =
  allow_private_ranges :: bool
  extra_denied_hosts :: "string list"

definition deny_private :: egress_policy where
  "deny_private = \<lparr>allow_private_ranges = False, extra_denied_hosts = []\<rparr>"

definition parse_flag :: "string option \<Rightarrow> bool" where
  "parse_flag raw = (case map_option (\<lambda>v. to_lowercase (trim v)) raw of
       Some v \<Rightarrow> v \<in> {''1'', ''true'', ''yes'', ''on''} | None \<Rightarrow> False)"

definition egress_from_env :: "string option \<Rightarrow> egress_policy" where
  "egress_from_env raw = \<lparr>allow_private_ranges = parse_flag raw, extra_denied_hosts = []\<rparr>"

datatype ssrf_error =
    InvalidUrl string
  | ForbiddenScheme string
  | CredentialsInUrl
  | MissingHost
  | DeniedHost string
  | DnsFailure string
  | BlockedAddress string ip_addr string

fun ssrf_error_to_string :: "(ip_addr \<Rightarrow> string) \<Rightarrow> ssrf_error \<Rightarrow> string" where
  "ssrf_error_to_string show_ip (InvalidUrl e) = ''invalid URL: '' @ e"
| "ssrf_error_to_string show_ip (ForbiddenScheme s) = ''forbidden URL scheme: '' @ s"
| "ssrf_error_to_string show_ip CredentialsInUrl = ''URL must not embed credentials''"
| "ssrf_error_to_string show_ip MissingHost = ''URL has no host''"
| "ssrf_error_to_string show_ip (DeniedHost h) = ''host is denied by policy: '' @ h"
| "ssrf_error_to_string show_ip (DnsFailure e) = ''DNS resolution failed: '' @ e"
| "ssrf_error_to_string show_ip (BlockedAddress host a reason) =
     ''host '' @ host @ '' resolves to blocked address '' @ show_ip a @ '' ('' @ reason @ '')''"

definition CLOUD_METADATA_V4 :: ipv4 where
  "CLOUD_METADATA_V4 = ipv4_of 169 254 169 254"

definition ALWAYS_DENIED_HOSTS :: "string list" where
  "ALWAYS_DENIED_HOSTS = [''metadata.google.internal'', ''metadata.goog'', ''instance-data'']"

section \<open>Classification\<close>

definition is_cgnat_v4 :: "ipv4 \<Rightarrow> bool" where
  "is_cgnat_v4 a = (octet a 0 = 100 \<and> 64 \<le> octet a 1 \<and> octet a 1 \<le> 127)"

definition is_v6_link_local :: "ipv6 \<Rightarrow> bool" where
  "is_v6_link_local a = (and (segment a 0) 0xffc0 = 0xfe80)"

definition is_v6_unique_local :: "ipv6 \<Rightarrow> bool" where
  "is_v6_unique_local a = (and (segment a 0) 0xfe00 = 0xfc00)"

definition classify_v4 :: "ipv4 \<Rightarrow> bool \<Rightarrow> string option" where
  "classify_v4 a allow_private =
     (if a = CLOUD_METADATA_V4 then Some ''cloud metadata endpoint''
      else if v4_is_loopback a then Some ''loopback''
      else if v4_is_link_local a then Some ''link-local''
      else if v4_is_broadcast a then Some ''broadcast''
      else if v4_is_multicast a then Some ''multicast''
      else if v4_is_unspecified a then Some ''unspecified''
      else if octet a 0 = 0 then Some ''this-network''
      else if is_cgnat_v4 a then Some ''CGNAT''
      else if v4_is_private a \<and> \<not> allow_private then Some ''private range''
      else None)"

text \<open>The deprecated IPv4-compatible form: the last two segments, byte by byte.\<close>

definition v6_compat_v4 :: "ipv6 \<Rightarrow> ipv4" where
  "v6_compat_v4 a =
     ipv4_of (ucast (drop_bit 8 (segment a 6))) (ucast (and (segment a 6) 255))
       (ucast (drop_bit 8 (segment a 7))) (ucast (and (segment a 7) 255))"

fun classify_ip :: "ip_addr \<Rightarrow> bool \<Rightarrow> string option" where
  "classify_ip (V4 a) allow_private = classify_v4 a allow_private"
| "classify_ip (V6 a) allow_private =
     (case v6_to_ipv4_mapped a of
        Some v4 \<Rightarrow> classify_v4 v4 allow_private
      | None \<Rightarrow>
          if a = 1 then Some ''loopback''
          else if a = 0 then Some ''unspecified''
          else if map (segment a) [0..<6] = [0, 0, 0, 0, 0, 0] then classify_v4 (v6_compat_v4 a) allow_private
          else if v6_is_multicast a then Some ''multicast''
          else if is_v6_link_local a then Some ''link-local''
          else if is_v6_unique_local a \<and> \<not> allow_private then Some ''unique-local''
          else None)"

section \<open>Validation\<close>

record parsed_url =
  url_scheme :: string
  url_username :: string
  url_password :: "string option"
  url_host :: "string option"
  url_port :: "16 word option"
  url_text :: string

type_synonym sock_addr = "ip_addr \<times> 16 word"

record http_client =
  pinned :: "(string \<times> sock_addr list) option"
  follow_redirects :: bool
  use_proxy :: bool
  timeout_secs :: nat

text \<open>
  What the tester reads of a response: the status, its text, the body, and the body decoded as
  \<open>ModelsList\<close> (the \<open>id\<close>s).
\<close>

record http_response =
  resp_success :: bool
  resp_status :: string
  resp_text :: "string option"
  resp_models :: "(string, string list) result"

datatype auth_header = Bearer string | XApiKey string string

record egress_env =
  parse_url :: "string \<Rightarrow> (string, parsed_url) result"
  lookup_host :: "string \<Rightarrow> 16 word \<Rightarrow> (string, sock_addr list) result"
  show_ip :: "ip_addr \<Rightarrow> string"
  build_err :: "http_client \<Rightarrow> string option"
  http_get :: "http_client \<Rightarrow> auth_header \<Rightarrow> string \<Rightarrow> (string, http_response) result"
  private_flag :: "string option"
  sa_json_err :: "string \<Rightarrow> string option"
  adc_err :: "string option"
  fetch_token :: "string option \<Rightarrow> (string, string) result"
  parse_json :: "string \<Rightarrow> json option"

definition parse_and_check_url :: "egress_env \<Rightarrow> string \<Rightarrow> (ssrf_error, parsed_url) result" where
  "parse_and_check_url env raw =
     rbind (map_err InvalidUrl (parse_url env (trim raw))) (\<lambda>url.
     rbind (guard_err (url_scheme url \<notin> {''http'', ''https''}) (ForbiddenScheme (url_scheme url))) (\<lambda>_.
     rbind (guard_err (url_username url \<noteq> [] \<or> url_password url \<noteq> None) CredentialsInUrl) (\<lambda>_.
     rbind (guard_err (url_host url = None) MissingHost) (\<lambda>_. Inr url))))"

record validated_url =
  v_url :: parsed_url
  v_host :: string
  v_addrs :: "sock_addr list"

text \<open>The loop over the resolved addresses returns at the first blocked one.\<close>

fun screen_addrs :: "bool \<Rightarrow> string \<Rightarrow> sock_addr list \<Rightarrow> (ssrf_error, unit) result" where
  "screen_addrs allow_private host [] = Inr ()"
| "screen_addrs allow_private host (sa # sas) =
     (case classify_ip (fst sa) allow_private of
        Some reason \<Rightarrow> Inl (BlockedAddress host (fst sa) reason)
      | None \<Rightarrow> screen_addrs allow_private host sas)"

definition validate_outbound_url :: "egress_env \<Rightarrow> string \<Rightarrow> egress_policy \<Rightarrow> (ssrf_error, validated_url) result" where
  "validate_outbound_url env raw policy =
     rbind (parse_and_check_url env raw) (\<lambda>url.
     rbind (ok_or (url_host url) MissingHost) (\<lambda>h.
     let host = to_lowercase h in
     rbind (guard_err (host \<in> set ALWAYS_DENIED_HOSTS \<or>
         list_ex (\<lambda>d. to_lowercase d = host) (extra_denied_hosts policy)) (DeniedHost host)) (\<lambda>_.
     let port = (case url_port url of Some p \<Rightarrow> p | None \<Rightarrow> 443) in
     rbind (map_err DnsFailure (lookup_host env host port)) (\<lambda>addrs.
     rbind (guard_err (addrs = []) (DnsFailure (host @ '' resolved to no addresses''))) (\<lambda>_.
     rbind (screen_addrs (allow_private_ranges policy) host addrs) (\<lambda>_.
       Inr \<lparr>v_url = url, v_host = host, v_addrs = addrs\<rparr>))))))"

definition build_client :: "egress_env \<Rightarrow> http_client \<Rightarrow> (string, http_client) result" where
  "build_client env c = (case build_err env c of Some e \<Rightarrow> Inl e | None \<Rightarrow> Inr c)"

definition build_pinned_client :: "egress_env \<Rightarrow> validated_url \<Rightarrow> nat \<Rightarrow> (ssrf_error, http_client) result" where
  "build_pinned_client env v timeout =
     map_err (\<lambda>e. InvalidUrl (''failed to build pinned client: '' @ e))
       (build_client env \<lparr>pinned = Some (v_host v, v_addrs v), follow_redirects = False, use_proxy = False,
          timeout_secs = timeout\<rparr>)"

section \<open>The credential tester\<close>

record test_result =
  tr_success :: bool
  tr_model_count :: "32 word option"
  tr_error :: "string option"

definition test_ok :: "32 word \<Rightarrow> test_result" where
  "test_ok n = \<lparr>tr_success = True, tr_model_count = Some n, tr_error = None\<rparr>"

definition test_err :: "string \<Rightarrow> test_result" where
  "test_err msg = \<lparr>tr_success = False, tr_model_count = None, tr_error = Some msg\<rparr>"

definition default_base_url :: "string \<Rightarrow> string" where
  "default_base_url provider_type =
     (let t = to_lowercase provider_type in
      if t = ''openai'' then ''https://api.openai.com/v1''
      else if t = ''google'' then ''https://generativelanguage.googleapis.com/v1beta/openai''
      else if t = ''anthropic'' then ''https://api.anthropic.com''
      else '''')"

definition trim_end_slash :: "string \<Rightarrow> string" where
  "trim_end_slash s = rev (dropWhile (\<lambda>c. c = CHR ''/'') (rev s))"

definition resolved_base :: "string \<Rightarrow> string option \<Rightarrow> string" where
  "resolved_base provider_type base_url =
     (case map_option trim_end_slash base_url of
        Some s \<Rightarrow> if s = [] then default_base_url provider_type else s
      | None \<Rightarrow> default_base_url provider_type)"

definition vertex_char :: "char \<Rightarrow> bool" where
  "vertex_char c = (is_ascii_lowercase c \<or> is_digit c \<or> c = CHR ''-'')"

definition validate_vertex_region :: "string \<Rightarrow> bool" where
  "validate_vertex_region region = (region \<noteq> [] \<and> length region \<le> 40 \<and> list_all vertex_char region)"

definition validate_vertex_project :: "string \<Rightarrow> bool" where
  "validate_vertex_project project = (project \<noteq> [] \<and> length project \<le> 40 \<and> list_all vertex_char project)"

text \<open>
  What leaves the process: a request with the client it went through and its URL, or the acquisition of a
  token by the \<open>gcp_auth\<close> crate. The crate sends its own requests, which the program does not see: to the token
  endpoint the service-account JSON names, or without one to wherever the default credentials come from, the
  metadata server among them.
\<close>

datatype sent = Sent http_client string | TokenMint "string option"

text \<open>\<open>mint_access_token\<close> of \<open>vertex.rs\<close>.\<close>

definition mint_access_token :: "egress_env \<Rightarrow> string option \<Rightarrow> sent list \<times> (string, string) result" where
  "mint_access_token env credential =
     (let minted = map_err (\<lambda>e. ''failed to mint access token: '' @ e) (fetch_token env credential) in
      case credential of
        Some sa_json \<Rightarrow>
          (case sa_json_err env sa_json of
             Some e \<Rightarrow> ([], Inl (''invalid service-account JSON: '' @ e))
           | None \<Rightarrow> ([TokenMint credential], minted))
      | None \<Rightarrow>
          (case adc_err env of
             Some e \<Rightarrow> ([TokenMint credential], Inl (''no Application Default Credentials: '' @ e))
           | None \<Rightarrow> ([TokenMint credential], minted)))"

text \<open>\<open>sa_project_id\<close> of \<open>vertex.rs\<close>.\<close>

definition sa_project_id :: "egress_env \<Rightarrow> string option \<Rightarrow> string option" where
  "sa_project_id env cred =
     Option.bind cred (\<lambda>j. Option.bind (parse_json env j) (\<lambda>v. get_str v ''project_id''))"

definition vertex_host :: "string \<Rightarrow> string" where
  "vertex_host region =
     (if region = ''global'' then ''aiplatform.googleapis.com'' else region @ ''-aiplatform.googleapis.com'')"

definition vertex_models_url :: "string \<Rightarrow> string \<Rightarrow> string" where
  "vertex_models_url region project =
     ''https://'' @ vertex_host region @ ''/v1/projects/'' @ project @ ''/locations/'' @ region @
     ''/publishers/google/models''"

definition non_empty :: "string option \<Rightarrow> string option" where
  "non_empty x = (case x of Some [] \<Rightarrow> None | _ \<Rightarrow> x)"

definition probe_vertex :: "egress_env \<Rightarrow> string \<Rightarrow> string option \<Rightarrow> string option \<Rightarrow> sent list \<times> test_result" where
  "probe_vertex env credential region project =
     (let cred = (if trim credential = [] then None else Some credential);
          (minting, minted) = mint_access_token env cred in
      case minted of
        Inl e \<Rightarrow> (minting, test_err (''vertex auth failed: '' @ e))
      | Inr token \<Rightarrow>
          let region = (case non_empty region of Some r \<Rightarrow> r | None \<Rightarrow> ''us-central1'') in
          (case (case non_empty project of Some p \<Rightarrow> Some p | None \<Rightarrow> sa_project_id env cred) of
             None \<Rightarrow> (minting, test_err ''vertex: project required (set project or use an SA key)'')
           | Some project \<Rightarrow>
               if \<not> validate_vertex_region region then (minting, test_err ''vertex: invalid region format'')
               else if \<not> validate_vertex_project project then (minting, test_err ''vertex: invalid project format'')
               else
                 let url = vertex_models_url region project;
                     client = \<lparr>pinned = None, follow_redirects = False, use_proxy = True, timeout_secs = 10\<rparr>
                 in (case build_client env client of
                       Inl e \<Rightarrow> (minting, test_err (''http client: '' @ e))
                     | Inr c \<Rightarrow>
                         (minting @ [Sent c url],
                          case http_get env c (Bearer token) url of
                            Inl e \<Rightarrow> test_err (''vertex request failed: '' @ e)
                          | Inr resp \<Rightarrow>
                              if resp_success resp then test_ok 0
                              else test_err (''vertex HTTP '' @ resp_status resp)))))"

definition body_snippet :: "string option \<Rightarrow> string" where
  "body_snippet t = (case t of None \<Rightarrow> [] | Some s \<Rightarrow> concat (take 200 (utf8_chars s)))"

text \<open>
  The body of \<open>fetch_openai_compat_models\<close> and \<open>fetch_anthropic_models\<close>, which differ in the
  path, the headers and one message.
\<close>

definition fetch_models ::
  "egress_env \<Rightarrow> http_client \<Rightarrow> auth_header \<Rightarrow> string \<Rightarrow> string \<Rightarrow> sent list \<times> (string, string list) result" where
  "fetch_models env client auth url bad_shape =
     ([Sent client url],
      case http_get env client auth url of
        Inl e \<Rightarrow> Inl (''connection failed to '' @ url @ '': '' @ e)
      | Inr resp \<Rightarrow>
          if \<not> resp_success resp
          then Inl (''HTTP '' @ resp_status resp @ '' from '' @ url @ '': '' @ body_snippet (resp_text resp))
          else map_err (\<lambda>e. bad_shape @ e) (resp_models resp))"

definition fetch_openai_compat_models ::
  "egress_env \<Rightarrow> http_client \<Rightarrow> string \<Rightarrow> string \<Rightarrow> sent list \<times> (string, string list) result" where
  "fetch_openai_compat_models env client base_url api_key =
     fetch_models env client (Bearer api_key) (base_url @ ''/models'') ''invalid /models response shape: ''"

definition fetch_anthropic_models ::
  "egress_env \<Rightarrow> http_client \<Rightarrow> string \<Rightarrow> string \<Rightarrow> sent list \<times> (string, string list) result" where
  "fetch_anthropic_models env client base_url api_key =
     fetch_models env client (XApiKey api_key ''2023-06-01'') (trim_end_slash base_url @ ''/v1/models'')
       ''invalid Anthropic /models response: ''"

fun probe_result :: "(string, string list) result \<Rightarrow> test_result" where
  "probe_result (Inr models) = test_ok (of_nat (length models))"
| "probe_result (Inl e) = test_err e"

definition test_connection ::
  "egress_env \<Rightarrow> string \<Rightarrow> string \<Rightarrow> string option \<Rightarrow> string option \<Rightarrow> string option \<Rightarrow> sent list \<times> test_result" where
  "test_connection env provider_type api_key base_url region project =
     (if eq_ignore_ascii_case provider_type ''vertex'' then probe_vertex env api_key region project
      else if trim api_key = [] then ([], test_err ''api_key is empty'')
      else
        let base = resolved_base provider_type base_url in
        if base = [] then
          ([], test_err (''no default base_url for provider_type='' @ provider_type @ ''; supply one explicitly''))
        else case validate_outbound_url env base (egress_from_env (private_flag env)) of
          Inl e \<Rightarrow> ([], test_err (''base_url rejected: '' @ ssrf_error_to_string (show_ip env) e))
        | Inr validated \<Rightarrow>
            (case build_pinned_client env validated 10 of
               Inl e \<Rightarrow> ([], test_err (''failed to build HTTP client: '' @ ssrf_error_to_string (show_ip env) e))
             | Inr client \<Rightarrow>
                 let (log, res) =
                   (if to_lowercase provider_type = ''anthropic'' then fetch_anthropic_models env client base api_key
                    else fetch_openai_compat_models env client base api_key)
                 in (log, probe_result res)))"

section \<open>Listing the models of a provider\<close>

definition strip_prefix :: "string \<Rightarrow> string \<Rightarrow> string option" where
  "strip_prefix p s = (if prefix p s then Some (drop (length p) s) else None)"

definition normalize_model_id :: "string \<Rightarrow> string" where
  "normalize_model_id i = (case strip_prefix ''models/'' i of Some s \<Rightarrow> s | None \<Rightarrow> i)"

definition is_chat_capable :: "string \<Rightarrow> string \<Rightarrow> bool" where
  "is_chat_capable provider_type i =
     (let lower = to_lowercase i in
      if list_ex (str_contains lower) [''embedding'', ''text-embedding'', ''whisper'', ''tts-'', ''dall-e'', ''image-'']
         \<or> prefix ''image-'' lower
         \<or> list_ex (str_contains lower) [''moderation'', ''babbage'', ''davinci-'', ''ada-'']
      then False
      else if provider_type = ''google'' then
        \<not> list_ex (str_contains lower) [''aqa'', ''imagen'', ''veo'', ''text-bison'', ''chat-bison'']
      else True)"

definition list_upstream_models ::
  "egress_env \<Rightarrow> string \<Rightarrow> string \<Rightarrow> string option \<Rightarrow> sent list \<times> (string, string list) result" where
  "list_upstream_models env provider_type api_key base_url =
     (if trim api_key = [] then ([], Inl ''api_key is empty'')
      else case build_client env \<lparr>pinned = None, follow_redirects = True, use_proxy = True, timeout_secs = 15\<rparr> of
        Inl e \<Rightarrow> ([], Inl (''failed to build HTTP client: '' @ e))
      | Inr client \<Rightarrow>
          let base = resolved_base provider_type base_url in
          if base = [] then
            ([], Inl (''no default base_url for provider_type='' @ provider_type @ ''; supply one explicitly''))
          else
            let (log, res) =
              (if to_lowercase provider_type = ''anthropic'' then fetch_anthropic_models env client base api_key
               else fetch_openai_compat_models env client base api_key)
            in (log, rbind res (\<lambda>raw_ids.
                 Inr (remdups_adj (sort (filter (is_chat_capable (to_lowercase provider_type))
                   (map normalize_model_id raw_ids)))))))"

section \<open>The denied address blocks\<close>

text \<open>
  What the guard promises, in CIDR notation: the blocks that are always denied, the ones an
  operator may allow, and the two IPv6 blocks that embed an IPv4 address.
\<close>

definition in_net :: "'a::len word \<Rightarrow> nat \<Rightarrow> 'a word \<Rightarrow> bool" where
  "in_net base len a = (drop_bit (LENGTH('a) - len) a = drop_bit (LENGTH('a) - len) base)"

definition denied_v4 :: "ipv4 \<Rightarrow> bool" where
  "denied_v4 a = (in_net (ipv4_of 0 0 0 0) 8 a \<or> in_net (ipv4_of 100 64 0 0) 10 a \<or>
     in_net (ipv4_of 127 0 0 0) 8 a \<or> in_net (ipv4_of 169 254 0 0) 16 a \<or>
     in_net (ipv4_of 224 0 0 0) 4 a \<or> in_net (ipv4_of 255 255 255 255) 32 a)"

definition private_v4 :: "ipv4 \<Rightarrow> bool" where
  "private_v4 a = (in_net (ipv4_of 10 0 0 0) 8 a \<or> in_net (ipv4_of 172 16 0 0) 12 a \<or>
     in_net (ipv4_of 192 168 0 0) 16 a)"

definition v4_forbidden :: "bool \<Rightarrow> ipv4 \<Rightarrow> bool" where
  "v4_forbidden allow_private a = (denied_v4 a \<or> (\<not> allow_private \<and> private_v4 a))"

fun ip_forbidden :: "bool \<Rightarrow> ip_addr \<Rightarrow> bool" where
  "ip_forbidden allow_private (V4 a) = v4_forbidden allow_private a"
| "ip_forbidden allow_private (V6 a) =
     (in_net 0 128 a \<or> in_net 1 128 a \<or> in_net (push_bit 112 0xff00) 8 a \<or> in_net (push_bit 112 0xfe80) 10 a \<or>
      (\<not> allow_private \<and> in_net (push_bit 112 0xfc00) 7 a) \<or>
      ((in_net 0 96 a \<or> in_net (push_bit 32 0xffff) 96 a) \<and> v4_forbidden allow_private (ucast a)))"

lemma unat_drop_bit_div: "unat (drop_bit k (a :: 'a::len word)) = unat a div 2 ^ k"
  by (subst unat_drop_bit_eq) (simp only: drop_bit_eq_div)

lemma word_eq_unat: "(a :: 'a::len word) = b \<longleftrightarrow> unat a = unat b"
  by (simp add: word_unat_eq_iff)

lemma div_range: "0 < k \<Longrightarrow> (n :: nat) div k = c \<longleftrightarrow> c * k \<le> n \<and> n < Suc c * k"
  by (metis div_nat_eqI less_mult_imp_div_less mult.commute times_div_less_eq_dividend
      dividend_less_div_times mult_Suc)

lemma unat_octet: "unat (octet a i) = (unat a div 2 ^ (24 - 8 * i)) mod 256"
  unfolding octet_def by (simp only: unsigned_ucast_eq unat_drop_bit_div take_bit_eq_mod) simp

lemma in_net_unat:
  "in_net base len (a :: 'a::len word) \<longleftrightarrow>
     unat a div 2 ^ (LENGTH('a) - len) = unat base div 2 ^ (LENGTH('a) - len)"
  by (simp only: in_net_def word_eq_unat [of "drop_bit _ _"] unat_drop_bit_div)

text \<open>The leading bits of an IPv4 address by its first two octets.\<close>

lemma v4_leading:
  "unat (a :: ipv4) div 16777216 = unat (octet a 0)"
  "unat a div 65536 = 256 * unat (octet a 0) + unat (octet a 1)"
  "unat a div 268435456 = unat (octet a 0) div 16"
  "unat a div 4194304 = 4 * unat (octet a 0) + unat (octet a 1) div 64"
  "unat a div 1048576 = 16 * unat (octet a 0) + unat (octet a 1) div 16"
proof -
  define m where "m = unat a div 65536"
  have lt: "m < 65536" using unsigned_less [of a, where 'a = nat] by (simp add: m_def less_mult_imp_div_less)
  have o1: "unat (octet a 1) = m mod 256" by (simp add: unat_octet m_def)
  have d: "unat a div (65536 * k) = m div k" for k by (simp only: m_def div_mult2_eq)
  have o0: "unat (octet a 0) = m div 256"
    using lt d [of 256] by (simp add: unat_octet)
  have m: "m = 256 * unat (octet a 0) + unat (octet a 1)" by (simp only: o0 o1 mult_div_mod_eq)
  show "unat a div 16777216 = unat (octet a 0)" using d [of 256] o0 by simp
  show "unat a div 65536 = 256 * unat (octet a 0) + unat (octet a 1)" using m by (simp add: m_def)
  show "unat a div 268435456 = unat (octet a 0) div 16"
    using d [of 4096] o0 div_mult2_eq [of m 256 16] by simp
  show "unat a div 4194304 = 4 * unat (octet a 0) + unat (octet a 1) div 64"
    using d [of 64] div_mult_self3 [of 64 "4 * unat (octet a 0)" "unat (octet a 1)"] m
    by (simp add: mult.commute)
  show "unat a div 1048576 = 16 * unat (octet a 0) + unat (octet a 1) div 16"
    using d [of 16] div_mult_self3 [of 16 "16 * unat (octet a 0)" "unat (octet a 1)"] m
    by (simp add: mult.commute)
qed

lemma ipv4_consts:
  "ipv4_of 0 0 0 0 = 0" "ipv4_of 100 64 0 0 = 1681915904" "ipv4_of 127 0 0 0 = 2130706432"
  "ipv4_of 169 254 0 0 = 2851995648" "ipv4_of 224 0 0 0 = 3758096384"
  "ipv4_of 255 255 255 255 = 4294967295" "ipv4_of 10 0 0 0 = 167772160"
  "ipv4_of 172 16 0 0 = 2886729728" "ipv4_of 192 168 0 0 = 3232235520"
  "ipv4_of 169 254 169 254 = 2852039166"
  by code_simp+

lemmas v4_class_simps =
  v4_is_loopback_def v4_is_link_local_def v4_is_multicast_def v4_is_private_def is_cgnat_v4_def
  v4_is_broadcast_def word_eq_unat [of "octet _ _"] word_le_nat_alt in_net_unat ipv4_consts v4_leading

lemma octet_lt: "unat (octet a i) < 256"
  using unsigned_less [of "octet a i"] by simp

lemma digit_split: "d < b \<Longrightarrow> d' < b \<Longrightarrow> b * q + d = b * q' + d' \<longleftrightarrow> q = q' \<and> d = d'"
  for b :: nat
  by (metis add.commute div_mult_self2 div_less gr_implies_not0 add_0 add_left_cancel)

lemma two_octets:
  "(r :: nat) < 256 \<Longrightarrow> 4 * q + r div 64 = 401 \<longleftrightarrow> q = 100 \<and> 64 \<le> r \<and> r \<le> 127"
  "r < 256 \<Longrightarrow> 16 * q + r div 16 = 2753 \<longleftrightarrow> q = 172 \<and> 16 \<le> r \<and> r \<le> 31"
  "r < 256 \<Longrightarrow> 256 * q + r = 43518 \<longleftrightarrow> q = 169 \<and> r = 254"
  "r < 256 \<Longrightarrow> 256 * q + r = 49320 \<longleftrightarrow> q = 192 \<and> r = 168"
  "q div 16 = 14 \<longleftrightarrow> 224 \<le> q \<and> q \<le> (239 :: nat)"
  using digit_split [of "r div 64" 4 1 q 100] digit_split [of "r div 16" 16 1 q 172]
    digit_split [of r 256 254 q 169] digit_split [of r 256 168 q 192]
  by (auto simp: div_range [of 64 r 1] div_range [of 16 r 1] div_range [of 16 q 14])

lemma denied_nets:
  "in_net (ipv4_of 0 0 0 0) 8 a \<longleftrightarrow> octet a 0 = 0"
  "in_net (ipv4_of 127 0 0 0) 8 a \<longleftrightarrow> v4_is_loopback a"
  "in_net (ipv4_of 169 254 0 0) 16 a \<longleftrightarrow> v4_is_link_local a"
  "in_net (ipv4_of 224 0 0 0) 4 a \<longleftrightarrow> v4_is_multicast a"
  "in_net (ipv4_of 100 64 0 0) 10 a \<longleftrightarrow> is_cgnat_v4 a"
  "in_net (ipv4_of 255 255 255 255) 32 a \<longleftrightarrow> v4_is_broadcast a"
  "in_net (ipv4_of 10 0 0 0) 8 a \<longleftrightarrow> octet a 0 = 10"
  "in_net (ipv4_of 172 16 0 0) 12 a \<longleftrightarrow> octet a 0 = 172 \<and> 16 \<le> octet a 1 \<and> octet a 1 \<le> 31"
  "in_net (ipv4_of 192 168 0 0) 16 a \<longleftrightarrow> octet a 0 = 192 \<and> octet a 1 = 168"
  using octet_lt [of a 0] octet_lt [of a 1]
  by (simp_all add: v4_class_simps two_octets word_unat_eq_iff)

lemma classify_v4_spec: "classify_v4 a allow_private \<noteq> None \<longleftrightarrow> v4_forbidden allow_private a"
proof -
  have "v4_is_link_local CLOUD_METADATA_V4" by code_simp
  moreover have "v4_is_unspecified a \<Longrightarrow> octet a 0 = 0"
    by (simp add: v4_is_unspecified_def octet_def)
  ultimately show ?thesis
    unfolding classify_v4_def v4_forbidden_def denied_v4_def private_v4_def denied_nets v4_is_private_def
    by auto
qed

text \<open>The same for IPv6, by its segments.\<close>

lemma unat_segment: "unat (segment a i) = (unat a div 2 ^ (112 - 16 * i)) mod 65536"
  unfolding segment_def by (simp only: unsigned_ucast_eq unat_drop_bit_div take_bit_eq_mod) simp

lemma div_step: "(n :: nat) div k = c \<longleftrightarrow> n div (k * 65536) = c div 65536 \<and> n div k mod 65536 = c mod 65536"
  by (metis div_mult2_eq div_mult_mod_eq)

lemma unat_v6_top: "unat (a :: ipv6) div 2 ^ 112 = unat (segment a 0)"
proof -
  have "unat a < 2 ^ 128" using unsigned_less [of a, where 'a = nat] by simp
  then have "unat a div 2 ^ 112 < 65536" by (simp add: less_mult_imp_div_less)
  then show ?thesis by (simp add: unat_segment)
qed

lemma leading_segments:
  "unat (a :: ipv6) div 2 ^ 32 = c \<longleftrightarrow>
     unat (segment a 0) = c div 2 ^ 80 \<and> unat (segment a 1) = c div 2 ^ 64 mod 65536 \<and>
     unat (segment a 2) = c div 2 ^ 48 mod 65536 \<and> unat (segment a 3) = c div 2 ^ 32 mod 65536 \<and>
     unat (segment a 4) = c div 2 ^ 16 mod 65536 \<and> unat (segment a 5) = c mod 65536"
  using div_step [of "unat a" "2 ^ 32" c] div_step [of "unat a" "2 ^ 48" "c div 2 ^ 16"]
    div_step [of "unat a" "2 ^ 64" "c div 2 ^ 32"] div_step [of "unat a" "2 ^ 80" "c div 2 ^ 48"]
    div_step [of "unat a" "2 ^ 96" "c div 2 ^ 64"] unat_v6_top [of a]
  by (simp add: unat_segment div_mult2_eq [symmetric])

lemma upt_segments:
  "[0..<5] = [0, 1, 2, 3, 4 :: nat]" "[0..<6] = [0, 1, 2, 3, 4, 5 :: nat]"
  by (simp_all add: upt_rec)

lemma v6_embeds:
  "map (segment a) [0..<5] = [0, 0, 0, 0, 0] \<and> segment a 5 = 0xffff \<longleftrightarrow> in_net (push_bit 32 0xffff) 96 a"
  "map (segment a) [0..<6] = [0, 0, 0, 0, 0, 0] \<longleftrightarrow> in_net 0 96 a"
  using leading_segments [of a 65535] leading_segments [of a 0]
  by (simp_all add: in_net_unat upt_segments word_eq_unat [of "segment _ _"])

lemma ucast_of_nat: "(ucast (x :: 'a::len word) :: 'b::len word) = of_nat (unat x)"
  by (simp add: word_unat_eq_iff unsigned_ucast_eq unsigned_of_nat)

lemma low_word: "(ucast a :: ipv4) = of_nat (65536 * unat (segment a 6) + unat (segment a 7))"
proof -
  have "(ucast a :: ipv4) = of_nat (unat a)" by (rule ucast_of_nat)
  also have "\<dots> = of_nat (unat a mod 4294967296)"
    by (simp only: word_unat_eq_iff unsigned_of_nat take_bit_eq_mod) simp
  also have "unat a mod 4294967296 = 65536 * unat (segment a 6) + unat (segment a 7)"
    using mod_mult2_eq [of "unat a" 65536 65536] by (simp add: unat_segment)
  finally show ?thesis .
qed

lemma mapped_v4: "push_bit 16 (ucast (segment a 6)) + ucast (segment a 7) = (ucast a :: ipv4)"
  unfolding low_word ucast_of_nat [of "segment a _"] by (simp add: push_bit_eq_mult mult.commute)

lemma unat_and_255: "unat (and s (255 :: 16 word)) = unat s mod 256"
proof -
  have "and s 255 = take_bit 8 s" by (simp add: take_bit_eq_mask mask_eq_exp_minus_1)
  then have "unat (and s 255) = take_bit 8 (unat s)" by (simp only: unsigned_take_bit_eq)
  then show ?thesis by (simp only: take_bit_eq_mod) simp
qed

lemma ipv4_sum:
  "(push_bit 24 (of_nat x) + push_bit 16 (of_nat y) + push_bit 8 (of_nat z) + of_nat w :: ipv4) =
     of_nat (65536 * (256 * x + y) + (256 * z + w))"
  by (simp add: push_bit_eq_mult mult.commute)

lemma compat_v4: "v6_compat_v4 a = ucast a"
proof -
  have b: "ucast (ucast (drop_bit 8 s) :: 8 word) = (of_nat (unat s div 256) :: ipv4)"
    "ucast (ucast (and s 255) :: 8 word) = (of_nat (unat s mod 256) :: ipv4)" for s :: "16 word"
    by (simp_all only: ucast_of_nat [where 'b = 32] unsigned_ucast_eq unat_drop_bit_div take_bit_eq_mod unat_and_255)
      (use unsigned_less [of s, where 'a = nat] in \<open>simp_all add: less_mult_imp_div_less\<close>)
  show ?thesis
    by (simp only: v6_compat_v4_def ipv4_of_def b ipv4_sum mult_div_mod_eq low_word)
qed

lemma high_bits:
  fixes x y :: "'a::len word"
  assumes "take_bit k y = 0"
  shows "and x (not (mask k)) = y \<longleftrightarrow> drop_bit k x = drop_bit k y"
proof -
  have y: "\<not> bit y n" if "n < k" for n
    using assms that by (metis bit_0_eq bit_take_bit_iff bot_apply bot_bool_def)
  have "and x (not (mask k)) = y \<longleftrightarrow> (\<forall>n. (bit x n \<and> k \<le> n) = bit y n)"
    by (auto simp: bit_eq_iff bit_simps not_less dest: bit_imp_le_length)
  also have "\<dots> \<longleftrightarrow> (\<forall>n. bit x (k + n) = bit y (k + n))"
    using y by (metis le_add1 le_add_diff_inverse not_less)
  also have "\<dots> \<longleftrightarrow> drop_bit k x = drop_bit k y"
    by (auto simp: bit_eq_iff bit_drop_bit_eq dest: bit_imp_le_length)
      (metis bit_imp_le_length trans_le_add2 not_less add.commute)+
  finally show ?thesis .
qed

lemma v6_masks:
  "v6_is_multicast a \<longleftrightarrow> drop_bit 8 (segment a 0) = 0xff"
  "is_v6_link_local a \<longleftrightarrow> drop_bit 6 (segment a 0) = 0x3fa"
  "is_v6_unique_local a \<longleftrightarrow> drop_bit 9 (segment a 0) = 0x7e"
proof -
  have m: "(0xff00 :: 16 word) = not (mask 8)" "(0xffc0 :: 16 word) = not (mask 6)"
    "(0xfe00 :: 16 word) = not (mask 9)"
    by (simp_all add: mask_eq_exp_minus_1)
  show "v6_is_multicast a \<longleftrightarrow> drop_bit 8 (segment a 0) = 0xff"
    unfolding v6_is_multicast_def using high_bits [of 8 "0xff00 :: 16 word" "segment a 0"]
    by (simp add: m [symmetric] del: drop_bit_eq_div)
  show "is_v6_link_local a \<longleftrightarrow> drop_bit 6 (segment a 0) = 0x3fa"
    unfolding is_v6_link_local_def using high_bits [of 6 "0xfe80 :: 16 word" "segment a 0"]
    by (simp add: m [symmetric])
  show "is_v6_unique_local a \<longleftrightarrow> drop_bit 9 (segment a 0) = 0x7e"
    unfolding is_v6_unique_local_def using high_bits [of 9 "0xfc00 :: 16 word" "segment a 0"]
    by (simp add: m [symmetric])
qed

lemma v6_nets:
  "v6_is_multicast a \<longleftrightarrow> in_net (push_bit 112 0xff00) 8 a"
  "is_v6_link_local a \<longleftrightarrow> in_net (push_bit 112 0xfe80) 10 a"
  "is_v6_unique_local a \<longleftrightarrow> in_net (push_bit 112 0xfc00) 7 a"
  using unat_v6_top [of a] div_mult2_eq [of "unat a" "2 ^ 112" "2 ^ 8"]
    div_mult2_eq [of "unat a" "2 ^ 112" "2 ^ 6"] div_mult2_eq [of "unat a" "2 ^ 112" "2 ^ 9"]
  by (simp_all add: v6_masks in_net_unat word_eq_unat [of "drop_bit _ _"] unat_drop_bit_div push_bit_eq_mult)

lemma in_net_full: "in_net b LENGTH('a) a \<longleftrightarrow> a = (b :: 'a::len word)"
  by (simp add: in_net_def)

lemma embedded_only:
  assumes "in_net 0 96 a \<or> in_net (push_bit 32 0xffff) 96 (a :: ipv6)"
  shows "\<not> in_net (push_bit 112 0xff00) 8 a" "\<not> in_net (push_bit 112 0xfe80) 10 a" "\<not> in_net (push_bit 112 0xfc00) 7 a"
proof -
  have "unat a div 2 ^ 32 = 0 \<or> unat a div 2 ^ 32 = 65535" using assms by (auto simp: in_net_unat)
  then have z: "unat a div 2 ^ 112 = 0" using div_mult2_eq [of "unat a" "2 ^ 32" "2 ^ 80"] by auto
  then show "\<not> in_net (push_bit 112 0xff00) 8 a" "\<not> in_net (push_bit 112 0xfe80) 10 a"
    "\<not> in_net (push_bit 112 0xfc00) 7 a"
    using div_mult2_eq [of "unat a" "2 ^ 112" "2 ^ 8"] div_mult2_eq [of "unat a" "2 ^ 112" "2 ^ 6"]
      div_mult2_eq [of "unat a" "2 ^ 112" "2 ^ 9"]
    by (auto simp: in_net_unat push_bit_eq_mult)
qed

lemma classify_ip_spec: "classify_ip a allow_private \<noteq> None \<longleftrightarrow> ip_forbidden allow_private a"
proof (cases a)
  case (V4 a)
  then show ?thesis using classify_v4_spec by simp
next
  case (V6 b)
  let ?mapped = "in_net (push_bit 32 0xffff) 96 b"
  have low: "in_net 0 96 (0 :: ipv6)" "in_net 0 96 (1 :: ipv6)" "\<not> in_net (push_bit 32 0xffff) 96 (0 :: ipv6)"
    "\<not> in_net (push_bit 32 0xffff) 96 (1 :: ipv6)"
    by (simp_all add: in_net_unat)
  have m: "v6_to_ipv4_mapped b = (if ?mapped then Some (ucast b) else None)"
    by (simp only: v6_to_ipv4_mapped_def v6_embeds mapped_v4)
  have full: "in_net 0 128 b \<longleftrightarrow> b = 0" "in_net 1 128 b \<longleftrightarrow> b = 1"
    using in_net_full [where 'a = 128, of _ b] by simp_all
  have ex: "\<not> (in_net 0 96 b \<and> ?mapped)" by (auto simp: in_net_unat)
  show ?thesis
    unfolding V6 classify_ip.simps ip_forbidden.simps m v6_embeds compat_v4 v6_nets full
    using classify_v4_spec [of "ucast b" allow_private] embedded_only [of b] low ex by auto
qed

section \<open>What leaves the gateway\<close>

lemma screen_addrs_ok:
  "screen_addrs p host sas = Inr u \<longleftrightarrow> (\<forall>sa \<in> set sas. \<not> ip_forbidden p (fst sa))"
  by (induction sas) (auto simp: classify_ip_spec [symmetric] split: option.splits)

lemma validate_outbound_urlE:
  assumes "validate_outbound_url env raw policy = Inr v"
  obtains url h where "parse_and_check_url env raw = Inr url" "url_host url = Some h"
    "v_url v = url" "v_host v = to_lowercase h" "v_host v \<notin> set ALWAYS_DENIED_HOSTS" "v_addrs v \<noteq> []"
    "\<forall>sa \<in> set (v_addrs v). \<not> ip_forbidden (allow_private_ranges policy) (fst sa)"
  using assms unfolding validate_outbound_url_def
  by (auto simp: rbind_Inr Let_def screen_addrs_ok)

lemma fetch_models_log:
  "fst (fetch_openai_compat_models env c base key) = [Sent c (base @ ''/models'')]"
  "fst (fetch_anthropic_models env c base key) = [Sent c (trim_end_slash base @ ''/v1/models'')]"
  by (simp_all add: fetch_openai_compat_models_def fetch_anthropic_models_def fetch_models_def)

lemma vertex_host_ok:
  assumes "validate_vertex_region region"
  shows "suffix ''.googleapis.com'' (vertex_host region)" "\<forall>ch \<in> set (vertex_host region). vertex_char ch \<or> ch = CHR ''.''"
proof -
  show "suffix ''.googleapis.com'' (vertex_host region)"
    unfolding vertex_host_def suffix_def
    by (rule exI [of _ "if region = ''global'' then ''aiplatform'' else region @ ''-aiplatform''"]) simp
  show "\<forall>ch \<in> set (vertex_host region). vertex_char ch \<or> ch = CHR ''.''"
  proof -
    have "list_all (\<lambda>ch. vertex_char ch \<or> ch = CHR ''.'') ''-aiplatform.googleapis.com''" by code_simp
    moreover have "list_all (\<lambda>ch. vertex_char ch \<or> ch = CHR ''.'') ''aiplatform.googleapis.com''" by code_simp
    moreover have "list_all (\<lambda>ch. vertex_char ch \<or> ch = CHR ''.'') region"
      using assms by (auto simp: validate_vertex_region_def list_all_iff)
    ultimately have "list_all (\<lambda>ch. vertex_char ch \<or> ch = CHR ''.'') (vertex_host region)"
      unfolding vertex_host_def by (simp only: list_all_append if_split) blast
    then show ?thesis by (simp only: list_all_iff)
  qed
qed

lemma mint_access_token_log: "set (fst (mint_access_token env cred)) \<subseteq> {TokenMint cred}"
  by (auto simp: mint_access_token_def Let_def split: option.splits)

lemma probe_vertex_log:
  assumes "x \<in> set (fst (probe_vertex env credential region project))"
  obtains (mint) "x = TokenMint (if trim credential = [] then None else Some credential)"
  | (request) c reg proj where "validate_vertex_region reg" "x = Sent c (vertex_models_url reg proj)" "\<not> follow_redirects c"
proof -
  let ?cred = "if trim credential = [] then None else Some credential"
  have "x = TokenMint ?cred \<or> (\<exists>c reg proj. validate_vertex_region reg \<and> x = Sent c (vertex_models_url reg proj) \<and> \<not> follow_redirects c)"
    using assms mint_access_token_log [of env ?cred] unfolding probe_vertex_def
    by (auto simp: Let_def build_client_def case_prod_beta split: sum.splits option.splits if_splits) blast+
  then show thesis using mint request by blast
qed

lemma trim_end_slash_idem [simp]: "trim_end_slash (trim_end_slash s) = trim_end_slash s"
  by (simp add: trim_end_slash_def)

lemma resolved_base_trimmed: "trim_end_slash (resolved_base provider_type base_url) = resolved_base provider_type base_url"
proof -
  have "trim_end_slash (default_base_url t) = default_base_url t" for t
    by (simp add: default_base_url_def Let_def trim_end_slash_def)
  then show ?thesis by (simp add: resolved_base_def split: option.split)
qed

lemma test_connection_log:
  assumes "x \<in> set (fst (test_connection env provider_type api_key base_url region project))"
    and "\<not> eq_ignore_ascii_case provider_type ''vertex''"
  obtains v p where "validate_outbound_url env (resolved_base provider_type base_url) (egress_from_env (private_flag env)) = Inr v"
    "x = Sent \<lparr>pinned = Some (v_host v, v_addrs v), follow_redirects = False, use_proxy = False, timeout_secs = 10\<rparr> (resolved_base provider_type base_url @ ''/'' @ p)"
  using assms unfolding test_connection_def
  by (auto simp: Let_def build_pinned_client_def build_client_def fetch_models_log case_prod_beta map_err_def resolved_base_trimmed
      split: if_splits sum.splits option.splits)

text \<open>What the guard relies on in the URL parser: a path appended to an http or https URL
  that has a host does not change the host.\<close>

definition path_keeps_host :: "egress_env \<Rightarrow> bool" where
  "path_keeps_host env = (\<forall>s p u u' h. parse_url env (trim s) = Inr u \<longrightarrow> url_scheme u \<in> {''http'', ''https''} \<longrightarrow> url_host u = Some h \<longrightarrow>
     parse_url env (s @ ''/'' @ p) = Inr u' \<longrightarrow> url_host u' = Some h)"

text \<open>
  C31. Every request the credential test sends itself goes where the guard allows; the token a Vertex test
  acquires first, through the \<open>gcp_auth\<close> crate and with the credential the caller gave, is outside the guard. The
  request of a Vertex test is https to a host under \<open>.googleapis.com\<close> made of lower-case letters, digits,
  hyphens and dots only, whatever region the caller typed, and follows no redirect. For every other provider
  the URL is the base URL with a path appended, its host is the host the guard validated, and the client
  neither follows redirects nor uses a proxy and is pinned for this host to a non-empty list of addresses it
  resolved to, none of which lies in a denied CIDR block: not in loopback, link-local (the cloud metadata
  address with it), CGNAT, multicast, broadcast or this-network space, nor in private space unless the
  operator's flag allows it, also not when written as an IPv4-mapped or IPv4-compatible IPv6 address.
\<close>

theorem credential_test_egress:
  assumes "x \<in> set (fst (test_connection env provider_type api_key base_url region project))" "path_keeps_host env"
  shows "case x of
      TokenMint cred \<Rightarrow> eq_ignore_ascii_case provider_type ''vertex'' \<and> cred = (if trim api_key = [] then None else Some api_key)
    | Sent c url \<Rightarrow> \<not> follow_redirects c \<and>
       (if eq_ignore_ascii_case provider_type ''vertex'' then
          \<exists>host path. url = ''https://'' @ host @ ''/'' @ path \<and> suffix ''.googleapis.com'' host \<and>
            (\<forall>ch \<in> set host. vertex_char ch \<or> ch = CHR ''.'')
        else
          \<not> use_proxy c \<and>
          (\<exists>u h addrs p. parse_and_check_url env (resolved_base provider_type base_url) = Inr u \<and> url_host u = Some h \<and>
             url = resolved_base provider_type base_url @ ''/'' @ p \<and> (\<forall>u'. parse_url env url = Inr u' \<longrightarrow> url_host u' = Some h) \<and>
             pinned c = Some (to_lowercase h, addrs) \<and> addrs \<noteq> [] \<and>
             to_lowercase h \<notin> {''metadata.google.internal'', ''metadata.goog'', ''instance-data''} \<and>
             (\<forall>sa \<in> set addrs. \<not> ip_forbidden (parse_flag (private_flag env)) (fst sa))))"
proof (cases "eq_ignore_ascii_case provider_type ''vertex''")
  case True
  then have "x \<in> set (fst (probe_vertex env api_key region project))"
    using assms(1) by (simp add: test_connection_def)
  then show ?thesis
  proof (cases rule: probe_vertex_log)
    case (request c reg proj)
    then have "vertex_models_url reg proj = ''https://'' @ vertex_host reg @ ''/'' @ (''v1/projects/'' @ proj @ ''/locations/'' @ reg @
        ''/publishers/google/models'')"
      by (simp add: vertex_models_url_def)
    with request True vertex_host_ok [OF request(1)] show ?thesis by (simp only: sent.case if_True not_False_eq_True) blast
  qed (simp add: True)
next
  case False
  obtain v p where v: "validate_outbound_url env (resolved_base provider_type base_url) (egress_from_env (private_flag env)) = Inr v"
    "x = Sent \<lparr>pinned = Some (v_host v, v_addrs v), follow_redirects = False, use_proxy = False, timeout_secs = 10\<rparr> (resolved_base provider_type base_url @ ''/'' @ p)"
    using test_connection_log [OF assms(1) False] .
  have flag: "allow_private_ranges (egress_from_env (private_flag env)) = parse_flag (private_flag env)"
    by (simp add: egress_from_env_def)
  from v(1) obtain u h where u:
    "parse_and_check_url env (resolved_base provider_type base_url) = Inr u" "url_host u = Some h" "v_url v = u"
    "v_host v = to_lowercase h" "v_host v \<notin> set ALWAYS_DENIED_HOSTS" "v_addrs v \<noteq> []"
    "\<forall>sa \<in> set (v_addrs v). \<not> ip_forbidden (parse_flag (private_flag env)) (fst sa)"
    unfolding flag [symmetric] by (rule validate_outbound_urlE)
  have "parse_url env (trim (resolved_base provider_type base_url)) = Inr u" "url_scheme u \<in> {''http'', ''https''}"
    using u(1) by (auto simp: parse_and_check_url_def rbind_Inr map_err_def guard_err_def split: sum.splits if_splits)
  then have "\<forall>u'. parse_url env (resolved_base provider_type base_url @ ''/'' @ p) = Inr u' \<longrightarrow> url_host u' = Some h"
    using assms(2) u(2) unfolding path_keeps_host_def by metis
  then show ?thesis using u v(2) False unfolding ALWAYS_DENIED_HOSTS_def by (simp del: append_Cons)
qed

definition egress_demo :: egress_env where
  "egress_demo = \<lparr>parse_url = (\<lambda>s. Inr \<lparr>url_scheme = ''https'', url_username = [], url_password = None,
       url_host = Some ''API.openai.com'', url_port = Some 443, url_text = s\<rparr>),
     lookup_host = (\<lambda>h p. Inr [(V4 (ipv4_of 104 18 7 192), p)]), show_ip = (\<lambda>a. []), build_err = (\<lambda>c. None),
     http_get = (\<lambda>c a u. Inr \<lparr>resp_success = True, resp_status = ''200 OK'', resp_text = None,
       resp_models = Inr [''gpt-4o'']\<rparr>),
     private_flag = None, sa_json_err = (\<lambda>j. None), adc_err = None, fetch_token = (\<lambda>c. Inl ''none''), parse_json = (\<lambda>s. None)\<rparr>"

lemma egress_demo_log:
  "fst (test_connection egress_demo ''openai'' ''k'' None None None) =
     [Sent \<lparr>pinned = Some (''api.openai.com'', [(V4 (ipv4_of 104 18 7 192), 443)]), follow_redirects = False,
        use_proxy = False, timeout_secs = 10\<rparr> ''https://api.openai.com/v1/models'']"
  by code_simp

theorem credential_test_egress_witness:
  "\<exists>c url. Sent c url \<in> set (fst (test_connection egress_demo ''openai'' ''k'' None None None)) \<and>
     \<not> follow_redirects c \<and> \<not> use_proxy c \<and>
     (\<exists>h addrs. pinned c = Some (h, addrs) \<and> addrs \<noteq> [] \<and> (\<forall>sa \<in> set addrs. \<not> ip_forbidden False (fst sa)))"
proof -
  let ?c = "\<lparr>pinned = Some (''api.openai.com'', [(V4 (ipv4_of 104 18 7 192), 443)]), follow_redirects = False,
        use_proxy = False, timeout_secs = 10\<rparr>"
  have m: "Sent ?c ''https://api.openai.com/v1/models'' \<in> set (fst (test_connection egress_demo ''openai'' ''k'' None None None))"
    by (simp add: egress_demo_log)
  have keeps: "path_keeps_host egress_demo" by (simp add: path_keeps_host_def egress_demo_def)
  have "\<not> eq_ignore_ascii_case ''openai'' ''vertex''" by code_simp
  moreover have "parse_flag (private_flag egress_demo) = False" by code_simp
  ultimately show ?thesis using credential_test_egress [OF m keeps] m by auto
qed

text \<open>
  The token of a Vertex test is acquired before anything about the request is checked: with a well-formed
  service-account JSON, whatever token endpoint it names, the crate is asked even when the region is refused.
\<close>

lemma vertex_mints_before_checks:
  assumes "trim credential \<noteq> []" "sa_json_err env credential = None" "\<not> validate_vertex_region region" "region \<noteq> []"
  shows "fst (probe_vertex env credential (Some region) project) = [TokenMint (Some credential)]"
  using assms by (auto simp: probe_vertex_def mint_access_token_def Let_def non_empty_def split: sum.splits option.splits list.splits)

text \<open>
  \<open>list_upstream_models\<close> returns the chat-capable identifiers in order and without repetition;
  but it never consults the guard: whatever the base URL, its one request goes through a client
  that is not pinned, follows redirects and may use a proxy.
\<close>

lemma distinct_dedup: "sorted xs \<Longrightarrow> distinct (remdups_adj xs)"
  by (induction xs rule: remdups_adj.induct) (auto intro: antisym)

lemma list_upstream_models_sorted:
  assumes "snd (list_upstream_models env provider_type api_key base_url) = Inr ms"
  shows "sorted ms" "distinct ms" "\<forall>m \<in> set ms. is_chat_capable (to_lowercase provider_type) m"
  using assms unfolding list_upstream_models_def
  by (auto simp: Let_def case_prod_beta rbind_Inr sorted_remdups_adj distinct_dedup
      split: if_splits sum.splits)

lemma list_upstream_models_unguarded:
  assumes "trim api_key \<noteq> []" "\<forall>c. build_err env c = None" "resolved_base provider_type base_url \<noteq> []"
  shows "\<exists>c url. fst (list_upstream_models env provider_type api_key base_url) = [Sent c url] \<and>
    pinned c = None \<and> follow_redirects c \<and> use_proxy c"
  using assms
  by (simp add: list_upstream_models_def build_client_def Let_def case_prod_beta fetch_models_log)

end
