(* ===== verification/Provider_Http.thy ===== *)
theory Provider_Http
  imports Pipeline Url_Guard
begin

text \<open>
  \<open>providers/openai_compat.rs\<close>, \<open>providers/vertex.rs\<close> and \<open>providers/upstream.rs\<close>: the adapters that
  call a provider over HTTP. The request body, the buffered call \<open>invoke\<close> and the incremental
  reader of \<open>invoke_stream\<close>, which cuts the byte stream into server-sent events. The HTTP client,
  serde's decoding of a response or of one chunk, and Google's token provider are parameters; a
  byte-stream item comes with the milliseconds since the request was sent.
\<close>

section \<open>Deadlines\<close>

record upstream_deadline =
  dl_connect :: nat
  dl_read_idle :: nat
  dl_total :: nat

definition deadline_default :: upstream_deadline where
  "deadline_default = \<lparr>dl_connect = 10000, dl_read_idle = 120000, dl_total = 120000\<rparr>"

text \<open>\<open>str::parse::<u64>\<close>: digits, an optional plus sign, and no overflow.\<close>

definition parse_u64 :: "string \<Rightarrow> nat option" where
  "parse_u64 s = (let d = (case s of c # s' \<Rightarrow> if c = CHR ''+'' then s' else s | [] \<Rightarrow> []) in
     if d \<noteq> [] \<and> list_all is_digit d \<and> digits_val d < 2 ^ 64 then Some (digits_val d) else None)"

definition positive_millis :: "string option \<Rightarrow> nat option" where
  "positive_millis raw = Option.bind raw (\<lambda>s. Option.bind (parse_u64 (trim s)) (\<lambda>n. if 0 < n then Some n else None))"

definition deadline_parse :: "string option \<Rightarrow> string option \<Rightarrow> string option \<Rightarrow> upstream_deadline" where
  "deadline_parse connect_ms read_idle_ms total_ms =
     \<lparr>dl_connect = unwrap_or (dl_connect deadline_default) (positive_millis connect_ms),
      dl_read_idle = unwrap_or (dl_read_idle deadline_default) (positive_millis read_idle_ms),
      dl_total = unwrap_or (dl_total deadline_default) (positive_millis total_ms)\<rparr>"

section \<open>Requests and responses\<close>

record usage_body =
  ub_prompt :: "32 word option"
  ub_completion :: "32 word option"

definition usage_of_body :: "usage_body \<Rightarrow> token_usage" where
  "usage_of_body u = \<lparr>input_tokens = ub_prompt u, output_tokens = ub_completion u, reasoning_tokens = None,
     cache_read_tokens = None, cache_write_tokens = None\<rparr>"

text \<open>\<open>Choice\<close>: the message, if any, is its content.\<close>

record chat_choice =
  ch_message :: "string option option"
  ch_finish_reason :: "string option"

record chat_response =
  cr_choices :: "chat_choice list"
  cr_usage :: "usage_body option"
  cr_model :: "string option"

record stream_choice =
  sch_content :: "string option"
  sch_finish_reason :: "string option"

record stream_chunk =
  sc_choices :: "stream_choice list"
  sc_usage :: "usage_body option"
  sc_model :: "string option"

text \<open>The bytes of a streamed body as they arrive, and how a read can fail.\<close>

type_synonym byte_item = "nat \<times> (string, string) result"

record up_response =
  ur_success :: bool
  ur_status :: string
  ur_server_error :: bool
  ur_text :: "string option"
  ur_chat :: "(string, chat_response) result"
  ur_bytes :: "byte_item list"

text \<open>\<open>ChatRequest\<close> as it is serialised; the extra parameters are flattened into the object.\<close>

definition chat_body :: "string \<Rightarrow> provider_invocation \<Rightarrow> bool option \<Rightarrow> json" where
  "chat_body model ivc strm =
     JObj ([(''model'', JStr model),
       (''messages'', JArr (map (\<lambda>m. JObj [(''role'', JStr (role m)), (''content'', JStr (msg_content m))]) (iv_messages ivc)))]
       @ (case strm of Some b \<Rightarrow> [(''stream'', JBool b)] | None \<Rightarrow> [])
       @ (case iv_extra_params ivc of JObj kvs \<Rightarrow> kvs | _ \<Rightarrow> []))"

record upstream_env =
  up_post :: "string \<Rightarrow> string \<Rightarrow> json \<Rightarrow> (string, up_response) result"
  up_ttft :: nat
  parse_chunk :: "string \<Rightarrow> stream_chunk option"

definition u32_of_millis :: "nat \<Rightarrow> nat" where
  "u32_of_millis ms = nat (min (int ms) 4294967295)"

definition http_failure :: "string \<Rightarrow> up_response \<Rightarrow> provider_failure" where
  "http_failure ptype resp =
     \<lparr>pf_message = ptype @ '': HTTP '' @ ur_status resp @ '': '' @
        concat (take 500 (utf8_chars (unwrap_or [] (ur_text resp)))),
      pf_retryable = ur_server_error resp\<rparr>"

definition send_chat ::
  "upstream_env \<Rightarrow> string \<Rightarrow> string \<Rightarrow> string \<Rightarrow> json \<Rightarrow> (provider_failure, up_response) result" where
  "send_chat env ptype url bearer body =
     rbind (map_err (\<lambda>e. \<lparr>pf_message = ptype @ '': HTTP request failed: '' @ e, pf_retryable = True\<rparr>)
       (up_post env url bearer body)) (\<lambda>resp.
     rbind (guard_err (\<not> ur_success resp) (http_failure ptype resp)) (\<lambda>_. Inr resp))"

definition invoke ::
  "upstream_env \<Rightarrow> string \<Rightarrow> string \<Rightarrow> string \<Rightarrow> string \<Rightarrow> provider_invocation \<Rightarrow> bool
     \<Rightarrow> (provider_failure, provider_output) result" where
  "invoke env ptype url bearer model ivc streaming =
     rbind (send_chat env ptype url bearer (chat_body model ivc (if streaming then Some False else None))) (\<lambda>resp.
     rbind (map_err (\<lambda>e. \<lparr>pf_message = ptype @ '': invalid JSON response: '' @ e, pf_retryable = False\<rparr>)
       (ur_chat resp)) (\<lambda>parsed.
     let first = (case cr_choices parsed of [] \<Rightarrow> None | c # _ \<Rightarrow> Some c);
         content = unwrap_or [] (Option.bind (Option.bind first ch_message) id)
     in Inr \<lparr>out_content = content, out_model = unwrap_or (iv_model ivc) (cr_model parsed),
          out_usage = map_option usage_of_body (cr_usage parsed), out_embedding = None,
          out_stream_chunks = (if streaming then [content] else []),
          out_finish_reason = Option.bind first ch_finish_reason,
          out_ttft_ms = Some (u32_of_millis (up_ttft env))\<rparr>))"

section \<open>Server-sent events\<close>

text \<open>\<open>String::from_utf8_lossy\<close>: every maximal ill-formed prefix becomes U+FFFD.\<close>

definition replacement :: string where
  "replacement = [char_of (239::nat), char_of (191::nat), char_of (189::nat)]"

text \<open>
  Whether the second byte may follow the lead byte, and how many continuation bytes the lead
  byte asks for.
\<close>

definition second_ok :: "nat \<Rightarrow> nat \<Rightarrow> bool" where
  "second_ok b c = (128 \<le> c \<and> c < 192 \<and> (b = 224 \<longrightarrow> 160 \<le> c) \<and> (b = 237 \<longrightarrow> c \<le> 159) \<and>
     (b = 240 \<longrightarrow> 144 \<le> c) \<and> (b = 244 \<longrightarrow> c \<le> 143))"

definition utf8_need :: "nat \<Rightarrow> nat" where
  "utf8_need b = (if 194 \<le> b \<and> b \<le> 223 then 1 else if 224 \<le> b \<and> b \<le> 239 then 2
     else if 240 \<le> b \<and> b \<le> 244 then 3 else 0)"

text \<open>The well-formed continuation bytes that follow a lead byte, at most as many as it asks for.\<close>

definition utf8_conts :: "char \<Rightarrow> string \<Rightarrow> string" where
  "utf8_conts c s = (case s of
       [] \<Rightarrow> []
     | d # s' \<Rightarrow> if 0 < utf8_need (byte_of c) \<and> second_ok (byte_of c) (byte_of d)
         then d # takeWhile is_cont (take (utf8_need (byte_of c) - 1) s') else [])"

function from_utf8_lossy :: "string \<Rightarrow> string" where
  "from_utf8_lossy [] = []"
| "from_utf8_lossy (c # s) =
     (if byte_of c < 128 then c # from_utf8_lossy s
      else let t = utf8_conts c s in
        (if 0 < utf8_need (byte_of c) \<and> length t = utf8_need (byte_of c) then c # t else replacement)
        @ from_utf8_lossy (drop (length t) s))"
  by pat_completeness auto
termination
  by (relation "measure length") auto

text \<open>\<open>str::lines\<close>: cut at line feeds, drop one carriage return before each; no last empty line.\<close>

definition strip_cr :: "string \<Rightarrow> string" where
  "strip_cr l = (if l \<noteq> [] \<and> last l = CHR 0x0D then butlast l else l)"

definition str_lines :: "string \<Rightarrow> string list" where
  "str_lines s = (let ws = split_on (CHR 0x0A) s in
     map strip_cr (butlast ws) @ (if last ws = [] then [] else [last ws]))"

definition trim_start :: "string \<Rightarrow> string" where
  "trim_start s = concat (dropWhile starts_ws (utf8_chars s))"

definition find_subslice :: "string \<Rightarrow> string \<Rightarrow> nat option" where
  "find_subslice haystack needle =
     (if needle = [] \<or> length haystack < length needle then None else str_find needle haystack)"

record sse_state =
  sse_finish :: "string option"
  sse_usage :: "token_usage option"
  sse_model :: "string option"
  sse_ttft :: "nat option"

definition sse_init :: sse_state where
  "sse_init = \<lparr>sse_finish = None, sse_usage = None, sse_model = None, sse_ttft = None\<rparr>"

definition sse_done :: "sse_state \<Rightarrow> provider_event" where
  "sse_done st = StreamDone (sse_usage st) (sse_finish st) (sse_model st) (sse_ttft st)"

text \<open>One decoded chunk: what it adds to the state and the token it yields.\<close>

definition sse_chunk :: "nat \<Rightarrow> stream_chunk \<Rightarrow> sse_state \<Rightarrow> provider_event list \<times> sse_state" where
  "sse_chunk ms chunk st =
     (let st = (if sse_model st = None then st\<lparr>sse_model := sc_model chunk\<rparr> else st);
          st = (case sc_usage chunk of Some u \<Rightarrow> st\<lparr>sse_usage := Some (usage_of_body u)\<rparr> | None \<Rightarrow> st)
      in case sc_choices chunk of
           [] \<Rightarrow> ([], st)
         | choice # _ \<Rightarrow>
             let st = (if sch_finish_reason choice \<noteq> None then st\<lparr>sse_finish := sch_finish_reason choice\<rparr> else st)
             in case sch_content choice of
                  None \<Rightarrow> ([], st)
                | Some content \<Rightarrow>
                    if content = [] then ([], st)
                    else ([Token content],
                      if sse_ttft st = None then st\<lparr>sse_ttft := Some (u32_of_millis ms)\<rparr> else st))"

text \<open>The lines of one event block; the first component is \<open>break 'outer\<close>.\<close>

fun sse_lines ::
  "(string \<Rightarrow> stream_chunk option) \<Rightarrow> nat \<Rightarrow> string list \<Rightarrow> sse_state \<Rightarrow> bool \<times> provider_event list \<times> sse_state" where
  "sse_lines pc ms [] st = (False, [], st)"
| "sse_lines pc ms (l # ls) st =
     (case strip_prefix ''data:'' (trim_start l) of
        None \<Rightarrow> sse_lines pc ms ls st
      | Some p \<Rightarrow>
          let payload = trim p in
          if payload = [] then sse_lines pc ms ls st
          else if payload = ''[DONE]'' then (True, [], st)
          else case pc payload of
            None \<Rightarrow> sse_lines pc ms ls st
          | Some chunk \<Rightarrow>
              let (evs, st') = sse_chunk ms chunk st; (d, evs', st'') = sse_lines pc ms ls st'
              in (d, evs @ evs', st''))"

definition event_delim :: string where
  "event_delim = [CHR 0x0A, CHR 0x0A]"

text \<open>The inner loop: every complete event now in the buffer.\<close>

function sse_drain ::
  "(string \<Rightarrow> stream_chunk option) \<Rightarrow> nat \<Rightarrow> string \<Rightarrow> sse_state
     \<Rightarrow> bool \<times> provider_event list \<times> string \<times> sse_state" where
  "sse_drain pc ms buf st =
     (case find_subslice buf event_delim of
        None \<Rightarrow> (False, [], buf, st)
      | Some pos \<Rightarrow>
          let (d, evs, st') = sse_lines pc ms (str_lines (from_utf8_lossy (take (pos + 2) buf))) st;
              rest = drop (pos + 2) buf
          in if d then (True, evs, rest, st')
             else let (d', evs', buf', st'') = sse_drain pc ms rest st' in (d', evs @ evs', buf', st''))"
  by pat_completeness auto

termination
  by (relation "measure (\<lambda>(pc, ms, buf, st). length buf)")
    (auto simp: find_subslice_def event_delim_def split: if_splits)

declare sse_drain.simps [simp del]

definition stream_read_failure :: "string \<Rightarrow> string \<Rightarrow> provider_failure" where
  "stream_read_failure ptype e = \<lparr>pf_message = ptype @ '': stream read error: '' @ e, pf_retryable = True\<rparr>"

text \<open>The outer loop over the byte stream.\<close>

fun sse_run ::
  "(string \<Rightarrow> stream_chunk option) \<Rightarrow> string \<Rightarrow> byte_item list \<Rightarrow> string \<Rightarrow> sse_state
     \<Rightarrow> (provider_failure, provider_event) result list" where
  "sse_run pc ptype [] buf st = [Inr (sse_done st)]"
| "sse_run pc ptype ((ms, Inl e) # items) buf st = [Inl (stream_read_failure ptype e)]"
| "sse_run pc ptype ((ms, Inr bytes) # items) buf st =
     (let (d, evs, buf', st') = sse_drain pc ms (buf @ bytes) st
      in map Inr evs @ (if d then [Inr (sse_done st')] else sse_run pc ptype items buf' st'))"

definition invoke_stream ::
  "upstream_env \<Rightarrow> string \<Rightarrow> string \<Rightarrow> string \<Rightarrow> string \<Rightarrow> provider_invocation
     \<Rightarrow> (provider_failure, (provider_failure, provider_event) result list) result" where
  "invoke_stream env ptype url bearer model ivc =
     rbind (send_chat env ptype url bearer (chat_body model ivc (Some True))) (\<lambda>resp.
       Inr (sse_run (parse_chunk env) ptype (ur_bytes resp) [] sse_init))"

section \<open>The OpenAI-compatible adapter\<close>

record openai_compat_adapter =
  oa_provider_type :: string
  oa_default_base_url :: string

definition oa_openai :: openai_compat_adapter where
  "oa_openai = \<lparr>oa_provider_type = ''openai'', oa_default_base_url = ''https://api.openai.com/v1''\<rparr>"

definition oa_google :: openai_compat_adapter where
  "oa_google = \<lparr>oa_provider_type = ''google'',
     oa_default_base_url = ''https://generativelanguage.googleapis.com/v1beta/openai''\<rparr>"

definition oa_bedrock :: openai_compat_adapter where
  "oa_bedrock = \<lparr>oa_provider_type = ''bedrock'', oa_default_base_url = []\<rparr>"

text \<open>The long dash of the messages, in UTF-8.\<close>

definition em_dash :: string where
  "em_dash = [char_of (226::nat), char_of (128::nat), char_of (148::nat)]"

definition resolve_base_url ::
  "egress_env \<Rightarrow> openai_compat_adapter \<Rightarrow> model_target \<Rightarrow> (provider_failure, string) result" where
  "resolve_base_url eg oa target =
     (let configured = non_empty (map_option trim (get_str (mt_config target) ''base_url'')) in
      rbind (case configured of
          Some url \<Rightarrow> Inr url
        | None \<Rightarrow>
            if oa_default_base_url oa \<noteq> [] then Inr (oa_default_base_url oa)
            else Inl \<lparr>pf_message = oa_provider_type oa @ '': no base_url configured '' @ em_dash @
                '' set `base_url` in the provider's config (e.g. https://bedrock-mantle.<region>.api.aws/v1)'',
              pf_retryable = False\<rparr>) (\<lambda>raw.
      rbind (map_err (\<lambda>e. \<lparr>pf_message = oa_provider_type oa @ '': refusing base_url '' @ em_dash @ '' '' @
            ssrf_error_to_string (show_ip eg) e, pf_retryable = False\<rparr>) (parse_and_check_url eg raw)) (\<lambda>_.
        Inr (trim_end_slash raw))))"

definition oa_bearer :: "openai_compat_adapter \<Rightarrow> provider_invocation \<Rightarrow> (provider_failure, string) result" where
  "oa_bearer oa ivc = ok_or (iv_credential ivc)
     \<lparr>pf_message = oa_provider_type oa @ '': no credential configured'', pf_retryable = False\<rparr>"

definition completions_url ::
  "egress_env \<Rightarrow> openai_compat_adapter \<Rightarrow> model_target \<Rightarrow> (provider_failure, string) result" where
  "completions_url eg oa target = rbind (resolve_base_url eg oa target) (\<lambda>b. Inr (b @ ''/chat/completions''))"

definition oa_call ::
  "bool \<Rightarrow> egress_env \<Rightarrow> upstream_env \<Rightarrow> openai_compat_adapter \<Rightarrow> model_target \<Rightarrow> provider_invocation
     \<Rightarrow> (provider_failure, provider_output) result" where
  "oa_call streaming eg env oa target ivc =
     rbind (oa_bearer oa ivc) (\<lambda>bearer.
     rbind (completions_url eg oa target) (\<lambda>url.
       invoke env (oa_provider_type oa) url bearer (iv_model ivc) ivc streaming))"

definition oa_complete ::
  "egress_env \<Rightarrow> upstream_env \<Rightarrow> openai_compat_adapter \<Rightarrow> model_target \<Rightarrow> provider_invocation
     \<Rightarrow> (provider_failure, provider_output) result" where
  "oa_complete = oa_call False"

definition oa_stream ::
  "egress_env \<Rightarrow> upstream_env \<Rightarrow> openai_compat_adapter \<Rightarrow> model_target \<Rightarrow> provider_invocation
     \<Rightarrow> (provider_failure, provider_output) result" where
  "oa_stream = oa_call True"

definition oa_stream_events ::
  "egress_env \<Rightarrow> upstream_env \<Rightarrow> openai_compat_adapter \<Rightarrow> model_target \<Rightarrow> provider_invocation
     \<Rightarrow> (provider_failure, (provider_failure, provider_event) result list) result" where
  "oa_stream_events eg env oa target ivc =
     rbind (oa_bearer oa ivc) (\<lambda>bearer.
     rbind (completions_url eg oa target) (\<lambda>url.
       invoke_stream env (oa_provider_type oa) url bearer (iv_model ivc) ivc))"

section \<open>The Vertex adapter\<close>

definition vertex_completions_url :: "string \<Rightarrow> string \<Rightarrow> string" where
  "vertex_completions_url region project =
     ''https://'' @ vertex_host region @ ''/v1/projects/'' @ project @ ''/locations/'' @ region @
     ''/endpoints/openapi/chat/completions''"

definition google_prefixed :: "string \<Rightarrow> string" where
  "google_prefixed model = (if prefix ''google/'' model then model else ''google/'' @ model)"

record vertex_config =
  vc_region :: "string option"
  vc_project :: "string option"

text \<open>A field of an \<open>Option<String>\<close>: absent or null is \<open>None\<close>, a string is \<open>Some\<close>, anything else an error.\<close>

fun opt_string :: "json option \<Rightarrow> string option option" where
  "opt_string None = Some None"
| "opt_string (Some JNull) = Some None"
| "opt_string (Some (JStr s)) = Some (Some s)"
| "opt_string (Some _) = None"

text \<open>serde reads a struct from an object, or from an array of exactly its fields.\<close>

definition vertex_config_from_value :: "json \<Rightarrow> vertex_config" where
  "vertex_config_from_value v =
     (let fields = (case v of
          JObj kvs \<Rightarrow> Some (opt_string (json_get v ''region''), opt_string (json_get v ''project''))
        | JArr [r, p] \<Rightarrow> Some (opt_string (Some r), opt_string (Some p))
        | _ \<Rightarrow> None)
      in case fields of
        Some (Some r, Some p) \<Rightarrow> \<lparr>vc_region = r, vc_project = p\<rparr>
      | _ \<Rightarrow> \<lparr>vc_region = None, vc_project = None\<rparr>)"

text \<open>
  \<open>resolve_target\<close>; the process environment's \<open>GOOGLE_CLOUD_PROJECT\<close> is a parameter.
\<close>

definition vertex_resolve_target ::
  "egress_env \<Rightarrow> string option \<Rightarrow> model_target \<Rightarrow> string option \<Rightarrow> (provider_failure, string \<times> string) result" where
  "vertex_resolve_target eg env_project target cred =
     (let cfg = vertex_config_from_value (mt_config target);
          region = unwrap_or ''us-central1'' (non_empty (vc_region cfg))
      in rbind (ok_or (case non_empty (vc_project cfg) of
            Some p \<Rightarrow> Some p
          | None \<Rightarrow> (case sa_project_id eg cred of Some p \<Rightarrow> Some p | None \<Rightarrow> env_project))
          \<lparr>pf_message = ''vertex: no project configured (set the provider's project, or use an SA key / GOOGLE_CLOUD_PROJECT)'',
            pf_retryable = False\<rparr>) (\<lambda>project. Inr (region, project)))"

text \<open>Minting a token: the adapter's cache of token providers is transparent to its callers.\<close>

definition vertex_call ::
  "bool \<Rightarrow> egress_env \<Rightarrow> upstream_env \<Rightarrow> (string option \<Rightarrow> (provider_failure, string) result) \<Rightarrow> string option
     \<Rightarrow> model_target \<Rightarrow> provider_invocation \<Rightarrow> (provider_failure, provider_output) result" where
  "vertex_call streaming eg env access_token env_project target ivc =
     rbind (vertex_resolve_target eg env_project target (iv_credential ivc)) (\<lambda>(region, project).
     rbind (access_token (iv_credential ivc)) (\<lambda>token.
       invoke env ''vertex'' (vertex_completions_url region project) token (google_prefixed (iv_model ivc)) ivc streaming))"

definition vertex_stream_events ::
  "egress_env \<Rightarrow> upstream_env \<Rightarrow> (string option \<Rightarrow> (provider_failure, string) result) \<Rightarrow> string option
     \<Rightarrow> model_target \<Rightarrow> provider_invocation
     \<Rightarrow> (provider_failure, (provider_failure, provider_event) result list) result" where
  "vertex_stream_events eg env access_token env_project target ivc =
     rbind (vertex_resolve_target eg env_project target (iv_credential ivc)) (\<lambda>(region, project).
     rbind (access_token (iv_credential ivc)) (\<lambda>token.
       invoke_stream env ''vertex'' (vertex_completions_url region project) token (google_prefixed (iv_model ivc)) ivc))"

section \<open>The echo adapters and the catalogue\<close>

text \<open>
  \<open>providers/mod.rs\<close>: the adapters registered for \<open>anthropic\<close>, \<open>ollama\<close> and \<open>vllm\<close> (and the unregistered
  \<open>openai.rs\<close>) answer from the prompt. \<open>Value::as_u64\<close> and the rounding of \<open>f32\<close> are parameters.
\<close>

definition maybe_fail :: "string \<Rightarrow> model_target \<Rightarrow> provider_invocation \<Rightarrow> provider_failure option" where
  "maybe_fail ptype target ivc =
     (if mt_encrypted_credential target = Some ''force_retryable''
      then Some \<lparr>pf_message = ptype @ '' adapter forced retryable failure'', pf_retryable = True\<rparr>
      else if mt_encrypted_credential target = Some ''force_fatal''
      then Some \<lparr>pf_message = ptype @ '' adapter forced fatal failure'', pf_retryable = False\<rparr>
      else if get_str (iv_extra_params ivc) ''force_provider_failure'' = Some ptype
      then Some \<lparr>pf_message = ptype @ '' adapter forced failure via request'', pf_retryable = True\<rparr>
      else None)"

definition maybe_usage :: "string \<Rightarrow> provider_invocation \<Rightarrow> string \<Rightarrow> token_usage option" where
  "maybe_usage ptype ivc out =
     (if json_get (iv_extra_params ivc) ''omit_usage'' = Some (JBool True) then None
      else Some \<lparr>input_tokens = Some (estimate_tokens ptype (iv_prompt ivc)),
        output_tokens = Some (estimate_tokens ptype out), reasoning_tokens = Some 0,
        cache_read_tokens = Some 0, cache_write_tokens = Some 0\<rparr>)"

function chunk_chars :: "nat \<Rightarrow> string list \<Rightarrow> string list" where
  "chunk_chars n cs = (if cs = [] \<or> n = 0 then [] else concat (take n cs) # chunk_chars n (drop n cs))"
  by pat_completeness auto
termination
  by (relation "measure (\<lambda>(n, cs). length cs)") auto

declare chunk_chars.simps [simp del]

definition chunk_content :: "string \<Rightarrow> nat \<Rightarrow> string list" where
  "chunk_content content chunk_size =
     (if chunk_size = 0 then [content] else chunk_chars chunk_size (utf8_chars content))"

definition fake_embedding :: "(rat \<Rightarrow> rat) \<Rightarrow> string \<Rightarrow> rat list" where
  "fake_embedding f32 prompt =
     fold (\<lambda>(i, c) values. values[i mod 8 := f32 (values ! (i mod 8) + f32 (of_nat (byte_of c) / 255))])
       (enumerate 0 prompt) (replicate 8 0)"

definition render_output ::
  "(json \<Rightarrow> nat option) \<Rightarrow> (rat \<Rightarrow> rat) \<Rightarrow> string \<Rightarrow> model_target \<Rightarrow> provider_invocation \<Rightarrow> bool \<Rightarrow> provider_output" where
  "render_output as_u64 f32 label target ivc streaming =
     (if iv_kind ivc = Embedding then
        \<lparr>out_content = [], out_model = mt_model_name target, out_usage = maybe_usage label ivc [],
         out_embedding = Some (fake_embedding f32 (iv_prompt ivc)), out_stream_chunks = [],
         out_finish_reason = Some ''stop'', out_ttft_ms = None\<rparr>
      else
        let content = label @ '' echo: '' @ iv_prompt ivc in
        \<lparr>out_content = content, out_model = mt_model_name target, out_usage = maybe_usage label ivc content,
         out_embedding = None,
         out_stream_chunks = (if streaming then chunk_content content
             (unwrap_or 7 (Option.bind (json_get (iv_extra_params ivc) ''chunk_size'') as_u64)) else []),
         out_finish_reason = Some ''stop'', out_ttft_ms = None\<rparr>)"

definition echo_call ::
  "(json \<Rightarrow> nat option) \<Rightarrow> (rat \<Rightarrow> rat) \<Rightarrow> bool \<Rightarrow> string \<Rightarrow> model_target \<Rightarrow> provider_invocation
     \<Rightarrow> (provider_failure, provider_output) result" where
  "echo_call as_u64 f32 streaming ptype target ivc =
     (case maybe_fail ptype target ivc of
        Some failure \<Rightarrow> Inl failure
      | None \<Rightarrow> Inr (render_output as_u64 f32 ptype target ivc streaming))"

datatype adapter = OpenAiCompat openai_compat_adapter | VertexAdapter | Echo string

text \<open>\<open>ProviderCatalog::with_defaults\<close>, \<open>adapter_for\<close> and \<open>register\<close>.\<close>

definition catalog_defaults :: "string \<Rightarrow> adapter option" where
  "catalog_defaults = [''openai'' \<mapsto> OpenAiCompat oa_openai, ''google'' \<mapsto> OpenAiCompat oa_google,
     ''bedrock'' \<mapsto> OpenAiCompat oa_bedrock, ''vertex'' \<mapsto> VertexAdapter, ''anthropic'' \<mapsto> Echo ''anthropic'',
     ''ollama'' \<mapsto> Echo ''ollama'', ''vllm'' \<mapsto> Echo ''vllm'']"

definition adapter_for :: "(string \<Rightarrow> adapter option) \<Rightarrow> string \<Rightarrow> adapter option" where
  "adapter_for catalog ptype = catalog ptype"

definition register_adapter :: "string \<Rightarrow> adapter \<Rightarrow> (string \<Rightarrow> adapter option) \<Rightarrow> string \<Rightarrow> adapter option" where
  "register_adapter ptype a catalog = catalog(ptype \<mapsto> a)"

lemma concat_chunk_chars: "0 < n \<Longrightarrow> concat (chunk_chars n cs) = concat cs"
proof (induction n cs rule: chunk_chars.induct)
  case (1 n cs)
  then show ?case
    by (subst chunk_chars.simps) (auto simp: concat_append [symmetric])
qed

lemma chunk_content_concat: "concat (chunk_content s n) = s"
  by (simp add: chunk_content_def concat_chunk_chars concat_utf8_chars)

section \<open>The stream does not depend on how the bytes arrive\<close>

text \<open>
  A reference for the reader: cut the whole body at the event delimiters first, then read the
  complete events in order until \<open>[DONE]\<close>. What follows the last delimiter is not read.
\<close>

function sse_split :: "string \<Rightarrow> string list \<times> string" where
  "sse_split buf =
     (case find_subslice buf event_delim of
        None \<Rightarrow> ([], buf)
      | Some pos \<Rightarrow> let (bs, r) = sse_split (drop (pos + 2) buf) in (take (pos + 2) buf # bs, r))"
  by pat_completeness auto
termination
  by (relation "measure length") (auto simp: find_subslice_def event_delim_def split: if_splits)

declare sse_split.simps [simp del]

fun sse_blocks ::
  "(string \<Rightarrow> stream_chunk option) \<Rightarrow> nat \<Rightarrow> string list \<Rightarrow> sse_state \<Rightarrow> bool \<times> provider_event list \<times> sse_state" where
  "sse_blocks pc ms [] st = (False, [], st)"
| "sse_blocks pc ms (b # bs) st =
     (let (d, evs, st') = sse_lines pc ms (str_lines (from_utf8_lossy b)) st
      in if d then (True, evs, st')
         else let (d', evs', st'') = sse_blocks pc ms bs st' in (d', evs @ evs', st''))"

definition no_ttft :: "sse_state \<Rightarrow> sse_state" where
  "no_ttft st = st\<lparr>sse_ttft := None\<rparr>"

fun untimed :: "(provider_failure, provider_event) result \<Rightarrow> (provider_failure, provider_event) result" where
  "untimed (Inr (StreamDone u f m t)) = Inr (StreamDone u f m None)"
| "untimed x = x"

definition sse_end :: "string \<Rightarrow> string option \<Rightarrow> bool \<Rightarrow> sse_state \<Rightarrow> (provider_failure, provider_event) result" where
  "sse_end ptype failed d st = (case failed of
       Some e \<Rightarrow> if d then Inr (sse_done (no_ttft st)) else Inl (stream_read_failure ptype e)
     | None \<Rightarrow> Inr (sse_done (no_ttft st)))"

definition sse_reference ::
  "(string \<Rightarrow> stream_chunk option) \<Rightarrow> string \<Rightarrow> string \<Rightarrow> string option
     \<Rightarrow> (provider_failure, provider_event) result list" where
  "sse_reference pc ptype body failed =
     (let (d, evs, st) = sse_blocks pc 0 (fst (sse_split body)) sse_init
      in map Inr evs @ [sse_end ptype failed d st])"

lemma str_find_append: "str_find p s = Some i \<Longrightarrow> str_find p (s @ t) = Some i"
proof (induction s arbitrary: i)
  case Nil
  then show ?case by (cases t) (auto split: if_splits)
next
  case (Cons c s)
  have "prefix p (c # s @ t) \<Longrightarrow> prefix p (c # s)"
    using str_find_length [OF Cons.prems] prefix_length_prefix [of p "c # s @ t" "c # s"] by simp
  moreover have "prefix p (c # s) \<Longrightarrow> prefix p (c # s @ t)"
    using prefix_prefix [of p "c # s" t] by simp
  ultimately show ?case using Cons by (auto split: if_splits)
qed

lemma find_delim_append:
  "find_subslice s event_delim = Some i \<Longrightarrow> find_subslice (s @ t) event_delim = Some i"
  by (auto simp: find_subslice_def event_delim_def str_find_append split: if_splits)

lemma find_delim_length: "find_subslice s event_delim = Some i \<Longrightarrow> i + 2 \<le> length s"
  using str_find_length by (fastforce simp: find_subslice_def event_delim_def split: if_splits)

lemma sse_split_append:
  "sse_split (a @ b) = (fst (sse_split a) @ fst (sse_split (snd (sse_split a) @ b)),
     snd (sse_split (snd (sse_split a) @ b)))"
proof (induction a rule: sse_split.induct)
  case (1 a)
  show ?case
  proof (cases "find_subslice a event_delim")
    case None
    then show ?thesis by (subst (2 4 5) sse_split.simps) simp
  next
    case (Some i)
    note IH = "1.IH" [OF Some]
    show ?thesis
      using Some find_delim_append [OF Some, of b] find_delim_length [OF Some] IH
      by (subst (1 2 4 6) sse_split.simps) (simp add: case_prod_beta)
  qed
qed

lemma sse_split_rest: "fst (sse_split (snd (sse_split a))) = []"
proof (induction a rule: sse_split.induct)
  case (1 a)
  then show ?case
    by (cases "find_subslice a event_delim")
      (simp_all add: sse_split.simps [of a] case_prod_beta)
qed

lemma sse_drain_split:
  "sse_drain pc ms buf st = (d, evs, buf', st') \<Longrightarrow>
     sse_blocks pc ms (fst (sse_split buf)) st = (d, evs, st') \<and> (\<not> d \<longrightarrow> buf' = snd (sse_split buf))"
proof (induction pc ms buf st arbitrary: d evs buf' st' rule: sse_drain.induct)
  case (1 pc ms buf st)
  show ?case
  proof (cases "find_subslice buf event_delim")
    case None
    then have "sse_split buf = ([], buf)" "sse_drain pc ms buf st = (False, [], buf, st)"
      by (simp_all add: sse_split.simps sse_drain.simps)
    then show ?thesis using "1.prems" by auto
  next
    case (Some i)
    obtain d1 e1 s1 where l: "sse_lines pc ms (str_lines (from_utf8_lossy (take (i + 2) buf))) st = (d1, e1, s1)"
      by (metis prod_cases3)
    obtain d2 e2 b2 s2 where r: "sse_drain pc ms (drop (i + 2) buf) s1 = (d2, e2, b2, s2)"
      by (metis prod_cases4)
    have "\<not> d1 \<Longrightarrow> sse_blocks pc ms (fst (sse_split (drop (i + 2) buf))) s1 = (d2, e2, s2) \<and>
        (\<not> d2 \<longrightarrow> b2 = snd (sse_split (drop (i + 2) buf)))"
      using "1.IH" [OF Some l [symmetric] refl refl refl _ r] by simp
    then show ?thesis
      using "1.prems" Some l r
      by (cases d1) (auto simp: sse_drain.simps [of pc ms buf] sse_split.simps [of buf] case_prod_beta)
  qed
qed

lemma sse_blocks_append:
  "sse_blocks pc ms (as @ bs) st =
     (case sse_blocks pc ms as st of (d, evs, st') \<Rightarrow>
        if d then (True, evs, st')
        else let (d', evs', st'') = sse_blocks pc ms bs st' in (d', evs @ evs', st''))"
  by (induction as arbitrary: st) (auto simp: case_prod_beta)

text \<open>The clock touches nothing but the time of the first token.\<close>

definition chunk_state :: "stream_chunk \<Rightarrow> sse_state \<Rightarrow> sse_state" where
  "chunk_state c st =
     \<lparr>sse_finish = (case sc_choices c of ch # _ \<Rightarrow> if sch_finish_reason ch \<noteq> None then sch_finish_reason ch else sse_finish st
        | [] \<Rightarrow> sse_finish st),
      sse_usage = (case sc_usage c of Some u \<Rightarrow> Some (usage_of_body u) | None \<Rightarrow> sse_usage st),
      sse_model = (if sse_model st = None then sc_model c else sse_model st), sse_ttft = None\<rparr>"

definition chunk_tokens :: "stream_chunk \<Rightarrow> provider_event list" where
  "chunk_tokens c = (case sc_choices c of
       ch # _ \<Rightarrow> (case sch_content ch of Some t \<Rightarrow> if t = [] then [] else [Token t] | None \<Rightarrow> [])
     | [] \<Rightarrow> [])"

lemma sse_chunk_untimed:
  "fst (sse_chunk ms c st) = chunk_tokens c" "no_ttft (snd (sse_chunk ms c st)) = chunk_state c (no_ttft st)"
  by (cases "sc_choices c"; cases "sc_usage c"; cases "sch_content (hd (sc_choices c))";
      simp add: sse_chunk_def chunk_tokens_def chunk_state_def no_ttft_def Let_def)+

definition same_untimed :: "bool \<times> provider_event list \<times> sse_state \<Rightarrow> bool \<times> provider_event list \<times> sse_state \<Rightarrow> bool" where
  "same_untimed a b = (fst a = fst b \<and> fst (snd a) = fst (snd b) \<and> no_ttft (snd (snd a)) = no_ttft (snd (snd b)))"

lemma sse_lines_untimed:
  "no_ttft st = no_ttft st' \<Longrightarrow> same_untimed (sse_lines pc ms ls st) (sse_lines pc ms' ls st')"
proof (induction ls arbitrary: st st')
  case Nil
  then show ?case by (simp add: same_untimed_def)
next
  case (Cons l ls)
  have c: "no_ttft (snd (sse_chunk ms c st)) = no_ttft (snd (sse_chunk ms' c st'))" for c
    by (simp add: sse_chunk_untimed Cons.prems)
  have "same_untimed (sse_lines pc ms ls st) (sse_lines pc ms' ls st')" by (rule Cons.IH [OF Cons.prems])
  moreover have "same_untimed (sse_lines pc ms ls (snd (sse_chunk ms c st))) (sse_lines pc ms' ls (snd (sse_chunk ms' c st')))" for c
    by (rule Cons.IH [OF c])
  ultimately show ?case
    using Cons.prems
    by (simp add: same_untimed_def case_prod_beta Let_def sse_chunk_untimed split: option.split)
qed

lemma sse_blocks_untimed:
  "no_ttft st = no_ttft st' \<Longrightarrow> same_untimed (sse_blocks pc ms bs st) (sse_blocks pc ms' bs st')"
proof (induction bs arbitrary: st st')
  case Nil
  then show ?case by (simp add: same_untimed_def)
next
  case (Cons b bs)
  show ?case
    using sse_lines_untimed [OF Cons.prems, of pc ms "str_lines (from_utf8_lossy b)" ms']
      Cons.IH [of "snd (snd (sse_lines pc ms (str_lines (from_utf8_lossy b)) st))"
        "snd (snd (sse_lines pc ms' (str_lines (from_utf8_lossy b)) st'))"]
    by (simp add: same_untimed_def case_prod_beta Let_def)
qed

lemma sse_lines_tokens: "\<forall>ev \<in> set (fst (snd (sse_lines pc ms ls st))). \<exists>t. ev = Token t"
proof (induction ls arbitrary: st)
  case (Cons l ls)
  then show ?case
    by (auto simp: case_prod_beta Let_def sse_chunk_untimed chunk_tokens_def split: option.splits list.splits if_splits)
qed simp

lemma sse_blocks_tokens: "\<forall>ev \<in> set (fst (snd (sse_blocks pc ms bs st))). \<exists>t. ev = Token t"
proof (induction bs arbitrary: st)
  case (Cons b bs)
  then show ?case
    using sse_lines_tokens [of pc ms "str_lines (from_utf8_lossy b)" st] by (auto simp: case_prod_beta Let_def)
qed simp

lemma untimed_token: "\<exists>t. ev = Token t \<Longrightarrow> untimed (Inr ev) = Inr ev"
  by auto

lemma sse_end_cong: "no_ttft st = no_ttft st' \<Longrightarrow> sse_end ptype failed d st = sse_end ptype failed d st'"
  by (simp only: sse_end_def)

text \<open>The run from a buffer with no complete event, against the blocks of what is still to come.\<close>

lemma sse_run_blocks:
  assumes "fst (sse_split buf) = []"
  shows "map untimed (sse_run pc ptype (map (apsnd Inr) cs @
            (case failed of None \<Rightarrow> [] | Some e \<Rightarrow> (t, Inl e) # later)) buf st) =
    (let (d, evs, st') = sse_blocks pc 0 (fst (sse_split (buf @ concat (map snd cs)))) st
     in map Inr evs @ [sse_end ptype failed d st'])"
  using assms
proof (induction cs arbitrary: buf st)
  case Nil
  then show ?case by (simp add: sse_end_def sse_done_def no_ttft_def split: option.split)
next
  case (Cons c cs)
  obtain ms b where c: "c = (ms, b)" by force
  obtain d evs buf' st' where r: "sse_drain pc ms (buf @ b) st = (d, evs, buf', st')" by (metis prod_cases4)
  have blocks: "sse_blocks pc ms (fst (sse_split (buf @ b))) st = (d, evs, st')"
    and rest: "\<not> d \<Longrightarrow> buf' = snd (sse_split (buf @ b))"
    using sse_drain_split [OF r] by auto
  let ?more = "concat (map snd cs)" and ?items = "map (apsnd Inr) cs @
            (case failed of None \<Rightarrow> [] | Some e \<Rightarrow> (t, Inl e) # later)"
  obtain st0 where st0: "sse_blocks pc 0 (fst (sse_split (buf @ b))) st = (d, evs, st0)" "no_ttft st0 = no_ttft st'"
    using sse_blocks_untimed [of st st pc ms "fst (sse_split (buf @ b))" 0] blocks
    by (auto simp: same_untimed_def prod_eq_iff)
  have toks: "map untimed (map Inr evs) = map Inr evs"
    using sse_blocks_tokens [of pc ms "fst (sse_split (buf @ b))" st] blocks by (auto simp: untimed_token)
  have split: "fst (sse_split (buf @ b @ ?more)) = fst (sse_split (buf @ b)) @ fst (sse_split (snd (sse_split (buf @ b)) @ ?more))"
    using sse_split_append [of "buf @ b" ?more] by simp
  show ?case
  proof (cases d)
    case True
    then show ?thesis
      using c r toks st0 by (simp add: split sse_blocks_append sse_end_def sse_done_def no_ttft_def split: option.split)
  next
    case False
    have IH: "map untimed (sse_run pc ptype ?items buf' st') =
      (let (d, evs, st') = sse_blocks pc 0 (fst (sse_split (buf' @ ?more))) st' in map Inr evs @ [sse_end ptype failed d st'])"
      by (rule Cons.IH) (simp add: rest [OF False] sse_split_rest)
    have "same_untimed (sse_blocks pc 0 (fst (sse_split (buf' @ ?more))) st0) (sse_blocks pc 0 (fst (sse_split (buf' @ ?more))) st')"
      by (rule sse_blocks_untimed) (rule st0)
    then have "(let (d, evs, st') = sse_blocks pc 0 (fst (sse_split (buf' @ ?more))) st0
        in map Inr evs @ [sse_end ptype failed d st']) = map untimed (sse_run pc ptype ?items buf' st')"
      unfolding IH by (auto simp: same_untimed_def case_prod_beta intro: sse_end_cong)
    moreover have "sse_blocks pc 0 (fst (sse_split (buf @ concat (map snd (c # cs))))) st =
        (let (d', evs', st'') = sse_blocks pc 0 (fst (sse_split (buf' @ ?more))) st0 in (d', evs @ evs', st''))"
      using st0(1) False by (simp add: c split rest [OF False] sse_blocks_append)
    ultimately show ?thesis
      using r toks False by (simp add: c case_prod_beta Let_def)
  qed
qed

text \<open>
  C32. The events an upstream stream turns into depend on the bytes of the body alone, not on how
  the network cut them: however a server-sent event, a line or a UTF-8 character is split across
  reads, the reader yields exactly the tokens of the complete events of the whole body in order,
  up to \<open>[DONE]\<close>, and then one closing event: the usage, finish reason and model seen so far when
  the body ended or said \<open>[DONE]\<close>, a retryable failure when a read failed before that. Only the
  measured time to the first token may differ.
\<close>

theorem stream_independent_of_chunking:
  assumes "up_post env url bearer (chat_body model ivc (Some True)) = Inr resp" "ur_success resp"
    and "ur_bytes resp = map (apsnd Inr) cs @ (case failed of None \<Rightarrow> [] | Some e \<Rightarrow> (t, Inl e) # later)"
  shows "\<exists>evs. invoke_stream env ptype url bearer model ivc = Inr evs \<and>
    map untimed evs = sse_reference (parse_chunk env) ptype (concat (map snd cs)) failed"
proof -
  have "sse_split [] = ([], [])" by (simp add: sse_split.simps find_subslice_def event_delim_def)
  then show ?thesis
    using sse_run_blocks [where buf = "[]" and pc = "parse_chunk env" and ptype = ptype and cs = cs and st = sse_init
        and failed = failed and t = t and later = later] assms
    by (simp add: invoke_stream_def send_chat_def sse_reference_def map_err_def guard_err_def)
qed

definition sse_demo :: "string \<Rightarrow> stream_chunk option" where
  "sse_demo payload = (if payload = ''{}'' then None else
     Some \<lparr>sc_choices = [\<lparr>sch_content = Some payload, sch_finish_reason = Some ''stop''\<rparr>], sc_usage = None,
       sc_model = Some ''m''\<rparr>)"

definition sse_demo_bytes :: "(nat \<times> string) list" where
  "sse_demo_bytes = [(5, ''data: he''), (7, ''y'' @ [CHR 0x0A]), (9, CHR 0x0A # ''data: [DONE]'' @ event_delim)]"

definition sse_demo_env :: upstream_env where
  "sse_demo_env = \<lparr>up_post = (\<lambda>url key body. Inr \<lparr>ur_success = True, ur_status = ''200 OK'', ur_server_error = False,
       ur_text = None, ur_chat = Inl [], ur_bytes = map (apsnd Inr) sse_demo_bytes\<rparr>), up_ttft = 0,
     parse_chunk = sse_demo\<rparr>"

theorem stream_independent_of_chunking_witness:
  "\<exists>ivc evs. invoke_stream sse_demo_env ''openai'' ''u'' ''k'' ''m'' ivc = Inr evs \<and>
     map untimed evs = sse_reference sse_demo ''openai'' (concat (map snd sse_demo_bytes)) None \<and>
     map untimed evs = [Inr (Token ''hey''), Inr (StreamDone None (Some ''stop'') (Some ''m'') None)]"
proof -
  have r: "sse_reference sse_demo ''openai'' (concat (map snd sse_demo_bytes)) None =
      [Inr (Token ''hey''), Inr (StreamDone None (Some ''stop'') (Some ''m'') None)]"
    by code_simp
  show ?thesis
    using stream_independent_of_chunking [where env = sse_demo_env and cs = sse_demo_bytes and failed = None
        and url = "''u''" and bearer = "''k''" and model = "''m''" and ptype = "''openai''"]
    unfolding r [symmetric] by (simp add: sse_demo_env_def)
qed

end
