(* ===== verification/Redis_Store.thy ===== *)
theory Redis_Store
  imports SP_Types
begin

text \<open>
  \<open>redis/mod.rs\<close>: the keys the gateway keeps in Redis. The key space maps a key to its value and
  the second at which it expires; a key whose second has come is gone. The commands used are
  \<open>SET .. EX\<close>, \<open>GET\<close>, \<open>EXISTS\<close>, \<open>GETDEL\<close>, \<open>INCRBY\<close>, \<open>EXPIRE .. NX\<close> and \<open>RPUSH\<close>. Which checkout or
  command of an operation fails, and the clock, are in a \<open>redis_env\<close>; the \<open>k\<close>-th number is the
  checkout of the operation, the commands follow. A failed command leaves the key space alone.
\<close>

section \<open>The key space\<close>

datatype redis_value = RInt int | RStr string | RList "string list"

type_synonym redis = "string \<Rightarrow> (redis_value \<times> int option) option"

record redis_env =
  conn_err :: "nat \<Rightarrow> string option"
  cmd_err :: "nat \<Rightarrow> string option"
  type_err :: string
  overflow_err :: string
  redis_now :: int

definition redis_get :: "redis_env \<Rightarrow> string \<Rightarrow> redis \<Rightarrow> redis_value option" where
  "redis_get env key r = (case r key of
       None \<Rightarrow> None
     | Some (v, None) \<Rightarrow> Some v
     | Some (v, Some e) \<Rightarrow> if redis_now env < e then Some v else None)"

definition redis_set_ex :: "redis_env \<Rightarrow> string \<Rightarrow> redis_value \<Rightarrow> nat \<Rightarrow> redis \<Rightarrow> redis" where
  "redis_set_ex env key v ttl r = r(key \<mapsto> (v, Some (redis_now env + int ttl)))"

definition redis_error :: "string \<Rightarrow> api_error" where
  "redis_error e = Internal (''redis error: '' @ e)"

definition checkout :: "redis_env \<Rightarrow> nat \<Rightarrow> (api_error, unit) result" where
  "checkout env k = (case conn_err env k of
       None \<Rightarrow> Inr () | Some e \<Rightarrow> Inl (Internal (''redis checkout failed: '' @ e)))"

definition redis_cmd :: "redis_env \<Rightarrow> nat \<Rightarrow> (api_error, unit) result" where
  "redis_cmd env k = (case cmd_err env k of None \<Rightarrow> Inr () | Some e \<Rightarrow> Inl (redis_error e))"

text \<open>A reply read as \<open>Option<i64>\<close> or \<open>Option<String>\<close>.\<close>

fun reply_int :: "redis_env \<Rightarrow> redis_value option \<Rightarrow> (api_error, int option) result" where
  "reply_int env None = Inr None"
| "reply_int env (Some (RInt n)) = Inr (Some n)"
| "reply_int env (Some _) = Inl (redis_error (type_err env))"

fun reply_str :: "redis_env \<Rightarrow> redis_value option \<Rightarrow> (api_error, string option) result" where
  "reply_str env None = Inr None"
| "reply_str env (Some (RStr s)) = Inr (Some s)"
| "reply_str env (Some _) = Inl (redis_error (type_err env))"

section \<open>Keys\<close>

definition jti_key :: "string \<Rightarrow> string" where
  "jti_key jti = ''jti_blacklist:'' @ jti"

definition session_revocation_key :: "(uuid \<Rightarrow> string) \<Rightarrow> uuid \<Rightarrow> string" where
  "session_revocation_key show_id u = ''session_revoked:'' @ show_id u"

definition oidc_state_key :: "string \<Rightarrow> string" where
  "oidc_state_key s = ''oidc_state:'' @ s"

definition scan_task_key :: "string \<Rightarrow> string" where
  "scan_task_key t = ''scan_task:'' @ t"

definition file_vault_key :: "string \<Rightarrow> string" where
  "file_vault_key vault_ref = ''filevault:'' @ vault_ref"

section \<open>Sessions\<close>

definition jti_is_blacklisted :: "redis_env \<Rightarrow> nat \<Rightarrow> string \<Rightarrow> redis \<Rightarrow> (api_error, bool) result" where
  "jti_is_blacklisted env k jti r = rbind (checkout env k) (\<lambda>_. rbind (redis_cmd env (k + 1)) (\<lambda>_.
     Inr (redis_get env (jti_key jti) r \<noteq> None)))"

definition blacklist_jti :: "redis_env \<Rightarrow> nat \<Rightarrow> string \<Rightarrow> nat \<Rightarrow> redis \<Rightarrow> (api_error, redis) result" where
  "blacklist_jti env k jti ttl r = rbind (checkout env k) (\<lambda>_. rbind (redis_cmd env (k + 1)) (\<lambda>_.
     Inr (redis_set_ex env (jti_key jti) (RInt 1) ttl r)))"

definition session_gates ::
  "redis_env \<Rightarrow> nat \<Rightarrow> (uuid \<Rightarrow> string) \<Rightarrow> string \<Rightarrow> uuid \<Rightarrow> redis \<Rightarrow> (api_error, bool \<times> int option) result" where
  "session_gates env k show_id jti u r = rbind (checkout env k) (\<lambda>_. rbind (redis_cmd env (k + 1)) (\<lambda>_.
     let blacklisted = (redis_get env (jti_key jti) r \<noteq> None) in
     rbind (redis_cmd env (k + 2)) (\<lambda>_.
     rbind (reply_int env (redis_get env (session_revocation_key show_id u) r)) (\<lambda>revoked_before.
       Inr (blacklisted, revoked_before)))))"

definition revoke_sessions_before ::
  "redis_env \<Rightarrow> nat \<Rightarrow> (uuid \<Rightarrow> string) \<Rightarrow> uuid \<Rightarrow> int \<Rightarrow> nat \<Rightarrow> redis \<Rightarrow> (api_error, redis) result" where
  "revoke_sessions_before env k show_id u at_unix ttl r =
     rbind (checkout env k) (\<lambda>_. rbind (redis_cmd env (k + 1)) (\<lambda>_.
       Inr (redis_set_ex env (session_revocation_key show_id u) (RInt at_unix) ttl r)))"

definition revocation_watermark_ttl_secs :: "nat \<Rightarrow> nat" where
  "revocation_watermark_ttl_secs access_ttl = access_ttl + 120"

section \<open>File vaults\<close>

text \<open>
  The originals of a scanned file, encrypted by the key-management backend \<open>encrypt\<close>, \<open>decrypt\<close>
  (an error message, or bytes).
\<close>

definition stash_file_vault ::
  "redis_env \<Rightarrow> nat \<Rightarrow> (string \<Rightarrow> (string, string) result) \<Rightarrow> string \<Rightarrow> string \<Rightarrow> nat \<Rightarrow> redis \<Rightarrow> (api_error, redis) result" where
  "stash_file_vault env k encrypt vault_ref map_json ttl r =
     rbind (map_err (\<lambda>e. Internal (''file vault encrypt: '' @ e)) (encrypt map_json)) (\<lambda>ciphertext.
     rbind (guard_err (\<not> valid_utf8 ciphertext) (Internal ''file vault encrypt: ciphertext not UTF-8'')) (\<lambda>_.
     rbind (checkout env k) (\<lambda>_. rbind (redis_cmd env (k + 1)) (\<lambda>_.
       Inr (redis_set_ex env (file_vault_key vault_ref) (RStr ciphertext) ttl r)))))"

definition load_stashed_vault ::
  "redis_env \<Rightarrow> nat \<Rightarrow> (string \<Rightarrow> (string, string) result) \<Rightarrow> string \<Rightarrow> redis \<Rightarrow> string option" where
  "load_stashed_vault env k decrypt vault_ref r =
     (case rbind (checkout env k) (\<lambda>_. rbind (redis_cmd env (k + 1)) (\<lambda>_.
             reply_str env (redis_get env (file_vault_key vault_ref) r))) of
        Inr (Some stored) \<Rightarrow> (case decrypt stored of
            Inl _ \<Rightarrow> None
          | Inr plaintext \<Rightarrow> if valid_utf8 plaintext then Some plaintext else None)
      | _ \<Rightarrow> None)"

section \<open>Counters\<close>

definition i64_max :: int where
  "i64_max = 2 ^ 63 - 1"

definition in_i64 :: "int \<Rightarrow> bool" where
  "in_i64 n = (- i64_max - 1 \<le> n \<and> n \<le> i64_max)"

text \<open>\<open>INCRBY\<close> of a missing key starts at 0 and keeps the expiry of an existing one.\<close>

definition redis_incrby :: "redis_env \<Rightarrow> string \<Rightarrow> int \<Rightarrow> redis \<Rightarrow> (api_error, int \<times> redis) result" where
  "redis_incrby env key delta r =
     (let expiry = (case redis_get env key r of None \<Rightarrow> None | Some _ \<Rightarrow> Option.bind (r key) snd) in
      rbind (reply_int env (redis_get env key r)) (\<lambda>old.
        let n = unwrap_or 0 old + delta in
        if in_i64 n then Inr (n, r(key \<mapsto> (RInt n, expiry))) else Inl (redis_error (overflow_err env))))"

text \<open>\<open>EXPIRE .. NX\<close>: only a key without expiry gets one.\<close>

definition redis_expire_nx :: "redis_env \<Rightarrow> string \<Rightarrow> nat \<Rightarrow> redis \<Rightarrow> redis" where
  "redis_expire_nx env key ttl r =
     (case r key of Some (v, None) \<Rightarrow> r(key \<mapsto> (v, Some (redis_now env + int ttl))) | _ \<Rightarrow> r)"

definition incr_and_get ::
  "redis_env \<Rightarrow> nat \<Rightarrow> string \<Rightarrow> int \<Rightarrow> nat \<Rightarrow> redis \<Rightarrow> (api_error, int) result \<times> redis" where
  "incr_and_get env k key delta ttl r =
     (case rbind (checkout env k) (\<lambda>_. rbind (redis_cmd env (k + 1)) (\<lambda>_. redis_incrby env key delta r)) of
        Inl e \<Rightarrow> (Inl e, r)
      | Inr (n, r1) \<Rightarrow>
          (Inr n, case redis_cmd env (k + 2) of Inl _ \<Rightarrow> r1 | Inr _ \<Rightarrow> redis_expire_nx env key ttl r1))"

definition get_counter :: "redis_env \<Rightarrow> nat \<Rightarrow> string \<Rightarrow> redis \<Rightarrow> (api_error, int) result" where
  "get_counter env k key r = rbind (checkout env k) (\<lambda>_. rbind (redis_cmd env (k + 1)) (\<lambda>_.
     rbind (reply_int env (redis_get env key r)) (\<lambda>raw. Inr (unwrap_or 0 raw))))"

section \<open>Single-use state, queues and task ownership\<close>

definition store_oidc_state ::
  "redis_env \<Rightarrow> nat \<Rightarrow> string \<Rightarrow> string \<Rightarrow> nat \<Rightarrow> redis \<Rightarrow> (api_error, redis) result" where
  "store_oidc_state env k state_id verifier ttl r =
     rbind (checkout env k) (\<lambda>_. rbind (redis_cmd env (k + 1)) (\<lambda>_.
       Inr (redis_set_ex env (oidc_state_key state_id) (RStr verifier) ttl r)))"

definition consume_oidc_state ::
  "redis_env \<Rightarrow> nat \<Rightarrow> string \<Rightarrow> redis \<Rightarrow> (api_error, string option) result \<times> redis" where
  "consume_oidc_state env k state_id r =
     (case rbind (checkout env k) (\<lambda>_. redis_cmd env (k + 1)) of
        Inl e \<Rightarrow> (Inl e, r)
      | Inr _ \<Rightarrow> (case reply_str env (redis_get env (oidc_state_key state_id) r) of
            Inl e \<Rightarrow> (Inl e, r)
          | Inr v \<Rightarrow> (Inr v, r(oidc_state_key state_id := None))))"

definition enqueue_task :: "redis_env \<Rightarrow> nat \<Rightarrow> string \<Rightarrow> string \<Rightarrow> redis \<Rightarrow> (api_error, redis) result" where
  "enqueue_task env k queue payload r =
     rbind (checkout env k) (\<lambda>_. rbind (redis_cmd env (k + 1)) (\<lambda>_.
       (case redis_get env queue r of
          None \<Rightarrow> Inr (r(queue \<mapsto> (RList [payload], None)))
        | Some (RList xs) \<Rightarrow> Inr (r(queue \<mapsto> (RList (xs @ [payload]), Option.bind (r queue) snd)))
        | Some _ \<Rightarrow> Inl (redis_error (type_err env)))))"

definition bind_scan_task ::
  "redis_env \<Rightarrow> nat \<Rightarrow> (uuid \<Rightarrow> string) \<Rightarrow> string \<Rightarrow> uuid \<Rightarrow> nat \<Rightarrow> redis \<Rightarrow> (api_error, redis) result" where
  "bind_scan_task env k show_id task_id ws ttl r =
     rbind (checkout env k) (\<lambda>_. rbind (redis_cmd env (k + 1)) (\<lambda>_.
       Inr (redis_set_ex env (scan_task_key task_id) (RStr (show_id ws)) ttl r)))"

definition scan_task_owner :: "redis_env \<Rightarrow> nat \<Rightarrow> string \<Rightarrow> redis \<Rightarrow> (api_error, string option) result" where
  "scan_task_owner env k task_id r =
     rbind (checkout env k) (\<lambda>_. rbind (redis_cmd env (k + 1)) (\<lambda>_.
       reply_str env (redis_get env (scan_task_key task_id) r)))"

section \<open>Lemmas\<close>

lemma key_spaces_disjoint [simp]:
  "jti_key j \<noteq> session_revocation_key sh u" "session_revocation_key sh u \<noteq> jti_key j"
  "jti_key j \<noteq> oidc_state_key s" "session_revocation_key sh u \<noteq> oidc_state_key s"
  "file_vault_key f \<noteq> jti_key j" "file_vault_key f \<noteq> session_revocation_key sh u"
  by (simp_all add: jti_key_def session_revocation_key_def oidc_state_key_def file_vault_key_def)

lemma jti_key_inj [simp]: "jti_key a = jti_key b \<longleftrightarrow> a = b"
  by (simp add: jti_key_def)

lemma revocation_key_inj: "inj sh \<Longrightarrow> session_revocation_key sh a = session_revocation_key sh b \<longleftrightarrow> a = b"
  by (auto simp: session_revocation_key_def dest: injD)

lemma redis_get_set_ex:
  "redis_get env key (redis_set_ex env' key' v ttl r) =
     (if key = key' then (if redis_now env < redis_now env' + int ttl then Some v else None) else redis_get env key r)"
  by (simp add: redis_get_def redis_set_ex_def)

lemma redis_get_cong: "r key = r' key \<Longrightarrow> redis_get env key r = redis_get env key r'"
  by (simp add: redis_get_def)

text \<open>What is stored and still live is what was encrypted; loading it gives the text back.\<close>

lemma stash_load_file_vault:
  assumes "stash_file_vault env k encrypt ref json ttl r = Inr r'" "valid_utf8 json"
    and kms: "\<forall>t c. encrypt t = Inr c \<longrightarrow> decrypt c = Inr t"
    and live: "redis_now env' < redis_now env + int ttl" "checkout env' k' = Inr ()" "redis_cmd env' (k' + 1) = Inr ()"
  shows "load_stashed_vault env' k' decrypt ref r' = Some json"
proof -
  obtain c where c: "encrypt json = Inr c" "r' = redis_set_ex env (file_vault_key ref) (RStr c) ttl r"
    using assms(1) by (auto simp: stash_file_vault_def rbind_Inr)
  then have "decrypt c = Inr json" using kms by blast
  then show ?thesis using live assms(2) by (simp add: load_stashed_vault_def c(2) redis_get_set_ex)
qed

text \<open>An OIDC state is consumed once.\<close>

lemma consume_oidc_state_once:
  "consume_oidc_state env k s r = (Inr v, r') \<Longrightarrow> redis_get env' (oidc_state_key s) r' = None"
  by (auto simp: consume_oidc_state_def redis_get_def split: sum.splits)

lemma incr_and_get_value:
  assumes "incr_and_get env k key delta ttl r = (Inr n, r')"
  shows "reply_int env (redis_get env key r) = Inr old \<Longrightarrow> n = unwrap_or 0 old + delta"
    and "in_i64 n" "\<And>key'. key' \<noteq> key \<Longrightarrow> r' key' = r key'"
  using assms by (auto simp: incr_and_get_def redis_incrby_def redis_expire_nx_def rbind_Inr Let_def
      split: sum.splits if_splits option.splits)

end
