(* ===== verification/Session_Store.thy ===== *)
theory Session_Store
  imports Admin_Db Redis_Store
begin

text \<open>
  The tables behind a sign-in: \<open>users\<close>, \<open>refresh_tokens\<close> and \<open>session_revocation_audit\<close>
  (\<open>db/refresh_token_repo.rs\<close>, \<open>db/session_repo.rs\<close>, \<open>db/session_revocation_repo.rs\<close>, the reads of
  \<open>db/user_repo.rs\<close>), and the state machine of refresh-token rotation. Row-level security shows a
  scoped transaction the rows of its workspace only, and a probe the row of its hash; the unique
  columns are \<open>id\<close> and \<open>token_hash\<close>. A rotation reads the row in one transaction and swaps it in a
  second one, so the two halves are separate operations and other operations may run in between.
  Timestamps are seconds; SHA-256 is a parameter.
\<close>

section \<open>Invariants of a state machine\<close>

text \<open>What a step relation promises its clients: a property that every step keeps holds of every reachable state.\<close>

locale preserved =
  fixes step :: "'s \<Rightarrow> 's \<Rightarrow> bool"
    and keeps :: "'s \<Rightarrow> bool"
  assumes step_keeps: "step s s' \<Longrightarrow> keeps s \<Longrightarrow> keeps s'"
begin

lemma reach_keeps: "step\<^sup>*\<^sup>* s s' \<Longrightarrow> keeps s \<Longrightarrow> keeps s'"
  by (induction rule: rtranclp_induct) (auto intro: step_keeps)

end

section \<open>Rows\<close>

record user_row =
  us_id :: uuid
  us_ws :: uuid
  us_email :: string
  us_password_hash :: string
  us_role :: string
  us_created_at :: int
  us_updated_at :: int
  us_totp_secret :: "string option"
  us_totp_confirmed_at :: "int option"
  us_totp_last_timestep :: "int option"
  us_totp_failed_attempts :: int
  us_totp_locked_until :: "int option"

record refresh_row =
  rt_id :: uuid
  rt_user :: uuid
  rt_ws :: uuid
  rt_hash :: string
  rt_expires_at :: int
  rt_revoked_at :: "int option"
  rt_replaced_by :: "uuid option"
  rt_created_at :: int
  rt_session :: uuid
  rt_access_jti :: "string option"
  rt_client_ip :: "string option"
  rt_client_descriptor :: "string option"

record revocation_row =
  sr_id :: uuid
  sr_ws :: uuid
  sr_actor_user_id :: uuid
  sr_actor_email :: "string option"
  sr_actor_role :: string
  sr_target_user_id :: uuid
  sr_target_email :: string
  sr_target_role :: string
  sr_revoked_before :: int
  sr_refresh_tokens_revoked :: int
  sr_session_id :: "uuid option"
  sr_created_at :: int

record session_db =
  users_tbl :: "user_row list"
  refresh_tbl :: "refresh_row list"
  revocation_tbl :: "revocation_row list"
  sess_audit :: "audit_row list"

section \<open>Refresh tokens\<close>

record new_session_row =
  ns_user_id :: uuid
  ns_workspace_id :: uuid
  ns_raw_token :: string
  ns_expires_at :: int
  ns_session_id :: uuid
  ns_access_jti :: string
  ns_client_ip :: "string option"
  ns_client_descriptor :: "string option"

datatype rotation_outcome =
    Rotated uuid uuid uuid uuid
  | ReplayDetected uuid
  | RevokedToken
  | NotFoundToken
  | ExpiredToken

text \<open>\<open>INSERT INTO refresh_tokens\<close> as the \<open>k\<close>-th statement.\<close>

definition insert_refresh ::
  "db_env \<Rightarrow> nat \<Rightarrow> refresh_row \<Rightarrow> refresh_row list \<Rightarrow> (api_error, refresh_row list) result" where
  "insert_refresh env k row tbl = rbind (stmt env k) (\<lambda>_.
     if rt_id row \<in> rt_id ` set tbl \<or> rt_hash row \<in> rt_hash ` set tbl then Inl (Database (dup_err env))
     else Inr (tbl @ [row]))"

definition rt_insert ::
  "db_env \<Rightarrow> (string \<Rightarrow> string) \<Rightarrow> new_session_row \<Rightarrow> session_db \<Rightarrow> (api_error, uuid \<times> session_db) result" where
  "rt_insert env sha row db =
     (let i = fresh_uuid env 3 in
      rbind (begin_scoped env (ns_workspace_id row)) (\<lambda>_.
      rbind (insert_refresh env 3 \<lparr>rt_id = i, rt_user = ns_user_id row, rt_ws = ns_workspace_id row,
          rt_hash = sha (ns_raw_token row), rt_expires_at = ns_expires_at row, rt_revoked_at = None,
          rt_replaced_by = None, rt_created_at = now_ts env, rt_session = ns_session_id row,
          rt_access_jti = Some (ns_access_jti row), rt_client_ip = ns_client_ip row,
          rt_client_descriptor = ns_client_descriptor row\<rparr> (refresh_tbl db)) (\<lambda>tbl.
      rbind (stmt env 4) (\<lambda>_. Inr (i, db\<lparr>refresh_tbl := tbl\<rparr>)))))"

definition probe_not_armed :: string where
  "probe_not_armed = ''app.refresh_token_probe was not armed for this transaction; refusing to '' @
     ''run a refresh-token lookup that would silently return no rows''"

definition begin_refresh_token_probe :: "db_env \<Rightarrow> string \<Rightarrow> (api_error, unit) result" where
  "begin_refresh_token_probe env h = rbind (stmt env 0) (\<lambda>_. rbind (stmt env 1) (\<lambda>_. rbind (stmt env 2) (\<lambda>_.
     if readback env h = Some h then Inr () else Inl (Internal probe_not_armed))))"

definition row_of_hash :: "string \<Rightarrow> refresh_row list \<Rightarrow> refresh_row option" where
  "row_of_hash h tbl = find (\<lambda>r. rt_hash r = h) tbl"

text \<open>The first half of \<open>rotate\<close>: the probe, and what it can decide alone; \<open>Inr\<close> is the row to swap.\<close>

definition rotate_probe ::
  "db_env \<Rightarrow> (string \<Rightarrow> string) \<Rightarrow> int \<Rightarrow> string \<Rightarrow> session_db \<Rightarrow> (api_error, rotation_outcome + refresh_row) result" where
  "rotate_probe env sha now old_raw db =
     rbind (begin_refresh_token_probe env (sha old_raw)) (\<lambda>_.
     rbind (stmt env 3) (\<lambda>_. rbind (stmt env 4) (\<lambda>_.
     Inr (case row_of_hash (sha old_raw) (refresh_tbl db) of
        None \<Rightarrow> Inl NotFoundToken
      | Some row \<Rightarrow>
          if rt_revoked_at row \<noteq> None
          then Inl (if rt_replaced_by row \<noteq> None then ReplayDetected (rt_user row) else RevokedToken)
          else if rt_expires_at row \<le> now then Inl ExpiredToken
          else Inr row))))"

text \<open>The second half: insert the new token and close the old one, if nobody has.\<close>

definition close_row :: "(refresh_row \<Rightarrow> bool) \<Rightarrow> int \<Rightarrow> uuid option \<Rightarrow> refresh_row \<Rightarrow> refresh_row" where
  "close_row p t new r = (if p r \<and> rt_revoked_at r = None
     then r\<lparr>rt_revoked_at := Some t, rt_replaced_by := (case new of Some n \<Rightarrow> Some n | None \<Rightarrow> rt_replaced_by r)\<rparr> else r)"

definition open_rows :: "(refresh_row \<Rightarrow> bool) \<Rightarrow> refresh_row list \<Rightarrow> nat" where
  "open_rows p tbl = length (filter (\<lambda>r. p r \<and> rt_revoked_at r = None) tbl)"

definition rotate_swap ::
  "db_env \<Rightarrow> (string \<Rightarrow> string) \<Rightarrow> refresh_row \<Rightarrow> string \<Rightarrow> string \<Rightarrow> int \<Rightarrow> session_db
     \<Rightarrow> (api_error, rotation_outcome \<times> session_db) result" where
  "rotate_swap env sha old new_raw new_jti new_expires db =
     (let new_id = fresh_uuid env 3; mine = (\<lambda>r. rt_id r = rt_id old \<and> rt_ws r = rt_ws old) in
      rbind (begin_scoped env (rt_ws old)) (\<lambda>_.
      rbind (insert_refresh env 3 \<lparr>rt_id = new_id, rt_user = rt_user old, rt_ws = rt_ws old, rt_hash = sha new_raw,
          rt_expires_at = new_expires, rt_revoked_at = None, rt_replaced_by = None, rt_created_at = now_ts env,
          rt_session = rt_session old, rt_access_jti = Some new_jti, rt_client_ip = None,
          rt_client_descriptor = None\<rparr> (refresh_tbl db)) (\<lambda>tbl.
      rbind (stmt env 4) (\<lambda>_.
      rbind (stmt env 5) (\<lambda>_.
        if open_rows mine tbl = 0 then Inr (ReplayDetected (rt_user old), db)
        else Inr (Rotated (rt_id old) new_id (rt_user old) (rt_ws old),
               db\<lparr>refresh_tbl := map (close_row mine (now_ts env) (Some new_id)) tbl\<rparr>))))))"

definition rotate ::
  "db_env \<Rightarrow> db_env \<Rightarrow> (string \<Rightarrow> string) \<Rightarrow> int \<Rightarrow> string \<Rightarrow> string \<Rightarrow> string \<Rightarrow> int \<Rightarrow> session_db
     \<Rightarrow> (api_error, rotation_outcome \<times> session_db) result" where
  "rotate probe env sha now old_raw new_raw new_jti new_expires db =
     rbind (rotate_probe probe sha now old_raw db) (\<lambda>res. case res of
        Inl outcome \<Rightarrow> Inr (outcome, db)
      | Inr old \<Rightarrow> rotate_swap env sha old new_raw new_jti new_expires db)"

definition user_of_id :: "uuid \<Rightarrow> session_db \<Rightarrow> user_row option" where
  "user_of_id u db = find (\<lambda>r. us_id r = u) (users_tbl db)"

definition revoke_all_for_user ::
  "db_env \<Rightarrow> db_env \<Rightarrow> uuid \<Rightarrow> session_db \<Rightarrow> (api_error, session_db) result" where
  "revoke_all_for_user look env u db =
     rbind (stmt look 0) (\<lambda>_.
     case user_of_id u db of
       None \<Rightarrow> Inr db
     | Some user \<Rightarrow>
         rbind (begin_scoped env (us_ws user)) (\<lambda>_. rbind (stmt env 3) (\<lambda>_. rbind (stmt env 4) (\<lambda>_.
           Inr (db\<lparr>refresh_tbl := map (close_row (\<lambda>r. rt_user r = u \<and> rt_ws r = us_ws user) (now_ts env) None)
             (refresh_tbl db)\<rparr>)))))"

definition find_active_by_hash :: "db_env \<Rightarrow> string \<Rightarrow> session_db \<Rightarrow> (api_error, refresh_row option) result" where
  "find_active_by_hash env h db =
     rbind (begin_refresh_token_probe env h) (\<lambda>_. rbind (stmt env 3) (\<lambda>_. rbind (stmt env 4) (\<lambda>_.
       Inr (find (\<lambda>r. rt_hash r = h \<and> rt_revoked_at r = None \<and> now_ts env < rt_expires_at r) (refresh_tbl db)))))"

section \<open>Listing sessions\<close>

record session_summary =
  ss_session_id :: uuid
  ss_started_at :: int
  ss_last_seen_at :: int
  ss_expires_at :: int
  ss_client_ip :: "string option"
  ss_client_descriptor :: "string option"
  ss_is_current :: bool

record live_session =
  ls_session_id :: uuid
  ls_revocable_jtis :: "string list"

definition row_live :: "int \<Rightarrow> refresh_row \<Rightarrow> bool" where
  "row_live now r = (rt_revoked_at r = None \<and> now < rt_expires_at r)"

text \<open>\<open>MAX\<close> of a text column: the greatest value that is not null, in the database's collation.\<close>

definition max_text :: "(string \<Rightarrow> string \<Rightarrow> string) \<Rightarrow> string option list \<Rightarrow> string option" where
  "max_text greatest xs = fold (\<lambda>x acc. case (x, acc) of
       (None, _) \<Rightarrow> acc | (Some s, None) \<Rightarrow> Some s | (Some s, Some t) \<Rightarrow> Some (greatest s t)) xs None"

definition summarise :: "(string \<Rightarrow> string \<Rightarrow> string) \<Rightarrow> string \<Rightarrow> uuid \<Rightarrow> refresh_row list \<Rightarrow> session_summary" where
  "summarise greatest current_jti sid rows =
     \<lparr>ss_session_id = sid, ss_started_at = Min (rt_created_at ` set rows), ss_last_seen_at = Max (rt_created_at ` set rows),
      ss_expires_at = Max (rt_expires_at ` set rows), ss_client_ip = max_text greatest (map rt_client_ip rows),
      ss_client_descriptor = max_text greatest (map rt_client_descriptor rows),
      ss_is_current = list_ex (\<lambda>r. rt_access_jti r = Some current_jti) rows\<rparr>"

definition list_live ::
  "db_env \<Rightarrow> (string \<Rightarrow> string \<Rightarrow> string) \<Rightarrow> uuid \<Rightarrow> uuid \<Rightarrow> string \<Rightarrow> session_db
     \<Rightarrow> (api_error, session_summary list) result" where
  "list_live env greatest ws u current_jti db =
     rbind (begin_scoped env ws) (\<lambda>_. rbind (stmt env 3) (\<lambda>_. rbind (stmt env 4) (\<lambda>_.
     let rows = filter (\<lambda>r. rt_user r = u \<and> rt_ws r = ws) (refresh_tbl db);
         groups = map (\<lambda>sid. (sid, filter (\<lambda>r. rt_session r = sid) rows)) (remdups (map rt_session rows));
         live = filter (\<lambda>(sid, rs). list_ex (row_live (now_ts env)) rs) groups
     in Inr (sort_key (\<lambda>s. - ss_last_seen_at s) (map (\<lambda>(sid, rs). summarise greatest current_jti sid rs) live)))))"

definition find_live_session ::
  "db_env \<Rightarrow> uuid \<Rightarrow> uuid \<Rightarrow> uuid \<Rightarrow> int \<Rightarrow> session_db \<Rightarrow> (api_error, live_session option) result" where
  "find_live_session env ws u sid minted_after db =
     rbind (begin_scoped env ws) (\<lambda>_. rbind (stmt env 3) (\<lambda>_. rbind (stmt env 4) (\<lambda>_.
     let rows = filter (\<lambda>r. rt_user r = u \<and> rt_ws r = ws \<and> rt_session r = sid) (refresh_tbl db)
     in Inr (if list_ex (row_live (now_ts env)) rows
             then Some \<lparr>ls_session_id = sid,
               ls_revocable_jtis = List.map_filter (\<lambda>r. if minted_after < rt_created_at r then rt_access_jti r else None) rows\<rparr>
             else None))))"

section \<open>Administrative revocation\<close>

record revocation_target =
  tg_user_id :: uuid
  tg_email :: string
  tg_role :: string

record revocation_outcome =
  ro_audit_id :: uuid
  ro_refresh_tokens_revoked :: int
  ro_created_at :: int

record revocation_record =
  rr_workspace_id :: uuid
  rr_actor_user_id :: uuid
  rr_actor_email :: "string option"
  rr_actor_role :: string
  rr_target :: revocation_target
  rr_revoked_before :: int
  rr_session_id :: "uuid option"

definition user_in_ws :: "uuid \<Rightarrow> uuid \<Rightarrow> session_db \<Rightarrow> user_row option" where
  "user_in_ws u ws db = find (\<lambda>r. us_id r = u \<and> us_ws r = ws) (users_tbl db)"

definition find_target :: "db_env \<Rightarrow> uuid \<Rightarrow> uuid \<Rightarrow> session_db \<Rightarrow> (api_error, revocation_target option) result" where
  "find_target env ws u db = rbind (stmt env 0) (\<lambda>_.
     Inr (map_option (\<lambda>r. \<lparr>tg_user_id = us_id r, tg_email = us_email r, tg_role = us_role r\<rparr>) (user_in_ws u ws db)))"

definition revocation_actor_email :: "db_env \<Rightarrow> uuid \<Rightarrow> uuid \<Rightarrow> session_db \<Rightarrow> (api_error, string option) result" where
  "revocation_actor_email env ws u db = rbind (stmt env 0) (\<lambda>_. Inr (map_option us_email (user_in_ws u ws db)))"

definition latest_watermark :: "db_env \<Rightarrow> uuid \<Rightarrow> uuid \<Rightarrow> session_db \<Rightarrow> (api_error, int option) result" where
  "latest_watermark env ws u db =
     rbind (begin_scoped env ws) (\<lambda>_. rbind (stmt env 3) (\<lambda>_. rbind (stmt env 4) (\<lambda>_.
     let marks = map sr_revoked_before
           (filter (\<lambda>r. sr_target_user_id r = u \<and> sr_ws r = ws \<and> sr_session_id r = None) (revocation_tbl db))
     in Inr (if marks = [] then None else Some (Max (set marks))))))"

text \<open>\<open>write_audit\<close> as the \<open>k\<close>-th statement; the count is clamped to \<open>i64\<close>.\<close>

definition i64_of_count :: "nat \<Rightarrow> int" where
  "i64_of_count n = min (int n) 9223372036854775807"

definition write_revocation_audit ::
  "db_env \<Rightarrow> nat \<Rightarrow> revocation_record \<Rightarrow> int \<Rightarrow> revocation_row list
     \<Rightarrow> (api_error, revocation_outcome \<times> revocation_row list) result" where
  "write_revocation_audit env k rec n_closed tbl = rbind (stmt env k) (\<lambda>_.
     Inr (\<lparr>ro_audit_id = fresh_uuid env k, ro_refresh_tokens_revoked = n_closed, ro_created_at = now_ts env\<rparr>,
       tbl @ [\<lparr>sr_id = fresh_uuid env k, sr_ws = rr_workspace_id rec, sr_actor_user_id = rr_actor_user_id rec,
         sr_actor_email = rr_actor_email rec, sr_actor_role = rr_actor_role rec,
         sr_target_user_id = tg_user_id (rr_target rec), sr_target_email = tg_email (rr_target rec),
         sr_target_role = tg_role (rr_target rec), sr_revoked_before = rr_revoked_before rec,
         sr_refresh_tokens_revoked = n_closed, sr_session_id = rr_session_id rec, sr_created_at = now_ts env\<rparr>]))"

text \<open>The two revocations close a set of rows and write the audit row in one transaction.\<close>

definition revoke_rows ::
  "db_env \<Rightarrow> (refresh_row \<Rightarrow> bool) \<Rightarrow> revocation_record \<Rightarrow> session_db
     \<Rightarrow> (api_error, revocation_outcome \<times> session_db) result" where
  "revoke_rows env p rec db =
     rbind (begin_scoped env (rr_workspace_id rec)) (\<lambda>_. rbind (stmt env 3) (\<lambda>_.
     rbind (write_revocation_audit env 4 rec (i64_of_count (open_rows p (refresh_tbl db))) (revocation_tbl db)) (\<lambda>(outcome, tbl).
     rbind (stmt env 5) (\<lambda>_.
       Inr (outcome, db\<lparr>refresh_tbl := map (close_row p (now_ts env) None) (refresh_tbl db), revocation_tbl := tbl\<rparr>)))))"

definition sr_revoke ::
  "db_env \<Rightarrow> revocation_record \<Rightarrow> session_db \<Rightarrow> (api_error, revocation_outcome \<times> session_db) result" where
  "sr_revoke env rec db =
     revoke_rows env (\<lambda>r. rt_user r = tg_user_id (rr_target rec) \<and> rt_ws r = rr_workspace_id rec) rec db"

definition sr_revoke_one_session ::
  "db_env \<Rightarrow> revocation_record \<Rightarrow> uuid \<Rightarrow> session_db \<Rightarrow> (api_error, revocation_outcome \<times> session_db) result" where
  "sr_revoke_one_session env rec sid db =
     revoke_rows env (\<lambda>r. rt_user r = tg_user_id (rr_target rec) \<and> rt_ws r = rr_workspace_id rec \<and> rt_session r = sid)
       rec db"

section \<open>Rotation, interleaved\<close>

text \<open>
  The refresh tokens as a state machine: the table, the rotations that have probed but not yet
  swapped, and the identifiers whose rotation has been answered with \<open>Rotated\<close>. Any number of
  requests may be between their two transactions.
\<close>

record rotation_state =
  rs_db :: session_db
  rs_probed :: "refresh_row list"
  rs_rotated :: "uuid list"

inductive rotation_step :: "(string \<Rightarrow> string) \<Rightarrow> rotation_state \<Rightarrow> rotation_state \<Rightarrow> bool" for sha where
  sign_in: "rt_insert env sha row (rs_db s) = Inr (i, db') \<Longrightarrow> rotation_step sha s (s\<lparr>rs_db := db'\<rparr>)"
| probe: "rotate_probe env sha now raw (rs_db s) = Inr (Inr row) \<Longrightarrow>
    rotation_step sha s (s\<lparr>rs_probed := row # rs_probed s\<rparr>)"
| swap: "row \<in> set (rs_probed s) \<Longrightarrow>
    rotate_swap env sha row new_raw new_jti new_expires (rs_db s) = Inr (Rotated old new u ws, db') \<Longrightarrow>
    rotation_step sha s (s\<lparr>rs_db := db', rs_rotated := old # rs_rotated s\<rparr>)"
| lost_race: "row \<in> set (rs_probed s) \<Longrightarrow>
    rotate_swap env sha row new_raw new_jti new_expires (rs_db s) = Inr (ReplayDetected u, db') \<Longrightarrow>
    rotation_step sha s (s\<lparr>rs_db := db'\<rparr>)"
| revoke_user: "revoke_all_for_user look env u (rs_db s) = Inr db' \<Longrightarrow> rotation_step sha s (s\<lparr>rs_db := db'\<rparr>)"
| admin_revoke: "revoke_rows env p rec (rs_db s) = Inr (outcome, db') \<Longrightarrow> rotation_step sha s (s\<lparr>rs_db := db'\<rparr>)"

definition rotation_reach :: "(string \<Rightarrow> string) \<Rightarrow> rotation_state \<Rightarrow> rotation_state \<Rightarrow> bool" where
  "rotation_reach sha = (rotation_step sha)\<^sup>*\<^sup>*"

text \<open>
  The invariant: identifiers and hashes are unique, every probed row is a row of the table up to
  its closing, every rotated row is closed, and no identifier was rotated twice.
\<close>

definition known_row :: "refresh_row list \<Rightarrow> refresh_row \<Rightarrow> bool" where
  "known_row tbl row = (\<exists>r \<in> set tbl. rt_id r = rt_id row \<and> rt_hash r = rt_hash row \<and> rt_ws r = rt_ws row)"

definition rotation_inv :: "rotation_state \<Rightarrow> bool" where
  "rotation_inv s = (distinct (map rt_id (refresh_tbl (rs_db s))) \<and> distinct (map rt_hash (refresh_tbl (rs_db s))) \<and>
     (\<forall>row \<in> set (rs_probed s). known_row (refresh_tbl (rs_db s)) row) \<and>
     (\<forall>i \<in> set (rs_rotated s). \<exists>r \<in> set (refresh_tbl (rs_db s)). rt_id r = i \<and> rt_revoked_at r \<noteq> None \<and> rt_replaced_by r \<noteq> None) \<and>
     distinct (rs_rotated s))"

lemma close_row_same [simp]:
  "rt_id (close_row p t n r) = rt_id r" "rt_hash (close_row p t n r) = rt_hash r" "rt_ws (close_row p t n r) = rt_ws r"
  "rt_user (close_row p t n r) = rt_user r" "rt_session (close_row p t n r) = rt_session r"
  by (auto simp: close_row_def)

lemma close_row_closed:
  "rt_revoked_at r \<noteq> None \<Longrightarrow> close_row p t n r = r"
  "p r \<Longrightarrow> rt_revoked_at (close_row p t n r) \<noteq> None"
  by (auto simp: close_row_def)

lemma map_close_row_keys [simp]:
  "map rt_id (map (close_row p t n) tbl) = map rt_id tbl" "map rt_hash (map (close_row p t n) tbl) = map rt_hash tbl"
  by (simp_all add: comp_def)

text \<open>Every operation on the table appends fresh rows and closes rows; that is all the invariant needs.\<close>

definition evolves :: "refresh_row list \<Rightarrow> refresh_row list \<Rightarrow> bool" where
  "evolves tbl tbl' = (distinct (map rt_id tbl') \<and> distinct (map rt_hash tbl') \<and>
     (\<forall>r \<in> set tbl. \<exists>r' \<in> set tbl'. rt_id r' = rt_id r \<and> rt_hash r' = rt_hash r \<and> rt_ws r' = rt_ws r \<and>
        rt_user r' = rt_user r \<and> (rt_revoked_at r \<noteq> None \<longrightarrow> r' = r)))"

lemma evolves_close:
  assumes "distinct (map rt_id tbl)" "distinct (map rt_hash tbl)"
  shows "evolves tbl (map (close_row p t n) tbl)"
  unfolding evolves_def map_close_row_keys using assms by (auto simp: close_row_closed(1))

lemma evolves_insert:
  assumes "insert_refresh env k row tbl = Inr tbl'" "distinct (map rt_id tbl)" "distinct (map rt_hash tbl)"
  shows "evolves tbl tbl'"
  using assms by (auto simp: evolves_def insert_refresh_def rbind_Inr split: if_splits)

lemma evolves_refl: "distinct (map rt_id tbl) \<Longrightarrow> distinct (map rt_hash tbl) \<Longrightarrow> evolves tbl tbl"
  by (auto simp: evolves_def)

lemma evolves_trans: "evolves a b \<Longrightarrow> evolves b c \<Longrightarrow> evolves a c"
  unfolding evolves_def by (metis (no_types, lifting))

lemma known_row_evolves: "evolves tbl tbl' \<Longrightarrow> known_row tbl row \<Longrightarrow> known_row tbl' row"
  unfolding evolves_def known_row_def by metis

lemma rotation_inv_evolves:
  assumes "rotation_inv s" "evolves (refresh_tbl (rs_db s)) (refresh_tbl db')"
  shows "rotation_inv (s\<lparr>rs_db := db'\<rparr>)"
proof -
  have "\<exists>r \<in> set (refresh_tbl db'). rt_id r = i \<and> rt_revoked_at r \<noteq> None \<and> rt_replaced_by r \<noteq> None"
    if "i \<in> set (rs_rotated s)" for i
    using assms that unfolding rotation_inv_def evolves_def by metis
  then show ?thesis
    using assms known_row_evolves [OF assms(2)] by (simp add: rotation_inv_def evolves_def)
qed

lemma open_rows_0: "open_rows p tbl = 0 \<longleftrightarrow> (\<forall>r \<in> set tbl. p r \<longrightarrow> rt_revoked_at r \<noteq> None)"
  by (auto simp: open_rows_def filter_empty_conv)

lemma rotate_swap_RotatedE:
  assumes "rotate_swap env sha row new_raw new_jti new_expires db = Inr (Rotated old new u ws, db')"
  obtains k nrow tbl where "old = rt_id row" "insert_refresh env k nrow (refresh_tbl db) = Inr tbl" "rt_id nrow = new"
    "db' = db\<lparr>refresh_tbl := map (close_row (\<lambda>r. rt_id r = rt_id row \<and> rt_ws r = rt_ws row) (now_ts env) (Some new)) tbl\<rparr>"
    "\<exists>r \<in> set tbl. rt_id r = rt_id row \<and> rt_ws r = rt_ws row \<and> rt_revoked_at r = None"
  using assms
  by (auto simp: rotate_swap_def rbind_Inr Let_def open_rows_0 split: if_splits intro!: that)

lemma rotate_swap_replay: "rotate_swap env sha row new_raw new_jti new_expires db = Inr (ReplayDetected u, db') \<Longrightarrow> db' = db"
  by (auto simp: rotate_swap_def rbind_Inr Let_def split: if_splits)

lemma find_SomeD: "find P xs = Some x \<Longrightarrow> x \<in> set xs \<and> P x"
  by (induction xs) (auto split: if_splits)

lemma rotate_probe_row: "rotate_probe env sha now raw db = Inr (Inr row) \<Longrightarrow> row \<in> set (refresh_tbl db) \<and> rt_hash row = sha raw"
  by (auto simp: rotate_probe_def rbind_Inr row_of_hash_def dest: find_SomeD split: option.splits if_splits)

lemma evolves_rotation:
  assumes "insert_refresh env k nrow tbl = Inr tbl1" "distinct (map rt_id tbl)" "distinct (map rt_hash tbl)"
  shows "evolves tbl (map (close_row p t n) tbl1)"
proof -
  have e: "evolves tbl tbl1" by (rule evolves_insert [OF assms])
  then have "evolves tbl1 (map (close_row p t n) tbl1)" unfolding evolves_def by (intro evolves_close [unfolded evolves_def]) auto
  then show ?thesis using e evolves_trans by blast
qed

lemma evolves_revoke_all:
  assumes "revoke_all_for_user look env u db = Inr db'" "distinct (map rt_id (refresh_tbl db))" "distinct (map rt_hash (refresh_tbl db))"
  shows "evolves (refresh_tbl db) (refresh_tbl db')"
  using assms evolves_close [OF assms(2,3)] evolves_refl [OF assms(2,3)]
  by (auto simp: revoke_all_for_user_def rbind_Inr split: option.splits)

lemma evolves_revoke_rows:
  assumes "revoke_rows env p rec db = Inr (outcome, db')" "distinct (map rt_id (refresh_tbl db))" "distinct (map rt_hash (refresh_tbl db))"
  shows "evolves (refresh_tbl db) (refresh_tbl db')"
  using assms evolves_close [OF assms(2,3)] by (auto simp: revoke_rows_def rbind_Inr)

lemma evolves_rt_insert:
  assumes "rt_insert env sha row db = Inr (i, db')" "distinct (map rt_id (refresh_tbl db))" "distinct (map rt_hash (refresh_tbl db))"
  shows "evolves (refresh_tbl db) (refresh_tbl db')"
  using assms evolves_insert [OF _ assms(2,3)] by (auto simp: rt_insert_def rbind_Inr Let_def)

lemma rotation_inv_swap:
  assumes inv: "rotation_inv s" and row: "row \<in> set (rs_probed s)"
    and swap: "rotate_swap env sha row new_raw new_jti new_expires (rs_db s) = Inr (Rotated old new u ws, db')"
  shows "rotation_inv (s\<lparr>rs_db := db', rs_rotated := old # rs_rotated s\<rparr>)"
proof -
  let ?mine = "\<lambda>r. rt_id r = rt_id row \<and> rt_ws r = rt_ws row"
  obtain k nrow tbl where old: "old = rt_id row" and ins: "insert_refresh env k nrow (refresh_tbl (rs_db s)) = Inr tbl"
    and db': "db' = (rs_db s)\<lparr>refresh_tbl := map (close_row ?mine (now_ts env) (Some new)) tbl\<rparr>"
    and was_open: "\<exists>r \<in> set tbl. ?mine r \<and> rt_revoked_at r = None"
    by (rule rotate_swap_RotatedE [OF swap]) blast
  have d: "distinct (map rt_id (refresh_tbl (rs_db s)))" "distinct (map rt_hash (refresh_tbl (rs_db s)))"
    using inv by (auto simp: rotation_inv_def)
  have e1: "evolves (refresh_tbl (rs_db s)) tbl" by (rule evolves_insert [OF ins d])
  then have dt: "distinct (map rt_id tbl)" by (simp add: evolves_def)
  have "evolves (refresh_tbl (rs_db s)) (refresh_tbl db')"
    unfolding db' using evolves_rotation [OF ins d] by simp
  then have I: "rotation_inv (s\<lparr>rs_db := db'\<rparr>)" by (rule rotation_inv_evolves [OF inv])
  have "old \<notin> set (rs_rotated s)"
  proof
    assume "old \<in> set (rs_rotated s)"
    then obtain r where r: "r \<in> set (refresh_tbl (rs_db s))" "rt_id r = rt_id row" "rt_revoked_at r \<noteq> None"
      using inv old by (auto simp: rotation_inv_def)
    then have "r \<in> set tbl" using e1 unfolding evolves_def by metis
    then show False
      using was_open r dt by (metis distinct_map inj_on_def)
  qed
  moreover have "\<exists>r \<in> set (refresh_tbl db'). rt_id r = old \<and> rt_revoked_at r \<noteq> None \<and> rt_replaced_by r \<noteq> None"
  proof -
    obtain r where r: "r \<in> set tbl" "?mine r" "rt_revoked_at r = None" using was_open by blast
    then have "close_row ?mine (now_ts env) (Some new) r \<in> set (refresh_tbl db')" unfolding db' by simp
    then show ?thesis by (rule rev_bexI) (use r old in \<open>simp add: close_row_def\<close>)
  qed
  ultimately show ?thesis using I by (simp add: rotation_inv_def)
qed

lemma rotation_inv_step:
  assumes "rotation_step sha s s'" "rotation_inv s"
  shows "rotation_inv s'"
proof -
  have d: "distinct (map rt_id (refresh_tbl (rs_db s)))" "distinct (map rt_hash (refresh_tbl (rs_db s)))"
    using assms(2) by (auto simp: rotation_inv_def)
  show ?thesis
    using assms(1)
  proof (cases rule: rotation_step.cases)
    case (sign_in env row i db')
    show ?thesis
      unfolding sign_in(1) by (rule rotation_inv_evolves [OF assms(2) evolves_rt_insert [OF sign_in(2) d]])
  next
    case (probe env now raw row)
    then show ?thesis using assms(2) rotate_probe_row [OF probe(2)] by (auto simp: rotation_inv_def known_row_def)
  next
    case (swap row env new_raw new_jti new_expires old new u ws db')
    then show ?thesis using assms(2) rotation_inv_swap by blast
  next
    case (lost_race row env new_raw new_jti new_expires u db')
    then show ?thesis using assms(2) rotate_swap_replay [OF lost_race(3)] by simp
  next
    case (revoke_user look env u db')
    show ?thesis
      unfolding revoke_user(1) by (rule rotation_inv_evolves [OF assms(2) evolves_revoke_all [OF revoke_user(2) d]])
  next
    case (admin_revoke env p rec outcome db')
    show ?thesis
      unfolding admin_revoke(1) by (rule rotation_inv_evolves [OF assms(2) evolves_revoke_rows [OF admin_revoke(2) d]])
  qed
qed

interpretation rotation: preserved "rotation_step sha" rotation_inv for sha
  by unfold_locales (rule rotation_inv_step)

text \<open>
  C33. A refresh token rotates at most once, also when requests race: whatever sign-ins, rotations
  (each a probe and a later swap, with other requests in between), user revocations and
  administrative revocations happen in whatever order, no token is ever exchanged twice, and a
  token that has been exchanged is answered as a replay from then on, never with a new pair.
\<close>

theorem refresh_token_rotates_once:
  assumes "rotation_reach sha \<lparr>rs_db = db, rs_probed = [], rs_rotated = []\<rparr> s"
    and "distinct (map rt_id (refresh_tbl db))" "distinct (map rt_hash (refresh_tbl db))"
  shows "distinct (rs_rotated s) \<and>
    (\<forall>r \<in> set (refresh_tbl (rs_db s)). \<forall>env now raw answer. rt_id r \<in> set (rs_rotated s) \<and> sha raw = rt_hash r \<and>
       rotate_probe env sha now raw (rs_db s) = Inr answer \<longrightarrow> answer = Inl (ReplayDetected (rt_user r)))"
proof -
  have inv: "rotation_inv s"
    using rotation.reach_keeps [OF assms(1) [unfolded rotation_reach_def]] assms(2,3) by (simp add: rotation_inv_def)
  have "answer = Inl (ReplayDetected (rt_user r))"
    if r: "r \<in> set (refresh_tbl (rs_db s))" "rt_id r \<in> set (rs_rotated s)" "sha raw = rt_hash r"
      "rotate_probe env sha now raw (rs_db s) = Inr answer" for r env now raw answer
  proof -
    have c: "rt_revoked_at r \<noteq> None" "rt_replaced_by r \<noteq> None"
      using inv r unfolding rotation_inv_def by (metis distinct_map inj_on_def)+
    have "row_of_hash (sha raw) (refresh_tbl (rs_db s)) = Some r"
    proof (cases "row_of_hash (sha raw) (refresh_tbl (rs_db s))")
      case None
      then show ?thesis using r(1,3) by (auto simp: row_of_hash_def find_None_iff)
    next
      case (Some r')
      then have "r' \<in> set (refresh_tbl (rs_db s))" "rt_hash r' = rt_hash r"
        using r(3) by (auto simp: row_of_hash_def dest: find_SomeD)
      then show ?thesis using Some inv r(1) by (auto simp: rotation_inv_def distinct_map dest: inj_onD)
    qed
    then show ?thesis using r(4) c by (auto simp: rotate_probe_def rbind_Inr)
  qed
  then show ?thesis using inv by (auto simp: rotation_inv_def)
qed

definition session_demo_env :: "int \<Rightarrow> db_env" where
  "session_demo_env t = \<lparr>stmt_err = (\<lambda>k. None), readback = Some, dup_err = ''duplicate key'', show_uuid = (\<lambda>u. []),
     now_ts = t, fresh_uuid = (\<lambda>k. of_nat (k + 7))\<rparr>"

definition session_demo_row :: refresh_row where
  "session_demo_row = \<lparr>rt_id = 1, rt_user = 2, rt_ws = 3, rt_hash = ''old'', rt_expires_at = 900, rt_revoked_at = None,
     rt_replaced_by = None, rt_created_at = 0, rt_session = 4, rt_access_jti = Some ''j1'', rt_client_ip = None,
     rt_client_descriptor = None\<rparr>"

definition session_demo_db :: session_db where
  "session_demo_db = \<lparr>users_tbl = [], refresh_tbl = [session_demo_row], revocation_tbl = [], sess_audit = []\<rparr>"

definition session_demo_end :: session_db where
  "session_demo_end = session_demo_db\<lparr>refresh_tbl := [session_demo_row\<lparr>rt_revoked_at := Some 20, rt_replaced_by := Some 10\<rparr>,
     \<lparr>rt_id = 10, rt_user = 2, rt_ws = 3, rt_hash = ''new'', rt_expires_at = 800, rt_revoked_at = None,
      rt_replaced_by = None, rt_created_at = 20, rt_session = 4, rt_access_jti = Some ''j2'', rt_client_ip = None,
      rt_client_descriptor = None\<rparr>]\<rparr>"

lemma session_demo_steps:
  "rotate_probe (session_demo_env 10) id 10 ''old'' session_demo_db = Inr (Inr session_demo_row)"
  "rotate_swap (session_demo_env 20) id session_demo_row ''new'' ''j2'' 800 session_demo_db =
     Inr (Rotated 1 10 2 3, session_demo_end)"
  "rotate_probe (session_demo_env 30) id 30 ''old'' session_demo_end = Inr (Inl (ReplayDetected 2))"
  by code_simp+

theorem refresh_token_rotates_once_witness:
  "\<exists>s. rotation_reach id \<lparr>rs_db = session_demo_db, rs_probed = [], rs_rotated = []\<rparr> s \<and> rs_rotated s = [1] \<and>
     distinct (rs_rotated s) \<and> rotate_probe (session_demo_env 30) id 30 ''old'' (rs_db s) = Inr (Inl (ReplayDetected 2))"
proof -
  let ?s0 = "\<lparr>rs_db = session_demo_db, rs_probed = [], rs_rotated = []\<rparr>"
  let ?s1 = "?s0\<lparr>rs_probed := [session_demo_row]\<rparr>"
  let ?s2 = "?s1\<lparr>rs_db := session_demo_end, rs_rotated := [1]\<rparr>"
  have "rotation_step id ?s0 ?s1"
    using rotation_step.probe [of "session_demo_env 10" id 10 "''old''" ?s0 session_demo_row] session_demo_steps(1) by simp
  moreover have "rotation_step id ?s1 ?s2"
    using rotation_step.swap [of session_demo_row ?s1 "session_demo_env 20" id "''new''" "''j2''" 800 1 10 2 3 session_demo_end]
      session_demo_steps(2) by simp
  ultimately have r: "rotation_reach id ?s0 ?s2" unfolding rotation_reach_def by simp
  have "distinct (rs_rotated ?s2) \<and> (\<forall>r \<in> set (refresh_tbl (rs_db ?s2)). \<forall>env now raw answer.
      rt_id r \<in> set (rs_rotated ?s2) \<and> id raw = rt_hash r \<and> rotate_probe env id now raw (rs_db ?s2) = Inr answer \<longrightarrow>
      answer = Inl (ReplayDetected (rt_user r)))"
    by (rule refresh_token_rotates_once [OF r]) (simp_all add: session_demo_db_def)
  then show ?thesis using r session_demo_steps(3) by (intro exI [of _ ?s2]) simp
qed

end
