(* ===== verification/Rate_Limit.thy ===== *)
theory Rate_Limit
  imports Admin_Db Redis_Store
begin

text \<open>
  Rate limits and token budgets: \<open>http/middleware/rate_limit.rs\<close>, \<open>db/budget_repo.rs\<close> and
  \<open>http/routes/dashboard/budgets.rs\<close>. Instants are nanoseconds; the lock of the limiter makes its
  checks a sequence. The metrics an operation records are the list of its effects.
\<close>

section \<open>The sliding-window limiter\<close>

record rate_limiter =
  rl_window :: nat
  rl_max :: nat
  rl_buckets :: "(string, nat list) hashmap"

definition limiter_new :: "nat \<Rightarrow> nat \<Rightarrow> rate_limiter" where
  "limiter_new max_requests window_seconds =
     \<lparr>rl_window = window_seconds * 10 ^ 9, rl_max = max_requests, rl_buckets = []\<rparr>"

definition bucket_cap :: nat where
  "bucket_cap = 100000"

definition limiter_check :: "nat \<Rightarrow> string \<Rightarrow> rate_limiter \<Rightarrow> (api_error, unit) result \<times> rate_limiter" where
  "limiter_check now key rl =
     (let b1 = (case map_of (rl_buckets rl) key of
                  None \<Rightarrow> rl_buckets rl
                | Some entry \<Rightarrow> hm_insert key (filter (\<lambda>i. now - i \<le> rl_window rl) entry) (rl_buckets rl))
      in if map_of b1 key = Some [] then (Inr (), rl\<lparr>rl_buckets := AList.delete key b1\<rparr>)
         else if length b1 > bucket_cap
         then (Inl (Forbidden ''rate limiter capacity exceeded''), rl\<lparr>rl_buckets := b1\<rparr>)
         else let entry = unwrap_or [] (map_of b1 key); b2 = hm_insert key entry b1
              in if length entry \<ge> rl_max rl
                 then (Inl (Forbidden (''rate limit exceeded for '' @ key)), rl\<lparr>rl_buckets := b2\<rparr>)
                 else (Inr (), rl\<lparr>rl_buckets := hm_insert key (entry @ [now]) b2\<rparr>))"

text \<open>\<open>enforce_rate_limit\<close>: the bucket of the API key, then that of the workspace.\<close>

definition enforce_rate_limit ::
  "(uuid \<Rightarrow> string) \<Rightarrow> nat \<Rightarrow> nat \<Rightarrow> uuid \<Rightarrow> uuid \<Rightarrow> rate_limiter \<Rightarrow> (api_error, unit) result \<times> rate_limiter" where
  "enforce_rate_limit show_id now1 now2 api_key ws rl =
     (case limiter_check now1 (''api_key:'' @ show_id api_key) rl of
        (Inl e, rl1) \<Rightarrow> (Inl e, rl1)
      | (Inr _, rl1) \<Rightarrow> limiter_check now2 (''workspace:'' @ show_id ws) rl1)"

text \<open>The calls of a sequence that are let through.\<close>

fun accepted_calls :: "rate_limiter \<Rightarrow> (nat \<times> string) list \<Rightarrow> (nat \<times> string) list" where
  "accepted_calls rl [] = []"
| "accepted_calls rl ((t, k) # cs) =
     (case limiter_check t k rl of
        (Inr _, rl') \<Rightarrow> (t, k) # accepted_calls rl' cs
      | (Inl _, rl') \<Rightarrow> accepted_calls rl' cs)"

section \<open>Budgets\<close>

datatype budget_behavior = BBlock | BWarn | BFlag

fun behavior_str :: "budget_behavior \<Rightarrow> string" where
  "behavior_str BBlock = ''block''"
| "behavior_str BWarn = ''warn''"
| "behavior_str BFlag = ''flag''"

definition behavior_from_db :: "string \<Rightarrow> (api_error, budget_behavior) result" where
  "behavior_from_db s =
     (if s = ''block'' then Inr BBlock
      else if s = ''warn'' then Inr BWarn
      else if s = ''flag'' then Inr BFlag
      else Inl (Internal (''unknown BudgetBehavior in DB: '' @ s)))"

text \<open>A row of \<open>workspace_budgets\<close>, and the row the repository returns.\<close>

record budget_db_row =
  bd_ws :: uuid
  bd_daily :: "int option"
  bd_monthly :: "int option"
  bd_behavior :: string
  bd_updated_at :: int

record workspace_budget =
  wb_ws :: uuid
  wb_daily :: "int option"
  wb_monthly :: "int option"
  wb_behavior :: budget_behavior
  wb_updated_at :: int

record budget_db =
  budget_tbl :: "uuid \<Rightarrow> budget_db_row option"
  budget_audit :: "audit_row list"

definition budget_of_row :: "budget_db_row \<Rightarrow> (api_error, workspace_budget) result" where
  "budget_of_row r = rbind (behavior_from_db (bd_behavior r)) (\<lambda>b.
     Inr \<lparr>wb_ws = bd_ws r, wb_daily = bd_daily r, wb_monthly = bd_monthly r, wb_behavior = b,
          wb_updated_at = bd_updated_at r\<rparr>)"

definition budget_get :: "db_env \<Rightarrow> budget_db \<Rightarrow> uuid \<Rightarrow> (api_error, workspace_budget option) result" where
  "budget_get env db ws =
     rbind (begin_scoped env ws) (\<lambda>_. rbind (stmt env 3) (\<lambda>_. rbind (stmt env 4) (\<lambda>_.
       (case budget_tbl db ws of
          None \<Rightarrow> Inr None
        | Some r \<Rightarrow> rbind (budget_of_row r) (\<lambda>b. Inr (Some b))))))"

definition json_limit :: "int option \<Rightarrow> json" where
  "json_limit l = (case l of None \<Rightarrow> JNull | Some n \<Rightarrow> JNum (of_int n))"

definition budget_changes :: "budget_db_row option \<Rightarrow> budget_db_row \<Rightarrow> (string \<times> json) list" where
  "budget_changes before row =
     (let (d, m, b) = (case before of None \<Rightarrow> (JNull, JNull, JNull)
                       | Some r \<Rightarrow> (json_limit (bd_daily r), json_limit (bd_monthly r), JStr (bd_behavior r)))
      in changed_field ''behavior'' b (JStr (bd_behavior row))
         (changed_field ''monthly_token_limit'' m (json_limit (bd_monthly row))
         (changed_field ''daily_token_limit'' d (json_limit (bd_daily row)) [])))"

definition negative_limit :: "int option \<Rightarrow> bool" where
  "negative_limit l = (case l of None \<Rightarrow> False | Some n \<Rightarrow> n < 0)"

definition budget_upsert ::
  "db_env \<Rightarrow> budget_db \<Rightarrow> uuid \<Rightarrow> int option \<Rightarrow> int option \<Rightarrow> budget_behavior \<Rightarrow> admin_actor
     \<Rightarrow> (api_error, workspace_budget \<times> budget_db) result" where
  "budget_upsert env db ws daily monthly behavior actor =
     rbind (guard_err (negative_limit daily) (BadRequest ''daily_token_limit must be >= 0'')) (\<lambda>_.
     rbind (guard_err (negative_limit monthly) (BadRequest ''monthly_token_limit must be >= 0'')) (\<lambda>_.
     rbind (begin_scoped env ws) (\<lambda>_. rbind (stmt env 3) (\<lambda>_. rbind (stmt env 4) (\<lambda>_.
       let row = \<lparr>bd_ws = ws, bd_daily = daily, bd_monthly = monthly, bd_behavior = behavior_str behavior,
                  bd_updated_at = now_ts env\<rparr>;
           changed = budget_changes (budget_tbl db ws) row in
       rbind (if changed \<noteq> []
              then audit_write env 5 actor
                (with_detail (JObj [(''changed'', JObj changed)]) (on_object BudgetUpdated ws None)) (budget_audit db)
              else Inr (budget_audit db)) (\<lambda>aud.
       rbind (stmt env 6) (\<lambda>_.
       rbind (budget_of_row row) (\<lambda>b.
         Inr (b, db\<lparr>budget_tbl := (budget_tbl db)(ws \<mapsto> row), budget_audit := aud\<rparr>)))))))))"

section \<open>The pre-flight check\<close>

datatype budget_bucket = Daily | Monthly

datatype budget_outcome = BudgetAllow | BudgetWarn budget_bucket | BudgetFlag budget_bucket | BudgetOver budget_bucket

datatype budget_effect = BudgetEvent string string | BudgetRedisFailure

text \<open>
  The parameters of a check: the database read, the Redis commands, the printed UUID and the
  printed day and month.
\<close>

record budget_env =
  be_db :: db_env
  be_redis :: redis_env
  be_show :: "uuid \<Rightarrow> string"
  be_day :: string
  be_month :: string

definition budget_daily_key :: "budget_env \<Rightarrow> uuid \<Rightarrow> string" where
  "budget_daily_key env ws = ''budget:'' @ be_show env ws @ '':tokens:'' @ be_day env"

definition budget_monthly_key :: "budget_env \<Rightarrow> uuid \<Rightarrow> string" where
  "budget_monthly_key env ws = ''budget:'' @ be_show env ws @ '':tokens:'' @ be_month env"

definition daily_ttl :: nat where
  "daily_ttl = 2 * 24 * 3600"

definition monthly_ttl :: nat where
  "monthly_ttl = 32 * 24 * 3600"

definition over_limit :: "int option \<Rightarrow> int \<Rightarrow> bool" where
  "over_limit l used = (case l of None \<Rightarrow> False | Some n \<Rightarrow> used > n)"

definition exceeded_bucket :: "workspace_budget \<Rightarrow> int \<Rightarrow> int \<Rightarrow> budget_bucket option" where
  "exceeded_bucket b daily_used monthly_used =
     (if over_limit (wb_daily b) daily_used then Some Daily
      else if over_limit (wb_monthly b) monthly_used then Some Monthly
      else None)"

definition charge_delta :: "nat \<Rightarrow> int" where
  "charge_delta n = min (int n) i64_max"

fun budget_verdict :: "budget_behavior \<Rightarrow> budget_bucket option \<Rightarrow> budget_effect \<times> budget_outcome" where
  "budget_verdict bh None = (BudgetEvent (behavior_str bh) ''allow'', BudgetAllow)"
| "budget_verdict BBlock (Some b) = (BudgetEvent ''block'' ''exceeded'', BudgetOver b)"
| "budget_verdict BWarn (Some b) = (BudgetEvent ''warn'' ''warn'', BudgetWarn b)"
| "budget_verdict BFlag (Some b) = (BudgetEvent ''flag'' ''flag'', BudgetFlag b)"

definition budget_check ::
  "budget_env \<Rightarrow> budget_db \<Rightarrow> uuid \<Rightarrow> nat \<Rightarrow> redis \<Rightarrow> budget_effect list \<times> (api_error, budget_outcome) result \<times> redis" where
  "budget_check env db ws estimated r =
     (case budget_get (be_db env) db ws of
        Inl e \<Rightarrow> ([], Inl e, r)
      | Inr None \<Rightarrow> ([BudgetEvent ''none'' ''allow''], Inr BudgetAllow, r)
      | Inr (Some b) \<Rightarrow>
          (let failed = [BudgetRedisFailure, BudgetEvent (behavior_str (wb_behavior b)) ''allow'']
           in case incr_and_get (be_redis env) 0 (budget_daily_key env ws) (charge_delta estimated) daily_ttl r of
                (Inl _, r1) \<Rightarrow> (failed, Inr BudgetAllow, r1)
              | (Inr daily_used, r1) \<Rightarrow>
                  (case incr_and_get (be_redis env) 3 (budget_monthly_key env ws) (charge_delta estimated) monthly_ttl r1 of
                     (Inl _, r2) \<Rightarrow> (failed, Inr BudgetAllow, r2)
                   | (Inr monthly_used, r2) \<Rightarrow>
                       (let (eff, oc) = budget_verdict (wb_behavior b) (exceeded_bucket b daily_used monthly_used)
                        in ([eff], Inr oc, r2)))))"

definition adjust_workspace_tokens ::
  "budget_env \<Rightarrow> uuid \<Rightarrow> int \<Rightarrow> redis \<Rightarrow> budget_effect list \<times> redis" where
  "adjust_workspace_tokens env ws delta r =
     (if delta = 0 then ([], r)
      else let (d, r1) = incr_and_get (be_redis env) 0 (budget_daily_key env ws) delta daily_ttl r;
               (m, r2) = incr_and_get (be_redis env) 3 (budget_monthly_key env ws) delta monthly_ttl r1;
               fail = (\<lambda>x. case x of Inl _ \<Rightarrow> [BudgetRedisFailure] | Inr _ \<Rightarrow> [])
           in (fail d @ fail m, r2))"

definition estimate_tokens_from_text :: "string \<Rightarrow> nat" where
  "estimate_tokens_from_text t = (char_count t + 3) div 4"

datatype budget_gate = BudgetPass | GateWarn budget_bucket

fun bucket_label :: "budget_bucket \<Rightarrow> string" where
  "bucket_label Daily = ''daily''"
| "bucket_label Monthly = ''monthly''"

fun warning_bucket :: "budget_gate \<Rightarrow> string option" where
  "warning_bucket (GateWarn b) = Some (bucket_label b)"
| "warning_bucket BudgetPass = None"

fun gate_of_outcome :: "budget_outcome \<Rightarrow> (api_error, budget_gate) result" where
  "gate_of_outcome BudgetAllow = Inr BudgetPass"
| "gate_of_outcome (BudgetFlag _) = Inr BudgetPass"
| "gate_of_outcome (BudgetWarn b) = Inr (GateWarn b)"
| "gate_of_outcome (BudgetOver b) = Inl (BudgetExceeded (bucket_label b @ '' token budget exceeded''))"

definition pre_check_budget ::
  "budget_env \<Rightarrow> budget_db \<Rightarrow> uuid \<Rightarrow> nat \<Rightarrow> redis \<Rightarrow> budget_effect list \<times> (api_error, budget_gate) result \<times> redis" where
  "pre_check_budget env db ws estimated r =
     (let (effs, res, r') = budget_check env db ws estimated r in (effs, rbind res gate_of_outcome, r'))"

section \<open>Handlers\<close>

record budget_response =
  br_daily :: "int option"
  br_monthly :: "int option"
  br_behavior :: budget_behavior
  br_updated_at :: int
  br_daily_used :: int
  br_monthly_used :: int

definition counter_or_zero :: "redis_env \<Rightarrow> nat \<Rightarrow> string \<Rightarrow> redis \<Rightarrow> int" where
  "counter_or_zero env k key r = (case get_counter env k key r of Inl _ \<Rightarrow> 0 | Inr n \<Rightarrow> n)"

definition budget_response_of :: "budget_env \<Rightarrow> uuid \<Rightarrow> redis \<Rightarrow> workspace_budget option \<Rightarrow> budget_response" where
  "budget_response_of env ws r row =
     (let d = counter_or_zero (be_redis env) 0 (budget_daily_key env ws) r;
          m = counter_or_zero (be_redis env) 2 (budget_monthly_key env ws) r
      in case row of
           Some b \<Rightarrow> \<lparr>br_daily = wb_daily b, br_monthly = wb_monthly b, br_behavior = wb_behavior b,
                      br_updated_at = wb_updated_at b, br_daily_used = d, br_monthly_used = m\<rparr>
         | None \<Rightarrow> \<lparr>br_daily = None, br_monthly = None, br_behavior = BWarn,
                    br_updated_at = now_ts (be_db env), br_daily_used = d, br_monthly_used = m\<rparr>)"

definition get_budget :: "budget_env \<Rightarrow> jwt_ctx \<Rightarrow> uuid \<Rightarrow> budget_db \<Rightarrow> redis \<Rightarrow> (api_error, budget_response) result" where
  "get_budget env ctx ws db r =
     rbind (guard_err (ws \<noteq> ctx_workspace_id ctx) (Forbidden ''workspace mismatch'')) (\<lambda>_.
     rbind (budget_get (be_db env) db ws) (\<lambda>row. Inr (budget_response_of env ws r row)))"

definition put_budget ::
  "budget_env \<Rightarrow> string option \<Rightarrow> jwt_ctx \<Rightarrow> uuid \<Rightarrow> int option \<Rightarrow> int option \<Rightarrow> budget_behavior \<Rightarrow> budget_db \<Rightarrow> redis
     \<Rightarrow> (api_error, budget_response \<times> budget_db) result" where
  "put_budget env email ctx ws daily monthly behavior db r =
     rbind (guard_err (ws \<noteq> ctx_workspace_id ctx) (Forbidden ''workspace mismatch'')) (\<lambda>_.
     rbind (require_role ctx Admin) (\<lambda>_.
     rbind (budget_upsert (be_db env) db ws daily monthly behavior
         (actor_resolve email (ctx_workspace_id ctx) (ctx_user_id ctx) (as_db_str (ctx_role ctx)))) (\<lambda>(row, db').
       Inr (budget_response_of env ws r (Some row), db'))))"

text \<open>The probe route: the charge, and the bucket of the warning header.\<close>

definition budget_probe_handler ::
  "budget_env \<Rightarrow> jwt_ctx \<Rightarrow> nat \<Rightarrow> budget_db \<Rightarrow> redis
     \<Rightarrow> budget_effect list \<times> (api_error, string option) result \<times> redis" where
  "budget_probe_handler env ctx estimated db r =
     (let (effs, res, r') = budget_check env db (ctx_workspace_id ctx) estimated r
      in (effs, rbind res (\<lambda>oc. case oc of
            BudgetAllow \<Rightarrow> Inr None
          | BudgetWarn b \<Rightarrow> Inr (Some (bucket_label b))
          | BudgetFlag _ \<Rightarrow> Inr None
          | BudgetOver b \<Rightarrow> Inl (BudgetExceeded ((case b of Daily \<Rightarrow> ''Daily'' | Monthly \<Rightarrow> ''Monthly'') @ '' budget exceeded''))),
          r'))"

section \<open>How many requests a window lets through\<close>

text \<open>
  The history of one key: \<open>R\<close> are the instants its bucket recorded, \<open>U\<close> those of the requests
  let through by an eviction, which are not recorded. Between two evictions the bucket recorded
  something, and an eviction waits until all of it has expired. From \<open>now\<close> on, a bucket tracks
  the recorded instants that have not expired.
\<close>

definition tracks :: "nat \<Rightarrow> nat \<Rightarrow> nat list \<Rightarrow> nat list \<Rightarrow> bool" where
  "tracks W now e R = (\<forall>t \<ge> now. filter (\<lambda>i. t - i \<le> W) e = filter (\<lambda>i. t - i \<le> W) R)"

definition bucket_entry :: "nat list option \<Rightarrow> nat list" where
  "bucket_entry b = unwrap_or [] b"

definition bucket_hist :: "nat \<Rightarrow> nat \<Rightarrow> nat \<Rightarrow> nat list option \<Rightarrow> nat list \<Rightarrow> nat list \<Rightarrow> bool" where
  "bucket_hist W mx now b R U =
     (tracks W now (bucket_entry b) R \<and>
      (\<forall>i \<in> set R \<union> set U. i \<le> now) \<and>
      (\<forall>s. length (filter (\<lambda>i. s \<le> i \<and> i \<le> s + W) R) \<le> mx) \<and>
      sorted_wrt (\<lambda>u v. u + W < v) U \<and>
      b \<noteq> Some [] \<and> (\<forall>i \<in> set (bucket_entry b). i \<le> now \<and> (\<forall>u \<in> set U. u \<le> i)))"

lemma bucket_entry_simps [simp]: "bucket_entry None = []" "bucket_entry (Some e) = e"
  by (simp_all add: bucket_entry_def)

lemma tracks_later: "tracks W now e R \<Longrightarrow> now \<le> t \<Longrightarrow> tracks W t e R"
  by (simp add: tracks_def)

lemma tracks_trim:
  assumes "tracks W t e R"
  shows "tracks W t (filter (\<lambda>i. t - i \<le> W) e) R"
proof -
  have "filter (\<lambda>i. t' - i \<le> W) (filter (\<lambda>i. t - i \<le> W) e) = filter (\<lambda>i. t' - i \<le> W) e" if "t \<le> t'" for t'
    unfolding filter_filter using that by (auto intro: filter_cong)
  then show ?thesis using assms by (simp add: tracks_def del: filter_filter)
qed

lemma tracks_snoc: "tracks W t e R \<Longrightarrow> tracks W t (e @ [t]) (R @ [t])"
  by (simp add: tracks_def)

lemma bucket_hist_later: "bucket_hist W mx now b R U \<Longrightarrow> now \<le> t \<Longrightarrow> bucket_hist W mx t b R U"
  unfolding bucket_hist_def by (auto intro: tracks_later dest: order_trans [of _ now t])

lemma hist_init: "bucket_hist W mx 0 None [] []"
  by (simp add: bucket_hist_def tracks_def)

text \<open>The bucket after its expired instants are gone; its eviction; a recorded instant.\<close>

lemma hist_trim:
  assumes "bucket_hist W mx t (Some e) R U" "filter (\<lambda>i. t - i \<le> W) e \<noteq> []"
  shows "bucket_hist W mx t (Some (filter (\<lambda>i. t - i \<le> W) e)) R U"
  using assms tracks_trim [of W t e R] by (auto simp: bucket_hist_def)

lemma hist_evict:
  assumes "bucket_hist W mx t (Some e) R U" "filter (\<lambda>i. t - i \<le> W) e = []"
  shows "bucket_hist W mx t None R (U @ [t])"
proof -
  obtain i where i: "i \<in> set e" using assms(1) by (cases e) (auto simp: bucket_hist_def)
  have "t - i > W" using assms(2) i by (auto simp: filter_empty_conv)
  moreover have "\<forall>u \<in> set U. u \<le> i" using assms(1) i by (auto simp: bucket_hist_def)
  ultimately have late: "\<forall>u \<in> set U. u + W < t" by fastforce
  have "tracks W t [] R" using tracks_trim [of W t e R] assms by (simp add: bucket_hist_def)
  then show ?thesis using assms(1) late by (auto simp: bucket_hist_def sorted_wrt_append)
qed

lemma hist_record:
  assumes "bucket_hist W mx t b R U" "length (filter (\<lambda>i. t - i \<le> W) (bucket_entry b)) < mx"
  shows "bucket_hist W mx t (Some (bucket_entry b @ [t])) (R @ [t]) U"
proof -
  have win: "length (filter (\<lambda>i. s \<le> i \<and> i \<le> s + W) (R @ [t])) \<le> mx" for s
  proof (cases "s \<le> t \<and> t \<le> s + W")
    case True
    have "filter (\<lambda>i. s \<le> i \<and> i \<le> s + W) R = filter (\<lambda>i. s \<le> i \<and> i \<le> s + W) (filter (\<lambda>i. t - i \<le> W) R)"
      unfolding filter_filter using True by (auto intro!: filter_cong)
    then have "length (filter (\<lambda>i. s \<le> i \<and> i \<le> s + W) R) \<le> length (filter (\<lambda>i. t - i \<le> W) R)"
      by (metis length_filter_le)
    also have "filter (\<lambda>i. t - i \<le> W) R = filter (\<lambda>i. t - i \<le> W) (bucket_entry b)"
      using assms(1) by (simp add: bucket_hist_def tracks_def)
    finally show ?thesis using assms(2) True by simp
  next
    case False
    then show ?thesis using assms(1) by (auto simp: bucket_hist_def)
  qed
  then show ?thesis using assms(1) tracks_snoc [of W t "bucket_entry b" R] by (auto simp: bucket_hist_def)
qed

text \<open>One check of the limiter, as the bucket of one key sees it.\<close>

lemma limiter_check_other:
  "k \<noteq> key \<Longrightarrow> limiter_check t k rl = (res, rl') \<Longrightarrow>
     map_of (rl_buckets rl') key = map_of (rl_buckets rl) key \<and> rl_window rl' = rl_window rl \<and> rl_max rl' = rl_max rl"
  by (auto simp: limiter_check_def Let_def update_conv' delete_conv' split: option.splits if_splits)

lemma limiter_check_same:
  assumes "limiter_check t key rl = (res, rl')" "bucket_hist (rl_window rl) (rl_max rl) t (map_of (rl_buckets rl) key) R U"
    and "0 < rl_max rl"
  shows "rl_window rl' = rl_window rl \<and> rl_max rl' = rl_max rl \<and>
    (\<exists>R' U'. bucket_hist (rl_window rl) (rl_max rl) t (map_of (rl_buckets rl') key) R' U' \<and>
       (if res = Inr () then (R', U') \<in> {(R @ [t], U), (R, U @ [t])} else (R', U') = (R, U)))"
proof (cases "map_of (rl_buckets rl) key")
  case None
  have "bucket_hist (rl_window rl) (rl_max rl) t (Some [t]) (R @ [t]) U"
    using hist_record [OF assms(2)] assms(3) None by simp
  then show ?thesis
    using assms None
    by (auto simp: limiter_check_def Let_def update_conv' split: if_splits) blast
next
  case (Some e)
  let ?e = "filter (\<lambda>i. t - i \<le> rl_window rl) e"
  show ?thesis
  proof (cases "?e = []")
    case True
    then show ?thesis
      using assms Some hist_evict [of _ _ t e R U]
      by (auto simp: limiter_check_def Let_def update_conv' delete_conv') blast
  next
    case False
    have h: "bucket_hist (rl_window rl) (rl_max rl) t (Some ?e) R U"
      using hist_trim assms(2) Some False by metis
    have rec: "bucket_hist (rl_window rl) (rl_max rl) t (Some (?e @ [t])) (R @ [t]) U" if "length ?e < rl_max rl"
      using hist_record [OF h] that by simp
    have "rl_window rl' = rl_window rl \<and> rl_max rl' = rl_max rl \<and> (res = Inr () \<longrightarrow> length ?e < rl_max rl) \<and>
        map_of (rl_buckets rl') key = (if res = Inr () then Some (?e @ [t]) else Some ?e)"
      using assms(1) Some False by (auto simp: limiter_check_def Let_def update_conv' split: if_splits)
    then show ?thesis using h rec by (cases "res = Inr ()") auto
  qed
qed

text \<open>The history of a whole sequence: what was accepted is what was recorded or evicted.\<close>

lemma accepted_calls_hist:
  assumes "bucket_hist (rl_window rl) (rl_max rl) now (map_of (rl_buckets rl) key) R U" "0 < rl_max rl"
    and "sorted (now # map fst cs)"
  shows "\<exists>now' b R' U'. bucket_hist (rl_window rl) (rl_max rl) now' b R' U' \<and>
    (\<forall>P. length (filter P (map fst (filter (\<lambda>c. snd c = key) (accepted_calls rl cs)))) + length (filter P R) + length (filter P U)
       = length (filter P R') + length (filter P U'))"
  using assms
proof (induction cs arbitrary: rl now R U)
  case Nil
  then show ?case by fastforce
next
  case (Cons c cs)
  obtain t k where c: "c = (t, k)" by fastforce
  obtain res rl' where ck: "limiter_check t k rl = (res, rl')" by fastforce
  have h: "bucket_hist (rl_window rl) (rl_max rl) t (map_of (rl_buckets rl) key) R U"
    using bucket_hist_later Cons.prems c by auto
  have srt: "sorted (t # map fst cs)" using Cons.prems(3) c by simp
  show ?case
  proof (cases "k = key")
    case False
    have "bucket_hist (rl_window rl') (rl_max rl') t (map_of (rl_buckets rl') key) R U" "0 < rl_max rl'"
      and same: "rl_window rl' = rl_window rl" "rl_max rl' = rl_max rl"
      using limiter_check_other [OF False ck] h Cons.prems(2) by auto
    from Cons.IH [OF this(1,2) srt] show ?thesis
      using c ck False unfolding same by (simp split: sum.split)
  next
    case True
    from limiter_check_same [OF ck [unfolded True] h Cons.prems(2)] obtain R1 U1 where
      same: "rl_window rl' = rl_window rl" "rl_max rl' = rl_max rl"
      and h1: "bucket_hist (rl_window rl) (rl_max rl) t (map_of (rl_buckets rl') key) R1 U1"
      and cases: "if res = Inr () then (R1, U1) \<in> {(R @ [t], U), (R, U @ [t])} else (R1, U1) = (R, U)" by blast
    from Cons.IH [of rl' t R1 U1, unfolded same, OF h1 Cons.prems(2) srt] obtain now' b R' U' where
      *: "bucket_hist (rl_window rl) (rl_max rl) now' b R' U'"
      "\<forall>P. length (filter P (map fst (filter (\<lambda>c. snd c = key) (accepted_calls rl' cs)))) + length (filter P R1) + length (filter P U1)
       = length (filter P R') + length (filter P U')" by blast
    have "length (filter P (map fst (filter (\<lambda>c. snd c = key) (accepted_calls rl (c # cs))))) + length (filter P R) + length (filter P U)
       = length (filter P R') + length (filter P U')" for P
      using *(2) [rule_format, of P] cases c ck True by (cases res) (auto split: if_splits)
    then show ?thesis using *(1) by blast
  qed
qed

lemma spaced_window:
  fixes s W :: nat
  shows "sorted_wrt (\<lambda>u v. u + W < v) U \<Longrightarrow> length (filter (\<lambda>i. s \<le> i \<and> i \<le> s + W) U) \<le> 1"
proof (induction U)
  case (Cons u U)
  have "filter (\<lambda>i. s \<le> i \<and> i \<le> s + W) U = []" if "s \<le> u"
    using Cons.prems that by (fastforce simp: filter_empty_conv)
  then show ?case using Cons by auto
qed simp

text \<open>
  C28. The sliding window holds: of any sequence of checks at non-decreasing times, starting with
  a new limiter, at most one request more than the configured maximum of a key is let through in
  any window; the extra one is the request whose check evicts the expired bucket.
\<close>

theorem limiter_window_bound:
  assumes "0 < max_requests" "sorted (map fst calls)" "W = window_seconds * 10 ^ 9"
  shows "length (filter (\<lambda>(t, k). k = key \<and> s \<le> t \<and> t \<le> s + W)
    (accepted_calls (limiter_new max_requests window_seconds) calls)) \<le> max_requests + 1"
proof -
  let ?rl = "limiter_new max_requests window_seconds" and ?P = "\<lambda>i. s \<le> i \<and> i \<le> s + W"
  let ?acc = "accepted_calls ?rl calls"
  have "bucket_hist (rl_window ?rl) (rl_max ?rl) 0 (map_of (rl_buckets ?rl) key) [] []"
    by (simp add: hist_init limiter_new_def)
  from accepted_calls_hist [OF this] obtain now' b R U where
    h: "bucket_hist W max_requests now' b R U"
    and n: "length (filter ?P (map fst (filter (\<lambda>c. snd c = key) ?acc))) = length (filter ?P R) + length (filter ?P U)"
    using assms by (fastforce simp: limiter_new_def)
  have "length (filter (\<lambda>(t, k). k = key \<and> s \<le> t \<and> t \<le> s + W) ?acc) =
      length (filter ?P (map fst (filter (\<lambda>c. snd c = key) ?acc)))"
    by (auto simp: filter_map comp_def intro!: arg_cong [where f = length] filter_cong)
  also have "\<dots> \<le> max_requests + 1"
  proof -
    have "length (filter ?P R) \<le> max_requests" "length (filter ?P U) \<le> 1"
      using h spaced_window [of W U s] unfolding bucket_hist_def by blast+
    then show ?thesis unfolding n by linarith
  qed
  finally show ?thesis .
qed

theorem limiter_window_bound_witness:
  "length (filter (\<lambda>(t, k). k = ''k'' \<and> 2000000000 \<le> t \<and> t \<le> 3000000000)
     (accepted_calls (limiter_new 1 1) [(0, ''k''), (2000000000, ''k''), (2000000000, ''k''), (2000000001, ''k'')])) = 2"
proof (rule antisym)
  show "length (filter (\<lambda>(t, k). k = ''k'' \<and> 2000000000 \<le> t \<and> t \<le> 3000000000)
     (accepted_calls (limiter_new 1 1) [(0, ''k''), (2000000000, ''k''), (2000000000, ''k''), (2000000001, ''k'')])) \<le> 2"
    using limiter_window_bound [of 1 "[(0, ''k''), (2000000000, ''k''), (2000000000, ''k''), (2000000001, ''k'')]"
        "1000000000" 1 "''k''" 2000000000] by simp
  show "2 \<le> length (filter (\<lambda>(t, k). k = ''k'' \<and> 2000000000 \<le> t \<and> t \<le> 3000000000)
     (accepted_calls (limiter_new 1 1) [(0, ''k''), (2000000000, ''k''), (2000000000, ''k''), (2000000001, ''k'')]))"
    by (simp add: limiter_check_def limiter_new_def bucket_cap_def)
qed

section \<open>What a blocking budget admits\<close>

text \<open>Redis answers every command.\<close>

definition healthy :: "redis_env \<Rightarrow> bool" where
  "healthy env = (\<forall>k. conn_err env k = None \<and> cmd_err env k = None)"

text \<open>The counter at a key is \<open>n\<close>, and it does not expire before \<open>t1\<close>.\<close>

definition counter_at :: "string \<Rightarrow> redis \<Rightarrow> int \<Rightarrow> int \<Rightarrow> bool" where
  "counter_at key r n t1 = (case r key of
       None \<Rightarrow> n = 0
     | Some (v, expiry) \<Rightarrow> v = RInt n \<and> (case expiry of None \<Rightarrow> True | Some e \<Rightarrow> t1 \<le> e))"

lemma healthy_cmd [simp]: "healthy env \<Longrightarrow> checkout env k = Inr ()" "healthy env \<Longrightarrow> redis_cmd env k = Inr ()"
  by (simp_all add: healthy_def checkout_def redis_cmd_def)

lemma counter_at_cong: "r' key = r key \<Longrightarrow> counter_at key r' n t1 = counter_at key r n t1"
  by (simp add: counter_at_def)

lemma incr_counter:
  assumes "counter_at key r n t1" "healthy env" "redis_now env < t1" "t1 \<le> redis_now env + int ttl"
  shows "if in_i64 (n + d)
    then \<exists>r'. incr_and_get env k key d ttl r = (Inr (n + d), r') \<and> counter_at key r' (n + d) t1 \<and> (\<forall>key'. key' \<noteq> key \<longrightarrow> r' key' = r key')
    else \<exists>e. incr_and_get env k key d ttl r = (Inl e, r)"
proof -
  have incr: "redis_incrby env key d r =
      (if in_i64 (n + d) then Inr (n + d, r(key \<mapsto> (RInt (n + d), Option.bind (r key) snd))) else Inl (redis_error (overflow_err env)))"
    and exp: "counter_at key (redis_expire_nx env key ttl (r(key \<mapsto> (RInt (n + d), Option.bind (r key) snd)))) (n + d) t1"
  proof -
    consider "r key = None" "n = 0" | "r key = Some (RInt n, None)" | e where "r key = Some (RInt n, Some e)" "t1 \<le> e"
      using assms(1) by (cases "r key"; cases "snd (the (r key))") (auto simp: counter_at_def)
    note cases = this
    show "redis_incrby env key d r =
      (if in_i64 (n + d) then Inr (n + d, r(key \<mapsto> (RInt (n + d), Option.bind (r key) snd))) else Inl (redis_error (overflow_err env)))"
      using assms(3) by (cases rule: cases) (simp_all add: redis_incrby_def redis_get_def Let_def)
    show "counter_at key (redis_expire_nx env key ttl (r(key \<mapsto> (RInt (n + d), Option.bind (r key) snd)))) (n + d) t1"
      using assms(4) by (cases rule: cases) (simp_all add: redis_expire_nx_def counter_at_def)
  qed
  have frame: "redis_expire_nx env key ttl q key' = q key'" if "key' \<noteq> key" for q key'
    using that by (simp add: redis_expire_nx_def split: option.split)
  show ?thesis using assms(2) incr exp frame by (simp add: incr_and_get_def)
qed

text \<open>
  A check of one day: the budget is read, Redis answers, the keys are those of the day and month,
  and the day's counter outlives it.
\<close>

definition same_day :: "budget_db \<Rightarrow> uuid \<Rightarrow> workspace_budget \<Rightarrow> string \<Rightarrow> string \<Rightarrow> int \<Rightarrow> budget_env \<Rightarrow> bool" where
  "same_day db ws b dk mk t1 env =
     (budget_get (be_db env) db ws = Inr (Some b) \<and> healthy (be_redis env) \<and>
      budget_daily_key env ws = dk \<and> budget_monthly_key env ws = mk \<and>
      redis_now (be_redis env) < t1 \<and> t1 \<le> redis_now (be_redis env) + int daily_ttl)"

text \<open>The part of it a reconciliation needs.\<close>

definition redis_day :: "uuid \<Rightarrow> string \<Rightarrow> string \<Rightarrow> int \<Rightarrow> budget_env \<Rightarrow> bool" where
  "redis_day ws dk mk t1 env =
     (healthy (be_redis env) \<and> budget_daily_key env ws = dk \<and> budget_monthly_key env ws = mk \<and>
      redis_now (be_redis env) < t1 \<and> t1 \<le> redis_now (be_redis env) + int daily_ttl)"

lemma ttl_order: "t1 \<le> t + int daily_ttl \<Longrightarrow> t1 \<le> t + int monthly_ttl"
  by (simp add: daily_ttl_def monthly_ttl_def)

lemma budget_check_counts:
  assumes "same_day db ws b dk mk t1 env" "dk \<noteq> mk" "counter_at dk r c t1" "counter_at mk r m t1"
    and "in_i64 (c + charge_delta est)" "in_i64 (m + charge_delta est)"
  shows "\<exists>eff r'. budget_check env db ws est r =
      ([eff], Inr (snd (budget_verdict (wb_behavior b) (exceeded_bucket b (c + charge_delta est) (m + charge_delta est)))), r')
    \<and> counter_at dk r' (c + charge_delta est) t1 \<and> counter_at mk r' (m + charge_delta est) t1"
proof -
  note day = assms(1)[unfolded same_day_def]
  obtain r1 where r1: "incr_and_get (be_redis env) 0 dk (charge_delta est) daily_ttl r = (Inr (c + charge_delta est), r1)"
    "counter_at dk r1 (c + charge_delta est) t1" "\<forall>key'. key' \<noteq> dk \<longrightarrow> r1 key' = r key'"
    using incr_counter [OF assms(3), of "be_redis env" daily_ttl "charge_delta est" 0] day assms(5) by auto
  have "counter_at mk r1 m t1" using assms(4) r1(3) assms(2) counter_at_cong [of r1 mk r] by simp
  then obtain r2 where r2: "incr_and_get (be_redis env) 3 mk (charge_delta est) monthly_ttl r1 = (Inr (m + charge_delta est), r2)"
    "counter_at mk r2 (m + charge_delta est) t1" "\<forall>key'. key' \<noteq> mk \<longrightarrow> r2 key' = r1 key'"
    using incr_counter [of mk r1 m t1 "be_redis env" monthly_ttl "charge_delta est" 3] day ttl_order assms(6) by auto
  have "counter_at dk r2 (c + charge_delta est) t1" using r1(2) r2(3) assms(2) counter_at_cong [of r2 dk r1] by simp
  then show ?thesis using day r1(1) r2(1,2) by (simp add: budget_check_def split: prod.split)
qed

lemma charge_delta_small: "int n \<le> i64_max \<Longrightarrow> charge_delta n = int n"
  by (simp add: charge_delta_def)

lemma adjust_counts:
  assumes "redis_day ws dk mk t1 env" "dk \<noteq> mk" "counter_at dk r c t1" "counter_at mk r m t1" "in_i64 (c + d)" "in_i64 (m + d)"
    and "adjust_workspace_tokens env ws d r = (effs, r')"
  shows "counter_at dk r' (c + d) t1" "counter_at mk r' (m + d) t1"
proof -
  note day = assms(1)[unfolded redis_day_def]
  obtain r1 where r1: "incr_and_get (be_redis env) 0 dk d daily_ttl r = (Inr (c + d), r1)" "counter_at dk r1 (c + d) t1" "\<forall>key'. key' \<noteq> dk \<longrightarrow> r1 key' = r key'"
    using incr_counter [OF assms(3), of "be_redis env" daily_ttl d 0] day assms(5) by auto
  have "counter_at mk r1 m t1" using assms(4) r1(3) assms(2) counter_at_cong [of r1 mk r] by simp
  then obtain r2 where r2: "incr_and_get (be_redis env) 3 mk d monthly_ttl r1 = (Inr (m + d), r2)" "counter_at mk r2 (m + d) t1" "\<forall>key'. key' \<noteq> mk \<longrightarrow> r2 key' = r1 key'"
    using incr_counter [of mk r1 m t1 "be_redis env" monthly_ttl d 3] day ttl_order assms(6) by auto
  have "counter_at dk r2 (c + d) t1" using r1(2) r2(3) assms(2) counter_at_cong [of r2 dk r1] by simp
  moreover have "d \<noteq> 0 \<Longrightarrow> r' = r2" using assms(7) day r1(1) r2(1) by (simp add: adjust_workspace_tokens_def)
  moreover have "d = 0 \<Longrightarrow> r' = r" using assms(7) by (simp add: adjust_workspace_tokens_def)
  ultimately show "counter_at dk r' (c + d) t1" "counter_at mk r' (m + d) t1" using r2(2) assms(3,4) by (cases "d = 0"; simp)+
qed

text \<open>
  The day of a workspace: checks that let a request through or refuse it, and the reconciliations after the
  requests that were let through, in any order. The ledger keeps the estimates of the requests in flight
  (a request that fails stays among them: nothing takes its estimate back), the tokens the settled ones
  used, the estimates of the refused ones, and all amounts seen.
\<close>

record budget_ledger =
  bl_redis :: redis
  bl_in_flight :: "nat list"
  bl_used :: nat
  bl_refused :: nat
  bl_seen :: nat

inductive budget_run :: "budget_db \<Rightarrow> uuid \<Rightarrow> workspace_budget \<Rightarrow> string \<Rightarrow> string \<Rightarrow> int \<Rightarrow> redis \<Rightarrow> budget_ledger \<Rightarrow> bool"
  for db ws b dk mk t1 r0 where
  day_start: "budget_run db ws b dk mk t1 r0 \<lparr>bl_redis = r0, bl_in_flight = [], bl_used = 0, bl_refused = 0, bl_seen = 0\<rparr>"
| let_through: "budget_run db ws b dk mk t1 r0 l \<Longrightarrow> same_day db ws b dk mk t1 env \<Longrightarrow> pre_check_budget env db ws est (bl_redis l) = (effs, Inr g, r') \<Longrightarrow>
    budget_run db ws b dk mk t1 r0 (l\<lparr>bl_redis := r', bl_in_flight := est # bl_in_flight l, bl_seen := bl_seen l + est\<rparr>)"
| refused: "budget_run db ws b dk mk t1 r0 l \<Longrightarrow> same_day db ws b dk mk t1 env \<Longrightarrow> pre_check_budget env db ws est (bl_redis l) = (effs, Inl e, r') \<Longrightarrow>
    budget_run db ws b dk mk t1 r0 (l\<lparr>bl_redis := r', bl_refused := bl_refused l + est, bl_seen := bl_seen l + est\<rparr>)"
| reconciled: "budget_run db ws b dk mk t1 r0 l \<Longrightarrow> redis_day ws dk mk t1 env \<Longrightarrow> est \<in> set (bl_in_flight l) \<Longrightarrow>
    adjust_workspace_tokens env ws (charge_delta actual - charge_delta est) (bl_redis l) = (effs, r') \<Longrightarrow>
    budget_run db ws b dk mk t1 r0
      (l\<lparr>bl_redis := r', bl_in_flight := remove1 est (bl_in_flight l), bl_used := bl_used l + actual, bl_seen := bl_seen l + actual\<rparr>)"

definition charged :: "budget_ledger \<Rightarrow> nat" where
  "charged l = bl_used l + sum_list (bl_in_flight l) + bl_refused l"

lemma sum_list_remove1: "x \<in> set xs \<Longrightarrow> x + sum_list (remove1 x xs) = sum_list xs" for x :: nat
  by (induction xs) auto

text \<open>While no amount overflows, the counters are what the ledger charged.\<close>

lemma budget_run_counts:
  assumes "budget_run db ws b dk mk t1 r0 l" "dk \<noteq> mk" "counter_at dk r0 c t1" "counter_at mk r0 m t1" "0 \<le> c" "0 \<le> m"
    and "c + int (bl_seen l) \<le> i64_max" "m + int (bl_seen l) \<le> i64_max"
  shows "counter_at dk (bl_redis l) (c + int (charged l)) t1 \<and> counter_at mk (bl_redis l) (m + int (charged l)) t1 \<and> charged l \<le> bl_seen l"
  using assms(1,7,8)
proof induction
  case day_start
  then show ?case using assms(3,4) by (simp add: charged_def)
next
  case (let_through l env est effs g r')
  then have l: "counter_at dk (bl_redis l) (c + int (charged l)) t1" "counter_at mk (bl_redis l) (m + int (charged l)) t1" "charged l \<le> bl_seen l" by simp_all
  have small: "charge_delta est = int est" using let_through.prems assms(5) by (intro charge_delta_small) simp
  have "in_i64 (c + int (charged l) + int est)" "in_i64 (m + int (charged l) + int est)"
    using let_through.prems l(3) assms(5,6) by (auto simp: in_i64_def i64_max_def)
  then have "counter_at dk r' (c + int (charged l) + int est) t1 \<and> counter_at mk r' (m + int (charged l) + int est) t1"
    using budget_check_counts [OF let_through.hyps(2) assms(2) l(1,2), of est] let_through.hyps(3) small
    by (auto simp: pre_check_budget_def split: sum.splits budget_outcome.splits)
  then show ?case using l(3) by (simp add: charged_def algebra_simps)
next
  case (refused l env est effs e r')
  then have l: "counter_at dk (bl_redis l) (c + int (charged l)) t1" "counter_at mk (bl_redis l) (m + int (charged l)) t1" "charged l \<le> bl_seen l" by simp_all
  have small: "charge_delta est = int est" using refused.prems assms(5) by (intro charge_delta_small) simp
  have "in_i64 (c + int (charged l) + int est)" "in_i64 (m + int (charged l) + int est)"
    using refused.prems l(3) assms(5,6) by (auto simp: in_i64_def i64_max_def)
  then have "counter_at dk r' (c + int (charged l) + int est) t1 \<and> counter_at mk r' (m + int (charged l) + int est) t1"
    using budget_check_counts [OF refused.hyps(2) assms(2) l(1,2), of est] refused.hyps(3) small
    by (auto simp: pre_check_budget_def split: sum.splits budget_outcome.splits)
  then show ?case using l(3) by (simp add: charged_def algebra_simps)
next
  case (reconciled l env est actual effs r')
  then have l: "counter_at dk (bl_redis l) (c + int (charged l)) t1" "counter_at mk (bl_redis l) (m + int (charged l)) t1" "charged l \<le> bl_seen l" by simp_all
  have est: "est + sum_list (remove1 est (bl_in_flight l)) = sum_list (bl_in_flight l)" by (rule sum_list_remove1 [OF reconciled.hyps(3)])
  then have le: "est \<le> charged l" by (simp add: charged_def)
  have small: "charge_delta est = int est" "charge_delta actual = int actual"
    using reconciled.prems assms(5) le l(3) by (auto intro!: charge_delta_small)
  let ?d = "int actual - int est"
  have "in_i64 (c + int (charged l) + ?d)" "in_i64 (m + int (charged l) + ?d)"
    using reconciled.prems l(3) le assms(5,6) by (auto simp: in_i64_def i64_max_def)
  from adjust_counts [OF reconciled.hyps(2) assms(2) l(1,2) this] reconciled.hyps(4) small
  have "counter_at dk r' (c + int (charged l) + ?d) t1" "counter_at mk r' (m + int (charged l) + ?d) t1" by auto
  moreover have "charged (l\<lparr>bl_redis := r', bl_in_flight := remove1 est (bl_in_flight l), bl_used := bl_used l + actual, bl_seen := bl_seen l + actual\<rparr>) + est = charged l + actual"
    using est by (simp add: charged_def)
  ultimately show ?case using l(3) by (simp add: algebra_simps) (smt (verit) of_nat_add)
qed

text \<open>
  C29. A blocking budget bounds the spend of a day: whatever checks and reconciliations went before, when a
  check lets a request through, then the tokens the settled requests used, the estimates of the requests in
  flight and of the refused ones, and the estimate of this request together fit into what the daily limit left
  at the start. All on one day, with the budget readable, Redis answering and amounts that do not overflow
  the counters.
\<close>

theorem blocking_budget_bounds_spend:
  assumes "wb_behavior b = BBlock" "wb_daily b = Some L" "dk \<noteq> mk"
    and "counter_at dk r0 c t1" "counter_at mk r0 m t1" "0 \<le> c" "0 \<le> m"
    and "budget_run db ws b dk mk t1 r0 l" "same_day db ws b dk mk t1 env"
    and "pre_check_budget env db ws est (bl_redis l) = (effs, Inr g, r')"
    and "c + int (bl_seen l) + int est \<le> i64_max" "m + int (bl_seen l) + int est \<le> i64_max"
  shows "c + int (bl_used l) + int (sum_list (bl_in_flight l)) + int (bl_refused l) + int est \<le> L"
proof -
  have l: "counter_at dk (bl_redis l) (c + int (charged l)) t1" "counter_at mk (bl_redis l) (m + int (charged l)) t1" "charged l \<le> bl_seen l"
    using budget_run_counts [OF assms(8,3-7)] assms(11,12) by simp_all
  have small: "charge_delta est = int est" using assms(6,11) by (intro charge_delta_small) simp
  have "in_i64 (c + int (charged l) + int est)" "in_i64 (m + int (charged l) + int est)"
    using assms(6,7,11,12) l(3) by (auto simp: in_i64_def i64_max_def)
  then obtain eff r2 where "budget_check env db ws est (bl_redis l) =
      ([eff], Inr (snd (budget_verdict BBlock (exceeded_bucket b (c + int (charged l) + int est) (m + int (charged l) + int est)))), r2)"
    using budget_check_counts [OF assms(9,3) l(1,2), of est] small assms(1) by auto
  then have "exceeded_bucket b (c + int (charged l) + int est) (m + int (charged l) + int est) = None"
    using assms(10) by (cases "exceeded_bucket b (c + int (charged l) + int est) (m + int (charged l) + int est)") (auto simp: pre_check_budget_def)
  then have "c + int (charged l) + int est \<le> L" using assms(2) by (auto simp: exceeded_bucket_def over_limit_def split: if_splits)
  then show ?thesis by (simp add: charged_def)
qed

text \<open>
  An overflowing counter switches a blocking budget off. On a fresh day any caller with a
  token may charge the probe route with the largest 64-bit amount; from then on every pre-flight
  check of a positive estimate on that day is let through, whatever the limit.
\<close>

theorem probe_overflow_disables_budget:
  assumes "same_day db (ctx_workspace_id ctx) b dk mk t1 env" "same_day db (ctx_workspace_id ctx) b dk mk t1 env'"
    and "dk \<noteq> mk" "r dk = None" "r mk = None" "0 < est"
    and "budget_probe_handler env ctx (2 ^ 63 - 1) db r = (effs, res, r')"
  shows "\<exists>effs'. pre_check_budget env' db (ctx_workspace_id ctx) est r' = (effs', Inr BudgetPass, r')"
proof -
  have d: "charge_delta (2 ^ 63 - 1) = i64_max" by (simp add: charge_delta_def i64_max_def)
  have "counter_at dk r 0 t1" "counter_at mk r 0 t1" using assms(4,5) by (simp_all add: counter_at_def)
  then have c: "counter_at dk r' i64_max t1"
    using budget_check_counts [OF assms(1,3), of r 0 0 "2 ^ 63 - 1"] assms(7) d
    by (auto simp: budget_probe_handler_def in_i64_def i64_max_def)
  have "\<not> in_i64 (i64_max + charge_delta est)" using assms(6) by (simp add: in_i64_def charge_delta_def i64_max_def)
  then obtain e where "incr_and_get (be_redis env') 0 dk (charge_delta est) daily_ttl r' = (Inl e, r')"
    using incr_counter [OF c, of "be_redis env'" daily_ttl "charge_delta est" 0] assms(2) by (auto simp: same_day_def)
  then show ?thesis using assms(2) by (simp add: pre_check_budget_def budget_check_def same_day_def)
qed

section \<open>Witnesses\<close>

definition demo_budget_env :: budget_env where
  "demo_budget_env = \<lparr>be_db = \<lparr>stmt_err = (\<lambda>_. None), readback = Some, dup_err = [], show_uuid = (\<lambda>_. ''w''), now_ts = 0,
     fresh_uuid = (\<lambda>_. 0)\<rparr>,
     be_redis = \<lparr>conn_err = (\<lambda>_. None), cmd_err = (\<lambda>_. None), type_err = [], overflow_err = ''overflow'', redis_now = 10\<rparr>,
     be_show = (\<lambda>_. ''w''), be_day = ''20260419'', be_month = ''202604''\<rparr>"

definition demo_budget_db :: budget_db where
  "demo_budget_db = \<lparr>budget_tbl = [1 \<mapsto> \<lparr>bd_ws = 1, bd_daily = Some 100, bd_monthly = None, bd_behavior = ''block'',
     bd_updated_at = 0\<rparr>], budget_audit = []\<rparr>"

definition demo_budget :: workspace_budget where
  "demo_budget = \<lparr>wb_ws = 1, wb_daily = Some 100, wb_monthly = None, wb_behavior = BBlock, wb_updated_at = 0\<rparr>"

lemma demo_same_day:
  "same_day demo_budget_db 1 demo_budget ''budget:w:tokens:20260419'' ''budget:w:tokens:202604'' 50 demo_budget_env"
  by (simp add: same_day_def demo_budget_env_def demo_budget_db_def demo_budget_def budget_get_def begin_scoped_def arm_scope_def
      scope_is_armed_def stmt_def budget_of_row_def behavior_from_db_def healthy_def budget_daily_key_def
      budget_monthly_key_def daily_ttl_def)

lemma demo_check_passes:
  assumes "counter_at ''budget:w:tokens:20260419'' r c 50" "counter_at ''budget:w:tokens:202604'' r c 50" "0 \<le> c" "c + int n \<le> 100"
  shows "\<exists>effs g r'. pre_check_budget demo_budget_env demo_budget_db 1 n r = (effs, Inr g, r') \<and>
    counter_at ''budget:w:tokens:20260419'' r' (c + int n) 50 \<and> counter_at ''budget:w:tokens:202604'' r' (c + int n) 50"
proof -
  have small: "charge_delta n = int n" using assms(3,4) by (intro charge_delta_small) (simp add: i64_max_def)
  have i64: "in_i64 (c + int n)" using assms(3,4) by (simp add: in_i64_def i64_max_def)
  have "exceeded_bucket demo_budget (c + int n) (c + int n) = None" using assms(4) by (simp add: exceeded_bucket_def demo_budget_def over_limit_def)
  then show ?thesis
    using budget_check_counts [OF demo_same_day _ assms(1,2), of n] small i64 by (auto simp: pre_check_budget_def demo_budget_def)
qed

text \<open>A request estimated at 60 that used 30 leaves room for one of 70 under a limit of 100, and no more.\<close>

theorem blocking_budget_bounds_spend_witness:
  "\<exists>l effs g r'. budget_run demo_budget_db 1 demo_budget ''budget:w:tokens:20260419'' ''budget:w:tokens:202604'' 50 Map.empty l \<and>
     pre_check_budget demo_budget_env demo_budget_db 1 70 (bl_redis l) = (effs, Inr g, r') \<and> bl_used l = 30 \<and> bl_in_flight l = [] \<and>
     int (bl_used l) + int (bl_refused l) + 70 \<le> (100::int)"
proof -
  let ?dk = "''budget:w:tokens:20260419''" let ?mk = "''budget:w:tokens:202604''"
  have day: "redis_day 1 ?dk ?mk 50 demo_budget_env" using demo_same_day by (simp add: same_day_def redis_day_def)
  obtain effs g r where s1: "pre_check_budget demo_budget_env demo_budget_db 1 60 Map.empty = (effs, Inr g, r)" "counter_at ?dk r 60 50" "counter_at ?mk r 60 50"
    using demo_check_passes [of Map.empty 0 60] by (auto simp: counter_at_def)
  obtain effs' r' where s2: "adjust_workspace_tokens demo_budget_env 1 (charge_delta 30 - charge_delta 60) r = (effs', r')" by fastforce
  have d: "charge_delta 30 - charge_delta 60 = - 30" by (simp add: charge_delta_def i64_max_def)
  have "counter_at ?dk r' 30 50" "counter_at ?mk r' 30 50"
    using adjust_counts [OF day _ s1(2,3), of "- 30" effs' r'] s2 d by (simp_all add: in_i64_def i64_max_def)
  then obtain effs'' g' r'' where s3: "pre_check_budget demo_budget_env demo_budget_db 1 70 r' = (effs'', Inr g', r'')"
    using demo_check_passes [of r' 30 70] by auto
  let ?run = "budget_run demo_budget_db 1 demo_budget ''budget:w:tokens:20260419'' ''budget:w:tokens:202604'' 50 Map.empty"
  let ?l = "\<lparr>bl_redis = r', bl_in_flight = [], bl_used = 30, bl_refused = 0, bl_seen = 90\<rparr>"
  have "?run \<lparr>bl_redis = r, bl_in_flight = [60], bl_used = 0, bl_refused = 0, bl_seen = 60\<rparr>"
    using let_through [OF day_start demo_same_day] s1(1) by fastforce
  from reconciled [OF this day, of 60 30] s2 have run: "?run ?l" by simp
  have "0 + int (bl_used ?l) + int (sum_list (bl_in_flight ?l)) + int (bl_refused ?l) + int 70 \<le> 100"
    by (rule blocking_budget_bounds_spend [OF _ _ _ _ _ _ _ run demo_same_day, of 100 0 0 70 effs'' g' r''])
      (use s3 in \<open>auto simp: demo_budget_def counter_at_def i64_max_def\<close>)
  with run s3 show ?thesis by (intro exI [of _ ?l]) auto
qed

theorem probe_overflow_disables_budget_witness:
  "\<exists>effs res r' effs'. budget_probe_handler demo_budget_env
       \<lparr>ctx_user_id = 7, ctx_workspace_id = 1, ctx_role = Viewer, ctx_jti = ''j'', ctx_exp = 0\<rparr> (2 ^ 63 - 1) demo_budget_db Map.empty = (effs, res, r') \<and>
     pre_check_budget demo_budget_env demo_budget_db 1 1000 r' = (effs', Inr BudgetPass, r')"
proof -
  let ?ctx = "\<lparr>ctx_user_id = 7, ctx_workspace_id = 1, ctx_role = Viewer, ctx_jti = ''j'', ctx_exp = 0\<rparr>"
  obtain effs res r' where p: "budget_probe_handler demo_budget_env ?ctx (2 ^ 63 - 1) demo_budget_db Map.empty = (effs, res, r')"
    by (cases "budget_probe_handler demo_budget_env ?ctx (2 ^ 63 - 1) demo_budget_db Map.empty")
  have day: "same_day demo_budget_db (ctx_workspace_id ?ctx) demo_budget ''budget:w:tokens:20260419'' ''budget:w:tokens:202604'' 50 demo_budget_env"
    using demo_same_day by simp
  show ?thesis using probe_overflow_disables_budget [OF day day _ _ _ _ p, of 1000] p by simp
qed

end
