(* ===== verification/Session_Auth.thy ===== *)
theory Session_Auth
  imports Session_Store Rate_Limit
begin

text \<open>
  Dashboard authentication: the session gate of \<open>http/middleware/jwt_auth.rs\<close> with its degraded mode,
  the sign-in, refresh and logout handlers of \<open>http/routes/dashboard/auth.rs\<close>, the session handlers of
  \<open>http/routes/dashboard/users.rs\<close> and the device summary of \<open>device.rs\<close>. A handler takes the state and
  an \<open>auth_env\<close> (the clock, the \<open>n\<close>-th database call, Redis, fresh values, and the libraries: JWT
  signing and verification, Argon2, SHA-256, address parsing) and returns the new state with its
  answer, because some effects stay when a later call fails. Durations are seconds.
\<close>

section \<open>Claims and the session gate\<close>

record claims =
  cl_sub :: uuid
  cl_ws :: uuid
  cl_role :: string
  cl_iat :: int
  cl_exp :: int
  cl_jti :: string
  cl_purpose :: "string option"

definition is_access_claims :: "claims \<Rightarrow> bool" where
  "is_access_claims c = (cl_purpose c = None)"

record cached_auth =
  ca_user_id :: uuid
  ca_workspace_id :: uuid
  ca_role :: user_role
  ca_cached_at :: nat

definition degraded_auth_cache_ttl_secs :: nat where
  "degraded_auth_cache_ttl_secs = 60"

definition cached_session_usable :: "nat \<Rightarrow> bool" where
  "cached_session_usable age_secs = (age_secs < degraded_auth_cache_ttl_secs)"

datatype auth_outage = RevokedDurably | SessionStoreLost | NoWarmSession | LogoutUnverifiable

fun auth_outage_str :: "auth_outage \<Rightarrow> string" where
  "auth_outage_str RevokedDurably = ''revoked_durably''"
| "auth_outage_str SessionStoreLost = ''session_store_lost''"
| "auth_outage_str NoWarmSession = ''no_warm_session''"
| "auth_outage_str LogoutUnverifiable = ''logout_unverifiable''"

definition invalid_credentials :: api_error where
  "invalid_credentials = Unauthorized ''Invalid credentials''"

fun auth_refusal :: "auth_outage \<Rightarrow> api_error" where
  "auth_refusal RevokedDurably = invalid_credentials"
| "auth_refusal SessionStoreLost = ServiceUnavailable ''auth service temporarily unavailable''"
| "auth_refusal NoWarmSession = ServiceUnavailable ''auth service temporarily unavailable''"
| "auth_refusal LogoutUnverifiable = ServiceUnavailable ''auth service temporarily unavailable''"

datatype auth_gate = BlockAuth auth_outage | DegradeAuth auth_outage

datatype durable_revocation = KnownMark "int option" | MarkUnavailable

datatype session_gate_result = Proceed | RejectLoggedOut | RejectRevoked

definition session_gate :: "bool \<Rightarrow> int option \<Rightarrow> int \<Rightarrow> session_gate_result" where
  "session_gate jti_blacklisted revoked_before token_iat =
     (if jti_blacklisted then RejectLoggedOut
      else case revoked_before of
        Some watermark \<Rightarrow> if token_iat \<le> watermark then RejectRevoked else Proceed
      | None \<Rightarrow> Proceed)"

fun degraded_auth_gate :: "durable_revocation \<Rightarrow> int \<Rightarrow> nat option \<Rightarrow> auth_gate" where
  "degraded_auth_gate MarkUnavailable token_iat cached_age = BlockAuth SessionStoreLost"
| "degraded_auth_gate (KnownMark watermark) token_iat cached_age =
     (case session_gate False watermark token_iat of
        RejectRevoked \<Rightarrow> BlockAuth RevokedDurably
      | RejectLoggedOut \<Rightarrow> BlockAuth RevokedDurably
      | Proceed \<Rightarrow>
          (case cached_age of
             Some age \<Rightarrow> if cached_session_usable age then DegradeAuth LogoutUnverifiable else BlockAuth NoWarmSession
           | None \<Rightarrow> BlockAuth NoWarmSession))"

section \<open>State and environment\<close>

record auth_state =
  as_sess :: session_db
  as_redis :: redis
  as_cache :: "uuid \<Rightarrow> cached_auth option"
  as_limiter :: rate_limiter

record auth_env =
  au_now :: int
  au_instant :: nat
  au_limit_at :: "nat \<Rightarrow> nat"
  au_db :: "nat \<Rightarrow> db_env"
  au_redis :: redis_env
  au_show :: "uuid \<Rightarrow> string"
  au_decode :: "string \<Rightarrow> claims option"
  au_encode :: "claims \<Rightarrow> (string, string) result"
  au_sha :: "string \<Rightarrow> string"
  au_verify :: "string \<Rightarrow> string \<Rightarrow> bool"
  au_hash_password :: "string \<Rightarrow> (string, string) result"
  au_parse_ip :: "string \<Rightarrow> string option"
  au_new_jti :: string
  au_new_refresh :: string
  au_new_session :: uuid
  au_access_ttl :: nat
  au_refresh_ttl :: nat
  au_max_seats :: "nat option"

text \<open>A header is absent, not text, or text.\<close>

type_synonym headers = "string \<Rightarrow> string option option"

definition header_str :: "headers \<Rightarrow> string \<Rightarrow> string option" where
  "header_str h name = Option.bind (h name) id"

definition extract_bearer :: "headers \<Rightarrow> (api_error, string) result" where
  "extract_bearer h = (case header_str h ''authorization'' of
       None \<Rightarrow> Inl invalid_credentials
     | Some value \<Rightarrow> if prefix ''Bearer '' value then Inr (drop 7 value) else Inl invalid_credentials)"

section \<open>The middleware\<close>

datatype auth_alert = AuthAlert uuid auth_outage string

type_synonym admitted_as = "jwt_ctx \<times> auth_outage option"

definition ctx_of_claims :: "claims \<Rightarrow> user_role \<Rightarrow> jwt_ctx" where
  "ctx_of_claims c r = \<lparr>ctx_user_id = cl_sub c, ctx_workspace_id = cl_ws c, ctx_role = r, ctx_jti = cl_jti c,
     ctx_exp = cl_exp c\<rparr>"

definition claims_role :: "claims \<Rightarrow> (api_error, user_role) result" where
  "claims_role c = map_err (\<lambda>_. invalid_credentials) (from_db_str (cl_role c))"

definition durable_mark :: "(api_error, int option) result \<Rightarrow> durable_revocation" where
  "durable_mark x = (case x of Inl e \<Rightarrow> MarkUnavailable | Inr m \<Rightarrow> KnownMark m)"

definition serve_degraded ::
  "auth_env \<Rightarrow> claims \<Rightarrow> auth_state \<Rightarrow> auth_alert list \<times> (api_error, admitted_as) result" where
  "serve_degraded env c st =
     (let durable = durable_mark (latest_watermark (au_db env 0) (cl_ws c) (cl_sub c) (as_sess st));
          cached_age = map_option (\<lambda>e. (au_instant env - ca_cached_at e) div 1000) (as_cache st (cl_sub c))
      in case degraded_auth_gate durable (cl_iat c) cached_age of
           BlockAuth reason \<Rightarrow> ([AuthAlert (cl_sub c) reason ''block''], Inl (auth_refusal reason))
         | DegradeAuth reason \<Rightarrow>
             ([AuthAlert (cl_sub c) reason ''degrade_with_alert''],
              rbind (claims_role c) (\<lambda>r. Inr (ctx_of_claims c r, Some reason))))"

definition auth_require ::
  "auth_env \<Rightarrow> headers \<Rightarrow> auth_state \<Rightarrow> auth_alert list \<times> auth_state \<times> (api_error, admitted_as) result" where
  "auth_require env h st =
     (case rbind (extract_bearer h) (\<lambda>token. ok_or (au_decode env token) invalid_credentials) of
        Inl e \<Rightarrow> ([], st, Inl e)
      | Inr c \<Rightarrow>
          if \<not> is_access_claims c then ([], st, Inl invalid_credentials)
          else case session_gates (au_redis env) 0 (au_show env) (cl_jti c) (cl_sub c) (as_redis st) of
            Inl redis_err \<Rightarrow> (case serve_degraded env c st of (alerts, res) \<Rightarrow> (alerts, st, res))
          | Inr (blacklisted, revoked_before) \<Rightarrow>
              if session_gate blacklisted revoked_before (cl_iat c) \<noteq> Proceed
              then ([], st, Inl invalid_credentials)
              else case claims_role c of
                Inl e \<Rightarrow> ([], st, Inl e)
              | Inr r \<Rightarrow>
                  ([], st\<lparr>as_cache := (as_cache st)(cl_sub c \<mapsto> \<lparr>ca_user_id = cl_sub c, ca_workspace_id = cl_ws c,
                          ca_role = r, ca_cached_at = au_instant env\<rparr>)\<rparr>,
                   Inr (ctx_of_claims c r, None)))"

section \<open>Devices\<close>

definition browsers :: "(string \<times> string) list" where
  "browsers = [(''Edg/'', ''Edge''), (''OPR/'', ''Opera''), (''Chrome/'', ''Chrome''), (''Firefox/'', ''Firefox''),
     (''Safari/'', ''Safari''), (''curl/'', ''curl'')]"

definition platforms :: "(string \<times> string) list" where
  "platforms = [(''iPhone'', ''iOS''), (''iPad'', ''iOS''), (''Android'', ''Android''), (''CrOS'', ''ChromeOS''),
     (''Windows'', ''Windows''), (''Mac OS X'', ''macOS''), (''Macintosh'', ''macOS''), (''Linux'', ''Linux'')]"

definition first_named :: "string \<Rightarrow> (string \<times> string) list \<Rightarrow> string option" where
  "first_named ua table = map_option snd (find (\<lambda>(token, _). str_contains ua token) table)"

definition client_descriptor :: "string \<Rightarrow> string option" where
  "client_descriptor ua = (case (first_named ua browsers, first_named ua platforms) of
       (Some b, Some p) \<Rightarrow> Some (b @ '' on '' @ p)
     | (Some b, None) \<Rightarrow> Some b
     | (None, Some p) \<Rightarrow> Some p
     | (None, None) \<Rightarrow> None)"

definition first_forwarded :: "headers \<Rightarrow> string option" where
  "first_forwarded h = map_option (\<lambda>s. trim (hd (split_on (CHR '','') s))) (header_str h ''x-forwarded-for'')"

definition client_ip :: "auth_env \<Rightarrow> headers \<Rightarrow> string option" where
  "client_ip env h = Option.bind (first_forwarded h) (au_parse_ip env)"

record device_context =
  dc_client_ip :: "string option"
  dc_client_descriptor :: "string option"

definition device_from_headers :: "auth_env \<Rightarrow> headers \<Rightarrow> device_context" where
  "device_from_headers env h = \<lparr>dc_client_ip = client_ip env h,
     dc_client_descriptor = Option.bind (header_str h ''user-agent'') client_descriptor\<rparr>"

definition client_ip_key :: "headers \<Rightarrow> string" where
  "client_ip_key h = unwrap_or ''unknown'' (first_forwarded h)"

section \<open>Sign-in\<close>

datatype twofa_decision = GrantAccess | Challenge | Enroll

definition decide_2fa :: "user_role \<Rightarrow> bool \<Rightarrow> twofa_decision" where
  "decide_2fa r totp_confirmed =
     (if totp_confirmed then Challenge else if r \<in> {Owner, Admin} then Enroll else GrantAccess)"

datatype login_method = ByPassword | ByOidc

fun login_method_str :: "login_method \<Rightarrow> string" where
  "login_method_str ByPassword = ''password''"
| "login_method_str ByOidc = ''oidc''"

fun login_outcome :: "twofa_decision \<Rightarrow> string" where
  "login_outcome GrantAccess = ''session_issued''"
| "login_outcome Challenge = ''second_factor_required''"
| "login_outcome Enroll = ''enrolment_required''"

definition record_login ::
  "db_env \<Rightarrow> uuid \<Rightarrow> uuid \<Rightarrow> string \<Rightarrow> string \<Rightarrow> login_method \<Rightarrow> twofa_decision \<Rightarrow> session_db \<Rightarrow> (api_error, session_db) result" where
  "record_login env u ws email r method decision db =
     (let actor = \<lparr>actor_ws = ws, actor_user_id = Some u, actor_email = Some email, actor_role = Some r\<rparr>;
          entry = with_detail (JObj [(''method'', JStr (login_method_str method)), (''outcome'', JStr (login_outcome decision))])
            (on_own_account LoginSucceeded u email r)
      in rbind (begin_scoped env ws) (\<lambda>_.
         rbind (audit_write env 3 actor entry (sess_audit db)) (\<lambda>tbl.
         rbind (stmt env 4) (\<lambda>_. Inr (db\<lparr>sess_audit := tbl\<rparr>)))))"

record token_response =
  tk_access_token :: string
  tk_refresh_token :: string
  tk_user_id :: uuid
  tk_email :: string
  tk_workspace_id :: uuid
  tk_role :: string
  tk_access_expires_at :: int
  tk_refresh_expires_at :: int

datatype token_or_2fa = AccessTokens token_response | ChallengeToken string | EnrollToken string

definition encode_access :: "auth_env \<Rightarrow> claims \<Rightarrow> (api_error, string) result" where
  "encode_access env c = map_err (\<lambda>e. Internal (''jwt encode failed: '' @ e)) (au_encode env c)"

definition access_claims :: "auth_env \<Rightarrow> uuid \<Rightarrow> uuid \<Rightarrow> string \<Rightarrow> claims" where
  "access_claims env u ws r = \<lparr>cl_sub = u, cl_ws = ws, cl_role = r, cl_iat = au_now env,
     cl_exp = au_now env + int (au_access_ttl env), cl_jti = au_new_jti env, cl_purpose = None\<rparr>"

definition token_response_of :: "auth_env \<Rightarrow> string \<Rightarrow> uuid \<Rightarrow> uuid \<Rightarrow> string \<Rightarrow> string \<Rightarrow> token_response" where
  "token_response_of env access u ws r email = \<lparr>tk_access_token = access, tk_refresh_token = au_new_refresh env,
     tk_user_id = u, tk_email = email, tk_workspace_id = ws, tk_role = r,
     tk_access_expires_at = au_now env + int (au_access_ttl env),
     tk_refresh_expires_at = au_now env + int (au_refresh_ttl env)\<rparr>"

definition build_token_pair_body ::
  "auth_env \<Rightarrow> db_env \<Rightarrow> uuid \<Rightarrow> uuid \<Rightarrow> string \<Rightarrow> string \<Rightarrow> device_context \<Rightarrow> session_db
     \<Rightarrow> (api_error, token_response \<times> session_db) result" where
  "build_token_pair_body env dbe u ws r email device db =
     rbind (encode_access env (access_claims env u ws r)) (\<lambda>access_token.
     rbind (rt_insert dbe (au_sha env) \<lparr>ns_user_id = u, ns_workspace_id = ws, ns_raw_token = au_new_refresh env,
         ns_expires_at = au_now env + int (au_refresh_ttl env), ns_session_id = au_new_session env,
         ns_access_jti = au_new_jti env, ns_client_ip = dc_client_ip device,
         ns_client_descriptor = dc_client_descriptor device\<rparr> db) (\<lambda>(_, db').
       Inr (token_response_of env access_token u ws r email, db')))"

definition purpose_claims :: "auth_env \<Rightarrow> uuid \<Rightarrow> uuid \<Rightarrow> string \<Rightarrow> int \<Rightarrow> claims" where
  "purpose_claims env u ws purpose ttl = \<lparr>cl_sub = u, cl_ws = ws, cl_role = [], cl_iat = au_now env,
     cl_exp = au_now env + ttl, cl_jti = au_new_jti env, cl_purpose = Some purpose\<rparr>"

definition encode_purpose_token :: "auth_env \<Rightarrow> uuid \<Rightarrow> uuid \<Rightarrow> string \<Rightarrow> int \<Rightarrow> (api_error, string) result" where
  "encode_purpose_token env u ws purpose ttl = encode_access env (purpose_claims env u ws purpose ttl)"

definition decode_purpose_token :: "auth_env \<Rightarrow> string \<Rightarrow> string \<Rightarrow> (api_error, uuid \<times> uuid) result" where
  "decode_purpose_token env token expected =
     rbind (ok_or (au_decode env token) invalid_credentials) (\<lambda>c.
     if cl_purpose c = Some expected then Inr (cl_sub c, cl_ws c) else Inl invalid_credentials)"

definition find_by_email_with_role :: "db_env \<Rightarrow> string \<Rightarrow> session_db \<Rightarrow> (api_error, user_row option) result" where
  "find_by_email_with_role env email db = rbind (stmt env 0) (\<lambda>_. Inr (find (\<lambda>r. us_email r = email) (users_tbl db)))"

text \<open>What a confirmed password leads to, and the handler around it.\<close>

definition finish_sign_in ::
  "auth_env \<Rightarrow> db_env \<Rightarrow> user_row \<Rightarrow> twofa_decision \<Rightarrow> device_context \<Rightarrow> session_db
     \<Rightarrow> (api_error, token_or_2fa \<times> session_db) result" where
  "finish_sign_in env dbe creds decision device db = (case decision of
       GrantAccess \<Rightarrow>
         rbind (build_token_pair_body env dbe (us_id creds) (us_ws creds) (us_role creds) (us_email creds) device db)
           (\<lambda>(body, db'). Inr (AccessTokens body, db'))
     | Challenge \<Rightarrow>
         rbind (encode_purpose_token env (us_id creds) (us_ws creds) ''2fa_challenge'' 300) (\<lambda>t. Inr (ChallengeToken t, db))
     | Enroll \<Rightarrow>
         rbind (encode_purpose_token env (us_id creds) (us_ws creds) ''2fa_enroll'' 300) (\<lambda>t. Inr (EnrollToken t, db)))"

definition token_handler ::
  "auth_env \<Rightarrow> headers \<Rightarrow> string \<Rightarrow> string \<Rightarrow> auth_state \<Rightarrow> auth_state \<times> (api_error, token_or_2fa) result" where
  "token_handler env h email password st =
     (let email = to_lowercase (trim email) in
      case limiter_check (au_limit_at env 0) (''auth_email:'' @ email) (as_limiter st) of
        (Inl _, rl) \<Rightarrow> (st\<lparr>as_limiter := rl\<rparr>, Inl invalid_credentials)
      | (Inr _, rl) \<Rightarrow>
          (case limiter_check (au_limit_at env 1) (''auth_ip:'' @ client_ip_key h) rl of
             (Inl _, rl) \<Rightarrow> (st\<lparr>as_limiter := rl\<rparr>, Inl invalid_credentials)
           | (Inr _, rl) \<Rightarrow>
               let st = st\<lparr>as_limiter := rl\<rparr> in
               case rbind (find_by_email_with_role (au_db env 0) email (as_sess st)) (\<lambda>row.
                    rbind (ok_or row invalid_credentials) (\<lambda>creds.
                    rbind (guard_err (\<not> au_verify env (us_password_hash creds) password) invalid_credentials) (\<lambda>_.
                    rbind (from_db_str (us_role creds)) (\<lambda>r.
                    let decision = decide_2fa r (us_totp_confirmed_at creds \<noteq> None) in
                    rbind (record_login (au_db env 1) (us_id creds) (us_ws creds) (us_email creds) (us_role creds)
                        ByPassword decision (as_sess st)) (\<lambda>db. Inr (creds, decision, db)))))) of
                 Inl e \<Rightarrow> (st, Inl e)
               | Inr (creds, decision, db) \<Rightarrow>
                   (case finish_sign_in env (au_db env 2) creds decision (device_from_headers env h) db of
                      Inl e \<Rightarrow> (st\<lparr>as_sess := db\<rparr>, Inl e)
                    | Inr (res, db') \<Rightarrow> (st\<lparr>as_sess := db'\<rparr>, Inr res))))"

section \<open>Refresh and logout\<close>

definition best_effort :: "(api_error, session_db) result \<Rightarrow> session_db \<Rightarrow> session_db" where
  "best_effort x db = (case x of Inl _ \<Rightarrow> db | Inr db' \<Rightarrow> db')"

definition refresh_handler :: "auth_env \<Rightarrow> string \<Rightarrow> auth_state \<Rightarrow> auth_state \<times> (api_error, token_response) result" where
  "refresh_handler env refresh_token st =
     (case rotate (au_db env 0) (au_db env 1) (au_sha env) (au_now env) refresh_token (au_new_refresh env) (au_new_jti env)
             (au_now env + int (au_refresh_ttl env)) (as_sess st) of
        Inl e \<Rightarrow> (st, Inl e)
      | Inr (Rotated old new u ws, db) \<Rightarrow>
          (st\<lparr>as_sess := db\<rparr>,
           rbind (stmt (au_db env 2) 0) (\<lambda>_.
           rbind (ok_or (user_of_id u db) invalid_credentials) (\<lambda>creds.
           rbind (encode_access env (access_claims env u ws (us_role creds))) (\<lambda>access.
             Inr (token_response_of env access u ws (us_role creds) (us_email creds))))))
      | Inr (ReplayDetected u, db) \<Rightarrow>
          (st\<lparr>as_sess := best_effort (revoke_all_for_user (au_db env 2) (au_db env 3) u db) db\<rparr>, Inl invalid_credentials)
      | Inr (_, db) \<Rightarrow> (st\<lparr>as_sess := db\<rparr>, Inl invalid_credentials))"

definition logout_handler :: "auth_env \<Rightarrow> jwt_ctx \<Rightarrow> auth_state \<Rightarrow> auth_state \<times> (api_error, unit) result" where
  "logout_handler env ctx st =
     (let remaining = nat (max (ctx_exp ctx - au_now env) 1) in
      case blacklist_jti (au_redis env) 0 (ctx_jti ctx) remaining (as_redis st) of
        Inl e \<Rightarrow> (st, Inl e)
      | Inr r \<Rightarrow>
          (st\<lparr>as_redis := r, as_cache := (as_cache st)(ctx_user_id ctx := None),
             as_sess := best_effort (revoke_all_for_user (au_db env 0) (au_db env 1) (ctx_user_id ctx) (as_sess st)) (as_sess st)\<rparr>,
           Inr ()))"

text \<open>The dash of the messages is an en dash in UTF-8.\<close>

definition en_dash :: string where
  "en_dash = [char_of (226::nat), char_of (128::nat), char_of (147::nat)]"

definition validate_register_input :: "string \<Rightarrow> string \<Rightarrow> string \<Rightarrow> (api_error, unit) result" where
  "validate_register_input email password workspace_name =
     rbind (guard_err (email = [] \<or> length email > 255 \<or> CHR ''@'' \<notin> set email) (BadRequest ''email invalid'')) (\<lambda>_.
     rbind (guard_err (length password < 8 \<or> length password > 128)
       (BadRequest (''password must be 8'' @ en_dash @ ''128 characters''))) (\<lambda>_.
     guard_err (workspace_name = [] \<or> char_count workspace_name > 100)
       (BadRequest (''workspace_name must be 1'' @ en_dash @ ''100 characters''))))"

section \<open>Users and their sessions\<close>

definition valid_roles :: "string list" where
  "valid_roles = [''owner'', ''admin'', ''developer'', ''viewer'']"

definition email_conflict :: "string \<Rightarrow> api_error" where
  "email_conflict msg = (if str_contains msg ''unique'' \<or> str_contains msg ''duplicate''
     then Conflict ''email already in use'' else Database msg)"

text \<open>\<open>UserRepository::create_user\<close>; \<open>users.id\<close> and \<open>users.email\<close> are unique.\<close>

definition repo_create_user ::
  "auth_env \<Rightarrow> db_env \<Rightarrow> uuid \<Rightarrow> string \<Rightarrow> string \<Rightarrow> string \<Rightarrow> admin_actor \<Rightarrow> session_db
     \<Rightarrow> (api_error, user_row \<times> session_db) result" where
  "repo_create_user env dbe ws email password r actor db =
     rbind (map_err (\<lambda>e. Internal (''password hash failed: '' @ e)) (au_hash_password env password)) (\<lambda>hash.
     rbind (begin_scoped dbe ws) (\<lambda>_.
     let row = \<lparr>us_id = fresh_uuid dbe 3, us_ws = ws, us_email = email, us_password_hash = hash, us_role = r,
           us_created_at = now_ts dbe, us_updated_at = now_ts dbe, us_totp_secret = None, us_totp_confirmed_at = None,
           us_totp_last_timestep = None, us_totp_failed_attempts = 0, us_totp_locked_until = None\<rparr> in
     rbind (case stmt_err dbe 3 of
          Some e \<Rightarrow> Inl (email_conflict e)
        | None \<Rightarrow> if us_id row \<in> us_id ` set (users_tbl db) \<or> email \<in> us_email ` set (users_tbl db)
            then Inl (email_conflict (dup_err dbe)) else Inr ()) (\<lambda>_.
     rbind (audit_write dbe 4 actor (with_detail (JObj [(''role_granted'', JStr r)])
         (targeting_user (us_id row) email r (on_object UserCreated (us_id row) (Some email)))) (sess_audit db)) (\<lambda>tbl.
     rbind (stmt dbe 5) (\<lambda>_. Inr (row, db\<lparr>users_tbl := users_tbl db @ [row], sess_audit := tbl\<rparr>))))))"

definition lookup_email :: "db_env \<Rightarrow> uuid \<Rightarrow> session_db \<Rightarrow> string option" where
  "lookup_email dbe u db = (case stmt dbe 0 of Inl _ \<Rightarrow> None | Inr _ \<Rightarrow> map_option us_email (user_of_id u db))"

definition create_user_handler ::
  "auth_env \<Rightarrow> jwt_ctx \<Rightarrow> string \<Rightarrow> string \<Rightarrow> string \<Rightarrow> auth_state \<Rightarrow> auth_state \<times> (api_error, user_row) result" where
  "create_user_handler env ctx email password r st =
     (case rbind (require_role ctx Admin) (\<lambda>_.
           rbind (guard_err (r \<notin> set valid_roles) (BadRequest (''role must be one of: '' @ join_with '', '' valid_roles))) (\<lambda>_.
           rbind (case au_max_seats env of
                None \<Rightarrow> Inr ()
              | Some m \<Rightarrow> rbind (stmt (au_db env 0) 0) (\<lambda>_. guard_err (m \<le> length (users_tbl (as_sess st)))
                  (Forbidden (''license seat limit ('' @ show_nat m @ '') reached'')))) (\<lambda>_.
           repo_create_user env (au_db env 2) (ctx_workspace_id ctx) email password r
             (actor_resolve (lookup_email (au_db env 1) (ctx_user_id ctx) (as_sess st)) (ctx_workspace_id ctx) (ctx_user_id ctx)
               (as_db_str (ctx_role ctx))) (as_sess st)))) of
        Inl e \<Rightarrow> (st, Inl e)
      | Inr (row, db) \<Rightarrow> (st\<lparr>as_sess := db\<rparr>, rbind (stmt (au_db env 3) 0) (\<lambda>_. Inr row)))"

datatype revoke_decision = RevokeAllowed | ActorRoleTooLow | TargetOutranksActor

definition may_revoke :: "user_role \<Rightarrow> user_role \<Rightarrow> revoke_decision" where
  "may_revoke actor target =
     (if privilege_level actor < privilege_level Admin then ActorRoleTooLow
      else if privilege_level target > privilege_level actor then TargetOutranksActor
      else RevokeAllowed)"

definition may_manage_sessions :: "user_role \<Rightarrow> user_role \<Rightarrow> bool \<Rightarrow> revoke_decision" where
  "may_manage_sessions actor target is_self = (if is_self then RevokeAllowed else may_revoke actor target)"

definition found_target :: "db_env \<Rightarrow> uuid \<Rightarrow> uuid \<Rightarrow> session_db \<Rightarrow> (api_error, revocation_target) result" where
  "found_target dbe ws u db = rbind (find_target dbe ws u db) (\<lambda>t. ok_or t (NotFound ''user not found''))"

record revoke_sessions_response =
  rv_user_id :: uuid
  rv_revoked_before :: int
  rv_refresh_tokens_revoked :: int
  rv_audit_id :: uuid
  rv_revoked_at :: int

definition revocation_record_of ::
  "auth_env \<Rightarrow> jwt_ctx \<Rightarrow> string option \<Rightarrow> revocation_target \<Rightarrow> uuid option \<Rightarrow> revocation_record" where
  "revocation_record_of env ctx email target sid = \<lparr>rr_workspace_id = ctx_workspace_id ctx, rr_actor_user_id = ctx_user_id ctx,
     rr_actor_email = email, rr_actor_role = as_db_str (ctx_role ctx), rr_target = target,
     rr_revoked_before = au_now env, rr_session_id = sid\<rparr>"

text \<open>The checks of \<open>revoke_sessions\<close> before it changes anything.\<close>

definition revoke_sessions_target ::
  "auth_env \<Rightarrow> jwt_ctx \<Rightarrow> uuid \<Rightarrow> session_db \<Rightarrow> (api_error, revocation_target \<times> string option) result" where
  "revoke_sessions_target env ctx u db =
     rbind (require_role ctx Admin) (\<lambda>_.
     rbind (found_target (au_db env 0) (ctx_workspace_id ctx) u db) (\<lambda>target.
     rbind (from_db_str (tg_role target)) (\<lambda>r.
     rbind (guard_err (may_revoke (ctx_role ctx) r \<noteq> RevokeAllowed) (Forbidden ''insufficient role'')) (\<lambda>_.
     rbind (revocation_actor_email (au_db env 1) (ctx_workspace_id ctx) (ctx_user_id ctx) db) (\<lambda>email.
       Inr (target, email))))))"

definition revoke_sessions_handler ::
  "auth_env \<Rightarrow> jwt_ctx \<Rightarrow> uuid \<Rightarrow> auth_state \<Rightarrow> auth_state \<times> (api_error, revoke_sessions_response) result" where
  "revoke_sessions_handler env ctx u st =
     (case rbind (revoke_sessions_target env ctx u (as_sess st)) (\<lambda>(target, email).
           rbind (sr_revoke (au_db env 2) (revocation_record_of env ctx email target None) (as_sess st)) (\<lambda>(outcome, db).
             Inr (target, outcome, db))) of
        Inl e \<Rightarrow> (st, Inl e)
      | Inr (target, outcome, db) \<Rightarrow>
          (case revoke_sessions_before (au_redis env) 0 (au_show env) (tg_user_id target) (au_now env)
                  (revocation_watermark_ttl_secs (au_access_ttl env)) (as_redis st) of
             Inl e \<Rightarrow> (st\<lparr>as_sess := db\<rparr>, Inl e)
           | Inr r \<Rightarrow>
               (st\<lparr>as_sess := db, as_redis := r, as_cache := (as_cache st)(tg_user_id target := None)\<rparr>,
                Inr \<lparr>rv_user_id = tg_user_id target, rv_revoked_before = au_now env,
                  rv_refresh_tokens_revoked = ro_refresh_tokens_revoked outcome, rv_audit_id = ro_audit_id outcome,
                  rv_revoked_at = ro_created_at outcome\<rparr>)))"

definition resolve_subject ::
  "auth_env \<Rightarrow> jwt_ctx \<Rightarrow> uuid \<Rightarrow> session_db \<Rightarrow> (api_error, revocation_target) result" where
  "resolve_subject env ctx u db =
     (let is_self = (ctx_user_id ctx = u) in
      rbind (if is_self then Inr () else require_role ctx Admin) (\<lambda>_.
      rbind (found_target (au_db env 0) (ctx_workspace_id ctx) u db) (\<lambda>target.
      rbind (from_db_str (tg_role target)) (\<lambda>r.
        if may_manage_sessions (ctx_role ctx) r is_self = RevokeAllowed then Inr target
        else Inl (Forbidden ''insufficient role'')))))"

definition list_sessions_handler ::
  "auth_env \<Rightarrow> (string \<Rightarrow> string \<Rightarrow> string) \<Rightarrow> jwt_ctx \<Rightarrow> uuid \<Rightarrow> session_db
     \<Rightarrow> (api_error, uuid \<times> session_summary list) result" where
  "list_sessions_handler env greatest ctx u db =
     rbind (resolve_subject env ctx u db) (\<lambda>target.
     rbind (list_live (au_db env 1) greatest (ctx_workspace_id ctx) (tg_user_id target) (ctx_jti ctx) db) (\<lambda>sessions.
       Inr (tg_user_id target, sessions)))"

text \<open>The loop over the access-token identifiers; what was written before an error stays.\<close>

fun blacklist_all :: "redis_env \<Rightarrow> nat \<Rightarrow> string list \<Rightarrow> nat \<Rightarrow> redis \<Rightarrow> redis \<times> (api_error, unit) result" where
  "blacklist_all env k [] ttl r = (r, Inr ())"
| "blacklist_all env k (jti # jtis) ttl r =
     (case blacklist_jti env k jti ttl r of Inl e \<Rightarrow> (r, Inl e) | Inr r' \<Rightarrow> blacklist_all env (k + 2) jtis ttl r')"

definition jwt_validation_leeway_secs :: int where
  "jwt_validation_leeway_secs = 60"

record end_session_response =
  es_user_id :: uuid
  es_session_id :: uuid
  es_refresh_tokens_revoked :: int
  es_access_tokens_blacklisted :: nat
  es_audit_id :: uuid
  es_revoked_at :: int

definition revoke_one_session_handler ::
  "auth_env \<Rightarrow> jwt_ctx \<Rightarrow> uuid \<Rightarrow> uuid \<Rightarrow> auth_state \<Rightarrow> auth_state \<times> (api_error, end_session_response) result" where
  "revoke_one_session_handler env ctx u sid st =
     (let db = as_sess st; minted_after = au_now env - int (au_access_ttl env) - jwt_validation_leeway_secs in
      case rbind (resolve_subject env ctx u db) (\<lambda>target.
           rbind (find_live_session (au_db env 1) (ctx_workspace_id ctx) (tg_user_id target) sid minted_after db) (\<lambda>found.
           rbind (ok_or found (NotFound ''session not found'')) (\<lambda>live.
           rbind (revocation_actor_email (au_db env 2) (ctx_workspace_id ctx) (ctx_user_id ctx) db) (\<lambda>email.
             Inr (target, live, email))))) of
        Inl e \<Rightarrow> (st, Inl e)
      | Inr (target, live, email) \<Rightarrow>
          (case blacklist_all (au_redis env) 0 (ls_revocable_jtis live) (revocation_watermark_ttl_secs (au_access_ttl env)) (as_redis st) of
             (r, Inl e) \<Rightarrow> (st\<lparr>as_redis := r\<rparr>, Inl e)
           | (r, Inr _) \<Rightarrow>
               (case sr_revoke_one_session (au_db env 3)
                       (revocation_record_of env ctx email target (Some (ls_session_id live))) (ls_session_id live) db of
                  Inl e \<Rightarrow> (st\<lparr>as_redis := r\<rparr>, Inl e)
                | Inr (outcome, db') \<Rightarrow>
                    (st\<lparr>as_redis := r, as_sess := db'\<rparr>,
                     Inr \<lparr>es_user_id = tg_user_id target, es_session_id = ls_session_id live,
                       es_refresh_tokens_revoked = ro_refresh_tokens_revoked outcome,
                       es_access_tokens_blacklisted = length (ls_revocable_jtis live),
                       es_audit_id = ro_audit_id outcome, es_revoked_at = ro_created_at outcome\<rparr>))))"

section \<open>Ended sessions stay ended\<close>

text \<open>
  The executions: handlers run one after another at times that do not decrease, each with its own
  environment. The environments agree on the access lifetime and on how a UUID is printed, and
  Redis' clock is within 29 seconds of the gateway's. Anything else the system does is the
  \<open>elsewhere\<close> step: it may extend the revocation trail, add and close refresh tokens and touch the
  rest as it likes, but not the revocation keys. The second-factor handlers are such steps.
\<close>

text \<open>What a handler other than the revocation leaves alone: the trail only grows, refresh rows only appear
  and close, and the revocation keys stay.\<close>

definition keys_unique :: "session_db \<Rightarrow> bool" where
  "keys_unique db = (distinct (map rt_id (refresh_tbl db)) \<and> distinct (map rt_hash (refresh_tbl db)))"

definition db_evolves :: "session_db \<Rightarrow> session_db \<Rightarrow> bool" where
  "db_evolves db db' = (set (revocation_tbl db) \<subseteq> set (revocation_tbl db') \<and>
     (keys_unique db \<longrightarrow> evolves (refresh_tbl db) (refresh_tbl db')))"

definition quiet :: "(uuid \<Rightarrow> string) \<Rightarrow> auth_state \<Rightarrow> auth_state \<Rightarrow> bool" where
  "quiet sh st st' = (db_evolves (as_sess st) (as_sess st') \<and>
     (\<forall>u. as_redis st' (session_revocation_key sh u) = as_redis st (session_revocation_key sh u)))"

definition env_at :: "nat \<Rightarrow> (uuid \<Rightarrow> string) \<Rightarrow> int \<Rightarrow> auth_env \<Rightarrow> bool" where
  "env_at ttl sh t env = (au_now env = t \<and> au_access_ttl env = ttl \<and> au_show env = sh \<and>
     \<bar>redis_now (au_redis env) - t\<bar> \<le> 29)"

inductive auth_step :: "nat \<Rightarrow> (uuid \<Rightarrow> string) \<Rightarrow> int \<times> auth_state \<Rightarrow> int \<times> auth_state \<Rightarrow> bool" for ttl sh where
  sign_in: "t \<le> t' \<Longrightarrow> env_at ttl sh t' env \<Longrightarrow> token_handler env h email password st = (st', res) \<Longrightarrow>
    auth_step ttl sh (t, st) (t', st')"
| refresh: "t \<le> t' \<Longrightarrow> env_at ttl sh t' env \<Longrightarrow> refresh_handler env raw st = (st', res) \<Longrightarrow>
    auth_step ttl sh (t, st) (t', st')"
| logout: "t \<le> t' \<Longrightarrow> env_at ttl sh t' env \<Longrightarrow> logout_handler env ctx st = (st', res) \<Longrightarrow>
    auth_step ttl sh (t, st) (t', st')"
| request: "t \<le> t' \<Longrightarrow> env_at ttl sh t' env \<Longrightarrow> auth_require env h st = (alerts, st', res) \<Longrightarrow>
    auth_step ttl sh (t, st) (t', st')"
| new_user: "t \<le> t' \<Longrightarrow> env_at ttl sh t' env \<Longrightarrow> create_user_handler env ctx email password r st = (st', res) \<Longrightarrow>
    auth_step ttl sh (t, st) (t', st')"
| end_sessions: "t \<le> t' \<Longrightarrow> env_at ttl sh t' env \<Longrightarrow> revoke_sessions_handler env ctx u st = (st', res) \<Longrightarrow>
    auth_step ttl sh (t, st) (t', st')"
| end_one_session: "t \<le> t' \<Longrightarrow> env_at ttl sh t' env \<Longrightarrow> revoke_one_session_handler env ctx u sid st = (st', res) \<Longrightarrow>
    auth_step ttl sh (t, st) (t', st')"
| elsewhere: "t \<le> t' \<Longrightarrow> quiet sh st st' \<Longrightarrow> auth_step ttl sh (t, st) (t', st')"

definition auth_reach :: "nat \<Rightarrow> (uuid \<Rightarrow> string) \<Rightarrow> int \<times> auth_state \<Rightarrow> int \<times> auth_state \<Rightarrow> bool" where
  "auth_reach ttl sh = (auth_step ttl sh)\<^sup>*\<^sup>*"

lemma db_evolves_same:
  "refresh_tbl db' = refresh_tbl db \<Longrightarrow> revocation_tbl db' = revocation_tbl db \<Longrightarrow> db_evolves db db'"
  by (auto simp: db_evolves_def keys_unique_def intro: evolves_refl)

lemma db_evolves_refl [simp]: "db_evolves db db"
  by (simp add: db_evolves_same)

lemma db_evolves_trans: "db_evolves a b \<Longrightarrow> db_evolves b c \<Longrightarrow> db_evolves a c"
proof -
  assume ab: "db_evolves a b" and bc: "db_evolves b c"
  have "evolves (refresh_tbl a) (refresh_tbl c)" if "keys_unique a"
  proof -
    have e: "evolves (refresh_tbl a) (refresh_tbl b)" using ab that by (simp add: db_evolves_def)
    then have "keys_unique b" by (simp add: keys_unique_def evolves_def)
    then show ?thesis using e bc evolves_trans by (auto simp: db_evolves_def)
  qed
  then show ?thesis using ab bc by (auto simp: db_evolves_def)
qed

lemma db_evolves_rt_insert: "rt_insert env sha row db = Inr (i, db') \<Longrightarrow> db_evolves db db'"
  using evolves_rt_insert [of env sha row db i db']
  by (auto simp: db_evolves_def keys_unique_def rt_insert_def rbind_Inr Let_def)

lemma db_evolves_revoke_all: "revoke_all_for_user look env u db = Inr db' \<Longrightarrow> db_evolves db db'"
  using evolves_revoke_all [of look env u db db']
  by (auto simp: db_evolves_def keys_unique_def revoke_all_for_user_def rbind_Inr split: option.splits)

lemma db_evolves_revoke_rows: "revoke_rows env p rec db = Inr (outcome, db') \<Longrightarrow> db_evolves db db'"
  using evolves_revoke_rows [of env p rec db outcome db']
  by (auto simp: db_evolves_def keys_unique_def revoke_rows_def write_revocation_audit_def rbind_Inr)

lemma db_evolves_best_effort:
  "db_evolves db (best_effort (revoke_all_for_user look env u db) db)"
  using db_evolves_revoke_all [of look env u db] by (auto simp: best_effort_def split: sum.splits)

lemma db_evolves_rotate: "rotate pr env sha now old_raw new_raw jti ex db = Inr (outcome, db') \<Longrightarrow> db_evolves db db'"
proof -
  assume r: "rotate pr env sha now old_raw new_raw jti ex db = Inr (outcome, db')"
  have "db_evolves db db'" if s: "rotate_swap env sha old new_raw jti ex db = Inr (outcome, db')" for old
  proof -
    show ?thesis
    proof (cases outcome)
      case (Rotated o n u w)
      obtain k nrow tbl where "insert_refresh env k nrow (refresh_tbl db) = Inr tbl"
        "db' = db\<lparr>refresh_tbl := map (close_row (\<lambda>r. rt_id r = rt_id old \<and> rt_ws r = rt_ws old) (now_ts env) (Some n)) tbl\<rparr>"
        by (rule rotate_swap_RotatedE [OF s [unfolded Rotated]]) blast
      then show ?thesis using evolves_rotation by (auto simp: db_evolves_def keys_unique_def)
    next
      case (ReplayDetected u)
      then show ?thesis using rotate_swap_replay [OF s [unfolded ReplayDetected]] by simp
    qed (use s in \<open>auto simp: rotate_swap_def rbind_Inr Let_def split: if_splits\<close>)
  qed
  moreover obtain a where "(case a of Inl outcome \<Rightarrow> Inr (outcome, db) | Inr old \<Rightarrow> rotate_swap env sha old new_raw jti ex db)
      = Inr (outcome, db')"
    using r by (auto simp: rotate_def rbind_Inr)
  ultimately show ?thesis by (cases a) auto
qed

lemma db_evolves_record_login: "record_login env u ws email r method dec db = Inr db' \<Longrightarrow> db_evolves db db'"
  by (auto simp: record_login_def rbind_Inr Let_def intro: db_evolves_same)

lemma db_evolves_finish: "finish_sign_in env dbe creds dec dev db = Inr (res, db') \<Longrightarrow> db_evolves db db'"
  by (auto simp: finish_sign_in_def build_token_pair_body_def rbind_Inr intro: db_evolves_rt_insert
      split: twofa_decision.splits)

lemma db_evolves_create_user: "repo_create_user env dbe ws email pw r actor db = Inr (row, db') \<Longrightarrow> db_evolves db db'"
  by (auto simp: repo_create_user_def rbind_Inr Let_def intro: db_evolves_same)

lemma quiet_token: "token_handler env h email password st = (st', res) \<Longrightarrow> quiet sh st st'"
  by (auto simp: token_handler_def quiet_def Let_def rbind_Inr
      dest!: db_evolves_record_login db_evolves_finish intro: db_evolves_trans split: prod.splits sum.splits)

lemma quiet_refresh: "refresh_handler env raw st = (st', res) \<Longrightarrow> quiet sh st st'"
  by (auto simp: refresh_handler_def quiet_def dest!: db_evolves_rotate
      intro: db_evolves_trans [OF _ db_evolves_best_effort] split: prod.splits sum.splits rotation_outcome.splits)

lemma quiet_logout: "logout_handler env ctx st = (st', res) \<Longrightarrow> quiet sh st st'"
  by (auto simp: logout_handler_def quiet_def Let_def blacklist_jti_def rbind_Inr redis_set_ex_def
      intro: db_evolves_best_effort split: sum.splits)

lemma quiet_require: "auth_require env h st = (alerts, st', res) \<Longrightarrow> quiet sh st st'"
  by (auto simp: auth_require_def quiet_def split: prod.splits sum.splits if_splits)

lemma quiet_create_user: "create_user_handler env ctx email password r st = (st', res) \<Longrightarrow> quiet sh st st'"
  by (auto simp: create_user_handler_def quiet_def rbind_Inr dest!: db_evolves_create_user split: prod.splits sum.splits)

lemma blacklist_all_keys: "fst (blacklist_all env k jtis ttl r) (session_revocation_key sh u) = r (session_revocation_key sh u)"
  by (induction env k jtis ttl r rule: blacklist_all.induct)
    (auto simp: blacklist_jti_def rbind_Inr redis_set_ex_def split: sum.splits)

lemma quiet_revoke_one: "revoke_one_session_handler env ctx u sid st = (st', res) \<Longrightarrow> quiet sh st st'"
  using blacklist_all_keys [of "au_redis env" 0 _ _ "as_redis st" sh]
  by (auto simp: revoke_one_session_handler_def quiet_def Let_def sr_revoke_one_session_def
      dest!: db_evolves_revoke_rows split: prod.splits sum.splits) (metis fst_conv)+

text \<open>What \<open>revoke_sessions\<close> does to the trail and to the keys, also when it fails half way.\<close>

lemma revoke_sessions_effect:
  assumes "revoke_sessions_handler env ctx u st = (st', res)"
  shows "db_evolves (as_sess st) (as_sess st') \<and>
    (as_redis st' = as_redis st \<or>
     (\<exists>u'. as_redis st' = redis_set_ex (au_redis env) (session_revocation_key (au_show env) u') (RInt (au_now env))
        (revocation_watermark_ttl_secs (au_access_ttl env)) (as_redis st)))"
  using assms unfolding revoke_sessions_handler_def sr_revoke_def revoke_sessions_before_def
  by (auto simp: rbind_Inr dest!: db_evolves_revoke_rows split: prod.splits sum.splits)

text \<open>The user is barred: both copies of the watermark are there and outlive every old token.\<close>

definition barred :: "nat \<Rightarrow> (uuid \<Rightarrow> string) \<Rightarrow> uuid \<Rightarrow> uuid \<Rightarrow> int \<Rightarrow> int \<times> auth_state \<Rightarrow> bool" where
  "barred ttl sh u ws T s = (T \<le> fst s \<and>
     (\<exists>v e. as_redis (snd s) (session_revocation_key sh u) = Some (RInt v, Some e) \<and> T \<le> v \<and> T + int ttl + 91 \<le> e) \<and>
     (\<exists>row \<in> set (revocation_tbl (as_sess (snd s))). sr_target_user_id row = u \<and> sr_ws row = ws \<and>
        sr_session_id row = None \<and> T \<le> sr_revoked_before row))"

lemma barred_quiet:
  assumes "barred ttl sh u ws T (t, st)" "quiet sh st st'" "t \<le> t'"
  shows "barred ttl sh u ws T (t', st')"
  using assms by (auto simp: barred_def quiet_def db_evolves_def)

lemma barred_step:
  assumes "auth_step ttl sh s s'" "barred ttl sh u ws T s" "inj sh"
  shows "barred ttl sh u ws T s'"
  using assms(1)
proof (cases rule: auth_step.cases)
  case (end_sessions t t' env ctx u' st st' res)
  have sub: "set (revocation_tbl (as_sess st)) \<subseteq> set (revocation_tbl (as_sess st'))"
    using revoke_sessions_effect [OF end_sessions(5)] by (auto simp: db_evolves_def)
  have t: "T \<le> t'" "redis_now (au_redis env) \<ge> t' - 29" "au_now env = t'" "au_access_ttl env = ttl" "au_show env = sh"
    using assms(2) end_sessions by (auto simp: barred_def env_at_def)
  have "\<exists>v e. as_redis st' (session_revocation_key sh u) = Some (RInt v, Some e) \<and> T \<le> v \<and> T + int ttl + 91 \<le> e"
    using revoke_sessions_effect [OF end_sessions(5)] assms(2) t
    by (auto simp: end_sessions barred_def redis_set_ex_def revocation_key_inj [OF assms(3)] revocation_watermark_ttl_secs_def)
  then show ?thesis using assms(2) sub t(1) by (auto simp: end_sessions barred_def)
next
  case (elsewhere t t' st st')
  then show ?thesis using assms(2) barred_quiet by blast
qed (use assms(2) in \<open>auto intro: barred_quiet quiet_token quiet_refresh quiet_logout quiet_require quiet_create_user
    quiet_revoke_one\<close>)

text \<open>A closed refresh row stays closed.\<close>

definition shut :: "uuid \<Rightarrow> string \<Rightarrow> int \<times> auth_state \<Rightarrow> bool" where
  "shut i h s = (keys_unique (as_sess (snd s)) \<and>
     (\<exists>r \<in> set (refresh_tbl (as_sess (snd s))). rt_id r = i \<and> rt_hash r = h \<and> rt_revoked_at r \<noteq> None))"

lemma step_evolves: "auth_step ttl sh (t, st) (t', st') \<Longrightarrow> db_evolves (as_sess st) (as_sess st')"
  by (cases rule: auth_step.cases)
    (auto dest: quiet_token quiet_refresh quiet_logout quiet_require quiet_create_user quiet_revoke_one
      revoke_sessions_effect simp: quiet_def intro: db_evolves_same)

lemma shut_evolves: "shut i h (t, st) \<Longrightarrow> db_evolves (as_sess st) (as_sess st') \<Longrightarrow> shut i h (t', st')"
  unfolding shut_def db_evolves_def by (auto simp: keys_unique_def evolves_def)

interpretation shut: preserved "auth_step ttl sh" "shut i h" for ttl sh i h
proof
  fix s s' assume "auth_step ttl sh s s'" "shut i h s"
  then show "shut i h s'"
    using step_evolves [of ttl sh "fst s" "snd s" "fst s'" "snd s'"] shut_evolves [of i h "fst s" "snd s" "snd s'" "fst s'"] by simp
qed

interpretation barring: preserved "auth_step ttl sh" "\<lambda>s. inj sh \<and> barred ttl sh u ws T s" for ttl sh u ws T
  by unfold_locales (auto intro: barred_step)

lemma revoke_sessions_target_user:
  "revoke_sessions_target env ctx u db = Inr (target, email) \<Longrightarrow> tg_user_id target = u"
  by (auto simp: revoke_sessions_target_def found_target_def find_target_def user_in_ws_def rbind_Inr dest: find_SomeD)

lemma revoke_sessions_handler_okE:
  assumes "revoke_sessions_handler env ctx u st = (st1, Inr resp)"
  obtains target email outcome where "tg_user_id target = u"
    "sr_revoke (au_db env 2) (revocation_record_of env ctx email target None) (as_sess st) = Inr (outcome, as_sess st1)"
    "as_redis st1 = redis_set_ex (au_redis env) (session_revocation_key (au_show env) u) (RInt (au_now env))
        (revocation_watermark_ttl_secs (au_access_ttl env)) (as_redis st)"
    "rv_revoked_before resp = au_now env"
  using assms unfolding revoke_sessions_handler_def revoke_sessions_before_def
  by (auto simp: rbind_Inr dest!: revoke_sessions_target_user split: prod.splits sum.splits intro!: that)

lemma sr_revoke_effect:
  assumes "sr_revoke env rec db = Inr (outcome, db')"
  shows "refresh_tbl db' = map (close_row (\<lambda>r. rt_user r = tg_user_id (rr_target rec) \<and> rt_ws r = rr_workspace_id rec)
      (now_ts env) None) (refresh_tbl db)"
    "\<exists>row \<in> set (revocation_tbl db'). sr_target_user_id row = tg_user_id (rr_target rec) \<and> sr_ws row = rr_workspace_id rec \<and>
      sr_session_id row = rr_session_id rec \<and> sr_revoked_before row = rr_revoked_before rec"
  using assms by (auto simp: sr_revoke_def revoke_rows_def write_revocation_audit_def rbind_Inr)

lemma revoke_sessions_bars:
  assumes "revoke_sessions_handler env ctx u st = (st1, Inr resp)" "env_at ttl sh T env"
  shows "barred ttl sh u (ctx_workspace_id ctx) T (T, st1)" "rv_revoked_before resp = T"
    "keys_unique (as_sess st) \<Longrightarrow> r \<in> set (refresh_tbl (as_sess st)) \<Longrightarrow> rt_user r = u \<Longrightarrow> rt_ws r = ctx_workspace_id ctx \<Longrightarrow>
       shut (rt_id r) (rt_hash r) (T, st1)"
proof -
  obtain target email outcome where ok: "tg_user_id target = u"
    "sr_revoke (au_db env 2) (revocation_record_of env ctx email target None) (as_sess st) = Inr (outcome, as_sess st1)"
    "as_redis st1 = redis_set_ex (au_redis env) (session_revocation_key (au_show env) u) (RInt (au_now env))
        (revocation_watermark_ttl_secs (au_access_ttl env)) (as_redis st)"
    "rv_revoked_before resp = au_now env"
    by (rule revoke_sessions_handler_okE [OF assms(1)])
  have e: "au_now env = T" "au_access_ttl env = ttl" "au_show env = sh" "redis_now (au_redis env) \<ge> T - 29"
    using assms(2) by (auto simp: env_at_def)
  show "rv_revoked_before resp = T" using ok e by simp
  show "barred ttl sh u (ctx_workspace_id ctx) T (T, st1)"
    using ok e sr_revoke_effect(2) [OF ok(2)]
    by (fastforce simp: barred_def redis_set_ex_def revocation_watermark_ttl_secs_def revocation_record_of_def)
  assume k: "keys_unique (as_sess st)" and r: "r \<in> set (refresh_tbl (as_sess st))" "rt_user r = u" "rt_ws r = ctx_workspace_id ctx"
  let ?p = "\<lambda>r. rt_user r = u \<and> rt_ws r = ctx_workspace_id ctx"
  have tbl: "refresh_tbl (as_sess st1) = map (close_row ?p (now_ts (au_db env 2)) None) (refresh_tbl (as_sess st))"
    using sr_revoke_effect(1) [OF ok(2)] ok(1) by (simp add: revocation_record_of_def)
  then have "keys_unique (as_sess st1)" using k by (simp add: keys_unique_def comp_def)
  moreover have "close_row ?p (now_ts (au_db env 2)) None r \<in> set (refresh_tbl (as_sess st1))"
    "rt_revoked_at (close_row ?p (now_ts (au_db env 2)) None r) \<noteq> None"
    using tbl r close_row_closed(2) [of ?p r] by simp_all
  ultimately show "shut (rt_id r) (rt_hash r) (T, st1)"
    unfolding shut_def snd_conv
    by (intro conjI bexI [of _ "close_row ?p (now_ts (au_db env 2)) None r"] close_row_same)
qed

text \<open>A barred user's old token is refused, whether Redis answers or not.\<close>

lemma barred_refused:
  assumes "barred ttl sh u ws T (t, st)" "env_at ttl sh t' env" "t \<le> t'"
    and "cl_sub c = u" "cl_ws c = ws" "cl_iat c \<le> T" "cl_exp c \<le> cl_iat c + int ttl" "t' - 60 \<le> cl_exp c"
    and "auth_require env h st = (alerts, st', Inr res)" "extract_bearer h = Inr token" "au_decode env token = Some c"
  shows False
proof (cases "session_gates (au_redis env) 0 (au_show env) (cl_jti c) (cl_sub c) (as_redis st)")
  case (Inr p)
  obtain v e where ve: "as_redis st (session_revocation_key sh u) = Some (RInt v, Some e)" "T \<le> v" "T + int ttl + 91 \<le> e"
    using assms(1) by (auto simp: barred_def)
  have "redis_now (au_redis env) < e" using assms ve by (auto simp: env_at_def)
  then have "snd p = Some v"
    using Inr ve assms(2,4) by (auto simp: session_gates_def rbind_Inr Let_def redis_get_def env_at_def)
  then have "session_gate (fst p) (snd p) (cl_iat c) \<noteq> Proceed" using assms(6) ve(2) by (simp add: session_gate_def)
  then show False
    using Inr assms(9-11) by (auto simp: auth_require_def ok_or_def case_prod_beta split: if_splits)
next
  case (Inl e)
  obtain row where row: "row \<in> set (revocation_tbl (as_sess st))" "sr_target_user_id row = u" "sr_ws row = ws"
    "sr_session_id row = None" "T \<le> sr_revoked_before row"
    using assms(1) by (auto simp: barred_def)
  have "\<exists>reason. degraded_auth_gate (durable_mark (latest_watermark (au_db env 0) ws u (as_sess st))) (cl_iat c) age = BlockAuth reason" for age
  proof (cases "latest_watermark (au_db env 0) ws u (as_sess st)")
    case (Inr m)
    let ?marks = "map sr_revoked_before (filter (\<lambda>r. sr_target_user_id r = u \<and> sr_ws r = ws \<and> sr_session_id r = None)
        (revocation_tbl (as_sess st)))"
    have "sr_revoked_before row \<in> set ?marks" using row by auto
    then have "?marks \<noteq> []" "sr_revoked_before row \<le> Max (set ?marks)"
      by (auto simp del: set_map set_filter intro: Max_ge)
    then have "m = Some (Max (set ?marks))" "cl_iat c \<le> Max (set ?marks)"
      using Inr row(5) assms(6) by (auto simp: latest_watermark_def rbind_Inr Let_def split: if_splits)
    then show ?thesis using Inr by (simp add: durable_mark_def session_gate_def)
  qed (simp add: durable_mark_def)
  then show False
    using Inl assms(4,5,9-11) unfolding auth_require_def serve_degraded_def
    by (auto simp: ok_or_def Let_def split: if_splits auth_gate.splits) (metis auth_gate.distinct(1))
qed

lemma shut_refused:
  assumes "shut i (au_sha env raw) (t, st)" "refresh_handler env raw st = (st', Inr res)"
  shows False
proof -
  obtain r where r: "r \<in> set (refresh_tbl (as_sess st))" "rt_hash r = au_sha env raw" "rt_revoked_at r \<noteq> None"
    and k: "keys_unique (as_sess st)"
    using assms(1) by (auto simp: shut_def)
  have "row_of_hash (au_sha env raw) (refresh_tbl (as_sess st)) = Some r"
  proof (cases "row_of_hash (au_sha env raw) (refresh_tbl (as_sess st))")
    case None
    then show ?thesis using r by (auto simp: row_of_hash_def find_None_iff)
  next
    case (Some r')
    then have "r' \<in> set (refresh_tbl (as_sess st))" "rt_hash r' = rt_hash r"
      using r(2) by (auto simp: row_of_hash_def dest: find_SomeD)
    then show ?thesis using Some k r(1) by (auto simp: keys_unique_def distinct_map dest: inj_onD)
  qed
  then have "rotate_probe (au_db env 0) (au_sha env) (au_now env) raw (as_sess st) = Inr x \<Longrightarrow>
      x = Inl (ReplayDetected (rt_user r)) \<or> x = Inl RevokedToken" for x
    using r(3) by (auto simp: rotate_probe_def rbind_Inr split: if_splits)
  then show False
    using assms(2) by (auto simp: refresh_handler_def rotate_def rbind_def split: sum.splits prod.splits rotation_outcome.splits)
qed

text \<open>
  C34. When an administrator's \<open>DELETE /v1/users/{id}/sessions\<close> has answered 200 at second \<open>T\<close>, the user's
  earlier sessions are over behind the dashboard gate and at the refresh route, in every later state,
  whatever sign-ins, refreshes, logouts, gated requests, user creations and revocations ran, one after
  another, in between.
  The gate (\<open>auth_require\<close>) lets no access token through that was issued up to \<open>T\<close> with the configured
  lifetime: not when Redis answers (the watermark outlives every such token, including the 60 seconds of
  leeway), not when Redis is down and the trail in PostgreSQL is read instead, and not when both are down.
  And the refresh route exchanges no refresh token the user held in the workspace. The clock of Redis is at
  most 29 seconds off, Redis loses no watermark before its time to live, and no other code deletes
  watermarks, revocations or refresh tokens (\<open>quiet\<close>). The enrolment and verification routes of the second
  factor do not go through this gate and do not read the watermark: they are outside this statement, and
  lemma \<open>enrolment_ignores_revocation\<close> of theory \<open>Two_Factor\<close> shows that they accept such a token.
\<close>

theorem ended_sessions_stay_ended:
  assumes revoked: "revoke_sessions_handler env ctx u st = (st1, Inr resp)" "env_at ttl sh T env"
    and "inj sh" "keys_unique (as_sess st)"
    and later: "auth_reach ttl sh (T, st1) (t2, st2)" "t2 \<le> t3" "env_at ttl sh t3 env3"
    and jwt_leeway: "\<And>token c. au_decode env3 token = Some c \<Longrightarrow> t3 - 60 \<le> cl_exp c"
  shows "(\<forall>h token c alerts st3 res. extract_bearer h = Inr token \<and> au_decode env3 token = Some c \<and>
      cl_sub c = u \<and> cl_ws c = ctx_workspace_id ctx \<and> cl_iat c \<le> rv_revoked_before resp \<and>
      cl_exp c \<le> cl_iat c + int ttl \<and> auth_require env3 h st2 = (alerts, st3, res) \<longrightarrow> (\<exists>e. res = Inl e)) \<and>
    (\<forall>r raw st3 res. r \<in> set (refresh_tbl (as_sess st)) \<and> rt_user r = u \<and> rt_ws r = ctx_workspace_id ctx \<and>
      au_sha env3 raw = rt_hash r \<and> refresh_handler env3 raw st2 = (st3, res) \<longrightarrow> (\<exists>e. res = Inl e))"
proof (intro conjI allI impI; elim conjE)
  fix h token c alerts st3 res
  assume c: "extract_bearer h = Inr token" "au_decode env3 token = Some c" "cl_sub c = u" "cl_ws c = ctx_workspace_id ctx"
    "cl_iat c \<le> rv_revoked_before resp" "cl_exp c \<le> cl_iat c + int ttl" "auth_require env3 h st2 = (alerts, st3, res)"
  have "barred ttl sh u (ctx_workspace_id ctx) T (t2, st2)"
    using barring.reach_keeps [OF later(1) [unfolded auth_reach_def]] revoke_sessions_bars(1) [OF revoked] \<open>inj sh\<close> by blast
  then show "\<exists>e. res = Inl e"
    using barred_refused [OF _ later(3,2) c(3,4) _ c(6) jwt_leeway [OF c(2)] _ c(1,2)] c(5,7)
      revoke_sessions_bars(2) [OF revoked]
    by (cases res) auto
next
  fix r raw st3 res
  assume r: "r \<in> set (refresh_tbl (as_sess st))" "rt_user r = u" "rt_ws r = ctx_workspace_id ctx"
    "au_sha env3 raw = rt_hash r" "refresh_handler env3 raw st2 = (st3, res)"
  have "shut (rt_id r) (rt_hash r) (t2, st2)"
    using shut.reach_keeps [OF later(1) [unfolded auth_reach_def] revoke_sessions_bars(3) [OF revoked \<open>keys_unique (as_sess st)\<close> r(1-3)]] .
  then show "\<exists>e. res = Inl e"
    using shut_refused [of "rt_id r" env3 raw] r(4,5) by (cases res) auto
qed

text \<open>The access tokens the gateway issues live exactly the configured lifetime.\<close>

lemma access_claims_lifetime: "cl_exp (access_claims env u ws r) = cl_iat (access_claims env u ws r) + int (au_access_ttl env)"
  by (simp add: access_claims_def)

definition auth_demo_claims :: claims where
  "auth_demo_claims = \<lparr>cl_sub = 2, cl_ws = 3, cl_role = ''viewer'', cl_iat = 80, cl_exp = 120, cl_jti = ''j1'', cl_purpose = None\<rparr>"

definition auth_demo_show :: "uuid \<Rightarrow> string" where
  "auth_demo_show u = replicate (unat u) (CHR ''x'')"

definition auth_demo_env :: "int \<Rightarrow> auth_env" where
  "auth_demo_env t = \<lparr>au_now = t, au_instant = 0, au_limit_at = (\<lambda>k. 0), au_db = (\<lambda>k. session_demo_env t),
     au_redis = \<lparr>conn_err = (\<lambda>k. None), cmd_err = (\<lambda>k. None), type_err = [], overflow_err = [], redis_now = t\<rparr>,
     au_show = auth_demo_show,
     au_decode = (\<lambda>tok. if tok = ''t'' \<and> t - 60 \<le> cl_exp auth_demo_claims then Some auth_demo_claims else None),
     au_encode = (\<lambda>c. Inr (cl_jti c)), au_sha = id, au_verify = (=), au_hash_password = Inr, au_parse_ip = (\<lambda>s. None),
     au_new_jti = ''j9'', au_new_refresh = ''r9'', au_new_session = 9, au_access_ttl = 40, au_refresh_ttl = 70,
     au_max_seats = None\<rparr>"

definition auth_demo_user :: "uuid \<Rightarrow> string \<Rightarrow> user_row" where
  "auth_demo_user u r = \<lparr>us_id = u, us_ws = 3, us_email = ''a@b'', us_password_hash = ''p'', us_role = r, us_created_at = 0,
     us_updated_at = 0, us_totp_secret = None, us_totp_confirmed_at = None, us_totp_last_timestep = None,
     us_totp_failed_attempts = 0, us_totp_locked_until = None\<rparr>"

definition auth_demo_state :: auth_state where
  "auth_demo_state = \<lparr>as_sess = session_demo_db\<lparr>users_tbl := [auth_demo_user 1 ''admin'', auth_demo_user 2 ''viewer'']\<rparr>,
     as_redis = (\<lambda>k. None), as_cache = (\<lambda>u. None), as_limiter = \<lparr>rl_window = 0, rl_max = 5, rl_buckets = []\<rparr>\<rparr>"

definition auth_demo_ctx :: jwt_ctx where
  "auth_demo_ctx = \<lparr>ctx_user_id = 1, ctx_workspace_id = 3, ctx_role = Admin, ctx_jti = ''j0'', ctx_exp = 900\<rparr>"

definition auth_demo_headers :: headers where
  "auth_demo_headers name = (if name = ''authorization'' then Some (Some ''Bearer t'') else None)"

lemma auth_demo_runs:
  "\<not> isl (snd (snd (auth_require (auth_demo_env 90) auth_demo_headers auth_demo_state)))"
  "\<not> isl (snd (refresh_handler (auth_demo_env 90) ''old'' auth_demo_state))"
  "\<not> isl (snd (revoke_sessions_handler (auth_demo_env 100) auth_demo_ctx 2 auth_demo_state))"
  "extract_bearer auth_demo_headers = Inr ''t''"
  "au_decode (auth_demo_env 110) ''t'' = Some auth_demo_claims"
    by code_simp+

theorem ended_sessions_stay_ended_witness:
  "\<exists>st1 resp. revoke_sessions_handler (auth_demo_env 100) auth_demo_ctx 2 auth_demo_state = (st1, Inr resp) \<and>
     \<not> isl (snd (snd (auth_require (auth_demo_env 90) auth_demo_headers auth_demo_state))) \<and>
     isl (snd (snd (auth_require (auth_demo_env 110) auth_demo_headers st1))) \<and>
     isl (snd (refresh_handler (auth_demo_env 110) ''old'' st1))"
proof -
  obtain st1 resp where r: "revoke_sessions_handler (auth_demo_env 100) auth_demo_ctx 2 auth_demo_state = (st1, Inr resp)"
    using auth_demo_runs(3) by (metis isl_def old.sum.exhaust prod.collapse)
  have e: "env_at 40 auth_demo_show t (auth_demo_env t)" for t by (simp add: env_at_def auth_demo_env_def)
  have i: "inj auth_demo_show" by (auto simp: inj_def word_unat_eq_iff auth_demo_show_def)
  have k: "keys_unique (as_sess auth_demo_state)" by (simp add: keys_unique_def auth_demo_state_def session_demo_db_def)
  have reach: "auth_reach 40 auth_demo_show (100, st1) (100, st1)" by (simp add: auth_reach_def)
  have jwt: "t3 - 60 \<le> cl_exp c" if "au_decode (auth_demo_env t3) token = Some c" for t3 token c
    using that by (auto simp: auth_demo_env_def split: if_splits)
  note T = ended_sessions_stay_ended [OF r e i k reach _ e jwt, of 110]
  obtain a s res where q: "auth_require (auth_demo_env 110) auth_demo_headers st1 = (a, s, res)" by (metis prod_cases3)
  obtain s' res' where q': "refresh_handler (auth_demo_env 110) ''old'' st1 = (s', res')" by fastforce
  have mark: "rv_revoked_before resp = 100" by (rule revoke_sessions_bars(2) [OF r e])
  have "\<exists>e. res = Inl e"
    using T q auth_demo_runs(4,5) mark by (fastforce simp: auth_demo_claims_def auth_demo_ctx_def)
  moreover have "\<exists>e. res' = Inl e"
    using T q' by (fastforce simp: auth_demo_state_def session_demo_db_def session_demo_row_def auth_demo_ctx_def auth_demo_env_def)
  ultimately show ?thesis using r auth_demo_runs(1) q q' by (metis isl_def snd_conv)
qed

text \<open>
  Logout, by contrast, writes the blacklist entry for the token's remaining lifetime only, while
  the middleware accepts a token for 60 seconds more: a token that was logged out at second 100
  is refused at 115 and let through again at 150.
\<close>

lemma logged_out_token_accepted_in_leeway:
  "let ctx = ctx_of_claims auth_demo_claims Viewer; st1 = fst (logout_handler (auth_demo_env 100) ctx auth_demo_state) in
   \<not> isl (snd (logout_handler (auth_demo_env 100) ctx auth_demo_state)) \<and>
   isl (snd (snd (auth_require (auth_demo_env 115) auth_demo_headers st1))) \<and>
   \<not> isl (snd (snd (auth_require (auth_demo_env 150) auth_demo_headers st1)))"
  by code_simp

text \<open>An administrator may create an owner, whose sessions an administrator may not end.\<close>

lemma admin_may_create_owner:
  "\<not> isl (snd (create_user_handler (auth_demo_env 100) auth_demo_ctx ''o@b'' ''pw'' ''owner'' auth_demo_state)) \<and>
   may_revoke (ctx_role auth_demo_ctx) Owner = TargetOutranksActor"
  by code_simp

end
