(* ===== verification/Two_Factor.thy ===== *)
theory Two_Factor
  imports Session_Auth
begin

text \<open>
  The second factor: \<open>auth/totp.rs\<close>, the TOTP and backup-code statements of \<open>db/user_repo.rs\<close> and the
  handlers of \<open>http/routes/dashboard/twofactor.rs\<close>. A handler takes the authentication state together
  with the table \<open>user_backup_codes\<close>. The \<open>totp_rs\<close> crate is a parameter: building a TOTP from a secret,
  an issuer and an account gives the test of a code at a time and the provisioning URL, or fails.
  Key management, random bytes, Argon2 and the printing of a time are parameters too.
\<close>

section \<open>One-time codes\<close>

datatype totp_error = TotpInvalid | TotpReplayed

record totp =
  tp_check :: "string \<Rightarrow> nat \<Rightarrow> bool"
  tp_url :: string

record twofa_env =
  tf_auth :: auth_env
  tf_totp_new :: "string \<Rightarrow> string option \<Rightarrow> string \<Rightarrow> totp option"
  tf_new_secret :: string
  tf_encrypt :: "string \<Rightarrow> (string, string) result"
  tf_decrypt :: "string \<Rightarrow> (string, string) result"
  tf_random :: "nat \<Rightarrow> nat \<Rightarrow> nat"
  tf_hash :: "nat \<Rightarrow> string \<Rightarrow> (string, string) result"
  tf_rfc3339 :: "int \<Rightarrow> string"

definition step_seconds :: nat where
  "step_seconds = 30"

definition build_totp :: "twofa_env \<Rightarrow> string \<Rightarrow> totp option" where
  "build_totp env secret_b32 = tf_totp_new env secret_b32 None []"

definition provisioning_uri :: "twofa_env \<Rightarrow> string \<Rightarrow> string \<Rightarrow> string \<Rightarrow> (totp_error, string) result" where
  "provisioning_uri env secret_b32 account issuer =
     rbind (ok_or (tf_totp_new env secret_b32 (Some (str_replace '':'' ''_'' issuer)) (str_replace '':'' ''_'' account)) TotpInvalid)
       (\<lambda>t. Inr (tp_url t))"

fun scan_steps :: "totp \<Rightarrow> string \<Rightarrow> nat option \<Rightarrow> nat list \<Rightarrow> (totp_error, nat) result" where
  "scan_steps t code last_timestep [] = Inl TotpInvalid"
| "scan_steps t code last_timestep (step # steps) =
     (if tp_check t code (step * step_seconds)
      then (case last_timestep of
              Some prev \<Rightarrow> if step \<le> prev then Inl TotpReplayed else Inr step
            | None \<Rightarrow> Inr step)
      else scan_steps t code last_timestep steps)"

definition verify_code :: "twofa_env \<Rightarrow> string \<Rightarrow> string \<Rightarrow> nat option \<Rightarrow> nat \<Rightarrow> (totp_error, nat) result" where
  "verify_code env secret_b32 code last_timestep now_unix =
     rbind (ok_or (build_totp env secret_b32) TotpInvalid) (\<lambda>t.
       let now_step = now_unix div step_seconds
       in scan_steps t code last_timestep [now_step - 1, now_step, now_step + 1])"

section \<open>The TOTP columns and the backup codes\<close>

record backup_row =
  bk_id :: uuid
  bk_user :: uuid
  bk_hash :: string
  bk_used_at :: "int option"
  bk_created_at :: int

record twofa_state =
  tf_st :: auth_state
  tf_codes :: "backup_row list"

definition find_by_id :: "db_env \<Rightarrow> uuid \<Rightarrow> session_db \<Rightarrow> (api_error, user_row option) result" where
  "find_by_id env u db = rbind (stmt env 0) (\<lambda>_. Inr (user_of_id u db))"

definition update_user :: "uuid \<Rightarrow> (user_row \<Rightarrow> user_row) \<Rightarrow> session_db \<Rightarrow> session_db" where
  "update_user u f db = db\<lparr>users_tbl := map (\<lambda>r. if us_id r = u then f r else r) (users_tbl db)\<rparr>"

definition require_row :: "(uuid \<Rightarrow> string) \<Rightarrow> uuid \<Rightarrow> session_db \<Rightarrow> (api_error, unit) result" where
  "require_row show_id u db =
     guard_err (user_of_id u db = None) (NotFound (''user '' @ show_id u @ '' not found''))"

definition backup_rows :: "db_env \<Rightarrow> uuid \<Rightarrow> string list \<Rightarrow> backup_row list" where
  "backup_rows env u hashes = map (\<lambda>(i, h). \<lparr>bk_id = fresh_uuid env (10 + i), bk_user = u, bk_hash = h,
     bk_used_at = None, bk_created_at = now_ts env\<rparr>) (enumerate 0 hashes)"

definition enroll_totp ::
  "db_env \<Rightarrow> (uuid \<Rightarrow> string) \<Rightarrow> uuid \<Rightarrow> string \<Rightarrow> string list \<Rightarrow> admin_actor \<Rightarrow> audit_entry
     \<Rightarrow> session_db \<times> backup_row list \<Rightarrow> (api_error, session_db \<times> backup_row list) result" where
  "enroll_totp env show_id u encrypted hashes actor entry = (\<lambda>(db, codes).
     rbind (begin_scoped env (actor_ws actor)) (\<lambda>_.
     rbind (stmt env 3) (\<lambda>_.
     rbind (require_row show_id u db) (\<lambda>_.
     rbind (stmt env 4) (\<lambda>_.
     rbind (if hashes = [] then Inr () else stmt env 5) (\<lambda>_.
     rbind (audit_write env 6 actor entry (sess_audit db)) (\<lambda>tbl.
     rbind (stmt env 7) (\<lambda>_.
       Inr ((update_user u (\<lambda>r. r\<lparr>us_totp_secret := Some encrypted, us_totp_confirmed_at := None\<rparr>) db)\<lparr>sess_audit := tbl\<rparr>,
            filter (\<lambda>c. bk_user c \<noteq> u) codes @ backup_rows env u hashes)))))))))"

definition confirm_totp ::
  "db_env \<Rightarrow> (uuid \<Rightarrow> string) \<Rightarrow> uuid \<Rightarrow> admin_actor \<Rightarrow> audit_entry \<Rightarrow> session_db \<Rightarrow> (api_error, session_db) result" where
  "confirm_totp env show_id u actor entry db =
     rbind (begin_scoped env (actor_ws actor)) (\<lambda>_.
     rbind (stmt env 3) (\<lambda>_.
     rbind (require_row show_id u db) (\<lambda>_.
     rbind (audit_write env 4 actor entry (sess_audit db)) (\<lambda>tbl.
     rbind (stmt env 5) (\<lambda>_.
       Inr ((update_user u (\<lambda>r. r\<lparr>us_totp_confirmed_at := Some (now_ts env)\<rparr>) db)\<lparr>sess_audit := tbl\<rparr>))))))"

definition disable_totp ::
  "db_env \<Rightarrow> (uuid \<Rightarrow> string) \<Rightarrow> uuid \<Rightarrow> admin_actor \<Rightarrow> audit_entry
     \<Rightarrow> session_db \<times> backup_row list \<Rightarrow> (api_error, session_db \<times> backup_row list) result" where
  "disable_totp env show_id u actor entry = (\<lambda>(db, codes).
     rbind (begin_scoped env (actor_ws actor)) (\<lambda>_.
     rbind (stmt env 3) (\<lambda>_.
     rbind (require_row show_id u db) (\<lambda>_.
     rbind (stmt env 4) (\<lambda>_.
     rbind (audit_write env 5 actor entry (sess_audit db)) (\<lambda>tbl.
     rbind (stmt env 6) (\<lambda>_.
       Inr ((update_user u (\<lambda>r. r\<lparr>us_totp_secret := None, us_totp_confirmed_at := None, us_totp_last_timestep := None,
               us_totp_failed_attempts := 0, us_totp_locked_until := None\<rparr>) db)\<lparr>sess_audit := tbl\<rparr>,
            filter (\<lambda>c. bk_user c \<noteq> u) codes))))))))"

definition record_totp_success :: "db_env \<Rightarrow> (uuid \<Rightarrow> string) \<Rightarrow> uuid \<Rightarrow> int \<Rightarrow> session_db \<Rightarrow> (api_error, session_db) result" where
  "record_totp_success env show_id u timestep db =
     rbind (stmt env 0) (\<lambda>_.
     rbind (require_row show_id u db) (\<lambda>_.
       Inr (update_user u (\<lambda>r. r\<lparr>us_totp_last_timestep := Some timestep, us_totp_failed_attempts := 0,
         us_totp_locked_until := None\<rparr>) db)))"

text \<open>The counter is an \<open>INT\<close> column: PostgreSQL refuses the update that would overflow it.\<close>

definition i32_max :: int where
  "i32_max = 2147483647"

definition record_totp_failure ::
  "db_env \<Rightarrow> (uuid \<Rightarrow> string) \<Rightarrow> uuid \<Rightarrow> int \<Rightarrow> int \<Rightarrow> session_db \<Rightarrow> (api_error, int \<times> session_db) result" where
  "record_totp_failure env show_id u lock_threshold lock_secs db =
     rbind (stmt env 0) (\<lambda>_.
     case user_of_id u db of
       None \<Rightarrow> Inl (NotFound (''user '' @ show_id u @ '' not found''))
     | Some user \<Rightarrow>
         let n = us_totp_failed_attempts user + 1
         in if n > i32_max then Inl (Database ''integer out of range'')
            else Inr (n, update_user u (\<lambda>r. r\<lparr>us_totp_failed_attempts := n,
                   us_totp_locked_until := (if n \<ge> lock_threshold then Some (now_ts env + lock_secs)
                     else us_totp_locked_until r)\<rparr>) db))"

text \<open>
  The candidates are read first; then each matching one is claimed by an \<open>UPDATE\<close> that only an
  unused row answers. Statement \<open>k\<close> is the claim of the \<open>k\<close>-th candidate.
\<close>

definition mark_used :: "int \<Rightarrow> uuid \<Rightarrow> backup_row list \<Rightarrow> backup_row list" where
  "mark_used now i codes = map (\<lambda>c. if bk_id c = i \<and> bk_used_at c = None then c\<lparr>bk_used_at := Some now\<rparr> else c) codes"

fun claim_code ::
  "db_env \<Rightarrow> (string \<Rightarrow> string \<Rightarrow> bool) \<Rightarrow> nat \<Rightarrow> string \<Rightarrow> backup_row list \<Rightarrow> backup_row list
     \<Rightarrow> backup_row list \<times> (api_error, bool) result" where
  "claim_code env verify k code_plain [] codes = (codes, Inr False)"
| "claim_code env verify k code_plain (c # cs) codes =
     (if \<not> verify (bk_hash c) code_plain then claim_code env verify (Suc k) code_plain cs codes
      else case stmt env k of
        Inl e \<Rightarrow> (codes, Inl e)
      | Inr _ \<Rightarrow>
          if length (filter (\<lambda>d. bk_id d = bk_id c \<and> bk_used_at d = None) codes) = 1
          then (mark_used (now_ts env) (bk_id c) codes, Inr True)
          else claim_code env verify (Suc k) code_plain cs (mark_used (now_ts env) (bk_id c) codes))"

definition consume_backup_code ::
  "db_env \<Rightarrow> (string \<Rightarrow> string \<Rightarrow> bool) \<Rightarrow> uuid \<Rightarrow> string \<Rightarrow> backup_row list
     \<Rightarrow> backup_row list \<times> (api_error, bool) result" where
  "consume_backup_code env verify u code_plain codes =
     (case stmt env 0 of
        Inl e \<Rightarrow> (codes, Inl e)
      | Inr _ \<Rightarrow> claim_code env verify 1 code_plain (filter (\<lambda>c. bk_user c = u \<and> bk_used_at c = None) codes) codes)"

section \<open>Bearer tokens and codes of the routes\<close>

text \<open>\<open>decode_bearer_claims\<close>: signature, expiry with leeway and required claims are checked by the JWT library.\<close>

definition decode_bearer_claims :: "auth_env \<Rightarrow> headers \<Rightarrow> (api_error, claims) result" where
  "decode_bearer_claims env h = rbind (extract_bearer h) (\<lambda>token. ok_or (au_decode env token) invalid_credentials)"

datatype bearer_purpose_decision = AcceptEnrollmentToken | CheckAccessTokenBlacklist | RejectBearer

definition classify_bearer_purpose :: "string option \<Rightarrow> bearer_purpose_decision" where
  "classify_bearer_purpose purpose = (case purpose of
       None \<Rightarrow> CheckAccessTokenBlacklist
     | Some p \<Rightarrow> if p = ''2fa_enroll'' then AcceptEnrollmentToken else RejectBearer)"

definition accept_enroll_or_access :: "auth_env \<Rightarrow> headers \<Rightarrow> redis \<Rightarrow> (api_error, uuid \<times> uuid) result" where
  "accept_enroll_or_access env h r =
     rbind (decode_bearer_claims env h) (\<lambda>c.
     case classify_bearer_purpose (cl_purpose c) of
       AcceptEnrollmentToken \<Rightarrow> Inr (cl_sub c, cl_ws c)
     | CheckAccessTokenBlacklist \<Rightarrow>
         (case jti_is_blacklisted (au_redis env) 0 (cl_jti c) r of
            Inl _ \<Rightarrow> Inl (ServiceUnavailable ''auth service temporarily unavailable'')
          | Inr b \<Rightarrow> if b then Inl invalid_credentials else Inr (cl_sub c, cl_ws c))
     | RejectBearer \<Rightarrow> Inl invalid_credentials)"

datatype challenge_purpose_decision = AcceptChallenge | RejectChallenge

definition classify_challenge_purpose :: "string option \<Rightarrow> challenge_purpose_decision" where
  "classify_challenge_purpose purpose = (if purpose = Some ''2fa_challenge'' then AcceptChallenge else RejectChallenge)"

definition accept_challenge :: "auth_env \<Rightarrow> headers \<Rightarrow> (api_error, uuid \<times> uuid) result" where
  "accept_challenge env h =
     rbind (decode_bearer_claims env h) (\<lambda>c.
     case classify_challenge_purpose (cl_purpose c) of
       AcceptChallenge \<Rightarrow> Inr (cl_sub c, cl_ws c)
     | RejectChallenge \<Rightarrow> Inl invalid_credentials)"

definition backup_code_count :: nat where
  "backup_code_count = 10"

definition backup_code_raw_len :: nat where
  "backup_code_raw_len = 10"

definition backup_code_alphabet :: string where
  "backup_code_alphabet = ''ABCDEFGHJKMNPQRSTUVWXYZ23456789''"

definition random_backup_code_raw :: "(nat \<Rightarrow> nat) \<Rightarrow> string" where
  "random_backup_code_raw byte =
     map (\<lambda>i. backup_code_alphabet ! (byte i mod length backup_code_alphabet)) [0..<backup_code_raw_len]"

definition format_backup_code :: "string \<Rightarrow> string" where
  "format_backup_code raw = (let mid = length raw div 2 in take mid raw @ ''-'' @ drop mid raw)"

definition strip_backup_code_format :: "string \<Rightarrow> string" where
  "strip_backup_code_format code = filter (\<lambda>c. c \<noteq> CHR ''-'') code"

definition generate_backup_codes :: "twofa_env \<Rightarrow> string list" where
  "generate_backup_codes env = map (\<lambda>k. format_backup_code (random_backup_code_raw (tf_random env k))) [0..<backup_code_count]"

fun hash_codes :: "twofa_env \<Rightarrow> nat \<Rightarrow> string list \<Rightarrow> (api_error, string list) result" where
  "hash_codes env k [] = Inr []"
| "hash_codes env k (c # cs) =
     rbind (map_err (\<lambda>e. Internal (''password hash failed: '' @ e)) (tf_hash env k (strip_backup_code_format c))) (\<lambda>h.
     rbind (hash_codes env (Suc k) cs) (\<lambda>hs. Inr (h # hs)))"

text \<open>The caller as the actor of an audit row, its role read from the table.\<close>

definition self_actor :: "db_env \<Rightarrow> uuid \<Rightarrow> uuid \<Rightarrow> string \<Rightarrow> session_db \<Rightarrow> (api_error, admin_actor \<times> string) result" where
  "self_actor env u ws email db =
     rbind (stmt env 0) (\<lambda>_.
     case user_in_ws u ws db of
       None \<Rightarrow> Inl (Database ''no rows returned by a query that expected to return at least one row'')
     | Some user \<Rightarrow> Inr (\<lparr>actor_ws = ws, actor_user_id = Some u, actor_email = Some email, actor_role = Some (us_role user)\<rparr>,
         us_role user))"

definition write_own_audit :: "db_env \<Rightarrow> uuid \<Rightarrow> admin_actor \<Rightarrow> audit_entry \<Rightarrow> session_db \<Rightarrow> (api_error, session_db) result" where
  "write_own_audit env ws actor entry db =
     rbind (begin_scoped env ws) (\<lambda>_.
     rbind (audit_write env 3 actor entry (sess_audit db)) (\<lambda>tbl.
     rbind (stmt env 4) (\<lambda>_. Inr (db\<lparr>sess_audit := tbl\<rparr>))))"

section \<open>The handlers\<close>

record enroll_response =
  en_provisioning_uri :: string
  en_secret_b32 :: string
  en_backup_codes :: "string list"

definition now_unix_of :: "auth_env \<Rightarrow> nat" where
  "now_unix_of env = nat (au_now env)"

definition last_step_of :: "user_row \<Rightarrow> nat option" where
  "last_step_of user = map_option nat (us_totp_last_timestep user)"

definition i64_of_step :: "nat \<Rightarrow> int" where
  "i64_of_step step = (if int step \<le> i64_max then int step else i64_max)"

definition known_user :: "db_env \<Rightarrow> uuid \<Rightarrow> session_db \<Rightarrow> (api_error, user_row) result" where
  "known_user env u db = rbind (find_by_id env u db) (\<lambda>row. ok_or row invalid_credentials)"

definition check_unlocked :: "twofa_env \<Rightarrow> user_row \<Rightarrow> (api_error, unit) result" where
  "check_unlocked env user = (case us_totp_locked_until user of
       None \<Rightarrow> Inr ()
     | Some locked_until \<Rightarrow> guard_err (locked_until > au_now (tf_auth env))
         (TooManyRequests (''too many attempts, locked until '' @ tf_rfc3339 env locked_until)))"

definition enroll_stored ::
  "twofa_env \<Rightarrow> headers \<Rightarrow> twofa_state \<Rightarrow> (api_error, user_row \<times> session_db \<times> backup_row list) result" where
  "enroll_stored env h st =
     (let a = tf_auth env; db = as_sess (tf_st st); backup_codes = generate_backup_codes env in
      rbind (accept_enroll_or_access a h (as_redis (tf_st st))) (\<lambda>(u, ws).
      rbind (known_user (au_db a 0) u db) (\<lambda>user.
      rbind (guard_err (us_totp_confirmed_at user \<noteq> None) (Conflict ''2FA is already enabled; disable it first'')) (\<lambda>_.
      rbind (map_err (\<lambda>e. Internal (''totp secret encrypt failed: '' @ e)) (tf_encrypt env (tf_new_secret env))) (\<lambda>ciphertext.
      rbind (hash_codes env 0 backup_codes) (\<lambda>hashes.
      rbind (self_actor (au_db a 1) u ws (us_email user) db) (\<lambda>(actor, r).
      let entry = with_detail (JObj [(''backup_codes_issued'', JNum (of_nat (length backup_codes))),
              (''reenrollment'', JBool (us_totp_secret user \<noteq> None))])
            (on_own_account TwoFactorEnrollmentStarted u (us_email user) r)
      in rbind (enroll_totp (au_db a 2) (au_show a) u ciphertext hashes actor entry (db, tf_codes st)) (\<lambda>(db', codes').
         Inr (user, db', codes')))))))))"

definition enroll_handler ::
  "twofa_env \<Rightarrow> headers \<Rightarrow> twofa_state \<Rightarrow> twofa_state \<times> (api_error, enroll_response) result" where
  "enroll_handler env h st = (case enroll_stored env h st of
       Inl e \<Rightarrow> (st, Inl e)
     | Inr (user, db', codes') \<Rightarrow>
         (\<lparr>tf_st = (tf_st st)\<lparr>as_sess := db'\<rparr>, tf_codes = codes'\<rparr>,
          case provisioning_uri env (tf_new_secret env) (us_email user) ''SecurePrompt'' of
            Inl _ \<Rightarrow> Inl (Internal ''failed to build TOTP provisioning URI'')
          | Inr uri \<Rightarrow> Inr \<lparr>en_provisioning_uri = uri, en_secret_b32 = tf_new_secret env,
              en_backup_codes = generate_backup_codes env\<rparr>))"

text \<open>The failure counter is written on a best-effort basis: its own error is dropped.\<close>

definition note_failure :: "twofa_env \<Rightarrow> nat \<Rightarrow> uuid \<Rightarrow> session_db \<Rightarrow> session_db" where
  "note_failure env k u db =
     (case record_totp_failure (au_db (tf_auth env) k) (au_show (tf_auth env)) u 5 900 db of
        Inl _ \<Rightarrow> db
      | Inr (_, db') \<Rightarrow> db')"

definition set_sess :: "session_db \<Rightarrow> twofa_state \<Rightarrow> twofa_state" where
  "set_sess db st = st\<lparr>tf_st := (tf_st st)\<lparr>as_sess := db\<rparr>\<rparr>"

definition verify_confirmed ::
  "twofa_env \<Rightarrow> headers \<Rightarrow> uuid \<Rightarrow> uuid \<Rightarrow> user_row \<Rightarrow> nat \<Rightarrow> twofa_state
     \<Rightarrow> twofa_state \<times> (api_error, token_response) result" where
  "verify_confirmed env h u ws user step st =
     (let a = tf_auth env; db = as_sess (tf_st st) in
      case rbind (self_actor (au_db a 1) u ws (us_email user) db) (\<lambda>(actor, r).
           rbind (confirm_totp (au_db a 2) (au_show a) u actor (on_own_account TwoFactorEnabled u (us_email user) r) db)
             (\<lambda>db1. Inr (r, db1))) of
        Inl e \<Rightarrow> (st, Inl e)
      | Inr (r, db1) \<Rightarrow>
          let db2 = best_effort (revoke_all_for_user (au_db a 3) (au_db a 4) u db1) db1 in
          case record_totp_success (au_db a 5) (au_show a) u (i64_of_step step) db2 of
            Inl e \<Rightarrow> (set_sess db2 st, Inl e)
          | Inr db3 \<Rightarrow>
              (case build_token_pair_body a (au_db a 6) u ws r (us_email user) (device_from_headers a h) db3 of
                 Inl e \<Rightarrow> (set_sess db3 st, Inl e)
               | Inr (body, db4) \<Rightarrow> (set_sess db4 st, Inr body)))"

definition verify_handler ::
  "twofa_env \<Rightarrow> headers \<Rightarrow> string \<Rightarrow> twofa_state \<Rightarrow> twofa_state \<times> (api_error, token_response) result" where
  "verify_handler env h code st =
     (let a = tf_auth env; db = as_sess (tf_st st) in
      case rbind (accept_enroll_or_access a h (as_redis (tf_st st))) (\<lambda>(u, ws).
           rbind (known_user (au_db a 0) u db) (\<lambda>user.
           rbind (check_unlocked env user) (\<lambda>_.
           rbind (ok_or (us_totp_secret user) invalid_credentials) (\<lambda>ciphertext.
           rbind (map_err (\<lambda>_. invalid_credentials) (tf_decrypt env ciphertext)) (\<lambda>secret_b32.
           rbind (guard_err (\<not> valid_utf8 secret_b32) invalid_credentials) (\<lambda>_.
             Inr (u, ws, user, secret_b32))))))) of
        Inl e \<Rightarrow> (st, Inl e)
      | Inr (u, ws, user, secret_b32) \<Rightarrow>
          (case verify_code env secret_b32 code (last_step_of user) (now_unix_of a) of
             Inl _ \<Rightarrow> (set_sess (note_failure env 1 u db) st, Inl invalid_credentials)
           | Inr step \<Rightarrow> verify_confirmed env h u ws user step st))"

datatype totp_step_outcome = Matched nat | NoMatch | SystemError

definition verify_totp_step :: "twofa_env \<Rightarrow> user_row \<Rightarrow> string \<Rightarrow> nat \<Rightarrow> totp_step_outcome" where
  "verify_totp_step env user code now_unix = (case us_totp_secret user of
       None \<Rightarrow> SystemError
     | Some ciphertext \<Rightarrow>
         (case tf_decrypt env ciphertext of
            Inl _ \<Rightarrow> SystemError
          | Inr secret_b32 \<Rightarrow>
              if \<not> valid_utf8 secret_b32 then SystemError
              else (case verify_code env secret_b32 code (last_step_of user) now_unix of
                      Inr step \<Rightarrow> Matched step
                    | Inl _ \<Rightarrow> NoMatch)))"

text \<open>
  What \<open>challenge\<close> and \<open>disable\<close> have in common: a TOTP code first, then a backup code. The answer is the
  time step to record with the way the code was verified, or nothing when it is wrong.
\<close>

definition check_second_factor ::
  "twofa_env \<Rightarrow> uuid \<Rightarrow> user_row \<Rightarrow> string \<Rightarrow> backup_row list
     \<Rightarrow> backup_row list \<times> (api_error, (int \<times> string) option) result" where
  "check_second_factor env u user code codes =
     (let a = tf_auth env; now_unix = now_unix_of a in
      case verify_totp_step env user code now_unix of
        Matched step \<Rightarrow> (codes, Inr (Some (i64_of_step step, ''totp'')))
      | SystemError \<Rightarrow> (codes, Inl (ServiceUnavailable ''2fa verification temporarily unavailable''))
      | NoMatch \<Rightarrow>
          (case consume_backup_code (au_db a 1) (au_verify a) u (strip_backup_code_format code) codes of
             (codes', Inl e) \<Rightarrow> (codes', Inl e)
           | (codes', Inr used) \<Rightarrow>
               (codes', Inr (if used then Some (i64_of_step (now_unix div 30), ''backup_code'') else None))))"

definition challenge_user :: "twofa_env \<Rightarrow> headers \<Rightarrow> twofa_state \<Rightarrow> (api_error, uuid \<times> uuid \<times> user_row) result" where
  "challenge_user env h st =
     rbind (accept_challenge (tf_auth env) h) (\<lambda>(u, ws).
     rbind (known_user (au_db (tf_auth env) 0) u (as_sess (tf_st st))) (\<lambda>user.
     rbind (check_unlocked env user) (\<lambda>_. Inr (u, ws, user))))"

definition challenge_audited ::
  "twofa_env \<Rightarrow> uuid \<Rightarrow> uuid \<Rightarrow> user_row \<Rightarrow> string \<Rightarrow> session_db \<Rightarrow> (api_error, string \<times> session_db) result" where
  "challenge_audited env u ws user verified_with db =
     rbind (self_actor (au_db (tf_auth env) 4) u ws (us_email user) db) (\<lambda>(actor, r).
     rbind (write_own_audit (au_db (tf_auth env) 5) ws actor
       (with_detail (JObj [(''verified_with'', JStr verified_with)])
         (on_own_account SecondFactorVerified u (us_email user) r)) db) (\<lambda>db2.
     Inr (r, db2)))"

definition challenge_verified ::
  "twofa_env \<Rightarrow> headers \<Rightarrow> uuid \<Rightarrow> uuid \<Rightarrow> user_row \<Rightarrow> int \<Rightarrow> string \<Rightarrow> twofa_state
     \<Rightarrow> twofa_state \<times> (api_error, token_response) result" where
  "challenge_verified env h u ws user timestep verified_with st =
     (let a = tf_auth env in
      case record_totp_success (au_db a 3) (au_show a) u timestep (as_sess (tf_st st)) of
        Inl e \<Rightarrow> (st, Inl e)
      | Inr db1 \<Rightarrow>
          (case challenge_audited env u ws user verified_with db1 of
             Inl e \<Rightarrow> (set_sess db1 st, Inl e)
           | Inr (r, db2) \<Rightarrow>
               (case build_token_pair_body a (au_db a 6) u ws r (us_email user) (device_from_headers a h) db2 of
                  Inl e \<Rightarrow> (set_sess db2 st, Inl e)
                | Inr (body, db3) \<Rightarrow> (set_sess db3 st, Inr body))))"

definition challenge_handler ::
  "twofa_env \<Rightarrow> headers \<Rightarrow> string \<Rightarrow> twofa_state \<Rightarrow> twofa_state \<times> (api_error, token_response) result" where
  "challenge_handler env h code st = (case challenge_user env h st of
       Inl e \<Rightarrow> (st, Inl e)
     | Inr (u, ws, user) \<Rightarrow>
         (case limiter_check (au_limit_at (tf_auth env) 0) (''2fa_challenge_ip:'' @ client_ip_key h) (as_limiter (tf_st st)) of
            (Inl _, rl) \<Rightarrow> (st\<lparr>tf_st := (tf_st st)\<lparr>as_limiter := rl\<rparr>\<rparr>,
               Inl (TooManyRequests ''rate limit exceeded for 2fa challenge''))
          | (Inr _, rl) \<Rightarrow>
              (case check_second_factor env u user code (tf_codes st) of
                 (codes', res) \<Rightarrow>
                   let st1 = st\<lparr>tf_st := (tf_st st)\<lparr>as_limiter := rl\<rparr>, tf_codes := codes'\<rparr> in
                   (case res of
                      Inl e \<Rightarrow> (st1, Inl e)
                    | Inr None \<Rightarrow> (set_sess (note_failure env 2 u (as_sess (tf_st st1))) st1, Inl invalid_credentials)
                    | Inr (Some (timestep, verified_with)) \<Rightarrow>
                        challenge_verified env h u ws user timestep verified_with st1))))"

definition disable_user :: "twofa_env \<Rightarrow> jwt_ctx \<Rightarrow> twofa_state \<Rightarrow> (api_error, user_row) result" where
  "disable_user env ctx st =
     rbind (known_user (au_db (tf_auth env) 0) (ctx_user_id ctx) (as_sess (tf_st st))) (\<lambda>user.
     rbind (guard_err (us_totp_confirmed_at user = None) (BadRequest ''2FA is not enabled'')) (\<lambda>_.
     rbind (check_unlocked env user) (\<lambda>_. Inr user)))"

definition disable_verified ::
  "twofa_env \<Rightarrow> jwt_ctx \<Rightarrow> user_row \<Rightarrow> string \<Rightarrow> twofa_state \<Rightarrow> twofa_state \<times> (api_error, unit) result" where
  "disable_verified env ctx user verified_with st =
     (let a = tf_auth env; u = ctx_user_id ctx; db = as_sess (tf_st st) in
      case rbind (self_actor (au_db a 3) u (ctx_workspace_id ctx) (us_email user) db) (\<lambda>(actor, r).
           disable_totp (au_db a 4) (au_show a) u actor
             (with_detail (JObj [(''verified_with'', JStr verified_with)])
               (on_own_account TwoFactorDisabled u (us_email user) r)) (db, tf_codes st)) of
        Inl e \<Rightarrow> (st, Inl e)
      | Inr (db1, codes1) \<Rightarrow>
          (set_sess (best_effort (revoke_all_for_user (au_db a 5) (au_db a 6) u db1) db1) (st\<lparr>tf_codes := codes1\<rparr>), Inr ()))"

definition disable_handler ::
  "twofa_env \<Rightarrow> jwt_ctx \<Rightarrow> string \<Rightarrow> twofa_state \<Rightarrow> twofa_state \<times> (api_error, unit) result" where
  "disable_handler env ctx code st = (case disable_user env ctx st of
       Inl e \<Rightarrow> (st, Inl e)
     | Inr user \<Rightarrow>
         (case check_second_factor env (ctx_user_id ctx) user code (tf_codes st) of
            (codes', res) \<Rightarrow>
              let st1 = st\<lparr>tf_codes := codes'\<rparr> in
              (case res of
                 Inl e \<Rightarrow> (st1, Inl e)
               | Inr None \<Rightarrow> (set_sess (note_failure env 2 (ctx_user_id ctx) (as_sess (tf_st st1))) st1, Inl invalid_credentials)
               | Inr (Some (_, verified_with)) \<Rightarrow> disable_verified env ctx user verified_with st1)))"

text \<open>The router: three routes that check their own token, and \<open>/disable\<close> behind the session middleware.\<close>

datatype twofa_request =
    EnrollRequest headers
  | VerifyRequest headers string
  | ChallengeRequest headers string
  | DisableRequest headers string

datatype twofa_answer = EnrollAnswer enroll_response | TokenAnswer token_response | Disabled

fun twofa_serve ::
  "twofa_env \<Rightarrow> twofa_request \<Rightarrow> twofa_state \<Rightarrow> twofa_state \<times> (api_error, twofa_answer) result" where
  "twofa_serve env (EnrollRequest h) st =
     (case enroll_handler env h st of (st', res) \<Rightarrow> (st', map_sum id EnrollAnswer res))"
| "twofa_serve env (VerifyRequest h code) st =
     (case verify_handler env h code st of (st', res) \<Rightarrow> (st', map_sum id TokenAnswer res))"
| "twofa_serve env (ChallengeRequest h code) st =
     (case challenge_handler env h code st of (st', res) \<Rightarrow> (st', map_sum id TokenAnswer res))"
| "twofa_serve env (DisableRequest h code) st =
     (case auth_require (tf_auth env) h (tf_st st) of
        (_, a', Inl e) \<Rightarrow> (st\<lparr>tf_st := a'\<rparr>, Inl e)
      | (_, a', Inr (ctx, _)) \<Rightarrow>
          (case disable_handler env ctx code (st\<lparr>tf_st := a'\<rparr>) of (st', res) \<Rightarrow> (st', map_sum id (\<lambda>_. Disabled) res)))"

text \<open>The user a request acts for, when its token is accepted.\<close>

fun request_user :: "twofa_env \<Rightarrow> twofa_request \<Rightarrow> twofa_state \<Rightarrow> uuid option" where
  "request_user env (EnrollRequest h) st =
     (case accept_enroll_or_access (tf_auth env) h (as_redis (tf_st st)) of Inl _ \<Rightarrow> None | Inr (u, ws) \<Rightarrow> Some u)"
| "request_user env (VerifyRequest h code) st =
     (case accept_enroll_or_access (tf_auth env) h (as_redis (tf_st st)) of Inl _ \<Rightarrow> None | Inr (u, ws) \<Rightarrow> Some u)"
| "request_user env (ChallengeRequest h code) st =
     (case accept_challenge (tf_auth env) h of Inl _ \<Rightarrow> None | Inr (u, ws) \<Rightarrow> Some u)"
| "request_user env (DisableRequest h code) st =
     (case auth_require (tf_auth env) h (tf_st st) of (_, _, Inl _) \<Rightarrow> None | (_, _, Inr (ctx, _)) \<Rightarrow> Some (ctx_user_id ctx))"

fun request_code :: "twofa_request \<Rightarrow> string option" where
  "request_code (EnrollRequest h) = None"
| "request_code (VerifyRequest h code) = Some code"
| "request_code (ChallengeRequest h code) = Some code"
| "request_code (DisableRequest h code) = Some code"

text \<open>A run: each request with its environment, the user it acts for and its answer.\<close>

fun twofa_run ::
  "(twofa_env \<times> twofa_request) list \<Rightarrow> twofa_state
     \<Rightarrow> (int \<times> uuid option \<times> (api_error, twofa_answer) result) list" where
  "twofa_run [] st = []"
| "twofa_run ((env, req) # qs) st =
     (case twofa_serve env req st of
        (st', res) \<Rightarrow> (au_now (tf_auth env), request_user env req st, res) # twofa_run qs st')"

section \<open>What a request leaves alone\<close>

definition code_hashes :: "uuid \<Rightarrow> backup_row list \<Rightarrow> string set" where
  "code_hashes u codes = bk_hash ` {c \<in> set codes. bk_user c = u}"

text \<open>A step keeps the user's row, whatever it does to the rows of the others.\<close>

definition keeps_user :: "uuid \<Rightarrow> twofa_state \<Rightarrow> twofa_state \<Rightarrow> bool" where
  "keeps_user u st st' = (user_of_id u (as_sess (tf_st st')) = user_of_id u (as_sess (tf_st st)) \<and>
     code_hashes u (tf_codes st') \<subseteq> code_hashes u (tf_codes st))"

lemma keeps_user_refl [simp]: "keeps_user u st st"
  by (simp add: keeps_user_def)

lemma find_map_same: "(\<And>x. P (f x) = P x) \<Longrightarrow> find P (map f xs) = map_option f (find P xs)"
  by (induction xs) auto

lemma user_of_id_update:
  assumes "\<And>r. us_id (f r) = us_id r"
  shows "user_of_id u (update_user v f db) = (if u = v then map_option f (user_of_id u db) else user_of_id u db)"
proof -
  have "user_of_id u (update_user v f db) = map_option (\<lambda>r. if us_id r = v then f r else r) (user_of_id u db)"
    using assms by (simp add: user_of_id_def update_user_def find_map_same)
  moreover have "us_id r = u" if "user_of_id u db = Some r" for r
    using that by (auto simp: user_of_id_def dest: find_SomeD)
  ultimately show ?thesis by (cases "user_of_id u db") auto
qed

lemma user_of_id_sess [simp]:
  "user_of_id u (db\<lparr>sess_audit := x\<rparr>) = user_of_id u db"
  "user_of_id u (db\<lparr>refresh_tbl := y\<rparr>) = user_of_id u db"
  by (simp_all add: user_of_id_def)

lemma user_of_id_best_effort [simp]:
  "user_of_id u (best_effort (revoke_all_for_user look env v db) db) = user_of_id u db"
  by (auto simp: best_effort_def revoke_all_for_user_def rbind_def split: sum.splits option.splits)

lemma user_of_id_token_pair:
  "build_token_pair_body a dbe v ws r email dev db = Inr (body, db') \<Longrightarrow> user_of_id u db' = user_of_id u db"
  by (auto simp: build_token_pair_body_def rt_insert_def rbind_Inr Let_def)

lemma code_hashes_pairs: "code_hashes u codes = {h. (u, h) \<in> set (map (\<lambda>c. (bk_user c, bk_hash c)) codes)}"
  by (auto simp: code_hashes_def)

lemma code_hashes_mark [simp]: "code_hashes u (mark_used t i codes) = code_hashes u codes"
proof -
  have "map (\<lambda>c. (bk_user c, bk_hash c)) (mark_used t i codes) = map (\<lambda>c. (bk_user c, bk_hash c)) codes"
    by (simp add: mark_used_def)
  then show ?thesis unfolding code_hashes_pairs by (rule arg_cong)
qed

lemma code_hashes_claim: "claim_code env verify k code cs codes = (codes', res) \<Longrightarrow> code_hashes u codes' = code_hashes u codes"
  by (induction env verify k code cs codes rule: claim_code.induct) (auto split: if_splits sum.splits)

lemma code_hashes_consume: "consume_backup_code env verify v code codes = (codes', res) \<Longrightarrow> code_hashes u codes' = code_hashes u codes"
  by (auto simp: consume_backup_code_def dest: code_hashes_claim split: sum.splits)

lemma code_hashes_check: "check_second_factor env v user code codes = (codes', res) \<Longrightarrow> code_hashes u codes' = code_hashes u codes"
  by (auto simp: check_second_factor_def Let_def dest: code_hashes_consume
      split: totp_step_outcome.splits prod.splits sum.splits)

lemma code_hashes_others: "v \<noteq> u \<Longrightarrow> code_hashes u (filter (\<lambda>c. bk_user c \<noteq> v) codes @ backup_rows env v hs) = code_hashes u codes"
  by (force simp: code_hashes_def backup_rows_def)

lemma note_failure_other: "v \<noteq> u \<Longrightarrow> user_of_id u (note_failure env k v db) = user_of_id u db"
  by (auto simp: note_failure_def record_totp_failure_def Let_def rbind_def user_of_id_update split: sum.splits option.splits)

lemma enroll_totp_other:
  "enroll_totp env sh v ct hs actor entry (db, codes) = Inr (db', codes') \<Longrightarrow> v \<noteq> u \<Longrightarrow>
     user_of_id u db' = user_of_id u db \<and> code_hashes u codes' = code_hashes u codes"
  by (auto simp: enroll_totp_def rbind_Inr user_of_id_update code_hashes_others simp del: filter_append)

lemma disable_totp_other:
  "disable_totp env sh v actor entry (db, codes) = Inr (db', codes') \<Longrightarrow> v \<noteq> u \<Longrightarrow>
     user_of_id u db' = user_of_id u db \<and> code_hashes u codes' = code_hashes u codes"
  using code_hashes_others [where u = u and v = v and hs = "[]" and codes = codes]
  by (auto simp: disable_totp_def rbind_Inr user_of_id_update backup_rows_def)

lemma confirm_totp_other:
  "confirm_totp env sh v actor entry db = Inr db' \<Longrightarrow> v \<noteq> u \<Longrightarrow> user_of_id u db' = user_of_id u db"
  by (auto simp: confirm_totp_def rbind_Inr user_of_id_update)

lemma totp_success_other:
  "record_totp_success env sh v step db = Inr db' \<Longrightarrow> v \<noteq> u \<Longrightarrow> user_of_id u db' = user_of_id u db"
  by (auto simp: record_totp_success_def rbind_Inr user_of_id_update)

lemma user_of_id_require: "auth_require a h st = (alerts, st', res) \<Longrightarrow> as_sess st' = as_sess st"
  by (auto simp: auth_require_def split: sum.splits prod.splits if_splits)

lemma write_own_audit_user: "write_own_audit env ws actor entry db = Inr db' \<Longrightarrow> user_of_id u db' = user_of_id u db"
  by (auto simp: write_own_audit_def rbind_Inr)

lemma enroll_stored_Inr:
  assumes "enroll_stored env h st = Inr (user, db', codes')"
  obtains u ws ct hs actor entry where "accept_enroll_or_access (tf_auth env) h (as_redis (tf_st st)) = Inr (u, ws)"
    "user_of_id u (as_sess (tf_st st)) = Some user" "us_totp_confirmed_at user = None"
    "enroll_totp (au_db (tf_auth env) 2) (au_show (tf_auth env)) u ct hs actor entry (as_sess (tf_st st), tf_codes st) = Inr (db', codes')"
  using assms by (auto simp: enroll_stored_def rbind_Inr Let_def known_user_def find_by_id_def)

lemma enroll_keeps:
  assumes "enroll_handler env h st = (st', res)" "request_user env (EnrollRequest h) st \<noteq> Some u"
  shows "keeps_user u st st'"
proof (cases "enroll_stored env h st")
  case (Inr p)
  then show ?thesis using assms
    by (cases p) (auto simp: enroll_handler_def keeps_user_def dest: enroll_totp_other elim!: enroll_stored_Inr)
qed (use assms in \<open>simp add: enroll_handler_def\<close>)

lemma keeps_user_sess [simp]:
  "keeps_user u st (set_sess db st) \<longleftrightarrow> user_of_id u db = user_of_id u (as_sess (tf_st st))"
  by (simp add: keeps_user_def set_sess_def)

lemma verify_confirmed_keeps:
  assumes v: "verify_confirmed env h v ws user step st = (st', res)" and "v \<noteq> u"
  shows "keeps_user u st st'"
proof (cases "rbind (self_actor (au_db (tf_auth env) 1) v ws (us_email user) (as_sess (tf_st st))) (\<lambda>(actor, r).
    rbind (confirm_totp (au_db (tf_auth env) 2) (au_show (tf_auth env)) v actor
      (on_own_account TwoFactorEnabled v (us_email user) r) (as_sess (tf_st st))) (\<lambda>db1. Inr (r, db1)))")
  case (Inl e)
  then show ?thesis using v by (simp add: verify_confirmed_def Let_def)
next
  case (Inr p)
  obtain r db1 where p: "p = (r, db1)" by fastforce
  let ?db2 = "best_effort (revoke_all_for_user (au_db (tf_auth env) 3) (au_db (tf_auth env) 4) v db1) db1"
  have 1: "user_of_id u db1 = user_of_id u (as_sess (tf_st st))"
    using Inr \<open>v \<noteq> u\<close> by (auto simp: p rbind_Inr dest: confirm_totp_other)
  have 2: "user_of_id u db3 = user_of_id u db1"
    if "record_totp_success env' sh v s ?db2 = Inr db3" for env' sh s db3
    using totp_success_other [OF that \<open>v \<noteq> u\<close>] by simp
  show ?thesis
    using v Inr 1 by (auto simp: verify_confirmed_def Let_def p 2 user_of_id_token_pair [where u = u] split: sum.splits)
qed

lemma verify_keeps:
  assumes "verify_handler env h code st = (st', res)" "request_user env (VerifyRequest h code) st \<noteq> Some u"
  shows "keeps_user u st st'"
  using assms unfolding verify_handler_def Let_def
  by (auto simp: rbind_Inr note_failure_other intro: verify_confirmed_keeps split: sum.splits prod.splits)
lemma challenge_verified_keeps:
  assumes c: "challenge_verified env h v ws user timestep verified_with st = (st', res)" and "v \<noteq> u"
  shows "keeps_user u st st'"
proof (cases "record_totp_success (au_db (tf_auth env) 3) (au_show (tf_auth env)) v timestep (as_sess (tf_st st))")
  case (Inr db1)
  have "user_of_id u db1 = user_of_id u (as_sess (tf_st st))" by (rule totp_success_other [OF Inr \<open>v \<noteq> u\<close>])
  then show ?thesis
    using c Inr by (auto simp: challenge_verified_def challenge_audited_def Let_def rbind_Inr
        write_own_audit_user [where u = u] user_of_id_token_pair [where u = u] split: sum.splits prod.splits)
qed (use c in \<open>simp add: challenge_verified_def Let_def\<close>)

lemma keeps_user_codes:
  "check_second_factor env v user code (tf_codes st) = (codes', res) \<Longrightarrow> keeps_user u st (st\<lparr>tf_st := (tf_st st)\<lparr>as_limiter := rl\<rparr>, tf_codes := codes'\<rparr>)"
  "check_second_factor env v user code (tf_codes st) = (codes', res) \<Longrightarrow> keeps_user u st (st\<lparr>tf_codes := codes'\<rparr>)"
  by (simp_all add: keeps_user_def code_hashes_check [where u = u])

lemma keeps_user_limiter [simp]: "keeps_user u st (st\<lparr>tf_st := (tf_st st)\<lparr>as_limiter := rl\<rparr>\<rparr>)"
  by (simp add: keeps_user_def)

lemma keeps_user_trans: "keeps_user u a b \<Longrightarrow> keeps_user u b c \<Longrightarrow> keeps_user u a c"
  by (auto simp: keeps_user_def)

lemma challenge_keeps:
  assumes c: "challenge_handler env h code st = (st', res)" "request_user env (ChallengeRequest h code) st \<noteq> Some u"
  shows "keeps_user u st st'"
proof (cases "challenge_user env h st")
  case (Inr p)
  obtain v ws user where p: "p = (v, ws, user)" by (metis prod_cases3)
  have "v \<noteq> u" using Inr assms(2) by (auto simp: p challenge_user_def rbind_Inr)
  obtain lim rl where l: "limiter_check (au_limit_at (tf_auth env) 0) (''2fa_challenge_ip:'' @ client_ip_key h) (as_limiter (tf_st st)) = (lim, rl)"
    by fastforce
  obtain codes' out where k: "check_second_factor env v user code (tf_codes st) = (codes', out)" by fastforce
  let ?st1 = "st\<lparr>tf_st := (tf_st st)\<lparr>as_limiter := rl\<rparr>, tf_codes := codes'\<rparr>"
  have "keeps_user u ?st1 st' \<or> keeps_user u st st'"
    using c(1) Inr l k \<open>v \<noteq> u\<close>
    by (auto simp: challenge_handler_def p Let_def note_failure_other dest: challenge_verified_keeps split: sum.splits option.splits)
  then show ?thesis using keeps_user_codes(1) [OF k, of u rl] keeps_user_trans by blast
qed (use c in \<open>simp add: challenge_handler_def\<close>)

lemma disable_keeps:
  assumes c: "disable_handler env ctx code st = (st', res)" and "ctx_user_id ctx \<noteq> u"
  shows "keeps_user u st st'"
proof (cases "disable_user env ctx st")
  case (Inr user)
  obtain codes' out where k: "check_second_factor env (ctx_user_id ctx) user code (tf_codes st) = (codes', out)" by fastforce
  let ?st1 = "st\<lparr>tf_codes := codes'\<rparr>"
  have "keeps_user u ?st1 st'"
    using c(1) Inr k \<open>ctx_user_id ctx \<noteq> u\<close>
    by (auto simp: disable_handler_def disable_verified_def Let_def note_failure_other rbind_Inr keeps_user_def set_sess_def
        dest!: disable_totp_other [where u = u] split: sum.splits option.splits)
  then show ?thesis using keeps_user_codes(2) [OF k, of u] keeps_user_trans by blast
qed (use c in \<open>simp add: disable_handler_def\<close>)
lemma serve_keeps:
  assumes "twofa_serve env req st = (st', res)" "request_user env req st \<noteq> Some u"
  shows "keeps_user u st st'"
proof (cases req)
  case (EnrollRequest h)
  then show ?thesis using assms by (auto dest: enroll_keeps split: prod.splits)
next
  case (VerifyRequest h code)
  then show ?thesis using assms by (auto dest: verify_keeps split: prod.splits)
next
  case (ChallengeRequest h code)
  then show ?thesis using assms by (auto dest: challenge_keeps split: prod.splits)
next
  case (DisableRequest h code)
  obtain alerts a' out where r: "auth_require (tf_auth env) h (tf_st st) = (alerts, a', out)" by (metis prod_cases3)
  have k: "keeps_user u st (st\<lparr>tf_st := a'\<rparr>)" using user_of_id_require [OF r] by (simp add: keeps_user_def)
  show ?thesis
    using assms r k DisableRequest
    by (auto dest!: disable_keeps intro: keeps_user_trans split: prod.splits sum.splits)
qed

section \<open>Codes\<close>

lemma scan_steps_Inr:
  "scan_steps t code prev steps = Inr step \<Longrightarrow>
     step \<in> set steps \<and> tp_check t code (step * step_seconds) \<and> (\<forall>l. prev = Some l \<longrightarrow> l < step)"
  by (induction steps) (auto split: if_splits option.splits)

text \<open>An accepted code is the code of one of the three steps around now, later than the last accepted one.\<close>

lemma verify_code_Inr:
  assumes "verify_code env secret code prev now = Inr step"
  shows "\<exists>t. build_totp env secret = Some t \<and> tp_check t code (step * step_seconds) \<and>
    now div step_seconds \<le> step + 1 \<and> step \<le> now div step_seconds + 1 \<and> (\<forall>l. prev = Some l \<longrightarrow> l < step)"
  using assms by (auto simp: verify_code_def rbind_Inr ok_or_def Let_def simp del: scan_steps.simps dest!: scan_steps_Inr split: option.splits)

text \<open>Once the step of a code is recorded, the same code is refused for as long as no later step has the same code.\<close>

lemma recorded_step_is_replayed:
  assumes "record_totp_success dbe sh u (i64_of_step step) db = Inr db'" "int step \<le> i64_max" "user_of_id u db' = Some user"
    and "verify_code env secret code (last_step_of user) now = Inr step'"
  shows "step < step'"
proof -
  have "us_totp_last_timestep user = Some (int step)"
    using assms(1-3) by (auto simp: record_totp_success_def rbind_Inr user_of_id_update i64_of_step_def)
  then show ?thesis using verify_code_Inr [OF assms(4)] by (auto simp: last_step_of_def)
qed

lemma strip_format_backup_code: "CHR ''-'' \<notin> set raw \<Longrightarrow> strip_backup_code_format (format_backup_code raw) = raw"
proof -
  assume "CHR ''-'' \<notin> set raw"
  then have "filter (\<lambda>c. c \<noteq> CHR ''-'') xs = xs" if "set xs \<subseteq> set raw" for xs using that by (auto simp: filter_id_conv)
  then show ?thesis
    using set_take_subset [of _ raw] set_drop_subset [of _ raw]
    by (simp add: strip_backup_code_format_def format_backup_code_def Let_def)
qed

text \<open>The codes handed out are those whose hashes are stored, each with one dash in the middle.\<close>

lemma backup_codes_strip:
  assumes "code \<in> set (generate_backup_codes env)"
  shows "length (strip_backup_code_format code) = backup_code_raw_len \<and>
    set (strip_backup_code_format code) \<subseteq> set backup_code_alphabet"
proof -
  obtain k where k: "code = format_backup_code (random_backup_code_raw (tf_random env k))"
    using assms by (auto simp: generate_backup_codes_def)
  have "length backup_code_alphabet > 0" by (simp add: backup_code_alphabet_def)
  then have set: "set (random_backup_code_raw byte) \<subseteq> set backup_code_alphabet" for byte
    by (auto simp: random_backup_code_raw_def intro!: nth_mem mod_less_divisor)
  then have "CHR ''-'' \<notin> set (random_backup_code_raw byte)" for byte
    by (auto simp: backup_code_alphabet_def)
  then show ?thesis using k set by (simp add: strip_format_backup_code random_backup_code_raw_def)
qed

text \<open>A backup code works once: the row it claims is used from then on, and rows never become unused again.\<close>

definition unused :: "uuid \<Rightarrow> backup_row list \<Rightarrow> uuid set" where
  "unused u codes = bk_id ` {c \<in> set codes. bk_user c = u \<and> bk_used_at c = None}"

lemma unused_mark: "unused u (mark_used t i codes) = unused u codes - {i}"
proof -
  have "c \<in> set (mark_used t i codes) \<and> bk_used_at c = None \<longleftrightarrow> c \<in> set codes \<and> bk_used_at c = None \<and> bk_id c \<noteq> i" for c
    by (auto simp: mark_used_def)
  then show ?thesis unfolding unused_def by blast
qed

lemma claim_code_True:
  "claim_code env verify k code cs codes = (codes', Inr True) \<Longrightarrow>
     \<exists>c \<in> set cs. verify (bk_hash c) code \<and> bk_id c \<notin> unused u codes' \<and> unused u codes' \<subseteq> unused u codes"
proof (induction env verify k code cs codes rule: claim_code.induct)
  case (2 env verify k code c cs codes)
  show ?case
  proof (cases "verify (bk_hash c) code \<and> length (filter (\<lambda>d. bk_id d = bk_id c \<and> bk_used_at d = None) codes) = 1")
    case True
    then show ?thesis using 2(3) by (auto simp: unused_mark split: sum.splits)
  next
    case False
    then show ?thesis using 2 by (auto simp: unused_mark split: if_splits sum.splits)
  qed
qed simp

lemma backup_code_consumed:
  assumes "consume_backup_code env verify u code codes = (codes', Inr True)"
  obtains c where "c \<in> set codes" "bk_user c = u" "bk_used_at c = None" "verify (bk_hash c) code"
    "bk_id c \<in> unused u codes" "bk_id c \<notin> unused u codes'" "unused u codes' \<subseteq> unused u codes"
proof -
  obtain c where c: "c \<in> set (filter (\<lambda>c. bk_user c = u \<and> bk_used_at c = None) codes)" "verify (bk_hash c) code"
      "bk_id c \<notin> unused u codes'" "unused u codes' \<subseteq> unused u codes"
    using assms claim_code_True [of env verify 1 code "filter (\<lambda>c. bk_user c = u \<and> bk_used_at c = None) codes" codes codes' u]
    by (auto simp: consume_backup_code_def split: sum.splits)
  then have "bk_id c \<in> unused u codes" by (auto simp: unused_def)
  with c show ?thesis by (intro that [of c]) auto
qed

text \<open>
  The enrolment routes look at the logged-out tokens only: a revocation watermark changes nothing
  there, so an access token that \<open>auth_require\<close> refuses still reaches them.
\<close>

lemma enrolment_ignores_revocation:
  "accept_enroll_or_access a h (r(session_revocation_key sh u := x)) = accept_enroll_or_access a h r"
proof -
  have "jti_key j \<noteq> session_revocation_key sh u" for j by (simp add: jti_key_def session_revocation_key_def)
  then have "jti_is_blacklisted (au_redis a) 0 j (r(session_revocation_key sh u := x)) = jti_is_blacklisted (au_redis a) 0 j r" for j
    by (simp add: jti_is_blacklisted_def redis_get_def)
  then show ?thesis
    by (simp add: accept_enroll_or_access_def cong: bearer_purpose_decision.case_cong)
qed

section \<open>Guessing is bounded\<close>

text \<open>The database answers, with the gateway's clock.\<close>

definition db_works :: "twofa_env \<Rightarrow> bool" where
  "db_works env = (\<forall>k. now_ts (au_db (tf_auth env) k) = au_now (tf_auth env) \<and> (\<forall>j. stmt_err (au_db (tf_auth env) k) j = None))"

text \<open>A code that neither the TOTP secret nor one of the backup codes accepts.\<close>

definition wrong_code :: "twofa_env \<Rightarrow> string \<Rightarrow> string set \<Rightarrow> string \<Rightarrow> bool" where
  "wrong_code env secret hashes code = ((\<forall>prev. isl (verify_code env secret code prev (now_unix_of (tf_auth env)))) \<and>
     (\<forall>h \<in> hashes. \<not> au_verify (tf_auth env) h (strip_backup_code_format code)))"

text \<open>The user has confirmed the factor, with this secret, these codes, this count of failures and this lock.\<close>

definition enrolled :: "uuid \<Rightarrow> string \<Rightarrow> string set \<Rightarrow> int \<Rightarrow> int option \<Rightarrow> twofa_state \<Rightarrow> bool" where
  "enrolled u ct hashes n lock st = (\<exists>user. user_of_id u (as_sess (tf_st st)) = Some user \<and>
     us_totp_confirmed_at user \<noteq> None \<and> us_totp_secret user = Some ct \<and> us_totp_failed_attempts user = n \<and>
     us_totp_locked_until user = lock \<and> code_hashes u (tf_codes st) \<subseteq> hashes)"

definition secret_readable :: "twofa_env \<Rightarrow> string \<Rightarrow> string \<Rightarrow> bool" where
  "secret_readable env ct secret = (tf_decrypt env ct = Inr secret \<and> valid_utf8 secret)"

text \<open>What a wrong code does to the counter and to the lock.\<close>

definition lock_after :: "int \<Rightarrow> int option \<Rightarrow> int \<Rightarrow> int option" where
  "lock_after n lock now = (if n + 1 \<ge> 5 then Some (now + 900) else lock)"

lemma enrolled_keeps: "enrolled u ct hashes n lock st \<Longrightarrow> keeps_user u st st' \<Longrightarrow> enrolled u ct hashes n lock st'"
  by (auto simp: enrolled_def keeps_user_def)

lemma stmt_works: "db_works env \<Longrightarrow> stmt (au_db (tf_auth env) k) j = Inr ()"
  by (simp add: db_works_def stmt_def)

lemma enrolled_note_failure:
  assumes "enrolled u ct hashes n lock st" "db_works env" "n < i32_max"
  shows "enrolled u ct hashes (n + 1) (lock_after n lock (au_now (tf_auth env))) (set_sess (note_failure env k u (as_sess (tf_st st))) st)"
  using assms by (auto simp: enrolled_def set_sess_def note_failure_def record_totp_failure_def stmt_works user_of_id_update
      lock_after_def db_works_def Let_def)

lemma claim_code_wrong:
  "\<forall>c \<in> set cs. \<not> verify (bk_hash c) code \<Longrightarrow> claim_code env verify k code cs codes = (codes, Inr False)"
  by (induction cs arbitrary: k) auto

lemma check_wrong_code:
  assumes "wrong_code env secret hashes code" "secret_readable env ct secret" "us_totp_secret user = Some ct"
    "code_hashes u codes \<subseteq> hashes" "db_works env"
  shows "check_second_factor env u user code codes = (codes, Inr None)"
proof -
  have "verify_totp_step env user code (now_unix_of (tf_auth env)) = NoMatch"
    using assms(1-3) by (auto simp: verify_totp_step_def secret_readable_def wrong_code_def split: sum.splits) (metis isl_def sum.disc(2))
  moreover have "claim_code e (au_verify (tf_auth env)) k (strip_backup_code_format code)
      (filter (\<lambda>c. bk_user c = u \<and> bk_used_at c = None) codes) codes = (codes, Inr False)" for e k
    using assms(1,4) by (intro claim_code_wrong) (auto simp: wrong_code_def code_hashes_def)
  ultimately show ?thesis
    using assms(5) by (simp add: check_second_factor_def consume_backup_code_def stmt_works Let_def)
qed
text \<open>
  One request of a user whose codes are all wrong either changes nothing and is not answered with
  401, or it is answered with 401 outside the lock, and is counted.
\<close>

definition guess_step :: "uuid \<Rightarrow> string \<Rightarrow> string set \<Rightarrow> int \<Rightarrow> int option \<Rightarrow> int \<Rightarrow> twofa_state
    \<Rightarrow> (api_error, twofa_answer) result \<Rightarrow> bool" where
  "guess_step u ct hashes n lock now st' res =
     (enrolled u ct hashes n lock st' \<and> res \<noteq> Inl invalid_credentials \<or>
      enrolled u ct hashes (n + 1) (lock_after n lock now) st' \<and> (\<forall>l. lock = Some l \<longrightarrow> l \<le> now))"

lemma known_user_works: "db_works env \<Longrightarrow> known_user (au_db (tf_auth env) k) u db = ok_or (user_of_id u db) invalid_credentials"
  by (simp add: known_user_def find_by_id_def stmt_works)

lemma check_unlocked_cases:
  "check_unlocked env user = Inr () \<and> (\<forall>l. us_totp_locked_until user = Some l \<longrightarrow> l \<le> au_now (tf_auth env)) \<or>
   (\<exists>m. check_unlocked env user = Inl (TooManyRequests m))"
  by (auto simp: check_unlocked_def guard_err_def split: option.splits)

lemma guess_step_enroll:
  assumes "enrolled u ct hashes n lock st" "db_works env" "twofa_serve env (EnrollRequest h) st = (st', res)"
    "request_user env (EnrollRequest h) st = Some u"
  shows "guess_step u ct hashes n lock (au_now (tf_auth env)) st' res"
  using assms by (auto simp: enrolled_def guess_step_def enroll_handler_def enroll_stored_def Let_def known_user_works
      invalid_credentials_def ok_or_def guard_err_def rbind_def split: prod.splits sum.splits)

lemma guess_step_verify:
  assumes e: "enrolled u ct hashes n lock st" and w: "db_works env" and "n < i32_max"
    and s: "twofa_serve env (VerifyRequest h code) st = (st', res)" "request_user env (VerifyRequest h code) st = Some u"
    and c: "secret_readable env ct secret" "wrong_code env secret hashes code"
  shows "guess_step u ct hashes n lock (au_now (tf_auth env)) st' res"
proof -
  obtain user where u: "user_of_id u (as_sess (tf_st st)) = Some user" "us_totp_secret user = Some ct" "us_totp_locked_until user = lock"
    using e by (auto simp: enrolled_def)
  obtain x where x: "verify_code env secret code (last_step_of user) (now_unix_of (tf_auth env)) = Inl x"
    using c(2) by (auto simp: wrong_code_def isl_def)
  obtain ws where a: "accept_enroll_or_access (tf_auth env) h (as_redis (tf_st st)) = Inr (u, ws)"
    using s(2) by (auto split: sum.splits)
  show ?thesis
    using check_unlocked_cases [of env user] enrolled_note_failure [OF e w \<open>n < i32_max\<close>, of 1] s(1) c(1) u x a w e
    by (auto simp: guess_step_def verify_handler_def Let_def known_user_works secret_readable_def ok_or_def invalid_credentials_def
        map_err_def guard_err_def split: prod.splits)
qed

lemma guess_step_challenge:
  assumes e: "enrolled u ct hashes n lock st" and w: "db_works env" and "n < i32_max"
    and s: "twofa_serve env (ChallengeRequest h code) st = (st', res)" "request_user env (ChallengeRequest h code) st = Some u"
    and c: "secret_readable env ct secret" "wrong_code env secret hashes code"
  shows "guess_step u ct hashes n lock (au_now (tf_auth env)) st' res"
proof -
  obtain user where u: "user_of_id u (as_sess (tf_st st)) = Some user" "us_totp_secret user = Some ct" "us_totp_locked_until user = lock"
      "code_hashes u (tf_codes st) \<subseteq> hashes"
    using e by (auto simp: enrolled_def)
  obtain ws where a: "accept_challenge (tf_auth env) h = Inr (u, ws)" using s(2) by (auto split: sum.splits)
  have k: "check_second_factor env u user code (tf_codes st) = (tf_codes st, Inr None)"
    using check_wrong_code [OF c(2,1) u(2,4) w] .
  have e': "enrolled u ct hashes n lock (st\<lparr>tf_st := (tf_st st)\<lparr>as_limiter := rl\<rparr>\<rparr>)" for rl
    using e by (auto simp: enrolled_def)
  show ?thesis
    using check_unlocked_cases [of env user] enrolled_note_failure [OF e' w \<open>n < i32_max\<close>, where k = 2] s(1) u a k w e e'
    by (auto simp: guess_step_def challenge_handler_def challenge_user_def Let_def known_user_works ok_or_def invalid_credentials_def
        split: prod.splits sum.splits)
qed

lemma guess_step_disable:
  assumes e: "enrolled u ct hashes n lock st" and w: "db_works env" and "n < i32_max"
    and s: "twofa_serve env (DisableRequest h code) st = (st', res)" "request_user env (DisableRequest h code) st = Some u"
    and c: "secret_readable env ct secret" "wrong_code env secret hashes code"
  shows "guess_step u ct hashes n lock (au_now (tf_auth env)) st' res"
proof -
  obtain alerts a' ctx out where r: "auth_require (tf_auth env) h (tf_st st) = (alerts, a', Inr (ctx, out))" "ctx_user_id ctx = u"
    using s(2) by (auto split: prod.splits sum.splits)
  let ?st = "st\<lparr>tf_st := a'\<rparr>"
  have e': "enrolled u ct hashes n lock ?st" using e user_of_id_require [OF r(1)] by (auto simp: enrolled_def)
  then obtain user where u: "user_of_id u (as_sess a') = Some user" "us_totp_secret user = Some ct" "us_totp_locked_until user = lock"
      "code_hashes u (tf_codes st) \<subseteq> hashes" "us_totp_confirmed_at user \<noteq> None"
    by (auto simp: enrolled_def)
  have k: "check_second_factor env u user code (tf_codes st) = (tf_codes st, Inr None)"
    using check_wrong_code [OF c(2,1) u(2,4) w] .
  have "disable_user env ctx ?st = (if check_unlocked env user = Inr () then Inr user else rbind (check_unlocked env user) (\<lambda>_. Inr user))"
    using u r(2) w by (auto simp: disable_user_def known_user_works ok_or_def guard_err_def)
  then show ?thesis
    using check_unlocked_cases [of env user] enrolled_note_failure [OF e' w \<open>n < i32_max\<close>, where k = 2] s(1) r u k e'
    by (auto simp: guess_step_def disable_handler_def invalid_credentials_def)
qed

lemma guess_step_serve:
  assumes "enrolled u ct hashes n lock st" "db_works env" "n < i32_max" "twofa_serve env req st = (st', res)"
    "request_user env req st = Some u" "secret_readable env ct secret"
    "\<And>code. request_code req = Some code \<Longrightarrow> wrong_code env secret hashes code"
  shows "guess_step u ct hashes n lock (au_now (tf_auth env)) st' res"
  using assms by (cases req) (simp_all del: twofa_serve.simps request_user.simps add: guess_step_enroll guess_step_verify
      guess_step_challenge guess_step_disable)

definition guesses_in :: "uuid \<Rightarrow> int \<Rightarrow> (int \<times> uuid option \<times> (api_error, twofa_answer) result) list \<Rightarrow> nat" where
  "guesses_in u s tr = length (filter (\<lambda>(t, who, res). who = Some u \<and> res = Inl invalid_credentials \<and> s \<le> t \<and> t < s + 900) tr)"

text \<open>The requests of the user carry wrong codes only; what the other users send is arbitrary.\<close>

definition guessing :: "uuid \<Rightarrow> string \<Rightarrow> string \<Rightarrow> string set \<Rightarrow> twofa_env \<times> twofa_request \<Rightarrow> bool" where
  "guessing u ct secret hashes q = (db_works (fst q) \<and> secret_readable (fst q) ct secret \<and>
     (\<forall>st code. request_user (fst q) (snd q) st = Some u \<and> request_code (snd q) = Some code \<longrightarrow>
        wrong_code (fst q) secret hashes code))"

lemma guess_step_guessing:
  assumes "enrolled u ct hashes n lock st" "n < i32_max" "twofa_serve env req st = (st', res)" "request_user env req st = Some u"
    "guessing u ct secret hashes (env, req)"
  shows "guess_step u ct hashes n lock (au_now (tf_auth env)) st' res"
  using assms by (intro guess_step_serve [where secret = secret]) (auto simp: guessing_def)

lemma locked_no_guesses:
  assumes "enrolled u ct hashes n (Some l) st" "\<forall>q \<in> set qs. guessing u ct secret hashes q"
    "n + int (length qs) \<le> i32_max" "s + 900 \<le> l"
  shows "guesses_in u s (twofa_run qs st) = 0"
  using assms
proof (induction qs arbitrary: st n l)
  case Nil
  then show ?case by (simp add: guesses_in_def)
next
  case (Cons q qs)
  obtain env req st' res where q: "q = (env, req)" and s: "twofa_serve env req st = (st', res)" by (metis prod.exhaust)
  have g: "guessing u ct secret hashes (env, req)" and n: "n < i32_max" using Cons.prems q by auto
  show ?case
  proof (cases "request_user env req st = Some u")
    case True
    have "guess_step u ct hashes n (Some l) (au_now (tf_auth env)) st' res"
      by (rule guess_step_guessing [OF Cons.prems(1) n s True g])
    then consider "enrolled u ct hashes n (Some l) st'" "res \<noteq> Inl invalid_credentials"
      | l' where "enrolled u ct hashes (n + 1) (Some l') st'" "s + 900 \<le> l'" "s + 900 \<le> au_now (tf_auth env)"
      using Cons.prems(4) by (auto simp: guess_step_def lock_after_def split: if_splits)
    then show ?thesis
    proof cases
      case 1
      then show ?thesis using Cons.IH [OF 1(1)] Cons.prems q s by (simp add: guesses_in_def)
    next
      case (2 l')
      then show ?thesis using Cons.IH [OF 2(1) _ _ 2(2)] Cons.prems q s by (simp add: guesses_in_def)
    qed
  next
    case False
    have "enrolled u ct hashes n (Some l) st'" by (rule enrolled_keeps [OF Cons.prems(1) serve_keeps [OF s False]])
    then show ?thesis using Cons.IH [of n l st'] Cons.prems q s False by (simp add: guesses_in_def)
  qed
qed
text \<open>
  C35. Guessing the second factor one request after the other is slow. For a user with a confirmed
  enrolment, while the database answers and the secret can be decrypted: whatever requests of all users are
  served, one at a time, by the enrolment, verification, challenge and disable routes in whatever order, if
  every code sent in the name of the user is wrong, then at most five of them are tested and answered with
  401 in any 15 minutes, and every other one is refused without looking at the code. The counter starts at
  any value and stays below its 32-bit bound. Handlers that run at the same time are not covered: the lock is
  read and written in separate statements (\<open>db/user_repo.rs\<close>), so concurrent guesses can escape it.
\<close>

theorem second_factor_guesses_bounded:
  assumes "enrolled u ct hashes n lock st" "0 \<le> n" "\<forall>q \<in> set qs. guessing u ct secret hashes q"
    "n + int (length qs) \<le> i32_max"
  shows "guesses_in u s (twofa_run qs st) \<le> 5"
proof -
  have "guesses_in u s (twofa_run qs st) \<le> nat (max 1 (5 - n))"
    using assms
  proof (induction qs arbitrary: st n lock)
    case Nil
    then show ?case by (simp add: guesses_in_def)
  next
    case (Cons q qs)
    obtain env req st' res where q: "q = (env, req)" and s: "twofa_serve env req st = (st', res)" by (metis prod.exhaust)
    have g: "guessing u ct secret hashes (env, req)" and n: "n < i32_max" using Cons.prems q by auto
    show ?case
    proof (cases "request_user env req st = Some u")
      case True
      consider "enrolled u ct hashes n lock st'" "res \<noteq> Inl invalid_credentials"
        | "enrolled u ct hashes (n + 1) (lock_after n lock (au_now (tf_auth env))) st'"
        using guess_step_guessing [OF Cons.prems(1) n s True g] by (auto simp: guess_step_def)
      then show ?thesis
      proof cases
        case 1
        then show ?thesis using Cons.IH [OF 1(1)] Cons.prems q s by (simp add: guesses_in_def)
      next
        case 2
        have IH: "guesses_in u s (twofa_run qs st') \<le> nat (max 1 (5 - (n + 1)))"
          using Cons.IH [OF 2] Cons.prems by simp
        have "guesses_in u s (twofa_run qs st') = 0" if "n \<ge> 4" "s \<le> au_now (tf_auth env)"
          using locked_no_guesses [of u ct hashes "n + 1" "au_now (tf_auth env) + 900" st' qs secret s] 2 that Cons.prems
          by (simp add: lock_after_def)
        then show ?thesis using IH q s by (cases "n \<ge> 4") (auto simp: guesses_in_def max_def)
      qed
    next
      case False
      have "enrolled u ct hashes n lock st'" by (rule enrolled_keeps [OF Cons.prems(1) serve_keeps [OF s False]])
      then show ?thesis using Cons.IH [of n lock st'] Cons.prems q s False by (simp add: guesses_in_def)
    qed
  qed
  then show ?thesis using \<open>0 \<le> n\<close> by (simp add: max_def split: if_splits)
qed
definition tf_demo_check :: "string \<Rightarrow> nat \<Rightarrow> bool" where
  "tf_demo_check code s = (code = replicate (s div 30) (CHR ''x''))"

definition tf_demo_decode :: "string \<Rightarrow> claims option" where
  "tf_demo_decode tok = Some (auth_demo_claims\<lparr>cl_purpose := (if tok = ''c'' then Some ''2fa_challenge'' else None)\<rparr>)"

definition tf_demo_env :: "int \<Rightarrow> twofa_env" where
  "tf_demo_env t = \<lparr>tf_auth = (auth_demo_env t)\<lparr>au_decode := tf_demo_decode\<rparr>,
     tf_totp_new = (\<lambda>s i a. Some \<lparr>tp_check = tf_demo_check, tp_url = ''otpauth''\<rparr>), tf_new_secret = ''S'',
     tf_encrypt = Inr, tf_decrypt = Inr, tf_random = (\<lambda>k i. k + i), tf_hash = (\<lambda>k. Inr), tf_rfc3339 = (\<lambda>t. [])\<rparr>"

definition tf_demo_state :: twofa_state where
  "tf_demo_state = \<lparr>tf_st = auth_demo_state\<lparr>as_sess := session_demo_db\<lparr>users_tbl :=
       [(auth_demo_user 2 ''viewer'')\<lparr>us_totp_secret := Some ''S'', us_totp_confirmed_at := Some 1\<rparr>]\<rparr>\<rparr>,
     tf_codes = [\<lparr>bk_id = 7, bk_user = 2, bk_hash = ''ABC'', bk_used_at = None, bk_created_at = 1\<rparr>]\<rparr>"

definition tf_demo_headers :: headers where
  "tf_demo_headers name = (if name = ''authorization'' then Some (Some ''Bearer c'') else None)"

lemma tf_demo_wrong: "wrong_code (tf_demo_env t) secret {''ABC''} ''no''"
proof -
  have "\<not> tf_demo_check ''no'' s" for s
    by (cases "s div 30") (auto simp: tf_demo_check_def)
  then show ?thesis
    by (simp add: wrong_code_def verify_code_def build_totp_def tf_demo_env_def ok_or_def Let_def
        strip_backup_code_format_def auth_demo_env_def)
qed

lemma tf_demo_utf8: "valid_utf8 ''S''"
  by code_simp

lemma tf_demo_refused: "snd (twofa_serve (tf_demo_env 90) (VerifyRequest auth_demo_headers ''no'') tf_demo_state) = Inl invalid_credentials"
  by code_simp

theorem second_factor_guesses_bounded_witness:
  "snd (twofa_serve (tf_demo_env 90) (VerifyRequest auth_demo_headers ''no'') tf_demo_state) = Inl invalid_credentials \<and>
   guesses_in 2 0 (twofa_run (replicate 70 (tf_demo_env 90, VerifyRequest auth_demo_headers ''no'')) tf_demo_state) \<le> 5"
proof
  show "snd (twofa_serve (tf_demo_env 90) (VerifyRequest auth_demo_headers ''no'') tf_demo_state) = Inl invalid_credentials"
    by (rule tf_demo_refused)
  have "enrolled 2 ''S'' {''ABC''} 0 None tf_demo_state"
    by (simp add: enrolled_def tf_demo_state_def auth_demo_state_def auth_demo_user_def user_of_id_def code_hashes_def) auto
  moreover have "guessing 2 ''S'' ''S'' {''ABC''} (tf_demo_env 90, VerifyRequest auth_demo_headers ''no'')"
    by (simp add: guessing_def tf_demo_wrong secret_readable_def db_works_def tf_demo_utf8 del: valid_utf8.simps) (simp add: tf_demo_env_def auth_demo_env_def session_demo_env_def tf_demo_utf8 del: valid_utf8.simps)
  ultimately show "guesses_in 2 0 (twofa_run (replicate 70 (tf_demo_env 90, VerifyRequest auth_demo_headers ''no'')) tf_demo_state) \<le> 5"
    by (intro second_factor_guesses_bounded [where n = 0]) (auto simp: i32_max_def)
qed
text \<open>
  A backup code records the current step, also when the code of the next step has been accepted
  already: that code is then accepted a second time.
\<close>

lemma backup_code_reopens_accepted_step:
  assumes "check_second_factor env u user backup codes = (codes', Inr (Some (timestep, ''backup_code'')))"
    and "record_totp_success dbe sh u timestep db = Inr db'" "user_of_id u db' = Some user'"
    and "now = now_unix_of (tf_auth env)" "k = now div step_seconds" "int k \<le> i64_max" "build_totp env secret = Some t"
    and "tp_check t code ((k + 1) * step_seconds)" "\<not> tp_check t code (k * step_seconds)" "\<not> tp_check t code ((k - 1) * step_seconds)"
  shows "verify_code env secret code (last_step_of user') now = Inr (k + 1)"
proof -
  have "timestep = int k"
    using assms(1,4,5,6) by (auto simp: check_second_factor_def Let_def i64_of_step_def step_seconds_def
        split: totp_step_outcome.splits prod.splits sum.splits if_splits)
  then have "last_step_of user' = Some k"
    using assms(2,3) by (auto simp: record_totp_success_def rbind_Inr user_of_id_update last_step_of_def)
  then show ?thesis using assms(5,7-) by (simp add: verify_code_def ok_or_def Let_def)
qed

section \<open>The routes and the sessions\<close>

text \<open>The routes of the second factor leave the revocation trail and its keys alone: each is a step of the session machine.\<close>

lemma db_evolves_token_pair: "build_token_pair_body a dbe u ws r email dev db = Inr (body, db') \<Longrightarrow> db_evolves db db'"
  by (auto simp: build_token_pair_body_def rbind_Inr intro: db_evolves_rt_insert)

lemma db_evolves_update [simp]: "db_evolves db (update_user u f db)" "db_evolves db ((update_user u f db)\<lparr>sess_audit := tbl\<rparr>)"
  by (simp_all add: update_user_def db_evolves_same)

lemma db_evolves_totp:
  "enroll_totp env sh u ct hs actor entry (db, codes) = Inr (db', codes') \<Longrightarrow> db_evolves db db'"
  "confirm_totp env sh u actor entry db = Inr db' \<Longrightarrow> db_evolves db db'"
  "disable_totp env sh u actor entry (db, codes) = Inr (db', codes') \<Longrightarrow> db_evolves db db'"
  "record_totp_success env sh u step db = Inr db' \<Longrightarrow> db_evolves db db'"
  "write_own_audit env ws actor entry db = Inr db' \<Longrightarrow> db_evolves db db'"
  by (auto simp: enroll_totp_def confirm_totp_def disable_totp_def record_totp_success_def write_own_audit_def rbind_Inr
      intro: db_evolves_same)

lemma db_evolves_note_failure [simp]: "db_evolves db (note_failure env k u db)"
  by (auto simp: note_failure_def record_totp_failure_def rbind_def Let_def split: sum.splits option.splits)

lemma quiet_refl [simp]: "quiet sh st st"
  by (simp add: quiet_def)

lemma quiet_sess: "quiet sh (tf_st st) (tf_st (set_sess db st)) \<longleftrightarrow> db_evolves (as_sess (tf_st st)) db"
  by (simp add: quiet_def set_sess_def)

lemma quiet_verify_confirmed: "verify_confirmed env h u ws user step st = (st', res) \<Longrightarrow> quiet sh (tf_st st) (tf_st st')"
  unfolding verify_confirmed_def Let_def
  by (auto simp: quiet_sess rbind_Inr split: sum.splits
      dest!: db_evolves_totp(2,4) db_evolves_token_pair)
    (meson db_evolves_trans db_evolves_best_effort)+

lemma quiet_challenge_verified:
  "challenge_verified env h u ws user timestep verified_with st = (st', res) \<Longrightarrow> quiet sh (tf_st st) (tf_st st')"
  unfolding challenge_verified_def challenge_audited_def Let_def
  by (auto simp: quiet_sess rbind_Inr split: sum.splits
      dest!: db_evolves_totp(4,5) db_evolves_token_pair)
    (meson db_evolves_trans)+

lemma quiet_disable_verified:
  "disable_verified env ctx user verified_with st = (st', res) \<Longrightarrow> quiet sh (tf_st st) (tf_st st')"
  unfolding disable_verified_def Let_def
  by (auto simp: quiet_def set_sess_def rbind_Inr split: sum.splits prod.splits dest!: db_evolves_totp(3)
      intro: db_evolves_trans [OF _ db_evolves_best_effort])

lemma quiet_cong: "as_sess a = as_sess b \<Longrightarrow> as_redis a = as_redis b \<Longrightarrow> quiet sh a c \<longleftrightarrow> quiet sh b c"
  by (simp add: quiet_def)

lemma quiet_enroll: "enroll_handler env h st = (st', res) \<Longrightarrow> quiet sh (tf_st st) (tf_st st')"
  by (cases "enroll_stored env h st")
    (auto simp: enroll_handler_def quiet_def dest: db_evolves_totp(1) elim!: enroll_stored_Inr)

lemma quiet_verify: "verify_handler env h code st = (st', res) \<Longrightarrow> quiet sh (tf_st st) (tf_st st')"
  unfolding verify_handler_def Let_def
  by (auto simp: quiet_sess dest: quiet_verify_confirmed split: sum.splits prod.splits)

lemma quiet_challenge: "challenge_handler env h code st = (st', res) \<Longrightarrow> quiet sh (tf_st st) (tf_st st')"
  unfolding challenge_handler_def Let_def
  by (auto simp: quiet_def set_sess_def dest!: quiet_challenge_verified [where sh = sh] split: sum.splits prod.splits option.splits)

lemma quiet_disable: "disable_handler env ctx code st = (st', res) \<Longrightarrow> quiet sh (tf_st st) (tf_st st')"
  unfolding disable_handler_def Let_def
  by (auto simp: quiet_def set_sess_def dest!: quiet_disable_verified [where sh = sh] split: sum.splits prod.splits option.splits)

lemma quiet_trans: "quiet sh a b \<Longrightarrow> quiet sh b c \<Longrightarrow> quiet sh a c"
  by (auto simp: quiet_def intro: db_evolves_trans)

lemma twofa_serve_quiet:
  assumes "twofa_serve env req st = (st', res)"
  shows "quiet sh (tf_st st) (tf_st st')"
proof (cases req)
  case (DisableRequest h code)
  obtain alerts a' out where r: "auth_require (tf_auth env) h (tf_st st) = (alerts, a', out)" by (metis prod_cases3)
  have "quiet sh a' (tf_st st')"
    using assms r DisableRequest by (auto dest!: quiet_disable [where sh = sh] split: prod.splits sum.splits)
  then show ?thesis using quiet_require [OF r] quiet_trans by blast
qed (use assms in \<open>auto dest: quiet_enroll quiet_verify quiet_challenge split: prod.splits\<close>)

corollary twofa_serve_session_step: "t \<le> t' \<Longrightarrow> twofa_serve env req st = (st', res) \<Longrightarrow> auth_step ttl sh (t, tf_st st) (t', tf_st st')"
  by (intro auth_step.elsewhere twofa_serve_quiet)
end
