(* ===== verification/License.thy ===== *)
theory License
  imports Sidecar Url_Guard
begin

text \<open>
  Licensing: the snapshot of a verified token and the in-memory state (\<open>license/mod.rs\<close>), the offline
  overlay (\<open>license/freshness.rs\<close>, \<open>freshness_store.rs\<close>), the revocation poller
  (\<open>license/revocation.rs\<close>), the request gate (\<open>http/middleware/license_gate.rs\<close>), the recovery route
  (\<open>http/routes/license.rs\<close>, \<open>db/license_repo.rs\<close>), the attestation bundle (\<open>license/attestation.rs\<close>) and
  the license part of \<open>main.rs\<close>: the boot and the periodic re-verification.

  The \<open>sp_license\<close> crate is not part of the repository: signatures, token decoding, time parsing and
  key unwrapping are parameters, and the records \<open>license\<close> and \<open>freshness_assertion\<close> have the fields
  the gateway reads. Locks and atomics are taken as sequentially consistent steps, except that the
  compare-and-swap loop \<open>bump_max\<close> is modelled against interference.
\<close>

section \<open>Tokens and snapshots\<close>

record license =
  li_lic_id :: string
  li_customer_name :: string
  li_not_before :: string
  li_expires_at :: string
  li_seats :: nat
  li_features :: "string list"
  li_soft :: "64 word option"
  li_hard :: "64 word option"
  li_wrapped_key :: string
  li_wrapped_attestation_key :: string
  li_image_digests :: "(string \<times> string) list"

record freshness_assertion =
  fa_status :: string
  fa_issued_at :: string

datatype license_status = LicValid | LicGrace | LicUnlicensed | LicRevoked

record license_snapshot =
  sn_status :: license_status
  sn_max_seats :: "nat option"
  sn_features :: "string list"
  sn_customer_name :: "string option"
  sn_expires_at :: "string option"
  sn_wrapped_model_key :: "string option"
  sn_lic_id :: "string option"
  sn_wrapped_attestation_key :: "string option"
  sn_image_digests :: "(string \<times> string) list"
  sn_soft :: "int option"
  sn_hard :: "int option"
  sn_not_before :: "int option"

definition unlicensed :: license_snapshot where
  "unlicensed = \<lparr>sn_status = LicUnlicensed, sn_max_seats = None, sn_features = [], sn_customer_name = None,
     sn_expires_at = None, sn_wrapped_model_key = None, sn_lic_id = None, sn_wrapped_attestation_key = None,
     sn_image_digests = [], sn_soft = None, sn_hard = None, sn_not_before = None\<rparr>"

text \<open>
  What the outside world answers: the clock, the \<open>k\<close>-th database call, the email of the acting user,
  the vendor key pinned at build time, and the libraries.
\<close>

record license_env =
  le_now :: int
  le_db :: "nat \<Rightarrow> db_env"
  le_actor_email :: "string option"
  le_pinned_key :: "string option"
  le_pubkey_b64 :: string
  le_env_token :: string
  le_internal_token :: string
  le_server_url :: string
  le_base64 :: "string \<Rightarrow> string option"
  le_key_ok :: "string \<Rightarrow> bool"
  le_decode :: "string \<Rightarrow> string \<Rightarrow> license option"
  le_rfc3339 :: "string \<Rightarrow> int option"
  le_chrono :: "string \<Rightarrow> int option"
  le_uuid :: "string \<Rightarrow> uuid option"
  le_http :: "string \<Rightarrow> (string, bool \<times> json option) result"
  le_assertion :: "json \<Rightarrow> freshness_assertion option"
  le_verify :: "string \<Rightarrow> freshness_assertion \<Rightarrow> string \<Rightarrow> bool"
  le_unwrap :: "string \<Rightarrow> string \<Rightarrow> string \<Rightarrow> string option"

definition snapshot_from :: "(string \<Rightarrow> int option) \<Rightarrow> license \<Rightarrow> license_status \<Rightarrow> license_snapshot" where
  "snapshot_from parse_rfc3339 lic status =
     (let valid = (status = LicValid) in
      \<lparr>sn_status = status, sn_max_seats = Some (li_seats lic), sn_features = li_features lic,
       sn_customer_name = Some (li_customer_name lic), sn_expires_at = Some (li_expires_at lic),
       sn_wrapped_model_key = (if valid then Some (li_wrapped_key lic) else None),
       sn_lic_id = (if valid then Some (li_lic_id lic) else None),
       sn_wrapped_attestation_key = (if valid then Some (li_wrapped_attestation_key lic) else None),
       sn_image_digests = (if valid then li_image_digests lic else []),
       sn_soft = map_option sint (li_soft lic), sn_hard = map_option sint (li_hard lic),
       sn_not_before = parse_rfc3339 (li_not_before lic)\<rparr>)"

definition parse_vendor_key :: "license_env \<Rightarrow> string \<Rightarrow> string option" where
  "parse_vendor_key env b64 = Option.bind (le_base64 env (trim b64)) (\<lambda>bytes.
     if length bytes = 32 \<and> le_key_ok env bytes then Some bytes else None)"

definition parse_kek :: "license_env \<Rightarrow> string \<Rightarrow> string option" where
  "parse_kek env b64 = Option.bind (le_base64 env (trim b64)) (\<lambda>bytes. if length bytes = 32 then Some bytes else None)"

definition effective_vendor_pubkey :: "license_env \<Rightarrow> string" where
  "effective_vendor_pubkey env = unwrap_or (le_pubkey_b64 env) (le_pinned_key env)"

definition load_and_verify_token :: "license_env \<Rightarrow> string \<Rightarrow> string \<Rightarrow> license_snapshot" where
  "load_and_verify_token env token vk =
     (let trimmed = trim token in
      if trimmed = [] then unlicensed
      else case le_decode env trimmed vk of
        None \<Rightarrow> unlicensed
      | Some lic \<Rightarrow>
          (case (le_rfc3339 env (li_not_before lic), le_rfc3339 env (li_expires_at lic)) of
             (Some nb, Some ex) \<Rightarrow>
               snapshot_from (le_rfc3339 env) lic (if nb \<le> le_now env \<and> le_now env \<le> ex then LicValid else LicGrace)
           | _ \<Rightarrow> unlicensed))"

definition tamper_check :: "(string \<times> string) list \<Rightarrow> string \<Rightarrow> string \<Rightarrow> string option" where
  "tamper_check pins component actual_digest =
     (if actual_digest = [] then None
      else case map_of pins component of
        Some expected \<Rightarrow>
          if expected \<noteq> [] \<and> expected \<noteq> actual_digest
          then Some (''image digest mismatch for '' @ component @ '': licensed '' @ expected @ '', running '' @ actual_digest)
          else None
      | None \<Rightarrow> None)"

section \<open>The offline overlay\<close>

datatype offline_verdict = Fresh | SoftStale | HardStale

definition classify_offline :: "int \<Rightarrow> int \<Rightarrow> int \<Rightarrow> int \<Rightarrow> int option \<Rightarrow> int option \<Rightarrow> offline_verdict" where
  "classify_offline now highwater last_assertion_at not_before soft hard =
     (case (soft, hard) of
        (Some s, Some h) \<Rightarrow>
          let perceived_now = max now highwater;
              last_good = max last_assertion_at not_before;
              offline = max (perceived_now - last_good) 0
          in if offline > h then HardStale else if offline > s then SoftStale else Fresh
      | _ \<Rightarrow> Fresh)"

text \<open>
  The lock-free maximum. \<open>cell k\<close> is what the atomic holds at this thread's \<open>k\<close>-th access, as the other
  threads left it; a failed compare-and-swap reads it. The answer is the number of accesses and the
  value of the atomic after the last one. Nothing in the loop itself bounds the number of retries.
\<close>

partial_function (option) bump_loop :: "int \<Rightarrow> (nat \<Rightarrow> int) \<Rightarrow> nat \<Rightarrow> int \<Rightarrow> (nat \<times> int) option" where
  "bump_loop v cell k cur =
     (if v \<le> cur then Some (k, cur)
      else if cell k = cur then Some (Suc k, v)
      else bump_loop v cell (Suc k) (cell k))"

declare bump_loop.simps [code]

definition bump_max :: "int \<Rightarrow> (nat \<Rightarrow> int) \<Rightarrow> (nat \<times> int) option" where
  "bump_max v cell = bump_loop v cell 1 (cell 0)"

text \<open>Without interference, the update the sequential steps below use.\<close>

definition bumped :: "int \<Rightarrow> int \<Rightarrow> int" where
  "bumped v c = (case bump_max v (\<lambda>_. c) of Some (_, x) \<Rightarrow> x | None \<Rightarrow> c)"

section \<open>The license state\<close>

record license_state =
  ls_snapshot :: license_snapshot
  ls_revoked :: bool
  ls_revoked_lic :: "string option"
  ls_last_assertion :: int
  ls_highwater :: int

definition license_state_new :: "license_snapshot \<Rightarrow> license_state" where
  "license_state_new s = \<lparr>ls_snapshot = s, ls_revoked = False, ls_revoked_lic = None, ls_last_assertion = 0, ls_highwater = 0\<rparr>"

definition mark_revoked :: "string \<Rightarrow> license_state \<Rightarrow> license_state" where
  "mark_revoked lic_id ls = ls\<lparr>ls_revoked_lic := Some lic_id, ls_revoked := True\<rparr>"

definition clear_revocation_if_superseded :: "string \<Rightarrow> license_state \<Rightarrow> bool \<times> license_state" where
  "clear_revocation_if_superseded new_lic_id ls =
     (if \<not> ls_revoked ls then (False, ls)
      else case ls_revoked_lic ls of
        None \<Rightarrow> (False, ls)
      | Some revoked \<Rightarrow>
          if revoked = new_lic_id then (False, ls) else (True, ls\<lparr>ls_revoked_lic := None, ls_revoked := False\<rparr>))"

definition observe_freshness :: "int \<Rightarrow> int \<Rightarrow> license_state \<Rightarrow> license_state" where
  "observe_freshness last_at highwater_at ls =
     ls\<lparr>ls_last_assertion := bumped last_at (ls_last_assertion ls), ls_highwater := bumped highwater_at (ls_highwater ls)\<rparr>"

definition observe_clock :: "int \<Rightarrow> license_state \<Rightarrow> license_state" where
  "observe_clock now ls = ls\<lparr>ls_highwater := bumped now (ls_highwater ls)\<rparr>"

definition offline_verdict_at :: "license_state \<Rightarrow> license_snapshot \<Rightarrow> int \<Rightarrow> offline_verdict" where
  "offline_verdict_at ls s now =
     classify_offline now (ls_highwater ls) (ls_last_assertion ls) (unwrap_or 0 (sn_not_before s)) (sn_soft s) (sn_hard s)"

definition effective_status :: "int \<Rightarrow> license_state \<Rightarrow> license_status" where
  "effective_status now ls =
     (if ls_revoked ls then LicRevoked
      else let s = ls_snapshot ls in
        if sn_status s \<noteq> LicValid then sn_status s
        else case offline_verdict_at ls s now of
          Fresh \<Rightarrow> LicValid
        | SoftStale \<Rightarrow> LicUnlicensed
        | HardStale \<Rightarrow> LicRevoked)"

definition is_hard_stale :: "int \<Rightarrow> license_state \<Rightarrow> bool" where
  "is_hard_stale now ls = (\<not> ls_revoked ls \<and> sn_status (ls_snapshot ls) = LicValid \<and>
     offline_verdict_at ls (ls_snapshot ls) now = HardStale)"

definition license_status_of :: "license_state \<Rightarrow> license_status" where
  "license_status_of ls = (if ls_revoked ls then LicRevoked else sn_status (ls_snapshot ls))"

definition license_max_seats :: "int \<Rightarrow> license_state \<Rightarrow> nat option" where
  "license_max_seats now ls = (if effective_status now ls = LicValid then sn_max_seats (ls_snapshot ls) else None)"

definition is_feature_enabled :: "int \<Rightarrow> string \<Rightarrow> license_state \<Rightarrow> bool" where
  "is_feature_enabled now f ls = (case effective_status now ls of
       LicValid \<Rightarrow> f \<in> set (sn_features (ls_snapshot ls))
     | LicGrace \<Rightarrow> True
     | LicUnlicensed \<Rightarrow> True
     | LicRevoked \<Rightarrow> False)"

definition tamper_flags :: "string \<Rightarrow> string \<Rightarrow> license_state \<Rightarrow> string list" where
  "tamper_flags component actual ls =
     (case tamper_check (sn_image_digests (ls_snapshot ls)) component actual of None \<Rightarrow> [] | Some f \<Rightarrow> [f])"

definition unwrap_attestation_key :: "license_env \<Rightarrow> string \<Rightarrow> license_state \<Rightarrow> string option" where
  "unwrap_attestation_key env kek ls =
     (if effective_status (le_now env) ls \<noteq> LicValid then None
      else Option.bind (sn_wrapped_attestation_key (ls_snapshot ls)) (\<lambda>wrapped.
        Option.bind (sn_lic_id (ls_snapshot ls)) (\<lambda>lic_id.
        Option.bind (le_unwrap env kek wrapped (lic_id @ '':attest'')) (\<lambda>bytes.
        if length bytes = 32 then Some bytes else None))))"

section \<open>The tables\<close>

record activation_row =
  av_token :: string
  av_activated_by :: "uuid option"
  av_updated_at :: int

record license_db =
  activation_tbl :: "activation_row option"
  freshness_tbl :: "(uuid \<times> int \<times> int) list"
  license_audit :: "audit_row list"

definition license_get :: "db_env \<Rightarrow> license_db \<Rightarrow> (api_error, activation_row option) result" where
  "license_get env db = rbind (stmt env 0) (\<lambda>_. Inr (activation_tbl db))"

definition upsert_audited ::
  "db_env \<Rightarrow> string \<Rightarrow> uuid option \<Rightarrow> admin_actor \<Rightarrow> audit_entry \<Rightarrow> license_db \<Rightarrow> (api_error, license_db) result" where
  "upsert_audited env token activated_by actor entry db =
     rbind (begin_scoped env (actor_ws actor)) (\<lambda>_.
     rbind (stmt env 3) (\<lambda>_.
     rbind (audit_write env 4 actor entry (license_audit db)) (\<lambda>tbl.
     rbind (stmt env 5) (\<lambda>_.
       Inr (db\<lparr>activation_tbl := Some \<lparr>av_token = token, av_activated_by = activated_by, av_updated_at = now_ts env\<rparr>,
         license_audit := tbl\<rparr>)))))"

definition clear_audited :: "db_env \<Rightarrow> admin_actor \<Rightarrow> audit_entry \<Rightarrow> license_db \<Rightarrow> (api_error, license_db) result" where
  "clear_audited env actor entry db =
     rbind (begin_scoped env (actor_ws actor)) (\<lambda>_.
     rbind (stmt env 3) (\<lambda>_.
     rbind (audit_write env 4 actor entry (license_audit db)) (\<lambda>tbl.
     rbind (stmt env 5) (\<lambda>_. Inr (db\<lparr>activation_tbl := None, license_audit := tbl\<rparr>)))))"

definition resolve_active_token :: "db_env \<Rightarrow> string \<Rightarrow> license_db \<Rightarrow> string" where
  "resolve_active_token env env_token db = (case license_get env db of
       Inr (Some row) \<Rightarrow> av_token row
     | _ \<Rightarrow> env_token)"

definition freshness_load :: "license_env \<Rightarrow> db_env \<Rightarrow> string \<Rightarrow> license_db \<Rightarrow> (api_error, (int \<times> int) option) result" where
  "freshness_load env dbe lic_id db = (case le_uuid env lic_id of
       None \<Rightarrow> Inr None
     | Some i \<Rightarrow> rbind (stmt dbe 0) (\<lambda>_. Inr (map_of (freshness_tbl db) i)))"

definition freshness_record ::
  "license_env \<Rightarrow> db_env \<Rightarrow> string \<Rightarrow> int option \<Rightarrow> int \<Rightarrow> license_db \<Rightarrow> (api_error, license_db) result" where
  "freshness_record env dbe lic_id observed_assertion_at system_now db = (case le_uuid env lic_id of
       None \<Rightarrow> Inr db
     | Some i \<Rightarrow>
         let assertion = unwrap_or 0 observed_assertion_at; hw_seed = max assertion system_now;
             row = (case map_of (freshness_tbl db) i of
                      None \<Rightarrow> (assertion, hw_seed)
                    | Some (a, hw) \<Rightarrow> (max a assertion, max hw hw_seed))
         in rbind (stmt dbe 0) (\<lambda>_. Inr (db\<lparr>freshness_tbl := AList.update i row (freshness_tbl db)\<rparr>)))"

section \<open>The revocation poller\<close>

datatype revocation_verdict = VerdictActive | VerdictRevoked | VerdictUnknown

definition verdict_from_status :: "string option \<Rightarrow> revocation_verdict" where
  "verdict_from_status status = (case status of
       None \<Rightarrow> VerdictUnknown
     | Some st \<Rightarrow> if st = ''revoked'' then VerdictRevoked else VerdictActive)"

definition status_url :: "string \<Rightarrow> string \<Rightarrow> string" where
  "status_url server_url lic_id = trim_end_slash server_url @ ''/v1/licenses/'' @ lic_id @ ''/status''"

text \<open>A signed answer: credit for freshness only from a verified, active, dated assertion.\<close>

definition check_assertion :: "license_env \<Rightarrow> string \<Rightarrow> json \<Rightarrow> string \<Rightarrow> revocation_verdict \<times> int option" where
  "check_assertion env vk av sig_str = (case le_assertion env av of
       None \<Rightarrow> (VerdictUnknown, None)
     | Some assertion \<Rightarrow>
         if \<not> le_verify env vk assertion sig_str then (VerdictUnknown, None)
         else if fa_status assertion = ''revoked'' then (VerdictRevoked, None)
         else (case (case le_chrono env (fa_issued_at assertion) of
                       Some e \<Rightarrow> Some e
                     | None \<Rightarrow> le_rfc3339 env (fa_issued_at assertion)) of
                 Some epoch \<Rightarrow> (VerdictActive, Some epoch)
               | None \<Rightarrow> (VerdictUnknown, None)))"

definition check_status :: "license_env \<Rightarrow> string \<Rightarrow> string \<Rightarrow> revocation_verdict \<times> int option" where
  "check_status env vk lic_id = (case le_http env (status_url (le_server_url env) lic_id) of
       Inl _ \<Rightarrow> (VerdictUnknown, None)
     | Inr (success, body) \<Rightarrow>
         if \<not> success then (VerdictUnknown, None)
         else (case body of
                 None \<Rightarrow> (VerdictUnknown, None)
               | Some b \<Rightarrow>
                   (case (json_get b ''assertion'', get_str b ''sig'') of
                      (Some av, Some sig_str) \<Rightarrow> check_assertion env vk av sig_str
                    | _ \<Rightarrow> (verdict_from_status (get_str b ''status''), None))))"

datatype idle_reason = AlreadyRevoked | NoLicenseId

datatype poll_tick_result = Idle idle_reason | Check string

definition poll_tick :: "bool \<Rightarrow> string option \<Rightarrow> poll_tick_result" where
  "poll_tick revoked lic_id =
     (if revoked then Idle AlreadyRevoked
      else case lic_id of Some i \<Rightarrow> Check i | None \<Rightarrow> Idle NoLicenseId)"

datatype verdict_action_result = MarkRevoked | RecordFreshness "int option"

fun verdict_action :: "revocation_verdict \<Rightarrow> int option \<Rightarrow> verdict_action_result" where
  "verdict_action VerdictRevoked issued_at = MarkRevoked"
| "verdict_action VerdictActive issued_at = RecordFreshness issued_at"
| "verdict_action VerdictUnknown issued_at = RecordFreshness None"

definition record_freshness ::
  "license_env \<Rightarrow> string \<Rightarrow> int option \<Rightarrow> int \<Rightarrow> license_db \<Rightarrow> (int \<times> int) option \<times> license_db" where
  "record_freshness env lic_id assertion_at now db =
     (let db' = (case freshness_record env (le_db env 0) lic_id assertion_at now db of Inl _ \<Rightarrow> db | Inr d \<Rightarrow> d)
      in ((case freshness_load env (le_db env 1) lic_id db' of Inr (Some row) \<Rightarrow> Some row | _ \<Rightarrow> None), db'))"

definition observe_row :: "(int \<times> int) option \<Rightarrow> license_state \<Rightarrow> license_state" where
  "observe_row row ls = (case row of Some (l, hw) \<Rightarrow> observe_freshness l hw ls | None \<Rightarrow> ls)"

text \<open>One turn of \<open>run_poller\<close>.\<close>

definition poll_once :: "license_env \<Rightarrow> string \<Rightarrow> license_state \<times> license_db \<Rightarrow> license_state \<times> license_db" where
  "poll_once env vk = (\<lambda>(ls, db).
     (case poll_tick (ls_revoked ls) (sn_lic_id (ls_snapshot ls)) of
        Idle _ \<Rightarrow> (ls, db)
      | Check lic_id \<Rightarrow>
          (case check_status env vk lic_id of
             (verdict, issued_at) \<Rightarrow>
               (case verdict_action verdict issued_at of
                  MarkRevoked \<Rightarrow> (mark_revoked lic_id ls, db)
                | RecordFreshness assertion_at \<Rightarrow>
                    (case record_freshness env lic_id assertion_at (le_now env) db of
                       (row, db') \<Rightarrow> (observe_row row ls, db'))))))"

section \<open>The gate\<close>

datatype license_outage = OutageRevoked | RevalidationLost

fun license_outage_str :: "license_outage \<Rightarrow> string" where
  "license_outage_str OutageRevoked = ''license_revoked''"
| "license_outage_str RevalidationLost = ''license_revalidation_lost''"

definition em_dash :: string where
  "em_dash = [char_of (226 :: nat), char_of (128 :: nat), char_of (148 :: nat)]"

fun outage_refusal :: "license_outage \<Rightarrow> string" where
  "outage_refusal OutageRevoked = ''license revoked '' @ em_dash @ '' contact your vendor''"
| "outage_refusal RevalidationLost =
     ''license requires revalidation '' @ em_dash @ '' gateway could not reach the license server''"

datatype license_gate_result = GateProceed | GateBlocked license_outage | GateDegrade license_outage

definition recovery_allowlist :: "string list" where
  "recovery_allowlist = [''/health'', ''/metrics'', ''/openapi.json'', ''/v1/auth'', ''/internal'', ''/v1/license'']"

definition is_under :: "string \<Rightarrow> string \<Rightarrow> bool" where
  "is_under path entry =
     (let base = trim_end_slash entry in
      prefix base path \<and> (let rest = drop (length base) path in rest = [] \<or> hd rest = CHR ''/''))"

definition is_allowlisted :: "string \<Rightarrow> bool" where
  "is_allowlisted path = (\<exists>entry \<in> set recovery_allowlist. is_under path entry)"

definition license_gate :: "bool \<Rightarrow> bool \<Rightarrow> string \<Rightarrow> license_gate_result" where
  "license_gate revoked hard_stale path =
     (if is_allowlisted path then GateProceed
      else if revoked then GateBlocked OutageRevoked
      else if hard_stale then GateDegrade RevalidationLost
      else GateProceed)"

text \<open>
  The middleware around the inner service: the alerts it raises, the header it adds, and the answer;
  \<open>inner\<close> is what the rest of the stack would answer.
\<close>

datatype license_alert = LicenseAlert string license_outage string

definition enforce ::
  "int \<Rightarrow> string \<Rightarrow> license_state \<Rightarrow> (api_error, 'r) result \<Rightarrow> license_alert list \<times> string option \<times> (api_error, 'r) result" where
  "enforce now path ls inner = (case license_gate (ls_revoked ls) (is_hard_stale now ls) path of
       GateProceed \<Rightarrow> ([], None, inner)
     | GateBlocked reason \<Rightarrow> ([LicenseAlert path reason (policy_str Block)], None, Inl (Forbidden (outage_refusal reason)))
     | GateDegrade reason \<Rightarrow> ([LicenseAlert path reason (policy_str DegradeWithAlert)], Some (license_outage_str reason), inner))"

section \<open>The recovery route\<close>

record license_response =
  lr_customer_name :: "string option"
  lr_lic_id :: "string option"
  lr_expires_at :: "string option"
  lr_features :: "string list"
  lr_status :: string
  lr_source :: string

fun license_status_str :: "license_status \<Rightarrow> string" where
  "license_status_str LicValid = ''Valid''"
| "license_status_str LicGrace = ''Grace''"
| "license_status_str LicUnlicensed = ''Unlicensed''"
| "license_status_str LicRevoked = ''Revoked''"

definition resolve_source :: "license_env \<Rightarrow> db_env \<Rightarrow> license_db \<Rightarrow> string" where
  "resolve_source env dbe db = (case license_get dbe db of
       Inr (Some _) \<Rightarrow> ''db''
     | _ \<Rightarrow> if le_env_token env = [] then ''none'' else ''env'')"

definition build_response :: "license_env \<Rightarrow> nat \<Rightarrow> license_state \<times> license_db \<Rightarrow> license_response" where
  "build_response env k = (\<lambda>(ls, db). let snap = ls_snapshot ls in
     \<lparr>lr_customer_name = sn_customer_name snap, lr_lic_id = sn_lic_id snap, lr_expires_at = sn_expires_at snap,
      lr_features = sn_features snap, lr_status = license_status_str (effective_status (le_now env) ls),
      lr_source = resolve_source env (le_db env k) db\<rparr>)"

definition vendor_key :: "license_env \<Rightarrow> (api_error, string) result" where
  "vendor_key env = ok_or (parse_vendor_key env (effective_vendor_pubkey env))
     (Internal ''vendor public key is not configured or invalid'')"

text \<open>The wrapped model key and license relayed to the sidecar; whether the relay succeeds is ignored.\<close>

definition best_effort_push :: "license_env \<Rightarrow> license_state \<Rightarrow> (string \<times> string) list" where
  "best_effort_push env ls =
     (if le_internal_token env = [] then []
      else case (sn_wrapped_model_key (ls_snapshot ls), sn_lic_id (ls_snapshot ls)) of
        (Some w, Some lic) \<Rightarrow> [(w, lic)]
      | _ \<Rightarrow> [])"

definition get_license_handler ::
  "license_env \<Rightarrow> jwt_ctx \<Rightarrow> license_state \<times> license_db \<Rightarrow> (api_error, license_response) result" where
  "get_license_handler env ctx st = rbind (require_role ctx Admin) (\<lambda>_. Inr (build_response env 0 st))"

definition license_actor :: "license_env \<Rightarrow> jwt_ctx \<Rightarrow> admin_actor" where
  "license_actor env ctx = actor_resolve (le_actor_email env) (ctx_workspace_id ctx) (ctx_user_id ctx) (as_db_str (ctx_role ctx))"

definition json_opt :: "string option \<Rightarrow> json" where
  "json_opt x = (case x of None \<Rightarrow> JNull | Some s \<Rightarrow> JStr s)"

definition activation_entry :: "license_env \<Rightarrow> license_snapshot \<Rightarrow> license_db \<Rightarrow> audit_entry" where
  "activation_entry env snapshot db =
     with_detail (JObj [(''status'', JStr (license_status_str (sn_status snapshot))),
         (''expires_at'', json_opt (sn_expires_at snapshot)),
         (''feature_count'', JNum (of_nat (length (sn_features snapshot)))),
         (''source_before'', JStr (resolve_source env (le_db env 0) db)), (''source_after'', JStr ''db'')])
       (on_named_object LicenseActivated (sn_lic_id snapshot))"

definition activate_license_handler ::
  "license_env \<Rightarrow> jwt_ctx \<Rightarrow> string \<Rightarrow> license_state \<times> license_db
     \<Rightarrow> (license_state \<times> license_db) \<times> (string \<times> string) list \<times> (api_error, license_response) result" where
  "activate_license_handler env ctx token = (\<lambda>(ls, db).
     (case rbind (require_role ctx Admin) (\<lambda>_.
           rbind (vendor_key env) (\<lambda>vk.
           rbind (guard_err (le_decode env (trim token) vk = None) (BadRequest ''invalid license signature'')) (\<lambda>_.
           let snapshot = load_and_verify_token env (trim token) vk
           in rbind (upsert_audited (le_db env 1) (trim token) (Some (ctx_user_id ctx)) (license_actor env ctx)
                (activation_entry env snapshot db) db) (\<lambda>db'. Inr (snapshot, db'))))) of
        Inl e \<Rightarrow> ((ls, db), [], Inl e)
      | Inr (snapshot, db') \<Rightarrow>
          let ls1 = ls\<lparr>ls_snapshot := snapshot\<rparr>;
              ls2 = (case sn_lic_id snapshot of
                       None \<Rightarrow> ls1
                     | Some lic_id \<Rightarrow> snd (clear_revocation_if_superseded lic_id ls1))
          in ((ls2, db'), best_effort_push env ls2, Inr (build_response env 2 (ls2, db')))))"

definition snapshot_of_token :: "license_env \<Rightarrow> string \<Rightarrow> license_snapshot" where
  "snapshot_of_token env token = (case parse_vendor_key env (effective_vendor_pubkey env) of
       Some vk \<Rightarrow> load_and_verify_token env token vk
     | None \<Rightarrow> unlicensed)"

definition delete_license_handler ::
  "license_env \<Rightarrow> jwt_ctx \<Rightarrow> license_state \<times> license_db
     \<Rightarrow> (license_state \<times> license_db) \<times> (string \<times> string) list \<times> (api_error, license_response) result" where
  "delete_license_handler env ctx = (\<lambda>(ls, db).
     (let snapshot_after = snapshot_of_token env (le_env_token env);
          entry = with_detail (JObj [(''status_after'', JStr (license_status_str (sn_status snapshot_after))),
              (''source_after'', JStr (if le_env_token env = [] then ''none'' else ''env''))])
            (on_named_object LicenseCleared (sn_lic_id (ls_snapshot ls)))
      in case rbind (require_role ctx Admin) (\<lambda>_. clear_audited (le_db env 0) (license_actor env ctx) entry db) of
           Inl e \<Rightarrow> ((ls, db), [], Inl e)
         | Inr db' \<Rightarrow>
             let ls1 = ls\<lparr>ls_snapshot := snapshot_of_token env (resolve_active_token (le_db env 1) (le_env_token env) db')\<rparr>
             in ((ls1, db'), best_effort_push env ls1, Inr (build_response env 2 (ls1, db')))))"

section \<open>Boot and re-verification\<close>

definition boot :: "license_env \<Rightarrow> license_db \<Rightarrow> license_state" where
  "boot env db =
     (let ls = license_state_new (snapshot_of_token env (resolve_active_token (le_db env 0) (le_env_token env) db))
      in case sn_lic_id (ls_snapshot ls) of
           None \<Rightarrow> ls
         | Some lic_id \<Rightarrow> observe_row (case freshness_load env (le_db env 1) lic_id db of Inr row \<Rightarrow> row | Inl _ \<Rightarrow> None) ls)"

text \<open>One turn of the loop of \<open>main.rs\<close> that re-verifies the token, for a configured vendor key.\<close>

definition recheck_once :: "license_env \<Rightarrow> string \<Rightarrow> license_state \<times> license_db \<Rightarrow> license_state \<times> license_db" where
  "recheck_once env vk = (\<lambda>(ls, db).
     (let token = resolve_active_token (le_db env 2) (le_env_token env) db;
          ls1 = ls\<lparr>ls_snapshot := load_and_verify_token env token vk\<rparr>
      in case (case sn_lic_id (ls_snapshot ls1) of
                 None \<Rightarrow> (ls1, db)
               | Some lic_id \<Rightarrow>
                   (case record_freshness env lic_id None (le_now env) db of (row, db') \<Rightarrow> (observe_row row ls1, db'))) of
           (ls2, db2) \<Rightarrow> (observe_clock (le_now env) ls2, db2)))"

datatype license_event =
    Poll string
  | Recheck string
  | Activate jwt_ctx string
  | Delete jwt_ctx

fun license_step :: "license_env \<Rightarrow> license_event \<Rightarrow> license_state \<times> license_db \<Rightarrow> license_state \<times> license_db" where
  "license_step env (Poll vk) st = poll_once env vk st"
| "license_step env (Recheck vk) st = recheck_once env vk st"
| "license_step env (Activate ctx token) st = fst (activate_license_handler env ctx token st)"
| "license_step env (Delete ctx) st = fst (delete_license_handler env ctx st)"

fun license_run :: "(license_env \<times> license_event) list \<Rightarrow> license_state \<times> license_db \<Rightarrow> license_state \<times> license_db" where
  "license_run [] st = st"
| "license_run ((env, ev) # evs) st = license_run evs (license_step env ev st)"

section \<open>The attestation bundle\<close>

record attestation_bundle =
  ab_lic_id :: string
  ab_deployment_fp :: string
  ab_period_from :: string
  ab_period_to :: string
  ab_active_seats :: nat
  ab_requests :: nat
  ab_version :: string
  ab_tamper_flags :: "string list"
  ab_generated_at :: string

definition build_bundle :: "string \<Rightarrow> string \<Rightarrow> string \<Rightarrow> nat \<Rightarrow> nat \<Rightarrow> string \<Rightarrow> string \<Rightarrow> string \<Rightarrow> attestation_bundle" where
  "build_bundle version lic_id deployment_fp active_seats requests period_from period_to now_rfc3339 =
     \<lparr>ab_lic_id = lic_id, ab_deployment_fp = deployment_fp, ab_period_from = period_from, ab_period_to = period_to,
      ab_active_seats = active_seats, ab_requests = requests, ab_version = version, ab_tamper_flags = [],
      ab_generated_at = now_rfc3339\<rparr>"

definition sign_bundle ::
  "(attestation_bundle \<Rightarrow> (string, string) result) \<Rightarrow> (string \<Rightarrow> string) \<Rightarrow> attestation_bundle
     \<Rightarrow> (string, attestation_bundle \<times> string) result" where
  "sign_bundle canonical_bytes sign bundle = rbind (canonical_bytes bundle) (\<lambda>msg. Inr (bundle, sign msg))"

section \<open>The lock-free maximum returns\<close>

lemma bump_loop_returns:
  assumes "mono cell" "0 < k" "cur = cell (k - 1)"
  shows "\<exists>n x. bump_loop v cell k cur = Some (n, x) \<and> 0 < n \<and> int n \<le> int k + max 0 (v - cur) \<and> x = max v (cell (n - 1))"
  using assms(2,3)
proof (induction "nat (v - cur)" arbitrary: k cur rule: less_induct)
  case less
  have up: "cur \<le> cell k" using less.prems monoD [OF assms(1), of "k - 1" k] by simp
  consider "v \<le> cur" | "cur < v" "cell k = cur" | "cur < v" "cur < cell k" using up by linarith
  then show ?case
  proof cases
    case 3
    have "nat (v - cell k) < nat (v - cur)" using 3 by simp
    then have "\<exists>n x. bump_loop v cell (Suc k) (cell k) = Some (n, x) \<and> 0 < n \<and>
        int n \<le> int (Suc k) + max 0 (v - cell k) \<and> x = max v (cell (n - 1))"
      by (rule less.hyps) simp_all
    moreover have "bump_loop v cell k cur = bump_loop v cell (Suc k) (cell k)"
      using 3 by (subst bump_loop.simps) simp
    moreover have "int (Suc k) + max 0 (v - cell k) \<le> int k + max 0 (v - cur)" using 3 by simp
    ultimately show ?thesis by (metis order_trans)
  next
    case 1
    then have "bump_loop v cell k cur = Some (k, cur)" by (subst bump_loop.simps) simp
    then show ?thesis using 1 less.prems by simp
  next
    case 2
    then have "bump_loop v cell k cur = Some (Suc k, v)" by (subst bump_loop.simps) simp
    then show ?thesis using 2 by simp
  qed
qed

text \<open>
  C36. The lock-free maximum returns. However other threads write the atomic in between, as long as
  they only raise it, the compare-and-swap loop of \<open>bump_max\<close> ends, after at most one access more than
  the distance it has to cover, and leaves the larger of its value and what it found.
\<close>

theorem bump_max_returns:
  assumes "mono cell"
  shows "\<exists>n x. bump_max v cell = Some (n, x) \<and> int n \<le> 1 + max 0 (v - cell 0) \<and> x = max v (cell (n - 1))"
  using bump_loop_returns [OF assms, of 1 "cell 0" v] by (auto simp: bump_max_def)

theorem bump_max_returns_witness:
  "mono (\<lambda>k::nat. int k) \<and> bump_max 1 (\<lambda>k. int k) = Some (2, 1) \<and>
   (\<exists>n x. bump_max 7 (\<lambda>k. int k) = Some (n, x) \<and> int n \<le> 1 + max 0 (7 - int 0) \<and> x = max 7 (int (n - 1)))"
proof (intro conjI)
  show m: "mono (\<lambda>k::nat. int k)" by (simp add: mono_def)
  show "bump_max 1 (\<lambda>k. int k) = Some (2, 1)" by (simp add: bump_max_def bump_loop.simps)
  show "\<exists>n x. bump_max 7 (\<lambda>k. int k) = Some (n, x) \<and> int n \<le> 1 + max 0 (7 - int 0) \<and> x = max 7 (int (n - 1))"
    using bump_max_returns [OF m, of 7] by blast
qed

lemma bumped_max [simp]: "bumped v c = max v c"
  unfolding bumped_def bump_max_def by (subst bump_loop.simps) simp

section \<open>Revocation\<close>

text \<open>The event that lifts a revocation of \<open>r\<close>: an administrator activates another license, signed and in its window.\<close>

definition in_window :: "license_env \<Rightarrow> license \<Rightarrow> bool" where
  "in_window env lic = (case (le_rfc3339 env (li_not_before lic), le_rfc3339 env (li_expires_at lic)) of
       (Some nb, Some ex) \<Rightarrow> nb \<le> le_now env \<and> le_now env \<le> ex
     | _ \<Rightarrow> False)"

definition verified_license :: "license_env \<Rightarrow> string \<Rightarrow> license option" where
  "verified_license env token =
     Option.bind (parse_vendor_key env (effective_vendor_pubkey env)) (le_decode env (trim token))"

fun supersedes :: "license_env \<Rightarrow> string \<Rightarrow> license_event \<Rightarrow> bool" where
  "supersedes env r (Activate ctx token) = (can_write (ctx_role ctx) \<and> (case verified_license env token of
       None \<Rightarrow> False
     | Some lic \<Rightarrow> in_window env lic \<and> li_lic_id lic \<noteq> r))"
| "supersedes env r _ = False"

definition revoked_as :: "string \<Rightarrow> license_state \<Rightarrow> bool" where
  "revoked_as r ls = (ls_revoked ls \<and> ls_revoked_lic ls = Some r)"

text \<open>Trimming twice is trimming once: the characters of a run of characters are those characters.\<close>

definition char_segments :: "string list \<Rightarrow> bool" where
  "char_segments cs = ((\<forall>x \<in> set cs. x \<noteq> [] \<and> (\<forall>c \<in> set (tl x). is_cont c)) \<and> (\<forall>x \<in> set (tl cs). \<not> is_cont (hd x)))"

lemma hd_utf8_chars: "s \<noteq> [] \<Longrightarrow> utf8_chars s \<noteq> [] \<and> hd (hd (utf8_chars s)) = hd s"
  by (cases s) auto

lemma char_segments_utf8: "char_segments (utf8_chars s)"
proof (induction s rule: utf8_chars.induct)
  case (2 c s)
  let ?t = "dropWhile is_cont s"
  have "\<not> is_cont (hd x)" if "x \<in> set (utf8_chars ?t)" for x
  proof (cases "?t = []")
    case False
    then have "\<not> is_cont (hd (hd (utf8_chars ?t)))" using hd_utf8_chars hd_dropWhile [of is_cont s] by auto
    then show ?thesis using 2 that False hd_utf8_chars [OF False] by (cases "utf8_chars ?t") (auto simp: char_segments_def)
  next
    case True
    show ?thesis using that unfolding True by simp
  qed
  then show ?case using 2 by (auto simp: char_segments_def dest: set_takeWhileD)
qed (simp add: char_segments_def)

lemma utf8_chars_concat: "char_segments cs \<Longrightarrow> utf8_chars (concat cs) = cs"
proof (induction cs)
  case (Cons x cs)
  obtain c xs where x: "x = c # xs" "\<forall>d \<in> set xs. is_cont d" using Cons.prems by (cases x) (auto simp: char_segments_def)
  have "char_segments cs" using Cons.prems by (cases cs) (auto simp: char_segments_def)
  moreover have "takeWhile is_cont (xs @ concat cs) = xs \<and> dropWhile is_cont (xs @ concat cs) = concat cs"
  proof (cases cs)
    case (Cons y ys)
    then obtain d ds where "y = d # ds" "\<not> is_cont d" using Cons.prems \<open>char_segments (x # cs)\<close>
      by (cases y) (auto simp: char_segments_def)
    then show ?thesis using Cons x(2) by (simp add: takeWhile_append dropWhile_append)
  qed (use x(2) in \<open>simp add: takeWhile_eq_all_conv dropWhile_eq_Nil_conv\<close>)
  ultimately show ?case using Cons.IH x(1) by simp
qed simp

lemma char_segments_infix: "char_segments (a @ b @ c) \<Longrightarrow> char_segments b"
  by (cases a; cases b) (auto simp: char_segments_def)

lemma trim_trim: "trim (trim s) = trim s"
proof -
  define d where "d = dropWhile starts_ws (utf8_chars s)"
  define b where "b = rev (dropWhile starts_ws (rev d))"
  obtain c where c: "d = b @ c"
    unfolding b_def by (metis rev_append rev_rev_ident takeWhile_dropWhile_id)
  have "utf8_chars s = takeWhile starts_ws (utf8_chars s) @ b @ c"
    using c unfolding d_def by (metis takeWhile_dropWhile_id)
  then have "char_segments b" using char_segments_utf8 [of s] char_segments_infix by metis
  then have "utf8_chars (concat b) = b" by (rule utf8_chars_concat)
  moreover have "dropWhile starts_ws b = b"
  proof (cases b)
    case (Cons y ys)
    then have "hd d = y" "d \<noteq> []" using c by auto
    then have "\<not> starts_ws y" unfolding d_def using hd_dropWhile by blast
    then show ?thesis using Cons by simp
  qed simp
  moreover have "dropWhile starts_ws (rev b) = rev b" by (simp add: b_def)
  ultimately show ?thesis by (simp add: trim_def flip: d_def b_def)
qed

lemma load_lic_id:
  assumes "sn_lic_id (load_and_verify_token env token vk) = Some i"
  obtains lic where "le_decode env (trim token) vk = Some lic" "in_window env lic" "li_lic_id lic = i"
  using assms by (auto simp: load_and_verify_token_def unlicensed_def snapshot_from_def in_window_def Let_def
      split: if_splits option.splits)

lemma observe_revoked [simp]:
  "ls_revoked (observe_row row ls) = ls_revoked ls" "ls_revoked_lic (observe_row row ls) = ls_revoked_lic ls"
  "ls_revoked (observe_clock t ls) = ls_revoked ls" "ls_revoked_lic (observe_clock t ls) = ls_revoked_lic ls"
  by (auto simp: observe_row_def observe_freshness_def observe_clock_def split: option.splits)

lemma recheck_revoked:
  "ls_revoked (fst (recheck_once env vk st)) = ls_revoked (fst st)"
  "ls_revoked_lic (fst (recheck_once env vk st)) = ls_revoked_lic (fst st)"
  by (auto simp: recheck_once_def Let_def split: prod.splits option.splits)

lemma delete_revoked:
  "ls_revoked (fst (fst (delete_license_handler env ctx st))) = ls_revoked (fst st)"
  "ls_revoked_lic (fst (fst (delete_license_handler env ctx st))) = ls_revoked_lic (fst st)"
  by (auto simp: delete_license_handler_def Let_def split: prod.splits sum.splits)

lemma poll_revoked: "ls_revoked (fst st) \<Longrightarrow> poll_once env vk st = st"
  by (auto simp: poll_once_def poll_tick_def split: prod.splits)

text \<open>What an activation does: nothing on error; otherwise it takes the license over.\<close>

lemma activate_cases:
  obtains "fst (activate_license_handler env ctx token (ls, db)) = (ls, db)"
    "\<exists>e. snd (snd (activate_license_handler env ctx token (ls, db))) = Inl e"
  | vk snapshot db' where "can_write (ctx_role ctx)" "parse_vendor_key env (effective_vendor_pubkey env) = Some vk"
    "le_decode env (trim token) vk \<noteq> None" "snapshot = load_and_verify_token env (trim token) vk"
    "fst (activate_license_handler env ctx token (ls, db)) =
       ((case sn_lic_id snapshot of None \<Rightarrow> ls\<lparr>ls_snapshot := snapshot\<rparr>
         | Some i \<Rightarrow> snd (clear_revocation_if_superseded i (ls\<lparr>ls_snapshot := snapshot\<rparr>))), db')"
    "\<exists>resp. snd (snd (activate_license_handler env ctx token (ls, db))) = Inr resp"
proof (cases "rbind (require_role ctx Admin) (\<lambda>_. rbind (vendor_key env) (\<lambda>vk.
    rbind (guard_err (le_decode env (trim token) vk = None) (BadRequest ''invalid license signature'')) (\<lambda>_.
    let snapshot = load_and_verify_token env (trim token) vk
    in rbind (upsert_audited (le_db env 1) (trim token) (Some (ctx_user_id ctx)) (license_actor env ctx)
         (activation_entry env snapshot db) db) (\<lambda>db'. Inr (snapshot, db')))))")
  case (Inl e)
  then show ?thesis using that(1) by (simp add: activate_license_handler_def)
next
  case (Inr q)
  obtain snapshot db' where q: "q = (snapshot, db')" by fastforce
  obtain vk where "require_role ctx Admin = Inr ()" "parse_vendor_key env (effective_vendor_pubkey env) = Some vk"
      "le_decode env (trim token) vk \<noteq> None" "snapshot = load_and_verify_token env (trim token) vk"
    using Inr by (auto simp: q rbind_Inr Let_def vendor_key_def ok_or_def guard_err_def split: option.splits if_splits)
  then show ?thesis
    using Inr by (intro that(2) [of vk snapshot db']) (auto simp: activate_license_handler_def q Let_def require_admin_iff split: option.split)
qed

lemma activate_keeps_revocation:
  assumes "revoked_as r ls" "\<not> supersedes env r (Activate ctx token)"
  shows "revoked_as r (fst (fst (activate_license_handler env ctx token (ls, db))))"
proof (rule activate_cases [of env ctx token ls db])
  fix vk snapshot db'
  assume a: "can_write (ctx_role ctx)" "parse_vendor_key env (effective_vendor_pubkey env) = Some vk"
    "snapshot = load_and_verify_token env (trim token) vk"
    "fst (activate_license_handler env ctx token (ls, db)) =
       ((case sn_lic_id snapshot of None \<Rightarrow> ls\<lparr>ls_snapshot := snapshot\<rparr>
         | Some i \<Rightarrow> snd (clear_revocation_if_superseded i (ls\<lparr>ls_snapshot := snapshot\<rparr>))), db')"
  have "i = r" if "sn_lic_id snapshot = Some i" for i
    using that assms(2) a(1,2) by (auto simp: a(3) verified_license_def trim_trim elim!: load_lic_id)
  then show ?thesis
    using assms(1) a(4) by (auto simp: revoked_as_def clear_revocation_if_superseded_def split: option.splits)
qed (use assms in simp)

lemma step_keeps_revocation:
  assumes "revoked_as r (fst st)" "\<not> supersedes env r ev"
  shows "revoked_as r (fst (license_step env ev st))"
proof (cases ev)
  case (Activate ctx token)
  then show ?thesis using assms activate_keeps_revocation [of r "fst st" env ctx token "snd st"] by simp
qed (use assms in \<open>auto simp: revoked_as_def poll_revoked recheck_revoked delete_revoked\<close>)

lemma run_keeps_revocation:
  "revoked_as r (fst st) \<Longrightarrow> \<forall>(env, ev) \<in> set evs. \<not> supersedes env r ev \<Longrightarrow> revoked_as r (fst (license_run evs st))"
  by (induction evs st rule: license_run.induct) (auto simp: step_keeps_revocation)

text \<open>
  C37. A revocation is final until the license is replaced. Once a poll of the vendor learned that the
  license in use is revoked, every request outside the recovery routes is refused with 403, in
  whatever order polls, re-verifications, activations and deletions follow and however the clock
  moves, until an administrator activates a license with another identifier that carries the vendor's
  signature and is inside its validity window.
\<close>

theorem revocation_final_until_replaced:
  assumes "check_status env vk lic_id = (VerdictRevoked, issued)" "sn_lic_id (ls_snapshot ls) = Some lic_id" "\<not> ls_revoked ls"
    and "\<forall>(env', ev) \<in> set evs. \<not> supersedes env' lic_id ev" "\<not> is_allowlisted path"
  shows "enforce now path (fst (license_run evs (poll_once env vk (ls, db)))) inner =
    ([LicenseAlert path OutageRevoked ''block''], None, Inl (Forbidden (outage_refusal OutageRevoked)))"
proof -
  have "revoked_as lic_id (fst (poll_once env vk (ls, db)))"
    using assms(1-3) by (simp add: poll_once_def poll_tick_def revoked_as_def mark_revoked_def)
  then have "revoked_as lic_id (fst (license_run evs (poll_once env vk (ls, db))))"
    using assms(4) by (rule run_keeps_revocation)
  then show ?thesis using assms(5) by (simp add: enforce_def license_gate_def revoked_as_def)
qed

definition license_demo :: "string \<Rightarrow> license" where
  "license_demo i = \<lparr>li_lic_id = i, li_customer_name = ''c'', li_not_before = [], li_expires_at = ''xxxxx'', li_seats = 5,
     li_features = [], li_soft = Some 100, li_hard = Some 200, li_wrapped_key = ''w'', li_wrapped_attestation_key = ''a'',
     li_image_digests = []\<rparr>"

definition license_demo_db_env :: db_env where
  "license_demo_db_env = \<lparr>stmt_err = (\<lambda>j. None), readback = Some, dup_err = [], show_uuid = (\<lambda>u. ''u''), now_ts = 3, fresh_uuid = (\<lambda>j. 0)\<rparr>"

definition license_demo_env :: license_env where
  "license_demo_env = \<lparr>le_now = 3, le_db = (\<lambda>k. license_demo_db_env), le_actor_email = None, le_pinned_key = None,
     le_pubkey_b64 = replicate 32 (CHR ''k''), le_env_token = ''a'', le_internal_token = [], le_server_url = ''https://v/'',
     le_base64 = Some, le_key_ok = (\<lambda>k. True), le_decode = (\<lambda>t vk. Some (license_demo t)), le_rfc3339 = (\<lambda>s. Some (int (length s))),
     le_chrono = (\<lambda>s. None), le_uuid = (\<lambda>s. Some 1),
     le_http = (\<lambda>url. Inr (True, Some (JObj [(''status'', JStr ''revoked'')]))), le_assertion = (\<lambda>j. None),
     le_verify = (\<lambda>vk a s. False), le_unwrap = (\<lambda>k w a. None)\<rparr>"

definition license_demo_ctx :: jwt_ctx where
  "license_demo_ctx = \<lparr>ctx_user_id = 1, ctx_workspace_id = 3, ctx_role = Admin, ctx_jti = ''j0'', ctx_exp = 900\<rparr>"

definition license_demo_db :: license_db where
  "license_demo_db = \<lparr>activation_tbl = None, freshness_tbl = [], license_audit = []\<rparr>"

definition license_demo_evs :: "(license_env \<times> license_event) list" where
  "license_demo_evs = [(license_demo_env, Recheck ''k''), (license_demo_env, Activate license_demo_ctx ''a''),
     (license_demo_env, Delete license_demo_ctx)]"

lemma license_demo_facts:
  "check_status license_demo_env ''k'' ''a'' = (VerdictRevoked, None)"
  "sn_lic_id (ls_snapshot (boot license_demo_env license_demo_db)) = Some ''a''"
  "\<not> ls_revoked (boot license_demo_env license_demo_db)"
  "\<not> is_allowlisted ''/v1/redact''"
  "list_all (\<lambda>(env, ev). \<not> supersedes env ''a'' ev) license_demo_evs"
  by code_simp+

theorem revocation_final_until_replaced_witness:
  "enforce 9 ''/v1/redact'' (fst (license_run license_demo_evs
      (poll_once license_demo_env ''k'' (boot license_demo_env license_demo_db, license_demo_db)))) (Inr ()) =
     ([LicenseAlert ''/v1/redact'' OutageRevoked ''block''], None, Inl (Forbidden (outage_refusal OutageRevoked)))"
  using license_demo_facts by (intro revocation_final_until_replaced [where lic_id = "''a''" and issued = None]) (auto simp: list_all_iff)

text \<open>A revoked state always remembers which license was revoked.\<close>

definition revocation_known :: "license_state \<Rightarrow> bool" where
  "revocation_known ls = (ls_revoked ls \<longrightarrow> ls_revoked_lic ls \<noteq> None)"

lemma poll_known: "revocation_known (fst st) \<Longrightarrow> revocation_known (fst (poll_once env vk st))"
  by (auto simp: poll_once_def revocation_known_def mark_revoked_def
      split: prod.splits poll_tick_result.splits verdict_action_result.splits)

lemma step_known:
  assumes k: "revocation_known (fst st)"
  shows "revocation_known (fst (license_step env ev st))"
proof (cases ev)
  case (Activate ctx token)
  show ?thesis
  proof (rule activate_cases [of env ctx token "fst st" "snd st"])
    assume "fst (activate_license_handler env ctx token (fst st, snd st)) = (fst st, snd st)"
    then show ?thesis using k Activate by simp
  next
    fix vk snapshot db'
    assume "fst (activate_license_handler env ctx token (fst st, snd st)) =
       ((case sn_lic_id snapshot of None \<Rightarrow> (fst st)\<lparr>ls_snapshot := snapshot\<rparr>
         | Some i \<Rightarrow> snd (clear_revocation_if_superseded i ((fst st)\<lparr>ls_snapshot := snapshot\<rparr>))), db')"
    then show ?thesis using k Activate
      by (auto simp: revocation_known_def clear_revocation_if_superseded_def split: option.splits)
  qed
next
  case (Poll vk)
  then show ?thesis using k poll_known by simp
qed (use k in \<open>auto simp: revocation_known_def recheck_revoked delete_revoked\<close>)

lemma run_known: "revocation_known (fst st) \<Longrightarrow> revocation_known (fst (license_run evs st))"
  by (induction evs st rule: license_run.induct) (auto intro: step_known)

lemma boot_known: "revocation_known (boot env db)"
  by (auto simp: boot_def revocation_known_def license_state_new_def Let_def split: option.splits)

definition license_db_works :: "license_env \<Rightarrow> uuid \<Rightarrow> bool" where
  "license_db_works env ws = (\<forall>k. (\<forall>j. stmt_err (le_db env k) j = None) \<and>
     readback (le_db env k) (show_uuid (le_db env k) ws) = Some (show_uuid (le_db env k) ws))"

text \<open>
  C38. A revoked gateway can always be brought back. Whatever happened since it booted, the license
  route stays reachable, and an administrator who activates a license with another identifier, signed
  and in its window, is answered with success; from then on no request is refused for a revocation,
  until the vendor revokes the new license.
\<close>

theorem replacement_license_recovers:
  assumes "license_run evs (boot env0 db0, db0) = (ls, db)"
    and "can_write (ctx_role ctx)" "license_db_works env (ctx_workspace_id ctx)"
    and "verified_license env token = Some lic" "in_window env lic" "trim token \<noteq> []" "ls_revoked_lic ls \<noteq> Some (li_lic_id lic)"
  shows "license_gate (ls_revoked ls) (is_hard_stale now ls) ''/v1/license'' = GateProceed \<and>
    (\<exists>resp. snd (snd (activate_license_handler env ctx token (ls, db))) = Inr resp) \<and>
    (\<forall>path t why. license_gate (ls_revoked (fst (fst (activate_license_handler env ctx token (ls, db)))))
       (is_hard_stale t (fst (fst (activate_license_handler env ctx token (ls, db))))) path \<noteq> GateBlocked why)"
proof -
  obtain vk where vk: "parse_vendor_key env (effective_vendor_pubkey env) = Some vk" "le_decode env (trim token) vk = Some lic"
    using assms(4) by (auto simp: verified_license_def bind_eq_Some_conv)
  have known: "revocation_known ls" using run_known [of "(boot env0 db0, db0)" evs] boot_known assms(1) by simp
  let ?snap = "load_and_verify_token env (trim token) vk"
  have snap: "sn_lic_id ?snap = Some (li_lic_id lic)"
    using assms(5,6) vk(2) by (auto simp: load_and_verify_token_def trim_trim in_window_def snapshot_from_def Let_def split: option.splits)
  have ok: "\<not> isl (snd (snd (activate_license_handler env ctx token (ls, db))))"
    using assms(2,3) vk by (simp add: activate_license_handler_def require_admin_iff [THEN iffD2] vendor_key_def ok_or_def guard_err_def Let_def
        upsert_audited_def begin_scoped_def arm_scope_def scope_is_armed_def audit_write_def stmt_def license_db_works_def
        license_actor_def actor_resolve_def)
  have "\<not> ls_revoked (fst (fst (activate_license_handler env ctx token (ls, db))))"
  proof (rule activate_cases [of env ctx token ls db])
    assume "\<exists>e. snd (snd (activate_license_handler env ctx token (ls, db))) = Inl e"
    then show ?thesis using ok by auto
  next
    fix vk' snapshot db'
    assume "parse_vendor_key env (effective_vendor_pubkey env) = Some vk'" "snapshot = load_and_verify_token env (trim token) vk'"
      "fst (activate_license_handler env ctx token (ls, db)) =
       ((case sn_lic_id snapshot of None \<Rightarrow> ls\<lparr>ls_snapshot := snapshot\<rparr>
         | Some i \<Rightarrow> snd (clear_revocation_if_superseded i (ls\<lparr>ls_snapshot := snapshot\<rparr>))), db')"
    then show ?thesis
      using vk snap known assms(7) by (auto simp: clear_revocation_if_superseded_def revocation_known_def split: option.splits)
  qed
  moreover have "is_allowlisted ''/v1/license''" by code_simp
  ultimately show ?thesis using ok by (auto simp: license_gate_def isl_def) (meson sum.exhaust_sel)
qed
definition license_demo_revoked :: "license_state \<times> license_db" where
  "license_demo_revoked = license_run [(license_demo_env, Poll ''k'')] (boot license_demo_env license_demo_db, license_demo_db)"

theorem replacement_license_recovers_witness:
  "ls_revoked (fst license_demo_revoked) \<and>
   (\<exists>resp. snd (snd (activate_license_handler license_demo_env license_demo_ctx ''b'' license_demo_revoked)) = Inr resp) \<and>
   license_gate (ls_revoked (fst (fst (activate_license_handler license_demo_env license_demo_ctx ''b'' license_demo_revoked))))
     (is_hard_stale 9 (fst (fst (activate_license_handler license_demo_env license_demo_ctx ''b'' license_demo_revoked))))
     ''/v1/redact'' \<noteq> GateBlocked OutageRevoked"
proof -
  obtain ls db where r: "license_demo_revoked = (ls, db)" by fastforce
  have rev: "ls_revoked (fst license_demo_revoked)" "ls_revoked_lic (fst license_demo_revoked) = Some ''a''"
    "verified_license license_demo_env ''b'' = Some (license_demo ''b'')" "in_window license_demo_env (license_demo ''b'')"
    "trim ''b'' \<noteq> []" "can_write (ctx_role license_demo_ctx)" "li_lic_id (license_demo ''b'') = ''b''" by code_simp+
  have works: "license_db_works license_demo_env (ctx_workspace_id license_demo_ctx)"
    by (simp add: license_db_works_def license_demo_env_def license_demo_db_env_def)
  have other: "ls_revoked_lic ls \<noteq> Some (li_lic_id (license_demo ''b''))" using rev(2,7) by (simp add: r)
  show ?thesis
    using replacement_license_recovers [OF r [unfolded license_demo_revoked_def] rev(6) works rev(3,4,5) other, of 9] rev(1) r by auto
qed

section \<open>Staleness\<close>

text \<open>Turning the clock back behind what was seen gains nothing: the highest time seen counts.\<close>

lemma clock_rollback_gains_nothing:
  assumes "now' \<le> ls_highwater ls"
  shows "effective_status now' ls = effective_status (ls_highwater ls) ls"
proof -
  have "offline_verdict_at ls s now' = offline_verdict_at ls s (ls_highwater ls)" for s
    using assms by (simp add: offline_verdict_at_def classify_offline_def max_absorb2 Let_def split: option.split)
  then show ?thesis by (simp add: effective_status_def Let_def)
qed

text \<open>
  A license that has gone soft-stale is treated as unlicensed, which switches every feature on, also
  those it does not grant, and lifts the limit on seats.
\<close>

lemma soft_stale_unlocks:
  assumes "sn_status (ls_snapshot ls) = LicValid" "\<not> ls_revoked ls" "offline_verdict_at ls (ls_snapshot ls) now = SoftStale"
  shows "is_feature_enabled now f ls \<and> license_max_seats now ls = None"
  using assms by (simp add: is_feature_enabled_def license_max_seats_def effective_status_def)

end
