(* ===== verification/Audit_Export.thy ===== *)
theory Audit_Export
  imports Admin_Db
begin

text \<open>
  The signed audit export (\<open>secureprompt-common/src/audit_export.rs\<close>): the rows of the two planes and
  their page bytes (CSV or JSON lines), the hash chain over the pages, the manifest and its signature
  (\<open>build_manifest\<close>), and the verifier an auditor runs (\<open>verify_export\<close>).

  Instants are whole nanoseconds since the epoch. The crates the file calls are fields of the record
  \<open>export_lib\<close>: SHA-256, hex, base64, Ed25519, serde's text of a manifest, of a JSON value and of an
  instant. The explanatory prose the manifest carries is the field \<open>tx\<close>, looked up by the name of the
  Rust constant: nothing branches on it. The theorems are in \<open>Audit_Verify\<close>.
\<close>

section \<open>Constants, formats and columns\<close>

definition SCHEMA_VERSION :: "32 word" where "SCHEMA_VERSION = 2"

definition SOURCE_TTL_DAYS :: int where "SOURCE_TTL_DAYS = 90"

definition CONTROL_SOURCE_TABLES :: "string list" where
  "CONTROL_SOURCE_TABLES = [''raw_capture_audit'', ''retention_purge_audit'', ''session_revocation_audit'', ''admin_audit'']"

definition SECTION_REQUEST_EVENTS :: string where "SECTION_REQUEST_EVENTS = ''request_events''"

definition SECTION_CONTROL_PLANE :: string where "SECTION_CONTROL_PLANE = ''control_plane_events''"

definition REQUIRED_SECTIONS :: "string list" where
  "REQUIRED_SECTIONS = [SECTION_REQUEST_EVENTS, SECTION_CONTROL_PLANE]"

definition GENESIS_DOMAIN :: string where "GENESIS_DOMAIN = ''secureprompt.audit_export.v1''"

datatype export_format = Csv | Jsonl

fun format_as_str :: "export_format \<Rightarrow> string" where
  "format_as_str Csv = ''csv''"
| "format_as_str Jsonl = ''jsonl''"

definition format_parse :: "string \<Rightarrow> export_format option" where
  "format_parse s = (if s = ''csv'' then Some Csv else if s = ''jsonl'' then Some Jsonl else None)"

fun content_type :: "export_format \<Rightarrow> string" where
  "content_type Csv = ''text/csv; charset=utf-8''"
| "content_type Jsonl = ''application/x-ndjson; charset=utf-8''"

record column_doc =
  cd_name :: string
  cd_meaning :: string

record export_window =
  w_from :: int
  w_to :: int
  w_interpretation :: string

record source_retention =
  sr_source_table :: string
  sr_store :: string
  sr_section :: string
  sr_ttl_days :: "int option"
  sr_boundary :: "int option"
  sr_window_status :: string
  sr_detail :: string
  sr_excluded_rows :: "64 word"
  sr_excluded_reason :: "string option"

record page_entry =
  pe_page :: "32 word"
  pe_section :: string
  pe_rows :: "32 word"
  pe_sha256 :: string
  pe_chain :: string

record section_entry =
  se_section :: string
  se_plane :: string
  se_description :: string
  se_first_page :: "32 word"
  se_last_page :: "32 word"
  se_pages :: "32 word"
  se_rows :: "64 word"
  se_columns :: "column_doc list"
  se_coverage :: string
  se_sources :: "source_retention list"

record manifest =
  mf_schema_version :: "32 word"
  mf_export_id :: uuid
  mf_workspace_id :: uuid
  mf_window :: export_window
  mf_format :: string
  mf_page_size :: "32 word"
  mf_total_rows :: "64 word"
  mf_total_pages :: "32 word"
  mf_chain_genesis :: string
  mf_chain_root :: string
  mf_sections :: "section_entry list"
  mf_pages :: "page_entry list"
  mf_coverage :: string
  mf_signing_key_id :: string
  mf_generated_at :: int
  mf_verification :: string

text \<open>The crates, and the prose by the name of its constant.\<close>

record export_lib =
  sha256 :: "string \<Rightarrow> string"
  hex_encode :: "string \<Rightarrow> string"
  hex_decode :: "string \<Rightarrow> string option"
  b64_encode :: "string \<Rightarrow> string"
  b64_decode :: "string \<Rightarrow> string option"
  verifying_key :: "string \<Rightarrow> string"
  is_verifying_key :: "string \<Rightarrow> bool"
  ed_sign :: "string \<Rightarrow> string \<Rightarrow> string"
  ed_verify :: "string \<Rightarrow> string \<Rightarrow> string \<Rightarrow> bool"
  manifest_text :: "manifest \<Rightarrow> string option"
  parse_manifest :: "string \<Rightarrow> manifest option"
  value_u64 :: "string \<Rightarrow> string \<Rightarrow> nat option option"
  value_text :: "json \<Rightarrow> string"
  instant_json :: "int \<Rightarrow> string option"
  to_rfc3339 :: "int \<Rightarrow> string"
  uuid_text :: "uuid \<Rightarrow> string"
  tx :: "string \<Rightarrow> string"

definition request_column_names :: "string list" where
  "request_column_names =
     [''request_id'', ''workspace_id'', ''created_at'', ''provider'', ''model'', ''final_action'', ''input_tokens'',
      ''output_tokens'', ''estimated_usage'', ''cost_usd'', ''user_id'', ''api_key_id'', ''api_key_name'', ''ip_address'',
      ''user_agent'', ''floor_only'', ''engines'']"

definition REQUEST_COLUMNS :: "export_lib \<Rightarrow> (string \<times> string) list" where
  "REQUEST_COLUMNS lib = map (\<lambda>n. (n, tx lib (''REQUEST_COLUMNS.'' @ n))) request_column_names"

definition control_column_names :: "string list" where
  "control_column_names =
     [''event_id'', ''workspace_id'', ''occurred_at'', ''event_type'', ''source_table'', ''actor_user_id'', ''actor_email'',
      ''actor_role'', ''target_user_id'', ''target_email'', ''target_role'', ''detail'']"

definition CONTROL_COLUMNS :: "export_lib \<Rightarrow> (string \<times> string) list" where
  "CONTROL_COLUMNS lib = map (\<lambda>n. (n, tx lib (''CONTROL_COLUMNS.'' @ n))) control_column_names"

section \<open>Instants, digests and the chain\<close>

text \<open>\<open>manifest_instant\<close>: serde's JSON string of the instant without its quotes.\<close>

definition trim_matches :: "char \<Rightarrow> string \<Rightarrow> string" where
  "trim_matches c s = rev (dropWhile (\<lambda>x. x = c) (rev (dropWhile (\<lambda>x. x = c) s)))"

definition manifest_instant :: "export_lib \<Rightarrow> int \<Rightarrow> string" where
  "manifest_instant lib i = (case instant_json lib i of
     None \<Rightarrow> to_rfc3339 lib i
   | Some quoted \<Rightarrow> trim_matches (CHR 0x22) quoted)"

definition genesis :: "export_lib \<Rightarrow> uuid \<Rightarrow> uuid \<Rightarrow> int \<Rightarrow> int \<Rightarrow> export_format \<Rightarrow> 32 word \<Rightarrow> string" where
  "genesis lib export_id ws from to fmt page_size =
     sha256 lib (concat (map (\<lambda>line. line @ [CHR 0x0A])
       [GENESIS_DOMAIN, uuid_text lib export_id, uuid_text lib ws, manifest_instant lib from, manifest_instant lib to,
        format_as_str fmt, show_nat (unat page_size)]))"

definition chain_step :: "export_lib \<Rightarrow> string \<Rightarrow> string \<Rightarrow> string" where
  "chain_step lib prev digest = sha256 lib (prev @ digest)"

definition from_hex :: "export_lib \<Rightarrow> string \<Rightarrow> string option" where
  "from_hex lib s = Option.bind (hex_decode lib s) (\<lambda>raw. if length raw = 32 then Some raw else None)"

definition key_id :: "export_lib \<Rightarrow> string \<Rightarrow> string" where
  "key_id lib vk = ''sha256:'' @ hex_encode lib (take 8 (sha256 lib vk))"

section \<open>Rows and page bytes\<close>

text \<open>A cost that is not finite is \<open>None\<close>; serde writes it as \<open>null\<close>.\<close>

record export_row =
  xr_request_id :: uuid
  xr_workspace_id :: uuid
  xr_created_at :: int
  xr_provider :: string
  xr_model :: string
  xr_final_action :: string
  xr_input_tokens :: "32 word option"
  xr_output_tokens :: "32 word option"
  xr_estimated_usage :: bool
  xr_cost_usd :: "rat option"
  xr_user_id :: "uuid option"
  xr_api_key_id :: "uuid option"
  xr_api_key_name :: "string option"
  xr_ip_address :: "string option"
  xr_user_agent :: "string option"
  xr_floor_only :: bool
  xr_engines :: "string list"

record control_row =
  cr_event_id :: uuid
  cr_workspace_id :: uuid
  cr_occurred_at :: int
  cr_event_type :: string
  cr_source_table :: string
  cr_actor_user_id :: "uuid option"
  cr_actor_email :: "string option"
  cr_actor_role :: "string option"
  cr_target_user_id :: "uuid option"
  cr_target_email :: "string option"
  cr_target_role :: "string option"
  cr_detail :: json

definition opt_json :: "('a \<Rightarrow> json) \<Rightarrow> 'a option \<Rightarrow> json" where
  "opt_json f v = (case v of None \<Rightarrow> JNull | Some a \<Rightarrow> f a)"

definition json_u32 :: "32 word \<Rightarrow> json" where
  "json_u32 w = JNum (of_nat (unat w))"

text \<open>
  The derived \<open>Serialize\<close> of the two rows, as \<open>serde_json::Map\<close> keeps it: sorted by key. The JSON of an
  instant inside a value is the string \<open>manifest_instant\<close> also reads.
\<close>

definition audit_row_object :: "export_lib \<Rightarrow> export_row \<Rightarrow> (string \<times> json) list" where
  "audit_row_object lib r =
     [(''api_key_id'', opt_json (\<lambda>u. JStr (uuid_text lib u)) (xr_api_key_id r)),
      (''api_key_name'', opt_json JStr (xr_api_key_name r)),
      (''cost_usd'', opt_json JNum (xr_cost_usd r)),
      (''created_at'', JStr (manifest_instant lib (xr_created_at r))),
      (''engines'', JArr (map JStr (xr_engines r))),
      (''estimated_usage'', JBool (xr_estimated_usage r)),
      (''final_action'', JStr (xr_final_action r)),
      (''floor_only'', JBool (xr_floor_only r)),
      (''input_tokens'', opt_json json_u32 (xr_input_tokens r)),
      (''ip_address'', opt_json JStr (xr_ip_address r)),
      (''model'', JStr (xr_model r)),
      (''output_tokens'', opt_json json_u32 (xr_output_tokens r)),
      (''provider'', JStr (xr_provider r)),
      (''request_id'', JStr (uuid_text lib (xr_request_id r))),
      (''user_agent'', opt_json JStr (xr_user_agent r)),
      (''user_id'', opt_json (\<lambda>u. JStr (uuid_text lib u)) (xr_user_id r)),
      (''workspace_id'', JStr (uuid_text lib (xr_workspace_id r)))]"

definition control_row_object :: "export_lib \<Rightarrow> control_row \<Rightarrow> (string \<times> json) list" where
  "control_row_object lib r =
     [(''actor_email'', opt_json JStr (cr_actor_email r)),
      (''actor_role'', opt_json JStr (cr_actor_role r)),
      (''actor_user_id'', opt_json (\<lambda>u. JStr (uuid_text lib u)) (cr_actor_user_id r)),
      (''detail'', cr_detail r),
      (''event_id'', JStr (uuid_text lib (cr_event_id r))),
      (''event_type'', JStr (cr_event_type r)),
      (''occurred_at'', JStr (manifest_instant lib (cr_occurred_at r))),
      (''source_table'', JStr (cr_source_table r)),
      (''target_email'', opt_json JStr (cr_target_email r)),
      (''target_role'', opt_json JStr (cr_target_role r)),
      (''target_user_id'', opt_json (\<lambda>u. JStr (uuid_text lib u)) (cr_target_user_id r)),
      (''workspace_id'', JStr (uuid_text lib (cr_workspace_id r)))]"

definition csv_field :: "string option \<Rightarrow> string" where
  "csv_field v = (case v of
     None \<Rightarrow> []
   | Some s \<Rightarrow> [CHR 0x22] @ str_replace [CHR 0x22] [CHR 0x22, CHR 0x22] s @ [CHR 0x22])"

text \<open>The text of a boolean, a number, an array or an object is \<open>Value\<close>'s compact printing.\<close>

fun json_to_csv_text :: "export_lib \<Rightarrow> json \<Rightarrow> string option" where
  "json_to_csv_text lib JNull = None"
| "json_to_csv_text lib (JStr s) = Some s"
| "json_to_csv_text lib (JBool b) = Some (if b then ''true'' else ''false'')"
| "json_to_csv_text lib (JNum n) = Some (value_text lib (JNum n))"
| "json_to_csv_text lib v = Some (value_text lib v)"

definition csv_line :: "string option list \<Rightarrow> string" where
  "csv_line cells = join_with '','' (map csv_field cells) @ [CHR 0x0A]"

definition row_cells :: "export_lib \<Rightarrow> string list \<Rightarrow> (string \<times> json) list \<Rightarrow> string option list" where
  "row_cells lib columns object =
     map (\<lambda>name. json_to_csv_text lib (unwrap_or JNull (map_of object name))) columns"

definition render_page :: "export_lib \<Rightarrow> string list \<Rightarrow> ('r \<Rightarrow> (string \<times> json) list) \<Rightarrow> 'r list \<Rightarrow> export_format \<Rightarrow> string" where
  "render_page lib columns to_object rows fmt = (case fmt of
     Csv \<Rightarrow> csv_line (map Some columns) @ concat (map (\<lambda>r. csv_line (row_cells lib columns (to_object r))) rows)
   | Jsonl \<Rightarrow> concat (map (\<lambda>r. value_text lib (JObj (to_object r)) @ [CHR 0x0A]) rows))"

section \<open>Sections, retention and the manifest\<close>

record section_input =
  si_section :: string
  si_plane :: string
  si_description :: string
  si_columns :: "(string \<times> string) list"
  si_coverage :: string
  si_sources :: "source_retention list"
  si_pages :: "string list"
  si_rows_per_page :: "32 word list"

definition request_section :: "export_lib \<Rightarrow> string list \<Rightarrow> 32 word list \<Rightarrow> source_retention list \<Rightarrow> section_input" where
  "request_section lib pages rows_per_page sources =
     \<lparr>si_section = SECTION_REQUEST_EVENTS, si_plane = ''data'', si_description = tx lib ''SECTION_REQUEST_DESCRIPTION'',
      si_columns = REQUEST_COLUMNS lib, si_coverage = tx lib ''REQUEST_COVERAGE'', si_sources = sources,
      si_pages = pages, si_rows_per_page = rows_per_page\<rparr>"

definition control_section :: "export_lib \<Rightarrow> string list \<Rightarrow> 32 word list \<Rightarrow> source_retention list \<Rightarrow> section_input" where
  "control_section lib pages rows_per_page sources =
     \<lparr>si_section = SECTION_CONTROL_PLANE, si_plane = ''control'', si_description = tx lib ''SECTION_CONTROL_DESCRIPTION'',
      si_columns = CONTROL_COLUMNS lib, si_coverage = tx lib ''CONTROL_COVERAGE'', si_sources = sources,
      si_pages = pages, si_rows_per_page = rows_per_page\<rparr>"

definition no_expiry_for :: "export_lib \<Rightarrow> string \<Rightarrow> source_retention" where
  "no_expiry_for lib source_table =
     \<lparr>sr_source_table = source_table, sr_store = ''postgres'', sr_section = SECTION_CONTROL_PLANE, sr_ttl_days = None,
      sr_boundary = None, sr_window_status = ''no_expiry'', sr_detail = tx lib ''NO_EXPIRY.detail'', sr_excluded_rows = 0,
      sr_excluded_reason = None\<rparr>"

definition ns_per_day :: int where "ns_per_day = 86400 * 1000000000"

definition retention_for :: "export_lib \<Rightarrow> int \<Rightarrow> int \<Rightarrow> int \<Rightarrow> source_retention" where
  "retention_for lib from to generated_at =
     (let boundary = generated_at - SOURCE_TTL_DAYS * ns_per_day;
          (status, detail) =
            (if to \<le> boundary then (''wholly_expired'', tx lib ''WHOLLY_EXPIRED.detail'')
             else if from < boundary then (''partially_expired'', tx lib ''PARTIALLY_EXPIRED.detail'')
             else (''within_retention'', tx lib ''WITHIN_RETENTION.detail''))
      in \<lparr>sr_source_table = ''request_events'', sr_store = ''clickhouse'', sr_section = SECTION_REQUEST_EVENTS,
          sr_ttl_days = Some SOURCE_TTL_DAYS, sr_boundary = Some boundary, sr_window_status = status, sr_detail = detail,
          sr_excluded_rows = 0, sr_excluded_reason = None\<rparr>)"

record signed_export =
  sx_manifest_json :: string
  sx_signature_b64 :: string
  sx_public_key_b64 :: string
  sx_signing_key_id :: string
  sx_total_rows :: "64 word"
  sx_total_pages :: "32 word"
  sx_page_digests :: "string list"
  sx_rows_per_page :: "32 word list"

datatype build_error = PageRowCountMismatch | EmptySection | BuildSectionSetUnexpected | ManifestSerialization

fun build_error_text :: "build_error \<Rightarrow> string" where
  "build_error_text PageRowCountMismatch = ''page list and row-count list have different lengths''"
| "build_error_text EmptySection = ''a section was offered with no pages at all''"
| "build_error_text BuildSectionSetUnexpected = ''the sections offered are not the ones this schema version requires''"
| "build_error_text ManifestSerialization = ''manifest could not be serialized''"

text \<open>\<open>u32::try_from(n).unwrap_or(u32::MAX)\<close>, and saturating arithmetic on \<open>u32\<close>.\<close>

definition u32_of :: "nat \<Rightarrow> 32 word" where
  "u32_of n = (if n < 2 ^ 32 then of_nat n else - 1)"

definition sat_add1 :: "32 word \<Rightarrow> 32 word" where
  "sat_add1 w = (if w = - 1 then - 1 else w + 1)"

definition sat_sub :: "32 word \<Rightarrow> 32 word \<Rightarrow> 32 word" where
  "sat_sub a b = (if b \<le> a then a - b else 0)"

text \<open>What the loop of \<open>build_manifest\<close> accumulates.\<close>

record build_acc =
  ba_chain :: string
  ba_entries :: "page_entry list"
  ba_digests :: "string list"
  ba_rows_per_page :: "32 word list"
  ba_sections :: "section_entry list"
  ba_all_pages :: "string list"
  ba_total_rows :: "64 word"

definition push_page :: "export_lib \<Rightarrow> string \<Rightarrow> string \<times> 32 word \<Rightarrow> 64 word \<times> build_acc \<Rightarrow> 64 word \<times> build_acc" where
  "push_page lib section page acc = (case (page, acc) of ((bytes, rows), (section_rows, b)) \<Rightarrow>
     let digest = sha256 lib bytes;
         chain = chain_step lib (ba_chain b) digest
     in (section_rows + ucast rows,
         b\<lparr>ba_chain := chain,
           ba_total_rows := ba_total_rows b + ucast rows,
           ba_digests := ba_digests b @ [hex_encode lib digest],
           ba_rows_per_page := ba_rows_per_page b @ [rows],
           ba_all_pages := ba_all_pages b @ [bytes],
           ba_entries := ba_entries b @
             [\<lparr>pe_page = sat_add1 (u32_of (length (ba_entries b))), pe_section = section, pe_rows = rows,
               pe_sha256 = hex_encode lib digest, pe_chain = hex_encode lib chain\<rparr>]\<rparr>))"

definition push_section :: "export_lib \<Rightarrow> section_input \<Rightarrow> build_acc \<Rightarrow> build_acc" where
  "push_section lib input b =
     (let first_page = sat_add1 (u32_of (length (ba_entries b)));
          (section_rows, b') = fold (push_page lib (si_section input)) (zip (si_pages input) (si_rows_per_page input)) (0, b);
          last_page = u32_of (length (ba_entries b'))
      in b'\<lparr>ba_sections := ba_sections b' @
            [\<lparr>se_section = si_section input, se_plane = si_plane input, se_description = si_description input,
              se_first_page = first_page, se_last_page = last_page, se_pages = sat_add1 (sat_sub last_page first_page),
              se_rows = section_rows,
              se_columns = map (\<lambda>(name, meaning). \<lparr>cd_name = name, cd_meaning = meaning\<rparr>) (si_columns input),
              se_coverage = si_coverage input, se_sources = si_sources input\<rparr>]\<rparr>)"

text \<open>The guards before the loop, in the order the code checks them.\<close>

fun check_inputs :: "section_input list \<Rightarrow> (build_error, unit) result" where
  "check_inputs [] = Inr ()"
| "check_inputs (input # inputs) =
     (if length (si_pages input) \<noteq> length (si_rows_per_page input) then Inl PageRowCountMismatch
      else if si_pages input = [] then Inl EmptySection
      else check_inputs inputs)"

definition section_set_ok :: "string list \<Rightarrow> bool" where
  "section_set_ok names = (length names = length REQUIRED_SECTIONS \<and> list_all2 (=) names REQUIRED_SECTIONS)"

definition assemble_manifest ::
  "export_lib \<Rightarrow> uuid \<Rightarrow> uuid \<Rightarrow> int \<Rightarrow> int \<Rightarrow> export_format \<Rightarrow> 32 word \<Rightarrow> section_input list \<Rightarrow> int \<Rightarrow> string
     \<Rightarrow> manifest \<times> build_acc" where
  "assemble_manifest lib export_id ws from to fmt page_size inputs generated_at key =
     (let seed = genesis lib export_id ws from to fmt page_size;
          b = fold (push_section lib) inputs
                \<lparr>ba_chain = seed, ba_entries = [], ba_digests = [], ba_rows_per_page = [], ba_sections = [],
                 ba_all_pages = [], ba_total_rows = 0\<rparr>
      in (\<lparr>mf_schema_version = SCHEMA_VERSION, mf_export_id = export_id, mf_workspace_id = ws,
           mf_window = \<lparr>w_from = from, w_to = to, w_interpretation = tx lib ''WINDOW_INTERPRETATION''\<rparr>,
           mf_format = format_as_str fmt, mf_page_size = page_size, mf_total_rows = ba_total_rows b,
           mf_total_pages = u32_of (length (ba_all_pages b)), mf_chain_genesis = hex_encode lib seed,
           mf_chain_root = hex_encode lib (ba_chain b), mf_sections = ba_sections b, mf_pages = ba_entries b,
           mf_coverage = tx lib ''EXPORT_COVERAGE'', mf_signing_key_id = key_id lib (verifying_key lib key),
           mf_generated_at = generated_at, mf_verification = tx lib ''VERIFICATION_RECIPE''\<rparr>, b))"

definition build_manifest ::
  "export_lib \<Rightarrow> uuid \<Rightarrow> uuid \<Rightarrow> int \<Rightarrow> int \<Rightarrow> export_format \<Rightarrow> 32 word \<Rightarrow> section_input list \<Rightarrow> int \<Rightarrow> string
     \<Rightarrow> (build_error, signed_export) result" where
  "build_manifest lib export_id ws from to fmt page_size inputs generated_at key =
     (if \<not> section_set_ok (map si_section inputs) then Inl BuildSectionSetUnexpected
      else rbind (check_inputs inputs) (\<lambda>_.
        let (m, b) = assemble_manifest lib export_id ws from to fmt page_size inputs generated_at key;
            vk = verifying_key lib key
        in rbind (ok_or (manifest_text lib m) ManifestSerialization) (\<lambda>manifest_json.
             Inr \<lparr>sx_manifest_json = manifest_json, sx_signature_b64 = b64_encode lib (ed_sign lib key manifest_json),
                  sx_public_key_b64 = b64_encode lib vk, sx_signing_key_id = key_id lib vk,
                  sx_total_rows = mf_total_rows m, sx_total_pages = mf_total_pages m,
                  sx_page_digests = ba_digests b, sx_rows_per_page = ba_rows_per_page b\<rparr>)))"

section \<open>The verifier\<close>

datatype verify_error =
    PublicKeyMalformed | SignatureMalformed | SignatureInvalid | ManifestMalformed
  | UnsupportedSchemaVersion "32 word" | ManifestInternallyInconsistent | SectionSetUnexpected
  | SectionPagesNotContiguous "32 word" | SectionRowCountMismatch "32 word" | PageSectionMismatch "32 word"
  | GenesisMismatch | PageCountMismatch "32 word" "32 word" | PageDigestMismatch "32 word"
  | ChainBroken "32 word" | ChainRootMismatch | RowCountMismatch "64 word" "64 word"

definition sized :: "nat \<Rightarrow> string option \<Rightarrow> string option" where
  "sized n v = Option.bind v (\<lambda>bytes. if length bytes = n then Some bytes else None)"

definition verify_signature :: "export_lib \<Rightarrow> string \<Rightarrow> string \<Rightarrow> string \<Rightarrow> (verify_error, unit) result" where
  "verify_signature lib manifest_json signature_b64 public_key_b64 =
     rbind (ok_or (sized 32 (b64_decode lib public_key_b64)) PublicKeyMalformed) (\<lambda>key.
     if \<not> is_verifying_key lib key then Inl PublicKeyMalformed
     else rbind (ok_or (sized 64 (b64_decode lib signature_b64)) SignatureMalformed) (\<lambda>sig.
     if \<not> ed_verify lib key manifest_json sig then Inl SignatureInvalid else Inr ()))"

text \<open>
  \<open>value_u64 text key\<close> is what \<open>serde_json\<close> finds: nothing when the text is not JSON, otherwise the value
  of the top-level member when \<open>Value::as_u64\<close> reads it.
\<close>

definition read_manifest :: "export_lib \<Rightarrow> string \<Rightarrow> (verify_error, manifest) result" where
  "read_manifest lib manifest_json =
     rbind (ok_or (value_u64 lib manifest_json ''schema_version'') ManifestMalformed) (\<lambda>member.
     rbind (ok_or (Option.bind member (\<lambda>v. if v < 2 ^ 32 then Some (of_nat v) else None)) ManifestMalformed) (\<lambda>declared.
     if declared \<noteq> SCHEMA_VERSION then Inl (UnsupportedSchemaVersion declared)
     else ok_or (parse_manifest lib manifest_json) ManifestMalformed))"

text \<open>The header: the page list against its count, the format, the chain seed, and the pages supplied.\<close>

definition verify_header :: "export_lib \<Rightarrow> manifest \<Rightarrow> nat \<Rightarrow> (verify_error, string) result" where
  "verify_header lib m supplied =
     (if length (mf_pages m) \<noteq> unat (mf_total_pages m) then Inl ManifestInternallyInconsistent
      else rbind (ok_or (format_parse (mf_format m)) ManifestInternallyInconsistent) (\<lambda>fmt.
        let seed = genesis lib (mf_export_id m) (mf_workspace_id m) (w_from (mf_window m)) (w_to (mf_window m)) fmt (mf_page_size m);
            got = u32_of supplied
        in if hex_encode lib seed \<noteq> mf_chain_genesis m then Inl GenesisMismatch
           else if got \<noteq> mf_total_pages m then Inl (PageCountMismatch (mf_total_pages m) got)
           else if \<not> section_set_ok (map se_section (mf_sections m)) then Inl SectionSetUnexpected
           else Inr seed))"

text \<open>The rows of the pages \<open>i, i + 1, \<dots>, i + n - 1\<close> (counted from 0) that a section claims.\<close>

fun section_pages :: "page_entry list \<Rightarrow> string \<Rightarrow> nat \<Rightarrow> nat \<Rightarrow> 64 word \<Rightarrow> (verify_error, 64 word) result" where
  "section_pages entries name i 0 acc = Inr acc"
| "section_pages entries name i (Suc n) acc =
     (if length entries \<le> i then Inl ManifestInternallyInconsistent
      else let entry = entries ! i in
        if pe_section entry \<noteq> name then Inl (PageSectionMismatch (pe_page entry))
        else section_pages entries name (Suc i) n (acc + ucast (pe_rows entry)))"

fun verify_sections :: "page_entry list \<Rightarrow> nat \<Rightarrow> 32 word \<Rightarrow> section_entry list \<Rightarrow> (verify_error, 32 word) result" where
  "verify_sections entries index next_page [] = Inr next_page"
| "verify_sections entries index next_page (s # ss) =
     (if se_first_page s \<noteq> next_page \<or> se_last_page s < se_first_page s \<or>
         se_pages s \<noteq> se_last_page s - se_first_page s + 1
      then Inl (SectionPagesNotContiguous (u32_of index))
      else rbind (section_pages entries (se_section s) (unat (se_first_page s) - 1)
                    (unat (se_last_page s) + 1 - unat (se_first_page s)) 0) (\<lambda>section_rows.
        if section_rows \<noteq> se_rows s then Inl (SectionRowCountMismatch (u32_of index))
        else verify_sections entries (Suc index) (sat_add1 (se_last_page s)) ss))"

fun verify_pages :: "export_lib \<Rightarrow> nat \<Rightarrow> page_entry list \<Rightarrow> string list \<Rightarrow> (verify_error, unit) result" where
  "verify_pages lib index (entry # entries) (bytes # pages) =
     (if unat (pe_page entry) \<noteq> index + 1 then Inl ManifestInternallyInconsistent
      else if hex_encode lib (sha256 lib bytes) \<noteq> pe_sha256 entry then Inl (PageDigestMismatch (pe_page entry))
      else verify_pages lib (Suc index) entries pages)"
| "verify_pages lib index _ _ = Inr ()"

fun verify_chain :: "export_lib \<Rightarrow> string \<Rightarrow> 64 word \<Rightarrow> page_entry list \<Rightarrow> (verify_error, string \<times> 64 word) result" where
  "verify_chain lib chain summed [] = Inr (chain, summed)"
| "verify_chain lib chain summed (entry # entries) =
     rbind (ok_or (from_hex lib (pe_sha256 entry)) ManifestMalformed) (\<lambda>digest.
     let chain' = chain_step lib chain digest in
     if hex_encode lib chain' \<noteq> pe_chain entry then Inl (ChainBroken (pe_page entry))
     else verify_chain lib chain' (summed + ucast (pe_rows entry)) entries)"

definition verify_body :: "export_lib \<Rightarrow> manifest \<Rightarrow> string list \<Rightarrow> (verify_error, unit) result" where
  "verify_body lib m pages =
     rbind (verify_header lib m (length pages)) (\<lambda>seed.
     rbind (verify_sections (mf_pages m) 0 1 (mf_sections m)) (\<lambda>next_page.
     if sat_sub next_page 1 \<noteq> mf_total_pages m then Inl ManifestInternallyInconsistent
     else rbind (verify_pages lib 0 (mf_pages m) pages) (\<lambda>_.
     rbind (verify_chain lib seed 0 (mf_pages m)) (\<lambda>(chain, summed).
     if hex_encode lib chain \<noteq> mf_chain_root m then Inl ChainRootMismatch
     else if summed \<noteq> mf_total_rows m then Inl (RowCountMismatch (mf_total_rows m) summed)
     else Inr ()))))"

definition verify_export :: "export_lib \<Rightarrow> string \<Rightarrow> string \<Rightarrow> string \<Rightarrow> string list \<Rightarrow> (verify_error, manifest) result" where
  "verify_export lib manifest_json signature_b64 public_key_b64 pages =
     rbind (verify_signature lib manifest_json signature_b64 public_key_b64) (\<lambda>_.
     rbind (read_manifest lib manifest_json) (\<lambda>m.
     rbind (verify_body lib m pages) (\<lambda>_. Inr m)))"

section \<open>The signing key\<close>

datatype key_error = NotConfigured | Malformed

definition parse_signing_key :: "export_lib \<Rightarrow> string \<Rightarrow> (key_error, string) result" where
  "parse_signing_key lib configured =
     (let trimmed = trim configured;
          from_b64 = ok_or (sized 32 (b64_decode lib trimmed)) Malformed
      in if trimmed = [] then Inl NotConfigured
         else if length trimmed = 64 then (case from_hex lib trimmed of Some bytes \<Rightarrow> Inr bytes | None \<Rightarrow> from_b64)
         else from_b64)"

definition signing_key_from_env :: "export_lib \<Rightarrow> string option \<Rightarrow> (key_error, string) result" where
  "signing_key_from_env lib var = (case var of None \<Rightarrow> Inl NotConfigured | Some raw \<Rightarrow> parse_signing_key lib raw)"

end
