(* ===== verification/Audit_Verify.thy ===== *)
theory Audit_Verify
  imports Audit_Export
begin

text \<open>
  What the signed export guarantees: the verifier's loops accept what the builder's loops produce and
  nothing else up to SHA-256 (\<open>verify_export_built\<close>), an accepted manifest is well formed, and a CSV page
  reads back. What the documentation of the crates promises is the predicate \<open>export_crates\<close>.
\<close>

section \<open>What the crates promise\<close>

definition export_crates :: "export_lib \<Rightarrow> bool" where
  "export_crates lib \<longleftrightarrow>
     (\<forall>b. length (sha256 lib b) = 32) \<and> (\<forall>b. hex_decode lib (hex_encode lib b) = Some b) \<and>
     (\<forall>b. b64_decode lib (b64_encode lib b) = Some b) \<and>
     (\<forall>k. length k = 32 \<longrightarrow> length (verifying_key lib k) = 32 \<and> is_verifying_key lib (verifying_key lib k)) \<and>
     (\<forall>k t. length k = 32 \<longrightarrow> length (ed_sign lib k t) = 64 \<and> ed_verify lib (verifying_key lib k) t (ed_sign lib k t)) \<and>
     (\<forall>m t. manifest_text lib m = Some t \<longrightarrow> parse_manifest lib t = Some m \<and>
        value_u64 lib t ''schema_version'' = Some (Some (unat (mf_schema_version m))))"

lemma hex_encode_inj: "export_crates lib \<Longrightarrow> hex_encode lib a = hex_encode lib b \<longleftrightarrow> a = b"
  unfolding export_crates_def by (metis option.inject)

lemma from_hex_encode: "export_crates lib \<Longrightarrow> length b = 32 \<Longrightarrow> from_hex lib (hex_encode lib b) = Some b"
  by (simp add: export_crates_def from_hex_def)

section \<open>The builder's pages pass the verifier's loops\<close>

lemma unat_u32_of: "n < 2 ^ 32 \<Longrightarrow> unat (u32_of n) = n"
  by (simp add: u32_of_def unat_of_nat)

lemma u32_of_inj: "m < 2 ^ 32 - 1 \<Longrightarrow> u32_of n = u32_of m \<longleftrightarrow> n = m"
  by (auto simp: u32_of_def unat_of_nat word_unat_eq_iff unsigned_minus_1_eq_mask mask_eq_exp_minus_1)

lemma sat_add1_u32_of: "n < 2 ^ 32 - 1 \<Longrightarrow> sat_add1 (u32_of n) = u32_of (Suc n)"
  by (auto simp: sat_add1_def u32_of_def word_unat_eq_iff unat_of_nat unat_word_ariths unsigned_minus_1_eq_mask mask_eq_exp_minus_1)

lemma section_pages_mono:
  "section_pages es name i n acc = Inr r \<Longrightarrow> section_pages (es @ es') name i n acc = Inr r"
  by (induction n arbitrary: i acc) (auto simp: nth_append Let_def split: if_splits)

lemma verify_sections_mono:
  "verify_sections es k nx ss = Inr nx' \<Longrightarrow> verify_sections (es @ es') k nx ss = Inr nx'"
  by (induction ss arbitrary: k nx) (auto simp: rbind_Inr section_pages_mono split: if_splits)

lemma verify_sections_append:
  "verify_sections es k nx (ss @ ss') = rbind (verify_sections es k nx ss) (\<lambda>nx'. verify_sections es (k + length ss) nx' ss')"
  by (induction ss arbitrary: k nx) (auto simp: rbind_def split: sum.splits)

lemma verify_chain_append:
  "verify_chain lib c n (es @ es') = rbind (verify_chain lib c n es) (\<lambda>(c', n'). verify_chain lib c' n' es')"
  by (induction es arbitrary: c n) (auto simp: rbind_def Let_def ok_or_def split: sum.splits option.splits)

definition acc_ok :: "export_lib \<Rightarrow> string \<Rightarrow> build_acc \<Rightarrow> bool" where
  "acc_ok lib seed b \<longleftrightarrow>
     verify_chain lib seed 0 (ba_entries b) = Inr (ba_chain b, ba_total_rows b) \<and>
     map pe_sha256 (ba_entries b) = map (\<lambda>p. hex_encode lib (sha256 lib p)) (ba_all_pages b) \<and>
     map (\<lambda>e. unat (pe_page e)) (ba_entries b) = [1 ..< Suc (length (ba_entries b))]"

lemma acc_ok_length: "acc_ok lib seed b \<Longrightarrow> length (ba_all_pages b) = length (ba_entries b)"
  unfolding acc_ok_def by (metis length_map)

lemma push_page_ok:
  assumes "export_crates lib" "acc_ok lib seed b" "length (ba_entries b) < 2 ^ 32 - 1"
  shows "acc_ok lib seed (snd (push_page lib s (p, r) (n, b)))"
proof -
  have "from_hex lib (hex_encode lib (sha256 lib p)) = Some (sha256 lib p)"
    using assms(1) by (intro from_hex_encode) (simp_all add: export_crates_def)
  with assms(2,3) show ?thesis
    by (simp add: acc_ok_def push_page_def Let_def verify_chain_append ok_or_def sat_add1_u32_of unat_u32_of)
qed

lemma push_pages_ok:
  assumes "export_crates lib"
  shows "acc_ok lib seed b \<Longrightarrow> length (ba_entries b) + length ps < 2 ^ 32 \<Longrightarrow>
    \<exists>es b'. fold (push_page lib s) ps (n, b) = (n + sum_list (map (\<lambda>e. ucast (pe_rows e)) es), b') \<and>
      acc_ok lib seed b' \<and> ba_entries b' = ba_entries b @ es \<and> length es = length ps \<and>
      (\<forall>e \<in> set es. pe_section e = s) \<and> ba_all_pages b' = ba_all_pages b @ map fst ps \<and> ba_sections b' = ba_sections b"
proof (induction ps arbitrary: n b)
  case (Cons pr ps)
  obtain p r where pr: "pr = (p, r)" by (cases pr)
  obtain n1 b1 where s1: "push_page lib s (p, r) (n, b) = (n1, b1)" by fastforce
  then obtain e where e: "ba_entries b1 = ba_entries b @ [e]" "pe_section e = s" "n1 = n + ucast (pe_rows e)"
    "ba_all_pages b1 = ba_all_pages b @ [p]" "ba_sections b1 = ba_sections b"
    by (auto simp: push_page_def Let_def)
  have "acc_ok lib seed b1"
    using push_page_ok [OF assms Cons.prems(1), of s p r n] Cons.prems(2) s1 by simp
  moreover have "length (ba_entries b1) + length ps < 2 ^ 32"
    using Cons.prems(2) e(1) by simp
  ultimately obtain es b' where "fold (push_page lib s) ps (n1, b1) = (n1 + sum_list (map (\<lambda>e. ucast (pe_rows e)) es), b')"
    "acc_ok lib seed b'" "ba_entries b' = ba_entries b1 @ es" "length es = length ps"
    "\<forall>e \<in> set es. pe_section e = s" "ba_all_pages b' = ba_all_pages b1 @ map fst ps" "ba_sections b' = ba_sections b1"
    using Cons.IH [of b1 n1] by blast
  with e s1 pr show ?case by (intro exI [of _ "e # es"] exI [of _ b']) (simp add: add.assoc)
qed simp

lemma section_pages_slice:
  "\<forall>e \<in> set es. pe_section e = s \<Longrightarrow>
   section_pages (es0 @ es) s (length es0) (length es) acc = Inr (acc + sum_list (map (\<lambda>e. ucast (pe_rows e)) es))"
proof (induction es arbitrary: es0 acc)
  case (Cons e es)
  then show ?case using Cons.IH [of "es0 @ [e]"] by (simp add: Let_def nth_append add.assoc)
qed simp

lemma page_range:
  assumes "0 < n" "a + n < 2 ^ 32 - 1"
  shows "u32_of (Suc a) \<le> u32_of (a + n)"
    "sat_add1 (sat_sub (u32_of (a + n)) (u32_of (Suc a))) = u32_of (a + n) - u32_of (Suc a) + 1"
proof -
  have u: "unat (u32_of (Suc a)) = Suc a" "unat (u32_of (a + n)) = a + n"
    using assms by (auto intro!: unat_u32_of)
  then show le: "u32_of (Suc a) \<le> u32_of (a + n)" using assms(1) by (simp add: word_le_nat_alt)
  have "unat (u32_of (a + n) - u32_of (Suc a)) = n - 1" using u unat_sub [OF le] by simp
  then have "u32_of (a + n) - u32_of (Suc a) \<noteq> - 1"
    using assms by (auto simp: unsigned_minus_1_eq_mask mask_eq_exp_minus_1)
  with le show "sat_add1 (sat_sub (u32_of (a + n)) (u32_of (Suc a))) = u32_of (a + n) - u32_of (Suc a) + 1"
    by (simp add: sat_add1_def sat_sub_def)
qed

definition sections_ok :: "build_acc \<Rightarrow> bool" where
  "sections_ok b = (verify_sections (ba_entries b) 0 1 (ba_sections b) = Inr (u32_of (Suc (length (ba_entries b)))))"

lemma push_section_ok:
  assumes lib: "export_crates lib" and ok: "acc_ok lib seed b" "sections_ok b"
    and inp: "length (si_pages i) = length (si_rows_per_page i)" "si_pages i \<noteq> []"
    and fit: "length (ba_entries b) + length (si_pages i) < 2 ^ 32 - 1"
  shows "acc_ok lib seed (push_section lib i b)" "sections_ok (push_section lib i b)"
    "ba_all_pages (push_section lib i b) = ba_all_pages b @ si_pages i"
    "length (ba_entries (push_section lib i b)) = length (ba_entries b) + length (si_pages i)"
    "map se_section (ba_sections (push_section lib i b)) = map se_section (ba_sections b) @ [si_section i]"
proof -
  let ?ps = "zip (si_pages i) (si_rows_per_page i)"
  have "length (ba_entries b) + length ?ps < 2 ^ 32" using inp fit by simp
  from push_pages_ok [OF lib ok(1) this, of "si_section i" 0] obtain es b' where
    f: "fold (push_page lib (si_section i)) ?ps (0, b) = (sum_list (map (\<lambda>e. ucast (pe_rows e)) es), b')"
    and b': "acc_ok lib seed b'" "ba_entries b' = ba_entries b @ es" "length es = length (si_pages i)"
      "\<forall>e \<in> set es. pe_section e = si_section i" "ba_all_pages b' = ba_all_pages b @ si_pages i" "ba_sections b' = ba_sections b"
    using inp by auto
  have w: "sat_add1 (u32_of (length (ba_entries b))) = u32_of (Suc (length (ba_entries b)))"
    "sat_add1 (u32_of (length (ba_entries b) + length es)) = u32_of (Suc (length (ba_entries b) + length es))"
    using fit b'(3) by (auto intro!: sat_add1_u32_of)
  show "acc_ok lib seed (push_section lib i b)" 
    using b' by (simp add: push_section_def f Let_def acc_ok_def)
  show "ba_all_pages (push_section lib i b) = ba_all_pages b @ si_pages i"
    "length (ba_entries (push_section lib i b)) = length (ba_entries b) + length (si_pages i)"
    "map se_section (ba_sections (push_section lib i b)) = map se_section (ba_sections b) @ [si_section i]"
    using b' by (simp_all add: push_section_def f Let_def)
  have u: "unat (u32_of (Suc (length (ba_entries b)))) = Suc (length (ba_entries b))"
    "unat (u32_of (length (ba_entries b) + length es)) = length (ba_entries b) + length es"
    using fit b'(3) inp by (auto intro!: unat_u32_of)
  have r: "u32_of (Suc (length (ba_entries b))) \<le> u32_of (length (ba_entries b) + length es)"
    "sat_add1 (sat_sub (u32_of (length (ba_entries b) + length es)) (u32_of (Suc (length (ba_entries b)))))
      = u32_of (length (ba_entries b) + length es) - u32_of (Suc (length (ba_entries b))) + 1"
    using inp(2) fit b'(3) by (auto intro!: page_range)
  show "sections_ok (push_section lib i b)"
    using ok(2) section_pages_slice [OF b'(4), of "ba_entries b" 0] r(1)
    by (simp add: sections_ok_def push_section_def f Let_def b'(1,2,4,5,6) w u r(2) verify_sections_append verify_sections_mono
        linorder_not_less)
qed

lemma verify_pages_iff:
  "length pages = length es \<Longrightarrow> map (\<lambda>e. unat (pe_page e)) es = [Suc k ..< Suc k + length es] \<Longrightarrow>
   verify_pages lib k es pages = Inr () \<longleftrightarrow> map pe_sha256 es = map (\<lambda>p. hex_encode lib (sha256 lib p)) pages"
proof (induction lib k es pages rule: verify_pages.induct)
  case (1 lib k e es p ps)
  then show ?case by (auto simp: upt_conv_Cons simp del: upt_Suc)
qed auto


lemma push_sections_ok:
  assumes lib: "export_crates lib"
  shows "check_inputs inputs = Inr () \<Longrightarrow> acc_ok lib seed b \<Longrightarrow> sections_ok b \<Longrightarrow>
    length (ba_entries b) + length (concat (map si_pages inputs)) < 2 ^ 32 - 1 \<Longrightarrow>
    (let b' = fold (push_section lib) inputs b in
       acc_ok lib seed b' \<and> sections_ok b' \<and> ba_all_pages b' = ba_all_pages b @ concat (map si_pages inputs) \<and>
       map se_section (ba_sections b') = map se_section (ba_sections b) @ map si_section inputs)"
proof (induction inputs arbitrary: b)
  case (Cons i inputs)
  note inp = Cons.prems(1)
  from inp have i: "length (si_pages i) = length (si_rows_per_page i)" "si_pages i \<noteq> []" "check_inputs inputs = Inr ()"
    by (auto split: if_splits)
  have fit: "length (ba_entries b) + length (si_pages i) < 2 ^ 32 - 1" using Cons.prems(4) by simp
  note step = push_section_ok [OF lib Cons.prems(2,3) i(1,2) fit]
  have "length (ba_entries (push_section lib i b)) + length (concat (map si_pages inputs)) < 2 ^ 32 - 1"
    using Cons.prems(4) step(4) by simp
  from Cons.IH [OF i(3) step(1,2) this] show ?case by (simp add: step(3,5) Let_def)
qed (simp add: Let_def)

lemma sat_sub_next: "n < 2 ^ 32 - 1 \<Longrightarrow> sat_sub (u32_of (Suc n)) 1 = u32_of n"
  by (simp add: sat_sub_def u32_of_def word_le_nat_alt unat_of_nat del: of_nat_Suc) simp

lemma format_parse_as_str [simp]: "format_parse (format_as_str f) = Some f"
  by (cases f) (simp_all add: format_parse_def)

lemma hex_digests_eq:
  assumes "export_crates lib"
  shows "map (\<lambda>p. hex_encode lib (sha256 lib p)) ps = map (\<lambda>p. hex_encode lib (sha256 lib p)) qs \<longleftrightarrow>
    map (sha256 lib) ps = map (sha256 lib) qs"
proof -
  have "inj (hex_encode lib)" using hex_encode_inj [OF assms] by (simp add: inj_def)
  from inj_map_eq_map [OF this, of "map (sha256 lib) ps" "map (sha256 lib) qs"] show ?thesis by (simp add: comp_def)
qed

lemma verify_body_built:
  assumes lib: "export_crates lib" and names: "section_set_ok (map si_section inputs)" and inp: "check_inputs inputs = Inr ()"
    and fit: "length (concat (map si_pages inputs)) < 2 ^ 32 - 1"
    and m: "fst (assemble_manifest lib export_id ws from to fmt page_size inputs generated_at key) = m"
  shows "verify_body lib m pages = Inr () \<longleftrightarrow>
    map (sha256 lib) pages = map (sha256 lib) (concat (map si_pages inputs))"
proof -
  let ?seed = "genesis lib export_id ws from to fmt page_size"
  let ?b0 = "\<lparr>ba_chain = ?seed, ba_entries = [], ba_digests = [], ba_rows_per_page = [], ba_sections = [],
                 ba_all_pages = [], ba_total_rows = 0\<rparr>"
  define b where "b = fold (push_section lib) inputs ?b0"
  have "acc_ok lib ?seed ?b0" "sections_ok ?b0" by (simp_all add: acc_ok_def sections_ok_def u32_of_def)
  from push_sections_ok [OF lib inp this] fit
  have b: "acc_ok lib ?seed b" "sections_ok b" "ba_all_pages b = concat (map si_pages inputs)"
    "map se_section (ba_sections b) = map si_section inputs"
    by (simp_all add: b_def Let_def)
  note len = acc_ok_length [OF b(1)]
  have n: "length (ba_entries b) < 2 ^ 32 - 1" using fit len b(3) by simp
  have fields: "mf_pages m = ba_entries b" "mf_sections m = ba_sections b" "mf_total_pages m = u32_of (length (ba_entries b))"
    "mf_chain_root m = hex_encode lib (ba_chain b)" "mf_total_rows m = ba_total_rows b"
    "mf_export_id m = export_id" "mf_workspace_id m = ws" "w_from (mf_window m) = from" "w_to (mf_window m) = to"
    "mf_format m = format_as_str fmt" "mf_page_size m = page_size" "mf_chain_genesis m = hex_encode lib ?seed"
    by (simp_all add: m [symmetric] assemble_manifest_def b_def [symmetric] Let_def len)
  have header: "verify_header lib m k = (if k = length (ba_entries b) then Inr ?seed
      else Inl (PageCountMismatch (u32_of (length (ba_entries b))) (u32_of k)))" for k
    using n names u32_of_inj [OF n]
    by (simp add: verify_header_def fields Let_def unat_u32_of ok_or_def b(4))
  have "verify_body lib m pages = Inr () \<longleftrightarrow>
      length pages = length (ba_entries b) \<and> verify_pages lib 0 (ba_entries b) pages = Inr ()"
    using b(1,2) by (auto simp: verify_body_def header fields sections_ok_def acc_ok_def sat_sub_next [OF n] rbind_def
        split: sum.splits)
  also have "\<dots> \<longleftrightarrow> length pages = length (ba_entries b) \<and>
      map pe_sha256 (ba_entries b) = map (\<lambda>p. hex_encode lib (sha256 lib p)) pages"
    using verify_pages_iff [of pages "ba_entries b" 0 lib] b(1) by (auto simp: acc_ok_def)
  also have "\<dots> \<longleftrightarrow> map (\<lambda>p. hex_encode lib (sha256 lib p)) (ba_all_pages b) = map (\<lambda>p. hex_encode lib (sha256 lib p)) pages"
    using b(1) len by (auto simp: acc_ok_def dest: map_eq_imp_length_eq)
  also have "\<dots> \<longleftrightarrow> map (sha256 lib) pages = map (sha256 lib) (ba_all_pages b)"
    by (auto simp: hex_digests_eq [OF lib])
  finally show ?thesis by (simp add: b(3))
qed

lemma verify_export_built:
  assumes "export_crates lib" "length key = 32"
    and "build_manifest lib export_id ws from to fmt page_size inputs generated_at key = Inr sx"
    and "length (concat (map si_pages inputs)) < 2 ^ 32 - 1"
  shows "verify_export lib (sx_manifest_json sx) (sx_signature_b64 sx) (sx_public_key_b64 sx) pages = Inr m \<longleftrightarrow>
    m = fst (assemble_manifest lib export_id ws from to fmt page_size inputs generated_at key) \<and>
    map (sha256 lib) pages = map (sha256 lib) (concat (map si_pages inputs))"
proof -
  let ?m = "fst (assemble_manifest lib export_id ws from to fmt page_size inputs generated_at key)"
  from assms(3) have b: "section_set_ok (map si_section inputs)" "check_inputs inputs = Inr ()"
    "manifest_text lib ?m = Some (sx_manifest_json sx)"
    "sx_signature_b64 sx = b64_encode lib (ed_sign lib key (sx_manifest_json sx))"
    "sx_public_key_b64 sx = b64_encode lib (verifying_key lib key)"
    by (auto simp: build_manifest_def rbind_Inr Let_def split: if_splits prod.splits)
  have sig: "verify_signature lib (sx_manifest_json sx) (sx_signature_b64 sx) (sx_public_key_b64 sx) = Inr ()"
    using assms(1,2) by (simp add: verify_signature_def b(4,5) export_crates_def sized_def ok_or_def)
  have "mf_schema_version ?m = 2" by (simp add: assemble_manifest_def Let_def SCHEMA_VERSION_def)
  then have "read_manifest lib (sx_manifest_json sx) = Inr ?m"
    using assms(1) b(3) by (auto simp: read_manifest_def export_crates_def ok_or_def SCHEMA_VERSION_def)
  then show ?thesis
    using verify_body_built [OF assms(1) b(1,2) assms(4) refl, of export_id ws "from" to fmt page_size generated_at key pages]
    by (auto simp: verify_export_def sig rbind_Inr)
qed

definition export_demo_base :: export_lib where
  "export_demo_base =
     \<lparr>sha256 = (\<lambda>s. take 32 (s @ replicate 32 (CHR ''0''))), hex_encode = id, hex_decode = Some, b64_encode = id,
      b64_decode = Some, verifying_key = id, is_verifying_key = (\<lambda>k. True),
      ed_sign = (\<lambda>k t. take 64 (k @ t @ replicate 64 (CHR ''0''))),
      ed_verify = (\<lambda>k t s. s = take 64 (k @ t @ replicate 64 (CHR ''0''))),
      manifest_text = (\<lambda>m. None), parse_manifest = (\<lambda>t. None), value_u64 = (\<lambda>t k. None), value_text = (\<lambda>v. ''v''),
      instant_json = (\<lambda>i. None), to_rfc3339 = (\<lambda>i. ''t''), uuid_text = (\<lambda>u. ''u''), tx = (\<lambda>n. n)\<rparr>"

definition export_demo_inputs :: "section_input list" where
  "export_demo_inputs = [request_section export_demo_base [''a'', ''b''] [1, 2] [], control_section export_demo_base [''c''] [3] []]"

definition export_demo_manifest :: manifest where
  "export_demo_manifest =
     fst (assemble_manifest export_demo_base 1 2 0 9 Csv 10 export_demo_inputs 5 (replicate 32 (CHR ''k'')))"

text \<open>Crates that print and read back one manifest: the laws of \<open>export_crates\<close> are satisfiable.\<close>

definition with_manifest :: "export_lib \<Rightarrow> manifest \<Rightarrow> export_lib" where
  "with_manifest lib m = lib\<lparr>manifest_text := \<lambda>m'. if m' = m then Some ''m'' else None,
     parse_manifest := \<lambda>t. Some m, value_u64 := \<lambda>t k. Some (Some 2)\<rparr>"

lemma with_manifest_fields [simp]:
  "sha256 (with_manifest lib m) = sha256 lib" "hex_encode (with_manifest lib m) = hex_encode lib"
  "hex_decode (with_manifest lib m) = hex_decode lib" "b64_encode (with_manifest lib m) = b64_encode lib"
  "b64_decode (with_manifest lib m) = b64_decode lib" "verifying_key (with_manifest lib m) = verifying_key lib"
  "is_verifying_key (with_manifest lib m) = is_verifying_key lib" "ed_sign (with_manifest lib m) = ed_sign lib"
  "ed_verify (with_manifest lib m) = ed_verify lib" "value_text (with_manifest lib m) = value_text lib"
  "instant_json (with_manifest lib m) = instant_json lib" "to_rfc3339 (with_manifest lib m) = to_rfc3339 lib"
  "uuid_text (with_manifest lib m) = uuid_text lib" "tx (with_manifest lib m) = tx lib"
  "manifest_text (with_manifest lib m) m = Some ''m''"
  by (simp_all add: with_manifest_def)

lemma with_manifest_parts [simp]:
  "manifest_instant (with_manifest lib m) = manifest_instant lib" "genesis (with_manifest lib m) = genesis lib"
  "key_id (with_manifest lib m) = key_id lib" "push_page (with_manifest lib m) = push_page lib"
  "push_section (with_manifest lib m) = push_section lib" "assemble_manifest (with_manifest lib m) = assemble_manifest lib"
  "request_section (with_manifest lib m) = request_section lib" "control_section (with_manifest lib m) = control_section lib"
  "retention_for (with_manifest lib m) = retention_for lib" "no_expiry_for (with_manifest lib m) = no_expiry_for lib"
proof -
  show i: "manifest_instant (with_manifest lib m) = manifest_instant lib" by (simp add: fun_eq_iff manifest_instant_def split: option.split)
  show g: "genesis (with_manifest lib m) = genesis lib" by (simp add: fun_eq_iff genesis_def i)
  show k: "key_id (with_manifest lib m) = key_id lib" by (simp add: fun_eq_iff key_id_def)
  show p: "push_page (with_manifest lib m) = push_page lib" by (simp add: fun_eq_iff push_page_def chain_step_def)
  show s: "push_section (with_manifest lib m) = push_section lib" by (simp add: fun_eq_iff push_section_def p)
  show "assemble_manifest (with_manifest lib m) = assemble_manifest lib" by (simp add: fun_eq_iff assemble_manifest_def s g k)
  show "request_section (with_manifest lib m) = request_section lib" "control_section (with_manifest lib m) = control_section lib"
    "retention_for (with_manifest lib m) = retention_for lib" "no_expiry_for (with_manifest lib m) = no_expiry_for lib"
    by (simp_all add: fun_eq_iff request_section_def control_section_def REQUEST_COLUMNS_def CONTROL_COLUMNS_def
        retention_for_def no_expiry_for_def Let_def)
qed

lemma export_demo_base_crates: "mf_schema_version m = 2 \<Longrightarrow> export_crates (with_manifest export_demo_base m)"
  by (simp add: export_crates_def with_manifest_def export_demo_base_def min_def)

definition export_demo :: export_lib where
  "export_demo = with_manifest export_demo_base export_demo_manifest"

lemma export_demo_crates: "export_crates export_demo"
  unfolding export_demo_def
  by (rule export_demo_base_crates) (simp add: export_demo_manifest_def assemble_manifest_def Let_def SCHEMA_VERSION_def)

lemma export_demo_assemble:
  "fst (assemble_manifest export_demo 1 2 0 9 Csv 10 export_demo_inputs 5 (replicate 32 (CHR ''k''))) = export_demo_manifest"
  by (simp add: export_demo_def export_demo_manifest_def)

lemma export_demo_build:
  "build_manifest export_demo 1 2 0 9 Csv 10 export_demo_inputs 5 (replicate 32 (CHR ''k'')) = Inr sx \<Longrightarrow>
   sx_manifest_json sx = ''m'' \<and> sx_signature_b64 sx = ed_sign export_demo (replicate 32 (CHR ''k'')) ''m'' \<and>
   sx_public_key_b64 sx = replicate 32 (CHR ''k'')"
  "\<exists>sx. build_manifest export_demo 1 2 0 9 Csv 10 export_demo_inputs 5 (replicate 32 (CHR ''k'')) = Inr sx"
proof -
  have "section_set_ok (map si_section export_demo_inputs)" "check_inputs export_demo_inputs = Inr ()"
    by (simp_all add: export_demo_inputs_def request_section_def control_section_def section_set_ok_def REQUIRED_SECTIONS_def)
  moreover have "manifest_text export_demo export_demo_manifest = Some ''m''" by (simp add: export_demo_def)
  moreover have "b64_encode export_demo = id" "verifying_key export_demo = id"
    by (simp_all add: export_demo_def export_demo_base_def)
  ultimately show "build_manifest export_demo 1 2 0 9 Csv 10 export_demo_inputs 5 (replicate 32 (CHR ''k'')) = Inr sx \<Longrightarrow>
   sx_manifest_json sx = ''m'' \<and> sx_signature_b64 sx = ed_sign export_demo (replicate 32 (CHR ''k'')) ''m'' \<and>
   sx_public_key_b64 sx = replicate 32 (CHR ''k'')"
  "\<exists>sx. build_manifest export_demo 1 2 0 9 Csv 10 export_demo_inputs 5 (replicate 32 (CHR ''k'')) = Inr sx"
    using export_demo_assemble by (auto simp: build_manifest_def rbind_Inr Let_def split: prod.splits)
qed

lemma export_demo_verifies:
  "verify_export export_demo ''m'' (ed_sign export_demo (replicate 32 (CHR ''k'')) ''m'') (replicate 32 (CHR ''k''))
     [''a'', ''b'', ''c''] = Inr export_demo_manifest"
proof -
  obtain sx where sx: "build_manifest export_demo 1 2 0 9 Csv 10 export_demo_inputs 5 (replicate 32 (CHR ''k'')) = Inr sx"
    using export_demo_build(2) by blast
  have len: "length (replicate 32 (CHR ''k'')) = 32" "length (concat (map si_pages export_demo_inputs)) < 2 ^ 32 - 1"
    by (simp_all add: export_demo_inputs_def request_section_def control_section_def)
  show ?thesis
    using verify_export_built [OF export_demo_crates len(1) sx len(2), of "[''a'', ''b'', ''c'']" export_demo_manifest]
    by (simp add: export_demo_assemble export_demo_build(1) [OF sx])
      (simp add: export_demo_inputs_def request_section_def control_section_def)
qed

section \<open>What an accepted manifest is\<close>

fun chain_values :: "export_lib \<Rightarrow> string \<Rightarrow> string list \<Rightarrow> string list" where
  "chain_values lib c [] = []"
| "chain_values lib c (d # ds) = chain_step lib c d # chain_values lib (chain_step lib c d) ds"

definition row_sum :: "page_entry list \<Rightarrow> nat" where
  "row_sum es = sum_list (map (\<lambda>e. unat (pe_rows e)) es)"

text \<open>A section owns the pages \<open>k + 1, \<dots>\<close> and its counts are those of its pages.\<close>

definition section_wf :: "page_entry list \<Rightarrow> nat \<Rightarrow> section_entry \<Rightarrow> bool" where
  "section_wf es k s =
     (let own = take (unat (se_pages s)) (drop k es)
      in unat (se_first_page s) = k + 1 \<and> unat (se_last_page s) = k + unat (se_pages s) \<and> 0 < unat (se_pages s) \<and>
         k + unat (se_pages s) \<le> length es \<and> (\<forall>e \<in> set own. pe_section e = se_section s) \<and> unat (se_rows s) = row_sum own)"

definition manifest_wf :: "export_lib \<Rightarrow> manifest \<Rightarrow> string list \<Rightarrow> bool" where
  "manifest_wf lib m pages =
     (case (format_parse (mf_format m), mf_sections m) of
        (Some fmt, [data, control]) \<Rightarrow>
          let seed = genesis lib (mf_export_id m) (mf_workspace_id m) (w_from (mf_window m)) (w_to (mf_window m)) fmt (mf_page_size m);
              digests = map (sha256 lib) pages;
              chain = chain_values lib seed digests
          in se_section data = SECTION_REQUEST_EVENTS \<and> se_section control = SECTION_CONTROL_PLANE \<and>
             section_wf (mf_pages m) 0 data \<and> section_wf (mf_pages m) (unat (se_last_page data)) control \<and>
             unat (se_last_page control) = length pages \<and> unat (mf_total_pages m) = length pages \<and>
             map (\<lambda>e. unat (pe_page e)) (mf_pages m) = [1 ..< Suc (length pages)] \<and>
             map pe_sha256 (mf_pages m) = map (hex_encode lib) digests \<and>
             map pe_chain (mf_pages m) = map (hex_encode lib) chain \<and>
             mf_chain_genesis m = hex_encode lib seed \<and> mf_chain_root m = hex_encode lib (List.last (seed # chain)) \<and>
             unat (mf_total_rows m) = row_sum (mf_pages m)
      | _ \<Rightarrow> False)"

lemma unat_u32_less: "unat (w :: 32 word) < 2 ^ 32"
  by (rule order_less_le_trans [OF unsigned_less]) simp

lemma unat_sat_add1: "unat (sat_add1 w) = (if unat w = 2 ^ 32 - 1 then 2 ^ 32 - 1 else unat w + 1)"
  using unat_u32_less [of w]
  by (auto simp: sat_add1_def word_unat_eq_iff unat_word_ariths unsigned_minus_1_eq_mask mask_eq_exp_minus_1)

lemma unat_sat_sub: "unat (sat_sub a b) = unat a - unat b"
  by (auto simp: sat_sub_def word_le_nat_alt unat_sub)

lemma unat_row_sum:
  assumes "length es < 2 ^ 32"
  shows "unat (sum_list (map (\<lambda>e. ucast (pe_rows e)) es) :: 64 word) = row_sum es"
proof -
  have "row_sum es \<le> length es * (2 ^ 32 - 1) \<and> (sum_list (map (\<lambda>e. ucast (pe_rows e)) es) :: 64 word) = of_nat (row_sum es)"
  proof (induction es)
    case (Cons e es)
    have "unat (pe_rows e) \<le> 2 ^ 32 - 1" using unat_u32_less [of "pe_rows e"] by simp
    moreover have "(ucast (pe_rows e) :: 64 word) = of_nat (unat (pe_rows e))" by simp
    ultimately show ?case using Cons.IH by (simp add: row_sum_def)
  qed (simp add: row_sum_def)
  moreover have "length es * (2 ^ 32 - 1) \<le> (2 ^ 32 - 1) * (2 ^ 32 - 1)"
    using assms by (intro mult_right_mono) auto
  ultimately show ?thesis by (auto simp: unat_of_nat)
qed

lemma section_pages_Inr:
  "section_pages es name i n acc = Inr r \<Longrightarrow>
   i + n \<le> max i (length es) \<and> (\<forall>e \<in> set (take n (drop i es)). pe_section e = name) \<and>
   r = acc + sum_list (map (\<lambda>e. ucast (pe_rows e)) (take n (drop i es)))"
proof (induction n arbitrary: i acc)
  case (Suc n)
  then have i: "i < length es" "pe_section (es ! i) = name"
    "section_pages es name (Suc i) n (acc + ucast (pe_rows (es ! i))) = Inr r"
    by (auto simp: Let_def not_le split: if_splits)
  have "drop i es = es ! i # drop (Suc i) es" using i(1) by (simp add: Cons_nth_drop_Suc)
  with Suc.IH [OF i(3)] i(1,2) show ?case by auto
qed simp

lemma verify_pages_Inr:
  "length pages = length es \<Longrightarrow> verify_pages lib k es pages = Inr () \<Longrightarrow>
   map (\<lambda>e. unat (pe_page e)) es = [Suc k ..< Suc k + length es] \<and> map pe_sha256 es = map (\<lambda>p. hex_encode lib (sha256 lib p)) pages"
proof (induction lib k es pages rule: verify_pages.induct)
  case (1 lib k e es p ps)
  then show ?case by (auto simp: upt_conv_Cons simp del: upt_Suc split: if_splits)
qed auto

lemma verify_chain_Inr:
  assumes "export_crates lib"
  shows "map pe_sha256 es = map (\<lambda>p. hex_encode lib (sha256 lib p)) pages \<Longrightarrow> verify_chain lib c n es = Inr (c', n') \<Longrightarrow>
    map pe_chain es = map (hex_encode lib) (chain_values lib c (map (sha256 lib) pages)) \<and>
    c' = List.last (c # chain_values lib c (map (sha256 lib) pages)) \<and> n' = n + sum_list (map (\<lambda>e. ucast (pe_rows e)) es)"
proof (induction es arbitrary: pages c n)
  case (Cons e es)
  then obtain p ps where p: "pages = p # ps" by (cases pages) auto
  have "from_hex lib (hex_encode lib (sha256 lib p)) = Some (sha256 lib p)"
    using assms by (intro from_hex_encode) (simp_all add: export_crates_def)
  with Cons.prems p have "pe_chain e = hex_encode lib (chain_step lib c (sha256 lib p))"
    "verify_chain lib (chain_step lib c (sha256 lib p)) (n + ucast (pe_rows e)) es = Inr (c', n')"
    "map pe_sha256 es = map (\<lambda>p. hex_encode lib (sha256 lib p)) ps"
    by (auto simp: ok_or_def Let_def split: if_splits)
  with Cons.IH [OF this(3,2)] p show ?case by (simp add: add.assoc)
qed auto

lemma verify_sections_wf:
  assumes "verify_sections es k nx (s # ss) = Inr r" "length es < 2 ^ 32" "0 < unat nx"
  shows "section_wf es (unat nx - 1) s" "verify_sections es (Suc k) (sat_add1 (se_last_page s)) ss = Inr r" "se_first_page s = nx"
proof -
  from assms(1) have s: "se_first_page s = nx" "nx \<le> se_last_page s" "se_pages s = se_last_page s - nx + 1"
    "section_pages es (se_section s) (unat nx - 1) (unat (se_last_page s) + 1 - unat nx) 0 = Inr (se_rows s)"
    "verify_sections es (Suc k) (sat_add1 (se_last_page s)) ss = Inr r"
    by (auto simp: rbind_Inr split: if_splits)
  have "unat nx \<le> unat (se_last_page s)" using s(2) by (simp add: word_le_nat_alt)
  moreover have "unat (se_last_page s - nx) = unat (se_last_page s) - unat nx" using s(2) by (rule unat_sub)
  moreover have "unat (se_last_page s) < 2 ^ 32" by (rule unat_u32_less)
  ultimately have n: "unat (se_pages s) = unat (se_last_page s) + 1 - unat nx"
    using assms(3) s(3) by (simp add: unat_word_ariths)
  let ?own = "take (unat (se_pages s)) (drop (unat nx - 1) es)"
  have "length ?own < 2 ^ 32" using assms(2) by simp
  from unat_row_sum [OF this] section_pages_Inr [OF s(4)]
  have "unat (se_rows s) = row_sum ?own" "\<forall>e \<in> set ?own. pe_section e = se_section s"
    "unat nx - 1 + unat (se_pages s) \<le> max (unat nx - 1) (length es)"
    by (simp_all add: n)
  with n \<open>unat nx \<le> unat (se_last_page s)\<close> assms(3) show "section_wf es (unat nx - 1) s"
    by (auto simp: section_wf_def Let_def s(1))
  show "verify_sections es (Suc k) (sat_add1 (se_last_page s)) ss = Inr r" "se_first_page s = nx" using s by simp_all
qed

text \<open>
  C39 (round trip, tamper evidence): the verifier accepts an export the builder produced, with the
  signature and the public key that came with it, exactly when the pages it is handed have the digests of
  the pages the export was built from, in that order; what it returns is the manifest that was built.
  Unless SHA-256 collides on the pages at hand, that is: exactly when no page was changed, removed, added
  or moved, within or across the two sections.
\<close>

theorem export_verifies_exactly_its_pages:
  assumes "export_crates lib" "length key = 32"
    and "build_manifest lib export_id ws from to fmt page_size inputs generated_at key = Inr sx"
    and "length (concat (map si_pages inputs)) < 2 ^ 32 - 1"
  shows "(verify_export lib (sx_manifest_json sx) (sx_signature_b64 sx) (sx_public_key_b64 sx) pages = Inr m \<longleftrightarrow>
      m = fst (assemble_manifest lib export_id ws from to fmt page_size inputs generated_at key) \<and>
      map (sha256 lib) pages = map (sha256 lib) (concat (map si_pages inputs))) \<and>
    (inj_on (sha256 lib) (set pages \<union> set (concat (map si_pages inputs))) \<longrightarrow>
      (\<exists>m'. verify_export lib (sx_manifest_json sx) (sx_signature_b64 sx) (sx_public_key_b64 sx) pages = Inr m') =
      (pages = concat (map si_pages inputs)))"
  using verify_export_built [OF assms] by (simp add: inj_on_map_eq_map)

theorem export_verifies_exactly_its_pages_witness:
  "verify_export export_demo ''m'' (ed_sign export_demo (replicate 32 (CHR ''k'')) ''m'') (replicate 32 (CHR ''k''))
     [''a'', ''b'', ''c''] = Inr export_demo_manifest \<and>
   (\<forall>m. verify_export export_demo ''m'' (ed_sign export_demo (replicate 32 (CHR ''k'')) ''m'') (replicate 32 (CHR ''k''))
     [''a'', ''c'', ''b''] \<noteq> Inr m)"
proof -
  obtain sx where sx: "build_manifest export_demo 1 2 0 9 Csv 10 export_demo_inputs 5 (replicate 32 (CHR ''k'')) = Inr sx"
    using export_demo_build(2) by blast
  have pages: "concat (map si_pages export_demo_inputs) = [''a'', ''b'', ''c'']"
    by (simp add: export_demo_inputs_def request_section_def control_section_def)
  have inj: "inj_on (sha256 export_demo) (set [''a'', ''c'', ''b''] \<union> set (concat (map si_pages export_demo_inputs)))"
    by (simp add: pages inj_on_def export_demo_def export_demo_base_def)
  have len: "length (replicate 32 (CHR ''k'')) = 32" "length (concat (map si_pages export_demo_inputs)) < 2 ^ 32 - 1"
    by (simp_all add: pages)
  note exact = export_verifies_exactly_its_pages [OF export_demo_crates len(1) sx len(2)]
  show ?thesis
    using exact [of "[''a'', ''b'', ''c'']" export_demo_manifest] exact [of "[''a'', ''c'', ''b'']"] inj
    unfolding pages export_demo_assemble by (auto simp: export_demo_build(1) [OF sx])
qed

text \<open>
  C40 (type): whatever manifest the verifier accepts is well formed. It declares exactly the two sections,
  data plane first; they tile the pages 1 to \<open>total_pages\<close> with none empty, every page names the section
  it lies in, each section's and the manifest's row counts are the exact sums of the page counts (no 64-bit
  sum has wrapped), the pages handed over are as many as declared and have the declared digests, and the
  chain entries and the root are the hash chain of those digests from the seed of this header.
\<close>

theorem accepted_manifest_is_well_formed:
  assumes "export_crates lib" "length pages < 2 ^ 32"
    and "verify_export lib manifest_json signature_b64 public_key_b64 pages = Inr m"
  shows "manifest_wf lib m pages"
proof -
  from assms(3) have body: "verify_body lib m pages = Inr ()" by (auto simp: verify_export_def rbind_Inr)
  then obtain seed next_page chain summed where h: "verify_header lib m (length pages) = Inr seed"
    and ss: "verify_sections (mf_pages m) 0 1 (mf_sections m) = Inr next_page"
    and nx: "sat_sub next_page 1 = mf_total_pages m"
    and vp: "verify_pages lib 0 (mf_pages m) pages = Inr ()"
    and vc: "verify_chain lib seed 0 (mf_pages m) = Inr (chain, summed)"
    and root: "mf_chain_root m = hex_encode lib chain" "mf_total_rows m = summed"
    by (auto simp: verify_body_def rbind_Inr split: if_splits)
  from h obtain fmt where f: "format_parse (mf_format m) = Some fmt"
    "seed = genesis lib (mf_export_id m) (mf_workspace_id m) (w_from (mf_window m)) (w_to (mf_window m)) fmt (mf_page_size m)"
    "mf_chain_genesis m = hex_encode lib seed" "length (mf_pages m) = unat (mf_total_pages m)"
    "u32_of (length pages) = mf_total_pages m" "section_set_ok (map se_section (mf_sections m))"
    by (auto simp: verify_header_def rbind_Inr Let_def split: if_splits)
  have len: "unat (mf_total_pages m) = length pages" "length (mf_pages m) = length pages"
    using f(4,5) unat_u32_of [OF assms(2)] by simp_all
  from f(6) obtain d c where s: "mf_sections m = [d, c]" "se_section d = SECTION_REQUEST_EVENTS" "se_section c = SECTION_CONTROL_PLANE"
    by (auto simp: section_set_ok_def REQUIRED_SECTIONS_def list_all2_Cons2)
  have len': "length (mf_pages m) < 2 ^ 32" using len assms(2) by simp
  from verify_sections_wf [OF ss [unfolded s(1)] len']
  have d: "section_wf (mf_pages m) 0 d" "verify_sections (mf_pages m) (Suc 0) (sat_add1 (se_last_page d)) [c] = Inr next_page"
    by simp_all
  from verify_sections_wf [OF d(2) len']
  have c: "section_wf (mf_pages m) (unat (sat_add1 (se_last_page d)) - 1) c" "next_page = sat_add1 (se_last_page c)"
    by (simp_all add: unat_sat_add1)
  have "unat next_page - 1 = length pages"
    using arg_cong [OF nx, of unat] len(1) by (simp add: unat_sat_sub)
  moreover have "unat (se_last_page c) \<le> length pages" "unat (sat_add1 (se_last_page d)) \<le> unat (se_last_page c)"
    using c(1) len(2) by (auto simp: section_wf_def Let_def unat_sat_add1 split: if_splits)
  ultimately have fits: "unat (se_last_page c) = length pages" "unat (sat_add1 (se_last_page d)) - 1 = unat (se_last_page d)"
    using assms(2) by (auto simp: c(2) unat_sat_add1 split: if_splits)
  have vp': "map (\<lambda>e. unat (pe_page e)) (mf_pages m) = [1 ..< Suc (length pages)]"
    "map pe_sha256 (mf_pages m) = map (\<lambda>p. hex_encode lib (sha256 lib p)) pages"
    using verify_pages_Inr [OF len(2) [symmetric] vp] len(2) by simp_all
  from verify_chain_Inr [OF assms(1) vp'(2) vc] unat_row_sum [OF len'] root
  show ?thesis
    using s d(1) c(1) fits vp' len f(1,2,3) by (simp add: manifest_wf_def Let_def comp_def)
qed

theorem accepted_manifest_is_well_formed_witness:
  "manifest_wf export_demo export_demo_manifest [''a'', ''b'', ''c'']"
  by (rule accepted_manifest_is_well_formed [OF export_demo_crates _ export_demo_verifies]) simp

section \<open>Reading a CSV page back\<close>

text \<open>A reference reader, one byte at a time: an unquoted empty cell is \<open>None\<close>, a quoted one a string.\<close>

datatype csv_state = CellStart | InQuotes string | QuoteSeen string

fun csv_read :: "csv_state \<Rightarrow> string option list \<Rightarrow> string \<Rightarrow> string option list list option" where
  "csv_read st row [] = (if st = CellStart \<and> row = [] then Some [] else None)"
| "csv_read CellStart row (c # s) =
     (if c = CHR '','' then csv_read CellStart (row @ [None]) s
      else if c = CHR 0x0A then map_option ((#) (row @ [None])) (csv_read CellStart [] s)
      else if c = CHR 0x22 then csv_read (InQuotes []) row s
      else None)"
| "csv_read (InQuotes f) row (c # s) =
     (if c = CHR 0x22 then csv_read (QuoteSeen f) row s else csv_read (InQuotes (f @ [c])) row s)"
| "csv_read (QuoteSeen f) row (c # s) =
     (if c = CHR 0x22 then csv_read (InQuotes (f @ [c])) row s
      else if c = CHR '','' then csv_read CellStart (row @ [Some f]) s
      else if c = CHR 0x0A then map_option ((#) (row @ [Some f])) (csv_read CellStart [] s)
      else None)"

lemma str_replace_single: "str_replace [c] r (x # s) = (if x = c then r else [x]) @ str_replace [c] r s"
  "str_replace [c] r [] = []"
  by (simp_all add: str_replace_def replace_ne.simps [of "[c]" r "x # s"] replace_ne.simps [of "[c]" r "[]"])

lemma csv_read_quoted:
  "csv_read (InQuotes f) row (str_replace [CHR 0x22] [CHR 0x22, CHR 0x22] s @ CHR 0x22 # rest) = csv_read (QuoteSeen (f @ s)) row rest"
  by (induction s arbitrary: f) (simp_all add: str_replace_single)

lemma csv_read_field:
  "csv_read CellStart row (csv_field v @ CHR '','' # rest) = csv_read CellStart (row @ [v]) rest"
  "csv_read CellStart row (csv_field v @ CHR 0x0A # rest) = map_option ((#) (row @ [v])) (csv_read CellStart [] rest)"
  by (cases v; simp add: csv_field_def csv_read_quoted)+

lemma csv_read_line:
  "cells \<noteq> [] \<Longrightarrow> csv_read CellStart row (csv_line cells @ rest) = map_option ((#) (row @ cells)) (csv_read CellStart [] rest)"
proof (induction cells arbitrary: row rule: list_nonempty_induct)
  case (cons v cells)
  then show ?case
    by (simp add: csv_line_def join_with_Cons csv_read_field)
qed (simp add: csv_line_def csv_read_field)

lemma csv_read_lines:
  "(\<forall>cells \<in> set rows. cells \<noteq> []) \<Longrightarrow> csv_read CellStart [] (concat (map csv_line rows)) = Some rows"
  by (induction rows) (simp_all add: csv_read_line)

lemma csv_page_read:
  assumes "columns \<noteq> []"
  shows "csv_read CellStart [] (render_page lib columns to_object rows Csv) =
    Some (map Some columns # map (\<lambda>r. row_cells lib columns (to_object r)) rows)"
proof -
  have "render_page lib columns to_object rows Csv =
      concat (map csv_line (map Some columns # map (\<lambda>r. row_cells lib columns (to_object r)) rows))"
    by (simp add: render_page_def comp_def)
  also have "csv_read CellStart [] \<dots> = Some (map Some columns # map (\<lambda>r. row_cells lib columns (to_object r)) rows)"
    using assms by (intro csv_read_lines) (auto simp: row_cells_def)
  finally show ?thesis .
qed

text \<open>
  Round trip: a CSV page of either plane reads back to its header and, row by row, to the cells of
  the columns in their order, with no cell lost, split or merged whatever bytes the values hold (quotes,
  commas, line breaks), and a missing value distinct from an empty string. The documented columns are
  exactly the members of a row's JSON object, so no documented column is blank for want of a key and no
  member is left out of the CSV.
\<close>

theorem csv_page_reads_back:
  "csv_read CellStart [] (render_page lib request_column_names (audit_row_object lib) rows Csv) =
     Some (map Some request_column_names # map (\<lambda>r. row_cells lib request_column_names (audit_row_object lib r)) rows) \<and>
   csv_read CellStart [] (render_page lib control_column_names (control_row_object lib) crows Csv) =
     Some (map Some control_column_names # map (\<lambda>r. row_cells lib control_column_names (control_row_object lib r)) crows) \<and>
   set request_column_names = fst ` set (audit_row_object lib r) \<and>
   set control_column_names = fst ` set (control_row_object lib e)"
proof -
  have "request_column_names \<noteq> []" "control_column_names \<noteq> []"
    by (simp_all add: request_column_names_def control_column_names_def)
  moreover have "set request_column_names = fst ` set (audit_row_object lib r)"
    by (simp add: request_column_names_def audit_row_object_def insert_commute)
  moreover have "set control_column_names = fst ` set (control_row_object lib e)"
    by (simp add: control_column_names_def control_row_object_def insert_commute)
  ultimately show ?thesis by (simp add: csv_page_read)
qed

end
