(* ===== verification/Export_Worker.thy ===== *)
theory Export_Worker
  imports Audit_Verify Session_Store "HOL-Library.List_Lexorder" "HOL-Library.Char_ord"
begin

text \<open>
  Producing and serving a signed export: the worker task \<open>audit.export\<close>
  (\<open>secureprompt-worker/src/tasks/audit_export.rs\<close>) and the routes that request, list and serve exports
  (\<open>http/routes/dashboard/audit_export.rs\<close>).

  ClickHouse and Postgres are read through the environment: each call answers with the table as the store
  held it then, or with an error; the queries' \<open>WHERE\<close> and \<open>ORDER BY\<close> are the definitions below. Statements
  of one transaction take effect together or not at all. Instants are nanoseconds. The order ClickHouse
  gives to UUIDs is a parameter; within the years 1970 to 2106 \<open>toDateTime\<close> of a whole second is that
  second. The page bytes come from a Rust \<open>String\<close>, on which \<open>String::from_utf8_lossy\<close> is the identity.
\<close>

section \<open>The request\<close>

record task_envelope =
  te_task_type :: string
  te_payload :: json
  te_workspace_id :: uuid

record export_request =
  er_export_id :: uuid
  er_workspace_id :: uuid
  er_from :: int
  er_to :: int
  er_format :: export_format
  er_page_size :: "32 word"

record raw_payload =
  rp_export_id :: uuid
  rp_from :: int
  rp_to :: int
  rp_format :: string
  rp_page_size :: "32 word option"

datatype request_error = RequestMalformed | UnknownFormat | PageSizeOutOfRange | WindowInverted

definition DEFAULT_PAGE_SIZE :: "32 word" where "DEFAULT_PAGE_SIZE = 5000"

definition page_size_ok :: "32 word \<Rightarrow> bool" where
  "page_size_ok n = (1 \<le> n \<and> n \<le> 50000)"

definition MAX_EXPORT_ROWS :: nat where "MAX_EXPORT_ROWS = 500000"

definition parse_request :: "(json \<Rightarrow> raw_payload option) \<Rightarrow> task_envelope \<Rightarrow> (request_error, export_request) result" where
  "parse_request from_value envelope =
     rbind (ok_or (from_value (te_payload envelope)) RequestMalformed) (\<lambda>raw.
     rbind (ok_or (format_parse (rp_format raw)) UnknownFormat) (\<lambda>fmt.
     let page_size = unwrap_or DEFAULT_PAGE_SIZE (rp_page_size raw) in
     if \<not> page_size_ok page_size then Inl PageSizeOutOfRange
     else if rp_to raw \<le> rp_from raw then Inl WindowInverted
     else Inr \<lparr>er_export_id = rp_export_id raw, er_workspace_id = te_workspace_id envelope, er_from = rp_from raw,
               er_to = rp_to raw, er_format = fmt, er_page_size = page_size\<rparr>))"

section \<open>The data plane\<close>

text \<open>A row of \<open>request_events\<close> as the query selects it.\<close>

record event_row =
  ev_request_id :: uuid
  ev_workspace_id :: uuid
  ev_created_at_unix :: "32 word"
  ev_provider :: string
  ev_model :: string
  ev_final_action :: string
  ev_input_tokens :: "32 word option"
  ev_output_tokens :: "32 word option"
  ev_estimated_usage :: bool
  ev_cost_usd :: "rat option"
  ev_user_id :: "uuid option"
  ev_api_key_id :: "uuid option"
  ev_api_key_name :: "string option"
  ev_ip_address :: "string option"
  ev_user_agent :: "string option"
  ev_floor_only :: bool
  ev_engines :: "string list"

definition ns_per_sec :: int where "ns_per_sec = 1000000000"

definition into_audit_row :: "event_row \<Rightarrow> export_row" where
  "into_audit_row r =
     \<lparr>xr_request_id = ev_request_id r, xr_workspace_id = ev_workspace_id r,
      xr_created_at = uint (ev_created_at_unix r) * ns_per_sec, xr_provider = ev_provider r, xr_model = ev_model r,
      xr_final_action = ev_final_action r, xr_input_tokens = ev_input_tokens r, xr_output_tokens = ev_output_tokens r,
      xr_estimated_usage = ev_estimated_usage r, xr_cost_usd = ev_cost_usd r, xr_user_id = ev_user_id r,
      xr_api_key_id = ev_api_key_id r, xr_api_key_name = ev_api_key_name r, xr_ip_address = ev_ip_address r,
      xr_user_agent = ev_user_agent r, xr_floor_only = ev_floor_only r, xr_engines = ev_engines r\<rparr>"

text \<open>\<open>SCOPE\<close>: the bounds are bound as whole seconds (\<open>DateTime::timestamp\<close> rounds down).\<close>

definition in_scope :: "export_request \<Rightarrow> event_row \<Rightarrow> bool" where
  "in_scope req r = (ev_workspace_id r = er_workspace_id req \<and> er_from req div ns_per_sec \<le> uint (ev_created_at_unix r) \<and>
     uint (ev_created_at_unix r) < er_to req div ns_per_sec)"

definition count_rows :: "(string, event_row list) result \<Rightarrow> export_request \<Rightarrow> (string, nat) result" where
  "count_rows ch req = rbind ch (\<lambda>table. Inr (length (filter (in_scope req) table)))"

definition fetch_rows ::
  "(uuid \<Rightarrow> nat) \<Rightarrow> (string, event_row list) result \<Rightarrow> export_request \<Rightarrow> (string, export_row list) result" where
  "fetch_rows uuid_rank ch req = rbind ch (\<lambda>table.
     Inr (map into_audit_row (sort_key (\<lambda>r. (ev_created_at_unix r, uuid_rank (ev_request_id r))) (filter (in_scope req) table))))"

section \<open>The control plane\<close>

record raw_capture_row =
  rc_id :: uuid
  rc_ws :: uuid
  rc_actor_user_id :: "uuid option"
  rc_actor_email :: "string option"
  rc_enabled_before :: bool
  rc_enabled_after :: bool
  rc_retention_before :: int
  rc_retention_after :: int
  rc_created_at :: int

record purge_row =
  pg_id :: uuid
  pg_run_id :: uuid
  pg_scope :: string
  pg_ws :: "uuid option"
  pg_cutoff :: int
  pg_rows_deleted :: int
  pg_oldest_deleted :: "int option"
  pg_newest_deleted :: "int option"
  pg_rows_remaining :: int
  pg_status :: string
  pg_error :: "string option"
  pg_started_at :: int
  pg_completed_at :: int

record audit_tables =
  at_raw_capture :: "raw_capture_row list"
  at_purge :: "purge_row list"
  at_revocation :: "revocation_row list"
  at_admin :: "audit_row list"

definition in_window :: "export_request \<Rightarrow> int \<Rightarrow> bool" where
  "in_window req t = (er_from req \<le> t \<and> t < er_to req)"

definition raw_capture_event :: "export_request \<Rightarrow> raw_capture_row \<Rightarrow> control_row" where
  "raw_capture_event req r =
     \<lparr>cr_event_id = rc_id r, cr_workspace_id = er_workspace_id req, cr_occurred_at = rc_created_at r,
      cr_event_type = ''raw_capture.changed'', cr_source_table = ''raw_capture_audit'',
      cr_actor_user_id = rc_actor_user_id r, cr_actor_email = rc_actor_email r, cr_actor_role = None,
      cr_target_user_id = None, cr_target_email = None, cr_target_role = None,
      cr_detail = JObj [(''enabled_after'', JBool (rc_enabled_after r)), (''enabled_before'', JBool (rc_enabled_before r)),
        (''retention_days_after'', JNum (of_int (rc_retention_after r))),
        (''retention_days_before'', JNum (of_int (rc_retention_before r)))]\<rparr>"

definition purge_event :: "export_lib \<Rightarrow> export_request \<Rightarrow> purge_row \<Rightarrow> control_row" where
  "purge_event lib req r =
     (let instant = (\<lambda>t. JStr (manifest_instant lib t)) in
      \<lparr>cr_event_id = pg_id r, cr_workspace_id = er_workspace_id req, cr_occurred_at = pg_completed_at r,
       cr_event_type = ''retention.purge'', cr_source_table = ''retention_purge_audit'',
       cr_actor_user_id = None, cr_actor_email = None, cr_actor_role = None,
       cr_target_user_id = None, cr_target_email = None, cr_target_role = None,
       cr_detail = JObj [(''cutoff'', instant (pg_cutoff r)), (''error_present'', JBool (pg_error r \<noteq> None)),
         (''newest_deleted'', opt_json instant (pg_newest_deleted r)), (''oldest_deleted'', opt_json instant (pg_oldest_deleted r)),
         (''rows_deleted'', JNum (of_int (pg_rows_deleted r))),
         (''rows_remaining_past_cutoff'', JNum (of_int (pg_rows_remaining r))),
         (''run_id'', JStr (uuid_text lib (pg_run_id r))), (''scope'', JStr (pg_scope r)),
         (''started_at'', instant (pg_started_at r)), (''status'', JStr (pg_status r))]\<rparr>)"

definition revocation_event :: "export_request \<Rightarrow> revocation_row \<Rightarrow> control_row" where
  "revocation_event req r =
     \<lparr>cr_event_id = sr_id r, cr_workspace_id = er_workspace_id req, cr_occurred_at = sr_created_at r,
      cr_event_type = ''session.revoked'', cr_source_table = ''session_revocation_audit'',
      cr_actor_user_id = Some (sr_actor_user_id r), cr_actor_email = sr_actor_email r, cr_actor_role = Some (sr_actor_role r),
      cr_target_user_id = Some (sr_target_user_id r), cr_target_email = Some (sr_target_email r),
      cr_target_role = Some (sr_target_role r),
      cr_detail = JObj [(''refresh_tokens_revoked'', JNum (of_int (sr_refresh_tokens_revoked r))),
        (''revoked_before_unix'', JNum (of_int (sr_revoked_before r)))]\<rparr>"

text \<open>\<open>serde_json::Map::insert\<close> on the sorted members of an object.\<close>

fun map_insert :: "string \<Rightarrow> json \<Rightarrow> (string \<times> json) list \<Rightarrow> (string \<times> json) list" where
  "map_insert k v [] = [(k, v)]"
| "map_insert k v ((k', v') # kvs) =
     (if k = k' then (k, v) # kvs else if k < k' then (k, v) # (k', v') # kvs else (k', v') # map_insert k v kvs)"

fun admin_detail :: "export_lib \<Rightarrow> audit_row \<Rightarrow> json \<Rightarrow> json" where
  "admin_detail lib r (JObj kvs) =
     JObj (map_insert ''target_label'' (opt_json JStr (ar_target_label r))
       (map_insert ''target_id'' (opt_json (\<lambda>u. JStr (uuid_text lib u)) (ar_target_id r))
         (map_insert ''target_type'' (JStr (ar_target_type r)) kvs)))"
| "admin_detail lib r v = v"

definition admin_event :: "export_lib \<Rightarrow> export_request \<Rightarrow> audit_row \<Rightarrow> control_row" where
  "admin_event lib req r =
     \<lparr>cr_event_id = ar_id r, cr_workspace_id = er_workspace_id req, cr_occurred_at = ar_created_at r,
      cr_event_type = ar_action r, cr_source_table = ''admin_audit'',
      cr_actor_user_id = ar_actor_user_id r, cr_actor_email = ar_actor_email r, cr_actor_role = ar_actor_role r,
      cr_target_user_id = ar_target_user_id r, cr_target_email = ar_target_email r, cr_target_role = ar_target_role r,
      cr_detail = admin_detail lib r (ar_detail r)\<rparr>"

definition control_sort_key :: "control_row \<Rightarrow> int \<times> string \<times> uuid" where
  "control_sort_key row = (cr_occurred_at row, cr_source_table row, cr_event_id row)"

text \<open>The worker's own scoped transaction; its errors are the driver's messages.\<close>

definition wstmt :: "db_env \<Rightarrow> nat \<Rightarrow> (string, unit) result" where
  "wstmt env k = (case stmt_err env k of None \<Rightarrow> Inr () | Some e \<Rightarrow> Inl e)"

definition worker_scope_is_armed :: "db_env \<Rightarrow> uuid \<Rightarrow> (string, unit) result" where
  "worker_scope_is_armed env ws = rbind (wstmt env 2) (\<lambda>_.
     if readback env (show_uuid env ws) = Some (show_uuid env ws) then Inr ()
     else Inl (''the export transaction could not be scoped to your workspace, so nothing was read '' @
               ''and nothing was signed''))"

definition worker_begin_scoped :: "db_env \<Rightarrow> uuid \<Rightarrow> (string, unit) result" where
  "worker_begin_scoped env ws = rbind (wstmt env 0) (\<lambda>_. rbind (wstmt env 1) (\<lambda>_. worker_scope_is_armed env ws))"

definition control_events :: "export_lib \<Rightarrow> export_request \<Rightarrow> audit_tables \<Rightarrow> control_row list" where
  "control_events lib req t =
     map (raw_capture_event req) (filter (\<lambda>r. rc_ws r = er_workspace_id req \<and> in_window req (rc_created_at r)) (at_raw_capture t)) @
     map (purge_event lib req) (filter (\<lambda>r. pg_ws r = Some (er_workspace_id req) \<and> in_window req (pg_completed_at r)) (at_purge t)) @
     map (revocation_event req) (filter (\<lambda>r. sr_ws r = er_workspace_id req \<and> in_window req (sr_created_at r)) (at_revocation t)) @
     map (admin_event lib req) (filter (\<lambda>r. ar_ws r = er_workspace_id req \<and> in_window req (ar_created_at r)) (at_admin t))"

definition excluded_purge_rows :: "export_request \<Rightarrow> audit_tables \<Rightarrow> nat" where
  "excluded_purge_rows req t = length (filter (\<lambda>r. pg_ws r = None \<and> in_window req (pg_completed_at r)) (at_purge t))"

text \<open>Four reads and a count in one transaction: statements 3 to 7, the commit is the 8th.\<close>

definition fetch_control_rows ::
  "db_env \<Rightarrow> export_lib \<Rightarrow> export_request \<Rightarrow> audit_tables \<Rightarrow> (string, control_row list \<times> nat) result" where
  "fetch_control_rows env lib req t =
     rbind (worker_begin_scoped env (er_workspace_id req)) (\<lambda>_.
     rbind (wstmt env 3) (\<lambda>_. rbind (wstmt env 4) (\<lambda>_. rbind (wstmt env 5) (\<lambda>_. rbind (wstmt env 6) (\<lambda>_.
     rbind (wstmt env 7) (\<lambda>_. rbind (wstmt env 8) (\<lambda>_.
       Inr (sort_key control_sort_key (control_events lib req t), excluded_purge_rows req t))))))))"

definition control_sources :: "export_lib \<Rightarrow> nat \<Rightarrow> source_retention list" where
  "control_sources lib excluded = map (\<lambda>table.
     let source = no_expiry_for lib table in
     if table = ''retention_purge_audit''
     then source\<lparr>sr_excluded_rows := of_nat excluded, sr_excluded_reason := Some (tx lib ''excluded_reason'')\<rparr>
     else source) CONTROL_SOURCE_TABLES"

section \<open>Pages and the signed export\<close>

function chunks :: "nat \<Rightarrow> 'a list \<Rightarrow> 'a list list" where
  "chunks n xs = (if xs = [] \<or> n = 0 then [] else take n xs # chunks n (drop n xs))"
  by pat_completeness auto
termination
  by (relation "measure (\<lambda>(n, xs). length xs)") auto

declare chunks.simps [simp del]

definition paginate ::
  "export_lib \<Rightarrow> string list \<Rightarrow> ('r \<Rightarrow> (string \<times> json) list) \<Rightarrow> 'r list \<Rightarrow> 32 word \<Rightarrow> export_format \<Rightarrow> string list \<times> 32 word list" where
  "paginate lib columns to_object rows page_size fmt =
     (let cs = (if rows = [] then [[]] else chunks (unat page_size) rows)
      in (map (\<lambda>c. render_page lib columns to_object c fmt) cs, map (\<lambda>c. u32_of (length c)) cs))"

definition produce ::
  "export_lib \<Rightarrow> export_request \<Rightarrow> export_row list \<Rightarrow> control_row list \<Rightarrow> nat \<Rightarrow> int \<Rightarrow> string
     \<Rightarrow> (build_error, string list \<times> signed_export) result" where
  "produce lib req rows control excluded generated_at key =
     (let (data_pages, data_rows) = paginate lib request_column_names (audit_row_object lib) rows (er_page_size req) (er_format req);
          (control_pages, control_rows) = paginate lib control_column_names (control_row_object lib) control (er_page_size req) (er_format req)
      in rbind (build_manifest lib (er_export_id req) (er_workspace_id req) (er_from req) (er_to req) (er_format req) (er_page_size req)
           [request_section lib data_pages data_rows [retention_for lib (er_from req) (er_to req) generated_at],
            control_section lib control_pages control_rows (control_sources lib excluded)] generated_at key)
         (\<lambda>sx. Inr (data_pages @ control_pages, sx)))"

section \<open>The export tables\<close>

record export_rec =
  ex_id :: uuid
  ex_ws :: uuid
  ex_requested_by :: uuid
  ex_from :: int
  ex_to :: int
  ex_format :: string
  ex_page_size :: int
  ex_status :: string
  ex_total_rows :: "int option"
  ex_total_pages :: "int option"
  ex_manifest_json :: "string option"
  ex_signature_b64 :: "string option"
  ex_public_key_b64 :: "string option"
  ex_signing_key_id :: "string option"
  ex_error :: "string option"
  ex_created_at :: int
  ex_started_at :: "int option"
  ex_completed_at :: "int option"

record page_rec =
  pr_export_id :: uuid
  pr_ws :: uuid
  pr_page_number :: int
  pr_row_count :: int
  pr_sha256 :: string
  pr_body :: string

record export_db =
  exports_tbl :: "export_rec list"
  pages_tbl :: "page_rec list"

definition update_export :: "uuid \<Rightarrow> uuid \<Rightarrow> (export_rec \<Rightarrow> export_rec) \<Rightarrow> export_db \<Rightarrow> export_db" where
  "update_export xid ws f db = db\<lparr>exports_tbl := map (\<lambda>e. if ex_id e = xid \<and> ex_ws e = ws then f e else e) (exports_tbl db)\<rparr>"

definition i32_of :: "nat \<Rightarrow> int" where
  "i32_of n = (if n < 2 ^ 31 then int n else 2 ^ 31 - 1)"

definition i32_sat_add1 :: "int \<Rightarrow> int" where
  "i32_sat_add1 n = min (n + 1) (2 ^ 31 - 1)"

definition i64_of :: "nat \<Rightarrow> int" where
  "i64_of n = (if n < 2 ^ 63 then int n else 2 ^ 63 - 1)"

definition mark_running :: "db_env \<Rightarrow> export_request \<Rightarrow> export_db \<Rightarrow> (string, export_db) result" where
  "mark_running env req db =
     rbind (worker_begin_scoped env (er_workspace_id req)) (\<lambda>_. rbind (wstmt env 3) (\<lambda>_. rbind (wstmt env 4) (\<lambda>_.
       Inr (update_export (er_export_id req) (er_workspace_id req)
              (\<lambda>e. e\<lparr>ex_status := ''running'', ex_started_at := Some (now_ts env)\<rparr>) db))))"

text \<open>\<open>mark_failed\<close> logs its own failure and leaves the row as it was.\<close>

definition mark_failed :: "db_env \<Rightarrow> uuid \<Rightarrow> uuid \<Rightarrow> string \<Rightarrow> export_db \<Rightarrow> export_db" where
  "mark_failed env xid ws reason db =
     (case rbind (worker_begin_scoped env ws) (\<lambda>_. rbind (wstmt env 3) (\<lambda>_. wstmt env 4)) of
        Inl e \<Rightarrow> db
      | Inr _ \<Rightarrow> update_export xid ws (\<lambda>e. e\<lparr>ex_status := ''failed'', ex_error := Some reason,
          ex_completed_at := Some (now_ts env)\<rparr>) db)"

text \<open>
  \<open>persist\<close>, in one transaction: the pages of an earlier run go, the new ones come with their number, and
  the export row gets its manifest. An insert fails on a page number that is taken (the primary key) and on
  an export that is not there (the foreign key).
\<close>

fun insert_pages ::
  "db_env \<Rightarrow> export_request \<Rightarrow> signed_export \<Rightarrow> nat \<Rightarrow> string list \<Rightarrow> export_db \<Rightarrow> (string, export_db) result" where
  "insert_pages env req sx index [] db = Inr db"
| "insert_pages env req sx index (body # pages) db =
     (let page_number = i32_sat_add1 (i32_of index);
          rows = (if index < length (sx_rows_per_page sx) then sx_rows_per_page sx ! index else 0);
          digest = (if index < length (sx_page_digests sx) then sx_page_digests sx ! index else [])
      in rbind (wstmt env (4 + index)) (\<lambda>_.
         if \<exists>p \<in> set (pages_tbl db). pr_export_id p = er_export_id req \<and> pr_page_number p = page_number
         then Inl ''duplicate key''
         else if \<not> (\<exists>e \<in> set (exports_tbl db). ex_id e = er_export_id req) then Inl ''foreign key''
         else insert_pages env req sx (Suc index) pages (db\<lparr>pages_tbl := pages_tbl db @
           [\<lparr>pr_export_id = er_export_id req, pr_ws = er_workspace_id req, pr_page_number = page_number,
             pr_row_count = i32_of (unat rows), pr_sha256 = digest, pr_body = body\<rparr>]\<rparr>)))"

definition complete_export :: "int \<Rightarrow> signed_export \<Rightarrow> export_rec \<Rightarrow> export_rec" where
  "complete_export now sx e =
     e\<lparr>ex_status := ''complete'', ex_total_rows := Some (i64_of (unat (sx_total_rows sx))),
       ex_total_pages := Some (i32_of (unat (sx_total_pages sx))), ex_manifest_json := Some (sx_manifest_json sx),
       ex_signature_b64 := Some (sx_signature_b64 sx), ex_public_key_b64 := Some (sx_public_key_b64 sx),
       ex_signing_key_id := Some (sx_signing_key_id sx), ex_error := None, ex_completed_at := Some now\<rparr>"

definition persist :: "db_env \<Rightarrow> export_request \<Rightarrow> string list \<Rightarrow> signed_export \<Rightarrow> export_db \<Rightarrow> (string, export_db) result" where
  "persist env req pages sx db =
     rbind (worker_begin_scoped env (er_workspace_id req)) (\<lambda>_. rbind (wstmt env 3) (\<lambda>_.
     rbind (insert_pages env req sx 0 pages
       (db\<lparr>pages_tbl := filter (\<lambda>p. \<not> (pr_export_id p = er_export_id req \<and> pr_ws p = er_workspace_id req)) (pages_tbl db)\<rparr>)) (\<lambda>db'.
     rbind (wstmt env (4 + length pages)) (\<lambda>_. rbind (wstmt env (5 + length pages)) (\<lambda>_.
       Inr (update_export (er_export_id req) (er_workspace_id req) (complete_export (now_ts env) sx) db'))))))"

section \<open>The task\<close>

record export_outcome =
  oc_export_id :: "uuid option"
  oc_status :: string
  oc_total_rows :: "64 word"
  oc_total_pages :: "32 word"

text \<open>
  The environment of a run: the \<open>k\<close>-th transaction (0 marks the run, 1 reads the control plane, 2 stores the
  export, 3 records a failure), the audit tables, ClickHouse at the count and at the fetch, the signing key.
\<close>

record worker_env =
  we_db :: "nat \<Rightarrow> db_env"
  we_tables :: audit_tables
  we_count :: "(string, event_row list) result"
  we_fetch :: "(string, event_row list) result"
  we_uuid_rank :: "uuid \<Rightarrow> nat"
  we_payload :: "json \<Rightarrow> raw_payload option"
  we_lib :: export_lib
  we_key :: "(key_error, string) result"
  we_now :: int

definition failed_outcome :: "uuid option \<Rightarrow> export_outcome" where
  "failed_outcome xid = \<lparr>oc_export_id = xid, oc_status = ''failed'', oc_total_rows = 0, oc_total_pages = 0\<rparr>"

fun key_error_text :: "key_error \<Rightarrow> string" where
  "key_error_text NotConfigured = ''audit-export signing key is not configured, so no signed export can be '' @
     ''produced; set SECUREPROMPT_AUDIT_EXPORT_SIGNING_KEY''"
| "key_error_text Malformed = ''audit-export signing key is not 64 hex characters or base64 of 32 bytes; '' @
     ''its value is deliberately not quoted here''"

text \<open>What a run establishes before it stores anything: the pages and the signed manifest, or the reason it refuses.\<close>

definition gather_export ::
  "worker_env \<Rightarrow> nat \<Rightarrow> export_request \<Rightarrow> (string, string list \<times> signed_export) result" where
  "gather_export env max_rows req =
     rbind (map_err key_error_text (we_key env)) (\<lambda>key.
     rbind (map_err (\<lambda>e. (''the control-plane audit trail could not be read, so no export was produced '' @
        ''rather than one covering gateway traffic alone. An export that carried only '' @
        ''the request log would look complete and would not be. The store'' @ [CHR 0x27] @ ''s own error '' @
        ''message is in the gateway log.'')) (fetch_control_rows (we_db env 1) (we_lib env) req (we_tables env))) (\<lambda>(control, excluded).
     rbind (map_err (\<lambda>e. (''the analytics store did not answer, so no export was produced rather than an '' @
        ''empty one. An empty export is a factual claim that the window held no traffic, '' @
        ''and this run could not establish that. The store'' @ [CHR 0x27] @ ''s own error message is in the '' @
        ''gateway log.'')) (count_rows (we_count env) req)) (\<lambda>count.
     if count + length control > max_rows
     then Inl (''this window selects '' @ show_nat (count + length control) @ '' rows, over the '' @ show_nat max_rows @
               ''-row export cap. The export was REFUSED rather than truncated, because a truncated '' @
               ''export carrying a valid signature would look complete. Narrow the window '' @
               ''and request again.'')
     else rbind (map_err (\<lambda>e. (''the analytics store did not answer, so no export was produced rather than a '' @
        ''partial one. The store'' @ [CHR 0x27] @ ''s own error message is in the gateway log.'')) (fetch_rows (we_uuid_rank env) (we_fetch env) req)) (\<lambda>rows.
     map_err (\<lambda>e. ''the export manifest could not be built, so nothing was published.'')
       (produce (we_lib env) req rows control excluded (we_now env) key)))))"

definition run_with :: "worker_env \<Rightarrow> nat \<Rightarrow> task_envelope \<Rightarrow> export_db \<Rightarrow> export_outcome \<times> export_db" where
  "run_with env max_rows envelope db =
     (case parse_request (we_payload env) envelope of
        Inl e \<Rightarrow> (failed_outcome None, db)
      | Inr req \<Rightarrow>
          let fail = (\<lambda>reason db'. (failed_outcome (Some (er_export_id req)),
                mark_failed (we_db env 3) (er_export_id req) (er_workspace_id req) reason db'))
          in (case mark_running (we_db env 0) req db of
                Inl e \<Rightarrow> (failed_outcome (Some (er_export_id req)), db)
              | Inr db1 \<Rightarrow>
                  (case gather_export env max_rows req of
                     Inl reason \<Rightarrow> fail reason db1
                   | Inr (pages, sx) \<Rightarrow>
                       (case persist (we_db env 2) req pages sx db1 of
                          Inl e \<Rightarrow> fail ''the export was produced but could not be stored, so nothing was published.'' db1
                        | Inr db2 \<Rightarrow> (\<lparr>oc_export_id = Some (er_export_id req), oc_status = ''complete'',
                            oc_total_rows = sx_total_rows sx, oc_total_pages = sx_total_pages sx\<rparr>, db2)))))"

definition run_export :: "worker_env \<Rightarrow> task_envelope \<Rightarrow> export_db \<Rightarrow> export_outcome \<times> export_db" where
  "run_export env envelope db = run_with env MAX_EXPORT_ROWS envelope db"

section \<open>The routes\<close>

record create_export_request =
  ce_from :: int
  ce_to :: int
  ce_format :: string
  ce_page_size :: "32 word option"

definition store_unavailable :: "string \<Rightarrow> api_error" where
  "store_unavailable context = Internal (''the audit-export store did not answer while '' @ context @
     ''. Its own error message is in the gateway log, not in this response, because a database '' @
     ''exception quotes the statement that provoked it.'')"

definition es_stmt :: "db_env \<Rightarrow> nat \<Rightarrow> string \<Rightarrow> (api_error, unit) result" where
  "es_stmt env k context = map_err (\<lambda>e. store_unavailable context) (wstmt env k)"

definition es_begin_scoped :: "db_env \<Rightarrow> uuid \<Rightarrow> (api_error, unit) result" where
  "es_begin_scoped env ws = rbind (es_stmt env 0 ''opening a transaction'') (\<lambda>_.
     map_err (\<lambda>e. case e of Internal m \<Rightarrow> Internal m | _ \<Rightarrow> store_unavailable ''scoping the transaction to your workspace'')
       (arm_scope env ws))"

definition MAX_WINDOW_DAYS :: int where "MAX_WINDOW_DAYS = 366"

definition validate_export :: "(int \<Rightarrow> string) \<Rightarrow> create_export_request \<Rightarrow> (api_error, export_format \<times> 32 word) result" where
  "validate_export show_int req =
     rbind (ok_or (format_parse (ce_format req)) (BadRequest ''format must be `csv` or `jsonl`'')) (\<lambda>fmt.
     if ce_to req \<le> ce_from req
     then Inl (BadRequest (''invalid window: `from` must be strictly before `to` (the window is '' @
            ''half-open, so `from == to` selects nothing)''))
     else let span = (ce_to req - ce_from req) div ns_per_day;
              page_size = unwrap_or DEFAULT_PAGE_SIZE (ce_page_size req)
       in if MAX_WINDOW_DAYS < span
          then Inl (BadRequest (''window too large: '' @ show_int span @ '' days (max '' @ show_int MAX_WINDOW_DAYS @ '')''))
          else if \<not> page_size_ok page_size then Inl (BadRequest ''page_size must be between 1 and 50000'')
          else Inr (fmt, page_size))"

text \<open>
  \<open>create_export\<close>. \<open>env\<close> is the transaction that records the request, \<open>env'\<close> the one that records a
  queueing failure; \<open>queue_ok\<close> says whether Redis took the task. The envelope is returned beside the answer.
\<close>

record route_env =
  re_signing_key_var :: "string option"
  re_show_int :: "int \<Rightarrow> string"
  re_export_id :: uuid
  re_task_json :: "export_request \<Rightarrow> json"
  re_envelope_ok :: bool
  re_queue_ok :: bool

definition mark_enqueue_failed :: "db_env \<Rightarrow> uuid \<Rightarrow> uuid \<Rightarrow> export_db \<Rightarrow> (api_error, export_db) result" where
  "mark_enqueue_failed env xid ws db =
     rbind (es_begin_scoped env ws) (\<lambda>_. rbind (es_stmt env 3 ''recording the queueing failure'') (\<lambda>_.
     rbind (es_stmt env 4 ''committing the queueing failure'') (\<lambda>_.
       Inr (update_export xid ws (\<lambda>e. e\<lparr>ex_status := ''failed'', ex_error := Some (
            ''the export task could not be placed on the worker queue, so no export '' @
            ''was produced. Nothing partial was published.''), ex_completed_at := Some (now_ts env)\<rparr>) db))))"

definition insert_export :: "db_env \<Rightarrow> jwt_ctx \<Rightarrow> uuid \<Rightarrow> create_export_request \<Rightarrow> export_format \<Rightarrow> 32 word \<Rightarrow> export_db \<Rightarrow> (api_error, export_db) result" where
  "insert_export env ctx xid body fmt page_size db =
     rbind (es_begin_scoped env (ctx_workspace_id ctx)) (\<lambda>_.
     rbind (es_stmt env 3 ''recording the export request'') (\<lambda>_.
     if \<exists>e \<in> set (exports_tbl db). ex_id e = xid then Inl (store_unavailable ''recording the export request'')
     else rbind (es_stmt env 4 ''committing the export request'') (\<lambda>_.
       Inr (db\<lparr>exports_tbl := exports_tbl db @
         [\<lparr>ex_id = xid, ex_ws = ctx_workspace_id ctx, ex_requested_by = ctx_user_id ctx, ex_from = ce_from body,
           ex_to = ce_to body, ex_format = format_as_str fmt, ex_page_size = i32_of (unat page_size), ex_status = ''queued'',
           ex_total_rows = None, ex_total_pages = None, ex_manifest_json = None, ex_signature_b64 = None,
           ex_public_key_b64 = None, ex_signing_key_id = None, ex_error = None, ex_created_at = now_ts env,
           ex_started_at = None, ex_completed_at = None\<rparr>]\<rparr>))))"

definition create_export ::
  "route_env \<Rightarrow> db_env \<Rightarrow> db_env \<Rightarrow> jwt_ctx \<Rightarrow> create_export_request \<Rightarrow> export_db
     \<Rightarrow> (api_error, uuid) result \<times> task_envelope option \<times> export_db" where
  "create_export re env env' ctx body db =
     (case rbind (require_role ctx Admin) (\<lambda>_. validate_export (re_show_int re) body) of
        Inl e \<Rightarrow> (Inl e, None, db)
      | Inr (fmt, page_size) \<Rightarrow>
          if (case re_signing_key_var re of None \<Rightarrow> True | Some v \<Rightarrow> trim v = [])
          then (Inl (ServiceUnavailable (''no audit-export signing key is configured, so no signed export can be '' @
                ''produced. An UNSIGNED export is not offered as a fallback: it would be '' @
                ''indistinguishable from one an auditor fabricated. Set SECUREPROMPT_AUDIT_EXPORT_SIGNING_KEY '' @
                ''on the gateway and the worker.'')), None, db)
          else
            (case insert_export env ctx (re_export_id re) body fmt page_size db of
               Inl e \<Rightarrow> (Inl e, None, db)
             | Inr db1 \<Rightarrow>
                 let envelope = \<lparr>te_task_type = ''audit.export'',
                       te_payload = re_task_json re \<lparr>er_export_id = re_export_id re, er_workspace_id = ctx_workspace_id ctx,
                         er_from = ce_from body, er_to = ce_to body, er_format = fmt, er_page_size = page_size\<rparr>,
                       te_workspace_id = ctx_workspace_id ctx\<rparr>
                 in if \<not> re_envelope_ok re then (Inl (store_unavailable ''serializing the export task''), None, db1)
                    else if \<not> re_queue_ok re
                    then (Inl (ServiceUnavailable (''the export could not be queued, so it will not be produced. The '' @
                            ''request has been recorded as failed rather than left pending.'')), None,
                          case mark_enqueue_failed env' (re_export_id re) (ctx_workspace_id ctx) db1 of Inl e \<Rightarrow> db1 | Inr db2 \<Rightarrow> db2)
                    else (Inr (re_export_id re), Some envelope, db1)))"

definition list_exports :: "db_env \<Rightarrow> jwt_ctx \<Rightarrow> int option \<Rightarrow> export_db \<Rightarrow> (api_error, export_rec list) result" where
  "list_exports env ctx limit db =
     rbind (require_role ctx Admin) (\<lambda>_. rbind (es_begin_scoped env (ctx_workspace_id ctx)) (\<lambda>_.
     rbind (es_stmt env 3 ''listing exports'') (\<lambda>_. rbind (es_stmt env 4 ''closing the list read'') (\<lambda>_.
       Inr (take (nat (max 1 (min 200 (unwrap_or 50 limit))))
         (sort_key (\<lambda>e. - ex_created_at e) (filter (\<lambda>e. ex_ws e = ctx_workspace_id ctx) (exports_tbl db))))))))"

definition select_export :: "uuid \<Rightarrow> uuid \<Rightarrow> export_db \<Rightarrow> export_rec option" where
  "select_export xid ws db = find (\<lambda>e. ex_id e = xid \<and> ex_ws e = ws) (exports_tbl db)"

text \<open>The answer is the row; the page template is there exactly when the status is \<open>complete\<close>.\<close>

definition get_export :: "db_env \<Rightarrow> jwt_ctx \<Rightarrow> uuid \<Rightarrow> export_db \<Rightarrow> (api_error, export_rec \<times> string option) result" where
  "get_export env ctx xid db =
     rbind (require_role ctx Admin) (\<lambda>_. rbind (es_begin_scoped env (ctx_workspace_id ctx)) (\<lambda>_.
     rbind (es_stmt env 3 ''reading the export'') (\<lambda>_. rbind (es_stmt env 4 ''closing the export read'') (\<lambda>_.
     rbind (ok_or (select_export xid (ctx_workspace_id ctx) db) (NotFound ''export not found'')) (\<lambda>e.
       Inr (e, if ex_status e = ''complete'' then Some (''/v1/audit-exports/'' @ show_uuid env xid @ ''/pages/{page}'') else None))))))"

definition select_page :: "uuid \<Rightarrow> uuid \<Rightarrow> int \<Rightarrow> export_db \<Rightarrow> (page_rec \<times> export_rec) option" where
  "select_page xid ws page db = Option.bind (find (\<lambda>p. pr_export_id p = xid \<and> pr_page_number p = page \<and> pr_ws p = ws) (pages_tbl db))
     (\<lambda>p. map_option (Pair p) (select_export xid ws db))"

record page_answer =
  pa_content_type :: string
  pa_disposition :: string
  pa_etag :: string
  pa_body :: string

definition get_export_page :: "db_env \<Rightarrow> (int \<Rightarrow> string) \<Rightarrow> jwt_ctx \<Rightarrow> uuid \<Rightarrow> int \<Rightarrow> export_db \<Rightarrow> (api_error, page_answer) result" where
  "get_export_page env show_int ctx xid page db =
     rbind (require_role ctx Admin) (\<lambda>_. rbind (es_begin_scoped env (ctx_workspace_id ctx)) (\<lambda>_.
     rbind (es_stmt env 3 ''reading the export page'') (\<lambda>_. rbind (es_stmt env 4 ''closing the page read'') (\<lambda>_.
     rbind (ok_or (select_page xid (ctx_workspace_id ctx) page db) (NotFound (''export page not found '' @ [CHR 0xE2, CHR 0x80, CHR 0x94] @
        '' the export may still be running, may have failed, or may have fewer pages than you asked for''))) (\<lambda>(p, e).
       Inr \<lparr>pa_content_type = (case format_parse (ex_format e) of None \<Rightarrow> ''application/octet-stream'' | Some f \<Rightarrow> content_type f),
            pa_disposition = ''attachment; filename='' @ [CHR 0x22] @ ''audit-export-'' @ show_uuid env xid @ ''-page-'' @ show_int page @
              ''.'' @ (if ex_format e = ''csv'' then ''csv'' else ''jsonl'') @ [CHR 0x22],
            pa_etag = [CHR 0x22] @ ''sha256:'' @ pr_sha256 p @ [CHR 0x22], pa_body = pr_body p\<rparr>)))))"

end
