(* ===== verification/Export_Props.thy ===== *)
theory Export_Props
  imports Export_Worker
begin

text \<open>
  What the export pipeline guarantees end to end: the chunks of a page list and the pages a run stores, the
  invariant that every published manifest verifies against the pages served beside it, and that a run
  publishes its whole window or nothing.
\<close>

section \<open>Pages\<close>



definition page_chunks :: "32 word \<Rightarrow> 'r list \<Rightarrow> 'r list list" where
  "page_chunks page_size rows = (if rows = [] then [[]] else chunks (unat page_size) rows)"

lemma page_chunks_ne: "0 < unat n \<Longrightarrow> page_chunks n rows \<noteq> []"
  by (auto simp: page_chunks_def chunks.simps [of "unat n" rows])



lemma paginate_chunks:
  "paginate lib columns to_object rows n fmt =
     (map (\<lambda>c. render_page lib columns to_object c fmt) (page_chunks n rows), map (\<lambda>c. u32_of (length c)) (page_chunks n rows))"
  by (simp add: paginate_def page_chunks_def Let_def)



definition export_pages :: "export_lib \<Rightarrow> export_request \<Rightarrow> export_row list \<Rightarrow> control_row list \<Rightarrow> string list" where
  "export_pages lib req rows control =
     map (\<lambda>c. render_page lib request_column_names (audit_row_object lib) c (er_format req)) (page_chunks (er_page_size req) rows) @
     map (\<lambda>c. render_page lib control_column_names (control_row_object lib) c (er_format req)) (page_chunks (er_page_size req) control)"

lemma produce_Inr:
  assumes "produce lib req rows control excluded ts key = Inr (pages, sx)"
  shows "pages = export_pages lib req rows control"
    "export_crates lib \<Longrightarrow> length key = 32 \<Longrightarrow> length pages < 2 ^ 32 - 1 \<Longrightarrow>
     \<exists>m. verify_export lib (sx_manifest_json sx) (sx_signature_b64 sx) (sx_public_key_b64 sx) pages = Inr m \<and>
       mf_export_id m = er_export_id req \<and> mf_workspace_id m = er_workspace_id req \<and>
       w_from (mf_window m) = er_from req \<and> w_to (mf_window m) = er_to req \<and> unat (sx_total_pages sx) = length pages"
proof -
  obtain dp dr where d: "paginate lib request_column_names (audit_row_object lib) rows (er_page_size req) (er_format req) = (dp, dr)"
    by fastforce
  obtain cp cr where c: "paginate lib control_column_names (control_row_object lib) control (er_page_size req) (er_format req) = (cp, cr)"
    by fastforce
  let ?inputs = "[request_section lib dp dr [retention_for lib (er_from req) (er_to req) ts],
            control_section lib cp cr (control_sources lib excluded)]"
  from assms have b: "build_manifest lib (er_export_id req) (er_workspace_id req) (er_from req) (er_to req) (er_format req)
      (er_page_size req) ?inputs ts key = Inr sx" and p: "pages = dp @ cp"
    by (auto simp: produce_def d c rbind_Inr)
  show "pages = export_pages lib req rows control"
    using d c by (auto simp: p paginate_chunks export_pages_def)
  assume lib: "export_crates lib" "length key = 32" "length pages < 2 ^ 32 - 1"
  have pg: "concat (map si_pages ?inputs) = pages" by (simp add: p request_section_def control_section_def)
  let ?m = "fst (assemble_manifest lib (er_export_id req) (er_workspace_id req) (er_from req) (er_to req) (er_format req)
      (er_page_size req) ?inputs ts key)"
  have v: "verify_export lib (sx_manifest_json sx) (sx_signature_b64 sx) (sx_public_key_b64 sx) pages = Inr ?m"
    using verify_export_built [OF lib(1,2) b, of pages ?m] lib(3) unfolding pg by blast
  moreover have "unat (sx_total_pages sx) = length pages"
  proof -
    have "sx_total_pages sx = mf_total_pages ?m" using b by (auto simp: build_manifest_def rbind_Inr Let_def split: if_splits prod.splits)
    moreover have "u32_of (length pages) = mf_total_pages ?m"
      using v by (auto simp: verify_export_def verify_body_def verify_header_def rbind_Inr Let_def split: if_splits)
    ultimately show ?thesis using unat_u32_of [of "length pages"] lib(3) by simp
  qed
  moreover have "mf_export_id ?m = er_export_id req \<and> mf_workspace_id ?m = er_workspace_id req \<and>
       w_from (mf_window ?m) = er_from req \<and> w_to (mf_window ?m) = er_to req"
    by (simp add: assemble_manifest_def Let_def)
  ultimately show "\<exists>m. verify_export lib (sx_manifest_json sx) (sx_signature_b64 sx) (sx_public_key_b64 sx) pages = Inr m \<and>
       mf_export_id m = er_export_id req \<and> mf_workspace_id m = er_workspace_id req \<and>
       w_from (mf_window m) = er_from req \<and> w_to (mf_window m) = er_to req \<and> unat (sx_total_pages sx) = length pages"
    by blast
qed

lemma insert_pages_Inr:
  "insert_pages env req sx i pages db = Inr db' \<Longrightarrow>
   i = 0 \<or> (\<exists>p \<in> set (pages_tbl db). pr_export_id p = er_export_id req \<and> pr_page_number p = i32_sat_add1 (i32_of (i - 1))) \<Longrightarrow>
   i < 2 ^ 31 \<Longrightarrow>
   \<exists>new. db' = db\<lparr>pages_tbl := pages_tbl db @ new\<rparr> \<and> map pr_body new = pages \<and>
     map pr_page_number new = map int [Suc i ..< Suc (i + length pages)] \<and>
     (\<forall>p \<in> set new. pr_export_id p = er_export_id req \<and> pr_ws p = er_workspace_id req) \<and> i + length pages < 2 ^ 31"
proof (induction pages arbitrary: i db)
  case (Cons body pages)
  let ?n = "i32_sat_add1 (i32_of i)"
  define row where "row = \<lparr>pr_export_id = er_export_id req, pr_ws = er_workspace_id req, pr_page_number = ?n,
      pr_row_count = i32_of (unat (if i < length (sx_rows_per_page sx) then sx_rows_per_page sx ! i else 0)),
      pr_sha256 = (if i < length (sx_page_digests sx) then sx_page_digests sx ! i else []), pr_body = body\<rparr>"
  then have row: "pr_export_id row = er_export_id req" "pr_ws row = er_workspace_id req" "pr_page_number row = ?n" "pr_body row = body"
    by simp_all
  from Cons.prems(1)
  have free: "\<not> (\<exists>p \<in> set (pages_tbl db). pr_export_id p = er_export_id req \<and> pr_page_number p = ?n)"
    and rest: "insert_pages env req sx (Suc i) pages (db\<lparr>pages_tbl := pages_tbl db @ [row]\<rparr>) = Inr db'"
    unfolding row_def insert_pages.simps Let_def rbind_Inr by (auto split: if_split_asm)
  have i: "Suc i < 2 ^ 31"
  proof (rule ccontr)
    assume "\<not> Suc i < 2 ^ 31"
    then have "i = 2 ^ 31 - 1" using Cons.prems(3) by simp
    then have "i32_sat_add1 (i32_of (i - 1)) = ?n" "i \<noteq> 0" by (simp_all add: i32_of_def i32_sat_add1_def)
    with free Cons.prems(2) show False by auto
  qed
  have n: "?n = int (Suc i)" using i by (simp add: i32_of_def i32_sat_add1_def)
  from Cons.IH [OF rest _ i] row obtain new where
    "db' = db\<lparr>pages_tbl := pages_tbl db @ [row]\<rparr>\<lparr>pages_tbl := pages_tbl (db\<lparr>pages_tbl := pages_tbl db @ [row]\<rparr>) @ new\<rparr>"
    "map pr_body new = pages" "map pr_page_number new = map int [Suc (Suc i) ..< Suc (Suc i + length pages)]"
    "\<forall>p \<in> set new. pr_export_id p = er_export_id req \<and> pr_ws p = er_workspace_id req" "Suc i + length pages < 2 ^ 31"
    by auto
  with row n show ?case
    by (intro exI [of _ "row # new"]) (simp add: upt_conv_Cons del: upt_Suc)
qed simp
section \<open>What is published verifies\<close>

definition page_body :: "uuid \<Rightarrow> uuid \<Rightarrow> export_db \<Rightarrow> nat \<Rightarrow> string option" where
  "page_body xid ws db k = map_option pr_body (find (\<lambda>p. pr_export_id p = xid \<and> pr_page_number p = int k \<and> pr_ws p = ws) (pages_tbl db))"

text \<open>Every page stored under an export, with its number.\<close>

definition stored_pages :: "uuid \<Rightarrow> uuid \<Rightarrow> export_db \<Rightarrow> (int \<times> string) list" where
  "stored_pages xid ws db = map (\<lambda>p. (pr_page_number p, pr_body p)) (filter (\<lambda>p. pr_export_id p = xid \<and> pr_ws p = ws) (pages_tbl db))"

text \<open>An export row is sound: if it carries a manifest, the pages 1 to \<open>total_pages\<close> verify under it.\<close>

definition export_sound :: "export_lib \<Rightarrow> export_db \<Rightarrow> export_rec \<Rightarrow> bool" where
  "export_sound lib db e \<longleftrightarrow> (\<forall>t. ex_manifest_json e = Some t \<longrightarrow>
     (\<exists>sig pk n bodies m. ex_signature_b64 e = Some sig \<and> ex_public_key_b64 e = Some pk \<and> ex_total_pages e = Some (int n) \<and>
        map (page_body (ex_id e) (ex_ws e) db) [1 ..< Suc n] = map Some bodies \<and>
        verify_export lib t sig pk bodies = Inr m \<and> mf_export_id m = ex_id e \<and> mf_workspace_id m = ex_ws e))"

definition exports_sound :: "export_lib \<Rightarrow> export_db \<Rightarrow> bool" where
  "exports_sound lib db \<longleftrightarrow> (\<forall>e \<in> set (exports_tbl db). export_sound lib db e)"

lemma find_via_filter: "find P xs = (case filter P xs of [] \<Rightarrow> None | x # _ \<Rightarrow> Some x)"
  by (induction xs) auto

lemma find_numbered:
  "map pr_page_number new = map int [Suc 0 ..< Suc (length new)] \<Longrightarrow> k < length new \<Longrightarrow>
   \<forall>p \<in> set new. pr_export_id p = xid \<and> pr_ws p = ws \<Longrightarrow>
   find (\<lambda>p. pr_export_id p = xid \<and> pr_page_number p = int (Suc k) \<and> pr_ws p = ws) new = Some (new ! k)"
proof -
  assume num: "map pr_page_number new = map int [Suc 0 ..< Suc (length new)]" and k: "k < length new"
    and ids: "\<forall>p \<in> set new. pr_export_id p = xid \<and> pr_ws p = ws"
  have n: "pr_page_number (new ! j) = int (Suc j)" if "j < length new" for j
    using arg_cong [OF num, of "\<lambda>l. l ! j"] that by (simp del: upt_Suc)
  show ?thesis
    unfolding find_Some_iff using k ids n by (intro exI [of _ k]) auto
qed

text \<open>A change of an export row that keeps its manifest, key, counts and identity keeps it sound.\<close>

definition keeps_published :: "(export_rec \<Rightarrow> export_rec) \<Rightarrow> bool" where
  "keeps_published f \<longleftrightarrow> (\<forall>e. ex_id (f e) = ex_id e \<and> ex_ws (f e) = ex_ws e \<and> ex_manifest_json (f e) = ex_manifest_json e \<and>
     ex_signature_b64 (f e) = ex_signature_b64 e \<and> ex_public_key_b64 (f e) = ex_public_key_b64 e \<and> ex_total_pages (f e) = ex_total_pages e)"

lemma page_body_update [simp]: "page_body xid ws (update_export i w f db) = page_body xid ws db"
  by (simp add: fun_eq_iff page_body_def update_export_def)

lemma export_sound_cong:
  assumes "keeps_published f" "page_body (ex_id e) (ex_ws e) db' = page_body (ex_id e) (ex_ws e) db"
  shows "export_sound lib db' (f e) = export_sound lib db e"
  using assms by (simp add: export_sound_def keeps_published_def)

lemma set_update_export:
  "set (exports_tbl (update_export i w f db)) = (\<lambda>e. if ex_id e = i \<and> ex_ws e = w then f e else e) ` set (exports_tbl db)"
  by (simp add: update_export_def)

lemma update_export_sound:
  assumes "keeps_published f" "exports_sound lib db"
  shows "exports_sound lib (update_export i w f db)"
proof -
  have "export_sound lib (update_export i w f db) (if ex_id e = i \<and> ex_ws e = w then f e else e)" if "e \<in> set (exports_tbl db)" for e
    using assms that export_sound_cong [OF assms(1), of e "update_export i w f db" db lib]
      export_sound_cong [of "\<lambda>e. e" e "update_export i w f db" db lib]
    by (auto simp: exports_sound_def keeps_published_def)
  then show ?thesis by (simp only: exports_sound_def set_update_export ball_simps) blast
qed

lemma persist_page_body:
  assumes "persist env req pages sx db = Inr db'"
  shows "length pages < 2 ^ 31"
    "(xid, ws) \<noteq> (er_export_id req, er_workspace_id req) \<Longrightarrow> page_body xid ws db' = page_body xid ws db"
    "map (page_body (er_export_id req) (er_workspace_id req) db') [1 ..< Suc (length pages)] = map Some pages"
    "exports_tbl db' = exports_tbl (update_export (er_export_id req) (er_workspace_id req) (complete_export (now_ts env) sx) db)"
    "stored_pages (er_export_id req) (er_workspace_id req) db' = zip (map int [1 ..< Suc (length pages)]) pages"
    "(xid, ws) \<noteq> (er_export_id req, er_workspace_id req) \<Longrightarrow> stored_pages xid ws db' = stored_pages xid ws db"
proof -
  let ?own = "\<lambda>p. pr_export_id p = er_export_id req \<and> pr_ws p = er_workspace_id req"
  let ?db0 = "db\<lparr>pages_tbl := filter (\<lambda>p. \<not> ?own p) (pages_tbl db)\<rparr>"
  from assms obtain db1 where ins: "insert_pages env req sx 0 pages ?db0 = Inr db1"
    and db': "db' = update_export (er_export_id req) (er_workspace_id req) (complete_export (now_ts env) sx) db1"
    by (auto simp: persist_def rbind_Inr)
  from insert_pages_Inr [OF ins] obtain new where db1: "db1 = ?db0\<lparr>pages_tbl := pages_tbl ?db0 @ new\<rparr>"
    and new: "map pr_body new = pages" "map pr_page_number new = map int [Suc 0 ..< Suc (length pages)]"
      "\<forall>p \<in> set new. ?own p" and small: "length pages < 2 ^ 31"
    by auto
  show "length pages < 2 ^ 31" by (rule small)
  show "exports_tbl db' = exports_tbl (update_export (er_export_id req) (er_workspace_id req) (complete_export (now_ts env) sx) db)"
    by (simp add: db' db1 update_export_def)
  have len: "length new = length pages" using new(1) by (metis length_map)
  have "filter ?own (pages_tbl db') = new" using new(3) by (simp add: db' db1 update_export_def filter_empty_conv)
  then show "stored_pages (er_export_id req) (er_workspace_id req) db' = zip (map int [1 ..< Suc (length pages)]) pages"
    using new(1,2) zip_map_fst_snd [of "map (\<lambda>p. (pr_page_number p, pr_body p)) new"]
    by (simp add: stored_pages_def comp_def del: upt_Suc)
  show "stored_pages xid ws db' = stored_pages xid ws db" if "(xid, ws) \<noteq> (er_export_id req, er_workspace_id req)"
    using that new(3)
    by (auto simp: stored_pages_def db' db1 update_export_def filter_empty_conv intro!: arg_cong [of _ _ "map _"] filter_cong)
  show "page_body xid ws db' = page_body xid ws db" if "(xid, ws) \<noteq> (er_export_id req, er_workspace_id req)"
  proof
    fix k
    let ?P = "\<lambda>p. pr_export_id p = xid \<and> pr_page_number p = int k \<and> pr_ws p = ws"
    have "filter ?P (pages_tbl db1) = filter ?P (pages_tbl db)"
      using that new(3) by (auto simp: db1 filter_empty_conv intro!: filter_cong)
    then show "page_body xid ws db' k = page_body xid ws db k"
      by (simp add: db' page_body_def find_via_filter update_export_def)
  qed
  show "map (page_body (er_export_id req) (er_workspace_id req) db') [1 ..< Suc (length pages)] = map Some pages"
  proof (rule nth_equalityI)
    fix k assume "k < length (map (page_body (er_export_id req) (er_workspace_id req) db') [1 ..< Suc (length pages)])"
    then have k: "k < length pages" by (simp del: upt_Suc)
    let ?P = "\<lambda>p. pr_export_id p = er_export_id req \<and> pr_page_number p = int (Suc k) \<and> pr_ws p = er_workspace_id req"
    have "filter ?P (pages_tbl db1) = filter ?P new" by (auto simp: db1 filter_empty_conv)
    then have "page_body (er_export_id req) (er_workspace_id req) db' (Suc k) = map_option pr_body (find ?P new)"
      by (simp add: db' page_body_def find_via_filter update_export_def)
    also have "find ?P new = Some (new ! k)"
      using new(2,3) k len by (intro find_numbered) auto
    finally show "map (page_body (er_export_id req) (er_workspace_id req) db') [1 ..< Suc (length pages)] ! k = map Some pages ! k"
      using k arg_cong [OF new(1), of "\<lambda>l. l ! k"] len by (simp del: upt_Suc)
  qed (simp del: upt_Suc)
qed

lemma keeps_published_status:
  "keeps_published (\<lambda>e. e\<lparr>ex_status := s, ex_started_at := t\<rparr>)"
  "keeps_published (\<lambda>e. e\<lparr>ex_status := s, ex_error := r, ex_completed_at := t\<rparr>)"
  by (simp_all add: keeps_published_def)

lemma mark_running_sound: "mark_running env req db = Inr db' \<Longrightarrow> exports_sound lib db \<Longrightarrow> exports_sound lib db'"
  by (auto simp: mark_running_def rbind_Inr intro!: update_export_sound keeps_published_status)

lemma mark_failed_sound: "exports_sound lib db \<Longrightarrow> exports_sound lib (mark_failed env i w reason db)"
  by (auto simp: mark_failed_def intro!: update_export_sound keeps_published_status split: sum.split)

lemma mark_enqueue_failed_sound:
  "mark_enqueue_failed env i w db = Inr db' \<Longrightarrow> exports_sound lib db \<Longrightarrow> exports_sound lib db'"
  by (auto simp: mark_enqueue_failed_def rbind_Inr intro!: update_export_sound keeps_published_status)

lemma insert_export_sound:
  assumes "insert_export env ctx xid body fmt n db = Inr db'" "exports_sound lib db"
  shows "exports_sound lib db'"
proof -
  from assms(1) obtain e where "exports_tbl db' = exports_tbl db @ [e]" "ex_manifest_json e = None" "pages_tbl db' = pages_tbl db"
    by (auto simp: insert_export_def rbind_Inr split: if_splits)
  moreover have "export_sound lib db' e' = export_sound lib db e'" for e'
    using export_sound_cong [of "\<lambda>e. e" e' db' db lib] \<open>pages_tbl db' = pages_tbl db\<close>
    by (simp add: keeps_published_def page_body_def fun_eq_iff)
  moreover have "export_sound lib db e" using \<open>ex_manifest_json e = None\<close> by (simp add: export_sound_def)
  ultimately show ?thesis using assms(2) by (auto simp: exports_sound_def)
qed

lemma create_export_sound: "exports_sound lib db \<Longrightarrow> exports_sound lib (snd (snd (create_export re env env' ctx body db)))"
  by (auto simp: create_export_def Let_def split: sum.splits intro: insert_export_sound mark_enqueue_failed_sound)

lemma persist_sound:
  assumes per: "persist env req pages sx db = Inr db'" and old: "exports_sound lib db"
    and prod: "produce lib req rows control excluded ts key = Inr (pages, sx)" and lib: "export_crates lib" "length key = 32"
  shows "exports_sound lib db'"
proof -
  note body = persist_page_body [OF per]
  have "length pages < 2 ^ 32 - 1" using body(1) by simp
  from produce_Inr(2) [OF prod lib this] obtain m where
    v: "verify_export lib (sx_manifest_json sx) (sx_signature_b64 sx) (sx_public_key_b64 sx) pages = Inr m"
    and m: "mf_export_id m = er_export_id req" "mf_workspace_id m = er_workspace_id req" "unat (sx_total_pages sx) = length pages"
    by blast
  have n: "i32_of (unat (sx_total_pages sx)) = int (length pages)" using m(3) body(1) by (simp add: i32_of_def)
  have "export_sound lib db' (if ex_id e = er_export_id req \<and> ex_ws e = er_workspace_id req then complete_export (now_ts env) sx e else e)"
    if "e \<in> set (exports_tbl db)" for e
  proof (cases "ex_id e = er_export_id req \<and> ex_ws e = er_workspace_id req")
    case True
    with v m n body(3) show ?thesis
      by (auto simp: export_sound_def complete_export_def simp del: upt_Suc intro!: exI [of _ "length pages"] exI [of _ pages])
  next
    case False
    then show ?thesis
      using export_sound_cong [of "\<lambda>e. e" e db' db lib] body(2) [of "ex_id e" "ex_ws e"] old that
      by (auto simp: keeps_published_def exports_sound_def)
  qed
  then show ?thesis by (simp only: exports_sound_def body(4) set_update_export ball_simps) blast
qed

lemma gather_export_Inr:
  assumes "gather_export env max_rows req = Inr (pages, sx)"
  obtains key control excluded table rows where "we_key env = Inr key"
    "fetch_control_rows (we_db env 1) (we_lib env) req (we_tables env) = Inr (control, excluded)"
    "we_fetch env = Inr table"
    "rows = map into_audit_row (sort_key (\<lambda>r. (ev_created_at_unix r, we_uuid_rank env (ev_request_id r))) (filter (in_scope req) table))"
    "produce (we_lib env) req rows control excluded (we_now env) key = Inr (pages, sx)"
  using assms by (auto simp: gather_export_def rbind_Inr fetch_rows_def split: if_splits prod.splits)

lemma run_with_sound:
  assumes "export_crates (we_lib env)" "\<forall>key. we_key env = Inr key \<longrightarrow> length key = 32" "exports_sound (we_lib env) db"
  shows "exports_sound (we_lib env) (snd (run_with env max_rows envelope db))"
proof (cases "parse_request (we_payload env) envelope")
  case (Inr req)
  show ?thesis
  proof (cases "mark_running (we_db env 0) req db")
    case run: (Inr db1)
    note s1 = mark_running_sound [OF run assms(3)]
    show ?thesis
    proof (cases "gather_export env max_rows req")
      case g: (Inr ps)
      obtain pages sx where ps: "ps = (pages, sx)" by (cases ps)
      obtain key control excluded table rows where
        k: "we_key env = Inr key" and p: "produce (we_lib env) req rows control excluded (we_now env) key = Inr (pages, sx)"
        by (rule gather_export_Inr [OF g [unfolded ps]])
      have "length key = 32" using assms(2) k by blast
      then show ?thesis
        using persist_sound [OF _ s1 p assms(1)] mark_failed_sound [OF s1]
        by (auto simp: run_with_def Inr run g ps Let_def split: sum.split)
    qed (simp add: run_with_def Inr run mark_failed_sound [OF s1])
  qed (simp add: run_with_def Inr assms(3))
qed (simp add: run_with_def assms(3))

section \<open>Requests, runs and what is served\<close>

lemma signing_key_length: "signing_key_from_env lib var = Inr key \<Longrightarrow> length key = 32"
  by (auto simp: signing_key_from_env_def parse_signing_key_def from_hex_def sized_def Let_def bind_eq_Some_conv
      split: option.splits if_splits)

text \<open>The export tables change when a request is made and when the worker runs a task, any task, any number of times.\<close>

inductive export_step :: "export_lib \<Rightarrow> export_db \<Rightarrow> export_db \<Rightarrow> bool" for lib where
  requested: "export_step lib db (snd (snd (create_export re env env' ctx body db)))"
| executed: "we_lib env = lib \<Longrightarrow> we_key env = signing_key_from_env lib var \<Longrightarrow>
    export_step lib db (snd (run_export env envelope db))"

definition no_exports :: export_db where "no_exports = \<lparr>exports_tbl = [], pages_tbl = []\<rparr>"

lemma reachable_exports_sound:
  assumes "export_crates lib" "(export_step lib)\<^sup>*\<^sup>* no_exports db"
  shows "exports_sound lib db"
  using assms(2)
proof induction
  case base
  show ?case by (simp add: exports_sound_def no_exports_def)
next
  case (step db db')
  from step.hyps(2) show ?case
  proof cases
    case (requested re env env' ctx body)
    then show ?thesis using create_export_sound [OF step.IH] by simp
  next
    case (executed env var envelope)
    then show ?thesis
      using run_with_sound [of env db MAX_EXPORT_ROWS envelope] step.IH assms(1) signing_key_length
      by (auto simp: run_export_def)
  qed
qed

lemma es_errors: "es_stmt env k c = Inl e \<Longrightarrow> \<exists>m. e = Internal m" "es_begin_scoped env ws = Inl e \<Longrightarrow> \<exists>m. e = Internal m"
  by (auto simp: es_stmt_def es_begin_scoped_def map_err_def store_unavailable_def rbind_Inl split: sum.splits api_error.splits)

lemma get_export_Inr:
  "get_export env ctx xid db = Inr (e, url) \<Longrightarrow>
   require_role ctx Admin = Inr () \<and> select_export xid (ctx_workspace_id ctx) db = Some e \<and> e \<in> set (exports_tbl db) \<and>
   ex_id e = xid \<and> ex_ws e = ctx_workspace_id ctx"
  by (auto simp: get_export_def rbind_Inr select_export_def find_Some_iff)

lemma served_page:
  assumes "require_role ctx Admin = Inr ()" "select_export xid (ctx_workspace_id ctx) db = Some e"
    and "page_body xid (ctx_workspace_id ctx) db k = Some b"
  shows "case get_export_page env show_int ctx xid (int k) db of Inr ans \<Rightarrow> pa_body ans = b | Inl err \<Rightarrow> \<exists>m. err = Internal m"
  using assms es_errors
  by (auto simp: get_export_page_def page_body_def select_page_def rbind_def ok_or_def split: sum.splits option.splits)

text \<open>
  C5 (invariant, end to end): after any sequence of export requests and worker runs (failing at any
  statement, repeated, or with hostile payloads), whenever \<open>GET /v1/audit-exports/{id}\<close> answers an admin
  with a manifest, the pages numbered 1 to \<open>total_pages\<close> are served by the page route under the same
  identifier (the only other answer is the store's outage), and the bytes served pass the verifier with the
  signature and the key of the answer; the verified manifest names this export and the caller's workspace.
\<close>

theorem served_export_verifies:
  assumes "export_crates lib" "(export_step lib)\<^sup>*\<^sup>* no_exports db"
    and "get_export env ctx xid db = Inr (e, url)" "ex_manifest_json e = Some t"
  shows "\<exists>sig pk bodies m. ex_signature_b64 e = Some sig \<and> ex_public_key_b64 e = Some pk \<and>
    ex_total_pages e = Some (int (length bodies)) \<and> verify_export lib t sig pk bodies = Inr m \<and>
    mf_export_id m = xid \<and> mf_workspace_id m = ctx_workspace_id ctx \<and>
    (\<forall>k < length bodies. \<forall>env'. case get_export_page env' show_int ctx xid (int (Suc k)) db of
        Inr ans \<Rightarrow> pa_body ans = bodies ! k
      | Inl err \<Rightarrow> \<exists>msg. err = Internal msg)"
proof -
  note g = get_export_Inr [OF assms(3)]
  have "export_sound lib db e"
    using reachable_exports_sound [OF assms(1,2)] g by (simp add: exports_sound_def)
  then obtain sig pk n bodies m where s: "ex_signature_b64 e = Some sig" "ex_public_key_b64 e = Some pk"
    "ex_total_pages e = Some (int n)" "map (page_body xid (ctx_workspace_id ctx) db) [1 ..< Suc n] = map Some bodies"
    "verify_export lib t sig pk bodies = Inr m" "mf_export_id m = xid" "mf_workspace_id m = ctx_workspace_id ctx"
    using assms(4) g by (auto simp: export_sound_def simp del: upt_Suc)
  have n: "length bodies = n" using arg_cong [OF s(4), of length] by (simp del: upt_Suc)
  have "page_body xid (ctx_workspace_id ctx) db (Suc k) = Some (bodies ! k)" if "k < n" for k
    using arg_cong [OF s(4), of "\<lambda>l. l ! k"] that n by (simp del: upt_Suc)
  then have "case get_export_page env' show_int ctx xid (int (Suc k)) db of Inr ans \<Rightarrow> pa_body ans = bodies ! k
      | Inl err \<Rightarrow> \<exists>msg. err = Internal msg" if "k < n" for k env'
    using served_page [OF conjunct1 [OF g], of xid db e "Suc k" "bodies ! k" env' show_int] g that by blast
  then show ?thesis using s n by blast
qed










section \<open>A run\<close>

definition export_run_db_env :: db_env where
  "export_run_db_env = \<lparr>stmt_err = (\<lambda>k. None), readback = Some, dup_err = [], show_uuid = (\<lambda>u. ''u''), now_ts = 7, fresh_uuid = (\<lambda>k. 9)\<rparr>"

definition export_run_row :: event_row where
  "export_run_row = \<lparr>ev_request_id = 4, ev_workspace_id = 2, ev_created_at_unix = 1, ev_provider = ''p'', ev_model = ''m'',
     ev_final_action = ''allow'', ev_input_tokens = None, ev_output_tokens = None, ev_estimated_usage = False,
     ev_cost_usd = Some 0, ev_user_id = None, ev_api_key_id = None, ev_api_key_name = None, ev_ip_address = None,
     ev_user_agent = None, ev_floor_only = False, ev_engines = []\<rparr>"

definition export_run_request :: export_request where
  "export_run_request = \<lparr>er_export_id = 1, er_workspace_id = 2, er_from = 0, er_to = 5000000000, er_format = Jsonl, er_page_size = 1\<rparr>"

definition export_run_inputs :: "section_input list" where
  "export_run_inputs = [request_section export_demo_base [[CHR ''v'', CHR 0x0A]] [1] [retention_for export_demo_base 0 5000000000 8],
     control_section export_demo_base [[]] [0] (control_sources export_demo_base 0)]"

definition export_run_manifest :: manifest where
  "export_run_manifest = fst (assemble_manifest export_demo_base 1 2 0 5000000000 Jsonl 1 export_run_inputs 8 (replicate 32 (CHR ''k'')))"

definition export_run_lib :: export_lib where
  "export_run_lib = with_manifest export_demo_base export_run_manifest"

definition export_run_env :: worker_env where
  "export_run_env = \<lparr>we_db = (\<lambda>k. export_run_db_env), we_tables = \<lparr>at_raw_capture = [], at_purge = [], at_revocation = [], at_admin = []\<rparr>,
     we_count = Inr [export_run_row], we_fetch = Inr [export_run_row], we_uuid_rank = (\<lambda>u. 0),
     we_payload = (\<lambda>v. Some \<lparr>rp_export_id = 1, rp_from = 0, rp_to = 5000000000, rp_format = ''jsonl'', rp_page_size = Some 1\<rparr>),
     we_lib = export_run_lib, we_key = Inr (replicate 32 (CHR ''k'')), we_now = 8\<rparr>"

definition export_run_envelope :: task_envelope where
  "export_run_envelope = \<lparr>te_task_type = ''audit.export'', te_payload = JNull, te_workspace_id = 2\<rparr>"

definition export_run_signed :: signed_export where
  "export_run_signed = \<lparr>sx_manifest_json = ''m'', sx_signature_b64 = ed_sign export_demo_base (replicate 32 (CHR ''k'')) ''m'',
     sx_public_key_b64 = replicate 32 (CHR ''k''), sx_signing_key_id = key_id export_demo_base (replicate 32 (CHR ''k'')),
     sx_total_rows = 1, sx_total_pages = 2,
     sx_page_digests = map (sha256 export_demo_base) [[CHR ''v'', CHR 0x0A], []], sx_rows_per_page = [1, 0]\<rparr>"

lemma export_run_crates: "export_crates export_run_lib"
  unfolding export_run_lib_def
  by (rule export_demo_base_crates) (simp add: export_run_manifest_def assemble_manifest_def Let_def SCHEMA_VERSION_def)

lemma export_run_control_sources: "control_sources export_run_lib n = control_sources export_demo_base n"
  by (simp add: control_sources_def export_run_lib_def Let_def)

lemma export_run_build:
  "build_manifest export_run_lib 1 2 0 5000000000 Jsonl 1 export_run_inputs 8 (replicate 32 (CHR ''k'')) = Inr export_run_signed"
proof -
  have "section_set_ok (map si_section export_run_inputs)" "check_inputs export_run_inputs = Inr ()"
    by (simp_all add: export_run_inputs_def request_section_def control_section_def section_set_ok_def REQUIRED_SECTIONS_def)
  moreover have "manifest_text export_run_lib export_run_manifest = Some ''m''" by (simp add: export_run_lib_def)
  moreover have "b64_encode export_run_lib = id" "verifying_key export_run_lib = id" "ed_sign export_run_lib = ed_sign export_demo_base"
    "key_id export_run_lib = key_id export_demo_base"
    by (simp_all add: export_run_lib_def) (simp_all add: export_demo_base_def)
  moreover have "hex_encode export_demo_base = id" by (simp add: export_demo_base_def)
  ultimately show ?thesis
    by (simp add: build_manifest_def ok_or_def export_run_lib_def export_run_signed_def)
      (simp add: export_run_manifest_def assemble_manifest_def Let_def export_run_inputs_def push_section_def push_page_def
        request_section_def control_section_def u32_of_def)
qed

lemma export_run_pages:
  "produce export_run_lib export_run_request [into_audit_row export_run_row] [] 0 8 (replicate 32 (CHR ''k'')) =
   Inr ([[CHR ''v'', CHR 0x0A], []], export_run_signed)"
proof -
  have "chunks (Suc 0) [into_audit_row export_run_row] = [[into_audit_row export_run_row]]" by (simp add: chunks.simps)
  moreover have "value_text export_run_lib v = ''v''" for v by (simp add: export_run_lib_def) (simp add: export_demo_base_def)
  ultimately show ?thesis
    using export_run_build
    by (simp add: produce_def paginate_def export_run_request_def render_page_def export_run_control_sources u32_of_def)
      (simp add: export_run_lib_def export_run_inputs_def)
qed

lemma export_run_stmt: "wstmt export_run_db_env k = Inr ()" "worker_begin_scoped export_run_db_env ws = Inr ()"
  "es_stmt export_run_db_env k c = Inr ()" "es_begin_scoped export_run_db_env ws = Inr ()"
  by (simp_all add: wstmt_def worker_begin_scoped_def worker_scope_is_armed_def es_stmt_def es_begin_scoped_def arm_scope_def
      scope_is_armed_def stmt_def map_err_def export_run_db_env_def)

lemma export_run_gather:
  "gather_export export_run_env MAX_EXPORT_ROWS export_run_request = Inr ([[CHR ''v'', CHR 0x0A], []], export_run_signed)"
proof -
  have "in_scope export_run_request export_run_row"
    by (simp add: in_scope_def export_run_request_def export_run_row_def ns_per_sec_def)
  then show ?thesis
    using export_run_pages
    by (simp add: gather_export_def export_run_env_def map_err_def fetch_control_rows_def export_run_stmt control_events_def
        excluded_purge_rows_def count_rows_def fetch_rows_def MAX_EXPORT_ROWS_def)
qed

definition export_run_queued :: export_rec where
  "export_run_queued = \<lparr>ex_id = 1, ex_ws = 2, ex_requested_by = 3, ex_from = 0, ex_to = 5000000000, ex_format = ''jsonl'', ex_page_size = 1,
     ex_status = ''queued'', ex_total_rows = None, ex_total_pages = None, ex_manifest_json = None, ex_signature_b64 = None,
     ex_public_key_b64 = None, ex_signing_key_id = None, ex_error = None, ex_created_at = 7, ex_started_at = None, ex_completed_at = None\<rparr>"

definition export_run_final :: export_db where
  "export_run_final = snd (run_export export_run_env export_run_envelope \<lparr>exports_tbl = [export_run_queued], pages_tbl = []\<rparr>)"

lemma export_run_parse: "parse_request (we_payload export_run_env) export_run_envelope = Inr export_run_request"
  by (simp add: parse_request_def export_run_env_def export_run_envelope_def export_run_request_def ok_or_def format_parse_def page_size_ok_def)

lemma export_run_result:
  "run_export export_run_env export_run_envelope \<lparr>exports_tbl = [export_run_queued], pages_tbl = []\<rparr> =
   (\<lparr>oc_export_id = Some 1, oc_status = ''complete'', oc_total_rows = 1, oc_total_pages = 2\<rparr>,
    \<lparr>exports_tbl = [complete_export 7 export_run_signed (export_run_queued\<lparr>ex_status := ''running'', ex_started_at := Some 7\<rparr>)],
     pages_tbl =
       [\<lparr>pr_export_id = 1, pr_ws = 2, pr_page_number = 1, pr_row_count = 1, pr_sha256 = sha256 export_demo_base [CHR ''v'', CHR 0x0A],
         pr_body = [CHR ''v'', CHR 0x0A]\<rparr>,
        \<lparr>pr_export_id = 1, pr_ws = 2, pr_page_number = 2, pr_row_count = 0, pr_sha256 = sha256 export_demo_base [], pr_body = []\<rparr>]\<rparr>)"
proof -
  have ids: "er_export_id export_run_request = 1" "er_workspace_id export_run_request = 2" "we_db export_run_env k = export_run_db_env"
    "now_ts export_run_db_env = 7" "ex_id export_run_queued = 1" "ex_ws export_run_queued = 2" for k
    by (simp_all add: export_run_request_def export_run_env_def export_run_db_env_def export_run_queued_def)
  have sx: "sx_rows_per_page export_run_signed = [1, 0]"
    "sx_page_digests export_run_signed = [sha256 export_demo_base [CHR ''v'', CHR 0x0A], sha256 export_demo_base []]"
    "sx_total_rows export_run_signed = 1" "sx_total_pages export_run_signed = 2"
    by (simp_all add: export_run_signed_def)
  show ?thesis
    by (simp add: run_export_def run_with_def export_run_parse mark_running_def export_run_stmt export_run_gather persist_def ids
        update_export_def i32_of_def i32_sat_add1_def sx)
qed


definition export_run_ctx :: jwt_ctx where
  "export_run_ctx = \<lparr>ctx_user_id = 3, ctx_workspace_id = 2, ctx_role = Admin, ctx_jti = ''j'', ctx_exp = 99\<rparr>"

definition export_run_route :: route_env where
  "export_run_route = \<lparr>re_signing_key_var = Some ''k'', re_show_int = (\<lambda>i. ''n''), re_export_id = 1, re_task_json = (\<lambda>r. JNull),
     re_envelope_ok = True, re_queue_ok = True\<rparr>"

lemma export_run_reachable: "(export_step export_run_lib)\<^sup>*\<^sup>* no_exports export_run_final"
proof -
  let ?body = "\<lparr>ce_from = 0, ce_to = 5000000000, ce_format = ''jsonl'', ce_page_size = Some 1\<rparr>"
  have k: "trim ''k'' \<noteq> []" by code_simp
  have "snd (snd (create_export export_run_route export_run_db_env export_run_db_env export_run_ctx ?body no_exports)) =
      \<lparr>exports_tbl = [export_run_queued], pages_tbl = []\<rparr>"
    by (simp add: create_export_def export_run_ctx_def require_role_def validate_export_def ok_or_def format_parse_def ns_per_day_def
        MAX_WINDOW_DAYS_def page_size_ok_def export_run_route_def k insert_export_def export_run_stmt no_exports_def
        export_run_queued_def i32_of_def)
      (simp add: export_run_db_env_def)
  then have "export_step export_run_lib no_exports \<lparr>exports_tbl = [export_run_queued], pages_tbl = []\<rparr>"
    by (metis export_step.requested)
  moreover have key: "signing_key_from_env export_run_lib (Some (replicate 32 (CHR ''k''))) = Inr (replicate 32 (CHR ''k''))"
  proof -
    have "trim (replicate 32 (CHR ''k'')) = replicate 32 (CHR ''k'')" by code_simp
    then show ?thesis
      by (simp add: signing_key_from_env_def parse_signing_key_def Let_def sized_def ok_or_def export_run_lib_def)
        (simp add: export_demo_base_def)
  qed
  have "export_step export_run_lib \<lparr>exports_tbl = [export_run_queued], pages_tbl = []\<rparr> export_run_final"
    unfolding export_run_final_def
    by (rule export_step.executed [where var = "Some (replicate 32 (CHR ''k''))"]) (simp_all only: key, simp_all add: export_run_env_def)
  ultimately show ?thesis by (meson converse_rtranclp_into_rtranclp rtranclp.rtrancl_refl)
qed

theorem served_export_verifies_witness:
  "\<exists>sig pk bodies m. length bodies = 2 \<and> verify_export export_run_lib ''m'' sig pk bodies = Inr m \<and>
     mf_export_id m = 1 \<and> mf_workspace_id m = 2 \<and>
     (\<forall>k < 2. case get_export_page export_run_db_env (\<lambda>i. ''n'') export_run_ctx 1 (int (Suc k)) export_run_final of
        Inr ans \<Rightarrow> pa_body ans = bodies ! k | Inl err \<Rightarrow> \<exists>msg. err = Internal msg)"
proof -
  define e where "e = complete_export 7 export_run_signed (export_run_queued\<lparr>ex_status := ''running'', ex_started_at := Some 7\<rparr>)"
  have e: "ex_manifest_json e = Some ''m''" "ex_total_pages e = Some 2" "ex_id e = 1" "ex_ws e = 2"
    by (simp_all add: e_def complete_export_def export_run_signed_def export_run_queued_def i32_of_def)
  have "exports_tbl export_run_final = [e]" by (simp add: export_run_final_def export_run_result e_def)
  then have "\<exists>url. get_export export_run_db_env export_run_ctx 1 export_run_final = Inr (e, url)"
    by (simp add: get_export_def export_run_ctx_def require_role_def export_run_stmt select_export_def ok_or_def e)
  then obtain url where g: "get_export export_run_db_env export_run_ctx 1 export_run_final = Inr (e, url)" by blast
  have ws: "ctx_workspace_id export_run_ctx = 2" by (simp add: export_run_ctx_def)
  obtain sig pk bodies m where "ex_total_pages e = Some (int (length bodies))"
    "verify_export export_run_lib ''m'' sig pk bodies = Inr m" "mf_export_id m = 1" "mf_workspace_id m = 2"
    "\<forall>k < length bodies. \<forall>env'. case get_export_page env' (\<lambda>i. ''n'') export_run_ctx 1 (int (Suc k)) export_run_final of
        Inr ans \<Rightarrow> pa_body ans = bodies ! k | Inl err \<Rightarrow> \<exists>msg. err = Internal msg"
    using served_export_verifies [OF export_run_crates export_run_reachable g e(1), of "\<lambda>i. ''n''"] unfolding ws by blast
  moreover from this(1) have "length bodies = 2" using e(2) by simp
  ultimately show ?thesis by metis
qed

end
