(* ===== verification/Secure_Mode_Api.thy ===== *)
theory Secure_Mode_Api
  imports Pipeline_Props Export_Worker Url_Guard
begin

text \<open>
  The secure-mode endpoints (\<open>dashboard/secure_mode.rs\<close>) with the repositories only they write:
  the raw-capture settings (\<open>db/raw_capture_repo.rs\<close>) and the token vault (\<open>db/token_vault_repo.rs\<close>),
  and the coverage check of the non-gateway endpoints (\<open>http/sidecar_coverage.rs\<close>).

  The key-management backend and the JSON text of a string map are parameters; the detectors are those of
  the gateway environment. A handler runs several transactions, each with its own \<^typ>\<open>db_env\<close>.
\<close>

section \<open>Raw-capture settings\<close>

definition default_retention_days :: int where
  "default_retention_days = 30"

definition min_retention_days :: int where
  "min_retention_days = 1"

definition max_retention_days :: int where
  "max_retention_days = 3650"

record raw_capture_settings =
  rs_enabled :: bool
  rs_retention_days :: int

definition raw_capture_default :: raw_capture_settings where
  "raw_capture_default = \<lparr>rs_enabled = False, rs_retention_days = default_retention_days\<rparr>"

definition clamp_retention :: "int \<Rightarrow> int" where
  "clamp_retention days =
     (if days < min_retention_days then min_retention_days
      else if days > max_retention_days then max_retention_days
      else days)"

text \<open>A row of \<open>workspace_raw_capture\<close>, and the tables the endpoints use.\<close>

record capture_setting_row =
  cs_enabled :: bool
  cs_retention_days :: int
  cs_updated_at :: int
  cs_updated_by :: "uuid option"

record token_vault_row =
  tv_id :: uuid
  tv_ws :: uuid
  tv_ciphertext :: string
  tv_created_at :: int
  tv_expires_at :: int

record mode_db =
  md_settings :: settings_db
  md_capture :: "uuid \<Rightarrow> capture_setting_row option"
  md_capture_audit :: "raw_capture_row list"
  md_vault :: "token_vault_row list"

definition capture_settings_of :: "capture_setting_row \<Rightarrow> raw_capture_settings" where
  "capture_settings_of r = \<lparr>rs_enabled = cs_enabled r, rs_retention_days = cs_retention_days r\<rparr>"

definition raw_capture_get :: "db_env \<Rightarrow> mode_db \<Rightarrow> uuid \<Rightarrow> (api_error, raw_capture_settings option) result" where
  "raw_capture_get env db ws =
     rbind (begin_scoped env ws) (\<lambda>_. rbind (stmt env 3) (\<lambda>_. rbind (stmt env 4) (\<lambda>_.
       Inr (map_option capture_settings_of (md_capture db ws)))))"

definition raw_capture_get_effective :: "db_env \<Rightarrow> mode_db \<Rightarrow> uuid \<Rightarrow> (api_error, raw_capture_settings) result" where
  "raw_capture_get_effective env db ws =
     rbind (raw_capture_get env db ws) (\<lambda>s. Inr (unwrap_or raw_capture_default s))"

definition capture_upsert_audited ::
  "db_env \<Rightarrow> mode_db \<Rightarrow> uuid \<Rightarrow> raw_capture_settings \<Rightarrow> uuid option \<Rightarrow> string option
     \<Rightarrow> (api_error, raw_capture_settings \<times> mode_db) result" where
  "capture_upsert_audited env db ws settings user email =
     (let retention_days = clamp_retention (rs_retention_days settings) in
      rbind (begin_scoped env ws) (\<lambda>_. rbind (stmt env 3) (\<lambda>_.
      let before = (case md_capture db ws of None \<Rightarrow> raw_capture_default | Some r \<Rightarrow> capture_settings_of r);
          row = \<lparr>cs_enabled = rs_enabled settings, cs_retention_days = retention_days,
                 cs_updated_at = now_ts env, cs_updated_by = user\<rparr>;
          stored = capture_settings_of row in
      rbind (stmt env 4) (\<lambda>_. rbind (stmt env 5) (\<lambda>_. rbind (stmt env 6) (\<lambda>_.
        Inr (stored, db\<lparr>md_capture := (md_capture db)(ws \<mapsto> row),
          md_capture_audit := md_capture_audit db @
            [\<lparr>rc_id = fresh_uuid env 5, rc_ws = ws, rc_actor_user_id = user, rc_actor_email = email,
              rc_enabled_before = rs_enabled before, rc_enabled_after = rs_enabled stored,
              rc_retention_before = rs_retention_days before, rc_retention_after = rs_retention_days stored,
              rc_created_at = now_ts env\<rparr>]\<rparr>)))))))"

record raw_capture_audit_entry =
  ra_actor_user_id :: "uuid option"
  ra_actor_email :: "string option"
  ra_before :: raw_capture_settings
  ra_after :: raw_capture_settings

text \<open>\<open>audit_trail\<close>, for the non-negative limits Postgres accepts.\<close>

definition audit_trail :: "db_env \<Rightarrow> mode_db \<Rightarrow> uuid \<Rightarrow> nat \<Rightarrow> (api_error, raw_capture_audit_entry list) result" where
  "audit_trail env db ws limit =
     rbind (begin_scoped env ws) (\<lambda>_. rbind (stmt env 3) (\<lambda>_. rbind (stmt env 4) (\<lambda>_.
       Inr (map (\<lambda>r. \<lparr>ra_actor_user_id = rc_actor_user_id r, ra_actor_email = rc_actor_email r,
                       ra_before = \<lparr>rs_enabled = rc_enabled_before r, rs_retention_days = rc_retention_before r\<rparr>,
                       ra_after = \<lparr>rs_enabled = rc_enabled_after r, rs_retention_days = rc_retention_after r\<rparr>\<rparr>)
         (take limit (sort_key (\<lambda>r. - rc_created_at r) (filter (\<lambda>r. rc_ws r = ws) (md_capture_audit db))))))))"

section \<open>Reading and changing the mode\<close>

text \<open>
  The environment of a request: one \<^typ>\<open>db_env\<close> per transaction, the two lookups of the caller's address
  (\<open>None\<close> when the row is missing or the query failed) and the deployment's sidecar default.
\<close>

record mode_env =
  me_env :: "nat \<Rightarrow> db_env"
  me_actor_email :: "string option"
  me_capture_email :: "string option"
  me_sidecar_default :: string

definition valid_levels :: "string list" where
  "valid_levels = [''permissive'', ''standard'', ''strict'']"

definition valid_sidecar_policies :: "string list" where
  "valid_sidecar_policies = [''block'', ''degrade_with_alert'']"

record secure_mode_response =
  sr_workspace_id :: uuid
  sr_enabled :: bool
  sr_level :: string
  sr_block_pii :: bool
  sr_block_injection :: bool
  sr_redact_responses :: bool
  sr_sidecar_unavailable :: string
  sr_capture_raw_content :: bool
  sr_raw_capture_retention_days :: int
  sr_updated_at :: int

definition mode_response :: "secure_mode_row \<Rightarrow> sidecar_policy \<Rightarrow> raw_capture_settings \<Rightarrow> secure_mode_response" where
  "mode_response row pol capture =
     \<lparr>sr_workspace_id = sm_ws row, sr_enabled = sm_enabled row, sr_level = sm_level row,
      sr_block_pii = sm_block_pii row, sr_block_injection = sm_block_injection row,
      sr_redact_responses = sm_redact_responses row, sr_sidecar_unavailable = policy_str pol,
      sr_capture_raw_content = rs_enabled capture, sr_raw_capture_retention_days = rs_retention_days capture,
      sr_updated_at = sm_updated_at row\<rparr>"

definition get_secure_mode :: "mode_env \<Rightarrow> jwt_ctx \<Rightarrow> mode_db \<Rightarrow> (api_error, secure_mode_response) result" where
  "get_secure_mode me ctx db =
     (let ws = ctx_workspace_id ctx in
      rbind (secure_mode_get (me_env me 0) (md_settings db) ws) (\<lambda>row.
      rbind (sidecar_policy_get_effective (me_env me 1) (md_settings db) ws (policy_from_db (me_sidecar_default me))) (\<lambda>pol.
      rbind (raw_capture_get_effective (me_env me 2) db ws) (\<lambda>capture.
        Inr (mode_response row pol capture)))))"

record put_secure_mode_request =
  pm_enabled :: "bool option"
  pm_level :: "string option"
  pm_block_pii :: "bool option"
  pm_block_injection :: "bool option"
  pm_redact_responses :: "bool option"
  pm_sidecar_unavailable :: "string option"
  pm_capture_raw_content :: "bool option"
  pm_raw_capture_retention_days :: "int option"

text \<open>The checks before anything is written.\<close>

definition put_checks :: "jwt_ctx \<Rightarrow> put_secure_mode_request \<Rightarrow> (api_error, unit) result" where
  "put_checks ctx body =
     rbind (require_role ctx Admin) (\<lambda>_.
     rbind (case pm_level body of
              None \<Rightarrow> Inr ()
            | Some l \<Rightarrow> guard_err (l \<notin> set valid_levels)
                (BadRequest (''level must be one of: '' @ join_with '', '' valid_levels))) (\<lambda>_.
     (case pm_sidecar_unavailable body of
        None \<Rightarrow> Inr ()
      | Some v \<Rightarrow> guard_err (v \<notin> set valid_sidecar_policies)
          (BadRequest (''sidecar_unavailable must be one of: '' @ join_with '', '' valid_sidecar_policies)))))"

definition put_sidecar ::
  "mode_env \<Rightarrow> uuid \<Rightarrow> string option \<Rightarrow> admin_actor \<Rightarrow> settings_db \<Rightarrow> (api_error, sidecar_policy \<times> settings_db) result" where
  "put_sidecar me ws value actor sdb =
     (let deployment_default = policy_from_db (me_sidecar_default me) in
      case value of
        Some v \<Rightarrow> sidecar_policy_upsert (me_env me 1) sdb ws (policy_from_db v) deployment_default actor
      | None \<Rightarrow> rbind (sidecar_policy_get_effective (me_env me 1) sdb ws deployment_default) (\<lambda>p. Inr (p, sdb)))"

definition put_capture ::
  "mode_env \<Rightarrow> jwt_ctx \<Rightarrow> put_secure_mode_request \<Rightarrow> mode_db \<Rightarrow> (api_error, raw_capture_settings \<times> mode_db) result" where
  "put_capture me ctx body db =
     (let ws = ctx_workspace_id ctx in
      if pm_capture_raw_content body \<noteq> None \<or> pm_raw_capture_retention_days body \<noteq> None
      then rbind (raw_capture_get_effective (me_env me 2) db ws) (\<lambda>current.
        let desired = \<lparr>rs_enabled = unwrap_or (rs_enabled current) (pm_capture_raw_content body),
                       rs_retention_days = unwrap_or (rs_retention_days current) (pm_raw_capture_retention_days body)\<rparr>
        in capture_upsert_audited (me_env me 3) db ws desired (Some (ctx_user_id ctx)) (me_capture_email me))
      else rbind (raw_capture_get_effective (me_env me 2) db ws) (\<lambda>current. Inr (current, db)))"

text \<open>Three transactions, each committed before the next begins: an error leaves the earlier ones in place.\<close>

definition put_secure_mode ::
  "mode_env \<Rightarrow> jwt_ctx \<Rightarrow> put_secure_mode_request \<Rightarrow> mode_db \<Rightarrow> (api_error, secure_mode_response) result \<times> mode_db" where
  "put_secure_mode me ctx body db =
     (case put_checks ctx body of
        Inl e \<Rightarrow> (Inl e, db)
      | Inr _ \<Rightarrow>
     (let ws = ctx_workspace_id ctx;
          actor = actor_resolve (me_actor_email me) ws (ctx_user_id ctx) (as_db_str (ctx_role ctx)) in
      case secure_mode_upsert (me_env me 0) (md_settings db) ws (pm_enabled body) (pm_level body)
             (pm_block_pii body) (pm_block_injection body) (pm_redact_responses body) actor of
        Inl e \<Rightarrow> (Inl e, db)
      | Inr (row, sdb) \<Rightarrow>
     (let db1 = db\<lparr>md_settings := sdb\<rparr> in
      case put_sidecar me ws (pm_sidecar_unavailable body) actor sdb of
        Inl e \<Rightarrow> (Inl e, db1)
      | Inr (pol, sdb') \<Rightarrow>
     (let db2 = db1\<lparr>md_settings := sdb'\<rparr> in
      case put_capture me ctx body db2 of
        Inl e \<Rightarrow> (Inl e, db2)
      | Inr (capture, db3) \<Rightarrow> (Inr (mode_response row pol capture), db3)))))"

section \<open>The token vault\<close>

text \<open>Parameters: the key-management backend on bytes, and the JSON text of a string map.\<close>

record vault_env =
  ve_encrypt :: "string \<Rightarrow> (string, string) result"
  ve_decrypt :: "string \<Rightarrow> (string, string) result"
  ve_to_json :: "(string, string) hashmap \<Rightarrow> (string, string) result"
  ve_from_json :: "string \<Rightarrow> (string, (string, string) hashmap) result"

record token_vault_entry =
  te_id :: uuid
  te_ws :: uuid
  te_mapping :: "(string, string) hashmap"
  te_created_at :: int
  te_expires_at :: int

definition vault_seal :: "vault_env \<Rightarrow> (string, string) hashmap \<Rightarrow> (api_error, string) result" where
  "vault_seal ve mapping =
     rbind (map_err (\<lambda>e. Internal (''vault serialize: '' @ e)) (ve_to_json ve mapping)) (\<lambda>plaintext.
     rbind (map_err (\<lambda>e. Internal (''vault encrypt: '' @ e)) (ve_encrypt ve plaintext)) (\<lambda>ciphertext.
       if valid_utf8 ciphertext then Inr ciphertext
       else Inl (Internal ''vault encrypt: ciphertext not UTF-8'')))"

definition vault_unseal :: "vault_env \<Rightarrow> string \<Rightarrow> (api_error, (string, string) hashmap) result" where
  "vault_unseal ve ciphertext =
     rbind (map_err (\<lambda>e. Internal (''vault decrypt: '' @ e)) (ve_decrypt ve ciphertext)) (\<lambda>plaintext.
       map_err (\<lambda>e. Internal (''vault deserialize: '' @ e)) (ve_from_json ve plaintext))"

text \<open>Entries expire a day after they are written (the column's default); the id is the primary key.\<close>

definition vault_ttl_secs :: int where
  "vault_ttl_secs = 86400"

definition insert_vault_entry ::
  "vault_env \<Rightarrow> db_env \<Rightarrow> uuid \<Rightarrow> uuid \<Rightarrow> (string, string) hashmap \<Rightarrow> mode_db
     \<Rightarrow> (api_error, token_vault_entry \<times> mode_db) result" where
  "insert_vault_entry ve env vid ws mapping db =
     rbind (vault_seal ve mapping) (\<lambda>ciphertext. rbind (stmt env 0) (\<lambda>_.
     if \<exists>r \<in> set (md_vault db). tv_id r = vid then Inl (Database (dup_err env))
     else let row = \<lparr>tv_id = vid, tv_ws = ws, tv_ciphertext = ciphertext, tv_created_at = now_ts env,
                     tv_expires_at = now_ts env + vault_ttl_secs\<rparr>
          in Inr (\<lparr>te_id = vid, te_ws = ws, te_mapping = mapping, te_created_at = tv_created_at row,
                   te_expires_at = tv_expires_at row\<rparr>, db\<lparr>md_vault := md_vault db @ [row]\<rparr>)))"

definition get_vault_entry ::
  "vault_env \<Rightarrow> db_env \<Rightarrow> uuid \<Rightarrow> uuid \<Rightarrow> mode_db \<Rightarrow> (api_error, token_vault_entry) result" where
  "get_vault_entry ve env vid ws db =
     rbind (stmt env 0) (\<lambda>_.
     rbind (ok_or (find (\<lambda>r. tv_id r = vid \<and> tv_ws r = ws \<and> tv_expires_at r > now_ts env) (md_vault db))
              (NotFound (''token vault entry '' @ show_uuid env vid @ '' not found or expired''))) (\<lambda>row.
     rbind (vault_unseal ve (tv_ciphertext row)) (\<lambda>mapping.
       Inr \<lparr>te_id = tv_id row, te_ws = tv_ws row, te_mapping = mapping, te_created_at = tv_created_at row,
            te_expires_at = tv_expires_at row\<rparr>)))"

section \<open>Coverage of the non-gateway endpoints\<close>

definition effective_policy :: "db_env \<Rightarrow> string \<Rightarrow> settings_db \<Rightarrow> uuid \<Rightarrow> sidecar_policy" where
  "effective_policy env default' sdb ws =
     (case sidecar_policy_get_effective env sdb ws (policy_from_db default') of Inr p \<Rightarrow> p | Inl _ \<Rightarrow> Block)"

definition enforce_coverage ::
  "db_env \<Rightarrow> string \<Rightarrow> settings_db \<Rightarrow> uuid \<Rightarrow> sidecar_coverage \<Rightarrow> gw_effect list \<times> (api_error, coverage_loss option) result" where
  "enforce_coverage env default' sdb ws coverage =
     (case sidecar_gate coverage (effective_policy env default' sdb ws) of
        Proceed \<Rightarrow> ([], Inr None)
      | GateBlock reason \<Rightarrow> ([AlertSidecar reason (policy_str Block)],
          Inl (ServiceUnavailable (''PII detection coverage is unavailable for this request and the workspace is '' @
            ''configured to fail closed'')))
      | Degrade reason \<Rightarrow> ([AlertSidecar reason (policy_str DegradeWithAlert)], Inr (Some reason)))"

section \<open>Tokenize and detokenize\<close>

definition strip_suffix :: "string \<Rightarrow> string \<Rightarrow> string option" where
  "strip_suffix p s = (if suffix p s then Some (take (length s - length p) s) else None)"

definition rfind_char :: "char \<Rightarrow> string \<Rightarrow> nat option" where
  "rfind_char c s = (if c \<in> set s then Some (length s - Suc (length (takeWhile (\<lambda>x. x \<noteq> c) (rev s)))) else None)"

definition class_from_placeholder :: "string \<Rightarrow> string option" where
  "class_from_placeholder placeholder =
     Option.bind (Option.bind (strip_prefix ''{{'' placeholder) (strip_suffix ''}}'')) (\<lambda>inner.
     Option.bind (rfind_char (CHR ''_'') inner) (\<lambda>idx.
       let class_part = take idx inner; index_part = dropWhile (\<lambda>c. c = CHR ''_'') (drop idx inner) in
       if class_part = [] then None
       else if index_part = [] \<or> \<not> list_all is_digit index_part then None
       else Some (to_uppercase class_part)))"

definition tokenize_detections ::
  "'m gateway_env \<Rightarrow> string \<Rightarrow> 'm list \<Rightarrow> string list option \<Rightarrow> detection list" where
  "tokenize_detections genv text ml allowed =
     filter (\<lambda>d. case allowed of None \<Rightarrow> True | Some l \<Rightarrow> list_ex (\<lambda>label. eq_ignore_ascii_case label (det_class d)) l)
       (merge_detections genv (detect_content genv text) ml)"

record tokenize_request =
  tq_text :: string
  tq_entity_labels :: "string list option"

record tokenize_response =
  tr_tokenized_text :: string
  tr_token_vault_id :: uuid
  tr_entity_counts :: "(string, nat) hashmap"
  tr_degraded :: "string option"

definition count_entity :: "string \<Rightarrow> (string, nat) hashmap \<Rightarrow> (string, nat) hashmap" where
  "count_entity placeholder counts =
     (case class_from_placeholder placeholder of
        None \<Rightarrow> counts
      | Some cls \<Rightarrow> hm_insert cls (unwrap_or 0 (map_of counts cls) + 1) counts)"

definition entity_counts_of :: "(string, string) hashmap \<Rightarrow> (string, nat) hashmap" where
  "entity_counts_of mapping = fold count_entity (map fst mapping) []"

text \<open>The text limit, and \<open>tokenize\<close>: \<open>vid\<close> is the fresh id of the entry; the degraded header carries the loss.\<close>

definition tokenize_limit :: nat where
  "tokenize_limit = 32 * 1024"

definition tokenize ::
  "'m gateway_env \<Rightarrow> vault_env \<Rightarrow> mode_env \<Rightarrow> jwt_ctx \<Rightarrow> uuid \<Rightarrow> tokenize_request \<Rightarrow> mode_db
     \<Rightarrow> gw_effect list \<times> (api_error, tokenize_response \<times> mode_db) result" where
  "tokenize genv ve me ctx vid body db =
     (if tq_text body = [] then ([], Inl (BadRequest ''text must not be empty''))
      else if length (tq_text body) > tokenize_limit then ([], Inl (BadRequest ''text exceeds 32 KiB limit''))
      else
        let outcome = ml_detect genv 0 (tq_text body); ws = ctx_workspace_id ctx;
            (effs, gate) = enforce_coverage (me_env me 0) (me_sidecar_default me) (md_settings db) ws (ml_coverage outcome)
        in (effs, rbind gate (\<lambda>degraded.
          let allowed = map_option (map to_uppercase) (tq_entity_labels body);
              detections = tokenize_detections genv (tq_text body) (ml_detections outcome) allowed;
              (tokenized_text, vault, mapping) = apply_redaction (tq_text body) detections vault_empty []
          in rbind (insert_vault_entry ve (me_env me 1) vid ws mapping db) (\<lambda>(entry, db').
            Inr (\<lparr>tr_tokenized_text = tokenized_text, tr_token_vault_id = vid,
                  tr_entity_counts = entity_counts_of mapping, tr_degraded = map_option loss_str degraded\<rparr>, db')))))"

record detokenize_request =
  dq_token_vault_id :: uuid
  dq_text :: string

definition detokenize :: "vault_env \<Rightarrow> db_env \<Rightarrow> jwt_ctx \<Rightarrow> detokenize_request \<Rightarrow> mode_db \<Rightarrow> (api_error, string) result" where
  "detokenize ve env ctx body db =
     rbind (get_vault_entry ve env (dq_token_vault_id body) (ctx_workspace_id ctx) db) (\<lambda>entry.
       let vault = fold (\<lambda>(placeholder, original). vault_insert placeholder original) (te_mapping entry) vault_empty
       in Inr (restore_content (dq_text body) vault))"

section \<open>Changing the mode\<close>

lemma clamp_retention_bounds: "1 \<le> clamp_retention d" "clamp_retention d \<le> 3650"
  by (simp_all add: clamp_retention_def min_retention_days_def max_retention_days_def)

lemma capture_upsert_audited_Inr:
  assumes "capture_upsert_audited env db ws settings user email = Inr (stored, db')"
  obtains row a where "db' = db\<lparr>md_capture := (md_capture db)(ws \<mapsto> row), md_capture_audit := md_capture_audit db @ [a]\<rparr>"
    and "stored = capture_settings_of row" "cs_enabled row = rs_enabled settings"
    and "cs_retention_days row = clamp_retention (rs_retention_days settings)"
    and "rc_ws a = ws" "rc_actor_user_id a = user" "rc_enabled_after a = rs_enabled stored"
    and "rc_enabled_before a = rs_enabled (case md_capture db ws of None \<Rightarrow> raw_capture_default | Some r \<Rightarrow> capture_settings_of r)"
  using assms that
  by (fastforce simp: capture_upsert_audited_def rbind_Inr Let_def)

lemma raw_capture_get_effective_Inr:
  "raw_capture_get_effective env db ws = Inr s \<Longrightarrow>
   s = (case md_capture db ws of None \<Rightarrow> raw_capture_default | Some r \<Rightarrow> capture_settings_of r)"
  by (auto simp: raw_capture_get_effective_def raw_capture_get_def rbind_Inr split: option.splits)

lemma put_capture_Inr:
  assumes "put_capture me ctx body db = Inr (s, db')"
  shows "md_settings db' = md_settings db" "md_vault db' = md_vault db"
    and "s = (case md_capture db' (ctx_workspace_id ctx) of None \<Rightarrow> raw_capture_default | Some r \<Rightarrow> capture_settings_of r)"
  using assms
  by (auto simp: put_capture_def Let_def rbind_Inr capture_upsert_audited_def split: if_splits dest!: raw_capture_get_effective_Inr)

lemma sidecar_effective_Inr:
  "sidecar_policy_get_effective env sdb ws dflt = Inr p \<Longrightarrow>
   p = (case sidecar_tbl sdb ws of None \<Rightarrow> dflt | Some s \<Rightarrow> policy_from_db s)"
  by (auto simp: sidecar_policy_get_effective_def sidecar_policy_get_def rbind_Inr split: option.splits)

lemma put_sidecar_Inr:
  assumes "put_sidecar me ws value actor sdb = Inr (p, sdb')"
  shows "p = (case sidecar_tbl sdb' ws of None \<Rightarrow> policy_from_db (me_sidecar_default me) | Some s \<Rightarrow> policy_from_db s)"
    and "secure_tbl sdb' = secure_tbl sdb"
  using assms
  by (auto simp: put_sidecar_def sidecar_policy_upsert_def rbind_Inr Let_def split: option.splits if_splits
      dest!: sidecar_effective_Inr)

lemma put_secure_mode_Inr:
  assumes "put_secure_mode me ctx body db = (Inr resp, db')"
  obtains row sdb pol sdb' capture where "put_checks ctx body = Inr ()"
    and "secure_mode_upsert (me_env me 0) (md_settings db) (ctx_workspace_id ctx) (pm_enabled body) (pm_level body)
       (pm_block_pii body) (pm_block_injection body) (pm_redact_responses body)
       (actor_resolve (me_actor_email me) (ctx_workspace_id ctx) (ctx_user_id ctx) (as_db_str (ctx_role ctx))) = Inr (row, sdb)"
    and "put_sidecar me (ctx_workspace_id ctx) (pm_sidecar_unavailable body)
       (actor_resolve (me_actor_email me) (ctx_workspace_id ctx) (ctx_user_id ctx) (as_db_str (ctx_role ctx))) sdb = Inr (pol, sdb')"
    and "put_capture me ctx body (db\<lparr>md_settings := sdb'\<rparr>) = Inr (capture, db')"
    and "resp = mode_response row pol capture"
  using assms that by (auto simp: put_secure_mode_def Let_def split: sum.splits prod.splits)

text \<open>An accepted change reads back: the next read that succeeds answers what the change answered.\<close>

theorem put_secure_mode_reads_back:
  assumes "put_secure_mode me ctx body db = (Inr resp, db')" "get_secure_mode me' ctx db' = Inr r"
    and "me_sidecar_default me' = me_sidecar_default me"
  shows "r = resp"
proof (rule put_secure_mode_Inr [OF assms(1)])
  let ?ws = "ctx_workspace_id ctx"
  fix row sdb pol sdb' capture actor
  assume u: "secure_mode_upsert (me_env me 0) (md_settings db) ?ws (pm_enabled body) (pm_level body)
       (pm_block_pii body) (pm_block_injection body) (pm_redact_responses body)
       (actor_resolve (me_actor_email me) ?ws (ctx_user_id ctx) (as_db_str (ctx_role ctx))) = Inr (row, sdb)"
    and s: "put_sidecar me ?ws (pm_sidecar_unavailable body)
       (actor_resolve (me_actor_email me) ?ws (ctx_user_id ctx) (as_db_str (ctx_role ctx))) sdb = Inr (pol, sdb')"
    and c: "put_capture me ctx body (db\<lparr>md_settings := sdb'\<rparr>) = Inr (capture, db')"
    and resp: "resp = mode_response row pol capture"
  have row: "secure_tbl sdb ?ws = Some row"
    using u by (auto simp: secure_mode_upsert_def rbind_Inr Let_def)
  obtain row' pol' capture' where g: "secure_mode_get (me_env me' 0) (md_settings db') ?ws = Inr row'"
    "sidecar_policy_get_effective (me_env me' 1) (md_settings db') ?ws (policy_from_db (me_sidecar_default me)) = Inr pol'"
    "raw_capture_get_effective (me_env me' 2) db' ?ws = Inr capture'" and r: "r = mode_response row' pol' capture'"
    using assms(2,3) by (auto simp: get_secure_mode_def Let_def rbind_Inr)
  have "row' = row"
    using g(1) row put_sidecar_Inr(2) [OF s] put_capture_Inr(1) [OF c] by (auto simp: secure_mode_get_def rbind_Inr)
  moreover have "pol' = pol"
    using sidecar_effective_Inr [OF g(2)] put_sidecar_Inr(1) [OF s] put_capture_Inr(1) [OF c] by simp
  moreover have "capture' = capture"
    using raw_capture_get_effective_Inr [OF g(3)] put_capture_Inr(3) [OF c] by simp
  ultimately show ?thesis using r resp by simp
qed

text \<open>
  Capture settings change only under an administrator, within the retention bounds, and with a record of the
  change: whatever a request answers, every other workspace keeps its row, and a changed row comes with
  exactly one audit row that names the caller and the state before and after.
\<close>

definition capture_of_ws :: "mode_db \<Rightarrow> uuid \<Rightarrow> raw_capture_settings" where
  "capture_of_ws db ws = (case md_capture db ws of None \<Rightarrow> raw_capture_default | Some r \<Rightarrow> capture_settings_of r)"

lemma put_capture_audited:
  assumes "put_capture me ctx body db = Inr (s, db')" "md_capture db' \<noteq> md_capture db"
  obtains row a where "md_capture db' = (md_capture db)(ctx_workspace_id ctx \<mapsto> row)"
    "md_capture_audit db' = md_capture_audit db @ [a]" "1 \<le> cs_retention_days row" "cs_retention_days row \<le> 3650"
    "rc_ws a = ctx_workspace_id ctx" "rc_actor_user_id a = Some (ctx_user_id ctx)"
    "rc_enabled_before a = rs_enabled (capture_of_ws db (ctx_workspace_id ctx))"
    "rc_enabled_after a = cs_enabled row"
proof -
  obtain desired where "capture_upsert_audited (me_env me 3) db (ctx_workspace_id ctx) desired (Some (ctx_user_id ctx))
      (me_capture_email me) = Inr (s, db')"
    using assms by (auto simp: put_capture_def Let_def rbind_Inr split: if_splits)
  then show ?thesis
    by (rule capture_upsert_audited_Inr)
      (rule that, auto simp: clamp_retention_bounds capture_of_ws_def capture_settings_of_def)
qed

theorem capture_change_audited:
  assumes "put_secure_mode me ctx body db = (out, db')" "md_capture db' \<noteq> md_capture db"
  obtains row a where "can_write (ctx_role ctx)" "md_capture db' = (md_capture db)(ctx_workspace_id ctx \<mapsto> row)"
    "md_capture_audit db' = md_capture_audit db @ [a]" "1 \<le> cs_retention_days row" "cs_retention_days row \<le> 3650"
    "rc_ws a = ctx_workspace_id ctx" "rc_actor_user_id a = Some (ctx_user_id ctx)"
    "rc_enabled_before a = rs_enabled (capture_of_ws db (ctx_workspace_id ctx))"
    "rc_enabled_after a = cs_enabled row"
proof -
  obtain resp where "out = Inr resp"
    using assms by (auto simp: put_secure_mode_def Let_def split: sum.splits prod.splits)
  with assms(1) show ?thesis
    apply (simp only:)
    apply (erule put_secure_mode_Inr)
    subgoal for row sdb pol sdb' capture
      using assms(2) that put_capture_audited [of me ctx body "db\<lparr>md_settings := sdb'\<rparr>" capture db']
      by (auto simp: put_checks_def rbind_Inr require_admin_iff capture_of_ws_def)
    done
qed

section \<open>Entity counts\<close>

text \<open>The class is read back from a token, and the counts are the numbers of placeholders per class.\<close>

lemma rfind_char_append: "c \<notin> set b \<Longrightarrow> rfind_char c (a @ c # b) = Some (length a)"
proof -
  assume "c \<notin> set b"
  then have "takeWhile (\<lambda>x. x \<noteq> c) (rev b) = rev b" by (subst takeWhile_eq_all_conv) auto
  then have "length (takeWhile (\<lambda>x. x \<noteq> c) (rev b)) = length b" by (simp del: takeWhile_eq_all_conv)
  then show ?thesis by (simp add: rfind_char_def takeWhile_tail)
qed

lemma class_from_placeholder_token:
  assumes "to_uppercase cls = cls" "cls \<noteq> []"
  shows "class_from_placeholder (token_for cls n) = Some cls"
proof -
  have up: "to_uppercase (title_case cls) = cls" using assms(1) by (simp add: to_uppercase_title_case)
  then have ne: "title_case cls \<noteq> []" using assms(2) by (auto simp: to_uppercase_def)
  have d: "dropWhile (\<lambda>c. c = CHR ''_'') (show_nat n) = show_nat n"
    using show_nat_no_sep [of n] by (cases "show_nat n") auto
  have nn: "show_nat n \<noteq> []" by (subst show_nat.simps) simp
  have i: "Option.bind (strip_prefix ''{{'' (token_for cls n)) (strip_suffix ''}}'') = Some (title_case cls @ CHR ''_'' # show_nat n)"
    by (simp add: token_for_def token_body_def ph_text_def strip_prefix_def strip_suffix_def suffix_def)
  show ?thesis
    unfolding class_from_placeholder_def i
    using up ne d nn show_nat_no_sep [of n] show_nat_digits
    by (simp add: rfind_char_append list_all_iff)
qed

lemma count_entities:
  "unwrap_or 0 (map_of (fold count_entity ps counts) cls) =
     unwrap_or 0 (map_of counts cls) + length (filter (\<lambda>p. class_from_placeholder p = Some cls) ps)"
  by (induction ps arbitrary: counts) (auto simp: count_entity_def update_conv' split: option.splits)

theorem entity_counts_per_class:
  "unwrap_or 0 (map_of (entity_counts_of mapping) cls) =
     length (filter (\<lambda>p. class_from_placeholder p = Some cls) (map fst mapping))"
  using count_entities [of "map fst mapping" "[]" cls] by (simp add: entity_counts_of_def)

section \<open>Tokenize, then detokenize\<close>

text \<open>What the code relies on: the backend decrypts what it encrypted, and a map read back from its JSON text has
  the same entries, in whatever order.\<close>

definition vault_laws :: "vault_env \<Rightarrow> bool" where
  "vault_laws ve = ((\<forall>p c. ve_encrypt ve p = Inr c \<longrightarrow> ve_decrypt ve c = Inr p) \<and>
     (\<forall>m s. distinct (map fst m) \<longrightarrow> ve_to_json ve m = Inr s \<longrightarrow>
        (\<exists>m'. ve_from_json ve s = Inr m' \<and> distinct (map fst m') \<and> map_of m' = map_of m)))"

lemma vault_unseal_seal:
  assumes "vault_laws ve" "vault_inv m" "vault_seal ve m = Inr c"
  obtains m' where "vault_unseal ve c = Inr m'" "distinct (map fst m')" "map_of m' = map_of m"
proof -
  obtain p where p: "ve_to_json ve m = Inr p" "ve_encrypt ve p = Inr c"
    using assms(3) by (auto simp: vault_seal_def rbind_Inr split: if_splits)
  then obtain m' where "ve_from_json ve p = Inr m'" "distinct (map fst m')" "map_of m' = map_of m"
    using assms(1,2) unfolding vault_laws_def vault_inv_def by blast
  then show ?thesis
    using p(2) assms(1) that by (auto simp: vault_unseal_def vault_laws_def map_err_def)
qed

lemma wf_vault_same_entries:
  "distinct (map fst w) \<Longrightarrow> map_of w = map_of v \<Longrightarrow> wf_vault v \<Longrightarrow> wf_vault w"
  unfolding wf_vault_def by (metis (no_types, lifting) case_prodI2 map_of_SomeD map_of_eq_Some_iff case_prodD)

text \<open>The vault \<open>detokenize\<close> rebuilds from a mapping has the mapping's entries.\<close>

lemma rebuilt_vault:
  assumes "distinct (map fst m)"
  defines "w \<equiv> fold (\<lambda>(p, orig). vault_insert p orig) m vault_empty"
  shows "vault_inv w" "map_of w = map_of m"
proof -
  have w: "w = vs.insert_all m vault_empty" by (simp add: w_def vs.insert_all_def)
  show "vault_inv w" unfolding w by (rule vs.invar_insert_all) (simp add: vault_inv_def vault_empty_def)
  have "map_of (rev m) = map_of m"
    using assms(1) by (intro map_of_inject_set [THEN iffD2]) (auto simp: rev_map [symmetric])
  then have "vault_resolve w p = map_of m p" for p
    unfolding w by (subst vs.lookup_insert_all) (auto simp: vault_inv_def vault_empty_def vault_resolve_def split: option.splits)
  then show "map_of w = map_of m" by (simp add: vault_resolve_def fun_eq_iff)
qed

lemma find_conj: "find (\<lambda>r. P r \<and> Q r) xs = find Q (filter P xs)"
  by (induction xs) auto

text \<open>What a successful \<open>tokenize\<close> did.\<close>

lemma tokenize_Inr:
  assumes "tokenize genv ve me ctx vid body db = (effs, Inr (resp, db'))"
  defines "ds \<equiv> tokenize_detections genv (tq_text body) (ml_detections (ml_detect genv 0 (tq_text body)))
     (map_option (map to_uppercase) (tq_entity_labels body))"
  obtains v m c where "apply_redaction (tq_text body) ds vault_empty [] = (tr_tokenized_text resp, v, m)"
    and "vault_seal ve m = Inr c" "tr_token_vault_id resp = vid" "\<forall>r \<in> set (md_vault db). tv_id r \<noteq> vid"
    and "db' = db\<lparr>md_vault := md_vault db @ [\<lparr>tv_id = vid, tv_ws = ctx_workspace_id ctx, tv_ciphertext = c,
       tv_created_at = now_ts (me_env me 1), tv_expires_at = now_ts (me_env me 1) + vault_ttl_secs\<rparr>]\<rparr>"
proof -
  obtain t v m where a: "apply_redaction (tq_text body) ds vault_empty [] = (t, v, m)"
    by (rule prod_cases3)
  obtain entry where i: "insert_vault_entry ve (me_env me 1) vid (ctx_workspace_id ctx) m db = Inr (entry, db')"
    and r: "tr_tokenized_text resp = t" "tr_token_vault_id resp = vid"
    using assms(1) unfolding tokenize_def
    by (auto simp: ds_def [symmetric] a Let_def rbind_Inr split: if_splits prod.splits)
  from i obtain c where "vault_seal ve m = Inr c" "\<forall>x \<in> set (md_vault db). tv_id x \<noteq> vid"
    "db' = db\<lparr>md_vault := md_vault db @ [\<lparr>tv_id = vid, tv_ws = ctx_workspace_id ctx, tv_ciphertext = c,
       tv_created_at = now_ts (me_env me 1), tv_expires_at = now_ts (me_env me 1) + vault_ttl_secs\<rparr>]\<rparr>"
    by (auto simp: insert_vault_entry_def rbind_Inr Let_def split: if_splits)
  with a r show ?thesis using that by simp
qed

text \<open>
  C18. The vault endpoints are inverse to each other inside one workspace and one day. For a text without a
  double opening brace and detections that report the bytes they span, detokenizing what a successful
  tokenize returned, against any later table that still holds that entry's rows as they were written, gives
  the text back to a caller of the same workspace before the entry expires, and not found to everyone else
  and afterwards.
\<close>

theorem detokenize_inverts_tokenize:
  assumes "vault_laws ve" "tokenize genv ve me ctx vid body db = (effs, Inr (resp, db'))"
    and "\<not> str_contains (tq_text body) ''{{''"
    and "faithful (tq_text body) (tokenize_detections genv (tq_text body)
       (ml_detections (ml_detect genv 0 (tq_text body))) (map_option (map to_uppercase) (tq_entity_labels body)))"
    and "filter (\<lambda>r. tv_id r = vid) (md_vault later) = filter (\<lambda>r. tv_id r = vid) (md_vault db')"
    and "stmt env 0 = Inr ()"
  shows "detokenize ve env ctx' \<lparr>dq_token_vault_id = tr_token_vault_id resp, dq_text = tr_tokenized_text resp\<rparr> later =
    (if ctx_workspace_id ctx' = ctx_workspace_id ctx \<and> now_ts env < now_ts (me_env me 1) + vault_ttl_secs
     then Inr (tq_text body)
     else Inl (NotFound (''token vault entry '' @ show_uuid env vid @ '' not found or expired'')))"
proof (rule tokenize_Inr [OF assms(2)])
  let ?row = "\<lambda>c. \<lparr>tv_id = vid, tv_ws = ctx_workspace_id ctx, tv_ciphertext = c,
       tv_created_at = now_ts (me_env me 1), tv_expires_at = now_ts (me_env me 1) + vault_ttl_secs\<rparr>"
  fix v m c
  assume a: "apply_redaction (tq_text body) (tokenize_detections genv (tq_text body)
       (ml_detections (ml_detect genv 0 (tq_text body))) (map_option (map to_uppercase) (tq_entity_labels body)))
       vault_empty [] = (tr_tokenized_text resp, v, m)"
    and c: "vault_seal ve m = Inr c" "tr_token_vault_id resp = vid"
    and fresh: "\<forall>r \<in> set (md_vault db). tv_id r \<noteq> vid" and db': "db' = db\<lparr>md_vault := md_vault db @ [?row c]\<rparr>"
  have e: "wf_vault vault_empty" "vault_inv vault_empty"
    by (simp_all add: wf_vault_def vault_inv_def vault_empty_def)
  note a' = a [folded vault_empty_def]
  have wf: "wf_vault v" "vault_inv v" by (rule redaction_toks [OF assms(3,4) e a'], assumption)+
  have "m = v" by (rule apply_redaction_map_vault) (rule a')
  then obtain m' where m': "vault_unseal ve c = Inr m'" "distinct (map fst m')" "map_of m' = map_of v"
    using vault_unseal_seal [OF assms(1) _ c(1)] wf(2) by blast
  let ?w = "fold (\<lambda>(p, orig). vault_insert p orig) m' vault_empty"
  have w: "vault_inv ?w" "map_of ?w = map_of v" using rebuilt_vault [OF m'(2)] m'(3) by simp_all
  then have "restore_content (tr_tokenized_text resp) ?w = tq_text body"
    using wf_vault_same_entries [OF _ w(2) wf(1)] restore_with_same_entries [OF assms(3,4) e a' _ w(2)]
    by (simp add: vault_inv_def)
  moreover have "filter (\<lambda>r. tv_id r = vid) (md_vault later) = [?row c]"
    using fresh by (simp add: assms(5) db')
  ultimately show ?thesis
    using assms(6) m'(1) by (simp add: detokenize_def get_vault_entry_def find_conj c(2) ok_or_def)
qed

text \<open>An instance: strings without a quote, written between quotes; the backend reverses the bytes.\<close>

fun pair_up :: "string list \<Rightarrow> (string, string) hashmap" where
  "pair_up (k # v # ws) = (k, v) # pair_up ws"
| "pair_up ws = []"

definition quote_free :: "(string, string) hashmap \<Rightarrow> bool" where
  "quote_free m = list_all (\<lambda>(k, v). CHR ''|'' \<notin> set k \<and> CHR ''|'' \<notin> set v) m"

definition bar_text :: "(string, string) hashmap \<Rightarrow> string" where
  "bar_text m = concat (map (\<lambda>(k, v). k @ ''|'' @ v @ ''|'') m)"

lemma split_on_hit: "c \<notin> set a \<Longrightarrow> split_on c (a @ c # s) = a # split_on c s"
  by (induction a) auto

lemma pair_up_bar_text: "quote_free m \<Longrightarrow> pair_up (split_on (CHR ''|'') (bar_text m)) = m"
  by (induction m) (auto simp: quote_free_def bar_text_def split_on_hit)

definition demo_vault_env :: vault_env where
  "demo_vault_env = \<lparr>ve_encrypt = (\<lambda>p. Inr (rev p)), ve_decrypt = (\<lambda>c. Inr (rev c)),
     ve_to_json = (\<lambda>m. if quote_free m then Inr (bar_text m) else Inl ''bar''),
     ve_from_json = (\<lambda>s. Inr (pair_up (split_on (CHR ''|'') s)))\<rparr>"

definition demo_mode_env :: mode_env where
  "demo_mode_env = \<lparr>me_env = (\<lambda>_. \<lparr>stmt_err = (\<lambda>_. None), readback = Some, dup_err = [], show_uuid = (\<lambda>_. ''u''),
     now_ts = 100, fresh_uuid = (\<lambda>_. 0)\<rparr>), me_actor_email = None, me_capture_email = None, me_sidecar_default = ''block''\<rparr>"

definition demo_mode_db :: mode_db where
  "demo_mode_db = \<lparr>md_settings = \<lparr>sidecar_tbl = (\<lambda>_. None), secure_tbl = (\<lambda>_. None), set_audit = []\<rparr>,
     md_capture = (\<lambda>_. None), md_capture_audit = [], md_vault = []\<rparr>"

lemma demo_vault_laws: "vault_laws demo_vault_env"
  using pair_up_bar_text by (auto simp: vault_laws_def demo_vault_env_def split: if_splits)

theorem detokenize_inverts_tokenize_witness:
  "\<exists>resp db'. snd (tokenize (demo_gw Complete (demo_mode False ''standard'') []) demo_vault_env demo_mode_env
       \<lparr>ctx_user_id = 1, ctx_workspace_id = 2, ctx_role = Viewer, ctx_jti = ''j'', ctx_exp = 0\<rparr> 7
       \<lparr>tq_text = ''hi Bob'', tq_entity_labels = None\<rparr> demo_mode_db) = Inr (resp, db') \<and>
     tr_tokenized_text resp = ''hi {{Person_1}}'' \<and>
     detokenize demo_vault_env (me_env demo_mode_env 0)
       \<lparr>ctx_user_id = 3, ctx_workspace_id = 2, ctx_role = Viewer, ctx_jti = ''k'', ctx_exp = 0\<rparr>
       \<lparr>dq_token_vault_id = tr_token_vault_id resp, dq_text = tr_tokenized_text resp\<rparr> db' = Inr ''hi Bob''"
proof -
  let ?g = "demo_gw Complete (demo_mode False ''standard'') []"
  let ?ctx = "\<lparr>ctx_user_id = 1, ctx_workspace_id = 2, ctx_role = Viewer, ctx_jti = ''j'', ctx_exp = 0\<rparr>"
  let ?ctx' = "\<lparr>ctx_user_id = 3, ctx_workspace_id = 2, ctx_role = Viewer, ctx_jti = ''k'', ctx_exp = 0\<rparr>"
  let ?body = "\<lparr>tq_text = ''hi Bob'', tq_entity_labels = None\<rparr>"
  let ?ds = "[\<lparr>det_class = ''PERSON'', confidence = 1, det_span = Some (3, 6), det_value = ''Bob''\<rparr>]"
  let ?m = "[(''{{Person_1}}'', ''Bob'')]"
  have find: "str_find ''Bob'' ''hi Bob'' = Some 3" by code_simp
  have ds: "tokenize_detections ?g ''hi Bob'' (ml_detections (ml_detect ?g 0 ''hi Bob'')) None = ?ds"
    by (simp add: tokenize_detections_def demo_gw_def demo_detect_def find)
  have cov: "ml_coverage (ml_detect ?g 0 ''hi Bob'') = Complete" by (simp add: demo_gw_def)
  have gate: "sidecar_gate Complete p = Proceed" for p by simp
  have red: "apply_redaction ''hi Bob'' ?ds [] [] = (''hi {{Person_1}}'', ?m, ?m)" by code_simp
  have utf: "valid_utf8 (rev (bar_text ?m))" by code_simp
  have seal: "vault_seal demo_vault_env ?m = Inr (rev (bar_text ?m))"
    using utf by (simp add: vault_seal_def demo_vault_env_def quote_free_def map_err_def)
  have "tokenize ?g demo_vault_env demo_mode_env ?ctx 7 ?body demo_mode_db =
     ([], Inr (\<lparr>tr_tokenized_text = ''hi {{Person_1}}'', tr_token_vault_id = 7, tr_entity_counts = entity_counts_of ?m,
        tr_degraded = None\<rparr>, demo_mode_db\<lparr>md_vault := [\<lparr>tv_id = 7, tv_ws = 2, tv_ciphertext = rev (bar_text ?m),
        tv_created_at = 100, tv_expires_at = 86500\<rparr>]\<rparr>))" (is "_ = ([], Inr (?resp, ?db'))")
    by (simp add: tokenize_def tokenize_limit_def enforce_coverage_def cov gate ds vault_empty_def red
        insert_vault_entry_def seal stmt_def demo_mode_env_def demo_mode_db_def vault_ttl_secs_def)
  note t = this
  have "faithful ''hi Bob'' ?ds" by (simp add: faithful_def span_ordered_def substr_def brace_free_def)
  then have f: "faithful (tq_text ?body) (tokenize_detections ?g (tq_text ?body) (ml_detections (ml_detect ?g 0 (tq_text ?body)))
      (map_option (map to_uppercase) (tq_entity_labels ?body)))" by (simp add: ds)
  have p: "\<not> str_contains (tq_text ?body) ''{{''" by code_simp
  have s: "stmt (me_env demo_mode_env 0) 0 = Inr ()" by (simp add: stmt_def demo_mode_env_def)
  have "detokenize demo_vault_env (me_env demo_mode_env 0) ?ctx'
      \<lparr>dq_token_vault_id = tr_token_vault_id ?resp, dq_text = tr_tokenized_text ?resp\<rparr> ?db' = Inr ''hi Bob''"
    using detokenize_inverts_tokenize [OF demo_vault_laws t p f refl s, of ?ctx']
    by (simp add: demo_mode_env_def vault_ttl_secs_def)
  with t show ?thesis by auto
qed

end
