(* ===== verification/Api_Keys.thy ===== *)
theory Api_Keys
  imports Pipeline Admin_Db Url_Guard
begin

text \<open>
  API keys: the repository (\<open>db/api_key_repo.rs\<close>), the dashboard handlers (\<open>dashboard/keys.rs\<close>,
  \<open>dashboard/me.rs\<close>), the authentication of gateway requests with its sixty-second cache
  (\<open>middleware/api_key_auth.rs\<close>) and the nightly rotation sweep of the worker
  (\<open>tasks/api_key_rotation.rs\<close>, \<open>tasks/workspace_enumeration.rs\<close>).

  The hash of a key, the random suffix of a new one and the key-management backend are parameters.
  Database instants are seconds, the cache's clock is milliseconds, as in \<open>Model_Router\<close>. Whether the
  database role bypasses row-level security is a parameter: the authentication query has no workspace
  predicate of its own.
\<close>

section \<open>The table\<close>

record api_key_row =
  ak_id :: uuid
  ak_ws :: uuid
  ak_name :: string
  ak_key_hash :: string
  ak_created_at :: int
  ak_revoked_at :: "int option"
  ak_assigned_user_id :: "uuid option"
  ak_key_ciphertext :: "string option"
  ak_status :: string
  ak_rotated_at :: "int option"
  ak_grace_secs :: int
  ak_successor_hash :: "string option"
  ak_successor_prefix :: "string option"

record key_db =
  keys_tbl :: "api_key_row list"
  key_audit :: "audit_row list"
  key_workspaces :: "(uuid \<times> int) list"

record authenticated_key =
  aa_id :: uuid
  aa_workspace_id :: uuid
  aa_name :: string
  aa_assigned_user_id :: "uuid option"

text \<open>The parameters: the hash, the suffix of the next key, the key-management backend, the role.\<close>

record key_env =
  ke_hash :: "string \<Rightarrow> string"
  ke_suffix :: string
  ke_encrypt :: "string \<Rightarrow> (string, string) result"
  ke_decrypt :: "string \<Rightarrow> (string, string) result"
  ke_actor_email :: "string option"
  ke_instant :: "int \<Rightarrow> string"
  ke_bypass_rls :: bool

section \<open>The repository\<close>

definition list_api_keys :: "db_env \<Rightarrow> uuid \<Rightarrow> key_db \<Rightarrow> (api_error, api_key_row list) result" where
  "list_api_keys env ws db =
     rbind (begin_scoped env ws) (\<lambda>_. rbind (stmt env 3) (\<lambda>_. rbind (stmt env 4) (\<lambda>_.
       Inr (sort_key (\<lambda>r. - ak_created_at r) (filter (\<lambda>r. ak_ws r = ws) (keys_tbl db))))))"

definition fetch_plaintext_for_user ::
  "key_env \<Rightarrow> db_env \<Rightarrow> uuid \<Rightarrow> uuid \<Rightarrow> key_db \<Rightarrow> (api_error, string option) result" where
  "fetch_plaintext_for_user ke env ws user db =
     rbind (begin_scoped env ws) (\<lambda>_. rbind (stmt env 3) (\<lambda>_. rbind (stmt env 4) (\<lambda>_.
     (case sort_key (\<lambda>r. - ak_created_at r)
             (filter (\<lambda>r. ak_ws r = ws \<and> ak_assigned_user_id r = Some user \<and> ak_status r = ''active'' \<and> ak_key_ciphertext r \<noteq> None)
               (keys_tbl db)) of
        [] \<Rightarrow> Inr None
      | r # _ \<Rightarrow>
          rbind (map_err (\<lambda>e. Internal (''api key decrypt: '' @ e)) (ke_decrypt ke (unwrap_or [] (ak_key_ciphertext r)))) (\<lambda>bytes.
          if valid_utf8 bytes then Inr (Some bytes) else Inl (Internal ''api key plaintext is not valid UTF-8''))))))"

definition new_plaintext :: "key_env \<Rightarrow> string" where
  "new_plaintext ke = ''sp_'' @ ke_suffix ke"

text \<open>The ciphertext kept beside an assigned key.\<close>

definition seal_key :: "key_env \<Rightarrow> uuid option \<Rightarrow> bool \<Rightarrow> (api_error, string option) result" where
  "seal_key ke asg has_kms = (case asg of
     None \<Rightarrow> Inr None
   | Some _ \<Rightarrow>
       if has_kms then
         rbind (map_err (\<lambda>e. Internal (''api key encrypt: '' @ e)) (ke_encrypt ke (new_plaintext ke))) (\<lambda>stored.
           if valid_utf8 stored then Inr (Some stored) else Inl (Internal ''KMS ciphertext not UTF-8''))
       else Inl (Internal ''assigned API key requires kms backend for plaintext encryption''))"

definition insert_key :: "db_env \<Rightarrow> nat \<Rightarrow> api_key_row \<Rightarrow> key_db \<Rightarrow> (api_error, key_db) result" where
  "insert_key env k row db = rbind (stmt env k) (\<lambda>_.
     if ak_id row \<in> ak_id ` set (keys_tbl db) then Inl (Database (dup_err env))
     else Inr (db\<lparr>keys_tbl := keys_tbl db @ [row]\<rparr>))"

definition key_row :: "db_env \<Rightarrow> nat \<Rightarrow> uuid \<Rightarrow> string \<Rightarrow> string \<Rightarrow> uuid option \<Rightarrow> string option \<Rightarrow> api_key_row" where
  "key_row env k ws name h asg ciphertext =
     \<lparr>ak_id = fresh_uuid env k, ak_ws = ws, ak_name = name, ak_key_hash = h, ak_created_at = now_ts env, ak_revoked_at = None,
      ak_assigned_user_id = asg, ak_key_ciphertext = ciphertext, ak_status = ''active'', ak_rotated_at = None,
      ak_grace_secs = 86400, ak_successor_hash = None, ak_successor_prefix = None\<rparr>"

definition audit_key :: "db_env \<Rightarrow> nat \<Rightarrow> admin_actor \<Rightarrow> audit_entry \<Rightarrow> key_db \<Rightarrow> (api_error, key_db) result" where
  "audit_key env k actor entry db = rbind (audit_write env k actor entry (key_audit db)) (\<lambda>tbl. Inr (db\<lparr>key_audit := tbl\<rparr>))"

definition create_api_key ::
  "key_env \<Rightarrow> db_env \<Rightarrow> uuid \<Rightarrow> string \<Rightarrow> uuid option \<Rightarrow> bool \<Rightarrow> admin_actor \<Rightarrow> key_db
     \<Rightarrow> (api_error, (api_key_row \<times> string) \<times> key_db) result" where
  "create_api_key ke env ws name asg has_kms actor db =
     rbind (seal_key ke asg has_kms) (\<lambda>ciphertext.
     rbind (begin_scoped env ws) (\<lambda>_.
     let row = key_row env 3 ws name (ke_hash ke (new_plaintext ke)) asg ciphertext in
     rbind (insert_key env 3 row db) (\<lambda>db1.
     rbind (audit_key env 4 actor (with_detail (JObj [(''assigned_user_id'', case asg of None \<Rightarrow> JNull | Some u \<Rightarrow> JStr (show_uuid env u))])
              (on_object ApiKeyCreated (ak_id row) (Some name))) db1) (\<lambda>db2.
     rbind (stmt env 5) (\<lambda>_. Inr ((row, new_plaintext ke), db2))))))"

definition live_status :: "api_key_row \<Rightarrow> bool" where
  "live_status r = (ak_status r = ''active'' \<or> ak_status r = ''rotating'')"

definition find_live_key :: "uuid \<Rightarrow> uuid \<Rightarrow> key_db \<Rightarrow> api_key_row option" where
  "find_live_key k ws db = find (\<lambda>r. ak_id r = k \<and> ak_ws r = ws \<and> live_status r) (keys_tbl db)"

definition update_key :: "(api_key_row \<Rightarrow> bool) \<Rightarrow> (api_key_row \<Rightarrow> api_key_row) \<Rightarrow> key_db \<Rightarrow> key_db" where
  "update_key P f db = db\<lparr>keys_tbl := map (\<lambda>r. if P r then f r else r) (keys_tbl db)\<rparr>"

definition revoke_api_key :: "db_env \<Rightarrow> uuid \<Rightarrow> uuid \<Rightarrow> admin_actor \<Rightarrow> key_db \<Rightarrow> (api_error, key_db) result" where
  "revoke_api_key env ws k actor db =
     rbind (begin_scoped env ws) (\<lambda>_. rbind (stmt env 3) (\<lambda>_.
     rbind (ok_or (find_live_key k ws db) (NotFound (''api key '' @ show_uuid env k @ '' not found''))) (\<lambda>row.
     rbind (audit_key env 4 actor (on_object ApiKeyRevoked k (Some (ak_name row)))
       (update_key (\<lambda>r. ak_id r = k \<and> ak_ws r = ws \<and> live_status r)
          (\<lambda>r. r\<lparr>ak_revoked_at := Some (now_ts env), ak_status := ''revoked''\<rparr>) db)) (\<lambda>db'.
     rbind (stmt env 5) (\<lambda>_. Inr db')))))"

definition grace_end :: "api_key_row \<Rightarrow> int" where
  "grace_end r = unwrap_or 0 (ak_rotated_at r) + ak_grace_secs r"

text \<open>The branch of \<open>rotate\<close> that issues a successor; \<open>row\<close> is the locked row.\<close>

definition issue_successor ::
  "key_env \<Rightarrow> db_env \<Rightarrow> admin_actor \<Rightarrow> api_key_row \<Rightarrow> key_db \<Rightarrow> (api_error, (string \<times> int) \<times> key_db) result" where
  "issue_successor ke env actor row db =
     (let plain = new_plaintext ke;
          h = ke_hash ke plain;
          rotate = (\<lambda>r. r\<lparr>ak_status := ''rotating'', ak_rotated_at := Some (now_ts env), ak_successor_hash := Some h,
                          ak_successor_prefix := Some (take_chars 12 plain)\<rparr>)
      in rbind (insert_key env 4 (key_row env 4 (ak_ws row) (ak_name row @ '' (rotated)'') h None None) db) (\<lambda>db1.
         rbind (stmt env 5) (\<lambda>_.
         rbind (audit_key env 6 actor (with_detail (JObj [(''grace_expires_at'', JStr (ke_instant ke (grace_end (rotate row)))),
                  (''grace_secs'', JNum (of_int (ak_grace_secs row)))]) (on_object ApiKeyRotated (ak_id row) (Some (ak_name row))))
            (update_key (\<lambda>r. ak_id r = ak_id row) rotate db1)) (\<lambda>db2.
         rbind (stmt env 7) (\<lambda>_. Inr ((plain, grace_end (rotate row)), db2))))))"

definition rotate_api_key ::
  "key_env \<Rightarrow> db_env \<Rightarrow> uuid \<Rightarrow> uuid \<Rightarrow> admin_actor \<Rightarrow> key_db \<Rightarrow> (api_error, (string \<times> int) \<times> key_db) result" where
  "rotate_api_key ke env ws k actor db =
     rbind (begin_scoped env ws) (\<lambda>_. rbind (stmt env 3) (\<lambda>_.
     rbind (ok_or (find_live_key k ws db) (NotFound (''api key '' @ show_uuid env k @ '' not found or already revoked''))) (\<lambda>row.
     if ak_status row = ''rotating''
     then rbind (stmt env 4) (\<lambda>_. Inr ((unwrap_or [] (ak_successor_prefix row) @ ''...'', grace_end row), db))
     else issue_successor ke env actor row db)))"

section \<open>Authentication\<close>

text \<open>The predicate of the authentication query at the database instant \<open>now\<close>.\<close>

definition key_usable :: "int \<Rightarrow> api_key_row \<Rightarrow> bool" where
  "key_usable now r = (ak_revoked_at r = None \<and>
     (ak_status r = ''active'' \<or> (ak_status r = ''rotating'' \<and> ak_rotated_at r \<noteq> None \<and> now < grace_end r)))"

definition lookup_key :: "key_env \<Rightarrow> uuid \<Rightarrow> int \<Rightarrow> string \<Rightarrow> key_db \<Rightarrow> api_key_row option" where
  "lookup_key ke ws now h db =
     (case sort_key (\<lambda>r. - ak_created_at r)
             (filter (\<lambda>r. ak_key_hash r = h \<and> key_usable now r \<and> (ke_bypass_rls ke \<or> ak_ws r = ws)) (keys_tbl db)) of
        [] \<Rightarrow> None | r # _ \<Rightarrow> Some r)"

fun try_workspaces ::
  "key_env \<Rightarrow> (nat \<Rightarrow> db_env) \<Rightarrow> nat \<Rightarrow> string \<Rightarrow> uuid list \<Rightarrow> key_db \<Rightarrow> (api_error, authenticated_key option) result" where
  "try_workspaces ke envs i h [] db = Inr None"
| "try_workspaces ke envs i h (ws # wss) db =
     rbind (begin_scoped (envs i) ws) (\<lambda>_. rbind (stmt (envs i) 3) (\<lambda>_.
     (case lookup_key ke ws (now_ts (envs i)) h db of
        Some r \<Rightarrow> rbind (stmt (envs i) 4) (\<lambda>_. Inr (Some \<lparr>aa_id = ak_id r, aa_workspace_id = ak_ws r, aa_name = ak_name r,
            aa_assigned_user_id = ak_assigned_user_id r\<rparr>))
      | None \<Rightarrow> rbind (stmt (envs i) 4) (\<lambda>_. try_workspaces ke envs (Suc i) h wss db))))"

definition authenticate_api_key ::
  "key_env \<Rightarrow> (nat \<Rightarrow> db_env) \<Rightarrow> string \<Rightarrow> key_db \<Rightarrow> (api_error, authenticated_key option) result" where
  "authenticate_api_key ke envs presented db =
     rbind (stmt (envs 0) 0) (\<lambda>_.
       try_workspaces ke envs 1 (ke_hash ke presented) (map fst (sort_key snd (key_workspaces db))) db)"

text \<open>The header: absent, not readable as text, or a text.\<close>

definition bearer_key :: "string option option \<Rightarrow> (api_error, string) result" where
  "bearer_key header =
     rbind (ok_or header (Unauthorized ''missing Authorization header'')) (\<lambda>v.
     rbind (ok_or v (Unauthorized ''Authorization header must be valid UTF-8'')) (\<lambda>text.
     rbind (ok_or (strip_prefix ''Bearer '' text) (Unauthorized ''expected Authorization: Bearer sp_...'')) (\<lambda>token.
     if prefix ''sp_'' token then Inr token else Inl (Unauthorized ''expected Authorization: Bearer sp_...''))))"

definition context_of_cached :: "cached_api_key \<Rightarrow> auth_context" where
  "context_of_cached e = \<lparr>au_workspace_id = ck_workspace_id e, au_user_id = ck_assigned_user_id e, au_api_key_id = ck_api_key_id e,
     au_api_key_name = ck_name e\<rparr>"

definition context_of_key :: "authenticated_key \<Rightarrow> auth_context" where
  "context_of_key a = \<lparr>au_workspace_id = aa_workspace_id a, au_user_id = aa_assigned_user_id a, au_api_key_id = aa_id a,
     au_api_key_name = aa_name a\<rparr>"

definition cache_api_key :: "nat \<Rightarrow> string \<Rightarrow> authenticated_key \<Rightarrow> config_cache \<Rightarrow> config_cache" where
  "cache_api_key now token a = set_api_key token \<lparr>ck_api_key_id = aa_id a, ck_workspace_id = aa_workspace_id a, ck_name = aa_name a,
     ck_assigned_user_id = aa_assigned_user_id a, ck_cached_at = now\<rparr>"

text \<open>
  \<open>authenticate_request\<close> up to the cache write, where other requests may come in between: an answer from
  the cache, or the key found in the database. \<open>authenticate_request\<close> is both parts in sequence; the
  cache is read at \<open>now\<close> and written at \<open>later\<close>.
\<close>

definition authenticate_lookup ::
  "key_env \<Rightarrow> (nat \<Rightarrow> db_env) \<Rightarrow> nat \<Rightarrow> string option option \<Rightarrow> config_cache \<Rightarrow> key_db
     \<Rightarrow> (api_error, auth_context + string \<times> authenticated_key) result" where
  "authenticate_lookup ke envs now header cache db =
     rbind (bearer_key header) (\<lambda>token.
     (case get_api_key cache now token of
        Some e \<Rightarrow> Inr (Inl (context_of_cached e))
      | None \<Rightarrow>
          rbind (authenticate_api_key ke envs token db) (\<lambda>found.
          rbind (ok_or found (Unauthorized ''invalid or revoked API key'')) (\<lambda>a. Inr (Inr (token, a))))))"

definition authenticate_request ::
  "key_env \<Rightarrow> (nat \<Rightarrow> db_env) \<Rightarrow> nat \<Rightarrow> nat \<Rightarrow> string option option \<Rightarrow> config_cache \<Rightarrow> key_db
     \<Rightarrow> (api_error, auth_context) result \<times> config_cache" where
  "authenticate_request ke envs now later header cache db =
     (case authenticate_lookup ke envs now header cache db of
        Inl e \<Rightarrow> (Inl e, cache)
      | Inr (Inl ctx) \<Rightarrow> (Inr ctx, cache)
      | Inr (Inr (token, a)) \<Rightarrow> (Inr (context_of_key a), cache_api_key later token a cache))"

section \<open>The handlers\<close>

record key_response =
  kr_id :: uuid
  kr_name :: string
  kr_prefix :: string
  kr_created_at :: int
  kr_revoked_at :: "int option"
  kr_assigned_user_id :: "uuid option"

definition list_keys :: "db_env \<Rightarrow> jwt_ctx \<Rightarrow> uuid option \<Rightarrow> key_db \<Rightarrow> (api_error, key_response list) result" where
  "list_keys env ctx wanted db =
     (if wanted \<noteq> None \<and> wanted \<noteq> Some (ctx_workspace_id ctx) then Inl (Forbidden ''workspace_id mismatch'')
      else rbind (list_api_keys env (ctx_workspace_id ctx) db) (\<lambda>rows.
        Inr (map (\<lambda>r. \<lparr>kr_id = ak_id r, kr_name = ak_name r, kr_prefix = take_chars 8 (ak_key_hash r), kr_created_at = ak_created_at r,
               kr_revoked_at = ak_revoked_at r, kr_assigned_user_id = ak_assigned_user_id r\<rparr>) rows)))"

record create_key_response =
  kc_id :: uuid
  kc_name :: string
  kc_api_key :: string
  kc_prefix :: string
  kc_created_at :: int
  kc_assigned_user_id :: "uuid option"

definition key_actor :: "key_env \<Rightarrow> jwt_ctx \<Rightarrow> admin_actor" where
  "key_actor ke ctx = actor_resolve (ke_actor_email ke) (ctx_workspace_id ctx) (ctx_user_id ctx) (as_db_str (ctx_role ctx))"

definition create_key ::
  "key_env \<Rightarrow> db_env \<Rightarrow> jwt_ctx \<Rightarrow> string \<Rightarrow> uuid option \<Rightarrow> key_db \<Rightarrow> (api_error, create_key_response \<times> key_db) result" where
  "create_key ke env ctx name user db =
     rbind (require_role ctx Admin) (\<lambda>_.
     rbind (create_api_key ke env (ctx_workspace_id ctx) name user (user \<noteq> None) (key_actor ke ctx) db) (\<lambda>((row, plain), db').
       Inr (\<lparr>kc_id = ak_id row, kc_name = ak_name row, kc_api_key = plain, kc_prefix = take_chars 8 plain,
             kc_created_at = ak_created_at row, kc_assigned_user_id = ak_assigned_user_id row\<rparr>, db')))"

definition revoke_key :: "key_env \<Rightarrow> db_env \<Rightarrow> jwt_ctx \<Rightarrow> uuid \<Rightarrow> key_db \<Rightarrow> (api_error, key_db) result" where
  "revoke_key ke env ctx k db =
     rbind (require_role ctx Admin) (\<lambda>_. revoke_api_key env (ctx_workspace_id ctx) k (key_actor ke ctx) db)"

definition rotate_key :: "key_env \<Rightarrow> db_env \<Rightarrow> jwt_ctx \<Rightarrow> uuid \<Rightarrow> key_db \<Rightarrow> (api_error, (string \<times> int) \<times> key_db) result" where
  "rotate_key ke env ctx k db =
     rbind (require_role ctx Admin) (\<lambda>_. rotate_api_key ke env (ctx_workspace_id ctx) k (key_actor ke ctx) db)"

definition get_my_api_key :: "key_env \<Rightarrow> db_env \<Rightarrow> jwt_ctx \<Rightarrow> key_db \<Rightarrow> (api_error, string) result" where
  "get_my_api_key ke env ctx db =
     rbind (fetch_plaintext_for_user ke env (ctx_workspace_id ctx) (ctx_user_id ctx) db) (\<lambda>found.
       ok_or found (NotFound ''no API key assigned to this user''))"

section \<open>The sweep\<close>

record sweep_outcome =
  so_keys_revoked :: nat
  so_enumerated :: nat
  so_swept :: nat
  so_failures :: nat

definition all_ok :: "sweep_outcome \<Rightarrow> bool" where
  "all_ok o' = (so_failures o' = 0 \<and> so_swept o' = so_enumerated o')"

text \<open>\<open>enumerate_workspaces\<close>: refused when row security is active on the table.\<close>

definition enumerate_workspaces :: "db_env \<Rightarrow> bool \<Rightarrow> uuid list \<Rightarrow> (api_error, uuid list) result" where
  "enumerate_workspaces env policed workspaces = rbind (stmt env 0) (\<lambda>_.
     if policed then Inl (Internal (''row security is active on `workspaces` for this connection, so enumerating '' @
          ''it would return a filtered list and any sweep built on it would silently '' @
          ''skip every workspace it cannot see''))
     else rbind (stmt env 1) (\<lambda>_. Inr workspaces))"

definition grace_over :: "int \<Rightarrow> uuid \<Rightarrow> api_key_row \<Rightarrow> bool" where
  "grace_over now ws r = (ak_ws r = ws \<and> ak_status r = ''rotating'' \<and> ak_rotated_at r \<noteq> None \<and> grace_end r \<le> now)"

definition sweep_one :: "db_env \<Rightarrow> uuid \<Rightarrow> key_db \<Rightarrow> (api_error, nat \<times> key_db) result" where
  "sweep_one env ws db =
     rbind (begin_scoped env ws) (\<lambda>_. rbind (stmt env 3) (\<lambda>_. rbind (stmt env 4) (\<lambda>_.
       Inr (length (filter (grace_over (now_ts env) ws) (keys_tbl db)),
            update_key (grace_over (now_ts env) ws) (\<lambda>r. r\<lparr>ak_status := ''revoked'', ak_revoked_at := Some (now_ts env)\<rparr>) db))))"

fun sweep_all :: "(nat \<Rightarrow> db_env) \<Rightarrow> nat \<Rightarrow> uuid list \<Rightarrow> sweep_outcome \<Rightarrow> key_db \<Rightarrow> sweep_outcome \<times> key_db" where
  "sweep_all envs i [] o' db = (o', db)"
| "sweep_all envs i (ws # wss) o' db =
     (case sweep_one (envs i) ws db of
        Inl e \<Rightarrow> sweep_all envs (Suc i) wss (o'\<lparr>so_failures := so_failures o' + 1\<rparr>) db
      | Inr (n, db') \<Rightarrow>
          sweep_all envs (Suc i) wss (o'\<lparr>so_keys_revoked := so_keys_revoked o' + n, so_swept := so_swept o' + 1\<rparr>) db')"

definition rotation_sweep :: "(nat \<Rightarrow> db_env) \<Rightarrow> bool \<Rightarrow> key_db \<Rightarrow> sweep_outcome \<times> key_db" where
  "rotation_sweep envs policed db =
     (case enumerate_workspaces (envs 0) policed (map fst (key_workspaces db)) of
        Inl e \<Rightarrow> (\<lparr>so_keys_revoked = 0, so_enumerated = 0, so_swept = 0, so_failures = 1\<rparr>, db)
      | Inr wss \<Rightarrow> sweep_all envs 1 wss \<lparr>so_keys_revoked = 0, so_enumerated = length wss, so_swept = 0, so_failures = 0\<rparr> db)"

section \<open>The profile\<close>

definition is_ascii_hexdigit :: "char \<Rightarrow> bool" where
  "is_ascii_hexdigit c = (let b = byte_of c in (48 \<le> b \<and> b \<le> 57) \<or> (65 \<le> b \<and> b \<le> 70) \<or> (97 \<le> b \<and> b \<le> 102))"

definition extract_device_mac :: "string option \<Rightarrow> string option" where
  "extract_device_mac header = Option.bind header (\<lambda>v.
     let raw = trim v in
     if raw = [] then None
     else let normalised = to_lowercase (str_replace ''-'' '':'' raw);
              parts = split_on (CHR '':'') normalised
          in if length parts \<noteq> 6 then None
             else if \<not> list_all (\<lambda>p. length p = 2 \<and> list_all is_ascii_hexdigit p) parts then None
             else Some normalised)"

definition build_display_name :: "string \<Rightarrow> string option \<Rightarrow> string option \<Rightarrow> string" where
  "build_display_name email first last' = (case (first, last') of
     (Some f, Some l) \<Rightarrow> f @ '' '' @ l
   | (Some f, None) \<Rightarrow> f
   | (None, Some l) \<Rightarrow> l
   | (None, None) \<Rightarrow> hd (split_on (CHR ''@'') email))"

definition normalize_name :: "string option \<Rightarrow> string option" where
  "normalize_name v = Option.bind v (\<lambda>s. if trim s = [] then None else Some (trim s))"

text \<open>The columns of \<open>users\<close> the profile routes read and write; their statements run outside a scope.\<close>

record profile_row =
  pf_user_id :: uuid
  pf_ws :: uuid
  pf_email :: string
  pf_role :: string
  pf_first_name :: "string option"
  pf_last_name :: "string option"
  pf_position :: "string option"
  pf_device_mac :: "string option"
  pf_updated_at :: int

definition update_profile :: "jwt_ctx \<Rightarrow> (profile_row \<Rightarrow> profile_row) \<Rightarrow> profile_row list \<Rightarrow> profile_row list" where
  "update_profile ctx f = map (\<lambda>r. if pf_user_id r = ctx_user_id ctx \<and> pf_ws r = ctx_workspace_id ctx then f r else r)"

text \<open>\<open>get_my_profile\<close>: statement 0 records the device, and its failure is only logged; statement 1 reads.\<close>

definition get_my_profile ::
  "db_env \<Rightarrow> jwt_ctx \<Rightarrow> string option \<Rightarrow> profile_row list \<Rightarrow> (api_error, profile_row \<times> string) result \<times> profile_row list" where
  "get_my_profile env ctx header tbl =
     (let tbl' = (case extract_device_mac header of
            Some mac \<Rightarrow> if stmt_err env 0 = None
              then update_profile ctx (\<lambda>r. r\<lparr>pf_device_mac := Some mac, pf_updated_at := now_ts env\<rparr>) tbl else tbl
          | None \<Rightarrow> tbl)
      in (rbind (stmt env 1) (\<lambda>_.
          rbind (ok_or (find (\<lambda>r. pf_user_id r = ctx_user_id ctx \<and> pf_ws r = ctx_workspace_id ctx) tbl') (NotFound ''user not found'')) (\<lambda>r.
          Inr (r, build_display_name (pf_email r) (pf_first_name r) (pf_last_name r)))), tbl'))"

definition put_my_profile ::
  "db_env \<Rightarrow> db_env \<Rightarrow> jwt_ctx \<Rightarrow> string option \<Rightarrow> string option \<Rightarrow> string option \<Rightarrow> string option \<Rightarrow> profile_row list
     \<Rightarrow> (api_error, profile_row \<times> string) result \<times> profile_row list" where
  "put_my_profile env env' ctx header first last' pos tbl =
     (case stmt env 0 of
        Inl e \<Rightarrow> (Inl e, tbl)
      | Inr _ \<Rightarrow> get_my_profile env' ctx header (update_profile ctx (\<lambda>r. r\<lparr>pf_first_name := normalize_name first,
          pf_last_name := normalize_name last', pf_position := normalize_name pos, pf_updated_at := now_ts env\<rparr>) tbl))"

section \<open>Requests, changes and cache writes in any order\<close>

record key_state =
  ks_db :: key_db
  ks_cache :: config_cache
  ks_pending :: "(string \<times> authenticated_key) list"

text \<open>
  One gateway process: a key operation of any process commits, a request is answered from the cache, a
  request finds its key in the database, or it writes the cache entry and is answered. The contexts are the
  answers given in the step.
\<close>

inductive key_step :: "nat \<Rightarrow> key_state \<Rightarrow> auth_context list \<Rightarrow> key_state \<Rightarrow> bool" where
  created: "create_key ke env ctx name user (ks_db s) = Inr (resp, db') \<Longrightarrow> key_step now s [] (s\<lparr>ks_db := db'\<rparr>)"
| revoked: "revoke_key ke env ctx k (ks_db s) = Inr db' \<Longrightarrow> key_step now s [] (s\<lparr>ks_db := db'\<rparr>)"
| rotated: "rotate_key ke env ctx k (ks_db s) = Inr (resp, db') \<Longrightarrow> key_step now s [] (s\<lparr>ks_db := db'\<rparr>)"
| swept: "rotation_sweep envs policed (ks_db s) = (o', db') \<Longrightarrow> key_step now s [] (s\<lparr>ks_db := db'\<rparr>)"
| workspaces: "key_step now s [] (s\<lparr>ks_db := (ks_db s)\<lparr>key_workspaces := wss\<rparr>\<rparr>)"
| from_cache: "authenticate_lookup ke envs now header (ks_cache s) (ks_db s) = Inr (Inl ctx) \<Longrightarrow> key_step now s [ctx] s"
| found: "authenticate_lookup ke envs now header (ks_cache s) (ks_db s) = Inr (Inr p) \<Longrightarrow>
    key_step now s [] (s\<lparr>ks_pending := p # ks_pending s\<rparr>)"
| cached: "(token, a) \<in> set (ks_pending s) \<Longrightarrow>
    key_step now s [context_of_key a] (s\<lparr>ks_cache := cache_api_key now token a (ks_cache s),
      ks_pending := remove1 (token, a) (ks_pending s)\<rparr>)"

inductive key_run :: "nat \<Rightarrow> key_state \<Rightarrow> (nat \<times> auth_context) list \<Rightarrow> nat \<Rightarrow> key_state \<Rightarrow> bool" where
  key_run_start: "key_run t s [] t s"
| key_run_step: "key_run t0 s0 evs t s \<Longrightarrow> t \<le> now \<Longrightarrow> key_step now s ctxs s' \<Longrightarrow> key_run t0 s0 (evs @ map (Pair now) ctxs) now s'"

definition key_ids_distinct :: "key_db \<Rightarrow> bool" where
  "key_ids_distinct db = distinct (map ak_id (keys_tbl db))"

definition key_dead :: "uuid \<Rightarrow> key_db \<Rightarrow> bool" where
  "key_dead k db \<longleftrightarrow> k \<in> ak_id ` set (keys_tbl db) \<and>
     (\<forall>r \<in> set (keys_tbl db). ak_id r = k \<longrightarrow> ak_revoked_at r \<noteq> None \<and> \<not> live_status r)"

section \<open>Lemmas\<close>

lemma update_key_ids: "(\<And>r. ak_id (f r) = ak_id r) \<Longrightarrow> map ak_id (keys_tbl (update_key P f db)) = map ak_id (keys_tbl db)"
  by (simp add: update_key_def)

lemma update_key_set: "set (keys_tbl (update_key P f db)) = (\<lambda>r. if P r then f r else r) ` set (keys_tbl db)"
  by (simp add: update_key_def)

lemma key_dead_no_live: "key_dead k db \<Longrightarrow> r \<in> set (keys_tbl db) \<Longrightarrow> live_status r \<Longrightarrow> ak_id r \<noteq> k"
  by (auto simp: key_dead_def)

lemma key_dead_update:
  assumes dead: "key_dead k db" and f: "\<And>r. ak_id (f r) = ak_id r"
    and P: "\<And>r. r \<in> set (keys_tbl db) \<Longrightarrow> P r \<Longrightarrow> ak_id r \<noteq> k"
  shows "key_dead k (update_key P f db)"
proof -
  have "k \<in> set (map ak_id (keys_tbl (update_key P f db)))"
    unfolding update_key_ids [of f, OF f] using dead by (simp add: key_dead_def)
  moreover have "ak_revoked_at y \<noteq> None \<and> \<not> live_status y" if "y \<in> set (keys_tbl (update_key P f db))" "ak_id y = k" for y
  proof -
    from that(1) obtain r where r: "r \<in> set (keys_tbl db)" "y = (if P r then f r else r)" by (auto simp: update_key_set)
    with that(2) f P have "y = r" by (auto split: if_splits)
    with dead r that(2) show ?thesis by (simp add: key_dead_def)
  qed
  ultimately show ?thesis by (simp add: key_dead_def)
qed

text \<open>What every operation keeps: distinct identifiers, and revoked keys.\<close>

definition keys_kept :: "key_db \<Rightarrow> key_db \<Rightarrow> bool" where
  "keys_kept db db' \<longleftrightarrow> (key_ids_distinct db \<longrightarrow> key_ids_distinct db') \<and> (\<forall>k. key_dead k db \<longrightarrow> key_dead k db')"

lemma keys_kept_trans: "keys_kept a b \<Longrightarrow> keys_kept b c \<Longrightarrow> keys_kept a c"
  by (simp add: keys_kept_def)

lemma keys_kept_same: "keys_tbl db' = keys_tbl db \<Longrightarrow> keys_kept db db'"
  by (simp add: keys_kept_def key_dead_def key_ids_distinct_def)

lemma keys_kept_update:
  assumes "\<And>r. ak_id (f r) = ak_id r"
    and "\<And>k r. key_dead k db \<Longrightarrow> r \<in> set (keys_tbl db) \<Longrightarrow> P r \<Longrightarrow> ak_id r \<noteq> k"
  shows "keys_kept db (update_key P f db)"
  using assms key_dead_update [of _ db f P] by (auto simp: keys_kept_def key_ids_distinct_def update_key_ids)

lemma audit_key_kept: "audit_key env n actor entry db = Inr db' \<Longrightarrow> keys_tbl db' = keys_tbl db"
  by (auto simp: audit_key_def rbind_Inr)

lemma insert_key_kept: "insert_key env n row db = Inr db' \<Longrightarrow> keys_kept db db' \<and> keys_tbl db' = keys_tbl db @ [row] \<and> ak_id row \<notin> ak_id ` set (keys_tbl db)"
  by (auto simp: insert_key_def rbind_Inr keys_kept_def key_dead_def key_ids_distinct_def split: if_splits)

lemma find_live_key_Some: "find_live_key k ws db = Some r \<Longrightarrow> r \<in> set (keys_tbl db) \<and> ak_id r = k \<and> ak_ws r = ws \<and> live_status r"
  by (auto simp: find_live_key_def find_Some_iff)

lemma create_kept:
  assumes "create_key ke env ctx name user db = Inr (resp, db')"
  shows "keys_kept db db'"
proof -
  from assms obtain row db1 entry where "insert_key env 3 row db = Inr db1" "audit_key env 4 (key_actor ke ctx) entry db1 = Inr db'"
    by (auto simp: create_key_def create_api_key_def rbind_Inr Let_def)
  then show ?thesis
    using insert_key_kept keys_kept_same [OF audit_key_kept] by (blast intro: keys_kept_trans)
qed

lemma revoke_Inr:
  assumes "revoke_api_key env ws k actor db = Inr db'"
  obtains row where "row \<in> set (keys_tbl db)" "ak_id row = k" "ak_ws row = ws" "live_status row"
    "keys_tbl db' = keys_tbl (update_key (\<lambda>r. ak_id r = k \<and> ak_ws r = ws \<and> live_status r)
       (\<lambda>r. r\<lparr>ak_revoked_at := Some (now_ts env), ak_status := ''revoked''\<rparr>) db)"
  using assms by (auto simp: revoke_api_key_def rbind_Inr dest!: audit_key_kept find_live_key_Some)

lemma revoke_kept:
  assumes "revoke_api_key env ws k actor db = Inr db'"
  shows "keys_kept db db'"
proof -
  let ?P = "\<lambda>r. ak_id r = k \<and> ak_ws r = ws \<and> live_status r"
  let ?f = "\<lambda>r. r\<lparr>ak_revoked_at := Some (now_ts env), ak_status := ''revoked''\<rparr>"
  obtain row where "keys_tbl db' = keys_tbl (update_key ?P ?f db)" by (rule revoke_Inr [OF assms])
  moreover have "keys_kept db (update_key ?P ?f db)" by (intro keys_kept_update) (auto dest: key_dead_no_live)
  ultimately show ?thesis using keys_kept_same keys_kept_trans by blast
qed

lemma revoke_dead:
  assumes "revoke_api_key env ws k actor db = Inr db'" "key_ids_distinct db"
  shows "key_dead k db'"
proof -
  let ?P = "\<lambda>r. ak_id r = k \<and> ak_ws r = ws \<and> live_status r"
  let ?f = "\<lambda>r. r\<lparr>ak_revoked_at := Some (now_ts env), ak_status := ''revoked''\<rparr>"
  obtain row where row: "row \<in> set (keys_tbl db)" "ak_id row = k" "ak_ws row = ws" "live_status row"
    and tbl: "keys_tbl db' = keys_tbl (update_key ?P ?f db)"
    by (rule revoke_Inr [OF assms(1)])
  have "k \<in> ak_id ` set (keys_tbl db')"
    using arg_cong [OF update_key_ids [of ?f ?P db], of set] row by (auto simp: tbl)
  moreover have "ak_revoked_at y \<noteq> None \<and> \<not> live_status y" if "y \<in> set (keys_tbl db')" "ak_id y = k" for y
  proof -
    from that(1) obtain r where r: "r \<in> set (keys_tbl db)" "y = (if ?P r then ?f r else r)" unfolding tbl update_key_set by blast
    then have "ak_id r = k" using that(2) by (simp split: if_splits)
    then have "r = row" using assms(2) row(1,2) r(1) by (auto simp: key_ids_distinct_def distinct_map dest: inj_onD)
    then show ?thesis using r(2) row by (simp add: live_status_def)
  qed
  ultimately show ?thesis by (simp add: key_dead_def)
qed

lemma rotate_kept:
  assumes "rotate_api_key ke env ws k actor db = Inr (resp, db')"
  shows "keys_kept db db'"
proof -
  from assms obtain row where row: "find_live_key k ws db = Some row"
    and r: "db' = db \<or> issue_successor ke env actor row db = Inr (resp, db')"
    by (auto simp: rotate_api_key_def rbind_Inr split: if_splits)
  from r show ?thesis
  proof
    define f where "f = (\<lambda>r. r\<lparr>ak_status := ''rotating'', ak_rotated_at := Some (now_ts env),
      ak_successor_hash := Some (ke_hash ke (new_plaintext ke)), ak_successor_prefix := Some (take_chars 12 (new_plaintext ke))\<rparr> :: api_key_row)"
    have f: "ak_id (f r) = ak_id r" for r by (simp add: f_def)
    assume "issue_successor ke env actor row db = Inr (resp, db')"
    then obtain new db1 entry where ins: "insert_key env 4 new db = Inr db1"
      and au: "audit_key env 6 actor entry (update_key (\<lambda>r. ak_id r = ak_id row) f db1) = Inr db'"
      unfolding issue_successor_def rbind_Inr Let_def f_def by blast
    have mem: "row \<in> set (keys_tbl db1)" "live_status row" using find_live_key_Some [OF row] insert_key_kept [OF ins] by auto
    have "keys_kept db1 (update_key (\<lambda>r. ak_id r = ak_id row) f db1)"
      using f mem by (intro keys_kept_update) (auto dest: key_dead_no_live)
    then have "keys_kept db (update_key (\<lambda>r. ak_id r = ak_id row) f db1)"
      using insert_key_kept [OF ins] by (blast intro: keys_kept_trans)
    then show ?thesis using keys_kept_same [OF audit_key_kept [OF au]] by (rule keys_kept_trans)
  qed (simp add: keys_kept_def)
qed

lemma sweep_one_kept: "sweep_one env ws db = Inr (n, db') \<Longrightarrow> keys_kept db db'"
  by (auto simp: sweep_one_def rbind_Inr grace_over_def live_status_def intro!: keys_kept_update dest: key_dead_no_live)

lemma sweep_all_kept: "keys_kept db (snd (sweep_all envs i wss o' db))"
proof (induction wss arbitrary: i o' db)
  case (Cons ws wss)
  show ?case
  proof (cases "sweep_one (envs i) ws db")
    case (Inr p)
    obtain n db' where p: "p = (n, db')" by (cases p)
    show ?thesis
      using keys_kept_trans [OF sweep_one_kept [OF Inr [unfolded p]] Cons.IH] by (simp add: Inr p)
  qed (simp add: Cons.IH)
qed (simp add: keys_kept_def)

lemma rotation_sweep_kept: "rotation_sweep envs policed db = (o', db') \<Longrightarrow> keys_kept db db'"
  using sweep_all_kept [of db envs 1]
  by (auto simp: rotation_sweep_def keys_kept_same split: sum.splits dest!: arg_cong [of "sweep_all _ _ _ _ _" _ snd]) 

text \<open>
  A rotation: the old key is usable exactly until the end of the grace period that is answered, the
  successor at once; the successor is not assigned to the user the old key was assigned to.
\<close>

lemma rotation_grace:
  assumes "issue_successor ke env actor row db = Inr ((plain, until'), db')"
    and "row \<in> set (keys_tbl db)" "ak_revoked_at row = None"
  shows "\<exists>old new. old \<in> set (keys_tbl db') \<and> new \<in> set (keys_tbl db') \<and> ak_id old = ak_id row \<and>
    (\<forall>now. key_usable now old \<longleftrightarrow> now < until') \<and> ak_key_hash new = ke_hash ke plain \<and> (\<forall>now. key_usable now new) \<and>
    ak_ws new = ak_ws row \<and> ak_assigned_user_id new = None"
proof -
  define f where "f = (\<lambda>r. r\<lparr>ak_status := ''rotating'', ak_rotated_at := Some (now_ts env),
    ak_successor_hash := Some (ke_hash ke (new_plaintext ke)), ak_successor_prefix := Some (take_chars 12 (new_plaintext ke))\<rparr> :: api_key_row)"
  let ?new = "key_row env 4 (ak_ws row) (ak_name row @ '' (rotated)'') (ke_hash ke (new_plaintext ke)) None None"
  from assms(1) obtain db1 entry where ins: "insert_key env 4 ?new db = Inr db1"
    and au: "audit_key env 6 actor entry (update_key (\<lambda>r. ak_id r = ak_id row) f db1) = Inr db'"
    and ans: "plain = new_plaintext ke" "until' = grace_end (f row)"
    unfolding issue_successor_def rbind_Inr Let_def f_def by blast
  have tbl: "set (keys_tbl db') = (\<lambda>r. if ak_id r = ak_id row then f r else r) ` (set (keys_tbl db) \<union> {?new})" and
    fresh: "ak_id ?new \<noteq> ak_id row"
    using audit_key_kept [OF au] insert_key_kept [OF ins] assms(2) by (auto simp: update_key_def)
  have "f row \<in> set (keys_tbl db')" "?new \<in> set (keys_tbl db')"
    unfolding tbl using assms(2) fresh by (auto intro: rev_image_eqI)
  moreover have "\<forall>now. key_usable now (f row) \<longleftrightarrow> now < until'" "\<forall>now. key_usable now ?new"
    using assms(3) by (simp_all add: key_usable_def f_def key_row_def ans(2))
  ultimately show ?thesis
    by (intro exI [of _ "f row"] exI [of _ ?new]) (simp add: f_def key_row_def ans(1))
qed

text \<open>A successful change of a key writes one audit row of the caller's workspace, and is made by an administrator.\<close>

lemma key_change_audited:
  "create_key ke env ctx name user db = Inr (resp, db') \<Longrightarrow>
     can_write (ctx_role ctx) \<and> (\<exists>row. key_audit db' = key_audit db @ [row] \<and> ar_ws row = ctx_workspace_id ctx \<and> ar_action row = ''api_key.created'')"
  "revoke_key ke env ctx k db = Inr db' \<Longrightarrow>
     can_write (ctx_role ctx) \<and> (\<exists>row. key_audit db' = key_audit db @ [row] \<and> ar_ws row = ctx_workspace_id ctx \<and> ar_action row = ''api_key.revoked'')"
  by (auto simp: create_key_def create_api_key_def revoke_key_def revoke_api_key_def insert_key_def audit_key_def rbind_Inr Let_def
      require_admin_iff update_key_def key_actor_def actor_resolve_def on_object_def with_detail_def split: if_splits dest!: audit_write_Inr)

section \<open>A revoked key stops working\<close>

lemma lookup_key_Some: "lookup_key ke ws now h db = Some r \<Longrightarrow> r \<in> set (keys_tbl db) \<and> key_usable now r \<and> ak_key_hash r = h"
proof -
  assume a: "lookup_key ke ws now h db = Some r"
  let ?l = "sort_key (\<lambda>r. - ak_created_at r)
      (filter (\<lambda>r. ak_key_hash r = h \<and> key_usable now r \<and> (ke_bypass_rls ke \<or> ak_ws r = ws)) (keys_tbl db))"
  from a have "r \<in> set ?l" by (auto simp: lookup_key_def split: list.splits simp del: set_sort)
  then show ?thesis by auto
qed

lemma try_workspaces_Some:
  "try_workspaces ke envs i h wss db = Inr (Some a) \<Longrightarrow> \<exists>r now. r \<in> set (keys_tbl db) \<and> key_usable now r \<and> ak_key_hash r = h \<and> ak_id r = aa_id a"
  by (induction wss arbitrary: i) (auto simp: rbind_Inr split: option.splits dest!: lookup_key_Some)

lemma found_not_dead:
  assumes "authenticate_lookup ke envs now header cache db = Inr (Inr (token, a))" "key_dead k db"
  shows "aa_id a \<noteq> k"
proof -
  from assms(1) have "authenticate_api_key ke envs token db = Inr (Some a)"
    by (auto simp: authenticate_lookup_def rbind_Inr split: option.splits)
  then obtain r t where "r \<in> set (keys_tbl db)" "key_usable t r" "ak_id r = aa_id a"
    unfolding authenticate_api_key_def rbind_Inr using try_workspaces_Some by blast
  then show ?thesis using assms(2) by (auto simp: key_dead_def key_usable_def)
qed

text \<open>Every cache entry was written at or before \<open>t\<close>; those of a key \<open>k\<close> at or before \<open>u\<close>.\<close>

definition cache_times :: "nat \<Rightarrow> key_state \<Rightarrow> bool" where
  "cache_times t s \<longleftrightarrow> (\<forall>token e. api_keys (ks_cache s) token = Some e \<longrightarrow> ck_cached_at e \<le> t)"

definition key_quiet :: "uuid \<Rightarrow> nat \<Rightarrow> key_state \<Rightarrow> bool" where
  "key_quiet k u s \<longleftrightarrow> key_dead k (ks_db s) \<and> (\<forall>(token, a) \<in> set (ks_pending s). aa_id a \<noteq> k) \<and>
     (\<forall>token e. api_keys (ks_cache s) token = Some e \<longrightarrow> ck_api_key_id e = k \<longrightarrow> ck_cached_at e \<le> u)"

lemma key_step_db: "key_step now s ctxs s' \<Longrightarrow> keys_kept (ks_db s) (ks_db s')"
  by (induction rule: key_step.induct)
    (auto simp: revoke_key_def rotate_key_def rbind_Inr keys_kept_def [of "ks_db _" "ks_db _"] intro: keys_kept_same
      dest: create_kept revoke_kept rotate_kept rotation_sweep_kept)

lemma key_step_times: "key_step now s ctxs s' \<Longrightarrow> cache_times t s \<Longrightarrow> t \<le> now \<Longrightarrow> cache_times now s'"
  by (induction rule: key_step.induct) (fastforce simp: cache_times_def cache_api_key_def set_api_key_def split: if_splits)+

lemma key_step_quiet:
  assumes "key_step now s ctxs s'" "key_quiet k u s"
  shows "key_quiet k u s'" "ctx \<in> set ctxs \<Longrightarrow> au_api_key_id ctx = k \<Longrightarrow> now \<le> u + cache_ttl"
proof -
  have dead: "key_dead k (ks_db s')" using key_step_db [OF assms(1)] assms(2) by (simp add: keys_kept_def key_quiet_def)
  from assms(1) have "key_quiet k u s' \<and> (ctx \<in> set ctxs \<longrightarrow> au_api_key_id ctx = k \<longrightarrow> now \<le> u + cache_ttl)"
  proof cases
    case (from_cache ke envs header ctx')
    then show ?thesis using assms(2)
      by (auto simp: authenticate_lookup_def rbind_Inr get_api_key_def context_of_cached_def key_quiet_def split: option.splits if_splits)
        (metis add.commute diff_le_mono le_diff_conv linorder_not_less order_trans)+
  next
    case (found ke envs header p)
    then show ?thesis using assms(2) dead found_not_dead [of ke envs now header "ks_cache s" "ks_db s" "fst p" "snd p" k]
      by (auto simp: key_quiet_def)
  next
    case (cached token a)
    then show ?thesis using assms(2) dead
      by (auto simp: key_quiet_def context_of_key_def cache_api_key_def set_api_key_def dest: set_mp [OF set_remove1_subset] split: if_splits)
  qed (use assms(2) dead in \<open>auto simp: key_quiet_def\<close>)
  then show "key_quiet k u s'" "ctx \<in> set ctxs \<Longrightarrow> au_api_key_id ctx = k \<Longrightarrow> now \<le> u + cache_ttl" by blast+
qed

lemma key_run_times:
  "key_run t0 s0 evs t s \<Longrightarrow> cache_times t0 s0 \<Longrightarrow> key_ids_distinct (ks_db s0) \<Longrightarrow> cache_times t s \<and> key_ids_distinct (ks_db s)"
  by (induction rule: key_run.induct) (use key_step_times key_step_db in \<open>auto simp: keys_kept_def\<close>)

lemma key_run_quiet:
  "key_run t0 s0 evs t s \<Longrightarrow> key_quiet k u s0 \<Longrightarrow>
   key_quiet k u s \<and> (\<forall>(now, c) \<in> set evs. au_api_key_id c = k \<longrightarrow> now \<le> u + cache_ttl)"
proof (induction rule: key_run.induct)
  case (key_run_step t0 s0 evs t s now ctxs s')
  then show ?case using key_step_quiet [OF key_run_step.hyps(3)] by (auto 4 3)
qed simp

text \<open>
  C15 (safety). A revoked key stops authenticating within sixty seconds. Take a gateway process that
  started with an empty cache, in any interleaving of key creation, revocation, rotation, nightly sweeps
  (by any process) and requests whose database read and cache write are separate steps. Once an
  administrator has revoked a key, and no request of this process is between having found that key and
  caching it, no request answered more than sixty seconds later is answered in the name of that key.
\<close>

theorem revoked_key_stops_within_cache_ttl:
  assumes "key_run t0 start evs0 t1 s1" "ks_cache start = cache_default" "key_ids_distinct (ks_db start)"
    and "revoke_key ke env ctx k (ks_db s1) = Inr db1"
    and "\<forall>(token, a) \<in> set (ks_pending s1). aa_id a \<noteq> k"
    and "key_run t1 (s1\<lparr>ks_db := db1\<rparr>) evs t2 s2" "(t, c) \<in> set evs" "au_api_key_id c = k"
  shows "t \<le> t1 + cache_ttl"
proof -
  have "cache_times t0 start" using assms(2) by (simp add: cache_times_def cache_default_def)
  from key_run_times [OF assms(1) this assms(3)] have s1: "cache_times t1 s1" "key_ids_distinct (ks_db s1)" by auto
  have "key_dead k db1" using assms(4) revoke_dead s1(2) by (auto simp: revoke_key_def rbind_Inr)
  then have "key_quiet k t1 (s1\<lparr>ks_db := db1\<rparr>)" using s1(1) assms(5) by (auto simp: key_quiet_def cache_times_def)
  from key_run_quiet [OF assms(6) this] assms(7,8) show ?thesis by auto
qed

definition key_demo_env :: db_env where
  "key_demo_env = \<lparr>stmt_err = (\<lambda>j. None), readback = Some, dup_err = [], show_uuid = (\<lambda>u. ''u''), now_ts = 3, fresh_uuid = (\<lambda>j. 9)\<rparr>"

definition key_demo :: key_env where
  "key_demo = \<lparr>ke_hash = (\<lambda>s. s), ke_suffix = ''x'', ke_encrypt = Inr, ke_decrypt = Inr, ke_actor_email = None, ke_instant = (\<lambda>i. ''t''),
     ke_bypass_rls = False\<rparr>"

definition key_demo_row :: api_key_row where
  "key_demo_row = key_row key_demo_env 0 2 ''n'' ''sp_a'' None None"

definition key_demo_start :: key_state where
  "key_demo_start = \<lparr>ks_db = \<lparr>keys_tbl = [key_demo_row], key_audit = [], key_workspaces = [(2, 0)]\<rparr>, ks_cache = cache_default, ks_pending = []\<rparr>"

definition key_demo_found :: authenticated_key where
  "key_demo_found = \<lparr>aa_id = 9, aa_workspace_id = 2, aa_name = ''n'', aa_assigned_user_id = None\<rparr>"

definition key_demo_ctx :: jwt_ctx where
  "key_demo_ctx = \<lparr>ctx_user_id = 3, ctx_workspace_id = 2, ctx_role = Admin, ctx_jti = ''j'', ctx_exp = 99\<rparr>"

lemma key_demo_stmt: "stmt key_demo_env j = Inr ()" "begin_scoped key_demo_env ws = Inr ()"
  by (simp_all add: stmt_def begin_scoped_def arm_scope_def scope_is_armed_def key_demo_env_def)

lemma key_demo_lookup:
  "authenticate_lookup key_demo (\<lambda>j. key_demo_env) 5 (Some (Some ''Bearer sp_a'')) cache_default (ks_db key_demo_start) =
   Inr (Inr (''sp_a'', key_demo_found))"
proof -
  have "bearer_key (Some (Some ''Bearer sp_a'')) = Inr ''sp_a''" by (simp add: bearer_key_def ok_or_def strip_prefix_def)
  then show ?thesis
    by (simp add: authenticate_lookup_def get_api_key_def cache_default_def authenticate_api_key_def key_demo_stmt
        key_demo_start_def lookup_key_def key_demo_row_def key_row_def key_usable_def key_demo_def key_demo_found_def ok_or_def)
      (simp add: key_demo_env_def)
qed

theorem revoked_key_stops_within_cache_ttl_witness:
  "\<exists>s1 db1 s2. key_run 0 key_demo_start [(6, context_of_key key_demo_found)] 6 s1 \<and>
     revoke_key key_demo key_demo_env key_demo_ctx 9 (ks_db s1) = Inr db1 \<and>
     key_run 6 (s1\<lparr>ks_db := db1\<rparr>) [(50, context_of_key key_demo_found)] 50 s2 \<and> (50 :: nat) \<le> 6 + cache_ttl"
proof -
  let ?p = "(''sp_a'', key_demo_found)"
  let ?c = "context_of_key key_demo_found"
  let ?s0 = "key_demo_start\<lparr>ks_pending := [?p]\<rparr>"
  let ?s1 = "?s0\<lparr>ks_cache := cache_api_key 6 ''sp_a'' key_demo_found (ks_cache ?s0), ks_pending := remove1 ?p (ks_pending ?s0)\<rparr>"
  have "key_step 5 key_demo_start [] (key_demo_start\<lparr>ks_pending := ?p # ks_pending key_demo_start\<rparr>)"
    by (rule key_step.found [where ke = key_demo and envs = "\<lambda>j. key_demo_env" and header = "Some (Some ''Bearer sp_a'')"])
      (use key_demo_lookup in \<open>simp add: key_demo_start_def\<close>)
  then have "key_step 5 key_demo_start [] ?s0" by (simp add: key_demo_start_def)
  from key_run_step [OF key_run_start _ this, of 0] have "key_run 0 key_demo_start [] 5 ?s0" by simp
  moreover have "key_step 6 ?s0 [?c] ?s1" by (rule key_step.cached) simp
  ultimately have r1: "key_run 0 key_demo_start [(6, ?c)] 6 ?s1" using key_run_step [of 0 key_demo_start "[]" 5 ?s0 6 "[?c]" ?s1] by simp
  obtain db1 where rv: "revoke_key key_demo key_demo_env key_demo_ctx 9 (ks_db ?s1) = Inr db1"
    by (auto simp: revoke_key_def revoke_api_key_def require_role_def key_demo_ctx_def key_demo_stmt find_live_key_def key_demo_start_def
        key_demo_row_def key_row_def live_status_def ok_or_def audit_key_def audit_write_def) (simp add: key_demo_env_def)
  have "authenticate_lookup key_demo (\<lambda>j. key_demo_env) 50 (Some (Some ''Bearer sp_a'')) (ks_cache ?s1) db1 = Inr (Inl ?c)"
    by (simp add: authenticate_lookup_def bearer_key_def ok_or_def strip_prefix_def get_api_key_def cache_api_key_def set_api_key_def
        cache_ttl_def context_of_cached_def context_of_key_def)
  then have "key_step 50 (?s1\<lparr>ks_db := db1\<rparr>) [?c] (?s1\<lparr>ks_db := db1\<rparr>)"
    by (intro key_step.from_cache [where ke = key_demo and envs = "\<lambda>j. key_demo_env" and header = "Some (Some ''Bearer sp_a'')"]) simp
  from key_run_step [OF key_run_start _ this, of 6] have r2: "key_run 6 (?s1\<lparr>ks_db := db1\<rparr>) [(50, ?c)] 50 (?s1\<lparr>ks_db := db1\<rparr>)" by simp
  have "(50 :: nat) \<le> 6 + cache_ttl"
    by (rule revoked_key_stops_within_cache_ttl [OF r1 _ _ rv _ r2])
      (auto simp: key_demo_start_def key_ids_distinct_def context_of_key_def key_demo_found_def)
  with r1 rv r2 show ?thesis by blast
qed

end
