(* ===== verification/Retention_Purge.thy ===== *)
theory Retention_Purge
  imports Secure_Mode_Api Api_Keys
begin

text \<open>
  The nightly retention purge of the worker (\<open>secureprompt-worker/src/tasks/retention_purge.rs\<close>): expired token
  vault entries, captured content past its workspace's retention, and the device context of ended sessions,
  with a proof-of-purge record for every scope.

  Each database call answers through the environment, which says which statement fails. Instants are whole
  seconds; the audit table, shared with the export, holds nanoseconds. \<open>DELETE\<close> and \<open>UPDATE\<close> take effect when
  their statement (ClickHouse, or outside a transaction) or their transaction's commit succeeds.
\<close>

section \<open>Records\<close>

definition scope_token_vault :: string where
  "scope_token_vault = ''token_vault_entries''"

definition scope_content_captures :: string where
  "scope_content_captures = ''request_content_captures''"

definition scope_session_device_context :: string where
  "scope_session_device_context = ''refresh_tokens.device_context''"

record purge_record =
  pu_scope :: string
  pu_ws :: "uuid option"
  pu_cutoff :: int
  pu_rows_deleted :: int
  pu_oldest_deleted :: "int option"
  pu_newest_deleted :: "int option"
  pu_rows_remaining :: int
  pu_status :: string
  pu_error :: "string option"
  pu_started_at :: int

definition purge_failure :: "string \<Rightarrow> uuid option \<Rightarrow> int \<Rightarrow> int \<Rightarrow> string \<Rightarrow> purge_record" where
  "purge_failure scope ws cutoff started_at error =
     \<lparr>pu_scope = scope, pu_ws = ws, pu_cutoff = cutoff, pu_rows_deleted = 0, pu_oldest_deleted = None,
      pu_newest_deleted = None, pu_rows_remaining = - 1, pu_status = ''error'', pu_error = Some error,
      pu_started_at = started_at\<rparr>"

record purge_outcome =
  po_run_id :: uuid
  po_records :: "purge_record list"

definition total_deleted :: "purge_outcome \<Rightarrow> int" where
  "total_deleted oc = sum_list (map pu_rows_deleted (po_records oc))"

definition purge_all_ok :: "purge_outcome \<Rightarrow> bool" where
  "purge_all_ok oc = list_all (\<lambda>r. pu_status r = ''ok'') (po_records oc)"

text \<open>The stores, and the environment: errors per statement, the clock, the rendering of a protocol error.\<close>

record purge_db =
  pd_mode :: mode_db
  pd_refresh :: "refresh_row list"
  pd_captures :: "capture_row list"
  pd_audit :: "purge_row list"
  pd_workspaces :: "uuid list"

record purge_env =
  pe_run_id :: uuid
  pe_now :: int
  pe_started :: "nat \<Rightarrow> int"
  pe_vault :: db_env
  pe_enumerate :: "nat \<Rightarrow> db_env"
  pe_policed :: bool
  pe_settings :: "nat \<Rightarrow> db_env"
  pe_clickhouse :: "nat \<Rightarrow> nat \<Rightarrow> string option"
  pe_device :: "nat \<Rightarrow> nat \<Rightarrow> db_env"
  pe_audit :: "nat \<Rightarrow> db_env"
  pe_protocol :: "string \<Rightarrow> string"

definition sql :: "db_env \<Rightarrow> nat \<Rightarrow> (string, unit) result" where
  "sql env k = (case stmt_err env k of None \<Rightarrow> Inr () | Some e \<Rightarrow> Inl e)"

definition list_min :: "int list \<Rightarrow> int option" where
  "list_min ts = (if ts = [] then None else Some (Min (set ts)))"

definition list_max :: "int list \<Rightarrow> int option" where
  "list_max ts = (if ts = [] then None else Some (Max (set ts)))"

section \<open>The token vault\<close>

definition entry_expired :: "int \<Rightarrow> token_vault_row \<Rightarrow> bool" where
  "entry_expired now r = (tv_expires_at r \<le> now)"

definition purge_token_vault :: "purge_env \<Rightarrow> purge_db \<Rightarrow> purge_record \<times> purge_db" where
  "purge_token_vault pe db =
     (let now = pe_now pe; started_at = pe_started pe 0; tbl = md_vault (pd_mode db) in
      case sql (pe_vault pe) 0 of
        Inl e \<Rightarrow> (purge_failure scope_token_vault None now started_at e, db)
      | Inr _ \<Rightarrow>
     (let gone = map tv_expires_at (filter (entry_expired now) tbl);
          tbl' = filter (\<lambda>r. \<not> entry_expired now r) tbl;
          db' = db\<lparr>pd_mode := (pd_mode db)\<lparr>md_vault := tbl'\<rparr>\<rparr> in
      case sql (pe_vault pe) 1 of
        Inl e \<Rightarrow> (purge_failure scope_token_vault None now started_at e, db')
      | Inr _ \<Rightarrow> (\<lparr>pu_scope = scope_token_vault, pu_ws = None, pu_cutoff = now, pu_rows_deleted = int (length gone),
          pu_oldest_deleted = list_min gone, pu_newest_deleted = list_max gone,
          pu_rows_remaining = int (length (filter (entry_expired now) tbl')), pu_status = ''ok'', pu_error = None,
          pu_started_at = started_at\<rparr>, db')))"

section \<open>Sweeps over the workspaces\<close>

record sweep_census =
  ce_scope :: string
  ce_consequence :: string
  ce_enumerated :: nat
  ce_swept :: nat
  ce_unreadable :: nat

definition census_new :: "string \<Rightarrow> string \<Rightarrow> sweep_census" where
  "census_new scope consequence = \<lparr>ce_scope = scope, ce_consequence = consequence, ce_enumerated = 0, ce_swept = 0,
     ce_unreadable = 0\<rparr>"

definition settings_scope_not_armed :: string where
  "settings_scope_not_armed = ''the retention-settings transaction could not be scoped to this workspace, '' @
     ''so its captured content was not purged''"

definition device_context_scope_not_armed :: string where
  "device_context_scope_not_armed = ''the device-context transaction could not be scoped to this workspace, so '' @
     ''the IP addresses on its ended sessions were not erased''"

definition captures_consequence :: string where
  "captures_consequence = ''their captured content was not purged''"

definition device_context_consequence :: string where
  "device_context_consequence = ''the IP addresses on their ended sessions were not erased''"

definition begin_armed :: "purge_env \<Rightarrow> db_env \<Rightarrow> uuid \<Rightarrow> string \<Rightarrow> (string, unit) result" where
  "begin_armed pe env ws not_armed =
     rbind (sql env 0) (\<lambda>_. rbind (sql env 1) (\<lambda>_. rbind (sql env 2) (\<lambda>_.
       if readback env (show_uuid env ws) = Some (show_uuid env ws) then Inr ()
       else Inl (pe_protocol pe not_armed))))"

definition census_record :: "sweep_census \<Rightarrow> int \<Rightarrow> int \<Rightarrow> string option \<Rightarrow> purge_record" where
  "census_record census now started_at enumeration_error =
     (case enumeration_error of
        Some e \<Rightarrow> purge_failure (ce_scope census) None now started_at e
      | None \<Rightarrow>
          if ce_unreadable census > 0
          then purge_failure (ce_scope census) None now started_at
            (show_nat (ce_unreadable census) @ '' of '' @ show_nat (ce_enumerated census) @
             '' workspaces could not be swept, so '' @ ce_consequence census)
          else \<lparr>pu_scope = ce_scope census, pu_ws = None, pu_cutoff = now, pu_rows_deleted = 0,
                pu_oldest_deleted = None, pu_newest_deleted = None, pu_rows_remaining = 0, pu_status = ''ok'',
                pu_error = None, pu_started_at = started_at\<rparr>)"

definition sqlx_to_string :: "purge_env \<Rightarrow> api_error \<Rightarrow> string" where
  "sqlx_to_string pe e = (case e of Database s \<Rightarrow> s | Internal s \<Rightarrow> pe_protocol pe s | _ \<Rightarrow> [])"

section \<open>Captured content\<close>

definition read_capture_retention :: "purge_env \<Rightarrow> db_env \<Rightarrow> uuid \<Rightarrow> purge_db \<Rightarrow> (string, int option) result" where
  "read_capture_retention pe env ws db =
     rbind (begin_armed pe env ws settings_scope_not_armed) (\<lambda>_. rbind (sql env 3) (\<lambda>_. rbind (sql env 4) (\<lambda>_.
       Inr (map_option cs_retention_days (md_capture (pd_mode db) ws)))))"

definition i64_of_u64 :: "nat \<Rightarrow> int" where
  "i64_of_u64 n = (if n < 2 ^ 63 then int n else 2 ^ 63 - 1)"

text \<open>\<open>DateTime::from_timestamp\<close> accepts every \<open>u32\<close>.\<close>

definition unix_to_utc :: "int \<Rightarrow> int option" where
  "unix_to_utc secs = Some secs"

definition capture_cutoff :: "int \<Rightarrow> int \<Rightarrow> int" where
  "capture_cutoff now retention_days = now - retention_days * 86400"

definition in_capture_scope :: "uuid \<Rightarrow> int \<Rightarrow> capture_row \<Rightarrow> bool" where
  "in_capture_scope ws cutoff_unix c = (capture_row.cr_workspace_id c = ws \<and> capture_row.cr_created_at c < cutoff_unix)"

definition purge_one_workspace_captures ::
  "purge_env \<Rightarrow> nat \<Rightarrow> uuid \<Rightarrow> int \<Rightarrow> purge_db \<Rightarrow> purge_record \<times> purge_db" where
  "purge_one_workspace_captures pe i ws retention_days db =
     (let cutoff = capture_cutoff (pe_now pe) retention_days; started_at = pe_started pe 1;
          fail = (\<lambda>e. purge_failure scope_content_captures (Some ws) cutoff started_at e);
          stats = filter (in_capture_scope ws cutoff) (pd_captures db) in
      case pe_clickhouse pe i 0 of Some e \<Rightarrow> (fail e, db) | None \<Rightarrow>
     (case pe_clickhouse pe i 1 of Some e \<Rightarrow> (fail e, db) | None \<Rightarrow>
     (let db' = db\<lparr>pd_captures := filter (\<lambda>c. \<not> in_capture_scope ws cutoff c) (pd_captures db)\<rparr> in
      case pe_clickhouse pe i 2 of Some e \<Rightarrow> (fail e, db') | None \<Rightarrow>
     (let (oldest, newest) = (if stats = [] then (None, None)
            else (unix_to_utc (Min (capture_row.cr_created_at ` set stats)), unix_to_utc (Max (capture_row.cr_created_at ` set stats))))
      in (\<lparr>pu_scope = scope_content_captures, pu_ws = Some ws, pu_cutoff = cutoff,
           pu_rows_deleted = i64_of_u64 (length stats), pu_oldest_deleted = oldest, pu_newest_deleted = newest,
           pu_rows_remaining = i64_of_u64 (length (filter (in_capture_scope ws cutoff) (pd_captures db'))),
           pu_status = ''ok'', pu_error = None, pu_started_at = started_at\<rparr>, db')))))"

text \<open>One round of the sweep: the census, the records so far and the stores.\<close>

type_synonym sweep_state = "sweep_census \<times> purge_record list \<times> purge_db"

definition capture_round :: "purge_env \<Rightarrow> nat \<times> uuid \<Rightarrow> sweep_state \<Rightarrow> sweep_state" where
  "capture_round pe iw st =
     (let (i, ws) = iw; (census, records, db) = st in
      case read_capture_retention pe (pe_settings pe i) ws db of
        Inr None \<Rightarrow> (census, records, db)
      | Inr (Some retention_days) \<Rightarrow>
          (let (record, db') = purge_one_workspace_captures pe i ws retention_days db
           in (census\<lparr>ce_swept := ce_swept census + 1\<rparr>, records @ [record], db'))
      | Inl e \<Rightarrow> (census\<lparr>ce_unreadable := ce_unreadable census + 1\<rparr>,
          records @ [purge_failure scope_content_captures (Some ws) (pe_now pe) (pe_started pe 1) e], db))"

definition purge_content_captures :: "purge_env \<Rightarrow> purge_db \<Rightarrow> purge_record list \<times> purge_db" where
  "purge_content_captures pe db =
     (let now = pe_now pe; started_at = pe_started pe 1 in
      case enumerate_workspaces (pe_enumerate pe 0) (pe_policed pe) (pd_workspaces db) of
        Inl e \<Rightarrow> ([census_record (census_new scope_content_captures captures_consequence) now started_at
                   (Some (sqlx_to_string pe e))], db)
      | Inr workspaces \<Rightarrow>
          (let census = (census_new scope_content_captures captures_consequence)\<lparr>ce_enumerated := length workspaces\<rparr>;
               (census', records, db') = fold (capture_round pe) (enumerate 0 workspaces) (census, [], db)
           in (records @ [census_record census' now started_at None], db')))"

section \<open>Device context of ended sessions\<close>

definition holds_context :: "refresh_row \<Rightarrow> bool" where
  "holds_context r = (rt_client_ip r \<noteq> None \<or> rt_client_descriptor r \<noteq> None)"

definition session_live :: "int \<Rightarrow> refresh_row list \<Rightarrow> refresh_row \<Rightarrow> bool" where
  "session_live now tbl r = (\<exists>live \<in> set tbl. rt_session live = rt_session r \<and> rt_ws live = rt_ws r \<and>
     rt_revoked_at live = None \<and> rt_expires_at live > now)"

definition to_scrub :: "int \<Rightarrow> uuid \<Rightarrow> refresh_row list \<Rightarrow> refresh_row \<Rightarrow> bool" where
  "to_scrub now ws tbl r = (rt_ws r = ws \<and> holds_context r \<and> \<not> session_live now tbl r)"

definition erase_context :: "refresh_row \<Rightarrow> refresh_row" where
  "erase_context r = r\<lparr>rt_client_ip := None, rt_client_descriptor := None\<rparr>"

definition scrub_one_workspace_device_context ::
  "purge_env \<Rightarrow> nat \<Rightarrow> uuid \<Rightarrow> purge_db \<Rightarrow> (string, purge_record) result \<times> purge_db" where
  "scrub_one_workspace_device_context pe i ws db =
     (let now = pe_now pe; tbl = pd_refresh db; env = pe_device pe i 0; env' = pe_device pe i 1 in
      case rbind (begin_armed pe env ws device_context_scope_not_armed) (\<lambda>_. rbind (sql env 3) (\<lambda>_. sql env 4)) of
        Inl e \<Rightarrow> (Inl e, db)
      | Inr _ \<Rightarrow>
     (let gone = map rt_created_at (filter (to_scrub now ws tbl) tbl);
          tbl' = map (\<lambda>r. if to_scrub now ws tbl r then erase_context r else r) tbl;
          db' = db\<lparr>pd_refresh := tbl'\<rparr> in
      case rbind (begin_armed pe env' ws device_context_scope_not_armed) (\<lambda>_. rbind (sql env' 3) (\<lambda>_. sql env' 4)) of
        Inl e \<Rightarrow> (Inl e, db')
      | Inr _ \<Rightarrow> (Inr \<lparr>pu_scope = scope_session_device_context, pu_ws = Some ws, pu_cutoff = now,
          pu_rows_deleted = int (length gone), pu_oldest_deleted = list_min gone, pu_newest_deleted = list_max gone,
          pu_rows_remaining = int (length (filter (to_scrub now ws tbl') tbl')), pu_status = ''ok'', pu_error = None,
          pu_started_at = pe_started pe 2\<rparr>, db')))"

definition device_round :: "purge_env \<Rightarrow> nat \<times> uuid \<Rightarrow> sweep_state \<Rightarrow> sweep_state" where
  "device_round pe iw st =
     (let (i, ws) = iw; (census, records, db) = st in
      case scrub_one_workspace_device_context pe i ws db of
        (Inr record, db') \<Rightarrow>
          (census\<lparr>ce_swept := ce_swept census + 1\<rparr>,
           if pu_rows_deleted record > 0 \<or> pu_rows_remaining record > 0 then records @ [record] else records, db')
      | (Inl e, db') \<Rightarrow> (census\<lparr>ce_unreadable := ce_unreadable census + 1\<rparr>,
          records @ [purge_failure scope_session_device_context (Some ws) (pe_now pe) (pe_started pe 2) e], db'))"

definition scrub_session_device_context :: "purge_env \<Rightarrow> purge_db \<Rightarrow> purge_record list \<times> purge_db" where
  "scrub_session_device_context pe db =
     (let now = pe_now pe; started_at = pe_started pe 2 in
      case enumerate_workspaces (pe_enumerate pe 1) (pe_policed pe) (pd_workspaces db) of
        Inl e \<Rightarrow> ([census_record (census_new scope_session_device_context device_context_consequence) now started_at
                   (Some (sqlx_to_string pe e))], db)
      | Inr workspaces \<Rightarrow>
          (let census = (census_new scope_session_device_context device_context_consequence)\<lparr>ce_enumerated := length workspaces\<rparr>;
               (census', records, db') = fold (device_round pe) (enumerate 0 workspaces) (census, [], db)
           in (records @ [census_record census' now started_at None], db')))"

section \<open>Proof of purge\<close>

definition purge_scope_not_armed :: string where
  "purge_scope_not_armed = ''the proof-of-purge transaction could not be scoped to the record's workspace, so '' @
     ''nothing was written''"

definition ns :: "int \<Rightarrow> int" where
  "ns t = t * 1000000000"

definition insert_audit_row :: "db_env \<Rightarrow> nat \<Rightarrow> uuid \<Rightarrow> purge_record \<Rightarrow> purge_row list \<Rightarrow> (string, purge_row list) result" where
  "insert_audit_row env k run_id r tbl = rbind (sql env k) (\<lambda>_. Inr (tbl @
     [\<lparr>pg_id = fresh_uuid env k, pg_run_id = run_id, pg_scope = pu_scope r, pg_ws = pu_ws r, pg_cutoff = ns (pu_cutoff r),
       pg_rows_deleted = pu_rows_deleted r, pg_oldest_deleted = map_option ns (pu_oldest_deleted r),
       pg_newest_deleted = map_option ns (pu_newest_deleted r), pg_rows_remaining = pu_rows_remaining r,
       pg_status = pu_status r, pg_error = pu_error r, pg_started_at = ns (pu_started_at r),
       pg_completed_at = ns (now_ts env)\<rparr>]))"

definition write_audit :: "purge_env \<Rightarrow> db_env \<Rightarrow> purge_record \<Rightarrow> purge_row list \<Rightarrow> (string, purge_row list) result" where
  "write_audit pe env r tbl =
     (case pu_ws r of
        None \<Rightarrow> insert_audit_row env 0 (pe_run_id pe) r tbl
      | Some ws \<Rightarrow>
          rbind (begin_armed pe env ws purge_scope_not_armed) (\<lambda>_.
          rbind (insert_audit_row env 3 (pe_run_id pe) r tbl) (\<lambda>tbl'.
          rbind (sql env 4) (\<lambda>_. Inr tbl'))))"

text \<open>\<open>run\<close>: a record that cannot be written is logged and the run goes on.\<close>

definition audit_one :: "purge_env \<Rightarrow> nat \<times> purge_record \<Rightarrow> purge_row list \<Rightarrow> purge_row list" where
  "audit_one pe ir tbl = (case write_audit pe (pe_audit pe (fst ir)) (snd ir) tbl of Inl _ \<Rightarrow> tbl | Inr tbl' \<Rightarrow> tbl')"

definition purge_run :: "purge_env \<Rightarrow> purge_db \<Rightarrow> purge_outcome \<times> purge_db" where
  "purge_run pe db =
     (let (vault_record, db1) = purge_token_vault pe db;
          (capture_records, db2) = purge_content_captures pe db1;
          (device_records, db3) = scrub_session_device_context pe db2;
          records = vault_record # capture_records @ device_records
      in (\<lparr>po_run_id = pe_run_id pe, po_records = records\<rparr>,
          db3\<lparr>pd_audit := fold (audit_one pe) (enumerate 0 records) (pd_audit db3)\<rparr>))"

section \<open>What a run erases\<close>

abbreviation rec_ok :: "purge_record \<Rightarrow> bool" where
  "rec_ok r \<equiv> pu_status r = ''ok''"

text \<open>What is overdue in the three stores.\<close>

definition capture_overdue :: "int \<Rightarrow> purge_db \<Rightarrow> capture_row \<Rightarrow> bool" where
  "capture_overdue now db c = (case md_capture (pd_mode db) (capture_row.cr_workspace_id c) of
     None \<Rightarrow> False | Some row \<Rightarrow> capture_row.cr_created_at c < capture_cutoff now (cs_retention_days row))"

definition context_overdue :: "int \<Rightarrow> purge_db \<Rightarrow> refresh_row \<Rightarrow> bool" where
  "context_overdue now db r = (holds_context r \<and> \<not> session_live now (pd_refresh db) r)"

definition scrub :: "(refresh_row \<Rightarrow> bool) \<Rightarrow> refresh_row list \<Rightarrow> refresh_row list" where
  "scrub e tbl = map (\<lambda>r. if e r then erase_context r else r) tbl"

lemma purge_failure_not_ok [simp]: "\<not> rec_ok (purge_failure s w c t e)"
  by (simp add: purge_failure_def)

lemma purge_token_vault_effect:
  assumes "purge_token_vault pe db = (r, db')"
  obtains keep where "db' = db\<lparr>pd_mode := (pd_mode db)\<lparr>md_vault := filter keep (md_vault (pd_mode db))\<rparr>\<rparr>"
    and "\<And>x. \<not> entry_expired (pe_now pe) x \<Longrightarrow> keep x"
    and "rec_ok r \<Longrightarrow> keep = (\<lambda>x. \<not> entry_expired (pe_now pe) x)"
proof (cases "sql (pe_vault pe) 0")
  case Inl
  with assms show ?thesis by (intro that [of "\<lambda>_. True"]) (auto simp: purge_token_vault_def)
next
  case Inr
  with assms show ?thesis
    by (intro that [of "\<lambda>x. \<not> entry_expired (pe_now pe) x"]) (auto simp: purge_token_vault_def Let_def split: sum.splits)
qed

lemma capture_round_effect:
  assumes "capture_round pe (i, ws) (census, records, db) = (census', records', db')"
  obtains new keep where "records' = records @ new" "db' = db\<lparr>pd_captures := filter keep (pd_captures db)\<rparr>"
    and "\<And>c. \<not> (capture_row.cr_workspace_id c = ws \<and> capture_overdue (pe_now pe) db c) \<Longrightarrow> keep c"
    and "list_all rec_ok new \<Longrightarrow> keep = (\<lambda>c. \<not> (capture_row.cr_workspace_id c = ws \<and> capture_overdue (pe_now pe) db c))"
proof (cases "read_capture_retention pe (pe_settings pe i) ws db")
  case (Inl e)
  with assms show ?thesis by (intro that [of _ "\<lambda>_. True"]) (auto simp: capture_round_def)
next
  case (Inr days)
  then have days: "days = map_option cs_retention_days (md_capture (pd_mode db) ws)"
    by (auto simp: read_capture_retention_def rbind_Inr)
  show ?thesis
  proof (cases "md_capture (pd_mode db) ws")
    case None
    with assms Inr days show ?thesis
      by (intro that [of "[]" "\<lambda>_. True"]) (auto simp: capture_round_def capture_overdue_def split: option.splits)
  next
    case (Some row)
    define scoped where "scoped = in_capture_scope ws (capture_cutoff (pe_now pe) (cs_retention_days row))"
    have sc: "scoped = (\<lambda>c. capture_row.cr_workspace_id c = ws \<and> capture_overdue (pe_now pe) db c)"
      using Some by (auto simp: scoped_def in_capture_scope_def capture_overdue_def)
    obtain r where r: "purge_one_workspace_captures pe i ws (cs_retention_days row) db = (r, db')" "records' = records @ [r]"
      using assms Inr days Some by (auto simp: capture_round_def split: prod.splits)
    then consider "db' = db" "\<not> rec_ok r" | "db' = db\<lparr>pd_captures := filter (\<lambda>c. \<not> scoped c) (pd_captures db)\<rparr>"
      by (auto simp: purge_one_workspace_captures_def Let_def scoped_def split: option.splits prod.splits)
    then show ?thesis
    proof cases
      case 1
      with r show ?thesis by (intro that [of "[r]" "\<lambda>_. True"]) auto
    next
      case 2
      with r show ?thesis by (intro that [of "[r]" "\<lambda>c. \<not> scoped c"]) (auto simp: sc)
    qed
  qed
qed

lemma capture_sweep_effect:
  assumes "fold (capture_round pe) iws (census, records, db) = (census', records', db')"
  shows "\<exists>new keep. records' = records @ new \<and> db' = db\<lparr>pd_captures := filter keep (pd_captures db)\<rparr> \<and>
    (\<forall>c. \<not> (capture_row.cr_workspace_id c \<in> snd ` set iws \<and> capture_overdue (pe_now pe) db c) \<longrightarrow> keep c) \<and>
    (list_all rec_ok new \<longrightarrow>
       keep = (\<lambda>c. \<not> (capture_row.cr_workspace_id c \<in> snd ` set iws \<and> capture_overdue (pe_now pe) db c)))"
  using assms
proof (induction iws arbitrary: census records db)
  case Nil
  then show ?case by (intro exI [of _ "[]"] exI [of _ "\<lambda>_. True"]) auto
next
  case (Cons iw iws)
  obtain i ws where iw: "iw = (i, ws)" by (cases iw)
  obtain census1 records1 db1 where 1: "capture_round pe (i, ws) (census, records, db) = (census1, records1, db1)"
    by (rule prod_cases3)
  obtain new1 keep1 where e1: "records1 = records @ new1" "db1 = db\<lparr>pd_captures := filter keep1 (pd_captures db)\<rparr>"
    "\<And>c. \<not> (capture_row.cr_workspace_id c = ws \<and> capture_overdue (pe_now pe) db c) \<Longrightarrow> keep1 c"
    "list_all rec_ok new1 \<Longrightarrow> keep1 = (\<lambda>c. \<not> (capture_row.cr_workspace_id c = ws \<and> capture_overdue (pe_now pe) db c))"
    using capture_round_effect [OF 1] by blast
  have same: "capture_overdue (pe_now pe) db1 = capture_overdue (pe_now pe) db"
    by (simp add: e1(2) capture_overdue_def fun_eq_iff)
  obtain new keep where e2: "records' = records1 @ new" "db' = db1\<lparr>pd_captures := filter keep (pd_captures db1)\<rparr>"
    "\<And>c. \<not> (capture_row.cr_workspace_id c \<in> snd ` set iws \<and> capture_overdue (pe_now pe) db c) \<Longrightarrow> keep c"
    "list_all rec_ok new \<Longrightarrow>
       keep = (\<lambda>c. \<not> (capture_row.cr_workspace_id c \<in> snd ` set iws \<and> capture_overdue (pe_now pe) db c))"
    using Cons.IH [of census1 records1 db1] Cons.prems 1 unfolding iw same by auto
  show ?case
    by (intro exI [of _ "new1 @ new"] exI [of _ "\<lambda>c. keep1 c \<and> keep c"]) (auto simp: e1 e2 iw)
qed

lemma erase_context_fields [simp]:
  "rt_session (erase_context r) = rt_session r" "rt_ws (erase_context r) = rt_ws r"
  "rt_revoked_at (erase_context r) = rt_revoked_at r" "rt_expires_at (erase_context r) = rt_expires_at r"
  "\<not> holds_context (erase_context r)"
  by (simp_all add: holds_context_def erase_context_def)

lemma session_live_scrub [simp]: "session_live now (scrub e tbl) r = session_live now tbl r"
  unfolding session_live_def scrub_def by (induction tbl) auto

lemma scrub_scrub:
  assumes "\<And>r. e' r \<Longrightarrow> holds_context r"
  shows "scrub e' (scrub e tbl) = scrub (\<lambda>r. e r \<or> e' r) tbl"
proof -
  have "\<not> e' (erase_context r)" for r using assms by fastforce
  then show ?thesis by (auto simp: scrub_def)
qed

lemma scrub_False [simp]: "scrub (\<lambda>_. False) tbl = tbl"
  by (simp add: scrub_def)

lemma device_round_effect:
  assumes "device_round pe (i, ws) (census, records, db) = (census', records', db')"
  obtains new e where "records' = records @ new" "db' = db\<lparr>pd_refresh := scrub e (pd_refresh db)\<rparr>"
    and "\<And>r. e r \<Longrightarrow> rt_ws r = ws \<and> context_overdue (pe_now pe) db r"
    and "list_all rec_ok new \<Longrightarrow> e = (\<lambda>r. rt_ws r = ws \<and> context_overdue (pe_now pe) db r)"
proof -
  have sc: "to_scrub (pe_now pe) ws (pd_refresh db) = (\<lambda>r. rt_ws r = ws \<and> context_overdue (pe_now pe) db r)"
    by (auto simp: to_scrub_def context_overdue_def)
  obtain out where out: "scrub_one_workspace_device_context pe i ws db = (out, db')"
    using assms by (auto simp: device_round_def split: prod.splits sum.splits)
  from out consider e where "out = Inl e" "db' = db"
    | "db' = db\<lparr>pd_refresh := scrub (\<lambda>r. rt_ws r = ws \<and> context_overdue (pe_now pe) db r) (pd_refresh db)\<rparr>"
    by (auto simp: scrub_one_workspace_device_context_def Let_def sc scrub_def split: sum.splits)
  then show ?thesis
  proof cases
    case (1 e)
    with assms out show ?thesis
      by (intro that [of "[purge_failure scope_session_device_context (Some ws) (pe_now pe) (pe_started pe 2) e]" "\<lambda>_. False"])
        (auto simp: device_round_def)
  next
    case 2
    have "\<exists>new. records' = records @ new"
      using assms out by (auto simp: device_round_def split: sum.splits if_splits)
    with 2 show ?thesis using that by blast
  qed
qed

lemma device_sweep_effect:
  assumes "fold (device_round pe) iws (census, records, db) = (census', records', db')"
  shows "\<exists>new e. records' = records @ new \<and> db' = db\<lparr>pd_refresh := scrub e (pd_refresh db)\<rparr> \<and>
    (\<forall>r. e r \<longrightarrow> rt_ws r \<in> snd ` set iws \<and> context_overdue (pe_now pe) db r) \<and>
    (list_all rec_ok new \<longrightarrow> e = (\<lambda>r. rt_ws r \<in> snd ` set iws \<and> context_overdue (pe_now pe) db r))"
  using assms
proof (induction iws arbitrary: census records db)
  case Nil
  then show ?case by (intro exI [of _ "[]"] exI [of _ "\<lambda>_. False"]) auto
next
  case (Cons iw iws)
  obtain i ws where iw: "iw = (i, ws)" by (cases iw)
  obtain census1 records1 db1 where 1: "device_round pe (i, ws) (census, records, db) = (census1, records1, db1)"
    by (rule prod_cases3)
  obtain new1 e1 where e1: "records1 = records @ new1" "db1 = db\<lparr>pd_refresh := scrub e1 (pd_refresh db)\<rparr>"
    "\<And>r. e1 r \<Longrightarrow> rt_ws r = ws \<and> context_overdue (pe_now pe) db r"
    "list_all rec_ok new1 \<Longrightarrow> e1 = (\<lambda>r. rt_ws r = ws \<and> context_overdue (pe_now pe) db r)"
    using device_round_effect [OF 1] by blast
  have same: "context_overdue (pe_now pe) db1 = context_overdue (pe_now pe) db"
    by (simp add: e1(2) context_overdue_def fun_eq_iff)
  obtain new e where e2: "records' = records1 @ new" "db' = db1\<lparr>pd_refresh := scrub e (pd_refresh db1)\<rparr>"
    "\<And>r. e r \<Longrightarrow> rt_ws r \<in> snd ` set iws \<and> context_overdue (pe_now pe) db r"
    "list_all rec_ok new \<Longrightarrow> e = (\<lambda>r. rt_ws r \<in> snd ` set iws \<and> context_overdue (pe_now pe) db r)"
    using Cons.IH [of census1 records1 db1] Cons.prems 1 unfolding iw same by auto
  have "scrub e (scrub e1 (pd_refresh db)) = scrub (\<lambda>r. e1 r \<or> e r) (pd_refresh db)"
    using e2(3) by (intro scrub_scrub) (auto simp: context_overdue_def)
  then have "db' = db\<lparr>pd_refresh := scrub (\<lambda>r. e1 r \<or> e r) (pd_refresh db)\<rparr>"
    by (simp add: e1(2) e2(2))
  moreover have "rt_ws r \<in> snd ` set (iw # iws) \<and> context_overdue (pe_now pe) db r" if "e1 r \<or> e r" for r
    using that e1(3) e2(3) by (auto simp: iw)
  moreover have "(\<lambda>r. e1 r \<or> e r) = (\<lambda>r. rt_ws r \<in> snd ` set (iw # iws) \<and> context_overdue (pe_now pe) db r)"
    if "list_all rec_ok (new1 @ new)"
    using that e1(4) e2(4) by (auto simp: iw)
  ultimately show ?case
    using e1(1) e2(1) by (intro exI [of _ "new1 @ new"] exI [of _ "\<lambda>r. e1 r \<or> e r"]) simp
qed

lemma enumerate_workspaces_Inr: "enumerate_workspaces env policed wss = Inr wss' \<Longrightarrow> wss' = wss"
  by (auto simp: enumerate_workspaces_def rbind_Inr split: if_splits)

lemma census_failure_not_ok [simp]: "\<not> rec_ok (census_record census now t (Some e))"
  by (simp add: census_record_def)

lemma snd_enumerate [simp]: "snd ` set (enumerate n xs) = set xs"
  by (metis list.set_map map_snd_enumerate)

lemma purge_content_captures_effect:
  assumes "purge_content_captures pe db = (records, db')"
  obtains keep where "db' = db\<lparr>pd_captures := filter keep (pd_captures db)\<rparr>"
    and "\<And>c. \<not> (capture_row.cr_workspace_id c \<in> set (pd_workspaces db) \<and> capture_overdue (pe_now pe) db c) \<Longrightarrow> keep c"
    and "list_all rec_ok records \<Longrightarrow>
      keep = (\<lambda>c. \<not> (capture_row.cr_workspace_id c \<in> set (pd_workspaces db) \<and> capture_overdue (pe_now pe) db c))"
proof (cases "enumerate_workspaces (pe_enumerate pe 0) (pe_policed pe) (pd_workspaces db)")
  case (Inl e)
  with assms show ?thesis by (intro that [of "\<lambda>_. True"]) (auto simp: purge_content_captures_def)
next
  case (Inr wss)
  let ?c = "(census_new scope_content_captures captures_consequence)\<lparr>ce_enumerated := length wss\<rparr>"
  obtain census' records' where
    f: "fold (capture_round pe) (enumerate 0 (pd_workspaces db)) (?c, [], db) = (census', records', db')"
    and r: "records = records' @ [census_record census' (pe_now pe) (pe_started pe 1) None]"
    using assms Inr enumerate_workspaces_Inr [OF Inr]
    by (auto simp: purge_content_captures_def Let_def split: prod.splits)
  from capture_sweep_effect [OF f] r show ?thesis using that by auto
qed

lemma scrub_session_device_context_effect:
  assumes "scrub_session_device_context pe db = (records, db')"
  obtains e where "db' = db\<lparr>pd_refresh := scrub e (pd_refresh db)\<rparr>"
    and "\<And>r. e r \<Longrightarrow> rt_ws r \<in> set (pd_workspaces db) \<and> context_overdue (pe_now pe) db r"
    and "list_all rec_ok records \<Longrightarrow> e = (\<lambda>r. rt_ws r \<in> set (pd_workspaces db) \<and> context_overdue (pe_now pe) db r)"
proof (cases "enumerate_workspaces (pe_enumerate pe 1) (pe_policed pe) (pd_workspaces db)")
  case (Inl e)
  with assms show ?thesis by (intro that [of "\<lambda>_. False"]) (auto simp: scrub_session_device_context_def)
next
  case (Inr wss)
  let ?c = "(census_new scope_session_device_context device_context_consequence)\<lparr>ce_enumerated := length wss\<rparr>"
  obtain census' records' where
    f: "fold (device_round pe) (enumerate 0 (pd_workspaces db)) (?c, [], db) = (census', records', db')"
    and r: "records = records' @ [census_record census' (pe_now pe) (pe_started pe 2) None]"
    using assms Inr enumerate_workspaces_Inr [OF Inr]
    by (auto simp: scrub_session_device_context_def Let_def split: prod.splits)
  from device_sweep_effect [OF f] r show ?thesis using that by auto
qed

text \<open>The whole run: what each store keeps, and what it keeps when every record is ok.\<close>

lemma purge_run_effect:
  assumes "purge_run pe db = (oc, db')"
  obtains keepv keepc e where "md_vault (pd_mode db') = filter keepv (md_vault (pd_mode db))"
    and "pd_captures db' = filter keepc (pd_captures db)" "pd_refresh db' = scrub e (pd_refresh db)"
    and "\<And>x. \<not> entry_expired (pe_now pe) x \<Longrightarrow> keepv x"
    and "\<And>c. \<not> (capture_row.cr_workspace_id c \<in> set (pd_workspaces db) \<and> capture_overdue (pe_now pe) db c) \<Longrightarrow> keepc c"
    and "\<And>r. e r \<Longrightarrow> rt_ws r \<in> set (pd_workspaces db) \<and> context_overdue (pe_now pe) db r"
    and "purge_all_ok oc \<Longrightarrow> keepv = (\<lambda>x. \<not> entry_expired (pe_now pe) x) \<and>
      keepc = (\<lambda>c. \<not> (capture_row.cr_workspace_id c \<in> set (pd_workspaces db) \<and> capture_overdue (pe_now pe) db c)) \<and>
      e = (\<lambda>r. rt_ws r \<in> set (pd_workspaces db) \<and> context_overdue (pe_now pe) db r)"
proof -
  obtain rv db1 where v: "purge_token_vault pe db = (rv, db1)" by fastforce
  obtain rc db2 where c: "purge_content_captures pe db1 = (rc, db2)" by fastforce
  obtain rd db3 where d: "scrub_session_device_context pe db2 = (rd, db3)" by fastforce
  have oc: "purge_all_ok oc \<longleftrightarrow> rec_ok rv \<and> list_all rec_ok rc \<and> list_all rec_ok rd"
    and db': "pd_mode db' = pd_mode db3" "pd_captures db' = pd_captures db3" "pd_refresh db' = pd_refresh db3"
    using assms by (auto simp: purge_run_def v c d purge_all_ok_def)
  obtain keepv where v': "db1 = db\<lparr>pd_mode := (pd_mode db)\<lparr>md_vault := filter keepv (md_vault (pd_mode db))\<rparr>\<rparr>"
    "\<And>x. \<not> entry_expired (pe_now pe) x \<Longrightarrow> keepv x" "rec_ok rv \<Longrightarrow> keepv = (\<lambda>x. \<not> entry_expired (pe_now pe) x)"
    using purge_token_vault_effect [OF v] by blast
  have o1: "capture_overdue (pe_now pe) db1 = capture_overdue (pe_now pe) db" "pd_workspaces db1 = pd_workspaces db"
    by (simp_all add: v'(1) capture_overdue_def fun_eq_iff)
  obtain keepc where c': "db2 = db1\<lparr>pd_captures := filter keepc (pd_captures db1)\<rparr>"
    "\<And>c. \<not> (capture_row.cr_workspace_id c \<in> set (pd_workspaces db) \<and> capture_overdue (pe_now pe) db c) \<Longrightarrow> keepc c"
    "list_all rec_ok rc \<Longrightarrow>
      keepc = (\<lambda>c. \<not> (capture_row.cr_workspace_id c \<in> set (pd_workspaces db) \<and> capture_overdue (pe_now pe) db c))"
    using purge_content_captures_effect [OF c] unfolding o1 by blast
  have o2: "context_overdue (pe_now pe) db2 = context_overdue (pe_now pe) db" "pd_workspaces db2 = pd_workspaces db"
    by (simp_all add: v'(1) c'(1) context_overdue_def fun_eq_iff)
  obtain e where d': "db3 = db2\<lparr>pd_refresh := scrub e (pd_refresh db2)\<rparr>"
    "\<And>r. e r \<Longrightarrow> rt_ws r \<in> set (pd_workspaces db) \<and> context_overdue (pe_now pe) db r"
    "list_all rec_ok rd \<Longrightarrow> e = (\<lambda>r. rt_ws r \<in> set (pd_workspaces db) \<and> context_overdue (pe_now pe) db r)"
    using scrub_session_device_context_effect [OF d] unfolding o2 by blast
  show ?thesis
  proof (rule that [of keepv keepc e])
    show "md_vault (pd_mode db') = filter keepv (md_vault (pd_mode db))" "pd_captures db' = filter keepc (pd_captures db)"
      "pd_refresh db' = scrub e (pd_refresh db)"
      by (simp_all add: db' v'(1) c'(1) d'(1))
  qed (use oc v'(2,3) c'(2,3) d'(2,3) in blast)+
qed

text \<open>
  C12. A purge that reports ok erased exactly what was overdue. When every record of the run is ok, the token
  vault keeps exactly the entries that have not expired; of the captured content of the enumerated workspaces
  it keeps exactly the rows of those without a retention setting and the rows younger than their workspace's
  retention; and their refresh tokens lose the address and device exactly on sessions without a live token,
  all else in them being as before.
\<close>

theorem purge_run_erases_exactly_overdue:
  assumes "purge_run pe db = (oc, db')" "purge_all_ok oc"
  shows "md_vault (pd_mode db') = filter (\<lambda>x. tv_expires_at x > pe_now pe) (md_vault (pd_mode db)) \<and>
    pd_captures db' = filter (\<lambda>c. capture_row.cr_workspace_id c \<notin> set (pd_workspaces db) \<or>
      (case md_capture (pd_mode db) (capture_row.cr_workspace_id c) of
         None \<Rightarrow> True
       | Some row \<Rightarrow> pe_now pe - cs_retention_days row * 86400 \<le> capture_row.cr_created_at c)) (pd_captures db) \<and>
    pd_refresh db' = map (\<lambda>r. if rt_ws r \<notin> set (pd_workspaces db) \<or> session_live (pe_now pe) (pd_refresh db) r then r
      else r\<lparr>rt_client_ip := None, rt_client_descriptor := None\<rparr>) (pd_refresh db)"
proof (rule purge_run_effect [OF assms(1)])
  fix keepv keepc e
  assume st: "md_vault (pd_mode db') = filter keepv (md_vault (pd_mode db))"
    "pd_captures db' = filter keepc (pd_captures db)" "pd_refresh db' = scrub e (pd_refresh db)"
    and ok: "purge_all_ok oc \<Longrightarrow> keepv = (\<lambda>x. \<not> entry_expired (pe_now pe) x) \<and>
      keepc = (\<lambda>c. \<not> (capture_row.cr_workspace_id c \<in> set (pd_workspaces db) \<and> capture_overdue (pe_now pe) db c)) \<and>
      e = (\<lambda>r. rt_ws r \<in> set (pd_workspaces db) \<and> context_overdue (pe_now pe) db r)"
  note eqs = ok [OF assms(2)]
  have v: "keepv = (\<lambda>x. tv_expires_at x > pe_now pe)" using eqs by (auto simp: entry_expired_def fun_eq_iff)
  have c: "keepc = (\<lambda>c. capture_row.cr_workspace_id c \<notin> set (pd_workspaces db) \<or>
      (case md_capture (pd_mode db) (capture_row.cr_workspace_id c) of
         None \<Rightarrow> True
       | Some row \<Rightarrow> pe_now pe - cs_retention_days row * 86400 \<le> capture_row.cr_created_at c))"
    using eqs by (auto simp: capture_overdue_def capture_cutoff_def fun_eq_iff split: option.splits)
  have d: "scrub e (pd_refresh db) =
      map (\<lambda>r. if rt_ws r \<notin> set (pd_workspaces db) \<or> session_live (pe_now pe) (pd_refresh db) r then r
      else r\<lparr>rt_client_ip := None, rt_client_descriptor := None\<rparr>) (pd_refresh db)"
    unfolding scrub_def using eqs
    by (intro map_cong) (auto simp: context_overdue_def holds_context_def erase_context_def)
  show ?thesis using st v c d by simp
qed

text \<open>
  Whatever fails on the way, a run never erases what is not overdue: every unexpired vault entry, every capture
  younger than its workspace's retention and every token of a live session is there afterwards, and nothing
  is added.
\<close>

theorem purge_run_keeps_the_rest:
  assumes "purge_run pe db = (oc, db')"
  shows "x \<in> set (md_vault (pd_mode db)) \<Longrightarrow> tv_expires_at x > pe_now pe \<Longrightarrow> x \<in> set (md_vault (pd_mode db'))"
    and "c \<in> set (pd_captures db) \<Longrightarrow> \<not> capture_overdue (pe_now pe) db c \<Longrightarrow> c \<in> set (pd_captures db')"
    and "r \<in> set (pd_refresh db) \<Longrightarrow> session_live (pe_now pe) (pd_refresh db) r \<Longrightarrow> r \<in> set (pd_refresh db')"
    and "set (md_vault (pd_mode db')) \<subseteq> set (md_vault (pd_mode db))" "set (pd_captures db') \<subseteq> set (pd_captures db)"
    and "length (pd_refresh db') = length (pd_refresh db)"
proof -
  obtain keepv keepc e where st: "md_vault (pd_mode db') = filter keepv (md_vault (pd_mode db))"
    "pd_captures db' = filter keepc (pd_captures db)" "pd_refresh db' = scrub e (pd_refresh db)"
    and k: "\<And>x. \<not> entry_expired (pe_now pe) x \<Longrightarrow> keepv x"
    "\<And>c. \<not> (capture_row.cr_workspace_id c \<in> set (pd_workspaces db) \<and> capture_overdue (pe_now pe) db c) \<Longrightarrow> keepc c"
    "\<And>r. e r \<Longrightarrow> rt_ws r \<in> set (pd_workspaces db) \<and> context_overdue (pe_now pe) db r"
    by (rule purge_run_effect [OF assms]) blast
  show "x \<in> set (md_vault (pd_mode db)) \<Longrightarrow> tv_expires_at x > pe_now pe \<Longrightarrow> x \<in> set (md_vault (pd_mode db'))"
    using k(1) by (simp add: st entry_expired_def)
  show "c \<in> set (pd_captures db) \<Longrightarrow> \<not> capture_overdue (pe_now pe) db c \<Longrightarrow> c \<in> set (pd_captures db')"
    using k(2) by (simp add: st)
  show "r \<in> set (pd_refresh db) \<Longrightarrow> session_live (pe_now pe) (pd_refresh db) r \<Longrightarrow> r \<in> set (pd_refresh db')"
    using k(3) by (fastforce simp: st scrub_def context_overdue_def)
  show "set (md_vault (pd_mode db')) \<subseteq> set (md_vault (pd_mode db))" "set (pd_captures db') \<subseteq> set (pd_captures db)"
    "length (pd_refresh db') = length (pd_refresh db)"
    by (auto simp: st scrub_def)
qed

text \<open>Erasing expired entries is invisible to readers of the vault: from the cutoff on they were not found anyway.\<close>

lemma purged_entry_was_unreadable:
  assumes "purge_run pe db = (oc, db')" "pe_now pe \<le> now_ts env"
  shows "get_vault_entry ve env vid ws (pd_mode db') = get_vault_entry ve env vid ws (pd_mode db)"
proof -
  obtain keepv where v: "md_vault (pd_mode db') = filter keepv (md_vault (pd_mode db))"
    and k: "\<And>x. \<not> entry_expired (pe_now pe) x \<Longrightarrow> keepv x"
    by (rule purge_run_effect [OF assms(1)]) blast
  have "find (\<lambda>r. tv_id r = vid \<and> tv_ws r = ws \<and> tv_expires_at r > now_ts env) (filter keepv tbl) =
      find (\<lambda>r. tv_id r = vid \<and> tv_ws r = ws \<and> tv_expires_at r > now_ts env) tbl" for tbl
    using k assms(2) by (induction tbl) (fastforce simp: entry_expired_def)+
  then show ?thesis by (simp add: get_vault_entry_def v)
qed

text \<open>The proof of purge: when no audit statement fails, every record of the run is a row of the audit table.\<close>

lemma audit_one_row:
  assumes "\<forall>k. stmt_err (pe_audit pe (fst ir)) k = None" "readback (pe_audit pe (fst ir)) = Some"
  obtains row where "audit_one pe ir tbl = tbl @ [row]" "pg_run_id row = pe_run_id pe" "pg_scope row = pu_scope (snd ir)"
    and "pg_ws row = pu_ws (snd ir)" "pg_status row = pu_status (snd ir)" "pg_rows_deleted row = pu_rows_deleted (snd ir)"
proof -
  have s: "sql (pe_audit pe (fst ir)) k = Inr ()" for k using assms(1) by (simp add: sql_def)
  show ?thesis
    by (cases "pu_ws (snd ir)"; rule that)
      (auto simp: audit_one_def write_audit_def insert_audit_row_def begin_armed_def s assms(2))
qed

lemma audit_all_rows:
  assumes "\<forall>i k. stmt_err (pe_audit pe i) k = None" "\<forall>i. readback (pe_audit pe i) = Some"
  shows "\<exists>rows. fold (audit_one pe) irs tbl = tbl @ rows \<and> (\<forall>row \<in> set rows. pg_run_id row = pe_run_id pe) \<and>
    map (\<lambda>row. (pg_scope row, pg_ws row, pg_status row, pg_rows_deleted row)) rows =
    map (\<lambda>r. (pu_scope r, pu_ws r, pu_status r, pu_rows_deleted r)) (map snd irs)"
proof (induction irs arbitrary: tbl)
  case Nil
  then show ?case by simp
next
  case (Cons ir irs)
  obtain row where row: "audit_one pe ir tbl = tbl @ [row]" "pg_run_id row = pe_run_id pe" "pg_scope row = pu_scope (snd ir)"
    "pg_ws row = pu_ws (snd ir)" "pg_status row = pu_status (snd ir)" "pg_rows_deleted row = pu_rows_deleted (snd ir)"
    using audit_one_row [of pe ir] assms by metis
  obtain rows where "fold (audit_one pe) irs (tbl @ [row]) = (tbl @ [row]) @ rows" "\<forall>row \<in> set rows. pg_run_id row = pe_run_id pe"
    "map (\<lambda>row. (pg_scope row, pg_ws row, pg_status row, pg_rows_deleted row)) rows =
     map (\<lambda>r. (pu_scope r, pu_ws r, pu_status r, pu_rows_deleted r)) (map snd irs)"
    using Cons.IH [of "tbl @ [row]"] by blast
  with row show ?case by (intro exI [of _ "row # rows"]) auto
qed

lemma round_scope:
  "ce_scope (fst (capture_round pe iw st)) = ce_scope (fst st)" "ce_scope (fst (device_round pe iw st)) = ce_scope (fst st)"
  by (auto simp: capture_round_def device_round_def Let_def split: prod.splits sum.splits option.splits)

lemma sweep_scope:
  "ce_scope (fst (fold (capture_round pe) iws st)) = ce_scope (fst st)"
  "ce_scope (fst (fold (device_round pe) iws st)) = ce_scope (fst st)"
  by (induction iws arbitrary: st) (simp_all add: round_scope)

lemma census_record_scope [simp]: "pu_scope (census_record census now t e) = ce_scope census"
  by (simp add: census_record_def purge_failure_def split: option.splits)

lemma captures_scope_reported: "scope_content_captures \<in> pu_scope ` set (fst (purge_content_captures pe db))"
proof (cases "enumerate_workspaces (pe_enumerate pe 0) (pe_policed pe) (pd_workspaces db)")
  case (Inr wss)
  let ?st = "((census_new scope_content_captures captures_consequence)\<lparr>ce_enumerated := length wss\<rparr>, [], db)"
  from sweep_scope(1) [of pe "enumerate 0 wss" ?st] Inr show ?thesis
    by (auto simp: purge_content_captures_def Let_def census_new_def split: prod.splits)
qed (simp add: purge_content_captures_def census_new_def)

lemma device_scope_reported: "scope_session_device_context \<in> pu_scope ` set (fst (scrub_session_device_context pe db))"
proof (cases "enumerate_workspaces (pe_enumerate pe 1) (pe_policed pe) (pd_workspaces db)")
  case (Inr wss)
  let ?st = "((census_new scope_session_device_context device_context_consequence)\<lparr>ce_enumerated := length wss\<rparr>, [], db)"
  from sweep_scope(2) [of pe "enumerate 0 wss" ?st] Inr show ?thesis
    by (auto simp: scrub_session_device_context_def Let_def census_new_def split: prod.splits)
qed (simp add: scrub_session_device_context_def census_new_def)

theorem purge_run_is_recorded:
  assumes "purge_run pe db = (oc, db')"
    and "\<forall>i k. stmt_err (pe_audit pe i) k = None" "\<forall>i. readback (pe_audit pe i) = Some"
  shows "\<exists>rows. pd_audit db' = pd_audit db @ rows \<and> (\<forall>row \<in> set rows. pg_run_id row = pe_run_id pe) \<and>
      map (\<lambda>row. (pg_scope row, pg_ws row, pg_status row, pg_rows_deleted row)) rows =
      map (\<lambda>r. (pu_scope r, pu_ws r, pu_status r, pu_rows_deleted r)) (po_records oc)"
    and "{scope_token_vault, scope_content_captures, scope_session_device_context} \<subseteq> pu_scope ` set (po_records oc)"
proof -
  obtain rv db1 where v: "purge_token_vault pe db = (rv, db1)" by fastforce
  obtain rc db2 where c: "purge_content_captures pe db1 = (rc, db2)" by fastforce
  obtain rd db3 where d: "scrub_session_device_context pe db2 = (rd, db3)" by fastforce
  have oc: "po_records oc = rv # rc @ rd"
    and db': "pd_audit db' = fold (audit_one pe) (enumerate 0 (po_records oc)) (pd_audit db3)"
    using assms(1) by (auto simp: purge_run_def v c d)
  have "pd_audit db1 = pd_audit db" by (rule purge_token_vault_effect [OF v]) simp
  moreover have "pd_audit db2 = pd_audit db1" by (rule purge_content_captures_effect [OF c]) simp
  moreover have "pd_audit db3 = pd_audit db2" by (rule scrub_session_device_context_effect [OF d]) simp
  ultimately have aud: "pd_audit db3 = pd_audit db" by simp
  show "\<exists>rows. pd_audit db' = pd_audit db @ rows \<and> (\<forall>row \<in> set rows. pg_run_id row = pe_run_id pe) \<and>
      map (\<lambda>row. (pg_scope row, pg_ws row, pg_status row, pg_rows_deleted row)) rows =
      map (\<lambda>r. (pu_scope r, pu_ws r, pu_status r, pu_rows_deleted r)) (po_records oc)"
    using audit_all_rows [OF assms(2,3), of "enumerate 0 (po_records oc)" "pd_audit db3"] unfolding db' map_snd_enumerate aud
    by blast
  have "pu_scope rv = scope_token_vault"
    using v by (auto simp: purge_token_vault_def Let_def purge_failure_def split: sum.splits)
  moreover have "scope_content_captures \<in> pu_scope ` set rc" using captures_scope_reported [of pe db1] by (simp add: c)
  moreover have "scope_session_device_context \<in> pu_scope ` set rd" using device_scope_reported [of pe db2] by (simp add: d)
  ultimately show "{scope_token_vault, scope_content_captures, scope_session_device_context} \<subseteq> pu_scope ` set (po_records oc)"
    by (auto simp: oc)
qed

text \<open>A run over one workspace with a thirty-day retention.\<close>

definition demo_purge_env :: purge_env where
  "demo_purge_env = (let e = me_env demo_mode_env 0 in
     \<lparr>pe_run_id = 9, pe_now = 3000000, pe_started = (\<lambda>_. 3000000), pe_vault = e, pe_enumerate = (\<lambda>_. e), pe_policed = False,
      pe_settings = (\<lambda>_. e), pe_clickhouse = (\<lambda>_ _. None), pe_device = (\<lambda>_ _. e), pe_audit = (\<lambda>_. e), pe_protocol = (\<lambda>s. s)\<rparr>)"

definition demo_capture :: "int \<Rightarrow> capture_row" where
  "demo_capture t = \<lparr>cr_request_id = 1, cr_workspace_id = 2, cr_created_at = t, cr_expires_at = 0, cr_encrypted = True,
     cr_raw_prompt = None, cr_raw_response = None, cr_restored_response = None\<rparr>"

definition demo_token :: "uuid \<Rightarrow> int \<Rightarrow> refresh_row" where
  "demo_token sid expires = \<lparr>rt_id = sid, rt_user = 3, rt_ws = 2, rt_hash = ''h'', rt_expires_at = expires, rt_revoked_at = None,
     rt_replaced_by = None, rt_created_at = 0, rt_session = sid, rt_access_jti = None, rt_client_ip = Some ''10.0.0.1'',
     rt_client_descriptor = None\<rparr>"

definition demo_purge_db :: purge_db where
  "demo_purge_db = \<lparr>pd_mode = demo_mode_db\<lparr>md_capture := [2 \<mapsto> \<lparr>cs_enabled = True, cs_retention_days = 30, cs_updated_at = 0,
       cs_updated_by = None\<rparr>]\<rparr>, pd_refresh = [demo_token 5 2000000, demo_token 6 4000000],
     pd_captures = [demo_capture 100, demo_capture 2900000], pd_audit = [], pd_workspaces = [2]\<rparr>"

theorem purge_run_erases_exactly_overdue_witness:
  "pd_captures (snd (purge_run demo_purge_env demo_purge_db)) = [demo_capture 2900000] \<and>
   map rt_client_ip (pd_refresh (snd (purge_run demo_purge_env demo_purge_db))) = [None, Some ''10.0.0.1'']"
proof -
  have "\<exists>oc db'. purge_run demo_purge_env demo_purge_db = (oc, db')" by (metis surj_pair)
  then obtain oc db' where run: "purge_run demo_purge_env demo_purge_db = (oc, db')" by blast
  have sql: "sql (me_env demo_mode_env 0) k = Inr ()" for k by (simp add: sql_def demo_mode_env_def)
  have arm: "begin_armed pe (me_env demo_mode_env 0) ws m = Inr ()" for pe ws m
    by (simp add: begin_armed_def sql) (simp add: demo_mode_env_def)
  have en: "enumerate_workspaces (me_env demo_mode_env 0) False wss = Inr wss" for wss
    by (simp add: enumerate_workspaces_def stmt_def demo_mode_env_def)
  have "purge_all_ok (fst (purge_run demo_purge_env demo_purge_db))"
    by (simp add: purge_run_def purge_all_ok_def demo_purge_env_def Let_def purge_token_vault_def sql arm en demo_purge_db_def
        purge_content_captures_def capture_round_def read_capture_retention_def purge_one_workspace_captures_def
        scrub_session_device_context_def device_round_def scrub_one_workspace_device_context_def census_record_def census_new_def
        split_beta)
  with run have ok: "purge_all_ok oc" by simp
  show ?thesis
    using purge_run_erases_exactly_overdue [OF run ok] run
    by (simp add: demo_purge_db_def demo_purge_env_def demo_capture_def demo_token_def demo_mode_db_def session_live_def Let_def)
qed

end
