(* ===== verification/Ml_Client.thy ===== *)
theory Ml_Client
  imports Sidecar Provider_Http
begin

text \<open>
  The client of the ML sidecar (\<open>ml_sidecar/client.rs\<close>): the circuit breaker, the tiling of a prompt into chunks
  the sidecar accepts, the detection loop with its time budget, the injection and rule checks, the licence key
  push and the file-scan proxy.

  The HTTP client is a parameter: a call fails to be sent, or answers with a status and a body that parses or
  does not. Clock readings are parameters too. The breaker is shared by all requests through atomics; what other
  requests do to it between two steps of a call is an arbitrary function of the environment.
\<close>

section \<open>Wire types\<close>

record ner_entity =
  ne_entity_type :: string
  ne_start :: nat
  ne_end :: nat
  ne_score :: rat
  ne_text :: string
  ne_compliance :: "string list"

record ml_detection =
  mld_class :: string
  mld_confidence :: rat
  mld_span :: "(nat \<times> nat) option"
  mld_value :: string
  mld_compliance :: "string list"

record injection_response =
  ir_is_injection :: bool
  ir_score :: rat

record rag_check_match =
  rg_rule_id :: string
  rg_score :: rat

record rag_check_response =
  rr_matches :: "rag_check_match list"
  rr_is_match :: bool

text \<open>The answer to a request: not sent, or a status with the parsed body if it parses.\<close>

datatype 'a reply = SendError string | Reply nat "'a option"

section \<open>The circuit breaker\<close>

definition failure_threshold :: "32 word" where
  "failure_threshold = 5"

definition open_duration_secs :: nat where
  "open_duration_secs = 30"

record circuit =
  cb_failures :: "32 word"
  cb_open_since :: nat

definition circuit_new :: circuit where
  "circuit_new = \<lparr>cb_failures = 0, cb_open_since = 0\<rparr>"

definition is_open :: "nat \<Rightarrow> circuit \<Rightarrow> bool \<times> circuit" where
  "is_open now c =
     (if cb_open_since c = 0 then (False, c)
      else if now - cb_open_since c \<ge> open_duration_secs then (False, c\<lparr>cb_open_since := 0, cb_failures := 0\<rparr>)
      else (True, c))"

definition record_success :: "circuit \<Rightarrow> circuit" where
  "record_success c = c\<lparr>cb_failures := 0, cb_open_since := 0\<rparr>"

definition record_failure :: "nat \<Rightarrow> circuit \<Rightarrow> bool \<times> circuit" where
  "record_failure now c =
     (let prev = cb_failures c; c1 = c\<lparr>cb_failures := prev + 1\<rparr> in
      if prev + 1 = failure_threshold then (True, c1\<lparr>cb_open_since := now\<rparr>) else (False, c1))"

section \<open>The client\<close>

definition default_ner_chunk_chars :: nat where
  "default_ner_chunk_chars = 24000"

definition default_ner_total_budget_ms :: nat where
  "default_ner_total_budget_ms = 30000"

definition default_scan_timeout_ms :: nat where
  "default_scan_timeout_ms = 120000"

record ml_client =
  cl_base_url :: string
  cl_enabled :: bool
  cl_http :: bool
  cl_ner_chunk_chars :: nat
  cl_ner_total_budget :: nat
  cl_token :: string

text \<open>What the calls change: the breaker and the counters.\<close>

record ml_state =
  ms_circuit :: circuit
  ms_calls :: "64 word"
  ms_failures :: "64 word"
  ms_opened :: "64 word"
  ms_saturated :: "64 word"

text \<open>\<open>new\<close>, with the values of \<open>ML_NER_CHUNK_CHARS\<close> and \<open>ML_NER_TOTAL_BUDGET_MS\<close>.\<close>

definition ml_client_new :: "string \<Rightarrow> nat \<Rightarrow> string option \<Rightarrow> string option \<Rightarrow> ml_client" where
  "ml_client_new base_url timeout_ms chunk_var budget_var =
     (let enabled = (base_url \<noteq> [] \<and> (prefix ''http://'' base_url \<or> prefix ''https://'' base_url)) in
      \<lparr>cl_base_url = base_url, cl_enabled = enabled, cl_http = enabled,
       cl_ner_chunk_chars = unwrap_or default_ner_chunk_chars
         (Option.bind chunk_var (\<lambda>v. Option.bind (parse_u64 v) (\<lambda>n. if 0 < n then Some n else None))),
       cl_ner_total_budget = max (unwrap_or default_ner_total_budget_ms (Option.bind budget_var parse_u64)) timeout_ms,
       cl_token = []\<rparr>)"

definition with_token :: "string \<Rightarrow> ml_client \<Rightarrow> ml_client" where
  "with_token token cl = cl\<lparr>cl_token := token\<rparr>"

record ml_env =
  mv_entry_now :: nat
  mv_now :: "nat \<Rightarrow> nat"
  mv_fail_now :: "nat \<Rightarrow> nat"
  mv_elapsed :: "nat \<Rightarrow> nat"
  mv_others :: "nat \<Rightarrow> circuit \<Rightarrow> circuit"
  mv_ner :: "nat \<Rightarrow> string \<Rightarrow> string \<Rightarrow> string \<Rightarrow> ner_entity list reply"
  mv_injection :: "string \<Rightarrow> string \<Rightarrow> string \<Rightarrow> injection_response reply"
  mv_rag :: "string \<Rightarrow> string \<Rightarrow> string \<Rightarrow> string \<Rightarrow> rag_check_response reply"

section \<open>Tiling a prompt\<close>

text \<open>The inner loop: back from the hard end to just after the last white space.\<close>

fun scan_back :: "string list \<Rightarrow> nat \<Rightarrow> nat \<Rightarrow> nat" where
  "scan_back chars start 0 = 0"
| "scan_back chars start (Suc j) =
     (if Suc j > start \<and> \<not> starts_ws (chars ! j) then scan_back chars start j else Suc j)"

definition ner_cut :: "string list \<Rightarrow> nat \<Rightarrow> nat \<Rightarrow> nat" where
  "ner_cut chars max_chars start =
     (let hard_end = min (start + max_chars) (length chars) in
      if hard_end < length chars
      then let j = scan_back chars start hard_end in if j > start then j else hard_end
      else hard_end)"

definition byte_offset :: "string list \<Rightarrow> nat \<Rightarrow> nat" where
  "byte_offset chars k = length (concat (take k chars))"

lemma ner_cut_gt: "start < length chars \<Longrightarrow> 0 < max_chars \<Longrightarrow> start < ner_cut chars max_chars start"
  by (simp add: ner_cut_def Let_def)

text \<open>The outer loop; the caller passes a positive \<open>max_chars\<close>, which \<open>max 1\<close> leaves as it is.\<close>

function ner_chunks :: "string \<Rightarrow> string list \<Rightarrow> nat \<Rightarrow> nat \<Rightarrow> (nat \<times> string) list" where
  "ner_chunks text chars max_chars start =
     (if start < length chars then
        let cut = ner_cut chars (max 1 max_chars) start;
            start_byte = byte_offset chars start;
            end_byte = (if cut < length chars then byte_offset chars cut else length text)
        in (start_byte, substr text start_byte end_byte) # ner_chunks text chars max_chars cut
      else [])"
  by pat_completeness auto
termination
  by (relation "measure (\<lambda>(text, chars, max_chars, start). length chars - start)")
    (auto intro!: diff_less_mono2 ner_cut_gt)

declare ner_chunks.simps [simp del]

definition split_for_ner :: "string \<Rightarrow> nat \<Rightarrow> (nat \<times> string) list" where
  "split_for_ner text max_chars0 =
     (let max_chars = max max_chars0 1; chars = utf8_chars text in
      if length chars \<le> max_chars then [(0, text)] else ner_chunks text chars max_chars 0)"

section \<open>Detection\<close>

definition rebase_span :: "(nat \<times> nat) option \<Rightarrow> nat \<Rightarrow> (nat \<times> nat) option" where
  "rebase_span sp offset = map_option (\<lambda>(s, e). (s + offset, e + offset)) sp"

definition classify_coverage :: "nat \<Rightarrow> nat \<Rightarrow> nat \<Rightarrow> sidecar_coverage" where
  "classify_coverage attempted chunks_covered chunks_total =
     (if attempted = 0 then Absent CircuitOpen
      else if chunks_covered = 0 then Absent AllCallsFailed
      else if chunks_covered < chunks_total then PartialCov chunks_covered chunks_total
      else Complete)"

definition entity_detection :: "ner_entity \<Rightarrow> ml_detection" where
  "entity_detection e = \<lparr>mld_class = ne_entity_type e, mld_confidence = ne_score e, mld_span = Some (ne_start e, ne_end e),
     mld_value = ne_text e, mld_compliance = ne_compliance e\<rparr>"

text \<open>What a failed call records: the failure, the opening of the breaker if this was the threshold.\<close>

definition count_failure :: "nat \<Rightarrow> ml_state \<Rightarrow> ml_state" where
  "count_failure now st =
     (let (opened, c) = record_failure now (ms_circuit st) in
      st\<lparr>ms_circuit := c, ms_opened := (if opened then ms_opened st + 1 else ms_opened st),
         ms_failures := ms_failures st + 1\<rparr>)"

definition is_client_error :: "nat \<Rightarrow> bool" where
  "is_client_error status = (400 \<le> status \<and> status < 500)"

definition detect_chunk :: "nat \<Rightarrow> ner_entity list reply \<Rightarrow> ml_state \<Rightarrow> ml_detection list option \<times> ml_state" where
  "detect_chunk now r st =
     (case r of
        SendError _ \<Rightarrow> (None, count_failure now st)
      | Reply status body \<Rightarrow>
          if status = 429 then (None, st\<lparr>ms_saturated := ms_saturated st + 1\<rparr>)
          else if is_client_error status then (None, st)
          else (case body of
                  Some entities \<Rightarrow> (Some (map entity_detection entities),
                     st\<lparr>ms_circuit := record_success (ms_circuit st), ms_calls := ms_calls st + 1\<rparr>)
                | None \<Rightarrow> (None, count_failure now st)))"

definition with_others :: "ml_env \<Rightarrow> nat \<Rightarrow> ml_state \<Rightarrow> ml_state" where
  "with_others mv k st = st\<lparr>ms_circuit := mv_others mv k (ms_circuit st)\<rparr>"

text \<open>The loop over the chunks: attempted, covered, the detections so far.\<close>

fun detect_loop ::
  "ml_client \<Rightarrow> ml_env \<Rightarrow> nat \<Rightarrow> (nat \<times> string) list \<Rightarrow> nat \<times> nat \<times> ml_detection list \<Rightarrow> ml_state
     \<Rightarrow> (nat \<times> nat \<times> ml_detection list) \<times> ml_state" where
  "detect_loop cl mv i [] acc st = (acc, st)"
| "detect_loop cl mv i ((offset, chunk) # chunks) (attempted, chunks_covered, dets) st0 =
     (let st = with_others mv i st0; (opened, c) = is_open (mv_now mv i) (ms_circuit st); st1 = st\<lparr>ms_circuit := c\<rparr> in
      if opened then ((attempted, chunks_covered, dets), st1)
      else if i > 0 \<and> mv_elapsed mv i \<ge> cl_ner_total_budget cl then ((attempted, chunks_covered, dets), st1)
      else
        case detect_chunk (mv_fail_now mv i) (mv_ner mv i (cl_base_url cl @ ''/detect/ner'') (cl_token cl) chunk) st1 of
          (Some ds, st2) \<Rightarrow> detect_loop cl mv (Suc i) chunks (Suc attempted, Suc chunks_covered,
             dets @ map (\<lambda>d. d\<lparr>mld_span := rebase_span (mld_span d) offset\<rparr>) ds) st2
        | (None, st2) \<Rightarrow> detect_loop cl mv (Suc i) chunks (Suc attempted, chunks_covered, dets) st2)"

definition outage_of :: "ml_client \<Rightarrow> sidecar_outage" where
  "outage_of cl = (if cl_base_url cl = [] then Unconfigured else Disabled)"

definition detect_if_available :: "ml_client \<Rightarrow> ml_env \<Rightarrow> string \<Rightarrow> ml_state \<Rightarrow> ml_detection ml_outcome \<times> ml_state" where
  "detect_if_available cl mv prompt st =
     (if \<not> (cl_http cl \<and> cl_enabled cl) then (ml_absent (outage_of cl), st)
      else
        let (opened, c) = is_open (mv_entry_now mv) (ms_circuit st); st1 = st\<lparr>ms_circuit := c\<rparr> in
        if opened then (ml_absent CircuitOpen, st1)
        else
          let chunks = split_for_ner prompt (cl_ner_chunk_chars cl);
              ((attempted, chunks_covered, dets), st2) = detect_loop cl mv 0 chunks (0, 0, []) st1
          in (case classify_coverage attempted chunks_covered (length chunks) of
                Complete \<Rightarrow> ml_complete dets
              | PartialCov _ _ \<Rightarrow> ml_partial dets chunks_covered (length chunks)
              | Absent reason \<Rightarrow> ml_absent reason, st2))"

definition injection_check_if_available :: "ml_client \<Rightarrow> ml_env \<Rightarrow> string \<Rightarrow> ml_state \<Rightarrow> injection_outcome \<times> ml_state" where
  "injection_check_if_available cl mv prompt st =
     (if \<not> (cl_http cl \<and> cl_enabled cl) then (injection_absent (outage_of cl), st)
      else
        let (opened, c) = is_open (mv_entry_now mv) (ms_circuit st); st1 = st\<lparr>ms_circuit := c\<rparr> in
        if opened then (injection_absent CircuitOpen, st1)
        else
          case mv_injection mv (cl_base_url cl @ ''/detect/injection'') (cl_token cl) prompt of
            SendError _ \<Rightarrow> (injection_absent AllCallsFailed, count_failure (mv_fail_now mv 0) st1)
          | Reply status body \<Rightarrow>
              if is_client_error status \<or> (500 \<le> status \<and> status < 600) then (injection_absent AllCallsFailed, st1)
              else (case body of
                      Some r \<Rightarrow> (injection_complete (ir_is_injection r) (ir_score r),
                        st1\<lparr>ms_circuit := record_success (ms_circuit st1), ms_calls := ms_calls st1 + 1\<rparr>)
                    | None \<Rightarrow> (injection_absent AllCallsFailed, count_failure (mv_fail_now mv 0) st1)))"

definition rag_check_if_available :: "ml_client \<Rightarrow> ml_env \<Rightarrow> string \<Rightarrow> string \<Rightarrow> ml_state \<Rightarrow> rag_check_response \<times> ml_state" where
  "rag_check_if_available cl mv text ws st =
     (let empty = \<lparr>rr_matches = [], rr_is_match = False\<rparr> in
      if \<not> (cl_http cl \<and> cl_enabled cl) then (empty, st)
      else
        let (opened, c) = is_open (mv_entry_now mv) (ms_circuit st); st1 = st\<lparr>ms_circuit := c\<rparr> in
        if opened then (empty, st1)
        else
          case mv_rag mv (cl_base_url cl @ ''/v1/rag-check'') (cl_token cl) text ws of
            Reply _ (Some r) \<Rightarrow> (r, st1\<lparr>ms_circuit := record_success (ms_circuit st1)\<rparr>)
          | _ \<Rightarrow> (empty, count_failure (mv_fail_now mv 0) st1))"

section \<open>Key push, file scans, metrics\<close>

text \<open>A raw exchange: the request as sent; the client's build or send error, or status, content type and body.\<close>

datatype proxy_method = ProxyGet | ProxyPost

record raw_request =
  rq_post :: bool
  rq_url :: string
  rq_timeout_ms :: nat
  rq_authorization :: string
  rq_content_type :: "string option"
  rq_body :: string

record proxy_response =
  px_status :: nat
  px_content_type :: "string option"
  px_body :: string

definition push_wrapped_model_key ::
  "ml_client \<Rightarrow> (json \<Rightarrow> string) \<Rightarrow> (nat \<Rightarrow> string) \<Rightarrow> string option \<Rightarrow> (raw_request \<Rightarrow> (string, proxy_response) result)
     \<Rightarrow> string \<Rightarrow> string \<Rightarrow> string \<Rightarrow> (string, unit) result" where
  "push_wrapped_model_key cl to_json show_status client_err send wrapped_b64 lic_id token =
     (case client_err of
        Some e \<Rightarrow> Inl (''failed to build push client: '' @ e)
      | None \<Rightarrow>
          rbind (send \<lparr>rq_post = True, rq_url = cl_base_url cl @ ''/internal/model-key'', rq_timeout_ms = 10000,
             rq_authorization = ''Bearer '' @ token, rq_content_type = Some ''application/json'',
             rq_body = to_json (JObj [(''wrapped_key'', JStr wrapped_b64), (''lic_id'', JStr lic_id)])\<rparr>) (\<lambda>resp.
            if 200 \<le> px_status resp \<and> px_status resp < 300 then Inr ()
            else Inl (''sidecar returned '' @ show_status (px_status resp))))"

definition scan_timeout :: "string option \<Rightarrow> nat" where
  "scan_timeout var = unwrap_or default_scan_timeout_ms (positive_millis var)"

definition proxy_scan ::
  "ml_client \<Rightarrow> string option \<Rightarrow> string option \<Rightarrow> (raw_request \<Rightarrow> (string, proxy_response) result)
     \<Rightarrow> proxy_method \<Rightarrow> string \<Rightarrow> string option \<Rightarrow> string \<Rightarrow> (string, proxy_response) result" where
  "proxy_scan cl timeout_var client_err send meth path content_type body =
     (if \<not> cl_enabled cl then Inl ''ML sidecar is not configured''
      else case client_err of
        Some e \<Rightarrow> Inl (''failed to build scan client: '' @ e)
      | None \<Rightarrow>
          send \<lparr>rq_post = (meth = ProxyPost), rq_url = cl_base_url cl @ path, rq_timeout_ms = scan_timeout timeout_var,
            rq_authorization = ''Bearer '' @ cl_token cl, rq_content_type = content_type,
            rq_body = (if meth = ProxyPost then body else [])\<rparr>)"

definition render_prometheus :: "ml_state \<Rightarrow> string" where
  "render_prometheus st =
     (let line = (\<lambda>name v. ''# TYPE '' @ name @ '' counter'' @ [CHR 0x0A] @ name @ '' '' @ show_nat (unat v) @ [CHR 0x0A]) in
      line ''secureprompt_ml_sidecar_calls_total'' (ms_calls st) @
      line ''secureprompt_ml_sidecar_failures_total'' (ms_failures st) @
      line ''secureprompt_ml_sidecar_circuit_open_total'' (ms_opened st) @
      line ''secureprompt_ml_sidecar_saturated_total'' (ms_saturated st))"

section \<open>The tiling is exact\<close>

text \<open>Chunks that tile a text: each starts where the one before ended, and nothing is left.\<close>

fun tiles :: "nat \<Rightarrow> (nat \<times> string) list \<Rightarrow> string \<Rightarrow> bool" where
  "tiles off [] s = (s = [])"
| "tiles off ((off', c) # cs) s = (off' = off \<and> prefix c s \<and> tiles (off + length c) cs (drop (length c) s))"

lemma scan_back_le: "scan_back chars start j \<le> j"
  by (induction j) auto

lemma ner_cut_bounds:
  assumes "start < length chars" "0 < n"
  shows "start < ner_cut chars n start" "ner_cut chars n start \<le> length chars" "ner_cut chars n start \<le> start + n"
  using assms scan_back_le [of chars start "min (start + n) (length chars)"]
  by (auto simp: ner_cut_def Let_def)

lemma byte_offset_le: "byte_offset chars k \<le> length (concat chars)"
  by (metis append_take_drop_id byte_offset_def concat_append le_add1 length_append)

lemma byte_offset_all: "length chars \<le> k \<Longrightarrow> byte_offset chars k = length (concat chars)"
  by (simp add: byte_offset_def)

lemma concat_split: "concat chars = concat (take k chars) @ concat (drop k chars)"
  by (metis append_take_drop_id concat_append)

lemma substr_chars:
  assumes "start \<le> to_idx"
  shows "substr (concat chars) (byte_offset chars start) (byte_offset chars to_idx) = concat (take (to_idx - start) (drop start chars))"
proof -
  have "take to_idx chars = take start chars @ take (to_idx - start) (drop start chars)"
    using assms by (metis le_add_diff_inverse take_add)
  then have "byte_offset chars to_idx = byte_offset chars start + length (concat (take (to_idx - start) (drop start chars)))"
    by (simp add: byte_offset_def)
  moreover have "drop (byte_offset chars start) (concat chars) = concat (drop start chars)"
    by (subst concat_split [of _ start]) (simp add: byte_offset_def)
  moreover have "concat (drop start chars) = concat (take (to_idx - start) (drop start chars)) @ concat (drop to_idx chars)"
    using assms by (subst concat_split [of _ "to_idx - start"]) simp
  ultimately show ?thesis by (simp add: substr_def)
qed

lemma char_count_append [simp]: "char_count (a @ b) = char_count a + char_count b"
  by (simp add: char_count_def)

lemma utf8_chars_one: "c \<in> set (utf8_chars s) \<Longrightarrow> char_count c \<le> 1 \<and> c \<noteq> []"
proof (induction s rule: utf8_chars.induct)
  case (2 x s)
  have "filter (\<lambda>c. \<not> is_cont c) (takeWhile is_cont s) = []"
    by (auto simp: filter_empty_conv dest: set_takeWhileD)
  with 2 show ?case by (auto simp: char_count_def)
qed simp

lemma char_count_concat: "\<forall>c \<in> set cs. char_count c \<le> 1 \<Longrightarrow> char_count (concat cs) \<le> length cs"
  by (induction cs) (auto simp: char_count_def)

lemma ner_chunks_tile:
  assumes "chars = utf8_chars t"
  shows "tiles (byte_offset chars start) (ner_chunks t chars n start) (drop (byte_offset chars start) t) \<and>
    (\<forall>(off, c) \<in> set (ner_chunks t chars n start). char_count c \<le> max 1 n \<and> c \<noteq> [])"
  using assms
proof (induction t chars n start rule: ner_chunks.induct)
  case (1 t chars n start)
  show ?case
  proof (cases "start < length chars")
    case False
    then show ?thesis using 1 by (subst (1 2) ner_chunks.simps) (simp add: byte_offset_all)
  next
    case True
    let ?cut = "ner_cut chars (max 1 n) start"
    have cut: "start < ?cut" "?cut \<le> length chars" "?cut \<le> start + max 1 n"
      using ner_cut_bounds [OF True, of "max 1 n"] by simp_all
    let ?piece = "concat (take (?cut - start) (drop start chars))"
    have whole: "t = concat chars" using 1 by simp
    have eb: "(if ?cut < length chars then byte_offset chars ?cut else length t) = byte_offset chars ?cut"
      using cut(2) whole by (simp add: byte_offset_all)
    have piece: "substr t (byte_offset chars start) (byte_offset chars ?cut) = ?piece"
      using substr_chars [of start ?cut chars] cut whole by simp
    have unf: "ner_chunks t chars n start = (byte_offset chars start, ?piece) # ner_chunks t chars n ?cut"
      using True by (subst ner_chunks.simps) (simp only: Let_def eb piece if_True)
    have nxt: "byte_offset chars ?cut = byte_offset chars start + length ?piece"
      using cut(1) by (simp add: byte_offset_def flip: length_append concat_append take_add)
    have rest: "drop (byte_offset chars start) t = ?piece @ drop (byte_offset chars ?cut) t"
    proof -
      have "drop (byte_offset chars k) t = concat (drop k chars)" for k
        unfolding whole by (subst concat_split [of _ k]) (simp add: byte_offset_def)
      moreover have "concat (drop start chars) = ?piece @ concat (drop ?cut chars)"
        using cut(1) by (subst concat_split [of _ "?cut - start"]) simp
      ultimately show ?thesis by simp
    qed
    have ne: "?piece \<noteq> []"
      using cut True utf8_chars_one [of "chars ! start" t] 1(2)
      by (cases "drop start chars") (auto simp: Cons_nth_drop_Suc [symmetric] take_Cons')
    have few: "char_count ?piece \<le> max 1 n"
      using cut(3) char_count_concat [of "take (?cut - start) (drop start chars)"] utf8_chars_one 1(2)
      by (fastforce dest: in_set_takeD in_set_dropD)
    have IH: "tiles (byte_offset chars ?cut) (ner_chunks t chars n ?cut) (drop (byte_offset chars ?cut) t)"
      "\<forall>(off, c) \<in> set (ner_chunks t chars n ?cut). char_count c \<le> max 1 n \<and> c \<noteq> []"
      using 1(1) [OF True refl refl refl 1(2)] by blast+
    have "tiles (byte_offset chars start) ((byte_offset chars start, ?piece) # ner_chunks t chars n ?cut)
        (?piece @ drop (byte_offset chars ?cut) t)"
      using IH(1) nxt by simp
    then show ?thesis
      using IH(2) ne few unfolding unf rest by auto
  qed
qed

lemma split_for_ner_tiles: "tiles 0 (split_for_ner text n) text"
  using ner_chunks_tile [of "utf8_chars text" "text" 0 "max n 1"]
  by (simp add: split_for_ner_def Let_def byte_offset_def)

lemma split_for_ner_sizes:
  assumes "(off, c) \<in> set (split_for_ner text n)"
  shows "char_count c \<le> max n 1" "text \<noteq> [] \<Longrightarrow> c \<noteq> []"
proof -
  have "char_count (concat (utf8_chars text)) \<le> length (utf8_chars text)"
    using utf8_chars_one by (intro char_count_concat) blast
  then show "char_count c \<le> max n 1" "text \<noteq> [] \<Longrightarrow> c \<noteq> []"
    using assms ner_chunks_tile [of "utf8_chars text" "text" 0 "max n 1"]
    by (auto simp: split_for_ner_def Let_def max_def split: if_splits)
qed

lemma tiles_concat: "tiles off cs s \<Longrightarrow> concat (map snd cs) = s"
  by (induction off cs s rule: tiles.induct) (auto simp: prefix_def)

text \<open>The tiling in one statement: exact, in order, within the limit, and no empty chunk of a text that is not.\<close>

lemma tiles_substr:
  assumes "tiles off cs s" "(o', c) \<in> set cs"
  shows "off \<le> o' \<and> o' + length c \<le> off + length s \<and> c = substr s (o' - off) (o' - off + length c)"
  using assms
proof (induction off cs s rule: tiles.induct)
  case (2 off off' c1 cs s)
  obtain r where s: "s = c1 @ r" using 2(2) by (auto simp: prefix_def)
  show ?case
  proof (cases "(o', c) = (off', c1)")
    case True
    with 2(2) show ?thesis by (auto simp: substr_def s)
  next
    case False
    with 2 s have "off + length c1 \<le> o' \<and> o' + length c \<le> off + length c1 + length r \<and>
        c = substr r (o' - (off + length c1)) (o' - (off + length c1) + length c)" by auto
    then show ?thesis by (auto simp: s substr_def)
  qed
qed simp

lemma tiles_cover:
  assumes "tiles off cs s" "off \<le> p" "p < off + length s"
  shows "\<exists>i < length cs. fst (cs ! i) \<le> p \<and> p < fst (cs ! i) + length (snd (cs ! i))"
  using assms
proof (induction off cs s rule: tiles.induct)
  case (2 off off' c1 cs s)
  obtain r where s: "s = c1 @ r" using 2(2) by (auto simp: prefix_def)
  show ?case
  proof (cases "p < off + length c1")
    case True
    with 2 show ?thesis by (intro exI [of _ 0]) auto
  next
    case False
    with 2 s obtain i where "i < length cs" "fst (cs ! i) \<le> p" "p < fst (cs ! i) + length (snd (cs ! i))" by auto
    then show ?thesis by (intro exI [of _ "Suc i"]) auto
  qed
qed simp

section \<open>What coverage means\<close>

text \<open>The entities of an answer that counts as a scan of its chunk.\<close>

definition ner_answer :: "ner_entity list reply \<Rightarrow> ner_entity list option" where
  "ner_answer r = (case r of Reply status (Some es) \<Rightarrow> if is_client_error status then None else Some es | _ \<Rightarrow> None)"

lemma detect_chunk_answer: "fst (detect_chunk now r st) = map_option (map entity_detection) (ner_answer r)"
  by (auto simp: detect_chunk_def ner_answer_def is_client_error_def split: reply.splits option.splits)

text \<open>The answer to the \<open>i\<close>-th chunk, and the detections it contributes.\<close>

definition chunk_answer :: "ml_client \<Rightarrow> ml_env \<Rightarrow> nat \<times> nat \<times> string \<Rightarrow> ner_entity list option" where
  "chunk_answer cl mv ic = ner_answer (mv_ner mv (fst ic) (cl_base_url cl @ ''/detect/ner'') (cl_token cl) (snd (snd ic)))"

definition chunk_detections :: "ml_client \<Rightarrow> ml_env \<Rightarrow> nat \<times> nat \<times> string \<Rightarrow> ml_detection list" where
  "chunk_detections cl mv ic = map (\<lambda>e. (entity_detection e)\<lparr>mld_span := Some (ne_start e + fst (snd ic), ne_end e + fst (snd ic))\<rparr>)
     (unwrap_or [] (chunk_answer cl mv ic))"

lemma detect_loop_effect:
  assumes "detect_loop cl mv i chunks (a, n, dets) st = ((a', n', dets'), st')"
  shows "\<exists>k \<le> length chunks. a' = a + k \<and>
    n' = n + length (filter (\<lambda>ic. chunk_answer cl mv ic \<noteq> None) (take k (enumerate i chunks))) \<and>
    dets' = dets @ concat (map (chunk_detections cl mv) (take k (enumerate i chunks)))"
  using assms
proof (induction chunks arbitrary: i a n dets st)
  case Nil
  then show ?case by simp
next
  case (Cons oc chunks)
  obtain off c where oc: "oc = (off, c)" by (cases oc)
  define st1 where "st1 = (with_others mv i st)\<lparr>ms_circuit := snd (is_open (mv_now mv i) (ms_circuit (with_others mv i st)))\<rparr>"
  let ?r = "mv_ner mv i (cl_base_url cl @ ''/detect/ner'') (cl_token cl) c"
  obtain ds st2 where d: "detect_chunk (mv_fail_now mv i) ?r st1 = (ds, st2)" by fastforce
  then have ds: "ds = map_option (map entity_detection) (chunk_answer cl mv (i, off, c))"
    using detect_chunk_answer [of "mv_fail_now mv i" ?r st1] by (simp add: chunk_answer_def)
  let ?found = "chunk_detections cl mv (i, off, c)"
  let ?one = "if chunk_answer cl mv (i, off, c) = None then 0 else 1"
  consider "(a', n', dets') = (a, n, dets)"
    | "detect_loop cl mv (Suc i) chunks (Suc a, n + ?one, dets @ ?found) st2 = ((a', n', dets'), st')"
    using Cons.prems d ds unfolding oc
    by (auto simp: st1_def [symmetric] Let_def split_beta chunk_detections_def rebase_span_def entity_detection_def o_def
        split: if_splits option.splits)
  then show ?case
  proof cases
    case 1
    then show ?thesis by (intro exI [of _ 0]) simp
  next
    case 2
    from Cons.IH [OF this] obtain k where "k \<le> length chunks" "a' = Suc a + k"
      "n' = n + ?one + length (filter (\<lambda>ic. chunk_answer cl mv ic \<noteq> None) (take k (enumerate (Suc i) chunks)))"
      "dets' = (dets @ ?found) @ concat (map (chunk_detections cl mv) (take k (enumerate (Suc i) chunks)))"
      by blast
    then show ?thesis by (intro exI [of _ "Suc k"]) (auto simp: oc)
  qed
qed

lemma filter_all: "length (filter P xs) = length xs \<Longrightarrow> x \<in> set xs \<Longrightarrow> P x"
  by (metis filter_id_conv length_filter_less nat_less_le)

lemma detect_if_available_effect:
  assumes "detect_if_available cl mv prompt st = (oc, st')"
  defines "ics \<equiv> enumerate 0 (split_for_ner prompt (cl_ner_chunk_chars cl))"
  shows "ml_coverage oc = Complete \<Longrightarrow> \<forall>ic \<in> set ics. chunk_answer cl mv ic \<noteq> None"
    and "ml_coverage oc = Complete \<Longrightarrow> ml_detections oc = concat (map (chunk_detections cl mv) ics)"
    and "\<exists>k. ml_detections oc = concat (map (chunk_detections cl mv) (take k ics))"
proof -
  let ?chunks = "split_for_ner prompt (cl_ner_chunk_chars cl)"
  let ?P = "\<lambda>ic. chunk_answer cl mv ic \<noteq> None"
  consider r where "oc = ml_absent r"
    | a n dets st1 st2 where "detect_loop cl mv 0 ?chunks (0, 0, []) st1 = ((a, n, dets), st2)"
      "oc = (case classify_coverage a n (length ?chunks) of Complete \<Rightarrow> ml_complete dets
         | PartialCov _ _ \<Rightarrow> ml_partial dets n (length ?chunks) | Absent reason \<Rightarrow> ml_absent reason)"
    using assms(1) by (fastforce simp: detect_if_available_def Let_def split: prod.splits if_splits)
  then have "(ml_coverage oc = Complete \<longrightarrow> (\<forall>ic \<in> set ics. ?P ic) \<and> ml_detections oc = concat (map (chunk_detections cl mv) ics)) \<and>
     (\<exists>k. ml_detections oc = concat (map (chunk_detections cl mv) (take k ics)))"
  proof cases
    case 1
    then show ?thesis by (auto simp: ml_absent_def intro: exI [of _ 0])
  next
    case 2
    obtain k where k: "k \<le> length ?chunks" "a = k" "n = length (filter ?P (take k ics))"
      "dets = concat (map (chunk_detections cl mv) (take k ics))"
      using detect_loop_effect [OF 2(1)] by (auto simp: ics_def)
    have len: "length ics = length ?chunks" by (simp add: ics_def)
    have "n \<le> k" using k(1,3) len length_filter_le [of ?P "take k ics"] by simp
    moreover have oc: "oc = (if a = 0 then ml_absent CircuitOpen else if n = 0 then ml_absent AllCallsFailed
        else if n < length ?chunks then ml_partial dets n (length ?chunks) else ml_complete dets)"
      using 2(2) by (simp add: classify_coverage_def)
    moreover have "\<forall>ic \<in> set ics. ?P ic" "take k ics = ics" if "length ?chunks \<le> n"
    proof -
      have all: "take k ics = ics" using that calculation(1) k(1) len by simp
      then have "length (filter ?P ics) = length ics"
        using that k(3) len length_filter_le [of ?P ics] by (intro le_antisym) auto
      with all show "\<forall>ic \<in> set ics. ?P ic" "take k ics = ics" using filter_all [of ?P ics] by blast+
    qed
    moreover have "\<exists>k. ml_detections oc = concat (map (chunk_detections cl mv) (take k ics))"
    proof (cases "a = 0 \<or> n = 0")
      case True
      then show ?thesis by (auto simp: oc ml_absent_def intro: exI [of _ 0])
    next
      case False
      then show ?thesis by (auto simp: oc k(4) ml_partial_def ml_complete_def)
    qed
    ultimately show ?thesis
      using k(4) by (auto simp: ml_absent_def ml_partial_def ml_complete_def)
  qed
  then show "ml_coverage oc = Complete \<Longrightarrow> \<forall>ic \<in> set ics. ?P ic"
    "ml_coverage oc = Complete \<Longrightarrow> ml_detections oc = concat (map (chunk_detections cl mv) ics)"
    "\<exists>k. ml_detections oc = concat (map (chunk_detections cl mv) (take k ics))" by blast+
qed

text \<open>
  C16. Complete coverage means that the sidecar read the whole prompt. When a detection call reports complete
  coverage, every byte of the prompt lies in a chunk of at most the configured number of characters, cut from the
  prompt at its offset, which the sidecar answered with a scan; and everything the answer reported is among the
  detections, at its place in the prompt. This holds whatever other requests do to the shared breaker meanwhile.
\<close>

theorem complete_coverage_reads_every_byte:
  assumes "detect_if_available cl mv prompt st = (oc, st')" "ml_coverage oc = Complete" "p < length prompt"
  shows "\<exists>i off c es. i < length (split_for_ner prompt (cl_ner_chunk_chars cl)) \<and>
    split_for_ner prompt (cl_ner_chunk_chars cl) ! i = (off, c) \<and> off \<le> p \<and> p < off + length c \<and>
    c = substr prompt off (off + length c) \<and> char_count c \<le> max (cl_ner_chunk_chars cl) 1 \<and>
    ner_answer (mv_ner mv i (cl_base_url cl @ ''/detect/ner'') (cl_token cl) c) = Some es \<and>
    (\<forall>e \<in> set es. \<exists>d \<in> set (ml_detections oc). mld_class d = ne_entity_type e \<and> mld_value d = ne_text e \<and>
       mld_span d = Some (ne_start e + off, ne_end e + off))"
proof -
  let ?chunks = "split_for_ner prompt (cl_ner_chunk_chars cl)"
  have t: "tiles 0 ?chunks prompt" by (rule split_for_ner_tiles)
  obtain i off c where i: "i < length ?chunks" "?chunks ! i = (off, c)" "off \<le> p" "p < off + length c"
    using tiles_cover [OF t, of p] assms(3) by (metis add_0 le0 prod.collapse)
  then have mem: "(off, c) \<in> set ?chunks" by (metis nth_mem)
  have ic: "(i, off, c) \<in> set (enumerate 0 ?chunks)" using i by (simp add: in_set_enumerate_eq)
  then obtain es where es: "chunk_answer cl mv (i, off, c) = Some es"
    using detect_if_available_effect(1) [OF assms(1,2)] by blast
  have "\<exists>d \<in> set (ml_detections oc). mld_class d = ne_entity_type e \<and> mld_value d = ne_text e \<and>
       mld_span d = Some (ne_start e + off, ne_end e + off)" if "e \<in> set es" for e
  proof -
    let ?d = "(entity_detection e)\<lparr>mld_span := Some (ne_start e + off, ne_end e + off)\<rparr>"
    have "?d \<in> set (chunk_detections cl mv (i, off, c))" using that es by (simp add: chunk_detections_def)
    then have "?d \<in> set (ml_detections oc)"
      using detect_if_available_effect(2) [OF assms(1,2)] ic by auto
    then show ?thesis by (intro bexI [of _ ?d]) (simp_all add: entity_detection_def)
  qed
  moreover have "c = substr prompt off (off + length c)" using tiles_substr [OF t mem] by simp
  moreover have "char_count c \<le> max (cl_ner_chunk_chars cl) 1" by (rule split_for_ner_sizes(1) [OF mem])
  ultimately show ?thesis
    using i es by (intro exI [of _ i] exI [of _ off] exI [of _ c] exI [of _ es]) (simp add: chunk_answer_def)
qed

text \<open>
  The spans survive the tiling: when the sidecar's entities are spans of the chunk it was given, every detection
  of the call, complete or not, is the span of the prompt that reads its value.
\<close>

theorem detections_point_into_prompt:
  assumes "detect_if_available cl mv prompt st = (oc, st')" "d \<in> set (ml_detections oc)"
    and "\<And>i url tok c es e. ner_answer (mv_ner mv i url tok c) = Some es \<Longrightarrow> e \<in> set es \<Longrightarrow>
      ne_start e \<le> ne_end e \<and> ne_end e \<le> length c \<and> ne_text e = substr c (ne_start e) (ne_end e)"
  shows "\<exists>s e. mld_span d = Some (s, e) \<and> s \<le> e \<and> e \<le> length prompt \<and> mld_value d = substr prompt s e"
proof -
  let ?chunks = "split_for_ner prompt (cl_ner_chunk_chars cl)"
  obtain k where "ml_detections oc = concat (map (chunk_detections cl mv) (take k (enumerate 0 ?chunks)))"
    using detect_if_available_effect(3) [OF assms(1)] by blast
  with assms(2) have "\<exists>ic \<in> set (take k (enumerate 0 ?chunks)). d \<in> set (chunk_detections cl mv ic)" by simp
  then obtain ic where ic: "ic \<in> set (enumerate 0 ?chunks)" "d \<in> set (chunk_detections cl mv ic)"
    by (meson in_set_takeD)
  obtain i off c where icd: "ic = (i, off, c)" by (rule prod_cases3)
  obtain e es where e: "chunk_answer cl mv ic = Some es" "e \<in> set es"
    "d = (entity_detection e)\<lparr>mld_span := Some (ne_start e + off, ne_end e + off)\<rparr>"
    using ic(2) by (cases "chunk_answer cl mv ic") (auto simp: chunk_detections_def icd)
  have "i < length ?chunks" "?chunks ! i = (off, c)" using ic(1) by (simp_all add: icd in_set_enumerate_eq)
  then have mem: "(off, c) \<in> set ?chunks" by (metis nth_mem)
  have c: "off + length c \<le> length prompt" "c = substr prompt off (off + length c)"
    using tiles_substr [OF split_for_ner_tiles mem] unfolding add_0 diff_zero by blast+
  have f: "ne_start e \<le> ne_end e" "ne_end e \<le> length c" "ne_text e = substr c (ne_start e) (ne_end e)"
    using assms(3) [OF e(1) [unfolded chunk_answer_def icd fst_conv snd_conv] e(2)] by blast+
  have "substr (substr prompt off (off + length c)) (ne_start e) (ne_end e) = substr prompt (ne_start e + off) (ne_end e + off)"
    using f(1,2) by (simp add: substr_def drop_take min_def add.commute)
  then have "ne_text e = substr prompt (ne_start e + off) (ne_end e + off)"
    using f(3) c(2) by (simp flip: c(2))
  moreover have "ne_start e + off \<le> ne_end e + off" "ne_end e + off \<le> length prompt" using f c(1) by simp_all
  ultimately show ?thesis unfolding e(3) entity_detection_def by simp
qed

section \<open>The breaker\<close>

text \<open>One attempt that fails if it is made; how many of the attempts at the given times are made.\<close>

fun failing_calls :: "nat list \<Rightarrow> circuit \<Rightarrow> nat" where
  "failing_calls [] c = 0"
| "failing_calls (t # ts) c =
     (let (opened, c1) = is_open t c in
      if opened then failing_calls ts c1 else Suc (failing_calls ts (snd (record_failure t c1))))"

definition breaker_inv :: "circuit \<Rightarrow> bool" where
  "breaker_inv c = (cb_open_since c = 0 \<longrightarrow> unat (cb_failures c) < 5)"

definition calls_left :: "nat \<Rightarrow> circuit \<Rightarrow> nat" where
  "calls_left t0 c = (if cb_open_since c = 0 then 5 - unat (cb_failures c) else if cb_open_since c \<ge> t0 then 0 else 5)"

lemma unat_Suc_small: "unat w < 5 \<Longrightarrow> unat (w + 1) = Suc (unat w)" for w :: "32 word"
  by (simp add: unat_word_ariths)

lemma failing_step:
  assumes "breaker_inv c" "0 < t" "t0 \<le> t" "t < t0 + 30" "is_open t c = (False, c1)"
  shows "breaker_inv (snd (record_failure t c1))" "Suc (calls_left t0 (snd (record_failure t c1))) \<le> calls_left t0 c"
proof -
  have c1: "cb_open_since c1 = 0" "unat (cb_failures c1) < 5"
    "calls_left t0 c1 \<le> calls_left t0 c"
    using assms by (auto simp: is_open_def breaker_inv_def calls_left_def open_duration_secs_def split: if_splits)
  have five: "cb_failures c1 + 1 = 5 \<longleftrightarrow> unat (cb_failures c1) = 4"
    unfolding word_unat_eq_iff unat_Suc_small [OF c1(2)] by simp
  have "breaker_inv (snd (record_failure t c1)) \<and> Suc (calls_left t0 (snd (record_failure t c1))) \<le> calls_left t0 c1"
    using c1(1,2) five unat_Suc_small [OF c1(2)] assms(2,3)
    by (auto simp: record_failure_def failure_threshold_def Let_def breaker_inv_def calls_left_def)
  with c1(3) show "breaker_inv (snd (record_failure t c1))" "Suc (calls_left t0 (snd (record_failure t c1))) \<le> calls_left t0 c"
    by simp_all
qed

text \<open>
  A sidecar that answers nothing useful is called at most five times in any thirty seconds: of the attempts made at
  times within one window of thirty seconds, all of which would fail, at most five reach the sidecar, whatever the
  breaker had seen before.
\<close>

lemma failing_calls_left:
  "breaker_inv c \<Longrightarrow> \<forall>t \<in> set ts. 0 < t \<and> t0 \<le> t \<and> t < t0 + 30 \<Longrightarrow> failing_calls ts c \<le> calls_left t0 c"
proof (induction ts arbitrary: c)
  case Nil
  then show ?case by simp
next
  case (Cons t ts)
  obtain opened c1 where o: "is_open t c = (opened, c1)" by fastforce
  show ?case
  proof (cases opened)
    case True
    then have "c1 = c" using o by (auto simp: is_open_def split: if_splits)
    with True o Cons show ?thesis by simp
  next
    case False
    with o Cons.prems have "breaker_inv (snd (record_failure t c1))"
      "Suc (calls_left t0 (snd (record_failure t c1))) \<le> calls_left t0 c"
      using failing_step [of c t t0 c1] by simp_all
    moreover from this(1) have "failing_calls ts (snd (record_failure t c1)) \<le> calls_left t0 (snd (record_failure t c1))"
      using Cons.IH Cons.prems(2) by simp
    ultimately show ?thesis using False o by simp
  qed
qed

theorem breaker_bounds_failing_calls:
  assumes "breaker_inv c" "\<forall>t \<in> set ts. 0 < t \<and> t0 \<le> t \<and> t < t0 + open_duration_secs"
  shows "failing_calls ts c \<le> 5"
proof -
  have "failing_calls ts c \<le> calls_left t0 c"
    using failing_calls_left assms by (simp add: open_duration_secs_def)
  also have "\<dots> \<le> 5" by (simp add: calls_left_def)
  finally show ?thesis .
qed

text \<open>The invariant holds at the start and under every operation of the breaker, and an open breaker closes.\<close>

lemma breaker_inv_kept:
  "breaker_inv circuit_new" "breaker_inv c \<Longrightarrow> breaker_inv (snd (is_open now c))" "breaker_inv (record_success c)"
  "breaker_inv c \<Longrightarrow> 0 < now \<Longrightarrow> cb_open_since c = 0 \<Longrightarrow> breaker_inv (snd (record_failure now c))"
proof -
  show "breaker_inv circuit_new" "breaker_inv c \<Longrightarrow> breaker_inv (snd (is_open now c))" "breaker_inv (record_success c)"
    by (auto simp: breaker_inv_def circuit_new_def is_open_def record_success_def)
  show "breaker_inv c \<Longrightarrow> 0 < now \<Longrightarrow> cb_open_since c = 0 \<Longrightarrow> breaker_inv (snd (record_failure now c))"
    using failing_step(1) [of c now now c] by (simp add: is_open_def)
qed

lemma breaker_recovers: "cb_open_since c + open_duration_secs \<le> now \<Longrightarrow> fst (is_open now c) = False"
  by (auto simp: is_open_def)

theorem complete_coverage_reads_every_byte_witness:
  "\<exists>oc st'. detect_if_available \<lparr>cl_base_url = ''http://s'', cl_enabled = True, cl_http = True, cl_ner_chunk_chars = 3, cl_ner_total_budget = 1000, cl_token = ''t''\<rparr>
      \<lparr>mv_entry_now = 9, mv_now = (\<lambda>_. 9), mv_fail_now = (\<lambda>_. 9), mv_elapsed = (\<lambda>_. 0), mv_others = (\<lambda>_ c. c),
       mv_ner = (\<lambda>_ _ _ c. Reply 200 (Some [\<lparr>ne_entity_type = ''X'', ne_start = 0, ne_end = 1, ne_score = 1,
         ne_text = take 1 c, ne_compliance = []\<rparr>])), mv_injection = (\<lambda>_ _ _. SendError []),
       mv_rag = (\<lambda>_ _ _ _. SendError [])\<rparr> ''ab cd''
      \<lparr>ms_circuit = circuit_new, ms_calls = 0, ms_failures = 0, ms_opened = 0, ms_saturated = 0\<rparr> = (oc, st') \<and>
    (\<exists>d \<in> set (ml_detections oc). mld_value d = ''c'' \<and> mld_span d = Some (3, 4))"
proof -
  let ?cl = "\<lparr>cl_base_url = ''http://s'', cl_enabled = True, cl_http = True, cl_ner_chunk_chars = 3, cl_ner_total_budget = 1000, cl_token = ''t''\<rparr>"
  let ?mv = "\<lparr>mv_entry_now = 9, mv_now = (\<lambda>_. 9), mv_fail_now = (\<lambda>_. 9), mv_elapsed = (\<lambda>_. 0), mv_others = (\<lambda>_ c. c),
       mv_ner = (\<lambda>_ _ _ c. Reply 200 (Some [\<lparr>ne_entity_type = ''X'', ne_start = 0, ne_end = 1, ne_score = 1,
         ne_text = take 1 c, ne_compliance = []\<rparr>])), mv_injection = (\<lambda>_ _ _. SendError []),
       mv_rag = (\<lambda>_ _ _ _. SendError [])\<rparr>"
  let ?st = "\<lparr>ms_circuit = circuit_new, ms_calls = 0, ms_failures = 0, ms_opened = 0, ms_saturated = 0\<rparr>"
  obtain oc st' where run: "detect_if_available ?cl ?mv ''ab cd'' ?st = (oc, st')" by fastforce
  have chunks: "split_for_ner ''ab cd'' 3 = [(0, ''ab ''), (3, ''cd'')]" by code_simp
  have "ml_coverage (fst (detect_if_available ?cl ?mv ''ab cd'' ?st)) = Complete"
    by (simp add: detect_if_available_def chunks circuit_new_def is_open_def with_others_def detect_chunk_def is_client_error_def record_success_def
        classify_coverage_def ml_complete_def)
  with run have cov: "ml_coverage oc = Complete" by simp
  obtain i off c es where w: "i < length [(0, ''ab ''), (3, ''cd'')]" "[(0, ''ab ''), (3, ''cd'')] ! i = (off, c)" "off \<le> (3::nat)"
    "3 < off + length c" "ner_answer (mv_ner ?mv i (cl_base_url ?cl @ ''/detect/ner'') (cl_token ?cl) c) = Some es"
    "\<forall>e \<in> set es. \<exists>d \<in> set (ml_detections oc). mld_class d = ne_entity_type e \<and> mld_value d = ne_text e \<and>
       mld_span d = Some (ne_start e + off, ne_end e + off)"
    using complete_coverage_reads_every_byte [OF run cov, of 3] by (auto simp: chunks)
  then have "i = 1" by (cases i) auto
  with w have "off = 3" "c = ''cd''" by auto
  with w(5,6) have "\<exists>d \<in> set (ml_detections oc). mld_value d = ''c'' \<and> mld_span d = Some (3, 4)"
    by (auto simp: ner_answer_def is_client_error_def)
  with run show ?thesis by blast
qed

end
