(* ===== verification/Sign_On.thy ===== *)
theory Sign_On
  imports Policy_Store Session_Auth Url_Guard
begin

text \<open>
  The two other ways into the dashboard: single sign-on (\<open>dashboard/oidc.rs\<close>) and public registration
  (\<open>register\<close> of \<open>dashboard/auth.rs\<close> over \<open>db/workspace_repo.rs\<close>).

  The identity provider, its HTTP transport, serde and the \<open>oauth2\<close> crate are fields of an \<open>oidc_env\<close>:
  the environment variables, the two fetches with their parsers, URL validation, the random secrets, the
  authorization URL and the code exchange. The callback also returns the exchanges it sent, each with
  the code and the verifier. Registration works on the tables of workspaces, users and rules together.
\<close>

section \<open>Single sign-on\<close>

record oidc_discovery =
  authorization_endpoint :: string
  token_endpoint :: string
  userinfo_endpoint :: "string option"

record oidc_user_info =
  info_sub :: string
  info_email :: "string option"

record oauth_client =
  oc_client_id :: string
  oc_client_secret :: string
  oc_auth_url :: string
  oc_token_url :: string
  oc_redirect_uri :: string

record oidc_env =
  oe_var :: "string \<Rightarrow> string option"
  oe_fetch :: "string \<Rightarrow> (string, string) result"
  oe_parse_discovery :: "string \<Rightarrow> (string, oidc_discovery) result"
  oe_url_err :: "string \<Rightarrow> string option"
  oe_verifier :: string
  oe_csrf :: string
  oe_challenge :: "string \<Rightarrow> string"
  oe_authorize_url :: "oauth_client \<Rightarrow> string list \<Rightarrow> string \<Rightarrow> string \<Rightarrow> string"
  oe_client_err :: "string option"
  oe_exchange :: "oauth_client \<Rightarrow> string \<Rightarrow> string \<Rightarrow> (string, string) result"
  oe_userinfo :: "string \<Rightarrow> string \<Rightarrow> (string, string) result"
  oe_parse_userinfo :: "string \<Rightarrow> (string, oidc_user_info) result"

definition discover_oidc :: "oidc_env \<Rightarrow> string \<Rightarrow> (api_error, oidc_discovery) result" where
  "discover_oidc oe issuer_url =
     (let well_known = trim_end_slash issuer_url @ ''/.well-known/openid-configuration'' in
      rbind (map_err (\<lambda>e. Internal (''OIDC discovery fetch failed: '' @ e)) (oe_fetch oe well_known)) (\<lambda>body.
        map_err (\<lambda>e. Internal (''OIDC discovery parse failed: '' @ e)) (oe_parse_discovery oe body)))"

definition oidc_var :: "oidc_env \<Rightarrow> string \<Rightarrow> (api_error, string) result" where
  "oidc_var oe name = ok_or (oe_var oe name) (Internal (name @ '' not set''))"

definition read_oidc_env :: "oidc_env \<Rightarrow> (api_error, string \<times> string \<times> string \<times> string) result" where
  "read_oidc_env oe =
     rbind (oidc_var oe ''SECUREPROMPT_OIDC_CLIENT_ID'') (\<lambda>client_id.
     rbind (oidc_var oe ''SECUREPROMPT_OIDC_CLIENT_SECRET'') (\<lambda>client_secret.
     rbind (oidc_var oe ''SECUREPROMPT_OIDC_ISSUER_URL'') (\<lambda>issuer_url.
     rbind (oidc_var oe ''SECUREPROMPT_OIDC_REDIRECT_URI'') (\<lambda>redirect_uri.
       Inr (client_id, client_secret, issuer_url, redirect_uri)))))"

definition oauth_url :: "oidc_env \<Rightarrow> string \<Rightarrow> string \<Rightarrow> (api_error, unit) result" where
  "oauth_url oe what url = (case oe_url_err oe url of None \<Rightarrow> Inr () | Some e \<Rightarrow> Inl (Internal (''invalid '' @ what @ '': '' @ e)))"

definition build_oauth_client ::
  "oidc_env \<Rightarrow> string \<Rightarrow> string \<Rightarrow> string \<Rightarrow> string \<Rightarrow> string \<Rightarrow> (api_error, oauth_client) result" where
  "build_oauth_client oe client_id client_secret auth_endpoint token_url redirect_uri =
     rbind (oauth_url oe ''auth_url'' auth_endpoint) (\<lambda>_.
     rbind (oauth_url oe ''token_url'' token_url) (\<lambda>_.
     rbind (oauth_url oe ''redirect_uri'' redirect_uri) (\<lambda>_.
       Inr \<lparr>oc_client_id = client_id, oc_client_secret = client_secret, oc_auth_url = auth_endpoint,
            oc_token_url = token_url, oc_redirect_uri = redirect_uri\<rparr>)))"

definition oidc_state_ttl :: nat where
  "oidc_state_ttl = 600"

definition oidc_authorize :: "auth_env \<Rightarrow> oidc_env \<Rightarrow> auth_state \<Rightarrow> auth_state \<times> (api_error, string) result" where
  "oidc_authorize env oe st =
     (case rbind (read_oidc_env oe) (\<lambda>(client_id, client_secret, issuer_url, redirect_uri).
           rbind (discover_oidc oe issuer_url) (\<lambda>discovery.
             build_oauth_client oe client_id client_secret (authorization_endpoint discovery) (token_endpoint discovery) redirect_uri)) of
        Inl e \<Rightarrow> (st, Inl e)
      | Inr client \<Rightarrow>
          (case store_oidc_state (au_redis env) 0 (oe_csrf oe) (oe_verifier oe) oidc_state_ttl (as_redis st) of
             Inl e \<Rightarrow> (st, Inl e)
           | Inr r \<Rightarrow> (st\<lparr>as_redis := r\<rparr>,
               Inr (oe_authorize_url oe client [''openid'', ''email''] (oe_challenge oe (oe_verifier oe)) (oe_csrf oe)))))"

definition fetch_oidc_email :: "oidc_env \<Rightarrow> oidc_discovery \<Rightarrow> string \<Rightarrow> (api_error, string) result" where
  "fetch_oidc_email oe discovery access_token =
     rbind (ok_or (userinfo_endpoint discovery) (Internal ''OIDC provider does not expose userinfo_endpoint'')) (\<lambda>url.
     rbind (map_err (\<lambda>e. Internal (''userinfo fetch failed: '' @ e)) (oe_userinfo oe url access_token)) (\<lambda>body.
     rbind (map_err (\<lambda>e. Internal (''userinfo parse failed: '' @ e)) (oe_parse_userinfo oe body)) (\<lambda>info.
       ok_or (info_email info) (Internal ''OIDC userinfo response does not include email claim''))))"

definition issue_token_or_2fa_response ::
  "auth_env \<Rightarrow> user_row \<Rightarrow> device_context \<Rightarrow> auth_state \<Rightarrow> auth_state \<times> (api_error, token_or_2fa) result" where
  "issue_token_or_2fa_response env row device st =
     (case rbind (from_db_str (us_role row)) (\<lambda>role.
           let decision = decide_2fa role (us_totp_confirmed_at row \<noteq> None) in
           rbind (record_login (au_db env 1) (us_id row) (us_ws row) (us_email row) (us_role row) ByOidc decision (as_sess st)) (\<lambda>db.
             Inr (decision, db))) of
        Inl e \<Rightarrow> (st, Inl e)
      | Inr (decision, db) \<Rightarrow>
          (case finish_sign_in env (au_db env 2) row decision device db of
             Inl e \<Rightarrow> (st\<lparr>as_sess := db\<rparr>, Inl e)
           | Inr (res, db') \<Rightarrow> (st\<lparr>as_sess := db'\<rparr>, Inr res)))"

text \<open>The answers of the callback that are not an \<open>ApiError\<close>: the 400 for the state, the 401 for an unknown user.\<close>

datatype callback_response = InvalidState | UnknownUser | CallbackError api_error | CallbackToken token_or_2fa

type_synonym exchange_log = "(string \<times> string) list"

definition after_exchange ::
  "auth_env \<Rightarrow> oidc_env \<Rightarrow> headers \<Rightarrow> oidc_discovery \<Rightarrow> string \<Rightarrow> auth_state \<Rightarrow> auth_state \<times> callback_response" where
  "after_exchange env oe h discovery access_token st =
     (case rbind (fetch_oidc_email oe discovery access_token) (\<lambda>email. find_by_email_with_role (au_db env 0) email (as_sess st)) of
        Inl e \<Rightarrow> (st, CallbackError e)
      | Inr None \<Rightarrow> (st, UnknownUser)
      | Inr (Some row) \<Rightarrow>
          (case issue_token_or_2fa_response env row (device_from_headers env h) st of
             (st', Inl e) \<Rightarrow> (st', CallbackError e)
           | (st', Inr res) \<Rightarrow> (st', CallbackToken res)))"

definition oidc_callback ::
  "auth_env \<Rightarrow> oidc_env \<Rightarrow> headers \<Rightarrow> string \<Rightarrow> string \<Rightarrow> auth_state \<Rightarrow> exchange_log \<times> auth_state \<times> callback_response" where
  "oidc_callback env oe h code state_id st =
     (case rbind (read_oidc_env oe) (\<lambda>vars. rbind (discover_oidc oe (fst (snd (snd vars)))) (\<lambda>d. Inr (vars, d))) of
        Inl e \<Rightarrow> ([], st, CallbackError e)
      | Inr ((client_id, client_secret, issuer_url, redirect_uri), discovery) \<Rightarrow>
     (case consume_oidc_state (au_redis env) 0 state_id (as_redis st) of
        (Inl e, r) \<Rightarrow> ([], st\<lparr>as_redis := r\<rparr>, CallbackError e)
      | (Inr None, r) \<Rightarrow> ([], st\<lparr>as_redis := r\<rparr>, InvalidState)
      | (Inr (Some verifier_secret), r) \<Rightarrow>
          (let st = st\<lparr>as_redis := r\<rparr> in
           case build_oauth_client oe client_id client_secret (authorization_endpoint discovery) (token_endpoint discovery) redirect_uri of
             Inl e \<Rightarrow> ([], st, CallbackError e)
           | Inr client \<Rightarrow>
          (case oe_client_err oe of
             Some e \<Rightarrow> ([], st, CallbackError (Internal (''oauth2 http client build failed: '' @ e)))
           | None \<Rightarrow>
          (case oe_exchange oe client code verifier_secret of
             Inl e \<Rightarrow> ([(code, verifier_secret)], st, CallbackError (Unauthorized (''OIDC token exchange failed: '' @ e)))
           | Inr access_token \<Rightarrow> ([(code, verifier_secret)], after_exchange env oe h discovery access_token st))))))"

section \<open>Workspaces and registration\<close>

record workspace_row =
  wk_id :: uuid
  wk_name :: string
  wk_created_at :: int
  wk_updated_at :: int

definition DEFAULT_POLICY_CLASSES :: "string list" where
  "DEFAULT_POLICY_CLASSES = [
     ''PERSON'', ''EMAIL_ADDRESS'', ''PHONE_NUMBER'', ''CREDIT_CARD'', ''IBAN_CODE'', ''IBAN'',
     ''PINFL'', ''STIR'', ''MFO'', ''PASSPORT_NUMBER'', ''UZCARD'', ''HUMO'',
     ''AWS_ACCESS_KEY'', ''GOOGLE_API_KEY'', ''GCP_SERVICE_ACCOUNT_EMAIL'', ''AZURE_STORAGE_CONNECTION_STRING'',
     ''OPENAI_API_KEY'', ''ANTHROPIC_API_KEY'', ''STRIPE_SECRET_KEY'', ''STRIPE_PUBLISHABLE_KEY'',
     ''GITHUB_PAT'', ''GITHUB_FINE_GRAINED_PAT'', ''GITHUB_OAUTH_TOKEN'', ''GITHUB_REFRESH_TOKEN'',
     ''SLACK_BOT_TOKEN'', ''SLACK_USER_TOKEN'', ''SLACK_APP_TOKEN'',
     ''PRIVATE_KEY_PEM'', ''RSA_PRIVATE_KEY'', ''OPENSSH_PRIVATE_KEY'',
     ''POSTGRESQL_URI'', ''MONGODB_URI'', ''WEBHOOK_URL'',
     ''BEARER_TOKEN'', ''BASIC_AUTH_HEADER'', ''PASSWORD_ASSIGNMENT'', ''OAUTH_CLIENT_SECRET'', ''API_TOKEN_GENERIC'', ''JWT'']"

definition OPT_IN_ONLY_CLASSES :: "string list" where
  "OPT_IN_ONLY_CLASSES = [''SSN'', ''US_SSN'']"

record site =
  si_workspaces :: "workspace_row list"
  si_auth :: auth_state
  si_rules :: policy_db
  si_signup_limiter :: rate_limiter

definition ws_find_by_id :: "db_env \<Rightarrow> uuid \<Rightarrow> site \<Rightarrow> (api_error, workspace_row option) result" where
  "ws_find_by_id env ws s = rbind (stmt env 0) (\<lambda>_. Inr (find (\<lambda>w. wk_id w = ws) (si_workspaces s)))"

definition list_workspace_ids :: "db_env \<Rightarrow> site \<Rightarrow> (api_error, uuid list) result" where
  "list_workspace_ids env s = rbind (stmt env 0) (\<lambda>_. Inr (map wk_id (sort_key wk_created_at (si_workspaces s))))"

definition seed_conditions :: json where
  "seed_conditions = JArr [JObj [(''field'', JStr ''detection_class''), (''op'', JStr ''in''),
     (''value'', JArr (map JStr DEFAULT_POLICY_CLASSES))]]"

definition seed_rule :: "uuid \<Rightarrow> uuid \<Rightarrow> int \<Rightarrow> policy_rule" where
  "seed_rule rid ws now = \<lparr>rule_id = rid, rule_ws = ws, rule_name = ''Redact common PII'', priority = 100,
     conditions = seed_conditions, rule_action = ''redact'', action_params = JObj [], enabled = True, dry_run = False,
     created_at = now, updated_at = now\<rparr>"

text \<open>
  One transaction: \<open>BEGIN\<close> is statement 0, the workspace 3, the owner 4, arming the scope 1 and 2, the rule 5
  and \<open>COMMIT\<close> 6. Workspaces, users and rules have their id as primary key, users a unique email.
\<close>

definition create_with_owner ::
  "db_env \<Rightarrow> string \<Rightarrow> string \<Rightarrow> string \<Rightarrow> site \<Rightarrow> (api_error, workspace_row \<times> user_row \<times> site) result" where
  "create_with_owner env workspace_name email password_hash s =
     (let ws = \<lparr>wk_id = fresh_uuid env 3, wk_name = workspace_name, wk_created_at = now_ts env, wk_updated_at = now_ts env\<rparr>;
          db = as_sess (si_auth s);
          user = \<lparr>us_id = fresh_uuid env 4, us_ws = wk_id ws, us_email = email, us_password_hash = password_hash, us_role = ''owner'',
            us_created_at = now_ts env, us_updated_at = now_ts env, us_totp_secret = None, us_totp_confirmed_at = None,
            us_totp_last_timestep = None, us_totp_failed_attempts = 0, us_totp_locked_until = None\<rparr>;
          rule = seed_rule (fresh_uuid env 5) (wk_id ws) (now_ts env) in
      rbind (stmt env 0) (\<lambda>_.
      rbind (stmt env 3) (\<lambda>_.
      rbind (guard_err (wk_id ws \<in> wk_id ` set (si_workspaces s)) (Database (dup_err env))) (\<lambda>_.
      rbind (case stmt_err env 4 of
           Some e \<Rightarrow> Inl (email_conflict e)
         | None \<Rightarrow> if us_id user \<in> us_id ` set (users_tbl db) \<or> email \<in> us_email ` set (users_tbl db)
             then Inl (email_conflict (dup_err env)) else Inr ()) (\<lambda>_.
      rbind (arm_scope env (wk_id ws)) (\<lambda>_.
      rbind (stmt env 5) (\<lambda>_.
      rbind (guard_err (rule_id rule \<in> rule_id ` set (rules_tbl (si_rules s))) (Database (dup_err env))) (\<lambda>_.
      rbind (stmt env 6) (\<lambda>_.
        Inr (ws, user, s\<lparr>si_workspaces := si_workspaces s @ [ws],
          si_auth := (si_auth s)\<lparr>as_sess := db\<lparr>users_tbl := users_tbl db @ [user]\<rparr>\<rparr>,
          si_rules := (si_rules s)\<lparr>rules_tbl := rules_tbl (si_rules s) @ [rule]\<rparr>\<rparr>))))))))))"

record register_request =
  rg_email :: string
  rg_password :: string
  rg_workspace_name :: string

definition register ::
  "bool \<Rightarrow> auth_env \<Rightarrow> headers \<Rightarrow> register_request \<Rightarrow> site \<Rightarrow> site \<times> (api_error, token_response) result" where
  "register public_signup_enabled env h body s =
     (if \<not> public_signup_enabled then (s, Inl (Forbidden ''public signup is disabled on this deployment''))
      else case limiter_check (au_limit_at env 0) (''signup:'' @ client_ip_key h) (si_signup_limiter s) of
        (Inl _, rl) \<Rightarrow> (s\<lparr>si_signup_limiter := rl\<rparr>, Inl (TooManyRequests ''rate limit exceeded for signup''))
      | (Inr _, rl) \<Rightarrow>
          (let s = s\<lparr>si_signup_limiter := rl\<rparr>;
               email = to_lowercase (trim (rg_email body));
               workspace_name = trim (rg_workspace_name body) in
           case rbind (validate_register_input email (rg_password body) workspace_name) (\<lambda>_.
                rbind (map_err (\<lambda>e. Internal (''password hash failed: '' @ e)) (au_hash_password env (rg_password body))) (\<lambda>hash.
                  create_with_owner (au_db env 0) workspace_name email hash s)) of
             Inl e \<Rightarrow> (s, Inl e)
           | Inr (ws, user, s') \<Rightarrow>
               (case build_token_pair_body env (au_db env 1) (us_id user) (wk_id ws) ''owner'' (us_email user)
                       (device_from_headers env h) (as_sess (si_auth s')) of
                  Inl e \<Rightarrow> (s', Inl e)
                | Inr (resp, db) \<Rightarrow> (s'\<lparr>si_auth := (si_auth s')\<lparr>as_sess := db\<rparr>\<rparr>, Inr resp))))"

section \<open>A sign-on state is redeemed once\<close>

text \<open>
  Executions as traces, newest event first: an authorization that stored its state and verifier, or an
  exchange the callback sent. Times are those of the Redis clock. Other requests leave the state keys as
  they are or let them go.
\<close>

datatype sso_event = Issued int string string | Exchanged int string string

definition state_keys_kept :: "auth_state \<Rightarrow> auth_state \<Rightarrow> bool" where
  "state_keys_kept st st' = (\<forall>s. as_redis st' (oidc_state_key s) \<in> {as_redis st (oidc_state_key s), None})"

inductive sso_run :: "int \<Rightarrow> sso_event list \<Rightarrow> auth_state \<Rightarrow> bool" where
  start: "\<forall>s. as_redis st (oidc_state_key s) = None \<Longrightarrow> sso_run t [] st"
| issue: "sso_run t tr st \<Longrightarrow> t \<le> redis_now (au_redis env) \<Longrightarrow> oidc_authorize env oe st = (st', Inr url) \<Longrightarrow>
    sso_run (redis_now (au_redis env)) (Issued (redis_now (au_redis env)) (oe_csrf oe) (oe_verifier oe) # tr) st'"
| issue_fails: "sso_run t tr st \<Longrightarrow> t \<le> redis_now (au_redis env) \<Longrightarrow> oidc_authorize env oe st = (st', Inl e) \<Longrightarrow>
    sso_run (redis_now (au_redis env)) tr st'"
| redeem: "sso_run t tr st \<Longrightarrow> t \<le> redis_now (au_redis env) \<Longrightarrow> oidc_callback env oe h code s st = ([(code, v)], st', res) \<Longrightarrow>
    sso_run (redis_now (au_redis env)) (Exchanged (redis_now (au_redis env)) s v # tr) st'"
| redeem_fails: "sso_run t tr st \<Longrightarrow> t \<le> redis_now (au_redis env) \<Longrightarrow> oidc_callback env oe h code s st = ([], st', res) \<Longrightarrow>
    sso_run (redis_now (au_redis env)) tr st'"
| other: "sso_run t tr st \<Longrightarrow> t \<le> t' \<Longrightarrow> state_keys_kept st st' \<Longrightarrow> sso_run t' tr st'"

text \<open>The verifier and the deadline a state has after a trace.\<close>

fun pending_state :: "sso_event list \<Rightarrow> string \<Rightarrow> (string \<times> int) option" where
  "pending_state [] s = None"
| "pending_state (Issued t s' v # tr) s = (if s = s' then Some (v, t + int oidc_state_ttl) else pending_state tr s)"
| "pending_state (Exchanged t s' v # tr) s = (if s = s' then None else pending_state tr s)"

fun event_state :: "sso_event \<Rightarrow> string" where
  "event_state (Issued t s v) = s"
| "event_state (Exchanged t s v) = s"

definition states_follow :: "sso_event list \<Rightarrow> auth_state \<Rightarrow> bool" where
  "states_follow tr st = (\<forall>s x. as_redis st (oidc_state_key s) = Some x \<longrightarrow>
     (\<exists>v e. x = (RStr v, Some e) \<and> pending_state tr s = Some (v, e)))"

lemma oidc_state_key_eq [simp]: "oidc_state_key a = oidc_state_key b \<longleftrightarrow> a = b"
  by (simp add: oidc_state_key_def)

lemma states_followI:
  "(\<And>s x. as_redis st (oidc_state_key s) = Some x \<Longrightarrow> \<exists>v e. x = (RStr v, Some e) \<and> pending_state tr s = Some (v, e)) \<Longrightarrow> states_follow tr st"
  unfolding states_follow_def by blast

lemma states_followD:
  "states_follow tr st \<Longrightarrow> as_redis st (oidc_state_key s) = Some x \<Longrightarrow> \<exists>v e. x = (RStr v, Some e) \<and> pending_state tr s = Some (v, e)"
  unfolding states_follow_def by blast

lemma oidc_authorize_redis:
  assumes "oidc_authorize env oe st = (st', res)"
  shows "res = Inl e \<Longrightarrow> as_redis st' = as_redis st"
    and "res = Inr url \<Longrightarrow> as_redis st' = redis_set_ex (au_redis env) (oidc_state_key (oe_csrf oe)) (RStr (oe_verifier oe)) oidc_state_ttl (as_redis st)"
  using assms by (auto simp: oidc_authorize_def store_oidc_state_def rbind_Inr split: sum.splits)

lemma reply_str_cases:
  obtains e where "reply_str env x = Inl e" | v where "reply_str env x = Inr (Some v)" "x = Some (RStr v)" | "reply_str env x = Inr None"
  by (cases "(env, x)" rule: reply_str.cases) auto

lemma consume_oidc_state_cases:
  assumes "consume_oidc_state env k s r = (res, r')"
  obtains e where "res = Inl e" "r' = r"
    | v where "res = Inr (Some v)" "redis_get env (oidc_state_key s) r = Some (RStr v)" "r' = r(oidc_state_key s := None)"
    | "res = Inr None" "r' = r(oidc_state_key s := None)"
proof (cases "rbind (checkout env k) (\<lambda>_. redis_cmd env (k + 1))")
  case (Inl e)
  then show thesis using assms that(1) by (auto simp: consume_oidc_state_def)
next
  case (Inr u)
  show thesis
  proof (rule reply_str_cases [of env "redis_get env (oidc_state_key s) r"])
    fix e assume "reply_str env (redis_get env (oidc_state_key s) r) = Inl e"
    then show thesis using assms Inr by (intro that(1) [of e]) (simp_all add: consume_oidc_state_def)
  next
    fix v assume v: "reply_str env (redis_get env (oidc_state_key s) r) = Inr (Some v)" "redis_get env (oidc_state_key s) r = Some (RStr v)"
    then show thesis using assms Inr by (intro that(2) [of v]) (simp_all add: consume_oidc_state_def)
  next
    assume "reply_str env (redis_get env (oidc_state_key s) r) = Inr None"
    then show thesis using assms Inr by (intro that(3)) (simp_all add: consume_oidc_state_def)
  qed
qed

lemma after_exchange_redis: "after_exchange env oe h d a st = (st', res) \<Longrightarrow> as_redis st' = as_redis st"
  by (auto simp: after_exchange_def issue_token_or_2fa_response_def split: sum.splits option.splits prod.splits)

text \<open>The callback either consumes the state and sends one exchange with its verifier, or sends none.\<close>

lemma oidc_callback_redis:
  assumes "oidc_callback env oe h code s st = (calls, st', res)"
  shows "(calls = [] \<and> (as_redis st' = as_redis st \<or> as_redis st' = (as_redis st)(oidc_state_key s := None))) \<or>
    (\<exists>v. calls = [(code, v)] \<and> redis_get (au_redis env) (oidc_state_key s) (as_redis st) = Some (RStr v) \<and>
       as_redis st' = (as_redis st)(oidc_state_key s := None))"
proof -
  obtain cres r where c: "consume_oidc_state (au_redis env) 0 s (as_redis st) = (cres, r)" by fastforce
  from c show ?thesis
    by (rule consume_oidc_state_cases)
      (use assms c in \<open>auto simp: oidc_callback_def Let_def dest!: after_exchange_redis split: sum.splits option.splits prod.splits\<close>)
qed

lemma sso_run_follows: "sso_run t tr st \<Longrightarrow> states_follow tr st"
proof (induction rule: sso_run.induct)
  case (start st t)
  then show ?case by (simp add: states_follow_def)
next
  case (issue t tr st env oe st' url)
  show ?case
    using issue.IH oidc_authorize_redis(2) [OF issue.hyps(3) refl]
    by (intro states_followI) (auto simp: redis_set_ex_def dest: states_followD split: if_splits)
next
  case (issue_fails t tr st env oe st' e)
  then show ?case using oidc_authorize_redis(1) [OF issue_fails.hyps(3) refl] by (simp add: states_follow_def)
next
  case (redeem t tr st env oe h code s v st' res)
  have "as_redis st' = (as_redis st)(oidc_state_key s := None)"
    using oidc_callback_redis [OF redeem.hyps(3)] by auto
  with redeem.IH show ?case by (intro states_followI) (auto dest: states_followD split: if_splits)
next
  case (redeem_fails t tr st env oe h code s st' res)
  have "as_redis st' = as_redis st \<or> as_redis st' = (as_redis st)(oidc_state_key s := None)"
    using oidc_callback_redis [OF redeem_fails.hyps(3)] by auto
  with redeem_fails.IH show ?case by (intro states_followI) (auto dest: states_followD split: if_splits)
next
  case (other t tr st t' st')
  have "as_redis st (oidc_state_key s) = Some x" if "as_redis st' (oidc_state_key s) = Some x" for s x
    using other.hyps(3) that by (metis empty_iff insert_iff option.discI state_keys_kept_def)
  with other.IH show ?case by (intro states_followI) (blast dest: states_followD)
qed

lemma pending_state_origin:
  "pending_state tr s = Some (v, e) \<Longrightarrow>
   \<exists>mid t early. tr = mid @ Issued t s v # early \<and> e = t + int oidc_state_ttl \<and> (\<forall>x \<in> set mid. event_state x \<noteq> s)"
proof (induction tr s rule: pending_state.induct)
  case (2 t s' v' tr s)
  show ?case
  proof (cases "s = s'")
    case True
    with 2 show ?thesis by (intro exI [of _ "[]"]) auto
  next
    case False
    with 2 obtain mid t0 early where "tr = mid @ Issued t0 s v # early" "e = t0 + int oidc_state_ttl" "\<forall>x \<in> set mid. event_state x \<noteq> s"
      by auto
    with False have "Issued t s' v' # tr = (Issued t s' v' # mid) @ Issued t0 s v # early \<and> e = t0 + int oidc_state_ttl \<and>
        (\<forall>x \<in> set (Issued t s' v' # mid). event_state x \<noteq> s)" by auto
    then show ?thesis by blast
  qed
next
  case (3 t s' v' tr s)
  then obtain mid t0 early where "tr = mid @ Issued t0 s v # early" "e = t0 + int oidc_state_ttl" "\<forall>x \<in> set mid. event_state x \<noteq> s"
    by (auto split: if_splits)
  with 3 have "Exchanged t s' v' # tr = (Exchanged t s' v' # mid) @ Issued t0 s v # early \<and> e = t0 + int oidc_state_ttl \<and>
      (\<forall>x \<in> set (Exchanged t s' v' # mid). event_state x \<noteq> s)" by (auto split: if_splits)
  then show ?case by blast
qed simp

lemma redis_get_pending:
  assumes "states_follow tr st" "redis_get env (oidc_state_key s) (as_redis st) = Some (RStr v)"
  obtains e where "pending_state tr s = Some (v, e)" "redis_now env < e"
  using assms states_followD [OF assms(1), of s]
  by (fastforce simp: redis_get_def split: option.splits if_splits prod.splits)

definition redeems_last :: "sso_event list \<Rightarrow> bool" where
  "redeems_last tr = (\<forall>late t s v earlier. tr = late @ Exchanged t s v # earlier \<longrightarrow>
     (\<exists>mid t0 early. earlier = mid @ Issued t0 s v # early \<and> t < t0 + int oidc_state_ttl \<and> (\<forall>x \<in> set mid. event_state x \<noteq> s)))"

lemma redeems_last_Cons:
  "redeems_last (x # tr) \<longleftrightarrow> redeems_last tr \<and> (\<forall>t s v. x = Exchanged t s v \<longrightarrow>
     (\<exists>mid t0 early. tr = mid @ Issued t0 s v # early \<and> t < t0 + int oidc_state_ttl \<and> (\<forall>y \<in> set mid. event_state y \<noteq> s)))"
  unfolding redeems_last_def by (auto simp: Cons_eq_append_conv)

lemma redeems_last_Nil [simp]: "redeems_last []"
  by (simp add: redeems_last_def)

lemma sso_run_redeems: "sso_run t tr st \<Longrightarrow> redeems_last tr"
proof (induction rule: sso_run.induct)
  case (redeem t tr st env oe h code s v st' res)
  have "redis_get (au_redis env) (oidc_state_key s) (as_redis st) = Some (RStr v)"
    using oidc_callback_redis [OF redeem.hyps(3)] by auto
  from redis_get_pending [OF sso_run_follows [OF redeem.hyps(1)] this] obtain e
    where e: "pending_state tr s = Some (v, e)" "redis_now (au_redis env) < e" by blast
  show ?case using pending_state_origin [OF e(1)] e(2) redeem.IH unfolding redeems_last_Cons by auto
qed (simp_all add: redeems_last_Cons)

text \<open>
  C7. A sign-on state works once: in every execution each code exchange the callback sends carries the
  verifier of an authorization that stored the same state less than ten minutes before, and between the
  two the state was neither exchanged nor issued again.
\<close>

theorem sign_on_state_redeemed_once:
  assumes "sso_run now (late @ Exchanged t s v # earlier) st"
  shows "\<exists>mid t0 early. earlier = mid @ Issued t0 s v # early \<and> t < t0 + 600 \<and> (\<forall>x \<in> set mid. event_state x \<noteq> s)"
  using sso_run_redeems [OF assms] unfolding redeems_last_def by (simp add: oidc_state_ttl_def)

definition sso_demo_oe :: oidc_env where
  "sso_demo_oe = \<lparr>oe_var = Some, oe_fetch = Inr,
     oe_parse_discovery = (\<lambda>b. Inr \<lparr>authorization_endpoint = ''a'', token_endpoint = ''t'', userinfo_endpoint = Some ''u''\<rparr>),
     oe_url_err = (\<lambda>u. None), oe_verifier = ''v'', oe_csrf = ''s'', oe_challenge = id, oe_authorize_url = (\<lambda>c sc ch s. ch @ s),
     oe_client_err = None, oe_exchange = (\<lambda>c code v. Inr code), oe_userinfo = (\<lambda>u a. Inr a),
     oe_parse_userinfo = (\<lambda>b. Inr \<lparr>info_sub = b, info_email = Some b\<rparr>)\<rparr>"

theorem sign_on_state_redeemed_once_witness:
  "\<exists>st. sso_run 150 [Exchanged 150 ''s'' ''v'', Issued 100 ''s'' ''v''] st \<and>
     (\<exists>mid t0 early. [Issued 100 ''s'' ''v''] = mid @ Issued t0 ''s'' ''v'' # early \<and> 150 < t0 + 600)"
proof -
  let ?a = "oidc_authorize (auth_demo_env 100) sso_demo_oe auth_demo_state"
  let ?c = "oidc_callback (auth_demo_env 150) sso_demo_oe auth_demo_headers ''c'' ''s'' (fst ?a)"
  have a: "\<exists>url. ?a = (fst ?a, Inr url)"
    by (simp add: oidc_authorize_def read_oidc_env_def oidc_var_def discover_oidc_def build_oauth_client_def oauth_url_def
        store_oidc_state_def checkout_def redis_cmd_def sso_demo_oe_def auth_demo_env_def map_err_def ok_or_def)
  have r: "as_redis (fst ?a) = (\<lambda>k. None)(oidc_state_key ''s'' \<mapsto> (RStr ''v'', Some 700))"
    using a oidc_authorize_redis(2) [of "auth_demo_env 100" sso_demo_oe auth_demo_state]
    by (auto simp: redis_set_ex_def auth_demo_state_def auth_demo_env_def sso_demo_oe_def oidc_state_ttl_def)
  have c: "fst ?c = [(''c'', ''v'')]" by code_simp
  have n: "redis_now (au_redis (auth_demo_env t)) = t" for t by (simp add: auth_demo_env_def)
  have "sso_run 100 [Issued 100 ''s'' ''v''] (fst ?a)"
    using a issue [OF sso_run.start [of auth_demo_state 0], of "auth_demo_env 100" sso_demo_oe "fst ?a"]
    by (auto simp: n auth_demo_state_def sso_demo_oe_def)
  from redeem [OF this, of "auth_demo_env 150" sso_demo_oe auth_demo_headers "''c''" "''s''" "''v''" "fst (snd ?c)" "snd (snd ?c)"]
  have run: "sso_run 150 ([] @ Exchanged 150 ''s'' ''v'' # [Issued 100 ''s'' ''v'']) (fst (snd ?c))"
    using c by (simp add: n prod_eq_iff)
  from sign_on_state_redeemed_once [OF run] run show ?thesis by fastforce
qed

text \<open>
  Single sign-on gives access tokens only to a user whose stored address is exactly the claimed one, whose
  role does not require a second factor and who has none; everyone else gets a token for the second step.
\<close>

lemma oidc_access_needs_no_second_factor:
  assumes "oidc_callback env oe h code s st = (calls, st', CallbackToken (AccessTokens tok))"
  shows "\<exists>row \<in> set (users_tbl (as_sess st)). (\<exists>d a. fetch_oidc_email oe d a = Inr (us_email row)) \<and>
    us_totp_confirmed_at row = None \<and> us_role row \<notin> {''owner'', ''admin''}"
proof -
  obtain d a st1 where x: "after_exchange env oe h d a st1 = (st', CallbackToken (AccessTokens tok))" "as_sess st1 = as_sess st"
    using assms by (auto simp: oidc_callback_def Let_def split: sum.splits option.splits prod.splits)
  obtain row where row: "find (\<lambda>r. us_email r = us_email row) (users_tbl (as_sess st1)) = Some row" "fetch_oidc_email oe d a = Inr (us_email row)"
      "issue_token_or_2fa_response env row (device_from_headers env h) st1 = (st', Inr (AccessTokens tok))"
    using x(1) find_SomeD by (auto simp: after_exchange_def find_by_email_with_role_def rbind_Inr
        split: sum.splits option.splits prod.splits) fastforce
  obtain role where "from_db_str (us_role row) = Inr role" "decide_2fa role (us_totp_confirmed_at row \<noteq> None) = GrantAccess"
    using row(3) by (auto simp: issue_token_or_2fa_response_def rbind_Inr finish_sign_in_def Let_def
        split: sum.splits prod.splits twofa_decision.splits)
  then have "us_totp_confirmed_at row = None \<and> us_role row \<notin> {''owner'', ''admin''}"
    by (auto simp: decide_2fa_def from_db_str_def split: if_splits)
  with find_SomeD [OF row(1)] row(2) x(2) show ?thesis by auto
qed

section \<open>A new workspace is protected from its first request\<close>

lemma create_with_owner_rules:
  assumes "create_with_owner env name email hash s = Inr (ws, user, s')"
  shows "rules_tbl (si_rules s') = rules_tbl (si_rules s) @ [seed_rule (fresh_uuid env 5) (wk_id ws) (now_ts env)]"
    "wk_id ws \<notin> wk_id ` set (si_workspaces s)"
  using assms by (auto simp: create_with_owner_def Let_def rbind_Inr split: option.splits if_splits)

lemma register_rules:
  assumes "register allowed env h body s = (s', Inr resp)"
  obtains rid where "rules_tbl (si_rules s') = rules_tbl (si_rules s) @ [seed_rule rid (tk_workspace_id resp) (now_ts (au_db env 0))]"
    "tk_workspace_id resp \<notin> wk_id ` set (si_workspaces s)" "tk_role resp = ''owner''"
proof -
  obtain name email hash ws user s1 rl db where *:
    "create_with_owner (au_db env 0) name email hash (s\<lparr>si_signup_limiter := rl\<rparr>) = Inr (ws, user, s1)"
    "build_token_pair_body env (au_db env 1) (us_id user) (wk_id ws) ''owner'' (us_email user) (device_from_headers env h)
       (as_sess (si_auth s1)) = Inr (resp, db)" "si_rules s' = si_rules s1"
    using assms by (auto simp: register_def Let_def rbind_Inr split: if_splits sum.splits prod.splits)
  have "tk_workspace_id resp = wk_id ws" "tk_role resp = ''owner''"
    using *(2) by (auto simp: build_token_pair_body_def rbind_Inr token_response_of_def)
  with create_with_owner_rules [OF *(1)] *(3) show ?thesis by (intro that) auto
qed

lemma seed_rule_matches:
  assumes "d \<in> set (pe_detections inp)" "det_class d \<in> set DEFAULT_POLICY_CLASSES"
  shows "rule_matches rx (seed_rule rid ws now) inp"
proof -
  define v where "v = JArr (map JStr DEFAULT_POLICY_CLASSES)"
  have v: "any_str (\<lambda>f. class_filter_matches f (det_class d)) v"
    using assms(2) by (auto simp: v_def any_str_def list_ex_iff class_filter_matches_def map_filter_def o_def)
  let ?c = "JObj [(''field'', JStr ''detection_class''), (''op'', JStr ''in''), (''value'', v)]"
  have "is_detection_scoped ?c" "matches_detection_condition ?c d"
    using v by (simp_all add: is_detection_scoped_def matches_detection_condition_def get_str_def)
  then show ?thesis
    using assms(1) by (auto simp: rule_matches_def seed_rule_def seed_conditions_def v_def [symmetric] list_ex_iff)
qed

text \<open>
  C17. A workspace is protected from its first request: after a registration, and whatever rule requests other
  workspaces send, its enabled rules redact in a fail-closed deployment every detection of any prompt that
  has a detection of a default class, without denying the request and without another rule's event.
\<close>

theorem registered_workspace_redacts_by_default:
  assumes "register allowed env h body s = (s', Inr resp)"
    and "\<forall>r \<in> set (rules_tbl (si_rules s)). rule_ws r \<in> wk_id ` set (si_workspaces s)"
    and "\<forall>q \<in> set qs. request_tenant q \<noteq> tk_workspace_id resp"
    and "list_enabled_rules dbe (serve_all qs (si_rules s')) (tk_workspace_id resp) = Inr rs"
    and "d \<in> set (pe_detections inp)" "det_class d \<in> set DEFAULT_POLICY_CLASSES" "fail_closed inp"
  shows "\<exists>out v' m'. evaluate rx (Inr rs) inp v m = Inr (out, v', m') \<and>
    apply_redaction (pe_content inp) (pe_detections inp) v m = (oc_content out, v', m') \<and>
    final_action (oc_result out) = ''redact'' \<and> \<not> oc_denied out \<and> \<not> oc_unprotected out \<and> length (events (oc_result out)) = 1"
proof -
  obtain rid where reg: "rules_tbl (si_rules s') = rules_tbl (si_rules s) @ [seed_rule rid (tk_workspace_id resp) (now_ts (au_db env 0))]"
    "tk_workspace_id resp \<notin> wk_id ` set (si_workspaces s)"
    using register_rules [OF assms(1)] by blast
  let ?r = "seed_rule rid (tk_workspace_id resp) (now_ts (au_db env 0))"
  have "rules_view (tk_workspace_id resp) (si_rules s') = [?r]"
    using reg assms(2) by (simp add: rules_view_def seed_rule_def filter_empty_conv) (metis (no_types))
  then have "rs = [?r]"
    using assms(4) ps.run_frame [OF assms(3), of "si_rules s'"]
    by (auto simp: list_enabled_rules_def list_rules_def rbind_Inr rules_view_def serve_all_def seed_rule_def)
  moreover have "rule_matches rx ?r inp" by (rule seed_rule_matches [OF assms(5,6)])
  moreover obtain t v' m' where "apply_redaction (pe_content inp) (pe_detections inp) v m = (t, v', m')" by (metis prod_cases3)
  ultimately show ?thesis
    using assms(7) by (simp add: evaluate_policy_spec policy_spec_def decides_def known_actions_def decided_content_def seed_rule_def)
qed

definition site_demo :: site where
  "site_demo = \<lparr>si_workspaces = [], si_auth = auth_demo_state, si_rules = \<lparr>rules_tbl = [], audit_tbl = [], index_queue = []\<rparr>,
     si_signup_limiter = \<lparr>rl_window = 0, rl_max = 5, rl_buckets = [(''signup:unknown'', [])]\<rparr>\<rparr>"

definition register_demo :: register_request where
  "register_demo = \<lparr>rg_email = '' New@x '', rg_password = ''password'', rg_workspace_name = ''w''\<rparr>"

definition input_demo :: policy_input where
  "input_demo = \<lparr>pe_provider_name = ''p'', pe_model = ''m'', pe_content = ''call Ann'',
     pe_detections = [\<lparr>det_class = ''PERSON'', confidence = 1, det_span = Some (5, 8), det_value = ''Ann''\<rparr>], fail_closed = True\<rparr>"

lemma register_demo_runs:
  "\<not> isl (snd (register True (auth_demo_env 100) auth_demo_headers register_demo site_demo))"
  by code_simp

theorem registered_workspace_redacts_by_default_witness:
  "\<exists>s' resp rs out v' m'. register True (auth_demo_env 100) auth_demo_headers register_demo site_demo = (s', Inr resp) \<and>
     list_enabled_rules demo_env (si_rules s') (tk_workspace_id resp) = Inr rs \<and>
     evaluate (\<lambda>_. None) (Inr rs) input_demo vault_empty [] = Inr (out, v', m') \<and> final_action (oc_result out) = ''redact''"
proof -
  obtain s' resp where r: "register True (auth_demo_env 100) auth_demo_headers register_demo site_demo = (s', Inr resp)"
    using register_demo_runs by (metis isl_def old.sum.exhaust prod.collapse)
  have "\<exists>rs. list_enabled_rules demo_env (serve_all [] (si_rules s')) (tk_workspace_id resp) = Inr rs"
    by (simp add: list_enabled_rules_def list_rules_def begin_scoped_def arm_scope_def scope_is_armed_def stmt_def demo_env_def serve_all_def)
  then obtain rs where rs: "list_enabled_rules demo_env (serve_all [] (si_rules s')) (tk_workspace_id resp) = Inr rs" by blast
  have d: "hd (pe_detections input_demo) \<in> set (pe_detections input_demo)" "det_class (hd (pe_detections input_demo)) \<in> set DEFAULT_POLICY_CLASSES"
    "fail_closed input_demo" by (simp_all add: input_demo_def DEFAULT_POLICY_CLASSES_def)
  from registered_workspace_redacts_by_default [OF r _ _ rs d, of "\<lambda>_. None" vault_empty "[]"] r rs show ?thesis
    by (auto simp: site_demo_def serve_all_def)
qed

text \<open>Registration mints an access pair for an owner; a sign-in of the same account only gets an enrolment token.\<close>

lemma registration_skips_second_factor:
  assumes "register allowed env h body s = (s', Inr resp)"
  shows "tk_role resp = ''owner'' \<and> decide_2fa Owner False = Enroll"
  using register_rules [OF assms] by (auto simp: decide_2fa_def)

end
