(* ===== verification/Provider_Admin.thy ===== *)
theory Provider_Admin
  imports Policy_Store Provider_Http
begin

text \<open>
  Providers and their models: the repository (\<open>db/provider_repo.rs\<close>) and the dashboard handlers
  (\<open>dashboard/providers.rs\<close>): credentials at rest, the additive model sync with its exclusions, and the
  queries that resolve a model on the request path.

  The key-management backend, base64 and the outbound calls are parameters. A handler runs several
  transactions, each with its own \<^typ>\<open>db_env\<close>. Deleting a provider removes its models (the foreign key's
  \<open>ON DELETE CASCADE\<close>); both tables have their id as primary key.
\<close>

section \<open>The tables\<close>

record provider_rec =
  pt_id :: uuid
  pt_ws :: uuid
  pt_name :: string
  pt_type :: string
  pt_credential :: "string option"
  pt_created_at :: int
  pt_updated_at :: int
  pt_config :: json

record model_rec =
  mr_id :: uuid
  mr_ws :: uuid
  mr_provider :: uuid
  mr_name :: string
  mr_created_at :: int
  mr_excluded :: bool

record provider_db =
  prov_tbl :: "provider_rec list"
  models_tbl :: "model_rec list"
  prov_audit :: "audit_row list"

section \<open>The repository\<close>

definition list_providers :: "db_env \<Rightarrow> uuid \<Rightarrow> provider_db \<Rightarrow> (api_error, provider_rec list) result" where
  "list_providers env ws db =
     rbind (begin_scoped env ws) (\<lambda>_. rbind (stmt env 3) (\<lambda>_. rbind (stmt env 4) (\<lambda>_.
       Inr (sort_key (\<lambda>p. - pt_created_at p) (filter (\<lambda>p. pt_ws p = ws) (prov_tbl db))))))"

definition repo_create_provider ::
  "db_env \<Rightarrow> uuid \<Rightarrow> string \<Rightarrow> string \<Rightarrow> string option \<Rightarrow> json \<Rightarrow> admin_actor \<Rightarrow> provider_db
     \<Rightarrow> (api_error, provider_rec \<times> provider_db) result" where
  "repo_create_provider env ws name provider_type credential config actor db =
     rbind (begin_scoped env ws) (\<lambda>_. rbind (stmt env 3) (\<lambda>_.
       let pid = fresh_uuid env 3 in
       if \<exists>p \<in> set (prov_tbl db). pt_id p = pid then Inl (Database (dup_err env))
       else
         let row = \<lparr>pt_id = pid, pt_ws = ws, pt_name = name, pt_type = provider_type, pt_credential = credential,
                    pt_created_at = now_ts env, pt_updated_at = now_ts env, pt_config = config\<rparr> in
         rbind (audit_write env 4 actor
             (with_detail (JObj [(''provider_type'', JStr provider_type), (''credential_present'', JBool (credential \<noteq> None))])
               (on_object ProviderCredentialCreated pid (Some name))) (prov_audit db)) (\<lambda>aud.
         rbind (stmt env 5) (\<lambda>_. Inr (row, db\<lparr>prov_tbl := prov_tbl db @ [row], prov_audit := aud\<rparr>)))))"

definition is_provider :: "uuid \<Rightarrow> uuid \<Rightarrow> provider_rec \<Rightarrow> bool" where
  "is_provider pid ws p = (pt_id p = pid \<and> pt_ws p = ws)"

definition repo_update_provider ::
  "db_env \<Rightarrow> uuid \<Rightarrow> uuid \<Rightarrow> string option \<Rightarrow> string option \<Rightarrow> string option option \<Rightarrow> json option \<Rightarrow> admin_actor
     \<Rightarrow> provider_db \<Rightarrow> (api_error, provider_rec \<times> provider_db) result" where
  "repo_update_provider env ws pid name provider_type credential config actor db =
     rbind (begin_scoped env ws) (\<lambda>_. rbind (stmt env 3) (\<lambda>_.
     rbind (ok_or (find (is_provider pid ws) (prov_tbl db))
              (NotFound (''provider '' @ show_uuid env pid @ '' not found''))) (\<lambda>current.
       let new_name = unwrap_or (pt_name current) name;
           new_type = unwrap_or (pt_type current) provider_type;
           new_cred = unwrap_or (pt_credential current) credential;
           new_config = unwrap_or (pt_config current) config;
           upd = (\<lambda>p. p\<lparr>pt_name := new_name, pt_type := new_type, pt_credential := new_cred, pt_config := new_config,
                        pt_updated_at := now_ts env\<rparr>);
           changed = changed_field ''provider_type'' (JStr (pt_type current)) (JStr new_type)
             (changed_field ''name'' (JStr (pt_name current)) (JStr new_name) []) in
       rbind (stmt env 4) (\<lambda>_.
       rbind (audit_write env 5 actor
           (with_detail (JObj [(''changed'', JObj changed),
              (''credential_replaced'', JBool (case credential of Some (Some _) \<Rightarrow> True | _ \<Rightarrow> False)),
              (''credential_cleared'', JBool (credential = Some None)),
              (''config_changed'', JBool (pt_config current \<noteq> new_config))])
             (on_object ProviderCredentialUpdated pid (Some new_name))) (prov_audit db)) (\<lambda>aud.
       rbind (stmt env 6) (\<lambda>_.
         Inr (upd current, db\<lparr>prov_tbl := map (\<lambda>p. if is_provider pid ws p then upd p else p) (prov_tbl db),
                              prov_audit := aud\<rparr>)))))))"

definition repo_delete_provider ::
  "db_env \<Rightarrow> uuid \<Rightarrow> uuid \<Rightarrow> admin_actor \<Rightarrow> provider_db \<Rightarrow> (api_error, provider_db) result" where
  "repo_delete_provider env ws pid actor db =
     rbind (begin_scoped env ws) (\<lambda>_. rbind (stmt env 3) (\<lambda>_.
     rbind (ok_or (find (is_provider pid ws) (prov_tbl db))
              (NotFound (''provider '' @ show_uuid env pid @ '' not found''))) (\<lambda>deleted.
     rbind (audit_write env 4 actor
         (with_detail (JObj [(''provider_type'', JStr (pt_type deleted))])
           (on_object ProviderCredentialDeleted pid (Some (pt_name deleted)))) (prov_audit db)) (\<lambda>aud.
     rbind (stmt env 5) (\<lambda>_.
       Inr (db\<lparr>prov_tbl := filter (\<lambda>p. \<not> is_provider pid ws p) (prov_tbl db),
               models_tbl := filter (\<lambda>m. mr_provider m \<noteq> pid) (models_tbl db), prov_audit := aud\<rparr>))))))"

definition is_model :: "uuid \<Rightarrow> uuid \<Rightarrow> string \<Rightarrow> model_rec \<Rightarrow> bool" where
  "is_model ws pid name m = (mr_ws m = ws \<and> mr_provider m = pid \<and> mr_name m = name)"

text \<open>The listings order by name in the database's collation, a parameter, and by creation.\<close>

definition list_models_for_provider ::
  "(string \<Rightarrow> 'k::linorder) \<Rightarrow> db_env \<Rightarrow> uuid \<Rightarrow> uuid \<Rightarrow> provider_db \<Rightarrow> (api_error, model_rec list) result" where
  "list_models_for_provider collate env ws pid db =
     rbind (begin_scoped env ws) (\<lambda>_. rbind (stmt env 3) (\<lambda>_. rbind (stmt env 4) (\<lambda>_.
       Inr (sort_key (\<lambda>m. collate (mr_name m))
         (filter (\<lambda>m. mr_ws m = ws \<and> mr_provider m = pid \<and> \<not> mr_excluded m) (models_tbl db))))))"

definition set_excluded :: "(model_rec \<Rightarrow> bool) \<Rightarrow> bool \<Rightarrow> provider_db \<Rightarrow> provider_db" where
  "set_excluded P b db = db\<lparr>models_tbl := map (\<lambda>m. if P m then m\<lparr>mr_excluded := b\<rparr> else m) (models_tbl db)\<rparr>"

definition create_model ::
  "db_env \<Rightarrow> uuid \<Rightarrow> uuid \<Rightarrow> string \<Rightarrow> provider_db \<Rightarrow> (api_error, model_rec \<times> provider_db) result" where
  "create_model env ws pid name db =
     rbind (begin_scoped env ws) (\<lambda>_. rbind (stmt env 3) (\<lambda>_.
     if \<not> list_ex (is_provider pid ws) (prov_tbl db)
     then Inl (NotFound (''provider '' @ show_uuid env pid @ '' not found in workspace''))
     else rbind (stmt env 4) (\<lambda>_.
       case find (is_model ws pid name) (models_tbl db) of
         Some row \<Rightarrow>
           rbind (if mr_excluded row then stmt env 5 else Inr ()) (\<lambda>_. rbind (stmt env 6) (\<lambda>_.
             Inr (row, if mr_excluded row then set_excluded (\<lambda>m. mr_id m = mr_id row) False db else db)))
       | None \<Rightarrow>
           rbind (stmt env 5) (\<lambda>_.
           let mid = fresh_uuid env 5;
               row = \<lparr>mr_id = mid, mr_ws = ws, mr_provider = pid, mr_name = name, mr_created_at = now_ts env, mr_excluded = False\<rparr> in
           if \<exists>m \<in> set (models_tbl db). mr_id m = mid then Inl (Database (dup_err env))
           else rbind (stmt env 6) (\<lambda>_. Inr (row, db\<lparr>models_tbl := models_tbl db @ [row]\<rparr>))))))"

definition delete_model :: "db_env \<Rightarrow> uuid \<Rightarrow> uuid \<Rightarrow> string \<Rightarrow> provider_db \<Rightarrow> (api_error, unit) result \<times> provider_db" where
  "delete_model env ws pid name db =
     (case rbind (begin_scoped env ws) (\<lambda>_. rbind (stmt env 3) (\<lambda>_. stmt env 4)) of
        Inl e \<Rightarrow> (Inl e, db)
      | Inr _ \<Rightarrow>
          (let P = (\<lambda>m. is_model ws pid name m \<and> \<not> mr_excluded m) in
           (if list_ex P (models_tbl db) then Inr ()
            else Inl (NotFound (''model '' @ name @ '' not found for provider '' @ show_uuid env pid)),
            set_excluded P True db)))"

definition bulk_exclude_models ::
  "db_env \<Rightarrow> uuid \<Rightarrow> uuid \<Rightarrow> string list \<Rightarrow> provider_db \<Rightarrow> (api_error, nat \<times> provider_db) result" where
  "bulk_exclude_models env ws pid names db =
     (if names = [] then Inr (0, db)
      else rbind (begin_scoped env ws) (\<lambda>_. rbind (stmt env 3) (\<lambda>_. rbind (stmt env 4) (\<lambda>_.
        let P = (\<lambda>m. mr_ws m = ws \<and> mr_provider m = pid \<and> mr_name m \<in> set names \<and> \<not> mr_excluded m) in
        Inr (length (filter P (models_tbl db)), set_excluded P True db)))))"

definition list_excluded_model_names_for_provider ::
  "db_env \<Rightarrow> uuid \<Rightarrow> uuid \<Rightarrow> provider_db \<Rightarrow> (api_error, string list) result" where
  "list_excluded_model_names_for_provider env ws pid db =
     rbind (begin_scoped env ws) (\<lambda>_. rbind (stmt env 3) (\<lambda>_. rbind (stmt env 4) (\<lambda>_.
       Inr (map mr_name (filter (\<lambda>m. mr_ws m = ws \<and> mr_provider m = pid \<and> mr_excluded m) (models_tbl db))))))"

definition list_models :: "db_env \<Rightarrow> uuid \<Rightarrow> provider_db \<Rightarrow> (api_error, model_rec list) result" where
  "list_models env ws db =
     rbind (begin_scoped env ws) (\<lambda>_. rbind (stmt env 3) (\<lambda>_. rbind (stmt env 4) (\<lambda>_.
       Inr (sort_key (\<lambda>m. - mr_created_at m) (filter (\<lambda>m. mr_ws m = ws \<and> \<not> mr_excluded m) (models_tbl db))))))"

text \<open>The join of \<open>resolve_model_targets\<close>, ordered by the model's, then the provider's creation.\<close>

definition model_provider_pairs :: "uuid \<Rightarrow> string \<Rightarrow> provider_db \<Rightarrow> (model_rec \<times> provider_rec) list" where
  "model_provider_pairs ws model_name db =
     filter (\<lambda>(m, p). pt_id p = mr_provider m \<and> mr_ws m = ws \<and> pt_ws p = ws \<and> mr_name m = model_name)
       (List.product (models_tbl db) (prov_tbl db))"

definition resolve_model_targets :: "db_env \<Rightarrow> uuid \<Rightarrow> string \<Rightarrow> provider_db \<Rightarrow> (api_error, model_target list) result" where
  "resolve_model_targets env ws model_name db =
     rbind (begin_scoped env ws) (\<lambda>_. rbind (stmt env 3) (\<lambda>_. rbind (stmt env 4) (\<lambda>_.
       Inr (map (\<lambda>(m, p). \<lparr>mt_model_id = mr_id m, mt_workspace_id = mr_ws m, mt_provider_id = pt_id p, mt_provider_name = pt_name p,
              mt_provider_type = pt_type p, mt_model_name = mr_name m, mt_encrypted_credential = pt_credential p, mt_config = pt_config p\<rparr>)
         (sort_key (\<lambda>(m, p). mr_created_at m) (sort_key (\<lambda>(m, p). pt_created_at p) (model_provider_pairs ws model_name db)))))))"

section \<open>Credentials at rest\<close>

record 'k provider_env =
  pa_env :: "nat \<Rightarrow> db_env"
  pa_actor_email :: "string option"
  pa_encrypt :: "string \<Rightarrow> (string, string) result"
  pa_decrypt :: "string \<Rightarrow> (string, string) result"
  pa_b64_encode :: "string \<Rightarrow> string"
  pa_b64_decode :: "string \<Rightarrow> (string, string) result"
  pa_utf8_err :: "string \<Rightarrow> string"
  pa_collate :: "string \<Rightarrow> 'k"
  pa_egress :: egress_env

definition encrypt_credential :: "('k, 'z) provider_env_scheme \<Rightarrow> string option \<Rightarrow> (api_error, string option) result" where
  "encrypt_credential pa plaintext =
     (case plaintext of
        None \<Rightarrow> Inr None
      | Some s \<Rightarrow> rbind (map_err (\<lambda>e. Internal (''credential encryption failed: '' @ e)) (pa_encrypt pa s)) (\<lambda>c.
          Inr (Some (pa_b64_encode pa c))))"

definition decrypt_stored_credential :: "('k, 'z) provider_env_scheme \<Rightarrow> string \<Rightarrow> (api_error, string) result" where
  "decrypt_stored_credential pa stored =
     rbind (map_err (\<lambda>e. Internal (''credential decode failed: '' @ e)) (pa_b64_decode pa stored)) (\<lambda>raw.
     rbind (map_err (\<lambda>e. Internal (''credential decryption failed: '' @ e)) (pa_decrypt pa raw)) (\<lambda>plaintext.
       if valid_utf8 plaintext then Inr plaintext
       else Inl (Internal (''credential not valid UTF-8: '' @ pa_utf8_err pa plaintext))))"

definition config_base_url :: "json \<Rightarrow> string option" where
  "config_base_url config = Option.bind (get_str config ''base_url'') (\<lambda>s. let t = trim s in if t = [] then None else Some t)"

section \<open>Model sync\<close>

record sync_models_response =
  sy_added :: "string list"
  sy_kept :: "string list"
  sy_total :: "32 word"

definition model_name_limit :: nat where
  "model_name_limit = 200"

text \<open>The loop: a failed insert is logged and skipped.\<close>

fun sync_loop ::
  "(nat \<Rightarrow> db_env) \<Rightarrow> uuid \<Rightarrow> uuid \<Rightarrow> string list \<Rightarrow> string list \<Rightarrow> nat \<Rightarrow> string list \<Rightarrow> string list \<times> string list \<Rightarrow> provider_db
     \<Rightarrow> (string list \<times> string list) \<times> provider_db" where
  "sync_loop envs ws pid existing excluded i [] acc db = (acc, db)"
| "sync_loop envs ws pid existing excluded i (x # xs) (added, kept) db =
     (let trimmed = trim x in
      if trimmed = [] \<or> length trimmed > model_name_limit then sync_loop envs ws pid existing excluded (Suc i) xs (added, kept) db
      else if trimmed \<in> set excluded then sync_loop envs ws pid existing excluded (Suc i) xs (added, kept) db
      else if trimmed \<in> set existing then sync_loop envs ws pid existing excluded (Suc i) xs (added, kept @ [trimmed]) db
      else case create_model (envs i) ws pid trimmed db of
        Inr (_, db') \<Rightarrow> sync_loop envs ws pid existing excluded (Suc i) xs (added @ [trimmed], kept) db'
      | Inl _ \<Rightarrow> sync_loop envs ws pid existing excluded (Suc i) xs (added, kept) db)"

definition persist_synced_models ::
  "('k::linorder, 'z) provider_env_scheme \<Rightarrow> uuid \<Rightarrow> uuid \<Rightarrow> string list \<Rightarrow> provider_db
     \<Rightarrow> (api_error, sync_models_response) result \<times> provider_db" where
  "persist_synced_models pa ws pid upstream_ids db =
     (case list_models_for_provider (pa_collate pa) (pa_env pa 10) ws pid db of
        Inl e \<Rightarrow> (Inl e, db)
      | Inr rows \<Rightarrow>
     (case list_excluded_model_names_for_provider (pa_env pa 11) ws pid db of
        Inl e \<Rightarrow> (Inl e, db)
      | Inr excluded \<Rightarrow>
     (let ((added, kept), db') = sync_loop (\<lambda>i. pa_env pa (12 + i)) ws pid (map mr_name rows) excluded 0 upstream_ids ([], []) db
      in (Inr \<lparr>sy_added = added, sy_kept = kept, sy_total = of_nat (length added + length kept)\<rparr>, db'))))"

definition auto_sync_models ::
  "('k::linorder, 'z) provider_env_scheme \<Rightarrow> uuid \<Rightarrow> uuid \<Rightarrow> string \<Rightarrow> string \<Rightarrow> string option \<Rightarrow> provider_db \<Rightarrow> provider_db" where
  "auto_sync_models pa ws pid provider_type credential base_url db =
     (case snd (list_upstream_models (pa_egress pa) provider_type credential base_url) of
        Inl _ \<Rightarrow> db
      | Inr ids \<Rightarrow> snd (persist_synced_models pa ws pid ids db))"

section \<open>The handlers\<close>

record model_summary =
  su_id :: uuid
  su_name :: string

record dash_provider_response =
  pp_id :: uuid
  pp_name :: string
  pp_type :: string
  pp_has_credential :: bool
  pp_last_rotated_at :: int
  pp_created_at :: int
  pp_config :: json
  pp_models :: "model_summary list"

definition model_summary_of :: "model_rec \<Rightarrow> model_summary" where
  "model_summary_of m = \<lparr>su_id = mr_id m, su_name = mr_name m\<rparr>"

definition provider_response_of :: "provider_rec \<Rightarrow> model_rec list \<Rightarrow> dash_provider_response" where
  "provider_response_of r ms = \<lparr>pp_id = pt_id r, pp_name = pt_name r, pp_type = pt_type r, pp_has_credential = (pt_credential r \<noteq> None),
     pp_last_rotated_at = pt_updated_at r, pp_created_at = pt_created_at r, pp_config = pt_config r,
     pp_models = map model_summary_of ms\<rparr>"

fun list_items :: "('k::linorder, 'z) provider_env_scheme \<Rightarrow> uuid \<Rightarrow> nat \<Rightarrow> provider_rec list \<Rightarrow> provider_db \<Rightarrow> (api_error, dash_provider_response list) result" where
  "list_items pa ws i [] db = Inr []"
| "list_items pa ws i (r # rs) db =
     rbind (list_models_for_provider (pa_collate pa) (pa_env pa i) ws (pt_id r) db) (\<lambda>ms.
     rbind (list_items pa ws (Suc i) rs db) (\<lambda>items. Inr (provider_response_of r ms # items)))"

definition list_providers_handler :: "('k::linorder, 'z) provider_env_scheme \<Rightarrow> jwt_ctx \<Rightarrow> provider_db \<Rightarrow> (api_error, dash_provider_response list) result" where
  "list_providers_handler pa ctx db =
     rbind (list_providers (pa_env pa 0) (ctx_workspace_id ctx) db) (\<lambda>rows. list_items pa (ctx_workspace_id ctx) 1 rows db)"

definition provider_actor :: "('k, 'z) provider_env_scheme \<Rightarrow> jwt_ctx \<Rightarrow> admin_actor" where
  "provider_actor pa ctx = actor_resolve (pa_actor_email pa) (ctx_workspace_id ctx) (ctx_user_id ctx) (as_db_str (ctx_role ctx))"

record create_provider_request =
  cq_name :: string
  cq_provider_type :: string
  cq_credential :: "string option"
  cq_config :: "json option"

text \<open>After the write: the best-effort sync when a credential was given, then the listing of the answer.\<close>

definition answer_provider ::
  "('k::linorder, 'z) provider_env_scheme \<Rightarrow> uuid \<Rightarrow> provider_rec \<Rightarrow> string option \<Rightarrow> provider_db
     \<Rightarrow> (api_error, dash_provider_response) result \<times> provider_db" where
  "answer_provider pa ws record credential db =
     (let db' = (case credential of
                   Some plaintext \<Rightarrow> auto_sync_models pa ws (pt_id record) (pt_type record) plaintext (config_base_url (pt_config record)) db
                 | None \<Rightarrow> db)
      in (rbind (list_models_for_provider (pa_collate pa) (pa_env pa 1) ws (pt_id record) db') (\<lambda>ms.
            Inr (provider_response_of record ms)), db'))"

definition create_provider ::
  "('k::linorder, 'z) provider_env_scheme \<Rightarrow> jwt_ctx \<Rightarrow> create_provider_request \<Rightarrow> provider_db
     \<Rightarrow> (api_error, dash_provider_response) result \<times> provider_db" where
  "create_provider pa ctx body db =
     (case rbind (require_role ctx Admin) (\<lambda>_. rbind (encrypt_credential pa (cq_credential body)) (\<lambda>encrypted.
             repo_create_provider (pa_env pa 0) (ctx_workspace_id ctx) (cq_name body) (cq_provider_type body) encrypted
               (unwrap_or (JObj []) (cq_config body)) (provider_actor pa ctx) db)) of
        Inl e \<Rightarrow> (Inl e, db)
      | Inr (record, db1) \<Rightarrow> answer_provider pa (ctx_workspace_id ctx) record (cq_credential body) db1)"

record update_provider_request =
  uq_name :: "string option"
  uq_provider_type :: "string option"
  uq_credential :: "string option"
  uq_config :: "json option"

definition update_provider ::
  "('k::linorder, 'z) provider_env_scheme \<Rightarrow> jwt_ctx \<Rightarrow> uuid \<Rightarrow> update_provider_request \<Rightarrow> provider_db
     \<Rightarrow> (api_error, dash_provider_response) result \<times> provider_db" where
  "update_provider pa ctx pid body db =
     (case rbind (require_role ctx Admin) (\<lambda>_.
           rbind (if uq_credential body \<noteq> None
                  then rbind (encrypt_credential pa (uq_credential body)) (\<lambda>c. Inr (Some c))
                  else Inr None) (\<lambda>encrypted_update.
             repo_update_provider (pa_env pa 0) (ctx_workspace_id ctx) pid (uq_name body) (uq_provider_type body)
               encrypted_update (uq_config body) (provider_actor pa ctx) db)) of
        Inl e \<Rightarrow> (Inl e, db)
      | Inr (record, db1) \<Rightarrow> answer_provider pa (ctx_workspace_id ctx) record (uq_credential body) db1)"

definition delete_provider :: "('k, 'z) provider_env_scheme \<Rightarrow> jwt_ctx \<Rightarrow> uuid \<Rightarrow> provider_db \<Rightarrow> (api_error, provider_db) result" where
  "delete_provider pa ctx pid db =
     rbind (require_role ctx Admin) (\<lambda>_. repo_delete_provider (pa_env pa 0) (ctx_workspace_id ctx) pid (provider_actor pa ctx) db)"

definition list_provider_models ::
  "('k::linorder, 'z) provider_env_scheme \<Rightarrow> jwt_ctx \<Rightarrow> uuid \<Rightarrow> provider_db \<Rightarrow> (api_error, model_summary list) result" where
  "list_provider_models pa ctx pid db =
     rbind (list_models_for_provider (pa_collate pa) (pa_env pa 0) (ctx_workspace_id ctx) pid db) (\<lambda>rows.
       Inr (map model_summary_of rows))"

definition add_provider_model ::
  "('k, 'z) provider_env_scheme \<Rightarrow> jwt_ctx \<Rightarrow> uuid \<Rightarrow> string \<Rightarrow> provider_db \<Rightarrow> (api_error, model_summary \<times> provider_db) result" where
  "add_provider_model pa ctx pid name db =
     rbind (require_role ctx Admin) (\<lambda>_.
     let trimmed = trim name in
     rbind (guard_err (trimmed = []) (BadRequest ''model name must not be empty'')) (\<lambda>_.
     rbind (guard_err (length trimmed > model_name_limit) (BadRequest ''model name too long (>200 chars)'')) (\<lambda>_.
     rbind (create_model (pa_env pa 0) (ctx_workspace_id ctx) pid trimmed db) (\<lambda>(row, db').
       Inr (model_summary_of row, db')))))"

definition delete_provider_model ::
  "('k, 'z) provider_env_scheme \<Rightarrow> jwt_ctx \<Rightarrow> uuid \<Rightarrow> string \<Rightarrow> provider_db \<Rightarrow> (api_error, unit) result \<times> provider_db" where
  "delete_provider_model pa ctx pid name db =
     (case require_role ctx Admin of
        Inl e \<Rightarrow> (Inl e, db)
      | Inr _ \<Rightarrow> delete_model (pa_env pa 0) (ctx_workspace_id ctx) pid name db)"

definition bulk_delete_provider_models ::
  "('k, 'z) provider_env_scheme \<Rightarrow> jwt_ctx \<Rightarrow> uuid \<Rightarrow> string list \<Rightarrow> provider_db \<Rightarrow> (api_error, nat \<times> provider_db) result" where
  "bulk_delete_provider_models pa ctx pid names db =
     rbind (require_role ctx Admin) (\<lambda>_. bulk_exclude_models (pa_env pa 0) (ctx_workspace_id ctx) pid names db)"

record test_connection_request =
  tc_provider_type :: string
  tc_credential :: string
  tc_base_url :: "string option"
  tc_config :: "json option"

definition test_connection_unsaved ::
  "('k, 'z) provider_env_scheme \<Rightarrow> jwt_ctx \<Rightarrow> test_connection_request \<Rightarrow> (api_error, sent list \<times> test_result) result" where
  "test_connection_unsaved pa ctx body =
     rbind (require_role ctx Admin) (\<lambda>_.
       let cfg = (case tc_config body of Some v \<Rightarrow> vertex_config_from_value v | None \<Rightarrow> \<lparr>vc_region = None, vc_project = None\<rparr>) in
       Inr (test_connection (pa_egress pa) (tc_provider_type body) (tc_credential body) (tc_base_url body)
              (vc_region cfg) (vc_project cfg)))"

text \<open>The stored provider and its plaintext credential, as the test and the sync of a stored provider read them.\<close>

definition stored_target ::
  "('k, 'z) provider_env_scheme \<Rightarrow> jwt_ctx \<Rightarrow> uuid \<Rightarrow> string \<Rightarrow> provider_db \<Rightarrow> (api_error, provider_rec \<times> string) result" where
  "stored_target pa ctx pid purpose db =
     rbind (require_role ctx Admin) (\<lambda>_.
     rbind (list_providers (pa_env pa 0) (ctx_workspace_id ctx) db) (\<lambda>providers.
     rbind (ok_or (find (\<lambda>p. pt_id p = pid) providers)
              (NotFound (''provider '' @ show_uuid (pa_env pa 0) pid @ '' not found''))) (\<lambda>target.
     rbind (ok_or (pt_credential target) (BadRequest (''provider has no stored credential to '' @ purpose))) (\<lambda>stored.
     rbind (decrypt_stored_credential pa stored) (\<lambda>plaintext. Inr (target, plaintext))))))"

definition test_connection_stored ::
  "('k, 'z) provider_env_scheme \<Rightarrow> jwt_ctx \<Rightarrow> uuid \<Rightarrow> provider_db \<Rightarrow> (api_error, sent list \<times> test_result) result" where
  "test_connection_stored pa ctx pid db =
     rbind (stored_target pa ctx pid ''test'' db) (\<lambda>(target, plaintext).
       let cfg = vertex_config_from_value (pt_config target) in
       Inr (test_connection (pa_egress pa) (pt_type target) plaintext None (vc_region cfg) (vc_project cfg)))"

definition sync_provider_models ::
  "('k::linorder, 'z) provider_env_scheme \<Rightarrow> jwt_ctx \<Rightarrow> uuid \<Rightarrow> provider_db \<Rightarrow> (api_error, sync_models_response) result \<times> provider_db" where
  "sync_provider_models pa ctx pid db =
     (case stored_target pa ctx pid ''sync'' db of
        Inl e \<Rightarrow> (Inl e, db)
      | Inr (target, plaintext) \<Rightarrow>
     (case snd (list_upstream_models (pa_egress pa) (pt_type target) plaintext (config_base_url (pt_config target))) of
        Inl e \<Rightarrow> (Inl (BadRequest (''upstream model sync failed: '' @ e)), db)
      | Inr ids \<Rightarrow> persist_synced_models pa (ctx_workspace_id ctx) (pt_id target) ids db))"

text \<open>A request that may change the tables, and the tables after it.\<close>

datatype provider_action =
    CreateProvider create_provider_request
  | UpdateProvider uuid update_provider_request
  | DeleteProvider uuid
  | AddModel uuid string
  | DeleteModel uuid string
  | BulkDelete uuid "string list"
  | SyncModels uuid

definition provider_serve :: "('k::linorder, 'z) provider_env_scheme \<times> jwt_ctx \<times> provider_action \<Rightarrow> provider_db \<Rightarrow> provider_db" where
  "provider_serve q db = (case q of (pa, ctx, act) \<Rightarrow>
     (case act of
        CreateProvider body \<Rightarrow> snd (create_provider pa ctx body db)
      | UpdateProvider pid body \<Rightarrow> snd (update_provider pa ctx pid body db)
      | DeleteProvider pid \<Rightarrow> (case delete_provider pa ctx pid db of Inl _ \<Rightarrow> db | Inr db' \<Rightarrow> db')
      | AddModel pid name \<Rightarrow> (case add_provider_model pa ctx pid name db of Inl _ \<Rightarrow> db | Inr (_, db') \<Rightarrow> db')
      | DeleteModel pid name \<Rightarrow> snd (delete_provider_model pa ctx pid name db)
      | BulkDelete pid names \<Rightarrow> (case bulk_delete_provider_models pa ctx pid names db of Inl _ \<Rightarrow> db | Inr (_, db') \<Rightarrow> db')
      | SyncModels pid \<Rightarrow> snd (sync_provider_models pa ctx pid db)))"

section \<open>The steps on the tables\<close>

text \<open>
  What the requests of one workspace do to the tables, as labelled steps: a model is listed when it is
  inserted or its exclusion is lifted.
\<close>

datatype prov_event = Kept | Removed uuid | Listed uuid string

inductive prov_step :: "uuid \<Rightarrow> prov_event \<Rightarrow> provider_db \<Rightarrow> provider_db \<Rightarrow> bool" for ws where
  add_provider: "\<forall>p \<in> set (prov_tbl db). pt_id p \<noteq> pt_id row \<Longrightarrow> pt_ws row = ws \<Longrightarrow>
    prov_step ws Kept db (db\<lparr>prov_tbl := prov_tbl db @ [row], prov_audit := aud\<rparr>)"
| change_provider: "(\<And>p. pt_id (upd p) = pt_id p \<and> pt_ws (upd p) = pt_ws p) \<Longrightarrow>
    prov_step ws Kept db (db\<lparr>prov_tbl := map (\<lambda>p. if is_provider pid ws p then upd p else p) (prov_tbl db), prov_audit := aud\<rparr>)"
| remove_provider: "deleted \<in> set (prov_tbl db) \<Longrightarrow> is_provider pid ws deleted \<Longrightarrow>
    prov_step ws (Removed pid) db (db\<lparr>prov_tbl := filter (\<lambda>p. \<not> is_provider pid ws p) (prov_tbl db),
      models_tbl := filter (\<lambda>m. mr_provider m \<noteq> pid) (models_tbl db), prov_audit := aud\<rparr>)"
| insert_model: "prv \<in> set (prov_tbl db) \<Longrightarrow> is_provider pid ws prv \<Longrightarrow> is_model ws pid name row \<Longrightarrow>
    \<forall>m \<in> set (models_tbl db). mr_id m \<noteq> mr_id row \<and> \<not> is_model ws pid name m \<Longrightarrow>
    prov_step ws (Listed pid name) db (db\<lparr>models_tbl := models_tbl db @ [row]\<rparr>)"
| relist_model: "row \<in> set (models_tbl db) \<Longrightarrow> is_model ws pid name row \<Longrightarrow>
    prov_step ws (Listed pid name) db (set_excluded (\<lambda>m. mr_id m = mr_id row) False db)"
| prune_models: "(\<And>m. P m \<Longrightarrow> mr_ws m = ws) \<Longrightarrow> prov_step ws Kept db (set_excluded P True db)"

inductive prov_steps :: "uuid \<Rightarrow> prov_event list \<Rightarrow> provider_db \<Rightarrow> provider_db \<Rightarrow> bool" for ws where
  steps_none: "prov_steps ws [] db db"
| steps_more: "prov_step ws e db db1 \<Longrightarrow> prov_steps ws es db1 db2 \<Longrightarrow> prov_steps ws (e # es) db db2"

lemma prov_steps_one: "prov_step ws e db db' \<Longrightarrow> prov_steps ws [e] db db'"
  by (blast intro: prov_steps.intros)

lemma prov_steps_append: "prov_steps ws es db db1 \<Longrightarrow> prov_steps ws fs db1 db2 \<Longrightarrow> prov_steps ws (es @ fs) db db2"
  by (induction rule: prov_steps.induct) (auto intro: prov_steps.intros)

lemma create_model_steps:
  assumes "create_model env ws pid name db = Inr (row, db')"
  obtains "db' = db" | "prov_step ws (Listed pid name) db db'"
proof -
  have owner: "list_ex (is_provider pid ws) (prov_tbl db)"
    using assms by (auto simp: create_model_def rbind_Inr split: if_splits)
  then obtain prv where prv: "prv \<in> set (prov_tbl db)" "is_provider pid ws prv" by (auto simp: list_ex_iff)
  show ?thesis
  proof (cases "find (is_model ws pid name) (models_tbl db)")
    case (Some r)
    then have r: "r \<in> set (models_tbl db)" "is_model ws pid name r" by (auto simp: find_Some_iff)
    from assms Some owner have "db' = db \<or> db' = set_excluded (\<lambda>m. mr_id m = mr_id r) False db"
      by (auto simp: create_model_def rbind_Inr split: if_splits)
    then show ?thesis using relist_model [OF r] that by blast
  next
    case None
    then have absent: "\<forall>m \<in> set (models_tbl db). \<not> is_model ws pid name m" by (auto simp: find_None_iff)
    from assms None owner show ?thesis
      by (auto simp: create_model_def rbind_Inr Let_def is_model_def split: if_splits
          intro!: that(2) insert_model [OF prv] bexI dest: absent [unfolded is_model_def, rule_format])
  qed
qed

lemma repo_create_provider_step:
  "repo_create_provider env ws name ty cred cfg actor db = Inr (row, db') \<Longrightarrow> prov_step ws Kept db db'"
  by (auto simp: repo_create_provider_def rbind_Inr Let_def split: if_splits intro!: add_provider)

lemma repo_update_provider_step:
  "repo_update_provider env ws pid name ty cred cfg actor db = Inr (row, db') \<Longrightarrow> prov_step ws Kept db db'"
  by (auto simp: repo_update_provider_def rbind_Inr Let_def intro!: change_provider)

lemma repo_delete_provider_step:
  "repo_delete_provider env ws pid actor db = Inr db' \<Longrightarrow> prov_step ws (Removed pid) db db'"
  by (auto simp: repo_delete_provider_def rbind_Inr Let_def find_Some_iff intro!: remove_provider)

lemma delete_model_step:
  obtains "snd (delete_model env ws pid name db) = db" | "prov_step ws Kept db (snd (delete_model env ws pid name db))"
proof -
  have "prov_step ws Kept db (set_excluded (\<lambda>m. is_model ws pid name m \<and> \<not> mr_excluded m) True db)"
    by (rule prune_models) (simp add: is_model_def)
  moreover have "snd (delete_model env ws pid name db) \<in> {db, set_excluded (\<lambda>m. is_model ws pid name m \<and> \<not> mr_excluded m) True db}"
    by (simp add: delete_model_def Let_def split: sum.splits)
  ultimately show ?thesis using that by auto
qed

lemma bulk_exclude_models_step:
  assumes "bulk_exclude_models env ws pid names db = Inr (n, db')"
  obtains "db' = db" | "prov_step ws Kept db db'"
proof -
  have "prov_step ws Kept db (set_excluded (\<lambda>m. mr_ws m = ws \<and> mr_provider m = pid \<and> mr_name m \<in> set names \<and> \<not> mr_excluded m) True db)"
    by (rule prune_models) simp
  with assms show ?thesis by (auto simp: bulk_exclude_models_def rbind_Inr Let_def split: if_splits intro: that)
qed

text \<open>Every listing the sync does is of a name that was not among the exclusions it read.\<close>

lemma sync_loop_steps:
  "\<exists>es. prov_steps ws es db (snd (sync_loop envs ws pid existing excluded i xs acc db)) \<and>
     (\<forall>e \<in> set es. \<exists>n. e = Listed pid n \<and> n \<notin> set excluded)"
proof (induction envs ws pid existing excluded i xs acc db rule: sync_loop.induct)
  case (2 envs ws pid existing excluded i x xs added kept db)
  let ?t = "trim x"
  consider "?t = [] \<or> length ?t > model_name_limit \<or> ?t \<in> set excluded" | "?t \<notin> set excluded" "?t \<in> set existing" "\<not> (?t = [] \<or> length ?t > model_name_limit)"
    | (create) "\<not> (?t = [] \<or> length ?t > model_name_limit)" "?t \<notin> set excluded" "?t \<notin> set existing"
    by blast
  then show ?case
  proof cases
    case create
    note ih = "2.IH"(5,4) [OF refl create]
    show ?thesis
    proof (cases "create_model (envs i) ws pid ?t db")
      case (Inl e)
      then show ?thesis using ih(2) [OF Inl] create by simp
    next
      case (Inr res)
      obtain row db' where res: "res = (row, db')" by (cases res)
      obtain es where es: "prov_steps ws es db' (snd (sync_loop envs ws pid existing excluded (Suc i) xs (added @ [?t], kept) db'))"
        "\<forall>e \<in> set es. \<exists>n. e = Listed pid n \<and> n \<notin> set excluded"
        using ih(1) [OF Inr [unfolded res] refl] by blast
      have eq: "sync_loop envs ws pid existing excluded i (x # xs) (added, kept) db =
          sync_loop envs ws pid existing excluded (Suc i) xs (added @ [?t], kept) db'"
        using create Inr res by simp
      from Inr [unfolded res] show ?thesis
      proof (rule create_model_steps)
        assume "db' = db"
        with es show ?thesis unfolding eq by blast
      next
        assume "prov_step ws (Listed pid ?t) db db'"
        from steps_more [OF this es(1)] show ?thesis unfolding eq using es(2) create(2)
          by (intro exI [of _ "Listed pid ?t # es"]) simp
      qed
    qed
  qed (use 2 in \<open>auto simp: Let_def\<close>)
qed (auto intro: prov_steps.intros exI [of _ "[]"])

definition excluded_name :: "uuid \<Rightarrow> uuid \<Rightarrow> string \<Rightarrow> provider_db \<Rightarrow> bool" where
  "excluded_name ws pid name db = list_ex (\<lambda>m. is_model ws pid name m \<and> mr_excluded m) (models_tbl db)"

lemma persist_synced_models_steps:
  "\<exists>es. prov_steps ws es db (snd (persist_synced_models pa ws pid ids db)) \<and>
     (\<forall>e \<in> set es. \<exists>n. e = Listed pid n \<and> \<not> excluded_name ws pid n db)"
proof -
  let ?ex = "map mr_name (filter (\<lambda>m. mr_ws m = ws \<and> mr_provider m = pid \<and> mr_excluded m) (models_tbl db))"
  have ex: "n \<in> set ?ex \<longleftrightarrow> excluded_name ws pid n db" for n
    by (auto simp: excluded_name_def list_ex_iff is_model_def)
  consider "snd (persist_synced_models pa ws pid ids db) = db"
    | existing where "snd (persist_synced_models pa ws pid ids db) =
        snd (sync_loop (\<lambda>i. pa_env pa (12 + i)) ws pid existing ?ex 0 ids ([], []) db)"
  proof (cases "list_models_for_provider (pa_collate pa) (pa_env pa 10) ws pid db")
    case (Inr rows)
    show thesis
    proof (cases "list_excluded_model_names_for_provider (pa_env pa 11) ws pid db")
      case (Inr xs)
      then have "xs = ?ex" by (auto simp: list_excluded_model_names_for_provider_def rbind_Inr)
      with Inr \<open>list_models_for_provider _ _ _ _ _ = Inr rows\<close> show thesis
        by (intro that(2) [of "map mr_name rows"]) (simp add: persist_synced_models_def split_def Let_def)
    qed (use Inr in \<open>auto simp: persist_synced_models_def intro: that(1)\<close>)
  qed (auto simp: persist_synced_models_def intro: that(1))
  then show ?thesis
  proof cases
    case 1
    then show ?thesis by (intro exI [of _ "[]"]) (simp add: prov_steps.intros)
  next
    case (2 existing)
    then show ?thesis
      using sync_loop_steps [of ws db "\<lambda>i. pa_env pa (12 + i)" pid existing ?ex 0 ids "([], [])"] by (simp only: ex)
  qed
qed

text \<open>What a request may do: a removal is the request's own, a listing is the request's own or of a name not excluded.\<close>

definition event_allowed :: "uuid \<Rightarrow> provider_action \<Rightarrow> provider_db \<Rightarrow> prov_event \<Rightarrow> bool" where
  "event_allowed ws act db e = (case e of
     Kept \<Rightarrow> True
   | Removed pid \<Rightarrow> act = DeleteProvider pid
   | Listed pid n \<Rightarrow> (\<exists>x. act = AddModel pid x \<and> trim x = n) \<or> \<not> excluded_name ws pid n db)"

lemma event_allowed_simps [simp]:
  "event_allowed ws act db Kept"
  "event_allowed ws act db (Removed pid) \<longleftrightarrow> act = DeleteProvider pid"
  "event_allowed ws act db (Listed pid n) \<longleftrightarrow> (\<exists>x. act = AddModel pid x \<and> trim x = n) \<or> \<not> excluded_name ws pid n db"
  by (simp_all add: event_allowed_def)

definition served_by_steps :: "uuid \<Rightarrow> provider_action \<Rightarrow> provider_db \<Rightarrow> provider_db \<Rightarrow> bool" where
  "served_by_steps ws act db db' = (\<exists>es. prov_steps ws es db db' \<and> (\<forall>e \<in> set es. event_allowed ws act db e))"

lemma served_by_none [simp]: "served_by_steps ws act db db"
  unfolding served_by_steps_def by (intro exI [of _ "[]"]) (simp add: prov_steps.intros)

lemma served_by_step: "prov_step ws e db db' \<Longrightarrow> event_allowed ws act db e \<Longrightarrow> served_by_steps ws act db db'"
  unfolding served_by_steps_def by (intro exI [of _ "[e]"]) (simp add: prov_steps_one)

lemma served_by_sync: "served_by_steps ws act db (snd (persist_synced_models pa ws pid ids db))"
  using persist_synced_models_steps [of ws db pa pid ids] unfolding served_by_steps_def by fastforce

lemma served_by_cons:
  "prov_step ws Kept db db1 \<Longrightarrow> models_tbl db1 = models_tbl db \<Longrightarrow> served_by_steps ws act db1 db2 \<Longrightarrow> served_by_steps ws act db db2"
proof -
  assume st: "prov_step ws Kept db db1" and eq: "models_tbl db1 = models_tbl db" and "served_by_steps ws act db1 db2"
  then obtain es where "prov_steps ws es db1 db2" "\<forall>e \<in> set es. event_allowed ws act db1 e"
    by (auto simp: served_by_steps_def)
  moreover have "event_allowed ws act db1 e = event_allowed ws act db e" for e
    by (cases e) (simp_all add: excluded_name_def eq)
  ultimately show ?thesis unfolding served_by_steps_def
    using steps_more [OF st] by (intro exI [of _ "Kept # es"]) simp
qed

lemma answer_provider_steps: "served_by_steps ws act db (snd (answer_provider pa ws record cred db))"
  by (auto simp: answer_provider_def auto_sync_models_def Let_def served_by_sync split: option.splits sum.splits)

lemma repo_create_provider_models:
  "repo_create_provider env ws name ty cred cfg actor db = Inr (row, db') \<Longrightarrow> models_tbl db' = models_tbl db"
  by (auto simp: repo_create_provider_def rbind_Inr Let_def split: if_splits)

lemma repo_update_provider_models:
  "repo_update_provider env ws pid name ty cred cfg actor db = Inr (row, db') \<Longrightarrow> models_tbl db' = models_tbl db"
  by (auto simp: repo_update_provider_def rbind_Inr Let_def)

lemma create_provider_steps: "served_by_steps (ctx_workspace_id ctx) act db (snd (create_provider pa ctx body db))"
  by (auto simp: create_provider_def rbind_Inr split: sum.splits
      intro!: served_by_cons [OF repo_create_provider_step repo_create_provider_models answer_provider_steps])

lemma update_provider_steps: "served_by_steps (ctx_workspace_id ctx) act db (snd (update_provider pa ctx pid body db))"
  by (auto simp: update_provider_def rbind_Inr split: sum.splits
      intro!: served_by_cons [OF repo_update_provider_step repo_update_provider_models answer_provider_steps])

lemma sync_provider_models_steps: "served_by_steps (ctx_workspace_id ctx) act db (snd (sync_provider_models pa ctx pid db))"
  by (auto simp: sync_provider_models_def served_by_sync split: sum.splits)

lemma add_provider_model_steps:
  assumes "add_provider_model pa ctx pid name db = Inr (s, db')"
  shows "served_by_steps (ctx_workspace_id ctx) (AddModel pid name) db db'"
proof -
  obtain row where "create_model (pa_env pa 0) (ctx_workspace_id ctx) pid (trim name) db = Inr (row, db')"
    using assms by (auto simp: add_provider_model_def rbind_Inr Let_def)
  then show ?thesis by (rule create_model_steps) (auto intro: served_by_step)
qed

lemma delete_provider_model_steps: "served_by_steps (ctx_workspace_id ctx) act db (snd (delete_provider_model pa ctx pid name db))"
  by (rule delete_model_step [of "pa_env pa 0" "ctx_workspace_id ctx" pid name db])
    (auto simp: delete_provider_model_def split: sum.splits intro: served_by_step)

lemma bulk_delete_steps:
  assumes "bulk_delete_provider_models pa ctx pid names db = Inr (n, db')"
  shows "served_by_steps (ctx_workspace_id ctx) act db db'"
proof -
  have "bulk_exclude_models (pa_env pa 0) (ctx_workspace_id ctx) pid names db = Inr (n, db')"
    using assms by (auto simp: bulk_delete_provider_models_def rbind_Inr)
  then show ?thesis by (rule bulk_exclude_models_step) (auto intro: served_by_step)
qed

lemma delete_provider_steps:
  "delete_provider pa ctx pid db = Inr db' \<Longrightarrow> served_by_steps (ctx_workspace_id ctx) (DeleteProvider pid) db db'"
  by (auto simp: delete_provider_def rbind_Inr intro: served_by_step [OF repo_delete_provider_step])

lemma provider_serve_steps: "served_by_steps (ctx_workspace_id ctx) act db (provider_serve (pa, ctx, act) db)"
  by (cases act) (auto simp: provider_serve_def create_provider_steps update_provider_steps delete_provider_model_steps
      sync_provider_models_steps split: sum.splits
      intro: delete_provider_steps add_provider_model_steps bulk_delete_steps)

section \<open>The invariant of the tables\<close>

text \<open>Ids are unique and every model belongs to a provider of its own workspace.\<close>

definition provider_inv :: "provider_db \<Rightarrow> bool" where
  "provider_inv db = (distinct (map pt_id (prov_tbl db)) \<and> distinct (map mr_id (models_tbl db)) \<and>
     (\<forall>m \<in> set (models_tbl db). \<exists>p \<in> set (prov_tbl db). is_provider (mr_provider m) (mr_ws m) p))"

lemma set_excluded_ids [simp]:
  "map mr_id (models_tbl (set_excluded P b db)) = map mr_id (models_tbl db)" "prov_tbl (set_excluded P b db) = prov_tbl db"
  by (simp_all add: set_excluded_def)

lemma set_excluded_owner [simp]:
  "(\<forall>m \<in> set (models_tbl (set_excluded P b db)). Q (mr_ws m) (mr_provider m)) \<longleftrightarrow>
   (\<forall>m \<in> set (models_tbl db). Q (mr_ws m) (mr_provider m))"
  by (simp add: set_excluded_def del: if_image_distrib)

lemma same_id_same_provider:
  "provider_inv db \<Longrightarrow> p \<in> set (prov_tbl db) \<Longrightarrow> q \<in> set (prov_tbl db) \<Longrightarrow> pt_id p = pt_id q \<Longrightarrow> p = q"
  by (auto simp: provider_inv_def distinct_map dest: inj_onD)

lemma same_id_same_model:
  "provider_inv db \<Longrightarrow> m \<in> set (models_tbl db) \<Longrightarrow> n \<in> set (models_tbl db) \<Longrightarrow> mr_id m = mr_id n \<Longrightarrow> m = n"
  by (auto simp: provider_inv_def distinct_map dest: inj_onD)

lemma distinct_map_filter: "distinct (map f xs) \<Longrightarrow> distinct (map f (filter P xs))"
  by (simp add: distinct_map inj_on_def)

lemma prov_step_inv: "prov_step ws e db db' \<Longrightarrow> provider_inv db \<Longrightarrow> provider_inv db'"
proof (induction rule: prov_step.induct)
  case (change_provider upd db aud pid)
  define f where "f = (\<lambda>p. if is_provider pid ws p then upd p else p)"
  have f: "pt_id (f p) = pt_id p" "is_provider a b (f p) = is_provider a b p" for a b p
    using change_provider(1) by (simp_all add: f_def is_provider_def)
  have "map pt_id (map f (prov_tbl db)) = map pt_id (prov_tbl db)" by (simp add: f)
  with change_provider(2) show ?case
    unfolding f_def [symmetric] provider_inv_def by (simp add: f comp_def)
next
  case (remove_provider deleted db pid aud)
  have "is_provider pid ws p \<longleftrightarrow> pt_id p = pid" if "p \<in> set (prov_tbl db)" for p
  proof
    assume "pt_id p = pid"
    then have "deleted = p"
      using same_id_same_provider [OF remove_provider(3,1) that] remove_provider(2) unfolding is_provider_def by blast
    with remove_provider(2) show "is_provider pid ws p" by blast
  qed (simp add: is_provider_def)
  then have "filter (\<lambda>p. \<not> is_provider pid ws p) (prov_tbl db) = filter (\<lambda>p. pt_id p \<noteq> pid) (prov_tbl db)"
    by (intro filter_cong) simp_all
  moreover have "\<exists>p \<in> set (filter (\<lambda>p. pt_id p \<noteq> pid) (prov_tbl db)). is_provider (mr_provider m) (mr_ws m) p"
    if "m \<in> set (filter (\<lambda>m. mr_provider m \<noteq> pid) (models_tbl db))" for m
  proof -
    from that have "m \<in> set (models_tbl db)" "mr_provider m \<noteq> pid" by simp_all
    then show ?thesis using remove_provider(3) unfolding provider_inv_def is_provider_def by fastforce
  qed
  ultimately show ?case
    using remove_provider(3) unfolding provider_inv_def by (simp add: distinct_map_filter)
next
  case (insert_model prv db pid name row)
  then show ?case by (auto simp: provider_inv_def is_model_def)
qed (auto simp: provider_inv_def set_excluded_owner [where Q = "\<lambda>w a. \<exists>p \<in> set _. is_provider a w p"])

lemma prov_steps_inv: "prov_steps ws es db db' \<Longrightarrow> provider_inv db \<Longrightarrow> provider_inv db'"
  by (induction rule: prov_steps.induct) (auto dest: prov_step_inv)

lemma provider_serve_inv: "provider_inv db \<Longrightarrow> provider_inv (provider_serve (pa, ctx, act) db)"
  using provider_serve_steps [of ctx act db pa] prov_steps_inv by (auto simp: served_by_steps_def)

section \<open>A removed model stays removed\<close>

definition pruned :: "uuid \<Rightarrow> uuid \<Rightarrow> string \<Rightarrow> provider_db \<Rightarrow> bool" where
  "pruned ws pid name db = (excluded_name ws pid name db \<and>
     (\<forall>m \<in> set (models_tbl db). is_model ws pid name m \<longrightarrow> mr_excluded m))"

lemma set_excluded_models:
  "m \<in> set (models_tbl (set_excluded P b db)) \<longleftrightarrow>
   (\<exists>m0 \<in> set (models_tbl db). m = (if P m0 then m0\<lparr>mr_excluded := b\<rparr> else m0))"
  by (auto simp: set_excluded_def)

lemma set_excluded_ball:
  "(\<forall>m \<in> set (models_tbl (set_excluded P b db)). R m) \<longleftrightarrow> (\<forall>m \<in> set (models_tbl db). R (if P m then m\<lparr>mr_excluded := b\<rparr> else m))"
  "(\<exists>m \<in> set (models_tbl (set_excluded P b db)). R m) \<longleftrightarrow> (\<exists>m \<in> set (models_tbl db). R (if P m then m\<lparr>mr_excluded := b\<rparr> else m))"
  by (simp_all add: set_excluded_def del: if_image_distrib)

lemma is_model_set [simp]: "is_model ws pid name (m\<lparr>mr_excluded := b\<rparr>) = is_model ws pid name m"
  by (simp add: is_model_def)

text \<open>A step keeps a pruned model pruned unless it lists it or removes its provider.\<close>

lemma prov_step_pruned:
  assumes "prov_step w e db db'" "provider_inv db" "pruned ws pid name db"
    and "w = ws \<Longrightarrow> e \<noteq> Listed pid name \<and> e \<noteq> Removed pid"
  shows "pruned ws pid name db'"
  using assms
proof (induction rule: prov_step.induct)
  case (remove_provider deleted db dp aud)
  obtain m where m: "m \<in> set (models_tbl db)" "is_model ws pid name m"
    using remove_provider(4) by (auto simp: pruned_def excluded_name_def list_ex_iff)
  obtain p where p: "p \<in> set (prov_tbl db)" "is_provider pid ws p"
    using remove_provider(3) m by (auto simp: provider_inv_def is_model_def)
  have "dp \<noteq> pid"
    using same_id_same_provider [OF remove_provider(3,1) p(1)] p(2) remove_provider(2,5) by (auto simp: is_provider_def)
  with remove_provider(4) show ?case by (auto simp: pruned_def excluded_name_def list_ex_iff is_model_def)
next
  case (insert_model prv db ip iname row)
  then show ?case by (auto simp: pruned_def excluded_name_def is_model_def)
next
  case (relist_model row db rp rname)
  have other: "mr_id m \<noteq> mr_id row" if "m \<in> set (models_tbl db)" "is_model ws pid name m" for m
    using same_id_same_model [OF relist_model(3) that(1) relist_model(1)] that relist_model(2,5)
    by (auto simp: is_model_def)
  have "m \<in> set (models_tbl db) \<and> is_model ws pid name m \<longleftrightarrow>
      m \<in> set (models_tbl (set_excluded (\<lambda>m. mr_id m = mr_id row) False db)) \<and> is_model ws pid name m" for m
    using other by (auto simp: set_excluded_models split: if_splits)
  with relist_model(4) show ?case by (simp add: pruned_def excluded_name_def list_ex_iff) blast
next
  case (prune_models P db)
  then show ?case by (auto simp: pruned_def excluded_name_def list_ex_iff set_excluded_ball)
qed (auto simp: pruned_def excluded_name_def)

lemma prov_steps_pruned:
  "prov_steps w es db db' \<Longrightarrow> provider_inv db \<Longrightarrow> pruned ws pid name db \<Longrightarrow>
   (w = ws \<Longrightarrow> Listed pid name \<notin> set es \<and> Removed pid \<notin> set es) \<Longrightarrow> pruned ws pid name db'"
proof (induction rule: prov_steps.induct)
  case (steps_more e db db1 es db2)
  have "pruned ws pid name db1"
    by (rule prov_step_pruned [OF steps_more(1,4,5)]) (use steps_more(6) in auto)
  with steps_more(3) [OF prov_step_inv [OF steps_more(1,4)]] steps_more(6) show ?case by auto
qed

text \<open>The requests that may bring a pruned model back: adding it by hand, or deleting its provider.\<close>

definition brings_back :: "uuid \<Rightarrow> uuid \<Rightarrow> string \<Rightarrow> ('k, 'z) provider_env_scheme \<times> jwt_ctx \<times> provider_action \<Rightarrow> bool" where
  "brings_back ws pid name q = (case q of (pa, ctx, act) \<Rightarrow> ctx_workspace_id ctx = ws \<and>
     (case act of AddModel p x \<Rightarrow> p = pid \<and> trim x = name | DeleteProvider p \<Rightarrow> p = pid | _ \<Rightarrow> False))"

lemma provider_serve_pruned:
  assumes "provider_inv db" "pruned ws pid name db" "\<not> brings_back ws pid name (pa, ctx, act)"
  shows "pruned ws pid name (provider_serve (pa, ctx, act) db)"
proof -
  obtain es where es: "prov_steps (ctx_workspace_id ctx) es db (provider_serve (pa, ctx, act) db)"
      "\<forall>e \<in> set es. event_allowed (ctx_workspace_id ctx) act db e"
    using provider_serve_steps [of ctx act db pa] by (auto simp: served_by_steps_def)
  show ?thesis
    by (rule prov_steps_pruned [OF es(1) assms(1,2)])
      (use es(2) assms(2,3) in \<open>force simp: brings_back_def pruned_def\<close>)
qed

definition provider_serve_all :: "(('k::linorder, 'z) provider_env_scheme \<times> jwt_ctx \<times> provider_action) list \<Rightarrow> provider_db \<Rightarrow> provider_db" where
  "provider_serve_all qs db = fold provider_serve qs db"

lemma serve_all_pruned:
  "provider_inv db \<Longrightarrow> pruned ws pid name db \<Longrightarrow> \<forall>q \<in> set qs. \<not> brings_back ws pid name q \<Longrightarrow>
   provider_inv (provider_serve_all qs db) \<and> pruned ws pid name (provider_serve_all qs db)"
proof (induction qs arbitrary: db)
  case (Cons q qs)
  obtain pa ctx act where q: "q = (pa, ctx, act)" by (cases q)
  show ?case
    using Cons.IH [of "provider_serve q db"] provider_serve_inv [OF Cons.prems(1), of pa ctx act]
      provider_serve_pruned [OF Cons.prems(1,2), of pa ctx act] Cons.prems(3)
    by (simp add: provider_serve_all_def q)
qed (simp add: provider_serve_all_def)

lemma pruned_not_listed:
  "pruned ws pid name db \<Longrightarrow> list_models_for_provider collate env ws pid db = Inr rows \<Longrightarrow> name \<notin> mr_name ` set rows"
  by (auto simp: list_models_for_provider_def rbind_Inr pruned_def is_model_def)

text \<open>
  C8. A model an administrator removed from a provider stays removed: whatever requests follow, from any
  workspace, syncs with the upstream catalogue and rotations of the credential included, the provider's
  listing does not show it again, until it is added by hand or the provider itself is deleted.
\<close>

theorem removed_model_stays_removed:
  assumes "provider_inv db"
    and "delete_provider_model pa ctx pid name db = (Inr (), db1)"
    and "\<forall>q \<in> set qs. \<not> brings_back (ctx_workspace_id ctx) pid name q"
    and "list_models_for_provider collate env (ctx_workspace_id ctx) pid (provider_serve_all qs db1) = Inr rows"
  shows "name \<notin> mr_name ` set rows"
proof -
  let ?P = "\<lambda>m. is_model (ctx_workspace_id ctx) pid name m \<and> \<not> mr_excluded m"
  have db1: "db1 = set_excluded ?P True db" "list_ex ?P (models_tbl db)"
    using assms(2) by (auto simp: delete_provider_model_def delete_model_def Let_def split: sum.splits if_splits)
  have "pruned (ctx_workspace_id ctx) pid name db1"
    using db1 by (auto simp: pruned_def excluded_name_def list_ex_iff set_excluded_ball)
  moreover have "prov_step (ctx_workspace_id ctx) Kept db db1"
    unfolding db1(1) by (rule prune_models) (simp add: is_model_def)
  then have "provider_inv db1" using assms(1) by (rule prov_step_inv)
  ultimately show ?thesis using serve_all_pruned assms(3,4) pruned_not_listed by blast
qed

definition prov_demo_egress :: egress_env where
  "prov_demo_egress = \<lparr>parse_url = (\<lambda>_. Inl []), lookup_host = (\<lambda>_ _. Inl []), show_ip = (\<lambda>_. []), build_err = (\<lambda>_. None),
     http_get = (\<lambda>_ _ _. Inl []), private_flag = None, sa_json_err = (\<lambda>_. None), adc_err = None, fetch_token = (\<lambda>_. Inl []), parse_json = (\<lambda>_. None)\<rparr>"

definition prov_demo :: "nat provider_env" where
  "prov_demo = \<lparr>pa_env = (\<lambda>_. demo_env), pa_actor_email = None, pa_encrypt = Inr, pa_decrypt = Inr, pa_b64_encode = (\<lambda>s. s),
     pa_b64_decode = Inr, pa_utf8_err = (\<lambda>s. s), pa_collate = length, pa_egress = prov_demo_egress\<rparr>"

definition prov_demo_ctx :: jwt_ctx where
  "prov_demo_ctx = \<lparr>ctx_user_id = 1, ctx_workspace_id = 7, ctx_role = Admin, ctx_jti = [], ctx_exp = 0\<rparr>"

definition prov_demo_db :: provider_db where
  "prov_demo_db = \<lparr>prov_tbl = [\<lparr>pt_id = 3, pt_ws = 7, pt_name = ''p'', pt_type = ''openai'', pt_credential = Some ''k'', pt_created_at = 0,
       pt_updated_at = 0, pt_config = JObj []\<rparr>],
     models_tbl = [\<lparr>mr_id = 4, mr_ws = 7, mr_provider = 3, mr_name = ''gpt'', mr_created_at = 0, mr_excluded = False\<rparr>,
       \<lparr>mr_id = 5, mr_ws = 7, mr_provider = 3, mr_name = ''gpt-mini'', mr_created_at = 0, mr_excluded = False\<rparr>], prov_audit = []\<rparr>"

theorem removed_model_stays_removed_witness:
  "\<exists>rows. list_models_for_provider length demo_env 7 3 (provider_serve_all [(prov_demo, prov_demo_ctx, SyncModels 3)]
       (snd (delete_provider_model prov_demo prov_demo_ctx 3 ''gpt'' prov_demo_db))) = Inr rows \<and> ''gpt'' \<notin> mr_name ` set rows"
proof -
  let ?db1 = "snd (delete_provider_model prov_demo prov_demo_ctx 3 ''gpt'' prov_demo_db)"
  let ?db2 = "provider_serve_all [(prov_demo, prov_demo_ctx, SyncModels 3)] ?db1"
  have ws: "ctx_workspace_id prov_demo_ctx = 7" by (simp add: prov_demo_ctx_def)
  have scoped: "begin_scoped demo_env 7 = Inr ()" "stmt demo_env k = Inr ()" for k
    by (simp_all add: begin_scoped_def arm_scope_def scope_is_armed_def stmt_def demo_env_def)
  obtain rows where rows: "list_models_for_provider length demo_env 7 3 ?db2 = Inr rows"
    by (simp add: list_models_for_provider_def scoped)
  have del: "delete_provider_model prov_demo prov_demo_ctx 3 ''gpt'' prov_demo_db = (Inr (), ?db1)"
    by (simp add: delete_provider_model_def delete_model_def scoped prov_demo_def prov_demo_ctx_def prov_demo_db_def
        is_model_def Let_def require_role_def)
  have "''gpt'' \<notin> mr_name ` set rows"
    by (rule removed_model_stays_removed [OF _ del _ rows [folded ws]])
      (simp_all add: provider_inv_def is_provider_def prov_demo_db_def brings_back_def)
  with rows show ?thesis by blast
qed

section \<open>Credentials and the request path\<close>

text \<open>What is stored for a credential gives it back, under the laws of the key store and of base64.\<close>

lemma stored_credential_roundtrip:
  assumes "\<forall>t c. pa_encrypt pa t = Inr c \<longrightarrow> pa_decrypt pa c = Inr t" "\<forall>c. pa_b64_decode pa (pa_b64_encode pa c) = Inr c"
    and "valid_utf8 s" "encrypt_credential pa (Some s) = Inr (Some stored)"
  shows "decrypt_stored_credential pa stored = Inr s"
proof -
  obtain c where c: "pa_encrypt pa s = Inr c" "stored = pa_b64_encode pa c"
    using assms(4) by (auto simp: encrypt_credential_def rbind_Inr)
  with assms(1-3) show ?thesis by (simp add: decrypt_stored_credential_def map_err_def)
qed

lemma pairs_sound:
  "(m, p) \<in> set (model_provider_pairs ws name db) \<longleftrightarrow>
   m \<in> set (models_tbl db) \<and> p \<in> set (prov_tbl db) \<and> is_model ws (pt_id p) name m \<and> pt_ws p = ws"
  by (auto simp: model_provider_pairs_def is_model_def)

text \<open>
  The request path resolves a model inside the workspace only, and does not read the exclusion: a model
  the administrator removed still resolves to its provider.
\<close>

lemma resolve_model_targets_workspace:
  assumes "resolve_model_targets env ws name db = Inr ts" "t \<in> set ts"
  shows "\<exists>m \<in> set (models_tbl db). \<exists>p \<in> set (prov_tbl db). is_model ws (pt_id p) name m \<and> pt_ws p = ws \<and>
    mt_model_id t = mr_id m \<and> mt_provider_id t = pt_id p \<and> mt_encrypted_credential t = pt_credential p"
  using assms by (force simp: resolve_model_targets_def rbind_Inr pairs_sound)

lemma removed_model_still_resolves:
  assumes "m \<in> set (models_tbl db)" "is_model ws pid name m" "mr_excluded m" "p \<in> set (prov_tbl db)" "is_provider pid ws p"
    and "resolve_model_targets env ws name db = Inr ts"
  shows "\<exists>t \<in> set ts. mt_model_id t = mr_id m \<and> mt_provider_id t = pid"
proof -
  have "(m, p) \<in> set (model_provider_pairs ws name db)"
    using assms(1,2,4,5) by (auto simp: pairs_sound is_provider_def)
  with assms(5,6) show ?thesis by (force simp: resolve_model_targets_def rbind_Inr is_provider_def image_iff)
qed

section \<open>Isolation of the providers\<close>

definition providers_view :: "uuid \<Rightarrow> provider_db \<Rightarrow> provider_rec list" where
  "providers_view ws db = filter (\<lambda>p. pt_ws p = ws) (prov_tbl db)"

definition provider_tenant :: "('k, 'z) provider_env_scheme \<times> jwt_ctx \<times> provider_action \<Rightarrow> uuid" where
  "provider_tenant q = ctx_workspace_id (fst (snd q))"

lemma prov_step_frame: "prov_step w e db db' \<Longrightarrow> w \<noteq> ws \<Longrightarrow> providers_view ws db' = providers_view ws db"
proof (induction rule: prov_step.induct)
  case (change_provider upd db aud pid)
  have "filter (\<lambda>p. pt_ws p = ws) (map (\<lambda>p. if is_provider pid w p then upd p else p) ps) = filter (\<lambda>p. pt_ws p = ws) ps" for ps
    using change_provider by (induction ps) (auto simp: is_provider_def)
  then show ?case by (simp add: providers_view_def)
qed (auto simp: providers_view_def is_provider_def intro!: filter_cong)

lemma prov_steps_frame: "prov_steps w es db db' \<Longrightarrow> w \<noteq> ws \<Longrightarrow> providers_view ws db' = providers_view ws db"
  by (induction rule: prov_steps.induct) (auto dest: prov_step_frame)

interpretation pv: tenant_server provider_serve provider_tenant providers_view
proof
  fix q :: "('a::linorder, 'b) provider_env_scheme \<times> jwt_ctx \<times> provider_action" and w d
  assume other: "provider_tenant q \<noteq> w"
  obtain pa ctx act where q: "q = (pa, ctx, act)" by (cases q)
  show "providers_view w (provider_serve q d) = providers_view w d"
    using provider_serve_steps [of ctx act d pa] prov_steps_frame other
    by (auto simp: q provider_tenant_def served_by_steps_def)
qed

text \<open>Whatever other workspaces send, the providers a workspace lists, credentials included, stay the same.\<close>

lemma other_tenants_cannot_change_providers:
  "\<forall>q \<in> set qs. provider_tenant q \<noteq> ws \<Longrightarrow> list_providers env ws (provider_serve_all qs db) = list_providers env ws db"
  using pv.run_frame [of qs ws db] by (simp add: list_providers_def providers_view_def provider_serve_all_def)

end
