(* ===== verification/Gateway_Api.thy ===== *)
theory Gateway_Api
  imports Provider_Admin Api_Keys Rate_Limit Pipeline_Stream Session_Auth
begin

text \<open>
  The front door of the gateway: the request-id middleware and the limits of
  \<open>middleware/request_hygiene.rs\<close>, the OpenAI-compatible handlers of \<open>routes/openai.rs\<close> and the rendering
  of errors (\<open>api_error_response\<close> of \<open>http/mod.rs\<close>). A handler authenticates the key, applies the rate
  limits, records the device, reserves the budget, resolves the model, runs the pipeline and settles the
  budget; its state is what those components share.

  Parsing and printing of UUIDs and of JSON text and the clocks are parameters. A streamed answer is
  taken as read to its end. A panic closes the connection: there is no reply.
\<close>

section \<open>Replies\<close>

datatype reply_body = JsonBody json | SseBody "string list" | TextBody string

record http_reply =
  reply_status :: nat
  reply_headers :: "(string, string) hashmap"
  reply_body :: reply_body

fun error_status :: "api_error \<Rightarrow> nat" where
  "error_status (BadRequest _) = 400"
| "error_status (Unauthorized _) = 401"
| "error_status (Forbidden _) = 403"
| "error_status (NotFound _) = 404"
| "error_status (NotImplemented _) = 501"
| "error_status (BudgetExceeded _) = 402"
| "error_status (ServiceUnavailable _) = 503"
| "error_status (Conflict _) = 409"
| "error_status (TooManyRequests _) = 429"
| "error_status (Database _) = 500"
| "error_status (Internal _) = 500"

text \<open>The \<open>Display\<close> of \<open>ApiError\<close>.\<close>

fun api_error_str :: "api_error \<Rightarrow> string" where
  "api_error_str (NotFound s) = ''not found: '' @ s"
| "api_error_str (Unauthorized s) = ''unauthorized: '' @ s"
| "api_error_str (Forbidden s) = ''forbidden: '' @ s"
| "api_error_str (BadRequest s) = ''bad request: '' @ s"
| "api_error_str (NotImplemented s) = ''not implemented: '' @ s"
| "api_error_str (Internal s) = ''internal error: '' @ s"
| "api_error_str (Database s) = ''database error: '' @ s"
| "api_error_str (BudgetExceeded s) = ''budget exceeded: '' @ s"
| "api_error_str (ServiceUnavailable s) = ''service unavailable: '' @ s"
| "api_error_str (Conflict s) = ''conflict: '' @ s"
| "api_error_str (TooManyRequests s) = ''too many requests: '' @ s"

fun error_json :: "api_error \<Rightarrow> json" where
  "error_json (BudgetExceeded msg) = JObj [(''error'', JObj [(''code'', JStr ''budget_exceeded''), (''message'', JStr msg),
     (''type'', JStr ''secureprompt_error'')])]"
| "error_json e = JObj [(''error'', JObj [(''message'', JStr (api_error_str e)), (''type'', JStr ''secureprompt_error'')])]"

definition api_error_response :: "api_error \<Rightarrow> http_reply" where
  "api_error_response e = \<lparr>reply_status = error_status e, reply_headers = [], reply_body = JsonBody (error_json e)\<rparr>"

section \<open>Request hygiene\<close>

definition request_id_header :: string where
  "request_id_header = ''x-request-id''"

definition default_max_body_bytes :: nat where
  "default_max_body_bytes = 2 * 1024 * 1024"

definition default_request_deadline_ms :: nat where
  "default_request_deadline_ms = 150000"

record resolved_request_id =
  rid_id :: uuid
  rid_from_caller :: bool

definition resolve_request_id :: "(string \<Rightarrow> uuid option) \<Rightarrow> string option \<Rightarrow> uuid \<Rightarrow> resolved_request_id" where
  "resolve_request_id parse inbound generated =
     (case map_option (\<lambda>s. parse (trim s)) inbound of
        Some (Some i) \<Rightarrow> \<lparr>rid_id = i, rid_from_caller = True\<rparr>
      | _ \<Rightarrow> \<lparr>rid_id = generated, rid_from_caller = False\<rparr>)"

text \<open>\<open>usize\<close> has 64 bits.\<close>

definition parse_max_body_bytes :: "string option \<Rightarrow> nat" where
  "parse_max_body_bytes raw = unwrap_or default_max_body_bytes (positive_millis raw)"

definition parse_request_deadline :: "string option \<Rightarrow> nat" where
  "parse_request_deadline raw = unwrap_or default_request_deadline_ms (positive_millis raw)"

definition request_id_from_headers :: "(string \<Rightarrow> uuid option) \<Rightarrow> headers \<Rightarrow> uuid option" where
  "request_id_from_headers parse h = Option.bind (header_str h request_id_header) parse"

definition insert_header :: "string \<Rightarrow> string \<Rightarrow> http_reply \<Rightarrow> http_reply" where
  "insert_header name v r = r\<lparr>reply_headers := hm_insert name v (reply_headers r)\<rparr>"

definition propagate ::
  "(string \<Rightarrow> uuid option) \<Rightarrow> (uuid \<Rightarrow> string) \<Rightarrow> uuid \<Rightarrow> (headers \<Rightarrow> 'e \<times> 's \<times> http_reply option) \<Rightarrow> headers
     \<Rightarrow> 'e \<times> 's \<times> http_reply option" where
  "propagate parse print generated run h =
     (let resolved = resolve_request_id parse (header_str h request_id_header) generated;
          value = print (rid_id resolved);
          (effs, st, reply) = run (h(request_id_header := Some (Some value)))
      in (effs, st, map_option (insert_header request_id_header value) reply))"

section \<open>Requests\<close>

record chat_completions_request =
  cc_model :: string
  cc_messages :: "message list"
  cc_stream :: bool
  cc_stream_options :: "bool option option"
  cc_extra :: "(string, json) hashmap"

record completion_request =
  co_model :: string
  co_prompt :: json
  co_stream :: bool
  co_stream_options :: "bool option option"
  co_extra :: "(string, json) hashmap"

record embeddings_request =
  em_model :: string
  em_input :: json
  em_extra :: "(string, json) hashmap"

record gateway_state =
  gs_cache :: config_cache
  gs_keys :: key_db
  gs_limiter :: rate_limiter
  gs_budget :: budget_db
  gs_redis :: redis
  gs_providers :: provider_db
  gs_profiles :: "profile_row list"

text \<open>The parameters of one request; the pipeline reads its settings for the workspace it serves.\<close>

record 'm request_env =
  rq_key :: key_env
  rq_auth_db :: "nat \<Rightarrow> db_env"
  rq_now :: nat
  rq_later :: nat
  rq_limit_at :: "nat \<times> nat"
  rq_print :: "uuid \<Rightarrow> string"
  rq_parse :: "string \<Rightarrow> uuid option"
  rq_mac_db :: db_env
  rq_budget :: budget_env
  rq_budget_after :: budget_env
  rq_targets_db :: db_env
  rq_providers_db :: db_env
  rq_resolve_at :: nat
  rq_gw :: "uuid \<Rightarrow> 'm gateway_env"
  rq_connect_ip :: string
  rq_created :: int
  rq_stream_id :: string
  rq_to_string :: "json \<Rightarrow> string"

datatype front_effect = Pipe gw_effect | Budget budget_effect

definition client_ip_from_headers :: "headers \<Rightarrow> string option" where
  "client_ip_from_headers h =
     (case first_forwarded h of
        Some s \<Rightarrow> if s \<noteq> [] then Some s
                  else Option.bind (header_str h ''x-real-ip'') (\<lambda>v. if trim v \<noteq> [] then Some (trim v) else None)
      | None \<Rightarrow> Option.bind (header_str h ''x-real-ip'') (\<lambda>v. if trim v \<noteq> [] then Some (trim v) else None))"

fun value_to_string :: "(json \<Rightarrow> string) \<Rightarrow> json \<Rightarrow> string" where
  "value_to_string to_string (JStr text') = text'"
| "value_to_string to_string (JArr items) = join_with [CHR 0x0A] (map (value_to_string to_string) items)"
| "value_to_string to_string v = to_string v"

text \<open>A device address as the header must spell it, and the write of the caller's row (its failure is logged).\<close>

definition normalised_mac :: "headers \<Rightarrow> string option" where
  "normalised_mac h =
     (case h ''x-secureprompt-device-mac'' of
        None \<Rightarrow> None
      | Some v \<Rightarrow>
          (let raw = trim (unwrap_or [] v) in
           if raw = [] \<or> length raw > 64 then None
           else let normalised = to_lowercase (str_replace ''-'' '':'' raw); parts = split_on (CHR '':'') normalised in
             if length parts \<noteq> 6 \<or> \<not> list_all (\<lambda>p. length p = 2 \<and> list_all is_ascii_hexdigit p) parts then None
             else Some normalised))"

definition persist_device_mac_header :: "db_env \<Rightarrow> headers \<Rightarrow> auth_context \<Rightarrow> profile_row list \<Rightarrow> profile_row list" where
  "persist_device_mac_header env h auth tbl =
     (case (normalised_mac h, au_user_id auth) of
        (Some mac, Some u) \<Rightarrow>
          if stmt_err env 0 \<noteq> None then tbl
          else map (\<lambda>r. if pf_user_id r = u \<and> pf_ws r = au_workspace_id auth \<and> pf_device_mac r \<noteq> Some mac
                 then r\<lparr>pf_device_mac := Some mac, pf_updated_at := now_ts env\<rparr> else r) tbl
      | _ \<Rightarrow> tbl)"

section \<open>Admission\<close>

definition provider_row_of :: "provider_rec \<Rightarrow> provider_row" where
  "provider_row_of p = \<lparr>pv_id = pt_id p, pv_name = pt_name p, pv_provider_type = pt_type p,
     pv_encrypted_credential = pt_credential p, pv_config = pt_config p\<rparr>"

definition resolve_for ::
  "'m request_env \<Rightarrow> uuid \<Rightarrow> string \<Rightarrow> provider_db \<Rightarrow> config_cache \<Rightarrow> (api_error, resolved_model) result \<times> config_cache" where
  "resolve_for env ws model db cache =
     resolve_model (rq_print env) (resolve_model_targets (rq_targets_db env) ws model db)
       (rbind (list_providers (rq_providers_db env) ws db) (\<lambda>ps. Inr (map provider_row_of ps)))
       (rq_resolve_at env) ws model cache"

text \<open>What the three handlers do before the pipeline.\<close>

definition admit ::
  "'m request_env \<Rightarrow> headers \<Rightarrow> string \<Rightarrow> nat \<Rightarrow> gateway_state
     \<Rightarrow> front_effect list \<times> gateway_state \<times> (api_error, auth_context \<times> budget_gate \<times> resolved_model) result" where
  "admit env h model estimated_input st =
     (case authenticate_request (rq_key env) (rq_auth_db env) (rq_now env) (rq_later env) (h ''authorization'') (gs_cache st) (gs_keys st) of
        (Inl e, cache) \<Rightarrow> ([], st\<lparr>gs_cache := cache\<rparr>, Inl e)
      | (Inr auth, cache) \<Rightarrow>
     (case enforce_rate_limit (rq_print env) (fst (rq_limit_at env)) (snd (rq_limit_at env)) (au_api_key_id auth)
             (au_workspace_id auth) (gs_limiter st) of
        (Inl e, rl) \<Rightarrow> ([], st\<lparr>gs_cache := cache, gs_limiter := rl\<rparr>, Inl e)
      | (Inr _, rl) \<Rightarrow>
          (let profiles = persist_device_mac_header (rq_mac_db env) h auth (gs_profiles st);
               (effs, gate, r) = pre_check_budget (rq_budget env) (gs_budget st) (au_workspace_id auth) estimated_input (gs_redis st);
               st = st\<lparr>gs_cache := cache, gs_limiter := rl, gs_profiles := profiles, gs_redis := r\<rparr> in
           case gate of
             Inl e \<Rightarrow> (map Budget effs, st, Inl e)
           | Inr gate \<Rightarrow>
               (case resolve_for env (au_workspace_id auth) model (gs_providers st) cache of
                  (Inl e, cache) \<Rightarrow> (map Budget effs, st\<lparr>gs_cache := cache\<rparr>, Inl e)
                | (Inr rm, cache) \<Rightarrow> (map Budget effs, st\<lparr>gs_cache := cache\<rparr>, Inr (auth, gate, rm))))))"

definition stream_options_json :: "bool option \<Rightarrow> json" where
  "stream_options_json include_usage = JObj [(''include_usage'', case include_usage of None \<Rightarrow> JNull | Some b \<Rightarrow> JBool b)]"

definition extra_params_of :: "(string, json) hashmap \<Rightarrow> bool option option \<Rightarrow> bool \<Rightarrow> json" where
  "extra_params_of extra options stream =
     (let params = JObj (case options of None \<Rightarrow> extra | Some o' \<Rightarrow> hm_insert ''stream_options'' (stream_options_json o') extra)
      in if stream then force_include_usage params else params)"

definition gateway_request_of ::
  "'m request_env \<Rightarrow> headers \<Rightarrow> string \<Rightarrow> message list \<Rightarrow> bool \<Rightarrow> request_kind \<Rightarrow> json \<Rightarrow> gateway_request" where
  "gateway_request_of env h model ms stream kind params =
     \<lparr>gr_public_model = model, gr_messages = ms, gr_stream = stream, gr_kind = kind, gr_extra_params = params,
      gr_client_ip = (case client_ip_from_headers h of Some ip \<Rightarrow> Some ip | None \<Rightarrow> Some (rq_connect_ip env)),
      gr_user_agent = header_str h ''user-agent'', gr_request_id = request_id_from_headers (rq_parse env) h\<rparr>"

section \<open>Answers\<close>

definition with_budget_warning :: "budget_gate \<Rightarrow> http_reply \<Rightarrow> http_reply" where
  "with_budget_warning gate r = (case warning_bucket gate of None \<Rightarrow> r | Some b \<Rightarrow> insert_header ''x-secureprompt-budget-warning'' b r)"

definition with_sidecar_degraded :: "coverage_loss option \<Rightarrow> http_reply \<Rightarrow> http_reply" where
  "with_sidecar_degraded reason r = (case reason of None \<Rightarrow> r | Some x \<Rightarrow> insert_header ''x-secureprompt-sidecar-degraded'' (loss_str x) r)"

definition with_engines :: "detection_engines \<Rightarrow> http_reply \<Rightarrow> http_reply" where
  "with_engines engines = insert_header ''x-secureprompt-engines'' (engines_header engines)"

definition count_json :: "32 word \<Rightarrow> json" where
  "count_json w = JNum (of_nat (unat w))"

text \<open>\<open>total_tokens\<close> of the answer is a 32-bit sum; the budget's is one of 64 bits.\<close>

definition usage_value :: "token_usage \<Rightarrow> bool \<Rightarrow> json" where
  "usage_value u estimated = JObj [
     (''prompt_tokens'', count_json (unwrap_or 0 (input_tokens u))),
     (''completion_tokens'', count_json (unwrap_or 0 (output_tokens u))),
     (''total_tokens'', count_json (unwrap_or 0 (input_tokens u) + unwrap_or 0 (output_tokens u))),
     (''reasoning_tokens'', count_json (unwrap_or 0 (reasoning_tokens u))),
     (''cache_read_tokens'', count_json (unwrap_or 0 (cache_read_tokens u))),
     (''cache_write_tokens'', count_json (unwrap_or 0 (cache_write_tokens u))),
     (''estimated'', JBool estimated)]"

definition usage_json :: "pipeline_execution \<Rightarrow> json" where
  "usage_json x = usage_value (px_usage x) (px_estimated_usage x)"

definition total_tokens :: "pipeline_execution \<Rightarrow> nat" where
  "total_tokens x = unat (unwrap_or 0 (input_tokens (px_usage x))) + unat (unwrap_or 0 (output_tokens (px_usage x)))"

definition i64_clamp :: "nat \<Rightarrow> int" where
  "i64_clamp n = min (int n) (2 ^ 63 - 1)"

definition reconcile_workspace_tokens ::
  "budget_env \<Rightarrow> uuid \<Rightarrow> pipeline_execution \<Rightarrow> nat \<Rightarrow> redis \<Rightarrow> budget_effect list \<times> redis" where
  "reconcile_workspace_tokens env ws x estimated_input r =
     adjust_workspace_tokens env ws (i64_clamp (total_tokens x) - i64_clamp estimated_input) r"

definition ok_reply :: "reply_body \<Rightarrow> http_reply" where
  "ok_reply b = \<lparr>reply_status = 200, reply_headers = [], reply_body = b\<rparr>"

definition annotated :: "budget_gate \<Rightarrow> coverage_loss option \<Rightarrow> detection_engines \<Rightarrow> http_reply \<Rightarrow> http_reply" where
  "annotated gate degraded engines r = with_engines engines (with_sidecar_degraded degraded (with_budget_warning gate r))"

definition chat_chunk :: "string \<Rightarrow> int \<Rightarrow> string \<Rightarrow> string \<Rightarrow> json" where
  "chat_chunk i created model content = JObj [(''id'', JStr i), (''object'', JStr ''chat.completion.chunk''),
     (''created'', JNum (of_int created)), (''model'', JStr model),
     (''choices'', JArr [JObj [(''index'', JNum 0), (''delta'', JObj [(''content'', JStr content)]), (''finish_reason'', JNull)]])]"

definition text_chunk :: "string \<Rightarrow> int \<Rightarrow> string \<Rightarrow> string \<Rightarrow> json" where
  "text_chunk i created model content = JObj [(''id'', JStr i), (''object'', JStr ''text_completion''),
     (''created'', JNum (of_int created)), (''model'', JStr model),
     (''choices'', JArr [JObj [(''index'', JNum 0), (''text'', JStr content), (''finish_reason'', JNull)]])]"

definition usage_chunk :: "string \<Rightarrow> string \<Rightarrow> int \<Rightarrow> string \<Rightarrow> json \<Rightarrow> json" where
  "usage_chunk object i created model usage = JObj [(''id'', JStr i), (''object'', JStr object),
     (''created'', JNum (of_int created)), (''model'', JStr model), (''choices'', JArr []), (''usage'', usage)]"

definition done_marker :: string where
  "done_marker = ''[DONE]''"

definition stream_chat_response :: "'m request_env \<Rightarrow> pipeline_execution \<Rightarrow> http_reply" where
  "stream_chat_response env x =
     (let i = rq_print env (px_request_id x) in
      ok_reply (SseBody (map (\<lambda>c. rq_to_string env (chat_chunk i (rq_created env) (px_model x) c)) (px_stream_chunks x) @
        [rq_to_string env (usage_chunk ''chat.completion.chunk'' i (rq_created env) (px_model x) (usage_json x)), done_marker])))"

definition stream_completion_response :: "'m request_env \<Rightarrow> pipeline_execution \<Rightarrow> http_reply" where
  "stream_completion_response env x =
     (let i = rq_print env (px_request_id x) in
      ok_reply (SseBody (map (\<lambda>c. rq_to_string env (text_chunk i (rq_created env) (px_model x) c)) (px_stream_chunks x) @
        [rq_to_string env (usage_chunk ''text_completion'' i (rq_created env) (px_model x) (usage_json x)), done_marker])))"

definition live_item :: "'m request_env \<Rightarrow> string \<Rightarrow> chat_stream_item \<Rightarrow> json" where
  "live_item env model item =
     (let i = ''chatcmpl-'' @ rq_stream_id env in
      case item of
        Delta content \<Rightarrow> chat_chunk i (rq_created env) model content
      | StreamEnd usage estimated done_model _ \<Rightarrow>
          usage_chunk ''chat.completion.chunk'' i (rq_created env) done_model (usage_value usage estimated))"

definition stream_chat_response_live :: "'m request_env \<Rightarrow> string \<Rightarrow> chat_stream_item list \<Rightarrow> http_reply" where
  "stream_chat_response_live env model items =
     insert_header ''x-accel-buffering'' ''no''
       (ok_reply (SseBody (map (\<lambda>x. rq_to_string env (live_item env model x)) items @ [done_marker])))"

definition chat_answer :: "'m request_env \<Rightarrow> pipeline_execution \<Rightarrow> json" where
  "chat_answer env x = JObj [(''id'', JStr (rq_print env (px_request_id x))), (''object'', JStr ''chat.completion''),
     (''created'', JNum (of_int (rq_created env))), (''model'', JStr (px_model x)),
     (''choices'', JArr [JObj [(''index'', JNum 0),
        (''message'', JObj [(''role'', JStr ''assistant''), (''content'', JStr (unwrap_or [] (px_content x)))]),
        (''finish_reason'', JStr (unwrap_or ''stop'' (px_finish_reason x)))]]),
     (''usage'', usage_json x)]"

definition completion_answer :: "'m request_env \<Rightarrow> pipeline_execution \<Rightarrow> json" where
  "completion_answer env x = JObj [(''id'', JStr (rq_print env (px_request_id x))), (''object'', JStr ''text_completion''),
     (''created'', JNum (of_int (rq_created env))), (''model'', JStr (px_model x)),
     (''choices'', JArr [JObj [(''index'', JNum 0), (''text'', JStr (unwrap_or [] (px_content x))),
        (''finish_reason'', JStr (unwrap_or ''stop'' (px_finish_reason x)))]]),
     (''usage'', usage_json x)]"

definition embedding_answer :: "pipeline_execution \<Rightarrow> json" where
  "embedding_answer x = JObj [(''object'', JStr ''list''),
     (''data'', JArr [JObj [(''object'', JStr ''embedding''), (''index'', JNum 0),
        (''embedding'', JArr (map JNum (unwrap_or [] (px_embedding x))))]]),
     (''model'', JStr (px_model x)), (''usage'', usage_json x)]"

section \<open>The handlers\<close>

type_synonym served = "front_effect list \<times> gateway_state \<times> http_reply option"

text \<open>The buffered end of a handler: an answer is settled against the budget, a failure is not.\<close>

definition finish_buffered ::
  "'m request_env \<Rightarrow> auth_context \<Rightarrow> budget_gate \<Rightarrow> resolved_model \<Rightarrow> gateway_request \<Rightarrow> nat
     \<Rightarrow> (pipeline_execution \<Rightarrow> http_reply) \<Rightarrow> front_effect list \<Rightarrow> gateway_state \<Rightarrow> served" where
  "finish_buffered env auth gate rm req estimated_input render effs0 st =
     (case execute (rq_gw env (au_workspace_id auth)) auth rm req of
        (effs1, Inl Panicked) \<Rightarrow> (effs0 @ map Pipe effs1, st, None)
      | (effs1, Inl (Failed e)) \<Rightarrow> (effs0 @ map Pipe effs1, st, Some (api_error_response e))
      | (effs1, Inr x) \<Rightarrow>
          (let (effs2, r) = reconcile_workspace_tokens (rq_budget_after env) (au_workspace_id auth) x estimated_input (gs_redis st)
           in (effs0 @ map Pipe effs1 @ map Budget effs2, st\<lparr>gs_redis := r\<rparr>,
               Some (annotated gate (px_degraded x) (px_engines x) (render x)))))"

text \<open>The settlement a finished stream asks for.\<close>

definition settle_stream :: "budget_env \<Rightarrow> gw_effect list \<Rightarrow> redis \<Rightarrow> redis" where
  "settle_stream env effs r = fold (\<lambda>e r. case e of AdjustTokens ws delta \<Rightarrow> snd (adjust_workspace_tokens env ws delta r) | _ \<Rightarrow> r) effs r"

definition chat_completions :: "'m request_env \<Rightarrow> chat_completions_request \<Rightarrow> gateway_state \<Rightarrow> headers \<Rightarrow> served" where
  "chat_completions env request st h =
     (let estimated_input = sum_list (map (\<lambda>m. estimate_tokens_from_text (msg_content m)) (cc_messages request)) in
      case admit env h (cc_model request) estimated_input st of
        (effs, st, Inl e) \<Rightarrow> (effs, st, Some (api_error_response e))
      | (effs, st, Inr (auth, gate, rm)) \<Rightarrow>
          (let gw = rq_gw env (au_workspace_id auth);
               req = gateway_request_of env h (cc_model request) (cc_messages request) (cc_stream request) Chat
                 (extra_params_of (cc_extra request) (cc_stream_options request) (cc_stream request)) in
           if cc_stream request \<and> \<not> chat_debug_mode gw then
             (case execute_stream gw auth rm req estimated_input of
                (effs1, Inl Panicked) \<Rightarrow> (effs @ map Pipe effs1, st, None)
              | (effs1, Inl (Failed e)) \<Rightarrow> (effs @ map Pipe effs1, st, Some (api_error_response e))
              | (effs1, Inr x) \<Rightarrow>
                  (effs @ map Pipe effs1 @ map Pipe (sx_effects x),
                   st\<lparr>gs_redis := settle_stream (rq_budget_after env) (sx_effects x) (gs_redis st)\<rparr>,
                   Some (annotated gate (sx_degraded x) (sx_engines x) (stream_chat_response_live env (cc_model request) (sx_items x)))))
           else
             finish_buffered env auth gate rm req estimated_input
               (\<lambda>x. if cc_stream request then stream_chat_response env x else ok_reply (JsonBody (chat_answer env x))) effs st))"

definition completions :: "'m request_env \<Rightarrow> completion_request \<Rightarrow> gateway_state \<Rightarrow> headers \<Rightarrow> served" where
  "completions env request st h =
     (let prompt = value_to_string (rq_to_string env) (co_prompt request);
          estimated_input = estimate_tokens_from_text prompt in
      case admit env h (co_model request) estimated_input st of
        (effs, st, Inl e) \<Rightarrow> (effs, st, Some (api_error_response e))
      | (effs, st, Inr (auth, gate, rm)) \<Rightarrow>
          finish_buffered env auth gate rm
            (gateway_request_of env h (co_model request) [\<lparr>role = ''user'', msg_content = prompt\<rparr>] (co_stream request) Completion
               (extra_params_of (co_extra request) (co_stream_options request) (co_stream request)))
            estimated_input
            (\<lambda>x. if co_stream request then stream_completion_response env x else ok_reply (JsonBody (completion_answer env x))) effs st)"

definition embeddings :: "'m request_env \<Rightarrow> embeddings_request \<Rightarrow> gateway_state \<Rightarrow> headers \<Rightarrow> served" where
  "embeddings env request st h =
     (let input_text = value_to_string (rq_to_string env) (em_input request);
          estimated_input = estimate_tokens_from_text input_text in
      case admit env h (em_model request) estimated_input st of
        (effs, st, Inl e) \<Rightarrow> (effs, st, Some (api_error_response e))
      | (effs, st, Inr (auth, gate, rm)) \<Rightarrow>
          finish_buffered env auth gate rm
            (gateway_request_of env h (em_model request) [\<lparr>role = ''user'', msg_content = input_text\<rparr>] False Embedding (JObj (em_extra request)))
            estimated_input (\<lambda>x. ok_reply (JsonBody (embedding_answer x))) effs st)"

text \<open>A call of the gateway.\<close>

datatype gateway_call = ChatCall chat_completions_request | CompletionCall completion_request | EmbeddingCall embeddings_request

fun gateway_serve :: "'m request_env \<Rightarrow> gateway_call \<Rightarrow> gateway_state \<Rightarrow> headers \<Rightarrow> served" where
  "gateway_serve env (ChatCall q) st h = chat_completions env q st h"
| "gateway_serve env (CompletionCall q) st h = completions env q st h"
| "gateway_serve env (EmbeddingCall q) st h = embeddings env q st h"

section \<open>What a handler does, in one shape\<close>

lemma scrub_text_quiet: "scrub_text env k os t v m d = (effs, x) \<Longrightarrow> set effs \<subseteq> {e. \<exists>r s. e = AlertSidecar r s}"
  by (auto simp: scrub_text_def Let_def split: if_splits option.splits prod.splits)

lemma emit_effects [simp]: "ss_effects (emit t st) = ss_effects st"
  by (simp add: emit_def)

lemma scrub_segment_quiet:
  "set (ss_effects (scrub_segment env os seg st)) \<subseteq> set (ss_effects st) \<union> {e. \<exists>r s. e = AlertSidecar r s}"
  using scrub_text_quiet by (fastforce simp: scrub_segment_def Let_def split: prod.splits)

lemma stream_token_quiet:
  "set (ss_effects (stream_token env red os tok st)) \<subseteq> set (ss_effects st) \<union> {e. \<exists>r s. e = AlertSidecar r s}"
  by (auto simp: stream_token_def Let_def split: prod.splits if_splits dest!: subsetD [OF scrub_segment_quiet])

lemma stream_loop_quiet:
  "set (ss_effects (stream_loop env red os evs st)) \<subseteq> set (ss_effects st) \<union> {e. \<exists>r s. e = AlertSidecar r s}"
proof (induction env red os evs st rule: stream_loop.induct)
  case (2 env redact originals tok evs st)
  then show ?case using stream_token_quiet [of env redact originals tok st] by auto
qed auto

lemma run_stream_quiet:
  "set (ss_effects (run_stream env red os evs (stream_init d st))) \<subseteq> {e. \<exists>r s. e = AlertSidecar r s}"
proof -
  have flush: "set (ss_effects (stream_flush env red os s)) \<subseteq> set (ss_effects s) \<union> {e. \<exists>r s. e = AlertSidecar r s}" for s
    using scrub_segment_quiet [of env os] by (auto simp: stream_flush_def Let_def)
  show ?thesis
    using flush stream_loop_quiet [of env red os evs "stream_init d st"] unfolding run_stream_def by (fastforce simp: stream_init_def)
qed

text \<open>What the pipeline, buffered or streamed, does for a request.\<close>

definition pipeline_effects ::
  "'m gateway_env \<Rightarrow> auth_context \<Rightarrow> resolved_model \<Rightarrow> gateway_request \<Rightarrow> bool \<Rightarrow> gw_effect list \<Rightarrow> bool" where
  "pipeline_effects gw auth rm req answered effs \<longleftrightarrow>
     (\<exists>r. execute gw auth rm req = (effs, r) \<and> (answered \<longleftrightarrow> \<not> isl r)) \<or>
     (\<exists>n f. execute_stream gw auth rm req n = (effs, Inl f) \<and> \<not> answered) \<or>
     (\<exists>n effs1 x. execute_stream gw auth rm req n = (effs1, Inr x) \<and> effs = effs1 @ sx_effects x \<and> answered)"

definition answered :: "http_reply option \<Rightarrow> bool" where
  "answered reply = (case reply of None \<Rightarrow> False | Some r \<Rightarrow> reply_status r = 200)"

lemma error_not_answered [simp]: "\<not> answered (Some (api_error_response e))" "\<not> answered None"
  by (cases e) (simp_all add: answered_def api_error_response_def)

lemma annotated_answered [simp]: "answered (Some (annotated g d e r)) \<longleftrightarrow> reply_status r = 200"
  by (auto simp: answered_def annotated_def with_engines_def with_sidecar_degraded_def with_budget_warning_def insert_header_def
      split: option.splits)

lemma ok_replies [simp]:
  "reply_status (ok_reply b) = 200" "reply_status (stream_chat_response env x) = 200"
  "reply_status (stream_completion_response env x) = 200" "reply_status (stream_chat_response_live env model items) = 200"
  by (simp_all add: ok_reply_def stream_chat_response_def stream_completion_response_def stream_chat_response_live_def
      insert_header_def Let_def)

text \<open>A handler is refused at the door, or admitted and runs the pipeline once.\<close>

lemma finish_buffered_shape:
  assumes "finish_buffered env auth gate rm req n render effs0 st = (effs, st', reply)" "\<And>x. reply_status (render x) = 200"
  shows "\<exists>pe be. effs = effs0 @ map Pipe pe @ map Budget be \<and> gs_cache st' = gs_cache st \<and>
    pipeline_effects (rq_gw env (au_workspace_id auth)) auth rm req (answered reply) pe"
proof -
  obtain effs1 r where x: "execute (rq_gw env (au_workspace_id auth)) auth rm req = (effs1, r)" by fastforce
  then have p: "pipeline_effects (rq_gw env (au_workspace_id auth)) auth rm req (\<not> isl r) effs1" by (auto simp: pipeline_effects_def)
  show ?thesis
  proof (cases r)
    case (Inl f)
    with assms x have "effs = effs0 @ map Pipe effs1 @ map Budget [] \<and> gs_cache st' = gs_cache st \<and> \<not> answered reply"
      by (cases f) (auto simp: finish_buffered_def)
    moreover from this p Inl have "pipeline_effects (rq_gw env (au_workspace_id auth)) auth rm req (answered reply) effs1" by simp
    ultimately show ?thesis by blast
  next
    case (Inr a)
    with assms x obtain be where "effs = effs0 @ map Pipe effs1 @ map Budget be \<and> gs_cache st' = gs_cache st \<and> answered reply"
      by (auto simp: finish_buffered_def Let_def split: prod.splits)
    moreover from this p Inr have "pipeline_effects (rq_gw env (au_workspace_id auth)) auth rm req (answered reply) effs1" by simp
    ultimately show ?thesis by blast
  qed
qed

lemma gateway_serve_shape:
  assumes "gateway_serve env q st h = (effs, st', reply)"
  obtains (refused) model n e where "admit env h model n st = (effs, st', Inl e)" "reply = Some (api_error_response e)"
  | (admitted) model n effs0 st0 auth gate rm ms str kind params pe be where
      "admit env h model n st = (effs0, st0, Inr (auth, gate, rm))" "effs = effs0 @ map Pipe pe @ map Budget be"
      "gs_cache st' = gs_cache st0"
      "pipeline_effects (rq_gw env (au_workspace_id auth)) auth rm (gateway_request_of env h model ms str kind params) (answered reply) pe"
proof (cases q)
  case (ChatCall c)
  define n where "n = sum_list (map (\<lambda>m. estimate_tokens_from_text (msg_content m)) (cc_messages c))"
  obtain effs0 st0 a where ad: "admit env h (cc_model c) n st = (effs0, st0, a)" by (metis prod_cases3)
  show thesis
  proof (cases a)
    case (Inl e)
    with assms ad ChatCall show thesis by (intro refused [of "cc_model c" n e]) (auto simp: chat_completions_def n_def)
  next
    case (Inr b)
    obtain auth gate rm where b: "b = (auth, gate, rm)" by (metis prod_cases3)
    let ?gw = "rq_gw env (au_workspace_id auth)"
    let ?req = "gateway_request_of env h (cc_model c) (cc_messages c) (cc_stream c) Chat
      (extra_params_of (cc_extra c) (cc_stream_options c) (cc_stream c))"
    note ad' = ad [unfolded Inr b]
    show thesis
    proof (cases "cc_stream c \<and> \<not> chat_debug_mode ?gw")
      case False
      then have "finish_buffered env auth gate rm ?req n
        (\<lambda>x. if cc_stream c then stream_chat_response env x else ok_reply (JsonBody (chat_answer env x))) effs0 st0 = (effs, st', reply)"
        using assms ChatCall ad' by (simp add: chat_completions_def n_def [symmetric] Let_def del: de_Morgan_conj)
      from finish_buffered_shape [OF this] show thesis using admitted [OF ad'] by force
    next
      case True
      obtain effs1 r where x: "execute_stream ?gw auth rm ?req n = (effs1, r)" by fastforce
      have "\<exists>pe. effs = effs0 @ map Pipe pe @ map Budget [] \<and> gs_cache st' = gs_cache st0 \<and>
          pipeline_effects ?gw auth rm ?req (answered reply) pe"
      proof (cases r)
        case (Inl f)
        with x assms ChatCall ad' True have "effs = effs0 @ map Pipe effs1 @ map Budget [] \<and> gs_cache st' = gs_cache st0 \<and> \<not> answered reply"
          by (cases f) (auto simp: chat_completions_def n_def [symmetric] Let_def)
        moreover have "pipeline_effects ?gw auth rm ?req False effs1" using x Inl unfolding pipeline_effects_def by blast
        ultimately show ?thesis by auto
      next
        case (Inr y)
        with x assms ChatCall ad' True have "effs = effs0 @ map Pipe (effs1 @ sx_effects y) @ map Budget [] \<and> gs_cache st' = gs_cache st0 \<and> answered reply"
          by (auto simp: chat_completions_def n_def [symmetric] Let_def)
        moreover have "pipeline_effects ?gw auth rm ?req True (effs1 @ sx_effects y)" using x Inr unfolding pipeline_effects_def by blast
        ultimately show ?thesis by (intro exI [of _ "effs1 @ sx_effects y"]) simp
      qed
      then show thesis using admitted [OF ad'] by blast
    qed
  qed
next
  case (CompletionCall c)
  define p where "p = value_to_string (rq_to_string env) (co_prompt c)"
  obtain effs0 st0 a where ad: "admit env h (co_model c) (estimate_tokens_from_text p) st = (effs0, st0, a)" by (metis prod_cases3)
  show thesis
  proof (cases a)
    case (Inl e)
    with assms ad CompletionCall show thesis by (intro refused [of "co_model c" _ e]) (auto simp: completions_def Let_def p_def)
  next
    case (Inr b)
    obtain auth gate rm where b: "b = (auth, gate, rm)" by (metis prod_cases3)
    from assms ad CompletionCall Inr b show thesis
      by (auto simp: completions_def Let_def p_def [symmetric] dest!: finish_buffered_shape intro: admitted [OF ad [unfolded Inr b]])
  qed
next
  case (EmbeddingCall c)
  define p where "p = value_to_string (rq_to_string env) (em_input c)"
  obtain effs0 st0 a where ad: "admit env h (em_model c) (estimate_tokens_from_text p) st = (effs0, st0, a)" by (metis prod_cases3)
  show thesis
  proof (cases a)
    case (Inl e)
    with assms ad EmbeddingCall show thesis by (intro refused [of "em_model c" _ e]) (auto simp: embeddings_def Let_def p_def)
  next
    case (Inr b)
    obtain auth gate rm where b: "b = (auth, gate, rm)" by (metis prod_cases3)
    from assms ad EmbeddingCall Inr b show thesis
      by (auto simp: embeddings_def Let_def p_def [symmetric] dest!: finish_buffered_shape intro: admitted [OF ad [unfolded Inr b]])
  qed
qed

section \<open>Tenant isolation on the request path\<close>

text \<open>A target that was read from the tables for a workspace: its provider's row and credential are that workspace's.\<close>

definition owned_target :: "uuid \<Rightarrow> provider_db \<Rightarrow> model_target \<Rightarrow> bool" where
  "owned_target ws db t = (mt_workspace_id t = ws \<and>
     (\<exists>p \<in> set (prov_tbl db). pt_id p = mt_provider_id t \<and> pt_ws p = ws \<and> pt_credential p = mt_encrypted_credential t))"

lemma resolve_model_targets_owned:
  "resolve_model_targets env ws name db = Inr ts \<Longrightarrow> t \<in> set ts \<Longrightarrow> owned_target ws db t"
  unfolding resolve_model_targets_def owned_target_def by (force simp: rbind_Inr pairs_sound is_model_def)

definition model_key :: "(uuid \<Rightarrow> string) \<Rightarrow> uuid \<Rightarrow> string \<Rightarrow> string" where
  "model_key print ws model = print ws @ '':'' @ model"

lemma resolve_for_cases:
  assumes "resolve_for env ws model db cache = (Inr rm, cache')"
  obtains (hit) "get_model cache (rq_resolve_at env) (model_key (rq_print env) ws model) = Some rm" "cache' = cache"
  | (unregistered) "\<forall>t \<in> set (rm_targets rm). owned_target ws db t" "cache' = cache"
  | (read) "\<forall>t \<in> set (rm_targets rm). owned_target ws db t" "cache' = set_model (rq_resolve_at env) (model_key (rq_print env) ws model) rm cache"
proof (cases "get_model cache (rq_resolve_at env) (model_key (rq_print env) ws model)")
  case (Some c)
  then show thesis using assms by (intro hit) (simp_all add: resolve_for_def resolve_model_def model_key_def)
next
  case None
  show thesis
  proof (cases "resolve_model_targets (rq_targets_db env) ws model db")
    case (Inl e)
    then show thesis using assms None by (simp add: resolve_for_def resolve_model_def model_key_def)
  next
    case (Inr ts)
    show thesis
    proof (cases ts)
      case Nil
      let ?target = "\<lambda>p. \<lparr>mt_model_id = uuid_nil, mt_workspace_id = ws, mt_provider_id = pt_id p,
        mt_provider_name = pt_name p, mt_provider_type = pt_type p, mt_model_name = model,
        mt_encrypted_credential = pt_credential p, mt_config = pt_config p\<rparr>"
      obtain ps where l: "list_providers (rq_providers_db env) ws db = Inr ps"
        using assms Inr None Nil by (cases "list_providers (rq_providers_db env) ws db") (simp_all add: resolve_for_def resolve_model_def model_key_def)
      obtain p ps' where c: "ps = p # ps'"
        using assms Inr None Nil l by (cases ps) (simp_all add: resolve_for_def resolve_model_def model_key_def)
      have ps: "p \<in> set ps" "rm_targets rm = [?target p]" "cache' = cache"
        using assms Inr None Nil l c by (auto simp: resolve_for_def resolve_model_def model_key_def provider_row_of_def)
      have "p \<in> set (prov_tbl db) \<and> pt_ws p = ws" using l ps(1) by (auto simp: list_providers_def rbind_Inr)
      then have "\<forall>t \<in> set (rm_targets rm). owned_target ws db t" unfolding ps(2) owned_target_def by auto
      then show thesis using ps(3) by (rule unregistered)
    next
      case (Cons t ts')
      with Inr None assms have "rm_targets rm = ts" "cache' = set_model (rq_resolve_at env) (model_key (rq_print env) ws model) rm cache"
        by (auto simp: resolve_for_def resolve_model_def model_key_def Let_def)
      then show thesis using resolve_model_targets_owned [OF Inr] read by blast
    qed
  qed
qed

lemma authenticate_request_models: "models (snd (authenticate_request ke envs now later hdr cache db)) = models cache"
  by (simp add: authenticate_request_def cache_api_key_def set_api_key_def split: sum.splits)

text \<open>Executions, with the requests served and the provider tables each one resolved from; instants are those of the cache's clock.\<close>

inductive gw_run :: "(uuid \<Rightarrow> string) \<Rightarrow> nat \<Rightarrow> ('m request_env \<times> provider_db) list \<Rightarrow> gateway_state \<Rightarrow> bool" for print where
  boot: "models (gs_cache st) = Map.empty \<Longrightarrow> gw_run print t [] st"
| serve: "gw_run print t hist st \<Longrightarrow> rq_print env = print \<Longrightarrow> t \<le> rq_resolve_at env \<Longrightarrow>
    gateway_serve env q st h = (effs, st', reply) \<Longrightarrow>
    gw_run print (rq_resolve_at env) ((env, gs_providers st) # hist) st'"
| elsewhere: "gw_run print t hist st \<Longrightarrow> t \<le> t' \<Longrightarrow> models (gs_cache st') \<subseteq>\<^sub>m models (gs_cache st) \<Longrightarrow> gw_run print t' hist st'"

text \<open>A cached model was read for the workspace of its key, from the tables of that instant.\<close>

definition models_owned :: "(uuid \<Rightarrow> string) \<Rightarrow> ('m request_env \<times> provider_db) list \<Rightarrow> config_cache \<Rightarrow> bool" where
  "models_owned print hist cache = (\<forall>key rm seen. models cache key = Some (rm, seen) \<longrightarrow>
     (\<exists>ws name env db. key = model_key print ws name \<and> seen = rq_resolve_at env \<and> (env, db) \<in> set hist \<and> (\<forall>t \<in> set (rm_targets rm). owned_target ws db t)))"

lemma models_ownedI:
  "(\<And>key rm seen. models cache key = Some (rm, seen) \<Longrightarrow> \<exists>ws name env db. key = model_key print ws name \<and> seen = rq_resolve_at env \<and>
     (env, db) \<in> set hist \<and> (\<forall>t \<in> set (rm_targets rm). owned_target ws db t)) \<Longrightarrow> models_owned print hist cache"
  unfolding models_owned_def by blast

lemma models_ownedD:
  "models_owned print hist cache \<Longrightarrow> models cache key = Some (rm, seen) \<Longrightarrow> \<exists>ws name env db. key = model_key print ws name \<and>
     seen = rq_resolve_at env \<and> (env, db) \<in> set hist \<and> (\<forall>t \<in> set (rm_targets rm). owned_target ws db t)"
  unfolding models_owned_def by blast

lemma models_owned_mono:
  assumes "models_owned print hist c" "models c' \<subseteq>\<^sub>m models c" "set hist \<subseteq> set hist'"
  shows "models_owned print hist' c'"
proof (rule models_ownedI)
  fix key rm seen
  assume "models c' key = Some (rm, seen)"
  then have "models c key = Some (rm, seen)" using assms(2) by (metis domI map_le_def)
  from models_ownedD [OF assms(1) this] assms(3)
  show "\<exists>ws name env db. key = model_key print ws name \<and> seen = rq_resolve_at env \<and> (env, db) \<in> set hist' \<and>
      (\<forall>t \<in> set (rm_targets rm). owned_target ws db t)" by blast
qed

lemma models_owned_set:
  assumes "models_owned print hist c" "\<forall>t \<in> set (rm_targets rm). owned_target ws db t"
  shows "models_owned print ((env, db) # hist) (set_model (rq_resolve_at env) (model_key print ws name) rm c)"
proof (rule models_ownedI)
  fix key rm' seen
  assume m: "models (set_model (rq_resolve_at env) (model_key print ws name) rm c) key = Some (rm', seen)"
  show "\<exists>ws name env' db'. key = model_key print ws name \<and> seen = rq_resolve_at env' \<and> (env', db') \<in> set ((env, db) # hist) \<and>
      (\<forall>t \<in> set (rm_targets rm'). owned_target ws db' t)"
  proof (cases "key = model_key print ws name")
    case True
    with m have "rm' = rm" "seen = rq_resolve_at env" by (simp_all add: set_model_def)
    with True assms(2) show ?thesis by (metis list.set_intros(1))
  next
    case False
    with m have "models c key = Some (rm', seen)" by (simp add: set_model_def)
    from models_ownedD [OF assms(1) this] show ?thesis by (metis list.set_intros(2))
  qed
qed

lemma admit_resolution:
  assumes "admit env h model n st = (effs, st', Inr (auth, gate, rm))"
  obtains cache where "authenticate_request (rq_key env) (rq_auth_db env) (rq_now env) (rq_later env) (h ''authorization'') (gs_cache st) (gs_keys st) = (Inr auth, cache)"
    "resolve_for env (au_workspace_id auth) model (gs_providers st) cache = (Inr rm, gs_cache st')"
  using assms by (auto simp: admit_def Let_def split: sum.splits prod.splits)

lemma resolve_for_failed: "resolve_for env ws model db cache = (Inl e, cache') \<Longrightarrow> cache' = cache"
  by (auto simp: resolve_for_def resolve_model_def Let_def split: option.splits sum.splits list.splits)

lemma admit_refused_models: "admit env h model n st = (effs, st', Inl e) \<Longrightarrow> models (gs_cache st') = models (gs_cache st)"
  using authenticate_request_models [of "rq_key env" "rq_auth_db env" "rq_now env" "rq_later env" "h ''authorization''" "gs_cache st" "gs_keys st"]
  by (auto simp: admit_def Let_def split: sum.splits prod.splits dest!: resolve_for_failed)

lemma admit_auth_models:
  "authenticate_request ke envs now later hdr cache db = (res, cache') \<Longrightarrow> models cache' = models cache"
  using authenticate_request_models [of ke envs now later hdr cache db] by simp

lemma gw_run_models_owned: "gw_run print t hist st \<Longrightarrow> models_owned print hist (gs_cache st)"
proof (induction rule: gw_run.induct)
  case (boot st t)
  then show ?case by (simp add: models_owned_def)
next
  case (serve t hist st env q h effs st' reply)
  let ?H = "(env, gs_providers st) # hist"
  from serve.hyps(4) show ?case
  proof (cases rule: gateway_serve_shape)
    case (refused model n e)
    then show ?thesis using models_owned_mono [OF serve.IH, of "gs_cache st'" ?H] admit_refused_models by (metis map_le_refl set_subset_Cons)
  next
    case (admitted model n effs0 st0 auth gate rm ms str kind params pe be)
    obtain cache where a: "authenticate_request (rq_key env) (rq_auth_db env) (rq_now env) (rq_later env) (h ''authorization'') (gs_cache st) (gs_keys st) = (Inr auth, cache)"
      "resolve_for env (au_workspace_id auth) model (gs_providers st) cache = (Inr rm, gs_cache st0)"
      by (rule admit_resolution [OF admitted(1)])
    have own: "models_owned print hist cache"
      using models_owned_mono [OF serve.IH, of cache hist] admit_auth_models [OF a(1)] by (metis map_le_refl order_refl)
    have keep: "models_owned print ?H cache" by (rule models_owned_mono [OF own map_le_refl]) auto
    from a(2) show ?thesis
    proof (cases rule: resolve_for_cases)
      case read
      then show ?thesis using models_owned_set [OF own read(1), of env model] serve.hyps(2) admitted(3) by simp
    qed (use keep admitted(3) in simp_all)
  qed
next
  case (elsewhere t hist st t' st')
  then show ?case using models_owned_mono by blast
qed

lemma model_key_workspace:
  assumes "inj print" "\<forall>u v. length (print u) = length (print v)" "model_key print ws a = model_key print ws' b"
  shows "ws = ws'"
  using assms(1,3) append_eq_append_conv [of "print ws" "print ws'"] assms(2) by (auto simp: model_key_def inj_eq)

lemma pipeline_calls_target:
  assumes "pipeline_effects gw auth rm req ans effs" "CallProvider t iv \<in> set effs"
  shows "t \<in> set (rm_targets rm)"
proof -
  have no: "CallProvider t iv \<notin> set es" if "filter calls_provider es = []" for es
    using that by (auto simp: filter_empty_conv calls_provider_def)
  have stream: "t \<in> set (rm_targets rm)" if "execute_stream gw auth rm req n = (effs1, r)" "CallProvider t iv \<in> set effs1" for n effs1 r
  proof -
    obtain effs0 q where p: "prepare gw auth rm req = (effs0, q)" by fastforce
    note none = no [OF conjunct1 [OF prepare_kinds [OF p]]]
    show ?thesis
    proof (cases q)
      case (Inl f)
      with that p none show ?thesis by (simp add: execute_stream_def)
    next
      case (Inr pr)
      obtain effs2 o' where o: "open_provider_stream gw (rm_targets rm) (pp_input pr) (gr_kind req) = (effs2, o')" by fastforce
      have "effs1 = effs0 @ effs2" using that(1) p Inr o by (auto simp: execute_stream_def Let_def split: sum.splits prod.splits)
      with that(2) none have "CallProvider t iv \<in> set effs2" by auto
      with o have "CallProvider t iv \<in> set (fst (open_provider_stream gw (rm_targets rm) (pp_input pr) (gr_kind req)))" by simp
      then show ?thesis unfolding open_provider_stream_def by (rule provider_chain_calls [THEN conjunct1])
    qed
  qed
  have tail: "CallProvider t iv \<notin> set (sx_effects x)" if x: "execute_stream gw auth rm req n = (effs1, Inr x)" for n effs1 x
  proof -
    obtain effs0 pr where p: "prepare gw auth rm req = (effs0, Inr pr)"
      using x by (auto simp: execute_stream_def split: sum.splits prod.splits)
    obtain effs2 tg evs where o: "open_provider_stream gw (rm_targets rm) (pp_input pr) (gr_kind req) = (effs2, Inr (tg, evs))"
      using x p by (auto simp: execute_stream_def split: sum.splits prod.splits)
    have "sx_effects x = snd (stream_finish gw auth rm req pr tg n (run_stream gw (redact_responses gw pr)
         (original_values (vault (pp_state pr))) evs (stream_init (pp_degraded pr) (pp_state pr))))"
      using x p o by (auto simp: execute_stream_def Let_def split: prod.splits)
    moreover have "CallProvider t iv \<notin> set (ss_effects (run_stream gw (redact_responses gw pr)
         (original_values (vault (pp_state pr))) evs (stream_init (pp_degraded pr) (pp_state pr))))"
      using run_stream_quiet [of gw "redact_responses gw pr" "original_values (vault (pp_state pr))" evs "pp_degraded pr" "pp_state pr"] by auto
    ultimately show ?thesis by (simp add: stream_finish_def Let_def)
  qed
  from assms(1) consider r where "execute gw auth rm req = (effs, r)" | n f where "execute_stream gw auth rm req n = (effs, Inl f)"
    | n effs1 x where "execute_stream gw auth rm req n = (effs1, Inr x)" "effs = effs1 @ sx_effects x"
    unfolding pipeline_effects_def by blast
  then show ?thesis
  proof cases
    case 1
    then show ?thesis using execute_call_origin [OF 1 assms(2)] obtain_output_calls(1) by metis
  next
    case 2
    then show ?thesis using stream assms(2) by blast
  next
    case 3
    then show ?thesis using stream tail assms(2) by auto
  qed
qed

lemma admit_no_calls: "admit env h model n st = (effs, st', res) \<Longrightarrow> Pipe e \<notin> set effs"
  by (auto simp: admit_def Let_def split: sum.splits prod.splits)

lemma get_model_Some: "get_model cache now key = Some m \<Longrightarrow> \<exists>seen. models cache key = Some (m, seen) \<and> now \<le> seen + cache_ttl"
  by (auto simp: get_model_def split: option.splits if_splits)

text \<open>
  C10. The gateway calls a provider only for its own tenant: in every execution, each provider call a chat,
  completion or embedding request makes was authenticated by a key, and goes to a provider of that key's
  workspace with the credential which that provider's row held at most sixty seconds before, whatever
  other tenants request and whatever the cache holds.
\<close>

theorem provider_calls_stay_in_workspace:
  assumes "gw_run print t hist st" "inj print" "\<forall>u v. length (print u) = length (print v)"
    and "rq_print env = print" "gateway_serve env q st h = (effs, st', reply)" "Pipe (CallProvider tg iv) \<in> set effs"
  shows "\<exists>auth env' db. fst (authenticate_request (rq_key env) (rq_auth_db env) (rq_now env) (rq_later env) (h ''authorization'')
      (gs_cache st) (gs_keys st)) = Inr auth \<and> (env', db) \<in> set ((env, gs_providers st) # hist) \<and>
    owned_target (au_workspace_id auth) db tg \<and> rq_resolve_at env \<le> rq_resolve_at env' + 60000"
  using assms(5)
proof (cases rule: gateway_serve_shape)
  case (refused model n e)
  then show ?thesis using admit_no_calls assms(6) by blast
next
  case (admitted model n effs0 st0 auth gate rm ms str kind params pe be)
  have "CallProvider tg iv \<in> set pe"
    using admitted(2) admit_no_calls [OF admitted(1)] assms(6) by auto
  then have tg: "tg \<in> set (rm_targets rm)" by (rule pipeline_calls_target [OF admitted(4)])
  obtain cache where a: "authenticate_request (rq_key env) (rq_auth_db env) (rq_now env) (rq_later env) (h ''authorization'') (gs_cache st) (gs_keys st) = (Inr auth, cache)"
    "resolve_for env (au_workspace_id auth) model (gs_providers st) cache = (Inr rm, gs_cache st0)"
    by (rule admit_resolution [OF admitted(1)])
  have "\<exists>env' db. (env', db) \<in> set ((env, gs_providers st) # hist) \<and> owned_target (au_workspace_id auth) db tg \<and>
      rq_resolve_at env \<le> rq_resolve_at env' + cache_ttl"
    using a(2)
  proof (cases rule: resolve_for_cases)
    case hit
    then obtain seen where seen: "models cache (model_key print (au_workspace_id auth) model) = Some (rm, seen)" "rq_resolve_at env \<le> seen + cache_ttl"
      using get_model_Some assms(4) by blast
    have "models (gs_cache st) (model_key print (au_workspace_id auth) model) = Some (rm, seen)"
      using seen(1) admit_auth_models [OF a(1)] by simp
    from models_ownedD [OF gw_run_models_owned [OF assms(1)] this] obtain ws name env' db where
      o: "model_key print (au_workspace_id auth) model = model_key print ws name" "seen = rq_resolve_at env'" "(env', db) \<in> set hist"
        "\<forall>t \<in> set (rm_targets rm). owned_target ws db t" by blast
    have "ws = au_workspace_id auth" using model_key_workspace [OF assms(2,3) o(1)] by simp
    then show ?thesis using o seen(2) tg by auto
  qed (use tg in \<open>auto intro!: exI [of _ env] exI [of _ "gs_providers st"]\<close>)
  with a(1) show ?thesis by (fastforce simp: cache_ttl_def)
qed

section \<open>One audit event, one identifier\<close>

definition event_of :: "uuid \<Rightarrow> auth_context \<Rightarrow> request_event \<Rightarrow> bool" where
  "event_of rid auth ev = (re_request_id ev = rid \<and> re_workspace_id ev = au_workspace_id auth \<and> re_api_key_id ev = Some (au_api_key_id auth))"

lemmas event_updates = event_of_def stamp_event_def event_new_def record_prompt_def record_response_def record_detections_def capture_content_def

lemma event_of_updates [simp]:
  "event_of rid auth (record_prompt p e) = event_of rid auth e" "event_of rid auth (record_response p e) = event_of rid auth e"
  "event_of rid auth (record_detections ds e) = event_of rid auth e" "event_of rid auth (capture_content c k a b d e) = event_of rid auth e"
  "event_of rid auth (e\<lparr>re_latency_ms := l\<rparr>) = event_of rid auth e" "event_of rid auth (e\<lparr>re_ttft_ms := t\<rparr>) = event_of rid auth e"
  "event_of rid auth (e\<lparr>re_floor_only := f\<rparr>) = event_of rid auth e" "event_of rid auth (e\<lparr>re_engines := g\<rparr>) = event_of rid auth e"
  "event_of rid auth (e\<lparr>re_model_registered := reg\<rparr>) = event_of rid auth e"
  by (simp_all add: event_updates Let_def split: option.splits redacted_prompt.splits)

lemma event_of_stamped [simp]: "event_of rid auth (stamp_event auth req (event_new rid (au_workspace_id auth) a b c d e f g))"
  by (simp add: event_updates)

lemma prepared_request_id:
  assumes "prepare env auth rm req = (effs, Inr p)"
  shows "pp_request_id p = request_id_of env req"
  using assms
  by (auto simp: prepare_def finish_prepare_def Let_def split: sidecar_gate_result.splits sum.splits prod.splits if_splits list.splits)

lemma execute_event:
  assumes "execute env auth rm req = (effs, Inr x)"
  shows "\<exists>ev. filter is_event effs = [EnqueueEvent ev] \<and> event_of (request_id_of env req) auth ev"
proof -
  obtain effs0 p where p: "prepare env auth rm req = (effs0, Inr p)"
    using assms by (auto simp: execute_def split: sum.splits prod.splits)
  obtain effs1 t out where o: "obtain_output env rm req p = (effs1, Inr (t, out))"
    using assms p by (auto simp: execute_def split: sum.splits prod.splits)
  obtain effs2 restored client v m d where c: "client_view env p out = (effs2, restored, client, v, m, d)" by (metis prod_cases6)
  have "filter is_event (effs0 @ effs1 @ effs2) = []"
    using prepare_kinds [OF p] client_view_kinds [OF c] obtain_output_events [of env rm req p] o by auto
  then show ?thesis
    using assms p o c prepared_request_id [OF p] by (auto simp: execute_def Let_def is_event_def)
qed

lemma execute_stream_event:
  assumes "execute_stream env auth rm req n = (effs, Inr x)"
  shows "\<exists>ev. filter is_event (effs @ sx_effects x) = [EnqueueEvent ev] \<and> event_of (request_id_of env req) auth ev"
proof -
  obtain effs0 p where p: "prepare env auth rm req = (effs0, Inr p)"
    using assms by (auto simp: execute_stream_def split: sum.splits prod.splits)
  obtain effs1 t evs where o: "open_provider_stream env (rm_targets rm) (pp_input p) (gr_kind req) = (effs1, Inr (t, evs))"
    using assms p by (auto simp: execute_stream_def split: sum.splits prod.splits)
  let ?st = "run_stream env (redact_responses env p) (original_values (vault (pp_state p))) evs (stream_init (pp_degraded p) (pp_state p))"
  have quiet: "filter is_event (ss_effects ?st) = []"
    using run_stream_quiet [of env "redact_responses env p" "original_values (vault (pp_state p))" evs "pp_degraded p" "pp_state p"]
    by (auto simp: filter_empty_conv is_event_def)
  have "filter is_event effs = []"
    using assms p o prepare_kinds [OF p] provider_chain_events [of env "adapter_events env" "invocation_template (pp_input p) (gr_kind req) True" "rm_targets rm" None]
    by (auto simp: execute_stream_def open_provider_stream_def Let_def split: prod.splits)
  moreover have "\<exists>ev. filter is_event (snd (stream_finish env auth rm req p t n ?st)) = [EnqueueEvent ev] \<and> event_of (pp_request_id p) auth ev"
    using quiet by (simp add: stream_finish_def Let_def is_event_def)
  moreover have "sx_effects x = snd (stream_finish env auth rm req p t n ?st)"
    using assms p o by (auto simp: execute_stream_def Let_def split: prod.splits)
  ultimately show ?thesis using prepared_request_id [OF p] by simp
qed

lemma pipeline_event:
  "pipeline_effects gw auth rm req True effs \<Longrightarrow> \<exists>ev. filter is_event effs = [EnqueueEvent ev] \<and> event_of (request_id_of gw req) auth ev"
  unfolding pipeline_effects_def isl_def using execute_event execute_stream_event by (metis old.sum.exhaust)

fun is_audit :: "front_effect \<Rightarrow> bool" where
  "is_audit (Pipe e) = is_event e"
| "is_audit (Budget _) = False"

lemma filter_audit [simp]: "filter is_audit (map Pipe es) = map Pipe (filter is_event es)" "filter is_audit (map Budget bs) = []"
  by (simp_all add: filter_map o_def)

lemma admit_no_audit: "admit env h model n st = (effs, st', res) \<Longrightarrow> filter is_audit effs = []"
  by (auto simp: admit_def Let_def split: sum.splits prod.splits)

text \<open>
  C24. An answered request is audited once, under one identifier: behind the request-id middleware, a chat,
  completion or embedding request that is answered with status 200, buffered or streamed, enqueues exactly
  one event, with the workspace and the key that authenticated it, and the identifier of that event is
  the one the response header tells the caller.
\<close>

theorem answered_request_is_audited_once:
  assumes "\<forall>u. rq_parse env (rq_print env u) = Some u"
    and "propagate (rq_parse env) (rq_print env) generated (gateway_serve env q st) h = (effs, st', Some reply)" "reply_status reply = 200"
  shows "\<exists>auth ev. fst (authenticate_request (rq_key env) (rq_auth_db env) (rq_now env) (rq_later env) (h ''authorization'')
      (gs_cache st) (gs_keys st)) = Inr auth \<and> filter is_audit effs = [Pipe (EnqueueEvent ev)] \<and>
    re_workspace_id ev = au_workspace_id auth \<and> re_api_key_id ev = Some (au_api_key_id auth) \<and>
    map_of (reply_headers reply) ''x-request-id'' = Some (rq_print env (re_request_id ev))"
proof -
  define rid where "rid = rid_id (resolve_request_id (rq_parse env) (header_str h request_id_header) generated)"
  define h' where "h' = h(request_id_header := Some (Some (rq_print env rid)))"
  obtain rep where g: "gateway_serve env q st h' = (effs, st', Some rep)" "reply = insert_header request_id_header (rq_print env rid) rep"
    using assms(2) by (auto simp: propagate_def Let_def rid_def h'_def split: prod.splits)
  have ans: "answered (Some rep)" using assms(3) g(2) by (simp add: answered_def insert_header_def)
  have auth': "h' ''authorization'' = h ''authorization''" by (simp add: h'_def request_id_header_def)
  from g(1) show ?thesis
  proof (cases rule: gateway_serve_shape)
    case (refused model n e)
    then show ?thesis using ans by simp
  next
    case (admitted model n effs0 st0 auth gate rm ms str kind params pe be)
    let ?req = "gateway_request_of env h' model ms str kind params"
    have "request_id_of (rq_gw env (au_workspace_id auth)) ?req = rid"
      using assms(1) by (simp add: request_id_of_def gateway_request_of_def request_id_from_headers_def header_str_def h'_def unwrap_or_def)
    moreover obtain ev where "filter is_event pe = [EnqueueEvent ev]" "event_of (request_id_of (rq_gw env (au_workspace_id auth)) ?req) auth ev"
      using pipeline_event admitted(4) ans by fastforce
    ultimately show ?thesis
      using admit_resolution [OF admitted(1)] admit_no_audit [OF admitted(1)] admitted(2) g(2) auth'
      by (fastforce simp: event_of_def insert_header_def request_id_header_def update_conv)
  qed
qed

section \<open>Budgets and counts\<close>

text \<open>A request that fails after its budget was reserved keeps the reservation.\<close>

lemma failed_request_keeps_reservation:
  assumes "finish_buffered env auth gate rm req n render effs0 st = (effs, st', Some (api_error_response e))" "\<And>x. reply_status (render x) = 200"
  shows "gs_redis st' = gs_redis st"
proof -
  obtain effs1 r where x: "execute (rq_gw env (au_workspace_id auth)) auth rm req = (effs1, r)" by fastforce
  show ?thesis
  proof (cases r)
    case (Inl f)
    with assms(1) x show ?thesis by (cases f) (auto simp: finish_buffered_def)
  next
    case (Inr a)
    with assms x have "answered (Some (api_error_response e))"
      by (auto simp: finish_buffered_def Let_def simp del: error_not_answered split: prod.splits) (metis annotated_answered assms(2))
    then show ?thesis by simp
  qed
qed

text \<open>The total the client is told is the budget's total except when that needs more than 32 bits.\<close>

lemma reported_total:
  "json_get (usage_json x) ''total_tokens'' = Some (JNum (of_nat (total_tokens x mod 2 ^ 32)))"
  by (simp add: usage_json_def usage_value_def count_json_def total_tokens_def unat_word_ariths)

definition gw_print :: "uuid \<Rightarrow> string" where
  "gw_print u = map (\<lambda>i. if bit u i then CHR ''1'' else CHR ''0'') [0..<128]"

definition gw_parse :: "string \<Rightarrow> uuid option" where
  "gw_parse s = Some (horner_sum of_bool 2 (map (\<lambda>c. c = CHR ''1'') s))"

lemma gw_parse_print: "gw_parse (gw_print u) = Some u"
proof -
  have "map (\<lambda>c. c = CHR ''1'') (gw_print u) = map (bit u) [0..<128]" by (simp add: gw_print_def)
  then have "gw_parse (gw_print u) = Some (take_bit 128 u)"
    unfolding gw_parse_def by (simp only: horner_sum_bit_eq_take_bit)
  then show ?thesis by (simp add: take_bit_word_eq_self)
qed

lemma gw_print_inj: "inj gw_print"
  by (rule injI) (metis gw_parse_print option.inject)

definition gw_demo :: "detection request_env" where
  "gw_demo = \<lparr>rq_key = key_demo, rq_auth_db = (\<lambda>_. demo_env), rq_now = 5, rq_later = 5, rq_limit_at = (0, 0), rq_print = gw_print,
     rq_parse = gw_parse, rq_mac_db = demo_env,
     rq_budget = \<lparr>be_db = demo_env, be_redis = \<lparr>conn_err = (\<lambda>_. None), cmd_err = (\<lambda>_. None), type_err = [], overflow_err = [], redis_now = 0\<rparr>,
        be_show = gw_print, be_day = ''d'', be_month = ''m''\<rparr>,
     rq_budget_after = \<lparr>be_db = demo_env, be_redis = \<lparr>conn_err = (\<lambda>_. None), cmd_err = (\<lambda>_. None), type_err = [], overflow_err = [], redis_now = 0\<rparr>,
        be_show = gw_print, be_day = ''d'', be_month = ''m''\<rparr>,
     rq_targets_db = demo_env, rq_providers_db = demo_env, rq_resolve_at = 5,
     rq_gw = (\<lambda>_. demo_gw Complete (demo_mode False ''standard'') []), rq_connect_ip = ''ip'', rq_created = 0, rq_stream_id = ''x'',
     rq_to_string = (\<lambda>_. [])\<rparr>"

definition gw_demo_state :: gateway_state where
  "gw_demo_state = \<lparr>gs_cache = \<lparr>api_keys = Map.empty(''sp_k'' \<mapsto> \<lparr>ck_api_key_id = 2, ck_workspace_id = 7, ck_name = ''key'', ck_assigned_user_id = None, ck_cached_at = 5\<rparr>),
       models = Map.empty\<rparr>,
     gs_keys = \<lparr>keys_tbl = [], key_audit = [], key_workspaces = []\<rparr>,
     gs_limiter = \<lparr>rl_window = 2, rl_max = 5, rl_buckets = []\<rparr>, gs_budget = \<lparr>budget_tbl = Map.empty, budget_audit = []\<rparr>,
     gs_redis = (\<lambda>_. None), gs_providers = prov_demo_db\<lparr>prov_tbl := map (\<lambda>p. p\<lparr>pt_credential := None\<rparr>) (prov_tbl prov_demo_db)\<rparr>, gs_profiles = []\<rparr>"

definition gw_demo_headers :: headers where
  "gw_demo_headers name = (if name = ''authorization'' then Some (Some ''Bearer sp_k'') else None)"

definition gw_demo_chat :: gateway_call where
  "gw_demo_chat = ChatCall \<lparr>cc_model = ''gpt'', cc_messages = [\<lparr>role = ''user'', msg_content = ''hi Bob''\<rparr>], cc_stream = False,
     cc_stream_options = None, cc_extra = []\<rparr>"

definition gw_demo_auth :: auth_context where
  "gw_demo_auth = \<lparr>au_workspace_id = 7, au_user_id = None, au_api_key_id = 2, au_api_key_name = ''key''\<rparr>"

lemma gw_demo_authenticated:
  "authenticate_request (rq_key gw_demo) (rq_auth_db gw_demo) (rq_now gw_demo) (rq_later gw_demo) (Some (Some ''Bearer sp_k''))
     (gs_cache gw_demo_state) (gs_keys gw_demo_state) = (Inr gw_demo_auth, gs_cache gw_demo_state)"
  by (simp add: authenticate_request_def authenticate_lookup_def bearer_key_def gw_demo_state_def gw_demo_def gw_demo_auth_def
      strip_prefix_def get_api_key_def context_of_cached_def ok_or_def cache_ttl_def)

lemma gw_demo_limit: "\<exists>rl. enforce_rate_limit gw_print 0 0 2 7 \<lparr>rl_window = 2, rl_max = 5, rl_buckets = []\<rparr> = (Inr (), rl)"
  by (simp add: enforce_rate_limit_def limiter_check_def Let_def bucket_cap_def unwrap_or_def)

lemma gw_demo_budget:
  "pre_check_budget (rq_budget gw_demo) (gs_budget gw_demo_state) 7 n r = ([BudgetEvent ''none'' ''allow''], Inr BudgetPass, r)"
  by (simp add: pre_check_budget_def budget_check_def budget_get_def gw_demo_def gw_demo_state_def begin_scoped_def arm_scope_def
      scope_is_armed_def stmt_def demo_env_def)

lemma gw_demo_resolved:
  "\<exists>c t. resolve_for gw_demo 7 ''gpt'' (gs_providers gw_demo_state) (gs_cache gw_demo_state) =
     (Inr \<lparr>rm_public_model = ''gpt'', rm_targets = [t]\<rparr>, c) \<and> mt_encrypted_credential t = None"
  by (simp add: resolve_for_def resolve_model_def get_model_def gw_demo_state_def gw_demo_def resolve_model_targets_def
      model_provider_pairs_def prov_demo_db_def begin_scoped_def arm_scope_def scope_is_armed_def stmt_def demo_env_def Let_def)

lemma gw_demo_admitted:
  assumes "h ''authorization'' = Some (Some ''Bearer sp_k'')"
  obtains effs st t where "admit gw_demo h ''gpt'' n gw_demo_state = (effs, st, Inr (gw_demo_auth, BudgetPass, \<lparr>rm_public_model = ''gpt'', rm_targets = [t]\<rparr>))"
    "mt_encrypted_credential t = None"
proof -
  obtain rl where l: "enforce_rate_limit gw_print 0 0 2 7 \<lparr>rl_window = 2, rl_max = 5, rl_buckets = []\<rparr> = (Inr (), rl)" using gw_demo_limit by blast
  obtain c t where res: "resolve_for gw_demo 7 ''gpt'' (gs_providers gw_demo_state) (gs_cache gw_demo_state) =
     (Inr \<lparr>rm_public_model = ''gpt'', rm_targets = [t]\<rparr>, c)" "mt_encrypted_credential t = None" using gw_demo_resolved by blast
  have s: "rq_print gw_demo = gw_print" "rq_limit_at gw_demo = (0, 0)" "gs_limiter gw_demo_state = \<lparr>rl_window = 2, rl_max = 5, rl_buckets = []\<rparr>"
    "au_workspace_id gw_demo_auth = 7" "au_api_key_id gw_demo_auth = 2"
    by (simp_all add: gw_demo_def gw_demo_state_def gw_demo_auth_def)
  show thesis
    using that [OF _ res(2)] unfolding admit_def assms gw_demo_authenticated by (simp add: s l gw_demo_budget res(1))
qed

text \<open>The pipeline of the demonstration finds nothing to redact and its provider echoes.\<close>

lemma gw_demo_execute:
  assumes "gr_messages req = [\<lparr>role = ''user'', msg_content = ''hi Bob''\<rparr>]" "\<not> gr_stream req" "mt_encrypted_credential t = None"
  shows "\<exists>effs x iv. execute (rq_gw gw_demo 7) gw_demo_auth \<lparr>rm_public_model = ''gpt'', rm_targets = [t]\<rparr> req = (effs, Inr x) \<and>
    CallProvider t iv \<in> set effs"
proof -
  let ?gw = "rq_gw gw_demo 7" and ?rm = "\<lparr>rm_public_model = ''gpt'', rm_targets = [t]\<rparr>"
  have gw: "?gw = demo_gw Complete (demo_mode False ''standard'') []" by (simp add: gw_demo_def)
  have "scanned_prompt ?gw req = (''hi Bob'', [])"
    using assms(1) by (simp add: scanned_prompt_def preload_file_vault_def prompt_from_messages_def marker_open_def str_contains_def vault_empty_def)
  then have "\<exists>effs0 p. prepare ?gw gw_demo_auth ?rm req = (effs0, Inr p)"
    using demo_detections [of Complete "demo_mode False ''standard''" "[]"]
    unfolding scanned_prompt_def scanned_detections_def gw
    by (simp add: prepare_def)
      (simp add: demo_gw_def demo_mode_def evaluate_policy_spec policy_spec_def sidecar_gate_def secure_mode_step_def
        finish_prepare_def apply_fallback_redaction_def net_redact_def demo_redaction Let_def
        pipeline_state_default_def policy_input_of_def)
  then obtain effs0 p where p: "prepare ?gw gw_demo_auth ?rm req = (effs0, Inr p)" by blast
  have "\<exists>effs1 out iv. obtain_output ?gw ?rm req p = (effs1, Inr (t, out)) \<and> CallProvider t iv \<in> set effs1"
    using assms(2,3) by (simp add: obtain_output_def invoke_provider_chain_def provider_chain_Cons credential_of_def gw_demo_def demo_gw_def)
  then obtain effs1 out iv where o: "obtain_output ?gw ?rm req p = (effs1, Inr (t, out))" "CallProvider t iv \<in> set effs1" by blast
  obtain effs2 x where "execute ?gw gw_demo_auth ?rm req = (effs0 @ effs1 @ effs2, Inr x)"
    using execute_answered [OF p o(1)] by blast
  with o(2) show ?thesis by (metis Un_iff set_append)
qed

lemma gw_demo_served:
  assumes "h ''authorization'' = Some (Some ''Bearer sp_k'')"
  obtains effs st' reply t iv where "gateway_serve gw_demo gw_demo_chat gw_demo_state h = (effs, st', Some reply)" "reply_status reply = 200"
    "Pipe (CallProvider t iv) \<in> set effs"
proof -
  obtain effs0 st t where a: "admit gw_demo h ''gpt'' 2 gw_demo_state = (effs0, st, Inr (gw_demo_auth, BudgetPass, \<lparr>rm_public_model = ''gpt'', rm_targets = [t]\<rparr>))"
    "mt_encrypted_credential t = None" by (rule gw_demo_admitted [of h, OF assms])
  let ?req = "gateway_request_of gw_demo h ''gpt'' [\<lparr>role = ''user'', msg_content = ''hi Bob''\<rparr>] False Chat (extra_params_of [] None False)"
  obtain effs1 x iv where x: "execute (rq_gw gw_demo 7) gw_demo_auth \<lparr>rm_public_model = ''gpt'', rm_targets = [t]\<rparr> ?req = (effs1, Inr x)" "CallProvider t iv \<in> set effs1"
    using gw_demo_execute [of ?req t] a(2) by (auto simp: gateway_request_of_def)
  have n: "estimate_tokens_from_text ''hi Bob'' = 2" "au_workspace_id gw_demo_auth = 7"
    by (simp_all add: estimate_tokens_from_text_def char_count_def is_cont_def gw_demo_auth_def byte_of_def)
  obtain be r where rec: "reconcile_workspace_tokens (rq_budget_after gw_demo) 7 x 2 (gs_redis st) = (be, r)" by fastforce
  let ?rep = "annotated BudgetPass (px_degraded x) (px_engines x) (ok_reply (JsonBody (chat_answer gw_demo x)))"
  have "gateway_serve gw_demo gw_demo_chat gw_demo_state h = (effs0 @ map Pipe effs1 @ map Budget be, st\<lparr>gs_redis := r\<rparr>, Some ?rep)"
    using a(1) x(1) rec by (simp add: gw_demo_chat_def chat_completions_def finish_buffered_def n)
  moreover have "answered (Some ?rep)" by simp
  then have "reply_status ?rep = 200" by (simp add: answered_def)
  ultimately show thesis using that x(2) by fastforce
qed

theorem provider_calls_stay_in_workspace_witness:
  "\<exists>effs st' reply t iv. gateway_serve gw_demo gw_demo_chat gw_demo_state gw_demo_headers = (effs, st', Some reply) \<and>
     Pipe (CallProvider t iv) \<in> set effs \<and> owned_target 7 (gs_providers gw_demo_state) t"
proof -
  have h: "gw_demo_headers ''authorization'' = Some (Some ''Bearer sp_k'')" by (simp add: gw_demo_headers_def)
  obtain effs st' reply t iv where g: "gateway_serve gw_demo gw_demo_chat gw_demo_state gw_demo_headers = (effs, st', Some reply)"
    "reply_status reply = 200" "Pipe (CallProvider t iv) \<in> set effs" by (rule gw_demo_served [of gw_demo_headers, OF h])
  have run: "gw_run gw_print 0 [] gw_demo_state" by (rule gw_run.boot) (simp add: gw_demo_state_def)
  have len: "\<forall>u v. length (gw_print u) = length (gw_print v)" by (simp add: gw_print_def)
  have pr: "rq_print gw_demo = gw_print" by (simp add: gw_demo_def)
  have "owned_target 7 (gs_providers gw_demo_state) t"
    using provider_calls_stay_in_workspace [OF run gw_print_inj len pr g(1,3)]
    unfolding h gw_demo_authenticated by (auto simp: gw_demo_auth_def)
  with g(1,3) show ?thesis by (intro exI conjI)
qed

theorem answered_request_is_audited_once_witness:
  "\<exists>effs st' reply ev. propagate gw_parse gw_print 1 (gateway_serve gw_demo gw_demo_chat gw_demo_state) gw_demo_headers = (effs, st', Some reply) \<and>
     filter is_audit effs = [Pipe (EnqueueEvent ev)] \<and> map_of (reply_headers reply) ''x-request-id'' = Some (gw_print (re_request_id ev))"
proof -
  have pp: "rq_parse gw_demo = gw_parse" "rq_print gw_demo = gw_print" by (simp_all add: gw_demo_def)
  define hd' where hd': "hd' = Some (Some (gw_print 1))"
  have h: "(gw_demo_headers(request_id_header := hd')) ''authorization'' = Some (Some ''Bearer sp_k'')"
    by (simp add: gw_demo_headers_def request_id_header_def)
  obtain effs st' reply t iv where g: "gateway_serve gw_demo gw_demo_chat gw_demo_state (gw_demo_headers(request_id_header := hd')) = (effs, st', Some reply)"
    "reply_status reply = 200" "Pipe (CallProvider t iv) \<in> set effs" by (rule gw_demo_served [of "gw_demo_headers(request_id_header := hd')", OF h])
  have p: "propagate (rq_parse gw_demo) (rq_print gw_demo) 1 (gateway_serve gw_demo gw_demo_chat gw_demo_state) gw_demo_headers =
      (effs, st', Some (insert_header request_id_header (gw_print 1) reply))"
    using g(1) hd' by (simp add: propagate_def resolve_request_id_def header_str_def gw_demo_headers_def request_id_header_def pp)
  have rt: "\<forall>u. rq_parse gw_demo (rq_print gw_demo u) = Some u" by (simp add: pp gw_parse_print)
  have ok: "reply_status (insert_header request_id_header (gw_print 1) reply) = 200" using g(2) by (simp add: insert_header_def)
  from answered_request_is_audited_once [OF rt p ok] p show ?thesis unfolding pp by blast
qed

end
