(* ===== verification/Scan_Routes.thy ===== *)
theory Scan_Routes
  imports Gateway_Api Ml_Client Secure_Mode_Api
begin

text \<open>
  The utility routes of the gateway: file scans (\<open>routes/scan_file.rs\<close>), which go to the sidecar's scanner
  for a member of the workspace, and the tools of \<open>routes/mcp_routes.rs\<close> (redaction, token estimate,
  policy check and the stash of a scanned file's originals).

  A scan writes its audit row, sends the bytes and, for an asynchronous scan, binds the task to the
  workspace; these are its effects, in this order. The sidecar's answers, the text of UUIDs and JSON, and
  which texts a header value may hold are parameters.
\<close>

section \<open>Who may scan\<close>

fun may_run_file_scan :: "user_role \<Rightarrow> bool" where
  "may_run_file_scan Owner = True"
| "may_run_file_scan Admin = True"
| "may_run_file_scan Developer = True"
| "may_run_file_scan Employee = True"
| "may_run_file_scan Viewer = False"

definition default_scan_max_body_bytes :: nat where
  "default_scan_max_body_bytes = 16 * 1024 * 1024"

definition parse_scan_max_body_bytes :: "string option \<Rightarrow> nat" where
  "parse_scan_max_body_bytes raw = unwrap_or default_scan_max_body_bytes (positive_millis raw)"

definition scan_task_binding_ttl_secs :: nat where
  "scan_task_binding_ttl_secs = 3600"

record scan_principal =
  sp_workspace_id :: uuid
  sp_user_id :: uuid
  sp_email :: string
  sp_role :: string
  sp_api_key_id :: uuid

record scan_state =
  ss_cache :: config_cache
  ss_keys :: key_db
  ss_members :: session_db
  ss_audit :: "audit_row list"
  ss_redis :: redis

record scan_env =
  se_key :: key_env
  se_auth_db :: "nat \<Rightarrow> db_env"
  se_now :: nat
  se_later :: nat
  se_users_db :: db_env
  se_audit_db :: db_env
  se_print :: "uuid \<Rightarrow> string"
  se_parse :: "string \<Rightarrow> uuid option"
  se_new_id :: uuid
  se_redis :: redis_env
  se_client :: ml_client
  se_timeout_var :: "string option"
  se_client_err :: "string option"
  se_send :: "raw_request \<Rightarrow> (string, proxy_response) result"
  se_from_slice :: "string \<Rightarrow> json option"
  se_header_value :: "string \<Rightarrow> bool"

definition scan_member :: "scan_env \<Rightarrow> auth_context \<Rightarrow> session_db \<Rightarrow> (api_error, scan_principal) result" where
  "scan_member env auth db =
     rbind (ok_or (au_user_id auth) (Forbidden ''file scans require an API key assigned to a workspace member'')) (\<lambda>u.
     rbind (stmt (se_users_db env) 0) (\<lambda>_.
     rbind (ok_or (user_in_ws u (au_workspace_id auth) db)
              (Forbidden ''the API key is assigned to no current workspace member'')) (\<lambda>row.
     rbind (from_db_str (us_role row)) (\<lambda>role.
     rbind (guard_err (\<not> may_run_file_scan role) (Forbidden ''this role may not run file scans'')) (\<lambda>_.
       Inr \<lparr>sp_workspace_id = au_workspace_id auth, sp_user_id = u, sp_email = us_email row, sp_role = us_role row,
            sp_api_key_id = au_api_key_id auth\<rparr>)))))"

definition authorize_scan :: "scan_env \<Rightarrow> headers \<Rightarrow> scan_state \<Rightarrow> (api_error, scan_principal) result \<times> scan_state" where
  "authorize_scan env h st =
     (let (auth, cache) = authenticate_request (se_key env) (se_auth_db env) (se_now env) (se_later env) (h ''authorization'')
            (ss_cache st) (ss_keys st)
      in (rbind auth (\<lambda>a. scan_member env a (ss_members st)), st\<lparr>ss_cache := cache\<rparr>))"

section \<open>A scan\<close>

text \<open>The effects, each with the member it happened for.\<close>

datatype scan_effect =
    AuditCommitted audit_row
  | SidecarCall scan_principal raw_request
  | TaskBound string uuid

definition scan_entry :: "scan_env \<Rightarrow> scan_principal \<Rightarrow> headers \<Rightarrow> string \<Rightarrow> nat \<Rightarrow> audit_entry" where
  "scan_entry env p h mode request_bytes =
     with_detail (JObj [(''mode'', JStr mode), (''request_bytes'', JNum (of_nat request_bytes)),
         (''api_key_id'', JStr (se_print env (sp_api_key_id p)))])
       (targeting_user (sp_user_id p) (sp_email p) (sp_role p)
         (on_object FileScanRequested (unwrap_or (se_new_id env) (request_id_from_headers (se_parse env) h)) None))"

definition record_scan ::
  "scan_env \<Rightarrow> scan_principal \<Rightarrow> headers \<Rightarrow> string \<Rightarrow> nat \<Rightarrow> audit_row list \<Rightarrow> (api_error, audit_row list) result" where
  "record_scan env p h mode request_bytes tbl =
     rbind (begin_scoped (se_audit_db env) (sp_workspace_id p)) (\<lambda>_.
     rbind (audit_write (se_audit_db env) 3
       \<lparr>actor_ws = sp_workspace_id p, actor_user_id = Some (sp_user_id p), actor_email = Some (sp_email p),
        actor_role = Some (sp_role p)\<rparr> (scan_entry env p h mode request_bytes) tbl) (\<lambda>tbl'.
     rbind (stmt (se_audit_db env) 4) (\<lambda>_. Inr tbl')))"

definition relay :: "scan_env \<Rightarrow> proxy_response \<Rightarrow> http_reply" where
  "relay env r =
     (let ctype = unwrap_or ''application/json'' (px_content_type r) in
      \<lparr>reply_status = (if 100 \<le> px_status r \<and> px_status r < 1000 then px_status r else 500),
       reply_headers = (if se_header_value env ctype then [(''content-type'', ctype)] else []),
       reply_body = TextBody (px_body r)\<rparr>)"

definition scanning_unavailable :: http_reply where
  "scanning_unavailable = api_error_response (ServiceUnavailable ''file scanning is unavailable'')"

text \<open>The request \<open>proxy_scan\<close> sends, when it sends one, and its answer.\<close>

definition proxied :: "scan_env \<Rightarrow> scan_principal \<Rightarrow> proxy_method \<Rightarrow> string \<Rightarrow> string option \<Rightarrow> string \<Rightarrow> scan_effect list" where
  "proxied env p meth path ctype body =
     (if \<not> cl_enabled (se_client env) \<or> se_client_err env \<noteq> None then []
      else [SidecarCall p \<lparr>rq_post = (meth = ProxyPost), rq_url = cl_base_url (se_client env) @ path,
              rq_timeout_ms = scan_timeout (se_timeout_var env), rq_authorization = ''Bearer '' @ cl_token (se_client env),
              rq_content_type = ctype, rq_body = (if meth = ProxyPost then body else [])\<rparr>])"

definition proxy_call ::
  "scan_env \<Rightarrow> proxy_method \<Rightarrow> string \<Rightarrow> string option \<Rightarrow> string \<Rightarrow> (string, proxy_response) result" where
  "proxy_call env = proxy_scan (se_client env) (se_timeout_var env) (se_client_err env) (se_send env)"

definition task_id_of :: "scan_env \<Rightarrow> string \<Rightarrow> string option" where
  "task_id_of env body = Option.bind (se_from_slice env body) (\<lambda>v. get_str v ''task_id'')"

definition bind_kickoff ::
  "scan_env \<Rightarrow> scan_principal \<Rightarrow> proxy_response \<Rightarrow> scan_state \<Rightarrow> scan_effect list \<times> scan_state \<times> http_reply" where
  "bind_kickoff env p r st =
     (case task_id_of env (px_body r) of
        None \<Rightarrow> ([], st, scanning_unavailable)
      | Some t \<Rightarrow>
          (case bind_scan_task (se_redis env) 0 (se_print env) t (sp_workspace_id p) scan_task_binding_ttl_secs (ss_redis st) of
             Inl e \<Rightarrow> ([], st, api_error_response e)
           | Inr red \<Rightarrow> ([TaskBound t (sp_workspace_id p)], st\<lparr>ss_redis := red\<rparr>, relay env r)))"

definition forward_scan ::
  "scan_env \<Rightarrow> headers \<Rightarrow> string \<Rightarrow> string \<Rightarrow> string \<Rightarrow> scan_state \<Rightarrow> scan_effect list \<times> scan_state \<times> http_reply" where
  "forward_scan env h body mode path st =
     (case authorize_scan env h st of
        (Inl e, st1) \<Rightarrow> ([], st1, api_error_response e)
      | (Inr p, st1) \<Rightarrow>
     (case record_scan env p h mode (length body) (ss_audit st1) of
        Inl e \<Rightarrow> ([], st1, api_error_response e)
      | Inr tbl \<Rightarrow>
          (let st2 = st1\<lparr>ss_audit := tbl\<rparr>; ctype = header_str h ''content-type'';
               effs = AuditCommitted (last tbl) # proxied env p ProxyPost path ctype body in
           case proxy_call env ProxyPost path ctype body of
             Inl e \<Rightarrow> (effs, st2, scanning_unavailable)
           | Inr r \<Rightarrow>
               if mode = ''async'' \<and> 200 \<le> px_status r \<and> px_status r < 300 then
                 let (bound, st3, reply) = bind_kickoff env p r st2 in (effs @ bound, st3, reply)
               else (effs, st2, relay env r))))"

definition scan_tasks_path :: string where
  "scan_tasks_path = ''/v1/scan-file/tasks/''"

definition scan_file_task ::
  "scan_env \<Rightarrow> headers \<Rightarrow> string \<Rightarrow> scan_state \<Rightarrow> scan_effect list \<times> scan_state \<times> http_reply" where
  "scan_file_task env h task_id st =
     (case authorize_scan env h st of
        (Inl e, st1) \<Rightarrow> ([], st1, api_error_response e)
      | (Inr p, st1) \<Rightarrow>
     (case scan_task_owner (se_redis env) 0 task_id (ss_redis st1) of
        Inl e \<Rightarrow> ([], st1, api_error_response e)
      | Inr owner \<Rightarrow>
          if owner \<noteq> Some (se_print env (sp_workspace_id p)) then ([], st1, api_error_response (NotFound ''no such scan task''))
          else (proxied env p ProxyGet (scan_tasks_path @ task_id) None [], st1,
            (case proxy_call env ProxyGet (scan_tasks_path @ task_id) None [] of
               Inr r \<Rightarrow> relay env r
             | Inl e \<Rightarrow> scanning_unavailable))))"

datatype scan_request = ScanSync headers string | ScanAsync headers string | ScanPoll headers string

fun scan_serve :: "scan_env \<Rightarrow> scan_request \<Rightarrow> scan_state \<Rightarrow> scan_effect list \<times> scan_state \<times> http_reply" where
  "scan_serve env (ScanSync h body) st = forward_scan env h body ''sync'' ''/v1/scan-file'' st"
| "scan_serve env (ScanAsync h body) st = forward_scan env h body ''async'' ''/v1/scan-file/async'' st"
| "scan_serve env (ScanPoll h task_id) st = scan_file_task env h task_id st"

section \<open>The tools\<close>

text \<open>
  \<open>redact\<close>, \<open>policy_check\<close>, \<open>tokens_estimate\<close> and \<open>vault_stash\<close>. The detectors, the rules and the switches of a
  workspace are its \<open>gateway_env\<close>. A panic of the policy engine leaves no reply.
\<close>

record 'm mcp_env =
  mc_key :: key_env
  mc_auth_db :: "nat \<Rightarrow> db_env"
  mc_now :: nat
  mc_later :: nat
  mc_gw :: "uuid \<Rightarrow> 'm gateway_env"
  mc_settings_db :: db_env
  mc_settings :: settings_db
  mc_redis :: redis_env
  mc_print :: "uuid \<Rightarrow> string"
  mc_new_id :: uuid
  mc_encrypt :: "string \<Rightarrow> (string, string) result"
  mc_to_string :: "(string, string) hashmap \<Rightarrow> string"
  mc_debug :: "policy_event \<Rightarrow> string"

record mcp_state =
  mc_cache :: config_cache
  mc_keys :: key_db
  mc_vaults :: redis

definition mcp_auth :: "'m mcp_env \<Rightarrow> headers \<Rightarrow> mcp_state \<Rightarrow> (api_error, auth_context) result \<times> mcp_state" where
  "mcp_auth env h st =
     (let (auth, cache) = authenticate_request (mc_key env) (mc_auth_db env) (mc_now env) (mc_later env) (h ''authorization'')
            (mc_cache st) (mc_keys st)
      in (auth, st\<lparr>mc_cache := cache\<rparr>))"

text \<open>What \<open>redact\<close> and \<open>policy_check\<close> share: the sidecar's coverage is enforced before the findings are merged.\<close>

definition mcp_detect ::
  "'m mcp_env \<Rightarrow> uuid \<Rightarrow> string \<Rightarrow> gw_effect list \<times> (api_error, coverage_loss option \<times> detection list) result" where
  "mcp_detect env ws text =
     (let genv = mc_gw env ws; outcome = ml_detect genv 0 text;
          (effs, gate) = enforce_coverage (mc_settings_db env) (sidecar_unavailable_default genv) (mc_settings env) ws (ml_coverage outcome)
      in (effs, rbind gate (\<lambda>degraded. Inr (degraded, merge_detections genv (detect_content genv text) (ml_detections outcome)))))"

definition mcp_policy_input :: "'m gateway_env \<Rightarrow> string \<Rightarrow> string \<Rightarrow> detection list \<Rightarrow> policy_input" where
  "mcp_policy_input genv model text ds = \<lparr>pe_provider_name = ''none'', pe_model = model, pe_content = text, pe_detections = ds,
     fail_closed = redact_when_no_rules genv\<rparr>"

definition fault_reply :: "fault \<Rightarrow> http_reply option" where
  "fault_reply f = (case f of Panicked \<Rightarrow> None | Failed e \<Rightarrow> Some (api_error_response e))"

definition detection_item :: "detection \<Rightarrow> json" where
  "detection_item d = JObj [(''class'', JStr (det_class d)), (''value'', JStr (det_value d))]"

definition redact_body :: "string \<Rightarrow> detection list \<Rightarrow> nat \<Rightarrow> json" where
  "redact_body text ds vault_size = JObj [(''redacted_text'', JStr text), (''detections'', JArr (map detection_item ds)),
     (''vault_size'', JNum (of_nat vault_size))]"

definition redact_answer ::
  "'m gateway_env \<Rightarrow> string \<Rightarrow> coverage_loss option \<Rightarrow> detection list \<Rightarrow> http_reply option" where
  "redact_answer genv text degraded ds =
     (let (redacted_text, vault, rmap) = apply_redaction text ds vault_empty [] in
      case evaluate (regex_new genv) (enabled_rules genv) (mcp_policy_input genv ''none'' text ds) vault rmap of
        Inl f \<Rightarrow> fault_reply f
      | Inr (oc, vault', rmap') \<Rightarrow>
          (let final_text = (if oc_denied oc then redacted_text else oc_content oc)
           in Some (with_sidecar_degraded degraded (ok_reply (JsonBody (redact_body final_text ds (vault_len vault')))))))"

definition policy_check_answer ::
  "'m mcp_env \<Rightarrow> 'm gateway_env \<Rightarrow> string \<Rightarrow> string option \<Rightarrow> coverage_loss option \<Rightarrow> detection list \<Rightarrow> http_reply option" where
  "policy_check_answer env genv text model degraded ds =
     (case evaluate (regex_new genv) (enabled_rules genv) (mcp_policy_input genv (unwrap_or ''none'' model) text ds) vault_empty [] of
        Inl f \<Rightarrow> fault_reply f
      | Inr (oc, _, _) \<Rightarrow> Some (with_sidecar_degraded degraded (ok_reply (JsonBody (JObj [
          (''allowed'', JBool (\<not> oc_denied oc)), (''action'', JStr (final_action (oc_result oc))),
          (''events'', JArr (map (\<lambda>e. JStr (mc_debug env e)) (events (oc_result oc))))])))))"

definition with_detections ::
  "'m mcp_env \<Rightarrow> headers \<Rightarrow> string \<Rightarrow> ('m gateway_env \<Rightarrow> coverage_loss option \<Rightarrow> detection list \<Rightarrow> http_reply option) \<Rightarrow> mcp_state
     \<Rightarrow> gw_effect list \<times> mcp_state \<times> http_reply option" where
  "with_detections env h text answer st =
     (case mcp_auth env h st of
        (Inl e, st1) \<Rightarrow> ([], st1, Some (api_error_response e))
      | (Inr auth, st1) \<Rightarrow>
          (let ws = au_workspace_id auth; (effs, found) = mcp_detect env ws text in
           (effs, st1, case found of
              Inl e \<Rightarrow> Some (api_error_response e)
            | Inr (degraded, ds) \<Rightarrow> answer (mc_gw env ws) degraded ds)))"

definition redact_route :: "'m mcp_env \<Rightarrow> headers \<Rightarrow> string \<Rightarrow> mcp_state \<Rightarrow> gw_effect list \<times> mcp_state \<times> http_reply option" where
  "redact_route env h text = with_detections env h text (\<lambda>genv. redact_answer genv text)"

definition policy_check ::
  "'m mcp_env \<Rightarrow> headers \<Rightarrow> string \<Rightarrow> string option \<Rightarrow> mcp_state \<Rightarrow> gw_effect list \<times> mcp_state \<times> http_reply option" where
  "policy_check env h text model = with_detections env h text (\<lambda>genv. policy_check_answer env genv text model)"

definition tokens_estimate :: "string \<Rightarrow> string option \<Rightarrow> json" where
  "tokens_estimate text model = JObj [(''estimated_tokens'', JNum (of_int \<lceil>(of_nat (length text) :: rat) / 4\<rceil>)),
     (''model'', JStr (unwrap_or ''unknown'' model))]"

definition file_vault_ttl_secs :: nat where
  "file_vault_ttl_secs = 6 * 60 * 60"

definition vault_stash :: "'m mcp_env \<Rightarrow> headers \<Rightarrow> (string, string) hashmap \<Rightarrow> mcp_state \<Rightarrow> (api_error, string) result \<times> mcp_state" where
  "vault_stash env h token_map st =
     (case mcp_auth env h st of
        (Inl e, st1) \<Rightarrow> (Inl e, st1)
      | (Inr _, st1) \<Rightarrow>
          if token_map = [] then (Inr [], st1)
          else
            (let vault_ref = mc_print env (mc_new_id env) in
             case stash_file_vault (mc_redis env) 0 (mc_encrypt env) vault_ref (mc_to_string env token_map) file_vault_ttl_secs (mc_vaults st1) of
               Inl e \<Rightarrow> (Inl e, st1)
             | Inr r \<Rightarrow> (Inr vault_ref, st1\<lparr>mc_vaults := r\<rparr>)))"

section \<open>Every scan is on record, every poll is of the workspace's own task\<close>

text \<open>
  A run of scan requests, the effects in order. Between requests everything else may change, but the
  audit trail only grows and nobody else writes the bindings of tasks, which may expire.
\<close>

definition other_change :: "scan_state \<Rightarrow> scan_state \<Rightarrow> bool" where
  "other_change st st' = (prefix (ss_audit st) (ss_audit st') \<and>
     (\<forall>t. ss_redis st' (scan_task_key t) \<in> {ss_redis st (scan_task_key t), None}))"

inductive scan_run :: "(uuid \<Rightarrow> string) \<Rightarrow> scan_state \<Rightarrow> scan_effect list \<Rightarrow> scan_state \<Rightarrow> bool" for pr start where
  scan_start: "scan_run pr start [] start"
| scan_request: "scan_run pr start effs st \<Longrightarrow> se_print env = pr \<Longrightarrow> scan_serve env q st = (new, st', reply)
    \<Longrightarrow> scan_run pr start (effs @ new) st'"
| scan_other: "scan_run pr start effs st \<Longrightarrow> other_change st st' \<Longrightarrow> scan_run pr start effs st'"

text \<open>Each effect of a trace against what came before it.\<close>

fun traced :: "('e list \<Rightarrow> 'e \<Rightarrow> bool) \<Rightarrow> 'e list \<Rightarrow> 'e list \<Rightarrow> bool" where
  "traced ok pre [] = True"
| "traced ok pre (x # xs) = (ok pre x \<and> traced ok (pre @ [x]) xs)"

lemma traced_append: "traced ok pre (xs @ ys) = (traced ok pre xs \<and> traced ok (pre @ xs) ys)"
  by (induction xs arbitrary: pre) auto

lemma traced_at: "traced ok [] (pre @ x # post) \<Longrightarrow> ok pre x"
  by (simp add: traced_append)

definition row_of_scan :: "scan_principal \<Rightarrow> raw_request \<Rightarrow> audit_row \<Rightarrow> bool" where
  "row_of_scan p rq row = (ar_action row = ''file_scan.requested'' \<and> ar_ws row = sp_workspace_id p \<and>
     ar_actor_user_id row = Some (sp_user_id p) \<and> ar_actor_email row = Some (sp_email p) \<and> ar_target_label row = None \<and>
     json_get (ar_detail row) ''request_bytes'' = Some (JNum (of_nat (length (rq_body rq)))))"

definition scanner :: "scan_principal \<Rightarrow> bool" where
  "scanner p = (\<exists>role. from_db_str (sp_role p) = Inr role \<and> may_run_file_scan role)"

fun scan_effect_ok :: "scan_effect list \<Rightarrow> scan_effect \<Rightarrow> bool" where
  "scan_effect_ok pre (AuditCommitted row) = True"
| "scan_effect_ok pre (SidecarCall p rq) = (scanner p \<and>
     (if rq_post rq then \<exists>before row. pre = before @ [AuditCommitted row] \<and> row_of_scan p rq row
      else \<exists>base t. rq_url rq = base @ scan_tasks_path @ t \<and> rq_body rq = [] \<and> TaskBound t (sp_workspace_id p) \<in> set pre))"
| "scan_effect_ok pre (TaskBound t ws) = (\<exists>before p rq. pre = before @ [SidecarCall p rq] \<and> rq_post rq \<and> sp_workspace_id p = ws)"

definition scan_inv :: "(uuid \<Rightarrow> string) \<Rightarrow> scan_effect list \<Rightarrow> scan_state \<Rightarrow> bool" where
  "scan_inv pr effs st = (traced scan_effect_ok [] effs \<and> (\<forall>row. AuditCommitted row \<in> set effs \<longrightarrow> row \<in> set (ss_audit st)) \<and>
     (\<forall>t v e. ss_redis st (scan_task_key t) = Some (v, e) \<longrightarrow> (\<exists>ws. v = RStr (pr ws) \<and> TaskBound t ws \<in> set effs)))"

lemma authorize_scan_scanner:
  assumes "authorize_scan env h st = (Inr p, st1)"
  shows "scanner p" "\<exists>cache. st1 = st\<lparr>ss_cache := cache\<rparr>"
    "\<exists>row. user_in_ws (sp_user_id p) (sp_workspace_id p) (ss_members st) = Some row \<and> us_role row = sp_role p \<and> us_email row = sp_email p"
  using assms by (auto simp: authorize_scan_def scan_member_def scanner_def rbind_Inr ok_or_Inr guard_err_Inr Let_def split: prod.splits)

lemma authorize_scan_state: "authorize_scan env h st = (r, st1) \<Longrightarrow> \<exists>cache. st1 = st\<lparr>ss_cache := cache\<rparr>"
  by (auto simp: authorize_scan_def Let_def split: prod.splits)

lemma record_scan_row:
  assumes "record_scan env p h mode n tbl = Inr tbl'"
  obtains row where "tbl' = tbl @ [row]" "\<forall>rq. length (rq_body rq) = n \<longrightarrow> row_of_scan p rq row"
  using assms
  by (auto simp: record_scan_def audit_write_def rbind_Inr row_of_scan_def scan_entry_def with_detail_def targeting_user_def
      on_object_def bounded_label_def)

text \<open>The call is what \<open>proxy_scan\<close> hands to the client, and without one the answer does not depend on the sidecar.\<close>

lemma proxied_is_sent:
  "proxied env p m path ct body = [SidecarCall p rq] \<Longrightarrow> proxy_call env m path ct body = se_send env rq"
  "proxied env p m path ct body = [] \<Longrightarrow> \<exists>e. proxy_call env m path ct body = Inl e"
  by (auto simp: proxied_def proxy_call_def proxy_scan_def split: if_splits option.splits)

lemma scan_inv_calls: "scan_inv pr effs st \<Longrightarrow> scan_inv pr effs (st\<lparr>ss_cache := cache\<rparr>)"
  by (simp add: scan_inv_def)

lemma scan_task_key_inj [simp]: "scan_task_key s = scan_task_key t \<longleftrightarrow> s = t"
  by (simp add: scan_task_key_def)

lemma scan_inv_audit:
  assumes "scan_inv pr effs st" "ss_audit st' = ss_audit st @ [row]" "ss_redis st' = ss_redis st"
  shows "scan_inv pr (effs @ [AuditCommitted row]) st'"
proof -
  have "\<exists>ws. v = RStr (pr ws) \<and> TaskBound t ws \<in> set (effs @ [AuditCommitted row])"
    if "ss_redis st' (scan_task_key t) = Some (v, e)" for t v e
    using assms(1,3) that unfolding scan_inv_def by fastforce
  then show ?thesis using assms(1,2) by (auto simp: scan_inv_def traced_append)
qed

lemma scan_inv_call:
  assumes "scan_inv pr effs st" "scan_effect_ok effs (SidecarCall p rq)"
  shows "scan_inv pr (effs @ [SidecarCall p rq]) st"
  unfolding scan_inv_def
proof (intro conjI allI impI)
  fix t v e assume "ss_redis st (scan_task_key t) = Some (v, e)"
  then show "\<exists>ws. v = RStr (pr ws) \<and> TaskBound t ws \<in> set (effs @ [SidecarCall p rq])"
    using assms(1) unfolding scan_inv_def by fastforce
qed (use assms in \<open>auto simp: scan_inv_def traced_append simp del: scan_effect_ok.simps\<close>)

lemma scan_inv_bound:
  assumes "scan_inv pr (effs @ [SidecarCall p rq]) st" "rq_post rq"
    and "bind_scan_task renv k pr t (sp_workspace_id p) ttl (ss_redis st) = Inr red"
  shows "scan_inv pr (effs @ [SidecarCall p rq, TaskBound t (sp_workspace_id p)]) (st\<lparr>ss_redis := red\<rparr>)"
proof -
  let ?effs = "effs @ [SidecarCall p rq, TaskBound t (sp_workspace_id p)]"
  have red: "red = (ss_redis st)(scan_task_key t \<mapsto> (RStr (pr (sp_workspace_id p)), Some (redis_now renv + int ttl)))"
    using assms(3) by (auto simp: bind_scan_task_def rbind_Inr redis_set_ex_def)
  have "\<exists>ws. v = RStr (pr ws) \<and> TaskBound t' ws \<in> set ?effs" if "red (scan_task_key t') = Some (v, e)" for t' v e
    using assms(1) that unfolding scan_inv_def red by (cases "t' = t") (fastforce split: if_splits)+
  then show ?thesis using assms(1,2) by (auto simp: scan_inv_def traced_append)
qed

lemma proxied_cases:
  obtains "proxied env p m path ct body = []"
  | rq where "proxied env p m path ct body = [SidecarCall p rq]" "rq_post rq = (m = ProxyPost)"
      "rq_url rq = cl_base_url (se_client env) @ path" "rq_body rq = (if m = ProxyPost then body else [])"
proof (cases "proxied env p m path ct body = []")
  case False
  then show thesis by (auto simp: proxied_def split: if_splits intro: that(2))
qed (rule that(1))

lemma scan_inv_proxied:
  assumes "scan_inv pr effs st" "record_scan env p h mode (length body) (ss_audit st) = Inr tbl" "scanner p"
  shows "scan_inv pr (effs @ AuditCommitted (last tbl) # proxied env p ProxyPost path ct body) (st\<lparr>ss_audit := tbl\<rparr>)"
proof -
  obtain row where row: "tbl = ss_audit st @ [row]" "\<forall>rq. length (rq_body rq) = length body \<longrightarrow> row_of_scan p rq row"
    using assms(2) by (rule record_scan_row)
  have a: "scan_inv pr (effs @ [AuditCommitted row]) (st\<lparr>ss_audit := tbl\<rparr>)"
    using assms(1) by (rule scan_inv_audit) (simp_all add: row)
  show ?thesis
  proof (cases rule: proxied_cases [of env p ProxyPost path ct body])
    case 1
    then show ?thesis using a row by simp
  next
    case (2 rq)
    have "scan_effect_ok (effs @ [AuditCommitted row]) (SidecarCall p rq)"
      using 2 assms(3) row(2) by auto
    from scan_inv_call [OF a this] show ?thesis using 2 row by simp
  qed
qed

lemma forward_scan_inv:
  assumes "scan_inv (se_print env) effs st" "forward_scan env h body mode path st = (new, st', reply)"
  shows "scan_inv (se_print env) (effs @ new) st'"
proof (cases "authorize_scan env h st")
  case (Pair r st1)
  then obtain cache where st1: "st1 = st\<lparr>ss_cache := cache\<rparr>" using authorize_scan_state by blast
  have inv1: "scan_inv (se_print env) effs st1" using assms(1) st1 by (simp add: scan_inv_calls)
  show ?thesis
  proof (cases r)
    case (Inl e)
    then show ?thesis using assms(2) Pair inv1 by (auto simp: forward_scan_def)
  next
    case (Inr p)
    show ?thesis
    proof (cases "record_scan env p h mode (length body) (ss_audit st1)")
      case (Inl e)
      then show ?thesis using assms(2) Pair \<open>r = Inr p\<close> inv1 by (auto simp: forward_scan_def)
    next
      case rec: (Inr tbl)
      let ?ct = "header_str h ''content-type''"
      let ?effs = "AuditCommitted (last tbl) # proxied env p ProxyPost path ?ct body"
      have inv2: "scan_inv (se_print env) (effs @ ?effs) (st1\<lparr>ss_audit := tbl\<rparr>)"
        using inv1 rec authorize_scan_scanner(1) [OF Pair [unfolded Inr]] by (rule scan_inv_proxied)
      show ?thesis
      proof (cases "new = ?effs \<and> st' = st1\<lparr>ss_audit := tbl\<rparr>")
        case True
        then show ?thesis using inv2 by simp
      next
        case False
        then obtain resp where resp: "proxy_call env ProxyPost path ?ct body = Inr resp"
          and bk: "\<exists>bound. bind_kickoff env p resp (st1\<lparr>ss_audit := tbl\<rparr>) = (bound, st', reply) \<and> new = ?effs @ bound"
          using assms(2) Pair Inr rec by (auto simp: forward_scan_def Let_def split: sum.splits if_splits prod.splits)
        then obtain rq where rq: "proxied env p ProxyPost path ?ct body = [SidecarCall p rq]" "rq_post rq"
          by (cases rule: proxied_cases [of env p ProxyPost path ?ct body]) (auto dest: proxied_is_sent(2))
        from bk False show ?thesis
          using scan_inv_bound [of "se_print env" "effs @ [AuditCommitted (last tbl)]" p rq "st1\<lparr>ss_audit := tbl\<rparr>"] inv2 rq
          by (auto simp: bind_kickoff_def split: option.splits sum.splits)
      qed
    qed
  qed
qed

lemma scan_file_task_inv:
  assumes "scan_inv (se_print env) effs st" "inj (se_print env)" "scan_file_task env h t st = (new, st', reply)"
  shows "scan_inv (se_print env) (effs @ new) st'"
proof (cases "authorize_scan env h st")
  case (Pair r st1)
  then obtain cache where st1: "st1 = st\<lparr>ss_cache := cache\<rparr>" using authorize_scan_state by blast
  have inv1: "scan_inv (se_print env) effs st1" using assms(1) st1 by (simp add: scan_inv_calls)
  show ?thesis
  proof (cases "new = []")
    case True
    then show ?thesis using assms(3) Pair inv1 by (auto simp: scan_file_task_def split: sum.splits if_splits)
  next
    case False
    let ?path = "scan_tasks_path @ t"
    from False obtain p where p: "r = Inr p" "scan_task_owner (se_redis env) 0 t (ss_redis st1) = Inr (Some (se_print env (sp_workspace_id p)))"
      and new: "new = proxied env p ProxyGet ?path None []" "st' = st1"
      using assms(3) Pair by (auto simp: scan_file_task_def split: sum.splits if_splits)
    have "\<exists>v e. ss_redis st1 (scan_task_key t) = Some (v, e) \<and> v = RStr (se_print env (sp_workspace_id p))"
      using p(2) by (auto simp: scan_task_owner_def rbind_Inr redis_get_def split: option.splits if_splits elim!: reply_str.elims)
    then have "TaskBound t (sp_workspace_id p) \<in> set effs"
      using inv1 injD [OF assms(2)] unfolding scan_inv_def by fastforce
    then have ok: "scan_effect_ok effs (SidecarCall p rq)"
      if "\<not> rq_post rq" "rq_url rq = cl_base_url (se_client env) @ ?path" "rq_body rq = []" for rq
      using that authorize_scan_scanner(1) [OF Pair [unfolded p(1)]] unfolding scan_effect_ok.simps by (metis (full_types))
    show ?thesis
    proof (cases rule: proxied_cases [of env p ProxyGet ?path None "[]"])
      case 1
      then show ?thesis using new(1) False by blast
    next
      case (2 rq)
      then have "scan_effect_ok effs (SidecarCall p rq)" by (intro ok) simp_all
      from scan_inv_call [OF inv1 this] show ?thesis unfolding new 2(1) .
    qed
  qed
qed

lemma scan_run_inv:
  assumes "scan_run pr start effs st" "inj pr" "\<forall>t. ss_redis start (scan_task_key t) = None"
  shows "scan_inv pr effs st"
  using assms(1)
proof induction
  case scan_start
  then show ?case using assms(3) by (simp add: scan_inv_def)
next
  case (scan_request effs st env q new st' reply)
  then show ?case using assms(2) forward_scan_inv [of env effs st] scan_file_task_inv [of env effs st] by (cases q) auto
next
  case (scan_other effs st st')
  have "row \<in> set (ss_audit st')" if "row \<in> set (ss_audit st)" for row
    using scan_other.hyps(2) that by (auto simp: other_change_def dest: set_mono_prefix)
  moreover have "ss_redis st (scan_task_key t) = Some b" if "ss_redis st' (scan_task_key t) = Some b" for t b
    using scan_other.hyps(2) that unfolding other_change_def by (metis empty_iff insert_iff option.discI)
  ultimately show ?case using scan_other.IH unfolding scan_inv_def by blast
qed

text \<open>
  C13: no byte of a file reaches the scanner without a record of who sent it, and no workspace sees the
  scan of another. In every run of scan requests, whatever else happens between them: an upload sent to the
  sidecar comes right after the commit of an audit row that names the member it was sent for, its
  workspace and the number of bytes, without a file name, and the row stays in the trail; a poll sent to
  the sidecar is of a task that an earlier upload of the same workspace started; and in both cases the
  member's role may scan.
\<close>

theorem scans_are_recorded_and_private:
  assumes "scan_run pr start (pre @ SidecarCall p rq # post) st" "inj pr" "\<forall>t. ss_redis start (scan_task_key t) = None"
  shows "(\<exists>role. from_db_str (sp_role p) = Inr role \<and> may_run_file_scan role) \<and>
    (if rq_post rq then
       \<exists>before row. pre = before @ [AuditCommitted row] \<and> row \<in> set (ss_audit st) \<and>
         ar_action row = ''file_scan.requested'' \<and> ar_ws row = sp_workspace_id p \<and> ar_actor_user_id row = Some (sp_user_id p) \<and>
         ar_target_label row = None \<and> json_get (ar_detail row) ''request_bytes'' = Some (JNum (of_nat (length (rq_body rq))))
     else
       \<exists>base t before q upload after. rq_url rq = base @ scan_tasks_path @ t \<and> rq_body rq = [] \<and>
         pre = before @ SidecarCall q upload # TaskBound t (sp_workspace_id p) # after \<and>
         rq_post upload \<and> sp_workspace_id q = sp_workspace_id p)"
proof -
  have inv: "scan_inv pr (pre @ SidecarCall p rq # post) st" using assms by (rule scan_run_inv)
  then have tr: "traced scan_effect_ok [] (pre @ SidecarCall p rq # post)" by (simp add: scan_inv_def)
  then have ok: "scan_effect_ok pre (SidecarCall p rq)" by (rule traced_at)
  show ?thesis
  proof (cases "rq_post rq")
    case True
    then obtain before row where row: "pre = before @ [AuditCommitted row]" "row_of_scan p rq row" using ok by auto
    then have "row \<in> set (ss_audit st)" using inv by (simp add: scan_inv_def)
    then show ?thesis using True ok row by (auto simp: scanner_def row_of_scan_def)
  next
    case False
    then obtain base t where t: "rq_url rq = base @ scan_tasks_path @ t" "rq_body rq = []" "TaskBound t (sp_workspace_id p) \<in> set pre"
      using ok by auto
    then obtain a b where ab: "pre = a @ TaskBound t (sp_workspace_id p) # b" by (meson split_list)
    then have "traced scan_effect_ok [] (a @ TaskBound t (sp_workspace_id p) # (b @ SidecarCall p rq # post))" using tr by simp
    then have "scan_effect_ok a (TaskBound t (sp_workspace_id p))" by (rule traced_at)
    then obtain before q upload where q: "a = before @ [SidecarCall q upload]" "rq_post upload" "sp_workspace_id q = sp_workspace_id p" by auto
    then have "pre = before @ SidecarCall q upload # TaskBound t (sp_workspace_id p) # b" using ab by simp
    moreover have "scanner p" using ok by simp
    ultimately show ?thesis using False t(1,2) q(2,3) unfolding scanner_def by (simp only: if_False) blast
  qed
qed

definition scan_demo :: scan_env where
  "scan_demo = \<lparr>se_key = key_demo, se_auth_db = (\<lambda>_. key_demo_env), se_now = 5, se_later = 5, se_users_db = key_demo_env,
     se_audit_db = key_demo_env, se_print = gw_print, se_parse = gw_parse, se_new_id = 40,
     se_redis = \<lparr>conn_err = (\<lambda>_. None), cmd_err = (\<lambda>_. None), type_err = [], overflow_err = [], redis_now = 0\<rparr>,
     se_client = \<lparr>cl_base_url = ''ml'', cl_enabled = True, cl_http = True, cl_ner_chunk_chars = 1, cl_ner_total_budget = 1, cl_token = ''s''\<rparr>,
     se_timeout_var = None, se_client_err = None,
     se_send = (\<lambda>rq. Inr \<lparr>px_status = 200, px_content_type = None, px_body = ''t1''\<rparr>),
     se_from_slice = (\<lambda>b. Some (JObj [(''task_id'', JStr b)])), se_header_value = (\<lambda>_. True)\<rparr>"

definition scan_demo_member :: user_row where
  "scan_demo_member = \<lparr>us_id = 3, us_ws = 7, us_email = ''a'', us_password_hash = [], us_role = ''employee'', us_created_at = 0,
     us_updated_at = 0, us_totp_secret = None, us_totp_confirmed_at = None, us_totp_last_timestep = None,
     us_totp_failed_attempts = 0, us_totp_locked_until = None\<rparr>"

definition scan_demo_state :: scan_state where
  "scan_demo_state = \<lparr>ss_cache = \<lparr>api_keys = Map.empty(''sp_k'' \<mapsto> \<lparr>ck_api_key_id = 2, ck_workspace_id = 7, ck_name = ''key'',
       ck_assigned_user_id = Some 3, ck_cached_at = 5\<rparr>), models = Map.empty\<rparr>,
     ss_keys = \<lparr>keys_tbl = [], key_audit = [], key_workspaces = []\<rparr>,
     ss_members = \<lparr>users_tbl = [scan_demo_member], refresh_tbl = [], revocation_tbl = [], sess_audit = []\<rparr>, ss_audit = [], ss_redis = (\<lambda>_. None)\<rparr>"

definition scan_demo_principal :: scan_principal where
  "scan_demo_principal = \<lparr>sp_workspace_id = 7, sp_user_id = 3, sp_email = ''a'', sp_role = ''employee'', sp_api_key_id = 2\<rparr>"

lemma scan_demo_authorized:
  assumes "ss_cache st = ss_cache scan_demo_state" "ss_members st = ss_members scan_demo_state"
  shows "authorize_scan scan_demo gw_demo_headers st = (Inr scan_demo_principal, st)"
  using assms
  by (simp add: authorize_scan_def authenticate_request_def authenticate_lookup_def bearer_key_def gw_demo_headers_def scan_demo_def
      strip_prefix_def get_api_key_def scan_demo_state_def context_of_cached_def ok_or_def cache_ttl_def scan_member_def
      scan_demo_member_def scan_demo_principal_def user_in_ws_def from_db_str_def key_demo_stmt guard_err_def)

definition scan_demo_call :: "scan_request \<Rightarrow> raw_request" where
  "scan_demo_call q = (case q of
      ScanAsync h b \<Rightarrow> \<lparr>rq_post = True, rq_url = ''ml/v1/scan-file/async'', rq_timeout_ms = scan_timeout None, rq_authorization = ''Bearer s'',
        rq_content_type = None, rq_body = b\<rparr>
    | _ \<Rightarrow> \<lparr>rq_post = False, rq_url = ''ml/v1/scan-file/tasks/t1'', rq_timeout_ms = scan_timeout None, rq_authorization = ''Bearer s'',
        rq_content_type = None, rq_body = []\<rparr>)"

lemma scan_demo_proxied:
  "proxied scan_demo p ProxyPost ''/v1/scan-file/async'' None b = [SidecarCall p (scan_demo_call (ScanAsync h b))]"
  "proxied scan_demo p ProxyGet (scan_tasks_path @ ''t1'') None [] = [SidecarCall p (scan_demo_call (ScanPoll h t))]"
  "proxy_call scan_demo m path ct b = Inr \<lparr>px_status = 200, px_content_type = None, px_body = ''t1''\<rparr>"
  by (simp_all add: proxied_def proxy_call_def proxy_scan_def scan_demo_def scan_demo_call_def scan_tasks_path_def)

lemma scan_demo_bound:
  "bind_kickoff scan_demo scan_demo_principal \<lparr>px_status = 200, px_content_type = None, px_body = ''t1''\<rparr> st =
     ([TaskBound ''t1'' 7], st\<lparr>ss_redis := (ss_redis st)(scan_task_key ''t1'' \<mapsto> (RStr (gw_print 7), Some 3600))\<rparr>,
      relay scan_demo \<lparr>px_status = 200, px_content_type = None, px_body = ''t1''\<rparr>)"
proof -
  have "task_id_of scan_demo ''t1'' = Some ''t1''" by (simp add: task_id_of_def get_str_def scan_demo_def)
  moreover have "bind_scan_task (se_redis scan_demo) 0 (se_print scan_demo) ''t1'' 7 scan_task_binding_ttl_secs r =
      Inr (r(scan_task_key ''t1'' \<mapsto> (RStr (gw_print 7), Some 3600)))" for r
    by (simp add: bind_scan_task_def redis_set_ex_def checkout_def redis_cmd_def scan_demo_def scan_task_binding_ttl_secs_def)
  ultimately show ?thesis by (simp add: bind_kickoff_def scan_demo_principal_def)
qed

lemma scan_demo_kickoff:
  obtains st1 row where "\<exists>reply. scan_serve scan_demo (ScanAsync gw_demo_headers ''abc'') scan_demo_state =
      ([AuditCommitted row, SidecarCall scan_demo_principal (scan_demo_call (ScanAsync gw_demo_headers ''abc'')), TaskBound ''t1'' 7], st1, reply)"
    "ss_cache st1 = ss_cache scan_demo_state" "ss_members st1 = ss_members scan_demo_state"
    "ss_redis st1 (scan_task_key ''t1'') = Some (RStr (gw_print 7), Some 3600)"
proof -
  have "\<exists>row. record_scan scan_demo scan_demo_principal h m n [] = Inr [row]" for h m n
    by (simp add: record_scan_def audit_write_def scan_demo_def key_demo_stmt)
  then obtain row where row: "record_scan scan_demo scan_demo_principal gw_demo_headers ''async'' (Suc (Suc (Suc 0))) [] = Inr [row]" by blast
  have hdr: "header_str gw_demo_headers ''content-type'' = None" by (simp add: header_str_def gw_demo_headers_def)
  have empty: "ss_audit scan_demo_state = []" by (simp add: scan_demo_state_def)
  let ?st = "scan_demo_state\<lparr>ss_audit := [row],
    ss_redis := (ss_redis scan_demo_state)(scan_task_key ''t1'' \<mapsto> (RStr (gw_print 7), Some 3600))\<rparr>"
  have "\<exists>reply. scan_serve scan_demo (ScanAsync gw_demo_headers ''abc'') scan_demo_state =
      ([AuditCommitted row, SidecarCall scan_demo_principal (scan_demo_call (ScanAsync gw_demo_headers ''abc'')), TaskBound ''t1'' 7], ?st, reply)"
    by (simp add: forward_scan_def scan_demo_authorized row hdr empty scan_demo_proxied(1) [where h = gw_demo_headers] scan_demo_proxied(3) scan_demo_bound)
  then show thesis by (rule that) simp_all
qed

lemma scan_demo_poll:
  assumes "ss_cache st = ss_cache scan_demo_state" "ss_members st = ss_members scan_demo_state"
    and "ss_redis st (scan_task_key ''t1'') = Some (RStr (gw_print 7), Some 3600)"
  shows "\<exists>reply. scan_serve scan_demo (ScanPoll gw_demo_headers ''t1'') st =
    ([SidecarCall scan_demo_principal (scan_demo_call (ScanPoll gw_demo_headers ''t1''))], st, reply)"
proof -
  have "scan_task_owner (se_redis scan_demo) 0 ''t1'' (ss_redis st) = Inr (Some (gw_print 7))"
    using assms(3) by (simp add: scan_task_owner_def checkout_def redis_cmd_def scan_demo_def redis_get_def)
  moreover have "se_print scan_demo (sp_workspace_id scan_demo_principal) = gw_print 7" by (simp add: scan_demo_def scan_demo_principal_def)
  ultimately show ?thesis
    using scan_demo_authorized [OF assms(1,2)] scan_demo_proxied(2) [of scan_demo_principal gw_demo_headers "''t1''"]
    by (simp add: scan_file_task_def)
qed

theorem scans_are_recorded_and_private_witness:
  "\<exists>pre st. scan_run gw_print scan_demo_state (pre @ [SidecarCall scan_demo_principal (scan_demo_call (ScanPoll gw_demo_headers ''t1''))]) st \<and>
     TaskBound ''t1'' 7 \<in> set pre \<and>
     (\<exists>before upload after. pre = before @ upload # after \<and> (\<exists>q rq. upload = SidecarCall q rq \<and> rq_post rq \<and> sp_workspace_id q = 7))"
proof -
  obtain st1 row where k: "\<exists>reply. scan_serve scan_demo (ScanAsync gw_demo_headers ''abc'') scan_demo_state =
      ([AuditCommitted row, SidecarCall scan_demo_principal (scan_demo_call (ScanAsync gw_demo_headers ''abc'')), TaskBound ''t1'' 7], st1, reply)"
    "ss_cache st1 = ss_cache scan_demo_state" "ss_members st1 = ss_members scan_demo_state"
    "ss_redis st1 (scan_task_key ''t1'') = Some (RStr (gw_print 7), Some 3600)" by (rule scan_demo_kickoff)
  let ?pre = "[AuditCommitted row, SidecarCall scan_demo_principal (scan_demo_call (ScanAsync gw_demo_headers ''abc'')), TaskBound ''t1'' 7]"
  let ?poll = "SidecarCall scan_demo_principal (scan_demo_call (ScanPoll gw_demo_headers ''t1''))"
  have pr: "se_print scan_demo = gw_print" by (simp add: scan_demo_def)
  from k(1) have "scan_run gw_print scan_demo_state ([] @ ?pre) st1" using scan_run.scan_request [OF scan_start pr] by blast
  then have run: "scan_run gw_print scan_demo_state (?pre @ ?poll # []) st1"
    using scan_run.scan_request [OF _ pr] scan_demo_poll [OF k(2-4)] by fastforce
  have "\<forall>t. ss_redis scan_demo_state (scan_task_key t) = None" by (simp add: scan_demo_state_def)
  from scans_are_recorded_and_private [OF run gw_print_inj this]
  have "\<exists>before q upload after. ?pre = before @ SidecarCall q upload # after \<and> rq_post upload \<and> sp_workspace_id q = 7"
    by (simp only: scan_demo_call_def scan_demo_principal_def scan_request.simps raw_request.simps scan_principal.simps if_False) blast
  then show ?thesis using run by (intro exI [of _ ?pre] exI [of _ st1]) auto
qed

section \<open>What the tools promise\<close>

text \<open>A workspace that blocks on lost coverage gets neither a redaction nor a verdict from an unscanned text.\<close>

lemma tools_refuse_unscanned_text:
  assumes "mcp_auth env h st = (Inr auth, st1)"
    and "sidecar_gate (ml_coverage (ml_detect (mc_gw env (au_workspace_id auth)) 0 text))
      (effective_policy (mc_settings_db env) (sidecar_unavailable_default (mc_gw env (au_workspace_id auth))) (mc_settings env) (au_workspace_id auth)) = GateBlock loss"
  shows "\<exists>effs reply. with_detections env h text answer st = (effs, st1, Some reply) \<and> reply_status reply = 503 \<and>
    effs = [AlertSidecar loss (policy_str Block)]"
  using assms by (simp add: with_detections_def mcp_detect_def enforce_coverage_def Let_def api_error_response_def)

text \<open>
  The redaction tool answers with the policy's content. Where no rule decides, this is the text as it came,
  findings included, also in a deployment that redacts without rules: the fallback of the pipeline is not
  applied here.
\<close>

lemma redact_without_rules_returns_text:
  assumes "enabled_rules genv = Inr []"
  shows "\<exists>n. redact_answer genv text degraded ds =
    Some (with_sidecar_degraded degraded (ok_reply (JsonBody (redact_body text ds n))))"
  using assms by (auto simp: redact_answer_def evaluate_policy_spec policy_spec_def mcp_policy_input_def split: prod.splits)

text \<open>A firing redaction rule covers every finding in a deployment that fails closed.\<close>

lemma redact_with_rule_redacts:
  assumes "enabled_rules genv = Inr rs" "redact_when_no_rules genv" "find (decides (regex_new genv) (mcp_policy_input genv ''none'' text ds)) rs = Some r"
    and "rule_action r = ''redact''" "apply_redaction text ds vault_empty [] = (once, v, m)" "apply_redaction text ds v m = (twice, v', m')"
  shows "redact_answer genv text degraded ds =
    Some (with_sidecar_degraded degraded (ok_reply (JsonBody (redact_body twice ds (vault_len v')))))"
proof -
  let ?inp = "mcp_policy_input genv ''none'' text ds"
  have "\<exists>rest. dropWhile (\<lambda>r. \<not> decides (regex_new genv) ?inp r) rs = r # rest"
    using assms(3) by (induction rs) (auto split: if_splits)
  then show ?thesis
    using assms(1,2,4-6)
    by (auto simp: redact_answer_def evaluate_policy_spec policy_spec_def Let_def decided_content_def mcp_policy_input_def)
qed

text \<open>The stash keeps what the pipeline later loads for the reference.\<close>

lemma stashed_originals_load:
  assumes "vault_stash env h token_map st = (Inr vault_ref, st')" "token_map \<noteq> []" "valid_utf8 (mc_to_string env token_map)"
    and "\<forall>t c. mc_encrypt env t = Inr c \<longrightarrow> decrypt c = Inr t"
    and "conn_err env' k = None" "cmd_err env' (k + 1) = None" "redis_now env' < redis_now (mc_redis env) + int file_vault_ttl_secs"
  shows "load_stashed_vault env' k decrypt vault_ref (mc_vaults st') = Some (mc_to_string env token_map)"
proof -
  have "\<exists>r. stash_file_vault (mc_redis env) 0 (mc_encrypt env) vault_ref (mc_to_string env token_map) file_vault_ttl_secs r =
      Inr (mc_vaults st')"
    using assms(1,2) by (auto simp: vault_stash_def Let_def split: prod.splits sum.splits)
  then obtain r where "stash_file_vault (mc_redis env) 0 (mc_encrypt env) vault_ref (mc_to_string env token_map) file_vault_ttl_secs r =
      Inr (mc_vaults st')" by blast
  from stash_load_file_vault [OF this assms(3)] show ?thesis using assms(4-7) by (auto simp: checkout_def redis_cmd_def)
qed

end
