(* ===== verification/Worker_Loop.thy ===== *)
theory Worker_Loop
  imports Export_Props Retention_Purge Provider_Http "HOL-Library.Multiset"
begin

text \<open>
  The worker process: its metrics (\<open>worker/metrics.rs\<close>), the ClickHouse migrations it applies when it
  starts, the scheduled jobs and the loop that takes tasks from the Redis queues (\<open>worker/main.rs\<close>,
  \<open>common/tasks.rs\<close>), and the indexing of policy rules (\<open>tasks/index_policy_rule.rs\<close>).

  What ClickHouse executed is the list of statements it accepted. The text of an envelope, the embedding
  of the sidecar and the vector store's answer are parameters, as is the printing of floating-point
  numbers. A panic ends the task the loop runs in; the process goes on without it.
\<close>

section \<open>Metrics\<close>

definition histogram_bounds :: "rat list" where
  "histogram_bounds = [5 / 1000, 1 / 100, 25 / 1000, 5 / 100, 1 / 10, 25 / 100, 5 / 10, 1, 25 / 10, 5, 10]"

record histogram =
  hi_buckets :: "64 word list"
  hi_sum_micros :: "64 word"
  hi_count :: "64 word"

definition histogram_default :: histogram where
  "histogram_default = \<lparr>hi_buckets = replicate (length histogram_bounds + 1) 0, hi_sum_micros = 0, hi_count = 0\<rparr>"

definition bucket_index :: "rat \<Rightarrow> nat" where
  "bucket_index secs = length (takeWhile (\<lambda>bound. \<not> secs \<le> bound) histogram_bounds)"

text \<open>Rounding is half away from zero and the conversion to \<open>u64\<close> saturates.\<close>

definition micros_of :: "rat \<Rightarrow> 64 word" where
  "micros_of secs = of_int (min \<lfloor>max (secs * 1000000) 0 + 1 / 2\<rfloor> (2 ^ 64 - 1))"

definition observe :: "rat \<Rightarrow> histogram \<Rightarrow> histogram" where
  "observe secs h = h\<lparr>hi_buckets := (hi_buckets h)[bucket_index secs := hi_buckets h ! bucket_index secs + 1],
     hi_count := hi_count h + 1, hi_sum_micros := hi_sum_micros h + micros_of secs\<rparr>"

fun cumulative :: "64 word \<Rightarrow> 64 word list \<Rightarrow> 64 word list" where
  "cumulative acc [] = []"
| "cumulative acc (b # bs) = (acc + b) # cumulative (acc + b) bs"

abbreviation nl :: string where "nl \<equiv> [CHR 0x0A]"

definition quoted :: "string \<Rightarrow> string" where
  "quoted s = [CHR 0x22] @ s @ [CHR 0x22]"

definition bucket_line :: "string \<Rightarrow> string \<Rightarrow> string \<Rightarrow> 64 word \<Rightarrow> string" where
  "bucket_line name labels le v = name @ ''_bucket{'' @ (if labels = [] then [] else labels @ '','') @ ''le='' @ quoted le @ ''} '' @
     show_nat (unat v) @ nl"

definition render_into :: "(rat \<Rightarrow> string) \<Rightarrow> string \<Rightarrow> string \<Rightarrow> histogram \<Rightarrow> string" where
  "render_into show_f64 name labels h =
     (let braces = (if labels = [] then [] else ''{'' @ labels @ ''}'') in
      concat (map2 (\<lambda>le v. bucket_line name labels le v) (map show_f64 histogram_bounds @ [''+Inf'']) (cumulative 0 (hi_buckets h))) @
      name @ ''_sum'' @ braces @ '' '' @ show_f64 (of_nat (unat (hi_sum_micros h)) / 1000000) @ nl @
      name @ ''_count'' @ braces @ '' '' @ show_nat (unat (hi_count h)) @ nl)"

record worker_metrics =
  wm_job_runs :: "(string \<times> 64 word) list"
  wm_job_failures :: "(string \<times> 64 word) list"
  wm_job_duration :: "(string \<times> histogram) list"
  wm_tasks :: "((string \<times> string) \<times> 64 word) list"
  wm_drain_errors :: "64 word"


text \<open>The first row of the key is changed; without one a row is pushed.\<close>

fun bump :: "'k \<Rightarrow> ('v \<Rightarrow> 'v) \<Rightarrow> 'v \<Rightarrow> ('k \<times> 'v) list \<Rightarrow> ('k \<times> 'v) list" where
  "bump key f new [] = [(key, new)]"
| "bump key f new ((k, v) # rows) = (if k = key then (k, f v) # rows else (k, v) # bump key f new rows)"

definition incr :: "'k \<Rightarrow> ('k \<times> 64 word) list \<Rightarrow> ('k \<times> 64 word) list" where
  "incr key rows = bump key (\<lambda>n. n + 1) 1 rows"

definition record_job :: "string \<Rightarrow> rat \<Rightarrow> bool \<Rightarrow> worker_metrics \<Rightarrow> worker_metrics" where
  "record_job job secs ok m = m\<lparr>wm_job_runs := incr job (wm_job_runs m),
     wm_job_failures := (if ok then wm_job_failures m else incr job (wm_job_failures m)),
     wm_job_duration := bump job (observe secs) (observe secs histogram_default) (wm_job_duration m)\<rparr>"

definition record_task :: "string \<Rightarrow> string \<Rightarrow> worker_metrics \<Rightarrow> worker_metrics" where
  "record_task task_type outcome m = m\<lparr>wm_tasks := incr (task_type, outcome) (wm_tasks m)\<rparr>"

definition record_drain_error :: "worker_metrics \<Rightarrow> worker_metrics" where
  "record_drain_error m = m\<lparr>wm_drain_errors := wm_drain_errors m + 1\<rparr>"

definition counter_family :: "string \<Rightarrow> (string \<times> 64 word) list \<Rightarrow> string" where
  "counter_family name rows =
     (if rows = [] then []
      else ''# TYPE '' @ name @ '' counter'' @ nl @
        concat (map (\<lambda>(labels, v). name @ ''{'' @ labels @ ''} '' @ show_nat (unat v) @ nl) rows))"

definition worker_render :: "(rat \<Rightarrow> string) \<Rightarrow> worker_metrics \<Rightarrow> string" where
  "worker_render show_f64 m =
     (let job = (\<lambda>j. ''job='' @ quoted j); durations = ''secureprompt_worker_scheduled_job_duration_seconds'' in
      ''# TYPE secureprompt_worker_up gauge'' @ nl @ ''secureprompt_worker_up 1'' @ nl @
      counter_family ''secureprompt_worker_scheduled_job_runs_total'' (map (\<lambda>(j, v). (job j, v)) (wm_job_runs m)) @
      counter_family ''secureprompt_worker_scheduled_job_failures_total'' (map (\<lambda>(j, v). (job j, v)) (wm_job_failures m)) @
      (if wm_job_duration m = [] then []
       else ''# TYPE '' @ durations @ '' histogram'' @ nl @
         concat (map (\<lambda>(j, h). render_into show_f64 durations (job j) h) (wm_job_duration m))) @
      counter_family ''secureprompt_worker_tasks_processed_total''
        (map (\<lambda>((t, oc), v). (''task_type='' @ quoted t @ '',outcome='' @ quoted oc, v)) (wm_tasks m)) @
      ''# TYPE secureprompt_worker_queue_drain_errors_total counter'' @ nl @
      ''secureprompt_worker_queue_drain_errors_total '' @ show_nat (unat (wm_drain_errors m)) @ nl)"

section \<open>Migrations\<close>

record migration_file =
  mf_name :: string
  mf_read :: "(string, string) result"

record ch_state =
  ch_versions :: "string list"
  ch_executed :: "string list"

text \<open>
  Where a run fails, if it does: creating the tracking table, opening the directory, and for each version
  the check, the \<open>k\<close>-th statement, or the record. Each entry of the directory is a result of its own.
\<close>

record migrate_env =
  mg_create_err :: "string option"
  mg_dir_name :: string
  mg_dir :: "(string, (string, migration_file) result list) result"
  mg_check_err :: "string \<Rightarrow> string option"
  mg_exec_err :: "string \<Rightarrow> nat \<Rightarrow> string option"
  mg_record_err :: "string \<Rightarrow> string option"

text \<open>\<open>Path::extension\<close> of a file name.\<close>

definition path_extension :: "string \<Rightarrow> string option" where
  "path_extension name =
     (let ext = rev (takeWhile (\<lambda>c. c \<noteq> CHR ''.'') (rev name)) in
      if CHR ''.'' \<notin> set name \<or> name = ''..'' \<or> length ext + 1 \<ge> length name then None else Some ext)"

definition is_sql_file :: "migration_file \<Rightarrow> bool" where
  "is_sql_file f = (case path_extension (mf_name f) of None \<Rightarrow> False | Some ext \<Rightarrow> eq_ignore_ascii_case ext ''sql'')"

definition cut_comment :: "string \<Rightarrow> string" where
  "cut_comment line = (case str_find ''--'' line of None \<Rightarrow> line | Some i \<Rightarrow> take i line)"

definition strip_sql_line_comments :: "string \<Rightarrow> string" where
  "strip_sql_line_comments s = concat (map (\<lambda>line. cut_comment line @ nl) (str_lines s))"

definition statements_of :: "string \<Rightarrow> string list" where
  "statements_of s = filter (\<lambda>x. x \<noteq> []) (map trim (split_on (CHR '';'') (strip_sql_line_comments s)))"

fun run_statements :: "migrate_env \<Rightarrow> string \<Rightarrow> nat \<Rightarrow> string list \<Rightarrow> ch_state \<Rightarrow> (string, unit) result \<times> ch_state" where
  "run_statements env version k [] ch = (Inr (), ch)"
| "run_statements env version k (x # xs) ch =
     (case mg_exec_err env version k of
        Some e \<Rightarrow> (Inl (''Migration '' @ version @ '' statement failed: '' @ take_chars 80 x), ch)
      | None \<Rightarrow> run_statements env version (Suc k) xs (ch\<lparr>ch_executed := ch_executed ch @ [x]\<rparr>))"

definition apply_migration :: "migrate_env \<Rightarrow> migration_file \<Rightarrow> ch_state \<Rightarrow> (string, unit) result \<times> ch_state" where
  "apply_migration env f ch =
     (let version = mf_name f in
      case mg_check_err env version of
        Some e \<Rightarrow> (Inl (''Failed to check migration status for '' @ version), ch)
      | None \<Rightarrow>
          if version \<in> set (ch_versions ch) then (Inr (), ch)
          else case mf_read f of
            Inl e \<Rightarrow> (Inl (''Cannot read migration file: '' @ mg_dir_name env @ ''/'' @ version), ch)
          | Inr text' \<Rightarrow>
              (case run_statements env version 0 (statements_of text') ch of
                 (Inl e, ch1) \<Rightarrow> (Inl e, ch1)
               | (Inr _, ch1) \<Rightarrow>
                   (case mg_record_err env version of
                      Some e \<Rightarrow> (Inl (''Failed to record migration '' @ version), ch1)
                    | None \<Rightarrow> (Inr (), ch1\<lparr>ch_versions := ch_versions ch1 @ [version]\<rparr>))))"

fun apply_each :: "migrate_env \<Rightarrow> migration_file list \<Rightarrow> ch_state \<Rightarrow> (string, unit) result \<times> ch_state" where
  "apply_each env [] ch = (Inr (), ch)"
| "apply_each env (f # fs) ch =
     (case apply_migration env f ch of (Inl e, ch1) \<Rightarrow> (Inl e, ch1) | (Inr _, ch1) \<Rightarrow> apply_each env fs ch1)"

text \<open>\<open>filter_map(|e| e.ok())\<close>: an entry that could not be read is passed over.\<close>

fun entry_ok :: "(string, migration_file) result \<Rightarrow> migration_file option" where
  "entry_ok (Inr f) = Some f"
| "entry_ok (Inl e) = None"

definition readable :: "(string, migration_file) result list \<Rightarrow> migration_file list" where
  "readable es = List.map_filter entry_ok es"

definition migration_order :: "(string, migration_file) result list \<Rightarrow> migration_file list" where
  "migration_order es = sort_key mf_name (filter is_sql_file (readable es))"

definition apply_migrations :: "migrate_env \<Rightarrow> ch_state \<Rightarrow> (string, unit) result \<times> ch_state" where
  "apply_migrations env ch =
     (case mg_create_err env of
        Some e \<Rightarrow> (Inl ''Failed to create _schema_migrations table'', ch)
      | None \<Rightarrow>
          (case mg_dir env of
             Inl e \<Rightarrow> (Inl (''Cannot read migrations dir: '' @ mg_dir_name env), ch)
           | Inr es \<Rightarrow> apply_each env (migration_order es) ch))"

section \<open>Indexing a policy rule\<close>

datatype embed_reply = EmbedSendFailed | EmbedErrorStatus | EmbedBadBody | Embedded "rat list"

record rag_point =
  qp_id :: uuid
  qp_vector :: "rat list"
  qp_payload :: "(string, string) hashmap"

record index_env =
  ix_embed :: "string \<Rightarrow> string \<Rightarrow> json \<Rightarrow> embed_reply"
  ix_parse :: "string \<Rightarrow> uuid option"
  ix_print :: "uuid \<Rightarrow> string"
  ix_upsert_err :: bool
  ix_sidecar_url :: string
  ix_token :: string

text \<open>An upsert replaces the point of the same id.\<close>

definition upsert_point :: "rag_point \<Rightarrow> rag_point list \<Rightarrow> rag_point list" where
  "upsert_point p ps = filter (\<lambda>q. qp_id q \<noteq> qp_id p) ps @ [p]"

definition index_policy_rule :: "index_env \<Rightarrow> task_envelope \<Rightarrow> rag_point list \<Rightarrow> (string, rag_point list) result" where
  "index_policy_rule ix task ps =
     rbind (ok_or (get_str (te_payload task) ''rule_id'') ''IndexPolicyRule: missing rule_id in payload'') (\<lambda>rule.
     rbind (ok_or (get_str (te_payload task) ''condition_text'') ''IndexPolicyRule: missing condition_text in payload'') (\<lambda>condition_text.
     rbind (case ix_embed ix (ix_sidecar_url ix @ ''/embed'') (''Bearer '' @ ix_token ix) (JObj [(''text'', JStr condition_text)]) of
              EmbedSendFailed \<Rightarrow> Inl ''IndexPolicyRule: failed to call ML sidecar /embed''
            | EmbedErrorStatus \<Rightarrow> Inl ''IndexPolicyRule: /embed returned error status''
            | EmbedBadBody \<Rightarrow> Inl ''IndexPolicyRule: failed to parse /embed response''
            | Embedded v \<Rightarrow> Inr v) (\<lambda>embedding.
     rbind (ok_or (ix_parse ix rule) ''IndexPolicyRule: rule_id is not a valid UUID'') (\<lambda>point_uuid.
     rbind (guard_err (ix_upsert_err ix) ''IndexPolicyRule: Qdrant upsert failed'') (\<lambda>_.
       Inr (upsert_point \<lparr>qp_id = point_uuid, qp_vector = embedding,
         qp_payload = [(''workspace_id'', ix_print ix (te_workspace_id task)), (''doc_type'', ''policy_rule''), (''rule_id'', rule)]\<rparr> ps))))))"

definition handle_index_policy_rule :: "index_env \<Rightarrow> task_envelope \<Rightarrow> rag_point list \<Rightarrow> bool \<times> rag_point list" where
  "handle_index_policy_rule ix task ps = (case index_policy_rule ix task ps of Inr ps' \<Rightarrow> (True, ps') | Inl _ \<Rightarrow> (False, ps))"

section \<open>The queues\<close>


type_synonym queues = "string \<Rightarrow> string list"


record worker_state =
  wk_queues :: queues
  wk_exports :: export_db
  wk_purged :: purge_db
  wk_points :: "rag_point list"
  wk_metrics :: worker_metrics
  wk_alive :: bool

text \<open>
  One round of the loop. The pop may fail before it takes an element or lose the one it took; either way
  the reply is read as none. The message of a text that is no envelope shows its first 200 bytes.
\<close>

datatype blpop_fault = BlpopDone | BlpopFailed | BlpopLost

record drain_env =
  de_checkout_err :: bool
  de_blpop :: blpop_fault
  de_from_str :: "string \<Rightarrow> task_envelope option"
  de_error_logged :: bool
  de_export :: worker_env
  de_purge :: purge_env
  de_index :: index_env

definition count_task :: "string \<Rightarrow> bool \<Rightarrow> worker_state \<Rightarrow> worker_state" where
  "count_task task_type ok st = st\<lparr>wk_metrics := record_task task_type (if ok then ''ok'' else ''error'') (wk_metrics st)\<rparr>"

definition count_stub :: "string \<Rightarrow> string \<Rightarrow> worker_state \<Rightarrow> worker_state" where
  "count_stub task_type outcome st = st\<lparr>wk_metrics := record_task task_type outcome (wk_metrics st)\<rparr>"

definition dispatch_task :: "drain_env \<Rightarrow> task_envelope \<Rightarrow> worker_state \<Rightarrow> worker_state" where
  "dispatch_task env task st =
     (let t = te_task_type task in
      if t = ''analytics.flush'' then count_stub t ''stub'' st
      else if t = ''audit.export'' then
        (let (outcome, db) = run_export (de_export env) task (wk_exports st)
         in count_task t (oc_status outcome = ''complete'') (st\<lparr>wk_exports := db\<rparr>))
      else if t = ''retention.purge'' then
        (let (outcome, db) = purge_run (de_purge env) (wk_purged st)
         in count_task t (purge_all_ok outcome) (st\<lparr>wk_purged := db\<rparr>))
      else if t = ''api_key.rotation_cleanup'' then count_stub t ''stub'' st
      else if t = ''policy.index_rule'' then
        (let (ok, ps) = handle_index_policy_rule (de_index env) task (wk_points st)
         in count_task t ok (st\<lparr>wk_points := ps\<rparr>))
      else count_stub ''unknown'' ''unknown'' st)"





section \<open>Scheduled jobs\<close>

definition optimize_job :: "(string \<Rightarrow> bool) \<Rightarrow> rat \<Rightarrow> worker_metrics \<Rightarrow> worker_metrics" where
  "optimize_job fails secs m =
     record_job ''optimize_final'' secs (list_all (\<lambda>t. \<not> fails (''OPTIMIZE TABLE '' @ t @ '' FINAL'')) [''request_events'', ''policy_events'']) m"

definition rotation_job :: "(nat \<Rightarrow> db_env) \<Rightarrow> bool \<Rightarrow> rat \<Rightarrow> key_db \<times> worker_metrics \<Rightarrow> key_db \<times> worker_metrics" where
  "rotation_job envs policed secs = (\<lambda>(db, m).
     let (outcome, db') = rotation_sweep envs policed db in (db', record_job ''rotation_cleanup'' secs (all_ok outcome) m))"

definition purge_job :: "purge_env \<Rightarrow> rat \<Rightarrow> purge_db \<times> worker_metrics \<Rightarrow> purge_db \<times> worker_metrics" where
  "purge_job pe secs = (\<lambda>(db, m).
     let (outcome, db') = purge_run pe db in (db', record_job ''retention_purge'' secs (purge_all_ok outcome) m))"

definition metrics_enabled :: "string option \<Rightarrow> bool" where
  "metrics_enabled var = (case var of None \<Rightarrow> True | Some v \<Rightarrow> to_lowercase (trim v) \<notin> {''false'', ''0'', ''no''})"

definition metrics_port :: "string option \<Rightarrow> nat" where
  "metrics_port var = unwrap_or 9091 (Option.bind var (\<lambda>v. Option.bind (parse_u64 v) (\<lambda>n. if n < 2 ^ 16 then Some n else None)))"

text \<open>The lock of an analytics run: the count the query gave, and the row it inserts.\<close>

definition try_acquire_dbt_lock :: "nat option \<Rightarrow> bool \<Rightarrow> string option \<Rightarrow> (string, string \<times> string) result" where
  "try_acquire_dbt_lock held insert_err hostname =
     rbind (ok_or held ''Failed to query _dbt_lock'') (\<lambda>n.
     rbind (guard_err (n > 0) (''_dbt_lock is held (count='' @ show_nat n @ ''); another dbt run may be in progress. '' @
         ''Delete the lock row to unblock: ALTER TABLE _dbt_lock DELETE WHERE lock_key = '' @ [CHR 0x27] @ ''global'' @ [CHR 0x27])) (\<lambda>_.
     rbind (guard_err insert_err ''Failed to acquire _dbt_lock'') (\<lambda>_.
       Inr (''global'', unwrap_or ''secureprompt-worker'' hostname))))"

section \<open>Comments never reach ClickHouse\<close>

lemma str_find_take: "str_find p s = Some i \<Longrightarrow> p \<noteq> [] \<Longrightarrow> str_find p (take i s) = None"
proof (induction p s arbitrary: i rule: str_find.induct)
  case (2 p c s)
  then show ?case
  proof (cases "prefix p (c # s)")
    case False
    then obtain j where j: "i = Suc j" "str_find p s = Some j" using 2 by auto
    have "\<not> prefix p (c # take j s)"
      using False by (metis prefix_order.trans take_is_prefix take_Suc_Cons)
    then show ?thesis using 2 False j by simp
  qed simp
qed auto

lemma str_find_None_iff: "p \<noteq> [] \<Longrightarrow> str_find p s = None \<longleftrightarrow> (\<forall>a b. s \<noteq> a @ p @ b)"
proof (induction s)
  case (Cons c s)
  have "(\<forall>a b. c # s \<noteq> a @ p @ b) \<longleftrightarrow> \<not> prefix p (c # s) \<and> (\<forall>a b. s \<noteq> a @ p @ b)"
  proof (intro iffI conjI allI notI)
    fix a b assume "\<not> prefix p (c # s) \<and> (\<forall>a b. s \<noteq> a @ p @ b)" "c # s = a @ p @ b"
    then show False by (cases a) (auto simp: prefix_def)
  next
    assume h: "\<forall>a b. c # s \<noteq> a @ p @ b" "prefix p (c # s)"
    then obtain r where "c # s = [] @ p @ r" by (auto simp: prefix_def)
    with h(1) show False by blast
  next
    fix a b assume h: "\<forall>a b. c # s \<noteq> a @ p @ b" "s = a @ p @ b"
    then have "c # s = (c # a) @ p @ b" by simp
    with h(1) show False by blast
  qed
  then show ?case using Cons by auto
qed simp

lemma cut_comment_clean: "str_find ''--'' (cut_comment line) = None"
  by (auto simp: cut_comment_def split: option.splits intro: str_find_take)

text \<open>A run of dashes does not span a line end.\<close>

lemma dashes_in_append:
  assumes "x @ nl @ y = a @ ''--'' @ b"
  shows "(\<exists>b'. x = a @ ''--'' @ b') \<or> (\<exists>a'. y = a' @ ''--'' @ b)"
  using assms
proof (induction x arbitrary: a)
  case Nil
  then show ?case by (cases a) auto
next
  case (Cons c x)
  show ?case
  proof (cases a)
    case Nil
    then show ?thesis using Cons.prems by (cases x) auto
  next
    case (Cons d a')
    then show ?thesis using Cons.prems Cons.IH [of a'] by auto
  qed
qed

lemma stripped_clean: "str_find ''--'' (strip_sql_line_comments s) = None"
proof -
  have "str_find ''--'' (concat (map (\<lambda>line. cut_comment line @ nl) ls)) = None" for ls
  proof (induction ls)
    case (Cons l ls)
    have "cut_comment l @ nl @ concat (map (\<lambda>line. cut_comment line @ nl) ls) \<noteq> a @ ''--'' @ b" for a b
    proof
      assume "cut_comment l @ nl @ concat (map (\<lambda>line. cut_comment line @ nl) ls) = a @ ''--'' @ b"
      from dashes_in_append [OF this] show False
        using Cons cut_comment_clean [of l] by (simp add: str_find_None_iff)
    qed
    then show ?case by (simp add: str_find_None_iff)
  qed simp
  then show ?thesis by (simp add: strip_sql_line_comments_def)
qed

lemma split_on_infix: "w \<in> set (split_on c s) \<Longrightarrow> \<exists>a b. s = a @ w @ b"
proof (induction s arbitrary: w)
  case (Cons x s)
  obtain v vs where vs: "split_on c s = v # vs" by (metis list.exhaust split_on_ne)
  then have v: "\<exists>b. s = v @ b"
    by (metis join_split join_with.simps(2) join_with_Cons append_Nil2 list.exhaust)
  show ?case
  proof (cases "x = c \<and> w = []")
    case True
    then show ?thesis by (metis append_Nil)
  next
    case False
    then consider "w \<in> set (split_on c s)" | "x \<noteq> c" "w = x # v"
      using Cons.prems vs by (auto split: if_splits)
    then show ?thesis
    proof cases
      case 1
      then obtain a b where "s = a @ w @ b" using Cons.IH by blast
      then show ?thesis by (metis append_Cons)
    next
      case 2
      then show ?thesis using v by (metis append_Cons append_Nil)
    qed
  qed
qed simp

lemma statement_clean: "x \<in> set (statements_of s) \<Longrightarrow> \<not> str_contains x ''--''"
proof -
  assume "x \<in> set (statements_of s)"
  then obtain w where w: "w \<in> set (split_on (CHR '';'') (strip_sql_line_comments s))" "x = trim w" by (auto simp: statements_of_def)
  then obtain a b where "strip_sql_line_comments s = a @ w @ b" using split_on_infix by blast
  moreover obtain c d where "w = c @ x @ d" using trim_infix [of w] w(2) by blast
  ultimately have full: "strip_sql_line_comments s = (a @ c) @ x @ (d @ b)" by simp
  show ?thesis
  proof
    assume "str_contains x ''--''"
    then obtain u v where "x = u @ ''--'' @ v" by (auto simp: str_contains_def str_find_None_iff)
    then have "strip_sql_line_comments s = (a @ c @ u) @ ''--'' @ (v @ d @ b)" using full by simp
    then show False using stripped_clean [of s] by (metis list.discI str_find_None_iff)
  qed
qed

section \<open>Migrations are applied once and in order\<close>

lemma run_statements_shape:
  "run_statements env v k xs ch = (r, ch') \<Longrightarrow>
     \<exists>n. ch' = ch\<lparr>ch_executed := ch_executed ch @ take n xs\<rparr> \<and> (r = Inr () \<longrightarrow> take n xs = xs)"
proof (induction xs arbitrary: k ch)
  case Nil
  then show ?case by auto
next
  case (Cons x xs)
  show ?case
  proof (cases "mg_exec_err env v k")
    case None
    then obtain n where "ch' = ch\<lparr>ch_executed := (ch_executed ch @ [x]) @ take n xs\<rparr>" "r = Inr () \<longrightarrow> take n xs = xs"
      using Cons.IH [of "Suc k" "ch\<lparr>ch_executed := ch_executed ch @ [x]\<rparr>"] Cons.prems by auto
    then show ?thesis by (intro exI [of _ "Suc n"]) simp
  next
    case (Some e)
    then show ?thesis using Cons.prems by (intro exI [of _ 0]) auto
  qed
qed

definition texts_of :: "migration_file \<Rightarrow> string list" where
  "texts_of f = (case mf_read f of Inr t \<Rightarrow> statements_of t | Inl _ \<Rightarrow> [])"

lemma apply_migration_shape:
  assumes "apply_migration env f ch = (r, ch')"
  obtains (known) "mf_name f \<in> set (ch_versions ch)" "ch' = ch"
  | (applied) "mf_name f \<notin> set (ch_versions ch)" "r = Inr ()" "ch_versions ch' = ch_versions ch @ [mf_name f]"
      "ch_executed ch' = ch_executed ch @ texts_of f"
  | (failed) n e where "r = Inl e" "mf_name f \<notin> set (ch_versions ch)" "ch_versions ch' = ch_versions ch"
      "ch_executed ch' = ch_executed ch @ take n (texts_of f)"
proof (cases "mf_name f \<in> set (ch_versions ch)")
  case True
  then have "ch' = ch" using assms by (auto simp: apply_migration_def Let_def split: option.splits)
  with True show thesis by (rule known)
next
  case new: False
  show thesis
  proof (cases "mg_check_err env (mf_name f) = None \<and> (\<exists>t. mf_read f = Inr t)")
    case False
    then obtain e where "r = Inl e" "ch' = ch"
      using assms new by (auto simp: apply_migration_def Let_def split: option.splits sum.splits)
    with new show thesis by (intro failed [of e 0]) simp_all
  next
    case True
    then obtain t where t: "mg_check_err env (mf_name f) = None" "mf_read f = Inr t" by blast
    obtain r1 ch1 where r1: "run_statements env (mf_name f) 0 (statements_of t) ch = (r1, ch1)" by (meson surj_pair)
    from run_statements_shape [OF this] obtain n where n: "ch1 = ch\<lparr>ch_executed := ch_executed ch @ take n (texts_of f)\<rparr>"
      "r1 = Inr () \<longrightarrow> take n (texts_of f) = texts_of f" using t(2) by (auto simp: texts_of_def)
    show thesis
    proof (cases "r1 = Inr () \<and> mg_record_err env (mf_name f) = None")
      case True
      then have "r = Inr ()" "ch' = ch1\<lparr>ch_versions := ch_versions ch1 @ [mf_name f]\<rparr>"
        using assms new t r1 by (auto simp: apply_migration_def Let_def)
      with True n new show thesis by (intro applied) simp_all
    next
      case False
      then obtain e where "r = Inl e" "ch' = ch1"
        using assms new t r1 by (cases r1) (auto simp: apply_migration_def Let_def)
      with n new show thesis by (intro failed [of e n]) simp_all
    qed
  qed
qed

text \<open>A run over the files behind \<open>pre\<close>, when the first \<open>n\<close> versions are on record.\<close>

lemma apply_each_prefix:
  assumes "apply_each env fs ch = (r, ch')" "distinct (map mf_name (pre @ fs))"
    and "ch_versions ch = map mf_name (take n (pre @ fs))" "length pre \<le> n"
  shows "\<exists>m. n \<le> m \<and> ch_versions ch' = map mf_name (take m (pre @ fs)) \<and>
    (\<exists>more. ch_executed ch' = ch_executed ch @ more \<and> set more \<subseteq> (\<Union>f \<in> set fs. set (texts_of f)) \<and>
      (r = Inr () \<longrightarrow> length (pre @ fs) \<le> m \<and> more = concat (map texts_of (drop n (pre @ fs)))))"
  using assms
proof (induction fs arbitrary: pre ch n)
  case Nil
  then show ?case by (intro exI [of _ n]) auto
next
  case (Cons f fs)
  obtain r1 ch1 where one: "apply_migration env f ch = (r1, ch1)" by (meson surj_pair)
  have in_iff: "mf_name f \<in> set (ch_versions ch) \<longleftrightarrow> length pre < n"
  proof
    assume "length pre < n"
    then show "mf_name f \<in> set (ch_versions ch)" using Cons.prems(3) by (auto simp: take_Cons')
  next
    assume "mf_name f \<in> set (ch_versions ch)"
    then show "length pre < n" using Cons.prems(2-4) by (cases "length pre = n") (auto dest: in_set_takeD)
  qed
  show ?case
  proof (cases "r1")
    case (Inl e)
    then have res: "r = Inl e" "ch' = ch1" using Cons.prems(1) one by auto
    from one show ?thesis
    proof (cases rule: apply_migration_shape)
      case known
      then show ?thesis using res Cons.prems(3) by (intro exI [of _ n]) auto
    next
      case applied
      then show ?thesis using Inl by simp
    next
      case (failed k e')
      have "set (take k (texts_of f)) \<subseteq> (\<Union>f \<in> set (f # fs). set (texts_of f))" by (auto dest: in_set_takeD)
      then show ?thesis using failed res Cons.prems(3) by (intro exI [of _ n]) auto
    qed
  next
    case (Inr u)
    then have rest: "apply_each env fs ch1 = (r, ch')" using Cons.prems(1) one by simp
    have d: "distinct (map mf_name ((pre @ [f]) @ fs))" using Cons.prems(2) by simp
    from one show ?thesis
    proof (cases rule: apply_migration_shape)
      case known
      then have "ch_versions ch1 = map mf_name (take n ((pre @ [f]) @ fs))" "length (pre @ [f]) \<le> n"
        using Cons.prems(3) in_iff by auto
      from Cons.IH [OF rest d this] show ?thesis using known by auto
    next
      case applied
      then have n: "n = length pre" using in_iff Cons.prems(4) by simp
      then have "ch_versions ch1 = map mf_name (take (Suc n) ((pre @ [f]) @ fs))" "length (pre @ [f]) \<le> Suc n"
        using applied Cons.prems(3) by auto
      from Cons.IH [OF rest d this] obtain m more where m: "Suc n \<le> m" "ch_versions ch' = map mf_name (take m ((pre @ [f]) @ fs))"
        "ch_executed ch' = ch_executed ch1 @ more" "set more \<subseteq> (\<Union>f \<in> set fs. set (texts_of f))"
        "r = Inr () \<longrightarrow> length ((pre @ [f]) @ fs) \<le> m \<and> more = concat (map texts_of (drop (Suc n) ((pre @ [f]) @ fs)))" by blast
      show ?thesis using m applied n by (intro exI [of _ m] conjI exI [of _ "texts_of f @ more"]) auto
    next
      case (failed k e)
      then show ?thesis using Inr by simp
    qed
  qed
qed

text \<open>A run over any list of files: what it records is new, in the order of the list, and what it executes is of files not on record.\<close>

lemma apply_each_run:
  assumes "apply_each env fs ch = (r, ch')" "distinct (map mf_name fs)"
  shows "\<exists>vs more. ch_versions ch' = ch_versions ch @ vs \<and> subseq vs (map mf_name fs) \<and> set vs \<inter> set (ch_versions ch) = {} \<and>
    ch_executed ch' = ch_executed ch @ more \<and> set more \<subseteq> (\<Union>f \<in> {f \<in> set fs. mf_name f \<notin> set (ch_versions ch)}. set (texts_of f)) \<and>
    (r = Inr () \<longrightarrow> mf_name ` set fs \<subseteq> set (ch_versions ch'))"
  using assms
proof (induction fs arbitrary: ch)
  case (Cons f fs)
  let ?new = "\<lambda>fs ch. \<Union>f \<in> {f \<in> set fs. mf_name f \<notin> set (ch_versions ch)}. set (texts_of f)"
  obtain r1 ch1 where one: "apply_migration env f ch = (r1, ch1)" by (meson surj_pair)
  have d: "distinct (map mf_name fs)" "mf_name f \<notin> mf_name ` set fs" using Cons.prems(2) by auto
  from one show ?case
  proof (cases rule: apply_migration_shape)
    case known
    show ?thesis
    proof (cases r1)
      case (Inl e)
      then have "r = Inl e" "ch' = ch" using Cons.prems(1) one known by auto
      then show ?thesis by (intro exI [of _ "[]"]) simp
    next
      case (Inr u)
      then have "apply_each env fs ch = (r, ch')" using Cons.prems(1) one known by simp
      from Cons.IH [OF this d(1)] obtain vs more where "ch_versions ch' = ch_versions ch @ vs" "subseq vs (map mf_name fs)" "set vs \<inter> set (ch_versions ch) = {}"
        "ch_executed ch' = ch_executed ch @ more" "set more \<subseteq> ?new fs ch" "r = Inr () \<longrightarrow> mf_name ` set fs \<subseteq> set (ch_versions ch')" by blast
      then show ?thesis using known by (intro exI [of _ vs] exI [of _ more]) (auto simp: subset_iff)
    qed
  next
    case applied
    then have "apply_each env fs ch1 = (r, ch')" using Cons.prems(1) one by simp
    from Cons.IH [OF this d(1)] obtain vs more where rest: "ch_versions ch' = ch_versions ch1 @ vs" "subseq vs (map mf_name fs)" "set vs \<inter> set (ch_versions ch1) = {}"
        "ch_executed ch' = ch_executed ch1 @ more" "set more \<subseteq> ?new fs ch1" "r = Inr () \<longrightarrow> mf_name ` set fs \<subseteq> set (ch_versions ch')" by blast
    have "set more \<subseteq> ?new (f # fs) ch" using rest(5) applied by (auto simp: subset_iff)
    moreover have "set (texts_of f) \<subseteq> ?new (f # fs) ch" using applied(1) by auto
    ultimately show ?thesis using rest applied by (intro exI [of _ "mf_name f # vs"] exI [of _ "texts_of f @ more"]) auto
  next
    case (failed n e)
    then have "r = Inl e" "ch' = ch1" using Cons.prems(1) one by auto
    moreover have "set (take n (texts_of f)) \<subseteq> ?new (f # fs) ch" using failed(2) by (auto dest: in_set_takeD)
    ultimately show ?thesis using failed by (intro exI [of _ "[]"] exI [of _ "take n (texts_of f)"]) simp
  qed
qed simp

text \<open>
  Any number of starts of the worker over one set of files. A run may fail anywhere, the directory may be
  listed in any order, entries may be passed over and a file may be unreadable, but a readable file has
  its text. The flag says that every start so far that got a listing got a whole one.
\<close>

definition dir_of :: "(string \<times> string) list \<Rightarrow> migration_file list \<Rightarrow> bool" where
  "dir_of files fs = (distinct (map mf_name fs) \<and> (\<forall>f \<in> set fs. mf_name f \<in> fst ` set files \<and> (\<forall>t. mf_read f = Inr t \<longrightarrow> (mf_name f, t) \<in> set files)))"

definition whole :: "(string \<times> string) list \<Rightarrow> migration_file list \<Rightarrow> bool" where
  "whole files fs = (fst ` set files \<subseteq> mf_name ` set fs)"

definition listing_ok :: "(string \<times> string) list \<Rightarrow> migrate_env \<Rightarrow> bool" where
  "listing_ok files env = (case mg_dir env of Inr es \<Rightarrow> dir_of files (readable es) | Inl e \<Rightarrow> True)"

definition listing_whole :: "(string \<times> string) list \<Rightarrow> migrate_env \<Rightarrow> bool" where
  "listing_whole files env = (case mg_dir env of Inr es \<Rightarrow> whole files (readable es) | Inl e \<Rightarrow> True)"

inductive migrated :: "(string \<times> string) list \<Rightarrow> bool \<Rightarrow> ch_state \<Rightarrow> bool" for files where
  fresh_store: "migrated files True \<lparr>ch_versions = [], ch_executed = []\<rparr>"
| next_start: "migrated files b ch \<Longrightarrow> listing_ok files env \<Longrightarrow> apply_migrations env ch = (r, ch') \<Longrightarrow> migrated files (b \<and> listing_whole files env) ch'"

definition version_order :: "(string \<times> string) list \<Rightarrow> string list" where
  "version_order files = sort (filter (\<lambda>n. is_sql_file \<lparr>mf_name = n, mf_read = Inr []\<rparr>) (map fst files))"

definition script :: "(string \<times> string) list \<Rightarrow> string \<Rightarrow> string list" where
  "script files n = (case map_of files n of None \<Rightarrow> [] | Some t \<Rightarrow> statements_of t)"

lemma map_sort_key: "map f (sort_key f xs) = sort (map f xs)"
  by (rule properties_for_sort [symmetric]) simp_all

lemma migration_order_names:
  "map mf_name (migration_order es) = sort (filter (\<lambda>n. is_sql_file \<lparr>mf_name = n, mf_read = Inr []\<rparr>) (map mf_name (readable es)))"
proof -
  let ?P = "\<lambda>n. is_sql_file \<lparr>mf_name = n, mf_read = Inr []\<rparr>"
  have "is_sql_file = (\<lambda>f. ?P (mf_name f))" by (simp add: fun_eq_iff is_sql_file_def)
  then have "map mf_name (filter is_sql_file (readable es)) = filter ?P (map mf_name (readable es))"
    by (simp add: filter_map comp_def)
  then show ?thesis by (simp add: migration_order_def map_sort_key)
qed

lemma migration_order_whole:
  assumes "dir_of files (readable es)" "whole files (readable es)" "distinct (map fst files)"
  shows "map mf_name (migration_order es) = version_order files"
proof -
  have "set (map mf_name (readable es)) = set (map fst files)" using assms(1,2) by (auto simp: dir_of_def whole_def)
  moreover have "distinct (map mf_name (readable es))" using assms(1) by (simp add: dir_of_def)
  ultimately have "mset (map mf_name (readable es)) = mset (map fst files)" using assms(3) set_eq_iff_mset_eq_distinct by blast
  then show ?thesis unfolding migration_order_names version_order_def by (intro properties_for_sort) (simp_all add: mset_filter)
qed

lemma migration_order_part:
  assumes "dir_of files (readable es)"
  shows "set (map mf_name (migration_order es)) \<subseteq> set (version_order files)" "distinct (map mf_name (migration_order es))"
  using assms unfolding migration_order_names version_order_def by (auto simp: dir_of_def)

lemma texts_of_script:
  assumes "dir_of files fs" "distinct (map fst files)" "f \<in> set fs"
  shows "set (texts_of f) \<subseteq> set (script files (mf_name f))"
proof (cases "mf_read f")
  case (Inr t)
  then have "map_of files (mf_name f) = Some t" using assms by (auto simp: dir_of_def)
  then show ?thesis by (simp add: texts_of_def script_def Inr)
qed (simp add: texts_of_def)

lemma apply_migrations_listed:
  assumes "apply_migrations env ch = (r, ch')"
  obtains (stopped) e where "r = Inl e" "ch' = ch"
  | (ran) es where "mg_dir env = Inr es" "apply_each env (migration_order es) ch = (r, ch')"
  using assms by (auto simp: apply_migrations_def split: option.splits sum.splits)

lemma subseq_parts: "subseq vs ws \<Longrightarrow> set vs \<subseteq> set ws \<and> (distinct ws \<longrightarrow> distinct vs) \<and> (sorted ws \<longrightarrow> sorted vs)"
  by (induction rule: list_emb.induct) auto

text \<open>One start on any store.\<close>

definition fresh_scripts :: "(string \<times> string) list \<Rightarrow> ch_state \<Rightarrow> string set" where
  "fresh_scripts files ch = (\<Union>v \<in> set (version_order files) - set (ch_versions ch). set (script files v))"

lemma apply_migrations_run:
  assumes "apply_migrations env ch = (r, ch')" "listing_ok files env" "distinct (map fst files)"
  shows "\<exists>vs more. ch_versions ch' = ch_versions ch @ vs \<and> sorted vs \<and> distinct vs \<and> set vs \<inter> set (ch_versions ch) = {} \<and> set vs \<subseteq> set (version_order files) \<and>
    ch_executed ch' = ch_executed ch @ more \<and> set more \<subseteq> fresh_scripts files ch"
  using assms(1)
proof (cases rule: apply_migrations_listed)
  case (ran es)
  have dir: "dir_of files (readable es)" using assms(2) ran(1) by (simp add: listing_ok_def)
  note part = migration_order_part [OF dir]
  from apply_each_run [OF ran(2) part(2)] obtain vs more where v: "ch_versions ch' = ch_versions ch @ vs" "subseq vs (map mf_name (migration_order es))"
      "set vs \<inter> set (ch_versions ch) = {}" "ch_executed ch' = ch_executed ch @ more"
      "set more \<subseteq> (\<Union>f \<in> {f \<in> set (migration_order es). mf_name f \<notin> set (ch_versions ch)}. set (texts_of f))" by blast
  have "set (texts_of f) \<subseteq> fresh_scripts files ch" if "f \<in> set (migration_order es)" "mf_name f \<notin> set (ch_versions ch)" for f
  proof -
    have "f \<in> set (readable es)" using that(1) by (simp add: migration_order_def)
    then have "set (texts_of f) \<subseteq> set (script files (mf_name f))" using texts_of_script [OF dir assms(3)] by blast
    then show ?thesis using that part(1) by (auto simp: fresh_scripts_def)
  qed
  then have "set more \<subseteq> fresh_scripts files ch" using v(5) by blast
  moreover have "sorted vs" using subseq_parts [OF v(2)] by (simp add: migration_order_names)
  moreover have "distinct vs" using subseq_parts [OF v(2)] part(2) by blast
  moreover have "set vs \<subseteq> set (version_order files)" using subseq_parts [OF v(2)] part(1) by blast
  ultimately show ?thesis using v(1,3,4) by (intro exI [of _ vs] exI [of _ more]) simp
qed auto

text \<open>One start with a whole listing, on a store that holds the first \<open>n\<close> versions.\<close>

lemma apply_migrations_advance:
  assumes "apply_migrations env ch = (r, ch')" "listing_ok files env" "listing_whole files env" "distinct (map fst files)"
    and "ch_versions ch = take n (version_order files)"
  shows "\<exists>m. ch_versions ch' = take m (version_order files)"
  using assms(1)
proof (cases rule: apply_migrations_listed)
  case (ran es)
  have names: "map mf_name (migration_order es) = version_order files"
    using migration_order_whole assms(2-4) ran(1) by (simp add: listing_ok_def listing_whole_def)
  have "distinct (map mf_name ([] @ migration_order es))" using assms(4) by (simp add: names version_order_def)
  moreover have "ch_versions ch = map mf_name (take n ([] @ migration_order es))" using assms(5) names by (metis append_Nil take_map)
  ultimately obtain m where "ch_versions ch' = map mf_name (take m (migration_order es))"
    using apply_each_prefix [OF ran(2), of "[]" n] by auto
  then show ?thesis by (metis names take_map)
qed (use assms(5) in blast)

lemma migrated_advance:
  assumes "migrated files b ch" "distinct (map fst files)"
  shows "distinct (ch_versions ch) \<and> set (ch_versions ch) \<subseteq> set (version_order files) \<and>
    set (ch_executed ch) \<subseteq> (\<Union>v \<in> set (version_order files). set (script files v)) \<and> (b \<longrightarrow> (\<exists>n. ch_versions ch = take n (version_order files)))"
  using assms(1)
proof induction
  case (next_start b ch env r ch')
  from apply_migrations_run [OF next_start.hyps(3,2) assms(2)] obtain vs more where run: "ch_versions ch' = ch_versions ch @ vs" "distinct vs"
    "set vs \<inter> set (ch_versions ch) = {}" "set vs \<subseteq> set (version_order files)" "ch_executed ch' = ch_executed ch @ more" "set more \<subseteq> fresh_scripts files ch" by blast
  have "\<exists>n. ch_versions ch' = take n (version_order files)" if "b \<and> listing_whole files env"
    using that next_start.IH apply_migrations_advance [OF next_start.hyps(3,2) _ assms(2)] by blast
  moreover have "set more \<subseteq> (\<Union>v \<in> set (version_order files). set (script files v))" using run(6) by (auto simp: fresh_scripts_def)
  ultimately show ?case using run next_start.IH by auto
qed simp

lemma apply_migrations_records_listed:
  assumes "apply_migrations env ch = (Inr (), ch')" "listing_ok files env" "mg_dir env = Inr es"
  shows "mf_name ` set (migration_order es) \<subseteq> set (ch_versions ch')"
  using assms(1)
proof (cases rule: apply_migrations_listed)
  case (ran es')
  then have "es' = es" "dir_of files (readable es)" using assms by (simp_all add: listing_ok_def)
  then show ?thesis using apply_each_run [OF ran(2)] migration_order_part(2) by blast
qed simp

text \<open>
  C14. The schema migrations are applied once. Let the directory hold the same files with the same contents at
  every start, and let the starts follow each other. However often the worker starts, wherever its runs stop,
  in whichever order the directory is listed and whichever entries are passed over because they could not be
  read, no version is recorded twice, every statement ClickHouse executed is one of the migrations with no
  comment in it, and a start executes statements of versions not yet on record only and records its versions
  in the order of their names; a start that succeeds has all the files it listed on record. When no entry was
  ever passed over, the versions on record are an initial part of the sorted names.
\<close>

theorem migrations_apply_once_in_order:
  assumes "migrated files b ch" "distinct (map fst files)"
  shows "distinct (ch_versions ch) \<and> set (ch_versions ch) \<subseteq> set (version_order files) \<and>
    (b \<longrightarrow> (\<exists>n. ch_versions ch = take n (version_order files))) \<and>
    (\<forall>x \<in> set (ch_executed ch). \<not> str_contains x ''--'' \<and> (\<exists>v \<in> set (version_order files). x \<in> set (script files v))) \<and>
    (\<forall>env r ch'. listing_ok files env \<longrightarrow> apply_migrations env ch = (r, ch') \<longrightarrow>
       (\<exists>vs more. ch_versions ch' = ch_versions ch @ vs \<and> sorted vs \<and> ch_executed ch' = ch_executed ch @ more \<and>
          (\<forall>x \<in> set more. \<exists>v \<in> set (version_order files) - set (ch_versions ch). x \<in> set (script files v))) \<and>
       (\<forall>es. r = Inr () \<longrightarrow> mg_dir env = Inr es \<longrightarrow> mf_name ` set (migration_order es) \<subseteq> set (ch_versions ch')))"
proof -
  note all = migrated_advance [OF assms]
  have clean: "\<not> str_contains x ''--'' \<and> (\<exists>v \<in> set (version_order files). x \<in> set (script files v))" if x: "x \<in> set (ch_executed ch)" for x
  proof -
    obtain v where v: "v \<in> set (version_order files)" "x \<in> set (script files v)" using all x by blast
    then have "\<not> str_contains x ''--''" using statement_clean by (auto simp: script_def split: option.splits)
    with v show ?thesis by blast
  qed
  have one: "\<exists>vs more. ch_versions ch' = ch_versions ch @ vs \<and> sorted vs \<and> ch_executed ch' = ch_executed ch @ more \<and>
          (\<forall>x \<in> set more. \<exists>v \<in> set (version_order files) - set (ch_versions ch). x \<in> set (script files v))"
    if start: "listing_ok files env" "apply_migrations env ch = (r, ch')" for env r ch'
  proof -
    obtain vs more where "ch_versions ch' = ch_versions ch @ vs" "sorted vs" "ch_executed ch' = ch_executed ch @ more" "set more \<subseteq> fresh_scripts files ch"
      using apply_migrations_run [OF start(2,1) assms(2)] by blast
    then show ?thesis by (intro exI [of _ vs] exI [of _ more]) (auto simp: fresh_scripts_def)
  qed
  have recorded: "mf_name ` set (migration_order es) \<subseteq> set (ch_versions ch')"
    if "listing_ok files env" "apply_migrations env ch = (r, ch')" "r = Inr ()" "mg_dir env = Inr es" for env r ch' es
    using apply_migrations_records_listed that by blast
  show ?thesis using all clean one recorded by blast
qed

definition migrate_demo_files :: "(string \<times> string) list" where
  "migrate_demo_files = [(''2.sql'', ''b''), (''1.sql'', ''-- x; y'' @ nl @ ''a; c''), (''r.md'', ''d'')]"

definition migrate_demo :: "string list \<Rightarrow> (string \<Rightarrow> nat \<Rightarrow> string option) \<Rightarrow> migrate_env" where
  "migrate_demo skipped fails = \<lparr>mg_create_err = None, mg_dir_name = ''m'',
     mg_dir = Inr (map (\<lambda>(n, t). if n \<in> set skipped then Inl ''unreadable'' else Inr \<lparr>mf_name = n, mf_read = Inr t\<rparr>) migrate_demo_files),
     mg_check_err = (\<lambda>_. None), mg_exec_err = fails, mg_record_err = (\<lambda>_. None)\<rparr>"

lemma migrate_demo_ok: "listing_ok migrate_demo_files (migrate_demo skipped fails)"
  by (auto simp: listing_ok_def migrate_demo_def dir_of_def readable_def List.map_filter_def migrate_demo_files_def)

lemma migrate_demo_stops:
  "apply_migrations (migrate_demo [] (\<lambda>v k. if v = ''1.sql'' \<and> k = 1 then Some [] else None)) \<lparr>ch_versions = [], ch_executed = []\<rparr> =
     (Inl ''Migration 1.sql statement failed: c'', \<lparr>ch_versions = [], ch_executed = [''a'']\<rparr>)"
  by code_simp

lemma migrate_demo_resumes:
  "apply_migrations (migrate_demo [] (\<lambda>v k. None)) \<lparr>ch_versions = [], ch_executed = [''a'']\<rparr> =
     (Inr (), \<lparr>ch_versions = [''1.sql'', ''2.sql''], ch_executed = [''a'', ''a'', ''c'', ''b'']\<rparr>)"
  by code_simp

text \<open>An entry that is passed over is applied later, after versions that should follow it.\<close>

lemma passed_over_entry_breaks_order:
  "apply_migrations (migrate_demo [''1.sql''] (\<lambda>v k. None)) \<lparr>ch_versions = [], ch_executed = []\<rparr> =
     (Inr (), \<lparr>ch_versions = [''2.sql''], ch_executed = [''b'']\<rparr>)"
  "apply_migrations (migrate_demo [] (\<lambda>v k. None)) \<lparr>ch_versions = [''2.sql''], ch_executed = [''b'']\<rparr> =
     (Inr (), \<lparr>ch_versions = [''2.sql'', ''1.sql''], ch_executed = [''b'', ''a'', ''c'']\<rparr>)"
  by code_simp+

theorem migrations_apply_once_in_order_witness:
  "\<exists>ch. migrated migrate_demo_files True ch \<and> ch_versions ch = version_order migrate_demo_files \<and> distinct (ch_versions ch) \<and>
     ch_executed ch = [''a'', ''a'', ''c'', ''b''] \<and> ch_executed (snd (apply_migrations (migrate_demo [] (\<lambda>v k. None)) ch)) = ch_executed ch"
proof -
  let ?c1 = "\<lparr>ch_versions = [], ch_executed = [''a'']\<rparr>"
  let ?c2 = "\<lparr>ch_versions = [''1.sql'', ''2.sql''], ch_executed = [''a'', ''a'', ''c'', ''b'']\<rparr>"
  have whole: "listing_whole migrate_demo_files (migrate_demo [] f)" for f
    by (auto simp: listing_whole_def migrate_demo_def whole_def readable_def List.map_filter_def migrate_demo_files_def)
  have d: "distinct (map fst migrate_demo_files)" by (simp add: migrate_demo_files_def)
  have v: "version_order migrate_demo_files = [''1.sql'', ''2.sql'']" by code_simp
  have c1: "migrated migrate_demo_files True ?c1"
    using migrated.next_start [OF fresh_store migrate_demo_ok migrate_demo_stops] whole by simp
  then have c2: "migrated migrate_demo_files True ?c2"
    using migrated.next_start [OF _ migrate_demo_ok migrate_demo_resumes] whole by simp
  obtain r ch' where again: "apply_migrations (migrate_demo [] (\<lambda>v k. None)) ?c2 = (r, ch')" by (meson surj_pair)
  with migrations_apply_once_in_order [OF c2 d] migrate_demo_ok
  obtain more where "ch_executed ch' = ch_executed ?c2 @ more" "\<forall>x \<in> set more. \<exists>v \<in> set (version_order migrate_demo_files) - set (ch_versions ?c2). x \<in> set (script migrate_demo_files v)"
    by metis
  then have "ch_executed ch' = ch_executed ?c2" by (simp add: v)
  with c2 again v show ?thesis by (intro exI [of _ ?c2]) simp
qed

section \<open>The loop serves every task, or dies\<close>



text \<open>The tasks counted and the texts rejected, as the metrics have them.\<close>

definition handled :: "worker_metrics \<Rightarrow> 64 word" where
  "handled m = sum_list (map snd (wm_tasks m)) + wm_drain_errors m"

lemma sum_incr: "sum_list (map snd (incr key rows)) = sum_list (map snd rows) + 1"
  unfolding incr_def by (induction rows) auto

lemma handled_simps [simp]:
  "handled (record_task t oc m) = handled m + 1" "handled (record_drain_error m) = handled m + 1"
  by (simp_all add: handled_def record_task_def record_drain_error_def sum_incr)

lemma dispatch_task_frame [simp]:
  "wk_queues (dispatch_task env task st) = wk_queues st" "wk_alive (dispatch_task env task st) = wk_alive st"
  "handled (wk_metrics (dispatch_task env task st)) = handled (wk_metrics st) + 1"
  by (auto simp: dispatch_task_def count_task_def count_stub_def Let_def split: prod.splits)















end
