(* ===== verification/Analytics_Writer.thy ===== *)
theory Analytics_Writer
  imports Gateway_Api
begin

text \<open>
  The writer of analytics rows (\<open>analytics/clickhouse_writer.rs\<close>): the bounded channel the pipeline puts its
  events into and the task that takes them out and writes the rows of six ClickHouse tables, with the
  counters of \<open>observability/metrics.rs\<close> it moves.

  Whether a write or a commit of the inserters fails is a parameter; a row is on record when its write was
  accepted. What the client does with accepted rows (batching, the flush at the end) is its own.
\<close>

section \<open>State and rows\<close>

record policy_event_row =
  per_request_id :: uuid
  per_workspace_id :: uuid
  per_event :: policy_event
  per_created_at :: int

definition from_policy_event :: "policy_event \<Rightarrow> uuid \<Rightarrow> uuid \<Rightarrow> int \<Rightarrow> policy_event_row" where
  "from_policy_event pe rid ws t = \<lparr>per_request_id = rid, per_workspace_id = ws, per_event = pe, per_created_at = t\<rparr>"

record latency_sample_row =
  ls_request_id :: uuid
  ls_workspace_id :: uuid
  ls_model :: string
  ls_latency_ms :: nat
  ls_created_at :: int
  ls_ttft_ms :: "nat option"

datatype ch_table = RequestEvents | ContentCaptures | ClassCounts | PolicyEvents | LatencySamples | TokenUsage

datatype ch_row =
    RequestRow request_event_row
  | CaptureRow capture_row
  | CountRow class_count_row
  | PolicyRow policy_event_row
  | LatencyRow latency_sample_row
  | UsageRow token_usage_row

fun table_of :: "ch_row \<Rightarrow> ch_table" where
  "table_of (RequestRow _) = RequestEvents"
| "table_of (CaptureRow _) = ContentCaptures"
| "table_of (CountRow _) = ClassCounts"
| "table_of (PolicyRow _) = PolicyEvents"
| "table_of (LatencyRow _) = LatencySamples"
| "table_of (UsageRow _) = TokenUsage"

record analytics =
  an_channel :: "request_event list"
  an_rows :: "ch_row list"
  an_dropped :: "64 word"
  an_consumed :: "64 word"
  an_failed :: "64 word"
  an_retries :: "64 word"
  an_insert_failures :: "64 word"
  an_schema_stale :: bool

definition analytics_new :: analytics where
  "analytics_new = \<lparr>an_channel = [], an_rows = [], an_dropped = 0, an_consumed = 0, an_failed = 0, an_retries = 0,
     an_insert_failures = 0, an_schema_stale = False\<rparr>"

definition channel_capacity :: nat where
  "channel_capacity = 256"

definition enqueue :: "request_event \<Rightarrow> analytics \<Rightarrow> analytics" where
  "enqueue ev st = (if length (an_channel st) < channel_capacity then st\<lparr>an_channel := an_channel st @ [ev]\<rparr>
     else st\<lparr>an_dropped := an_dropped st + 1\<rparr>)"

section \<open>The startup check\<close>

definition request_events_columns :: "string list" where
  "request_events_columns = [''request_id'', ''workspace_id'', ''provider'', ''model'', ''final_action'', ''input_tokens'',
     ''output_tokens'', ''reasoning_tokens'', ''cache_read_tokens'', ''cache_write_tokens'', ''estimated_usage'', ''cost_usd'',
     ''created_at'', ''user_id'', ''api_key_id'', ''api_key_name'', ''ip_address'', ''user_agent'', ''redacted_prompt'',
     ''restored_response'', ''raw_prompt'', ''raw_response'', ''floor_only'', ''engines'', ''redacted_response'']"

definition verify_request_events_schema :: "(string, string list) result \<Rightarrow> analytics \<Rightarrow> analytics" where
  "verify_request_events_schema found st =
     (case found of
        Inl _ \<Rightarrow> st
      | Inr names \<Rightarrow>
          if names = [] then st\<lparr>an_schema_stale := True\<rparr>
          else if filter (\<lambda>want. want \<notin> set names) request_events_columns \<noteq> [] then st\<lparr>an_schema_stale := True\<rparr>
          else st)"

section \<open>One event\<close>

datatype write_error = SchemaMismatch | WriteFailed

record writer_env =
  aw_now :: int
  aw_first :: "write_error option"
  aw_retry :: "write_error option"
  aw_write_err :: "ch_table \<Rightarrow> nat \<Rightarrow> bool"
  aw_commit_err :: "ch_table \<Rightarrow> bool"

text \<open>The rows behind the request row, in the order they are written.\<close>

definition other_rows :: "request_event \<Rightarrow> int \<Rightarrow> ch_row list" where
  "other_rows ev now =
     (case capture_row_from_event ev now of None \<Rightarrow> [] | Some r \<Rightarrow> [CaptureRow r]) @
     map CountRow (class_count_rows_from_event ev now) @
     map (\<lambda>pe. PolicyRow (from_policy_event pe (re_request_id ev) (re_workspace_id ev) now)) (re_policy_events ev) @
     (case re_latency_ms ev of None \<Rightarrow> []
      | Some l \<Rightarrow> [LatencyRow \<lparr>ls_request_id = re_request_id ev, ls_workspace_id = re_workspace_id ev, ls_model = re_model ev,
          ls_latency_ms = l, ls_created_at = now, ls_ttft_ms = re_ttft_ms ev\<rparr>]) @
     [UsageRow (token_usage_row_from_event ev (now div 86400))]"

definition fail_insert :: "analytics \<Rightarrow> analytics" where
  "fail_insert st = st\<lparr>an_insert_failures := an_insert_failures st + 1\<rparr>"

definition write_row :: "writer_env \<Rightarrow> nat \<times> ch_row \<Rightarrow> analytics \<Rightarrow> analytics" where
  "write_row env kr st = (case kr of (k, r) \<Rightarrow>
     if aw_write_err env (table_of r) k then fail_insert st else st\<lparr>an_rows := an_rows st @ [r]\<rparr>)"

definition commit_tables :: "writer_env \<Rightarrow> analytics \<Rightarrow> analytics" where
  "commit_tables env st =
     fold (\<lambda>t st. if aw_commit_err env t then fail_insert st else st)
       [RequestEvents, PolicyEvents, LatencySamples, ContentCaptures, ClassCounts, TokenUsage] st"

definition accept_request_row :: "writer_env \<Rightarrow> request_event \<Rightarrow> analytics \<Rightarrow> analytics" where
  "accept_request_row env ev st = st\<lparr>an_schema_stale := False,
     an_rows := an_rows st @ [RequestRow (request_row_from_event ev (aw_now env))]\<rparr>"

text \<open>The write of the request row, retried once; \<open>None\<close> is the abandoned event.\<close>

definition write_request_row :: "writer_env \<Rightarrow> request_event \<Rightarrow> analytics \<Rightarrow> bool \<times> analytics" where
  "write_request_row env ev st =
     (case aw_first env of
        None \<Rightarrow> (True, accept_request_row env ev st)
      | Some e \<Rightarrow>
          (let st1 = st\<lparr>an_schema_stale := (e = SchemaMismatch \<or> an_schema_stale st), an_retries := an_retries st + 1\<rparr> in
           case aw_retry env of
             Some _ \<Rightarrow> (False, (fail_insert st1)\<lparr>an_failed := an_failed st1 + 1\<rparr>)
           | None \<Rightarrow> (True, accept_request_row env ev st1)))"

definition consume_event :: "writer_env \<Rightarrow> request_event \<Rightarrow> analytics \<Rightarrow> bool \<times> analytics" where
  "consume_event env ev st =
     (case write_request_row env ev (st\<lparr>an_consumed := an_consumed st + 1\<rparr>) of
        (False, st1) \<Rightarrow> (False, st1)
      | (True, st1) \<Rightarrow> (True, commit_tables env (fold (write_row env) (enumerate 0 (other_rows ev (aw_now env))) st1)))"

section \<open>Every event is accounted for\<close>

text \<open>
  A run of the gateway and the writer in any order: the events offered, the events taken from the
  channel, and those of them whose request row was accepted, with their times.
\<close>

inductive analytics_run ::
  "request_event list \<Rightarrow> request_event list \<Rightarrow> (request_event \<times> int) list \<Rightarrow> analytics \<Rightarrow> bool" where
  run_new: "analytics_run [] [] [] analytics_new"
| run_offer: "analytics_run offered taken kept st \<Longrightarrow> analytics_run (offered @ [ev]) taken kept (enqueue ev st)"
| run_probe: "analytics_run offered taken kept st \<Longrightarrow> analytics_run offered taken kept (verify_request_events_schema found st)"
| run_consume: "analytics_run offered taken kept st \<Longrightarrow> an_channel st = ev # rest \<Longrightarrow>
    consume_event env ev (st\<lparr>an_channel := rest\<rparr>) = (written, st') \<Longrightarrow>
    analytics_run offered (taken @ [ev]) (if written then kept @ [(ev, aw_now env)] else kept) st'"

fun is_request_row :: "ch_row \<Rightarrow> bool" where
  "is_request_row (RequestRow _) = True"
| "is_request_row _ = False"

lemma other_rows_no_request: "r \<in> set (other_rows ev t) \<Longrightarrow> \<not> is_request_row r"
  by (auto simp: other_rows_def split: option.splits)

lemma write_rows:
  "\<exists>more n. fold (write_row env) krs st = st\<lparr>an_rows := an_rows st @ more, an_insert_failures := n\<rparr> \<and> subseq more (map snd krs)"
proof (induction krs arbitrary: st)
  case Nil
  then show ?case by (intro exI [of _ "[]"] exI [of _ "an_insert_failures st"]) simp
next
  case (Cons kr krs)
  show ?case
  proof (cases "aw_write_err env (table_of (snd kr)) (fst kr)")
    case True
    then have "write_row env kr st = fail_insert st" by (cases kr) (simp add: write_row_def)
    moreover obtain more n where "fold (write_row env) krs (fail_insert st) =
        (fail_insert st)\<lparr>an_rows := an_rows (fail_insert st) @ more, an_insert_failures := n\<rparr>" "subseq more (map snd krs)"
      using Cons [of "fail_insert st"] by blast
    ultimately show ?thesis by (intro exI [of _ more] exI [of _ n]) (simp add: fail_insert_def list_emb_Cons)
  next
    case False
    let ?st = "st\<lparr>an_rows := an_rows st @ [snd kr]\<rparr>"
    have "write_row env kr st = ?st" using False by (cases kr) (simp add: write_row_def)
    moreover obtain more n where "fold (write_row env) krs ?st = ?st\<lparr>an_rows := an_rows ?st @ more, an_insert_failures := n\<rparr>"
      "subseq more (map snd krs)" using Cons [of ?st] by blast
    ultimately show ?thesis by (intro exI [of _ "snd kr # more"] exI [of _ n]) simp
  qed
qed

lemma commit_tables_shape: "\<exists>n. commit_tables env st = st\<lparr>an_insert_failures := n\<rparr>"
proof -
  have "\<exists>n. fold (\<lambda>t st. if aw_commit_err env t then fail_insert st else st) ts st = st\<lparr>an_insert_failures := n\<rparr>" for ts
  proof (induction ts arbitrary: st)
    case Nil
    then show ?case by (intro exI [of _ "an_insert_failures st"]) simp
  next
    case (Cons t ts)
    show ?case using Cons [of st] Cons [of "fail_insert st"] by (auto simp: fail_insert_def)
  qed
  then show ?thesis by (simp only: commit_tables_def)
qed

lemma consume_event_shape:
  assumes "consume_event env ev st = (written, st')"
  shows "an_channel st' = an_channel st \<and> an_dropped st' = an_dropped st \<and> an_consumed st' = an_consumed st + 1 \<and>
    (if written then an_failed st' = an_failed st \<and>
        (\<exists>more. an_rows st' = an_rows st @ RequestRow (request_row_from_event ev (aw_now env)) # more \<and> subseq more (other_rows ev (aw_now env)))
     else an_failed st' = an_failed st + 1 \<and> an_rows st' = an_rows st)"
proof -
  let ?st = "st\<lparr>an_consumed := an_consumed st + 1\<rparr>"
  obtain w st1 where w: "write_request_row env ev ?st = (w, st1)" by (meson surj_pair)
  then have frame: "an_channel st1 = an_channel st" "an_dropped st1 = an_dropped st" "an_consumed st1 = an_consumed st + 1"
    "an_failed st1 = (if w then an_failed st else an_failed st + 1)"
    "an_rows st1 = (if w then an_rows st @ [RequestRow (request_row_from_event ev (aw_now env))] else an_rows st)"
    by (auto simp: write_request_row_def accept_request_row_def fail_insert_def Let_def split: option.splits)
  show ?thesis
  proof (cases w)
    case False
    then show ?thesis using assms w frame by (auto simp: consume_event_def)
  next
    case True
    obtain more n where more: "fold (write_row env) (enumerate 0 (other_rows ev (aw_now env))) st1 =
        st1\<lparr>an_rows := an_rows st1 @ more, an_insert_failures := n\<rparr>" "subseq more (other_rows ev (aw_now env))"
      using write_rows [of env "enumerate 0 (other_rows ev (aw_now env))" st1] by auto
    obtain m where "commit_tables env (st1\<lparr>an_rows := an_rows st1 @ more, an_insert_failures := n\<rparr>) =
        st1\<lparr>an_rows := an_rows st1 @ more, an_insert_failures := m\<rparr>"
      using commit_tables_shape [of env "st1\<lparr>an_rows := an_rows st1 @ more, an_insert_failures := n\<rparr>"] by auto
    then have "written" "st' = st1\<lparr>an_rows := an_rows st1 @ more, an_insert_failures := m\<rparr>"
      using assms w True more(1) by (auto simp: consume_event_def)
    then show ?thesis using frame True more(2) by auto
  qed
qed

text \<open>
  No event disappears: every offered event is dropped at the full channel and counted, waits in the
  channel, or was taken in the order of the offers; every taken event left its request row or is counted
  as failed; and every other row belongs to an event whose request row is there.
\<close>

definition accounted :: "request_event list \<Rightarrow> request_event list \<Rightarrow> (request_event \<times> int) list \<Rightarrow> analytics \<Rightarrow> bool" where
  "accounted offered taken kept st = (length (an_channel st) \<le> channel_capacity \<and> subseq (taken @ an_channel st) offered \<and>
     of_nat (length offered) = an_dropped st + of_nat (length (taken @ an_channel st)) \<and> an_consumed st = of_nat (length taken) \<and>
     subseq (map fst kept) taken \<and> an_consumed st = an_failed st + of_nat (length kept) \<and>
     filter is_request_row (an_rows st) = map (\<lambda>(ev, t). RequestRow (request_row_from_event ev t)) kept \<and>
     (\<forall>r \<in> set (an_rows st). \<not> is_request_row r \<longrightarrow> (\<exists>(ev, t) \<in> set kept. r \<in> set (other_rows ev t))))"

lemma subseq_subset: "subseq xs ys \<Longrightarrow> set xs \<subseteq> set ys"
  by (auto elim: list_emb_set)

lemma accounted_offer:
  assumes "accounted offered taken kept st"
  shows "accounted (offered @ [ev]) taken kept (enqueue ev st)"
proof (cases "length (an_channel st) < channel_capacity")
  case True
  then show ?thesis using assms by (auto simp: accounted_def enqueue_def simp flip: append_assoc)
next
  case False
  have "subseq (taken @ an_channel st) (offered @ [ev])" using assms by (auto simp: accounted_def intro: subseq_order.trans)
  then show ?thesis using assms False by (auto simp: accounted_def enqueue_def)
qed

lemma accounted_consume:
  assumes "accounted offered taken kept st" "an_channel st = ev # rest"
    and "consume_event env ev (st\<lparr>an_channel := rest\<rparr>) = (written, st')"
  shows "accounted offered (taken @ [ev]) (if written then kept @ [(ev, aw_now env)] else kept) st'"
proof -
  note shape = consume_event_shape [OF assms(3)]
  have split: "filter is_request_row more = []" if "subseq more (other_rows ev (aw_now env))" for more
  proof -
    have "set more \<subseteq> set (other_rows ev (aw_now env))" using that by (rule subseq_subset)
    then show ?thesis using other_rows_no_request by (auto simp: filter_empty_conv)
  qed
  show ?thesis
  proof (cases written)
    case True
    then obtain more where more: "an_rows st' = an_rows st @ RequestRow (request_row_from_event ev (aw_now env)) # more"
      "subseq more (other_rows ev (aw_now env))" using shape by auto
    have "set more \<subseteq> set (other_rows ev (aw_now env))" using more(2) by (rule subseq_subset)
    then show ?thesis using assms(1,2) shape True more split [OF more(2)] by (auto simp: accounted_def)
  next
    case False
    have "subseq (map fst kept) (taken @ [ev])" using assms(1) by (auto simp: accounted_def intro: subseq_order.trans)
    then show ?thesis using assms(1,2) shape False by (auto simp: accounted_def)
  qed
qed

theorem events_accounted_for: "analytics_run offered taken kept st \<Longrightarrow> accounted offered taken kept st"
proof (induction rule: analytics_run.induct)
  case run_new
  then show ?case by (simp add: accounted_def analytics_new_def)
next
  case (run_probe offered taken kept st found)
  then show ?case by (auto simp: accounted_def verify_request_events_schema_def split: sum.splits)
next
  case (run_consume offered taken kept st ev rest env written st')
  from accounted_consume [OF run_consume.IH run_consume.hyps(2,3)] show ?case .
qed (rule accounted_offer)

end
