(* ===== verification/Key_Config.thy ===== *)
theory Key_Config
  imports Scan_Routes
begin

text \<open>
  Configuration and key management: the settings read from the environment (\<open>common/config.rs\<close>), the sealing
  of provider credentials (\<open>common/crypto.rs\<close>) and the two key-management backends (\<open>common/kms.rs\<close>).

  The environment is a function from names to texts. AES-256-GCM, base64, hexadecimal decoding, random
  bytes and the Vault server are parameters; what the code relies on is that opening undoes sealing and
  decoding undoes encoding.
\<close>

section \<open>Settings\<close>

type_synonym environ = "string \<Rightarrow> string option"

definition non_blank :: "string option \<Rightarrow> string" where
  "non_blank v = unwrap_or [] (Option.bind v (\<lambda>s. if s = [] then None else Some s))"

definition env_u64 :: "environ \<Rightarrow> string \<Rightarrow> nat \<Rightarrow> nat" where
  "env_u64 env name d = unwrap_or d (Option.bind (env name) parse_u64)"

record license_config =
  lc_license_token :: string
  lc_pubkey_b64 :: string
  lc_recheck_secs :: nat
  lc_attest_kek_b64 :: string
  lc_internal_token :: string
  lc_license_server_url :: "string option"
  lc_revocation_check_secs :: nat
  lc_attestation_interval_secs :: nat

definition license_config_from_env :: "environ \<Rightarrow> license_config" where
  "license_config_from_env env =
     \<lparr>lc_license_token = non_blank (env ''SECUREPROMPT_LICENSE_TOKEN''), lc_pubkey_b64 = non_blank (env ''SECUREPROMPT_LICENSE_PUBKEY''),
      lc_recheck_secs = env_u64 env ''SECUREPROMPT_LICENSE_RECHECK_SECS'' 3600,
      lc_attest_kek_b64 = non_blank (env ''SECUREPROMPT_ATTEST_KEK''), lc_internal_token = unwrap_or [] (env ''ML_SIDECAR_INTERNAL_TOKEN''),
      lc_license_server_url = (case env ''SECUREPROMPT_LICENSE_SERVER_URL'' of Some v \<Rightarrow> if trim v = [] then None else Some v | None \<Rightarrow> None),
      lc_revocation_check_secs = env_u64 env ''SECUREPROMPT_REVOCATION_CHECK_SECS'' 300,
      lc_attestation_interval_secs = env_u64 env ''SECUREPROMPT_ATTESTATION_INTERVAL_SECS'' 3600\<rparr>"

definition flag_value :: "environ \<Rightarrow> string \<Rightarrow> string option" where
  "flag_value env name = map_option (\<lambda>v. to_lowercase (trim v)) (env name)"

definition truthy :: "environ \<Rightarrow> string \<Rightarrow> bool" where
  "truthy env name = (case flag_value env name of None \<Rightarrow> False | Some v \<Rightarrow> v = ''1'' \<or> v = ''true'' \<or> v = ''yes'')"

definition public_signup_enabled_from_env :: "environ \<Rightarrow> bool" where
  "public_signup_enabled_from_env env = truthy env ''SECUREPROMPT_PUBLIC_SIGNUP_ENABLED''"

definition chat_debug_mode_from_env :: "environ \<Rightarrow> bool" where
  "chat_debug_mode_from_env env = truthy env ''SECUREPROMPT_CHAT_DEBUG_MODE''"

definition redact_when_no_rules_from_env :: "environ \<Rightarrow> bool" where
  "redact_when_no_rules_from_env env =
     (case flag_value env ''SECUREPROMPT_REDACT_WHEN_NO_RULES'' of
        Some v \<Rightarrow> \<not> (v = ''0'' \<or> v = ''false'' \<or> v = ''no'') | None \<Rightarrow> True)"

definition sidecar_unavailable_default_from_env :: "environ \<Rightarrow> string" where
  "sidecar_unavailable_default_from_env env =
     (if flag_value env ''SECUREPROMPT_SIDECAR_UNAVAILABLE_DEFAULT'' = Some ''degrade_with_alert'' then ''degrade_with_alert'' else ''block'')"

section \<open>Secrets\<close>

definition placeholder_secrets_exact :: "string list" where
  "placeholder_secrets_exact = [''secret'', ''password'', ''placeholder'', ''todo'', ''xxx'', ''c2vjdxjlchjvbxb0lwrldi1rbxmta2v5ltmyynl0zxm='']"

definition placeholder_secret_markers :: "string list" where
  "placeholder_secret_markers = [''changeme'', ''change_me'', ''change-me'', ''changethis'', ''change_this'', ''change-this'',
     ''your-secret-here'', ''your_secret_here'', ''replaceme'', ''replace_me'']"

definition is_placeholder_secret :: "string \<Rightarrow> bool" where
  "is_placeholder_secret v =
     (let normalized = to_lowercase (trim v)
      in normalized \<in> set placeholder_secrets_exact \<or> list_ex (str_contains normalized) placeholder_secret_markers)"

definition reject_placeholder_secret :: "(string \<Rightarrow> string) \<Rightarrow> string \<Rightarrow> string \<Rightarrow> (string, unit) result" where
  "reject_placeholder_secret dbg var v = guard_err (is_placeholder_secret v)
     (var @ '' is set to the placeholder value '' @ dbg v @ '' '' @ em_dash @ '' refusing to boot. Generate a real secret (for example `openssl rand -hex 32`) and set '' @ var @ ''.'')"

record jwt_config =
  jc_secret :: string
  jc_access_ttl_secs :: nat
  jc_refresh_ttl_secs :: nat

definition default_access_ttl_secs :: nat where
  "default_access_ttl_secs = 900"

definition default_refresh_ttl_secs :: nat where
  "default_refresh_ttl_secs = 2592000"

definition jwt_config_from_env :: "(string \<Rightarrow> string) \<Rightarrow> environ \<Rightarrow> (string, jwt_config) result" where
  "jwt_config_from_env dbg env =
     rbind (ok_or (env ''SECUREPROMPT_JWT_SECRET'') ''SECUREPROMPT_JWT_SECRET is required'') (\<lambda>secret.
     rbind (guard_err (trim secret = []) ''SECUREPROMPT_JWT_SECRET must not be empty'') (\<lambda>_.
     rbind (reject_placeholder_secret dbg ''SECUREPROMPT_JWT_SECRET'' secret) (\<lambda>_.
     rbind (case env ''SECUREPROMPT_PROVIDER_KEY'' of
              None \<Rightarrow> Inr ()
            | Some provider_key \<Rightarrow>
                rbind (if provider_key \<noteq> [] then reject_placeholder_secret dbg ''SECUREPROMPT_PROVIDER_KEY'' provider_key else Inr ()) (\<lambda>_.
                  guard_err (provider_key \<noteq> [] \<and> provider_key = secret) ''SECUREPROMPT_JWT_SECRET must differ from SECUREPROMPT_PROVIDER_KEY'')) (\<lambda>_.
       Inr \<lparr>jc_secret = secret, jc_access_ttl_secs = env_u64 env ''SECUREPROMPT_JWT_ACCESS_TTL_SECS'' default_access_ttl_secs,
            jc_refresh_ttl_secs = env_u64 env ''SECUREPROMPT_JWT_REFRESH_TTL_SECS'' default_refresh_ttl_secs\<rparr>))))"

section \<open>Sealed values\<close>

datatype crypto_error = EncryptFailed | DecryptFailed | InvalidKey string

fun crypto_error_str :: "crypto_error \<Rightarrow> string" where
  "crypto_error_str EncryptFailed = ''AES-GCM encryption failed''"
| "crypto_error_str DecryptFailed = ''AES-GCM decryption failed (wrong key or corrupt ciphertext)''"
| "crypto_error_str (InvalidKey e) = ''invalid key: '' @ e"

record crypto_crates =
  aes_seal :: "string \<Rightarrow> string \<Rightarrow> string \<Rightarrow> string option"
  aes_open :: "string \<Rightarrow> string \<Rightarrow> string \<Rightarrow> string option"
  b64url_encode :: "string \<Rightarrow> string"
  b64url_decode :: "string \<Rightarrow> (string, string) result"
  b64std_encode :: "string \<Rightarrow> string"
  b64std_decode :: "string \<Rightarrow> (string, string) result"
  hex_decode :: "string \<Rightarrow> (string, string) result"

definition encrypt_aes_gcm :: "crypto_crates \<Rightarrow> string \<Rightarrow> string \<Rightarrow> string \<Rightarrow> (crypto_error, string \<times> string) result" where
  "encrypt_aes_gcm cr nonce plaintext key =
     rbind (ok_or (aes_seal cr key nonce plaintext) EncryptFailed) (\<lambda>ciphertext. Inr (nonce, ciphertext))"

definition decrypt_aes_gcm :: "crypto_crates \<Rightarrow> string \<Rightarrow> string \<Rightarrow> string \<Rightarrow> (crypto_error, string) result" where
  "decrypt_aes_gcm cr nonce ciphertext key = ok_or (aes_open cr key nonce ciphertext) DecryptFailed"

definition encode_encrypted :: "crypto_crates \<Rightarrow> string \<Rightarrow> string \<Rightarrow> string" where
  "encode_encrypted cr nonce ciphertext = b64url_encode cr (nonce @ ciphertext)"

definition decode_encrypted :: "crypto_crates \<Rightarrow> string \<Rightarrow> (crypto_error, string \<times> string) result" where
  "decode_encrypted cr stored =
     rbind (map_err (\<lambda>e. InvalidKey (''base64 decode failed: '' @ e)) (b64url_decode cr stored)) (\<lambda>bytes.
     rbind (guard_err (length bytes < 12) (InvalidKey ''encrypted value too short (< 12 bytes)'')) (\<lambda>_.
       Inr (take 12 bytes, drop 12 bytes)))"

definition parse_provider_key :: "crypto_crates \<Rightarrow> string \<Rightarrow> (crypto_error, string) result" where
  "parse_provider_key cr hex_key =
     rbind (map_err (\<lambda>e. InvalidKey (''hex decode failed: '' @ e)) (hex_decode cr (trim hex_key))) (\<lambda>bytes.
     rbind (guard_err (length bytes \<noteq> 32) (InvalidKey (''expected 32 bytes (64 hex chars), got '' @ show_nat (length bytes) @ '' bytes''))) (\<lambda>_.
       Inr bytes))"

definition provider_key_from_env_or_zero :: "environ \<Rightarrow> string" where
  "provider_key_from_env_or_zero env = unwrap_or (replicate 64 (CHR ''0'')) (env ''SECUREPROMPT_PROVIDER_KEY'')"

definition provider_key_bytes :: "crypto_crates \<Rightarrow> string \<Rightarrow> (string, string) result" where
  "provider_key_bytes cr hex_key = map_err crypto_error_str (parse_provider_key cr hex_key)"

section \<open>Key-management backends\<close>

definition file_kms_from_env :: "crypto_crates \<Rightarrow> environ \<Rightarrow> (string, string) result" where
  "file_kms_from_env cr env =
     rbind (ok_or (env ''KMS_FILE_KEY'') (''KMS_FILE_KEY not set '' @ em_dash @ '' generate with: openssl rand 32 | base64'')) (\<lambda>raw.
     rbind (map_err (\<lambda>_. ''KMS_FILE_KEY: invalid base64'') (b64std_decode cr (trim raw))) (\<lambda>bytes.
     rbind (guard_err (length bytes \<noteq> 32) ''KMS_FILE_KEY must be exactly 32 bytes after base64 decode'') (\<lambda>_. Inr bytes)))"

definition file_kms_encrypt :: "crypto_crates \<Rightarrow> string \<Rightarrow> string \<Rightarrow> string \<Rightarrow> (string, string) result" where
  "file_kms_encrypt cr key nonce plaintext =
     rbind (map_err (\<lambda>e. ''FileKms encrypt failed: '' @ crypto_error_str e) (encrypt_aes_gcm cr nonce plaintext key)) (\<lambda>(n, ct).
       Inr (encode_encrypted cr n ct))"

definition file_kms_decrypt :: "crypto_crates \<Rightarrow> string \<Rightarrow> string \<Rightarrow> (string, string) result" where
  "file_kms_decrypt cr key ciphertext =
     rbind (guard_err (\<not> valid_utf8 ciphertext) ''FileKms: ciphertext not valid UTF-8'') (\<lambda>_.
     rbind (map_err (\<lambda>e. ''FileKms decode failed: '' @ crypto_error_str e) (decode_encrypted cr ciphertext)) (\<lambda>(n, ct).
       map_err (\<lambda>e. ''FileKms decrypt failed: '' @ crypto_error_str e) (decrypt_aes_gcm cr n ct key)))"

record vault_kms =
  vk_encrypt :: "string \<Rightarrow> string \<Rightarrow> string \<Rightarrow> string option"
  vk_decrypt :: "string \<Rightarrow> string \<Rightarrow> string \<Rightarrow> string option"
  vk_mount :: string
  vk_key_name :: string

definition vault_kms_encrypt :: "crypto_crates \<Rightarrow> vault_kms \<Rightarrow> string \<Rightarrow> (string, string) result" where
  "vault_kms_encrypt cr vk plaintext =
     ok_or (vk_encrypt vk (vk_mount vk) (vk_key_name vk) (b64std_encode cr plaintext)) ''VaultKms: encrypt request failed''"

definition vault_kms_decrypt :: "crypto_crates \<Rightarrow> vault_kms \<Rightarrow> string \<Rightarrow> (string, string) result" where
  "vault_kms_decrypt cr vk ciphertext =
     rbind (guard_err (\<not> valid_utf8 ciphertext) ''VaultKms: ciphertext not valid UTF-8'') (\<lambda>_.
     rbind (ok_or (vk_decrypt vk (vk_mount vk) (vk_key_name vk) ciphertext) ''VaultKms: decrypt request failed'') (\<lambda>b64.
       map_err (\<lambda>_. ''VaultKms: failed to base64-decode decrypted plaintext'') (b64std_decode cr b64)))"

definition vault_kms_from_env :: "(string \<Rightarrow> string \<Rightarrow> (string, vault_kms) result) \<Rightarrow> environ \<Rightarrow> (string, vault_kms) result" where
  "vault_kms_from_env build env =
     rbind (ok_or (env ''VAULT_TOKEN'') ''VAULT_TOKEN required for VaultKms backend'') (\<lambda>token.
     rbind (build (unwrap_or ''http://vault:8200'' (env ''VAULT_ADDR'')) token) (\<lambda>client.
       Inr (client\<lparr>vk_mount := unwrap_or ''transit'' (env ''VAULT_TRANSIT_MOUNT''), vk_key_name := unwrap_or ''secureprompt-kms'' (env ''VAULT_TRANSIT_KEY'')\<rparr>)))"

datatype kms_choice = FileKms string | VaultKms vault_kms

definition kms_backend_from_env :: "crypto_crates \<Rightarrow> (string \<Rightarrow> string \<Rightarrow> (string, vault_kms) result) \<Rightarrow> environ \<Rightarrow> (string, kms_choice) result" where
  "kms_backend_from_env cr build env =
     (let backend = unwrap_or ''file'' (env ''KMS_BACKEND'') in
      if backend = ''file'' then rbind (file_kms_from_env cr env) (\<lambda>k. Inr (FileKms k))
      else if backend = ''vault'' then rbind (vault_kms_from_env build env) (\<lambda>v. Inr (VaultKms v))
      else Inl (''unknown KMS_BACKEND: '' @ backend @ '' (expected: file | vault)''))"

fun kms_encrypt_with :: "crypto_crates \<Rightarrow> string \<Rightarrow> kms_choice \<Rightarrow> string \<Rightarrow> (string, string) result" where
  "kms_encrypt_with cr nonce (FileKms key) t = file_kms_encrypt cr key nonce t"
| "kms_encrypt_with cr nonce (VaultKms vk) t = vault_kms_encrypt cr vk t"

fun kms_decrypt_with :: "crypto_crates \<Rightarrow> kms_choice \<Rightarrow> string \<Rightarrow> (string, string) result" where
  "kms_decrypt_with cr (FileKms key) c = file_kms_decrypt cr key c"
| "kms_decrypt_with cr (VaultKms vk) c = vault_kms_decrypt cr vk c"

section \<open>What the rest relies on\<close>

definition crate_laws :: "crypto_crates \<Rightarrow> bool" where
  "crate_laws cr = ((\<forall>k n t c. aes_seal cr k n t = Some c \<longrightarrow> aes_open cr k n c = Some t) \<and>
     (\<forall>b. b64url_decode cr (b64url_encode cr b) = Inr b \<and> valid_utf8 (b64url_encode cr b)) \<and>
     (\<forall>b. b64std_decode cr (b64std_encode cr b) = Inr b))"

definition vault_server_laws :: "vault_kms \<Rightarrow> bool" where
  "vault_server_laws vk = (\<forall>m k t c. vk_encrypt vk m k t = Some c \<longrightarrow> vk_decrypt vk m k c = Some t \<and> valid_utf8 c)"

lemma decode_encode_encrypted:
  "crate_laws cr \<Longrightarrow> length nonce = 12 \<Longrightarrow> decode_encrypted cr (encode_encrypted cr nonce ct) = Inr (nonce, ct)"
  by (simp add: decode_encrypted_def encode_encrypted_def crate_laws_def map_err_def guard_err_def)

lemma decode_encrypted_rejects_short:
  "b64url_decode cr stored = Inr bytes \<Longrightarrow> (\<exists>n ct. decode_encrypted cr stored = Inr (n, ct)) \<longleftrightarrow> 12 \<le> length bytes"
  by (auto simp: decode_encrypted_def map_err_def guard_err_def)

text \<open>
  Whichever backend the environment selects, opening undoes sealing under one key, and a sealed value is a
  text: the law the token vault, the file vault, the captures and the stored credentials assume of their
  key management.
\<close>

theorem kms_backends_open_what_they_sealed:
  assumes "crate_laws cr" "length nonce = 12" "\<And>vk. b = VaultKms vk \<Longrightarrow> vault_server_laws vk"
    and "kms_encrypt_with cr nonce b t = Inr c"
  shows "kms_decrypt_with cr b c = Inr t \<and> valid_utf8 c"
proof (cases b)
  case (FileKms key)
  then obtain ct where ct: "aes_seal cr key nonce t = Some ct" "c = encode_encrypted cr nonce ct"
    using assms(4) by (auto simp: file_kms_encrypt_def encrypt_aes_gcm_def rbind_Inr)
  then have u: "valid_utf8 c" using assms(1) by (simp add: crate_laws_def encode_encrypted_def)
  have "aes_open cr key nonce ct = Some t" using ct(1) assms(1) by (simp add: crate_laws_def)
  then show ?thesis
    using u decode_encode_encrypted [OF assms(1,2), of ct] ct(2) FileKms
    by (simp add: file_kms_decrypt_def decrypt_aes_gcm_def guard_err_def map_err_def ok_or_def)
next
  case (VaultKms vk)
  have laws: "vault_server_laws vk" by (rule assms(3)) (rule VaultKms)
  from VaultKms assms(4) have "vk_encrypt vk (vk_mount vk) (vk_key_name vk) (b64std_encode cr t) = Some c"
    by (simp add: vault_kms_encrypt_def)
  then have "vk_decrypt vk (vk_mount vk) (vk_key_name vk) c = Some (b64std_encode cr t) \<and> valid_utf8 c"
    using laws by (simp add: vault_server_laws_def)
  then show ?thesis
    using assms(1) VaultKms by (simp add: vault_kms_decrypt_def crate_laws_def guard_err_def map_err_def ok_or_def)
qed

text \<open>The originals of a scanned file, stashed through either backend, load again.\<close>

lemma stashed_originals_load_with_backend:
  assumes "vault_stash env h token_map st = (Inr vault_ref, st')" "token_map \<noteq> []" "valid_utf8 (mc_to_string env token_map)"
    and "mc_encrypt env = kms_encrypt_with cr nonce b" "crate_laws cr" "length nonce = 12" "\<And>vk. b = VaultKms vk \<Longrightarrow> vault_server_laws vk"
    and "conn_err env' k = None" "cmd_err env' (k + 1) = None" "redis_now env' < redis_now (mc_redis env) + int file_vault_ttl_secs"
  shows "load_stashed_vault env' k (kms_decrypt_with cr b) vault_ref (mc_vaults st') = Some (mc_to_string env token_map)"
proof -
  have "\<forall>t c. mc_encrypt env t = Inr c \<longrightarrow> kms_decrypt_with cr b c = Inr t"
    using kms_backends_open_what_they_sealed [OF assms(5-7)] unfolding assms(4) by blast
  from stashed_originals_load [OF assms(1-3) this assms(8-10)] show ?thesis .
qed

text \<open>A gateway that starts has a secret that is no placeholder and is not the provider key.\<close>

lemma started_gateway_secret:
  assumes "jwt_config_from_env dbg env = Inr cfg"
  shows "env ''SECUREPROMPT_JWT_SECRET'' = Some (jc_secret cfg) \<and> trim (jc_secret cfg) \<noteq> [] \<and> \<not> is_placeholder_secret (jc_secret cfg) \<and>
    (\<forall>k. env ''SECUREPROMPT_PROVIDER_KEY'' = Some k \<longrightarrow> k \<noteq> [] \<longrightarrow> k \<noteq> jc_secret cfg \<and> \<not> is_placeholder_secret k)"
proof -
  from assms obtain secret where s: "env ''SECUREPROMPT_JWT_SECRET'' = Some secret" "trim secret \<noteq> []" "\<not> is_placeholder_secret secret" "jc_secret cfg = secret"
    and p: "(case env ''SECUREPROMPT_PROVIDER_KEY'' of
              None \<Rightarrow> Inr ()
            | Some provider_key \<Rightarrow>
                rbind (if provider_key \<noteq> [] then reject_placeholder_secret dbg ''SECUREPROMPT_PROVIDER_KEY'' provider_key else Inr ()) (\<lambda>_.
                  guard_err (provider_key \<noteq> [] \<and> provider_key = secret) ''SECUREPROMPT_JWT_SECRET must differ from SECUREPROMPT_PROVIDER_KEY'')) = Inr ()"
    unfolding jwt_config_from_env_def rbind_Inr reject_placeholder_secret_def by fastforce
  from p have "\<forall>k. env ''SECUREPROMPT_PROVIDER_KEY'' = Some k \<longrightarrow> k \<noteq> [] \<longrightarrow> k \<noteq> secret \<and> \<not> is_placeholder_secret k"
    by (auto simp: reject_placeholder_secret_def rbind_Inr split: option.splits if_splits)
  with s show ?thesis by simp
qed

text \<open>Only one spelling opens the gateway when the sidecar is away; everything else blocks.\<close>

lemma sidecar_default_fails_closed:
  "policy_from_db (sidecar_unavailable_default_from_env env) = DegradeWithAlert \<longleftrightarrow>
     flag_value env ''SECUREPROMPT_SIDECAR_UNAVAILABLE_DEFAULT'' = Some ''degrade_with_alert''"
  by (simp add: sidecar_unavailable_default_from_env_def policy_from_db_def)

end
