(* ===== verification/Audit_Reader.thy ===== *)
theory Audit_Reader
  imports Analytics_Writer Key_Config
begin

text \<open>
  The readers of the audit trail: the list of requests with its cursor and the page of one request
  (\<open>dashboard/requests.rs\<close>), over the rows the analytics writer put into ClickHouse.

  A query is a function of the rows. How ClickHouse orders UUIDs, what \<open>toDateTime\<close> makes of a number, the
  JSON text of a cursor and whether a query fails are parameters.
\<close>

section \<open>The list of requests\<close>

record audit_env =
  ae_crates :: crypto_crates
  ae_cursor_print :: "int \<times> uuid \<Rightarrow> string"
  ae_cursor_parse :: "string \<Rightarrow> (int \<times> uuid) option"
  ae_to_date_time :: "int \<Rightarrow> int"
  ae_uuid_rank :: "uuid \<Rightarrow> nat"
  ae_uuid_str :: "uuid \<Rightarrow> string"

fun request_row_of :: "ch_row \<Rightarrow> request_event_row option" where
  "request_row_of (RequestRow r) = Some r"
| "request_row_of _ = None"

fun policy_row_of :: "ch_row \<Rightarrow> policy_event_row option" where
  "policy_row_of (PolicyRow r) = Some r"
| "policy_row_of _ = None"

fun capture_row_of :: "ch_row \<Rightarrow> capture_row option" where
  "capture_row_of (CaptureRow r) = Some r"
| "capture_row_of _ = None"

definition request_rows :: "ch_row list \<Rightarrow> request_event_row list" where
  "request_rows rows = List.map_filter request_row_of rows"

definition policy_rows :: "ch_row list \<Rightarrow> policy_event_row list" where
  "policy_rows rows = List.map_filter policy_row_of rows"

definition capture_rows :: "ch_row list \<Rightarrow> capture_row list" where
  "capture_rows rows = List.map_filter capture_row_of rows"

abbreviation row_id :: "request_event_row \<Rightarrow> uuid" where
  "row_id r \<equiv> re_request_id (rr_event r)"

record list_params =
  lp_from :: "int option"
  lp_to :: "int option"
  lp_model :: "string option"
  lp_has_violation :: "bool option"
  lp_cursor :: "string option"
  lp_limit :: "nat option"
  lp_workspace_id :: "uuid option"

definition encode_cursor :: "audit_env \<Rightarrow> int \<Rightarrow> uuid \<Rightarrow> string" where
  "encode_cursor env ts rid = b64url_encode (ae_crates env) (ae_cursor_print env (ts, rid))"

definition decode_cursor :: "audit_env \<Rightarrow> string \<Rightarrow> (api_error, int \<times> uuid) result" where
  "decode_cursor env cur =
     rbind (map_err (\<lambda>_. BadRequest ''invalid cursor'') (b64url_decode (ae_crates env) cur)) (\<lambda>bytes.
       ok_or (ae_cursor_parse env bytes) (BadRequest ''invalid cursor payload''))"

text \<open>A row of the answer: the selected columns, with the violation flag as the join and the count give it.\<close>

record request_list_item =
  li_request_id :: uuid
  li_workspace_id :: uuid
  li_provider :: string
  li_model :: string
  li_final_action :: string
  li_input_tokens :: "32 word option"
  li_output_tokens :: "32 word option"
  li_cost_usd :: rat
  li_has_violation :: bool
  li_created_at :: int

definition joined_events :: "ch_row list \<Rightarrow> request_event_row \<Rightarrow> policy_event_row list" where
  "joined_events rows r = filter (\<lambda>p. per_request_id p = row_id r \<and> per_workspace_id p = re_workspace_id (rr_event r)) (policy_rows rows)"

definition list_item_of :: "ch_row list \<Rightarrow> request_event_row \<Rightarrow> request_list_item" where
  "list_item_of rows r = (let e = rr_event r in
     \<lparr>li_request_id = re_request_id e, li_workspace_id = re_workspace_id e, li_provider = re_provider e, li_model = re_model e,
      li_final_action = re_final_action e, li_input_tokens = input_tokens (re_usage e), li_output_tokens = output_tokens (re_usage e),
      li_cost_usd = re_cost_usd e, li_has_violation = list_ex (\<lambda>p. ev_rule_id (per_event p) \<noteq> uuid_nil) (joined_events rows r),
      li_created_at = rr_created_at r\<rparr>)"

definition cursor_clause :: "audit_env \<Rightarrow> (int \<times> uuid) option \<Rightarrow> request_event_row \<Rightarrow> bool" where
  "cursor_clause env cur r =
     (case cur of None \<Rightarrow> True
      | Some (ts, rid) \<Rightarrow> rr_created_at r < ae_to_date_time env ts \<or>
          (rr_created_at r = ae_to_date_time env ts \<and> ae_uuid_rank env (row_id r) < ae_uuid_rank env rid))"

text \<open>The conditions of the query that do not depend on the cursor.\<close>

definition in_listing ::
  "audit_env \<Rightarrow> ch_row list \<Rightarrow> uuid \<Rightarrow> int \<Rightarrow> int \<Rightarrow> string option \<Rightarrow> uuid option \<Rightarrow> bool \<Rightarrow> request_event_row \<Rightarrow> bool" where
  "in_listing env rows ws from to model user_scope inner_join r =
     (re_workspace_id (rr_event r) = ws \<and> ae_to_date_time env from \<le> rr_created_at r \<and> rr_created_at r \<le> ae_to_date_time env to \<and>
      (case model of None \<Rightarrow> True | Some m \<Rightarrow> re_model (rr_event r) = m) \<and>
      (case user_scope of None \<Rightarrow> True | Some uid \<Rightarrow> re_user_id (rr_event r) = Some uid) \<and>
      (inner_join \<longrightarrow> joined_events rows r \<noteq> []))"

text \<open>
  \<open>ORDER BY created_at DESC, request_id DESC\<close>. Rows that agree on both columns come in an order of the
  database's choice; the list order stands for it.
\<close>

definition list_order :: "audit_env \<Rightarrow> request_list_item \<Rightarrow> int \<times> int" where
  "list_order env i = (- li_created_at i, - int (ae_uuid_rank env (li_request_id i)))"

definition list_query ::
  "audit_env \<Rightarrow> ch_row list \<Rightarrow> uuid \<Rightarrow> int \<Rightarrow> int \<Rightarrow> (int \<times> uuid) option \<Rightarrow> string option \<Rightarrow> uuid option \<Rightarrow> bool \<Rightarrow> nat \<Rightarrow> request_list_item list" where
  "list_query env rows ws from to cur model user_scope inner_join fetch_limit =
     take fetch_limit (sort_key (list_order env) (remdups (map (list_item_of rows)
       (filter (\<lambda>r. in_listing env rows ws from to model user_scope inner_join r \<and> cursor_clause env cur r) (request_rows rows)))))"

definition user_scope_of :: "jwt_ctx \<Rightarrow> uuid option" where
  "user_scope_of ctx = (if can_read_all_audit (ctx_role ctx) then None else Some (ctx_user_id ctx))"

definition list_limit :: "list_params \<Rightarrow> nat" where
  "list_limit params = min (unwrap_or 50 (lp_limit params)) 200"

definition next_cursor_of :: "audit_env \<Rightarrow> request_list_item list \<Rightarrow> string option" where
  "next_cursor_of env items_raw =
     (if items_raw = [] then None else Some (encode_cursor env (li_created_at (last items_raw)) (li_request_id (last items_raw))))"

definition cut_page :: "audit_env \<Rightarrow> nat \<Rightarrow> request_list_item list \<Rightarrow> request_list_item list \<times> string option" where
  "cut_page env limit fetched =
     (let has_more = limit < length fetched;
          items_raw = (if has_more then take limit fetched else fetched)
      in (items_raw, if has_more then next_cursor_of env items_raw else None))"

definition list_requests ::
  "audit_env \<Rightarrow> string option \<Rightarrow> jwt_ctx \<Rightarrow> int \<Rightarrow> list_params \<Rightarrow> ch_row list \<Rightarrow> (api_error, request_list_item list \<times> string option) result" where
  "list_requests env query_err ctx now params rows =
     rbind (guard_err (lp_workspace_id params \<noteq> None \<and> lp_workspace_id params \<noteq> Some (ctx_workspace_id ctx)) (Forbidden ''workspace_id mismatch'')) (\<lambda>_.
     (let ws = ctx_workspace_id ctx; limit = list_limit params;
          from = unwrap_or (now - 7 * 86400) (lp_from params); to = unwrap_or now (lp_to params) in
      rbind (guard_err (from < now - 90 * 86400) (BadRequest ''from must be within the last 90 days'')) (\<lambda>_.
      rbind (case lp_cursor params of None \<Rightarrow> Inr None | Some c \<Rightarrow> rbind (decode_cursor env c) (\<lambda>cp. Inr (Some cp))) (\<lambda>cur.
      rbind (case query_err of
               Some e \<Rightarrow> Inl (Internal (''clickhouse list_requests failed: '' @ e))
             | None \<Rightarrow> Inr (list_query env rows ws from to cur (lp_model params) (user_scope_of ctx)
                         (unwrap_or False (lp_has_violation params)) (limit + 1))) (\<lambda>fetched.
        Inr (cut_page env limit fetched))))))"

section \<open>The page of one request\<close>

definition classify_source :: "string option \<Rightarrow> string option" where
  "classify_source user_agent =
     (case user_agent of
        None \<Rightarrow> None
      | Some ua \<Rightarrow>
          if ua = [] then None
          else let lower = to_lowercase ua in
            Some (if str_contains lower ''librechat'' then ''LibreChat''
                  else if str_contains lower ''electron'' then ''Desktop chat (Electron)''
                  else if str_contains lower ''customopenaiclient'' then ''LibreChat''
                  else if str_contains lower ''openai-python'' then ''External API (openai-python)''
                  else if str_contains lower ''openai-node'' \<or> str_contains lower ''openai/js'' then ''External API (openai-js)''
                  else if str_contains lower ''anthropic'' then ''External API (anthropic-sdk)''
                  else if str_contains lower ''python-requests'' \<or> str_contains lower ''httpx/'' then ''External API (Python)''
                  else if prefix ''curl/'' lower then ''External (curl)''
                  else if str_contains lower ''postman'' \<or> str_contains lower ''insomnia'' then ''External API (Postman/Insomnia)''
                  else if str_contains lower ''mozilla'' \<or> str_contains lower ''chrome'' \<or> str_contains lower ''safari'' then ''Browser''
                  else ''External API''))"

text \<open>\<open>open\<close>: a field that cannot be decrypted is left out.\<close>

definition open_field :: "(string \<Rightarrow> (string, string) result) \<Rightarrow> string option \<Rightarrow> string option" where
  "open_field decrypt v =
     Option.bind v (\<lambda>t. case decrypt t of Inr bytes \<Rightarrow> (if valid_utf8 bytes then Some bytes else None) | Inl e \<Rightarrow> None)"

type_synonym captured_texts = "string option \<times> string option \<times> string option"

definition load_captured_content ::
  "(string \<Rightarrow> (string, string) result) \<Rightarrow> string option \<Rightarrow> uuid \<Rightarrow> uuid \<Rightarrow> request_event_row \<Rightarrow> ch_row list \<Rightarrow> captured_texts" where
  "load_captured_content decrypt query_err ws request_id req_row rows =
     (let found = (case query_err of
            Some e \<Rightarrow> []
          | None \<Rightarrow> take 1 (filter (\<lambda>c. capture_row.cr_workspace_id c = ws \<and> capture_row.cr_request_id c = request_id) (capture_rows rows)))
      in case found of
           [] \<Rightarrow> (rr_raw_prompt req_row, rr_raw_response req_row, rr_restored_response req_row)
         | c # _ \<Rightarrow>
             if \<not> cr_encrypted c then (cr_raw_prompt c, cr_raw_response c, cr_restored_response c)
             else (open_field decrypt (cr_raw_prompt c), open_field decrypt (cr_raw_response c), open_field decrypt (cr_restored_response c)))"

record user_profile =
  up_email :: "string option"
  up_first_name :: "string option"
  up_last_name :: "string option"
  up_position :: "string option"
  up_device_mac :: "string option"

definition no_profile :: user_profile where
  "no_profile = \<lparr>up_email = None, up_first_name = None, up_last_name = None, up_position = None, up_device_mac = None\<rparr>"

definition actor_profile :: "string option \<Rightarrow> uuid \<Rightarrow> uuid option \<Rightarrow> profile_row list \<Rightarrow> user_profile" where
  "actor_profile query_err ws user users =
     (case user of
        None \<Rightarrow> no_profile
      | Some uid \<Rightarrow>
          (case query_err of
             Some e \<Rightarrow> no_profile
           | None \<Rightarrow>
               (case find (\<lambda>r. pf_user_id r = uid \<and> pf_ws r = ws) users of
                  None \<Rightarrow> no_profile
                | Some r \<Rightarrow> \<lparr>up_email = Some (pf_email r), up_first_name = pf_first_name r, up_last_name = pf_last_name r,
                             up_position = pf_position r, up_device_mac = pf_device_mac r\<rparr>)))"

text \<open>The detail: the columns copied from the row are kept as the row; the raw texts are those of the capture.\<close>

record request_detail =
  rd_row :: request_event_row
  rd_policy_events :: "policy_event list"
  rd_profile :: user_profile
  rd_raw_prompt :: "string option"
  rd_raw_response :: "string option"
  rd_restored_response :: "string option"
  rd_source :: "string option"

text \<open>Query 0 reads the row, 1 the policy events, 2 the user and 3 the capture.\<close>

definition get_request_detail ::
  "audit_env \<Rightarrow> (nat \<Rightarrow> string option) \<Rightarrow> (string \<Rightarrow> (string, string) result) \<Rightarrow> jwt_ctx \<Rightarrow> uuid \<Rightarrow> profile_row list \<Rightarrow> ch_row list \<Rightarrow> (api_error, request_detail) result" where
  "get_request_detail env query_err decrypt ctx request_id users rows =
     (let ws = ctx_workspace_id ctx in
      rbind (case query_err 0 of
               Some e \<Rightarrow> Inl (Internal (''clickhouse get_request_detail failed: '' @ e))
             | None \<Rightarrow> Inr (take 1 (filter (\<lambda>r. re_workspace_id (rr_event r) = ws \<and> row_id r = request_id) (request_rows rows)))) (\<lambda>found.
      rbind (case (if can_read_all_audit (ctx_role ctx) then found else filter (\<lambda>r. re_user_id (rr_event r) = Some (ctx_user_id ctx)) found) of
               [] \<Rightarrow> Inl (NotFound (''request '' @ ae_uuid_str env request_id @ '' not found''))
             | r # _ \<Rightarrow> Inr r) (\<lambda>req_row.
      rbind (case query_err 1 of
               Some e \<Rightarrow> Inl (Internal (''clickhouse policy_events query failed: '' @ e))
             | None \<Rightarrow> Inr (sort_key per_created_at (filter (\<lambda>p. per_workspace_id p = ws \<and> per_request_id p = request_id) (policy_rows rows)))) (\<lambda>pes.
        (let (raw_prompt, raw_response, restored_response) = load_captured_content decrypt (query_err 3) ws request_id req_row rows
         in Inr \<lparr>rd_row = req_row, rd_policy_events = map per_event pes,
                 rd_profile = actor_profile (query_err 2) ws (re_user_id (rr_event req_row)) users,
                 rd_raw_prompt = raw_prompt, rd_raw_response = raw_response, rd_restored_response = restored_response,
                 rd_source = classify_source (re_user_agent (rr_event req_row))\<rparr>)))))"

section \<open>Following the cursor\<close>

text \<open>
  A client that reads page after page until no cursor comes back, at most as often as its first argument
  says; \<open>None\<close> when a page is refused or pages are left over.
\<close>

fun crawl :: "nat \<Rightarrow> (nat \<Rightarrow> 'c option \<Rightarrow> ('a list \<times> 'c option) option) \<Rightarrow> nat \<Rightarrow> 'c option \<Rightarrow> 'a list option" where
  "crawl 0 get_page k c = None"
| "crawl (Suc n) get_page k c =
     (case get_page k c of
        None \<Rightarrow> None
      | Some (items, None) \<Rightarrow> Some items
      | Some (items, Some c') \<Rightarrow> map_option (\<lambda>rest. items @ rest) (crawl n get_page (Suc k) (Some c')))"

definition page_of :: "('a \<Rightarrow> 'c) \<Rightarrow> nat \<Rightarrow> 'a list \<Rightarrow> 'a list \<times> 'c option" where
  "page_of mark limit xs = (take limit xs, if limit < length xs then Some (mark (last (take limit xs))) else None)"

lemma after_mark:
  fixes key :: "'a \<Rightarrow> 'k::linorder"
  assumes "sorted_wrt (\<lambda>x y. key x < key y) (A @ B)" "A \<noteq> []"
  shows "filter (\<lambda>x. key (last A) < key x) (A @ B) = B"
proof -
  obtain A' a where A: "A = A' @ [a]" using assms(2) by (cases A rule: rev_cases) auto
  have "\<forall>x\<in>set A'. key x < key a" "\<forall>x\<in>set B. key a < key x"
    using assms(1) by (auto simp: A sorted_wrt_append)
  then show ?thesis by (auto simp: A filter_empty_conv less_not_sym)
qed

text \<open>Pages cut by a strict order and a mark of the last element are the list, each element once.\<close>

lemma crawl_pages:
  fixes key :: "'a \<Rightarrow> 'k::linorder"
  assumes strict: "sorted_wrt (\<lambda>x y. key x < key y) V" and limit: "0 < limit"
    and first_page: "\<And>k. get_page k None = Some (page_of mark limit V)"
    and next_page: "\<And>k x. x \<in> set V \<Longrightarrow> get_page k (Some (mark x)) = Some (page_of mark limit (filter (\<lambda>y. key x < key y) V))"
  shows "V = A @ B \<Longrightarrow> c = (if A = [] then None else Some (mark (last A))) \<Longrightarrow> length B \<le> n \<Longrightarrow> crawl (Suc n) get_page k c = Some B"
proof (induction n arbitrary: A B k c)
  case (0 A B k c)
  then show ?case
    using first_page [of k] next_page [of "last A" k] after_mark [of key A B] strict by (auto simp: page_of_def)
next
  case (Suc n A B k c)
  have s: "get_page k c = Some (page_of mark limit B)"
  proof (cases "A = []")
    case False
    then show ?thesis using Suc.prems after_mark [of key A B] strict next_page [of "last A" k] by simp
  qed (use Suc.prems first_page in simp)
  show ?case
  proof (cases "limit < length B")
    case False
    then show ?thesis using s by (simp add: page_of_def)
  next
    case True
    then have ne: "take limit B \<noteq> []" using limit by auto
    have "crawl (Suc n) get_page (Suc k) (Some (mark (last (take limit B)))) = Some (drop limit B)"
      by (rule Suc.IH [of "A @ take limit B"]) (use Suc.prems limit ne in auto)
    then show ?thesis using s True by (simp add: page_of_def del: crawl.simps(2)) (simp add: crawl.simps(2) [of "Suc n" for n] page_of_def)
  qed
qed

section \<open>The listing as one list\<close>

definition listing ::
  "audit_env \<Rightarrow> ch_row list \<Rightarrow> uuid \<Rightarrow> int \<Rightarrow> int \<Rightarrow> string option \<Rightarrow> uuid option \<Rightarrow> bool \<Rightarrow> request_list_item list" where
  "listing env rows ws from to model user_scope inner_join =
     sort_key (list_order env) (remdups (map (list_item_of rows) (filter (in_listing env rows ws from to model user_scope inner_join) (request_rows rows))))"

lemma set_listing:
  "set (listing env rows ws from to model sc ij) = list_item_of rows ` {r \<in> set (request_rows rows). in_listing env rows ws from to model sc ij r}"
  by (auto simp: listing_def)

lemma list_query_first: "list_query env rows ws from to None model sc ij n = take n (listing env rows ws from to model sc ij)"
  by (simp add: list_query_def listing_def cursor_clause_def)

lemma list_query_after:
  assumes "ae_to_date_time env (li_created_at i) = li_created_at i"
  shows "list_query env rows ws from to (Some (li_created_at i, li_request_id i)) model sc ij n =
    take n (filter (\<lambda>j. list_order env i < list_order env j) (listing env rows ws from to model sc ij))"
proof -
  have "cursor_clause env (Some (li_created_at i, li_request_id i)) r \<longleftrightarrow> list_order env i < list_order env (list_item_of rows r)" for r
    using assms by (auto simp: cursor_clause_def list_order_def list_item_of_def Let_def less_prod_def)
  then show ?thesis
    by (simp add: list_query_def listing_def filter_sort remdups_filter [symmetric] filter_map comp_def conj_commute)
qed

definition audit_laws :: "audit_env \<Rightarrow> bool" where
  "audit_laws env = ((\<forall>b. b64url_decode (ae_crates env) (b64url_encode (ae_crates env) b) = Inr b) \<and> (\<forall>cp. ae_cursor_parse env (ae_cursor_print env cp) = Some cp) \<and>
     inj (ae_uuid_rank env) \<and> (\<forall>ts. 0 \<le> ts \<longrightarrow> ts < 2 ^ 32 \<longrightarrow> ae_to_date_time env ts = ts))"

lemma decode_encode_cursor: "audit_laws env \<Longrightarrow> decode_cursor env (encode_cursor env ts rid) = Inr (ts, rid)"
  by (simp add: decode_cursor_def encode_cursor_def audit_laws_def map_err_def ok_or_def)

lemma listing_strict:
  assumes "audit_laws env" "inj_on row_id {r \<in> set (request_rows rows). in_listing env rows ws from to model sc ij r}"
  shows "sorted_wrt (\<lambda>x y. list_order env x < list_order env y) (listing env rows ws from to model sc ij)"
proof -
  have inj: "inj_on (list_order env) (set (listing env rows ws from to model sc ij))"
  proof (rule inj_onI)
    fix x y assume xy: "x \<in> set (listing env rows ws from to model sc ij)" "y \<in> set (listing env rows ws from to model sc ij)"
      and eq: "list_order env x = list_order env y"
    have "li_request_id x = li_request_id y" using eq assms(1) by (auto simp: list_order_def audit_laws_def dest: injD)
    with xy assms(2) show "x = y" unfolding set_listing by (auto simp: list_item_of_def Let_def dest: inj_onD)
  qed
  have "sorted (map (list_order env) (listing env rows ws from to model sc ij))" by (simp add: listing_def)
  moreover have "distinct (map (list_order env) (listing env rows ws from to model sc ij))"
    using inj by (simp add: distinct_map listing_def)
  ultimately have "sorted_wrt (<) (map (list_order env) (listing env rows ws from to model sc ij))" by (simp add: strict_sorted_iff)
  then show ?thesis by (simp add: sorted_wrt_map)
qed

text \<open>One page of the handler is the page cut from the listing.\<close>

abbreviation mark_of :: "audit_env \<Rightarrow> request_list_item \<Rightarrow> string" where
  "mark_of env i \<equiv> encode_cursor env (li_created_at i) (li_request_id i)"

lemma cut_page_take: "0 < limit \<Longrightarrow> cut_page env limit (take (limit + 1) xs) = page_of (mark_of env) limit xs"
  by (cases "limit < length xs") (auto simp: cut_page_def page_of_def next_cursor_of_def Let_def min_def)

definition listing_for :: "audit_env \<Rightarrow> jwt_ctx \<Rightarrow> list_params \<Rightarrow> int \<Rightarrow> int \<Rightarrow> ch_row list \<Rightarrow> request_list_item list" where
  "listing_for env ctx params f t rows =
     listing env rows (ctx_workspace_id ctx) f t (lp_model params) (user_scope_of ctx) (unwrap_or False (lp_has_violation params))"

lemma list_limit_pos: "lp_limit params \<noteq> Some 0 \<Longrightarrow> 0 < list_limit params"
  by (cases "lp_limit params") (auto simp: list_limit_def unwrap_or_def)

lemma list_requests_page:
  assumes "lp_workspace_id params \<in> {None, Some (ctx_workspace_id ctx)}" "lp_from params = Some f" "lp_to params = Some t" "now - 90 * 86400 \<le> f"
    and "lp_limit params \<noteq> Some 0"
  shows "list_requests env None ctx now (params\<lparr>lp_cursor := None\<rparr>) rows = Inr (page_of (mark_of env) (list_limit params) (listing_for env ctx params f t rows))"
    and "audit_laws env \<Longrightarrow> ae_to_date_time env (li_created_at x) = li_created_at x \<Longrightarrow>
      list_requests env None ctx now (params\<lparr>lp_cursor := Some (mark_of env x)\<rparr>) rows =
      Inr (page_of (mark_of env) (list_limit params) (filter (\<lambda>y. list_order env x < list_order env y) (listing_for env ctx params f t rows)))"
proof -
  have same: "list_limit (params\<lparr>lp_cursor := c\<rparr>) = list_limit params" for c by (simp add: list_limit_def)
  note page = cut_page_take [OF list_limit_pos [OF assms(5)]]
  show "list_requests env None ctx now (params\<lparr>lp_cursor := None\<rparr>) rows = Inr (page_of (mark_of env) (list_limit params) (listing_for env ctx params f t rows))"
    using assms(1-4) by (simp add: list_requests_def same list_query_first listing_for_def page [simplified] guard_err_def unwrap_or_def)
  show "list_requests env None ctx now (params\<lparr>lp_cursor := Some (mark_of env x)\<rparr>) rows =
      Inr (page_of (mark_of env) (list_limit params) (filter (\<lambda>y. list_order env x < list_order env y) (listing_for env ctx params f t rows)))"
    if "audit_laws env" "ae_to_date_time env (li_created_at x) = li_created_at x"
    using assms(1-4) by (simp add: list_requests_def same decode_encode_cursor [OF that(1)] list_query_after [OF that(2)] listing_for_def
      page [simplified] guard_err_def unwrap_or_def)
qed

text \<open>
  The store goes on while a client reads: \<open>settled t\<close> says that up to the time \<open>t\<close> nothing is added or removed.
\<close>

definition settled :: "int \<Rightarrow> ch_row list \<Rightarrow> ch_row list \<Rightarrow> bool" where
  "settled t rows rows' \<longleftrightarrow>
     filter (\<lambda>r. rr_created_at r \<le> t) (request_rows rows') = filter (\<lambda>r. rr_created_at r \<le> t) (request_rows rows) \<and>
     (\<forall>r\<in>set (request_rows rows). rr_created_at r \<le> t \<longrightarrow> joined_events rows' r = joined_events rows r)"

lemma listing_settled:
  assumes "settled t rows rows'" "ae_to_date_time env t = t"
  shows "listing env rows' ws f t m sc ij = listing env rows ws f t m sc ij"
proof -
  have cut: "filter (in_listing env x ws f t m sc ij) (request_rows x) =
      filter (in_listing env x ws f t m sc ij) (filter (\<lambda>r. rr_created_at r \<le> t) (request_rows x))" for x
    by (auto simp: assms(2) in_listing_def intro: filter_cong)
  have "filter (in_listing env rows' ws f t m sc ij) (request_rows rows') = filter (in_listing env rows ws f t m sc ij) (request_rows rows)"
    unfolding cut using assms(1) by (auto simp: settled_def in_listing_def intro!: filter_cong)
  moreover have "list_item_of rows' r = list_item_of rows r" if "r \<in> set (filter (in_listing env rows ws f t m sc ij) (request_rows rows))" for r
    using that assms by (auto simp: settled_def in_listing_def list_item_of_def Let_def)
  ultimately show ?thesis unfolding listing_def by (metis (no_types, lifting) map_cong)
qed

definition audit_page :: "audit_env \<Rightarrow> jwt_ctx \<Rightarrow> list_params \<Rightarrow> (nat \<Rightarrow> int) \<Rightarrow> (nat \<Rightarrow> ch_row list) \<Rightarrow> nat \<Rightarrow> string option \<Rightarrow> (request_list_item list \<times> string option) option" where
  "audit_page env ctx params now db k c =
     (case list_requests env None ctx (now k) (params\<lparr>lp_cursor := c\<rparr>) (db k) of Inr page \<Rightarrow> Some page | Inl e \<Rightarrow> None)"

lemma crawl_audit_pages:
  assumes laws: "audit_laws env" and ws: "lp_workspace_id params \<in> {None, Some (ctx_workspace_id ctx)}"
    and window: "lp_from params = Some f" "lp_to params = Some t" "\<And>k. now k - 90 * 86400 \<le> f" "0 \<le> f" "f < 2 ^ 32" "0 \<le> t" "t < 2 ^ 32"
    and limit: "lp_limit params \<noteq> Some 0" and settled: "\<And>k. settled t rows (db k)"
    and inj: "inj_on row_id {r \<in> set (request_rows rows). re_workspace_id (rr_event r) = ctx_workspace_id ctx \<and> rr_created_at r \<le> t}"
  shows "crawl (Suc (length (request_rows rows))) (audit_page env ctx params now db) 0 None = Some (listing_for env ctx params f t rows)"
    and "sorted_wrt (\<lambda>x y. list_order env x < list_order env y) (listing_for env ctx params f t rows)"
proof -
  let ?V = "listing_for env ctx params f t rows"
  have dt: "ae_to_date_time env x = x" if "0 \<le> x" "x < 2 ^ 32" for x using laws that by (simp add: audit_laws_def)
  have V: "listing_for env ctx params f t (db k) = ?V" for k
    unfolding listing_for_def by (rule listing_settled [OF settled dt]) (use window in auto)
  have rows: "0 \<le> li_created_at x \<and> li_created_at x < 2 ^ 32" if "x \<in> set ?V" for x
    using that window dt by (auto simp: listing_for_def set_listing in_listing_def list_item_of_def Let_def)
  show strict: "sorted_wrt (\<lambda>x y. list_order env x < list_order env y) ?V"
    unfolding listing_for_def
    by (rule listing_strict [OF laws], rule inj_on_subset [OF inj]) (use dt window in \<open>auto simp: in_listing_def\<close>)
  have first_page: "audit_page env ctx params now db k None = Some (page_of (mark_of env) (list_limit params) ?V)" for k
    unfolding audit_page_def list_requests_page(1) [OF ws window(1-3) limit] V by simp
  have next_page: "audit_page env ctx params now db k (Some (mark_of env x)) =
      Some (page_of (mark_of env) (list_limit params) (filter (\<lambda>y. list_order env x < list_order env y) ?V))" if "x \<in> set ?V" for k x
    unfolding audit_page_def list_requests_page(2) [OF ws window(1-3) limit laws dt [OF conjunct1 [OF rows [OF that]] conjunct2 [OF rows [OF that]]]] V by simp
  have len: "length ?V \<le> length (request_rows rows)"
    unfolding listing_for_def listing_def length_sort by (rule order_trans [OF length_remdups_leq]) simp
  show "crawl (Suc (length (request_rows rows))) (audit_page env ctx params now db) 0 None = Some ?V"
    by (rule crawl_pages [where A = "[]" and key = "list_order env", OF strict list_limit_pos [OF limit] first_page next_page]) (use len in simp_all)
qed

text \<open>
  C23. A client that reads the list of requests page by page, following the cursors, over an explicit window
  \<open>from\<close> to \<open>to\<close> that has settled gets every request of the caller's workspace in the window that matches the
  filters, exactly once and newest first, and for a role that may not read the whole audit only the caller's
  own; the cursors end. New events may arrive between the pages, with later times. The window reaches back at
  most 90 days, \<open>limit\<close> is not 0 (which gets no cursor), and no two requests of the workspace up to the end of
  the window share their identifier. The last condition is one on the callers: the gateway adopts an
  \<open>x-request-id\<close> they send, and rows with a repeated identifier are merged or skipped.
\<close>

theorem audit_pages_list_each_request_once:
  assumes "audit_laws env" "lp_workspace_id params \<in> {None, Some (ctx_workspace_id ctx)}" "lp_limit params \<noteq> Some 0"
    and "lp_from params = Some f" "lp_to params = Some t" "\<And>k. now k - 90 * 86400 \<le> f" "0 \<le> f" "f < 2 ^ 32" "0 \<le> t" "t < 2 ^ 32"
    and "\<And>k. settled t rows (db k)"
    and "inj_on row_id {r \<in> set (request_rows rows). re_workspace_id (rr_event r) = ctx_workspace_id ctx \<and> rr_created_at r \<le> t}"
  shows "\<exists>items. crawl (Suc (length (request_rows rows))) (audit_page env ctx params now db) 0 None = Some items \<and>
    distinct (map li_request_id items) \<and> sorted_wrt (\<lambda>i j. li_created_at j \<le> li_created_at i) items \<and>
    set items = list_item_of rows ` {r \<in> set (request_rows rows). re_workspace_id (rr_event r) = ctx_workspace_id ctx \<and>
      f \<le> rr_created_at r \<and> rr_created_at r \<le> t \<and> (\<forall>m. lp_model params = Some m \<longrightarrow> re_model (rr_event r) = m) \<and>
      (can_read_all_audit (ctx_role ctx) \<or> re_user_id (rr_event r) = Some (ctx_user_id ctx)) \<and>
      (lp_has_violation params = Some True \<longrightarrow> (\<exists>p\<in>set (policy_rows rows). per_request_id p = row_id r \<and> per_workspace_id p = re_workspace_id (rr_event r)))}"
    (is "\<exists>items. _ \<and> _ \<and> _ \<and> set items = list_item_of rows ` ?R")
proof -
  let ?V = "listing_for env ctx params f t rows"
  note crawled = crawl_audit_pages [where now = now and db = db, OF assms(1,2,4-10,3,11,12)]
  have "in_listing env rows (ctx_workspace_id ctx) f t (lp_model params) (user_scope_of ctx) (unwrap_or False (lp_has_violation params)) r \<longleftrightarrow>
      re_workspace_id (rr_event r) = ctx_workspace_id ctx \<and> f \<le> rr_created_at r \<and> rr_created_at r \<le> t \<and>
      (\<forall>m. lp_model params = Some m \<longrightarrow> re_model (rr_event r) = m) \<and>
      (can_read_all_audit (ctx_role ctx) \<or> re_user_id (rr_event r) = Some (ctx_user_id ctx)) \<and>
      (lp_has_violation params = Some True \<longrightarrow> (\<exists>p\<in>set (policy_rows rows). per_request_id p = row_id r \<and> per_workspace_id p = re_workspace_id (rr_event r)))" for r
    using assms(1,7-10)
    by (auto simp: in_listing_def audit_laws_def user_scope_of_def joined_events_def filter_empty_conv unwrap_or_def split: option.split)
  then have V: "set ?V = list_item_of rows ` ?R" by (auto simp: listing_for_def set_listing)
  have "inj_on li_request_id (set ?V)"
  proof (rule inj_onI)
    fix x y assume "x \<in> set ?V" "y \<in> set ?V" "li_request_id x = li_request_id y"
    then show "x = y" unfolding V using assms(12) by (auto simp: list_item_of_def Let_def dest: inj_onD)
  qed
  moreover have "distinct ?V" by (simp add: listing_for_def listing_def)
  ultimately have "distinct (map li_request_id ?V)" by (simp add: distinct_map)
  moreover have "sorted_wrt (\<lambda>i j. li_created_at j \<le> li_created_at i) ?V"
    by (rule sorted_wrt_mono_rel [OF _ crawled(2)]) (auto simp: list_order_def less_prod_def)
  ultimately show ?thesis using crawled(1) V by blast
qed

definition example_cursor_print :: "int \<times> uuid \<Rightarrow> string" where
  "example_cursor_print = (\<lambda>(ts, rid). (if ts < 0 then ''-'' else []) @ replicate (nat \<bar>ts\<bar>) (CHR ''a'') @ replicate (unat rid) (CHR ''b''))"

definition example_cursor_parse :: "string \<Rightarrow> (int \<times> uuid) option" where
  "example_cursor_parse s = Some ((if CHR ''-'' \<in> set s then -1 else 1) * int (length (filter (\<lambda>c. c = CHR ''a'') s)), of_nat (length (filter (\<lambda>c. c = CHR ''b'') s)))"

definition example_audit_env :: audit_env where
  "example_audit_env = \<lparr>ae_crates = \<lparr>aes_seal = \<lambda>k n t. Some t, aes_open = \<lambda>k n t. Some t, b64url_encode = \<lambda>b. b, b64url_decode = Inr, b64std_encode = \<lambda>b. b,
       b64std_decode = Inr, hex_decode = Inr\<rparr>,
     ae_cursor_print = example_cursor_print, ae_cursor_parse = example_cursor_parse, ae_to_date_time = \<lambda>t. t, ae_uuid_rank = unat, ae_uuid_str = \<lambda>_. []\<rparr>"

definition example_row :: "uuid \<Rightarrow> uuid \<Rightarrow> int \<Rightarrow> request_event_row" where
  "example_row rid user t = request_row_from_event ((event_new rid 7 ''openai'' ''m'' ''allow'' token_usage_default False 0 [])\<lparr>re_user_id := Some user\<rparr>) t"

lemma example_audit_laws: "audit_laws example_audit_env"
  by (auto simp: audit_laws_def example_audit_env_def example_cursor_print_def example_cursor_parse_def inj_def intro: unsigned_word_eqI)

lemma example_row_fields [simp]:
  "row_id (example_row rid u t) = rid" "re_workspace_id (rr_event (example_row rid u t)) = 7" "re_user_id (rr_event (example_row rid u t)) = Some u"
  "rr_created_at (example_row rid u t) = t"
  by (simp_all add: example_row_def request_row_from_event_def event_new_def)

text \<open>Three requests in a settled window, two of them of the employee who reads one a page, while later ones arrive.\<close>

theorem audit_pages_list_each_request_once_witness:
  "\<exists>items. crawl 4 (audit_page example_audit_env \<lparr>ctx_user_id = 5, ctx_workspace_id = 7, ctx_role = Employee, ctx_jti = [], ctx_exp = 0\<rparr>
      \<lparr>lp_from = Some 100, lp_to = Some 200, lp_model = None, lp_has_violation = None, lp_cursor = None, lp_limit = Some 1, lp_workspace_id = None\<rparr>
      (\<lambda>k. 300) (\<lambda>k. map RequestRow [example_row 1 5 100, example_row 2 6 150, example_row 3 5 150] @ replicate k (RequestRow (example_row 4 5 250)))) 0 None = Some items \<and>
    distinct (map li_request_id items) \<and> li_request_id ` set items = {1, 3}"
proof -
  let ?rows = "map RequestRow [example_row 1 5 100, example_row 2 6 150, example_row 3 5 150]"
  let ?db = "\<lambda>k::nat. ?rows @ replicate k (RequestRow (example_row 4 5 250))"
  let ?ctx = "\<lparr>ctx_user_id = 5, ctx_workspace_id = 7, ctx_role = Employee, ctx_jti = [], ctx_exp = 0\<rparr>"
  let ?params = "\<lparr>lp_from = Some 100, lp_to = Some 200, lp_model = None, lp_has_violation = None, lp_cursor = None, lp_limit = Some 1, lp_workspace_id = None\<rparr>"
  have rows: "request_rows ?rows = [example_row 1 5 100, example_row 2 6 150, example_row 3 5 150]"
    by (simp add: request_rows_def List.map_filter_def)
  have db: "request_rows (?db k) = request_rows ?rows @ replicate k (example_row 4 5 250)" for k
    by (simp add: request_rows_def List.map_filter_def)
  have "joined_events (?db k) r = []" "joined_events ?rows r = []" for k r
    by (auto simp: joined_events_def policy_rows_def List.map_filter_def filter_empty_conv)
  then have "settled 200 ?rows (?db k)" for k
    unfolding settled_def db by simp
  moreover have "inj_on row_id {r \<in> set (request_rows ?rows). re_workspace_id (rr_event r) = ctx_workspace_id ?ctx \<and> rr_created_at r \<le> 200}"
    unfolding rows by (auto simp: inj_on_def)
  ultimately obtain items where items: "crawl (Suc (length (request_rows ?rows))) (audit_page example_audit_env ?ctx ?params (\<lambda>k. 300) ?db) 0 None = Some items"
      "distinct (map li_request_id items)"
    and set_items: "set items = list_item_of ?rows ` {r \<in> set (request_rows ?rows). re_workspace_id (rr_event r) = ctx_workspace_id ?ctx \<and>
      100 \<le> rr_created_at r \<and> rr_created_at r \<le> 200 \<and> (\<forall>m. lp_model ?params = Some m \<longrightarrow> re_model (rr_event r) = m) \<and>
      (can_read_all_audit (ctx_role ?ctx) \<or> re_user_id (rr_event r) = Some (ctx_user_id ?ctx)) \<and>
      (lp_has_violation ?params = Some True \<longrightarrow> (\<exists>p\<in>set (policy_rows ?rows). per_request_id p = row_id r \<and> per_workspace_id p = re_workspace_id (rr_event r)))}"
    using audit_pages_list_each_request_once [OF example_audit_laws, of ?params ?ctx 100 200 "\<lambda>k. 300" ?rows ?db] by auto
  have "li_request_id ` list_item_of ?rows ` S = row_id ` S" for S
    by (auto simp: image_comp list_item_of_def Let_def)
  then have "li_request_id ` set items = row_id ` {example_row 1 5 100, example_row 3 5 150}"
    unfolding set_items rows by (auto simp: can_read_all_audit_def intro: image_eqI [of _ _ "example_row 1 5 100"] image_eqI [of _ _ "example_row 3 5 150"])
  then have "li_request_id ` set items = {1, 3}" by simp
  moreover have "Suc (length (request_rows ?rows)) = 4" unfolding rows by simp
  ultimately show ?thesis using items by (intro exI [of _ items] conjI) (simp_all only:)
qed

section \<open>What the page of a request shows\<close>

text \<open>
  The page of a request is shown inside its workspace only, and to a role that may not read the whole
  audit only when the request is the caller's own.
\<close>

lemma request_detail_scoped:
  assumes "get_request_detail env query_err decrypt ctx rid users rows = Inr d"
  shows "rd_row d \<in> set (request_rows rows) \<and> row_id (rd_row d) = rid \<and> re_workspace_id (rr_event (rd_row d)) = ctx_workspace_id ctx \<and>
    (can_read_all_audit (ctx_role ctx) \<or> re_user_id (rr_event (rd_row d)) = Some (ctx_user_id ctx))"
proof -
  let ?found = "take 1 (filter (\<lambda>r. re_workspace_id (rr_event r) = ctx_workspace_id ctx \<and> row_id r = rid) (request_rows rows))"
  let ?mine = "if can_read_all_audit (ctx_role ctx) then ?found else filter (\<lambda>r. re_user_id (rr_event r) = Some (ctx_user_id ctx)) ?found"
  have "\<exists>rest. ?mine = rd_row d # rest"
    using assms by (auto simp: get_request_detail_def Let_def rbind_Inr split: option.splits list.splits prod.splits)
  then obtain rest where m: "?mine = rd_row d # rest" by blast
  have "rd_row d \<in> set ?mine" unfolding m by simp
  then show ?thesis by (auto split: if_splits dest: in_set_takeD)
qed

definition present :: "string option \<Rightarrow> string option" where
  "present v = Option.bind v (\<lambda>t. if t = [] then None else Some t)"

lemma open_sealed:
  assumes "seal_field encrypt v = Some w" "\<And>t c. encrypt t = Some c \<Longrightarrow> decrypt c = Inr t" "\<And>t. v = Some t \<Longrightarrow> valid_utf8 t"
  shows "open_field decrypt w = present v"
proof (cases v)
  case (Some t)
  show ?thesis
  proof (cases "t = []")
    case False
    then obtain c where "encrypt t = Some c" "w = Some c" using assms(1) Some by (auto simp: seal_field_def split: option.splits if_splits)
    then show ?thesis using False Some assms(2,3) by (simp add: open_field_def present_def)
  qed (use assms(1) Some in \<open>simp add: seal_field_def open_field_def present_def\<close>)
qed (use assms(1) in \<open>simp add: seal_field_def open_field_def present_def\<close>)

text \<open>
  The texts of a request that was captured come back as they were, and those of a request that was not
  captured are absent; an empty text counts as absent.
\<close>

theorem captured_request_reads_back:
  assumes "seal dec encrypt rp rr rs = re_captured e"
    and "filter (\<lambda>c. capture_row.cr_workspace_id c = re_workspace_id e \<and> capture_row.cr_request_id c = re_request_id e) (capture_rows rows) =
      (case capture_row_from_event e t of None \<Rightarrow> [] | Some c \<Rightarrow> [c])"
    and "\<And>t c. encrypt t = Some c \<Longrightarrow> decrypt c = Inr t" "\<And>t. t \<in> set_option rp \<union> set_option rr \<union> set_option rs \<Longrightarrow> valid_utf8 t"
  shows "load_captured_content decrypt None (re_workspace_id e) (re_request_id e) (request_row_from_event e t) rows =
    (if re_captured e = None then (None, None, None) else (present rp, present rr, present rs))"
proof (cases "re_captured e")
  case None
  then show ?thesis using assms(2)
    by (simp add: load_captured_content_def capture_row_from_event_def request_row_from_event_def)
next
  case (Some c)
  have "seal_field encrypt rp = Some (cc_raw_prompt c)" "seal_field encrypt rr = Some (cc_raw_response c)" "seal_field encrypt rs = Some (cc_restored_response c)"
    and "cc_encrypted c"
    using assms(1) Some by (auto simp: seal_def split: if_splits option.splits)
  moreover from this have "open_field decrypt (cc_raw_prompt c) = present rp" "open_field decrypt (cc_raw_response c) = present rr"
    "open_field decrypt (cc_restored_response c) = present rs"
    by (auto intro!: open_sealed assms(3,4))
  ultimately show ?thesis using Some assms(2) by (simp add: load_captured_content_def capture_row_from_event_def)
qed

end
