(* ===== verification/Dashboard_Reader.thy ===== *)
theory Dashboard_Reader
  imports Audit_Reader
begin

text \<open>
  The figures of the dashboard: the reader over the aggregated tables with its fallbacks to the raw rows
  (\<open>analytics/dashboard_reader.rs\<close>) and the four routes (\<open>dashboard/analytics.rs\<close>).

  The aggregated tables are filled by a job outside the program and are lists of rows here. A day is a
  number; how ClickHouse dates an instant, the hour it starts in and its approximate quantiles are
  parameters, as is the failure of a query.
\<close>

section \<open>Rows\<close>

record usage_daily_row =
  ud_workspace_id :: uuid
  ud_model :: string
  ud_usage_date :: int
  ud_input_tokens :: "64 word"
  ud_output_tokens :: "64 word"
  ud_reasoning_tokens :: "64 word"
  ud_cost_usd :: rat
  ud_request_count :: "64 word"
  ud_estimated_request_count :: "64 word"

text \<open>The mart has the column \<open>workspace_id\<close>, which the query reads and does not return.\<close>

record cost_by_model_row =
  cb_model :: string
  cb_usage_date :: int
  cb_daily_cost_usd :: rat
  cb_daily_request_count :: "64 word"
  cb_rolling_7d_cost_usd :: rat
  cb_rolling_30d_cost_usd :: rat

record policy_violations_row =
  pv_workspace_id :: uuid
  pv_rule_id :: uuid
  pv_rule_name :: string
  pv_action :: string
  pv_violation_date :: int
  pv_violation_count :: "64 word"
  pv_dry_run_count :: "64 word"
  pv_enforced_count :: "64 word"

text \<open>\<open>LatencyPctilesRow\<close> and \<open>LatencyPctilesHourlyRow\<close>: the bucket is a day in the one and an hour in the other.\<close>

record latency_pctiles_row =
  lt_workspace_id :: uuid
  lt_model :: string
  lt_bucket :: int
  lt_latency :: "rat \<times> rat \<times> rat"
  lt_ttft :: "rat \<times> rat \<times> rat"
  lt_ttft_sample_count :: "64 word"
  lt_sample_count :: "64 word"

datatype ch_error = BadResponse string | OtherError string

record reader_env =
  rv_display :: "ch_error \<Rightarrow> string"
  rv_to_date :: "int \<Rightarrow> int"
  rv_start_of_hour :: "int \<Rightarrow> int"
  rv_quantile :: "rat \<Rightarrow> nat list \<Rightarrow> rat"
  rv_uuid_rank :: "uuid \<Rightarrow> nat"
  rv_mart_err :: "string \<Rightarrow> ch_error option"
  rv_raw_err :: "string \<Rightarrow> ch_error option"

record marts =
  mt_usage_daily :: "usage_daily_row list"
  mt_cost_by_model :: "(uuid \<times> cost_by_model_row) list"
  mt_policy_violations :: "policy_violations_row list"
  mt_latency :: "latency_pctiles_row list"

section \<open>Guards and errors\<close>

definition validate_date_range :: "int \<Rightarrow> int \<Rightarrow> (api_error, unit) result" where
  "validate_date_range f t =
     rbind (guard_err (t < f) (Forbidden (''invalid date range: 'to' must be >= 'from'' @ [CHR 0x27]))) (\<lambda>_.
       guard_err (t - f > 366) (Forbidden (''date range too large: '' @ show_nat (nat (t - f)) @ '' days (max 366)'')))"

fun is_missing_table_err :: "ch_error \<Rightarrow> bool" where
  "is_missing_table_err (BadResponse msg) =
     (str_contains msg ''doesn't exist'' \<or> str_contains msg ''UNKNOWN_TABLE'' \<or> str_contains msg ''UNKNOWN_DATABASE'' \<or>
      str_contains msg ''Unknown table expression identifier'')"
| "is_missing_table_err (OtherError _) = False"

definition is_stale_mart_err :: "ch_error \<Rightarrow> bool" where
  "is_stale_mart_err e =
     (is_missing_table_err e \<or>
      (case e of
         BadResponse msg \<Rightarrow> str_contains msg ''UNKNOWN_IDENTIFIER'' \<or> str_contains msg ''Unknown expression identifier'' \<or>
           str_contains msg ''There's no column'' \<or> str_contains msg ''Missing columns''
       | OtherError _ \<Rightarrow> False))"

definition map_ch_error :: "reader_env \<Rightarrow> (ch_error, 'a list) result \<Rightarrow> string \<Rightarrow> (api_error, 'a list) result" where
  "map_ch_error env res mart_name =
     (case res of
        Inr rows \<Rightarrow> Inr rows
      | Inl e \<Rightarrow> if is_missing_table_err e then Inr []
          else Inl (Internal (''ClickHouse query error on '' @ mart_name @ '': '' @ rv_display env e)))"

text \<open>What the four queries share: the mart answers when it can and is not empty, otherwise the raw rows do.\<close>

definition mart_or_raw ::
  "reader_env \<Rightarrow> (ch_error \<Rightarrow> bool) \<Rightarrow> string \<Rightarrow> 'a list \<Rightarrow> (api_error, 'a list) result \<Rightarrow> (api_error, 'a list) result" where
  "mart_or_raw env falls_back mart_name found raw =
     (case rv_mart_err env mart_name of
        None \<Rightarrow> if found \<noteq> [] then Inr found else raw
      | Some e \<Rightarrow> if falls_back e then raw
          else Inl (Internal (''ClickHouse query error on '' @ mart_name @ '': '' @ rv_display env e)))"

definition raw_or_err :: "reader_env \<Rightarrow> string \<Rightarrow> string \<Rightarrow> 'a list \<Rightarrow> (api_error, 'a list) result" where
  "raw_or_err env kind tbl rows =
     (case rv_raw_err env tbl of
        None \<Rightarrow> Inr rows
      | Some e \<Rightarrow> Inl (Internal (''ClickHouse '' @ kind @ '' query error on '' @ tbl @ '': '' @ rv_display env e)))"

section \<open>Aggregation\<close>

text \<open>\<open>GROUP BY\<close>: one row per key that occurs, made of the rows with that key.\<close>

definition group_by :: "('a \<Rightarrow> 'k) \<Rightarrow> ('k \<Rightarrow> 'a list \<Rightarrow> 'r) \<Rightarrow> 'a list \<Rightarrow> 'r list" where
  "group_by key mk xs = map (\<lambda>k. mk k (filter (\<lambda>x. key x = k) xs)) (remdups (map key xs))"

definition in_days :: "reader_env \<Rightarrow> int \<Rightarrow> int \<Rightarrow> int \<Rightarrow> bool" where
  "in_days env f t created = (f \<le> rv_to_date env created \<and> rv_to_date env created \<le> t)"

definition model_is :: "string option \<Rightarrow> string \<Rightarrow> bool" where
  "model_is model m = (case model of None \<Rightarrow> True | Some x \<Rightarrow> m = x)"

abbreviation sum_words :: "('a \<Rightarrow> 32 word option) \<Rightarrow> 'a list \<Rightarrow> 64 word" where
  "sum_words f xs \<equiv> sum_list (map (\<lambda>x. ucast (unwrap_or 0 (f x))) xs)"

abbreviation count_if :: "('a \<Rightarrow> bool) \<Rightarrow> 'a list \<Rightarrow> 64 word" where
  "count_if P xs \<equiv> of_nat (length (filter P xs))"

definition events_in :: "reader_env \<Rightarrow> ch_row list \<Rightarrow> uuid \<Rightarrow> int \<Rightarrow> int \<Rightarrow> string option \<Rightarrow> request_event_row list" where
  "events_in env rows ws f t model =
     filter (\<lambda>r. re_workspace_id (rr_event r) = ws \<and> in_days env f t (rr_created_at r) \<and> model_is model (re_model (rr_event r))) (request_rows rows)"

definition usage_daily_raw :: "reader_env \<Rightarrow> ch_row list \<Rightarrow> uuid \<Rightarrow> int \<Rightarrow> int \<Rightarrow> string option \<Rightarrow> usage_daily_row list" where
  "usage_daily_raw env rows ws f t model =
     sort_key ud_usage_date (group_by (\<lambda>r. (re_workspace_id (rr_event r), re_model (rr_event r), rv_to_date env (rr_created_at r)))
       (\<lambda>(w, m, d) rs. \<lparr>ud_workspace_id = w, ud_model = m, ud_usage_date = d,
          ud_input_tokens = sum_words (\<lambda>r. input_tokens (re_usage (rr_event r))) rs,
          ud_output_tokens = sum_words (\<lambda>r. output_tokens (re_usage (rr_event r))) rs,
          ud_reasoning_tokens = sum_words (\<lambda>r. reasoning_tokens (re_usage (rr_event r))) rs,
          ud_cost_usd = sum_list (map (\<lambda>r. re_cost_usd (rr_event r)) rs),
          ud_request_count = of_nat (length rs), ud_estimated_request_count = count_if (\<lambda>r. re_estimated_usage (rr_event r)) rs\<rparr>)
       (events_in env rows ws f t model))"

definition query_usage_daily_raw_fallback ::
  "reader_env \<Rightarrow> ch_row list \<Rightarrow> uuid \<Rightarrow> int \<Rightarrow> int \<Rightarrow> string option \<Rightarrow> (api_error, usage_daily_row list) result" where
  "query_usage_daily_raw_fallback env rows ws f t model = raw_or_err env ''fallback'' ''request_events'' (usage_daily_raw env rows ws f t model)"

definition query_usage_daily ::
  "reader_env \<Rightarrow> marts \<Rightarrow> ch_row list \<Rightarrow> uuid \<Rightarrow> int \<Rightarrow> int \<Rightarrow> string option \<Rightarrow> (api_error, usage_daily_row list) result" where
  "query_usage_daily env mt rows ws f t model =
     rbind (validate_date_range f t) (\<lambda>_.
       mart_or_raw env is_missing_table_err ''mart_usage_daily''
         (filter (\<lambda>r. ud_workspace_id r = ws \<and> f \<le> ud_usage_date r \<and> ud_usage_date r \<le> t \<and> model_is model (ud_model r)) (mt_usage_daily mt))
         (query_usage_daily_raw_fallback env rows ws f t model))"

definition cost_by_model_raw :: "reader_env \<Rightarrow> ch_row list \<Rightarrow> uuid \<Rightarrow> int \<Rightarrow> int \<Rightarrow> cost_by_model_row list" where
  "cost_by_model_raw env rows ws f t =
     sort_key (\<lambda>r. (cb_usage_date r, map of_char (cb_model r) :: nat list))
       (group_by (\<lambda>r. (re_model (rr_event r), rv_to_date env (rr_created_at r)))
       (\<lambda>(m, d) rs. let cost = sum_list (map (\<lambda>r. re_cost_usd (rr_event r)) rs) in
          \<lparr>cb_model = m, cb_usage_date = d, cb_daily_cost_usd = cost, cb_daily_request_count = of_nat (length rs),
           cb_rolling_7d_cost_usd = cost, cb_rolling_30d_cost_usd = cost\<rparr>)
       (events_in env rows ws f t None))"

definition query_cost_by_model_raw_fallback ::
  "reader_env \<Rightarrow> ch_row list \<Rightarrow> uuid \<Rightarrow> int \<Rightarrow> int \<Rightarrow> (api_error, cost_by_model_row list) result" where
  "query_cost_by_model_raw_fallback env rows ws f t = raw_or_err env ''fallback'' ''request_events'' (cost_by_model_raw env rows ws f t)"

definition query_cost_by_model ::
  "reader_env \<Rightarrow> marts \<Rightarrow> ch_row list \<Rightarrow> uuid \<Rightarrow> int \<Rightarrow> int \<Rightarrow> (api_error, cost_by_model_row list) result" where
  "query_cost_by_model env mt rows ws f t =
     rbind (validate_date_range f t) (\<lambda>_.
       mart_or_raw env is_stale_mart_err ''mart_cost_by_model''
         (map snd (filter (\<lambda>x. fst x = ws \<and> f \<le> cb_usage_date (snd x) \<and> cb_usage_date (snd x) \<le> t) (mt_cost_by_model mt)))
         (query_cost_by_model_raw_fallback env rows ws f t))"

text \<open>\<open>any\<close> takes the value of some row of the group; the first one stands for it.\<close>

definition violations_in :: "reader_env \<Rightarrow> ch_row list \<Rightarrow> uuid \<Rightarrow> int \<Rightarrow> int \<Rightarrow> policy_event_row list" where
  "violations_in env rows ws f t = filter (\<lambda>p. per_workspace_id p = ws \<and> in_days env f t (per_created_at p)) (policy_rows rows)"

definition policy_violations_raw :: "reader_env \<Rightarrow> ch_row list \<Rightarrow> uuid \<Rightarrow> int \<Rightarrow> int \<Rightarrow> policy_violations_row list" where
  "policy_violations_raw env rows ws f t =
     sort_key (\<lambda>r. (pv_violation_date r, rv_uuid_rank env (pv_rule_id r)))
       (group_by (\<lambda>p. (per_workspace_id p, ev_rule_id (per_event p), rv_to_date env (per_created_at p)))
       (\<lambda>(w, rule, d) ps. \<lparr>pv_workspace_id = w, pv_rule_id = rule,
          pv_rule_name = (case ps of [] \<Rightarrow> [] | p # _ \<Rightarrow> ev_rule_name (per_event p)),
          pv_action = (case ps of [] \<Rightarrow> [] | p # _ \<Rightarrow> ev_action (per_event p)),
          pv_violation_date = d, pv_violation_count = of_nat (length ps),
          pv_dry_run_count = count_if (\<lambda>p. ev_dry_run (per_event p)) ps, pv_enforced_count = count_if (\<lambda>p. \<not> ev_dry_run (per_event p)) ps\<rparr>)
       (violations_in env rows ws f t))"

definition query_policy_violations_raw_fallback ::
  "reader_env \<Rightarrow> ch_row list \<Rightarrow> uuid \<Rightarrow> int \<Rightarrow> int \<Rightarrow> (api_error, policy_violations_row list) result" where
  "query_policy_violations_raw_fallback env rows ws f t = raw_or_err env ''fallback'' ''policy_events'' (policy_violations_raw env rows ws f t)"

definition query_policy_violations ::
  "reader_env \<Rightarrow> marts \<Rightarrow> ch_row list \<Rightarrow> uuid \<Rightarrow> int \<Rightarrow> int \<Rightarrow> (api_error, policy_violations_row list) result" where
  "query_policy_violations env mt rows ws f t =
     rbind (validate_date_range f t) (\<lambda>_.
       mart_or_raw env is_missing_table_err ''mart_policy_violations''
         (filter (\<lambda>r. pv_workspace_id r = ws \<and> f \<le> pv_violation_date r \<and> pv_violation_date r \<le> t) (mt_policy_violations mt))
         (query_policy_violations_raw_fallback env rows ws f t))"

fun latency_row_of :: "ch_row \<Rightarrow> latency_sample_row option" where
  "latency_row_of (LatencyRow r) = Some r"
| "latency_row_of _ = None"

definition samples_in :: "reader_env \<Rightarrow> ch_row list \<Rightarrow> uuid \<Rightarrow> int \<Rightarrow> int \<Rightarrow> string option \<Rightarrow> latency_sample_row list" where
  "samples_in env rows ws f t model =
     filter (\<lambda>s. ls_workspace_id s = ws \<and> in_days env f t (ls_created_at s) \<and> model_is model (ls_model s)) (List.map_filter latency_row_of rows)"

definition percentiles :: "reader_env \<Rightarrow> nat list \<Rightarrow> rat \<times> rat \<times> rat" where
  "percentiles env xs = (rv_quantile env (1 / 2) xs, rv_quantile env (95 / 100) xs, rv_quantile env (99 / 100) xs)"

definition latency_raw :: "reader_env \<Rightarrow> (int \<Rightarrow> int) \<Rightarrow> latency_sample_row list \<Rightarrow> latency_pctiles_row list" where
  "latency_raw env bucket samples =
     sort_key (\<lambda>r. (lt_bucket r, map of_char (lt_model r) :: nat list))
       (group_by (\<lambda>s. (ls_workspace_id s, ls_model s, bucket (ls_created_at s)))
       (\<lambda>(w, m, b) ss. let ttfts = List.map_filter ls_ttft_ms ss in
          \<lparr>lt_workspace_id = w, lt_model = m, lt_bucket = b, lt_latency = percentiles env (map ls_latency_ms ss), lt_ttft = percentiles env ttfts,
           lt_ttft_sample_count = of_nat (length ttfts), lt_sample_count = of_nat (length ss)\<rparr>)
       samples)"

definition query_latency_pctiles_raw_fallback ::
  "reader_env \<Rightarrow> ch_row list \<Rightarrow> uuid \<Rightarrow> int \<Rightarrow> int \<Rightarrow> string option \<Rightarrow> (api_error, latency_pctiles_row list) result" where
  "query_latency_pctiles_raw_fallback env rows ws f t model =
     raw_or_err env ''fallback'' ''latency_samples'' (latency_raw env (rv_to_date env) (samples_in env rows ws f t model))"

definition query_latency_pctiles ::
  "reader_env \<Rightarrow> marts \<Rightarrow> ch_row list \<Rightarrow> uuid \<Rightarrow> int \<Rightarrow> int \<Rightarrow> string option \<Rightarrow> (api_error, latency_pctiles_row list) result" where
  "query_latency_pctiles env mt rows ws f t model =
     rbind (validate_date_range f t) (\<lambda>_.
       mart_or_raw env is_missing_table_err ''mart_latency_pctiles''
         (filter (\<lambda>r. lt_workspace_id r = ws \<and> f \<le> lt_bucket r \<and> lt_bucket r \<le> t \<and> model_is model (lt_model r)) (mt_latency mt))
         (query_latency_pctiles_raw_fallback env rows ws f t model))"

definition query_latency_pctiles_hourly ::
  "reader_env \<Rightarrow> ch_row list \<Rightarrow> uuid \<Rightarrow> int \<Rightarrow> int \<Rightarrow> string option \<Rightarrow> (api_error, latency_pctiles_row list) result" where
  "query_latency_pctiles_hourly env rows ws f t model =
     rbind (validate_date_range f t) (\<lambda>_.
     rbind (guard_err (t - f > 31) (Forbidden (''hourly bucket: range too large ('' @ show_nat (nat (t - f)) @ '' days, max 31)''))) (\<lambda>_.
       raw_or_err env ''hourly'' ''latency_samples'' (latency_raw env (rv_start_of_hour env) (samples_in env rows ws f t model))))"

section \<open>The routes\<close>

datatype dash_effect = MartQueried string | DashboardRequest string string | DashboardError string string

record date_range_params =
  dr_from :: int
  dr_to :: int
  dr_workspace_id :: "uuid option"
  dr_model :: "string option"
  dr_bucket :: "string option"

fun http_code_label :: "api_error \<Rightarrow> string" where
  "http_code_label (Forbidden _) = ''403''"
| "http_code_label (NotFound _) = ''404''"
| "http_code_label (Unauthorized _) = ''401''"
| "http_code_label (BadRequest _) = ''400''"
| "http_code_label (BudgetExceeded _) = ''402''"
| "http_code_label _ = ''500''"

text \<open>
  The frame of the four handlers: a foreign workspace is refused before anything is read or counted, then
  the answer is counted under its endpoint. A query that passes its guards records its duration.
\<close>

definition dashboard_route ::
  "jwt_ctx \<Rightarrow> date_range_params \<Rightarrow> string \<Rightarrow> dash_effect list \<Rightarrow> (api_error, 'a) result \<Rightarrow> dash_effect list \<times> (api_error, 'a) result" where
  "dashboard_route ctx params endpoint queried res =
     (if dr_workspace_id params \<noteq> None \<and> dr_workspace_id params \<noteq> Some (ctx_workspace_id ctx) then ([], Inl (Forbidden ''workspace_id mismatch''))
      else (queried @ (case res of
              Inr _ \<Rightarrow> [DashboardRequest endpoint ''success'']
            | Inl e \<Rightarrow> [DashboardRequest endpoint ''error'', DashboardError endpoint (http_code_label e)]), res))"

definition mart_queried :: "int \<Rightarrow> int \<Rightarrow> string \<Rightarrow> dash_effect list" where
  "mart_queried f t mart = (case validate_date_range f t of Inr _ \<Rightarrow> [MartQueried mart] | Inl _ \<Rightarrow> [])"

definition usage_daily where
  "usage_daily env mt rows ctx params =
     dashboard_route ctx params ''usage-daily'' (mart_queried (dr_from params) (dr_to params) ''mart_usage_daily'')
       (query_usage_daily env mt rows (ctx_workspace_id ctx) (dr_from params) (dr_to params) (dr_model params))"

definition cost_by_model where
  "cost_by_model env mt rows ctx params =
     dashboard_route ctx params ''cost-by-model'' (mart_queried (dr_from params) (dr_to params) ''mart_cost_by_model'')
       (query_cost_by_model env mt rows (ctx_workspace_id ctx) (dr_from params) (dr_to params))"

definition policy_violations where
  "policy_violations env mt rows ctx params =
     dashboard_route ctx params ''policy-violations'' (mart_queried (dr_from params) (dr_to params) ''mart_policy_violations'')
       (query_policy_violations env mt rows (ctx_workspace_id ctx) (dr_from params) (dr_to params))"

datatype latency_pctiles_response = Day "latency_pctiles_row list" | Hour "latency_pctiles_row list"

definition latency_pctiles where
  "latency_pctiles env mt rows ctx params =
     (let ws = ctx_workspace_id ctx; f = dr_from params; t = dr_to params in
      if dr_bucket params = Some ''hour''
      then dashboard_route ctx params ''latency-pctiles'' (if t - f > 31 then [] else mart_queried f t ''latency_samples_hourly'')
             (rbind (query_latency_pctiles_hourly env rows ws f t (dr_model params)) (\<lambda>rs. Inr (Hour rs)))
      else dashboard_route ctx params ''latency-pctiles'' (mart_queried f t ''mart_latency_pctiles'')
             (rbind (query_latency_pctiles env mt rows ws f t (dr_model params)) (\<lambda>rs. Inr (Day rs))))"

section \<open>Isolation and conservation\<close>

text \<open>The rows of the stores that belong to a workspace.\<close>

definition workspace_part :: "uuid \<Rightarrow> marts \<Rightarrow> ch_row list \<Rightarrow> _" where
  "workspace_part ws mt rows =
     (filter (\<lambda>r. re_workspace_id (rr_event r) = ws) (request_rows rows), filter (\<lambda>p. per_workspace_id p = ws) (policy_rows rows),
      filter (\<lambda>s. ls_workspace_id s = ws) (List.map_filter latency_row_of rows),
      filter (\<lambda>r. ud_workspace_id r = ws) (mt_usage_daily mt), filter (\<lambda>x. fst x = ws) (mt_cost_by_model mt),
      filter (\<lambda>r. pv_workspace_id r = ws) (mt_policy_violations mt), filter (\<lambda>r. lt_workspace_id r = ws) (mt_latency mt))"

lemma filter_conj_cong: "filter P xs = filter P ys \<Longrightarrow> filter (\<lambda>x. P x \<and> Q x) xs = filter (\<lambda>x. P x \<and> Q x) ys"
  by (metis filter_filter)

text \<open>What the dashboard answers depends on the caller's workspace only, whether a mart or the raw rows answer.\<close>

theorem dashboard_answers_stay_in_workspace:
  assumes "workspace_part (ctx_workspace_id ctx) mt rows = workspace_part (ctx_workspace_id ctx) mt' rows'"
  shows "usage_daily env mt rows ctx params = usage_daily env mt' rows' ctx params"
    and "cost_by_model env mt rows ctx params = cost_by_model env mt' rows' ctx params"
    and "policy_violations env mt rows ctx params = policy_violations env mt' rows' ctx params"
    and "latency_pctiles env mt rows ctx params = latency_pctiles env mt' rows' ctx params"
proof -
  let ?ws = "ctx_workspace_id ctx" let ?f = "dr_from params" let ?t = "dr_to params" let ?m = "dr_model params"
  have p: "filter (\<lambda>r. re_workspace_id (rr_event r) = ?ws) (request_rows rows) = filter (\<lambda>r. re_workspace_id (rr_event r) = ?ws) (request_rows rows')"
    "filter (\<lambda>p. per_workspace_id p = ?ws) (policy_rows rows) = filter (\<lambda>p. per_workspace_id p = ?ws) (policy_rows rows')"
    "filter (\<lambda>s. ls_workspace_id s = ?ws) (List.map_filter latency_row_of rows) = filter (\<lambda>s. ls_workspace_id s = ?ws) (List.map_filter latency_row_of rows')"
    "filter (\<lambda>r. ud_workspace_id r = ?ws) (mt_usage_daily mt) = filter (\<lambda>r. ud_workspace_id r = ?ws) (mt_usage_daily mt')"
    "filter (\<lambda>x. fst x = ?ws) (mt_cost_by_model mt) = filter (\<lambda>x. fst x = ?ws) (mt_cost_by_model mt')"
    "filter (\<lambda>r. pv_workspace_id r = ?ws) (mt_policy_violations mt) = filter (\<lambda>r. pv_workspace_id r = ?ws) (mt_policy_violations mt')"
    "filter (\<lambda>r. lt_workspace_id r = ?ws) (mt_latency mt) = filter (\<lambda>r. lt_workspace_id r = ?ws) (mt_latency mt')"
    using assms by (simp_all add: workspace_part_def)
  have e: "events_in env rows ?ws ?f ?t m = events_in env rows' ?ws ?f ?t m" for m
    unfolding events_in_def by (rule filter_conj_cong [OF p(1)])
  have v: "violations_in env rows ?ws ?f ?t = violations_in env rows' ?ws ?f ?t"
    unfolding violations_in_def by (rule filter_conj_cong [OF p(2)])
  have l: "samples_in env rows ?ws ?f ?t m = samples_in env rows' ?ws ?f ?t m" for m
    unfolding samples_in_def by (rule filter_conj_cong [OF p(3)])
  show "usage_daily env mt rows ctx params = usage_daily env mt' rows' ctx params"
    by (simp add: usage_daily_def query_usage_daily_def query_usage_daily_raw_fallback_def usage_daily_raw_def e filter_conj_cong [OF p(4)])
  show "cost_by_model env mt rows ctx params = cost_by_model env mt' rows' ctx params"
    by (simp add: cost_by_model_def query_cost_by_model_def query_cost_by_model_raw_fallback_def cost_by_model_raw_def e filter_conj_cong [OF p(5)])
  show "policy_violations env mt rows ctx params = policy_violations env mt' rows' ctx params"
    by (simp add: policy_violations_def query_policy_violations_def query_policy_violations_raw_fallback_def policy_violations_raw_def v filter_conj_cong [OF p(6)])
  show "latency_pctiles env mt rows ctx params = latency_pctiles env mt' rows' ctx params"
    by (simp add: latency_pctiles_def Let_def query_latency_pctiles_def query_latency_pctiles_hourly_def query_latency_pctiles_raw_fallback_def l filter_conj_cong [OF p(7)])
qed

lemma group_sums:
  fixes g :: "'a \<Rightarrow> 'n::comm_monoid_add"
  shows "distinct ks \<Longrightarrow> (\<And>x. x \<in> set xs \<Longrightarrow> key x \<in> set ks) \<Longrightarrow>
    sum_list (map (\<lambda>k. sum_list (map g (filter (\<lambda>x. key x = k) xs))) ks) = sum_list (map g xs)"
proof (induction xs)
  case (Cons x xs)
  have "sum_list (map (\<lambda>k. sum_list (map g (filter (\<lambda>y. key y = k) (x # xs)))) ks) =
      sum_list (map (\<lambda>k. (if key x = k then g x else 0) + sum_list (map g (filter (\<lambda>y. key y = k) xs))) ks)"
    by (rule arg_cong [of _ _ sum_list]) simp
  also have "\<dots> = sum_list (map (\<lambda>k. if key x = k then g x else 0) ks) + sum_list (map g xs)"
    using Cons by (simp add: sum_list_addf)
  also have "sum_list (map (\<lambda>k. if key x = k then g x else 0) ks) = g x"
    using Cons.prems by (simp add: sum_list_distinct_conv_sum_set sum.delta)
  finally show ?case by simp
qed simp

lemma sum_insort_key: "sum_list (map g (insort_key f x xs)) = g x + sum_list (map g xs)" for g :: "'a \<Rightarrow> 'n::comm_monoid_add"
  by (induction xs) (simp_all add: add.left_commute)

lemma sum_sort_key: "sum_list (map g (sort_key f xs)) = sum_list (map g xs)" for g :: "'a \<Rightarrow> 'n::comm_monoid_add"
  by (induction xs) (simp_all add: sum_insort_key)

lemma sum_group_by:
  fixes g :: "'a \<Rightarrow> 'n::comm_monoid_add"
  assumes "\<And>k rs. h (mk k rs) = sum_list (map g rs)"
  shows "sum_list (map h (group_by key mk xs)) = sum_list (map g xs)"
  using group_sums [of "remdups (map key xs)" xs key g] by (simp add: group_by_def assms comp_def)

text \<open>
  The daily figures made from the raw rows account for every request of the workspace in the range once:
  their counts, tokens and costs add up to those of the requests (tokens and counts in 64 bits).
\<close>

theorem usage_fallback_conserves:
  fixes env rows ws f t model
  defines "es \<equiv> events_in env rows ws f t model" and "ds \<equiv> usage_daily_raw env rows ws f t model"
  shows "sum_list (map ud_request_count ds) = of_nat (length es)"
    and "sum_list (map ud_input_tokens ds) = sum_words (\<lambda>r. input_tokens (re_usage (rr_event r))) es"
    and "sum_list (map ud_output_tokens ds) = sum_words (\<lambda>r. output_tokens (re_usage (rr_event r))) es"
    and "sum_list (map ud_cost_usd ds) = sum_list (map (\<lambda>r. re_cost_usd (rr_event r)) es)"
proof -
  have n: "of_nat (length rs) = (sum_list (map (\<lambda>_. 1) rs) :: 64 word)" for rs :: "'a list" by (induction rs) simp_all
  show "sum_list (map ud_request_count ds) = of_nat (length es)"
    unfolding n ds_def es_def usage_daily_raw_def sum_sort_key by (rule sum_group_by) (simp add: n split: prod.split)
  show "sum_list (map ud_input_tokens ds) = sum_words (\<lambda>r. input_tokens (re_usage (rr_event r))) es"
    unfolding ds_def es_def usage_daily_raw_def sum_sort_key by (rule sum_group_by) (simp split: prod.split)
  show "sum_list (map ud_output_tokens ds) = sum_words (\<lambda>r. output_tokens (re_usage (rr_event r))) es"
    unfolding ds_def es_def usage_daily_raw_def sum_sort_key by (rule sum_group_by) (simp split: prod.split)
  show "sum_list (map ud_cost_usd ds) = sum_list (map (\<lambda>r. re_cost_usd (rr_event r)) es)"
    unfolding ds_def es_def usage_daily_raw_def sum_sort_key by (rule sum_group_by) (simp split: prod.split)
qed

end
