(* ===== verification/Mcp_Server.thy ===== *)
theory Mcp_Server
  imports Audit_Reader
begin

text \<open>
  The tool server (\<open>secureprompt-mcp/src/main.rs\<close>): eight tools that forward to the gateway over HTTP with one
  service key. The transport to its client is the rmcp crate's; HTTP answers, the JSON parser and the text
  of a status are parameters. A tool gives the requests it sends in order and its result.
\<close>

section \<open>Requests to the gateway\<close>

record mcp_server =
  ms_api_base_url :: string
  ms_service_key :: string

datatype http_method = HttpGet | HttpPost

record api_request =
  aq_method :: http_method
  aq_url :: string
  aq_headers :: "(string \<times> string) list"
  aq_body :: "json option"

text \<open>An answer is a failure to send, or a status with the text or the failure to read it.\<close>

record tool_env =
  mcp_http :: "api_request \<Rightarrow> (string, nat \<times> (string, string) result) result"
  mcp_status_str :: "nat \<Rightarrow> string"
  mcp_parse_json :: "string \<Rightarrow> (string, json) result"

definition mcp_server_new :: "string \<Rightarrow> string \<Rightarrow> mcp_server" where
  "mcp_server_new api_base_url service_key = \<lparr>ms_api_base_url = api_base_url, ms_service_key = service_key\<rparr>"

definition api_answer :: "tool_env \<Rightarrow> (string, nat \<times> (string, string) result) result \<Rightarrow> (string, string) result" where
  "api_answer env answer =
     rbind (map_err (\<lambda>e. ''API request failed: '' @ e) answer) (\<lambda>(status, body).
     rbind (map_err (\<lambda>e. ''API response read failed: '' @ e) body) (\<lambda>text'.
     rbind (guard_err (\<not> (200 \<le> status \<and> status < 300)) (''API returned '' @ mcp_status_str env status @ '': '' @ text')) (\<lambda>_.
       Inr text')))"

definition post_request :: "mcp_server \<Rightarrow> string \<Rightarrow> json \<Rightarrow> api_request" where
  "post_request srv path body =
     \<lparr>aq_method = HttpPost, aq_url = trim_end_slash (ms_api_base_url srv) @ path,
      aq_headers = [(''Authorization'', ''Bearer '' @ ms_service_key srv), (''Content-Type'', ''application/json'')], aq_body = Some body\<rparr>"

definition get_request :: "mcp_server \<Rightarrow> string \<Rightarrow> api_request" where
  "get_request srv path =
     \<lparr>aq_method = HttpGet, aq_url = trim_end_slash (ms_api_base_url srv) @ path,
      aq_headers = [(''Authorization'', ''Bearer '' @ ms_service_key srv)], aq_body = None\<rparr>"

definition api_post :: "tool_env \<Rightarrow> mcp_server \<Rightarrow> string \<Rightarrow> json \<Rightarrow> (string, string) result" where
  "api_post env srv path body = api_answer env (mcp_http env (post_request srv path body))"

definition api_get :: "tool_env \<Rightarrow> mcp_server \<Rightarrow> string \<Rightarrow> (string, string) result" where
  "api_get env srv path = api_answer env (mcp_http env (get_request srv path))"

section \<open>Tools\<close>

definition opt_field :: "string \<Rightarrow> ('a \<Rightarrow> json) \<Rightarrow> 'a option \<Rightarrow> (string \<times> json) list" where
  "opt_field k f v = (case v of None \<Rightarrow> [] | Some x \<Rightarrow> [(k, f x)])"

definition post_tool :: "tool_env \<Rightarrow> mcp_server \<Rightarrow> string \<Rightarrow> json \<Rightarrow> api_request list \<times> (string, string) result" where
  "post_tool env srv path body = ([post_request srv path body], api_post env srv path body)"

definition redact_tool where
  "redact_tool env srv t = post_tool env srv ''/v1/redact'' (JObj [(''text'', JStr t)])"

definition estimate_tokens_tool where
  "estimate_tokens_tool env srv t provider model =
     post_tool env srv ''/v1/tokens/estimate'' (JObj ([(''text'', JStr t)] @ opt_field ''provider'' JStr provider @ opt_field ''model'' JStr model))"

definition audit_query_path :: "nat option \<Rightarrow> string option \<Rightarrow> string" where
  "audit_query_path limit since =
     (let n = min (unwrap_or 20 limit) 100 in
      ''/v1/requests?limit='' @ show_nat n @ (case since of None \<Rightarrow> [] | Some s \<Rightarrow> ''&since='' @ s))"

definition audit_query_tool :: "tool_env \<Rightarrow> mcp_server \<Rightarrow> nat option \<Rightarrow> string option \<Rightarrow> api_request list \<times> (string, string) result" where
  "audit_query_tool env srv limit since =
     (let path = audit_query_path limit since in ([get_request srv path], api_get env srv path))"

definition policy_check_body :: "string \<Rightarrow> json" where
  "policy_check_body prompt = JObj [(''prompt'', JStr prompt), (''dry_run'', JBool True)]"

definition policy_check_tool where
  "policy_check_tool env srv prompt = post_tool env srv ''/v1/policy/check'' (policy_check_body prompt)"

definition list_providers_tool :: "tool_env \<Rightarrow> mcp_server \<Rightarrow> api_request list \<times> (string, string) result" where
  "list_providers_tool env srv = ([get_request srv ''/v1/providers''], api_get env srv ''/v1/providers'')"

definition chat_fields :: "string \<Rightarrow> json \<Rightarrow> (string \<times> json) list" where
  "chat_fields model messages = [(''model'', JStr model), (''messages'', messages), (''stream'', JBool False)]"

definition chat_tool where
  "chat_tool env srv model messages max_tokens temperature =
     post_tool env srv ''/v1/chat/completions'' (JObj (chat_fields model messages @
       opt_field ''max_tokens'' (\<lambda>n::32 word. JNum (of_nat (unat n))) max_tokens @ opt_field ''temperature'' JNum temperature))"

definition embeddings_tool where
  "embeddings_tool env srv input model =
     post_tool env srv ''/v1/embeddings'' (JObj ([(''input'', input)] @ opt_field ''model'' JStr model))"

definition push_user_message :: "json \<Rightarrow> string \<Rightarrow> json" where
  "push_user_message messages t =
     (case messages of JArr xs \<Rightarrow> JArr (xs @ [JObj [(''role'', JStr ''user''), (''content'', JStr t)]]) | _ \<Rightarrow> messages)"

definition redact_wrapper_tool ::
  "tool_env \<Rightarrow> mcp_server \<Rightarrow> string \<Rightarrow> string \<Rightarrow> json option \<Rightarrow> api_request list \<times> (string, string) result" where
  "redact_wrapper_tool env srv prompt model messages =
     (let redact = post_request srv ''/v1/redact'' (JObj [(''text'', JStr prompt)]) in
      case rbind (api_post env srv ''/v1/redact'' (JObj [(''text'', JStr prompt)])) (\<lambda>raw.
             map_err (\<lambda>e. ''redact parse failed: '' @ e) (mcp_parse_json env raw)) of
        Inl e \<Rightarrow> ([redact], Inl e)
      | Inr answer \<Rightarrow>
          (let redacted_text = unwrap_or prompt (get_str answer ''redacted_text'');
               body = JObj (chat_fields model (push_user_message (unwrap_or (JArr []) messages) redacted_text))
           in ([redact, post_request srv ''/v1/chat/completions'' body], api_post env srv ''/v1/chat/completions'' body)))"

section \<open>What the tools send\<close>

text \<open>Every tool sends to the configured gateway only, with the service key.\<close>

definition to_gateway :: "mcp_server \<Rightarrow> api_request \<Rightarrow> bool" where
  "to_gateway srv q = (prefix (trim_end_slash (ms_api_base_url srv) @ ''/v1/'') (aq_url q) \<and>
     map_of (aq_headers q) ''Authorization'' = Some (''Bearer '' @ ms_service_key srv))"

lemma tools_send_to_gateway:
  assumes "q \<in> set (fst (redact_tool env srv t)) \<union> set (fst (estimate_tokens_tool env srv t provider model)) \<union> set (fst (audit_query_tool env srv limit since)) \<union>
    set (fst (policy_check_tool env srv t)) \<union> set (fst (list_providers_tool env srv)) \<union> set (fst (chat_tool env srv m messages max_tokens temperature)) \<union>
    set (fst (embeddings_tool env srv input model)) \<union> set (fst (redact_wrapper_tool env srv t m ms))"
  shows "to_gateway srv q"
  using assms
  by (auto simp: to_gateway_def redact_tool_def estimate_tokens_tool_def audit_query_tool_def audit_query_path_def policy_check_tool_def
    list_providers_tool_def chat_tool_def embeddings_tool_def redact_wrapper_tool_def post_tool_def post_request_def get_request_def Let_def split: sum.splits)

text \<open>
  When the gateway redacted the prompt, the chat request of \<open>redact_wrapper\<close> is a function of the redacted
  text: the prompt itself is in the first request only.
\<close>

lemma redact_wrapper_forwards_redaction:
  assumes "api_post env srv ''/v1/redact'' (JObj [(''text'', JStr prompt)]) = Inr raw" "mcp_parse_json env raw = Inr answer"
    and "get_str answer ''redacted_text'' = Some safe"
  shows "fst (redact_wrapper_tool env srv prompt model (Some (JArr earlier))) =
    [post_request srv ''/v1/redact'' (JObj [(''text'', JStr prompt)]),
     post_request srv ''/v1/chat/completions'' (JObj (chat_fields model (JArr (earlier @ [JObj [(''role'', JStr ''user''), (''content'', JStr safe)]]))))]"
  using assms by (simp add: redact_wrapper_tool_def map_err_def push_user_message_def Let_def)

text \<open>
  Without a text under \<open>redacted_text\<close> the prompt goes out as it came, and when the earlier messages are
  no array the prompt does not go out at all.
\<close>

lemma redact_wrapper_falls_back_to_prompt:
  assumes "api_post env srv ''/v1/redact'' (JObj [(''text'', JStr prompt)]) = Inr raw" "mcp_parse_json env raw = Inr answer"
    and "get_str answer ''redacted_text'' = None"
  shows "last (fst (redact_wrapper_tool env srv prompt model None)) =
    post_request srv ''/v1/chat/completions'' (JObj (chat_fields model (JArr [JObj [(''role'', JStr ''user''), (''content'', JStr prompt)]])))"
  using assms by (simp add: redact_wrapper_tool_def map_err_def push_user_message_def Let_def unwrap_or_def)

text \<open>The body of \<open>policy_check\<close> has no \<open>text\<close>, which the route of that name requires.\<close>

lemma policy_check_body_lacks_text: "json_get (policy_check_body prompt) ''text'' = None"
  by (simp add: policy_check_body_def)

end
