(* ===== verification/Spec2Isabelle.thy ===== *)
theory Spec2Isabelle
  imports Policy_Store Pipeline_Stream Provider_Http Two_Factor License Export_Props Retention_Purge Ml_Client Sign_On Scan_Routes Worker_Loop Dashboard_Reader Mcp_Server
begin

text \<open>
  A verification development of SecurePrompt, a gateway between an organisation's clients and
  its model providers. A request's messages are scanned for personal data, the findings are
  replaced by placeholders, policy rules and the workspace's secure mode decide whether and in
  which form the prompt goes out, a provider chain answers, and the placeholders in the answer
  are restored for the client. Every request leaves an event for the audit. Around this path lie a
  dashboard with its sign-in, the administration of keys, providers, rules and budgets, licensing,
  a worker for the periodic and queued tasks, and a signed export of the audit trail.

  Paths are below \<open>src/\<close>; \<open>api\<close> is \<open>secureprompt-api/src\<close>, \<open>common\<close> is \<open>secureprompt-common/src\<close>,
  \<open>worker\<close> is \<open>secureprompt-worker/src\<close>, \<open>dashboard\<close> is \<open>api/http/routes/dashboard\<close>. Every theory opens
  with what it holds; the names C1 to C40 mark the main properties where they stand.

  \<^bold>\<open>Shared ground.\<close>

  \<^item> \<open>SP_Prelude\<close>: the Rust standard library as the code uses it. A \<open>&str\<close> is a byte string
    indexed by byte; \<open>find\<close>, \<open>replace\<close>, \<open>split\<close>, \<open>trim\<close>, character boundaries, UTF-8 decoding,
    JSON values and the result combinators that stand for \<open>?\<close> (\<open>rbind\<close>, \<open>guard_err\<close>, \<open>ok_or\<close>,
    \<open>map_err\<close>).
  \<^item> \<open>SP_Types\<close>: \<open>common/errors.rs\<close>, \<open>common/types.rs\<close>, \<open>common/pipeline.rs\<close>: errors, detections,
    messages, token usage, the token vault (insert, resolve, restore) and the pipeline state. The
    locale \<open>keyed_store\<close> states what a keyed store promises and is interpreted on the vault.
  \<^item> \<open>Admin_Db\<close>: roles (\<open>api/http/middleware/jwt_auth.rs\<close>, \<open>dashboard/role.rs\<close>), the arming of the
    workspace scope of a transaction (\<open>api/db/scope.rs\<close>) and the administrative audit trail
    (\<open>api/db/admin_audit_repo.rs\<close>).
  \<^item> \<open>Redis_Store\<close>: \<open>api/redis/mod.rs\<close>: keys with an expiry and every operation on them.
  \<^item> \<open>Key_Config\<close>: \<open>common/config.rs\<close>, \<open>common/crypto.rs\<close>, \<open>common/kms.rs\<close>: settings and their defaults,
    the refusal of placeholder secrets, and the two key-management backends, which open what they
    sealed; the vaults and captures of the other theories assume this of their encryption.

  \<^bold>\<open>The request path.\<close>

  \<^item> \<open>Placeholder_Text\<close>, \<open>Vault_Redaction\<close>, \<open>Streaming\<close>: texts of literals and placeholders;
    \<open>api/vault/redaction.rs\<close>, whose variables are the record \<open>redact_st\<close> and whose loop body is
    \<open>redact_step\<close>; \<open>api/http/streaming.rs\<close>. Redaction hides the bytes under its spans (C1), redaction
    followed by restoration is the identity (C2), and both versions of chunk assembly restore the
    whole text whatever the chunk boundaries are (C3, C4); C2 and C3 are about texts whose braces
    belong to placeholders, well-formed vaults and detections that report the bytes they span. The locale \<open>chunk_restorer\<close> states what
    chunk assembly needs of a restorer and is interpreted on the vault's \<open>restore\<close>.
  \<^item> \<open>Policy_Engine\<close>: \<open>api/policy/engine.rs\<close>, \<open>events.rs\<close>. The loop refines a first-match
    specification (C6).
  \<^item> \<open>Sidecar\<close>, \<open>Ml_Client\<close>: coverage of the detection sidecar and its policy
    (\<open>api/ml_sidecar/types.rs\<close>, \<open>api/analytics/engines.rs\<close>, \<open>api/db/sidecar_policy_repo.rs\<close>) and its client
    (\<open>api/ml_sidecar/client.rs\<close>): the circuit breaker, the tiling of prompts and the detection loop.
    Complete coverage means that every byte was read (C16).
  \<^item> \<open>Token_Usage\<close>, \<open>Request_Event\<close>, \<open>Analytics_Writer\<close>: \<open>api/token_usage\<close>, \<open>api/analytics\<close>: usage and
    cost with \<open>u32\<close> as 32-bit words, the event of a request, the sealed capture, the rows written,
    and the writer with its bounded channel, whose events are all accounted for.
  \<^item> \<open>Model_Router\<close>: \<open>api/http/model_router.rs\<close>: the configuration cache and model resolution.
  \<^item> \<open>Pipeline\<close>, \<open>Pipeline_Props\<close>, \<open>Pipeline_Stream\<close>: \<open>prepare\<close>, \<open>execute\<close> and \<open>execute_stream\<close> of
    \<open>api/pipeline/service.rs\<close> with every early return, and the provider chain. A request gives the
    list of its effects in order and its outcome. The properties say what a provider can see, when
    a request is refused, and what comes back (C20 to C22, C25, C26 for \<open>execute\<close>, C27 for \<open>execute_stream\<close>).
  \<^item> \<open>Provider_Http\<close>, \<open>Url_Guard\<close>: the adapters of \<open>api/providers\<close> with the reader of server-sent
    events, independent of how the network cut the body (C32), and the egress guard of the
    credential test (C31). A test gives the log of the requests it sent; the token of a Vertex test is
    acquired by the \<open>gcp_auth\<close> crate, which appears in the log as a step without its own requests.
  \<^item> \<open>Rate_Limit\<close>: \<open>api/http/middleware/rate_limit.rs\<close>, \<open>api/db/budget_repo.rs\<close>, \<open>dashboard/budgets.rs\<close>:
    the sliding window and the token budgets, with their bounds (C28, C29). The ledger of C29 follows the
    requests from the check that charges the estimate to the reconciliation with the tokens used.
  \<^item> \<open>Gateway_Api\<close>: \<open>api/http/routes/openai.rs\<close> behind the request-id middleware: provider calls stay in
    the workspace of the key (C10) and an answer is on record once (C24).
  \<^item> \<open>Scan_Routes\<close>: \<open>api/http/routes/scan_file.rs\<close>, \<open>mcp_routes.rs\<close>: file scans are recorded before they
    leave and private to their workspace (C13).

  \<^bold>\<open>The dashboard.\<close>

  \<^item> \<open>Policy_Store\<close>: \<open>api/db/policy_repo.rs\<close>, \<open>dashboard/policy_rules.rs\<close>: changes are authorised,
    scoped and audited (C9), priorities stay unique (C11). The locale \<open>tenant_server\<close> states
    isolation of one request and gives it for sequences; it is interpreted here (\<open>ps\<close>) and in
    \<open>Provider_Admin\<close> (\<open>pv\<close>).
  \<^item> \<open>Provider_Admin\<close>: \<open>api/db/provider_repo.rs\<close>, \<open>dashboard/providers.rs\<close>: a removed model stays
    removed (C8).
  \<^item> \<open>Api_Keys\<close>: \<open>api/db/api_key_repo.rs\<close>, \<open>dashboard/keys.rs\<close>, \<open>me.rs\<close>: a revoked key stops within the
    lifetime of the cache (C15).
  \<^item> \<open>Secure_Mode_Api\<close>: \<open>dashboard/secure_mode.rs\<close> and the token vault: detokenization inverts
    tokenization (C18).
  \<^item> \<open>Session_Store\<close>, \<open>Session_Auth\<close>, \<open>Two_Factor\<close>, \<open>Sign_On\<close>: refresh tokens rotate once (C33), ended
    sessions stay ended behind the dashboard gate and at the refresh route (C34), guesses at a second
    factor sent one after the other are bounded (C35), a sign-on state is
    redeemed once (C7), and a registered workspace redacts by default (C17). The locale \<open>preserved\<close>
    gives reachability from one step and is interpreted on the rotation and on the sign-in steps.
  \<^item> \<open>License\<close>: \<open>api/license\<close>, the gate and the recovery route: revocation is final until a
    replacement (C37, C38); the compare-and-swap loop returns (C36).

  \<^item> \<open>Audit_Reader\<close>, \<open>Dashboard_Reader\<close>: \<open>dashboard/requests.rs\<close>, \<open>dashboard/analytics.rs\<close>,
    \<open>api/analytics/dashboard_reader.rs\<close>: following the cursors lists each visible request once (C23), a
    captured text reads back, figures stay in the workspace and add up to the requests.

  \<^bold>\<open>The worker and the audit.\<close>

  \<^item> \<open>Audit_Export\<close>, \<open>Audit_Verify\<close>, \<open>Export_Worker\<close>, \<open>Export_Props\<close>: \<open>common/audit_export.rs\<close>,
    \<open>worker/tasks/audit_export.rs\<close>, \<open>dashboard/audit_export.rs\<close>: pages, hash chain, signed manifest and
    verifier (C39, C40), and production and serving (C5, C19). The window of the request rows is the
    code's, with both bounds rounded down to seconds.
  \<^item> \<open>Retention_Purge\<close>: \<open>worker/tasks/retention_purge.rs\<close>: a clean run erases exactly what is overdue
    (C12).
  \<^item> \<open>Worker_Loop\<close>: \<open>worker/main.rs\<close>, \<open>metrics.rs\<close>, \<open>tasks/index_policy_rule.rs\<close>: migrations apply once,
    and in order unless a directory entry was passed over as unreadable (C14), the queues are drained (C30).

  \<^bold>\<open>The tool server.\<close> \<open>Mcp_Server\<close>: the tools of \<open>secureprompt-mcp/src/main.rs\<close> and what they send.

  \<^bold>\<open>Parameters.\<close> The detectors (the sources of \<open>crate::detection\<close> are not in the tree), the
  sidecar's answers, HTTP, the upstream providers, the identity provider, cryptography, base64,
  regular expressions, JSON text, UUID text, clocks and fresh identifiers are fields of
  environment records and arguments of the definitions that use them. PostgreSQL, ClickHouse and
  Redis are modelled by their tables and keys; whether the k-th statement or call fails is a
  field. What a theorem needs of a parameter stands among its hypotheses: opening undoes sealing,
  a signature verifies under its key, a path appended to a URL keeps its host (C31), UUID texts are distinct (C10, C13) and of one length (C10),
  and parse back (C24). Hash maps are association lists whose order is the iteration order; the
  theorems hold for every order.

  \<^bold>\<open>Idealisations.\<close> Floating-point numbers are rationals; case conversion is ASCII;
  \<open>from_utf8_lossy\<close> keeps what is valid; log lines are left out; the semantic rule check of the
  sidecar only logs and is left out. Atomics are sequentially consistent; the circuit breaker and
  the compare-and-swap loop run under arbitrary interference of other requests. One clock serves
  the gateway and PostgreSQL (C35); the clock of Redis may be off by up to 29 seconds where sessions depend on it.
  Instants are seconds, and nanoseconds in the export. A streamed answer is read to its end.
  Handlers that run in several transactions are served one after the other where a theorem says
  so (C34 and C35 among them), and interleave in \<open>Api_Keys\<close> and \<open>Session_Store\<close>.

  \<^bold>\<open>Termination.\<close> Every loop is structural or has a termination measure, but for \<open>bump_loop\<close> of
  \<open>License\<close>, a \<open>partial_function (option)\<close> whose result exists by C36. The queue loop of the worker
  runs for ever in the code; the model runs it for a number of rounds, and C30 says how many
  suffice.

  \<^bold>\<open>Not modelled.\<close> The detectors; the report pages of the dashboard (\<open>data_inventory.rs\<close>,
  \<open>leak_report.rs\<close>), which are queries and prose; the construction of the router, CORS, \<open>internal.rs\<close>
  and \<open>telemetry.rs\<close>; the rendering of the gateway's metrics; start-up of the processes, the cron
  library and the stdio transport of the tool server.
\<close>

end
